(* ===== verification/Prelude.thy ===== *)
theory Prelude
  imports Main "HOL-Library.Word" "HOL-Library.List_Lexorder"
begin

text \<open>
  What the components share: the machine integers of the Rust code and their checked
  addition, big-endian encodings, fallible results (\<open>Result<T, E>\<close> is the sum \<open>'e + 'a\<close>,
  \<open>Inl\<close> the error), UTF-8 strings, and the collections the component proofs draw on.

  A Rust \<open>String\<close> is its byte representation, a list of bytes that \<open>utf8_valid\<close> accepts; its
  \<open>len\<close> is the length of the list and its \<open>cmp\<close> the lexicographic order of the bytes.
  A \<open>usize\<close> is a natural number below \<open>2 ^ 64\<close>.
\<close>

named_theorems parse_simps \<open>what a decoder does on the bytes its encoder wrote\<close>
named_theorems parse_dests \<open>what a decoder's success says of the bytes it consumed\<close>

type_synonym u8 = "8 word"
type_synonym u16 = "16 word"
type_synonym u32 = "32 word"
type_synonym u64 = "64 word"
type_synonym bytes = "u8 list"
type_synonym str = "u8 list"

section \<open>Results\<close>

text \<open>Rust's \<open>?\<close>: stop at the first error.\<close>

definition bindR :: "'e + 'a \<Rightarrow> ('a \<Rightarrow> 'e + 'b) \<Rightarrow> 'e + 'b" where
  "bindR m f = (case m of Inl e \<Rightarrow> Inl e | Inr a \<Rightarrow> f a)"

text \<open>\<open>if c { return Err(e) }\<close>.\<close>

definition rejectR :: "bool \<Rightarrow> 'e \<Rightarrow> 'e + unit" where
  "rejectR c e = (if c then Inl e else Inr ())"

text \<open>\<open>Option::ok_or\<close> and \<open>Result::map_err\<close>.\<close>

definition ok_or :: "'a option \<Rightarrow> 'e \<Rightarrow> 'e + 'a" where
  "ok_or x e = (case x of None \<Rightarrow> Inl e | Some a \<Rightarrow> Inr a)"

definition map_err :: "('e \<Rightarrow> 'f) \<Rightarrow> 'e + 'a \<Rightarrow> 'f + 'a" where
  "map_err f m = (case m of Inl e \<Rightarrow> Inl (f e) | Inr a \<Rightarrow> Inr a)"

section \<open>Machine integers\<close>

definition checked_add_usize :: "nat \<Rightarrow> nat \<Rightarrow> nat option" where
  "checked_add_usize a b = (if a + b < 2 ^ 64 then Some (a + b) else None)"

definition checked_add :: "'a::len word \<Rightarrow> 'a word \<Rightarrow> 'a word option" where
  "checked_add a b = (if unat a + unat b < 2 ^ LENGTH('a) then Some (a + b) else None)"

text \<open>\<open>value.to_be_bytes()\<close> of an \<open>n\<close>-byte integer, and \<open>from_be_bytes\<close>.\<close>

fun be_bytes :: "nat \<Rightarrow> nat \<Rightarrow> bytes" where
  "be_bytes 0 v = []"
| "be_bytes (Suc n) v = be_bytes n (v div 256) @ [word_of_nat (v mod 256)]"

definition be_nat :: "bytes \<Rightarrow> nat" where
  "be_nat bs = foldl (\<lambda>acc b. acc * 256 + unat b) 0 bs"

definition u16_to_be :: "u16 \<Rightarrow> bytes" where
  "u16_to_be w = be_bytes 2 (unat w)"

definition u32_to_be :: "u32 \<Rightarrow> bytes" where
  "u32_to_be w = be_bytes 4 (unat w)"

definition u64_to_be :: "u64 \<Rightarrow> bytes" where
  "u64_to_be w = be_bytes 8 (unat w)"

definition u16_from_be :: "bytes \<Rightarrow> u16" where
  "u16_from_be bs = word_of_nat (be_nat bs)"

definition u32_from_be :: "bytes \<Rightarrow> u32" where
  "u32_from_be bs = word_of_nat (be_nat bs)"

definition u64_from_be :: "bytes \<Rightarrow> u64" where
  "u64_from_be bs = word_of_nat (be_nat bs)"

section \<open>Strings\<close>

text \<open>
  \<open>str::from_utf8\<close>: the well-formed byte sequences of the Unicode standard (no overlong
  form, no surrogate, nothing beyond U+10FFFF), decoded to scalar values.
\<close>

definition utf8_cont :: "u8 \<Rightarrow> bool" where
  "utf8_cont b \<longleftrightarrow> 0x80 \<le> b \<and> b \<le> 0xBF"

definition utf8_cont_nat :: "u8 \<Rightarrow> nat" where
  "utf8_cont_nat b = unat b - 0x80"

fun utf8_chars :: "bytes \<Rightarrow> nat list option" where
  "utf8_chars [] = Some []"
| "utf8_chars (b # r) =
     (if b < 0x80 then map_option (\<lambda>cs. unat b # cs) (utf8_chars r)
      else if 0xC2 \<le> b \<and> b \<le> 0xDF then
        (case r of
           b1 # r1 \<Rightarrow>
             if utf8_cont b1
             then map_option (\<lambda>cs. ((unat b - 0xC0) * 64 + utf8_cont_nat b1) # cs) (utf8_chars r1)
             else None
         | [] \<Rightarrow> None)
      else if 0xE0 \<le> b \<and> b \<le> 0xEF then
        (case r of
           b1 # b2 # r2 \<Rightarrow>
             if utf8_cont b1 \<and> utf8_cont b2 \<and> (b = 0xE0 \<longrightarrow> 0xA0 \<le> b1) \<and> (b = 0xED \<longrightarrow> b1 \<le> 0x9F)
             then map_option
                    (\<lambda>cs. ((unat b - 0xE0) * 4096 + utf8_cont_nat b1 * 64 + utf8_cont_nat b2) # cs)
                    (utf8_chars r2)
             else None
         | _ \<Rightarrow> None)
      else if 0xF0 \<le> b \<and> b \<le> 0xF4 then
        (case r of
           b1 # b2 # b3 # r3 \<Rightarrow>
             if utf8_cont b1 \<and> utf8_cont b2 \<and> utf8_cont b3
                \<and> (b = 0xF0 \<longrightarrow> 0x90 \<le> b1) \<and> (b = 0xF4 \<longrightarrow> b1 \<le> 0x8F)
             then map_option
                    (\<lambda>cs. ((unat b - 0xF0) * 262144 + utf8_cont_nat b1 * 4096
                            + utf8_cont_nat b2 * 64 + utf8_cont_nat b3) # cs)
                    (utf8_chars r3)
             else None
         | _ \<Rightarrow> None)
      else None)"

definition utf8_valid :: "bytes \<Rightarrow> bool" where
  "utf8_valid bs \<longleftrightarrow> utf8_chars bs \<noteq> None"

definition from_utf8 :: "bytes \<Rightarrow> str option" where
  "from_utf8 bs = (if utf8_valid bs then Some bs else None)"

text \<open>\<open>str::chars\<close> and \<open>char::is_control\<close> (general category Cc).\<close>

definition chars :: "str \<Rightarrow> nat list" where
  "chars s = (case utf8_chars s of Some cs \<Rightarrow> cs | None \<Rightarrow> [])"

definition is_control :: "nat \<Rightarrow> bool" where
  "is_control c \<longleftrightarrow> c < 0x20 \<or> 0x7F \<le> c \<and> c \<le> 0x9F"

text \<open>\<open>slice::get\<close>: an index out of range gives \<open>None\<close>.\<close>

definition vec_get :: "'a list \<Rightarrow> nat \<Rightarrow> 'a option" where
  "vec_get xs i = (if i < length xs then Some (xs ! i) else None)"

text \<open>The bytes of an ASCII literal, so that constants read as in the source.\<close>

definition ascii :: "string \<Rightarrow> str" where
  "ascii s = map of_char s"

section \<open>Lemmas on results\<close>

lemma bindR_simps [simp]:
  "bindR (Inl e) f = Inl e"
  "bindR (Inr a) f = f a"
  by (simp_all add: bindR_def)

lemma bindR_Inr_iff [simp]: "bindR m f = Inr b \<longleftrightarrow> (\<exists>a. m = Inr a \<and> f a = Inr b)"
  by (cases m) simp_all

lemma rejectR_Inr_iff [simp]: "rejectR c e = Inr u \<longleftrightarrow> \<not> c"
  by (simp add: rejectR_def)

lemma rejectR_Inl_iff [simp]: "rejectR c e = Inl e' \<longleftrightarrow> c \<and> e = e'"
  by (simp add: rejectR_def)

lemma rejectR_False [simp]: "rejectR False e = Inr ()"
  by (simp add: rejectR_def)

lemma rejectR_True [simp]: "rejectR True e = Inl e"
  by (simp add: rejectR_def)

lemma ok_or_Inr_iff [simp]: "ok_or x e = Inr a \<longleftrightarrow> x = Some a"
  by (simp add: ok_or_def split: option.splits)

lemma ok_or_Some [simp]: "ok_or (Some a) e = Inr a"
  by (simp add: ok_or_def)

lemma ok_or_None [simp]: "ok_or None e = Inl e"
  by (simp add: ok_or_def)

lemma map_err_Inr_iff [simp]: "map_err f m = Inr a \<longleftrightarrow> m = Inr a"
  by (cases m) (simp_all add: map_err_def)

lemma map_err_simps [simp]:
  "map_err f (Inl e) = Inl (f e)"
  "map_err f (Inr a) = Inr a"
  by (simp_all add: map_err_def)

section \<open>Lemmas on integers\<close>

lemma checked_add_usize_Some_iff [simp]:
  "checked_add_usize a b = Some c \<longleftrightarrow> a + b < 2 ^ 64 \<and> c = a + b"
  by (auto simp: checked_add_usize_def)

lemma checked_add_Some_iff:
  fixes a b c :: "'a::len word"
  shows "checked_add a b = Some c \<longleftrightarrow> unat a + unat b < 2 ^ LENGTH('a) \<and> unat c = unat a + unat b"
proof -
  have "unat a + unat b < 2 ^ LENGTH('a) \<Longrightarrow> unat (a + b) = unat a + unat b"
    by (rule unat_add_lem [THEN iffD1])
  then show ?thesis
    unfolding checked_add_def by (auto simp: word_unat_eq_iff split: if_splits)
qed

lemma unat_bound: "unat (w :: 'a::len word) < 2 ^ LENGTH('a)"
  by (rule unsigned_less)

lemma length_be_bytes [simp]: "length (be_bytes n v) = n"
  by (induction n arbitrary: v) simp_all

lemma be_nat_snoc: "be_nat (bs @ [b]) = be_nat bs * 256 + unat b"
  by (simp add: be_nat_def)

lemma be_nat_be_bytes: "be_nat (be_bytes n v) = v mod 256 ^ n"
proof (induction n arbitrary: v)
  case 0
  show ?case by (simp add: be_nat_def)
next
  case (Suc n)
  have "unat (word_of_nat (v mod 256) :: u8) = v mod 256"
    by (simp add: unat_of_nat take_bit_nat_def)
  then have "be_nat (be_bytes (Suc n) v) = (v div 256 mod 256 ^ n) * 256 + v mod 256"
    by (simp add: be_nat_snoc Suc.IH)
  also have "\<dots> = v mod (256 * 256 ^ n)"
    by (subst mod_mult2_eq) simp
  finally show ?case by simp
qed

lemma be_bytes_be_nat: "be_bytes (length bs) (be_nat bs) = bs"
proof (induction bs rule: rev_induct)
  case Nil
  show ?case by simp
next
  case (snoc b bs)
  have "unat b < 256"
    using unat_bound [of b] by simp
  then show ?case
    using snoc.IH by (simp add: be_nat_snoc)
qed

lemma be_nat_bound: "be_nat bs < 256 ^ length bs"
  by (metis be_bytes_be_nat be_nat_be_bytes mod_less_divisor zero_less_numeral zero_less_power)

lemma length_to_be [simp]:
  "length (u16_to_be a) = 2"
  "length (u32_to_be b) = 4"
  "length (u64_to_be c) = 8"
  by (simp_all add: u16_to_be_def u32_to_be_def u64_to_be_def)

lemma from_be_to_be [simp]:
  "u16_from_be (u16_to_be a) = a"
  "u32_from_be (u32_to_be b) = b"
  "u64_from_be (u64_to_be c) = c"
proof -
  have "unat a < 256 ^ 2" "unat b < 256 ^ 4" "unat c < 256 ^ 8"
    using unat_bound [of a] unat_bound [of b] unat_bound [of c] by simp_all
  then show "u16_from_be (u16_to_be a) = a" "u32_from_be (u32_to_be b) = b"
    "u64_from_be (u64_to_be c) = c"
    by (simp_all add: u16_from_be_def u16_to_be_def u32_from_be_def u32_to_be_def
        u64_from_be_def u64_to_be_def be_nat_be_bytes del: be_bytes.simps)
qed

lemma to_be_from_be:
  "length bs = 2 \<Longrightarrow> u16_to_be (u16_from_be bs) = bs"
  "length bs = 4 \<Longrightarrow> u32_to_be (u32_from_be bs) = bs"
  "length bs = 8 \<Longrightarrow> u64_to_be (u64_from_be bs) = bs"
  using be_nat_bound [of bs] be_bytes_be_nat [of bs]
  by (simp_all add: u16_from_be_def u16_to_be_def u32_from_be_def u32_to_be_def
      u64_from_be_def u64_to_be_def unat_of_nat take_bit_nat_def del: be_bytes.simps)

lemma LENGTH32: "LENGTH(32) = 32" and LENGTH64: "LENGTH(64) = 64"
  by simp_all

lemma unat_word_of_nat_small:
  "n < 2 ^ LENGTH('a::len) \<Longrightarrow> unat (word_of_nat n :: 'a word) = n"
  by (simp add: unat_of_nat take_bit_nat_def)

lemma word_of_nat_eq_iff:
  "(w :: 'a::len word) = word_of_nat n \<and> n < 2 ^ LENGTH('a) \<longleftrightarrow> unat w = n"
  using unat_word_of_nat_small [of n, where 'a = 'a] unat_bound [of w] by auto

section \<open>Lemmas on strings and lists\<close>

lemma from_utf8_Some_iff [simp]: "from_utf8 bs = Some s \<longleftrightarrow> utf8_valid bs \<and> s = bs"
  by (auto simp: from_utf8_def)

lemma vec_get_Some_iff [simp]: "vec_get xs i = Some x \<longleftrightarrow> i < length xs \<and> x = xs ! i"
  by (auto simp: vec_get_def)

text \<open>
  A sequence is an ASCII byte or a lead byte with continuation bytes, and then a sequence: so
  an ASCII byte of a string is one of its characters.
\<close>

definition utf8_step :: "u8 \<Rightarrow> bytes \<Rightarrow> nat list \<Rightarrow> bool" where
  "utf8_step a r cs \<longleftrightarrow> (\<exists>c conts t cs'. r = conts @ t \<and> list_all utf8_cont conts
     \<and> utf8_chars t = Some cs' \<and> cs = c # cs' \<and> (a < 0x80 \<longrightarrow> c = unat a))"

lemma utf8_stepI:
  assumes "list_all utf8_cont conts" and "map_option ((#) c) (utf8_chars t) = Some cs"
    and "a < 0x80 \<longrightarrow> c = unat a"
  shows "utf8_step a (conts @ t) cs"
  using assms unfolding utf8_step_def by blast

lemmas utf8_step_intros =
  utf8_stepI [of "[]", simplified] utf8_stepI [of "[b1]", simplified]
  utf8_stepI [of "[b1, b2]", simplified] utf8_stepI [of "[b1, b2, b3]", simplified] for b1 b2 b3

lemma utf8_chars_Cons: "utf8_chars (a # r) = Some cs \<Longrightarrow> utf8_step a r cs"
  unfolding utf8_chars.simps(2)
  by (simp split: if_split_asm list.split_asm del: map_option_eq_Some utf8_chars.simps)
    (auto intro: utf8_step_intros simp del: utf8_chars.simps)

lemma ascii_byte_in_chars:
  "utf8_chars s = Some cs \<Longrightarrow> b \<in> set s \<Longrightarrow> b < 0x80 \<Longrightarrow> unat b \<in> set cs"
proof (induction s arbitrary: cs rule: length_induct)
  case (1 s)
  show ?case
  proof (cases s)
    case Nil
    with "1.prems" show ?thesis by simp
  next
    case (Cons a r)
    with "1.prems" obtain c conts t cs' where r: "r = conts @ t" "list_all utf8_cont conts"
      and t: "utf8_chars t = Some cs'" and cs: "cs = c # cs'" "a < 0x80 \<longrightarrow> c = unat a"
      using utf8_chars_Cons unfolding utf8_step_def by blast
    have "b \<notin> set conts"
      using r(2) \<open>b < 0x80\<close> unfolding list_all_iff utf8_cont_def by (meson leD)
    then consider "b = a" | "b \<in> set t"
      using "1.prems"(2) Cons r(1) by auto
    then show ?thesis
    proof cases
      case 1
      with \<open>b < 0x80\<close> cs show ?thesis by simp
    next
      case 2
      have "length t < length s"
        by (simp add: Cons r(1))
      with "1.IH" t 2 \<open>b < 0x80\<close> have "unat b \<in> set cs'"
        by blast
      then show ?thesis by (simp add: cs(1))
    qed
  qed
qed

lemma length_ascii [simp]: "length (ascii s) = length s"
  by (simp add: ascii_def)

end
