(* ===== verification/Reader.thy ===== *)
theory Reader
  imports Prelude
begin

text \<open>
  The bounded byte cursor the three wire formats share (\<open>Reader\<close> in \<open>manifest_v2.rs\<close> and
  \<open>manifest_v2_frames.rs\<close>, \<open>PayloadReader\<close> in \<open>lib.rs\<close> of \<open>envoix-protocol\<close>): a slice, an
  offset, and reads that advance the offset or fail. A decoder is a function from a cursor to
  an error or a value with the advanced cursor.

  The offset is a natural number: a slice is at most \<open>isize::MAX\<close> bytes long and every length
  that is read is a \<open>u32\<close> or a constant, so \<open>offset + length\<close> never reaches \<open>2 ^ 64\<close> and the
  \<open>checked_add\<close> in \<open>read_exact\<close> never fails.

  The locale \<open>codec\<close> is the contract of an encoder and its decoder; the wire formats
  interpret it, and what every such pair satisfies is proved once, inside it.
\<close>

record reader =
  rd_bytes :: bytes
  rd_offset :: nat

type_synonym ('e, 'a) parser = "reader \<Rightarrow> 'e + 'a \<times> reader"

definition reader_new :: "bytes \<Rightarrow> reader" where
  "reader_new bs = \<lparr>rd_bytes = bs, rd_offset = 0\<rparr>"

definition remaining :: "reader \<Rightarrow> nat" where
  "remaining r = length (rd_bytes r) - rd_offset r"

definition remaining_slice :: "reader \<Rightarrow> bytes" where
  "remaining_slice r = drop (rd_offset r) (rd_bytes r)"

definition get_exact :: "'e \<Rightarrow> nat \<Rightarrow> ('e, bytes) parser" where
  "get_exact e n r =
     (let stop = rd_offset r + n in
      if stop \<le> length (rd_bytes r)
      then Inr (take n (drop (rd_offset r) (rd_bytes r)), r\<lparr>rd_offset := stop\<rparr>)
      else Inl e)"

section \<open>Sequencing decoders\<close>

definition returnP :: "'a \<Rightarrow> ('e, 'a) parser" where
  "returnP a r = Inr (a, r)"

definition bindP :: "('e, 'a) parser \<Rightarrow> ('a \<Rightarrow> ('e, 'b) parser) \<Rightarrow> ('e, 'b) parser" where
  "bindP p f r = (case p r of Inl e \<Rightarrow> Inl e | Inr (a, r') \<Rightarrow> f a r')"

definition liftP :: "'e + 'a \<Rightarrow> ('e, 'a) parser" where
  "liftP m r = (case m of Inl e \<Rightarrow> Inl e | Inr a \<Rightarrow> Inr (a, r))"

text \<open>\<open>if c { return Err(e) }\<close> between two reads.\<close>

definition rejectP :: "bool \<Rightarrow> 'e \<Rightarrow> ('e, unit) parser" where
  "rejectP c e = liftP (rejectR c e)"

text \<open>A look at the cursor (\<open>remaining()\<close>, \<open>remaining_slice()\<close>) that does not advance it.\<close>

definition inspectP :: "(reader \<Rightarrow> 'a) \<Rightarrow> ('e, 'a) parser" where
  "inspectP f r = Inr (f r, r)"

text \<open>\<open>for index in i..i + n\<close>, collecting what each round returns.\<close>

fun repeatP :: "(nat \<Rightarrow> ('e, 'a) parser) \<Rightarrow> nat \<Rightarrow> nat \<Rightarrow> ('e, 'a list) parser" where
  "repeatP p i 0 = returnP []"
| "repeatP p i (Suc n) = bindP (p i) (\<lambda>x. bindP (repeatP p (Suc i) n) (\<lambda>xs. returnP (x # xs)))"

section \<open>Fixed-width reads\<close>

definition get_u8 :: "'e \<Rightarrow> ('e, u8) parser" where
  "get_u8 e = bindP (get_exact e 1) (\<lambda>bs. returnP (hd bs))"

definition get_u16 :: "'e \<Rightarrow> ('e, u16) parser" where
  "get_u16 e = bindP (get_exact e 2) (\<lambda>bs. returnP (u16_from_be bs))"

definition get_u32 :: "'e \<Rightarrow> ('e, u32) parser" where
  "get_u32 e = bindP (get_exact e 4) (\<lambda>bs. returnP (u32_from_be bs))"

definition get_u64 :: "'e \<Rightarrow> ('e, u64) parser" where
  "get_u64 e = bindP (get_exact e 8) (\<lambda>bs. returnP (u64_from_be bs))"

section \<open>A cursor split at its offset\<close>

text \<open>Every cursor a decoder meets has read \<open>pre\<close> and has \<open>post\<close> to read.\<close>

definition rd :: "bytes \<Rightarrow> bytes \<Rightarrow> reader" where
  "rd pre post = \<lparr>rd_bytes = pre @ post, rd_offset = length pre\<rparr>"

lemma reader_new_rd: "reader_new bs = rd [] bs"
  by (simp add: reader_new_def rd_def)

lemma remaining_rd [simp]: "remaining (rd pre post) = length post"
  by (simp add: remaining_def rd_def)

lemma remaining_slice_rd [simp]: "remaining_slice (rd pre post) = post"
  by (simp add: remaining_slice_def rd_def)

lemma rd_eq_iff: "rd pre post = rd pre' post' \<longleftrightarrow> pre @ post = pre' @ post' \<and> length pre = length pre'"
  by (auto simp: rd_def)

lemma rd_eq_same [simp]: "rd pre post = rd pre post' \<longleftrightarrow> post = post'"
  by (auto simp: rd_def)

lemma get_exact_append [parse_simps]:
  "length xs = n \<Longrightarrow> get_exact e n (rd pre (xs @ ys)) = Inr (xs, rd (pre @ xs) ys)"
  by (auto simp: get_exact_def rd_def)

lemma get_exact_dest [parse_dests]:
  assumes "get_exact e n (rd pre zs) = Inr (xs, r)"
  shows "\<exists>ys. zs = xs @ ys \<and> length xs = n \<and> r = rd (pre @ xs) ys"
proof -
  from assms have "n \<le> length zs" and "xs = take n zs" and "r = (rd pre zs)\<lparr>rd_offset := length pre + n\<rparr>"
    by (auto simp: get_exact_def rd_def Let_def split: if_splits)
  then have "zs = xs @ drop n zs \<and> length xs = n \<and> r = rd (pre @ xs) (drop n zs)"
    by (simp add: rd_def)
  then show ?thesis by blast
qed

section \<open>Lemmas on sequencing\<close>

lemma returnP_simp [simp]: "returnP a r = Inr (a, r)"
  by (simp add: returnP_def)

lemma inspectP_simp [simp]: "inspectP f r = Inr (f r, r)"
  by (simp add: inspectP_def)

lemma liftP_simps [simp]:
  "liftP (Inl e) r = Inl e"
  "liftP (Inr a) r = Inr (a, r)"
  by (simp_all add: liftP_def)

lemma rejectP_simps [simp]:
  "rejectP True e r = Inl e"
  "rejectP False e r = Inr ((), r)"
  by (simp_all add: rejectP_def)

lemma rejectP_passes [simp]: "\<not> c \<Longrightarrow> rejectP c e r = Inr ((), r)"
  by simp

lemma bindP_Inr [simp]: "p r = Inr (a, r') \<Longrightarrow> bindP p f r = f a r'"
  by (simp add: bindP_def)

lemma bindP_Inl [simp]: "p r = Inl e \<Longrightarrow> bindP p f r = Inl e"
  by (simp add: bindP_def)

lemma bindP_Inr_iff: "bindP p f r = Inr z \<longleftrightarrow> (\<exists>a r'. p r = Inr (a, r') \<and> f a r' = Inr z)"
  by (auto simp: bindP_def split: sum.splits)

lemma liftP_Inr_iff: "liftP m r = Inr (a, r') \<longleftrightarrow> m = Inr a \<and> r' = r"
  by (cases m) auto

lemma rejectP_Inr_iff: "rejectP c e r = Inr (u, r') \<longleftrightarrow> \<not> c \<and> r' = r"
  by (cases c) auto

lemma bindP_assoc: "bindP (bindP p f) g = bindP p (\<lambda>a. bindP (f a) g)"
  by (rule ext) (auto simp: bindP_def split: sum.splits)

lemmas parser_iffs = bindP_Inr_iff liftP_Inr_iff rejectP_Inr_iff

lemma get_ints_append [parse_simps]:
  "get_u8 e (rd pre (b # ys)) = Inr (b, rd (pre @ [b]) ys)"
  "get_u16 e (rd pre (u16_to_be h @ ys)) = Inr (h, rd (pre @ u16_to_be h) ys)"
  "get_u32 e (rd pre (u32_to_be w @ ys)) = Inr (w, rd (pre @ u32_to_be w) ys)"
  "get_u64 e (rd pre (u64_to_be d @ ys)) = Inr (d, rd (pre @ u64_to_be d) ys)"
  using get_exact_append [of "[b]" 1 e pre ys]
  by (simp_all add: get_u8_def get_u16_def get_u32_def get_u64_def parse_simps)

lemma get_u8_dest [parse_dests]:
  "get_u8 e (rd pre zs) = Inr (b, r) \<Longrightarrow> \<exists>ys. zs = b # ys \<and> r = rd (pre @ [b]) ys"
  by (auto simp: get_u8_def bindP_Inr_iff length_Suc_conv dest!: get_exact_dest)

lemma get_u16_dest [parse_dests]:
  "get_u16 e (rd pre zs) = Inr (h, r)
     \<Longrightarrow> \<exists>ys. zs = u16_to_be h @ ys \<and> r = rd (pre @ u16_to_be h) ys"
  by (auto simp: get_u16_def bindP_Inr_iff to_be_from_be dest!: get_exact_dest)

lemma get_u32_dest [parse_dests]:
  "get_u32 e (rd pre zs) = Inr (w, r)
     \<Longrightarrow> \<exists>ys. zs = u32_to_be w @ ys \<and> r = rd (pre @ u32_to_be w) ys"
  by (auto simp: get_u32_def bindP_Inr_iff to_be_from_be dest!: get_exact_dest)

lemma get_u64_dest [parse_dests]:
  "get_u64 e (rd pre zs) = Inr (d, r)
     \<Longrightarrow> \<exists>ys. zs = u64_to_be d @ ys \<and> r = rd (pre @ u64_to_be d) ys"
  by (auto simp: get_u64_def bindP_Inr_iff to_be_from_be dest!: get_exact_dest)

section \<open>The contract of an encoder and its decoder\<close>

text \<open>
  \<open>enc\<close> writes a value or refuses it, \<open>dec\<close> reads one, and \<open>ok\<close> are the values the decoder
  can return. On such values decoding undoes encoding, whatever stands before and after in
  the buffer; and what the decoder accepts is exactly the encoding of its result, so every
  value has one accepted byte form.
\<close>

locale codec =
  fixes enc :: "'a \<Rightarrow> 'f + bytes"
    and dec :: "('e, 'a) parser"
    and ok :: "'a \<Rightarrow> bool"
  assumes dec_enc: "enc x = Inr xs \<Longrightarrow> ok x \<Longrightarrow> dec (rd pre (xs @ ys)) = Inr (x, rd (pre @ xs) ys)"
    and enc_dec: "dec (rd pre zs) = Inr (x, r)
      \<Longrightarrow> \<exists>xs ys. zs = xs @ ys \<and> enc x = Inr xs \<and> ok x \<and> r = rd (pre @ xs) ys"
begin

lemma dec_iff:
  "dec (rd pre zs) = Inr (x, r)
     \<longleftrightarrow> (\<exists>xs ys. zs = xs @ ys \<and> enc x = Inr xs \<and> ok x \<and> r = rd (pre @ xs) ys)"
proof
  assume "dec (rd pre zs) = Inr (x, r)"
  then show "\<exists>xs ys. zs = xs @ ys \<and> enc x = Inr xs \<and> ok x \<and> r = rd (pre @ xs) ys"
    by (rule enc_dec)
next
  assume "\<exists>xs ys. zs = xs @ ys \<and> enc x = Inr xs \<and> ok x \<and> r = rd (pre @ xs) ys"
  then show "dec (rd pre zs) = Inr (x, r)"
    by (elim exE conjE) (simp add: dec_enc)
qed

text \<open>Whole-buffer decoding accepts exactly the encodings.\<close>

lemma dec_whole_iff:
  "(\<exists>r. dec (reader_new bs) = Inr (x, r) \<and> remaining r = 0) \<longleftrightarrow> enc x = Inr bs \<and> ok x"
  unfolding reader_new_rd dec_iff by auto

text \<open>No encoding is a proper prefix of another: frames cut themselves off.\<close>

lemma prefix_free:
  assumes "enc x = Inr xs" and "ok x" and "enc y = Inr ys" and "ok y" and "xs @ s = ys @ t"
  shows "x = y \<and> xs = ys \<and> s = t"
proof -
  have "dec (rd [] (xs @ s)) = Inr (x, rd xs s)" "dec (rd [] (ys @ t)) = Inr (y, rd ys t)"
    using dec_enc [OF assms(1,2), of "[]" s] dec_enc [OF assms(3,4), of "[]" t] by simp_all
  then have "x = y"
    using assms(5) by simp
  then show ?thesis
    using assms by simp
qed

end

text \<open>
  A sequence whose items are written and read in index order. \<open>enc_all\<close> is the encoder's loop.
\<close>

fun enc_all :: "(nat \<Rightarrow> 'a \<Rightarrow> 'f + bytes) \<Rightarrow> nat \<Rightarrow> 'a list \<Rightarrow> 'f + bytes" where
  "enc_all enc i [] = Inr []"
| "enc_all enc i (x # xs) = bindR (enc i x) (\<lambda>b. bindR (enc_all enc (Suc i) xs) (\<lambda>bs. Inr (b @ bs)))"

lemma enc_all_const [simp]: "enc_all (\<lambda>_ x. Inr (f x)) i xs = Inr (concat (map f xs))"
  by (induction xs arbitrary: i) simp_all

lemma enc_all_items:
  "enc_all enc i xs = Inr bs \<Longrightarrow> j < length xs \<Longrightarrow> \<exists>b. enc (i + j) (xs ! j) = Inr b"
proof (induction xs arbitrary: i bs j)
  case Nil
  then show ?case by simp
next
  case (Cons x xs)
  then show ?case
    by (cases j) fastforce+
qed

fun all_from :: "(nat \<Rightarrow> 'a \<Rightarrow> bool) \<Rightarrow> nat \<Rightarrow> 'a list \<Rightarrow> bool" where
  "all_from P i [] = True"
| "all_from P i (x # xs) \<longleftrightarrow> P i x \<and> all_from P (Suc i) xs"

lemma all_from_iff: "all_from P i xs \<longleftrightarrow> (\<forall>j < length xs. P (i + j) (xs ! j))"
  by (induction xs arbitrary: i) (auto simp: less_Suc_eq_0_disj)

lemma all_from_const [simp]: "all_from (\<lambda>_. P) i xs \<longleftrightarrow> (\<forall>x \<in> set xs. P x)"
  by (induction xs arbitrary: i) simp_all

locale indexed_codec =
  fixes enc :: "nat \<Rightarrow> 'a \<Rightarrow> 'f + bytes"
    and dec :: "nat \<Rightarrow> ('e, 'a) parser"
    and ok :: "nat \<Rightarrow> 'a \<Rightarrow> bool"
  assumes item: "codec (enc i) (dec i) (ok i)"
begin

lemma all_dec_enc:
  "enc_all enc i xs = Inr bs \<Longrightarrow> all_from ok i xs
    \<Longrightarrow> repeatP dec i (length xs) (rd pre (bs @ ys)) = Inr (xs, rd (pre @ bs) ys)"
proof (induction xs arbitrary: i bs pre)
  case Nil
  then show ?case by simp
next
  case (Cons x xs)
  from Cons.prems obtain b bs' where b: "enc i x = Inr b" "ok i x"
    and bs': "enc_all enc (Suc i) xs = Inr bs'" "all_from ok (Suc i) xs" and bs: "bs = b @ bs'"
    by auto
  show ?case
    using codec.dec_enc [OF item b, of pre "bs' @ ys"] Cons.IH [OF bs', of "pre @ b"]
    by (simp add: bs)
qed

lemma all_enc_dec:
  "repeatP dec i n (rd pre zs) = Inr (xs, r)
    \<Longrightarrow> \<exists>bs ys. zs = bs @ ys \<and> enc_all enc i xs = Inr bs \<and> all_from ok i xs \<and> length xs = n
         \<and> r = rd (pre @ bs) ys"
proof (induction n arbitrary: i pre zs xs r)
  case 0
  then show ?case by auto
next
  case (Suc n)
  then obtain x r1 xs' where x: "dec i (rd pre zs) = Inr (x, r1)"
    and xs': "repeatP dec (Suc i) n r1 = Inr (xs', r)" and xs: "xs = x # xs'"
    by (auto simp: bindP_Inr_iff)
  from codec.enc_dec [OF item x] obtain b zs1 where
    b: "zs = b @ zs1" "enc i x = Inr b" "ok i x" "r1 = rd (pre @ b) zs1"
    by blast
  from Suc.IH [OF xs' [unfolded b(4)]] obtain bs ys where
    "zs1 = bs @ ys" "enc_all enc (Suc i) xs' = Inr bs" "all_from ok (Suc i) xs'"
    "length xs' = n" "r = rd ((pre @ b) @ bs) ys"
    by blast
  with b show ?case
    by (intro exI [of _ "b @ bs"] exI [of _ ys]) (simp add: xs)
qed

end

text \<open>The fixed-width integers satisfy the contract.\<close>

interpretation u8_wire: codec "\<lambda>b. Inr [b]" "get_u8 e" "\<lambda>_. True"
  by unfold_locales (auto simp: parse_simps dest!: get_u8_dest)

interpretation u16_wire: codec "\<lambda>w. Inr (u16_to_be w)" "get_u16 e" "\<lambda>_. True"
  by unfold_locales (auto simp: parse_simps dest!: get_u16_dest)

interpretation u32_wire: codec "\<lambda>w. Inr (u32_to_be w)" "get_u32 e" "\<lambda>_. True"
  by unfold_locales (auto simp: parse_simps dest!: get_u32_dest)

interpretation u64_wire: codec "\<lambda>w. Inr (u64_to_be w)" "get_u64 e" "\<lambda>_. True"
  by unfold_locales (auto simp: parse_simps dest!: get_u64_dest)

end
