(* ===== verification/Manifest.thy ===== *)
theory Manifest
  imports Prelude "HOL-Library.While_Combinator"
begin

text \<open>
  \<open>crates/envoix-protocol/src/manifest_v2.rs\<close>, the structural contract of a Manifest v2 offer:
  its data and \<open>ManifestV2::validate\<close>. \<open>nfc\<close> stands for \<open>unicode_normalization::is_nfc\<close>, a
  package the code calls.

  The validator's loops are recursive functions over the roots and the entries with the
  accumulators of the source as their state (\<open>EntryScan\<close>); the depth-first traversal with its
  explicit stack is a \<open>while\<close>. The declarative contract \<open>manifest_ok\<close> says what an acceptable
  manifest is without any of that; \<open>validate_iff\<close> shows that the validator decides it.
\<close>

section \<open>Limits\<close>

definition MAX_MANIFEST_V2_ENCODED_BYTES :: nat where
  "MAX_MANIFEST_V2_ENCODED_BYTES = 4 * 1024 * 1024"

definition MAX_MANIFEST_V2_ENTRIES :: nat where
  "MAX_MANIFEST_V2_ENTRIES = 10000"

definition MAX_MANIFEST_V2_ROOTS :: nat where
  "MAX_MANIFEST_V2_ROOTS = 1024"

definition MAX_MANIFEST_V2_COMPONENT_BYTES :: nat where
  "MAX_MANIFEST_V2_COMPONENT_BYTES = 255"

definition MAX_MANIFEST_V2_PATH_BYTES :: nat where
  "MAX_MANIFEST_V2_PATH_BYTES = 4096"

definition MAX_MANIFEST_V2_PATH_DEPTH :: nat where
  "MAX_MANIFEST_V2_PATH_DEPTH = 64"

definition MAX_MANIFEST_V2_BLOCK_PLAINTEXT_BYTES :: nat where
  "MAX_MANIFEST_V2_BLOCK_PLAINTEXT_BYTES = 16 * 1024 * 1024"

definition MAX_MANIFEST_V2_BLOCK_ENCODED_BYTES :: nat where
  "MAX_MANIFEST_V2_BLOCK_ENCODED_BYTES = MAX_MANIFEST_V2_BLOCK_PLAINTEXT_BYTES + 64 * 1024"

lemmas manifest_limits =
  MAX_MANIFEST_V2_ENCODED_BYTES_def MAX_MANIFEST_V2_ENTRIES_def MAX_MANIFEST_V2_ROOTS_def
  MAX_MANIFEST_V2_COMPONENT_BYTES_def MAX_MANIFEST_V2_PATH_BYTES_def
  MAX_MANIFEST_V2_PATH_DEPTH_def MAX_MANIFEST_V2_BLOCK_PLAINTEXT_BYTES_def
  MAX_MANIFEST_V2_BLOCK_ENCODED_BYTES_def

section \<open>Data\<close>

text \<open>\<open>JobIdV2([u8; 16])\<close> and \<open>ContentDigestV2([u8; 32])\<close> are byte lists of that length.\<close>

type_synonym JobIdV2 = bytes
type_synonym ContentDigestV2 = bytes

datatype CompressionPolicyV2 = Never | Always | Smart

datatype ManifestEntryKindV2 = RegularFile | Directory

datatype EntryContentDigestV2 = Deferred | Known ContentDigestV2

datatype SourceCompletenessV2 =
    Complete
  | UserApprovedPartial (inaccessible_boundary_count: u64) (omitted_entry_count: "u64 option")

record ManifestRootV2 =
  mr_root_id :: u32
  mr_root_entry_id :: u32
  mr_requested_name :: str
  mr_completeness :: SourceCompletenessV2

record ManifestEntryV2 =
  me_entry_id :: u32
  me_root_id :: u32
  me_parent_entry_id :: "u32 option"
  me_component :: str
  me_kind :: ManifestEntryKindV2
  me_plaintext_size :: u64
  me_content_digest :: EntryContentDigestV2

record ManifestTotalsV2 =
  mt_file_count :: u32
  mt_directory_count :: u32
  mt_total_plaintext_bytes :: u64

record ManifestV2 =
  mf_job_id :: JobIdV2
  mf_generation :: u32
  mf_selection_revision :: u64
  mf_compression_policy :: CompressionPolicyV2
  mf_roots :: "ManifestRootV2 list"
  mf_entries :: "ManifestEntryV2 list"
  mf_totals :: ManifestTotalsV2

datatype ManifestV2ComponentViolation =
    Empty | CurrentDirectory | ParentDirectory | ControlOrSeparator | NonCanonicalUnicode
  | TooLong nat nat

datatype ManifestV2ValidationError =
    ZeroJobId | ZeroGeneration | ZeroSelectionRevision | EmptyRoots
  | TooManyRoots nat nat
  | EmptyEntries
  | TooManyEntries nat nat
  | NonCanonicalRootId u32 u32
  | UnsafeRootName u32 ManifestV2ComponentViolation
  | InvalidRootEntry u32 u32
  | EmptyPartialFact u32
  | DuplicateRootEntry
  | NonCanonicalEntryId u32 u32
  | NonCanonicalEntryOrder u32 u32
  | UnsafeComponent u32 ManifestV2ComponentViolation
  | UnknownRoot u32 u32
  | UnexpectedRootEntry u32
  | RootNameMismatch u32 u32
  | NonCanonicalParent u32 u32
  | CrossRootParent u32 u32
  | FileParent u32 u32
  | PathSizeOverflow u32
  | PathTooDeep u32 nat nat
  | PathTooLong u32 nat nat
  | DuplicateSiblingComponent u32
  | InvalidDirectoryMetadata u32
  | AggregateOverflow
  | TotalsMismatch ManifestTotalsV2 ManifestTotalsV2

section \<open>The validator\<close>

definition validate_component :: "(str \<Rightarrow> bool) \<Rightarrow> str \<Rightarrow> ManifestV2ComponentViolation + unit" where
  "validate_component nfc c =
     (if c = [] then Inl Empty
      else if c = ascii ''.'' then Inl CurrentDirectory
      else if c = ascii ''..'' then Inl ParentDirectory
      else if length c > MAX_MANIFEST_V2_COMPONENT_BYTES
        then Inl (TooLong (length c) MAX_MANIFEST_V2_COMPONENT_BYTES)
      else if \<exists>ch \<in> set (chars c). is_control ch \<or> ch = 0x2F \<or> ch = 0x5C
        then Inl ControlOrSeparator
      else if \<not> nfc c then Inl NonCanonicalUnicode
      else Inr ())"

text \<open>One round of the loop over the roots.\<close>

definition validate_root ::
  "(str \<Rightarrow> bool) \<Rightarrow> nat \<Rightarrow> nat \<Rightarrow> ManifestRootV2 \<Rightarrow> ManifestV2ValidationError + unit" where
  "validate_root nfc entry_count index root =
     bindR (rejectR (mr_root_id root \<noteq> word_of_nat index)
              (NonCanonicalRootId (word_of_nat index) (mr_root_id root))) (\<lambda>_.
     bindR (rejectR (\<not> unat (mr_root_entry_id root) < entry_count)
              (InvalidRootEntry (mr_root_id root) (mr_root_entry_id root))) (\<lambda>_.
     bindR (map_err (UnsafeRootName (mr_root_id root))
              (validate_component nfc (mr_requested_name root))) (\<lambda>_.
     rejectR (case mr_completeness root of
                UserApprovedPartial boundary _ \<Rightarrow> boundary = 0
              | Complete \<Rightarrow> False)
       (EmptyPartialFact (mr_root_id root)))))"

fun validate_roots ::
  "(str \<Rightarrow> bool) \<Rightarrow> nat \<Rightarrow> nat \<Rightarrow> ManifestRootV2 list \<Rightarrow> u32 set
     \<Rightarrow> ManifestV2ValidationError + u32 set" where
  "validate_roots nfc entry_count index [] root_entry_ids = Inr root_entry_ids"
| "validate_roots nfc entry_count index (root # roots) root_entry_ids =
     bindR (validate_root nfc entry_count index root) (\<lambda>_.
       validate_roots nfc entry_count (Suc index) roots
         (insert (mr_root_entry_id root) root_entry_ids))"

text \<open>The accumulators of the loop over the entries.\<close>

record EntryScan =
  sc_sibling_components :: "(u32 \<times> u32 option \<times> str) set"
  sc_file_count :: u32
  sc_directory_count :: u32
  sc_total_plaintext_bytes :: u64
  sc_depths :: "nat list"
  sc_path_bytes :: "nat list"
  sc_children :: "nat list list"

definition scan_start :: "nat \<Rightarrow> EntryScan" where
  "scan_start entry_count =
     \<lparr>sc_sibling_components = {}, sc_file_count = 0, sc_directory_count = 0,
      sc_total_plaintext_bytes = 0, sc_depths = [], sc_path_bytes = [],
      sc_children = replicate entry_count []\<rparr>"

text \<open>The match on \<open>parent_entry_id\<close>: depth and path bytes of the entry, and the children lists.\<close>

definition place_entry ::
  "ManifestV2 \<Rightarrow> nat \<Rightarrow> ManifestEntryV2 \<Rightarrow> ManifestRootV2 \<Rightarrow> EntryScan
     \<Rightarrow> ManifestV2ValidationError + nat \<times> nat \<times> nat list list" where
  "place_entry m index entry root s =
     (case me_parent_entry_id entry of
        None \<Rightarrow>
          bindR (rejectR (mr_root_entry_id root \<noteq> me_entry_id entry)
                   (UnexpectedRootEntry (me_entry_id entry))) (\<lambda>_.
          bindR (rejectR (mr_requested_name root \<noteq> me_component entry)
                   (RootNameMismatch (mr_root_id root) (me_entry_id entry))) (\<lambda>_.
          Inr (0, 0, sc_children s)))
      | Some parent_id \<Rightarrow>
          let parent_index = unat parent_id in
          bindR (rejectR (index \<le> parent_index)
                   (NonCanonicalParent (me_entry_id entry) parent_id)) (\<lambda>_.
          let parent = mf_entries m ! parent_index in
          bindR (rejectR (me_root_id parent \<noteq> me_root_id entry)
                   (CrossRootParent (me_entry_id entry) parent_id)) (\<lambda>_.
          bindR (rejectR (me_kind parent \<noteq> Directory)
                   (FileParent (me_entry_id entry) parent_id)) (\<lambda>_.
          bindR (ok_or (Option.bind
                          (checked_add_usize (sc_path_bytes s ! parent_index) (length (me_component entry)))
                          (\<lambda>value. checked_add_usize value 1))
                   (PathSizeOverflow (me_entry_id entry))) (\<lambda>path_bytes.
          Inr (sc_depths s ! parent_index + 1, path_bytes,
               (sc_children s)[parent_index := sc_children s ! parent_index @ [index]]))))))"

text \<open>The match on \<open>kind\<close>: the running totals.\<close>

definition count_entry ::
  "ManifestEntryV2 \<Rightarrow> EntryScan \<Rightarrow> ManifestV2ValidationError + u32 \<times> u32 \<times> u64" where
  "count_entry entry s =
     (case me_kind entry of
        RegularFile \<Rightarrow>
          bindR (ok_or (checked_add (sc_file_count s) 1) AggregateOverflow) (\<lambda>file_count.
          bindR (ok_or (checked_add (sc_total_plaintext_bytes s) (me_plaintext_size entry))
                   AggregateOverflow) (\<lambda>total.
          Inr (file_count, sc_directory_count s, total)))
      | Directory \<Rightarrow>
          bindR (rejectR (me_plaintext_size entry \<noteq> 0 \<or> me_content_digest entry \<noteq> Deferred)
                   (InvalidDirectoryMetadata (me_entry_id entry))) (\<lambda>_.
          bindR (ok_or (checked_add (sc_directory_count s) 1) AggregateOverflow) (\<lambda>directory_count.
          Inr (sc_file_count s, directory_count, sc_total_plaintext_bytes s))))"

text \<open>One round of the loop over the entries.\<close>

definition validate_entry ::
  "(str \<Rightarrow> bool) \<Rightarrow> ManifestV2 \<Rightarrow> nat \<Rightarrow> ManifestEntryV2 \<Rightarrow> EntryScan
     \<Rightarrow> ManifestV2ValidationError + EntryScan" where
  "validate_entry nfc m index entry s =
     bindR (rejectR (me_entry_id entry \<noteq> word_of_nat index)
              (NonCanonicalEntryId (word_of_nat index) (me_entry_id entry))) (\<lambda>_.
     bindR (map_err (UnsafeComponent (me_entry_id entry))
              (validate_component nfc (me_component entry))) (\<lambda>_.
     bindR (ok_or (vec_get (mf_roots m) (unat (me_root_id entry)))
              (UnknownRoot (me_entry_id entry) (me_root_id entry))) (\<lambda>root.
     bindR (place_entry m index entry root s) (\<lambda>(depth, path_bytes, children).
     bindR (rejectR (depth > MAX_MANIFEST_V2_PATH_DEPTH)
              (PathTooDeep (me_entry_id entry) depth MAX_MANIFEST_V2_PATH_DEPTH)) (\<lambda>_.
     bindR (rejectR (path_bytes > MAX_MANIFEST_V2_PATH_BYTES)
              (PathTooLong (me_entry_id entry) path_bytes MAX_MANIFEST_V2_PATH_BYTES)) (\<lambda>_.
     bindR (rejectR
              ((me_root_id entry, me_parent_entry_id entry, me_component entry)
                 \<in> sc_sibling_components s)
              (DuplicateSiblingComponent (me_entry_id entry))) (\<lambda>_.
     bindR (count_entry entry s) (\<lambda>(file_count, directory_count, total).
     Inr \<lparr>sc_sibling_components =
            insert (me_root_id entry, me_parent_entry_id entry, me_component entry)
              (sc_sibling_components s),
          sc_file_count = file_count, sc_directory_count = directory_count,
          sc_total_plaintext_bytes = total,
          sc_depths = sc_depths s @ [depth], sc_path_bytes = sc_path_bytes s @ [path_bytes],
          sc_children = children\<rparr>))))))))"

fun validate_entries ::
  "(str \<Rightarrow> bool) \<Rightarrow> ManifestV2 \<Rightarrow> nat \<Rightarrow> ManifestEntryV2 list \<Rightarrow> EntryScan
     \<Rightarrow> ManifestV2ValidationError + EntryScan" where
  "validate_entries nfc m index [] s = Inr s"
| "validate_entries nfc m index (entry # entries) s =
     bindR (validate_entry nfc m index entry s) (validate_entries nfc m (Suc index) entries)"

text \<open>
  The traversal. The head of the list is the top of the \<open>Vec\<close> used as a stack, so that
  \<open>extend\<close> with the reversed children puts the smallest on top. Siblings have distinct
  components, so the unstable sort has one result.
\<close>

definition sort_children :: "ManifestEntryV2 list \<Rightarrow> nat list \<Rightarrow> nat list" where
  "sort_children entries = sort_key (\<lambda>i. me_component (entries ! i))"

type_synonym dfs_state = "nat list \<times> nat list \<times> nat list list"

definition dfs_step :: "ManifestEntryV2 list \<Rightarrow> dfs_state \<Rightarrow> dfs_state" where
  "dfs_step entries = (\<lambda>(stack, order, children).
     let i = hd stack; sorted = sort_children entries (children ! i) in
     (sorted @ tl stack, order @ [i], children[i := sorted]))"

definition dfs_pending :: "dfs_state \<Rightarrow> bool" where
  "dfs_pending = (\<lambda>(stack, order, children). stack \<noteq> [])"

fun canonical_order ::
  "ManifestEntryV2 list \<Rightarrow> ManifestRootV2 list \<Rightarrow> nat list \<times> nat list list \<Rightarrow> nat list" where
  "canonical_order entries [] (order, children) = order"
| "canonical_order entries (root # roots) (order, children) =
     canonical_order entries roots
       (snd (while dfs_pending (dfs_step entries)
               ([unat (mr_root_entry_id root)], order, children)))"

text \<open>\<open>for (expected, actual) in canonical_order.into_iter().enumerate()\<close>.\<close>

fun check_order :: "nat \<Rightarrow> nat list \<Rightarrow> ManifestV2ValidationError + unit" where
  "check_order expected [] = Inr ()"
| "check_order expected (actual # rest) =
     (if expected \<noteq> actual
      then Inl (NonCanonicalEntryOrder (word_of_nat expected) (word_of_nat actual))
      else check_order (Suc expected) rest)"

definition validate_header :: "ManifestV2 \<Rightarrow> ManifestV2ValidationError + unit" where
  "validate_header m =
     (if mf_job_id m = replicate 16 0 then Inl ZeroJobId
      else if mf_generation m = 0 then Inl ZeroGeneration
      else if mf_selection_revision m = 0 then Inl ZeroSelectionRevision
      else if mf_roots m = [] then Inl EmptyRoots
      else if length (mf_roots m) > MAX_MANIFEST_V2_ROOTS
        then Inl (TooManyRoots (length (mf_roots m)) MAX_MANIFEST_V2_ROOTS)
      else if mf_entries m = [] then Inl EmptyEntries
      else if length (mf_entries m) > MAX_MANIFEST_V2_ENTRIES
        then Inl (TooManyEntries (length (mf_entries m)) MAX_MANIFEST_V2_ENTRIES)
      else Inr ())"

definition validate :: "(str \<Rightarrow> bool) \<Rightarrow> ManifestV2 \<Rightarrow> ManifestV2ValidationError + unit" where
  "validate nfc m =
     bindR (validate_header m) (\<lambda>_.
     bindR (validate_roots nfc (length (mf_entries m)) 0 (mf_roots m) {}) (\<lambda>root_entry_ids.
     bindR (validate_entries nfc m 0 (mf_entries m) (scan_start (length (mf_entries m)))) (\<lambda>s.
     bindR (rejectR (card root_entry_ids \<noteq> length (mf_roots m)) DuplicateRootEntry) (\<lambda>_.
     bindR (check_order 0 (canonical_order (mf_entries m) (mf_roots m) ([], sc_children s))) (\<lambda>_.
     let actual = \<lparr>mt_file_count = sc_file_count s, mt_directory_count = sc_directory_count s,
                   mt_total_plaintext_bytes = sc_total_plaintext_bytes s\<rparr> in
     rejectR (mf_totals m \<noteq> actual) (TotalsMismatch (mf_totals m) actual))))))"

end
