(* ===== verification/Manifest_Valid.thy ===== *)
theory Manifest_Valid
  imports Manifest
begin

text \<open>
  What \<open>ManifestV2::validate\<close> decides. \<open>entry_path\<close> and \<open>preorder\<close> describe the forest an
  entry list encodes, \<open>manifest_ok\<close> the acceptable manifests. The lemmas follow the
  validator: its roots loop, its entries loop (whose accumulators have a closed form,
  \<open>scan_of\<close>), and its traversal, which terminates and computes the preorder.
\<close>

section \<open>The declarative contract\<close>

text \<open>The components from the root entry (excluded) down to an entry, by parent links.\<close>

function entry_path :: "ManifestEntryV2 list \<Rightarrow> nat \<Rightarrow> str list" where
  "entry_path es i =
     (case me_parent_entry_id (es ! i) of
        None \<Rightarrow> []
      | Some p \<Rightarrow> if unat p < i then entry_path es (unat p) @ [me_component (es ! i)] else [])"
  by pat_completeness auto
termination
  by (relation "measure (\<lambda>(es, i). i)") auto

declare entry_path.simps [simp del]

definition path_cost :: "str list \<Rightarrow> nat" where
  "path_cost path = (\<Sum>c \<leftarrow> path. length c + 1)"

definition child_of :: "ManifestEntryV2 list \<Rightarrow> nat \<Rightarrow> nat \<Rightarrow> bool" where
  "child_of es i j \<longleftrightarrow> (\<exists>p. me_parent_entry_id (es ! j) = Some p \<and> unat p = i)"

definition children_of :: "ManifestEntryV2 list \<Rightarrow> nat \<Rightarrow> nat list" where
  "children_of es i = filter (child_of es i) [Suc i..<length es]"

text \<open>The canonical order: an entry, then its children by component, each with its subtree.\<close>

function preorder :: "ManifestEntryV2 list \<Rightarrow> nat \<Rightarrow> nat list" where
  "preorder es i = i # concat (map (preorder es) (sort_children es (children_of es i)))"
  by pat_completeness auto
termination
  by (relation "measure (\<lambda>(es, i). length es - i)")
    (auto simp: sort_children_def children_of_def)

declare preorder.simps [simp del]

definition component_ok :: "(str \<Rightarrow> bool) \<Rightarrow> str \<Rightarrow> bool" where
  "component_ok nfc c \<longleftrightarrow> c \<noteq> [] \<and> c \<noteq> ascii ''.'' \<and> c \<noteq> ascii ''..''
     \<and> length c \<le> MAX_MANIFEST_V2_COMPONENT_BYTES
     \<and> (\<forall>ch \<in> set (chars c). \<not> is_control ch \<and> ch \<noteq> 0x2F \<and> ch \<noteq> 0x5C) \<and> nfc c"

definition root_ok :: "(str \<Rightarrow> bool) \<Rightarrow> nat \<Rightarrow> nat \<Rightarrow> ManifestRootV2 \<Rightarrow> bool" where
  "root_ok nfc n i r \<longleftrightarrow> mr_root_id r = word_of_nat i \<and> unat (mr_root_entry_id r) < n
     \<and> component_ok nfc (mr_requested_name r)
     \<and> (\<forall>omitted. mr_completeness r \<noteq> UserApprovedPartial 0 omitted)"

definition entry_ok :: "(str \<Rightarrow> bool) \<Rightarrow> ManifestV2 \<Rightarrow> nat \<Rightarrow> bool" where
  "entry_ok nfc m i \<longleftrightarrow>
     (let es = mf_entries m; e = es ! i; root = mf_roots m ! unat (me_root_id e) in
      me_entry_id e = word_of_nat i \<and> component_ok nfc (me_component e)
      \<and> unat (me_root_id e) < length (mf_roots m)
      \<and> (case me_parent_entry_id e of
           None \<Rightarrow> mr_root_entry_id root = me_entry_id e \<and> mr_requested_name root = me_component e
         | Some p \<Rightarrow> unat p < i \<and> me_root_id (es ! unat p) = me_root_id e
             \<and> me_kind (es ! unat p) = Directory)
      \<and> length (entry_path es i) \<le> MAX_MANIFEST_V2_PATH_DEPTH
      \<and> path_cost (entry_path es i) \<le> MAX_MANIFEST_V2_PATH_BYTES
      \<and> (me_kind e = Directory \<longrightarrow> me_plaintext_size e = 0 \<and> me_content_digest e = Deferred))"

definition sibling_key :: "ManifestEntryV2 \<Rightarrow> u32 \<times> u32 option \<times> str" where
  "sibling_key e = (me_root_id e, me_parent_entry_id e, me_component e)"

definition files_in :: "ManifestEntryV2 list \<Rightarrow> ManifestEntryV2 list" where
  "files_in es = filter (\<lambda>e. me_kind e = RegularFile) es"

definition dirs_in :: "ManifestEntryV2 list \<Rightarrow> ManifestEntryV2 list" where
  "dirs_in es = filter (\<lambda>e. me_kind e = Directory) es"

definition plain_sum :: "ManifestEntryV2 list \<Rightarrow> nat" where
  "plain_sum es = (\<Sum>e \<leftarrow> files_in es. unat (me_plaintext_size e))"

definition forest_order :: "ManifestV2 \<Rightarrow> nat list" where
  "forest_order m =
     concat (map (\<lambda>r. preorder (mf_entries m) (unat (mr_root_entry_id r))) (mf_roots m))"

definition header_ok :: "ManifestV2 \<Rightarrow> bool" where
  "header_ok m \<longleftrightarrow> mf_job_id m \<noteq> replicate 16 0 \<and> mf_generation m \<noteq> 0 \<and> mf_selection_revision m \<noteq> 0
     \<and> mf_roots m \<noteq> [] \<and> length (mf_roots m) \<le> MAX_MANIFEST_V2_ROOTS
     \<and> mf_entries m \<noteq> [] \<and> length (mf_entries m) \<le> MAX_MANIFEST_V2_ENTRIES"

definition totals_ok :: "ManifestV2 \<Rightarrow> bool" where
  "totals_ok m \<longleftrightarrow>
     unat (mt_file_count (mf_totals m)) = length (files_in (mf_entries m))
     \<and> unat (mt_directory_count (mf_totals m)) = length (dirs_in (mf_entries m))
     \<and> unat (mt_total_plaintext_bytes (mf_totals m)) = plain_sum (mf_entries m)"

definition manifest_ok :: "(str \<Rightarrow> bool) \<Rightarrow> ManifestV2 \<Rightarrow> bool" where
  "manifest_ok nfc m \<longleftrightarrow>
     header_ok m
     \<and> (\<forall>i < length (mf_roots m). root_ok nfc (length (mf_entries m)) i (mf_roots m ! i))
     \<and> distinct (map mr_root_entry_id (mf_roots m))
     \<and> (\<forall>i < length (mf_entries m). entry_ok nfc m i)
     \<and> distinct (map sibling_key (mf_entries m))
     \<and> forest_order m = [0..<length (mf_entries m)]
     \<and> totals_ok m"

section \<open>Components and roots\<close>

lemma validate_component_iff [simp]: "validate_component nfc c = Inr u \<longleftrightarrow> component_ok nfc c"
  by (auto simp: validate_component_def component_ok_def)

lemma validate_root_iff [simp]: "validate_root nfc n i r = Inr u \<longleftrightarrow> root_ok nfc n i r"
  by (auto simp: validate_root_def root_ok_def split: SourceCompletenessV2.splits)

lemma validate_roots_iff:
  "validate_roots nfc n i rs ids = Inr ids'
     \<longleftrightarrow> (\<forall>j < length rs. root_ok nfc n (i + j) (rs ! j)) \<and> ids' = ids \<union> set (map mr_root_entry_id rs)"
proof (induction rs arbitrary: i ids)
  case Nil
  then show ?case by auto
next
  case (Cons r rs)
  then show ?case
    by (auto simp: less_Suc_eq_0_disj)
qed

lemma validate_header_iff [simp]: "validate_header m = Inr u \<longleftrightarrow> header_ok m"
  by (auto simp: validate_header_def header_ok_def)

section \<open>The entries loop\<close>

text \<open>What the accumulators hold after the first \<open>k\<close> entries.\<close>

definition scan_of :: "ManifestEntryV2 list \<Rightarrow> nat \<Rightarrow> EntryScan" where
  "scan_of es k =
     \<lparr>sc_sibling_components = sibling_key ` set (take k es),
      sc_file_count = word_of_nat (length (files_in (take k es))),
      sc_directory_count = word_of_nat (length (dirs_in (take k es))),
      sc_total_plaintext_bytes = word_of_nat (plain_sum (take k es)),
      sc_depths = map (\<lambda>i. length (entry_path es i)) [0..<k],
      sc_path_bytes = map (\<lambda>i. path_cost (entry_path es i)) [0..<k],
      sc_children = map (\<lambda>i. filter (child_of es i) [0..<k]) [0..<length es]\<rparr>"

lemma scan_start_scan_of: "scan_start (length es) = scan_of es 0"
  by (simp add: scan_start_def scan_of_def files_in_def dirs_in_def plain_sum_def map_replicate_const)

text \<open>What makes one round succeed.\<close>

definition step_ok :: "(str \<Rightarrow> bool) \<Rightarrow> ManifestV2 \<Rightarrow> nat \<Rightarrow> bool" where
  "step_ok nfc m k \<longleftrightarrow> entry_ok nfc m k \<and> plain_sum (take (Suc k) (mf_entries m)) < 2 ^ 64
     \<and> sibling_key (mf_entries m ! k) \<notin> sibling_key ` set (take k (mf_entries m))"

lemma path_cost_snoc [simp]: "path_cost (path @ [c]) = path_cost path + length c + 1"
  by (simp add: path_cost_def)

lemma entry_path_None [simp]: "me_parent_entry_id (es ! i) = None \<Longrightarrow> entry_path es i = []"
  by (simp add: entry_path.simps)

lemma entry_path_Some [simp]:
  "me_parent_entry_id (es ! i) = Some p \<Longrightarrow> unat p < i
     \<Longrightarrow> entry_path es i = entry_path es (unat p) @ [me_component (es ! i)]"
  by (simp add: entry_path.simps)

lemma path_cost_Nil [simp]: "path_cost [] = 0"
  by (simp add: path_cost_def)

text \<open>The children lists after one more entry.\<close>

lemma children_Suc_None:
  "me_parent_entry_id (es ! k) = None
     \<Longrightarrow> map (\<lambda>i. filter (child_of es i) [0..<Suc k]) [0..<n] = map (\<lambda>i. filter (child_of es i) [0..<k]) [0..<n]"
  by (simp add: child_of_def)

lemma children_Suc_Some:
  assumes "me_parent_entry_id (es ! k) = Some p" and "unat p < n"
  shows "map (\<lambda>i. filter (child_of es i) [0..<Suc k]) [0..<n]
    = (map (\<lambda>i. filter (child_of es i) [0..<k]) [0..<n])
        [unat p := filter (child_of es (unat p)) [0..<k] @ [k]]"
  using assms by (intro nth_equalityI) (auto simp: child_of_def nth_list_update)

lemma place_entry_iff:
  fixes m k
  defines "es \<equiv> mf_entries m"
  defines "e \<equiv> es ! k"
  assumes k: "k < length es" and prev: "\<And>j. j < k \<Longrightarrow> path_cost (entry_path es j) \<le> MAX_MANIFEST_V2_PATH_BYTES"
    and comp: "component_ok nfc (me_component e)"
  shows "place_entry m k e root (scan_of es k) = Inr out
    \<longleftrightarrow> (case me_parent_entry_id e of
          None \<Rightarrow> mr_root_entry_id root = me_entry_id e \<and> mr_requested_name root = me_component e
        | Some p \<Rightarrow> unat p < k \<and> me_root_id (es ! unat p) = me_root_id e
            \<and> me_kind (es ! unat p) = Directory)
      \<and> out = (length (entry_path es k), path_cost (entry_path es k),
               map (\<lambda>i. filter (child_of es i) [0..<Suc k]) [0..<length es])"
proof (cases "me_parent_entry_id e")
  case None
  then show ?thesis
    using children_Suc_None [of es k] by (auto simp: place_entry_def scan_of_def e_def simp del: upt_Suc)
next
  case (Some p)
  have "path_cost (entry_path es (unat p)) + length (me_component e) + 1 < 2 ^ 64" if "unat p < k"
    using prev [OF that] comp by (simp add: component_ok_def manifest_limits)
  then show ?thesis
    using Some k children_Suc_Some [of es k p "length es"]
    by (auto simp: place_entry_def scan_of_def e_def es_def [symmetric] Let_def bind_eq_Some_conv
        simp del: upt_Suc)
qed

lemma take_Suc_append: "k < length es \<Longrightarrow> take (Suc k) es = take k es @ [es ! k]"
  by (rule take_Suc_conv_app_nth)

lemma tally_snoc:
  "files_in (es @ [e]) = files_in es @ (if me_kind e = RegularFile then [e] else [])"
  "dirs_in (es @ [e]) = dirs_in es @ (if me_kind e = Directory then [e] else [])"
  "plain_sum (es @ [e])
     = plain_sum es + (if me_kind e = RegularFile then unat (me_plaintext_size e) else 0)"
  by (simp_all add: files_in_def dirs_in_def plain_sum_def)

lemma length_files_dirs_le:
  "length (files_in (take k es)) \<le> k" "length (dirs_in (take k es)) \<le> k"
  unfolding files_in_def dirs_in_def
  by (rule order_trans [OF length_filter_le], simp)+

lemma checked_add_word_of_nat:
  assumes "a < 2 ^ LENGTH('a)"
  shows "checked_add (word_of_nat a :: 'a::len word) w
    = (if a + unat w < 2 ^ LENGTH('a) then Some (word_of_nat (a + unat w)) else None)"
proof -
  have "unat (word_of_nat a :: 'a word) = a"
    using assms by (rule unat_word_of_nat_small)
  moreover have "word_of_nat a + w = (word_of_nat (a + unat w) :: 'a word)"
    by simp
  ultimately show ?thesis
    unfolding checked_add_def by (simp only:)
qed

lemma word_of_nat_Suc_checked:
  assumes "Suc a < 2 ^ 32"
  shows "checked_add (word_of_nat a :: u32) 1 = Some (word_of_nat (Suc a))"
proof -
  have "a < 2 ^ LENGTH(32)" and "a + unat (1 :: u32) = Suc a"
    using assms by simp_all
  then show ?thesis
    using assms checked_add_word_of_nat [of a "1 :: u32"] by (simp only: LENGTH32 if_True)
qed

lemma word_of_nat_checked_add:
  assumes "a < 2 ^ 64"
  shows "checked_add (word_of_nat a :: u64) w
    = (if a + unat w < 2 ^ 64 then Some (word_of_nat (a + unat w)) else None)"
  using checked_add_word_of_nat [of a w] assms by (simp only: LENGTH64)

lemma count_entry_iff:
  assumes k: "k < length es" "length es \<le> MAX_MANIFEST_V2_ENTRIES"
    and sum: "plain_sum (take k es) < 2 ^ 64"
  shows "count_entry (es ! k) (scan_of es k) = Inr out
    \<longleftrightarrow> (me_kind (es ! k) = Directory
           \<longrightarrow> me_plaintext_size (es ! k) = 0 \<and> me_content_digest (es ! k) = Deferred)
      \<and> plain_sum (take (Suc k) es) < 2 ^ 64
      \<and> out = (word_of_nat (length (files_in (take (Suc k) es))),
               word_of_nat (length (dirs_in (take (Suc k) es))),
               word_of_nat (plain_sum (take (Suc k) es)))"
proof -
  have "Suc (length (files_in (take k es))) < 2 ^ 32" "Suc (length (dirs_in (take k es))) < 2 ^ 32"
    using length_files_dirs_le [where k = k and es = es] k by (simp_all add: manifest_limits)
  note add = word_of_nat_Suc_checked [OF this(1)] word_of_nat_Suc_checked [OF this(2)]
    word_of_nat_checked_add [OF sum]
  show ?thesis
    using sum k(1)
    by (cases "me_kind (es ! k)")
      (auto simp: count_entry_def scan_of_def add take_Suc_append tally_snoc split: if_splits)
qed

lemma scan_of_Suc:
  "k < length es \<Longrightarrow> scan_of es (Suc k) =
     \<lparr>sc_sibling_components = insert (sibling_key (es ! k)) (sibling_key ` set (take k es)),
      sc_file_count = word_of_nat (length (files_in (take (Suc k) es))),
      sc_directory_count = word_of_nat (length (dirs_in (take (Suc k) es))),
      sc_total_plaintext_bytes = word_of_nat (plain_sum (take (Suc k) es)),
      sc_depths = map (\<lambda>i. length (entry_path es i)) [0..<k] @ [length (entry_path es k)],
      sc_path_bytes = map (\<lambda>i. path_cost (entry_path es i)) [0..<k] @ [path_cost (entry_path es k)],
      sc_children = map (\<lambda>i. filter (child_of es i) [0..<Suc k]) [0..<length es]\<rparr>"
  by (auto simp: scan_of_def take_Suc_append)

lemma scan_of_sels:
  "sc_sibling_components (scan_of es k) = sibling_key ` set (take k es)"
  "sc_depths (scan_of es k) = map (\<lambda>i. length (entry_path es i)) [0..<k]"
  "sc_path_bytes (scan_of es k) = map (\<lambda>i. path_cost (entry_path es i)) [0..<k]"
  by (simp_all add: scan_of_def)

lemma validate_entry_iff:
  fixes m k
  defines "es \<equiv> mf_entries m"
  assumes k: "k < length es" "length es \<le> MAX_MANIFEST_V2_ENTRIES"
    and prev: "\<And>j. j < k \<Longrightarrow> step_ok nfc m j"
  shows "validate_entry nfc m k (es ! k) (scan_of es k) = Inr s
    \<longleftrightarrow> step_ok nfc m k \<and> s = scan_of es (Suc k)"
proof -
  have sum: "plain_sum (take k es) < 2 ^ 64"
    using prev [of "k - 1"] by (cases k) (auto simp: step_ok_def es_def plain_sum_def files_in_def)
  have cost: "path_cost (entry_path es j) \<le> MAX_MANIFEST_V2_PATH_BYTES" if "j < k" for j
    using prev [OF that] by (simp add: step_ok_def entry_ok_def es_def Let_def)
  note place = place_entry_iff [of k m, folded es_def, OF k(1) cost]
  show ?thesis
    by (auto simp: validate_entry_def step_ok_def entry_ok_def Let_def es_def [symmetric]
        place count_entry_iff [OF k sum] scan_of_Suc [OF k(1)] scan_of_sels
        sibling_key_def [symmetric] not_less simp del: upt_Suc)
qed

lemma validate_entries_iff:
  fixes m
  defines "es \<equiv> mf_entries m"
  assumes "length es \<le> MAX_MANIFEST_V2_ENTRIES"
  shows "k \<le> length es \<Longrightarrow> (\<And>j. j < k \<Longrightarrow> step_ok nfc m j)
    \<Longrightarrow> validate_entries nfc m k (drop k es) (scan_of es k) = Inr s
      \<longleftrightarrow> (\<forall>j. k \<le> j \<and> j < length es \<longrightarrow> step_ok nfc m j) \<and> s = scan_of es (length es)"
proof (induction "length es - k" arbitrary: k)
  case 0
  then have "k = length es" by simp
  then show ?case by auto
next
  case (Suc d)
  then have k: "k < length es" by simp
  have step: "validate_entry nfc m k (es ! k) (scan_of es k) = Inr s'
      \<longleftrightarrow> step_ok nfc m k \<and> s' = scan_of es (Suc k)" for s'
    using validate_entry_iff [of k m nfc s'] k assms Suc.prems by (simp add: es_def)
  have cons: "validate_entries nfc m k (drop k es) (scan_of es k) = Inr s
      \<longleftrightarrow> step_ok nfc m k
        \<and> validate_entries nfc m (Suc k) (drop (Suc k) es) (scan_of es (Suc k)) = Inr s"
    unfolding Cons_nth_drop_Suc [OF k, symmetric] validate_entries.simps bindR_Inr_iff step by blast
  have split: "(\<forall>j. k \<le> j \<and> j < length es \<longrightarrow> step_ok nfc m j)
      \<longleftrightarrow> step_ok nfc m k \<and> (\<forall>j. Suc k \<le> j \<and> j < length es \<longrightarrow> step_ok nfc m j)"
    using k by (metis Suc_leD Suc_leI le_eq_less_or_eq)
  show ?case
  proof (cases "step_ok nfc m k")
    case True
    have "validate_entries nfc m (Suc k) (drop (Suc k) es) (scan_of es (Suc k)) = Inr s
        \<longleftrightarrow> (\<forall>j. Suc k \<le> j \<and> j < length es \<longrightarrow> step_ok nfc m j) \<and> s = scan_of es (length es)"
    proof (rule Suc.hyps(1))
      show "d = length es - Suc k" "Suc k \<le> length es"
        using Suc.hyps(2) k by simp_all
      show "step_ok nfc m j" if "j < Suc k" for j
        using that True Suc.prems(2) by (cases "j = k") simp_all
    qed
    with True show ?thesis unfolding cons split by simp
  next
    case False
    then show ?thesis unfolding cons split by simp
  qed
qed

lemma plain_sum_take_le: "plain_sum (take k es) \<le> plain_sum es"
proof -
  have "plain_sum (take k es @ drop k es) = plain_sum (take k es) + plain_sum (drop k es)"
    by (simp add: plain_sum_def files_in_def del: append_take_drop_id)
  then show ?thesis by simp
qed

lemma distinct_map_take_iff:
  "distinct (map f xs) \<longleftrightarrow> (\<forall>k < length xs. f (xs ! k) \<notin> f ` set (take k xs))"
proof (induction xs rule: rev_induct)
  case Nil
  then show ?case by simp
next
  case (snoc x xs)
  have "(\<forall>k < length xs. f ((xs @ [x]) ! k) \<notin> f ` set (take k (xs @ [x])))
      \<longleftrightarrow> (\<forall>k < length xs. f (xs ! k) \<notin> f ` set (take k xs))"
    by (simp add: nth_append)
  with snoc.IH show ?case
    by (auto simp: less_Suc_eq nth_append)
qed

text \<open>The entries loop accepts exactly the well-formed, sibling-free, summable entry lists.\<close>

lemma validate_entries_from_start:
  assumes "header_ok m"
  shows "validate_entries nfc m 0 (mf_entries m) (scan_start (length (mf_entries m))) = Inr s
    \<longleftrightarrow> (\<forall>i < length (mf_entries m). entry_ok nfc m i) \<and> distinct (map sibling_key (mf_entries m))
      \<and> plain_sum (mf_entries m) < 2 ^ 64 \<and> s = scan_of (mf_entries m) (length (mf_entries m))"
proof -
  let ?es = "mf_entries m"
  have "validate_entries nfc m 0 ?es (scan_start (length ?es)) = Inr s
      \<longleftrightarrow> (\<forall>j < length ?es. step_ok nfc m j) \<and> s = scan_of ?es (length ?es)"
    using validate_entries_iff [of m 0 nfc s] assms by (simp add: header_ok_def scan_start_scan_of)
  also have "(\<forall>j < length ?es. step_ok nfc m j)
      \<longleftrightarrow> (\<forall>i < length ?es. entry_ok nfc m i) \<and> distinct (map sibling_key ?es) \<and> plain_sum ?es < 2 ^ 64"
    (is "?steps \<longleftrightarrow> ?ok")
  proof
    assume ?steps
    moreover have "plain_sum ?es < 2 ^ 64"
      using \<open>?steps\<close> assms by (cases ?es) (auto simp: step_ok_def header_ok_def dest: spec [of _ "length ?es - 1"])
    ultimately show ?ok
      by (auto simp: step_ok_def distinct_map_take_iff)
  next
    assume ?ok
    then show ?steps
      using plain_sum_take_le [of _ ?es]
      by (auto simp: step_ok_def distinct_map_take_iff intro: le_less_trans)
  qed
  finally show ?thesis by blast
qed

section \<open>The traversal\<close>

lemma set_sort_children [simp]: "set (sort_children es xs) = set xs"
  by (simp add: sort_children_def)

lemma sort_children_idem [simp]: "sort_children es (sort_children es xs) = sort_children es xs"
  unfolding sort_children_def by (rule sort_key_id_if_sorted) simp

lemma children_of_bounds: "j \<in> set (children_of es i) \<Longrightarrow> i < j \<and> j < length es"
  by (auto simp: children_of_def)

text \<open>
  The invariant of the \<open>while\<close>: what is emitted and what the stack still stands for make up
  the target order, and the children lists are those of the forest, sorted or not.
\<close>

definition dfs_inv :: "ManifestEntryV2 list \<Rightarrow> nat list \<Rightarrow> dfs_state \<Rightarrow> bool" where
  "dfs_inv es target = (\<lambda>(stack, order, children).
     order @ concat (map (preorder es) stack) = target \<and> (\<forall>i \<in> set stack. i < length es)
     \<and> length children = length es
     \<and> (\<forall>i < length es. sort_children es (children ! i) = sort_children es (children_of es i)))"

lemma dfs_step_inv:
  assumes "dfs_inv es target s" and "dfs_pending s"
  shows "dfs_inv es target (dfs_step es s)"
proof -
  obtain i stack order children where s: "s = (i # stack, order, children)"
    using assms(2) by (cases s) (auto simp: dfs_pending_def neq_Nil_conv)
  have i: "i < length es" and sorted: "sort_children es (children ! i) = sort_children es (children_of es i)"
    using assms(1) by (auto simp: s dfs_inv_def)
  have "order @ concat (map (preorder es) (i # stack))
      = (order @ [i]) @ concat (map (preorder es) (sort_children es (children_of es i) @ stack))"
    by (simp add: preorder.simps [of es i])
  with assms(1) i sorted show ?thesis
    by (auto simp: s dfs_inv_def dfs_step_def Let_def nth_list_update dest: children_of_bounds)
qed

definition dfs_size :: "ManifestEntryV2 list \<Rightarrow> dfs_state \<Rightarrow> nat" where
  "dfs_size es = (\<lambda>(stack, order, children). length (concat (map (preorder es) stack)))"

lemma dfs_step_decreases:
  assumes "dfs_inv es target s" and "dfs_pending s"
  shows "dfs_size es (dfs_step es s) < dfs_size es s"
proof -
  obtain i stack order children where s: "s = (i # stack, order, children)"
    using assms(2) by (cases s) (auto simp: dfs_pending_def neq_Nil_conv)
  have "sort_children es (children ! i) = sort_children es (children_of es i)"
    using assms(1) by (auto simp: s dfs_inv_def)
  then show ?thesis
    by (simp add: s dfs_size_def dfs_step_def Let_def preorder.simps [of es i])
qed

text \<open>The loop ends, with the preorder of its start emitted.\<close>

lemma dfs_while:
  assumes "dfs_inv es target s"
  shows "dfs_inv es target (while dfs_pending (dfs_step es) s)
    \<and> \<not> dfs_pending (while dfs_pending (dfs_step es) s)"
proof (rule while_rule [where P = "dfs_inv es target" and r = "measure (dfs_size es)"])
  show "dfs_inv es target s" by (rule assms)
  show "wf (measure (dfs_size es))" by simp
qed (auto intro: dfs_step_inv dfs_step_decreases)

lemma dfs_terminates:
  assumes "dfs_inv es target s"
  shows "\<exists>t. while_option dfs_pending (dfs_step es) s = Some t"
  by (rule measure_while_option_Some [where P = "dfs_inv es target" and f = "dfs_size es"])
    (auto intro: dfs_step_inv dfs_step_decreases assms)

lemma dfs_inv_start:
  "dfs_inv es (order @ preorder es i) ([i], order, children)
     \<longleftrightarrow> i < length es \<and> length children = length es
       \<and> (\<forall>j < length es. sort_children es (children ! j) = sort_children es (children_of es j))"
  by (simp add: dfs_inv_def)

lemma canonical_order_preorder:
  assumes "\<forall>r \<in> set roots. unat (mr_root_entry_id r) < length es"
    and "length children = length es"
    and "\<forall>j < length es. sort_children es (children ! j) = sort_children es (children_of es j)"
  shows "canonical_order es roots (order, children)
    = order @ concat (map (\<lambda>r. preorder es (unat (mr_root_entry_id r))) roots)"
  using assms
proof (induction roots arbitrary: order children)
  case Nil
  then show ?case by simp
next
  case (Cons r roots)
  let ?i = "unat (mr_root_entry_id r)"
  let ?t = "while dfs_pending (dfs_step es) ([?i], order, children)"
  obtain stack' order' children' where t: "?t = (stack', order', children')"
    by (cases ?t) auto
  have finished: "dfs_inv es (order @ preorder es ?i) ?t \<and> \<not> dfs_pending ?t"
    using Cons.prems by (intro dfs_while) (simp add: dfs_inv_start)
  from finished [unfolded t] have "stack' = []" and "order' = order @ preorder es ?i" and "length children' = length es"
    and "\<forall>j < length es. sort_children es (children' ! j) = sort_children es (children_of es j)"
    by (auto simp: dfs_inv_def dfs_pending_def)
  with Cons show ?case by (simp add: t)
qed

lemma check_order_iff: "check_order k xs = Inr u \<longleftrightarrow> xs = [k..<k + length xs]"
proof (induction xs arbitrary: k)
  case Nil
  then show ?case by simp
next
  case (Cons x xs)
  have "[k..<k + length (x # xs)] = k # [Suc k..<Suc k + length xs]"
    by (subst upt_conv_Cons) (simp_all del: upt_Suc)
  with Cons show ?case by (auto simp del: upt_Suc)
qed

section \<open>What the validator decides\<close>

text \<open>The children the loop collected are those of the forest: a child follows its parent.\<close>

lemma children_of_all:
  assumes "\<forall>i < length (mf_entries m). entry_ok nfc m i"
  shows "filter (child_of (mf_entries m) i) [0..<length (mf_entries m)] = children_of (mf_entries m) i"
proof -
  let ?es = "mf_entries m"
  have after: "i < j" if "child_of ?es i j" "j < length ?es" for j
    using that assms by (auto simp: child_of_def entry_ok_def Let_def split: option.splits)
  show ?thesis
  proof (cases "i < length ?es")
    case True
    have "[0..<length ?es] = [0..<Suc i] @ [Suc i..<length ?es]"
      using True by (metis Suc_leI le0 upt_add_eq_append le_add_diff_inverse)
    moreover have "filter (child_of ?es i) [0..<Suc i] = []"
      using True after by (fastforce simp: filter_empty_conv simp del: upt_Suc)
    ultimately show ?thesis by (simp add: children_of_def del: upt_Suc)
  next
    case False
    have "\<not> child_of ?es i j" if "j < length ?es" for j
      using after [OF _ that] that False by auto
    then show ?thesis using False by (simp add: children_of_def)
  qed
qed

text \<open>Every entry is reached from a root: the traversal leaves none out.\<close>

lemma preorder_self: "i \<in> set (preorder es i)"
  by (subst preorder.simps) simp

lemma preorder_closed:
  "j \<in> set (preorder es i) \<Longrightarrow> k \<in> set (children_of es j) \<Longrightarrow> k \<in> set (preorder es i)"
proof (induction es i rule: preorder.induct)
  case (1 es i)
  from "1.prems"(1) consider "j = i" | c where "c \<in> set (children_of es i)" "j \<in> set (preorder es c)"
    by (subst (asm) preorder.simps) auto
  then show ?case
  proof cases
    case 1
    with \<open>k \<in> set (children_of es j)\<close> show ?thesis
      by (subst preorder.simps) (auto intro: preorder_self)
  next
    case 2
    with "1.IH" [of c] \<open>k \<in> set (children_of es j)\<close> show ?thesis
      by (subst preorder.simps) auto
  qed
qed

lemma preorder_bound: "i < length es \<Longrightarrow> j \<in> set (preorder es i) \<Longrightarrow> j < length es"
proof (induction es i rule: preorder.induct)
  case (1 es i)
  from "1.prems"(2) consider "j = i" | c where "c \<in> set (children_of es i)" "j \<in> set (preorder es c)"
    by (subst (asm) preorder.simps) auto
  then show ?case
    using "1.prems"(1) "1.IH" children_of_bounds by cases auto
qed

lemma forest_order_covers:
  assumes entries: "\<forall>i < length (mf_entries m). entry_ok nfc m i"
    and size: "length (mf_entries m) < 2 ^ 32"
  shows "i < length (mf_entries m) \<Longrightarrow> i \<in> set (forest_order m)"
proof (induction i rule: less_induct)
  case (less i)
  let ?es = "mf_entries m"
  let ?root = "mf_roots m ! unat (me_root_id (?es ! i))"
  have ok: "entry_ok nfc m i"
    using entries less.prems by blast
  then have root: "?root \<in> set (mf_roots m)"
    by (auto simp: entry_ok_def Let_def)
  show ?case
  proof (cases "me_parent_entry_id (?es ! i)")
    case None
    with ok have "mr_root_entry_id ?root = word_of_nat i"
      by (simp add: entry_ok_def Let_def)
    then have "unat (mr_root_entry_id ?root) = i"
      using less.prems size by (simp add: unat_word_of_nat_small)
    with root show ?thesis
      using preorder_self [of i ?es] by (force simp: forest_order_def)
  next
    case (Some p)
    with ok have p: "unat p < i"
      by (simp add: entry_ok_def Let_def)
    then have "i \<in> set (children_of ?es (unat p))"
      using Some less.prems by (simp add: children_of_def child_of_def)
    moreover have "unat p \<in> set (forest_order m)"
      using less.IH [OF p] p less.prems by simp
    ultimately show ?thesis
      by (auto simp: forest_order_def intro: preorder_closed)
  qed
qed

lemma forest_order_full:
  assumes "\<forall>i < length (mf_entries m). entry_ok nfc m i" and "length (mf_entries m) < 2 ^ 32"
    and "\<forall>r \<in> set (mf_roots m). unat (mr_root_entry_id r) < length (mf_entries m)"
  shows "forest_order m = [0..<length (forest_order m)] \<longleftrightarrow> forest_order m = [0..<length (mf_entries m)]"
proof
  assume order: "forest_order m = [0..<length (forest_order m)]"
  have "set (forest_order m) = {0..<length (mf_entries m)}"
    using forest_order_covers [OF assms(1,2)] assms(3) preorder_bound
    by (fastforce simp: forest_order_def)
  moreover have "set (forest_order m) = {0..<length (forest_order m)}"
    using arg_cong [OF order, of set] by simp
  ultimately have "length (forest_order m) = length (mf_entries m)"
    by (metis card_atLeastLessThan diff_zero)
  with order show "forest_order m = [0..<length (mf_entries m)]" by simp
qed simp

lemma totals_ok_iff:
  assumes "length (mf_entries m) < 2 ^ 32"
  shows "mf_totals m = \<lparr>mt_file_count = word_of_nat (length (files_in (mf_entries m))),
      mt_directory_count = word_of_nat (length (dirs_in (mf_entries m))),
      mt_total_plaintext_bytes = word_of_nat (plain_sum (mf_entries m))\<rparr>
      \<and> plain_sum (mf_entries m) < 2 ^ 64 \<longleftrightarrow> totals_ok m"
proof -
  let ?es = "mf_entries m"
  have "length (files_in ?es) < 2 ^ 32" "length (dirs_in ?es) < 2 ^ 32"
    using length_files_dirs_le [of "length ?es" ?es] assms by simp_all
  then show ?thesis
    using word_of_nat_eq_iff [of "mt_file_count (mf_totals m)" "length (files_in ?es)"]
      word_of_nat_eq_iff [of "mt_directory_count (mf_totals m)" "length (dirs_in ?es)"]
      word_of_nat_eq_iff [of "mt_total_plaintext_bytes (mf_totals m)" "plain_sum ?es"]
    unfolding totals_ok_def LENGTH32 LENGTH64 by (cases "mf_totals m") auto
qed

lemma canonical_order_scan:
  assumes "\<forall>i < length (mf_entries m). entry_ok nfc m i"
    and "\<forall>r \<in> set (mf_roots m). unat (mr_root_entry_id r) < length (mf_entries m)"
  shows "canonical_order (mf_entries m) (mf_roots m)
      ([], sc_children (scan_of (mf_entries m) (length (mf_entries m)))) = forest_order m"
  using canonical_order_preorder [OF assms(2),
      of "sc_children (scan_of (mf_entries m) (length (mf_entries m)))" "[]"]
  by (simp add: scan_of_def forest_order_def children_of_all [OF assms(1)])

lemma validate_Inr_iff: "validate nfc m = Inr u \<longleftrightarrow> manifest_ok nfc m"
proof (cases "header_ok m
    \<and> (\<forall>i < length (mf_roots m). root_ok nfc (length (mf_entries m)) i (mf_roots m ! i))
    \<and> (\<forall>i < length (mf_entries m). entry_ok nfc m i)")
  case False
  then show ?thesis
    by (auto simp: validate_def manifest_ok_def validate_roots_iff validate_entries_from_start)
next
  case True
  let ?es = "mf_entries m"
  have size: "length ?es < 2 ^ 32"
    using True by (simp add: header_ok_def manifest_limits)
  have roots: "\<forall>r \<in> set (mf_roots m). unat (mr_root_entry_id r) < length ?es"
    using True by (auto simp: in_set_conv_nth root_ok_def)
  have order: "canonical_order ?es (mf_roots m) ([], sc_children (scan_of ?es (length ?es)))
      = forest_order m"
    using canonical_order_scan [OF _ roots] True by blast
  have ids: "card (set (map mr_root_entry_id (mf_roots m))) = length (mf_roots m)
      \<longleftrightarrow> distinct (map mr_root_entry_id (mf_roots m))"
    by (metis card_distinct distinct_card length_map)
  have "validate nfc m = Inr u \<longleftrightarrow>
      distinct (map sibling_key ?es) \<and> plain_sum ?es < 2 ^ 64
      \<and> distinct (map mr_root_entry_id (mf_roots m))
      \<and> forest_order m = [0..<length (forest_order m)]
      \<and> mf_totals m = \<lparr>mt_file_count = word_of_nat (length (files_in ?es)),
          mt_directory_count = word_of_nat (length (dirs_in ?es)),
          mt_total_plaintext_bytes = word_of_nat (plain_sum ?es)\<rparr>"
    using True ids
    by (auto simp: validate_def validate_roots_iff validate_entries_from_start order
        check_order_iff Let_def) (auto simp: scan_of_def)
  also have "\<dots> \<longleftrightarrow> distinct (map sibling_key ?es) \<and> distinct (map mr_root_entry_id (mf_roots m))
      \<and> forest_order m = [0..<length ?es] \<and> totals_ok m"
    using totals_ok_iff [OF size] forest_order_full [OF _ size roots] True by blast
  finally show ?thesis
    using True by (auto simp: manifest_ok_def)
qed

end
