(* ===== verification/Manifest_Codec.thy ===== *)
theory Manifest_Codec
  imports Reader Manifest_Valid
begin

text \<open>
  The wire form of an offer (\<open>crates/envoix-protocol/src/manifest_v2.rs\<close>): the encoder
  \<open>encode_manifest_offer_v2\<close>, the bounded decoder \<open>decode_manifest_offer_v2\<close> and the cursor
  reads it is made of. An entry travels with its full path below its root; the decoder finds
  the parent by looking that path up.

  \<open>hash\<close> stands for \<open>blake3::hash\<close>, a package the code calls; where a theorem needs it, the
  hypothesis is that a digest has 32 bytes.
\<close>

section \<open>Errors and tags\<close>

datatype ManifestV2CodecError =
    Validation ManifestV2ValidationError
  | EncodedOfferTooLarge | Truncated | BadMagic
  | UnsupportedVersion u16
  | UnexpectedFrameType u16
  | LengthMismatch | StructuralDigestMismatch
  | UnknownCompressionPolicy u8
  | UnknownEntryKind u8
  | UnknownCompleteness u8
  | UnknownDigestTag u8
  | RootCountTooLarge nat
  | EntryCountTooLarge nat
  | ComponentTooLarge nat
  | PathDepthTooLarge nat
  | PathBytesTooLarge nat
  | UnknownRootInWire u32
  | MissingWireParent u32
  | DuplicateWirePath u32
  | InvalidUtf8 | TrailingBytes

record ManifestOfferV2 =
  of_structural_digest :: ContentDigestV2
  of_manifest :: ManifestV2

definition OFFER_MAGIC :: bytes where
  "OFFER_MAGIC = ascii ''ENV2''"

definition MANIFEST_V2_PROTOCOL_VERSION :: u16 where
  "MANIFEST_V2_PROTOCOL_VERSION = 2"

definition OFFER_HEADER_BYTES :: nat where
  "OFFER_HEADER_BYTES = 12"

definition DIGEST_BYTES :: nat where
  "DIGEST_BYTES = 32"

definition JOB_ID_BYTES :: nat where
  "JOB_ID_BYTES = 16"

text \<open>\<open>ManifestV2FrameType::Offer as u16\<close>.\<close>

definition OFFER_FRAME_TYPE :: u16 where
  "OFFER_FRAME_TYPE = 1"

definition policy_tag :: "CompressionPolicyV2 \<Rightarrow> u8" where
  "policy_tag p = (case p of Never \<Rightarrow> 0 | Always \<Rightarrow> 1 | Smart \<Rightarrow> 2)"

definition policy_try_from :: "u8 \<Rightarrow> ManifestV2CodecError + CompressionPolicyV2" where
  "policy_try_from v =
     (if v = 0 then Inr Never else if v = 1 then Inr Always else if v = 2 then Inr Smart
      else Inl (UnknownCompressionPolicy v))"

definition kind_tag :: "ManifestEntryKindV2 \<Rightarrow> u8" where
  "kind_tag k = (case k of RegularFile \<Rightarrow> 1 | Directory \<Rightarrow> 2)"

definition kind_try_from :: "u8 \<Rightarrow> ManifestV2CodecError + ManifestEntryKindV2" where
  "kind_try_from v =
     (if v = 1 then Inr RegularFile else if v = 2 then Inr Directory else Inl (UnknownEntryKind v))"

section \<open>Encoder\<close>

text \<open>Each function gives the bytes the source appends to \<open>output\<close>.\<close>

definition push_bytes :: "bytes \<Rightarrow> bytes" where
  "push_bytes bs = u32_to_be (word_of_nat (length bs)) @ bs"

definition encode_completeness :: "SourceCompletenessV2 \<Rightarrow> bytes" where
  "encode_completeness c =
     (case c of
        Complete \<Rightarrow> [0]
      | UserApprovedPartial boundary omitted \<Rightarrow>
          [1] @ u64_to_be boundary
          @ (case omitted of Some count \<Rightarrow> [1] @ u64_to_be count | None \<Rightarrow> [0]))"

definition encode_root :: "ManifestRootV2 \<Rightarrow> bytes" where
  "encode_root root =
     u32_to_be (mr_root_id root) @ u32_to_be (mr_root_entry_id root)
     @ push_bytes (mr_requested_name root) @ encode_completeness (mr_completeness root)"

definition encode_digest :: "EntryContentDigestV2 \<Rightarrow> bytes" where
  "encode_digest d = (case d of Deferred \<Rightarrow> [0] | Known digest \<Rightarrow> [1] @ digest)"

definition encode_entry :: "ManifestEntryV2 \<Rightarrow> str list \<Rightarrow> bytes" where
  "encode_entry entry path =
     u32_to_be (me_entry_id entry) @ u32_to_be (me_root_id entry)
     @ u32_to_be (word_of_nat (length path)) @ concat (map push_bytes path)
     @ [kind_tag (me_kind entry)] @ u64_to_be (me_plaintext_size entry)
     @ encode_digest (me_content_digest entry)"

text \<open>\<open>wire_paths[parent]\<close> panics on a parent that was not written before; a validated
  manifest has none.\<close>

fun encode_entries :: "ManifestEntryV2 list \<Rightarrow> str list list \<Rightarrow> bytes" where
  "encode_entries [] wire_paths = []"
| "encode_entries (entry # entries) wire_paths =
     (let path = (case me_parent_entry_id entry of
                    None \<Rightarrow> []
                  | Some parent \<Rightarrow> wire_paths ! unat parent @ [me_component entry])
      in encode_entry entry path @ encode_entries entries (wire_paths @ [path]))"

definition encode_totals :: "ManifestTotalsV2 \<Rightarrow> bytes" where
  "encode_totals t = u32_to_be (mt_file_count t) @ u32_to_be (mt_directory_count t)
     @ u64_to_be (mt_total_plaintext_bytes t)"

definition encode_manifest_body :: "ManifestV2 \<Rightarrow> bytes" where
  "encode_manifest_body m =
     mf_job_id m @ u32_to_be (mf_generation m) @ u64_to_be (mf_selection_revision m)
     @ [policy_tag (mf_compression_policy m)]
     @ u32_to_be (word_of_nat (length (mf_roots m))) @ concat (map encode_root (mf_roots m))
     @ u32_to_be (word_of_nat (length (mf_entries m))) @ encode_entries (mf_entries m) []
     @ encode_totals (mf_totals m)"

definition build_manifest_offer_v2 ::
  "(bytes \<Rightarrow> bytes) \<Rightarrow> (str \<Rightarrow> bool) \<Rightarrow> ManifestV2 \<Rightarrow> ManifestV2CodecError + ManifestOfferV2" where
  "build_manifest_offer_v2 hash nfc m =
     bindR (map_err Validation (validate nfc m)) (\<lambda>_.
     Inr \<lparr>of_structural_digest = hash (encode_manifest_body m), of_manifest = m\<rparr>)"

definition encode_manifest_offer_v2 ::
  "(bytes \<Rightarrow> bytes) \<Rightarrow> (str \<Rightarrow> bool) \<Rightarrow> ManifestV2 \<Rightarrow> ManifestV2CodecError + bytes" where
  "encode_manifest_offer_v2 hash nfc m =
     bindR (build_manifest_offer_v2 hash nfc m) (\<lambda>offer.
     let body = encode_manifest_body (of_manifest offer) in
     bindR (ok_or (checked_add_usize DIGEST_BYTES (length body)) EncodedOfferTooLarge) (\<lambda>payload_len.
     bindR (ok_or (checked_add_usize OFFER_HEADER_BYTES payload_len) EncodedOfferTooLarge) (\<lambda>encoded_len.
     bindR (rejectR (encoded_len > MAX_MANIFEST_V2_ENCODED_BYTES) EncodedOfferTooLarge) (\<lambda>_.
     bindR (rejectR (\<not> payload_len < 2 ^ 32) EncodedOfferTooLarge) (\<lambda>_.
     Inr (OFFER_MAGIC @ u16_to_be MANIFEST_V2_PROTOCOL_VERSION @ u16_to_be OFFER_FRAME_TYPE
          @ u32_to_be (word_of_nat payload_len) @ of_structural_digest offer @ body))))))"

section \<open>Decoder\<close>

abbreviation read_exact :: "nat \<Rightarrow> (ManifestV2CodecError, bytes) parser" where
  "read_exact \<equiv> get_exact Truncated"

abbreviation read_u8 :: "(ManifestV2CodecError, u8) parser" where
  "read_u8 \<equiv> get_u8 Truncated"

abbreviation read_u16 :: "(ManifestV2CodecError, u16) parser" where
  "read_u16 \<equiv> get_u16 Truncated"

abbreviation read_u32 :: "(ManifestV2CodecError, u32) parser" where
  "read_u32 \<equiv> get_u32 Truncated"

abbreviation read_u64 :: "(ManifestV2CodecError, u64) parser" where
  "read_u64 \<equiv> get_u64 Truncated"

definition read_component :: "(ManifestV2CodecError, str) parser" where
  "read_component =
     bindP read_u32 (\<lambda>w.
     let len = unat w in
     bindP (rejectP (len > MAX_MANIFEST_V2_COMPONENT_BYTES) (ComponentTooLarge len)) (\<lambda>_.
     bindP (read_exact len) (\<lambda>bs.
     liftP (ok_or (from_utf8 bs) InvalidUtf8))))"

definition read_omitted :: "(ManifestV2CodecError, u64 option) parser" where
  "read_omitted =
     bindP read_u8 (\<lambda>tag.
     if tag = 0 then returnP None
     else if tag = 1 then bindP read_u64 (\<lambda>c. returnP (Some c))
     else liftP (Inl (UnknownCompleteness tag)))"

definition read_completeness :: "(ManifestV2CodecError, SourceCompletenessV2) parser" where
  "read_completeness =
     bindP read_u8 (\<lambda>tag.
     if tag = 0 then returnP Complete
     else if tag = 1 then
       bindP read_u64 (\<lambda>boundary.
       bindP read_omitted (\<lambda>omitted.
       returnP (UserApprovedPartial boundary omitted)))
     else liftP (Inl (UnknownCompleteness tag)))"

definition read_root :: "(ManifestV2CodecError, ManifestRootV2) parser" where
  "read_root =
     bindP read_u32 (\<lambda>root_id.
     bindP read_u32 (\<lambda>root_entry_id.
     bindP read_component (\<lambda>requested_name.
     bindP read_completeness (\<lambda>completeness.
     returnP \<lparr>mr_root_id = root_id, mr_root_entry_id = root_entry_id,
              mr_requested_name = requested_name, mr_completeness = completeness\<rparr>))))"

text \<open>\<open>for index in 0..path_count\<close>: \<open>index\<close> and \<open>path_bytes\<close> are the loop's state, \<open>n\<close> the
  rounds left.\<close>

fun read_path :: "nat \<Rightarrow> nat \<Rightarrow> nat \<Rightarrow> (ManifestV2CodecError, str list) parser" where
  "read_path index path_bytes 0 = returnP []"
| "read_path index path_bytes (Suc n) =
     bindP read_component (\<lambda>c.
     bindP (liftP (ok_or (Option.bind (checked_add_usize path_bytes (length c))
                                      (\<lambda>value. checked_add_usize value (if index > 0 then 1 else 0)))
                     (PathBytesTooLarge (2 ^ 64 - 1)))) (\<lambda>path_bytes.
     bindP (rejectP (path_bytes > MAX_MANIFEST_V2_PATH_BYTES) (PathBytesTooLarge path_bytes)) (\<lambda>_.
     bindP (read_path (Suc index) path_bytes n) (\<lambda>path.
     returnP (c # path)))))"

definition read_digest :: "(ManifestV2CodecError, EntryContentDigestV2) parser" where
  "read_digest =
     bindP read_u8 (\<lambda>tag.
     if tag = 0 then returnP Deferred
     else if tag = 1 then bindP (read_exact DIGEST_BYTES) (\<lambda>d. returnP (Known d))
     else liftP (Inl (UnknownDigestTag tag)))"

type_synonym path_index = "(u32 \<times> str list) \<Rightarrow> u32 option"

text \<open>Parent and component of an entry, from its root and its path.\<close>

definition link_entry ::
  "ManifestRootV2 list \<Rightarrow> path_index \<Rightarrow> u32 \<Rightarrow> u32 \<Rightarrow> str list
     \<Rightarrow> ManifestV2CodecError + u32 option \<times> str" where
  "link_entry roots path_to_entry entry_id root_id path =
     bindR (ok_or (vec_get roots (unat root_id)) (UnknownRootInWire root_id)) (\<lambda>root.
     if path = [] then Inr (None, mr_requested_name root)
     else bindR (ok_or (path_to_entry (root_id, butlast path)) (MissingWireParent entry_id)) (\<lambda>parent.
          Inr (Some parent, last path)))"

definition read_entry ::
  "ManifestRootV2 list \<Rightarrow> path_index \<Rightarrow> (ManifestV2CodecError, ManifestEntryV2 \<times> str list) parser" where
  "read_entry roots path_to_entry =
     bindP read_u32 (\<lambda>entry_id.
     bindP read_u32 (\<lambda>root_id.
     bindP read_u32 (\<lambda>w.
     let path_count = unat w in
     bindP (rejectP (path_count > MAX_MANIFEST_V2_PATH_DEPTH) (PathDepthTooLarge path_count)) (\<lambda>_.
     bindP (read_path 0 0 path_count) (\<lambda>path.
     bindP (liftP (link_entry roots path_to_entry entry_id root_id path)) (\<lambda>(parent, component).
     bindP read_u8 (\<lambda>tag.
     bindP (liftP (kind_try_from tag)) (\<lambda>kind.
     bindP read_u64 (\<lambda>plaintext_size.
     bindP read_digest (\<lambda>content_digest.
     bindP (rejectP (path_to_entry (root_id, path) \<noteq> None) (DuplicateWirePath entry_id)) (\<lambda>_.
     returnP (\<lparr>me_entry_id = entry_id, me_root_id = root_id, me_parent_entry_id = parent,
               me_component = component, me_kind = kind, me_plaintext_size = plaintext_size,
               me_content_digest = content_digest\<rparr>, path))))))))))))"

fun read_entries ::
  "ManifestRootV2 list \<Rightarrow> nat \<Rightarrow> path_index \<Rightarrow> (ManifestV2CodecError, ManifestEntryV2 list) parser" where
  "read_entries roots 0 path_to_entry = returnP []"
| "read_entries roots (Suc n) path_to_entry =
     bindP (read_entry roots path_to_entry) (\<lambda>(entry, path).
     bindP (read_entries roots n (path_to_entry((me_root_id entry, path) \<mapsto> me_entry_id entry))) (\<lambda>entries.
     returnP (entry # entries)))"

definition read_totals :: "(ManifestV2CodecError, ManifestTotalsV2) parser" where
  "read_totals =
     bindP read_u32 (\<lambda>files. bindP read_u32 (\<lambda>dirs. bindP read_u64 (\<lambda>total.
     returnP \<lparr>mt_file_count = files, mt_directory_count = dirs, mt_total_plaintext_bytes = total\<rparr>)))"

definition decode_manifest_body :: "(ManifestV2CodecError, ManifestV2) parser" where
  "decode_manifest_body =
     bindP (read_exact JOB_ID_BYTES) (\<lambda>job_id.
     bindP read_u32 (\<lambda>generation.
     bindP read_u64 (\<lambda>selection_revision.
     bindP read_u8 (\<lambda>tag.
     bindP (liftP (policy_try_from tag)) (\<lambda>compression_policy.
     bindP read_u32 (\<lambda>w.
     let root_count = unat w in
     bindP (rejectP (root_count > MAX_MANIFEST_V2_ROOTS) (RootCountTooLarge root_count)) (\<lambda>_.
     bindP (repeatP (\<lambda>_. read_root) 0 root_count) (\<lambda>roots.
     bindP read_u32 (\<lambda>v.
     let entry_count = unat v in
     bindP (rejectP (entry_count > MAX_MANIFEST_V2_ENTRIES) (EntryCountTooLarge entry_count)) (\<lambda>_.
     bindP (read_entries roots entry_count Map.empty) (\<lambda>entries.
     bindP read_totals (\<lambda>totals.
     returnP \<lparr>mf_job_id = job_id, mf_generation = generation,
              mf_selection_revision = selection_revision,
              mf_compression_policy = compression_policy, mf_roots = roots,
              mf_entries = entries, mf_totals = totals\<rparr>))))))))))))"

definition decode_manifest_offer_v2 ::
  "(bytes \<Rightarrow> bytes) \<Rightarrow> (str \<Rightarrow> bool) \<Rightarrow> bytes \<Rightarrow> ManifestV2CodecError + ManifestOfferV2" where
  "decode_manifest_offer_v2 hash nfc encoded =
     bindR (rejectR (length encoded > MAX_MANIFEST_V2_ENCODED_BYTES) EncodedOfferTooLarge) (\<lambda>_.
     bindR (bindP (read_exact (length OFFER_MAGIC)) (\<lambda>magic.
            bindP (rejectP (magic \<noteq> OFFER_MAGIC) BadMagic) (\<lambda>_.
            bindP read_u16 (\<lambda>version.
            bindP (rejectP (version \<noteq> MANIFEST_V2_PROTOCOL_VERSION) (UnsupportedVersion version)) (\<lambda>_.
            bindP read_u16 (\<lambda>frame_type.
            bindP (rejectP (frame_type \<noteq> OFFER_FRAME_TYPE) (UnexpectedFrameType frame_type)) (\<lambda>_.
            bindP read_u32 (\<lambda>payload_len.
            bindP (inspectP remaining) (\<lambda>left.
            bindP (rejectP (unat payload_len \<noteq> left) LengthMismatch) (\<lambda>_.
            bindP (read_exact DIGEST_BYTES) (\<lambda>claimed_digest.
            bindP (inspectP remaining_slice) (\<lambda>body.
            bindP (rejectP (claimed_digest \<noteq> hash body) StructuralDigestMismatch) (\<lambda>_.
            bindP decode_manifest_body (\<lambda>m.
            bindP (inspectP remaining) (\<lambda>left.
            bindP (rejectP (left \<noteq> 0) TrailingBytes) (\<lambda>_.
            bindP (liftP (map_err Validation (validate nfc m))) (\<lambda>_.
            returnP \<lparr>of_structural_digest = claimed_digest, of_manifest = m\<rparr>))))))))))))))))
            (reader_new encoded)) (\<lambda>(offer, _). Inr offer))"

section \<open>Well-formed values\<close>

text \<open>What the Rust types guarantee: array lengths and UTF-8.\<close>

definition digest_wf :: "EntryContentDigestV2 \<Rightarrow> bool" where
  "digest_wf d \<longleftrightarrow> (\<forall>x. d = Known x \<longrightarrow> length x = DIGEST_BYTES)"

definition manifest_wf :: "ManifestV2 \<Rightarrow> bool" where
  "manifest_wf m \<longleftrightarrow> length (mf_job_id m) = JOB_ID_BYTES
     \<and> (\<forall>r \<in> set (mf_roots m). utf8_valid (mr_requested_name r))
     \<and> (\<forall>e \<in> set (mf_entries m). utf8_valid (me_component e) \<and> digest_wf (me_content_digest e))"

section \<open>Fields and roots\<close>

definition component_wf :: "str \<Rightarrow> bool" where
  "component_wf c \<longleftrightarrow> utf8_valid c \<and> length c \<le> MAX_MANIFEST_V2_COMPONENT_BYTES"

lemma unat_length_le: "length c \<le> n \<Longrightarrow> n < 2 ^ 32 \<Longrightarrow> unat (word_of_nat (length c) :: u32) = length c"
  by (rule unat_word_of_nat_small) simp

interpretation component_wire: codec "\<lambda>c. Inr (push_bytes c)" read_component component_wf
proof
  fix c xs pre ys
  assume "Inr (push_bytes c) = Inr xs" and ok: "component_wf c"
  then have "xs = u32_to_be (word_of_nat (length c)) @ c"
    by (simp add: push_bytes_def)
  moreover have "unat (word_of_nat (length c) :: u32) = length c"
    using ok by (intro unat_length_le [of _ 255]) (simp_all add: component_wf_def manifest_limits)
  ultimately show "read_component (rd pre (xs @ ys)) = Inr (c, rd (pre @ xs) ys)"
    using ok by (simp add: read_component_def Let_def parse_simps component_wf_def from_utf8_def)
next
  fix pre zs c r
  assume "read_component (rd pre zs) = Inr (c, r)"
  then show "\<exists>xs ys. zs = xs @ ys \<and> Inr (push_bytes c) = Inr xs \<and> component_wf c \<and> r = rd (pre @ xs) ys"
    by (auto simp: read_component_def Let_def parser_iffs push_bytes_def component_wf_def
        dest!: parse_dests)
qed

lemmas read_component_append [parse_simps] = component_wire.dec_enc [OF refl]

lemma read_component_dest [parse_dests]:
  "read_component (rd pre zs) = Inr (c, r)
     \<Longrightarrow> \<exists>ys. zs = push_bytes c @ ys \<and> component_wf c \<and> r = rd (pre @ push_bytes c) ys"
  using component_wire.enc_dec by fastforce

interpretation completeness_wire: codec "\<lambda>c. Inr (encode_completeness c)" read_completeness "\<lambda>_. True"
proof
  fix c xs pre ys
  assume "Inr (encode_completeness c) = Inr xs"
  then show "read_completeness (rd pre (xs @ ys)) = Inr (c, rd (pre @ xs) ys)"
    by (auto simp: encode_completeness_def read_completeness_def read_omitted_def parse_simps
        split: SourceCompletenessV2.splits option.splits)
next
  fix pre zs c r
  assume "read_completeness (rd pre zs) = Inr (c, r)"
  then show "\<exists>xs ys. zs = xs @ ys \<and> Inr (encode_completeness c) = Inr xs \<and> True \<and> r = rd (pre @ xs) ys"
    by (auto simp: encode_completeness_def read_completeness_def read_omitted_def parser_iffs
        dest!: parse_dests split: if_splits)
qed

lemmas read_completeness_append [parse_simps] = completeness_wire.dec_enc [OF refl TrueI]

lemma read_completeness_dest [parse_dests]:
  "read_completeness (rd pre zs) = Inr (c, r)
     \<Longrightarrow> \<exists>ys. zs = encode_completeness c @ ys \<and> r = rd (pre @ encode_completeness c) ys"
  using completeness_wire.enc_dec by fastforce

interpretation root_wire: codec "\<lambda>r. Inr (encode_root r)" read_root "\<lambda>r. component_wf (mr_requested_name r)"
proof
  fix root xs pre ys
  assume "Inr (encode_root root) = Inr xs" and "component_wf (mr_requested_name root)"
  then show "read_root (rd pre (xs @ ys)) = Inr (root, rd (pre @ xs) ys)"
    by (auto simp: encode_root_def read_root_def parse_simps)
next
  fix pre zs root r
  assume "read_root (rd pre zs) = Inr (root, r)"
  then show "\<exists>xs ys. zs = xs @ ys \<and> Inr (encode_root root) = Inr xs
      \<and> component_wf (mr_requested_name root) \<and> r = rd (pre @ xs) ys"
    by (auto simp: encode_root_def read_root_def parser_iffs dest!: parse_dests)
qed

interpretation roots_wire: indexed_codec "\<lambda>_ r. Inr (encode_root r)" "\<lambda>_. read_root"
  "\<lambda>_ r. component_wf (mr_requested_name r)"
  by unfold_locales (rule root_wire.dec_enc root_wire.enc_dec; assumption)+

interpretation digest_wire: codec "\<lambda>d. Inr (encode_digest d)" read_digest digest_wf
proof
  fix d xs pre ys
  assume "Inr (encode_digest d) = Inr xs" and "digest_wf d"
  then show "read_digest (rd pre (xs @ ys)) = Inr (d, rd (pre @ xs) ys)"
    by (auto simp: encode_digest_def read_digest_def digest_wf_def parse_simps
        split: EntryContentDigestV2.splits)
next
  fix pre zs d r
  assume "read_digest (rd pre zs) = Inr (d, r)"
  then show "\<exists>xs ys. zs = xs @ ys \<and> Inr (encode_digest d) = Inr xs \<and> digest_wf d \<and> r = rd (pre @ xs) ys"
    by (auto simp: encode_digest_def read_digest_def digest_wf_def parser_iffs
        dest!: parse_dests split: if_splits)
qed

lemmas read_digest_append [parse_simps] = digest_wire.dec_enc [OF refl]

lemma read_digest_dest [parse_dests]:
  "read_digest (rd pre zs) = Inr (d, r)
     \<Longrightarrow> \<exists>ys. zs = encode_digest d @ ys \<and> digest_wf d \<and> r = rd (pre @ encode_digest d) ys"
  using digest_wire.enc_dec by fastforce

interpretation totals_wire: codec "\<lambda>t. Inr (encode_totals t)" read_totals "\<lambda>_. True"
proof
  fix t xs pre ys
  assume "Inr (encode_totals t) = Inr xs"
  then show "read_totals (rd pre (xs @ ys)) = Inr (t, rd (pre @ xs) ys)"
    by (auto simp: encode_totals_def read_totals_def parse_simps)
next
  fix pre zs t r
  assume "read_totals (rd pre zs) = Inr (t, r)"
  then show "\<exists>xs ys. zs = xs @ ys \<and> Inr (encode_totals t) = Inr xs \<and> True \<and> r = rd (pre @ xs) ys"
    by (auto simp: encode_totals_def read_totals_def parser_iffs dest!: parse_dests)
qed

lemma policy_try_from_iff [simp]: "policy_try_from v = Inr p \<longleftrightarrow> v = policy_tag p"
  by (cases p) (auto simp: policy_try_from_def policy_tag_def)

lemma kind_try_from_iff [simp]: "kind_try_from v = Inr k \<longleftrightarrow> v = kind_tag k"
  by (cases k) (auto simp: kind_try_from_def kind_tag_def)

lemma try_from_tag [simp]:
  "policy_try_from (policy_tag p) = Inr p"
  "kind_try_from (kind_tag k) = Inr k"
  by simp_all

section \<open>Paths and entries\<close>

text \<open>What the path loop demands of the components, from a round and a running size on.\<close>

fun path_fits :: "nat \<Rightarrow> nat \<Rightarrow> str list \<Rightarrow> bool" where
  "path_fits index path_bytes [] = True"
| "path_fits index path_bytes (c # path) \<longleftrightarrow>
     (let size = path_bytes + length c + (if index > 0 then 1 else 0) in
      component_wf c \<and> size \<le> MAX_MANIFEST_V2_PATH_BYTES \<and> path_fits (Suc index) size path)"

lemma path_fits_if_cost:
  "\<forall>c \<in> set path. component_wf c \<Longrightarrow> path_bytes + path_cost path \<le> MAX_MANIFEST_V2_PATH_BYTES
     \<Longrightarrow> path_fits index path_bytes path"
  by (induction path arbitrary: index path_bytes) (auto simp: path_cost_def Let_def)

lemma read_path_append [parse_simps]:
  "path_fits index path_bytes path
     \<Longrightarrow> read_path index path_bytes (length path) (rd pre (concat (map push_bytes path) @ ys))
       = Inr (path, rd (pre @ concat (map push_bytes path)) ys)"
proof (induction path arbitrary: index path_bytes pre)
  case Nil
  then show ?case by simp
next
  case (Cons c path)
  let ?size = "path_bytes + length c + (if index > 0 then 1 else 0)"
  have "Option.bind (checked_add_usize path_bytes (length c))
      (\<lambda>value. checked_add_usize value (if index > 0 then 1 else 0)) = Some ?size"
    and "(?size > MAX_MANIFEST_V2_PATH_BYTES) = False"
    using Cons.prems by (auto simp: Let_def manifest_limits checked_add_usize_def split: if_splits)
  then show ?case
    using Cons.prems Cons.IH [of "Suc index" ?size "pre @ push_bytes c"]
    by (simp add: Let_def parse_simps split del: if_split)
qed

lemma read_path_dest [parse_dests]:
  "read_path index path_bytes n (rd pre zs) = Inr (path, r)
     \<Longrightarrow> \<exists>ys. zs = concat (map push_bytes path) @ ys \<and> length path = n \<and> path_fits index path_bytes path
         \<and> r = rd (pre @ concat (map push_bytes path)) ys"
proof (induction n arbitrary: index path_bytes pre zs path r)
  case 0
  then show ?case by simp
next
  case (Suc n)
  then obtain c ys path' where c: "zs = push_bytes c @ ys" "component_wf c"
    and size: "path_bytes + length c + (if index > 0 then 1 else 0) \<le> MAX_MANIFEST_V2_PATH_BYTES"
    and path': "read_path (Suc index) (path_bytes + length c + (if index > 0 then 1 else 0)) n
        (rd (pre @ push_bytes c) ys) = Inr (path', r)" and path: "path = c # path'"
    by (auto simp: parser_iffs bind_eq_Some_conv dest!: read_component_dest)
  from Suc.IH [OF path'] c size show ?case
    by (auto simp: path Let_def)
qed

lemma link_entry_Inr_iff:
  "link_entry roots index entry_id root_id path = Inr (parent, component)
     \<longleftrightarrow> unat root_id < length roots
       \<and> (if path = [] then parent = None \<and> component = mr_requested_name (roots ! unat root_id)
          else (\<exists>p. index (root_id, butlast path) = Some p \<and> parent = Some p) \<and> component = last path)"
  by (auto simp: link_entry_def)

text \<open>When an entry with its path fits the roots and the paths read before it.\<close>

definition entry_link :: "ManifestRootV2 list \<Rightarrow> path_index \<Rightarrow> ManifestEntryV2 \<times> str list \<Rightarrow> bool" where
  "entry_link roots index = (\<lambda>(e, path).
     link_entry roots index (me_entry_id e) (me_root_id e) path
       = Inr (me_parent_entry_id e, me_component e)
     \<and> index (me_root_id e, path) = None \<and> length path \<le> MAX_MANIFEST_V2_PATH_DEPTH
     \<and> path_fits 0 0 path \<and> digest_wf (me_content_digest e))"

interpretation entry_wire: codec "\<lambda>(e, path). Inr (encode_entry e path)" "read_entry roots index"
  "entry_link roots index"
proof
  fix x xs pre ys
  assume enc: "(case x of (e, path) \<Rightarrow> Inr (encode_entry e path)) = Inr xs"
    and ok: "entry_link roots index x"
  obtain e path where x: "x = (e, path)" by (cases x)
  have "unat (word_of_nat (length path) :: u32) = length path"
    using ok by (intro unat_length_le [of _ 64]) (simp_all add: x entry_link_def manifest_limits)
  with ok enc show "read_entry roots index (rd pre (xs @ ys)) = Inr (x, rd (pre @ xs) ys)"
    by (auto simp: x encode_entry_def read_entry_def Let_def entry_link_def parse_simps)
next
  fix pre zs x r
  assume "read_entry roots index (rd pre zs) = Inr (x, r)"
  then show "\<exists>xs ys. zs = xs @ ys \<and> (case x of (e, path) \<Rightarrow> Inr (encode_entry e path)) = Inr xs
      \<and> entry_link roots index x \<and> r = rd (pre @ xs) ys"
    by (auto simp: encode_entry_def read_entry_def Let_def entry_link_def parser_iffs
        dest!: parse_dests)
qed

fun entries_link :: "ManifestRootV2 list \<Rightarrow> path_index \<Rightarrow> (ManifestEntryV2 \<times> str list) list \<Rightarrow> bool" where
  "entries_link roots index [] = True"
| "entries_link roots index (x # xs) \<longleftrightarrow> entry_link roots index x
     \<and> entries_link roots (index((me_root_id (fst x), snd x) \<mapsto> me_entry_id (fst x))) xs"

definition encode_pairs :: "(ManifestEntryV2 \<times> str list) list \<Rightarrow> bytes" where
  "encode_pairs xs = concat (map (\<lambda>(e, path). encode_entry e path) xs)"

lemma encode_pairs_simps [simp]:
  "encode_pairs [] = []"
  "encode_pairs ((e, path) # xs) = encode_entry e path @ encode_pairs xs"
  by (simp_all add: encode_pairs_def)

lemma read_entries_append:
  "entries_link roots index xs
     \<Longrightarrow> read_entries roots (length xs) index (rd pre (encode_pairs xs @ ys))
       = Inr (map fst xs, rd (pre @ encode_pairs xs) ys)"
proof (induction xs arbitrary: index pre)
  case Nil
  then show ?case by simp
next
  case (Cons x xs)
  obtain e path where x: "x = (e, path)" by (cases x)
  have "read_entry roots index (rd pre (encode_entry e path @ zs))
      = Inr ((e, path), rd (pre @ encode_entry e path) zs)" for zs
    using entry_wire.dec_enc [of "(e, path)" "encode_entry e path" roots index pre zs] Cons.prems
    by (simp add: x)
  moreover have "read_entries roots (length xs) (index((me_root_id e, path) \<mapsto> me_entry_id e))
      (rd (pre @ encode_entry e path) (encode_pairs xs @ ys))
      = Inr (map fst xs, rd ((pre @ encode_entry e path) @ encode_pairs xs) ys)"
    using Cons.prems by (intro Cons.IH) (simp add: x del: fun_upd_apply)
  ultimately show ?case
    by (simp add: x)
qed

lemma read_entries_dest:
  "read_entries roots n index (rd pre zs) = Inr (es, r)
     \<Longrightarrow> \<exists>xs ys. zs = encode_pairs xs @ ys \<and> es = map fst xs \<and> length xs = n
         \<and> entries_link roots index xs \<and> r = rd (pre @ encode_pairs xs) ys"
proof (induction n arbitrary: index pre zs es r)
  case 0
  then show ?case by (auto intro!: exI [of _ "[]"])
next
  case (Suc n)
  then obtain e path r1 es' where e: "read_entry roots index (rd pre zs) = Inr ((e, path), r1)"
    and es': "read_entries roots n (index((me_root_id e, path) \<mapsto> me_entry_id e)) r1 = Inr (es', r)"
    and es: "es = e # es'"
    by (auto simp: parser_iffs)
  from entry_wire.enc_dec [OF e] obtain zs1 where zs: "zs = encode_entry e path @ zs1"
    and link: "entry_link roots index (e, path)" and r1: "r1 = rd (pre @ encode_entry e path) zs1"
    by auto
  from Suc.IH [OF es' [unfolded r1]] obtain xs ys where
    "zs1 = encode_pairs xs @ ys" "es' = map fst xs" "length xs = n"
    "entries_link roots (index((me_root_id e, path) \<mapsto> me_entry_id e)) xs"
    "r = rd ((pre @ encode_entry e path) @ encode_pairs xs) ys"
    by blast
  with link zs es show ?case
    by (intro exI [of _ "(e, path) # xs"] exI [of _ ys]) simp
qed

section \<open>Paths on the wire and paths of the forest\<close>

definition forest_pairs :: "ManifestEntryV2 list \<Rightarrow> (ManifestEntryV2 \<times> str list) list" where
  "forest_pairs es = map (\<lambda>i. (es ! i, entry_path es i)) [0..<length es]"

lemma length_forest_pairs [simp]: "length (forest_pairs es) = length es"
  by (simp add: forest_pairs_def)

lemma map_fst_forest_pairs [simp]: "map fst (forest_pairs es) = es"
  by (simp add: forest_pairs_def comp_def map_nth)

text \<open>Where parents precede their children, the encoder writes each entry with its forest path.\<close>

definition parents_precede :: "ManifestEntryV2 list \<Rightarrow> bool" where
  "parents_precede es \<longleftrightarrow> (\<forall>i < length es. \<forall>p. me_parent_entry_id (es ! i) = Some p \<longrightarrow> unat p < i)"

lemma encode_entries_pairs:
  assumes "parents_precede es"
  shows "encode_entries es [] = encode_pairs (forest_pairs es)"
proof -
  have "k \<le> length es \<Longrightarrow> encode_entries (drop k es) (map (entry_path es) [0..<k])
      = encode_pairs (drop k (forest_pairs es))" for k
  proof (induction "length es - k" arbitrary: k)
    case 0
    then show ?case by simp
  next
    case (Suc d)
    then have k: "k < length es" by simp
    have path: "(case me_parent_entry_id (es ! k) of None \<Rightarrow> []
        | Some p \<Rightarrow> map (entry_path es) [0..<k] ! unat p @ [me_component (es ! k)]) = entry_path es k"
      using assms k by (auto simp: parents_precede_def split: option.splits)
    have "encode_entries (drop (Suc k) es) (map (entry_path es) [0..<Suc k])
        = encode_pairs (drop (Suc k) (forest_pairs es))"
      using Suc by (intro Suc.hyps) simp_all
    then show ?case
      using k path
      by (simp add: Cons_nth_drop_Suc [OF k, symmetric]
          Cons_nth_drop_Suc [of k "forest_pairs es", symmetric] Let_def)
        (simp add: forest_pairs_def)
  qed
  from this [of 0] show ?thesis by simp
qed

lemma manifest_ok_parents: "manifest_ok nfc m \<Longrightarrow> parents_precede (mf_entries m)"
  by (fastforce simp: manifest_ok_def entry_ok_def parents_precede_def Let_def split: option.splits)

text \<open>In an acceptable manifest, root and path identify an entry.\<close>

lemma MAX_MANIFEST_V2_ENTRIES_small: "MAX_MANIFEST_V2_ENTRIES \<le> 2 ^ LENGTH(32)"
  by (simp add: manifest_limits)

lemma word_of_nat_inj_entries:
  "i < n \<Longrightarrow> j < n \<Longrightarrow> n \<le> MAX_MANIFEST_V2_ENTRIES \<Longrightarrow> (word_of_nat i :: u32) = word_of_nat j \<Longrightarrow> i = j"
  by (metis MAX_MANIFEST_V2_ENTRIES_small order_less_le_trans unat_word_of_nat_small)

lemma paths_identify:
  assumes ok: "manifest_ok nfc m"
  defines "es \<equiv> mf_entries m"
  shows "i < length es \<Longrightarrow> j < length es \<Longrightarrow> me_root_id (es ! i) = me_root_id (es ! j)
    \<Longrightarrow> entry_path es i = entry_path es j \<Longrightarrow> i = j"
proof (induction i arbitrary: j rule: less_induct)
  case (less i)
  have n: "length es \<le> MAX_MANIFEST_V2_ENTRIES"
    using ok by (simp add: manifest_ok_def header_ok_def es_def)
  have i: "entry_ok nfc m i" and j: "entry_ok nfc m j"
    using ok less.prems by (simp_all add: manifest_ok_def es_def)
  show ?case
  proof (cases "me_parent_entry_id (es ! i)")
    case None
    then have "me_parent_entry_id (es ! j) = None"
      using less.prems(4) j
      by (cases "me_parent_entry_id (es ! j)") (auto simp: entry_ok_def Let_def es_def)
    with None i j less.prems(3) have "(word_of_nat i :: u32) = word_of_nat j"
      by (simp add: entry_ok_def Let_def es_def)
    then show ?thesis
      using less.prems n by (intro word_of_nat_inj_entries)
  next
    case (Some p)
    with i have p: "unat p < i" "me_root_id (es ! unat p) = me_root_id (es ! i)"
      by (simp_all add: entry_ok_def Let_def es_def)
    then obtain q where q: "me_parent_entry_id (es ! j) = Some q"
      using Some less.prems(4) by (cases "me_parent_entry_id (es ! j)") auto
    with j have q': "unat q < j" "me_root_id (es ! unat q) = me_root_id (es ! j)"
      by (simp_all add: entry_ok_def Let_def es_def)
    have "unat p = unat q"
      using less.IH [OF p(1), of "unat q"] less.prems Some q p q' by simp
    then have "p = q"
      by (simp add: word_unat_eq_iff)
    then have "sibling_key (es ! i) = sibling_key (es ! j)"
      using Some q p q' less.prems by (simp add: sibling_key_def)
    then show ?thesis
      using ok less.prems(1,2) by (simp add: manifest_ok_def es_def distinct_map distinct_conv_nth inj_on_def)
        (metis distinct_map length_map nth_eq_iff_index_eq nth_map)
  qed
qed

text \<open>The paths read before entry \<open>k\<close>, as the decoder has indexed them.\<close>

fun index_upto :: "ManifestEntryV2 list \<Rightarrow> nat \<Rightarrow> path_index" where
  "index_upto es 0 = Map.empty"
| "index_upto es (Suc k) = (index_upto es k)((me_root_id (es ! k), entry_path es k) \<mapsto> me_entry_id (es ! k))"

lemma index_upto_None:
  "\<forall>i < k. (me_root_id (es ! i), entry_path es i) \<noteq> key \<Longrightarrow> index_upto es k key = None"
  by (induction k) auto

lemma index_upto_Some:
  assumes "\<And>a b. a < k \<Longrightarrow> b < k \<Longrightarrow> me_root_id (es ! a) = me_root_id (es ! b)
      \<Longrightarrow> entry_path es a = entry_path es b \<Longrightarrow> a = b"
  shows "i < k \<Longrightarrow> index_upto es k (me_root_id (es ! i), entry_path es i) = Some (me_entry_id (es ! i))"
  using assms
proof (induction k)
  case 0
  then show ?case by simp
next
  case (Suc k)
  show ?case
  proof (cases "i = k")
    case False
    then have "(me_root_id (es ! i), entry_path es i) \<noteq> (me_root_id (es ! k), entry_path es k)"
      using Suc.prems(1) Suc.prems(2) [of i k] by auto
    moreover have "index_upto es k (me_root_id (es ! i), entry_path es i) = Some (me_entry_id (es ! i))"
      using Suc.prems False by (intro Suc.IH) (simp_all add: less_Suc_eq)
    ultimately show ?thesis
      unfolding index_upto.simps by (subst fun_upd_other)
  qed simp
qed

text \<open>The forest paths of an acceptable manifest are what the decoder links up.\<close>

lemma entry_path_components:
  "parents_precede es \<Longrightarrow> i < length es \<Longrightarrow> c \<in> set (entry_path es i) \<Longrightarrow> \<exists>e \<in> set es. c = me_component e"
proof (induction i rule: less_induct)
  case (less i)
  show ?case
  proof (cases "me_parent_entry_id (es ! i)")
    case (Some p)
    with less.prems have p: "unat p < i"
      by (simp add: parents_precede_def)
    with Some less.prems have "c = me_component (es ! i) \<or> c \<in> set (entry_path es (unat p))"
      by simp
    then show ?thesis
      using less.IH [OF p less.prems(1)] p less.prems(2) nth_mem by fastforce
  qed (use less.prems in simp)
qed

lemma entry_link_forest:
  assumes ok: "manifest_ok nfc m" and wf: "manifest_wf m"
  defines "es \<equiv> mf_entries m"
  assumes k: "k < length es"
  shows "entry_link (mf_roots m) (index_upto es k) (es ! k, entry_path es k)"
proof -
  have ek: "entry_ok nfc m k"
    using ok k by (simp add: manifest_ok_def es_def)
  have fresh: "index_upto es k (me_root_id (es ! k), entry_path es k) = None"
    using paths_identify [OF ok, folded es_def, of _ k] k
    by (intro index_upto_None) (metis less_irrefl order_less_trans prod.inject)
  have "component_wf c" if c: "c \<in> set (entry_path es k)" for c
  proof -
    obtain e where "e \<in> set es" "c = me_component e"
      using entry_path_components [OF manifest_ok_parents [OF ok], folded es_def, OF k c] by blast
    moreover from this obtain i where "i < length es" "e = es ! i"
      by (auto simp: in_set_conv_nth)
    then have "entry_ok nfc m i"
      using ok by (simp add: manifest_ok_def es_def)
    ultimately show ?thesis
      using wf \<open>e = es ! i\<close>
      by (auto simp: manifest_wf_def entry_ok_def component_ok_def component_wf_def es_def Let_def)
  qed
  then have fits: "path_fits 0 0 (entry_path es k)"
    using ek by (intro path_fits_if_cost) (simp_all add: entry_ok_def Let_def es_def)
  have "link_entry (mf_roots m) (index_upto es k) (me_entry_id (es ! k)) (me_root_id (es ! k))
      (entry_path es k) = Inr (me_parent_entry_id (es ! k), me_component (es ! k))"
  proof (cases "me_parent_entry_id (es ! k)")
    case None
    with ek show ?thesis
      by (auto simp: link_entry_def entry_ok_def Let_def es_def vec_get_def)
  next
    case (Some p)
    with ek have p: "unat p < k" "me_root_id (es ! unat p) = me_root_id (es ! k)"
      by (simp_all add: entry_ok_def Let_def es_def)
    have "index_upto es k (me_root_id (es ! unat p), entry_path es (unat p)) = Some (me_entry_id (es ! unat p))"
      using paths_identify [OF ok, folded es_def] k p(1)
      by (intro index_upto_Some) (simp_all add: order_less_trans)
    moreover have "me_entry_id (es ! unat p) = p"
      using ok p(1) k by (simp add: manifest_ok_def entry_ok_def Let_def es_def)
    ultimately show ?thesis
      using Some ek p by (auto simp: link_entry_def entry_ok_def Let_def es_def vec_get_def)
  qed
  with ek fresh fits wf k show ?thesis
    by (auto simp: entry_link_def entry_ok_def Let_def es_def manifest_wf_def)
qed

lemma entries_link_forest:
  assumes "manifest_ok nfc m" and "manifest_wf m"
  shows "entries_link (mf_roots m) Map.empty (forest_pairs (mf_entries m))"
proof -
  let ?es = "mf_entries m"
  have "k \<le> length ?es \<Longrightarrow> entries_link (mf_roots m) (index_upto ?es k) (drop k (forest_pairs ?es))" for k
  proof (induction "length ?es - k" arbitrary: k)
    case 0
    then show ?case by simp
  next
    case (Suc d)
    then have k: "k < length ?es" by simp
    then have "drop k (forest_pairs ?es) = (?es ! k, entry_path ?es k) # drop (Suc k) (forest_pairs ?es)"
      by (subst Cons_nth_drop_Suc [symmetric]) (simp_all add: forest_pairs_def)
    moreover have "entries_link (mf_roots m) (index_upto ?es (Suc k)) (drop (Suc k) (forest_pairs ?es))"
      using Suc by (intro Suc.hyps) simp_all
    ultimately show ?case
      using entry_link_forest [OF assms k] by simp
  qed
  from this [of 0] show ?thesis by simp
qed

text \<open>
  Conversely, what the decoder linked up has the forest's paths, once the entry ids are the
  positions (which the validator checks after decoding).
\<close>

lemma index_of_links:
  assumes "entries_link roots ix xs" and "ix0 \<subseteq>\<^sub>m ix"
    and "k < length xs"
  shows "\<exists>ix'. entry_link roots ix' (xs ! k)
    \<and> (\<forall>key v. ix' key = Some v \<longrightarrow>
         ix key = Some v \<or> (\<exists>i < k. key = (me_root_id (fst (xs ! i)), snd (xs ! i)) \<and> v = me_entry_id (fst (xs ! i))))"
  using assms
proof (induction xs arbitrary: ix ix0 k)
  case Nil
  then show ?case by simp
next
  case (Cons x xs)
  show ?case
  proof (cases k)
    case 0
    with Cons.prems show ?thesis by auto
  next
    case (Suc k')
    let ?ix = "ix((me_root_id (fst x), snd x) \<mapsto> me_entry_id (fst x))"
    have "entries_link roots ?ix xs" "k' < length xs"
      using Cons.prems Suc by (simp_all del: fun_upd_apply)
    from Cons.IH [OF this(1) map_le_refl this(2)] obtain ix' where
      link: "entry_link roots ix' (xs ! k')" and
      ix': "\<And>key v. ix' key = Some v \<Longrightarrow> ?ix key = Some v
        \<or> (\<exists>i < k'. key = (me_root_id (fst (xs ! i)), snd (xs ! i)) \<and> v = me_entry_id (fst (xs ! i)))"
      by blast
    have "ix key = Some v \<or> (\<exists>i < k. key = (me_root_id (fst ((x # xs) ! i)), snd ((x # xs) ! i))
        \<and> v = me_entry_id (fst ((x # xs) ! i)))" if "ix' key = Some v" for key v
    proof -
      from ix' [OF that] consider "ix key = Some v"
        | "key = (me_root_id (fst x), snd x)" "v = me_entry_id (fst x)"
        | i where "i < k'" "key = (me_root_id (fst (xs ! i)), snd (xs ! i))" "v = me_entry_id (fst (xs ! i))"
        by (auto split: if_splits)
      then show ?thesis
      proof cases
        case 2
        then show ?thesis using Suc by (intro disjI2 exI [of _ 0]) simp
      next
        case (3 i)
        then show ?thesis using Suc by (intro disjI2 exI [of _ "Suc i"]) simp
      qed simp
    qed
    with link show ?thesis
      using Suc by (intro exI [of _ ix']) simp
  qed
qed

lemma links_have_forest_paths:
  assumes links: "entries_link roots Map.empty xs"
    and ids: "\<And>i. i < length xs \<Longrightarrow> unat (me_entry_id (fst (xs ! i))) = i"
  shows "k < length xs \<Longrightarrow> snd (xs ! k) = entry_path (map fst xs) k"
proof (induction k rule: less_induct)
  case (less k)
  let ?es = "map fst xs"
  from index_of_links [OF links map_le_refl less.prems] obtain ix where
    link: "entry_link roots ix (xs ! k)" and
    ix: "\<And>key v. ix key = Some v \<Longrightarrow> \<exists>i < k. key = (me_root_id (fst (xs ! i)), snd (xs ! i))
        \<and> v = me_entry_id (fst (xs ! i))"
    by fastforce
  obtain e path where x: "xs ! k = (e, path)" by (cases "xs ! k")
  have ek: "?es ! k = e"
    using less.prems by (simp add: x)
  show ?case
  proof (cases "path = []")
    case True
    with link have "me_parent_entry_id e = None"
      by (auto simp: x entry_link_def link_entry_def)
    then show ?thesis
      using True by (simp add: x ek)
  next
    case False
    with link obtain p where p: "ix (me_root_id e, butlast path) = Some p"
      and e: "me_parent_entry_id e = Some p" "me_component e = last path"
      by (auto simp: x entry_link_def link_entry_Inr_iff)
    from ix [OF p] obtain i where i: "i < k" "snd (xs ! i) = butlast path"
      "p = me_entry_id (fst (xs ! i))"
      by auto
    have "unat p = i"
      using ids [of i] i less.prems by simp
    with i e have "entry_path ?es k = entry_path ?es i @ [last path]"
      by (simp add: ek)
    also have "entry_path ?es i = butlast path"
      using less.IH [OF i(1)] i less.prems by simp
    finally show ?thesis
      using False by (simp add: x)
  qed
qed

lemma links_are_forest_pairs:
  assumes "entries_link roots Map.empty xs"
    and "\<And>i. i < length xs \<Longrightarrow> unat (me_entry_id (fst (xs ! i))) = i"
  shows "xs = forest_pairs (map fst xs)"
  using links_have_forest_paths [OF assms]
  by (intro nth_equalityI) (simp_all add: forest_pairs_def prod_eq_iff)

end
