(* ===== verification/Manifest_Offer.thy ===== *)
theory Manifest_Offer
  imports Manifest_Codec
begin

text \<open>
  The whole offer: decoding a body undoes encoding it, what the decoder accepts is exactly the
  encoding of what it returns, and both lift to offers with their header and digest.
\<close>

section \<open>Body and offer\<close>

lemma manifest_ok_sizes:
  assumes "manifest_ok nfc m"
  shows "unat (word_of_nat (length (mf_roots m)) :: u32) = length (mf_roots m)"
    and "unat (word_of_nat (length (mf_entries m)) :: u32) = length (mf_entries m)"
    and "length (mf_roots m) \<le> MAX_MANIFEST_V2_ROOTS" "length (mf_entries m) \<le> MAX_MANIFEST_V2_ENTRIES"
proof -
  show le: "length (mf_roots m) \<le> MAX_MANIFEST_V2_ROOTS" "length (mf_entries m) \<le> MAX_MANIFEST_V2_ENTRIES"
    using assms by (simp_all add: manifest_ok_def header_ok_def)
  show "unat (word_of_nat (length (mf_roots m)) :: u32) = length (mf_roots m)"
    by (rule unat_length_le [OF le(1)]) (simp add: manifest_limits)
  show "unat (word_of_nat (length (mf_entries m)) :: u32) = length (mf_entries m)"
    by (rule unat_length_le [OF le(2)]) (simp add: manifest_limits)
qed

lemma rejectP_le [parse_simps]: "n \<le> k \<Longrightarrow> rejectP (k < (n :: nat)) e r = Inr ((), r)"
  by simp

lemma read_roots_dest [parse_dests]:
  "repeatP (\<lambda>_. read_root) 0 n (rd pre zs) = Inr (roots, r)
     \<Longrightarrow> \<exists>ys. zs = concat (map encode_root roots) @ ys \<and> length roots = n
         \<and> (\<forall>x \<in> set roots. component_wf (mr_requested_name x))
         \<and> r = rd (pre @ concat (map encode_root roots)) ys"
  by (drule roots_wire.all_enc_dec) auto

lemma read_totals_dest [parse_dests]:
  "read_totals (rd pre zs) = Inr (t, r)
     \<Longrightarrow> \<exists>ys. zs = encode_totals t @ ys \<and> r = rd (pre @ encode_totals t) ys"
  by (drule totals_wire.enc_dec) auto

lemma decode_body_append:
  assumes ok: "manifest_ok nfc m" and wf: "manifest_wf m"
  shows "decode_manifest_body (rd pre (encode_manifest_body m @ ys))
    = Inr (m, rd (pre @ encode_manifest_body m) ys)"
proof -
  have "\<forall>r \<in> set (mf_roots m). component_wf (mr_requested_name r)"
    using ok wf by (auto simp: manifest_ok_def manifest_wf_def root_ok_def component_ok_def
        component_wf_def in_set_conv_nth)
  note roots = roots_wire.all_dec_enc [of 0 "mf_roots m" "concat (map encode_root (mf_roots m))",
      simplified, OF this]
  note entries = read_entries_append [OF entries_link_forest [OF ok wf], simplified]
  have "length (mf_job_id m) = JOB_ID_BYTES"
    using wf by (simp add: manifest_wf_def)
  then show ?thesis
    by (simp add: decode_manifest_body_def encode_manifest_body_def Let_def parse_simps
        manifest_ok_sizes [OF ok] roots encode_entries_pairs [OF manifest_ok_parents [OF ok]]
        entries totals_wire.dec_enc [OF refl])
qed

lemma entries_link_wf:
  "entries_link roots index xs \<Longrightarrow> \<forall>r \<in> set roots. component_wf (mr_requested_name r)
     \<Longrightarrow> x \<in> set xs \<Longrightarrow> utf8_valid (me_component (fst x)) \<and> digest_wf (me_content_digest (fst x))"
proof (induction xs arbitrary: index)
  case Nil
  then show ?case by simp
next
  case (Cons y xs)
  have last: "path_fits i size path \<Longrightarrow> path \<noteq> [] \<Longrightarrow> component_wf (last path)" for i size path
    by (induction path arbitrary: i size) (auto simp: Let_def)
  show ?case
  proof (cases "x = y")
    case True
    with Cons.prems last [of 0 0 "snd y"] show ?thesis
      by (auto simp: entry_link_def link_entry_Inr_iff component_wf_def split: prod.splits if_splits)
  next
    case False
    then show ?thesis
      using Cons.prems Cons.IH [of "index((me_root_id (fst y), snd y) \<mapsto> me_entry_id (fst y))"]
      by (simp del: fun_upd_apply)
  qed
qed

lemma manifest_ok_ids:
  assumes "manifest_ok nfc m" and "i < length (mf_entries m)"
  shows "unat (me_entry_id (mf_entries m ! i)) = i"
proof -
  have "i < 2 ^ LENGTH(32)"
    using assms(2) manifest_ok_sizes(4) [OF assms(1)] by (simp add: manifest_limits)
  then show ?thesis
    using assms by (simp add: manifest_ok_def entry_ok_def Let_def unat_word_of_nat_small)
qed

text \<open>A body whose entries travel with the given paths.\<close>

definition body_with :: "ManifestV2 \<Rightarrow> (ManifestEntryV2 \<times> str list) list \<Rightarrow> bytes" where
  "body_with m pairs =
     mf_job_id m @ u32_to_be (mf_generation m) @ u64_to_be (mf_selection_revision m)
     @ [policy_tag (mf_compression_policy m)]
     @ u32_to_be (word_of_nat (length (mf_roots m))) @ concat (map encode_root (mf_roots m))
     @ u32_to_be (word_of_nat (length pairs)) @ encode_pairs pairs
     @ encode_totals (mf_totals m)"

lemma decode_body_parts:
  assumes "decode_manifest_body (rd pre zs) = Inr (m, r)"
  shows "\<exists>pairs ys. zs = body_with m pairs @ ys \<and> r = rd (pre @ body_with m pairs) ys
    \<and> length (mf_job_id m) = JOB_ID_BYTES
    \<and> (\<forall>x \<in> set (mf_roots m). component_wf (mr_requested_name x))
    \<and> mf_entries m = map fst pairs \<and> entries_link (mf_roots m) Map.empty pairs"
  using assms
  apply (clarsimp simp: decode_manifest_body_def parser_iffs Let_def dest!: parse_dests read_entries_dest)
  apply (rule exI, rule exI)
  apply (intro conjI)
  prefer 4 apply assumption
  apply (simp_all add: body_with_def)
  done

lemma decode_body_dest:
  assumes "decode_manifest_body (rd pre zs) = Inr (m, r)"
  shows "\<exists>xs ys. zs = xs @ ys \<and> r = rd (pre @ xs) ys
    \<and> manifest_wf m \<and> (manifest_ok nfc m \<longrightarrow> xs = encode_manifest_body m)"
proof -
  from decode_body_parts [OF assms] obtain pairs ys where
    zs: "zs = body_with m pairs @ ys" "r = rd (pre @ body_with m pairs) ys"
    and job: "length (mf_job_id m) = JOB_ID_BYTES"
    and roots: "\<forall>x \<in> set (mf_roots m). component_wf (mr_requested_name x)"
    and es: "mf_entries m = map fst pairs" and links: "entries_link (mf_roots m) Map.empty pairs"
    by blast
  have wf: "manifest_wf m"
    using job roots entries_link_wf [OF links roots]
    by (auto simp: manifest_wf_def component_wf_def es)
  have "body_with m pairs = encode_manifest_body m" if ok: "manifest_ok nfc m"
  proof -
    have "pairs = forest_pairs (mf_entries m)"
      using links_are_forest_pairs [OF links] manifest_ok_ids [OF ok] by (simp add: es)
    then show ?thesis
      by (simp add: body_with_def encode_manifest_body_def encode_entries_pairs [OF manifest_ok_parents [OF ok]])
  qed
  with zs wf show ?thesis by blast
qed

text \<open>The encoder's guards: what it writes, and when.\<close>

definition offer_bytes :: "(bytes \<Rightarrow> bytes) \<Rightarrow> ManifestV2 \<Rightarrow> bytes" where
  "offer_bytes hash m =
     OFFER_MAGIC @ u16_to_be MANIFEST_V2_PROTOCOL_VERSION @ u16_to_be OFFER_FRAME_TYPE
     @ u32_to_be (word_of_nat (DIGEST_BYTES + length (encode_manifest_body m)))
     @ hash (encode_manifest_body m) @ encode_manifest_body m"

lemmas offer_consts = DIGEST_BYTES_def OFFER_HEADER_BYTES_def MAX_MANIFEST_V2_ENCODED_BYTES_def

lemma length_OFFER_MAGIC [simp]: "length OFFER_MAGIC = 4"
  by (simp add: OFFER_MAGIC_def)

lemma length_offer_bytes:
  "length (hash (encode_manifest_body m)) = DIGEST_BYTES
     \<Longrightarrow> length (offer_bytes hash m) = OFFER_HEADER_BYTES + DIGEST_BYTES + length (encode_manifest_body m)"
  by (simp add: offer_bytes_def offer_consts)

lemma encode_offer_Inr_iff:
  "encode_manifest_offer_v2 hash nfc m = Inr bs \<longleftrightarrow>
     manifest_ok nfc m
     \<and> OFFER_HEADER_BYTES + (DIGEST_BYTES + length (encode_manifest_body m)) \<le> MAX_MANIFEST_V2_ENCODED_BYTES
     \<and> bs = offer_bytes hash m"
  by (auto simp: encode_manifest_offer_v2_def build_manifest_offer_v2_def Let_def validate_Inr_iff
      offer_bytes_def offer_consts)

lemma decode_offer_bytes:
  assumes ok: "manifest_ok nfc m" and wf: "manifest_wf m"
    and size: "OFFER_HEADER_BYTES + (DIGEST_BYTES + length (encode_manifest_body m)) \<le> MAX_MANIFEST_V2_ENCODED_BYTES"
    and digest: "length (hash (encode_manifest_body m)) = DIGEST_BYTES"
  shows "decode_manifest_offer_v2 hash nfc (offer_bytes hash m)
    = Inr \<lparr>of_structural_digest = hash (encode_manifest_body m), of_manifest = m\<rparr>"
proof -
  have valid: "validate nfc m = Inr ()"
    using ok by (simp add: validate_Inr_iff)
  have "unat (word_of_nat (DIGEST_BYTES + length (encode_manifest_body m)) :: u32)
      = DIGEST_BYTES + length (encode_manifest_body m)"
    using size by (intro unat_word_of_nat_small) (simp add: offer_consts)
  then show ?thesis
    using size digest decode_body_append [OF ok wf, of _ "[]"]
    by (simp add: decode_manifest_offer_v2_def length_offer_bytes reader_new_rd parse_simps valid)
      (simp add: offer_bytes_def parse_simps valid)
qed

lemma slice_of_rd: "r = rd pre post \<Longrightarrow> remaining_slice r = post"
  by simp

lemma decode_offer_dest:
  assumes "decode_manifest_offer_v2 hash nfc bs = Inr offer"
  shows "manifest_ok nfc (of_manifest offer) \<and> manifest_wf (of_manifest offer)
    \<and> of_structural_digest offer = hash (encode_manifest_body (of_manifest offer))
    \<and> length (hash (encode_manifest_body (of_manifest offer))) = DIGEST_BYTES
    \<and> length bs \<le> MAX_MANIFEST_V2_ENCODED_BYTES \<and> bs = offer_bytes hash (of_manifest offer)"
proof -
  from assms obtain n digest body m r where size: "length bs \<le> MAX_MANIFEST_V2_ENCODED_BYTES"
    and bs: "bs = OFFER_MAGIC @ u16_to_be MANIFEST_V2_PROTOCOL_VERSION @ u16_to_be OFFER_FRAME_TYPE
        @ u32_to_be n @ digest @ body"
    and n: "unat n = DIGEST_BYTES + length body" and digest: "length digest = DIGEST_BYTES" "digest = hash body"
    and body: "decode_manifest_body (rd (OFFER_MAGIC @ u16_to_be MANIFEST_V2_PROTOCOL_VERSION
        @ u16_to_be OFFER_FRAME_TYPE @ u32_to_be n @ digest) body) = Inr (m, r)" "remaining r = 0"
    and ok: "manifest_ok nfc m"
    and offer: "offer = \<lparr>of_structural_digest = digest, of_manifest = m\<rparr>"
    by (clarsimp simp: decode_manifest_offer_v2_def reader_new_rd parser_iffs validate_Inr_iff
        dest!: parse_dests) (frule slice_of_rd, simp)
  from decode_body_dest [OF body(1), of nfc] ok body(2) have m: "body = encode_manifest_body m" "manifest_wf m"
    by auto
  have "n = word_of_nat (DIGEST_BYTES + length body)"
    using word_of_nat_eq_iff [of n "DIGEST_BYTES + length body"] n by simp
  then show ?thesis
    using size bs digest ok m by (simp add: offer offer_bytes_def)
qed

text \<open>The length field determines the length of an offer.\<close>

lemma offer_length_determined:
  assumes "bs = offer_bytes hash m" and "length (hash (encode_manifest_body m)) = DIGEST_BYTES"
    and "length bs \<le> MAX_MANIFEST_V2_ENCODED_BYTES"
    and "bs @ extra = offer_bytes hash m'" and "length (hash (encode_manifest_body m')) = DIGEST_BYTES"
    and "length (bs @ extra) \<le> MAX_MANIFEST_V2_ENCODED_BYTES"
  shows "length bs = length (bs @ extra)"
proof -
  let ?n = "DIGEST_BYTES + length (encode_manifest_body m)" and ?n' = "DIGEST_BYTES + length (encode_manifest_body m')"
  have "u32_to_be (word_of_nat ?n) = u32_to_be (word_of_nat ?n')"
    using assms(4) [unfolded assms(1)] by (simp add: offer_bytes_def)
  then have "(word_of_nat ?n :: u32) = word_of_nat ?n'"
    by (metis from_be_to_be(2))
  moreover have sizes: "length bs = OFFER_HEADER_BYTES + ?n" "length (bs @ extra) = OFFER_HEADER_BYTES + ?n'"
    using length_offer_bytes [of hash m] length_offer_bytes [of hash m'] assms by (simp_all add: add.assoc)
  ultimately have "?n = ?n'"
    using assms(3,6) unat_word_of_nat_small [of ?n, where 'a = 32]
      unat_word_of_nat_small [of ?n', where 'a = 32]
    by (simp add: offer_consts)
  with sizes show ?thesis by simp
qed

end
