(* ===== verification/Manifest_Properties.thy ===== *)
theory Manifest_Properties
  imports Manifest_Offer
begin

text \<open>
  The properties of offers: what \<open>validate\<close> decides, what an accepted manifest guarantees a
  receiver that recreates its tree, and the exactness of the wire form. The witnesses use a
  sample offer with a directory of two files and a partial second root.
\<close>

section \<open>A sample\<close>

definition sample_manifest :: ManifestV2 where
  "sample_manifest =
     \<lparr>mf_job_id = replicate 16 7, mf_generation = 1, mf_selection_revision = 3,
      mf_compression_policy = Smart,
      mf_roots =
        [\<lparr>mr_root_id = 0, mr_root_entry_id = 0, mr_requested_name = ascii ''docs'',
          mr_completeness = Complete\<rparr>,
         \<lparr>mr_root_id = 1, mr_root_entry_id = 3, mr_requested_name = ascii ''n.txt'',
          mr_completeness = UserApprovedPartial 2 (Some 9)\<rparr>],
      mf_entries =
        [\<lparr>me_entry_id = 0, me_root_id = 0, me_parent_entry_id = None, me_component = ascii ''docs'',
          me_kind = Directory, me_plaintext_size = 0, me_content_digest = Deferred\<rparr>,
         \<lparr>me_entry_id = 1, me_root_id = 0, me_parent_entry_id = Some 0, me_component = ascii ''a'',
          me_kind = RegularFile, me_plaintext_size = 300, me_content_digest = Known (replicate 32 5)\<rparr>,
         \<lparr>me_entry_id = 2, me_root_id = 0, me_parent_entry_id = Some 0, me_component = ascii ''b'',
          me_kind = RegularFile, me_plaintext_size = 70000, me_content_digest = Deferred\<rparr>,
         \<lparr>me_entry_id = 3, me_root_id = 1, me_parent_entry_id = None, me_component = ascii ''n.txt'',
          me_kind = RegularFile, me_plaintext_size = 1, me_content_digest = Deferred\<rparr>],
      mf_totals = \<lparr>mt_file_count = 3, mt_directory_count = 1, mt_total_plaintext_bytes = 70301\<rparr>\<rparr>"

lemma sample_lengths [simp]:
  "length (mf_entries sample_manifest) = 4" "length (mf_roots sample_manifest) = 2"
  by (simp_all add: sample_manifest_def)

lemma all_less_small:
  "(\<forall>i < (4::nat). P i) \<longleftrightarrow> P 0 \<and> P 1 \<and> P 2 \<and> P 3"
  "(\<forall>i < (2::nat). P i) \<longleftrightarrow> P 0 \<and> P 1"
  by (auto simp: less_Suc_eq numeral_eq_Suc)

lemma sample_header: "header_ok sample_manifest"
  by (simp add: header_ok_def manifest_limits sample_manifest_def)

lemma sample_roots: "\<forall>i < 2. root_ok (\<lambda>_. True) 4 i (mf_roots sample_manifest ! i)"
  by (simp add: all_less_small root_ok_def component_ok_def sample_manifest_def ascii_def chars_def
      manifest_limits is_control_def of_char_def)

lemma sample_entries: "\<forall>i < 4. entry_ok (\<lambda>_. True) sample_manifest i"
  by (simp add: all_less_small entry_ok_def component_ok_def sample_manifest_def ascii_def chars_def
      manifest_limits is_control_def of_char_def entry_path.simps path_cost_def)

lemma sample_order: "forest_order sample_manifest = [0, 1, 2, 3]"
  by (simp add: forest_order_def sample_manifest_def preorder.simps sort_children_def
      children_of_def child_of_def upt_rec ascii_def of_char_def)

lemma sample_distinct:
  "distinct (map sibling_key (mf_entries sample_manifest))"
  "distinct (map mr_root_entry_id (mf_roots sample_manifest))"
  by (simp_all add: sample_manifest_def sibling_key_def ascii_def)

lemma sample_totals: "totals_ok sample_manifest"
  by (simp add: sample_manifest_def totals_ok_def files_in_def dirs_in_def plain_sum_def)

lemma sample_wf: "manifest_wf sample_manifest"
  by (simp add: manifest_wf_def sample_manifest_def ascii_def of_char_def JOB_ID_BYTES_def
      utf8_valid_def digest_wf_def DIGEST_BYTES_def)

lemma sample_ok: "manifest_ok (\<lambda>_. True) sample_manifest"
  using sample_header sample_roots sample_entries sample_order sample_distinct sample_totals
  by (simp add: manifest_ok_def upt_rec)

lemma sample_valid: "validate (\<lambda>_. True) sample_manifest = Inr ()"
  by (simp add: validate_Inr_iff sample_ok)

lemma sample_size: "length (encode_manifest_body sample_manifest) \<le> 300"
  by (simp add: sample_manifest_def encode_manifest_body_def encode_root_def encode_completeness_def
      push_bytes_def encode_entry_def encode_totals_def encode_digest_def Let_def)

lemma sample_encodes:
  "encode_manifest_offer_v2 (\<lambda>_. replicate 32 0) (\<lambda>_. True) sample_manifest
     = Inr (offer_bytes (\<lambda>_. replicate 32 0) sample_manifest)"
  using sample_size by (simp add: encode_offer_Inr_iff sample_ok offer_consts)

lemma sample_decodes:
  "decode_manifest_offer_v2 (\<lambda>_. replicate 32 0) (\<lambda>_. True) (offer_bytes (\<lambda>_. replicate 32 0) sample_manifest)
     = Inr \<lparr>of_structural_digest = replicate 32 0, of_manifest = sample_manifest\<rparr>"
  using sample_size
  by (subst decode_offer_bytes [OF sample_ok sample_wf]) (simp_all add: offer_consts)

section \<open>The validator\<close>

text \<open>
  C1: \<open>ManifestV2::validate\<close> accepts a manifest exactly when the manifest satisfies the declarative
  contract \<open>manifest_ok\<close>: header and counts in range, canonical ids, safe NFC names, a forest whose
  parents are earlier directories of the same root, bounded depth and path length, distinct
  siblings, entries listed in the preorder of the forest with sorted siblings, exact totals.
\<close>

theorem validate_decides: "validate nfc m = Inr () \<longleftrightarrow> manifest_ok nfc m"
  by (rule validate_Inr_iff)

text \<open>
  C34: once the loops over roots and entries have passed, the explicit-stack traversal ends for every
  root (no stack of children is walked twice), and the order it computes is the preorder of the
  forest.
\<close>

theorem traversal_computes_preorder:
  assumes "validate_header m = Inr ()"
    and "validate_roots nfc (length (mf_entries m)) 0 (mf_roots m) {} = Inr ids"
    and "validate_entries nfc m 0 (mf_entries m) (scan_start (length (mf_entries m))) = Inr s"
    and "root \<in> set (mf_roots m)"
  shows "(\<exists>t. while_option dfs_pending (dfs_step (mf_entries m))
        ([unat (mr_root_entry_id root)], order, sc_children s) = Some t)
    \<and> canonical_order (mf_entries m) (mf_roots m) ([], sc_children s) = forest_order m"
proof -
  let ?es = "mf_entries m"
  have ok: "header_ok m" "\<forall>i < length ?es. entry_ok nfc m i" and s: "s = scan_of ?es (length ?es)"
    using assms(1,3) validate_entries_from_start [of m nfc s] by simp_all
  have roots: "\<forall>r \<in> set (mf_roots m). unat (mr_root_entry_id r) < length ?es"
    using assms(2) by (auto simp: validate_roots_iff in_set_conv_nth root_ok_def)
  have "dfs_inv ?es (order @ preorder ?es (unat (mr_root_entry_id root)))
      ([unat (mr_root_entry_id root)], order, sc_children s)"
    using roots assms(4) by (simp add: dfs_inv_start s scan_of_def children_of_all [OF ok(2)])
  then show ?thesis
    using dfs_terminates canonical_order_scan [OF ok(2) roots] by (auto simp: s)
qed

theorem traversal_computes_preorder_witness:
  "\<exists>s. validate_entries (\<lambda>_. True) sample_manifest 0 (mf_entries sample_manifest) (scan_start 4) = Inr s
    \<and> canonical_order (mf_entries sample_manifest) (mf_roots sample_manifest) ([], sc_children s)
        = [0, 1, 2, 3]"
proof -
  let ?m = sample_manifest and ?nfc = "\<lambda>_. True"
  have header: "validate_header ?m = Inr ()"
    by (simp add: sample_header)
  have roots: "validate_roots ?nfc (length (mf_entries ?m)) 0 (mf_roots ?m) {}
      = Inr (set (map mr_root_entry_id (mf_roots ?m)))"
    using sample_roots by (simp add: validate_roots_iff)
  have entries: "validate_entries ?nfc ?m 0 (mf_entries ?m) (scan_start (length (mf_entries ?m)))
      = Inr (scan_of (mf_entries ?m) (length (mf_entries ?m)))"
    using sample_entries sample_distinct sample_totals unat_bound [of "mt_total_plaintext_bytes (mf_totals ?m)"]
    by (subst validate_entries_from_start [OF sample_header]) (simp add: totals_ok_def)
  have "hd (mf_roots ?m) \<in> set (mf_roots ?m)"
    by (simp add: sample_manifest_def)
  from traversal_computes_preorder [OF header roots entries this, of "[]"] entries show ?thesis
    by (auto simp: sample_order)
qed

text \<open>
  C3: a name in an accepted manifest is one safe path component: no byte of it is a separator
  \<open>/\<close> or \<open>\\<close> or an ASCII control, it is not \<open>.\<close> or \<open>..\<close>, and it has 1 to 255 bytes. So
  joining it to a directory can neither leave the directory nor name the directory itself.
\<close>

theorem accepted_components_safe:
  assumes "validate nfc m = Inr ()" and "manifest_wf m"
    and "c \<in> me_component ` set (mf_entries m) \<union> mr_requested_name ` set (mf_roots m)"
  shows "c \<notin> {[], ascii ''.'', ascii ''..''} \<and> length c \<le> 255
    \<and> 0x2F \<notin> set c \<and> 0x5C \<notin> set c \<and> (\<forall>b. b < 0x20 \<or> b = 0x7F \<longrightarrow> b \<notin> set c)"
proof -
  have ok: "component_ok nfc c" and utf8: "utf8_valid c"
    using assms
    by (auto simp: validate_Inr_iff manifest_ok_def root_ok_def entry_ok_def Let_def manifest_wf_def
        in_set_conv_nth)
  then obtain cs where cs: "utf8_chars c = Some cs"
    by (auto simp: utf8_valid_def)
  have banned: "\<not> is_control (unat b) \<and> unat b \<noteq> 0x2F \<and> unat b \<noteq> 0x5C" if "b \<in> set c" "b < 0x80" for b
    using ascii_byte_in_chars [OF cs that] ok by (simp add: component_ok_def chars_def cs)
  have "b \<notin> set c" if "b < 0x20 \<or> b = 0x7F" for b
    using that banned [of b] by (auto simp: is_control_def word_less_nat_alt)
  then show ?thesis
    using ok banned [of "0x2F"] banned [of "0x5C"] by (auto simp: component_ok_def manifest_limits)
qed

theorem accepted_components_safe_witness: "0x2F \<notin> set (ascii ''docs'') \<and> ascii ''docs'' \<noteq> ascii ''..''"
proof -
  have "ascii ''docs'' \<in> me_component ` set (mf_entries sample_manifest)
      \<union> mr_requested_name ` set (mf_roots sample_manifest)"
    by (simp add: sample_manifest_def)
  from accepted_components_safe [OF sample_valid sample_wf this] show ?thesis by blast
qed

text \<open>
  C4: in an accepted manifest no two entries have the same place, root and path below it, and every
  path has at most 64 components and 4096 bytes: writing one entry never overwrites another.
\<close>

theorem accepted_paths_identify:
  assumes "validate nfc m = Inr ()"
  shows "distinct (map (\<lambda>i. (me_root_id (mf_entries m ! i), entry_path (mf_entries m) i))
      [0..<length (mf_entries m)])
    \<and> (\<forall>i < length (mf_entries m). length (entry_path (mf_entries m) i) \<le> 64
        \<and> path_cost (entry_path (mf_entries m) i) \<le> 4096)"
proof -
  have ok: "manifest_ok nfc m"
    using assms by (simp add: validate_Inr_iff)
  then have "\<forall>i < length (mf_entries m). entry_ok nfc m i"
    by (simp add: manifest_ok_def)
  then show ?thesis
    using paths_identify [OF ok]
    by (auto simp: distinct_map inj_on_def entry_ok_def Let_def manifest_limits)
qed

theorem accepted_paths_identify_witness:
  "distinct (map (\<lambda>i. (me_root_id (mf_entries sample_manifest ! i), entry_path (mf_entries sample_manifest) i))
      [0..<4])"
  using accepted_paths_identify [OF sample_valid] by simp

section \<open>The wire form\<close>

text \<open>
  C28: the decoder undoes the encoder: an offer the encoder accepts to write is read back as the same
  manifest with its structural digest. \<open>manifest_wf\<close> is what the Rust types guarantee (array
  lengths, UTF-8), and the digest function returns 32 bytes.
\<close>

theorem offer_round_trip:
  assumes "encode_manifest_offer_v2 hash nfc m = Inr bs"
    and "manifest_wf m" and "\<And>xs. length (hash xs) = 32"
  shows "decode_manifest_offer_v2 hash nfc bs
    = Inr \<lparr>of_structural_digest = hash (encode_manifest_body m), of_manifest = m\<rparr>"
  using assms decode_offer_bytes [of nfc m hash]
  by (auto simp: encode_offer_Inr_iff DIGEST_BYTES_def)

theorem offer_round_trip_witness:
  "decode_manifest_offer_v2 (\<lambda>_. replicate 32 0) (\<lambda>_. True) (offer_bytes (\<lambda>_. replicate 32 0) sample_manifest)
     = Inr \<lparr>of_structural_digest = replicate 32 0, of_manifest = sample_manifest\<rparr>"
  using offer_round_trip [OF sample_encodes sample_wf] by simp

text \<open>
  C2: the decoder accepts only canonical bytes: what it accepts is valid, carries the digest of its
  own body, has at most 4 MiB, and is byte for byte what the encoder writes for the decoded
  manifest. Two different byte strings never decode to the same manifest.
\<close>

theorem offer_canonical:
  assumes "decode_manifest_offer_v2 hash nfc bs = Inr offer"
  shows "encode_manifest_offer_v2 hash nfc (of_manifest offer) = Inr bs
    \<and> validate nfc (of_manifest offer) = Inr () \<and> manifest_wf (of_manifest offer)
    \<and> of_structural_digest offer = hash (encode_manifest_body (of_manifest offer))
    \<and> length bs \<le> 4 * 1024 * 1024"
proof -
  note d = decode_offer_dest [OF assms]
  then have "length (offer_bytes hash (of_manifest offer)) = OFFER_HEADER_BYTES + DIGEST_BYTES
      + length (encode_manifest_body (of_manifest offer))"
    by (intro length_offer_bytes) simp
  then show ?thesis
    using d by (auto simp: encode_offer_Inr_iff validate_Inr_iff MAX_MANIFEST_V2_ENCODED_BYTES_def)
qed

theorem offer_canonical_witness:
  "encode_manifest_offer_v2 (\<lambda>_. replicate 32 0) (\<lambda>_. True) sample_manifest
     = Inr (offer_bytes (\<lambda>_. replicate 32 0) sample_manifest)"
  using offer_canonical [OF sample_decodes] by simp

text \<open>
  An offer cut short or followed by other bytes is rejected, whatever is missing or added: no
  accepted offer is a proper prefix of another.
\<close>

theorem offer_prefix_free:
  assumes "decode_manifest_offer_v2 hash nfc bs = Inr offer" and "extra \<noteq> []"
  shows "\<exists>e. decode_manifest_offer_v2 hash nfc (bs @ extra) = Inl e"
proof (cases "decode_manifest_offer_v2 hash nfc (bs @ extra)")
  case (Inr offer')
  note d = decode_offer_dest [OF assms(1)] and d' = decode_offer_dest [OF Inr]
  have "length bs = length (bs @ extra)"
    by (rule offer_length_determined [of bs hash "of_manifest offer" extra "of_manifest offer'"])
      (use d d' in blast)+
  then show ?thesis
    using assms(2) by simp
qed simp

theorem offer_prefix_free_witness:
  "\<exists>e. decode_manifest_offer_v2 (\<lambda>_. replicate 32 0) (\<lambda>_. True)
     (offer_bytes (\<lambda>_. replicate 32 0) sample_manifest @ [0]) = Inl e"
  using offer_prefix_free [OF sample_decodes, of "[0]"] by simp

end
