(* ===== verification/Frames.thy ===== *)
theory Frames
  imports Manifest_Offer
begin

text \<open>
  \<open>crates/envoix-protocol/src/manifest_v2_frames.rs\<close>: the thirteen data-plane frames, their
  payload encoders and decoders, the frame header and the stream reads. An encoder gives the
  bytes it appends to \<open>output\<close>, or the error it returns; \<open>catR\<close> is the sequence of such steps.

  Each function of the source that appends to or reads a payload is one definition here, each
  arm of \<open>encode_payload\<close> and \<open>decode_payload\<close> too (\<open>encode_accept\<close>, \<open>decode_accept\<close>, ...).
  The text of \<open>Offer(String)\<close> errors is kept as the error it prints.
\<close>

section \<open>Data\<close>

record JobGenerationV2 =
  jg_job_id :: JobIdV2
  jg_generation :: u32

datatype EntryDispositionV2 = Disp_ReceivePayload | Disp_ReuseExisting

datatype EntryEncodingV2 = Enc_Identity | Enc_Zstd

datatype EntryDigestDecisionV2 = Dec_Proposed | Dec_ContinuePayload | Dec_ReuseExisting

datatype EntryCompletionChoiceV2 = Comp_PayloadComplete | Comp_ReuseChosen

datatype EntryResultKindV2 = Res_Saved | Res_ReusedExisting

datatype EntryArbiterV2 = Arb_PayloadOpen | Arb_ReuseChosen | Arb_PayloadCompleteChosen

datatype CancelScopeV2 = Scope_Job | Scope_Entry

datatype ManifestFailurePhaseV2 =
  Phase_Offer | Phase_Destination | Phase_Payload | Phase_Verify | Phase_Save | Phase_Proof

record RootPlanV2 =
  rp_root_id :: u32
  rp_planned_name :: str

record EntryPlanV2 =
  ep_entry_id :: u32
  ep_disposition :: EntryDispositionV2
  ep_next_plaintext_block :: u64

record ManifestAcceptV2 =
  ac_identity :: JobGenerationV2
  ac_manifest_digest :: ContentDigestV2
  ac_accept_nonce :: bytes
  ac_proof_capability :: bytes
  ac_plan_revision :: u32
  ac_root_plans :: "RootPlanV2 list"
  ac_entry_plans :: "EntryPlanV2 list"

record EntryStartV2 =
  es_identity :: JobGenerationV2
  es_entry_id :: u32
  es_encoding :: EntryEncodingV2
  es_plaintext_block_bytes :: u32

record EntryContentDigestFrameV2 =
  cd_identity :: JobGenerationV2
  cd_entry_id :: u32
  cd_digest :: ContentDigestV2
  cd_decision :: EntryDigestDecisionV2

record EntryBlockV2 =
  bl_identity :: JobGenerationV2
  bl_entry_id :: u32
  bl_block_index :: u64
  bl_plaintext_offset :: u64
  bl_plaintext_length :: u32
  bl_encoded_bytes :: bytes

record EntryCompleteV2 =
  co_identity :: JobGenerationV2
  co_entry_id :: u32
  co_final_size :: u64
  co_final_digest :: ContentDigestV2
  co_completion_choice :: EntryCompletionChoiceV2

record EntryResultV2 =
  er_identity :: JobGenerationV2
  er_entry_id :: u32
  er_result :: EntryResultKindV2
  er_final_size :: u64
  er_final_digest :: "ContentDigestV2 option"
  er_final_component_override :: "str option"

record JobCompleteV2 =
  jc_identity :: JobGenerationV2
  jc_sender_completion_set_digest :: ContentDigestV2

record DeliveryProofV2 =
  dp_identity :: JobGenerationV2
  dp_manifest_digest :: ContentDigestV2
  dp_result_set_digest :: ContentDigestV2
  dp_proof_nonce :: bytes
  dp_proof_mac :: bytes

record ResumeRequestV2 =
  rr_identity :: JobGenerationV2
  rr_offer :: ManifestOfferV2
  rr_accept_body_digest :: ContentDigestV2
  rr_sender_checkpoint_digest :: ContentDigestV2
  rr_challenge_nonce :: bytes

record ResumeEntryV2 =
  re_entry_id :: u32
  re_arbiter :: EntryArbiterV2
  re_next_plaintext_block :: u64
  re_content_digest :: "ContentDigestV2 option"
  re_entry_result :: "EntryResultV2 option"

record ResumeStatusV2 =
  rs_identity :: JobGenerationV2
  rs_accept_body_digest :: ContentDigestV2
  rs_plan_revision :: u32
  rs_entries :: "ResumeEntryV2 list"
  rs_challenge_nonce :: bytes
  rs_challenge_mac :: bytes

record CancelV2 =
  ca_identity :: JobGenerationV2
  ca_scope :: CancelScopeV2
  ca_entry_id :: "u32 option"
  ca_failure_code :: u32

record ManifestErrorV2 =
  fe_identity :: JobGenerationV2
  fe_failure_code :: u32
  fe_phase :: ManifestFailurePhaseV2
  fe_entry_id :: "u32 option"

datatype ManifestV2Frame =
    F_Offer ManifestOfferV2
  | F_Accept ManifestAcceptV2
  | F_EntryStart EntryStartV2
  | F_EntryContentDigest EntryContentDigestFrameV2
  | F_EntryBlock EntryBlockV2
  | F_EntryComplete EntryCompleteV2
  | F_EntryResult EntryResultV2
  | F_JobComplete JobCompleteV2
  | F_DeliveryProof DeliveryProofV2
  | F_ResumeRequest ResumeRequestV2
  | F_ResumeStatus ResumeStatusV2
  | F_Cancel CancelV2
  | F_Error ManifestErrorV2

datatype ManifestV2FrameType =
    T_Offer | T_Accept | T_EntryStart | T_EntryContentDigest | T_EntryBlock | T_EntryComplete
  | T_EntryResult | T_JobComplete | T_DeliveryProof | T_ResumeRequest | T_ResumeStatus | T_Cancel
  | T_Error

datatype ManifestV2FrameCodecError =
    FrameTruncated | FrameBadMagic
  | FrameUnsupportedVersion u16
  | UnknownFrameType u16
  | FrameLengthMismatch nat nat
  | FrameTooLarge | FrameTrailingBytes
  | UnknownTag string u8
  | CountTooLarge | FrameInvalidUtf8 | FrameUnsafeComponent | InvalidIdentity | InvalidChallenge
  | InvalidEntryId | InvalidRootId | InvalidBlock | InvalidOptional | InvalidCancelScope
  | OfferRejected ManifestV2CodecError
  | OfferDigestDiffers
  | UnexpectedOfferPayload
  | FrameIo

section \<open>Limits\<close>

definition HEADER_BYTES :: nat where
  "HEADER_BYTES = 12"

definition COMMON_PREFIX_BYTES :: nat where
  "COMMON_PREFIX_BYTES = 20"

definition NONCE_BYTES :: nat where
  "NONCE_BYTES = 32"

definition MAX_CONTROL_FRAME_BYTES :: nat where
  "MAX_CONTROL_FRAME_BYTES = MAX_MANIFEST_V2_ENCODED_BYTES"

definition ENTRY_BLOCK_FIXED_PAYLOAD_BYTES :: nat where
  "ENTRY_BLOCK_FIXED_PAYLOAD_BYTES = COMMON_PREFIX_BYTES + 4 + 8 + 8 + 4 + 4"

definition RESUME_REQUEST_FIXED_PAYLOAD_BYTES :: nat where
  "RESUME_REQUEST_FIXED_PAYLOAD_BYTES = COMMON_PREFIX_BYTES + 4 + DIGEST_BYTES * 2 + NONCE_BYTES"

lemmas frame_limits =
  HEADER_BYTES_def COMMON_PREFIX_BYTES_def NONCE_BYTES_def MAX_CONTROL_FRAME_BYTES_def
  ENTRY_BLOCK_FIXED_PAYLOAD_BYTES_def RESUME_REQUEST_FIXED_PAYLOAD_BYTES_def
  DIGEST_BYTES_def JOB_ID_BYTES_def

definition maximum_payload_bytes :: "ManifestV2FrameType \<Rightarrow> ManifestV2FrameCodecError + nat" where
  "maximum_payload_bytes t =
     (case t of
        T_EntryBlock \<Rightarrow>
          ok_or (checked_add_usize ENTRY_BLOCK_FIXED_PAYLOAD_BYTES MAX_MANIFEST_V2_BLOCK_ENCODED_BYTES)
            FrameTooLarge
      | T_ResumeRequest \<Rightarrow>
          ok_or (checked_add_usize RESUME_REQUEST_FIXED_PAYLOAD_BYTES MAX_MANIFEST_V2_ENCODED_BYTES)
            FrameTooLarge
      | _ \<Rightarrow> Inr (MAX_CONTROL_FRAME_BYTES - HEADER_BYTES))"

section \<open>Tags\<close>

text \<open>The macro \<open>tag_decoder!\<close>, over its table of values and variants.\<close>

definition tag_decoder :: "string \<Rightarrow> (u8 \<times> 'a) list \<Rightarrow> u8 \<Rightarrow> ManifestV2FrameCodecError + 'a" where
  "tag_decoder label table v = ok_or (map_of table v) (UnknownTag label v)"

definition entry_disposition :: "u8 \<Rightarrow> ManifestV2FrameCodecError + EntryDispositionV2" where
  "entry_disposition = tag_decoder ''entry disposition''
     [(0, Disp_ReceivePayload), (1, Disp_ReuseExisting)]"

definition entry_encoding :: "u8 \<Rightarrow> ManifestV2FrameCodecError + EntryEncodingV2" where
  "entry_encoding = tag_decoder ''entry encoding'' [(0, Enc_Identity), (1, Enc_Zstd)]"

definition entry_digest_decision :: "u8 \<Rightarrow> ManifestV2FrameCodecError + EntryDigestDecisionV2" where
  "entry_digest_decision = tag_decoder ''entry digest decision''
     [(0, Dec_Proposed), (1, Dec_ContinuePayload), (2, Dec_ReuseExisting)]"

definition entry_completion :: "u8 \<Rightarrow> ManifestV2FrameCodecError + EntryCompletionChoiceV2" where
  "entry_completion = tag_decoder ''entry completion''
     [(0, Comp_PayloadComplete), (1, Comp_ReuseChosen)]"

definition entry_result_kind :: "u8 \<Rightarrow> ManifestV2FrameCodecError + EntryResultKindV2" where
  "entry_result_kind = tag_decoder ''entry result'' [(0, Res_Saved), (1, Res_ReusedExisting)]"

definition entry_arbiter :: "u8 \<Rightarrow> ManifestV2FrameCodecError + EntryArbiterV2" where
  "entry_arbiter = tag_decoder ''entry arbiter''
     [(0, Arb_PayloadOpen), (1, Arb_ReuseChosen), (2, Arb_PayloadCompleteChosen)]"

definition cancel_scope :: "u8 \<Rightarrow> ManifestV2FrameCodecError + CancelScopeV2" where
  "cancel_scope = tag_decoder ''cancel scope'' [(0, Scope_Job), (1, Scope_Entry)]"

definition failure_phase :: "u8 \<Rightarrow> ManifestV2FrameCodecError + ManifestFailurePhaseV2" where
  "failure_phase = tag_decoder ''failure phase''
     [(0, Phase_Offer), (1, Phase_Destination), (2, Phase_Payload), (3, Phase_Verify),
      (4, Phase_Save), (5, Phase_Proof)]"

text \<open>The casts \<open>as u8\<close> of the \<open>repr(u8)\<close> enums.\<close>

definition disposition_u8 :: "EntryDispositionV2 \<Rightarrow> u8" where
  "disposition_u8 x = (case x of Disp_ReceivePayload \<Rightarrow> 0 | Disp_ReuseExisting \<Rightarrow> 1)"

definition encoding_u8 :: "EntryEncodingV2 \<Rightarrow> u8" where
  "encoding_u8 x = (case x of Enc_Identity \<Rightarrow> 0 | Enc_Zstd \<Rightarrow> 1)"

definition decision_u8 :: "EntryDigestDecisionV2 \<Rightarrow> u8" where
  "decision_u8 x = (case x of Dec_Proposed \<Rightarrow> 0 | Dec_ContinuePayload \<Rightarrow> 1 | Dec_ReuseExisting \<Rightarrow> 2)"

definition completion_u8 :: "EntryCompletionChoiceV2 \<Rightarrow> u8" where
  "completion_u8 x = (case x of Comp_PayloadComplete \<Rightarrow> 0 | Comp_ReuseChosen \<Rightarrow> 1)"

definition result_u8 :: "EntryResultKindV2 \<Rightarrow> u8" where
  "result_u8 x = (case x of Res_Saved \<Rightarrow> 0 | Res_ReusedExisting \<Rightarrow> 1)"

definition arbiter_u8 :: "EntryArbiterV2 \<Rightarrow> u8" where
  "arbiter_u8 x = (case x of Arb_PayloadOpen \<Rightarrow> 0 | Arb_ReuseChosen \<Rightarrow> 1 | Arb_PayloadCompleteChosen \<Rightarrow> 2)"

definition scope_u8 :: "CancelScopeV2 \<Rightarrow> u8" where
  "scope_u8 x = (case x of Scope_Job \<Rightarrow> 0 | Scope_Entry \<Rightarrow> 1)"

definition phase_u8 :: "ManifestFailurePhaseV2 \<Rightarrow> u8" where
  "phase_u8 x = (case x of Phase_Offer \<Rightarrow> 0 | Phase_Destination \<Rightarrow> 1 | Phase_Payload \<Rightarrow> 2
     | Phase_Verify \<Rightarrow> 3 | Phase_Save \<Rightarrow> 4 | Phase_Proof \<Rightarrow> 5)"

text \<open>\<open>ManifestV2FrameType as u16\<close> and \<open>frame_type\<close>.\<close>

definition frame_type_u16 :: "ManifestV2FrameType \<Rightarrow> u16" where
  "frame_type_u16 t = (case t of T_Offer \<Rightarrow> 1 | T_Accept \<Rightarrow> 2 | T_EntryStart \<Rightarrow> 3
     | T_EntryContentDigest \<Rightarrow> 4 | T_EntryBlock \<Rightarrow> 5 | T_EntryComplete \<Rightarrow> 6 | T_EntryResult \<Rightarrow> 7
     | T_JobComplete \<Rightarrow> 8 | T_DeliveryProof \<Rightarrow> 9 | T_ResumeRequest \<Rightarrow> 10 | T_ResumeStatus \<Rightarrow> 11
     | T_Cancel \<Rightarrow> 12 | T_Error \<Rightarrow> 13)"

definition frame_type :: "u16 \<Rightarrow> ManifestV2FrameCodecError + ManifestV2FrameType" where
  "frame_type v = ok_or (map_of
     [(1, T_Offer), (2, T_Accept), (3, T_EntryStart), (4, T_EntryContentDigest), (5, T_EntryBlock),
      (6, T_EntryComplete), (7, T_EntryResult), (8, T_JobComplete), (9, T_DeliveryProof),
      (10, T_ResumeRequest), (11, T_ResumeStatus), (12, T_Cancel), (13, T_Error)] v)
     (UnknownFrameType v)"

section \<open>Appending to a payload\<close>

type_synonym payload = "ManifestV2FrameCodecError + bytes"

text \<open>Steps that append, in order, up to the first error; and a check that appends nothing.\<close>

fun catR :: "('e + bytes) list \<Rightarrow> 'e + bytes" where
  "catR [] = Inr []"
| "catR (x # xs) = bindR x (\<lambda>a. bindR (catR xs) (\<lambda>b. Inr (a @ b)))"

definition checkR :: "bool \<Rightarrow> 'e \<Rightarrow> 'e + bytes" where
  "checkR c e = (if c then Inl e else Inr [])"

definition push_identity :: "JobGenerationV2 \<Rightarrow> payload" where
  "push_identity i = catR
     [checkR (jg_job_id i = replicate 16 0 \<or> jg_generation i = 0) InvalidIdentity,
      Inr (jg_job_id i), Inr (u32_to_be (jg_generation i))]"

definition checked_entry_id :: "u32 \<Rightarrow> payload" where
  "checked_entry_id entry_id = checkR (unat entry_id \<ge> MAX_MANIFEST_V2_ENTRIES) InvalidEntryId"

definition push_optional_digest :: "ContentDigestV2 option \<Rightarrow> bytes" where
  "push_optional_digest v = (case v of Some d \<Rightarrow> [1] @ d | None \<Rightarrow> [0])"

definition push_optional_u32 :: "u32 option \<Rightarrow> bytes" where
  "push_optional_u32 v = (case v of Some w \<Rightarrow> [1] @ u32_to_be w | None \<Rightarrow> [0])"

definition push_count :: "nat \<Rightarrow> nat \<Rightarrow> payload" where
  "push_count value maximum = catR
     [checkR (value > maximum) CountTooLarge, checkR (\<not> value < 2 ^ 32) CountTooLarge,
      Inr (u32_to_be (word_of_nat value))]"

definition frame_validate_component :: "str \<Rightarrow> payload" where
  "frame_validate_component value = checkR
     (value = [] \<or> value = ascii ''.'' \<or> value = ascii ''..''
      \<or> length value > MAX_MANIFEST_V2_COMPONENT_BYTES
      \<or> (\<exists>ch \<in> set (chars value). is_control ch \<or> ch = 0x2F \<or> ch = 0x5C)) FrameUnsafeComponent"

definition push_component :: "str \<Rightarrow> payload" where
  "push_component value = catR
     [frame_validate_component value, checkR (\<not> length value < 2 ^ 32) FrameUnsafeComponent,
      Inr (u32_to_be (word_of_nat (length value))), Inr value]"

section \<open>Payload encoders\<close>

definition encode_entry_result_body :: "EntryResultV2 \<Rightarrow> payload" where
  "encode_entry_result_body v = catR
     [push_identity (er_identity v), checked_entry_id (er_entry_id v),
      Inr (u32_to_be (er_entry_id v)), Inr [result_u8 (er_result v)],
      Inr (u64_to_be (er_final_size v)), Inr (push_optional_digest (er_final_digest v)),
      (case er_final_component_override v of
         Some c \<Rightarrow> catR [Inr [1], push_component c]
       | None \<Rightarrow> Inr [0])]"

definition encode_root_plan :: "nat \<Rightarrow> RootPlanV2 \<Rightarrow> payload" where
  "encode_root_plan index root = catR
     [checkR (rp_root_id root \<noteq> word_of_nat index) InvalidRootId,
      Inr (u32_to_be (rp_root_id root)), push_component (rp_planned_name root)]"

definition encode_entry_plan :: "nat \<Rightarrow> EntryPlanV2 \<Rightarrow> payload" where
  "encode_entry_plan index entry = catR
     [checkR (ep_entry_id entry \<noteq> word_of_nat index) InvalidEntryId,
      Inr (u32_to_be (ep_entry_id entry)), Inr [disposition_u8 (ep_disposition entry)],
      Inr (u64_to_be (ep_next_plaintext_block entry))]"

definition encode_accept :: "ManifestAcceptV2 \<Rightarrow> payload" where
  "encode_accept v = catR
     [push_identity (ac_identity v),
      checkR (ac_proof_capability v = replicate DIGEST_BYTES 0 \<or> ac_plan_revision v = 0) InvalidIdentity,
      Inr (ac_manifest_digest v), Inr (ac_accept_nonce v), Inr (ac_proof_capability v),
      Inr (u32_to_be (ac_plan_revision v)),
      push_count (length (ac_root_plans v)) MAX_MANIFEST_V2_ROOTS,
      enc_all encode_root_plan 0 (ac_root_plans v),
      push_count (length (ac_entry_plans v)) MAX_MANIFEST_V2_ENTRIES,
      enc_all encode_entry_plan 0 (ac_entry_plans v)]"

definition encode_entry_start :: "EntryStartV2 \<Rightarrow> payload" where
  "encode_entry_start v = catR
     [push_identity (es_identity v), checked_entry_id (es_entry_id v),
      checkR (es_plaintext_block_bytes v = 0
        \<or> unat (es_plaintext_block_bytes v) > MAX_MANIFEST_V2_BLOCK_PLAINTEXT_BYTES) InvalidBlock,
      Inr (u32_to_be (es_entry_id v)), Inr [encoding_u8 (es_encoding v)],
      Inr (u32_to_be (es_plaintext_block_bytes v))]"

definition encode_entry_content_digest :: "EntryContentDigestFrameV2 \<Rightarrow> payload" where
  "encode_entry_content_digest v = catR
     [push_identity (cd_identity v), checked_entry_id (cd_entry_id v),
      Inr (u32_to_be (cd_entry_id v)), Inr (cd_digest v), Inr [decision_u8 (cd_decision v)]]"

definition encode_entry_block :: "EntryBlockV2 \<Rightarrow> payload" where
  "encode_entry_block v = catR
     [push_identity (bl_identity v), checked_entry_id (bl_entry_id v),
      checkR (bl_plaintext_length v = 0
        \<or> unat (bl_plaintext_length v) > MAX_MANIFEST_V2_BLOCK_PLAINTEXT_BYTES
        \<or> bl_encoded_bytes v = []
        \<or> length (bl_encoded_bytes v) > MAX_MANIFEST_V2_BLOCK_ENCODED_BYTES) InvalidBlock,
      Inr (u32_to_be (bl_entry_id v)), Inr (u64_to_be (bl_block_index v)),
      Inr (u64_to_be (bl_plaintext_offset v)), Inr (u32_to_be (bl_plaintext_length v)),
      checkR (\<not> length (bl_encoded_bytes v) < 2 ^ 32) InvalidBlock,
      Inr (u32_to_be (word_of_nat (length (bl_encoded_bytes v)))), Inr (bl_encoded_bytes v)]"

definition encode_entry_complete :: "EntryCompleteV2 \<Rightarrow> payload" where
  "encode_entry_complete v = catR
     [push_identity (co_identity v), checked_entry_id (co_entry_id v),
      Inr (u32_to_be (co_entry_id v)), Inr (u64_to_be (co_final_size v)),
      Inr (co_final_digest v), Inr [completion_u8 (co_completion_choice v)]]"

definition encode_job_complete :: "JobCompleteV2 \<Rightarrow> payload" where
  "encode_job_complete v = catR
     [push_identity (jc_identity v), Inr (jc_sender_completion_set_digest v)]"

definition encode_delivery_proof :: "DeliveryProofV2 \<Rightarrow> payload" where
  "encode_delivery_proof v = catR
     [push_identity (dp_identity v), Inr (dp_manifest_digest v), Inr (dp_result_set_digest v),
      Inr (dp_proof_nonce v), Inr (dp_proof_mac v)]"

text \<open>The check of an offer's digest against its manifest, and its wire form.\<close>

definition encode_offer ::
  "(bytes \<Rightarrow> bytes) \<Rightarrow> (str \<Rightarrow> bool) \<Rightarrow> ManifestOfferV2 \<Rightarrow> payload" where
  "encode_offer hash nfc offer =
     bindR (map_err OfferRejected (build_manifest_offer_v2 hash nfc (of_manifest offer))) (\<lambda>rebuilt.
     bindR (rejectR (of_structural_digest rebuilt \<noteq> of_structural_digest offer) OfferDigestDiffers) (\<lambda>_.
     map_err OfferRejected (encode_manifest_offer_v2 hash nfc (of_manifest offer))))"

definition push_encoded_offer :: "bytes \<Rightarrow> payload" where
  "push_encoded_offer encoded_offer = catR
     [checkR (\<not> length encoded_offer < 2 ^ 32) FrameTooLarge,
      Inr (u32_to_be (word_of_nat (length encoded_offer))), Inr encoded_offer]"

definition encode_resume_request ::
  "(bytes \<Rightarrow> bytes) \<Rightarrow> (str \<Rightarrow> bool) \<Rightarrow> ResumeRequestV2 \<Rightarrow> payload" where
  "encode_resume_request hash nfc v = catR
     [push_identity (rr_identity v),
      checkR (rr_challenge_nonce v = replicate NONCE_BYTES 0) InvalidChallenge,
      checkR (jg_job_id (rr_identity v) \<noteq> mf_job_id (of_manifest (rr_offer v))
        \<or> jg_generation (rr_identity v) \<noteq> mf_generation (of_manifest (rr_offer v))) InvalidIdentity,
      bindR (encode_offer hash nfc (rr_offer v)) push_encoded_offer,
      Inr (rr_accept_body_digest v), Inr (rr_sender_checkpoint_digest v),
      Inr (rr_challenge_nonce v)]"

definition encode_resume_entry :: "nat \<Rightarrow> ResumeEntryV2 \<Rightarrow> payload" where
  "encode_resume_entry index entry = catR
     [checkR (re_entry_id entry \<noteq> word_of_nat index) InvalidEntryId,
      Inr (u32_to_be (re_entry_id entry)), Inr [arbiter_u8 (re_arbiter entry)],
      Inr (u64_to_be (re_next_plaintext_block entry)),
      Inr (push_optional_digest (re_content_digest entry)),
      (case re_entry_result entry of
         Some result \<Rightarrow> catR [Inr [1], encode_entry_result_body result]
       | None \<Rightarrow> Inr [0])]"

definition encode_resume_status :: "ResumeStatusV2 \<Rightarrow> payload" where
  "encode_resume_status v = catR
     [push_identity (rs_identity v),
      checkR (rs_challenge_nonce v = replicate NONCE_BYTES 0
        \<or> rs_challenge_mac v = replicate DIGEST_BYTES 0) InvalidChallenge,
      Inr (rs_accept_body_digest v), Inr (u32_to_be (rs_plan_revision v)),
      push_count (length (rs_entries v)) MAX_MANIFEST_V2_ENTRIES,
      enc_all encode_resume_entry 0 (rs_entries v),
      Inr (rs_challenge_nonce v), Inr (rs_challenge_mac v)]"

definition encode_cancel :: "CancelV2 \<Rightarrow> payload" where
  "encode_cancel v = catR
     [push_identity (ca_identity v),
      checkR ((ca_scope v = Scope_Job) \<noteq> (ca_entry_id v = None)) InvalidCancelScope,
      Inr [scope_u8 (ca_scope v)], Inr (push_optional_u32 (ca_entry_id v)),
      Inr (u32_to_be (ca_failure_code v))]"

definition encode_error :: "ManifestErrorV2 \<Rightarrow> payload" where
  "encode_error v = catR
     [push_identity (fe_identity v), Inr (u32_to_be (fe_failure_code v)),
      Inr [phase_u8 (fe_phase v)], Inr (push_optional_u32 (fe_entry_id v))]"

text \<open>Each arm ends with \<open>Ok(ManifestV2FrameType::...)\<close>.\<close>

definition tagged :: "ManifestV2FrameType \<Rightarrow> payload \<Rightarrow> ManifestV2FrameCodecError + bytes \<times> ManifestV2FrameType" where
  "tagged t m = bindR m (\<lambda>b. Inr (b, t))"

definition encode_payload ::
  "(bytes \<Rightarrow> bytes) \<Rightarrow> (str \<Rightarrow> bool) \<Rightarrow> ManifestV2Frame
     \<Rightarrow> ManifestV2FrameCodecError + bytes \<times> ManifestV2FrameType" where
  "encode_payload hash nfc frame =
     (case frame of
        F_Offer _ \<Rightarrow> Inl UnexpectedOfferPayload
      | F_Accept v \<Rightarrow> tagged T_Accept (encode_accept v)
      | F_EntryStart v \<Rightarrow> tagged T_EntryStart (encode_entry_start v)
      | F_EntryContentDigest v \<Rightarrow> tagged T_EntryContentDigest (encode_entry_content_digest v)
      | F_EntryBlock v \<Rightarrow> tagged T_EntryBlock (encode_entry_block v)
      | F_EntryComplete v \<Rightarrow> tagged T_EntryComplete (encode_entry_complete v)
      | F_EntryResult v \<Rightarrow> tagged T_EntryResult (encode_entry_result_body v)
      | F_JobComplete v \<Rightarrow> tagged T_JobComplete (encode_job_complete v)
      | F_DeliveryProof v \<Rightarrow> tagged T_DeliveryProof (encode_delivery_proof v)
      | F_ResumeRequest v \<Rightarrow> tagged T_ResumeRequest (encode_resume_request hash nfc v)
      | F_ResumeStatus v \<Rightarrow> tagged T_ResumeStatus (encode_resume_status v)
      | F_Cancel v \<Rightarrow> tagged T_Cancel (encode_cancel v)
      | F_Error v \<Rightarrow> tagged T_Error (encode_error v))"

section \<open>Payload decoders\<close>

type_synonym 'a read = "(ManifestV2FrameCodecError, 'a) parser"

abbreviation rd_array :: "nat \<Rightarrow> bytes read" where
  "rd_array \<equiv> get_exact FrameTruncated"

abbreviation rd_u8 :: "u8 read" where
  "rd_u8 \<equiv> get_u8 FrameTruncated"

abbreviation rd_u32 :: "u32 read" where
  "rd_u32 \<equiv> get_u32 FrameTruncated"

abbreviation rd_u64 :: "u64 read" where
  "rd_u64 \<equiv> get_u64 FrameTruncated"

abbreviation rd_digest :: "ContentDigestV2 read" where
  "rd_digest \<equiv> rd_array DIGEST_BYTES"

definition rd_identity :: "JobGenerationV2 read" where
  "rd_identity =
     bindP (rd_array JOB_ID_BYTES) (\<lambda>job_id.
     bindP rd_u32 (\<lambda>generation.
     bindP (rejectP (job_id = replicate 16 0 \<or> generation = 0) InvalidIdentity) (\<lambda>_.
     returnP \<lparr>jg_job_id = job_id, jg_generation = generation\<rparr>)))"

definition rd_entry_id :: "u32 read" where
  "rd_entry_id =
     bindP rd_u32 (\<lambda>entry_id.
     bindP (liftP (checked_entry_id entry_id)) (\<lambda>_. returnP entry_id))"

definition rd_count :: "nat \<Rightarrow> nat read" where
  "rd_count maximum =
     bindP rd_u32 (\<lambda>w.
     bindP (rejectP (unat w > maximum) CountTooLarge) (\<lambda>_. returnP (unat w)))"

definition rd_bytes_max :: "nat \<Rightarrow> bytes read" where
  "rd_bytes_max maximum =
     bindP rd_u32 (\<lambda>w.
     bindP (rejectP (unat w > maximum) FrameTooLarge) (\<lambda>_. rd_array (unat w)))"

definition rd_component :: "str read" where
  "rd_component =
     bindP (rd_bytes_max MAX_MANIFEST_V2_COMPONENT_BYTES) (\<lambda>bs.
     bindP (liftP (ok_or (from_utf8 bs) FrameInvalidUtf8)) (\<lambda>value.
     bindP (liftP (frame_validate_component value)) (\<lambda>_. returnP value)))"

text \<open>The three optional fields share the tag byte.\<close>

definition rd_optional :: "'a read \<Rightarrow> 'a option read" where
  "rd_optional p =
     bindP rd_u8 (\<lambda>tag.
     if tag = 0 then returnP None
     else if tag = 1 then bindP p (\<lambda>x. returnP (Some x))
     else liftP (Inl InvalidOptional))"

definition rd_optional_u32 :: "u32 option read" where
  "rd_optional_u32 = rd_optional rd_entry_id"

definition rd_optional_digest :: "ContentDigestV2 option read" where
  "rd_optional_digest = rd_optional rd_digest"

text \<open>A tag byte and the enum it stands for.\<close>

definition rd_tag :: "(u8 \<Rightarrow> ManifestV2FrameCodecError + 'a) \<Rightarrow> 'a read" where
  "rd_tag decoder = bindP rd_u8 (\<lambda>b. liftP (decoder b))"

definition rd_entry_result :: "EntryResultV2 read" where
  "rd_entry_result =
     bindP rd_identity (\<lambda>i.
     bindP rd_entry_id (\<lambda>entry_id.
     bindP (rd_tag entry_result_kind) (\<lambda>result.
     bindP rd_u64 (\<lambda>final_size.
     bindP rd_optional_digest (\<lambda>final_digest.
     bindP (rd_optional rd_component) (\<lambda>final_component_override.
     returnP \<lparr>er_identity = i, er_entry_id = entry_id, er_result = result,
              er_final_size = final_size, er_final_digest = final_digest,
              er_final_component_override = final_component_override\<rparr>))))))"

definition decode_root_plan :: "nat \<Rightarrow> RootPlanV2 read" where
  "decode_root_plan index =
     bindP rd_u32 (\<lambda>root_id.
     bindP (rejectP (root_id \<noteq> word_of_nat index) InvalidRootId) (\<lambda>_.
     bindP rd_component (\<lambda>planned_name.
     returnP \<lparr>rp_root_id = root_id, rp_planned_name = planned_name\<rparr>)))"

definition decode_entry_plan :: "nat \<Rightarrow> EntryPlanV2 read" where
  "decode_entry_plan index =
     bindP rd_u32 (\<lambda>entry_id.
     bindP (rejectP (entry_id \<noteq> word_of_nat index) InvalidEntryId) (\<lambda>_.
     bindP (rd_tag entry_disposition) (\<lambda>disposition.
     bindP rd_u64 (\<lambda>next_plaintext_block.
     returnP \<lparr>ep_entry_id = entry_id, ep_disposition = disposition,
              ep_next_plaintext_block = next_plaintext_block\<rparr>))))"

definition decode_accept :: "ManifestAcceptV2 read" where
  "decode_accept =
     bindP rd_identity (\<lambda>i.
     bindP rd_digest (\<lambda>manifest_digest.
     bindP (rd_array NONCE_BYTES) (\<lambda>accept_nonce.
     bindP (rd_array DIGEST_BYTES) (\<lambda>proof_capability.
     bindP rd_u32 (\<lambda>plan_revision.
     bindP (rejectP (proof_capability = replicate DIGEST_BYTES 0 \<or> plan_revision = 0) InvalidIdentity) (\<lambda>_.
     bindP (rd_count MAX_MANIFEST_V2_ROOTS) (\<lambda>root_count.
     bindP (repeatP decode_root_plan 0 root_count) (\<lambda>root_plans.
     bindP (rd_count MAX_MANIFEST_V2_ENTRIES) (\<lambda>entry_count.
     bindP (repeatP decode_entry_plan 0 entry_count) (\<lambda>entry_plans.
     returnP \<lparr>ac_identity = i, ac_manifest_digest = manifest_digest, ac_accept_nonce = accept_nonce,
              ac_proof_capability = proof_capability, ac_plan_revision = plan_revision,
              ac_root_plans = root_plans, ac_entry_plans = entry_plans\<rparr>))))))))))"

definition decode_entry_start :: "EntryStartV2 read" where
  "decode_entry_start =
     bindP rd_identity (\<lambda>i.
     bindP rd_entry_id (\<lambda>entry_id.
     bindP (rd_tag entry_encoding) (\<lambda>enc.
     bindP rd_u32 (\<lambda>block_bytes.
     bindP (rejectP (block_bytes = 0 \<or> unat block_bytes > MAX_MANIFEST_V2_BLOCK_PLAINTEXT_BYTES)
              InvalidBlock) (\<lambda>_.
     returnP \<lparr>es_identity = i, es_entry_id = entry_id, es_encoding = enc,
              es_plaintext_block_bytes = block_bytes\<rparr>)))))"

definition decode_entry_content_digest :: "EntryContentDigestFrameV2 read" where
  "decode_entry_content_digest =
     bindP rd_identity (\<lambda>i.
     bindP rd_entry_id (\<lambda>entry_id.
     bindP rd_digest (\<lambda>d.
     bindP (rd_tag entry_digest_decision) (\<lambda>decision.
     returnP \<lparr>cd_identity = i, cd_entry_id = entry_id, cd_digest = d, cd_decision = decision\<rparr>))))"

definition decode_entry_block :: "EntryBlockV2 read" where
  "decode_entry_block =
     bindP rd_identity (\<lambda>i.
     bindP rd_entry_id (\<lambda>entry_id.
     bindP rd_u64 (\<lambda>block_index.
     bindP rd_u64 (\<lambda>plaintext_offset.
     bindP rd_u32 (\<lambda>plaintext_length.
     bindP (rd_bytes_max MAX_MANIFEST_V2_BLOCK_ENCODED_BYTES) (\<lambda>encoded_bytes.
     bindP (rejectP (plaintext_length = 0
                     \<or> unat plaintext_length > MAX_MANIFEST_V2_BLOCK_PLAINTEXT_BYTES
                     \<or> encoded_bytes = []) InvalidBlock) (\<lambda>_.
     returnP \<lparr>bl_identity = i, bl_entry_id = entry_id, bl_block_index = block_index,
              bl_plaintext_offset = plaintext_offset, bl_plaintext_length = plaintext_length,
              bl_encoded_bytes = encoded_bytes\<rparr>)))))))"

definition decode_entry_complete :: "EntryCompleteV2 read" where
  "decode_entry_complete =
     bindP rd_identity (\<lambda>i.
     bindP rd_entry_id (\<lambda>entry_id.
     bindP rd_u64 (\<lambda>final_size.
     bindP rd_digest (\<lambda>final_digest.
     bindP (rd_tag entry_completion) (\<lambda>choice.
     returnP \<lparr>co_identity = i, co_entry_id = entry_id, co_final_size = final_size,
              co_final_digest = final_digest, co_completion_choice = choice\<rparr>)))))"

definition decode_job_complete :: "JobCompleteV2 read" where
  "decode_job_complete =
     bindP rd_identity (\<lambda>i.
     bindP rd_digest (\<lambda>d.
     returnP \<lparr>jc_identity = i, jc_sender_completion_set_digest = d\<rparr>))"

definition decode_delivery_proof :: "DeliveryProofV2 read" where
  "decode_delivery_proof =
     bindP rd_identity (\<lambda>i.
     bindP rd_digest (\<lambda>manifest_digest.
     bindP rd_digest (\<lambda>result_set_digest.
     bindP (rd_array NONCE_BYTES) (\<lambda>proof_nonce.
     bindP (rd_array DIGEST_BYTES) (\<lambda>proof_mac.
     returnP \<lparr>dp_identity = i, dp_manifest_digest = manifest_digest,
              dp_result_set_digest = result_set_digest, dp_proof_nonce = proof_nonce,
              dp_proof_mac = proof_mac\<rparr>)))))"

definition decode_resume_request :: "(bytes \<Rightarrow> bytes) \<Rightarrow> (str \<Rightarrow> bool) \<Rightarrow> ResumeRequestV2 read" where
  "decode_resume_request hash nfc =
     bindP rd_identity (\<lambda>i.
     bindP (rd_bytes_max MAX_MANIFEST_V2_ENCODED_BYTES) (\<lambda>encoded_offer.
     bindP (liftP (map_err OfferRejected (decode_manifest_offer_v2 hash nfc encoded_offer))) (\<lambda>offer.
     bindP (rejectP (jg_job_id i \<noteq> mf_job_id (of_manifest offer)
                     \<or> jg_generation i \<noteq> mf_generation (of_manifest offer)) InvalidIdentity) (\<lambda>_.
     bindP rd_digest (\<lambda>accept_body_digest.
     bindP rd_digest (\<lambda>sender_checkpoint_digest.
     bindP (rd_array NONCE_BYTES) (\<lambda>challenge_nonce.
     bindP (rejectP (challenge_nonce = replicate NONCE_BYTES 0) InvalidChallenge) (\<lambda>_.
     returnP \<lparr>rr_identity = i, rr_offer = offer, rr_accept_body_digest = accept_body_digest,
              rr_sender_checkpoint_digest = sender_checkpoint_digest,
              rr_challenge_nonce = challenge_nonce\<rparr>))))))))"

definition decode_resume_entry :: "JobGenerationV2 \<Rightarrow> nat \<Rightarrow> ResumeEntryV2 read" where
  "decode_resume_entry i index =
     bindP rd_entry_id (\<lambda>entry_id.
     bindP (rejectP (entry_id \<noteq> word_of_nat index) InvalidEntryId) (\<lambda>_.
     bindP (rd_tag entry_arbiter) (\<lambda>arbiter.
     bindP rd_u64 (\<lambda>next_plaintext_block.
     bindP rd_optional_digest (\<lambda>content_digest.
     bindP (rd_optional rd_entry_result) (\<lambda>entry_result.
     bindP (rejectP (case entry_result of
                       None \<Rightarrow> False
                     | Some result \<Rightarrow> er_identity result \<noteq> i \<or> er_entry_id result \<noteq> entry_id)
              InvalidIdentity) (\<lambda>_.
     returnP \<lparr>re_entry_id = entry_id, re_arbiter = arbiter,
              re_next_plaintext_block = next_plaintext_block, re_content_digest = content_digest,
              re_entry_result = entry_result\<rparr>)))))))"

definition decode_resume_status :: "ResumeStatusV2 read" where
  "decode_resume_status =
     bindP rd_identity (\<lambda>i.
     bindP rd_digest (\<lambda>accept_body_digest.
     bindP rd_u32 (\<lambda>plan_revision.
     bindP (rd_count MAX_MANIFEST_V2_ENTRIES) (\<lambda>count.
     bindP (repeatP (decode_resume_entry i) 0 count) (\<lambda>entries.
     bindP (rd_array NONCE_BYTES) (\<lambda>challenge_nonce.
     bindP (rd_array DIGEST_BYTES) (\<lambda>challenge_mac.
     bindP (rejectP (challenge_nonce = replicate NONCE_BYTES 0
                     \<or> challenge_mac = replicate DIGEST_BYTES 0) InvalidChallenge) (\<lambda>_.
     returnP \<lparr>rs_identity = i, rs_accept_body_digest = accept_body_digest,
              rs_plan_revision = plan_revision, rs_entries = entries,
              rs_challenge_nonce = challenge_nonce, rs_challenge_mac = challenge_mac\<rparr>))))))))"

definition decode_cancel :: "CancelV2 read" where
  "decode_cancel =
     bindP rd_identity (\<lambda>i.
     bindP (rd_tag cancel_scope) (\<lambda>scope.
     bindP rd_optional_u32 (\<lambda>entry_id.
     bindP (rejectP ((scope = Scope_Job) \<noteq> (entry_id = None)) InvalidCancelScope) (\<lambda>_.
     bindP rd_u32 (\<lambda>failure_code.
     returnP \<lparr>ca_identity = i, ca_scope = scope, ca_entry_id = entry_id,
              ca_failure_code = failure_code\<rparr>)))))"

definition decode_error :: "ManifestErrorV2 read" where
  "decode_error =
     bindP rd_identity (\<lambda>i.
     bindP rd_u32 (\<lambda>failure_code.
     bindP (rd_tag failure_phase) (\<lambda>phase.
     bindP rd_optional_u32 (\<lambda>entry_id.
     returnP \<lparr>fe_identity = i, fe_failure_code = failure_code, fe_phase = phase,
              fe_entry_id = entry_id\<rparr>))))"

definition mapP :: "('a \<Rightarrow> 'b) \<Rightarrow> 'a read \<Rightarrow> 'b read" where
  "mapP f p = bindP p (\<lambda>x. returnP (f x))"

definition decode_payload ::
  "(bytes \<Rightarrow> bytes) \<Rightarrow> (str \<Rightarrow> bool) \<Rightarrow> ManifestV2FrameType \<Rightarrow> ManifestV2Frame read" where
  "decode_payload hash nfc t =
     (case t of
        T_Offer \<Rightarrow> liftP (Inl UnexpectedOfferPayload)
      | T_Accept \<Rightarrow> mapP F_Accept decode_accept
      | T_EntryStart \<Rightarrow> mapP F_EntryStart decode_entry_start
      | T_EntryContentDigest \<Rightarrow> mapP F_EntryContentDigest decode_entry_content_digest
      | T_EntryBlock \<Rightarrow> mapP F_EntryBlock decode_entry_block
      | T_EntryComplete \<Rightarrow> mapP F_EntryComplete decode_entry_complete
      | T_EntryResult \<Rightarrow> mapP F_EntryResult rd_entry_result
      | T_JobComplete \<Rightarrow> mapP F_JobComplete decode_job_complete
      | T_DeliveryProof \<Rightarrow> mapP F_DeliveryProof decode_delivery_proof
      | T_ResumeRequest \<Rightarrow> mapP F_ResumeRequest (decode_resume_request hash nfc)
      | T_ResumeStatus \<Rightarrow> mapP F_ResumeStatus decode_resume_status
      | T_Cancel \<Rightarrow> mapP F_Cancel decode_cancel
      | T_Error \<Rightarrow> mapP F_Error decode_error)"

section \<open>Whole frames\<close>

definition frame_header :: "ManifestV2FrameType \<Rightarrow> nat \<Rightarrow> bytes" where
  "frame_header t n =
     OFFER_MAGIC @ u16_to_be MANIFEST_V2_PROTOCOL_VERSION @ u16_to_be (frame_type_u16 t)
     @ u32_to_be (word_of_nat n)"

definition encode_manifest_v2_frame ::
  "(bytes \<Rightarrow> bytes) \<Rightarrow> (str \<Rightarrow> bool) \<Rightarrow> ManifestV2Frame \<Rightarrow> payload" where
  "encode_manifest_v2_frame hash nfc frame =
     (case frame of
        F_Offer offer \<Rightarrow> encode_offer hash nfc offer
      | _ \<Rightarrow>
          bindR (encode_payload hash nfc frame) (\<lambda>(p, t).
          bindR (maximum_payload_bytes t) (\<lambda>maximum.
          bindR (rejectR (length p > maximum) FrameTooLarge) (\<lambda>_.
          bindR (rejectR (\<not> length p < 2 ^ 32) FrameTooLarge) (\<lambda>_.
          Inr (frame_header t (length p) @ p))))))"

record Header =
  hd_frame_type :: ManifestV2FrameType
  hd_payload_length :: nat

definition parse_header :: "bytes \<Rightarrow> ManifestV2FrameCodecError + Header" where
  "parse_header encoded =
     (if length encoded < HEADER_BYTES then Inl FrameTruncated
      else let header = take HEADER_BYTES encoded;
               version = u16_from_be (take 2 (drop 4 header));
               raw_type = u16_from_be (take 2 (drop 6 header));
               payload_length = unat (u32_from_be (take 4 (drop 8 header))) in
        if take 4 header \<noteq> OFFER_MAGIC then Inl FrameBadMagic
        else if version \<noteq> MANIFEST_V2_PROTOCOL_VERSION then Inl (FrameUnsupportedVersion version)
        else bindR (frame_type raw_type) (\<lambda>t.
             Inr \<lparr>hd_frame_type = t, hd_payload_length = payload_length\<rparr>))"

text \<open>\<open>Reader::finish\<close>.\<close>

definition rd_finish :: "unit read" where
  "rd_finish = bindP (inspectP (\<lambda>r. rd_offset r \<noteq> length (rd_bytes r))) (\<lambda>c. rejectP c FrameTrailingBytes)"

definition decode_manifest_v2_frame ::
  "(bytes \<Rightarrow> bytes) \<Rightarrow> (str \<Rightarrow> bool) \<Rightarrow> bytes \<Rightarrow> ManifestV2FrameCodecError + ManifestV2Frame" where
  "decode_manifest_v2_frame hash nfc encoded =
     bindR (parse_header encoded) (\<lambda>header.
     bindR (rejectR (length encoded \<noteq> HEADER_BYTES + hd_payload_length header)
              (FrameLengthMismatch (hd_payload_length header) (length encoded - HEADER_BYTES))) (\<lambda>_.
     if hd_frame_type header = T_Offer
     then bindR (map_err OfferRejected (decode_manifest_offer_v2 hash nfc encoded)) (\<lambda>offer.
          Inr (F_Offer offer))
     else bindR (maximum_payload_bytes (hd_frame_type header)) (\<lambda>maximum.
          bindR (rejectR (hd_payload_length header > maximum) FrameTooLarge) (\<lambda>_.
          bindR (bindP (decode_payload hash nfc (hd_frame_type header)) (\<lambda>frame.
                 bindP rd_finish (\<lambda>_. returnP frame)) (reader_new (drop HEADER_BYTES encoded)))
            (\<lambda>(frame, _). Inr frame)))))"

definition canonical_manifest_v2_frame_body_digest ::
  "(bytes \<Rightarrow> bytes) \<Rightarrow> (str \<Rightarrow> bool) \<Rightarrow> ManifestV2Frame \<Rightarrow> ManifestV2FrameCodecError + ContentDigestV2" where
  "canonical_manifest_v2_frame_body_digest hash nfc frame =
     bindR (encode_manifest_v2_frame hash nfc frame) (\<lambda>encoded.
     bindR (rejectR (length encoded < HEADER_BYTES) FrameTruncated) (\<lambda>_.
     Inr (hash (drop HEADER_BYTES encoded))))"

text \<open>
  A stream is the bytes still to come; \<open>AsyncReadExt::read_exact\<close> fails at its end with an
  I/O error.
\<close>

definition stream_read_exact :: "nat \<Rightarrow> bytes \<Rightarrow> ManifestV2FrameCodecError + bytes \<times> bytes" where
  "stream_read_exact n s = (if length s < n then Inl FrameIo else Inr (take n s, drop n s))"

definition read_manifest_v2_frame ::
  "(bytes \<Rightarrow> bytes) \<Rightarrow> (str \<Rightarrow> bool) \<Rightarrow> bytes \<Rightarrow> ManifestV2FrameCodecError + ManifestV2Frame \<times> bytes" where
  "read_manifest_v2_frame hash nfc s =
     bindR (stream_read_exact HEADER_BYTES s) (\<lambda>(header_bytes, s).
     bindR (parse_header header_bytes) (\<lambda>header.
     bindR (maximum_payload_bytes (hd_frame_type header)) (\<lambda>maximum.
     bindR (rejectR (hd_payload_length header > maximum) FrameTooLarge) (\<lambda>_.
     bindR (stream_read_exact (hd_payload_length header) s) (\<lambda>(p, s).
     bindR (decode_manifest_v2_frame hash nfc (header_bytes @ p)) (\<lambda>frame.
     Inr (frame, s)))))))"

text \<open>Writing appends the encoded frame to what the peer will read.\<close>

definition write_manifest_v2_frame ::
  "(bytes \<Rightarrow> bytes) \<Rightarrow> (str \<Rightarrow> bool) \<Rightarrow> bytes \<Rightarrow> ManifestV2Frame \<Rightarrow> payload" where
  "write_manifest_v2_frame hash nfc s frame =
     bindR (encode_manifest_v2_frame hash nfc frame) (\<lambda>encoded. Inr (s @ encoded))"

end
