(* ===== verification/Frames_Codec.thy ===== *)
theory Frames_Codec
  imports Frames
begin

text \<open>
  Every payload satisfies the \<open>codec\<close> contract: decoding undoes encoding, and a decoder accepts
  only what its encoder writes. The fields come first, then the thirteen payloads, then the whole
  frame with its header and the stream of frames.

  The \<open>ok\<close> of a codec says what the Rust types guarantee (array lengths, UTF-8) and, for
  \<open>Cancel\<close>, \<open>Error\<close> and \<open>ResumeStatus\<close>, what only the decoder checks.
\<close>

section \<open>Appending\<close>

lemma catR_Inr_iff [simp]:
  "catR (x # xs) = Inr bs \<longleftrightarrow> (\<exists>a b. x = Inr a \<and> catR xs = Inr b \<and> bs = a @ b)"
  by auto

declare catR.simps(2) [simp del]

lemma checkR_Inr_iff [simp]: "checkR c e = Inr bs \<longleftrightarrow> \<not> c \<and> bs = []"
  by (auto simp: checkR_def)

lemma limits_fit_u32 [simp]:
  "MAX_MANIFEST_V2_ROOTS < 4294967296" "MAX_MANIFEST_V2_ENTRIES < 4294967296"
  "MAX_MANIFEST_V2_COMPONENT_BYTES < 4294967296" "MAX_MANIFEST_V2_BLOCK_ENCODED_BYTES < 4294967296"
  "MAX_MANIFEST_V2_ENCODED_BYTES < 4294967296"
  by (simp_all add: manifest_limits)

section \<open>Fields\<close>

text \<open>A tag decoder and the cast it inverts.\<close>

locale tag_table =
  fixes decoder :: "u8 \<Rightarrow> ManifestV2FrameCodecError + 'a"
    and tag :: "'a \<Rightarrow> u8"
  assumes decoder_iff: "decoder b = Inr x \<longleftrightarrow> b = tag x"
begin

lemma rd_tag_append: "rd_tag decoder (rd pre (tag x # ys)) = Inr (x, rd (pre @ [tag x]) ys)"
  using decoder_iff [of "tag x" x] by (simp add: rd_tag_def parse_simps)

lemma rd_tag_dest:
  "rd_tag decoder (rd pre zs) = Inr (x, r) \<Longrightarrow> \<exists>ys. zs = tag x # ys \<and> r = rd (pre @ [tag x]) ys"
  by (auto simp: rd_tag_def parser_iffs decoder_iff dest!: parse_dests)

end

interpretation disposition_tags: tag_table entry_disposition disposition_u8
proof
  show "entry_disposition b = Inr x \<longleftrightarrow> b = disposition_u8 x" for b x
    by (cases x) (auto simp: entry_disposition_def tag_decoder_def disposition_u8_def)
qed

interpretation encoding_tags: tag_table entry_encoding encoding_u8
proof
  show "entry_encoding b = Inr x \<longleftrightarrow> b = encoding_u8 x" for b x
    by (cases x) (auto simp: entry_encoding_def tag_decoder_def encoding_u8_def)
qed

interpretation decision_tags: tag_table entry_digest_decision decision_u8
proof
  show "entry_digest_decision b = Inr x \<longleftrightarrow> b = decision_u8 x" for b x
    by (cases x) (auto simp: entry_digest_decision_def tag_decoder_def decision_u8_def)
qed

interpretation completion_tags: tag_table entry_completion completion_u8
proof
  show "entry_completion b = Inr x \<longleftrightarrow> b = completion_u8 x" for b x
    by (cases x) (auto simp: entry_completion_def tag_decoder_def completion_u8_def)
qed

interpretation result_tags: tag_table entry_result_kind result_u8
proof
  show "entry_result_kind b = Inr x \<longleftrightarrow> b = result_u8 x" for b x
    by (cases x) (auto simp: entry_result_kind_def tag_decoder_def result_u8_def)
qed

interpretation arbiter_tags: tag_table entry_arbiter arbiter_u8
proof
  show "entry_arbiter b = Inr x \<longleftrightarrow> b = arbiter_u8 x" for b x
    by (cases x) (auto simp: entry_arbiter_def tag_decoder_def arbiter_u8_def)
qed

interpretation scope_tags: tag_table cancel_scope scope_u8
proof
  show "cancel_scope b = Inr x \<longleftrightarrow> b = scope_u8 x" for b x
    by (cases x) (auto simp: cancel_scope_def tag_decoder_def scope_u8_def)
qed

interpretation phase_tags: tag_table failure_phase phase_u8
proof
  show "failure_phase b = Inr x \<longleftrightarrow> b = phase_u8 x" for b x
    by (cases x) (auto simp: failure_phase_def tag_decoder_def phase_u8_def)
qed

lemmas tag_simps [parse_simps] =
  disposition_tags.rd_tag_append encoding_tags.rd_tag_append decision_tags.rd_tag_append
  completion_tags.rd_tag_append result_tags.rd_tag_append arbiter_tags.rd_tag_append
  scope_tags.rd_tag_append phase_tags.rd_tag_append

lemmas tag_dests [parse_dests] =
  disposition_tags.rd_tag_dest encoding_tags.rd_tag_dest decision_tags.rd_tag_dest
  completion_tags.rd_tag_dest result_tags.rd_tag_dest arbiter_tags.rd_tag_dest
  scope_tags.rd_tag_dest phase_tags.rd_tag_dest

lemma frame_type_iff [simp]: "frame_type v = Inr t \<longleftrightarrow> v = frame_type_u16 t"
  by (cases t) (auto simp: frame_type_def frame_type_u16_def)

text \<open>Identities.\<close>

definition identity_ok :: "JobGenerationV2 \<Rightarrow> bool" where
  "identity_ok i \<longleftrightarrow> jg_job_id i \<noteq> replicate 16 0 \<and> jg_generation i \<noteq> 0"

definition identity_wf :: "JobGenerationV2 \<Rightarrow> bool" where
  "identity_wf i \<longleftrightarrow> length (jg_job_id i) = JOB_ID_BYTES"

definition identity_bytes :: "JobGenerationV2 \<Rightarrow> bytes" where
  "identity_bytes i = jg_job_id i @ u32_to_be (jg_generation i)"

lemma push_identity_iff [simp]: "push_identity i = Inr bs \<longleftrightarrow> identity_ok i \<and> bs = identity_bytes i"
  by (auto simp: push_identity_def identity_ok_def identity_bytes_def)

lemma rd_identity_append [parse_simps]:
  "identity_wf i \<Longrightarrow> identity_ok i
     \<Longrightarrow> rd_identity (rd pre (identity_bytes i @ ys)) = Inr (i, rd (pre @ identity_bytes i) ys)"
  by (simp add: rd_identity_def identity_bytes_def identity_ok_def identity_wf_def parse_simps)

lemma rd_identity_dest [parse_dests]:
  "rd_identity (rd pre zs) = Inr (i, r) \<Longrightarrow> \<exists>ys. zs = identity_bytes i @ ys \<and> identity_wf i \<and> identity_ok i
     \<and> r = rd (pre @ identity_bytes i) ys"
  by (auto simp: rd_identity_def identity_bytes_def identity_ok_def identity_wf_def parser_iffs
      dest!: parse_dests)

text \<open>Entry ids, counts, byte strings and components.\<close>

lemma checked_entry_id_iff [simp]:
  "checked_entry_id w = Inr bs \<longleftrightarrow> unat w < MAX_MANIFEST_V2_ENTRIES \<and> bs = []"
  by (auto simp: checked_entry_id_def)

lemma rd_entry_id_append [parse_simps]:
  "unat w < MAX_MANIFEST_V2_ENTRIES
     \<Longrightarrow> rd_entry_id (rd pre (u32_to_be w @ ys)) = Inr (w, rd (pre @ u32_to_be w) ys)"
  by (simp add: rd_entry_id_def checked_entry_id_def checkR_def parse_simps)

lemma rd_entry_id_dest [parse_dests]:
  "rd_entry_id (rd pre zs) = Inr (w, r) \<Longrightarrow> \<exists>ys. zs = u32_to_be w @ ys
     \<and> unat w < MAX_MANIFEST_V2_ENTRIES \<and> r = rd (pre @ u32_to_be w) ys"
  by (auto simp: rd_entry_id_def parser_iffs dest!: parse_dests)

lemma push_count_iff:
  "maximum < 4294967296 \<Longrightarrow> push_count n maximum = Inr bs \<longleftrightarrow> n \<le> maximum \<and> bs = u32_to_be (word_of_nat n)"
  by (auto simp: push_count_def)

lemmas push_count_iffs [simp] = limits_fit_u32 [THEN push_count_iff]

lemma unat_count: "n \<le> maximum \<Longrightarrow> maximum < 4294967296 \<Longrightarrow> unat (word_of_nat n :: u32) = n"
  by (rule unat_word_of_nat_small) simp

lemma rd_count_append [parse_simps]:
  "n \<le> maximum \<Longrightarrow> maximum < 4294967296
     \<Longrightarrow> rd_count maximum (rd pre (u32_to_be (word_of_nat n) @ ys))
       = Inr (n, rd (pre @ u32_to_be (word_of_nat n)) ys)"
  by (simp add: rd_count_def parse_simps unat_count)

lemma rd_count_dest [parse_dests]:
  "rd_count maximum (rd pre zs) = Inr (n, r) \<Longrightarrow> \<exists>ys. zs = u32_to_be (word_of_nat n) @ ys \<and> n \<le> maximum
     \<and> r = rd (pre @ u32_to_be (word_of_nat n)) ys"
  by (auto simp: rd_count_def parser_iffs dest!: parse_dests)

lemma rd_bytes_max_append [parse_simps]:
  "length bs \<le> maximum \<Longrightarrow> maximum < 4294967296
     \<Longrightarrow> rd_bytes_max maximum (rd pre (u32_to_be (word_of_nat (length bs)) @ bs @ ys))
       = Inr (bs, rd (pre @ u32_to_be (word_of_nat (length bs)) @ bs) ys)"
  by (simp add: rd_bytes_max_def parse_simps unat_count)

lemma rd_bytes_max_dest [parse_dests]:
  "rd_bytes_max maximum (rd pre zs) = Inr (bs, r)
     \<Longrightarrow> \<exists>ys. zs = u32_to_be (word_of_nat (length bs)) @ bs @ ys \<and> length bs \<le> maximum
       \<and> r = rd (pre @ u32_to_be (word_of_nat (length bs)) @ bs) ys"
  by (auto simp: rd_bytes_max_def parser_iffs dest!: parse_dests)

definition frame_component_ok :: "str \<Rightarrow> bool" where
  "frame_component_ok c \<longleftrightarrow> c \<noteq> [] \<and> c \<noteq> ascii ''.'' \<and> c \<noteq> ascii ''..''
     \<and> length c \<le> MAX_MANIFEST_V2_COMPONENT_BYTES
     \<and> (\<forall>ch \<in> set (chars c). \<not> is_control ch \<and> ch \<noteq> 0x2F \<and> ch \<noteq> 0x5C)"

lemma frame_validate_component_iff [simp]:
  "frame_validate_component c = Inr bs \<longleftrightarrow> frame_component_ok c \<and> bs = []"
  by (auto simp: frame_validate_component_def frame_component_ok_def)

lemma push_component_iff [simp]:
  "push_component c = Inr bs \<longleftrightarrow> frame_component_ok c \<and> bs = push_bytes c"
  by (auto simp: push_component_def push_bytes_def frame_component_ok_def manifest_limits)

lemma rd_component_append [parse_simps]:
  assumes "utf8_valid c" and "frame_component_ok c"
  shows "rd_component (rd pre (push_bytes c @ ys)) = Inr (c, rd (pre @ push_bytes c) ys)"
proof -
  have valid: "frame_validate_component c = Inr []" "from_utf8 c = Some c"
    "length c \<le> MAX_MANIFEST_V2_COMPONENT_BYTES"
    using assms by (simp_all add: frame_component_ok_def)
  show ?thesis
    by (simp add: rd_component_def push_bytes_def parse_simps valid)
qed

lemma rd_component_dest [parse_dests]:
  "rd_component (rd pre zs) = Inr (c, r) \<Longrightarrow> \<exists>ys. zs = push_bytes c @ ys \<and> utf8_valid c
     \<and> frame_component_ok c \<and> r = rd (pre @ push_bytes c) ys"
  by (auto simp: rd_component_def push_bytes_def parser_iffs dest!: parse_dests)

text \<open>Optional fields: a codec of the value gives one of the option.\<close>

definition opt_all :: "('a \<Rightarrow> bool) \<Rightarrow> 'a option \<Rightarrow> bool" where
  "opt_all P v \<longleftrightarrow> (case v of None \<Rightarrow> True | Some x \<Rightarrow> P x)"

lemma opt_all_simps [simp]: "opt_all P None" "opt_all P (Some x) \<longleftrightarrow> P x"
  by (simp_all add: opt_all_def)

definition enc_optional :: "('a \<Rightarrow> 'f + bytes) \<Rightarrow> 'a option \<Rightarrow> 'f + bytes" where
  "enc_optional enc v = (case v of None \<Rightarrow> Inr [0] | Some x \<Rightarrow> catR [Inr [1], enc x])"

lemma codec_optional:
  assumes "codec enc dec ok"
  shows "codec (enc_optional enc) (rd_optional dec) (opt_all ok)"
proof
  fix v xs pre ys
  assume "enc_optional enc v = Inr xs" and "opt_all ok v"
  then show "rd_optional dec (rd pre (xs @ ys)) = Inr (v, rd (pre @ xs) ys)"
    using codec.dec_enc [OF assms]
    by (auto simp: enc_optional_def rd_optional_def parse_simps split: option.splits)
next
  fix pre zs v r
  assume "rd_optional dec (rd pre zs) = Inr (v, r)"
  then show "\<exists>xs ys. zs = xs @ ys \<and> enc_optional enc v = Inr xs \<and> opt_all ok v \<and> r = rd (pre @ xs) ys"
    by (auto simp: enc_optional_def rd_optional_def parser_iffs split: if_splits
        dest!: parse_dests codec.enc_dec [OF assms])
qed

lemma push_optional_digest_enc: "Inr (push_optional_digest v) = enc_optional Inr v"
  by (simp add: push_optional_digest_def enc_optional_def catR.simps split: option.splits)

lemma push_optional_u32_enc: "Inr (push_optional_u32 v) = enc_optional (\<lambda>w. Inr (u32_to_be w)) v"
  by (simp add: push_optional_u32_def enc_optional_def catR.simps split: option.splits)

abbreviation digest32 :: "bytes \<Rightarrow> bool" where
  "digest32 d \<equiv> length d = DIGEST_BYTES"

abbreviation small_id :: "u32 \<Rightarrow> bool" where
  "small_id w \<equiv> unat w < MAX_MANIFEST_V2_ENTRIES"

interpretation digest_field: codec Inr rd_digest digest32
  by unfold_locales (auto simp: parse_simps dest!: parse_dests)

interpretation entry_id_field: codec "\<lambda>w. Inr (u32_to_be w)" rd_entry_id small_id
  by unfold_locales (auto simp: parse_simps dest!: parse_dests)

interpretation component_field: codec push_component rd_component utf8_valid
  by unfold_locales (auto simp: parse_simps dest!: parse_dests)

interpretation optional_digest_field: codec "\<lambda>v. Inr (push_optional_digest v)" rd_optional_digest "opt_all digest32"
  unfolding push_optional_digest_enc rd_optional_digest_def by (rule codec_optional) unfold_locales

interpretation optional_u32_field: codec "\<lambda>v. Inr (push_optional_u32 v)" rd_optional_u32 "opt_all small_id"
  unfolding push_optional_u32_enc rd_optional_u32_def by (rule codec_optional) unfold_locales

interpretation optional_component_field:
  codec "enc_optional push_component" "rd_optional rd_component" "opt_all utf8_valid"
  by (rule codec_optional) unfold_locales

lemmas wire_field_simps [parse_simps] =
  optional_digest_field.dec_enc [OF refl] optional_u32_field.dec_enc [OF refl]
  optional_component_field.dec_enc

lemmas wire_field_dests [parse_dests] =
  optional_digest_field.enc_dec optional_u32_field.enc_dec optional_component_field.enc_dec

section \<open>Payloads\<close>

text \<open>
  Both laws of each payload follow the same way: unfold the two functions and rewrite with the
  laws of the fields.
\<close>

definition entry_result_wf :: "EntryResultV2 \<Rightarrow> bool" where
  "entry_result_wf v \<longleftrightarrow> identity_wf (er_identity v) \<and> opt_all digest32 (er_final_digest v)
     \<and> opt_all utf8_valid (er_final_component_override v)"

lemma encode_entry_result_body_alt:
  "encode_entry_result_body v = catR
     [push_identity (er_identity v), checked_entry_id (er_entry_id v),
      Inr (u32_to_be (er_entry_id v)), Inr [result_u8 (er_result v)],
      Inr (u64_to_be (er_final_size v)), Inr (push_optional_digest (er_final_digest v)),
      enc_optional push_component (er_final_component_override v)]"
  by (simp add: encode_entry_result_body_def enc_optional_def split: option.splits)

interpretation entry_result_wire: codec encode_entry_result_body rd_entry_result entry_result_wf
proof
  fix v xs pre ys
  assume "encode_entry_result_body v = Inr xs" and "entry_result_wf v"
  then show "rd_entry_result (rd pre (xs @ ys)) = Inr (v, rd (pre @ xs) ys)"
    by (auto simp: encode_entry_result_body_alt rd_entry_result_def entry_result_wf_def parse_simps)
next
  fix pre zs v r
  assume "rd_entry_result (rd pre zs) = Inr (v, r)"
  then show "\<exists>xs ys. zs = xs @ ys \<and> encode_entry_result_body v = Inr xs \<and> entry_result_wf v
      \<and> r = rd (pre @ xs) ys"
    by (auto simp: encode_entry_result_body_alt rd_entry_result_def entry_result_wf_def parser_iffs
        dest!: parse_dests)
qed

interpretation optional_result_field:
  codec "enc_optional encode_entry_result_body" "rd_optional rd_entry_result" "opt_all entry_result_wf"
  by (rule codec_optional) unfold_locales

interpretation root_plans_wire:
  indexed_codec encode_root_plan decode_root_plan "\<lambda>_ p. utf8_valid (rp_planned_name p)"
  by unfold_locales
    (auto simp: encode_root_plan_def decode_root_plan_def parse_simps parser_iffs dest!: parse_dests)

interpretation entry_plans_wire: indexed_codec encode_entry_plan decode_entry_plan "\<lambda>_ _. True"
  by unfold_locales
    (auto simp: encode_entry_plan_def decode_entry_plan_def parse_simps parser_iffs dest!: parse_dests)

lemmas plans_simps [parse_simps] = root_plans_wire.all_dec_enc entry_plans_wire.all_dec_enc

lemmas plans_dests [parse_dests] = root_plans_wire.all_enc_dec entry_plans_wire.all_enc_dec

definition accept_wf :: "ManifestAcceptV2 \<Rightarrow> bool" where
  "accept_wf v \<longleftrightarrow> identity_wf (ac_identity v) \<and> digest32 (ac_manifest_digest v)
     \<and> length (ac_accept_nonce v) = NONCE_BYTES \<and> digest32 (ac_proof_capability v)
     \<and> (\<forall>p \<in> set (ac_root_plans v). utf8_valid (rp_planned_name p))"

definition entry_start_wf :: "EntryStartV2 \<Rightarrow> bool" where
  "entry_start_wf v \<longleftrightarrow> identity_wf (es_identity v)"

definition content_digest_wf :: "EntryContentDigestFrameV2 \<Rightarrow> bool" where
  "content_digest_wf v \<longleftrightarrow> identity_wf (cd_identity v) \<and> digest32 (cd_digest v)"

definition entry_block_wf :: "EntryBlockV2 \<Rightarrow> bool" where
  "entry_block_wf v \<longleftrightarrow> identity_wf (bl_identity v)"

definition entry_complete_wf :: "EntryCompleteV2 \<Rightarrow> bool" where
  "entry_complete_wf v \<longleftrightarrow> identity_wf (co_identity v) \<and> digest32 (co_final_digest v)"

definition job_complete_wf :: "JobCompleteV2 \<Rightarrow> bool" where
  "job_complete_wf v \<longleftrightarrow> identity_wf (jc_identity v) \<and> digest32 (jc_sender_completion_set_digest v)"

definition delivery_proof_wf :: "DeliveryProofV2 \<Rightarrow> bool" where
  "delivery_proof_wf v \<longleftrightarrow> identity_wf (dp_identity v) \<and> digest32 (dp_manifest_digest v)
     \<and> digest32 (dp_result_set_digest v) \<and> length (dp_proof_nonce v) = NONCE_BYTES
     \<and> digest32 (dp_proof_mac v)"

interpretation accept_wire: codec encode_accept decode_accept accept_wf
proof
  fix v xs pre ys
  assume "encode_accept v = Inr xs" and "accept_wf v"
  then show "decode_accept (rd pre (xs @ ys)) = Inr (v, rd (pre @ xs) ys)"
    by (auto simp: encode_accept_def decode_accept_def accept_wf_def parse_simps)
next
  fix pre zs v r
  assume "decode_accept (rd pre zs) = Inr (v, r)"
  then show "\<exists>xs ys. zs = xs @ ys \<and> encode_accept v = Inr xs \<and> accept_wf v \<and> r = rd (pre @ xs) ys"
    by (auto simp: encode_accept_def decode_accept_def accept_wf_def parser_iffs dest!: parse_dests)
qed

interpretation entry_start_wire: codec encode_entry_start decode_entry_start entry_start_wf
proof
  fix v xs pre ys
  assume "encode_entry_start v = Inr xs" and "entry_start_wf v"
  then show "decode_entry_start (rd pre (xs @ ys)) = Inr (v, rd (pre @ xs) ys)"
    by (auto simp: encode_entry_start_def decode_entry_start_def entry_start_wf_def parse_simps)
next
  fix pre zs v r
  assume "decode_entry_start (rd pre zs) = Inr (v, r)"
  then show "\<exists>xs ys. zs = xs @ ys \<and> encode_entry_start v = Inr xs \<and> entry_start_wf v \<and> r = rd (pre @ xs) ys"
    by (auto simp: encode_entry_start_def decode_entry_start_def entry_start_wf_def parser_iffs dest!: parse_dests)
qed

interpretation content_digest_wire: codec encode_entry_content_digest decode_entry_content_digest content_digest_wf
proof
  fix v xs pre ys
  assume "encode_entry_content_digest v = Inr xs" and "content_digest_wf v"
  then show "decode_entry_content_digest (rd pre (xs @ ys)) = Inr (v, rd (pre @ xs) ys)"
    by (auto simp: encode_entry_content_digest_def decode_entry_content_digest_def content_digest_wf_def parse_simps)
next
  fix pre zs v r
  assume "decode_entry_content_digest (rd pre zs) = Inr (v, r)"
  then show "\<exists>xs ys. zs = xs @ ys \<and> encode_entry_content_digest v = Inr xs \<and> content_digest_wf v \<and> r = rd (pre @ xs) ys"
    by (auto simp: encode_entry_content_digest_def decode_entry_content_digest_def content_digest_wf_def parser_iffs dest!: parse_dests)
qed

interpretation entry_block_wire: codec encode_entry_block decode_entry_block entry_block_wf
proof
  fix v xs pre ys
  assume "encode_entry_block v = Inr xs" and "entry_block_wf v"
  then show "decode_entry_block (rd pre (xs @ ys)) = Inr (v, rd (pre @ xs) ys)"
    by (auto simp: encode_entry_block_def decode_entry_block_def entry_block_wf_def parse_simps)
next
  fix pre zs v r
  assume "decode_entry_block (rd pre zs) = Inr (v, r)"
  then show "\<exists>xs ys. zs = xs @ ys \<and> encode_entry_block v = Inr xs \<and> entry_block_wf v \<and> r = rd (pre @ xs) ys"
    by (auto simp: encode_entry_block_def decode_entry_block_def entry_block_wf_def parser_iffs
        dest!: parse_dests intro: le_less_trans [OF _ limits_fit_u32(4)])
qed

interpretation entry_complete_wire: codec encode_entry_complete decode_entry_complete entry_complete_wf
proof
  fix v xs pre ys
  assume "encode_entry_complete v = Inr xs" and "entry_complete_wf v"
  then show "decode_entry_complete (rd pre (xs @ ys)) = Inr (v, rd (pre @ xs) ys)"
    by (auto simp: encode_entry_complete_def decode_entry_complete_def entry_complete_wf_def parse_simps)
next
  fix pre zs v r
  assume "decode_entry_complete (rd pre zs) = Inr (v, r)"
  then show "\<exists>xs ys. zs = xs @ ys \<and> encode_entry_complete v = Inr xs \<and> entry_complete_wf v \<and> r = rd (pre @ xs) ys"
    by (auto simp: encode_entry_complete_def decode_entry_complete_def entry_complete_wf_def parser_iffs dest!: parse_dests)
qed

interpretation job_complete_wire: codec encode_job_complete decode_job_complete job_complete_wf
proof
  fix v xs pre ys
  assume "encode_job_complete v = Inr xs" and "job_complete_wf v"
  then show "decode_job_complete (rd pre (xs @ ys)) = Inr (v, rd (pre @ xs) ys)"
    by (auto simp: encode_job_complete_def decode_job_complete_def job_complete_wf_def parse_simps)
next
  fix pre zs v r
  assume "decode_job_complete (rd pre zs) = Inr (v, r)"
  then show "\<exists>xs ys. zs = xs @ ys \<and> encode_job_complete v = Inr xs \<and> job_complete_wf v \<and> r = rd (pre @ xs) ys"
    by (auto simp: encode_job_complete_def decode_job_complete_def job_complete_wf_def parser_iffs dest!: parse_dests)
qed

interpretation delivery_proof_wire: codec encode_delivery_proof decode_delivery_proof delivery_proof_wf
proof
  fix v xs pre ys
  assume "encode_delivery_proof v = Inr xs" and "delivery_proof_wf v"
  then show "decode_delivery_proof (rd pre (xs @ ys)) = Inr (v, rd (pre @ xs) ys)"
    by (auto simp: encode_delivery_proof_def decode_delivery_proof_def delivery_proof_wf_def parse_simps)
next
  fix pre zs v r
  assume "decode_delivery_proof (rd pre zs) = Inr (v, r)"
  then show "\<exists>xs ys. zs = xs @ ys \<and> encode_delivery_proof v = Inr xs \<and> delivery_proof_wf v \<and> r = rd (pre @ xs) ys"
    by (auto simp: encode_delivery_proof_def decode_delivery_proof_def delivery_proof_wf_def parser_iffs dest!: parse_dests)
qed

text \<open>
  \<open>Cancel\<close> and \<open>Error\<close>: the encoder writes any entry id, the decoder accepts only ids below the
  entry limit, so the contract holds for those.
\<close>

definition cancel_wf :: "CancelV2 \<Rightarrow> bool" where
  "cancel_wf v \<longleftrightarrow> identity_wf (ca_identity v) \<and> opt_all small_id (ca_entry_id v)"

definition error_wf :: "ManifestErrorV2 \<Rightarrow> bool" where
  "error_wf v \<longleftrightarrow> identity_wf (fe_identity v) \<and> opt_all small_id (fe_entry_id v)"

interpretation cancel_wire: codec encode_cancel decode_cancel cancel_wf
proof
  fix v xs pre ys
  assume "encode_cancel v = Inr xs" and "cancel_wf v"
  then show "decode_cancel (rd pre (xs @ ys)) = Inr (v, rd (pre @ xs) ys)"
    by (auto simp: encode_cancel_def decode_cancel_def cancel_wf_def parse_simps)
next
  fix pre zs v r
  assume "decode_cancel (rd pre zs) = Inr (v, r)"
  then show "\<exists>xs ys. zs = xs @ ys \<and> encode_cancel v = Inr xs \<and> cancel_wf v \<and> r = rd (pre @ xs) ys"
    by (auto simp: encode_cancel_def decode_cancel_def cancel_wf_def parser_iffs dest!: parse_dests)
qed

interpretation error_wire: codec encode_error decode_error error_wf
proof
  fix v xs pre ys
  assume "encode_error v = Inr xs" and "error_wf v"
  then show "decode_error (rd pre (xs @ ys)) = Inr (v, rd (pre @ xs) ys)"
    by (auto simp: encode_error_def decode_error_def error_wf_def parse_simps)
next
  fix pre zs v r
  assume "decode_error (rd pre zs) = Inr (v, r)"
  then show "\<exists>xs ys. zs = xs @ ys \<and> encode_error v = Inr xs \<and> error_wf v \<and> r = rd (pre @ xs) ys"
    by (auto simp: encode_error_def decode_error_def error_wf_def parser_iffs dest!: parse_dests)
qed

text \<open>
  \<open>ResumeStatus\<close>: the decoder demands that a nested result belongs to the frame's job and to its
  entry; the encoder does not look.
\<close>

definition resume_entry_wf :: "JobGenerationV2 \<Rightarrow> ResumeEntryV2 \<Rightarrow> bool" where
  "resume_entry_wf i e \<longleftrightarrow> opt_all digest32 (re_content_digest e)
     \<and> opt_all (\<lambda>r. entry_result_wf r \<and> er_identity r = i \<and> er_entry_id r = re_entry_id e) (re_entry_result e)"

lemma encode_resume_entry_alt:
  "encode_resume_entry index entry = catR
     [checkR (re_entry_id entry \<noteq> word_of_nat index) InvalidEntryId,
      Inr (u32_to_be (re_entry_id entry)), Inr [arbiter_u8 (re_arbiter entry)],
      Inr (u64_to_be (re_next_plaintext_block entry)),
      Inr (push_optional_digest (re_content_digest entry)),
      enc_optional encode_entry_result_body (re_entry_result entry)]"
  by (simp add: encode_resume_entry_def enc_optional_def split: option.splits)

lemmas optional_result_simps [parse_simps] = optional_result_field.dec_enc

lemmas optional_result_dests [parse_dests] = optional_result_field.enc_dec

lemma resume_entry_codec:
  "codec (encode_resume_entry index) (decode_resume_entry i index)
     (\<lambda>e. small_id (re_entry_id e) \<and> resume_entry_wf i e)"
proof
  fix e xs pre ys
  assume enc: "encode_resume_entry index e = Inr xs"
    and ok: "small_id (re_entry_id e) \<and> resume_entry_wf i e"
  show "decode_resume_entry i index (rd pre (xs @ ys)) = Inr (e, rd (pre @ xs) ys)"
    using enc ok
    by (cases "re_entry_result e")
      (auto simp: encode_resume_entry_alt decode_resume_entry_def resume_entry_wf_def parse_simps)
next
  fix pre zs e r
  assume "decode_resume_entry i index (rd pre zs) = Inr (e, r)"
  then show "\<exists>xs ys. zs = xs @ ys \<and> encode_resume_entry index e = Inr xs
      \<and> (small_id (re_entry_id e) \<and> resume_entry_wf i e) \<and> r = rd (pre @ xs) ys"
    by (auto simp: encode_resume_entry_alt decode_resume_entry_def resume_entry_wf_def parser_iffs
        opt_all_def split: option.splits dest!: parse_dests)
qed

interpretation resume_entries_wire: indexed_codec encode_resume_entry "decode_resume_entry i"
  "\<lambda>_ e. small_id (re_entry_id e) \<and> resume_entry_wf i e"
  by unfold_locales (rule codec.dec_enc codec.enc_dec, rule resume_entry_codec, assumption+)+

definition resume_status_wf :: "ResumeStatusV2 \<Rightarrow> bool" where
  "resume_status_wf v \<longleftrightarrow> identity_wf (rs_identity v) \<and> digest32 (rs_accept_body_digest v)
     \<and> length (rs_challenge_nonce v) = NONCE_BYTES \<and> digest32 (rs_challenge_mac v)
     \<and> (\<forall>e \<in> set (rs_entries v). resume_entry_wf (rs_identity v) e)"

text \<open>Entry ids equal to positions below the limit are small.\<close>

lemma resume_ids_small:
  assumes "enc_all encode_resume_entry 0 es = Inr bs" and "length es \<le> MAX_MANIFEST_V2_ENTRIES"
  shows "\<forall>e \<in> set es. small_id (re_entry_id e)"
proof
  fix e
  assume "e \<in> set es"
  then obtain j where j: "j < length es" "e = es ! j"
    by (auto simp: in_set_conv_nth)
  with enc_all_items [OF assms(1) j(1)] have "re_entry_id e = word_of_nat j"
    by (auto simp: encode_resume_entry_def)
  moreover have "unat (word_of_nat j :: u32) = j"
    using j(1) assms(2) by (intro unat_count [of _ MAX_MANIFEST_V2_ENTRIES]) simp_all
  ultimately show "small_id (re_entry_id e)"
    using j(1) assms(2) by simp
qed

interpretation resume_status_wire: codec encode_resume_status decode_resume_status resume_status_wf
proof
  fix v xs pre ys
  assume "encode_resume_status v = Inr xs" and "resume_status_wf v"
  then show "decode_resume_status (rd pre (xs @ ys)) = Inr (v, rd (pre @ xs) ys)"
    by (auto simp: encode_resume_status_def decode_resume_status_def resume_status_wf_def parse_simps
        resume_entries_wire.all_dec_enc resume_ids_small)
next
  fix pre zs v r
  assume "decode_resume_status (rd pre zs) = Inr (v, r)"
  then show "\<exists>xs ys. zs = xs @ ys \<and> encode_resume_status v = Inr xs \<and> resume_status_wf v
      \<and> r = rd (pre @ xs) ys"
    by (auto simp: encode_resume_status_def decode_resume_status_def resume_status_wf_def parser_iffs
        dest!: parse_dests resume_entries_wire.all_enc_dec)
qed

section \<open>Offers in frames\<close>

definition offer_wf :: "ManifestOfferV2 \<Rightarrow> bool" where
  "offer_wf o1 \<longleftrightarrow> manifest_wf (of_manifest o1) \<and> digest32 (of_structural_digest o1)"

lemma encode_offer_iff:
  "encode_offer hash nfc offer = Inr bs \<longleftrightarrow>
     encode_manifest_offer_v2 hash nfc (of_manifest offer) = Inr bs
     \<and> of_structural_digest offer = hash (encode_manifest_body (of_manifest offer))"
  by (auto simp: encode_offer_def build_manifest_offer_v2_def encode_offer_Inr_iff validate_Inr_iff)

lemma decode_offer_iff:
  "decode_manifest_offer_v2 hash nfc bs = Inr offer \<longleftrightarrow> encode_offer hash nfc offer = Inr bs \<and> offer_wf offer"
proof
  assume d: "decode_manifest_offer_v2 hash nfc bs = Inr offer"
  note parts = decode_offer_dest [OF d]
  then have "length bs = OFFER_HEADER_BYTES + DIGEST_BYTES + length (encode_manifest_body (of_manifest offer))"
    using length_offer_bytes [of hash "of_manifest offer"] by simp
  then show "encode_offer hash nfc offer = Inr bs \<and> offer_wf offer"
    using parts by (auto simp: encode_offer_iff encode_offer_Inr_iff offer_wf_def)
next
  assume e: "encode_offer hash nfc offer = Inr bs \<and> offer_wf offer"
  then have "decode_manifest_offer_v2 hash nfc (offer_bytes hash (of_manifest offer))
      = Inr \<lparr>of_structural_digest = hash (encode_manifest_body (of_manifest offer)), of_manifest = of_manifest offer\<rparr>"
    by (intro decode_offer_bytes) (auto simp: encode_offer_iff encode_offer_Inr_iff offer_wf_def)
  then show "decode_manifest_offer_v2 hash nfc bs = Inr offer"
    using e by (auto simp: encode_offer_iff encode_offer_Inr_iff)
qed

lemma encode_offer_length:
  "encode_offer hash nfc offer = Inr bs \<Longrightarrow> offer_wf offer \<Longrightarrow> length bs \<le> MAX_MANIFEST_V2_ENCODED_BYTES"
  using decode_offer_dest [of hash nfc bs offer] by (auto simp: decode_offer_iff)

definition resume_request_wf :: "ResumeRequestV2 \<Rightarrow> bool" where
  "resume_request_wf v \<longleftrightarrow> identity_wf (rr_identity v) \<and> offer_wf (rr_offer v)
     \<and> digest32 (rr_accept_body_digest v) \<and> digest32 (rr_sender_checkpoint_digest v)
     \<and> length (rr_challenge_nonce v) = NONCE_BYTES"

lemma push_encoded_offer_iff [simp]:
  "push_encoded_offer bs = Inr xs \<longleftrightarrow> length bs < 4294967296 \<and> xs = push_bytes bs"
  by (auto simp: push_encoded_offer_def push_bytes_def)

interpretation resume_request_wire:
  codec "encode_resume_request hash nfc" "decode_resume_request hash nfc" resume_request_wf
proof
  fix v xs pre ys
  assume enc: "encode_resume_request hash nfc v = Inr xs" and wf: "resume_request_wf v"
  then obtain bs where bs: "encode_offer hash nfc (rr_offer v) = Inr bs"
    by (auto simp: encode_resume_request_def)
  then have "decode_manifest_offer_v2 hash nfc bs = Inr (rr_offer v)"
    and "length bs \<le> MAX_MANIFEST_V2_ENCODED_BYTES"
    using wf encode_offer_length by (auto simp: decode_offer_iff resume_request_wf_def)
  with enc wf bs show "decode_resume_request hash nfc (rd pre (xs @ ys)) = Inr (v, rd (pre @ xs) ys)"
    by (auto simp: encode_resume_request_def decode_resume_request_def resume_request_wf_def
        push_bytes_def parse_simps)
next
  fix pre zs v r
  assume "decode_resume_request hash nfc (rd pre zs) = Inr (v, r)"
  then show "\<exists>xs ys. zs = xs @ ys \<and> encode_resume_request hash nfc v = Inr xs \<and> resume_request_wf v
      \<and> r = rd (pre @ xs) ys"
    by (auto simp: encode_resume_request_def decode_resume_request_def resume_request_wf_def
        push_bytes_def parser_iffs decode_offer_iff dest!: parse_dests
        intro: le_less_trans [OF _ limits_fit_u32(5)])
qed

section \<open>Frames\<close>

text \<open>
  The frames a decoder can return: the facts of the Rust types and, for \<open>Cancel\<close>, \<open>Error\<close> and the
  results nested in \<open>ResumeStatus\<close>, the conditions only the decoder checks.
\<close>

definition frame_wf :: "ManifestV2Frame \<Rightarrow> bool" where
  "frame_wf frame =
     (case frame of
        F_Offer v \<Rightarrow> offer_wf v
      | F_Accept v \<Rightarrow> accept_wf v
      | F_EntryStart v \<Rightarrow> entry_start_wf v
      | F_EntryContentDigest v \<Rightarrow> content_digest_wf v
      | F_EntryBlock v \<Rightarrow> entry_block_wf v
      | F_EntryComplete v \<Rightarrow> entry_complete_wf v
      | F_EntryResult v \<Rightarrow> entry_result_wf v
      | F_JobComplete v \<Rightarrow> job_complete_wf v
      | F_DeliveryProof v \<Rightarrow> delivery_proof_wf v
      | F_ResumeRequest v \<Rightarrow> resume_request_wf v
      | F_ResumeStatus v \<Rightarrow> resume_status_wf v
      | F_Cancel v \<Rightarrow> cancel_wf v
      | F_Error v \<Rightarrow> error_wf v)"

lemma tagged_Inr_iff [simp]: "tagged t m = Inr (p, t') \<longleftrightarrow> m = Inr p \<and> t' = t"
  by (auto simp: tagged_def)

lemma mapP_Inr_iff: "mapP f p r = Inr (y, r') \<longleftrightarrow> (\<exists>x. p r = Inr (x, r') \<and> y = f x)"
  by (auto simp: mapP_def parser_iffs)

lemmas payload_dec_encs =
  accept_wire.dec_enc entry_start_wire.dec_enc content_digest_wire.dec_enc entry_block_wire.dec_enc
  entry_complete_wire.dec_enc entry_result_wire.dec_enc job_complete_wire.dec_enc
  delivery_proof_wire.dec_enc resume_request_wire.dec_enc resume_status_wire.dec_enc
  cancel_wire.dec_enc error_wire.dec_enc

lemmas payload_enc_decs =
  accept_wire.enc_dec entry_start_wire.enc_dec content_digest_wire.enc_dec entry_block_wire.enc_dec
  entry_complete_wire.enc_dec entry_result_wire.enc_dec job_complete_wire.enc_dec
  delivery_proof_wire.enc_dec resume_request_wire.enc_dec resume_status_wire.enc_dec
  cancel_wire.enc_dec error_wire.enc_dec

lemma payload_dec_enc:
  "encode_payload hash nfc f = Inr (p, t) \<Longrightarrow> frame_wf f
     \<Longrightarrow> decode_payload hash nfc t (rd pre (p @ ys)) = Inr (f, rd (pre @ p) ys)"
  by (cases f) (auto simp: encode_payload_def decode_payload_def frame_wf_def mapP_Inr_iff payload_dec_encs)

lemma payload_enc_dec:
  "decode_payload hash nfc t (rd pre zs) = Inr (f, r)
     \<Longrightarrow> \<exists>p ys. zs = p @ ys \<and> encode_payload hash nfc f = Inr (p, t) \<and> frame_wf f \<and> r = rd (pre @ p) ys"
  by (cases t) (auto simp: encode_payload_def decode_payload_def frame_wf_def mapP_Inr_iff
      dest!: payload_enc_decs)

lemma length_frame_header [simp]: "length (frame_header t n) = HEADER_BYTES"
  by (simp add: frame_header_def HEADER_BYTES_def)

lemma parse_header_append:
  "n < 2 ^ 32 \<Longrightarrow> parse_header (frame_header t n @ p) = Inr \<lparr>hd_frame_type = t, hd_payload_length = n\<rparr>"
  using unat_word_of_nat_small [of n, where 'a = 32]
  by (simp add: parse_header_def frame_header_def Let_def HEADER_BYTES_def frame_type_iff)

lemma parse_header_dest:
  assumes "parse_header bs = Inr h"
  shows "\<exists>p. bs = frame_header (hd_frame_type h) (hd_payload_length h) @ p \<and> hd_payload_length h < 2 ^ 32"
proof -
  let ?h = "take 12 bs"
  from assms have len: "\<not> length bs < 12" and magic: "take 4 ?h = OFFER_MAGIC"
    and version: "u16_from_be (take 2 (drop 4 ?h)) = MANIFEST_V2_PROTOCOL_VERSION"
    and ty: "u16_from_be (take 2 (drop 6 ?h)) = frame_type_u16 (hd_frame_type h)"
    and n: "hd_payload_length h = unat (u32_from_be (take 4 (drop 8 ?h)))"
    by (auto simp: parse_header_def HEADER_BYTES_def Let_def split: if_splits)
  have "take 2 (drop 4 ?h) = u16_to_be MANIFEST_V2_PROTOCOL_VERSION"
    "take 2 (drop 6 ?h) = u16_to_be (frame_type_u16 (hd_frame_type h))"
    "take 4 (drop 8 ?h) = u32_to_be (word_of_nat (hd_payload_length h))"
    using len by (simp_all add: version [symmetric] ty [symmetric] n to_be_from_be)
  moreover have "?h = take 4 ?h @ take 2 (drop 4 ?h) @ take 2 (drop 6 ?h) @ take 4 (drop 8 ?h)"
    using take_add [of 4 "2 + (2 + 4)" ?h] take_add [of 2 "2 + 4" "drop 4 ?h"]
      take_add [of 2 4 "drop 6 ?h"] by simp
  ultimately have "?h = frame_header (hd_frame_type h) (hd_payload_length h)"
    unfolding frame_header_def using magic by metis
  then show ?thesis
    using n unat_bound [of "u32_from_be (take 4 (drop 8 ?h))"]
    by (metis append_take_drop_id LENGTH32)
qed

text \<open>A frame that is not an offer is its header and its payload.\<close>

lemma encode_frame_iff:
  "(\<forall>offer. f \<noteq> F_Offer offer) \<Longrightarrow> encode_manifest_v2_frame hash nfc f = Inr bs \<longleftrightarrow>
     (\<exists>p t maximum. encode_payload hash nfc f = Inr (p, t) \<and> maximum_payload_bytes t = Inr maximum
        \<and> length p \<le> maximum \<and> length p < 2 ^ 32 \<and> bs = frame_header t (length p) @ p)"
  by (cases f) (auto simp: encode_manifest_v2_frame_def)

lemma encode_payload_type: "encode_payload hash nfc f = Inr (p, t) \<Longrightarrow> t \<noteq> T_Offer \<and> (\<forall>offer. f \<noteq> F_Offer offer)"
  by (cases f) (auto simp: encode_payload_def)

lemma offer_is_frame:
  "encode_offer hash nfc offer = Inr bs \<Longrightarrow> offer_wf offer
     \<Longrightarrow> \<exists>p. bs = frame_header T_Offer (length p) @ p \<and> length p \<le> MAX_CONTROL_FRAME_BYTES - HEADER_BYTES"
proof -
  assume enc: "encode_offer hash nfc offer = Inr bs" and wf: "offer_wf offer"
  let ?body = "encode_manifest_body (of_manifest offer)"
  have "bs = frame_header T_Offer (length (hash ?body @ ?body)) @ (hash ?body @ ?body)"
    using enc wf by (auto simp: encode_offer_iff encode_offer_Inr_iff offer_bytes_def offer_wf_def
        frame_header_def OFFER_FRAME_TYPE_def frame_type_u16_def)
  moreover have "length bs \<le> MAX_MANIFEST_V2_ENCODED_BYTES"
    by (rule encode_offer_length [OF enc wf])
  ultimately show ?thesis
    by (intro exI [of _ "hash ?body @ ?body"]) (auto simp: MAX_CONTROL_FRAME_BYTES_def)
qed

lemma rd_finish_iff [simp]: "rd_finish (rd pre post) = Inr (u, r) \<longleftrightarrow> post = [] \<and> r = rd pre post"
  by (auto simp: rd_finish_def rejectP_Inr_iff) (auto simp: rd_def)

lemma control_limit_u32: "MAX_CONTROL_FRAME_BYTES - HEADER_BYTES < 2 ^ 32"
  by (simp add: frame_limits manifest_limits)

lemma decode_frame_encode:
  assumes enc: "encode_manifest_v2_frame hash nfc f = Inr bs" and wf: "frame_wf f"
  shows "decode_manifest_v2_frame hash nfc bs = Inr f"
proof (cases "\<exists>offer. f = F_Offer offer")
  case True
  then obtain offer where f: "f = F_Offer offer" by blast
  then have o1: "encode_offer hash nfc offer = Inr bs" "offer_wf offer"
    using enc wf by (simp_all add: encode_manifest_v2_frame_def frame_wf_def)
  from offer_is_frame [OF o1] obtain p where p: "bs = frame_header T_Offer (length p) @ p"
    and "length p \<le> MAX_CONTROL_FRAME_BYTES - HEADER_BYTES"
    by blast
  then have small: "length p < 2 ^ 32"
    using control_limit_u32 by linarith
  have "decode_manifest_offer_v2 hash nfc bs = Inr offer"
    using o1 by (simp add: decode_offer_iff)
  then show ?thesis
    using parse_header_append [OF small, of T_Offer p]
    by (simp add: decode_manifest_v2_frame_def f p [symmetric]) (simp add: p)
next
  case False
  then obtain p t maximum where p: "encode_payload hash nfc f = Inr (p, t)"
    "maximum_payload_bytes t = Inr maximum" "length p \<le> maximum" "length p < 2 ^ 32"
    and bs: "bs = frame_header t (length p) @ p"
    using enc by (auto simp: encode_frame_iff)
  have "decode_payload hash nfc t (rd [] p) = Inr (f, rd p [])"
    using payload_dec_enc [OF p(1) wf, of "[]" "[]"] by simp
  moreover have "rd_finish (rd p []) = Inr ((), rd p [])"
    by simp
  ultimately show ?thesis
    using p encode_payload_type [OF p(1)]
    by (simp add: decode_manifest_v2_frame_def bs parse_header_append reader_new_rd)
qed

lemma encode_frame_decode:
  assumes "decode_manifest_v2_frame hash nfc bs = Inr f"
  shows "encode_manifest_v2_frame hash nfc f = Inr bs \<and> frame_wf f"
proof -
  from assms obtain h where h: "parse_header bs = Inr h" and len: "length bs = HEADER_BYTES + hd_payload_length h"
    by (auto simp: decode_manifest_v2_frame_def)
  from parse_header_dest [OF h] obtain p where bs: "bs = frame_header (hd_frame_type h) (hd_payload_length h) @ p"
    and small: "hd_payload_length h < 2 ^ 32"
    by blast
  have n: "hd_payload_length h = length p"
    using len bs by simp
  show ?thesis
  proof (cases "hd_frame_type h = T_Offer")
    case True
    then show ?thesis
      using assms h len
      by (auto simp: decode_manifest_v2_frame_def decode_offer_iff encode_manifest_v2_frame_def frame_wf_def)
  next
    case False
    then obtain maximum r where max: "maximum_payload_bytes (hd_frame_type h) = Inr maximum"
      "length p \<le> maximum"
      and d: "decode_payload hash nfc (hd_frame_type h) (rd [] p) = Inr (f, r)"
      and fin: "rd_finish r = Inr ((), r)"
      using assms h len n
      by (auto simp: decode_manifest_v2_frame_def bs reader_new_rd parser_iffs)
        (auto simp: rd_finish_def parser_iffs)
    from payload_enc_dec [OF d] obtain q ys where q: "p = q @ ys" "encode_payload hash nfc f = Inr (q, hd_frame_type h)"
      "frame_wf f" "r = rd q ys"
      by auto
    then have "ys = []"
      using fin by simp
    then show ?thesis
      using q max small n bs encode_payload_type [OF q(2)] by (auto simp: encode_frame_iff)
  qed
qed

lemma decode_frame_iff:
  "decode_manifest_v2_frame hash nfc bs = Inr f \<longleftrightarrow> encode_manifest_v2_frame hash nfc f = Inr bs \<and> frame_wf f"
  using decode_frame_encode encode_frame_decode by blast

section \<open>Streams\<close>

lemma maximum_payload_total: "\<exists>maximum. maximum_payload_bytes t = Inr maximum \<and> maximum < 2 ^ 32"
  by (cases t) (simp_all add: maximum_payload_bytes_def frame_limits manifest_limits)

text \<open>Every encoded frame is a header and a payload within the limit of its type.\<close>

lemma encode_frame_shape:
  assumes "encode_manifest_v2_frame hash nfc f = Inr bs" and "frame_wf f"
  shows "\<exists>t p maximum. bs = frame_header t (length p) @ p \<and> maximum_payload_bytes t = Inr maximum
    \<and> length p \<le> maximum \<and> length p < 2 ^ 32"
proof (cases "\<exists>offer. f = F_Offer offer")
  case True
  then obtain offer where "encode_offer hash nfc offer = Inr bs" "offer_wf offer"
    using assms by (auto simp: encode_manifest_v2_frame_def frame_wf_def)
  from offer_is_frame [OF this] obtain p where "bs = frame_header T_Offer (length p) @ p"
    "length p \<le> MAX_CONTROL_FRAME_BYTES - HEADER_BYTES" by blast
  moreover have "maximum_payload_bytes T_Offer = Inr (MAX_CONTROL_FRAME_BYTES - HEADER_BYTES)"
    by (simp add: maximum_payload_bytes_def)
  ultimately show ?thesis
    using control_limit_u32
    by (intro exI [of _ T_Offer] exI [of _ p] exI [of _ "MAX_CONTROL_FRAME_BYTES - HEADER_BYTES"]) simp
next
  case False
  then show ?thesis
    using assms(1) by (auto simp: encode_frame_iff)
qed

lemma stream_read_exact_iff [simp]:
  "stream_read_exact n s = Inr (xs, s') \<longleftrightarrow> s = xs @ s' \<and> length xs = n"
  by (auto simp: stream_read_exact_def)

lemma read_frame_iff:
  "read_manifest_v2_frame hash nfc s = Inr (f, s')
     \<longleftrightarrow> (\<exists>bs. s = bs @ s' \<and> encode_manifest_v2_frame hash nfc f = Inr bs \<and> frame_wf f)"
proof
  assume "read_manifest_v2_frame hash nfc s = Inr (f, s')"
  then show "\<exists>bs. s = bs @ s' \<and> encode_manifest_v2_frame hash nfc f = Inr bs \<and> frame_wf f"
    by (auto simp: read_manifest_v2_frame_def decode_frame_iff)
next
  assume "\<exists>bs. s = bs @ s' \<and> encode_manifest_v2_frame hash nfc f = Inr bs \<and> frame_wf f"
  then obtain bs where bs: "s = bs @ s'" "encode_manifest_v2_frame hash nfc f = Inr bs" "frame_wf f" by blast
  from encode_frame_shape [OF bs(2,3)] obtain t p maximum where
    p: "bs = frame_header t (length p) @ p" "maximum_payload_bytes t = Inr maximum"
      "length p \<le> maximum" "length p < 2 ^ 32" by blast
  have reads: "stream_read_exact HEADER_BYTES s = Inr (frame_header t (length p), p @ s')"
    "stream_read_exact (length p) (p @ s') = Inr (p, s')"
    by (simp_all add: bs(1) p(1))
  have whole: "decode_manifest_v2_frame hash nfc (frame_header t (length p) @ p) = Inr f"
    using bs(2,3) p(1) by (simp add: decode_frame_iff)
  have header: "parse_header (frame_header t (length p)) = Inr \<lparr>hd_frame_type = t, hd_payload_length = length p\<rparr>"
    using parse_header_append [OF p(4), of t "[]"] by simp
  show "read_manifest_v2_frame hash nfc s = Inr (f, s')"
    using p(3) by (simp add: read_manifest_v2_frame_def reads header p(2) whole del: bindR_Inr_iff)
qed

text \<open>Frames written one after the other, and a reader that reads that many.\<close>

fun write_frames ::
  "(bytes \<Rightarrow> bytes) \<Rightarrow> (str \<Rightarrow> bool) \<Rightarrow> bytes \<Rightarrow> ManifestV2Frame list \<Rightarrow> payload" where
  "write_frames hash nfc s [] = Inr s"
| "write_frames hash nfc s (f # fs) =
     bindR (write_manifest_v2_frame hash nfc s f) (\<lambda>s. write_frames hash nfc s fs)"

fun read_frames ::
  "(bytes \<Rightarrow> bytes) \<Rightarrow> (str \<Rightarrow> bool) \<Rightarrow> nat \<Rightarrow> bytes
     \<Rightarrow> ManifestV2FrameCodecError + ManifestV2Frame list \<times> bytes" where
  "read_frames hash nfc 0 s = Inr ([], s)"
| "read_frames hash nfc (Suc n) s =
     bindR (read_manifest_v2_frame hash nfc s) (\<lambda>(f, s).
     bindR (read_frames hash nfc n s) (\<lambda>(fs, s). Inr (f # fs, s)))"

lemma write_frames_split:
  "write_frames hash nfc s fs = Inr s' \<Longrightarrow> \<exists>bs. s' = s @ bs \<and> write_frames hash nfc [] fs = Inr bs"
proof (induction fs arbitrary: s s')
  case Nil
  then show ?case by simp
next
  case (Cons f fs)
  then obtain b where b: "encode_manifest_v2_frame hash nfc f = Inr b"
    and rest: "write_frames hash nfc (s @ b) fs = Inr s'"
    by (auto simp: write_manifest_v2_frame_def)
  from Cons.IH [OF rest] obtain bs where bs: "s' = (s @ b) @ bs" "write_frames hash nfc [] fs = Inr bs" by blast
  have "\<exists>bs'. write_frames hash nfc b fs = Inr bs'"
    using rest
  proof (induction fs arbitrary: s b s')
    case (Cons g gs)
    then obtain c where "encode_manifest_v2_frame hash nfc g = Inr c"
      "write_frames hash nfc (s @ b @ c) gs = Inr s'"
      by (auto simp: write_manifest_v2_frame_def)
    with Cons.IH [of s "b @ c" s'] show ?case
      by (auto simp: write_manifest_v2_frame_def)
  qed simp
  then obtain bs' where bs': "write_frames hash nfc b fs = Inr bs'" by blast
  with Cons.IH [OF bs'] bs have "bs' = b @ bs" by auto
  with b bs bs' show ?case
    by (auto simp: write_manifest_v2_frame_def)
qed

lemma read_written_frames:
  "write_frames hash nfc [] fs = Inr bs \<Longrightarrow> \<forall>f \<in> set fs. frame_wf f
     \<Longrightarrow> read_frames hash nfc (length fs) (bs @ s) = Inr (fs, s)"
proof (induction fs arbitrary: bs)
  case Nil
  then show ?case by simp
next
  case (Cons f fs)
  then obtain b where b: "encode_manifest_v2_frame hash nfc f = Inr b"
    and rest: "write_frames hash nfc b fs = Inr bs"
    by (auto simp: write_manifest_v2_frame_def)
  from write_frames_split [OF rest] obtain cs where cs: "bs = b @ cs" "write_frames hash nfc [] fs = Inr cs" by blast
  have "read_manifest_v2_frame hash nfc (b @ cs @ s) = Inr (f, cs @ s)"
    using b Cons.prems(2) by (auto simp: read_frame_iff)
  then show ?case
    using Cons.IH [OF cs(2)] Cons.prems(2) by (simp add: cs(1))
qed

end
