(* ===== verification/Frames_Properties.thy ===== *)
theory Frames_Properties
  imports Frames_Codec Manifest_Properties
begin

text \<open>
  The properties of the data-plane frames: exact wire form, streams, sizes, and two places where
  the encoder accepts what the decoder refuses.
\<close>

section \<open>Sizes\<close>

lemma enc_all_length:
  assumes "enc_all enc i xs = Inr bs"
    and "\<And>j x b. x \<in> set xs \<Longrightarrow> enc j x = Inr b \<Longrightarrow> length b \<le> k"
  shows "length bs \<le> k * length xs"
  using assms
proof (induction xs arbitrary: i bs)
  case Nil
  then show ?case by simp
next
  case (Cons x xs)
  then obtain b bs' where b: "enc i x = Inr b" and bs': "enc_all enc (Suc i) xs = Inr bs'" and bs: "bs = b @ bs'"
    by auto
  have "length b \<le> k"
    by (rule Cons.prems(2) [OF _ b]) simp
  moreover have "length bs' \<le> k * length xs"
    using Cons.prems(2) by (intro Cons.IH [OF bs']) auto
  ultimately show ?case
    by (simp add: bs)
qed

lemma length_identity_bytes: "identity_wf i \<Longrightarrow> length (identity_bytes i) = 20"
  by (simp add: identity_wf_def identity_bytes_def JOB_ID_BYTES_def)

lemma length_push_component: "frame_component_ok c \<Longrightarrow> length (push_bytes c) \<le> 259"
  by (simp add: frame_component_ok_def push_bytes_def manifest_limits)

lemma length_optional_digest: "opt_all digest32 v \<Longrightarrow> length (push_optional_digest v) \<le> 33"
  by (cases v) (simp_all add: push_optional_digest_def DIGEST_BYTES_def)

lemma length_entry_result:
  "encode_entry_result_body v = Inr bs \<Longrightarrow> entry_result_wf v \<Longrightarrow> length bs \<le> 326"
  using length_identity_bytes [of "er_identity v"] length_optional_digest [of "er_final_digest v"]
  by (cases "er_final_component_override v")
    (auto simp: encode_entry_result_body_def entry_result_wf_def dest!: length_push_component)

lemma length_accept:
  assumes "encode_accept v = Inr bs" and "accept_wf v"
  shows "length bs \<le> 500000"
proof -
  from assms obtain roots entries where
    roots: "enc_all encode_root_plan 0 (ac_root_plans v) = Inr roots" "length (ac_root_plans v) \<le> MAX_MANIFEST_V2_ROOTS"
    and entries: "enc_all encode_entry_plan 0 (ac_entry_plans v) = Inr entries" "length (ac_entry_plans v) \<le> MAX_MANIFEST_V2_ENTRIES"
    and bs: "length bs = 20 + 32 + 32 + 32 + 4 + 4 + length roots + 4 + length entries"
    by (auto simp: encode_accept_def accept_wf_def length_identity_bytes frame_limits)
  have "length roots \<le> 263 * length (ac_root_plans v)"
    by (rule enc_all_length [OF roots(1)]) (auto simp: encode_root_plan_def dest!: length_push_component)
  moreover have "length entries \<le> 13 * length (ac_entry_plans v)"
    by (rule enc_all_length [OF entries(1)]) (auto simp: encode_entry_plan_def)
  ultimately show ?thesis
    using bs roots(2) entries(2) by (simp add: manifest_limits)
qed

text \<open>
  What the Rust types say of a frame: digests, nonces and job ids have their fixed length, strings are
  UTF-8. Every value the encoder can be given is typed; \<open>frame_wf\<close> is narrower in three places where the
  decoder checks more than the encoder.
\<close>

definition resume_entry_typed :: "ResumeEntryV2 \<Rightarrow> bool" where
  "resume_entry_typed e \<longleftrightarrow> opt_all digest32 (re_content_digest e) \<and> opt_all entry_result_wf (re_entry_result e)"

definition resume_status_typed :: "ResumeStatusV2 \<Rightarrow> bool" where
  "resume_status_typed v \<longleftrightarrow> identity_wf (rs_identity v) \<and> digest32 (rs_accept_body_digest v)
     \<and> length (rs_challenge_nonce v) = NONCE_BYTES \<and> digest32 (rs_challenge_mac v)
     \<and> (\<forall>e \<in> set (rs_entries v). resume_entry_typed e)"

definition frame_typed :: "ManifestV2Frame \<Rightarrow> bool" where
  "frame_typed frame =
     (case frame of
        F_ResumeStatus v \<Rightarrow> resume_status_typed v
      | F_Cancel v \<Rightarrow> identity_wf (ca_identity v)
      | F_Error v \<Rightarrow> identity_wf (fe_identity v)
      | _ \<Rightarrow> frame_wf frame)"

lemma opt_all_mono: "opt_all P v \<Longrightarrow> (\<And>x. P x \<Longrightarrow> Q x) \<Longrightarrow> opt_all Q v"
  by (cases v) simp_all

lemma frame_wf_typed: "frame_wf f \<Longrightarrow> frame_typed f"
  by (cases f) (auto simp: frame_wf_def frame_typed_def resume_status_wf_def resume_status_typed_def cancel_wf_def
      error_wf_def resume_entry_wf_def resume_entry_typed_def intro: opt_all_mono)

lemma length_resume_entry:
  "encode_resume_entry index e = Inr bs \<Longrightarrow> resume_entry_typed e \<Longrightarrow> length bs \<le> 373"
  using length_optional_digest [of "re_content_digest e"]
  by (cases "re_entry_result e")
    (auto simp: encode_resume_entry_def resume_entry_typed_def dest!: length_entry_result)

lemma length_resume_status:
  assumes "encode_resume_status v = Inr bs" and "resume_status_typed v"
  shows "length bs \<le> 3800000"
proof -
  from assms obtain entries where
    entries: "enc_all encode_resume_entry 0 (rs_entries v) = Inr entries" "length (rs_entries v) \<le> MAX_MANIFEST_V2_ENTRIES"
    and bs: "length bs = 20 + 32 + 4 + 4 + length entries + 32 + 32"
    by (auto simp: encode_resume_status_def resume_status_typed_def length_identity_bytes frame_limits)
  have "length entries \<le> 373 * length (rs_entries v)"
    using assms(2) by (intro enc_all_length [OF entries(1)])
      (auto simp: resume_status_typed_def dest: length_resume_entry)
  then show ?thesis
    using bs entries(2) by (simp add: manifest_limits)
qed

lemma length_resume_request:
  assumes "encode_resume_request hash nfc v = Inr bs" and "resume_request_wf v"
  shows "length bs \<le> RESUME_REQUEST_FIXED_PAYLOAD_BYTES + MAX_MANIFEST_V2_ENCODED_BYTES"
  using assms encode_offer_length [of hash nfc "rr_offer v"]
  by (auto simp: encode_resume_request_def resume_request_wf_def length_identity_bytes push_bytes_def
      frame_limits)

lemma length_optional_u32: "length (push_optional_u32 v) \<le> 5"
  by (cases v) (simp_all add: push_optional_u32_def)

lemma typed_payload_fits:
  assumes enc: "encode_payload hash nfc f = Inr (p, t)" and wf: "frame_typed f"
  shows "\<exists>maximum. maximum_payload_bytes t = Inr maximum \<and> length p \<le> maximum"
proof (cases f)
  case (F_Accept v)
  then show ?thesis
    using enc wf length_accept [of v p]
    by (auto simp: encode_payload_def frame_typed_def frame_wf_def maximum_payload_bytes_def frame_limits manifest_limits)
next
  case (F_EntryResult v)
  then show ?thesis
    using enc wf length_entry_result [of v p]
    by (auto simp: encode_payload_def frame_typed_def frame_wf_def maximum_payload_bytes_def frame_limits manifest_limits)
next
  case (F_ResumeRequest v)
  then show ?thesis
    using enc wf length_resume_request [of hash nfc v p]
    by (auto simp: encode_payload_def frame_typed_def frame_wf_def maximum_payload_bytes_def frame_limits manifest_limits)
next
  case (F_ResumeStatus v)
  then show ?thesis
    using enc wf length_resume_status [of v p]
    by (auto simp: encode_payload_def frame_typed_def frame_wf_def maximum_payload_bytes_def frame_limits manifest_limits)
next
  case (F_EntryBlock v)
  then show ?thesis
    using enc wf
    by (auto simp: encode_payload_def frame_typed_def frame_wf_def maximum_payload_bytes_def encode_entry_block_def
        entry_block_wf_def length_identity_bytes frame_limits manifest_limits)
next
  case (F_Cancel v)
  then show ?thesis
    using enc wf length_optional_u32 [of "ca_entry_id v"]
    by (auto simp: encode_payload_def frame_typed_def frame_wf_def maximum_payload_bytes_def encode_cancel_def
        length_identity_bytes frame_limits manifest_limits)
next
  case (F_Error v)
  then show ?thesis
    using enc wf length_optional_u32 [of "fe_entry_id v"]
    by (auto simp: encode_payload_def frame_typed_def frame_wf_def maximum_payload_bytes_def encode_error_def
        length_identity_bytes frame_limits manifest_limits)
qed (use enc wf in \<open>auto simp: encode_payload_def frame_typed_def frame_wf_def maximum_payload_bytes_def
    encode_entry_start_def entry_start_wf_def encode_entry_content_digest_def content_digest_wf_def
    encode_entry_complete_def entry_complete_wf_def encode_job_complete_def job_complete_wf_def
    encode_delivery_proof_def delivery_proof_wf_def length_identity_bytes frame_limits manifest_limits\<close>)

lemma payload_fits:
  "encode_payload hash nfc f = Inr (p, t) \<Longrightarrow> frame_wf f
     \<Longrightarrow> \<exists>maximum. maximum_payload_bytes t = Inr maximum \<and> length p \<le> maximum"
  by (rule typed_payload_fits [OF _ frame_wf_typed])

section \<open>Samples\<close>

definition zero_hash :: "bytes \<Rightarrow> bytes" where
  "zero_hash bs = replicate 32 0"

definition any_nfc :: "str \<Rightarrow> bool" where
  "any_nfc s = True"

definition sample_identity :: JobGenerationV2 where
  "sample_identity = \<lparr>jg_job_id = replicate 16 7, jg_generation = 1\<rparr>"

definition sample_block :: EntryBlockV2 where
  "sample_block = \<lparr>bl_identity = sample_identity, bl_entry_id = 1, bl_block_index = 0,
     bl_plaintext_offset = 0, bl_plaintext_length = 300, bl_encoded_bytes = [1, 2, 3]\<rparr>"

definition sample_result :: EntryResultV2 where
  "sample_result = \<lparr>er_identity = sample_identity, er_entry_id = 1, er_result = Res_Saved,
     er_final_size = 300, er_final_digest = Some (replicate 32 5),
     er_final_component_override = Some (ascii ''a (1)'')\<rparr>"

lemma sample_identity_ok [simp]: "identity_ok sample_identity" "identity_wf sample_identity"
  by (simp_all add: identity_ok_def identity_wf_def sample_identity_def JOB_ID_BYTES_def)

lemma sample_frames_wf: "frame_wf (F_EntryBlock sample_block)" "frame_wf (F_EntryResult sample_result)"
  by (simp_all add: frame_wf_def entry_block_wf_def sample_block_def entry_result_wf_def
      sample_result_def DIGEST_BYTES_def utf8_valid_def ascii_def of_char_def)

lemma sample_frames_payload:
  "\<exists>p. encode_payload hash nfc (F_EntryBlock sample_block) = Inr (p, T_EntryBlock)"
  "\<exists>p. encode_payload hash nfc (F_EntryResult sample_result) = Inr (p, T_EntryResult)"
  by (simp_all add: encode_payload_def encode_entry_block_def sample_block_def encode_entry_result_body_def
      sample_result_def frame_component_ok_def manifest_limits ascii_def of_char_def chars_def is_control_def)

definition sample_cancel :: CancelV2 where
  "sample_cancel = \<lparr>ca_identity = sample_identity, ca_scope = Scope_Entry, ca_entry_id = Some 10000,
     ca_failure_code = 0\<rparr>"

definition sample_status :: ResumeStatusV2 where
  "sample_status = \<lparr>rs_identity = sample_identity, rs_accept_body_digest = replicate 32 1,
     rs_plan_revision = 1,
     rs_entries = [\<lparr>re_entry_id = 0, re_arbiter = Arb_PayloadOpen, re_next_plaintext_block = 0,
       re_content_digest = None, re_entry_result = Some sample_result\<rparr>],
     rs_challenge_nonce = replicate 32 1, rs_challenge_mac = replicate 32 2\<rparr>"

section \<open>The wire form\<close>

text \<open>
  C5: bytes decode to a frame exactly when they are what the encoder writes for that frame, and the
  frame is one the decoder can return (\<open>frame_wf\<close>: array lengths, UTF-8 names, entry ids of
  \<open>Cancel\<close> and \<open>Error\<close> below the limit, nested results of \<open>ResumeStatus\<close> that belong to their
  entry). So each of the thirteen frames round-trips and has one accepted byte form.
\<close>

theorem frame_wire_exact:
  "decode_manifest_v2_frame hash nfc bs = Inr f
     \<longleftrightarrow> encode_manifest_v2_frame hash nfc f = Inr bs \<and> frame_wf f"
  by (rule decode_frame_iff)

text \<open>
  Frames written to a stream one after the other are read back in order, and the reader is left
  exactly at the bytes that follow.
\<close>

theorem stream_reads_back:
  assumes "write_frames hash nfc [] fs = Inr bs" and "\<forall>f \<in> set fs. frame_wf f"
  shows "read_frames hash nfc (length fs) (bs @ rest) = Inr (fs, rest)"
  using assms by (rule read_written_frames)

lemma sample_frames_written:
  "\<exists>bs. write_frames hash nfc [] [F_EntryBlock sample_block, F_EntryResult sample_result] = Inr bs"
proof -
  obtain p q where p: "encode_payload hash nfc (F_EntryBlock sample_block) = Inr (p, T_EntryBlock)"
    and q: "encode_payload hash nfc (F_EntryResult sample_result) = Inr (q, T_EntryResult)"
    using sample_frames_payload by blast
  have "\<exists>b. encode_manifest_v2_frame hash nfc (F_EntryBlock sample_block) = Inr b"
    "\<exists>b. encode_manifest_v2_frame hash nfc (F_EntryResult sample_result) = Inr b"
    using payload_fits [OF p] payload_fits [OF q] sample_frames_wf p q
      maximum_payload_total [of T_EntryBlock] maximum_payload_total [of T_EntryResult]
    by (fastforce simp: encode_frame_iff)+
  then show ?thesis
    by (auto simp: write_manifest_v2_frame_def)
qed

theorem stream_reads_back_witness:
  "\<exists>bs. read_frames zero_hash any_nfc 2 (bs @ [9]) = Inr ([F_EntryBlock sample_block, F_EntryResult sample_result], [9])"
proof -
  obtain bs where "write_frames zero_hash any_nfc [] [F_EntryBlock sample_block, F_EntryResult sample_result] = Inr bs"
    using sample_frames_written by blast
  from stream_reads_back [OF this, of "[9]"] show ?thesis
    using sample_frames_wf by (auto simp: numeral_2_eq_2)
qed

text \<open>
  C39: the size limits never reject a frame whose payload encodes: for every frame type the field
  limits already keep the payload within \<open>maximum_payload_bytes\<close>, so a receiver that enforces the
  limit before it allocates accepts every frame an honest sender can write. All that is asked of the frame
  are the facts of its Rust types (lengths of the byte arrays, strings are UTF-8): it need not be one a
  decoder accepts.
\<close>

theorem size_limit_never_rejects:
  assumes "encode_payload hash nfc f = Inr (p, t)" and "frame_typed f"
  shows "encode_manifest_v2_frame hash nfc f = Inr (frame_header t (length p) @ p)"
proof -
  obtain maximum where "maximum_payload_bytes t = Inr maximum" "length p \<le> maximum" "maximum < 2 ^ 32"
    using typed_payload_fits [OF assms] maximum_payload_total [of t] by auto
  then show ?thesis
    using assms(1) encode_payload_type [OF assms(1)] by (auto simp: encode_frame_iff)
qed

text \<open>A block, and a \<open>Cancel\<close> of an entry id no decoder accepts.\<close>

theorem size_limit_never_rejects_witness:
  "(\<exists>p. encode_manifest_v2_frame zero_hash any_nfc (F_EntryBlock sample_block) = Inr (frame_header T_EntryBlock (length p) @ p))
   \<and> (\<exists>p. encode_manifest_v2_frame zero_hash any_nfc
        (F_Cancel \<lparr>ca_identity = sample_identity, ca_scope = Scope_Entry, ca_entry_id = Some 20000, ca_failure_code = 1\<rparr>)
        = Inr (frame_header T_Cancel (length p) @ p))"
proof
  obtain p where "encode_payload zero_hash any_nfc (F_EntryBlock sample_block) = Inr (p, T_EntryBlock)"
    using sample_frames_payload by blast
  from size_limit_never_rejects [OF this frame_wf_typed [OF sample_frames_wf(1)]]
  show "\<exists>p. encode_manifest_v2_frame zero_hash any_nfc (F_EntryBlock sample_block) = Inr (frame_header T_EntryBlock (length p) @ p)"
    by blast
  let ?cancel = "\<lparr>ca_identity = sample_identity, ca_scope = Scope_Entry, ca_entry_id = Some 20000, ca_failure_code = 1\<rparr>"
  have "\<exists>q. encode_payload zero_hash any_nfc (F_Cancel ?cancel) = Inr (q, T_Cancel)" and "frame_typed (F_Cancel ?cancel)"
    by (simp_all add: encode_payload_def encode_cancel_def identity_ok_def frame_typed_def sample_identity_def identity_wf_def JOB_ID_BYTES_def)
  then show "\<exists>p. encode_manifest_v2_frame zero_hash any_nfc (F_Cancel ?cancel) = Inr (frame_header T_Cancel (length p) @ p)"
    using size_limit_never_rejects by blast
qed

text \<open>
  Reading one frame from a stream consumes exactly the bytes of that frame, at most the 12 bytes
  of the header and 16 MiB, 64 KiB and 48 bytes of payload, whatever the peer sends.
\<close>

theorem read_frame_bounded:
  assumes "read_manifest_v2_frame hash nfc s = Inr (f, rest)"
  shows "\<exists>bs. s = bs @ rest \<and> encode_manifest_v2_frame hash nfc f = Inr bs
    \<and> length bs \<le> 12 + (16 * 1024 * 1024 + 64 * 1024 + 48)"
proof -
  from assms obtain bs where bs: "s = bs @ rest" "encode_manifest_v2_frame hash nfc f = Inr bs" "frame_wf f"
    by (auto simp: read_frame_iff)
  from encode_frame_shape [OF bs(2,3)] obtain t p maximum where
    "bs = frame_header t (length p) @ p" "maximum_payload_bytes t = Inr maximum" "length p \<le> maximum"
    by blast
  then have "length bs \<le> 12 + (16 * 1024 * 1024 + 64 * 1024 + 48)"
    by (cases t) (auto simp: maximum_payload_bytes_def frame_limits manifest_limits)
  with bs show ?thesis by blast
qed

theorem read_frame_bounded_witness:
  "\<exists>s. read_manifest_v2_frame zero_hash any_nfc s = Inr (F_EntryBlock sample_block, []) \<and> length s \<le> 16842812"
proof -
  obtain p where "encode_payload zero_hash any_nfc (F_EntryBlock sample_block) = Inr (p, T_EntryBlock)"
    using sample_frames_payload by blast
  then have "\<exists>b. encode_manifest_v2_frame zero_hash any_nfc (F_EntryBlock sample_block) = Inr b"
    using payload_fits sample_frames_wf maximum_payload_total [of T_EntryBlock]
    by (fastforce simp: encode_frame_iff)
  then obtain s where s: "read_manifest_v2_frame zero_hash any_nfc s = Inr (F_EntryBlock sample_block, [])"
    using sample_frames_wf by (auto simp: read_frame_iff)
  from read_frame_bounded [OF s] s show ?thesis by auto
qed

section \<open>Where encoder and decoder differ\<close>

lemma rd_entry_id_rejects:
  "unat w \<ge> MAX_MANIFEST_V2_ENTRIES \<Longrightarrow> rd_entry_id (rd pre (u32_to_be w @ ys)) = Inl InvalidEntryId"
  by (simp add: rd_entry_id_def checked_entry_id_def checkR_def parse_simps)

lemma decode_frame_payload_error:
  assumes "maximum_payload_bytes t = Inr maximum" and "length p \<le> maximum" and "t \<noteq> T_Offer"
    and "decode_payload hash nfc t (rd [] p) = Inl e"
  shows "decode_manifest_v2_frame hash nfc (frame_header t (length p) @ p) = Inl e"
proof -
  have "length p < 2 ^ 32"
    using assms(1,2) maximum_payload_total [of t] by auto
  then show ?thesis
    using assms by (simp add: decode_manifest_v2_frame_def parse_header_append reader_new_rd)
qed

text \<open>
  The encoder of \<open>Cancel\<close> does not check the entry id, the decoder does: for an id outside the
  entry limit the encoder writes a frame that every receiver rejects with \<open>InvalidEntryId\<close>.
\<close>

theorem cancel_encoder_accepts_bad_id:
  assumes "identity_ok (ca_identity v)" and "identity_wf (ca_identity v)"
    and "ca_scope v = Scope_Entry" and "ca_entry_id v = Some w" and "unat w \<ge> MAX_MANIFEST_V2_ENTRIES"
  shows "\<exists>bs. encode_manifest_v2_frame hash nfc (F_Cancel v) = Inr bs
    \<and> decode_manifest_v2_frame hash nfc bs = Inl InvalidEntryId"
proof -
  let ?p = "identity_bytes (ca_identity v) @ [scope_u8 Scope_Entry] @ [1] @ u32_to_be w
    @ u32_to_be (ca_failure_code v)"
  have size: "maximum_payload_bytes T_Cancel = Inr (MAX_CONTROL_FRAME_BYTES - HEADER_BYTES)"
    "length ?p \<le> MAX_CONTROL_FRAME_BYTES - HEADER_BYTES"
    using assms(2) by (simp_all add: maximum_payload_bytes_def length_identity_bytes frame_limits manifest_limits)
  have "encode_payload hash nfc (F_Cancel v) = Inr (?p, T_Cancel)"
    using assms by (simp add: encode_payload_def encode_cancel_def push_optional_u32_def)
  then have "encode_manifest_v2_frame hash nfc (F_Cancel v) = Inr (frame_header T_Cancel (length ?p) @ ?p)"
    using size control_limit_u32 by (auto simp: encode_frame_iff)
  moreover have "decode_payload hash nfc T_Cancel (rd [] ?p) = Inl InvalidEntryId"
    using assms by (simp add: decode_payload_def mapP_def decode_cancel_def rd_optional_u32_def
        rd_optional_def rd_entry_id_rejects parse_simps)
  ultimately show ?thesis
    using decode_frame_payload_error [OF size] by blast
qed

theorem cancel_encoder_accepts_bad_id_witness:
  "\<exists>bs. encode_manifest_v2_frame zero_hash any_nfc (F_Cancel sample_cancel) = Inr bs
    \<and> decode_manifest_v2_frame zero_hash any_nfc bs = Inl InvalidEntryId"
  by (rule cancel_encoder_accepts_bad_id [where w = 10000]) (simp_all add: sample_cancel_def manifest_limits)

lemma decode_resume_entry_foreign:
  assumes "encode_resume_entry index e = Inr b" and "small_id (re_entry_id e)"
    and "re_entry_result e = Some res" and "entry_result_wf res" and "opt_all digest32 (re_content_digest e)"
    and "er_identity res \<noteq> i \<or> er_entry_id res \<noteq> re_entry_id e"
  shows "decode_resume_entry i index (rd pre (b @ ys)) = Inl InvalidIdentity"
proof -
  have optional_ok: "opt_all entry_result_wf (Some res)"
    using assms(4) by simp
  have reject: "(er_identity res \<noteq> i \<or> er_entry_id res \<noteq> re_entry_id e) = True"
    using assms(6) by simp
  show ?thesis
    using assms(1,2,3,5) optional_ok reject
    by (auto simp: encode_resume_entry_alt decode_resume_entry_def parse_simps)
qed

text \<open>
  The encoder of \<open>ResumeStatus\<close> does not compare a nested entry result with its job and entry, the
  decoder does: a status whose first result belongs to another job or entry is written, and every
  receiver rejects it with \<open>InvalidIdentity\<close>.
\<close>

theorem status_encoder_accepts_foreign_result:
  assumes "encode_resume_status v = Inr p" and "length p \<le> 4 * 1024 * 1024 - 12"
    and "identity_wf (rs_identity v)" and "digest32 (rs_accept_body_digest v)"
    and "rs_entries v = e # es" and "re_entry_result e = Some res" and "entry_result_wf res"
    and "opt_all digest32 (re_content_digest e)"
    and "er_identity res \<noteq> rs_identity v \<or> er_entry_id res \<noteq> re_entry_id e"
  shows "encode_manifest_v2_frame hash nfc (F_ResumeStatus v) = Inr (frame_header T_ResumeStatus (length p) @ p)
    \<and> decode_manifest_v2_frame hash nfc (frame_header T_ResumeStatus (length p) @ p) = Inl InvalidIdentity"
proof -
  have size: "maximum_payload_bytes T_ResumeStatus = Inr (4 * 1024 * 1024 - 12)"
    by (simp add: maximum_payload_bytes_def frame_limits manifest_limits)
  have enc: "encode_manifest_v2_frame hash nfc (F_ResumeStatus v) = Inr (frame_header T_ResumeStatus (length p) @ p)"
    using assms(1,2) size by (auto simp: encode_frame_iff encode_payload_def)
  from assms(1,5) obtain b bs where b: "encode_resume_entry 0 e = Inr b" "re_entry_id e = 0"
    and ok: "identity_ok (rs_identity v)" "Suc (length es) \<le> MAX_MANIFEST_V2_ENTRIES"
    and p: "p = identity_bytes (rs_identity v) @ rs_accept_body_digest v @ u32_to_be (rs_plan_revision v)
        @ u32_to_be (word_of_nat (Suc (length es))) @ b @ bs"
    by (auto simp: encode_resume_status_def encode_resume_entry_def)
  have "decode_resume_entry (rs_identity v) 0 (rd pre (b @ ys)) = Inl InvalidIdentity" for pre ys
    by (rule decode_resume_entry_foreign [OF b(1) _ assms(6-9)]) (simp add: b(2) manifest_limits)
  then have "decode_resume_status (rd [] p) = Inl InvalidIdentity"
    unfolding p decode_resume_status_def using assms(3,4) ok
    by (simp add: parse_simps del: of_nat_Suc)
  then have "decode_payload hash nfc T_ResumeStatus (rd [] p) = Inl InvalidIdentity"
    by (simp add: decode_payload_def mapP_def)
  then show ?thesis
    using enc decode_frame_payload_error [OF size assms(2)] by simp
qed

theorem status_encoder_accepts_foreign_result_witness:
  "\<exists>bs. encode_manifest_v2_frame zero_hash any_nfc (F_ResumeStatus sample_status) = Inr bs
    \<and> decode_manifest_v2_frame zero_hash any_nfc bs = Inl InvalidIdentity"
proof -
  obtain q where q: "encode_entry_result_body sample_result = Inr q" "length q \<le> 326"
    using sample_frames_payload(2) length_entry_result sample_frames_wf(2)
    by (auto simp: encode_payload_def frame_wf_def)
  then obtain p where p: "encode_resume_status sample_status = Inr p" "length p \<le> 4 * 1024 * 1024 - 12"
    by (auto simp: encode_resume_status_def sample_status_def encode_resume_entry_def push_optional_digest_def push_count_def
        length_identity_bytes frame_limits manifest_limits)
  show ?thesis
    by (rule exI, rule status_encoder_accepts_foreign_result [OF p, of "hd (rs_entries sample_status)" "[]" sample_result])
      (use sample_frames_wf(2) in \<open>simp_all add: sample_status_def sample_result_def frame_wf_def DIGEST_BYTES_def\<close>)
qed

end
