(* ===== verification/Auth_Envelope.thy ===== *)
theory Auth_Envelope
  imports Reader
begin

text \<open>
  \<open>crates/envoix-protocol/src/lib.rs\<close>: the envelope of the authentication messages. The
  errors are \<open>CoreError::Protocol\<close> with a text; \<open>AuthError\<close> has one constructor per text, and
  \<open>AuthIo\<close> for the end of the stream.
\<close>

datatype PeerRole = Sender | Receiver

record Spake2Start =
  st_protocol_version :: u32
  st_role :: PeerRole
  st_nonce :: bytes
  st_message :: bytes
  st_remember_consent :: bool

record Spake2Message =
  ms_nonce :: bytes
  ms_message :: bytes
  ms_remember_consent :: bool

record Spake2Confirm =
  cf_proof :: bytes
  cf_remember_contribution :: "bytes option"

datatype AuthFrame =
    Auth_Start Spake2Start
  | Auth_Message Spake2Message
  | Auth_Confirm Spake2Confirm

datatype AuthError =
    AuthIo | AuthBadMagic
  | AuthUnsupportedVersion u16
  | AuthUnknownEnvelope u8
  | AuthInvalidHeader | AuthTooLarge
  | AuthUnknownType u8
  | AuthUnknownRole u8
  | AuthInvalidBool u8
  | AuthFieldTooLong | AuthTruncated | AuthTrailingBytes

definition AUTH_MAGIC :: bytes where
  "AUTH_MAGIC = ascii ''ENVA''"

definition AUTH_WIRE_VERSION :: u16 where
  "AUTH_WIRE_VERSION = 2"

definition AUTH_HEADER_BYTES :: nat where
  "AUTH_HEADER_BYTES = 12"

definition MAX_AUTH_FRAME_BYTES :: nat where
  "MAX_AUTH_FRAME_BYTES = 64 * 1024"

section \<open>Encoder\<close>

definition role_u8 :: "PeerRole \<Rightarrow> u8" where
  "role_u8 r = (case r of Sender \<Rightarrow> 1 | Receiver \<Rightarrow> 2)"

definition bool_u8 :: "bool \<Rightarrow> u8" where
  "bool_u8 b = (if b then 1 else 0)"

definition write_bytes :: "bytes \<Rightarrow> AuthError + bytes" where
  "write_bytes v =
     bindR (rejectR (\<not> length v < 2 ^ 32) AuthFieldTooLong) (\<lambda>_.
     Inr (u32_to_be (word_of_nat (length v)) @ v))"

definition encode_auth_frame :: "AuthFrame \<Rightarrow> AuthError + bytes" where
  "encode_auth_frame frame =
     (case frame of
        Auth_Start s \<Rightarrow>
          bindR (write_bytes (st_nonce s)) (\<lambda>nonce.
          bindR (write_bytes (st_message s)) (\<lambda>msg.
          Inr ([1] @ u32_to_be (st_protocol_version s) @ [role_u8 (st_role s)] @ nonce @ msg
               @ [bool_u8 (st_remember_consent s)])))
      | Auth_Message m \<Rightarrow>
          bindR (write_bytes (ms_nonce m)) (\<lambda>nonce.
          bindR (write_bytes (ms_message m)) (\<lambda>msg.
          Inr ([2] @ nonce @ msg @ [bool_u8 (ms_remember_consent m)])))
      | Auth_Confirm c \<Rightarrow>
          bindR (write_bytes (cf_proof c)) (\<lambda>proof_bytes.
          bindR (case cf_remember_contribution c of
                   None \<Rightarrow> Inr []
                 | Some contribution \<Rightarrow> write_bytes contribution) (\<lambda>contribution.
          Inr ([3] @ proof_bytes @ [bool_u8 (cf_remember_contribution c \<noteq> None)] @ contribution))))"

text \<open>Writing appends to what the peer will read.\<close>

definition write_frame :: "bytes \<Rightarrow> AuthFrame \<Rightarrow> AuthError + bytes" where
  "write_frame s frame =
     bindR (encode_auth_frame frame) (\<lambda>payload.
     bindR (rejectR (length payload > MAX_AUTH_FRAME_BYTES) AuthTooLarge) (\<lambda>_.
     Inr (s @ AUTH_MAGIC @ u16_to_be AUTH_WIRE_VERSION @ [1, 0]
          @ u32_to_be (word_of_nat (length payload)) @ payload)))"

section \<open>Decoder\<close>

abbreviation auth_u8 :: "(AuthError, u8) parser" where
  "auth_u8 \<equiv> get_u8 AuthTruncated"

abbreviation auth_u32 :: "(AuthError, u32) parser" where
  "auth_u32 \<equiv> get_u32 AuthTruncated"

definition read_peer_role :: "(AuthError, PeerRole) parser" where
  "read_peer_role =
     bindP auth_u8 (\<lambda>b.
     if b = 1 then returnP Sender else if b = 2 then returnP Receiver
     else liftP (Inl (AuthUnknownRole b)))"

definition read_bool :: "(AuthError, bool) parser" where
  "read_bool =
     bindP auth_u8 (\<lambda>b.
     if b = 0 then returnP False else if b = 1 then returnP True
     else liftP (Inl (AuthInvalidBool b)))"

definition read_bytes :: "(AuthError, bytes) parser" where
  "read_bytes = bindP auth_u32 (\<lambda>w. get_exact AuthTruncated (unat w))"

definition auth_finish :: "(AuthError, unit) parser" where
  "auth_finish =
     bindP (inspectP (\<lambda>r. rd_offset r = length (rd_bytes r))) (\<lambda>c. rejectP (\<not> c) AuthTrailingBytes)"

definition decode_auth_body :: "u8 \<Rightarrow> (AuthError, AuthFrame) parser" where
  "decode_auth_body ty =
     (if ty = 1 then
        bindP auth_u32 (\<lambda>version. bindP read_peer_role (\<lambda>role. bindP read_bytes (\<lambda>nonce.
        bindP read_bytes (\<lambda>msg. bindP read_bool (\<lambda>consent.
        returnP (Auth_Start \<lparr>st_protocol_version = version, st_role = role, st_nonce = nonce,
          st_message = msg, st_remember_consent = consent\<rparr>))))))
      else if ty = 2 then
        bindP read_bytes (\<lambda>nonce. bindP read_bytes (\<lambda>msg. bindP read_bool (\<lambda>consent.
        returnP (Auth_Message \<lparr>ms_nonce = nonce, ms_message = msg, ms_remember_consent = consent\<rparr>))))
      else if ty = 3 then
        bindP read_bytes (\<lambda>proof_bytes. bindP read_bool (\<lambda>some.
        bindP (if some then bindP read_bytes (\<lambda>c. returnP (Some c)) else returnP None) (\<lambda>contribution.
        returnP (Auth_Confirm \<lparr>cf_proof = proof_bytes, cf_remember_contribution = contribution\<rparr>))))
      else liftP (Inl (AuthUnknownType ty)))"

definition decode_auth_frame :: "bytes \<Rightarrow> AuthError + AuthFrame" where
  "decode_auth_frame payload =
     bindR (bindP auth_u8 (\<lambda>ty. bindP (decode_auth_body ty) (\<lambda>frame.
            bindP auth_finish (\<lambda>_. returnP frame))) (reader_new payload)) (\<lambda>(frame, _). Inr frame)"

definition auth_read_exact :: "nat \<Rightarrow> bytes \<Rightarrow> AuthError + bytes \<times> bytes" where
  "auth_read_exact n s = (if length s < n then Inl AuthIo else Inr (take n s, drop n s))"

definition read_frame :: "bytes \<Rightarrow> AuthError + AuthFrame \<times> bytes" where
  "read_frame s =
     bindR (auth_read_exact AUTH_HEADER_BYTES s) (\<lambda>(header, s).
     bindR (rejectR (take 4 header \<noteq> AUTH_MAGIC) AuthBadMagic) (\<lambda>_.
     let version = u16_from_be (take 2 (drop 4 header)) in
     bindR (rejectR (version \<noteq> AUTH_WIRE_VERSION) (AuthUnsupportedVersion version)) (\<lambda>_.
     bindR (rejectR (header ! 6 \<noteq> 1) (AuthUnknownEnvelope (header ! 6))) (\<lambda>_.
     bindR (rejectR (header ! 7 \<noteq> 0) AuthInvalidHeader) (\<lambda>_.
     let n = unat (u32_from_be (take 4 (drop 8 header))) in
     bindR (rejectR (n > MAX_AUTH_FRAME_BYTES) AuthTooLarge) (\<lambda>_.
     bindR (auth_read_exact n s) (\<lambda>(payload, s).
     bindR (decode_auth_frame payload) (\<lambda>frame. Inr (frame, s)))))))))"

section \<open>Fields\<close>

lemma write_bytes_iff [simp]:
  "write_bytes v = Inr xs \<longleftrightarrow> length v < 4294967296 \<and> xs = u32_to_be (word_of_nat (length v)) @ v"
  by (auto simp: write_bytes_def)

lemma read_bytes_append [parse_simps]:
  "length v < 4294967296 \<Longrightarrow> read_bytes (rd pre (u32_to_be (word_of_nat (length v)) @ v @ ys))
     = Inr (v, rd (pre @ u32_to_be (word_of_nat (length v)) @ v) ys)"
  using unat_word_of_nat_small [of "length v", where 'a = 32]
  by (simp add: read_bytes_def parse_simps)

lemma read_bytes_dest [parse_dests]:
  "read_bytes (rd pre zs) = Inr (v, r) \<Longrightarrow> \<exists>ys. zs = u32_to_be (word_of_nat (length v)) @ v @ ys
     \<and> length v < 4294967296 \<and> r = rd (pre @ u32_to_be (word_of_nat (length v)) @ v) ys"
proof -
  assume "read_bytes (rd pre zs) = Inr (v, r)"
  then obtain w ys where "zs = u32_to_be w @ v @ ys" "length v = unat w" "r = rd (pre @ u32_to_be w @ v) ys"
    by (auto simp: read_bytes_def parser_iffs dest!: parse_dests)
  then show ?thesis
    using unat_bound [of w] by auto
qed

lemma read_bool_append:
  "read_bool (rd pre (bool_u8 b # ys)) = Inr (b, rd (pre @ [bool_u8 b]) ys)"
  by (simp add: read_bool_def bool_u8_def parse_simps)

lemma bindP_read_bool [parse_simps]:
  "bindP read_bool k (rd pre (bool_u8 b # ys)) = k b (rd (pre @ [bool_u8 b]) ys)"
  by (simp add: bindP_def read_bool_append)

lemma read_bool_dest [parse_dests]:
  "read_bool (rd pre zs) = Inr (b, r) \<Longrightarrow> \<exists>ys. zs = bool_u8 b # ys \<and> r = rd (pre @ [bool_u8 b]) ys"
  by (auto simp: read_bool_def bool_u8_def parser_iffs split: if_splits dest!: parse_dests)

lemma read_peer_role_append [parse_simps]:
  "read_peer_role (rd pre (role_u8 x # ys)) = Inr (x, rd (pre @ [role_u8 x]) ys)"
  by (cases x) (simp_all add: read_peer_role_def role_u8_def parse_simps)

lemma read_peer_role_dest [parse_dests]:
  "read_peer_role (rd pre zs) = Inr (x, r) \<Longrightarrow> \<exists>ys. zs = role_u8 x # ys \<and> r = rd (pre @ [role_u8 x]) ys"
  by (auto simp: read_peer_role_def role_u8_def parser_iffs split: if_splits dest!: parse_dests)

lemma auth_finish_iff [simp]: "auth_finish (rd pre post) = Inr (u, r) \<longleftrightarrow> post = [] \<and> r = rd pre post"
  by (auto simp: auth_finish_def rejectP_Inr_iff) (auto simp: rd_def)

section \<open>Frames\<close>

interpretation auth_wire: codec encode_auth_frame "bindP auth_u8 decode_auth_body" "\<lambda>_. True"
proof
  fix f xs pre ys
  assume "encode_auth_frame f = Inr xs"
  then show "bindP auth_u8 decode_auth_body (rd pre (xs @ ys)) = Inr (f, rd (pre @ xs) ys)"
    by (cases f) (auto simp: encode_auth_frame_def decode_auth_body_def parse_simps split: option.splits)
next
  fix pre zs f r
  assume "bindP auth_u8 decode_auth_body (rd pre zs) = Inr (f, r)"
  then show "\<exists>xs ys. zs = xs @ ys \<and> encode_auth_frame f = Inr xs \<and> True \<and> r = rd (pre @ xs) ys"
    by (auto simp: encode_auth_frame_def decode_auth_body_def parser_iffs split: if_splits
        dest!: parse_dests)
qed

lemma decode_auth_frame_iff: "decode_auth_frame bs = Inr f \<longleftrightarrow> encode_auth_frame f = Inr bs"
proof -
  have "decode_auth_frame bs = Inr f
      \<longleftrightarrow> (\<exists>r r'. bindP auth_u8 decode_auth_body (rd [] bs) = Inr (f, r) \<and> auth_finish r = Inr ((), r'))"
    by (auto simp: decode_auth_frame_def reader_new_rd parser_iffs)
  also have "\<dots> \<longleftrightarrow> encode_auth_frame f = Inr bs"
    unfolding auth_wire.dec_iff by auto
  finally show ?thesis .
qed

lemma auth_read_exact_iff [simp]:
  "auth_read_exact n s = Inr (xs, s') \<longleftrightarrow> s = xs @ s' \<and> length xs = n"
  by (auto simp: auth_read_exact_def)

definition auth_header :: "nat \<Rightarrow> bytes" where
  "auth_header n = AUTH_MAGIC @ u16_to_be AUTH_WIRE_VERSION @ [1, 0] @ u32_to_be (word_of_nat n)"

lemma length_auth_header [simp]: "length (auth_header n) = AUTH_HEADER_BYTES"
  by (simp add: auth_header_def AUTH_MAGIC_def AUTH_HEADER_BYTES_def)

lemma auth_header_fields:
  "take 4 (auth_header n) = AUTH_MAGIC"
  "u16_from_be (take 2 (drop 4 (auth_header n))) = AUTH_WIRE_VERSION"
  "auth_header n ! 6 = 1" "auth_header n ! 7 = 0"
  "n < 2 ^ 32 \<Longrightarrow> unat (u32_from_be (take 4 (drop 8 (auth_header n)))) = n"
  using unat_word_of_nat_small [of n, where 'a = 32]
  by (simp_all add: auth_header_def AUTH_MAGIC_def nth_append)

lemma auth_header_unique:
  assumes "length h = AUTH_HEADER_BYTES" and "take 4 h = AUTH_MAGIC"
    and "u16_from_be (take 2 (drop 4 h)) = AUTH_WIRE_VERSION" and "h ! 6 = 1" and "h ! 7 = 0"
  shows "h = auth_header (unat (u32_from_be (take 4 (drop 8 h))))"
proof -
  have len: "length h = 12"
    using assms(1) by (simp add: AUTH_HEADER_BYTES_def)
  have "take 2 (drop 4 h) = u16_to_be AUTH_WIRE_VERSION"
    using len by (simp add: assms(3) [symmetric] to_be_from_be)
  moreover have "take 4 (drop 8 h) = u32_to_be (word_of_nat (unat (u32_from_be (take 4 (drop 8 h)))))"
    using len by (simp add: to_be_from_be)
  moreover have "take 2 (drop 6 h) = [1, 0]"
    using len assms(4,5) by (simp add: list_eq_iff_nth_eq less_Suc_eq numeral_2_eq_2)
  moreover have "h = take 4 h @ take 2 (drop 4 h) @ take 2 (drop 6 h) @ take 4 (drop 8 h)"
    using len take_add [of 4 "2 + (2 + 4)" h] take_add [of 2 "2 + 4" "drop 4 h"] take_add [of 2 4 "drop 6 h"] by simp
  ultimately show ?thesis
    unfolding auth_header_def using assms(2) by metis
qed

text \<open>Reading a frame takes exactly the bytes the writer appends for it.\<close>

lemma auth_read_frame_iff:
  "read_frame s = Inr (f, s')
     \<longleftrightarrow> (\<exists>p. encode_auth_frame f = Inr p \<and> length p \<le> MAX_AUTH_FRAME_BYTES
           \<and> s = auth_header (length p) @ p @ s')" (is "?l \<longleftrightarrow> ?r")
proof
  assume ?l
  then obtain h p where h: "length h = AUTH_HEADER_BYTES" "take 4 h = AUTH_MAGIC"
    "u16_from_be (take 2 (drop 4 h)) = AUTH_WIRE_VERSION" "h ! 6 = 1" "h ! 7 = 0"
    and n: "unat (u32_from_be (take 4 (drop 8 h))) = length p" "length p \<le> MAX_AUTH_FRAME_BYTES"
    and s: "s = h @ p @ s'" "encode_auth_frame f = Inr p"
    by (auto simp: read_frame_def Let_def decode_auth_frame_iff)
  from auth_header_unique [OF h] n s show ?r by auto
next
  assume ?r
  then obtain p where p: "encode_auth_frame f = Inr p" "length p \<le> MAX_AUTH_FRAME_BYTES"
    and s: "s = auth_header (length p) @ p @ s'" by blast
  have small: "length p < 2 ^ 32"
    using p(2) by (simp add: MAX_AUTH_FRAME_BYTES_def)
  have reads: "auth_read_exact AUTH_HEADER_BYTES s = Inr (auth_header (length p), p @ s')"
    "auth_read_exact (length p) (p @ s') = Inr (p, s')" "decode_auth_frame p = Inr f"
    using p by (simp_all add: s decode_auth_frame_iff)
  show ?l
    using p(2) by (simp add: read_frame_def Let_def reads auth_header_fields auth_header_fields(5) [OF small]
        del: bindR_Inr_iff)
qed

lemma auth_write_frame_iff:
  "write_frame s f = Inr s' \<longleftrightarrow> (\<exists>p. encode_auth_frame f = Inr p \<and> length p \<le> MAX_AUTH_FRAME_BYTES
     \<and> s' = s @ auth_header (length p) @ p)"
  by (auto simp: write_frame_def auth_header_def)

section \<open>Properties\<close>

text \<open>
  C38: reading an authentication frame returns a frame and the remaining stream exactly when the
  stream starts with the bytes the writer appends for that frame. So an authentication message
  round-trips, has one accepted form, and reading it consumes at most 12 bytes and 64 KiB.
\<close>

theorem auth_envelope_exact:
  "(read_frame s = Inr (f, rest) \<longleftrightarrow> (\<exists>bs. write_frame [] f = Inr bs \<and> s = bs @ rest))
   \<and> (write_frame [] f = Inr bs \<longrightarrow> length bs \<le> 12 + 64 * 1024)"
  by (auto simp: auth_read_frame_iff auth_write_frame_iff AUTH_HEADER_BYTES_def MAX_AUTH_FRAME_BYTES_def)

theorem auth_envelope_exact_witness:
  "\<exists>bs. write_frame [] (Auth_Confirm \<lparr>cf_proof = [1], cf_remember_contribution = Some [2, 3]\<rparr>) = Inr bs
    \<and> read_frame (bs @ [9]) = Inr (Auth_Confirm \<lparr>cf_proof = [1], cf_remember_contribution = Some [2, 3]\<rparr>, [9])
    \<and> length bs \<le> 65548"
proof -
  let ?f = "Auth_Confirm \<lparr>cf_proof = [1], cf_remember_contribution = Some [2, 3]\<rparr>"
  obtain bs where "write_frame [] ?f = Inr bs"
    by (auto simp: auth_write_frame_iff encode_auth_frame_def MAX_AUTH_FRAME_BYTES_def)
  with auth_envelope_exact [of "bs @ [9]" ?f "[9]" bs] show ?thesis by auto
qed

end
