(* ===== verification/F64.thy ===== *)
theory F64
  imports Complex_Main "HOL-Library.Log_Nat" "HOL-Library.Word"
begin

text \<open>
  The part of \<open>f64\<close> and \<open>Duration\<close> the rate limiter computes with. A finite non-negative double is
  the rational it denotes; every operation is the exact one followed by \<open>f64_round\<close>, rounding to 53
  significant bits, ties to even. The rate limiter's values are zero or between \<open>2 ^ -100\<close> and
  \<open>2 ^ 130\<close>, so neither subnormals nor infinities arise.

  A \<open>Duration\<close> and an \<open>Instant\<close> (since some origin) are natural numbers of nanoseconds;
  \<open>saturating_duration_since\<close> is their subtraction.
\<close>

type_synonym duration = nat
type_synonym instant = nat

definition NANOS_PER_SEC :: nat where
  "NANOS_PER_SEC = 1000000000"

definition from_secs :: "nat \<Rightarrow> duration" where
  "from_secs s = s * NANOS_PER_SEC"

section \<open>Rounding\<close>

definition round_half_even :: "rat \<Rightarrow> int" where
  "round_half_even x =
     (let f = \<lfloor>x\<rfloor>; d = x - of_int f in
      if d < 1/2 then f else if d > 1/2 then f + 1 else if even f then f else f + 1)"

text \<open>The exponent of the last of 53 significant bits.\<close>

definition f64_exp :: "rat \<Rightarrow> int" where
  "f64_exp x =
     (let (p, q) = quotient_of x; e = bitlen p - bitlen q - 53 in
      if x / 2 powi e < 2 ^ 53 then e else e + 1)"

definition f64_round :: "rat \<Rightarrow> rat" where
  "f64_round x =
     (if x \<le> 0 then 0 else of_int (round_half_even (x / 2 powi f64_exp x)) * 2 powi f64_exp x)"

definition f64_add :: "rat \<Rightarrow> rat \<Rightarrow> rat" where
  "f64_add a b = f64_round (a + b)"

definition f64_sub :: "rat \<Rightarrow> rat \<Rightarrow> rat" where
  "f64_sub a b = f64_round (a - b)"

definition f64_mul :: "rat \<Rightarrow> rat \<Rightarrow> rat" where
  "f64_mul a b = f64_round (a * b)"

definition f64_div :: "rat \<Rightarrow> rat \<Rightarrow> rat" where
  "f64_div a b = f64_round (a / b)"

text \<open>\<open>f64::from\<close> of a \<open>u32\<close>, which is exact.\<close>

definition f64_from_u32 :: "32 word \<Rightarrow> rat" where
  "f64_from_u32 w = of_nat (unat w)"

text \<open>\<open>Duration::as_secs_f64\<close> and \<open>Duration::from_secs_f64\<close>.\<close>

definition as_secs_f64 :: "duration \<Rightarrow> rat" where
  "as_secs_f64 d = f64_add (f64_round (of_nat (d div NANOS_PER_SEC)))
     (f64_div (of_nat (d mod NANOS_PER_SEC)) (of_nat NANOS_PER_SEC))"

definition from_secs_f64 :: "rat \<Rightarrow> duration" where
  "from_secs_f64 s = nat (round_half_even (s * of_nat NANOS_PER_SEC))"

section \<open>Lemmas on rounding\<close>

lemma round_half_even_bounds: "\<lfloor>x\<rfloor> \<le> round_half_even x" "round_half_even x \<le> \<lfloor>x\<rfloor> + 1"
  by (simp_all add: round_half_even_def Let_def)

lemma round_half_even_int [simp]: "round_half_even (of_int n) = n"
  by (simp add: round_half_even_def)

lemma round_half_even_mono: "x \<le> y \<Longrightarrow> round_half_even x \<le> round_half_even y"
proof -
  assume xy: "x \<le> y"
  then have floors: "\<lfloor>x\<rfloor> \<le> \<lfloor>y\<rfloor>" by (rule floor_mono)
  show ?thesis
  proof (cases "\<lfloor>x\<rfloor> = \<lfloor>y\<rfloor>")
    case True
    with xy show ?thesis
      by (auto simp: round_half_even_def Let_def)
  next
    case False
    with floors round_half_even_bounds [of x] round_half_even_bounds [of y] show ?thesis by linarith
  qed
qed

lemma round_half_even_le_int: "x \<le> of_int n \<Longrightarrow> round_half_even x \<le> n"
  using round_half_even_mono [of x "of_int n"] by simp

lemma round_half_even_ge_int: "of_int n \<le> x \<Longrightarrow> n \<le> round_half_even x"
  using round_half_even_mono [of "of_int n" x] by simp

lemma pow2_pos [simp]: "(0 :: rat) < 2 powi e"
  by (rule zero_less_power_int) simp

lemma pow2_add: "(2 :: rat) powi (a + b) = 2 powi a * 2 powi b"
  by (rule power_int_add) simp

lemma pow2_diff: "(2 :: rat) powi (a - b) = 2 powi a / 2 powi b"
  by (rule power_int_diff) simp

lemma pow2_mono: "a \<le> b \<Longrightarrow> (2 :: rat) powi a \<le> 2 powi b"
  by (rule power_int_increasing) simp_all

lemma bitlen_pow2_bounds:
  assumes "n > 0"
  shows "2 powi (bitlen n - 1) \<le> (of_int n :: rat)" "(of_int n :: rat) < 2 powi bitlen n"
proof -
  have "bitlen n \<noteq> 0"
    using assms by (simp add: bitlen_eq_zero_iff)
  then have b: "bitlen n \<ge> 1"
    using bitlen_nonneg [of n] by linarith
  have "of_int (2 ^ nat (bitlen n - 1)) \<le> (of_int n :: rat)" "of_int n < (of_int (2 ^ nat (bitlen n)) :: rat)"
    using bitlen_bounds [OF assms] by (simp_all only: of_int_le_iff of_int_less_iff)
  then show "2 powi (bitlen n - 1) \<le> (of_int n :: rat)" "(of_int n :: rat) < 2 powi bitlen n"
    using b by (simp_all add: power_int_nonneg_exp)
qed

lemma f64_exp_bounds:
  assumes "x > 0"
  shows "2 powi (f64_exp x + 52) \<le> x" "x < 2 powi (f64_exp x + 53)"
proof -
  obtain p q where pq: "quotient_of x = (p, q)" by (cases "quotient_of x")
  have q: "q > 0" and x: "x = of_int p / of_int q"
    using quotient_of_denom_pos [OF pq] quotient_of_div [OF pq] by simp_all
  have p: "p > 0"
    using assms q by (simp add: x zero_less_divide_iff)
  define e where "e = bitlen p - bitlen q - 53"
  have "2 powi (bitlen p - 1) / 2 powi bitlen q \<le> x"
    unfolding x using bitlen_pow2_bounds [OF p] bitlen_pow2_bounds [OF q] p q by (intro frac_le) simp_all
  moreover have "e + 52 = bitlen p - 1 - bitlen q"
    by (simp add: e_def)
  ultimately have low: "2 powi (e + 52) \<le> x"
    by (simp only: pow2_diff)
  have "x < 2 powi bitlen p / 2 powi (bitlen q - 1)"
    unfolding x using bitlen_pow2_bounds [OF p] bitlen_pow2_bounds [OF q] p by (intro frac_less) simp_all
  moreover have "e + 54 = bitlen p - (bitlen q - 1)"
    by (simp add: e_def)
  ultimately have high: "x < 2 powi (e + 54)"
    by (simp only: pow2_diff)
  have split: "x / 2 powi e < 2 ^ 53 \<longleftrightarrow> x < 2 powi (e + 53)"
    by (simp add: pow2_add divide_less_eq mult.commute)
  have exp: "f64_exp x = (if x < 2 powi (e + 53) then e else e + 1)"
    unfolding split [symmetric] by (simp add: f64_exp_def pq e_def Let_def)
  show "2 powi (f64_exp x + 52) \<le> x" "x < 2 powi (f64_exp x + 53)"
    using low high by (auto simp: exp not_less add.assoc)
qed

lemma f64_exp_mono:
  assumes "0 < x" and "x \<le> y"
  shows "f64_exp x \<le> f64_exp y"
proof (rule ccontr)
  assume "\<not> f64_exp x \<le> f64_exp y"
  then have "2 powi (f64_exp y + 53) \<le> (2 :: rat) powi (f64_exp x + 52)"
    by (intro pow2_mono) simp
  then show False
    using f64_exp_bounds [of x] f64_exp_bounds [of y] assms by linarith
qed

lemma f64_round_window:
  assumes "x > 0"
  shows "2 powi (f64_exp x + 52) \<le> f64_round x" "f64_round x \<le> 2 powi (f64_exp x + 53)"
proof -
  let ?e = "f64_exp x"
  have "of_int (2 ^ 52) \<le> x / 2 powi ?e" "x / 2 powi ?e \<le> of_int (2 ^ 53)"
    using f64_exp_bounds [OF assms] by (simp_all add: pow2_add le_divide_eq divide_le_eq mult.commute)
  then have "2 ^ 52 \<le> round_half_even (x / 2 powi ?e)" "round_half_even (x / 2 powi ?e) \<le> 2 ^ 53"
    using round_half_even_ge_int [of "2 ^ 52" "x / 2 powi ?e"] round_half_even_le_int [of "x / 2 powi ?e" "2 ^ 53"]
    by blast+
  then have r: "of_int (2 ^ 52) \<le> (of_int (round_half_even (x / 2 powi ?e)) :: rat)"
    "(of_int (round_half_even (x / 2 powi ?e)) :: rat) \<le> of_int (2 ^ 53)"
    by (simp_all only: of_int_le_iff)
  show "2 powi (?e + 52) \<le> f64_round x" "f64_round x \<le> 2 powi (?e + 53)"
    using assms r by (simp_all add: f64_round_def pow2_add mult.commute)
qed

lemma f64_round_0 [simp]: "f64_round 0 = 0"
  by (simp add: f64_round_def)

lemma f64_round_nonneg [simp]: "0 \<le> f64_round x"
proof (cases "x \<le> 0")
  case False
  then show ?thesis
    using f64_round_window(1) [of x] pow2_pos [of "f64_exp x + 52"] by linarith
qed (simp add: f64_round_def)

lemma f64_round_mono:
  assumes "x \<le> y"
  shows "f64_round x \<le> f64_round y"
proof (cases "x \<le> 0")
  case True
  then have "f64_round x = 0" by (simp add: f64_round_def)
  then show ?thesis by simp
next
  case False
  then have pos: "0 < x" "0 < y" using assms by linarith+
  show ?thesis
  proof (cases "f64_exp x = f64_exp y")
    case True
    have "round_half_even (x / 2 powi f64_exp y) \<le> round_half_even (y / 2 powi f64_exp y)"
      using assms by (intro round_half_even_mono divide_right_mono) (simp_all add: less_imp_le)
    then show ?thesis
      using pos True by (simp add: f64_round_def)
  next
    case False
    then have "(2 :: rat) powi (f64_exp x + 53) \<le> 2 powi (f64_exp y + 52)"
      using f64_exp_mono [OF pos(1) assms] by (intro pow2_mono) simp
    then show ?thesis
      using f64_round_window(2) [OF pos(1)] f64_round_window(1) [OF pos(2)] by linarith
  qed
qed

text \<open>Integers up to \<open>2 ^ 53\<close>, such as every \<open>u32\<close>, are doubles.\<close>

lemma f64_round_of_nat:
  assumes "n < 2 ^ 53"
  shows "f64_round (of_nat n) = of_nat n"
proof (cases "n = 0")
  case True
  then show ?thesis by (simp add: f64_round_def)
next
  case False
  let ?x = "of_nat n :: rat" and ?e = "f64_exp (of_nat n)"
  have pos: "?x > 0" using False by simp
  have "\<not> 0 < ?e"
  proof
    assume "0 < ?e"
    then have "(2 :: rat) powi 53 \<le> 2 powi (?e + 52)"
      by (intro pow2_mono) simp
    then have "(2 :: rat) ^ 53 \<le> of_nat n"
      using f64_exp_bounds(1) [OF pos] by simp
    then have "of_nat (2 ^ 53) \<le> (of_nat n :: rat)"
      by simp
    then show False
      using assms by (simp only: of_nat_le_iff not_le)
  qed
  then obtain k where k: "?e = - int k"
    by (metis minus_minus not_less nonneg_int_cases neg_0_le_iff_le)
  have scaled: "?x / 2 powi ?e = of_int (int n * 2 ^ k)"
    by (simp add: k power_int_minus divide_inverse)
  show ?thesis
    using pos unfolding f64_round_def scaled round_half_even_int
    by (simp add: k power_int_minus)
qed

lemma f64_round_u32: "f64_round (f64_from_u32 w) = f64_from_u32 w"
  unfolding f64_from_u32_def
proof (rule f64_round_of_nat)
  have "unat w < 2 ^ 32"
    using unsigned_less [of w] by simp
  then show "unat w < 2 ^ 53" by simp
qed

lemma f64_from_u32_nonneg [simp]: "0 \<le> f64_from_u32 w"
  unfolding f64_from_u32_def by (rule of_nat_0_le_iff)

lemma of_nat_le_f64_from_u32 [simp]: "of_nat n \<le> f64_from_u32 w \<longleftrightarrow> n \<le> unat w"
  unfolding f64_from_u32_def by (rule of_nat_le_iff)

end
