(* ===== verification/Rust_Text.thy ===== *)
theory Rust_Text
  imports Prelude
begin

text \<open>
  What the sources use of Rust's string functions, on UTF-8 bytes: prefixes, trimming, splitting at an
  ASCII byte, ASCII classes and case, decimal and hexadecimal numerals.
\<close>

section \<open>Definitions\<close>

definition strip_prefix :: "str \<Rightarrow> str \<Rightarrow> str option" where
  "strip_prefix p s = (if take (length p) s = p then Some (drop (length p) s) else None)"

definition is_ascii_digit :: "u8 \<Rightarrow> bool" where
  "is_ascii_digit b \<longleftrightarrow> 0x30 \<le> b \<and> b \<le> 0x39"

definition is_ascii_lowercase :: "u8 \<Rightarrow> bool" where
  "is_ascii_lowercase b \<longleftrightarrow> 0x61 \<le> b \<and> b \<le> 0x7A"

definition is_ascii_alphanumeric :: "u8 \<Rightarrow> bool" where
  "is_ascii_alphanumeric b \<longleftrightarrow> is_ascii_digit b \<or> 0x41 \<le> b \<and> b \<le> 0x5A \<or> 0x61 \<le> b \<and> b \<le> 0x7A"

definition to_ascii_lowercase :: "u8 \<Rightarrow> u8" where
  "to_ascii_lowercase b = (if 0x41 \<le> b \<and> b \<le> 0x5A then b + 0x20 else b)"

definition eq_ignore_ascii_case :: "str \<Rightarrow> str \<Rightarrow> bool" where
  "eq_ignore_ascii_case a b \<longleftrightarrow> map to_ascii_lowercase a = map to_ascii_lowercase b"

text \<open>The UTF-8 forms of the characters with the property \<open>White_Space\<close>.\<close>

definition white_space :: "str list" where
  "white_space =
     map (\<lambda>b. [b]) [0x09, 0x0A, 0x0B, 0x0C, 0x0D, 0x20]
     @ map (\<lambda>b. [0xC2, b]) [0x85, 0xA0]
     @ [[0xE1, 0x9A, 0x80]]
     @ map (\<lambda>b. [0xE2, 0x80, b]) [0x80, 0x81, 0x82, 0x83, 0x84, 0x85, 0x86, 0x87, 0x88, 0x89, 0x8A, 0xA8, 0xA9, 0xAF]
     @ [[0xE2, 0x81, 0x9F], [0xE3, 0x80, 0x80]]"

text \<open>Drop the longest sequence of the given pieces from the front.\<close>

function drop_pieces :: "str list \<Rightarrow> str \<Rightarrow> str" where
  "drop_pieces pieces s =
     (case find (\<lambda>p. p \<noteq> [] \<and> take (length p) s = p) pieces of
        None \<Rightarrow> s
      | Some p \<Rightarrow> drop_pieces pieces (drop (length p) s))"
  by pat_completeness auto

termination
proof (relation "measure (length \<circ> snd)")
  fix pieces :: "str list" and s p
  assume "find (\<lambda>p. p \<noteq> [] \<and> take (length p) s = p) pieces = Some p"
  then have "p \<noteq> []" "take (length p) s = p"
    by (auto simp: find_Some_iff)
  then have "0 < length p" "s \<noteq> []" by auto
  then show "((pieces, drop (length p) s), pieces, s) \<in> measure (length \<circ> snd)" by simp
qed simp

declare drop_pieces.simps [simp del]

definition trim :: "str \<Rightarrow> str" where
  "trim s = rev (drop_pieces (map rev white_space) (rev (drop_pieces white_space s)))"

text \<open>\<open>split_once\<close> and \<open>split\<close> at an ASCII byte.\<close>

definition split_once :: "u8 \<Rightarrow> str \<Rightarrow> (str \<times> str) option" where
  "split_once c s = (if c \<in> set s then Some (takeWhile (\<lambda>b. b \<noteq> c) s, tl (dropWhile (\<lambda>b. b \<noteq> c) s)) else None)"

fun split_at :: "u8 \<Rightarrow> str \<Rightarrow> str list" where
  "split_at c [] = [[]]"
| "split_at c (b # s) = (if b = c then [] # split_at c s else (b # hd (split_at c s)) # tl (split_at c s))"

text \<open>Decimal numerals: \<open>to_string\<close>, and \<open>parse::<u64>\<close>, which takes an optional plus sign.\<close>

fun decimal :: "nat \<Rightarrow> str" where
  "decimal n = (if n < 10 then [word_of_nat (0x30 + n)] else decimal (n div 10) @ [word_of_nat (0x30 + n mod 10)])"

declare decimal.simps [simp del]

definition decimal_value :: "str \<Rightarrow> nat" where
  "decimal_value s = foldl (\<lambda>v b. 10 * v + (unat b - 0x30)) 0 s"

definition parse_u64 :: "str \<Rightarrow> u64 option" where
  "parse_u64 s =
     (let digits = (if length s > 1 \<and> hd s = 0x2B then tl s else s) in
      if digits \<noteq> [] \<and> list_all is_ascii_digit digits \<and> decimal_value digits < 2 ^ 64
      then Some (word_of_nat (decimal_value digits)) else None)"

text \<open>Hexadecimal: \<open>{:02x}\<close>, \<open>{:02X}\<close>, and \<open>u8::from_str_radix(_, 16)\<close> on two bytes.\<close>

definition hex_digit :: "nat \<Rightarrow> u8" where
  "hex_digit n = (if n < 10 then word_of_nat (0x30 + n) else word_of_nat (0x61 + (n - 10)))"

definition hex_digit_upper :: "nat \<Rightarrow> u8" where
  "hex_digit_upper n = (if n < 10 then word_of_nat (0x30 + n) else word_of_nat (0x41 + (n - 10)))"

definition to_digit16 :: "u8 \<Rightarrow> nat option" where
  "to_digit16 b =
     (if 0x30 \<le> b \<and> b \<le> 0x39 then Some (unat b - 0x30)
      else if 0x41 \<le> b \<and> b \<le> 0x46 then Some (unat b - 0x37)
      else if 0x61 \<le> b \<and> b \<le> 0x66 then Some (unat b - 0x57) else None)"

definition from_hex2 :: "u8 \<Rightarrow> u8 \<Rightarrow> u8 option" where
  "from_hex2 a b =
     Option.bind (if a = 0x2B then Some 0 else to_digit16 a) (\<lambda>x.
     map_option (\<lambda>y. word_of_nat (16 * x + y)) (to_digit16 b))"

section \<open>Numerals\<close>

lemma unat_byte: "n < 256 \<Longrightarrow> unat (word_of_nat n :: u8) = n"
  using unat_word_of_nat_small [where 'a = 8, of n] by simp

lemma decimal_value_decimal [simp]: "decimal_value (decimal n) = n"
proof (induction n rule: decimal.induct)
  case (1 n)
  have "unat (word_of_nat (48 + n mod 10) :: u8) = 48 + n mod 10"
    by (rule unat_byte) (simp add: less_le_trans [OF mod_less_divisor])
  moreover have "n < 10 \<Longrightarrow> unat (word_of_nat (48 + n) :: u8) = 48 + n"
    by (rule unat_byte) simp
  ultimately show ?case
    using 1 by (subst decimal.simps) (simp add: decimal_value_def)
qed

lemma is_ascii_digit_digit: "n < 10 \<Longrightarrow> is_ascii_digit (word_of_nat (48 + n))"
  using unat_byte [of "48 + n"] by (simp add: is_ascii_digit_def word_le_nat_alt)

lemma decimal_digits: "list_all is_ascii_digit (decimal n)"
proof (induction n rule: decimal.induct)
  case (1 n)
  then show ?case
    using is_ascii_digit_digit [of n] is_ascii_digit_digit [of "n mod 10"]
    by (subst decimal.simps) simp
qed

lemma decimal_nonempty [simp]: "decimal n \<noteq> []"
  by (subst decimal.simps) simp

lemma parse_u64_decimal [simp]: "parse_u64 (decimal (unat w)) = Some w"
proof -
  have "hd (decimal (unat w)) \<noteq> 0x2B"
    using decimal_digits [of "unat w"] by (cases "decimal (unat w)") (auto simp: is_ascii_digit_def)
  moreover have "unat w < 2 ^ 64"
    using unat_bound [of w] by simp
  ultimately show ?thesis
    using decimal_digits [of "unat w"] by (simp add: parse_u64_def)
qed

lemma to_digit16_upper [simp]: "n < 16 \<Longrightarrow> to_digit16 (hex_digit_upper n) = Some n"
proof (cases "n < 10")
  case True
  with unat_byte [of "48 + n"] show ?thesis
    by (simp add: to_digit16_def hex_digit_upper_def word_le_nat_alt)
next
  case False
  moreover assume "n < 16"
  ultimately show ?thesis
    using unat_byte [of "55 + n"] by (simp add: to_digit16_def hex_digit_upper_def word_le_nat_alt)
qed

lemma to_digit16_lower [simp]: "n < 16 \<Longrightarrow> to_digit16 (hex_digit n) = Some n"
proof (cases "n < 10")
  case True
  with unat_byte [of "48 + n"] show ?thesis
    by (simp add: to_digit16_def hex_digit_def word_le_nat_alt)
next
  case False
  moreover assume "n < 16"
  ultimately show ?thesis
    using unat_byte [of "87 + n"] by (simp add: to_digit16_def hex_digit_def word_le_nat_alt)
qed

lemma from_hex2_upper [simp]:
  "from_hex2 (hex_digit_upper (unat b div 16)) (hex_digit_upper (unat b mod 16)) = Some b"
proof -
  have "unat b < 256"
    using unat_bound [of b] by simp
  then have d: "to_digit16 (hex_digit_upper (unat b div 16)) = Some (unat b div 16)"
    by (intro to_digit16_upper) auto
  then have "hex_digit_upper (unat b div 16) \<noteq> 0x2B"
    by (auto simp: to_digit16_def)
  moreover have "16 * (unat b div 16) + unat b mod 16 = unat b" by simp
  ultimately show ?thesis
    using d unfolding from_hex2_def by (simp del: of_nat_add of_nat_mult)
qed

section \<open>Splitting\<close>

lemma strip_prefix_append [simp]: "strip_prefix p (p @ s) = Some s"
  by (simp add: strip_prefix_def)

lemma split_once_append: "c \<notin> set a \<Longrightarrow> split_once c (a @ c # s) = Some (a, s)"
  by (induction a) (auto simp: split_once_def takeWhile_append dropWhile_append)

lemma split_at_nonempty [simp]: "split_at c s \<noteq> []"
  by (cases s) auto

lemma split_at_append: "c \<notin> set a \<Longrightarrow> split_at c (a @ c # s) = a # split_at c s"
  by (induction a) auto

lemma split_at_none: "c \<notin> set a \<Longrightarrow> split_at c a = [a]"
  by (induction a) auto

section \<open>Trimming\<close>

lemma drop_pieces_none:
  "(\<And>p. p \<in> set pieces \<Longrightarrow> p \<noteq> [] \<Longrightarrow> take (length p) s \<noteq> p) \<Longrightarrow> drop_pieces pieces s = s"
  by (subst drop_pieces.simps) (auto simp: find_None_iff split: option.splits dest: find_Some_iff [THEN iffD1])

lemma drop_pieces_idem [simp]: "drop_pieces pieces (drop_pieces pieces s) = drop_pieces pieces s"
proof (induction pieces s rule: drop_pieces.induct)
  case (1 pieces s)
  show ?case
  proof (cases "find (\<lambda>p. p \<noteq> [] \<and> take (length p) s = p) pieces")
    case None
    then show ?thesis by (simp add: drop_pieces.simps [of pieces s])
  next
    case (Some p)
    with 1 show ?thesis by (simp add: drop_pieces.simps [of pieces s])
  qed
qed

text \<open>A string whose first and last byte are ASCII and no space is not changed.\<close>

definition printable :: "u8 \<Rightarrow> bool" where
  "printable b \<longleftrightarrow> 0x21 \<le> b \<and> b \<le> 0x7E"

lemma trim_printable:
  assumes "s \<noteq> []" and "printable (hd s)" and "printable (last s)"
  shows "trim s = s"
proof -
  have "p \<in> set white_space \<Longrightarrow> \<not> printable (hd p) \<and> \<not> printable (last p) \<and> p \<noteq> []" for p
    by (auto simp: white_space_def printable_def)
  then have "drop_pieces white_space s = s" "drop_pieces (map rev white_space) (rev s) = rev s"
    using assms
    by (auto intro!: drop_pieces_none)
      (metis hd_take length_greater_0_conv, metis hd_rev hd_take length_greater_0_conv length_rev rev_is_Nil_conv)
  then show ?thesis by (simp add: trim_def)
qed

end
