(* ===== verification/Broker_Types.thy ===== *)
theory Broker_Types
  imports Prelude F64 Rust_Text
begin

text \<open>
  The rendezvous broker's configuration (\<open>crates/envoix-rendezvous/src/config.rs\<close>), its control
  protocol (\<open>protocol.rs\<close>), and the pure functions of \<open>broker.rs\<close>: room ids, the check of a join,
  matching, retry hints and the token bucket.
\<close>

section \<open>Configuration\<close>

record RateLimitConfig =
  rl_events :: u32
  rl_period :: duration
  rl_burst :: u32

definition per_minute :: "u32 \<Rightarrow> u32 \<Rightarrow> RateLimitConfig" where
  "per_minute events burst = \<lparr>rl_events = events, rl_period = from_secs 60, rl_burst = burst\<rparr>"

definition rate_validate :: "RateLimitConfig \<Rightarrow> string + unit" where
  "rate_validate c = rejectR (rl_events c = 0 \<or> rl_burst c = 0 \<or> rl_period c = 0)
     ''rate limits must have non-zero events, period, and burst''"

record BrokerConfig =
  bc_room_ttl :: duration
  bc_room_tombstone_ttl :: duration
  bc_room_attempt_limit :: u32
  bc_room_attempt_rate :: RateLimitConfig
  bc_endpoint_join_rate :: RateLimitConfig
  bc_ip_join_rate :: RateLimitConfig
  bc_subnet_join_rate :: RateLimitConfig
  bc_max_connections :: nat
  bc_max_connections_per_endpoint :: nat
  bc_max_connections_per_room :: nat
  bc_max_room_states :: nat
  bc_max_waiting_creators :: nat
  bc_max_source_states :: nat
  bc_source_state_ttl :: duration
  bc_handshake_timeout :: duration
  bc_join_timeout :: duration
  bc_relay_ttl :: duration
  bc_relay_idle_timeout :: duration
  bc_slow_frame_timeout :: duration
  bc_close_grace :: duration
  bc_max_frame_body :: nat
  bc_max_retry_after :: duration
  bc_unavailable_retry_after :: duration

definition config_validate :: "BrokerConfig \<Rightarrow> string + unit" where
  "config_validate c =
     bindR (rate_validate (bc_room_attempt_rate c)) (\<lambda>_.
     bindR (rate_validate (bc_endpoint_join_rate c)) (\<lambda>_.
     bindR (rate_validate (bc_ip_join_rate c)) (\<lambda>_.
     bindR (rate_validate (bc_subnet_join_rate c)) (\<lambda>_.
     bindR (rejectR (bc_room_ttl c = 0 \<or> bc_room_tombstone_ttl c = 0 \<or> bc_source_state_ttl c = 0
                     \<or> bc_handshake_timeout c = 0 \<or> bc_join_timeout c = 0 \<or> bc_relay_ttl c = 0
                     \<or> bc_relay_idle_timeout c = 0 \<or> bc_slow_frame_timeout c = 0
                     \<or> bc_close_grace c = 0 \<or> bc_max_retry_after c = 0)
              ''broker durations must be non-zero'') (\<lambda>_.
     bindR (rejectR (bc_room_attempt_limit c = 0 \<or> bc_max_connections c = 0
                     \<or> bc_max_connections_per_endpoint c = 0 \<or> bc_max_connections_per_room c < 2
                     \<or> bc_max_room_states c = 0 \<or> bc_max_waiting_creators c = 0
                     \<or> bc_max_source_states c < 3 \<or> bc_max_frame_body c = 0
                     \<or> bc_max_frame_body c > 2 ^ 32 - 1)
              ''broker limits must be non-zero and room connections must be at least two'') (\<lambda>_.
     bindR (rejectR (bc_max_waiting_creators c > bc_max_room_states c)
              ''waiting-creator limit cannot exceed the Room-state limit'') (\<lambda>_.
     rejectR (bc_unavailable_retry_after c > bc_max_retry_after c)
       ''unavailable retry_after cannot exceed the server retry_after cap'')))))))"

definition default_config :: BrokerConfig where
  "default_config =
     \<lparr>bc_room_ttl = from_secs 300, bc_room_tombstone_ttl = from_secs 300,
      bc_room_attempt_limit = 6,
      bc_room_attempt_rate = \<lparr>rl_events = 6, rl_period = from_secs 300, rl_burst = 2\<rparr>,
      bc_endpoint_join_rate = per_minute 10 20, bc_ip_join_rate = per_minute 30 60,
      bc_subnet_join_rate = per_minute 120 240,
      bc_max_connections = 256, bc_max_connections_per_endpoint = 8,
      bc_max_connections_per_room = 2, bc_max_room_states = 8192,
      bc_max_waiting_creators = 4096, bc_max_source_states = 8192,
      bc_source_state_ttl = from_secs 600, bc_handshake_timeout = from_secs 10,
      bc_join_timeout = from_secs 10, bc_relay_ttl = from_secs 120,
      bc_relay_idle_timeout = from_secs 30, bc_slow_frame_timeout = from_secs 10,
      bc_close_grace = from_secs 10, bc_max_frame_body = 64 * 1024,
      bc_max_retry_after = from_secs 300, bc_unavailable_retry_after = from_secs 1\<rparr>"

section \<open>Control protocol\<close>

datatype TransferRole = TR_Sender | TR_Receiver

definition complement :: "TransferRole \<Rightarrow> TransferRole" where
  "complement r = (case r of TR_Sender \<Rightarrow> TR_Receiver | TR_Receiver \<Rightarrow> TR_Sender)"

datatype InvitationSide = Creator | Joiner

datatype BootstrapKind = FullTicket | RoomCode

datatype Role = Initiator | Responder

definition RENDEZVOUS_PROTOCOL_VERSION :: u32 where
  "RENDEZVOUS_PROTOCOL_VERSION = 2"

record Join =
  jn_version :: u32
  jn_room_id :: str
  jn_invitation_side :: InvitationSide
  jn_transfer_role :: TransferRole
  jn_bootstrap_methods :: "BootstrapKind list"
  jn_selected_bootstrap_method :: "BootstrapKind option"

record Paired =
  pd_role :: Role
  pd_selected_bootstrap_method :: BootstrapKind

datatype BrokerOutcome =
    RoomNotFound | RoomExpired | RoomFull | RoomRateLimited | RoomUnderAttack
  | EndpointRateLimited | IpRateLimited | ServerBusy | MalformedJoin | UnsupportedJoinVersion

definition outcome_code :: "BrokerOutcome \<Rightarrow> string" where
  "outcome_code outcome =
     (case outcome of
        RoomNotFound \<Rightarrow> ''room_not_found''
      | RoomExpired \<Rightarrow> ''room_expired''
      | RoomFull \<Rightarrow> ''room_full''
      | RoomRateLimited \<Rightarrow> ''room_rate_limited''
      | RoomUnderAttack \<Rightarrow> ''room_under_attack''
      | EndpointRateLimited \<Rightarrow> ''endpoint_rate_limited''
      | IpRateLimited \<Rightarrow> ''ip_rate_limited''
      | ServerBusy \<Rightarrow> ''server_busy''
      | MalformedJoin \<Rightarrow> ''malformed_join''
      | UnsupportedJoinVersion \<Rightarrow> ''unsupported_version'')"

text \<open>\<open>retry_after\<close> in whole seconds.\<close>

record BrokerRejection =
  rj_outcome :: BrokerOutcome
  rj_retry_after :: "nat option"

datatype Reply = Reply_Paired Paired | Reply_Rejected BrokerRejection | Reply_Expired

datatype RendezvousError =
    RE_Io | RE_BadMessage | RE_FrameTooLarge | RE_Expired | RE_Rejected BrokerOutcome | RE_Timeout

section \<open>Room ids\<close>

definition ROOM_ID_LEN :: nat where
  "ROOM_ID_LEN = 6"

definition REMEMBERED_ROOM_ID_PREFIX :: str where
  "REMEMBERED_ROOM_ID_PREFIX = ascii ''r1_''"

definition REMEMBERED_ROOM_ID_ENCODED_LEN :: nat where
  "REMEMBERED_ROOM_ID_ENCODED_LEN = 43"

definition ROOM_CONTROL_LOCATOR_PREFIX :: str where
  "ROOM_CONTROL_LOCATOR_PREFIX = ascii ''c2_''"

definition is_remembered_room_id :: "str \<Rightarrow> bool" where
  "is_remembered_room_id value =
     (case strip_prefix REMEMBERED_ROOM_ID_PREFIX value of
        None \<Rightarrow> False
      | Some encoded \<Rightarrow>
          length encoded = REMEMBERED_ROOM_ID_ENCODED_LEN
          \<and> (\<forall>b \<in> set encoded. is_ascii_alphanumeric b \<or> b = 0x2D \<or> b = 0x5F))"

definition is_room_control_locator :: "str \<Rightarrow> bool" where
  "is_room_control_locator value =
     (case strip_prefix ROOM_CONTROL_LOCATOR_PREFIX value of
        None \<Rightarrow> False
      | Some room_id \<Rightarrow> length room_id = ROOM_ID_LEN \<and> (\<forall>b \<in> set room_id. is_ascii_digit b))"

definition is_invitation_room :: "str \<Rightarrow> bool" where
  "is_invitation_room room_id \<longleftrightarrow> length room_id = ROOM_ID_LEN \<and> (\<forall>b \<in> set room_id. is_ascii_digit b)"

section \<open>Joins\<close>

definition validate_join :: "Join \<Rightarrow> BrokerOutcome + unit" where
  "validate_join j =
     (let remembered_room = is_remembered_room_id (jn_room_id j);
          room_control = is_room_control_locator (jn_room_id j) in
      if jn_version j \<noteq> RENDEZVOUS_PROTOCOL_VERSION then Inl UnsupportedJoinVersion
      else if \<not> is_invitation_room (jn_room_id j) \<and> \<not> remembered_room \<and> \<not> room_control
        then Inl MalformedJoin
      else case jn_invitation_side j of
        Creator \<Rightarrow>
          let valid_methods =
                (if room_control then jn_bootstrap_methods j = [RoomCode] \<and> jn_transfer_role j = TR_Receiver
                 else if remembered_room then jn_bootstrap_methods j = [FullTicket] \<and> jn_transfer_role j = TR_Receiver
                 else jn_bootstrap_methods j = [FullTicket, RoomCode])
          in rejectR (\<not> valid_methods \<or> jn_selected_bootstrap_method j \<noteq> None) MalformedJoin
      | Joiner \<Rightarrow>
          let valid_selection =
                (if room_control then jn_selected_bootstrap_method j = Some RoomCode \<and> jn_transfer_role j = TR_Sender
                 else if remembered_room then jn_selected_bootstrap_method j = Some FullTicket \<and> jn_transfer_role j = TR_Sender
                 else jn_selected_bootstrap_method j \<noteq> None)
          in rejectR (jn_bootstrap_methods j \<noteq> [] \<or> \<not> valid_selection) MalformedJoin)"

text \<open>The comparison once creator and joiner are told apart.\<close>

definition pair_match :: "Join \<Rightarrow> Join \<Rightarrow> BootstrapKind option" where
  "pair_match creator joiner =
     (if complement (jn_transfer_role creator) \<noteq> jn_transfer_role joiner then None
      else case jn_selected_bootstrap_method joiner of
        None \<Rightarrow> None
      | Some selected \<Rightarrow> if selected \<in> set (jn_bootstrap_methods creator) then Some selected else None)"

definition joins_match :: "Join \<Rightarrow> Join \<Rightarrow> BootstrapKind option" where
  "joins_match first second =
     (case (jn_invitation_side first, jn_invitation_side second) of
        (Creator, Joiner) \<Rightarrow> pair_match first second
      | (Joiner, Creator) \<Rightarrow> pair_match second first
      | _ \<Rightarrow> None)"

definition role_for :: "Join \<Rightarrow> Role" where
  "role_for j = (case jn_invitation_side j of Creator \<Rightarrow> Responder | Joiner \<Rightarrow> Initiator)"

section \<open>Retry hints\<close>

definition bounded_retry_after :: "duration \<Rightarrow> duration \<Rightarrow> nat option" where
  "bounded_retry_after retry maximum =
     (if retry = 0 then None
      else let r = min retry maximum in
        Some (min (2 ^ 64 - 1) (r div NANOS_PER_SEC + (if r mod NANOS_PER_SEC > 0 then 1 else 0))))"

section \<open>Token bucket\<close>

record TokenBucket =
  tb_tokens :: rat
  tb_updated :: instant
  tb_policy :: RateLimitConfig

definition bucket_new :: "RateLimitConfig \<Rightarrow> instant \<Rightarrow> TokenBucket" where
  "bucket_new policy now = \<lparr>tb_tokens = f64_from_u32 (rl_burst policy), tb_updated = now, tb_policy = policy\<rparr>"

definition bucket_rate :: "RateLimitConfig \<Rightarrow> rat" where
  "bucket_rate policy = f64_div (f64_from_u32 (rl_events policy)) (as_secs_f64 (rl_period policy))"

definition bucket_refill :: "TokenBucket \<Rightarrow> instant \<Rightarrow> rat" where
  "bucket_refill b now =
     min (f64_add (tb_tokens b) (f64_mul (as_secs_f64 (now - tb_updated b)) (bucket_rate (tb_policy b))))
         (f64_from_u32 (rl_burst (tb_policy b)))"

definition bucket_take :: "TokenBucket \<Rightarrow> instant \<Rightarrow> (duration + unit) \<times> TokenBucket" where
  "bucket_take b now =
     (let tokens = bucket_refill b now; b' = b\<lparr>tb_tokens := tokens, tb_updated := now\<rparr> in
      if tokens \<ge> 1 then (Inr (), b'\<lparr>tb_tokens := f64_sub tokens 1\<rparr>)
      else (Inl (from_secs_f64 (f64_div (f64_sub 1 tokens) (bucket_rate (tb_policy b)))), b'))"

section \<open>Lemmas\<close>

text \<open>A bucket never holds less than nothing or more than its burst.\<close>

definition bucket_ok :: "TokenBucket \<Rightarrow> bool" where
  "bucket_ok b \<longleftrightarrow> 0 \<le> tb_tokens b \<and> tb_tokens b \<le> f64_from_u32 (rl_burst (tb_policy b))"

lemma bucket_ok_new: "bucket_ok (bucket_new policy now)"
  by (simp add: bucket_ok_def bucket_new_def)

lemma bucket_take_policy [simp]: "tb_policy (snd (bucket_take b now)) = tb_policy b"
  by (simp add: bucket_take_def Let_def)

lemma bucket_ok_take: "bucket_ok (snd (bucket_take b now))"
proof -
  let ?burst = "f64_from_u32 (rl_burst (tb_policy b)) :: rat"
  have refill: "0 \<le> bucket_refill b now" "bucket_refill b now \<le> ?burst"
    by (simp_all add: bucket_refill_def f64_add_def)
  have "f64_sub (bucket_refill b now) 1 \<le> f64_round ?burst"
    unfolding f64_sub_def using refill by (intro f64_round_mono) simp
  then have "f64_sub (bucket_refill b now) 1 \<le> ?burst"
    by (simp add: f64_round_u32)
  with refill show ?thesis
    by (simp add: bucket_ok_def bucket_take_def Let_def f64_sub_def)
qed

text \<open>Takes at the instant of the last update, from a whole number of tokens.\<close>

lemma as_secs_f64_0 [simp]: "as_secs_f64 0 = 0"
  by (simp add: as_secs_f64_def f64_add_def f64_div_def f64_round_def)

lemma bucket_take_whole:
  assumes "tb_tokens b = of_nat n" and "n \<le> unat (rl_burst (tb_policy b))" and "tb_updated b = now"
  shows "bucket_take b now =
    (if n \<ge> 1 then (Inr (), b\<lparr>tb_tokens := of_nat (n - 1)\<rparr>)
     else (Inl (from_secs_f64 (f64_div 1 (bucket_rate (tb_policy b)))), b))"
proof -
  have small: "n < 2 ^ 53"
    using assms(2) unat_bound [of "rl_burst (tb_policy b)"] by simp
  have refill: "bucket_refill b now = of_nat n"
    using assms small
    by (simp add: bucket_refill_def f64_add_def f64_mul_def f64_round_of_nat min_def)
  have "f64_sub (of_nat n) 1 = of_nat (n - 1)" if "n \<ge> 1"
  proof -
    have "(of_nat n :: rat) - 1 = of_nat (n - 1)"
      using that by (simp add: of_nat_diff)
    moreover have "n - 1 < 2 ^ 53"
      using small by linarith
    ultimately show ?thesis
      by (simp only: f64_sub_def f64_round_of_nat)
  qed
  moreover have "f64_sub 1 0 = 1"
    unfolding f64_sub_def using f64_round_of_nat [of 1] by simp
  ultimately show ?thesis
    using assms by (cases "n = 0") (auto simp: bucket_take_def Let_def refill)
qed

lemma bounded_retry_after_le:
  "bounded_retry_after retry maximum = Some s \<Longrightarrow> s \<le> (maximum + NANOS_PER_SEC - 1) div NANOS_PER_SEC"
proof -
  assume "bounded_retry_after retry maximum = Some s"
  then have s: "s \<le> min retry maximum div NANOS_PER_SEC + (if min retry maximum mod NANOS_PER_SEC > 0 then 1 else 0)"
    by (auto simp: bounded_retry_after_def Let_def split: if_splits)
  have "r div NANOS_PER_SEC + (if r mod NANOS_PER_SEC > 0 then 1 else 0) \<le> (r + (NANOS_PER_SEC - 1)) div NANOS_PER_SEC" for r
  proof -
    define q k where "q = r div NANOS_PER_SEC" and "k = r mod NANOS_PER_SEC"
    have "r = q * NANOS_PER_SEC + k" and pos: "0 < NANOS_PER_SEC"
      by (simp_all add: q_def k_def NANOS_PER_SEC_def)
    then show ?thesis
      unfolding q_def [symmetric] k_def [symmetric] less_eq_div_iff_mult_less_eq [OF pos]
      by (auto simp: distrib_right)
  qed
  with s have "s \<le> (min retry maximum + (NANOS_PER_SEC - 1)) div NANOS_PER_SEC"
    by (rule order.trans)
  also have "\<dots> \<le> (maximum + (NANOS_PER_SEC - 1)) div NANOS_PER_SEC"
    by (intro div_le_mono) simp
  finally show ?thesis
    by (simp add: NANOS_PER_SEC_def)
qed

lemma config_validateD:
  assumes "config_validate c = Inr u"
  shows "bc_max_connections_per_room c \<ge> 2" "bc_room_attempt_limit c \<noteq> 0"
    "bc_max_connections_per_endpoint c \<ge> 1" "bc_unavailable_retry_after c \<le> bc_max_retry_after c"
    "bc_max_waiting_creators c \<le> bc_max_room_states c"
  using assms by (auto simp: config_validate_def)

end
