(* ===== verification/Ledger.thy ===== *)
theory Ledger
  imports Main
begin

text \<open>
  The contract of the broker's drop guards: a counter per key that each dropped guard lowers by
  one, saturating at zero. Clients acquire guards in their own way; whatever the order in which a
  multiset of guards is dropped, the counters end lower by its multiplicities.
\<close>

locale ledger =
  fixes held :: "'s \<Rightarrow> 'k \<Rightarrow> nat"
    and release :: "'k \<Rightarrow> 's \<Rightarrow> 's"
  assumes held_release: "held (release k s) k' = (if k' = k then held s k - 1 else held s k')"
begin

lemma held_fold: "held (fold release ks s) k = held s k - count_list ks k"
  by (induction ks arbitrary: s) (auto simp: held_release)

lemma released_all: "held s k = count_list ks k \<Longrightarrow> held (fold release ks s) k = 0"
  by (simp add: held_fold)

lemma release_commute: "held (release k (release k' s)) x = held (release k' (release k s)) x"
  by (auto simp: held_release)

end

end
