(* ===== verification/Broker_Sources.thy ===== *)
theory Broker_Sources
  imports Broker_Types Ledger "HOL-Library.AList"
begin

text \<open>
  \<open>SourceTracker\<close> of \<open>crates/envoix-rendezvous/src/broker.rs\<close>: admission of connections by
  authenticated endpoint, address and prefix. The \<open>HashMap\<close> is an association list with distinct
  keys. A \<open>SourceGuard\<close> is the endpoint key it releases when its connection is dropped; the step
  relation keeps the guards that are alive.
\<close>

section \<open>Data\<close>

datatype IpAddr = IpV4 u8 u8 u8 u8 | IpV6 bytes

datatype IpPrefix = PrefixV4 u8 u8 u8 | PrefixV6 bytes

definition ip_prefix :: "IpAddr \<Rightarrow> IpPrefix" where
  "ip_prefix ip = (case ip of IpV4 a b c _ \<Rightarrow> PrefixV4 a b c | IpV6 octets \<Rightarrow> PrefixV6 (take 8 octets))"

record PeerSource =
  ps_endpoint_id :: bytes
  ps_direct_ip :: "IpAddr option"

datatype SourceKey = Key_Endpoint bytes | Key_Ip IpAddr | Key_Prefix IpPrefix

datatype SourceKind = Kind_Endpoint | Kind_Ip | Kind_Prefix

record SourceState =
  ss_bucket :: TokenBucket
  ss_active_connections :: nat
  ss_last_seen :: instant

record SourceTracker =
  tr_entries :: "(SourceKey \<times> SourceState) list"
  tr_config :: BrokerConfig

section \<open>Operations\<close>

definition tracker_new :: "BrokerConfig \<Rightarrow> SourceTracker" where
  "tracker_new config = \<lparr>tr_entries = [], tr_config = config\<rparr>"

definition source_policy :: "SourceTracker \<Rightarrow> SourceKind \<Rightarrow> RateLimitConfig" where
  "source_policy t kind =
     (case kind of
        Kind_Endpoint \<Rightarrow> bc_endpoint_join_rate (tr_config t)
      | Kind_Ip \<Rightarrow> bc_ip_join_rate (tr_config t)
      | Kind_Prefix \<Rightarrow> bc_subnet_join_rate (tr_config t))"

definition source_rejection :: "SourceTracker \<Rightarrow> BrokerOutcome \<Rightarrow> duration \<Rightarrow> BrokerRejection" where
  "source_rejection t outcome retry_after =
     \<lparr>rj_outcome = outcome,
      rj_retry_after = bounded_retry_after retry_after (bc_max_retry_after (tr_config t))\<rparr>"

text \<open>\<open>missing\<close> is counted before stale entries are dropped, as in the source.\<close>

definition ensure_capacity ::
  "(SourceKey \<times> SourceKind) list \<Rightarrow> instant \<Rightarrow> SourceTracker \<Rightarrow> (BrokerRejection + unit) \<times> SourceTracker" where
  "ensure_capacity keys now t =
     (let missing = length (filter (\<lambda>(key, _). map_of (tr_entries t) key = None) keys);
          maximum = bc_max_source_states (tr_config t) in
      if length (tr_entries t) + missing \<le> maximum then (Inr (), t)
      else let t' = t\<lparr>tr_entries := filter (\<lambda>(_, s). ss_active_connections s > 0
                        \<or> now - ss_last_seen s < bc_source_state_ttl (tr_config t)) (tr_entries t)\<rparr> in
        if length (tr_entries t') + missing > maximum
        then (Inl (source_rejection t' ServerBusy (bc_unavailable_retry_after (tr_config t))), t')
        else (Inr (), t'))"

text \<open>One round of the debit loops: the entry is created if need be, then its bucket is debited.\<close>

definition kind_outcome :: "SourceKind \<Rightarrow> BrokerOutcome" where
  "kind_outcome kind =
     (case kind of Kind_Endpoint \<Rightarrow> EndpointRateLimited | Kind_Ip \<Rightarrow> IpRateLimited | Kind_Prefix \<Rightarrow> IpRateLimited)"

definition source_entry :: "SourceTracker \<Rightarrow> SourceKey \<Rightarrow> SourceKind \<Rightarrow> instant \<Rightarrow> SourceState" where
  "source_entry t key kind now =
     (case map_of (tr_entries t) key of
        Some s \<Rightarrow> s
      | None \<Rightarrow> \<lparr>ss_bucket = bucket_new (source_policy t kind) now, ss_active_connections = 0,
                 ss_last_seen = now\<rparr>)"

definition debit_source ::
  "SourceKey \<times> SourceKind \<Rightarrow> instant \<Rightarrow> SourceTracker \<Rightarrow> (BrokerRejection + unit) \<times> SourceTracker" where
  "debit_source k now t =
     (let (key, kind) = k;
          state = source_entry t key kind now;
          (taken, bucket) = bucket_take (ss_bucket state) now;
          t' = t\<lparr>tr_entries := AList.update key (state\<lparr>ss_last_seen := now, ss_bucket := bucket\<rparr>) (tr_entries t)\<rparr> in
      (case taken of
         Inr _ \<Rightarrow> (Inr (), t')
       | Inl retry_after \<Rightarrow> (Inl (source_rejection t' (kind_outcome kind) retry_after), t')))"

fun debit_sources ::
  "(SourceKey \<times> SourceKind) list \<Rightarrow> instant \<Rightarrow> SourceTracker \<Rightarrow> (BrokerRejection + unit) \<times> SourceTracker" where
  "debit_sources [] now t = (Inr (), t)"
| "debit_sources (k # ks) now t =
     (case debit_source k now t of
        (Inl r, t') \<Rightarrow> (Inl r, t')
      | (Inr _, t') \<Rightarrow> debit_sources ks now t')"

definition source_keys :: "PeerSource \<Rightarrow> (SourceKey \<times> SourceKind) list" where
  "source_keys source =
     (Key_Endpoint (ps_endpoint_id source), Kind_Endpoint)
     # (case ps_direct_ip source of
          None \<Rightarrow> []
        | Some ip \<Rightarrow> [(Key_Ip ip, Kind_Ip), (Key_Prefix (ip_prefix ip), Kind_Prefix)])"

definition active_of :: "SourceTracker \<Rightarrow> SourceKey \<Rightarrow> nat" where
  "active_of t key = (case map_of (tr_entries t) key of None \<Rightarrow> 0 | Some s \<Rightarrow> ss_active_connections s)"

definition set_active :: "SourceKey \<Rightarrow> (nat \<Rightarrow> nat) \<Rightarrow> SourceTracker \<Rightarrow> SourceTracker" where
  "set_active key f t =
     (case map_of (tr_entries t) key of
        None \<Rightarrow> t
      | Some s \<Rightarrow> t\<lparr>tr_entries := AList.update key
          (s\<lparr>ss_active_connections := f (ss_active_connections s)\<rparr>) (tr_entries t)\<rparr>)"

definition admit ::
  "SourceTracker \<Rightarrow> PeerSource \<Rightarrow> instant \<Rightarrow> (BrokerRejection + SourceKey) \<times> SourceTracker" where
  "admit t source now =
     (let keys = source_keys source; endpoint_key = Key_Endpoint (ps_endpoint_id source) in
      case ensure_capacity keys now t of
        (Inl r, t1) \<Rightarrow> (Inl r, t1)
      | (Inr _, t1) \<Rightarrow>
          if map_of (tr_entries t1) endpoint_key \<noteq> None
             \<and> active_of t1 endpoint_key \<ge> bc_max_connections_per_endpoint (tr_config t1)
          then (Inl (source_rejection t1 EndpointRateLimited (bc_unavailable_retry_after (tr_config t1))), t1)
          else case debit_sources keys now t1 of
            (Inl r, t2) \<Rightarrow> (Inl r, t2)
          | (Inr _, t2) \<Rightarrow> (Inr endpoint_key, set_active endpoint_key Suc t2))"

definition observe_direct ::
  "IpAddr \<Rightarrow> instant \<Rightarrow> SourceTracker \<Rightarrow> (BrokerRejection + unit) \<times> SourceTracker" where
  "observe_direct ip now t =
     (let keys = [(Key_Ip ip, Kind_Ip), (Key_Prefix (ip_prefix ip), Kind_Prefix)] in
      case ensure_capacity keys now t of
        (Inl r, t1) \<Rightarrow> (Inl r, t1)
      | (Inr _, t1) \<Rightarrow> debit_sources keys now t1)"

text \<open>\<open>Drop for SourceGuard\<close>; subtraction on naturals saturates as \<open>saturating_sub\<close> does.\<close>

definition drop_source_guard :: "SourceKey \<Rightarrow> SourceTracker \<Rightarrow> SourceTracker" where
  "drop_source_guard key t = set_active key (\<lambda>n. n - 1) t"

section \<open>Steps\<close>

text \<open>The tracker and the guards alive, under every order of admissions, observations and drops.\<close>

type_synonym source_system = "SourceTracker \<times> SourceKey list"

inductive source_step :: "source_system \<Rightarrow> source_system \<Rightarrow> bool" where
  admitted: "admit t source now = (Inr key, t') \<Longrightarrow> source_step (t, guards) (t', key # guards)"
| refused: "admit t source now = (Inl r, t') \<Longrightarrow> source_step (t, guards) (t', guards)"
| observed: "observe_direct ip now t = (res, t') \<Longrightarrow> source_step (t, guards) (t', guards)"
| dropped: "key \<in> set guards \<Longrightarrow> source_step (t, guards) (drop_source_guard key t, remove1 key guards)"

inductive source_reachable :: "BrokerConfig \<Rightarrow> source_system \<Rightarrow> bool" for config where
  start: "source_reachable config (tracker_new config, [])"
| step: "source_reachable config s \<Longrightarrow> source_step s s' \<Longrightarrow> source_reachable config s'"

section \<open>Entries\<close>

lemma count_list_remove1:
  "count_list (remove1 x xs) y = (if x = y then count_list xs y - 1 else count_list xs y)"
  by (induction xs) (auto simp: count_list_0_iff)

lemma distinct_filter_keys: "distinct (map fst al) \<Longrightarrow> distinct (map fst (filter P al))"
  by (induction al) auto

lemma map_of_filter_distinct:
  "distinct (map fst al) \<Longrightarrow> map_of (filter P al) k
     = (case map_of al k of None \<Rightarrow> None | Some v \<Rightarrow> if P (k, v) then Some v else None)"
proof (induction al)
  case Nil
  then show ?case by simp
next
  case (Cons x al)
  obtain a b where x: "x = (a, b)" by (cases x)
  have "map_of (filter P al) a = None" if "a \<notin> fst ` set al"
    using that by (auto simp: map_of_eq_None_iff)
  with Cons show ?case
    by (auto simp: x split: option.splits)
qed

lemma length_update:
  "length (AList.update k v al) = (if map_of al k = None then Suc (length al) else length al)"
  by (induction al) auto

lemma set_update_subset: "set (AList.update k v al) \<subseteq> insert (k, v) (set al)"
  by (induction al) auto

text \<open>What every operation keeps: distinct keys, buckets within their burst, the configuration.\<close>

definition tracker_ok :: "BrokerConfig \<Rightarrow> SourceTracker \<Rightarrow> bool" where
  "tracker_ok config t \<longleftrightarrow> tr_config t = config \<and> distinct (map fst (tr_entries t))
     \<and> (\<forall>(key, s) \<in> set (tr_entries t). bucket_ok (ss_bucket s))"

lemma tracker_okI_update:
  assumes "tracker_ok config t" and "bucket_ok (ss_bucket s)"
  shows "tracker_ok config (t\<lparr>tr_entries := AList.update key s (tr_entries t)\<rparr>)"
proof -
  have "distinct (map fst (AList.update key s (tr_entries t)))"
    using assms(1) by (simp add: tracker_ok_def distinct_update)
  moreover have "set (AList.update key s (tr_entries t)) \<subseteq> insert (key, s) (set (tr_entries t))"
    by (rule set_update_subset)
  ultimately show ?thesis
    using assms unfolding tracker_ok_def by auto
qed

lemma bucket_ok_entry: "tracker_ok config t \<Longrightarrow> map_of (tr_entries t) key = Some s \<Longrightarrow> bucket_ok (ss_bucket s)"
  by (auto simp: tracker_ok_def dest: map_of_SomeD)

lemma ensure_capacity_facts:
  assumes "ensure_capacity keys now t = (res, t')" and "tracker_ok config t"
  shows "tracker_ok config t'" and "active_of t' key = active_of t key"
    and "length (tr_entries t') \<le> length (tr_entries t)"
    and "res = Inr u \<Longrightarrow> length (tr_entries t') \<le> bc_max_source_states config"
proof -
  let ?P = "\<lambda>(_, s). ss_active_connections s > 0 \<or> now - ss_last_seen s < bc_source_state_ttl (tr_config t)"
  let ?kept = "t\<lparr>tr_entries := filter ?P (tr_entries t)\<rparr>"
  have t': "t' = t \<or> t' = ?kept"
    and size: "res = Inr u \<Longrightarrow> length (tr_entries t') \<le> bc_max_source_states config" for u
    using assms by (auto simp: ensure_capacity_def Let_def tracker_ok_def split: if_splits)
  show "res = Inr u \<Longrightarrow> length (tr_entries t') \<le> bc_max_source_states config"
    by (rule size)
  show "tracker_ok config t'"
    using t' assms(2) by (auto simp: tracker_ok_def distinct_filter_keys)
  show "length (tr_entries t') \<le> length (tr_entries t)"
    using t' by auto
  have "active_of ?kept key = active_of t key"
    using assms(2) by (auto simp: active_of_def tracker_ok_def map_of_filter_distinct split: option.splits)
  with t' show "active_of t' key = active_of t key" by auto
qed

lemma debit_source_facts:
  assumes "debit_source k now t = (res, t')" and "tracker_ok config t"
  shows "tracker_ok config t'" and "active_of t' key = active_of t key"
    and "length (tr_entries t') \<le> Suc (length (tr_entries t))"
    and "map_of (tr_entries t') key \<noteq> None \<longleftrightarrow> key = fst k \<or> map_of (tr_entries t) key \<noteq> None"
proof -
  obtain key' kind where k: "k = (key', kind)" by (cases k)
  define state where "state = source_entry t key' kind now"
  define bucket where "bucket = snd (bucket_take (ss_bucket state) now)"
  have t': "t' = t\<lparr>tr_entries := AList.update key' (state\<lparr>ss_last_seen := now, ss_bucket := bucket\<rparr>) (tr_entries t)\<rparr>"
    using assms(1) by (auto simp: debit_source_def Let_def k state_def bucket_def split: prod.splits sum.splits)
  have ok: "bucket_ok bucket"
    unfolding bucket_def by (rule bucket_ok_take)
  show "tracker_ok config t'"
    unfolding t' using assms(2) by (rule tracker_okI_update) (simp add: ok)
  show "active_of t' key = active_of t key"
    by (auto simp: t' active_of_def update_conv' state_def source_entry_def split: option.splits)
  show "length (tr_entries t') \<le> Suc (length (tr_entries t))"
    by (simp add: t' length_update)
  show "map_of (tr_entries t') key \<noteq> None \<longleftrightarrow> key = fst k \<or> map_of (tr_entries t) key \<noteq> None"
    by (auto simp: t' k update_conv')
qed

lemma debit_sources_facts:
  "debit_sources ks now t = (res, t') \<Longrightarrow> tracker_ok config t \<Longrightarrow>
     tracker_ok config t' \<and> active_of t' key = active_of t key
     \<and> length (tr_entries t') \<le> length (tr_entries t) + length ks
     \<and> (map_of (tr_entries t) key \<noteq> None \<longrightarrow> map_of (tr_entries t') key \<noteq> None)
     \<and> (res = Inr () \<longrightarrow> key \<in> fst ` set ks \<longrightarrow> map_of (tr_entries t') key \<noteq> None)"
proof (induction ks arbitrary: t)
  case Nil
  then show ?case by auto
next
  case (Cons k ks)
  obtain r t1 where d: "debit_source k now t = (r, t1)" by (cases "debit_source k now t")
  note facts = debit_source_facts [OF d Cons.prems(2)]
  show ?case
  proof (cases r)
    case (Inl e)
    with Cons.prems(1) d have "t' = t1" "res = Inl e" by simp_all
    then show ?thesis
      using facts(1,3) facts(2) [of key] facts(4) [of key] by simp
  next
    case (Inr u)
    with Cons.prems(1) d have "debit_sources ks now t1 = (res, t')" by simp
    from Cons.IH [OF this facts(1)] show ?thesis
      using facts(3) facts(2) [of key] facts(4) [of key] by auto
  qed
qed

lemma set_active_facts:
  shows "tracker_ok config t \<Longrightarrow> tracker_ok config (set_active key f t)"
    and "active_of (set_active key f t) key' =
      (if key' = key \<and> map_of (tr_entries t) key \<noteq> None then f (active_of t key) else active_of t key')"
    and "length (tr_entries (set_active key f t)) = length (tr_entries t)"
  by (auto simp: set_active_def active_of_def update_conv' length_update bucket_ok_entry
      intro!: tracker_okI_update split: option.splits)

interpretation source_ledger: ledger active_of drop_source_guard
proof
  fix k k' t
  have "active_of t k = 0" if "map_of (tr_entries t) k = None"
    by (simp add: active_of_def that)
  then show "active_of (drop_source_guard k t) k' = (if k' = k then active_of t k - 1 else active_of t k')"
    unfolding drop_source_guard_def set_active_facts(2) by auto
qed

section \<open>Invariant of the tracker\<close>

definition source_inv :: "BrokerConfig \<Rightarrow> source_system \<Rightarrow> bool" where
  "source_inv config = (\<lambda>(t, guards).
     tracker_ok config t
     \<and> (\<forall>key. active_of t key = count_list guards key)
     \<and> (\<forall>key. active_of t key \<le> bc_max_connections_per_endpoint config)
     \<and> length (tr_entries t) \<le> bc_max_source_states config + 3)"

lemma length_source_keys: "length (source_keys source) \<le> 3"
  by (simp add: source_keys_def split: option.splits)

text \<open>An admission keeps the accounts; it adds one connection exactly when it returns a guard.\<close>

lemma admit_facts:
  assumes "admit t source now = (res, t')" and "tracker_ok config t"
    and "length (tr_entries t) \<le> bc_max_source_states config + 3"
  shows "tracker_ok config t'" and "length (tr_entries t') \<le> bc_max_source_states config + 3"
    and "case res of
        Inl r \<Rightarrow> (\<forall>key. active_of t' key = active_of t key)
      | Inr k \<Rightarrow> k = Key_Endpoint (ps_endpoint_id source)
          \<and> (\<forall>key. active_of t' key = (if key = k then Suc (active_of t k) else active_of t key))
          \<and> (active_of t k < bc_max_connections_per_endpoint config \<or> active_of t k = 0)"
proof -
  let ?k = "Key_Endpoint (ps_endpoint_id source)"
  obtain r1 t1 where e: "ensure_capacity (source_keys source) now t = (r1, t1)"
    by (cases "ensure_capacity (source_keys source) now t")
  note ef = ensure_capacity_facts [OF e assms(2)]
  have cfg: "tr_config t1 = config"
    using ef(1) by (simp add: tracker_ok_def)
  obtain r2 t2 where d: "debit_sources (source_keys source) now t1 = (r2, t2)"
    by (cases "debit_sources (source_keys source) now t1")
  note df = debit_sources_facts [OF d ef(1)]
  have size: "length (tr_entries t2) \<le> bc_max_source_states config + 3" if "r1 = Inr ()"
    using df [of ?k] ef(4) [OF that] length_source_keys [of source] by linarith
  have size1: "length (tr_entries t1) \<le> bc_max_source_states config + 3"
    using ef(3) assms(3) by linarith
  have present: "map_of (tr_entries t2) ?k \<noteq> None" if "r2 = Inr ()"
    using df [of ?k] that by (simp add: source_keys_def)
  have cap: "active_of t ?k < bc_max_connections_per_endpoint config \<or> active_of t ?k = 0"
    if "\<not> (map_of (tr_entries t1) ?k \<noteq> None \<and> active_of t1 ?k \<ge> bc_max_connections_per_endpoint config)"
    using that ef(2) [of ?k] by (auto simp: active_of_def)
  show "tracker_ok config t'" "length (tr_entries t') \<le> bc_max_source_states config + 3"
    using assms(1) e d ef(1) df [of ?k] size size1
    by (auto simp: admit_def Let_def set_active_facts split: sum.splits if_splits)
  show "case res of
        Inl r \<Rightarrow> (\<forall>key. active_of t' key = active_of t key)
      | Inr k \<Rightarrow> k = ?k
          \<and> (\<forall>key. active_of t' key = (if key = k then Suc (active_of t k) else active_of t key))
          \<and> (active_of t k < bc_max_connections_per_endpoint config \<or> active_of t k = 0)"
    using assms(1) e d ef(2) df present cap
    by (auto simp: admit_def Let_def set_active_facts cfg split: sum.splits if_splits)
qed

lemma observe_direct_facts:
  assumes "observe_direct ip now t = (res, t')" and "tracker_ok config t"
    and "length (tr_entries t) \<le> bc_max_source_states config + 3"
  shows "tracker_ok config t'" and "length (tr_entries t') \<le> bc_max_source_states config + 3"
    and "active_of t' key = active_of t key"
proof -
  let ?keys = "[(Key_Ip ip, Kind_Ip), (Key_Prefix (ip_prefix ip), Kind_Prefix)]"
  obtain r1 t1 where e: "ensure_capacity ?keys now t = (r1, t1)"
    by (cases "ensure_capacity ?keys now t")
  note ef = ensure_capacity_facts [OF e assms(2)]
  obtain r2 t2 where d: "debit_sources ?keys now t1 = (r2, t2)"
    by (cases "debit_sources ?keys now t1")
  note df = debit_sources_facts [OF d ef(1), of key]
  have t': "t' = t1 \<or> r1 = Inr () \<and> t' = t2"
    using assms(1) e d by (auto simp: observe_direct_def Let_def split: sum.splits)
  show "tracker_ok config t'" "active_of t' key = active_of t key"
    using t' ef(1,2) df by auto
  show "length (tr_entries t') \<le> bc_max_source_states config + 3"
    using t' ef(3,4) df assms(3) by auto
qed

lemma source_inv_step:
  assumes "source_step s s'" and "source_inv config s" and "bc_max_connections_per_endpoint config \<ge> 1"
  shows "source_inv config s'"
  using assms(1)
proof cases
  case (admitted t source now key t' guards)
  have inv: "tracker_ok config t" "\<forall>k. active_of t k = count_list guards k"
    "\<forall>k. active_of t k \<le> bc_max_connections_per_endpoint config"
    "length (tr_entries t) \<le> bc_max_source_states config + 3"
    using assms(2) by (auto simp: source_inv_def admitted)
  note facts = admit_facts [OF admitted(3) inv(1,4)]
  have "active_of t' k = (if k = key then Suc (active_of t key) else active_of t k)" for k
    using facts(3) by auto
  then have "\<forall>k. active_of t' k = count_list (key # guards) k"
    "\<forall>k. active_of t' k \<le> bc_max_connections_per_endpoint config"
    using inv(2,3) facts(3) assms(3) by auto
  with facts(1,2) show ?thesis
    by (simp add: source_inv_def admitted(2))
next
  case (refused t source now r t' guards)
  have inv: "tracker_ok config t" "length (tr_entries t) \<le> bc_max_source_states config + 3"
    using assms(2) by (auto simp: source_inv_def refused)
  from admit_facts [OF refused(3) inv] show ?thesis
    using assms(2) by (auto simp: source_inv_def refused)
next
  case (observed ip now t res t' guards)
  have inv: "tracker_ok config t" "length (tr_entries t) \<le> bc_max_source_states config + 3"
    using assms(2) by (auto simp: source_inv_def observed)
  from observe_direct_facts [OF observed(3) inv] show ?thesis
    using assms(2) by (auto simp: source_inv_def observed)
next
  case (dropped key guards t)
  have inv: "\<forall>k. active_of t k = count_list guards k"
    using assms(2) by (auto simp: source_inv_def dropped)
  have "map_of (tr_entries t) key \<noteq> None"
  proof
    assume "map_of (tr_entries t) key = None"
    then have "count_list guards key = 0"
      using inv by (metis active_of_def option.simps(4))
    with dropped(3) show False by (simp add: count_list_0_iff)
  qed
  then show ?thesis
    using assms(2) inv by (auto simp: source_inv_def dropped drop_source_guard_def set_active_facts count_list_remove1
        intro: le_trans diff_le_self)
qed

lemma source_inv_reachable:
  assumes "source_reachable config s" and "bc_max_connections_per_endpoint config \<ge> 1"
  shows "source_inv config s"
  using assms(1)
proof induction
  case start
  show ?case
    by (simp add: source_inv_def tracker_new_def tracker_ok_def active_of_def)
next
  case (step s s')
  then show ?case
    using source_inv_step assms(2) by blast
qed

end
