(* ===== verification/Broker_Rooms.thy ===== *)
theory Broker_Rooms
  imports Broker_Sources
begin

text \<open>
  \<open>RoomRegistry\<close> of \<open>crates/envoix-rendezvous/src/broker.rs\<close>: the rooms under the registry's
  mutex. Each function that takes the lock is one transition on \<open>Registry\<close>, with the instant it
  reads as an argument; the step relation interleaves them.

  The identifiers drawn from \<open>next_id\<close> are natural numbers: the 64-bit counter grows by two per
  creator. A \<open>RoomSlotGuard\<close> is the pair of room id and instance it releases when its connection is
  dropped. Whether the creator still listens when a joiner is handed over (the outcome of the
  oneshot \<open>send\<close>) is the argument \<open>alive\<close>.
\<close>

section \<open>Data\<close>

record BrokerMetrics =
  mx_matches :: u64
  mx_exhausted_rooms :: u64
  mx_expired_rooms :: u64
  mx_room_not_found_rejections :: u64
  mx_room_full_rejections :: u64
  mx_room_rate_limit_rejections :: u64
  mx_endpoint_rate_limit_rejections :: u64
  mx_ip_rate_limit_rejections :: u64
  mx_server_busy_rejections :: u64
  mx_timeouts :: u64
  mx_malformed_joins :: u64
  mx_unsupported_versions :: u64
  mx_oversized_frames :: u64

definition metrics_zero :: BrokerMetrics where
  "metrics_zero =
     \<lparr>mx_matches = 0, mx_exhausted_rooms = 0, mx_expired_rooms = 0, mx_room_not_found_rejections = 0,
      mx_room_full_rejections = 0, mx_room_rate_limit_rejections = 0,
      mx_endpoint_rate_limit_rejections = 0, mx_ip_rate_limit_rejections = 0,
      mx_server_busy_rejections = 0, mx_timeouts = 0, mx_malformed_joins = 0,
      mx_unsupported_versions = 0, mx_oversized_frames = 0\<rparr>"

definition metrics_rejection :: "BrokerOutcome \<Rightarrow> BrokerMetrics \<Rightarrow> BrokerMetrics" where
  "metrics_rejection outcome mx =
     (case outcome of
        RoomNotFound \<Rightarrow> mx\<lparr>mx_room_not_found_rejections := mx_room_not_found_rejections mx + 1\<rparr>
      | RoomFull \<Rightarrow> mx\<lparr>mx_room_full_rejections := mx_room_full_rejections mx + 1\<rparr>
      | RoomRateLimited \<Rightarrow> mx\<lparr>mx_room_rate_limit_rejections := mx_room_rate_limit_rejections mx + 1\<rparr>
      | EndpointRateLimited \<Rightarrow>
          mx\<lparr>mx_endpoint_rate_limit_rejections := mx_endpoint_rate_limit_rejections mx + 1\<rparr>
      | IpRateLimited \<Rightarrow> mx\<lparr>mx_ip_rate_limit_rejections := mx_ip_rate_limit_rejections mx + 1\<rparr>
      | ServerBusy \<Rightarrow> mx\<lparr>mx_server_busy_rejections := mx_server_busy_rejections mx + 1\<rparr>
      | _ \<Rightarrow> mx)"

record Waiter =
  wt_id :: nat
  wt_join :: Join

datatype RoomStatus = Live | Expired (purge_at: instant) | Exhausted (purge_at: instant)

record RoomState =
  rm_instance :: nat
  rm_expires_at :: instant
  rm_attempts :: nat
  rm_consumed :: bool
  rm_attempt_rate :: TokenBucket
  rm_active_connections :: nat
  rm_waiter :: "Waiter option"
  rm_status :: RoomStatus
  rm_short_code :: bool

type_synonym rooms = "(str \<times> RoomState) list"

type_synonym slot_guard = "str \<times> nat"

record Registry =
  rg_rooms :: rooms
  rg_next_id :: nat
  rg_metrics :: BrokerMetrics

definition registry_new :: Registry where
  "registry_new = \<lparr>rg_rooms = [], rg_next_id = 0, rg_metrics = metrics_zero\<rparr>"

datatype CreatorDecision =
    Parked (parked_waiter: nat) (parked_expires_at: instant) (parked_guard: slot_guard)
  | CreatorRejected BrokerRejection

text \<open>
  A joiner is handed to the creator with its guard, or rejected; the connection a failed handover
  returns still holds the guard.
\<close>

datatype JoinerDecision =
    Handed slot_guard Waiter
  | JoinerRejected BrokerRejection "slot_guard option"

section \<open>Operations under the lock\<close>

definition room_rejection :: "BrokerConfig \<Rightarrow> BrokerOutcome \<Rightarrow> duration option \<Rightarrow> BrokerRejection" where
  "room_rejection config outcome retry_after =
     \<lparr>rj_outcome = outcome,
      rj_retry_after = Option.bind retry_after (\<lambda>r. bounded_retry_after r (bc_max_retry_after config))\<rparr>"

definition sweep_due :: "instant \<Rightarrow> RoomState \<Rightarrow> bool" where
  "sweep_due now room \<longleftrightarrow> rm_status room = Live \<and> \<not> rm_consumed room \<and> now \<ge> rm_expires_at room"

definition sweep_room :: "BrokerConfig \<Rightarrow> instant \<Rightarrow> RoomState \<Rightarrow> RoomState" where
  "sweep_room config now room =
     (if sweep_due now room
      then room\<lparr>rm_waiter := None, rm_status := Expired (now + bc_room_tombstone_ttl config)\<rparr>
      else room)"

definition sweep_keep :: "instant \<Rightarrow> RoomState \<Rightarrow> bool" where
  "sweep_keep now room =
     (case rm_status room of
        Live \<Rightarrow> True
      | Expired purge \<Rightarrow> rm_active_connections room > 0 \<or> now < purge
      | Exhausted purge \<Rightarrow> rm_active_connections room > 0 \<or> now < purge)"

definition sweep_rooms :: "BrokerConfig \<Rightarrow> instant \<Rightarrow> Registry \<Rightarrow> Registry" where
  "sweep_rooms config now reg =
     reg\<lparr>rg_rooms := filter (\<lambda>(_, room). sweep_keep now room)
           (map (\<lambda>(id, room). (id, sweep_room config now room)) (rg_rooms reg)),
         rg_metrics := (rg_metrics reg)\<lparr>mx_expired_rooms := mx_expired_rooms (rg_metrics reg)
           + word_of_nat (length (filter (\<lambda>(_, room). sweep_due now room) (rg_rooms reg)))\<rparr>\<rparr>"

definition waiting_creators :: "rooms \<Rightarrow> nat" where
  "waiting_creators rooms = length (filter (\<lambda>(_, room). rm_waiter room \<noteq> None) rooms)"

definition new_room :: "BrokerConfig \<Rightarrow> instant \<Rightarrow> str \<Rightarrow> nat \<Rightarrow> RoomState" where
  "new_room config now room_id instance_id =
     \<lparr>rm_instance = instance_id, rm_expires_at = now + bc_room_ttl config, rm_attempts = 0,
      rm_consumed = False, rm_attempt_rate = bucket_new (bc_room_attempt_rate config) now,
      rm_active_connections = 0, rm_waiter = None, rm_status = Live,
      rm_short_code = (\<not> is_remembered_room_id room_id)\<rparr>"

text \<open>\<open>park_creator\<close>; its caller has the room at hand.\<close>

definition park_creator :: "str \<Rightarrow> Join \<Rightarrow> RoomState \<Rightarrow> Registry \<Rightarrow> CreatorDecision \<times> Registry" where
  "park_creator room_id join room reg =
     (let waiter_id = rg_next_id reg;
          room' = room\<lparr>rm_waiter := Some \<lparr>wt_id = waiter_id, wt_join = join\<rparr>,
                       rm_active_connections := rm_active_connections room + 1\<rparr> in
      (Parked waiter_id (rm_expires_at room) (room_id, rm_instance room),
       reg\<lparr>rg_next_id := waiter_id + 1, rg_rooms := AList.update room_id room' (rg_rooms reg)\<rparr>))"

definition creator_obstacle :: "BrokerConfig \<Rightarrow> RoomState \<Rightarrow> BrokerOutcome option" where
  "creator_obstacle config room =
     (case rm_status room of
        Expired _ \<Rightarrow> Some RoomExpired
      | Exhausted _ \<Rightarrow> Some RoomUnderAttack
      | Live \<Rightarrow>
          if rm_consumed room then Some RoomFull
          else if rm_waiter room \<noteq> None \<or> rm_active_connections room \<ge> bc_max_connections_per_room config
          then Some RoomFull
          else None)"

definition status_rejection :: "BrokerConfig \<Rightarrow> BrokerOutcome \<Rightarrow> BrokerRejection" where
  "status_rejection config outcome =
     room_rejection config outcome
       (if outcome = RoomFull then Some (bc_unavailable_retry_after config) else None)"

definition creator_decision ::
  "BrokerConfig \<Rightarrow> instant \<Rightarrow> Join \<Rightarrow> Registry \<Rightarrow> CreatorDecision \<times> Registry" where
  "creator_decision config now join reg0 =
     (let reg = sweep_rooms config now reg0; room_id = jn_room_id join in
      case map_of (rg_rooms reg) room_id of
        None \<Rightarrow>
          if length (rg_rooms reg) \<ge> bc_max_room_states config
             \<or> waiting_creators (rg_rooms reg) \<ge> bc_max_waiting_creators config
          then (CreatorRejected (room_rejection config ServerBusy (Some (bc_unavailable_retry_after config))), reg)
          else let room = new_room config now room_id (rg_next_id reg) in
            park_creator room_id join room
              (reg\<lparr>rg_next_id := rg_next_id reg + 1, rg_rooms := AList.update room_id room (rg_rooms reg)\<rparr>)
      | Some room \<Rightarrow>
          (case creator_obstacle config room of
             Some outcome \<Rightarrow> (CreatorRejected (status_rejection config outcome), reg)
           | None \<Rightarrow> park_creator room_id join room reg))"

definition exhaust_room ::
  "BrokerConfig \<Rightarrow> instant \<Rightarrow> RoomState \<times> BrokerMetrics \<Rightarrow> RoomState \<times> BrokerMetrics" where
  "exhaust_room config now = (\<lambda>(room, mx).
     if rm_status room = Live
     then (room\<lparr>rm_status := Exhausted (now + bc_room_tombstone_ttl config)\<rparr>,
           mx\<lparr>mx_exhausted_rooms := mx_exhausted_rooms mx + 1\<rparr>)
     else (room, mx))"

text \<open>The room after the handover, and whether the creator received the joiner.\<close>

definition handoff_joiner ::
  "BrokerConfig \<Rightarrow> instant \<Rightarrow> str \<Rightarrow> bool \<Rightarrow> RoomState \<times> BrokerMetrics \<Rightarrow> RoomState \<times> BrokerMetrics" where
  "handoff_joiner config now room_id alive = (\<lambda>(room, mx).
     let room1 = room\<lparr>rm_waiter := None, rm_active_connections := rm_active_connections room + 1\<rparr> in
     if alive then
       let room2 = room1\<lparr>rm_attempts := rm_attempts room1 + 1,
                         rm_consumed := (rm_consumed room1 \<or> is_remembered_room_id room_id)\<rparr>;
           mx2 = mx\<lparr>mx_matches := mx_matches mx + 1\<rparr> in
       if rm_short_code room2 \<and> rm_attempts room2 \<ge> unat (bc_room_attempt_limit config)
       then exhaust_room config now (room2, mx2) else (room2, mx2)
     else (room1, mx))"

definition joiner_obstacle :: "RoomState \<Rightarrow> BrokerOutcome option" where
  "joiner_obstacle room =
     (case rm_status room of
        Expired _ \<Rightarrow> Some RoomExpired
      | Exhausted _ \<Rightarrow> Some RoomUnderAttack
      | Live \<Rightarrow> if rm_consumed room then Some RoomFull else None)"

definition put_room :: "str \<Rightarrow> RoomState \<times> BrokerMetrics \<Rightarrow> Registry \<Rightarrow> Registry" where
  "put_room room_id = (\<lambda>(room, mx) reg.
     reg\<lparr>rg_rooms := AList.update room_id room (rg_rooms reg), rg_metrics := mx\<rparr>)"

definition hand_over ::
  "BrokerConfig \<Rightarrow> instant \<Rightarrow> bool \<Rightarrow> Join \<Rightarrow> RoomState \<Rightarrow> Waiter \<Rightarrow> Registry \<Rightarrow> JoinerDecision \<times> Registry" where
  "hand_over config now alive join room waiter reg =
     (let room_id = jn_room_id join; guard = (room_id, rm_instance room);
          reg' = put_room room_id (handoff_joiner config now room_id alive (room, rg_metrics reg)) reg in
      (if alive then Handed guard waiter
       else JoinerRejected (room_rejection config RoomNotFound (Some (bc_unavailable_retry_after config))) (Some guard),
       reg'))"

definition joiner_decision ::
  "BrokerConfig \<Rightarrow> instant \<Rightarrow> bool \<Rightarrow> Join \<Rightarrow> Registry \<Rightarrow> JoinerDecision \<times> Registry" where
  "joiner_decision config now alive join reg0 =
     (let reg = sweep_rooms config now reg0; room_id = jn_room_id join;
          unavailable = Some (bc_unavailable_retry_after config) in
      case map_of (rg_rooms reg) room_id of
        None \<Rightarrow> (JoinerRejected (room_rejection config RoomNotFound unavailable) None, reg)
      | Some room \<Rightarrow>
          (case joiner_obstacle room of
             Some outcome \<Rightarrow> (JoinerRejected (status_rejection config outcome) None, reg)
           | None \<Rightarrow>
               if rm_short_code room \<and> rm_attempts room \<ge> unat (bc_room_attempt_limit config)
               then (JoinerRejected (room_rejection config RoomUnderAttack None) None,
                     put_room room_id (exhaust_room config now (room, rg_metrics reg)) reg)
               else if rm_active_connections room \<ge> bc_max_connections_per_room config
               then (JoinerRejected (room_rejection config RoomFull unavailable) None, reg)
               else case rm_waiter room of
                 None \<Rightarrow> (JoinerRejected (room_rejection config RoomNotFound unavailable) None, reg)
               | Some waiter \<Rightarrow>
                   if joins_match (wt_join waiter) join = None
                   then (JoinerRejected (room_rejection config RoomNotFound unavailable) None, reg)
                   else if rm_short_code room then
                     (case bucket_take (rm_attempt_rate room) now of
                        (Inl retry_after, bucket) \<Rightarrow>
                          (JoinerRejected (room_rejection config RoomRateLimited (Some retry_after)) None,
                           put_room room_id (room\<lparr>rm_attempt_rate := bucket\<rparr>, rg_metrics reg) reg)
                      | (Inr _, bucket) \<Rightarrow>
                          hand_over config now alive join (room\<lparr>rm_attempt_rate := bucket\<rparr>) waiter reg)
                   else hand_over config now alive join room waiter reg))"

definition remove_room :: "str \<Rightarrow> Registry \<Rightarrow> Registry" where
  "remove_room room_id reg = reg\<lparr>rg_rooms := filter (\<lambda>(id, _). id \<noteq> room_id) (rg_rooms reg)\<rparr>"

definition evict_waiter :: "str \<Rightarrow> nat \<Rightarrow> Registry \<Rightarrow> Registry" where
  "evict_waiter room_id waiter_id reg =
     (case map_of (rg_rooms reg) room_id of
        None \<Rightarrow> reg
      | Some room \<Rightarrow>
          if map_option wt_id (rm_waiter room) = Some waiter_id
          then if is_remembered_room_id room_id \<and> rm_status room = Live \<and> rm_active_connections room \<le> 1
            then remove_room room_id reg
            else put_room room_id (room\<lparr>rm_waiter := None\<rparr>, rg_metrics reg) reg
          else reg)"

definition expire_room :: "BrokerConfig \<Rightarrow> str \<Rightarrow> nat \<Rightarrow> instant \<Rightarrow> Registry \<Rightarrow> Registry" where
  "expire_room config room_id waiter_id now reg =
     (case map_of (rg_rooms reg) room_id of
        None \<Rightarrow> reg
      | Some room \<Rightarrow>
          if map_option wt_id (rm_waiter room) = Some waiter_id \<and> rm_status room = Live
          then put_room room_id
                 (room\<lparr>rm_waiter := None, rm_status := Expired (now + bc_room_tombstone_ttl config)\<rparr>,
                  (rg_metrics reg)\<lparr>mx_expired_rooms := mx_expired_rooms (rg_metrics reg) + 1\<rparr>) reg
          else reg)"

definition room_is_expired :: "str \<Rightarrow> Registry \<Rightarrow> bool" where
  "room_is_expired room_id reg =
     (case map_of (rg_rooms reg) room_id of
        None \<Rightarrow> False
      | Some room \<Rightarrow> (case rm_status room of Expired _ \<Rightarrow> True | _ \<Rightarrow> False))"

text \<open>\<open>Drop for RoomSlotGuard\<close>.\<close>

definition drop_slot_guard :: "slot_guard \<Rightarrow> Registry \<Rightarrow> Registry" where
  "drop_slot_guard guard reg =
     (let (room_id, instance_id) = guard in
      case map_of (rg_rooms reg) room_id of
        None \<Rightarrow> reg
      | Some room \<Rightarrow>
          if rm_instance room = instance_id then
            let room' = room\<lparr>rm_active_connections := rm_active_connections room - 1\<rparr> in
            if is_remembered_room_id room_id \<and> rm_active_connections room' = 0
               \<and> rm_waiter room' = None \<and> rm_status room' = Live
            then remove_room room_id reg
            else put_room room_id (room', rg_metrics reg) reg
          else reg)"

section \<open>Steps\<close>

text \<open>
  Only checked joins reach the registry (\<open>serve_from\<close>). A match is recorded with the room
  instance, the creator's join and the joiner's.
\<close>

type_synonym match_log = "(nat \<times> Join \<times> Join) list"

type_synonym room_system = "Registry \<times> slot_guard list \<times> match_log"

inductive room_step :: "BrokerConfig \<Rightarrow> room_system \<Rightarrow> room_system \<Rightarrow> bool" for config where
  creator_parks:
    "validate_join join = Inr () \<Longrightarrow> jn_invitation_side join = Creator
     \<Longrightarrow> creator_decision config now join reg = (Parked w e guard, reg')
     \<Longrightarrow> room_step config (reg, guards, hist) (reg', guard # guards, hist)"
| creator_refused:
    "validate_join join = Inr () \<Longrightarrow> jn_invitation_side join = Creator
     \<Longrightarrow> creator_decision config now join reg = (CreatorRejected r, reg')
     \<Longrightarrow> room_step config (reg, guards, hist) (reg', guards, hist)"
| joiner_matched:
    "validate_join join = Inr () \<Longrightarrow> jn_invitation_side join = Joiner
     \<Longrightarrow> joiner_decision config now alive join reg = (Handed guard waiter, reg')
     \<Longrightarrow> room_step config (reg, guards, hist) (reg', guard # guards, (snd guard, wt_join waiter, join) # hist)"
| joiner_refused:
    "validate_join join = Inr () \<Longrightarrow> jn_invitation_side join = Joiner
     \<Longrightarrow> joiner_decision config now alive join reg = (JoinerRejected r None, reg')
     \<Longrightarrow> room_step config (reg, guards, hist) (reg', guards, hist)"
| joiner_returned:
    "validate_join join = Inr () \<Longrightarrow> jn_invitation_side join = Joiner
     \<Longrightarrow> joiner_decision config now alive join reg = (JoinerRejected r (Some guard), reg')
     \<Longrightarrow> room_step config (reg, guards, hist) (reg', guard # guards, hist)"
| evicts: "room_step config (reg, guards, hist) (evict_waiter room_id waiter_id reg, guards, hist)"
| expires: "room_step config (reg, guards, hist) (expire_room config room_id waiter_id now reg, guards, hist)"
| sweeps: "room_step config (reg, guards, hist) (sweep_rooms config now reg, guards, hist)"
| drops: "guard \<in> set guards
     \<Longrightarrow> room_step config (reg, guards, hist) (drop_slot_guard guard reg, remove1 guard guards, hist)"

inductive room_reachable :: "BrokerConfig \<Rightarrow> room_system \<Rightarrow> bool" for config where
  start: "room_reachable config (registry_new, [], [])"
| step: "room_reachable config s \<Longrightarrow> room_step config s s' \<Longrightarrow> room_reachable config s'"

end
