(* ===== verification/Broker_Rooms_Inv.thy ===== *)
theory Broker_Rooms_Inv
  imports Broker_Rooms
begin

text \<open>
  The invariant of the broker's rooms: connection slots are accounted for by the guards alive,
  attempts by the matches made, and every limit of the configuration on a room holds. Each update
  of a room is an instance of one of a few lemmas on the accounts; the invariant then holds of
  every reachable state by rule induction.
\<close>

section \<open>Configuration\<close>

lemma room_limits:
  assumes "config_validate config = Inr ()"
  shows "bc_max_connections_per_room config \<ge> 2" and "unat (bc_room_attempt_limit config) \<ge> 1"
    and "bc_max_connections_per_endpoint config \<ge> 1"
proof -
  note c = config_validateD [OF assms]
  show "bc_max_connections_per_room config \<ge> 2" "bc_max_connections_per_endpoint config \<ge> 1"
    using c by simp_all
  have "unat (bc_room_attempt_limit config) \<noteq> 0"
    using c by (simp add: unat_eq_0)
  then show "unat (bc_room_attempt_limit config) \<ge> 1" by simp
qed

section \<open>One room\<close>

definition room_ok :: "BrokerConfig \<Rightarrow> str \<Rightarrow> RoomState \<Rightarrow> bool" where
  "room_ok config rid r \<longleftrightarrow>
     rm_short_code r = (\<not> is_remembered_room_id rid)
     \<and> rm_active_connections r \<le> bc_max_connections_per_room config
     \<and> (rm_short_code r \<longrightarrow> \<not> rm_consumed r \<and> rm_attempts r \<le> unat (bc_room_attempt_limit config)
          \<and> (rm_status r = Live \<longrightarrow> rm_attempts r < unat (bc_room_attempt_limit config)))
     \<and> (\<not> rm_short_code r \<longrightarrow> rm_attempts r = (if rm_consumed r then 1 else 0)
          \<and> (rm_status r = Live \<longrightarrow> rm_waiter r = None \<longrightarrow> rm_active_connections r \<ge> 1))
     \<and> (\<forall>w. rm_waiter r = Some w \<longrightarrow> rm_status r = Live \<and> \<not> rm_consumed r
          \<and> validate_join (wt_join w) = Inr () \<and> jn_invitation_side (wt_join w) = Creator
          \<and> jn_room_id (wt_join w) = rid)
     \<and> bucket_ok (rm_attempt_rate r)"

definition matches_of :: "match_log \<Rightarrow> nat \<Rightarrow> nat" where
  "matches_of hist i = length (filter (\<lambda>(j, _). j = i) hist)"

definition room_acc :: "nat \<Rightarrow> slot_guard list \<Rightarrow> match_log \<Rightarrow> str \<Rightarrow> RoomState \<Rightarrow> bool" where
  "room_acc next_id guards hist rid r \<longleftrightarrow>
     rm_instance r < next_id
     \<and> rm_active_connections r = count_list guards (rid, rm_instance r)
     \<and> rm_attempts r = matches_of hist (rm_instance r)
     \<and> (\<forall>(i, c, j) \<in> set hist. i = rm_instance r \<longrightarrow> jn_room_id c = rid)"

section \<open>The registry\<close>

definition match_ok :: "Join \<Rightarrow> Join \<Rightarrow> bool" where
  "match_ok c j \<longleftrightarrow> validate_join c = Inr () \<and> validate_join j = Inr ()
     \<and> jn_invitation_side c = Creator \<and> jn_invitation_side j = Joiner
     \<and> jn_room_id c = jn_room_id j \<and> joins_match c j \<noteq> None"

definition hist_ok :: "BrokerConfig \<Rightarrow> nat \<Rightarrow> match_log \<Rightarrow> bool" where
  "hist_ok config next_id hist \<longleftrightarrow>
     (\<forall>(i, c, j) \<in> set hist. i < next_id \<and> match_ok c j
        \<and> matches_of hist i \<le> unat (bc_room_attempt_limit config)
        \<and> (is_remembered_room_id (jn_room_id c) \<longrightarrow> matches_of hist i = 1))"

definition lookups_ok :: "BrokerConfig \<Rightarrow> nat \<Rightarrow> slot_guard list \<Rightarrow> match_log \<Rightarrow> (str \<rightharpoonup> RoomState) \<Rightarrow> bool" where
  "lookups_ok config next_id guards hist m \<longleftrightarrow>
     (\<forall>rid r. m rid = Some r \<longrightarrow> room_ok config rid r \<and> room_acc next_id guards hist rid r)
     \<and> (\<forall>rid r rid' r'. m rid = Some r \<longrightarrow> m rid' = Some r' \<longrightarrow> rm_instance r = rm_instance r' \<longrightarrow> rid = rid')"

definition room_inv :: "BrokerConfig \<Rightarrow> room_system \<Rightarrow> bool" where
  "room_inv config = (\<lambda>(reg, guards, hist).
     distinct (map fst (rg_rooms reg)) \<and> length (rg_rooms reg) \<le> bc_max_room_states config
     \<and> lookups_ok config (rg_next_id reg) guards hist (map_of (rg_rooms reg))
     \<and> (\<forall>(rid, i) \<in> set guards. i < rg_next_id reg)
     \<and> hist_ok config (rg_next_id reg) hist)"

subsection \<open>Changes to one room\<close>

lemma lookups_ok_put:
  assumes "lookups_ok config n guards hist m" and "m rid = Some r" and "room_ok config rid r'"
    and "rm_instance r' = rm_instance r" and "rm_active_connections r' = rm_active_connections r"
    and "rm_attempts r' = rm_attempts r"
  shows "lookups_ok config n guards hist (m(rid \<mapsto> r'))"
  using assms unfolding lookups_ok_def room_acc_def by (auto split: if_splits)

lemma lookups_ok_slot:
  assumes "lookups_ok config n guards hist m" and "m rid = Some r" and "room_ok config rid r'"
    and "rm_instance r' = rm_instance r" and "rm_active_connections r' = Suc (rm_active_connections r)"
    and "rm_attempts r' = rm_attempts r"
  shows "lookups_ok config n ((rid, rm_instance r) # guards) hist (m(rid \<mapsto> r'))"
  using assms unfolding lookups_ok_def room_acc_def by (auto split: if_splits)

lemma lookups_ok_match:
  assumes "lookups_ok config n guards hist m" and "m rid = Some r" and "room_ok config rid r'"
    and "rm_instance r' = rm_instance r" and "rm_active_connections r' = Suc (rm_active_connections r)"
    and "rm_attempts r' = Suc (rm_attempts r)" and "jn_room_id c = rid"
  shows "lookups_ok config n ((rid, rm_instance r) # guards) ((rm_instance r, c, j) # hist) (m(rid \<mapsto> r'))"
  using assms unfolding lookups_ok_def room_acc_def matches_of_def by (auto split: if_splits)

lemma lookups_ok_sub:
  assumes "lookups_ok config n guards hist m"
    and "\<And>rid r'. m' rid = Some r' \<Longrightarrow> \<exists>r. m rid = Some r \<and> (r' = r \<or> room_ok config rid r'
       \<and> rm_instance r' = rm_instance r \<and> rm_active_connections r' = rm_active_connections r
       \<and> rm_attempts r' = rm_attempts r)"
  shows "lookups_ok config n guards hist m'"
proof -
  have "room_ok config rid r' \<and> room_acc n guards hist rid r'" if "m' rid = Some r'" for rid r'
    using assms(2) [OF that] assms(1) unfolding lookups_ok_def room_acc_def by metis
  moreover have "rid = rid'" if "m' rid = Some r" "m' rid' = Some r'" "rm_instance r = rm_instance r'" for rid rid' r r'
    using assms(2) [OF that(1)] assms(2) [OF that(2)] that(3) assms(1) unfolding lookups_ok_def by metis
  ultimately show ?thesis
    unfolding lookups_ok_def by blast
qed

lemma lookups_ok_new:
  assumes "lookups_ok config n guards hist m" and "m rid = None" and "room_ok config rid r"
    and "rm_instance r = n" and "rm_active_connections r = 1" and "rm_attempts r = 0"
    and "\<forall>(rid, i) \<in> set guards. i < n" and "hist_ok config n hist"
  shows "lookups_ok config (n + 2) ((rid, n) # guards) hist (m(rid \<mapsto> r))"
proof -
  have fresh: "count_list guards (rid, n) = 0" "matches_of hist n = 0" "\<forall>(i, c, j) \<in> set hist. i \<noteq> n"
    using assms(7,8) by (auto simp: count_list_0_iff matches_of_def hist_ok_def filter_empty_conv)
  have old: "rm_instance r' < n" if "m rid' = Some r'" for rid' r'
    using assms(1) that by (auto simp: lookups_ok_def room_acc_def)
  show ?thesis
    using assms(1-6) fresh unfolding lookups_ok_def room_acc_def
    by (auto split: if_splits dest!: old)
qed

lemma lookups_ok_drop:
  assumes "lookups_ok config n guards hist m" and "m rid = Some r" and "(rid, rm_instance r) \<in> set guards"
    and "room_ok config rid r'" and "rm_instance r' = rm_instance r"
    and "rm_active_connections r' = rm_active_connections r - 1" and "rm_attempts r' = rm_attempts r"
  shows "lookups_ok config n (remove1 (rid, rm_instance r) guards) hist (m(rid \<mapsto> r'))"
proof -
  show ?thesis
    using assms unfolding lookups_ok_def room_acc_def by (auto simp: count_list_remove1 split: if_splits)
qed

lemma lookups_ok_forget_guard:
  assumes "lookups_ok config n guards hist m" and "\<And>r. m rid = Some r \<Longrightarrow> rm_instance r \<noteq> i"
  shows "lookups_ok config n (remove1 (rid, i) guards) hist m"
  using assms unfolding lookups_ok_def room_acc_def by (auto simp: count_list_remove1)

subsection \<open>The history\<close>

lemma hist_ok_later: "hist_ok config n hist \<Longrightarrow> n \<le> n' \<Longrightarrow> hist_ok config n' hist"
  by (fastforce simp: hist_ok_def)

lemma lookups_ok_later: "lookups_ok config n guards hist m \<Longrightarrow> n \<le> n' \<Longrightarrow> lookups_ok config n' guards hist m"
  by (fastforce simp: lookups_ok_def room_acc_def)

text \<open>
  A match in a room whose attempts so far are the matches of its instance: a short-code room has
  one left, a remembered room has made none.
\<close>

lemma hist_ok_match:
  assumes "hist_ok config n hist" and "room_acc n guards hist (jn_room_id c) r" and "match_ok c j"
    and "rm_attempts r < unat (bc_room_attempt_limit config)"
    and "is_remembered_room_id (jn_room_id c) \<Longrightarrow> rm_attempts r = 0"
  shows "hist_ok config n ((rm_instance r, c, j) # hist)"
proof -
  let ?i = "rm_instance r" and ?h = "(rm_instance r, c, j) # hist"
  have count: "matches_of ?h k = (if k = ?i then Suc (rm_attempts r) else matches_of hist k)" for k
    using assms(2) by (auto simp: matches_of_def room_acc_def)
  have inst: "?i < n" and rooms: "\<forall>(k, c', j') \<in> set hist. k = ?i \<longrightarrow> jn_room_id c' = jn_room_id c"
    using assms(2) by (auto simp: room_acc_def)
  have "case e of (k, c', j') \<Rightarrow> k < n \<and> match_ok c' j' \<and> matches_of ?h k \<le> unat (bc_room_attempt_limit config)
      \<and> (is_remembered_room_id (jn_room_id c') \<longrightarrow> matches_of ?h k = 1)" if "e \<in> set ?h" for e
  proof -
    obtain k c' j' where e: "e = (k, c', j')" by (cases e)
    show ?thesis
    proof (cases "k = ?i")
      case True
      then have "jn_room_id c' = jn_room_id c" "match_ok c' j'"
        using that e rooms assms(1,3) by (auto simp: hist_ok_def)
      then show ?thesis
        using True inst assms(4,5) by (simp add: e count)
    next
      case False
      then show ?thesis
        using that assms(1) by (auto simp: e count hist_ok_def)
    qed
  qed
  then show ?thesis
    unfolding hist_ok_def by blast
qed

section \<open>Slots\<close>

text \<open>The slots a registry holds for a room instance.\<close>

definition slots_of :: "Registry \<Rightarrow> slot_guard \<Rightarrow> nat" where
  "slots_of reg = (\<lambda>(rid, i). case map_of (rg_rooms reg) rid of
     None \<Rightarrow> 0 | Some r \<Rightarrow> if rm_instance r = i then rm_active_connections r else 0)"

lemma map_of_without: "map_of (filter (\<lambda>(x, _). x \<noteq> k) al) k' = (if k' = k then None else map_of al k')"
  by (induction al) auto

interpretation slot_ledger: ledger slots_of drop_slot_guard
proof
  fix guard guard' :: slot_guard and reg
  obtain rid i rid' i' where g: "guard = (rid, i)" "guard' = (rid', i')"
    by (cases guard, cases guard')
  show "slots_of (drop_slot_guard guard reg) guard' = (if guard' = guard then slots_of reg guard - 1 else slots_of reg guard')"
    by (cases "map_of (rg_rooms reg) rid")
      (auto simp: g slots_of_def drop_slot_guard_def put_room_def remove_room_def update_conv' map_of_without Let_def)
qed

section \<open>Operations\<close>

lemma room_invE:
  assumes "room_inv config (reg, guards, hist)"
  obtains "distinct (map fst (rg_rooms reg))" and "length (rg_rooms reg) \<le> bc_max_room_states config"
    and "lookups_ok config (rg_next_id reg) guards hist (map_of (rg_rooms reg))"
    and "\<forall>(rid, i) \<in> set guards. i < rg_next_id reg" and "hist_ok config (rg_next_id reg) hist"
  using assms by (simp add: room_inv_def)

lemma room_inv_room:
  assumes "room_inv config (reg, guards, hist)" and "map_of (rg_rooms reg) rid = Some r"
  shows "room_ok config rid r" and "room_acc (rg_next_id reg) guards hist rid r"
  using assms by (auto simp: room_inv_def lookups_ok_def)

text \<open>Replacing the room under an id that has one.\<close>

lemma room_inv_replace:
  assumes "room_inv config (reg, guards, hist)" and "map_of (rg_rooms reg) rid = Some r"
    and "lookups_ok config n guards' hist' ((map_of (rg_rooms reg))(rid \<mapsto> r'))"
    and "\<forall>(rid, i) \<in> set guards'. i < n" and "hist_ok config n hist'"
  shows "room_inv config (reg\<lparr>rg_rooms := AList.update rid r' (rg_rooms reg), rg_next_id := n,
      rg_metrics := mx\<rparr>, guards', hist')"
  using assms by (simp add: room_inv_def distinct_update length_update update_conv')

lemma put_room_eq:
  "put_room rid (r, mx) reg =
     reg\<lparr>rg_rooms := AList.update rid r (rg_rooms reg), rg_next_id := rg_next_id reg, rg_metrics := mx\<rparr>"
  by (simp add: put_room_def)

lemma room_inv_put:
  assumes "room_inv config (reg, guards, hist)" and "map_of (rg_rooms reg) rid = Some r"
    and "room_ok config rid r'"
    and "rm_instance r' = rm_instance r" and "rm_active_connections r' = rm_active_connections r"
    and "rm_attempts r' = rm_attempts r"
  shows "room_inv config (put_room rid (r', mx) reg, guards, hist)"
proof (rule room_invE [OF assms(1)])
  assume "lookups_ok config (rg_next_id reg) guards hist (map_of (rg_rooms reg))"
    and *: "\<forall>(rid, i) \<in> set guards. i < rg_next_id reg" "hist_ok config (rg_next_id reg) hist"
  from lookups_ok_put [where m = "map_of (rg_rooms reg)", OF this(1) assms(2-6)] show ?thesis
    unfolding put_room_eq using * by (rule room_inv_replace [OF assms(1,2)])
qed

lemma room_inv_remove:
  assumes "room_inv config (reg, guards, hist)"
  shows "room_inv config (remove_room rid reg, guards, hist)"
proof (rule room_invE [OF assms])
  assume *: "distinct (map fst (rg_rooms reg))" "length (rg_rooms reg) \<le> bc_max_room_states config"
    "lookups_ok config (rg_next_id reg) guards hist (map_of (rg_rooms reg))"
    "\<forall>(rid, i) \<in> set guards. i < rg_next_id reg" "hist_ok config (rg_next_id reg) hist"
  let ?rooms = "filter (\<lambda>(x, _). x \<noteq> rid) (rg_rooms reg)"
  have "lookups_ok config (rg_next_id reg) guards hist (map_of ?rooms)"
    by (rule lookups_ok_sub [OF *(3)])
      (auto simp: map_of_filter_distinct *(1) split: option.splits if_splits)
  moreover have "length ?rooms \<le> bc_max_room_states config"
    using *(2) by (rule order_trans [OF length_filter_le])
  ultimately show ?thesis
    using *(4,5) by (simp add: room_inv_def remove_room_def distinct_filter_keys *(1))
qed

lemma room_inv_sweep:
  assumes "room_inv config (reg, guards, hist)"
  shows "room_inv config (sweep_rooms config now reg, guards, hist)"
proof (rule room_invE [OF assms])
  assume *: "distinct (map fst (rg_rooms reg))" "length (rg_rooms reg) \<le> bc_max_room_states config"
    "lookups_ok config (rg_next_id reg) guards hist (map_of (rg_rooms reg))"
    "\<forall>(rid, i) \<in> set guards. i < rg_next_id reg" "hist_ok config (rg_next_id reg) hist"
  let ?swept = "map (\<lambda>(rid, room). (rid, sweep_room config now room)) (rg_rooms reg)"
  have keys: "map fst ?swept = map fst (rg_rooms reg)"
    by (simp add: comp_def case_prod_beta)
  have look: "map_of ?swept = map_option (sweep_room config now) \<circ> map_of (rg_rooms reg)"
    by (rule ext) (simp add: map_of_map)
  have dist: "distinct (map fst ?swept)"
    unfolding keys by (rule *(1))
  have ok: "sweep_room config now r = r \<or> room_ok config rid (sweep_room config now r)" if "room_ok config rid r" for rid r
    using that by (auto simp: room_ok_def sweep_room_def sweep_due_def)
  have same: "rm_instance (sweep_room config now r) = rm_instance r"
    "rm_active_connections (sweep_room config now r) = rm_active_connections r"
    "rm_attempts (sweep_room config now r) = rm_attempts r" for r
    by (simp_all add: sweep_room_def)
  have "lookups_ok config (rg_next_id reg) guards hist (map_of (filter (\<lambda>(_, room). sweep_keep now room) ?swept))"
  proof (rule lookups_ok_sub [OF *(3)])
    fix rid r' assume "map_of (filter (\<lambda>(_, room). sweep_keep now room) ?swept) rid = Some r'"
    then obtain r where "map_of (rg_rooms reg) rid = Some r" "r' = sweep_room config now r"
      unfolding map_of_filter_distinct [OF dist] look by (auto split: option.splits if_splits)
    moreover have "room_ok config rid r"
      using *(3) calculation by (auto simp: lookups_ok_def)
    ultimately show "\<exists>r. map_of (rg_rooms reg) rid = Some r \<and> (r' = r \<or> room_ok config rid r'
       \<and> rm_instance r' = rm_instance r \<and> rm_active_connections r' = rm_active_connections r
       \<and> rm_attempts r' = rm_attempts r)"
      using ok same by auto
  qed
  moreover have "length (filter (\<lambda>(_, room). sweep_keep now room) ?swept) \<le> bc_max_room_states config"
    using length_filter_le [of _ ?swept] *(2) by (metis (no_types, lifting) length_map order_trans)
  ultimately show ?thesis
    using *(4,5) by (simp add: room_inv_def sweep_rooms_def distinct_filter_keys [OF dist])
qed

lemma room_inv_evict:
  assumes "room_inv config (reg, guards, hist)"
  shows "room_inv config (evict_waiter rid w reg, guards, hist)"
proof (cases "map_of (rg_rooms reg) rid")
  case None
  then show ?thesis using assms by (simp add: evict_waiter_def)
next
  case (Some r)
  have "room_ok config rid (r\<lparr>rm_waiter := None\<rparr>)"
    if "\<not> (is_remembered_room_id rid \<and> rm_status r = Live \<and> rm_active_connections r \<le> 1)"
    using room_inv_room(1) [OF assms Some] that by (auto simp: room_ok_def)
  then show ?thesis
    using assms room_inv_put [OF assms Some] by (auto simp: evict_waiter_def Some room_inv_remove)
qed

lemma room_inv_expire:
  assumes "room_inv config (reg, guards, hist)"
  shows "room_inv config (expire_room config rid w now reg, guards, hist)"
proof (cases "map_of (rg_rooms reg) rid")
  case None
  then show ?thesis using assms by (simp add: expire_room_def)
next
  case (Some r)
  have "room_ok config rid (r\<lparr>rm_waiter := None, rm_status := Expired (now + bc_room_tombstone_ttl config)\<rparr>)"
    using room_inv_room(1) [OF assms Some] by (auto simp: room_ok_def)
  then show ?thesis
    using assms room_inv_put [OF assms Some] by (auto simp: expire_room_def Some)
qed

lemma room_inv_forget_guard:
  assumes "room_inv config (reg, guards, hist)"
    and "\<And>r. map_of (rg_rooms reg) rid = Some r \<Longrightarrow> rm_instance r \<noteq> i"
  shows "room_inv config (reg, remove1 (rid, i) guards, hist)"
proof (rule room_invE [OF assms(1)])
  assume *: "distinct (map fst (rg_rooms reg))" "length (rg_rooms reg) \<le> bc_max_room_states config"
    "lookups_ok config (rg_next_id reg) guards hist (map_of (rg_rooms reg))"
    "\<forall>(rid, i) \<in> set guards. i < rg_next_id reg" "hist_ok config (rg_next_id reg) hist"
  have "lookups_ok config (rg_next_id reg) (remove1 (rid, i) guards) hist (map_of (rg_rooms reg))"
    using *(3) assms(2) by (rule lookups_ok_forget_guard)
  moreover have "\<forall>(rid, i) \<in> set (remove1 (rid, i) guards). i < rg_next_id reg"
    using *(4) set_remove1_subset [of "(rid, i)" guards] by auto
  ultimately show ?thesis
    using * by (simp add: room_inv_def)
qed

lemma room_inv_release:
  assumes "room_inv config (reg, guards, hist)" and "map_of (rg_rooms reg) rid = Some r"
    and "(rid, rm_instance r) \<in> set guards" and "room_ok config rid r'"
    and "rm_instance r' = rm_instance r" and "rm_active_connections r' = rm_active_connections r - 1"
    and "rm_attempts r' = rm_attempts r"
  shows "room_inv config (put_room rid (r', mx) reg, remove1 (rid, rm_instance r) guards, hist)"
proof (rule room_invE [OF assms(1)])
  assume "lookups_ok config (rg_next_id reg) guards hist (map_of (rg_rooms reg))"
    and *: "\<forall>(rid, i) \<in> set guards. i < rg_next_id reg" "hist_ok config (rg_next_id reg) hist"
  from lookups_ok_drop [where m = "map_of (rg_rooms reg)", OF this(1) assms(2-7)]
  show ?thesis
    unfolding put_room_eq
  proof (rule room_inv_replace [OF assms(1,2) _ _ *(2)])
    show "\<forall>(x, i) \<in> set (remove1 (rid, rm_instance r) guards). i < rg_next_id reg"
      using *(1) set_remove1_subset [of "(rid, rm_instance r)" guards] by auto
  qed
qed

lemma room_inv_drop:
  assumes "room_inv config (reg, guards, hist)" and "guard \<in> set guards"
  shows "room_inv config (drop_slot_guard guard reg, remove1 guard guards, hist)"
proof -
  obtain rid i where guard: "guard = (rid, i)" by (cases guard)
  show ?thesis
  proof (cases "\<exists>r. map_of (rg_rooms reg) rid = Some r \<and> rm_instance r = i")
    case False
    then have "drop_slot_guard guard reg = reg"
      by (auto simp: drop_slot_guard_def guard split: option.splits)
    moreover have "room_inv config (reg, remove1 guard guards, hist)"
      unfolding guard using False by (intro room_inv_forget_guard assms(1)) auto
    ultimately show ?thesis by simp
  next
    case True
    then obtain r where r: "map_of (rg_rooms reg) rid = Some r" and i: "i = rm_instance r" by blast
    define r' where "r' = r\<lparr>rm_active_connections := rm_active_connections r - 1\<rparr>"
    let ?gone = "is_remembered_room_id rid \<and> rm_active_connections r' = 0 \<and> rm_waiter r' = None \<and> rm_status r' = Live"
    have drop: "drop_slot_guard guard reg =
        (if ?gone then remove_room rid reg else put_room rid (r', rg_metrics reg) reg)"
      by (simp add: drop_slot_guard_def guard r i r'_def Let_def)
    show ?thesis
    proof (cases ?gone)
      case True
      have "room_inv config (remove_room rid reg, remove1 guard guards, hist)"
        unfolding guard by (rule room_inv_forget_guard [OF room_inv_remove [OF assms(1)]])
          (use assms(1) in \<open>auto simp: remove_room_def map_of_filter_distinct room_inv_def split: option.splits\<close>)
      then show ?thesis unfolding drop if_P [OF True] .
    next
      case False
      have "room_ok config rid r'"
        using room_inv_room(1) [OF assms(1) r] False by (auto simp: room_ok_def r'_def)
      then have "room_inv config (put_room rid (r', rg_metrics reg) reg, remove1 (rid, rm_instance r) guards, hist)"
        using assms(2) by (intro room_inv_release [OF assms(1) r]) (simp_all add: r'_def guard i)
      then show ?thesis
        unfolding drop if_not_P [OF False] by (simp add: guard i)
    qed
  qed
qed

subsection \<open>Creators\<close>

lemma room_inv_park:
  assumes "room_inv config (reg, guards, hist)" and "map_of (rg_rooms reg) rid = Some r"
    and "creator_obstacle config r = None" and "validate_join join = Inr ()"
    and "jn_invitation_side join = Creator" and "jn_room_id join = rid"
    and "park_creator rid join r reg = (Parked w e guard, reg')"
  shows "room_inv config (reg', guard # guards, hist)"
proof (rule room_invE [OF assms(1)])
  assume *: "lookups_ok config (rg_next_id reg) guards hist (map_of (rg_rooms reg))"
    "\<forall>(rid, i) \<in> set guards. i < rg_next_id reg" "hist_ok config (rg_next_id reg) hist"
  define r' where "r' = r\<lparr>rm_waiter := Some \<lparr>wt_id = rg_next_id reg, wt_join = join\<rparr>,
                       rm_active_connections := rm_active_connections r + 1\<rparr>"
  have obs: "rm_status r = Live" "\<not> rm_consumed r" "rm_active_connections r < bc_max_connections_per_room config"
    using assms(3) by (auto simp: creator_obstacle_def split: RoomStatus.splits if_splits)
  have ok: "room_ok config rid r'"
    using room_inv_room(1) [OF assms(1,2)] obs assms(4-6) by (auto simp: room_ok_def r'_def)
  have guard: "guard = (rid, rm_instance r)"
    and reg': "reg' = reg\<lparr>rg_rooms := AList.update rid r' (rg_rooms reg), rg_next_id := rg_next_id reg + 1,
        rg_metrics := rg_metrics reg\<rparr>"
    using assms(7) by (auto simp: park_creator_def Let_def r'_def)
  have "rm_instance r < rg_next_id reg"
    using room_inv_room(2) [OF assms(1,2)] by (simp add: room_acc_def)
  then have "\<forall>(rid, i) \<in> set (guard # guards). i < rg_next_id reg + 1"
    using *(2) by (auto simp: guard)
  moreover have "lookups_ok config (rg_next_id reg) (guard # guards) hist ((map_of (rg_rooms reg))(rid \<mapsto> r'))"
    unfolding guard by (rule lookups_ok_slot [OF *(1) assms(2) ok]) (simp_all add: r'_def)
  then have "lookups_ok config (rg_next_id reg + 1) (guard # guards) hist ((map_of (rg_rooms reg))(rid \<mapsto> r'))"
    by (rule lookups_ok_later) simp
  moreover have "hist_ok config (rg_next_id reg + 1) hist"
    using *(3) by (rule hist_ok_later) simp
  ultimately show ?thesis
    unfolding reg' by (intro room_inv_replace [OF assms(1,2)])
qed

lemma new_room_update:
  "AList.update k v' (AList.update k v al) = AList.update k v' al"
  by (induction al) auto

lemma room_inv_open:
  assumes "room_inv config (reg, guards, hist)" and "map_of (rg_rooms reg) rid = None"
    and "length (rg_rooms reg) < bc_max_room_states config" and "validate_join join = Inr ()"
    and "jn_invitation_side join = Creator" and "jn_room_id join = rid"
    and "config_validate config = Inr ()"
    and "park_creator rid join (new_room config now rid (rg_next_id reg))
           (reg\<lparr>rg_next_id := rg_next_id reg + 1,
                rg_rooms := AList.update rid (new_room config now rid (rg_next_id reg)) (rg_rooms reg)\<rparr>)
         = (Parked w e guard, reg')"
  shows "room_inv config (reg', guard # guards, hist)"
proof (rule room_invE [OF assms(1)])
  assume *: "distinct (map fst (rg_rooms reg))"
    "lookups_ok config (rg_next_id reg) guards hist (map_of (rg_rooms reg))"
    "\<forall>(rid, i) \<in> set guards. i < rg_next_id reg" "hist_ok config (rg_next_id reg) hist"
  let ?n = "rg_next_id reg"
  define r' where "r' = (new_room config now rid ?n)\<lparr>rm_waiter := Some \<lparr>wt_id = ?n + 1, wt_join = join\<rparr>,
                       rm_active_connections := 1\<rparr>"
  have guard: "guard = (rid, ?n)"
    and reg': "reg' = reg\<lparr>rg_rooms := AList.update rid r' (rg_rooms reg), rg_next_id := ?n + 2\<rparr>"
    using assms(8) by (auto simp: park_creator_def Let_def r'_def new_room_def new_room_update)
  have ok: "room_ok config rid r'"
    using assms(4-6) room_limits [OF assms(7)]
    by (auto simp: room_ok_def r'_def new_room_def bucket_ok_new)
  have "lookups_ok config (?n + 2) (guard # guards) hist ((map_of (rg_rooms reg))(rid \<mapsto> r'))"
    unfolding guard by (rule lookups_ok_new [OF *(2) assms(2) ok _ _ _ *(3,4)]) (simp_all add: r'_def new_room_def)
  moreover have "hist_ok config (?n + 2) hist"
    using *(4) by (rule hist_ok_later) simp
  moreover have "\<forall>(rid, i) \<in> set (guard # guards). i < ?n + 2"
    using *(3) by (auto simp: guard)
  ultimately show ?thesis
    using *(1) assms(2,3) by (simp add: room_inv_def reg' distinct_update length_update update_conv')
qed

lemma room_inv_creator:
  assumes "room_inv config (reg, guards, hist)" and "config_validate config = Inr ()"
    and "validate_join join = Inr ()" and "jn_invitation_side join = Creator"
    and "creator_decision config now join reg = (d, reg')"
  shows "room_inv config (reg', (case d of Parked w e guard \<Rightarrow> guard # guards | CreatorRejected r \<Rightarrow> guards), hist)"
proof -
  note sw = room_inv_sweep [OF assms(1), of now]
  show ?thesis
  proof (cases "map_of (rg_rooms (sweep_rooms config now reg)) (jn_room_id join)")
    case None
    then show ?thesis
      using assms(5) sw room_inv_open [OF sw None _ assms(3,4) refl assms(2)]
      by (auto simp: creator_decision_def Let_def park_creator_def split: if_splits CreatorDecision.splits)
  next
    case (Some r)
    show ?thesis
    proof (cases "creator_obstacle config r")
      case None
      with assms(5) Some have park: "park_creator (jn_room_id join) join r (sweep_rooms config now reg) = (d, reg')"
        by (simp add: creator_decision_def Let_def)
      then obtain w e guard where "d = Parked w e guard" by (auto simp: park_creator_def Let_def)
      with room_inv_park [OF sw Some None assms(3,4) refl] park show ?thesis by simp
    next
      case (Some outcome)
      with assms(5) \<open>map_of _ _ = Some r\<close> sw show ?thesis
        by (auto simp: creator_decision_def Let_def)
    qed
  qed
qed

subsection \<open>Joiners\<close>

text \<open>Guards and history after a joiner's turn.\<close>

definition joiner_guards :: "JoinerDecision \<Rightarrow> slot_guard list \<Rightarrow> slot_guard list" where
  "joiner_guards d guards =
     (case d of Handed guard w \<Rightarrow> guard # guards
      | JoinerRejected r None \<Rightarrow> guards
      | JoinerRejected r (Some guard) \<Rightarrow> guard # guards)"

definition joiner_hist :: "JoinerDecision \<Rightarrow> Join \<Rightarrow> match_log \<Rightarrow> match_log" where
  "joiner_hist d join hist =
     (case d of Handed guard w \<Rightarrow> (snd guard, wt_join w, join) # hist | JoinerRejected r g \<Rightarrow> hist)"

lemma handoff_dead:
  "handoff_joiner config now rid False (r, mx) =
     (r\<lparr>rm_waiter := None, rm_active_connections := rm_active_connections r + 1\<rparr>, mx)"
  by (simp add: handoff_joiner_def Let_def)

lemma handoff_alive:
  assumes "room_ok config rid r" and "rm_status r = Live" and "\<not> rm_consumed r"
    and "rm_active_connections r < bc_max_connections_per_room config"
  obtains r' mx' where "handoff_joiner config now rid True (r, mx) = (r', mx')"
    and "room_ok config rid r'" and "rm_instance r' = rm_instance r"
    and "rm_active_connections r' = Suc (rm_active_connections r)" and "rm_attempts r' = Suc (rm_attempts r)"
proof -
  obtain r' mx' where h: "handoff_joiner config now rid True (r, mx) = (r', mx')"
    by (cases "handoff_joiner config now rid True (r, mx)")
  then have "room_ok config rid r' \<and> rm_instance r' = rm_instance r
    \<and> rm_active_connections r' = Suc (rm_active_connections r) \<and> rm_attempts r' = Suc (rm_attempts r)"
    using assms by (auto simp: handoff_joiner_def exhaust_room_def room_ok_def Let_def split: if_splits)
  with h that show ?thesis by blast
qed

lemma room_inv_handover:
  assumes "room_inv config (reg, guards, hist)" and "map_of (rg_rooms reg) (jn_room_id join) = Some r0"
    and "r = r0\<lparr>rm_attempt_rate := b\<rparr>" and "bucket_ok b" and "joiner_obstacle r0 = None"
    and "rm_active_connections r0 < bc_max_connections_per_room config" and "rm_waiter r0 = Some w"
    and "joins_match (wt_join w) join \<noteq> None" and "config_validate config = Inr ()"
    and "validate_join join = Inr ()" and "jn_invitation_side join = Joiner"
    and "hand_over config now alive join r w reg = (d, reg')"
  shows "room_inv config (reg', joiner_guards d guards, joiner_hist d join hist)"
proof (rule room_invE [OF assms(1)])
  assume *: "lookups_ok config (rg_next_id reg) guards hist (map_of (rg_rooms reg))"
    "\<forall>(rid, i) \<in> set guards. i < rg_next_id reg" "hist_ok config (rg_next_id reg) hist"
  let ?rid = "jn_room_id join" and ?n = "rg_next_id reg"
  note room0 = room_inv_room [OF assms(1,2)]
  have live: "rm_status r = Live" "\<not> rm_consumed r"
    using assms(5) by (auto simp: joiner_obstacle_def assms(3) split: RoomStatus.splits if_splits)
  have ok: "room_ok config ?rid r" and cap: "rm_active_connections r < bc_max_connections_per_room config"
    using room0(1) assms(3,4,6) by (auto simp: room_ok_def)
  have inst: "rm_instance r = rm_instance r0" "rm_attempts r = rm_attempts r0" "rm_active_connections r = rm_active_connections r0"
    by (simp_all add: assms(3))
  have guards: "\<forall>(rid, i) \<in> set ((?rid, rm_instance r0) # guards). i < ?n"
    using *(2) room0(2) by (simp add: room_acc_def)
  show ?thesis
  proof (cases alive)
    case False
    let ?r' = "r\<lparr>rm_waiter := None, rm_active_connections := rm_active_connections r + 1\<rparr>"
    have "room_ok config ?rid ?r'"
      using ok cap by (auto simp: room_ok_def)
    from lookups_ok_slot [where m = "map_of (rg_rooms reg)", OF *(1) assms(2) this]
    have "lookups_ok config ?n ((?rid, rm_instance r0) # guards) hist ((map_of (rg_rooms reg))(?rid \<mapsto> ?r'))"
      by (simp add: inst)
    then have "room_inv config (put_room ?rid (?r', rg_metrics reg) reg, (?rid, rm_instance r0) # guards, hist)"
      unfolding put_room_eq using guards *(3) by (rule room_inv_replace [OF assms(1,2)])
    moreover have "d = JoinerRejected (room_rejection config RoomNotFound (Some (bc_unavailable_retry_after config))) (Some (?rid, rm_instance r0))"
      and "reg' = put_room ?rid (?r', rg_metrics reg) reg"
      using assms(12) False by (simp_all add: hand_over_def Let_def handoff_dead inst)
    ultimately show ?thesis
      by (simp add: joiner_guards_def joiner_hist_def)
  next
    case True
    obtain r' mx' where h: "handoff_joiner config now ?rid True (r, rg_metrics reg) = (r', mx')"
      "room_ok config ?rid r'" "rm_instance r' = rm_instance r"
      "rm_active_connections r' = Suc (rm_active_connections r)" "rm_attempts r' = Suc (rm_attempts r)"
      by (rule handoff_alive [OF ok live cap])
    have w: "match_ok (wt_join w) join" "jn_room_id (wt_join w) = ?rid"
      using room0(1) assms(7,8,10,11) by (auto simp: room_ok_def match_ok_def)
    have "lookups_ok config ?n ((?rid, rm_instance r0) # guards) ((rm_instance r0, wt_join w, join) # hist)
        ((map_of (rg_rooms reg))(?rid \<mapsto> r'))"
      by (rule lookups_ok_match [OF *(1) assms(2) h(2)]) (simp_all add: h inst w(2))
    moreover have "hist_ok config ?n ((rm_instance r0, wt_join w, join) # hist)"
    proof (rule hist_ok_match [OF *(3) _ w(1)])
      show "room_acc ?n guards hist (jn_room_id (wt_join w)) r0"
        using room0(2) by (simp add: w(2))
      show "rm_attempts r0 < unat (bc_room_attempt_limit config)"
        using room0(1) live room_limits(2) [OF assms(9)] by (auto simp: room_ok_def assms(3))
      show "is_remembered_room_id (jn_room_id (wt_join w)) \<Longrightarrow> rm_attempts r0 = 0"
        using room0(1) live by (simp add: room_ok_def assms(3) w(2))
    qed
    ultimately have "room_inv config (put_room ?rid (r', mx') reg, (?rid, rm_instance r0) # guards,
        (rm_instance r0, wt_join w, join) # hist)"
      unfolding put_room_eq using guards by (intro room_inv_replace [OF assms(1,2)])
    moreover have "d = Handed (?rid, rm_instance r0) w" and "reg' = put_room ?rid (r', mx') reg"
      using assms(12) True by (simp_all add: hand_over_def Let_def h(1) inst)
    ultimately show ?thesis
      by (simp add: joiner_guards_def joiner_hist_def)
  qed
qed

lemma room_inv_joiner:
  assumes "room_inv config (reg, guards, hist)" and "config_validate config = Inr ()"
    and "validate_join join = Inr ()" and "jn_invitation_side join = Joiner"
    and "joiner_decision config now alive join reg = (d, reg')"
  shows "room_inv config (reg', joiner_guards d guards, joiner_hist d join hist)"
proof -
  define reg1 where "reg1 = sweep_rooms config now reg"
  have sw: "room_inv config (reg1, guards, hist)"
    unfolding reg1_def by (rule room_inv_sweep [OF assms(1)])
  show ?thesis
  proof (cases "map_of (rg_rooms reg1) (jn_room_id join)")
    case None
    then show ?thesis
      using assms(5) sw by (auto simp: joiner_decision_def Let_def joiner_guards_def joiner_hist_def reg1_def)
  next
    case (Some r)
    let ?b = "snd (bucket_take (rm_attempt_rate r) now)"
    note ok = room_inv_room(1) [OF sw Some]
    have rate: "room_inv config (put_room (jn_room_id join) (r\<lparr>rm_attempt_rate := ?b\<rparr>, mx) reg1, guards, hist)" for mx
      by (rule room_inv_put [OF sw Some]) (use ok in \<open>auto simp: room_ok_def bucket_ok_take\<close>)
    have exhausted: "room_inv config (put_room (jn_room_id join) (exhaust_room config now (r, mx)) reg1, guards, hist)"
      if "rm_short_code r" "rm_attempts r \<ge> unat (bc_room_attempt_limit config)" for mx
    proof -
      have "exhaust_room config now (r, mx) = (r, mx)"
        using ok that by (auto simp: room_ok_def exhaust_room_def)
      then show ?thesis
        using room_inv_put [OF sw Some ok, of mx] by simp
    qed
    have over: "room_inv config (reg', joiner_guards d guards, joiner_hist d join hist)"
      if "hand_over config now alive join (r\<lparr>rm_attempt_rate := b\<rparr>) w reg1 = (d, reg')" "bucket_ok b"
        "joiner_obstacle r = None" "rm_active_connections r < bc_max_connections_per_room config"
        "rm_waiter r = Some w" "joins_match (wt_join w) join \<noteq> None" for b w
      using room_inv_handover [OF sw Some refl that(2-6) assms(2-4) that(1)] .
    have keep: "r\<lparr>rm_attempt_rate := rm_attempt_rate r\<rparr> = r" by simp
    have bok: "bucket_ok (rm_attempt_rate r)" "bucket_ok ?b"
      using ok by (auto simp: room_ok_def bucket_ok_take)
    show ?thesis
      using assms(5) sw rate exhausted over [of ?b] over [OF _ bok(1), unfolded keep] bok(2)
      unfolding joiner_decision_def Let_def reg1_def [symmetric] Some
      by (auto simp: joiner_guards_def joiner_hist_def not_le
          split: option.splits if_splits prod.splits sum.splits)
  qed
qed

section \<open>Reachable states\<close>

lemma room_inv_step:
  assumes "room_step config s s'" and "room_inv config s" and "config_validate config = Inr ()"
  shows "room_inv config s'"
  using assms(1)
proof cases
  case (creator_parks join now reg w e guard reg' guards hist)
  from room_inv_creator [OF _ assms(3) this(3-5), of guards hist] show ?thesis
    using assms(2) by (simp add: creator_parks)
next
  case (creator_refused join now reg r reg' guards hist)
  from room_inv_creator [OF _ assms(3) this(3-5), of guards hist] show ?thesis
    using assms(2) by (simp add: creator_refused)
next
  case (joiner_matched join now alive reg guard waiter reg' guards hist)
  from room_inv_joiner [OF _ assms(3) this(3-5), of guards hist] show ?thesis
    using assms(2) by (simp add: joiner_matched joiner_guards_def joiner_hist_def)
next
  case (joiner_refused join now alive reg r reg' guards hist)
  from room_inv_joiner [OF _ assms(3) this(3-5), of guards hist] show ?thesis
    using assms(2) by (simp add: joiner_refused joiner_guards_def joiner_hist_def)
next
  case (joiner_returned join now alive reg r guard reg' guards hist)
  from room_inv_joiner [OF _ assms(3) this(3-5), of guards hist] show ?thesis
    using assms(2) by (simp add: joiner_returned joiner_guards_def joiner_hist_def)
qed (use assms(2) in \<open>auto intro: room_inv_evict room_inv_expire room_inv_sweep room_inv_drop\<close>)

theorem room_inv_reachable:
  assumes "room_reachable config s" and "config_validate config = Inr ()"
  shows "room_inv config s"
  using assms(1)
proof induction
  case start
  show ?case
    by (simp add: room_inv_def registry_new_def lookups_ok_def hist_ok_def)
next
  case (step s s')
  then show ?case
    using room_inv_step assms(2) by blast
qed

lemma slots_of_reachable:
  assumes "room_inv config (reg, guards, hist)" and "map_of (rg_rooms reg) rid = Some r"
  shows "slots_of reg (rid, i) = (if i = rm_instance r then count_list guards (rid, i) else 0)"
  using room_inv_room(2) [OF assms] by (auto simp: slots_of_def assms(2) room_acc_def)

lemma slots_of_le:
  assumes "room_inv config (reg, guards, hist)"
  shows "slots_of reg guard \<le> count_list guards guard"
proof (cases guard)
  case (Pair rid i)
  then show ?thesis
    using slots_of_reachable [OF assms, of rid _ i]
    by (cases "map_of (rg_rooms reg) rid") (auto simp: slots_of_def)
qed

end
