(* ===== verification/Broker_Serve.thy ===== *)
theory Broker_Serve
  imports Broker_Rooms_Inv
begin

text \<open>
  A connection's way through the broker (\<open>crates/envoix-rendezvous/src/broker.rs\<close>, \<open>io.rs\<close>,
  \<open>peer.rs\<close>): control frames, admission, the join, parking or handover, the wait of a creator, the
  relay between a matched pair, and the metrics.

  Each function runs from one point where the task awaits the outside world to the next; what it
  awaits (a frame, a partner, a deadline, the outcome of a write) is an argument, and instants are
  arguments. \<open>Held\<close> lists the guards a connection keeps until it is dropped. Replies are written
  with their errors ignored, as in the source.
\<close>

section \<open>Control frames\<close>

definition DEFAULT_MAX_FRAME_BODY :: nat where
  "DEFAULT_MAX_FRAME_BODY = 64 * 1024"

text \<open>
  \<open>serde_json\<close> is the parameters \<open>from_slice\<close> and \<open>to_vec\<close>. A stream is the bytes that arrive;
  \<open>read_exact\<close> fails when they run out.
\<close>

definition read_exact :: "nat \<Rightarrow> bytes \<Rightarrow> RendezvousError + bytes \<times> bytes" where
  "read_exact n bs = (if n \<le> length bs then Inr (take n bs, drop n bs) else Inl RE_Io)"

definition read_framed_with_limit ::
  "(bytes \<Rightarrow> 'a option) \<Rightarrow> nat \<Rightarrow> bytes \<Rightarrow> RendezvousError + 'a \<times> bytes" where
  "read_framed_with_limit from_slice max_frame_body bs =
     bindR (read_exact 4 bs) (\<lambda>(len, rest).
     bindR (rejectR (unat (u32_from_be len) > max_frame_body) RE_FrameTooLarge) (\<lambda>_.
     bindR (read_exact (unat (u32_from_be len)) rest) (\<lambda>(body, rest').
     bindR (ok_or (from_slice body) RE_BadMessage) (\<lambda>v.
     Inr (v, rest')))))"

definition read_framed :: "(bytes \<Rightarrow> 'a option) \<Rightarrow> bytes \<Rightarrow> RendezvousError + 'a \<times> bytes" where
  "read_framed from_slice bs = read_framed_with_limit from_slice DEFAULT_MAX_FRAME_BODY bs"

text \<open>The bytes a successful write appends to the stream.\<close>

definition write_framed :: "('a \<Rightarrow> bytes option) \<Rightarrow> 'a \<Rightarrow> RendezvousError + bytes" where
  "write_framed to_vec v =
     bindR (ok_or (to_vec v) RE_BadMessage) (\<lambda>body.
     bindR (rejectR (length body > DEFAULT_MAX_FRAME_BODY) RE_FrameTooLarge) (\<lambda>_.
     Inr (u32_to_be (word_of_nat (length body)) @ body)))"

section \<open>The relay\<close>

text \<open>What a reader meets when the bytes that arrived are used up: end of file, silence, an error.\<close>

datatype StreamEnd = End_Eof | End_Stall | End_Io

definition header_end :: "StreamEnd \<Rightarrow> RendezvousError + unit" where
  "header_end fin = (case fin of End_Eof \<Rightarrow> Inr () | End_Stall \<Rightarrow> Inl RE_Timeout | End_Io \<Rightarrow> Inl RE_Io)"

definition body_end :: "StreamEnd \<Rightarrow> RendezvousError" where
  "body_end fin = (case fin of End_Eof \<Rightarrow> RE_Io | End_Stall \<Rightarrow> RE_Timeout | End_Io \<Rightarrow> RE_Io)"

text \<open>
  The result and the bytes written. \<open>wr k\<close> is the outcome of the write of the \<open>k\<close>-th frame, length and
  body with one deadline for both and the flush: it succeeds, or fails after the first bytes of the frame
  went out, none, some or all of them (\<open>write_all\<close> does not take back what it wrote). When \<open>relay_ttl\<close> ends
  the relay in a write, what it wrote is that of a run that fails there.
\<close>

function relay_frames ::
  "BrokerConfig \<Rightarrow> (nat \<Rightarrow> RendezvousError \<times> nat + unit) \<Rightarrow> StreamEnd \<Rightarrow> nat \<Rightarrow> bytes
     \<Rightarrow> (RendezvousError + unit) \<times> bytes" where
  "relay_frames config wr fin k bs =
     (if length bs < 4 then (header_end fin, [])
      else let len = take 4 bs; body_length = unat (u32_from_be len); rest = drop 4 bs in
        if body_length > bc_max_frame_body config then (Inl RE_FrameTooLarge, [])
        else if length rest < body_length then (Inl (body_end fin), [])
        else case wr k of
          Inl (e, written) \<Rightarrow> (Inl e, take written (len @ take body_length rest))
        | Inr _ \<Rightarrow>
            let (res, out) = relay_frames config wr fin (Suc k) (drop body_length rest) in
            (res, len @ take body_length rest @ out))"
  by auto
termination
  by (relation "measure (\<lambda>(_, _, _, _, bs). length bs)") auto

declare relay_frames.simps [simp del]

definition record_relay_result :: "RendezvousError + unit \<Rightarrow> BrokerMetrics \<Rightarrow> BrokerMetrics" where
  "record_relay_result result mx =
     (case result of
        Inl RE_Timeout \<Rightarrow> mx\<lparr>mx_timeouts := mx_timeouts mx + 1\<rparr>
      | Inl RE_FrameTooLarge \<Rightarrow> mx\<lparr>mx_oversized_frames := mx_oversized_frames mx + 1\<rparr>
      | _ \<Rightarrow> mx)"

text \<open>
  \<open>run_pair\<close>: the outcomes of the two \<open>Paired\<close> writes and of the relay in both directions (\<open>None\<close>
  when it outlives \<open>relay_ttl\<close>) are arguments. The replies written are returned, first side first.
\<close>

type_synonym relay_outcome = "((RendezvousError + unit) \<times> (RendezvousError + unit)) option"

definition run_pair ::
  "Join \<Rightarrow> Join \<Rightarrow> (RendezvousError + unit) \<Rightarrow> (RendezvousError + unit) \<Rightarrow> relay_outcome \<Rightarrow> BrokerMetrics
     \<Rightarrow> (RendezvousError + unit) \<times> Reply list \<times> BrokerMetrics" where
  "run_pair first_join second_join first_write second_write relay mx =
     (case joins_match first_join second_join of
        None \<Rightarrow> (Inl (RE_Rejected RoomNotFound), [], mx)
      | Some selected \<Rightarrow>
          let paired = (\<lambda>j. Reply_Paired \<lparr>pd_role = role_for j, pd_selected_bootstrap_method = selected\<rparr>) in
          case first_write of
            Inl e \<Rightarrow> (Inl e, [], mx)
          | Inr _ \<Rightarrow>
              (case second_write of
                 Inl e \<Rightarrow> (Inl e, [paired first_join], mx)
               | Inr _ \<Rightarrow>
                   (Inr (), [paired first_join, paired second_join],
                    case relay of
                      None \<Rightarrow> mx\<lparr>mx_timeouts := mx_timeouts mx + 1\<rparr>
                    | Some (left, right) \<Rightarrow> record_relay_result right (record_relay_result left mx))))"

section \<open>The broker\<close>

record Broker =
  br_state :: Registry
  br_sources :: SourceTracker
  br_config :: BrokerConfig

definition with_config :: "BrokerConfig \<Rightarrow> string + Broker" where
  "with_config config =
     bindR (config_validate config) (\<lambda>_.
     Inr \<lparr>br_state = registry_new, br_sources = tracker_new config, br_config = config\<rparr>)"

definition with_ttl :: "duration \<Rightarrow> string + Broker" where
  "with_ttl ttl = with_config (default_config\<lparr>bc_room_ttl := ttl\<rparr>)"

definition on_metrics :: "(BrokerMetrics \<Rightarrow> BrokerMetrics) \<Rightarrow> Broker \<Rightarrow> Broker" where
  "on_metrics f b = b\<lparr>br_state := (br_state b)\<lparr>rg_metrics := f (rg_metrics (br_state b))\<rparr>\<rparr>"

definition record_transport_busy :: "Broker \<Rightarrow> Broker" where
  "record_transport_busy b = on_metrics (metrics_rejection ServerBusy) b"

definition observe_direct_ip :: "IpAddr \<Rightarrow> instant \<Rightarrow> Broker \<Rightarrow> (BrokerRejection + unit) \<times> Broker" where
  "observe_direct_ip ip now b =
     (let (result, sources) = observe_direct ip now (br_sources b); b1 = b\<lparr>br_sources := sources\<rparr> in
      (result, case result of Inl rejection \<Rightarrow> on_metrics (metrics_rejection (rj_outcome rejection)) b1
               | Inr _ \<Rightarrow> b1))"

section \<open>Serving a connection\<close>

record Held =
  hd_source :: "SourceKey option"
  hd_slot :: "slot_guard option"

definition drop_conn :: "Held \<Rightarrow> Broker \<Rightarrow> Broker" where
  "drop_conn held b =
     (let b1 = (case hd_source held of None \<Rightarrow> b | Some key \<Rightarrow> b\<lparr>br_sources := drop_source_guard key (br_sources b)\<rparr>) in
      case hd_slot held of None \<Rightarrow> b1 | Some guard \<Rightarrow> b1\<lparr>br_state := drop_slot_guard guard (br_state b1)\<rparr>)"

text \<open>
  How a call ends: with a reply and a result, or with the connection kept: parked until a partner
  comes, or handed to the creator's task.
\<close>

datatype Served =
    Finished "Reply option" "RendezvousError + unit"
  | Waiting Held nat instant
  | HandedOff Held Waiter

definition reject_conn :: "Held \<Rightarrow> BrokerRejection \<Rightarrow> Broker \<Rightarrow> Served \<times> Broker" where
  "reject_conn held rejection b =
     (Finished (Some (Reply_Rejected rejection)) (Inl (RE_Rejected (rj_outcome rejection))),
      drop_conn held (on_metrics (metrics_rejection (rj_outcome rejection)) b))"

definition serve_creator :: "Held \<Rightarrow> Join \<Rightarrow> instant \<Rightarrow> Broker \<Rightarrow> Served \<times> Broker" where
  "serve_creator held join now b =
     (case creator_decision (br_config b) now join (br_state b) of
        (CreatorRejected rejection, state) \<Rightarrow> reject_conn held rejection (b\<lparr>br_state := state\<rparr>)
      | (Parked waiter_id expires_at guard, state) \<Rightarrow>
          (Waiting (held\<lparr>hd_slot := Some guard\<rparr>) waiter_id expires_at, b\<lparr>br_state := state\<rparr>))"

definition serve_joiner :: "Held \<Rightarrow> Join \<Rightarrow> instant \<Rightarrow> bool \<Rightarrow> Broker \<Rightarrow> Served \<times> Broker" where
  "serve_joiner held join now alive b =
     (case joiner_decision (br_config b) now alive join (br_state b) of
        (Handed guard waiter, state) \<Rightarrow>
          (HandedOff (held\<lparr>hd_slot := Some guard\<rparr>) waiter, b\<lparr>br_state := state\<rparr>)
      | (JoinerRejected rejection slot, state) \<Rightarrow>
          reject_conn (held\<lparr>hd_slot := slot\<rparr>) rejection (b\<lparr>br_state := state\<rparr>))"

datatype JoinRead = Read_Timeout | Read_Failed RendezvousError | Read_Join Join

definition serve_read :: "Held \<Rightarrow> JoinRead \<Rightarrow> instant \<Rightarrow> bool \<Rightarrow> Broker \<Rightarrow> Served \<times> Broker" where
  "serve_read held read now alive b =
     (let malformed = room_rejection (br_config b) MalformedJoin None;
          count_malformed = (\<lambda>mx. mx\<lparr>mx_malformed_joins := mx_malformed_joins mx + 1\<rparr>) in
      case read of
        Read_Timeout \<Rightarrow>
          reject_conn held malformed (on_metrics (\<lambda>mx. mx\<lparr>mx_timeouts := mx_timeouts mx + 1\<rparr>) b)
      | Read_Failed RE_FrameTooLarge \<Rightarrow>
          reject_conn held malformed
            (on_metrics (\<lambda>mx. count_malformed (mx\<lparr>mx_oversized_frames := mx_oversized_frames mx + 1\<rparr>)) b)
      | Read_Failed RE_BadMessage \<Rightarrow> reject_conn held malformed (on_metrics count_malformed b)
      | Read_Failed e \<Rightarrow> (Finished None (Inl e), drop_conn held b)
      | Read_Join join \<Rightarrow>
          (case validate_join join of
             Inl outcome \<Rightarrow>
               reject_conn held (room_rejection (br_config b) outcome None)
                 (on_metrics (if outcome = UnsupportedJoinVersion
                    then (\<lambda>mx. mx\<lparr>mx_unsupported_versions := mx_unsupported_versions mx + 1\<rparr>)
                    else count_malformed) b)
           | Inr _ \<Rightarrow>
               (case jn_invitation_side join of
                  Creator \<Rightarrow> serve_creator held join now b
                | Joiner \<Rightarrow> serve_joiner held join now alive b)))"

text \<open>
  \<open>serve_from\<close>. Between the admission and the join the task awaits a frame; \<open>others\<close> is what the
  rest of the system does to the broker meanwhile.
\<close>

definition serve_from ::
  "PeerSource \<Rightarrow> instant \<Rightarrow> (Broker \<Rightarrow> Broker) \<Rightarrow> JoinRead \<Rightarrow> instant \<Rightarrow> bool \<Rightarrow> Broker \<Rightarrow> Served \<times> Broker" where
  "serve_from source admitted_at others read now alive b =
     (case admit (br_sources b) source admitted_at of
        (Inl rejection, sources) \<Rightarrow>
          reject_conn \<lparr>hd_source = None, hd_slot = None\<rparr> rejection (others (b\<lparr>br_sources := sources\<rparr>))
      | (Inr key, sources) \<Rightarrow>
          serve_read \<lparr>hd_source = Some key, hd_slot = None\<rparr> read now alive (others (b\<lparr>br_sources := sources\<rparr>)))"

definition anonymous_source :: PeerSource where
  "anonymous_source = \<lparr>ps_endpoint_id = replicate 32 0, ps_direct_ip = None\<rparr>"

definition serve_anonymous ::
  "instant \<Rightarrow> (Broker \<Rightarrow> Broker) \<Rightarrow> JoinRead \<Rightarrow> instant \<Rightarrow> bool \<Rightarrow> Broker \<Rightarrow> Served \<times> Broker" where
  "serve_anonymous admitted_at others read now alive b = serve_from anonymous_source admitted_at others read now alive b"

section \<open>The wait of a creator\<close>

text \<open>
  What wakes the parked task: the partner's join (with the outcomes of the run that follows), the
  sender dropped, a frame or a failure of its own connection, the deadline. When several are ready
  the first in this order wins (\<open>biased\<close>).
\<close>

datatype WaitEvent =
    Partner Join Held "RendezvousError + unit" "RendezvousError + unit" relay_outcome
  | SenderDropped
  | Probe "RendezvousError + Join"
  | Deadline

definition wait_for_joiner ::
  "Held \<Rightarrow> Join \<Rightarrow> nat \<Rightarrow> WaitEvent \<Rightarrow> instant \<Rightarrow> Broker \<Rightarrow> (RendezvousError + unit) \<times> Reply list \<times> Broker" where
  "wait_for_joiner held join waiter_id event now b =
     (let room_id = jn_room_id join in
      case event of
        Partner partner partner_held w1 w2 relay \<Rightarrow>
          (let (res, replies, mx) = run_pair join partner w1 w2 relay (rg_metrics (br_state b)) in
           (res, replies, drop_conn held (drop_conn partner_held (on_metrics (\<lambda>_. mx) b))))
      | SenderDropped \<Rightarrow>
          if room_is_expired room_id (br_state b)
          then (Inl RE_Expired, [Reply_Expired], drop_conn held b)
          else (Inl (RE_Rejected ServerBusy), [], drop_conn held b)
      | Probe res \<Rightarrow>
          (let b1 = b\<lparr>br_state := evict_waiter room_id waiter_id (br_state b)\<rparr> in
           case res of
             Inr _ \<Rightarrow> (Inl (RE_Rejected MalformedJoin), [],
               drop_conn held (on_metrics (\<lambda>mx. mx\<lparr>mx_malformed_joins := mx_malformed_joins mx + 1\<rparr>) b1))
           | Inl e \<Rightarrow> (Inl e, [], drop_conn held b1))
      | Deadline \<Rightarrow>
          (Inl RE_Expired, [Reply_Expired],
           on_metrics (\<lambda>mx. mx\<lparr>mx_timeouts := mx_timeouts mx + 1\<rparr>)
             (drop_conn held (b\<lparr>br_state := expire_room (br_config b) room_id waiter_id now (br_state b)\<rparr>))))"

section \<open>Metrics snapshot\<close>

record BrokerMetricsSnapshot =
  sn_active_rooms :: nat
  sn_active_connections :: nat
  sn_waiting_creators :: nat
  sn_room_connections :: nat
  sn_tracked_sources :: nat
  sn_counters :: BrokerMetrics

definition is_endpoint_key :: "SourceKey \<Rightarrow> bool" where
  "is_endpoint_key key = (case key of Key_Endpoint _ \<Rightarrow> True | _ \<Rightarrow> False)"

definition metrics_snapshot :: "instant \<Rightarrow> Broker \<Rightarrow> BrokerMetricsSnapshot \<times> Broker" where
  "metrics_snapshot now b =
     (let state = sweep_rooms (br_config b) now (br_state b);
          rooms = map snd (rg_rooms state);
          entries = tr_entries (br_sources b) in
      (\<lparr>sn_active_rooms = length (filter (\<lambda>room. rm_status room = Live) rooms),
        sn_active_connections = sum_list (map (\<lambda>(_, s). ss_active_connections s)
          (filter (\<lambda>(key, _). is_endpoint_key key) entries)),
        sn_waiting_creators = waiting_creators (rg_rooms state),
        sn_room_connections = sum_list (map rm_active_connections rooms),
        sn_tracked_sources = length entries,
        sn_counters = rg_metrics state\<rparr>,
       b\<lparr>br_state := state\<rparr>))"

end
