(* ===== verification/Broker_Properties.thy ===== *)
theory Broker_Properties
  imports Broker_Serve
begin

text \<open>
  The properties of the rendezvous broker: admission of sources, the life of a room, matching,
  and what a connection leaves behind. The witnesses run the broker on its default configuration.
\<close>

section \<open>Samples\<close>

lemma default_config_valid: "config_validate default_config = Inr ()"
  by (simp add: config_validate_def rate_validate_def default_config_def per_minute_def from_secs_def NANOS_PER_SEC_def)

lemma bucket_take_new:
  assumes "rl_burst policy \<noteq> 0"
  shows "bucket_take (bucket_new policy now) now =
    (Inr (), \<lparr>tb_tokens = of_nat (unat (rl_burst policy) - 1), tb_updated = now, tb_policy = policy\<rparr>)"
proof -
  have "unat (rl_burst policy) \<ge> 1"
    using assms by (simp add: Suc_le_eq unat_gt_0)
  then show ?thesis
    using bucket_take_whole [of "bucket_new policy now" "unat (rl_burst policy)" now]
    by (simp add: bucket_new_def f64_from_u32_def)
qed

definition sample_source :: PeerSource where
  "sample_source = \<lparr>ps_endpoint_id = replicate 32 7, ps_direct_ip = None\<rparr>"

definition sample_key :: SourceKey where
  "sample_key = Key_Endpoint (replicate 32 7)"

definition sample_bucket :: "RateLimitConfig \<Rightarrow> instant \<Rightarrow> TokenBucket" where
  "sample_bucket policy now =
     \<lparr>tb_tokens = of_nat (unat (rl_burst policy) - 1), tb_updated = now, tb_policy = policy\<rparr>"

definition sample_tracker :: SourceTracker where
  "sample_tracker = \<lparr>tr_entries = [(sample_key, \<lparr>ss_bucket = sample_bucket (per_minute 10 20) 0,
       ss_active_connections = 1, ss_last_seen = 0\<rparr>)], tr_config = default_config\<rparr>"

lemma sample_admit: "admit (tracker_new default_config) sample_source 0 = (Inr sample_key, sample_tracker)"
proof -
  have "bucket_take (bucket_new (per_minute 10 20) 0) 0 = (Inr (), sample_bucket (per_minute 10 20) 0)"
    by (subst bucket_take_new) (simp_all add: per_minute_def sample_bucket_def)
  then show ?thesis
    by (simp add: admit_def ensure_capacity_def debit_source_def source_keys_def tracker_new_def sample_source_def
        sample_key_def sample_tracker_def source_entry_def set_active_def source_policy_def default_config_def Let_def)
qed

section \<open>Sources\<close>

text \<open>
  C15: in every state the source tracker can reach, by admissions, refusals, direct addresses seen
  later and connections dropped in any order, the connections counted for a source are exactly its
  guards alive, never above the limit per endpoint; dropping the guards alive, in any order, leaves
  every count at zero; no bucket holds a negative number of tokens or more than its burst; and the
  entries exceed \<open>max_source_states\<close> by at most three.
\<close>

theorem source_accounting:
  assumes "source_reachable config (t, guards)" and "config_validate config = Inr ()"
  shows "(\<forall>key. active_of t key = count_list guards key
            \<and> active_of t key \<le> bc_max_connections_per_endpoint config
            \<and> active_of (fold drop_source_guard guards t) key = 0)
         \<and> (\<forall>(key, s) \<in> set (tr_entries t). bucket_ok (ss_bucket s))
         \<and> distinct (map fst (tr_entries t))
         \<and> length (tr_entries t) \<le> bc_max_source_states config + 3"
proof -
  have "source_inv config (t, guards)"
    using source_inv_reachable [OF assms(1)] room_limits(3) [OF assms(2)] by simp
  then show ?thesis
    using source_ledger.released_all [of t _ guards] unfolding source_inv_def tracker_ok_def by auto
qed

lemma sample_tracker_reachable: "source_reachable default_config (sample_tracker, [sample_key])"
  by (rule source_reachable.step [OF source_reachable.start source_step.admitted [OF sample_admit]])

theorem source_accounting_witness: "active_of sample_tracker sample_key = 1 \<and> active_of sample_tracker sample_key \<le> 8"
proof -
  have "active_of sample_tracker sample_key = count_list [sample_key] sample_key
      \<and> active_of sample_tracker sample_key \<le> bc_max_connections_per_endpoint default_config"
    using source_accounting [OF sample_tracker_reachable default_config_valid] by blast
  then show ?thesis by (simp add: default_config_def)
qed

fun bucket_takes :: "TokenBucket \<Rightarrow> instant \<Rightarrow> nat \<Rightarrow> bool list" where
  "bucket_takes b now 0 = []"
| "bucket_takes b now (Suc n) = (let (r, b') = bucket_take b now in (r = Inr ()) # bucket_takes b' now n)"

lemma bucket_takes_whole:
  assumes "tb_tokens b = of_nat k" and "k \<le> unat (rl_burst (tb_policy b))" and "tb_updated b = now"
  shows "bucket_takes b now n = replicate (min n k) True @ replicate (n - k) False"
  using assms
proof (induction n arbitrary: b k)
  case 0
  then show ?case by simp
next
  case (Suc n)
  note take = bucket_take_whole [OF Suc.prems]
  show ?case
  proof (cases k)
    case 0
    with Suc.IH [OF Suc.prems] take show ?thesis by simp
  next
    case (Suc k')
    with Suc.IH [of "b\<lparr>tb_tokens := of_nat k'\<rparr>" k'] Suc.prems take show ?thesis by simp
  qed
qed

text \<open>
  A fresh bucket asked for \<open>n\<close> tokens at one instant grants the first \<open>burst\<close> of them and refuses
  the rest: the \<open>f64\<close> arithmetic neither loses nor invents a token.
\<close>

theorem bucket_grants_burst:
  "bucket_takes (bucket_new policy now) now n
     = replicate (min n (unat (rl_burst policy))) True @ replicate (n - unat (rl_burst policy)) False"
  by (rule bucket_takes_whole) (simp_all add: bucket_new_def f64_from_u32_def)

subsection \<open>The bound on source entries\<close>

text \<open>
  A run with \<open>max_source_states = 4\<close>: the first endpoint leaves, its entry grows stale, three more
  entries appear, then it comes back from an address of a known prefix. \<open>ensure_capacity\<close> counts
  its missing keys before it drops its stale entry.
\<close>

definition tight_config :: BrokerConfig where
  "tight_config = default_config\<lparr>bc_max_source_states := 4\<rparr>"

definition tight_ttl :: duration where
  "tight_ttl = bc_source_state_ttl tight_config"

definition tight_entry :: "RateLimitConfig \<Rightarrow> nat \<Rightarrow> instant \<Rightarrow> nat \<Rightarrow> SourceState" where
  "tight_entry policy taken now active =
     \<lparr>ss_bucket = \<lparr>tb_tokens = of_nat (unat (rl_burst policy) - taken), tb_updated = now, tb_policy = policy\<rparr>,
      ss_active_connections = active, ss_last_seen = now\<rparr>"

definition first_source :: "IpAddr option \<Rightarrow> PeerSource" where
  "first_source ip = \<lparr>ps_endpoint_id = replicate 32 1, ps_direct_ip = ip\<rparr>"

definition second_source :: PeerSource where
  "second_source = \<lparr>ps_endpoint_id = replicate 32 2, ps_direct_ip = None\<rparr>"

abbreviation first_key :: SourceKey where
  "first_key \<equiv> Key_Endpoint (replicate 32 1)"

abbreviation second_key :: SourceKey where
  "second_key \<equiv> Key_Endpoint (replicate 32 2)"

abbreviation tight_ip :: "u8 \<Rightarrow> IpAddr" where
  "tight_ip b \<equiv> IpV4 192 0 2 b"

abbreviation tight_tracker :: "(SourceKey \<times> SourceState) list \<Rightarrow> SourceTracker" where
  "tight_tracker entries \<equiv> \<lparr>tr_entries = entries, tr_config = tight_config\<rparr>"

abbreviation "endpoint_rate \<equiv> per_minute 10 20"
abbreviation "ip_rate \<equiv> per_minute 30 60"
abbreviation "subnet_rate \<equiv> per_minute 120 240"

lemma tight_take:
  "bucket_take (bucket_new endpoint_rate now) now = (Inr (), ss_bucket (tight_entry endpoint_rate 1 now 0))"
  "bucket_take (bucket_new ip_rate now) now = (Inr (), ss_bucket (tight_entry ip_rate 1 now 0))"
  "bucket_take (bucket_new subnet_rate now) now = (Inr (), ss_bucket (tight_entry subnet_rate 1 now 0))"
  "bucket_take (ss_bucket (tight_entry subnet_rate 1 now 0)) now = (Inr (), ss_bucket (tight_entry subnet_rate 2 now 0))"
proof -
  show "bucket_take (ss_bucket (tight_entry subnet_rate 1 now 0)) now = (Inr (), ss_bucket (tight_entry subnet_rate 2 now 0))"
    by (subst bucket_take_whole [where n = 239]) (simp_all add: tight_entry_def per_minute_def)
qed (simp_all add: bucket_take_new tight_entry_def per_minute_def)

lemma tight_entry_sel [simp]:
  "ss_active_connections (tight_entry p k now n) = n" "ss_last_seen (tight_entry p k now n) = now"
  by (simp_all add: tight_entry_def)

lemma tight_ttl_pos [simp]: "0 < tight_ttl"
  by (simp add: tight_ttl_def tight_config_def default_config_def from_secs_def NANOS_PER_SEC_def)

lemmas tight_eval = admit_def ensure_capacity_def debit_source_def source_keys_def source_entry_def set_active_def
  active_of_def source_policy_def Let_def first_source_def second_source_def ip_prefix_def

lemma tight_rates:
  "bc_endpoint_join_rate tight_config = endpoint_rate" "bc_ip_join_rate tight_config = ip_rate"
  "bc_subnet_join_rate tight_config = subnet_rate" "bc_max_source_states tight_config = 4"
  "bc_max_connections_per_endpoint tight_config = 8" "bc_source_state_ttl tight_config = tight_ttl"
  by (simp_all add: tight_config_def default_config_def tight_ttl_def)

lemma tight_run1: "admit (tracker_new tight_config) (first_source None) 0
    = (Inr first_key, tight_tracker [(first_key, tight_entry endpoint_rate 1 0 1)])"
  by (simp add: tight_eval tracker_new_def tight_rates tight_take del: One_nat_def; simp add: tight_entry_def)

lemma tight_run2: "drop_source_guard first_key (tight_tracker [(first_key, tight_entry endpoint_rate 1 0 1)])
    = tight_tracker [(first_key, tight_entry endpoint_rate 1 0 0)]"
  by (simp add: drop_source_guard_def set_active_def del: One_nat_def; simp add: tight_entry_def)

lemma tight_run3: "admit (tight_tracker [(first_key, tight_entry endpoint_rate 1 0 0)]) second_source tight_ttl
    = (Inr second_key, tight_tracker [(first_key, tight_entry endpoint_rate 1 0 0),
         (second_key, tight_entry endpoint_rate 1 tight_ttl 1)])"
  by (simp add: tight_eval tight_rates tight_take del: One_nat_def; simp add: tight_entry_def)

lemma tight_run4: "observe_direct (tight_ip 1) tight_ttl
      (tight_tracker [(first_key, tight_entry endpoint_rate 1 0 0), (second_key, tight_entry endpoint_rate 1 tight_ttl 1)])
    = (Inr (), tight_tracker [(first_key, tight_entry endpoint_rate 1 0 0),
         (second_key, tight_entry endpoint_rate 1 tight_ttl 1),
         (Key_Ip (tight_ip 1), tight_entry ip_rate 1 tight_ttl 0),
         (Key_Prefix (PrefixV4 192 0 2), tight_entry subnet_rate 1 tight_ttl 0)])"
  by (simp add: observe_direct_def tight_eval tight_rates tight_take del: One_nat_def; simp add: tight_entry_def)

lemma tight_run5: "admit (tight_tracker [(first_key, tight_entry endpoint_rate 1 0 0),
         (second_key, tight_entry endpoint_rate 1 tight_ttl 1),
         (Key_Ip (tight_ip 1), tight_entry ip_rate 1 tight_ttl 0),
         (Key_Prefix (PrefixV4 192 0 2), tight_entry subnet_rate 1 tight_ttl 0)]) (first_source (Some (tight_ip 2))) tight_ttl
    = (Inr first_key, tight_tracker [(second_key, tight_entry endpoint_rate 1 tight_ttl 1),
         (Key_Ip (tight_ip 1), tight_entry ip_rate 1 tight_ttl 0),
         (Key_Prefix (PrefixV4 192 0 2), tight_entry subnet_rate 2 tight_ttl 0),
         (first_key, tight_entry endpoint_rate 1 tight_ttl 1),
         (Key_Ip (tight_ip 2), tight_entry ip_rate 1 tight_ttl 0)])"
  by (simp add: tight_eval tight_rates tight_take del: One_nat_def; simp add: tight_entry_def)

text \<open>
  C37: \<open>max_source_states\<close> is not a bound on the tracker's entries: with a valid configuration and a
  cap of four, a reachable tracker holds five.
\<close>

theorem source_cap_exceeded:
  "config_validate tight_config = Inr () \<and> bc_max_source_states tight_config = 4
   \<and> (\<exists>t guards. source_reachable tight_config (t, guards) \<and> length (tr_entries t) = 5)"
proof -
  have "source_reachable tight_config (tight_tracker [(first_key, tight_entry endpoint_rate 1 0 1)], [first_key])"
    by (rule source_reachable.step [OF source_reachable.start source_step.admitted [OF tight_run1]])
  from source_reachable.step [OF this source_step.dropped [of first_key]]
  have "source_reachable tight_config (tight_tracker [(first_key, tight_entry endpoint_rate 1 0 0)], [])"
    by (simp add: tight_run2 del: One_nat_def)
  note run = this [THEN source_reachable.step, OF source_step.admitted [OF tight_run3],
     THEN source_reachable.step, OF source_step.observed [OF tight_run4],
     THEN source_reachable.step, OF source_step.admitted [OF tight_run5]]
  have "config_validate tight_config = Inr ()"
    by (simp add: config_validate_def rate_validate_def tight_config_def default_config_def per_minute_def
        from_secs_def NANOS_PER_SEC_def)
  with run show ?thesis
    by (force simp: tight_rates)
qed

end
