(* ===== verification/Broker_Rooms_Properties.thy ===== *)
theory Broker_Rooms_Properties
  imports Broker_Properties
begin

text \<open>
  The properties of the broker's rooms: accounting and limits in every reachable state, when a
  creator is parked and a joiner is handed over, what closed rooms answer, and the sweep.
\<close>

section \<open>Lookups after a sweep\<close>

lemma sweep_lookup:
  assumes "distinct (map fst (rg_rooms reg))"
  shows "map_of (rg_rooms (sweep_rooms config now reg)) rid =
    (case map_of (rg_rooms reg) rid of
       None \<Rightarrow> None
     | Some r \<Rightarrow> if sweep_keep now (sweep_room config now r) then Some (sweep_room config now r) else None)"
proof -
  let ?swept = "map (\<lambda>(x, room). (x, sweep_room config now room)) (rg_rooms reg)"
  have "distinct (map fst ?swept)"
    using assms by (simp add: comp_def case_prod_beta)
  from map_of_filter_distinct [OF this] show ?thesis
    by (simp add: sweep_rooms_def map_of_map split: option.splits)
qed

text \<open>A room that a creator or joiner may still use is the same before and after the sweep.\<close>

lemma sweep_lookup_open:
  assumes "distinct (map fst (rg_rooms reg))"
  shows "(map_of (rg_rooms (sweep_rooms config now reg)) rid = Some r \<and> rm_status r = Live \<and> \<not> rm_consumed r)
    \<longleftrightarrow> (map_of (rg_rooms reg) rid = Some r \<and> rm_status r = Live \<and> \<not> rm_consumed r \<and> now < rm_expires_at r)"
  by (auto simp: sweep_lookup [OF assms] sweep_room_def sweep_due_def sweep_keep_def split: option.splits if_splits)

lemma joiner_obstacle_None: "joiner_obstacle r = None \<longleftrightarrow> rm_status r = Live \<and> \<not> rm_consumed r"
  by (auto simp: joiner_obstacle_def split: RoomStatus.splits)

lemma creator_obstacle_None:
  "creator_obstacle config r = None \<longleftrightarrow> rm_status r = Live \<and> \<not> rm_consumed r
     \<and> rm_waiter r = None \<and> rm_active_connections r < bc_max_connections_per_room config"
  by (auto simp: creator_obstacle_def split: RoomStatus.splits)

lemma bucket_take_Inr: "(\<exists>u b'. bucket_take b now = (Inr u, b')) \<longleftrightarrow> bucket_refill b now \<ge> 1"
  by (auto simp: bucket_take_def Let_def)

section \<open>Samples\<close>

definition room_a :: str where "room_a = ascii ''111111''"

definition sample_creator :: "str \<Rightarrow> Join" where
  "sample_creator room_id = \<lparr>jn_version = 2, jn_room_id = room_id, jn_invitation_side = Creator,
     jn_transfer_role = TR_Sender, jn_bootstrap_methods = [FullTicket, RoomCode],
     jn_selected_bootstrap_method = None\<rparr>"

definition sample_joiner :: "str \<Rightarrow> Join" where
  "sample_joiner room_id = \<lparr>jn_version = 2, jn_room_id = room_id, jn_invitation_side = Joiner,
     jn_transfer_role = TR_Receiver, jn_bootstrap_methods = [],
     jn_selected_bootstrap_method = Some RoomCode\<rparr>"

definition parked_room :: "BrokerConfig \<Rightarrow> str \<Rightarrow> nat \<Rightarrow> nat \<Rightarrow> nat \<Rightarrow> RoomState" where
  "parked_room config room_id i w active =
     (new_room config 0 room_id i)\<lparr>rm_waiter := Some \<lparr>wt_id = w, wt_join = sample_creator room_id\<rparr>,
        rm_active_connections := active\<rparr>"

definition parked_registry :: Registry where
  "parked_registry = \<lparr>rg_rooms = [(room_a, parked_room default_config room_a 0 1 1)], rg_next_id = 2,
     rg_metrics = metrics_zero\<rparr>"

lemma room_a_invitation: "is_invitation_room room_a" "\<not> is_remembered_room_id room_a" "\<not> is_room_control_locator room_a"
  by (simp_all add: room_a_def is_invitation_room_def is_remembered_room_id_def is_room_control_locator_def ROOM_ID_LEN_def
      strip_prefix_def REMEMBERED_ROOM_ID_PREFIX_def ROOM_CONTROL_LOCATOR_PREFIX_def ascii_def of_char_def is_ascii_digit_def)

lemma sample_joins_valid: "validate_join (sample_creator room_a) = Inr ()" "validate_join (sample_joiner room_a) = Inr ()"
  by (simp_all add: validate_join_def sample_creator_def sample_joiner_def RENDEZVOUS_PROTOCOL_VERSION_def
      room_a_invitation Let_def)

lemma sample_match: "joins_match (sample_creator rid) (sample_joiner rid) = Some RoomCode"
  by (simp add: joins_match_def pair_match_def sample_creator_def sample_joiner_def complement_def)

lemma sample_park:
  "creator_decision default_config 0 (sample_creator room_a) registry_new
     = (Parked 1 (from_secs 300) (room_a, 0), parked_registry)"
  by (simp add: creator_decision_def sweep_rooms_def registry_new_def Let_def sample_creator_def park_creator_def
      parked_registry_def parked_room_def new_room_def waiting_creators_def metrics_zero_def)
    (simp add: default_config_def)

lemma parked_reachable: "room_reachable default_config (parked_registry, [(room_a, 0)], [])"
  by (rule room_reachable.step [OF room_reachable.start room_step.creator_parks [OF sample_joins_valid(1) _ sample_park]])
    (simp add: sample_creator_def)

lemma sample_handed:
  "\<exists>reg'. joiner_decision default_config 0 True (sample_joiner room_a) parked_registry
     = (Handed (room_a, 0) \<lparr>wt_id = 1, wt_join = sample_creator room_a\<rparr>, reg')"
proof -
  have "bucket_take (bucket_new (bc_room_attempt_rate default_config) 0) 0
      = (Inr (), sample_bucket (bc_room_attempt_rate default_config) 0)"
    by (subst bucket_take_new) (simp_all add: default_config_def sample_bucket_def)
  moreover have "\<not> sweep_due 0 (parked_room default_config room_a 0 1 1)"
    by (simp add: sweep_due_def parked_room_def new_room_def default_config_def from_secs_def NANOS_PER_SEC_def)
  moreover have "jn_room_id (sample_joiner room_a) = room_a" by (simp add: sample_joiner_def)
  moreover have "unat (bc_room_attempt_limit default_config) = 6" "bc_max_connections_per_room default_config = 2"
    by (simp_all add: default_config_def)
  ultimately show ?thesis
    by (simp add: joiner_decision_def sweep_rooms_def Let_def parked_registry_def sweep_room_def sweep_keep_def
        parked_room_def new_room_def joiner_obstacle_def room_a_invitation sample_match hand_over_def)
qed

lemma matched_reachable:
  "\<exists>reg'. room_reachable default_config (reg', [(room_a, 0), (room_a, 0)],
     [(0, sample_creator room_a, sample_joiner room_a)])"
proof -
  obtain reg' where "joiner_decision default_config 0 True (sample_joiner room_a) parked_registry
     = (Handed (room_a, 0) \<lparr>wt_id = 1, wt_join = sample_creator room_a\<rparr>, reg')"
    using sample_handed by blast
  from room_reachable.step [OF parked_reachable room_step.joiner_matched [OF sample_joins_valid(2) _ this]]
  show ?thesis by (auto simp: sample_joiner_def)
qed

section \<open>Reachable rooms\<close>

text \<open>
  C11: in every state the registry can reach under any interleaving of creators, joiners, evictions,
  expiries, sweeps and dropped connections, there are at most \<open>max_room_states\<close> rooms; the
  connections counted in a room are exactly the slot guards of its instance alive, at most
  \<open>max_connections_per_room\<close>; and when all guards alive are dropped, in any order, no room holds a slot:
  guards of an older instance never free a slot of a newer one.
\<close>

theorem room_accounting:
  assumes "room_reachable config (reg, guards, hist)" and "config_validate config = Inr ()"
  shows "distinct (map fst (rg_rooms reg)) \<and> length (rg_rooms reg) \<le> bc_max_room_states config
         \<and> (\<forall>rid r. map_of (rg_rooms reg) rid = Some r
              \<longrightarrow> rm_active_connections r = count_list guards (rid, rm_instance r)
                \<and> rm_active_connections r \<le> bc_max_connections_per_room config)
         \<and> (\<forall>guard. slots_of (fold drop_slot_guard guards reg) guard = 0)"
proof -
  note inv = room_inv_reachable [OF assms]
  have "slots_of (fold drop_slot_guard guards reg) guard = 0" for guard
    using slots_of_le [OF inv, of guard] by (simp add: slot_ledger.held_fold)
  moreover have "rm_active_connections r = count_list guards (rid, rm_instance r)
      \<and> rm_active_connections r \<le> bc_max_connections_per_room config"
    if "map_of (rg_rooms reg) rid = Some r" for rid r
    using room_inv_room [OF inv that] by (simp add: room_ok_def room_acc_def)
  moreover have "distinct (map fst (rg_rooms reg))" "length (rg_rooms reg) \<le> bc_max_room_states config"
    using inv by (simp_all add: room_inv_def)
  ultimately show ?thesis by blast
qed

theorem room_accounting_witness:
  "rm_active_connections (parked_room default_config room_a 0 1 1) = count_list [(room_a, 0)] (room_a, 0)
   \<and> slots_of (fold drop_slot_guard [(room_a, 0)] parked_registry) (room_a, 0) = 0"
  using room_accounting [OF parked_reachable default_config_valid]
  by (auto simp: parked_registry_def parked_room_def new_room_def)

text \<open>
  C24: a room code can be tried at most \<open>room_attempt_limit\<close> times: over the whole life of a room
  instance, with creators that leave and come back, no more joiners than that are handed over, and
  the attempts a room has counted are exactly the matches made in it. A remembered room makes one
  match only.
\<close>

theorem room_attempts_bounded:
  assumes "room_reachable config (reg, guards, hist)" and "config_validate config = Inr ()"
  shows "(\<forall>i. matches_of hist i \<le> unat (bc_room_attempt_limit config))
         \<and> (\<forall>(i, c, j) \<in> set hist. is_remembered_room_id (jn_room_id c) \<longrightarrow> matches_of hist i = 1)
         \<and> (\<forall>rid r. map_of (rg_rooms reg) rid = Some r \<longrightarrow> rm_attempts r = matches_of hist (rm_instance r))"
proof -
  note inv = room_inv_reachable [OF assms]
  have hist: "hist_ok config (rg_next_id reg) hist"
    using inv by (simp add: room_inv_def)
  have "matches_of hist i \<le> unat (bc_room_attempt_limit config)" for i
  proof (cases "\<exists>c j. (i, c, j) \<in> set hist")
    case True
    then show ?thesis using hist by (auto simp: hist_ok_def)
  next
    case False
    then have "matches_of hist i = 0" by (auto simp: matches_of_def filter_empty_conv)
    then show ?thesis by simp
  qed
  moreover have "rm_attempts r = matches_of hist (rm_instance r)" if "map_of (rg_rooms reg) rid = Some r" for rid r
    using room_inv_room(2) [OF inv that] by (simp add: room_acc_def)
  moreover have "\<forall>(i, c, j) \<in> set hist. is_remembered_room_id (jn_room_id c) \<longrightarrow> matches_of hist i = 1"
    using hist unfolding hist_ok_def by fast
  ultimately show ?thesis by blast
qed

theorem room_attempts_bounded_witness:
  "matches_of [(0, sample_creator room_a, sample_joiner room_a)] 0 \<le> unat (bc_room_attempt_limit default_config)"
proof -
  obtain reg' where "room_reachable default_config (reg', [(room_a, 0), (room_a, 0)],
      [(0, sample_creator room_a, sample_joiner room_a)])"
    using matched_reachable by blast
  from room_attempts_bounded [OF this default_config_valid] show ?thesis by blast
qed

text \<open>
  C12: whoever is matched belongs together: creator and joiner gave the same room id, their transfer
  roles are complementary, the method the joiner selected is one the creator advertised, and the
  creator is told \<open>Responder\<close>, the joiner \<open>Initiator\<close>, with that method.
\<close>

theorem matches_complementary:
  assumes "room_reachable config (reg, guards, hist)" and "config_validate config = Inr ()"
    and "(i, c, j) \<in> set hist"
  shows "jn_room_id c = jn_room_id j \<and> jn_transfer_role j = complement (jn_transfer_role c)
         \<and> (\<exists>selected \<in> set (jn_bootstrap_methods c). jn_selected_bootstrap_method j = Some selected
              \<and> (\<forall>mx relay. fst (snd (run_pair c j (Inr ()) (Inr ()) relay mx)) =
                   [Reply_Paired \<lparr>pd_role = Responder, pd_selected_bootstrap_method = selected\<rparr>,
                    Reply_Paired \<lparr>pd_role = Initiator, pd_selected_bootstrap_method = selected\<rparr>]))"
proof -
  have ok: "match_ok c j"
    using room_inv_reachable [OF assms(1,2)] assms(3) by (auto simp: room_inv_def hist_ok_def)
  then obtain selected where sel: "joins_match c j = Some selected"
    by (auto simp: match_ok_def)
  then have "complement (jn_transfer_role c) = jn_transfer_role j" "selected \<in> set (jn_bootstrap_methods c)"
    "jn_selected_bootstrap_method j = Some selected"
    using ok by (auto simp: match_ok_def joins_match_def pair_match_def split: if_splits option.splits)
  then show ?thesis
    using ok sel by (auto simp: match_ok_def run_pair_def role_for_def Let_def)
qed

theorem matches_complementary_witness:
  "\<exists>selected \<in> {FullTicket, RoomCode}. jn_selected_bootstrap_method (sample_joiner room_a) = Some selected"
proof -
  obtain reg' where "room_reachable default_config (reg', [(room_a, 0), (room_a, 0)],
      [(0, sample_creator room_a, sample_joiner room_a)])"
    using matched_reachable by blast
  from matches_complementary [OF this default_config_valid, of 0 "sample_creator room_a" "sample_joiner room_a"]
  show ?thesis by (auto simp: sample_creator_def)
qed

section \<open>Decisions\<close>

text \<open>
  C25: a joiner is handed to a creator exactly when its room is live, not used up and not yet due to
  expire, has a free slot and, for a short code, attempts left and a token in its bucket, and a
  creator waits there whose join matches and whose task still listens. The pair is then held by a
  guard of that room's instance.
\<close>

theorem joiner_handed_iff:
  assumes "distinct (map fst (rg_rooms reg))"
  shows "fst (joiner_decision config now alive join reg) = Handed guard w \<longleftrightarrow>
    (\<exists>r. map_of (rg_rooms reg) (jn_room_id join) = Some r \<and> alive \<and> guard = (jn_room_id join, rm_instance r)
       \<and> rm_status r = Live \<and> \<not> rm_consumed r \<and> now < rm_expires_at r
       \<and> rm_active_connections r < bc_max_connections_per_room config
       \<and> rm_waiter r = Some w \<and> joins_match (wt_join w) join \<noteq> None
       \<and> (rm_short_code r \<longrightarrow> rm_attempts r < unat (bc_room_attempt_limit config)
            \<and> bucket_refill (rm_attempt_rate r) now \<ge> 1))"
proof -
  define reg1 where "reg1 = sweep_rooms config now reg"
  have open_iff: "(map_of (rg_rooms reg1) (jn_room_id join) = Some r \<and> rm_status r = Live \<and> \<not> rm_consumed r)
    \<longleftrightarrow> (map_of (rg_rooms reg) (jn_room_id join) = Some r \<and> rm_status r = Live \<and> \<not> rm_consumed r \<and> now < rm_expires_at r)" for r
    unfolding reg1_def by (rule sweep_lookup_open [OF assms])
  have "fst (joiner_decision config now alive join reg) = Handed guard w \<longleftrightarrow>
    (\<exists>r. map_of (rg_rooms reg1) (jn_room_id join) = Some r \<and> rm_status r = Live \<and> \<not> rm_consumed r
       \<and> alive \<and> guard = (jn_room_id join, rm_instance r)
       \<and> rm_active_connections r < bc_max_connections_per_room config
       \<and> rm_waiter r = Some w \<and> joins_match (wt_join w) join \<noteq> None
       \<and> (rm_short_code r \<longrightarrow> rm_attempts r < unat (bc_room_attempt_limit config)
            \<and> bucket_refill (rm_attempt_rate r) now \<ge> 1))"
  proof (cases "map_of (rg_rooms reg1) (jn_room_id join)")
    case None
    then show ?thesis
      by (simp add: joiner_decision_def Let_def reg1_def [symmetric])
  next
    case (Some r)
    show ?thesis
    proof (cases "joiner_obstacle r")
      case None
      then show ?thesis
        using Some bucket_take_Inr [of "rm_attempt_rate r" now] unfolding joiner_obstacle_None
        by (auto simp: joiner_decision_def Let_def reg1_def [symmetric] hand_over_def joiner_obstacle_def not_le
            split: option.splits prod.splits sum.splits)
    next
      case obstacle: (Some outcome)
      then have "\<not> (rm_status r = Live \<and> \<not> rm_consumed r)"
        using joiner_obstacle_None [of r] by simp
      then show ?thesis
        using Some obstacle by (auto simp: joiner_decision_def Let_def reg1_def [symmetric])
    qed
  qed
  then show ?thesis
    using open_iff by blast
qed

theorem joiner_handed_iff_witness:
  "fst (joiner_decision default_config 0 True (sample_joiner room_a) parked_registry)
     = Handed (room_a, 0) \<lparr>wt_id = 1, wt_join = sample_creator room_a\<rparr>
   \<and> fst (joiner_decision default_config (from_secs 300) True (sample_joiner room_a) parked_registry)
     \<noteq> Handed (room_a, 0) \<lparr>wt_id = 1, wt_join = sample_creator room_a\<rparr>"
proof -
  have "distinct (map fst (rg_rooms parked_registry))" by (simp add: parked_registry_def)
  note iff = joiner_handed_iff [OF this]
  have "fst (joiner_decision default_config 0 True (sample_joiner room_a) parked_registry)
     = Handed (room_a, 0) \<lparr>wt_id = 1, wt_join = sample_creator room_a\<rparr>"
    using sample_handed by auto
  moreover have "fst (joiner_decision default_config (from_secs 300) True (sample_joiner room_a) parked_registry)
     \<noteq> Handed (room_a, 0) \<lparr>wt_id = 1, wt_join = sample_creator room_a\<rparr>"
    unfolding iff by (simp add: parked_registry_def parked_room_def new_room_def sample_joiner_def default_config_def)
  ultimately show ?thesis ..
qed

text \<open>
  A creator is parked exactly when its room is open to it (live, not used up, not due to expire,
  nobody waiting, a free slot), or no state is left of the room after the sweep and neither the
  limit on rooms nor the limit on waiting creators is reached.
\<close>

theorem creator_parked_iff:
  assumes "distinct (map fst (rg_rooms reg))"
  shows "(\<exists>w e guard. fst (creator_decision config now join reg) = Parked w e guard) \<longleftrightarrow>
    (\<exists>r. map_of (rg_rooms reg) (jn_room_id join) = Some r
       \<and> rm_status r = Live \<and> \<not> rm_consumed r \<and> now < rm_expires_at r
       \<and> rm_waiter r = None \<and> rm_active_connections r < bc_max_connections_per_room config)
    \<or> map_of (rg_rooms (sweep_rooms config now reg)) (jn_room_id join) = None
       \<and> length (rg_rooms (sweep_rooms config now reg)) < bc_max_room_states config
       \<and> waiting_creators (rg_rooms (sweep_rooms config now reg)) < bc_max_waiting_creators config"
proof -
  define reg1 where "reg1 = sweep_rooms config now reg"
  have open_iff: "(map_of (rg_rooms reg1) (jn_room_id join) = Some r \<and> rm_status r = Live \<and> \<not> rm_consumed r)
    \<longleftrightarrow> (map_of (rg_rooms reg) (jn_room_id join) = Some r \<and> rm_status r = Live \<and> \<not> rm_consumed r \<and> now < rm_expires_at r)" for r
    unfolding reg1_def by (rule sweep_lookup_open [OF assms])
  have "(\<exists>w e guard. fst (creator_decision config now join reg) = Parked w e guard) \<longleftrightarrow>
    (\<exists>r. (map_of (rg_rooms reg1) (jn_room_id join) = Some r \<and> rm_status r = Live \<and> \<not> rm_consumed r)
       \<and> rm_waiter r = None \<and> rm_active_connections r < bc_max_connections_per_room config)
    \<or> map_of (rg_rooms reg1) (jn_room_id join) = None \<and> length (rg_rooms reg1) < bc_max_room_states config
       \<and> waiting_creators (rg_rooms reg1) < bc_max_waiting_creators config"
  proof (cases "map_of (rg_rooms reg1) (jn_room_id join)")
    case None
    then show ?thesis
      by (auto simp: creator_decision_def Let_def reg1_def [symmetric] park_creator_def)
  next
    case (Some r)
    then show ?thesis
      using creator_obstacle_None [of config r]
      by (cases "creator_obstacle config r")
        (auto simp: creator_decision_def Let_def reg1_def [symmetric] park_creator_def)
  qed
  then show ?thesis
    unfolding open_iff by (simp add: reg1_def)
qed

theorem creator_parked_iff_witness:
  "\<not> (\<exists>w e guard. fst (creator_decision default_config 0 (sample_creator room_a) parked_registry) = Parked w e guard)"
proof -
  have "distinct (map fst (rg_rooms parked_registry))" by (simp add: parked_registry_def)
  moreover have "map_of (rg_rooms (sweep_rooms default_config 0 parked_registry)) room_a \<noteq> None"
    by (simp add: sweep_rooms_def parked_registry_def sweep_room_def sweep_due_def sweep_keep_def parked_room_def
        new_room_def default_config_def from_secs_def NANOS_PER_SEC_def)
  ultimately show ?thesis
    by (subst creator_parked_iff) (auto simp: sample_creator_def parked_registry_def parked_room_def)
qed

text \<open>
  A closed room answers for itself until its tombstone is purged: a room that expired, or whose
  time is over, answers \<open>room_expired\<close> without a retry hint, an exhausted one \<open>room_under_attack\<close>, to
  creators and joiners alike; no code can be reused in that time.
\<close>

theorem closed_room_refuses:
  assumes "distinct (map fst (rg_rooms reg))" and "map_of (rg_rooms reg) (jn_room_id join) = Some r"
    and "config_validate config = Inr ()" and "rm_active_connections r > 0 \<or> (rm_status r \<noteq> Live \<longrightarrow> now < purge_at (rm_status r))"
    and "if rm_status r = Live then \<not> rm_consumed r \<and> now \<ge> rm_expires_at r else True"
  shows "let outcome = (case rm_status r of Exhausted _ \<Rightarrow> RoomUnderAttack | _ \<Rightarrow> RoomExpired) in
      fst (creator_decision config now join reg) = CreatorRejected \<lparr>rj_outcome = outcome, rj_retry_after = None\<rparr>
    \<and> fst (joiner_decision config now alive join reg) = JoinerRejected \<lparr>rj_outcome = outcome, rj_retry_after = None\<rparr> None"
proof -
  let ?r = "sweep_room config now r"
  have ttl: "bc_room_tombstone_ttl config > 0"
    using assms(3) by (simp add: config_validate_def)
  have status: "rm_status ?r = (case rm_status r of Live \<Rightarrow> Expired (now + bc_room_tombstone_ttl config) | s \<Rightarrow> s)"
    using assms(5) by (auto simp: sweep_room_def sweep_due_def split: RoomStatus.splits)
  have "sweep_keep now ?r"
    using assms(4) ttl by (cases "rm_status r") (auto simp: sweep_keep_def status sweep_room_def)
  then have "map_of (rg_rooms (sweep_rooms config now reg)) (jn_room_id join) = Some ?r"
    by (simp add: sweep_lookup [OF assms(1)] assms(2))
  then show ?thesis
    by (cases "rm_status r")
      (auto simp: creator_decision_def joiner_decision_def Let_def creator_obstacle_def joiner_obstacle_def status
        status_rejection_def room_rejection_def)
qed

theorem closed_room_refuses_witness:
  "fst (creator_decision default_config (from_secs 300) (sample_creator room_a) parked_registry)
     = CreatorRejected \<lparr>rj_outcome = RoomExpired, rj_retry_after = None\<rparr>"
proof -
  let ?r = "parked_room default_config room_a 0 1 1"
  have "distinct (map fst (rg_rooms parked_registry))"
    "map_of (rg_rooms parked_registry) (jn_room_id (sample_creator room_a)) = Some ?r"
    by (simp_all add: parked_registry_def sample_creator_def)
  from closed_room_refuses [OF this default_config_valid, of "from_secs 300"] show ?thesis
    by (simp add: parked_room_def new_room_def) (simp add: default_config_def)
qed

text \<open>
  Two accepted joins for the same room, one from each side, match exactly when their transfer
  roles are complementary; in remembered and room-control rooms, where the roles are fixed, they
  always match.
\<close>

theorem accepted_joins_match:
  assumes "validate_join c = Inr ()" and "validate_join j = Inr ()" and "jn_invitation_side c = Creator"
    and "jn_invitation_side j = Joiner" and "jn_room_id c = jn_room_id j"
  shows "(joins_match c j \<noteq> None \<longleftrightarrow> complement (jn_transfer_role c) = jn_transfer_role j)
         \<and> joins_match j c = joins_match c j
         \<and> (is_remembered_room_id (jn_room_id c) \<or> is_room_control_locator (jn_room_id c) \<longrightarrow> joins_match c j \<noteq> None)"
proof -
  have kinds: "m \<in> {FullTicket, RoomCode}" for m by (cases m) simp_all
  have creator: "jn_bootstrap_methods c = (if is_room_control_locator (jn_room_id c) then [RoomCode]
      else if is_remembered_room_id (jn_room_id c) then [FullTicket] else [FullTicket, RoomCode])"
    "is_remembered_room_id (jn_room_id c) \<or> is_room_control_locator (jn_room_id c) \<Longrightarrow> jn_transfer_role c = TR_Receiver"
    using assms(1,3) by (auto simp: validate_join_def Let_def split: if_splits)
  have joiner: "\<exists>m. jn_selected_bootstrap_method j = Some m \<and>
      (is_room_control_locator (jn_room_id c) \<longrightarrow> m = RoomCode)
      \<and> (is_remembered_room_id (jn_room_id c) \<longrightarrow> \<not> is_room_control_locator (jn_room_id c) \<longrightarrow> m = FullTicket)"
    "is_remembered_room_id (jn_room_id c) \<or> is_room_control_locator (jn_room_id c) \<Longrightarrow> jn_transfer_role j = TR_Sender"
    using assms(2,4,5) by (auto simp: validate_join_def Let_def split: if_splits)
  have "pair_match c j \<noteq> None \<longleftrightarrow> complement (jn_transfer_role c) = jn_transfer_role j"
    using creator(1) joiner(1) kinds by (auto simp: pair_match_def)
  moreover have "joins_match c j = pair_match c j" "joins_match j c = pair_match c j"
    by (simp_all add: joins_match_def assms(3,4))
  moreover have "complement TR_Receiver = TR_Sender" by (simp add: complement_def)
  ultimately show ?thesis
    using creator(2) joiner(2) by auto
qed

theorem accepted_joins_match_witness: "joins_match (sample_joiner room_a) (sample_creator room_a) = Some RoomCode"
  using accepted_joins_match [OF sample_joins_valid] sample_match
  by (simp add: sample_creator_def sample_joiner_def)

section \<open>The sweep\<close>

lemma sweep_room_again: "sweep_room config now (sweep_room config now r) = sweep_room config now r"
  by (simp add: sweep_room_def sweep_due_def)

lemma sweep_not_due: "\<not> sweep_due now (sweep_room config now r)"
  by (simp add: sweep_room_def sweep_due_def)

text \<open>
  A sweep leaves no live room past its expiry and no tombstone past its purge instant unless it
  still has connections, keeps every other room (open ones unchanged), and a second sweep at the
  same instant changes nothing, metrics included.
\<close>

theorem sweep_rooms_exact:
  assumes "distinct (map fst (rg_rooms reg))"
  shows "(\<forall>(rid, r) \<in> set (rg_rooms (sweep_rooms config now reg)).
            (case rm_status r of Live \<Rightarrow> rm_consumed r \<or> now < rm_expires_at r
             | s \<Rightarrow> rm_active_connections r > 0 \<or> now < purge_at s))
         \<and> (\<forall>rid r. map_of (rg_rooms reg) rid = Some r \<longrightarrow> rm_status r = Live
              \<longrightarrow> rm_consumed r \<or> now < rm_expires_at r
              \<longrightarrow> map_of (rg_rooms (sweep_rooms config now reg)) rid = Some r)
         \<and> sweep_rooms config now (sweep_rooms config now reg) = sweep_rooms config now reg"
proof -
  let ?rooms = "rg_rooms (sweep_rooms config now reg)"
  have elem: "\<exists>r0. r = sweep_room config now r0 \<and> sweep_keep now r" if "(rid, r) \<in> set ?rooms" for rid r
    using that by (auto simp: sweep_rooms_def)
  have same: "map (\<lambda>(rid, room). (rid, sweep_room config now room)) ?rooms = ?rooms"
    by (rule map_idI) (use elem in \<open>force simp: sweep_room_again\<close>)
  have kept: "filter (\<lambda>(_, room). sweep_keep now room) ?rooms = ?rooms"
    using elem by (force simp: filter_id_conv)
  have none: "filter (\<lambda>(_, room). sweep_due now room) ?rooms = []"
    using elem sweep_not_due by (fastforce simp: filter_empty_conv)
  have "sweep_rooms config now (sweep_rooms config now reg) = sweep_rooms config now reg"
    by (subst sweep_rooms_def) (simp only: same kept none, simp)
  moreover have "case rm_status r of Live \<Rightarrow> rm_consumed r \<or> now < rm_expires_at r
             | s \<Rightarrow> rm_active_connections r > 0 \<or> now < purge_at s" if "(rid, r) \<in> set ?rooms" for rid r
  proof -
    from elem [OF that] obtain r0 where "r = sweep_room config now r0" "sweep_keep now r" by blast
    then have "\<not> sweep_due now r" "sweep_keep now r" by (simp_all add: sweep_not_due)
    then show ?thesis by (auto simp: sweep_keep_def sweep_due_def split: RoomStatus.splits)
  qed
  moreover have "map_of ?rooms rid = Some r"
    if "map_of (rg_rooms reg) rid = Some r" "rm_status r = Live" "rm_consumed r \<or> now < rm_expires_at r" for rid r
    using that by (auto simp: sweep_lookup [OF assms] sweep_room_def sweep_due_def sweep_keep_def)
  ultimately show ?thesis by blast
qed

theorem sweep_rooms_exact_witness:
  "map_of (rg_rooms (sweep_rooms default_config 0 parked_registry)) room_a = Some (parked_room default_config room_a 0 1 1)"
proof -
  have "distinct (map fst (rg_rooms parked_registry))"
    "map_of (rg_rooms parked_registry) room_a = Some (parked_room default_config room_a 0 1 1)"
    "rm_status (parked_room default_config room_a 0 1 1) = Live"
    "0 < rm_expires_at (parked_room default_config room_a 0 1 1)"
    by (simp_all add: parked_registry_def parked_room_def new_room_def default_config_def from_secs_def NANOS_PER_SEC_def)
  then show ?thesis
    using sweep_rooms_exact [of parked_registry default_config 0] by blast
qed

section \<open>The bound on waiting creators\<close>

text \<open>
  A run with \<open>max_waiting_creators = 1\<close>: a creator parks and its task is evicted, a second creator
  parks in another room, the first comes back to its own room, which still exists.
\<close>

definition single_config :: BrokerConfig where
  "single_config = default_config\<lparr>bc_max_waiting_creators := 1\<rparr>"

definition room_b :: str where "room_b = ascii ''222222''"

lemma room_b_valid: "validate_join (sample_creator room_b) = Inr ()" "\<not> is_remembered_room_id room_b" "room_b \<noteq> room_a"
  by (simp_all add: validate_join_def sample_creator_def RENDEZVOUS_PROTOCOL_VERSION_def Let_def
      room_b_def room_a_def is_invitation_room_def is_remembered_room_id_def is_room_control_locator_def ROOM_ID_LEN_def
      strip_prefix_def REMEMBERED_ROOM_ID_PREFIX_def ROOM_CONTROL_LOCATOR_PREFIX_def ascii_def of_char_def is_ascii_digit_def)

definition single_registry :: "(str \<times> RoomState) list \<Rightarrow> nat \<Rightarrow> Registry" where
  "single_registry rooms n = \<lparr>rg_rooms = rooms, rg_next_id = n, rg_metrics = metrics_zero\<rparr>"

definition left_room :: RoomState where
  "left_room = (parked_room single_config room_a 0 1 1)\<lparr>rm_waiter := None\<rparr>"

lemma single_eval:
  "sweep_due 0 (parked_room single_config rid i w n) = False" "sweep_due 0 left_room = False"
  "rm_status (parked_room single_config rid i w n) = Live" "rm_status left_room = Live"
  "rm_waiter (parked_room single_config rid i w n) = Some \<lparr>wt_id = w, wt_join = sample_creator rid\<rparr>"
  "rm_waiter left_room = None"
  "bc_max_waiting_creators single_config = 1" "bc_max_room_states single_config = 8192"
  "bc_max_connections_per_room single_config = 2"
  by (simp_all add: sweep_due_def parked_room_def left_room_def new_room_def single_config_def default_config_def
      from_secs_def NANOS_PER_SEC_def)

lemma single_park1: "\<exists>e. creator_decision single_config 0 (sample_creator room_a) registry_new
    = (Parked 1 e (room_a, 0), single_registry [(room_a, parked_room single_config room_a 0 1 1)] 2)"
  by (simp add: creator_decision_def sweep_rooms_def registry_new_def Let_def sample_creator_def park_creator_def
      single_registry_def parked_room_def new_room_def waiting_creators_def metrics_zero_def single_eval)

lemma single_evict: "evict_waiter room_a 1 (single_registry [(room_a, parked_room single_config room_a 0 1 1)] 2)
    = single_registry [(room_a, left_room)] 2"
  by (simp add: evict_waiter_def single_registry_def single_eval room_a_invitation put_room_def left_room_def)

lemma single_park2: "\<exists>e. creator_decision single_config 0 (sample_creator room_b) (single_registry [(room_a, left_room)] 2)
    = (Parked 3 e (room_b, 2), single_registry [(room_a, left_room), (room_b, parked_room single_config room_b 2 3 1)] 4)"
  using room_b_valid(3)
  by (simp add: creator_decision_def sweep_rooms_def sweep_room_def sweep_keep_def single_registry_def single_eval
      Let_def waiting_creators_def metrics_zero_def park_creator_def parked_room_def new_room_def) 
    (simp add: sample_creator_def)

lemma single_park3: "\<exists>e. creator_decision single_config 0 (sample_creator room_a)
      (single_registry [(room_a, left_room), (room_b, parked_room single_config room_b 2 3 1)] 4)
    = (Parked 4 e (room_a, 0), single_registry [(room_a, parked_room single_config room_a 0 4 2),
        (room_b, parked_room single_config room_b 2 3 1)] 5)"
proof -
  have "creator_obstacle single_config left_room = None"
    unfolding creator_obstacle_None by (simp add: left_room_def parked_room_def new_room_def single_eval)
  moreover have "rm_active_connections left_room = 1" "rm_instance left_room = 0"
    "left_room\<lparr>rm_waiter := Some \<lparr>wt_id = 4, wt_join = sample_creator room_a\<rparr>, rm_active_connections := 2\<rparr>
       = parked_room single_config room_a 0 4 2"
    by (simp_all add: left_room_def parked_room_def new_room_def)
  moreover have "jn_room_id (sample_creator room_a) = room_a" by (simp add: sample_creator_def)
  ultimately show ?thesis
    using room_b_valid(3)
    by (simp add: creator_decision_def sweep_rooms_def sweep_room_def sweep_keep_def single_registry_def single_eval
      Let_def metrics_zero_def park_creator_def numeral_2_eq_2)
qed

text \<open>
  C38: \<open>max_waiting_creators\<close> is not a bound on the creators waiting: it is checked for new rooms
  only, and with a limit of one a reachable registry has two creators waiting.
\<close>

theorem waiting_cap_exceeded:
  "config_validate single_config = Inr () \<and> bc_max_waiting_creators single_config = 1
   \<and> (\<exists>reg guards hist. room_reachable single_config (reg, guards, hist) \<and> waiting_creators (rg_rooms reg) = 2)"
proof -
  have side: "jn_invitation_side (sample_creator rid) = Creator" for rid by (simp add: sample_creator_def)
  obtain e1 e2 e3 where runs: "creator_decision single_config 0 (sample_creator room_a) registry_new
      = (Parked 1 e1 (room_a, 0), single_registry [(room_a, parked_room single_config room_a 0 1 1)] 2)"
    "creator_decision single_config 0 (sample_creator room_b) (single_registry [(room_a, left_room)] 2)
      = (Parked 3 e2 (room_b, 2), single_registry [(room_a, left_room), (room_b, parked_room single_config room_b 2 3 1)] 4)"
    "creator_decision single_config 0 (sample_creator room_a)
        (single_registry [(room_a, left_room), (room_b, parked_room single_config room_b 2 3 1)] 4)
      = (Parked 4 e3 (room_a, 0), single_registry [(room_a, parked_room single_config room_a 0 4 2),
          (room_b, parked_room single_config room_b 2 3 1)] 5)"
    using single_park1 single_park2 single_park3 by blast
  have "room_reachable single_config (single_registry [(room_a, parked_room single_config room_a 0 1 1)] 2, [(room_a, 0)], [])"
    by (rule room_reachable.step [OF room_reachable.start room_step.creator_parks [OF sample_joins_valid(1) side runs(1)]])
  from room_reachable.step [OF this room_step.evicts [of _ _ _ _ room_a 1]]
  have "room_reachable single_config (single_registry [(room_a, left_room)] 2, [(room_a, 0)], [])"
    unfolding single_evict .
  from room_reachable.step [OF room_reachable.step [OF this room_step.creator_parks [OF room_b_valid(1) side runs(2)]]
      room_step.creator_parks [OF sample_joins_valid(1) side runs(3)]]
  have "\<exists>reg guards hist. room_reachable single_config (reg, guards, hist) \<and> waiting_creators (rg_rooms reg) = 2"
    by (intro exI conjI) (assumption, simp add: waiting_creators_def single_registry_def single_eval)
  moreover have "config_validate single_config = Inr ()"
    by (simp add: config_validate_def rate_validate_def single_config_def default_config_def per_minute_def
        from_secs_def NANOS_PER_SEC_def)
  ultimately show ?thesis by (simp add: single_eval)
qed

end
