(* ===== verification/Broker_Serve_Inv.thy ===== *)
theory Broker_Serve_Inv
  imports Broker_Serve
begin

text \<open>
  The invariants of sources and rooms through the whole life of a connection, and the lemmas on the
  relay and the control frames.
\<close>

section \<open>The broker's invariant\<close>

definition broker_inv ::
  "BrokerConfig \<Rightarrow> Broker \<Rightarrow> SourceKey list \<Rightarrow> slot_guard list \<Rightarrow> match_log \<Rightarrow> bool" where
  "broker_inv config b sources slots hist \<longleftrightarrow>
     br_config b = config \<and> source_inv config (br_sources b, sources) \<and> room_inv config (br_state b, slots, hist)"

lemma broker_inv_new:
  assumes "with_config config = Inr b"
  shows "broker_inv config b [] [] []" and "config_validate config = Inr ()"
proof -
  have valid: "config_validate config = Inr ()"
    and b: "b = \<lparr>br_state = registry_new, br_sources = tracker_new config, br_config = config\<rparr>"
    using assms by (auto simp: with_config_def)
  show "broker_inv config b [] [] []"
    using source_inv_reachable [OF source_reachable.start, of config] room_limits(3) [OF valid]
      room_inv_reachable [OF room_reachable.start valid]
    by (simp add: broker_inv_def b)
  show "config_validate config = Inr ()" by (rule valid)
qed

lemma broker_inv_metrics [simp]: "broker_inv config (on_metrics f b) sources slots hist = broker_inv config b sources slots hist"
  by (simp add: broker_inv_def on_metrics_def room_inv_def)

lemma broker_inv_state:
  "broker_inv config b sources slots hist \<Longrightarrow> room_inv config (state, slots', hist')
     \<Longrightarrow> broker_inv config (b\<lparr>br_state := state\<rparr>) sources slots' hist'"
  by (simp add: broker_inv_def)

lemma broker_inv_sources:
  "broker_inv config b sources slots hist \<Longrightarrow> source_inv config (t, sources')
     \<Longrightarrow> broker_inv config (b\<lparr>br_sources := t\<rparr>) sources' slots hist"
  by (simp add: broker_inv_def)

text \<open>The guards a connection holds, in front of those of the others.\<close>

definition held_sources :: "Held \<Rightarrow> SourceKey list \<Rightarrow> SourceKey list" where
  "held_sources held sources = (case hd_source held of None \<Rightarrow> sources | Some key \<Rightarrow> key # sources)"

definition held_slots :: "Held \<Rightarrow> slot_guard list \<Rightarrow> slot_guard list" where
  "held_slots held slots = (case hd_slot held of None \<Rightarrow> slots | Some guard \<Rightarrow> guard # slots)"

lemma broker_inv_drop:
  assumes "broker_inv config b (held_sources held sources) (held_slots held slots) hist"
    and "config_validate config = Inr ()"
  shows "broker_inv config (drop_conn held b) sources slots hist"
proof -
  define b1 where "b1 = (case hd_source held of None \<Rightarrow> b | Some key \<Rightarrow> b\<lparr>br_sources := drop_source_guard key (br_sources b)\<rparr>)"
  have "broker_inv config b1 sources (held_slots held slots) hist"
  proof (cases "hd_source held")
    case None
    with assms(1) show ?thesis by (simp add: b1_def held_sources_def)
  next
    case (Some key)
    have "source_step (br_sources b, key # sources) (drop_source_guard key (br_sources b), remove1 key (key # sources))"
      by (rule source_step.dropped) simp
    from source_inv_step [OF this] room_limits(3) [OF assms(2)] assms(1)
    show ?thesis
      by (simp add: b1_def Some broker_inv_def held_sources_def)
  qed
  moreover have "drop_conn held b = (case hd_slot held of None \<Rightarrow> b1 | Some guard \<Rightarrow> b1\<lparr>br_state := drop_slot_guard guard (br_state b1)\<rparr>)"
    unfolding drop_conn_def b1_def Let_def ..
  ultimately show ?thesis
    using room_inv_drop [of config "br_state b1" "held_slots held slots" hist "the (hd_slot held)"]
    by (auto simp: broker_inv_def held_slots_def split: option.splits)
qed

lemma broker_inv_reject:
  assumes "broker_inv config b (held_sources held sources) (held_slots held slots) hist"
    and "config_validate config = Inr ()" and "reject_conn held rejection b = (served, b')"
  shows "broker_inv config b' sources slots hist"
    and "served = Finished (Some (Reply_Rejected rejection)) (Inl (RE_Rejected (rj_outcome rejection)))"
  using assms(3) broker_inv_drop [OF _ assms(2), of "on_metrics _ b" held] assms(1)
  by (auto simp: reject_conn_def)

section \<open>Serving\<close>

text \<open>
  What a connection leaves: nothing when its call is finished, its two guards while it is parked,
  and with a joiner handed over also the match.
\<close>

definition served_inv ::
  "BrokerConfig \<Rightarrow> SourceKey list \<Rightarrow> slot_guard list \<Rightarrow> match_log \<Rightarrow> JoinRead \<Rightarrow> Served \<times> Broker \<Rightarrow> bool" where
  "served_inv config sources slots hist read = (\<lambda>(served, b).
     case served of
       Finished reply result \<Rightarrow> broker_inv config b sources slots hist
     | Waiting held w e \<Rightarrow> broker_inv config b (held_sources held sources) (held_slots held slots) hist
     | HandedOff held w \<Rightarrow>
         (case (read, hd_slot held) of
            (Read_Join join, Some guard) \<Rightarrow>
              broker_inv config b (held_sources held sources) (held_slots held slots)
                ((snd guard, wt_join w, join) # hist)
          | _ \<Rightarrow> False))"

lemma served_inv_reject:
  assumes "broker_inv config b (held_sources held sources) (held_slots held slots) hist"
    and "config_validate config = Inr ()"
  shows "served_inv config sources slots hist read (reject_conn held rejection b)"
  using broker_inv_reject [OF assms, of rejection]
  by (cases "reject_conn held rejection b") (auto simp: served_inv_def)

lemma served_inv_finished: "served_inv config sources slots hist read (Finished reply result, b) = broker_inv config b sources slots hist"
  by (simp add: served_inv_def)

lemma served_inv_creator:
  assumes "broker_inv config b (held_sources held sources) slots hist" and "hd_slot held = None"
    and "config_validate config = Inr ()" and "validate_join join = Inr ()" and "jn_invitation_side join = Creator"
  shows "served_inv config sources slots hist read (serve_creator held join now b)"
proof -
  have cfg: "br_config b = config" and room: "room_inv config (br_state b, slots, hist)"
    using assms(1) by (simp_all add: broker_inv_def)
  obtain d state where d: "creator_decision config now join (br_state b) = (d, state)"
    by (cases "creator_decision config now join (br_state b)")
  note inv = broker_inv_state [OF assms(1) room_inv_creator [OF room assms(3-5) d]]
  show ?thesis
  proof (cases d)
    case (Parked w e guard)
    with inv show ?thesis
      by (simp add: serve_creator_def cfg d served_inv_def held_sources_def held_slots_def)
  next
    case (CreatorRejected r)
    with inv have "broker_inv config (b\<lparr>br_state := state\<rparr>) (held_sources held sources) (held_slots held slots) hist"
      by (simp add: held_slots_def assms(2))
    from served_inv_reject [OF this assms(3)] CreatorRejected show ?thesis
      by (simp add: serve_creator_def cfg d)
  qed
qed

lemma served_inv_joiner:
  assumes "broker_inv config b (held_sources held sources) slots hist" and "hd_slot held = None"
    and "config_validate config = Inr ()" and "validate_join join = Inr ()" and "jn_invitation_side join = Joiner"
  shows "served_inv config sources slots hist (Read_Join join) (serve_joiner held join now alive b)"
proof -
  have cfg: "br_config b = config" and room: "room_inv config (br_state b, slots, hist)"
    using assms(1) by (simp_all add: broker_inv_def)
  obtain d state where d: "joiner_decision config now alive join (br_state b) = (d, state)"
    by (cases "joiner_decision config now alive join (br_state b)")
  note inv = broker_inv_state [OF assms(1) room_inv_joiner [OF room assms(3-5) d]]
  show ?thesis
  proof (cases d)
    case (Handed guard w)
    with inv show ?thesis
      by (simp add: serve_joiner_def cfg d served_inv_def held_sources_def held_slots_def joiner_guards_def joiner_hist_def)
  next
    case (JoinerRejected r slot)
    let ?held = "held\<lparr>hd_slot := slot\<rparr>"
    have "held_slots ?held slots = joiner_guards d slots" "held_sources ?held sources = held_sources held sources"
      "joiner_hist d join hist = hist"
      by (auto simp: JoinerRejected held_slots_def held_sources_def joiner_guards_def joiner_hist_def split: option.splits)
    with inv have "broker_inv config (b\<lparr>br_state := state\<rparr>) (held_sources ?held sources) (held_slots ?held slots) hist"
      by simp
    from served_inv_reject [OF this assms(3)] JoinerRejected show ?thesis
      by (simp add: serve_joiner_def cfg d)
  qed
qed

lemma served_inv_read:
  assumes "broker_inv config b (held_sources held sources) slots hist" and "hd_slot held = None"
    and "config_validate config = Inr ()"
  shows "served_inv config sources slots hist read (serve_read held read now alive b)"
proof -
  have inv: "broker_inv config b (held_sources held sources) (held_slots held slots) hist"
    using assms(1,2) by (simp add: held_slots_def)
  note reject = served_inv_reject [OF _ assms(3)] and finish = broker_inv_drop [OF inv assms(3)]
  show ?thesis
  proof (cases read)
    case Read_Timeout
    then show ?thesis
      by (simp add: serve_read_def Let_def reject inv)
  next
    case (Read_Failed e)
    then show ?thesis
      by (cases e) (simp_all add: serve_read_def Let_def reject inv served_inv_finished finish)
  next
    case (Read_Join join)
    show ?thesis
    proof (cases "validate_join join")
      case (Inl outcome)
      then show ?thesis
        by (simp add: Read_Join serve_read_def Let_def reject inv)
    next
      case (Inr u)
      then show ?thesis
        using served_inv_creator [OF assms, of join] served_inv_joiner [OF assms, of join]
        by (cases "jn_invitation_side join") (simp_all add: Read_Join serve_read_def Let_def)
    qed
  qed
qed

lemma served_inv_from:
  assumes "config_validate config = Inr ()" and "broker_inv config b sources slots hist"
    and "\<And>pre b1. broker_inv config b1 (pre @ sources) slots hist
           \<Longrightarrow> broker_inv config (others b1) (pre @ sources') slots' hist'"
  shows "served_inv config sources' slots' hist' read (serve_from source admitted_at others read now alive b)"
proof -
  obtain res t where a: "admit (br_sources b) source admitted_at = (res, t)"
    by (cases "admit (br_sources b) source admitted_at")
  have src: "source_inv config (br_sources b, sources)"
    using assms(2) by (simp add: broker_inv_def)
  note keep = source_inv_step [OF _ src room_limits(3) [OF assms(1)]]
  show ?thesis
  proof (cases res)
    case (Inl r)
    have "source_inv config (t, sources)"
      using keep [OF source_step.refused [OF a [unfolded Inl]]] .
    from broker_inv_sources [OF assms(2) this] assms(3) [of "b\<lparr>br_sources := t\<rparr>" "[]"]
    have "broker_inv config (others (b\<lparr>br_sources := t\<rparr>)) sources' slots' hist'" by simp
    then have "served_inv config sources' slots' hist' read
        (reject_conn \<lparr>hd_source = None, hd_slot = None\<rparr> r (others (b\<lparr>br_sources := t\<rparr>)))"
      by (intro served_inv_reject assms(1)) (simp add: held_sources_def held_slots_def)
    then show ?thesis by (simp add: serve_from_def a Inl)
  next
    case (Inr key)
    have "source_inv config (t, key # sources)"
      using keep [OF source_step.admitted [OF a [unfolded Inr]]] .
    from broker_inv_sources [OF assms(2) this] assms(3) [of "b\<lparr>br_sources := t\<rparr>" "[key]"]
    have "broker_inv config (others (b\<lparr>br_sources := t\<rparr>)) (key # sources') slots' hist'" by simp
    then have "served_inv config sources' slots' hist' read
        (serve_read \<lparr>hd_source = Some key, hd_slot = None\<rparr> read now alive (others (b\<lparr>br_sources := t\<rparr>)))"
      by (intro served_inv_read assms(1)) (simp_all add: held_sources_def)
    then show ?thesis by (simp add: serve_from_def a Inr)
  qed
qed

section \<open>Waiting\<close>

text \<open>The guards that come with the event: those of the partner.\<close>

definition event_sources :: "WaitEvent \<Rightarrow> SourceKey list \<Rightarrow> SourceKey list" where
  "event_sources event sources = (case event of Partner _ h _ _ _ \<Rightarrow> held_sources h sources | _ \<Rightarrow> sources)"

definition event_slots :: "WaitEvent \<Rightarrow> slot_guard list \<Rightarrow> slot_guard list" where
  "event_slots event slots = (case event of Partner _ h _ _ _ \<Rightarrow> held_slots h slots | _ \<Rightarrow> slots)"

lemma broker_inv_wait:
  assumes "config_validate config = Inr ()"
    and "broker_inv config b (event_sources event (held_sources held sources)) (event_slots event (held_slots held slots)) hist"
  shows "broker_inv config (snd (snd (wait_for_joiner held join w event now b))) sources slots hist"
proof -
  note drop = broker_inv_drop [OF _ assms(1)]
  show ?thesis
  proof (cases event)
    case (Partner partner h w1 w2 relay)
    then show ?thesis
      using assms(2) by (auto simp: wait_for_joiner_def Let_def event_sources_def event_slots_def intro!: drop split: prod.splits)
  next
    case SenderDropped
    then show ?thesis
      using assms(2) by (auto simp: wait_for_joiner_def Let_def event_sources_def event_slots_def intro!: drop)
  next
    case (Probe res)
    then have "broker_inv config (b\<lparr>br_state := evict_waiter (jn_room_id join) w (br_state b)\<rparr>) (held_sources held sources) (held_slots held slots) hist"
      using assms(2) by (auto simp: broker_inv_def event_sources_def event_slots_def room_inv_evict)
    with Probe show ?thesis
      by (auto simp: wait_for_joiner_def Let_def intro!: drop split: sum.splits)
  next
    case Deadline
    then have "broker_inv config (b\<lparr>br_state := expire_room (br_config b) (jn_room_id join) w now (br_state b)\<rparr>) (held_sources held sources) (held_slots held slots) hist"
      using assms(2) by (auto simp: broker_inv_def event_sources_def event_slots_def room_inv_expire)
    with Deadline show ?thesis
      by (auto simp: wait_for_joiner_def Let_def intro!: drop)
  qed
qed

text \<open>A waiter that left its room stays out of it.\<close>

definition waiter_gone :: "str \<Rightarrow> nat \<Rightarrow> Registry \<Rightarrow> bool" where
  "waiter_gone rid w reg \<longleftrightarrow>
     (case map_of (rg_rooms reg) rid of None \<Rightarrow> True | Some r \<Rightarrow> map_option wt_id (rm_waiter r) \<noteq> Some w)"

lemma waiter_gone_evict: "waiter_gone rid w (evict_waiter rid w reg)"
  by (cases "map_of (rg_rooms reg) rid")
    (simp_all add: waiter_gone_def evict_waiter_def remove_room_def put_room_def update_conv' map_of_without)

lemma waiter_gone_expire:
  assumes "room_inv config (reg, slots, hist)"
  shows "waiter_gone rid w (expire_room config rid w now reg)"
proof (cases "map_of (rg_rooms reg) rid")
  case None
  then show ?thesis by (simp add: waiter_gone_def expire_room_def)
next
  case (Some r)
  have "rm_status r = Live" if "rm_waiter r \<noteq> None"
    using room_inv_room(1) [OF assms Some] that by (auto simp: room_ok_def)
  with Some show ?thesis
    by (cases "rm_waiter r") (simp_all add: waiter_gone_def expire_room_def put_room_def update_conv')
qed

lemma waiter_gone_metrics [simp]: "waiter_gone rid w (br_state (on_metrics f b)) = waiter_gone rid w (br_state b)"
  by (simp add: waiter_gone_def on_metrics_def)

lemma waiter_gone_drop_guard: "waiter_gone rid w reg \<Longrightarrow> waiter_gone rid w (drop_slot_guard guard reg)"
  by (cases guard, cases "map_of (rg_rooms reg) (fst guard)")
    (auto simp: waiter_gone_def drop_slot_guard_def remove_room_def put_room_def update_conv' map_of_without Let_def)

lemma waiter_gone_drop: "waiter_gone rid w (br_state b) \<Longrightarrow> waiter_gone rid w (br_state (drop_conn held b))"
  by (cases "hd_slot held"; cases "hd_source held") (simp_all add: drop_conn_def waiter_gone_drop_guard)

lemma wait_waiter_gone:
  assumes "room_inv (br_config b) (br_state b, slots, hist)" and "event = Deadline \<or> event = Probe p"
  shows "waiter_gone (jn_room_id join) w (br_state (snd (snd (wait_for_joiner held join w event now b))))"
proof -
  have "waiter_gone (jn_room_id join) w (br_state (snd (snd (wait_for_joiner held join w Deadline now b))))"
    by (simp add: wait_for_joiner_def waiter_gone_drop waiter_gone_expire [OF assms(1)])
  moreover have "waiter_gone (jn_room_id join) w (br_state (snd (snd (wait_for_joiner held join w (Probe p) now b))))"
    by (cases p) (simp_all add: wait_for_joiner_def waiter_gone_drop waiter_gone_evict)
  ultimately show ?thesis using assms(2) by auto
qed

section \<open>Relay\<close>

definition wire_frame :: "bytes \<Rightarrow> bytes" where
  "wire_frame body = u32_to_be (word_of_nat (length body)) @ body"

lemma wire_frame_split:
  assumes "4 \<le> length bs" and "unat (u32_from_be (take 4 bs)) \<le> length (drop 4 bs)"
  defines "n \<equiv> unat (u32_from_be (take 4 bs))"
  shows "take 4 bs @ take n (drop 4 bs) = wire_frame (take n (drop 4 bs))"
  using assms by (simp add: wire_frame_def min_def to_be_from_be)

text \<open>One turn of the loop: a whole frame is written, or the relay stops, with nothing written or the start of a frame.\<close>

definition relays :: "BrokerConfig \<Rightarrow> (nat \<Rightarrow> RendezvousError \<times> nat + unit) \<Rightarrow> nat \<Rightarrow> bytes \<Rightarrow> bool" where
  "relays config wr k bs \<longleftrightarrow> 4 \<le> length bs \<and> unat (u32_from_be (take 4 bs)) \<le> bc_max_frame_body config
     \<and> unat (u32_from_be (take 4 bs)) \<le> length (drop 4 bs) \<and> wr k = Inr ()"

text \<open>
  The end of a run: \<open>begun\<close> is what was written of a frame whose write failed, empty when none did, and
  \<open>rest\<close> what was read after it or never read.
\<close>

definition relay_end ::
  "BrokerConfig \<Rightarrow> (nat \<Rightarrow> RendezvousError \<times> nat + unit) \<Rightarrow> StreamEnd \<Rightarrow> nat \<Rightarrow> RendezvousError + unit \<Rightarrow> bytes \<Rightarrow> bytes \<Rightarrow> bool" where
  "relay_end config wr fin k res begun rest \<longleftrightarrow>
     (begun \<noteq> [] \<longrightarrow> (\<exists>body e written more. wr k = Inl (e, written) \<and> res = Inl e \<and> begun = take written (wire_frame body)
         \<and> begun @ rest = wire_frame body @ more \<and> length body \<le> bc_max_frame_body config))
     \<and> (res = Inr () \<longrightarrow> begun = [] \<and> length rest < 4 \<and> fin = End_Eof)"

lemma relay_stop_cases:
  assumes "\<not> relays config wr k bs" and "relay_frames config wr fin k bs = (res, out)"
  defines "n \<equiv> unat (u32_from_be (take 4 bs))"
  obtains (ended) "length bs < 4" "res = header_end fin" "out = []"
    | (refused) e where "res = Inl e" "out = []"
    | (broken) e written where "wr k = Inl (e, written)" "res = Inl e" "out = take written (take 4 bs @ take n (drop 4 bs))"
        "4 \<le> length bs" "n \<le> bc_max_frame_body config" "n \<le> length (drop 4 bs)"
proof (cases "length bs < 4 \<or> bc_max_frame_body config < n \<or> length (drop 4 bs) < n")
  case True
  then show thesis
    using assms(2) ended refused unfolding relay_frames.simps [of config wr fin k bs]
    by (auto simp: Let_def n_def split: if_splits)
next
  case False
  then obtain e written where "wr k = Inl (e, written)"
    using assms(1) by (cases "wr k") (auto simp: relays_def n_def)
  with False show thesis
    using assms(2) broken unfolding relay_frames.simps [of config wr fin k bs]
    by (simp add: Let_def n_def)
qed

lemma relay_stop:
  assumes "\<not> relays config wr k bs" and "relay_frames config wr fin k bs = (res, out)"
  shows "\<exists>rest. bs = out @ rest \<and> relay_end config wr fin k res out rest"
  using assms
proof (cases rule: relay_stop_cases)
  case ended
  then show ?thesis by (auto simp: relay_end_def header_end_def split: StreamEnd.splits)
next
  case (refused e)
  then show ?thesis by (simp add: relay_end_def)
next
  case (broken e written)
  define n where "n = unat (u32_from_be (take 4 bs))"
  define body where "body = take n (drop 4 bs)"
  have frame: "take 4 bs @ body = wire_frame body"
    unfolding body_def n_def by (rule wire_frame_split) (use broken in simp_all)
  then have out: "out = take written (wire_frame body)"
    using broken(3) by (simp add: n_def body_def)
  let ?more = "drop n (drop 4 bs)" and ?rest = "drop written (wire_frame body) @ drop n (drop 4 bs)"
  have "take 4 bs @ body @ ?more = bs"
    unfolding body_def append_take_drop_id ..
  then have "bs = wire_frame body @ ?more"
    unfolding append.assoc [symmetric] frame by (rule sym)
  moreover have "out @ ?rest = wire_frame body @ ?more"
    unfolding out append.assoc [symmetric] append_take_drop_id ..
  moreover have "length body \<le> bc_max_frame_body config"
    using broken(5) by (simp add: body_def n_def)
  ultimately have "bs = out @ ?rest \<and> relay_end config wr fin k res out ?rest"
    unfolding relay_end_def using broken(1,2) out by force
  then show ?thesis ..
qed

lemma relay_turn:
  assumes "relays config wr k bs"
  defines "n \<equiv> unat (u32_from_be (take 4 bs))"
  shows "relay_frames config wr fin k bs =
    (let (res, out) = relay_frames config wr fin (Suc k) (drop n (drop 4 bs)) in
     (res, wire_frame (take n (drop 4 bs)) @ out))"
proof -
  have "take 4 bs @ take n (drop 4 bs) = wire_frame (take n (drop 4 bs))"
    unfolding n_def by (rule wire_frame_split) (use assms(1) in \<open>simp_all add: relays_def\<close>)
  then have "take 4 bs @ take n (drop 4 bs) @ out = wire_frame (take n (drop 4 bs)) @ out" for out
    by (metis append.assoc)
  then show ?thesis
    unfolding relay_frames.simps [of config wr fin k bs]
    using assms(1) by (auto simp: relays_def n_def Let_def simp del: drop_drop split: prod.splits)
qed

lemma relay_frames_facts:
  assumes "relay_frames config wr fin k bs = (res, out)"
  shows "\<exists>bodies begun rest. out = concat (map wire_frame bodies) @ begun \<and> bs = out @ rest
     \<and> (\<forall>body \<in> set bodies. length body \<le> bc_max_frame_body config)
     \<and> (\<forall>i < length bodies. wr (k + i) = Inr ()) \<and> relay_end config wr fin (k + length bodies) res begun rest"
  using assms
proof (induction "length bs" arbitrary: k bs res out rule: less_induct)
  case less
  show ?case
  proof (cases "relays config wr k bs")
    case False
    from relay_stop [OF this less.prems] show ?thesis
      by - (rule exI [of _ "[]"], rule exI [of _ out], simp)
  next
    case True
    define n where "n = unat (u32_from_be (take 4 bs))"
    define body where "body = take n (drop 4 bs)"
    obtain out' where rec: "relay_frames config wr fin (Suc k) (drop n (drop 4 bs)) = (res, out')"
      and out: "out = wire_frame body @ out'"
      using less.prems relay_turn [OF True, of fin] by (auto simp: n_def body_def split: prod.splits)
    have "length (drop n (drop 4 bs)) < length bs"
      using True by (auto simp: relays_def)
    from less.hyps [OF this rec] obtain bodies begun rest where ih: "out' = concat (map wire_frame bodies) @ begun"
      "drop n (drop 4 bs) = out' @ rest" "\<forall>body \<in> set bodies. length body \<le> bc_max_frame_body config"
      "\<forall>i < length bodies. wr (Suc k + i) = Inr ()" "relay_end config wr fin (Suc k + length bodies) res begun rest"
      by blast
    have "wire_frame body = take 4 bs @ body"
      unfolding body_def n_def by (rule wire_frame_split [symmetric]) (use True in \<open>simp_all add: relays_def\<close>)
    then have "bs = out @ rest"
      unfolding out body_def by (metis append.assoc append_take_drop_id ih(2))
    moreover have "length body \<le> bc_max_frame_body config"
      using True by (simp add: body_def n_def relays_def)
    moreover have "\<forall>i < length (body # bodies). wr (k + i) = Inr ()"
      using ih(4) True by (auto simp: relays_def less_Suc_eq_0_disj)
    ultimately show ?thesis
      using ih(1,3,5) out by (intro exI [of _ "body # bodies"] exI [of _ begun] exI [of _ rest]) simp
  qed
qed

lemma relay_frames_all:
  assumes "bc_max_frame_body config < 2 ^ 32" and "\<And>k. wr k = Inr ()" and "length tail < 4"
  shows "\<forall>body \<in> set bodies. length body \<le> bc_max_frame_body config \<Longrightarrow>
    relay_frames config wr fin k (concat (map wire_frame bodies) @ tail) = (header_end fin, concat (map wire_frame bodies))"
proof (induction bodies arbitrary: k)
  case Nil
  then show ?case
    using assms(3) by (subst relay_frames.simps) simp
next
  case (Cons body bodies)
  let ?rest = "concat (map wire_frame bodies) @ tail"
  let ?bs = "wire_frame body @ ?rest"
  have len: "unat (word_of_nat (length body) :: u32) = length body"
    using Cons.prems assms(1) by (intro unat_word_of_nat_small) simp
  then have head: "unat (u32_from_be (take 4 ?bs)) = length body" and body: "drop 4 ?bs = body @ ?rest"
    by (simp_all add: wire_frame_def)
  have "relays config wr k ?bs"
    unfolding relays_def head body using Cons.prems assms(2) by (simp add: wire_frame_def)
  from relay_turn [OF this] have "relay_frames config wr fin k ?bs =
      (let (res, out) = relay_frames config wr fin (Suc k) ?rest in (res, wire_frame body @ out))"
    unfolding head body by simp
  with Cons show ?case by simp
qed

section \<open>Control frames\<close>

lemma read_written:
  assumes "write_framed to_vec v = Inr bs" and "\<And>body. to_vec v = Some body \<Longrightarrow> from_slice body = Some v"
    and "DEFAULT_MAX_FRAME_BODY \<le> limit"
  shows "read_framed_with_limit from_slice limit (bs @ rest) = Inr (v, rest)"
proof -
  obtain body where body: "to_vec v = Some body" "length body \<le> DEFAULT_MAX_FRAME_BODY" "bs = wire_frame body"
    using assms(1) by (auto simp: write_framed_def wire_frame_def)
  have "unat (word_of_nat (length body) :: u32) = length body"
    using body(2) by (intro unat_word_of_nat_small) (simp add: DEFAULT_MAX_FRAME_BODY_def)
  then show ?thesis
    using body assms(2,3) by (simp add: read_framed_with_limit_def read_exact_def wire_frame_def del: bindR_Inr_iff)
qed

end
