(* ===== verification/Broker_Serve_Properties.thy ===== *)
theory Broker_Serve_Properties
  imports Broker_Rooms_Properties Broker_Serve_Inv
begin

text \<open>
  The properties of a connection's way through the broker: what it leaves behind, the relay, the
  control frames, the retry hints and the metrics.
\<close>

section \<open>Samples\<close>

definition sample_broker :: Broker where
  "sample_broker = \<lparr>br_state = registry_new, br_sources = tracker_new default_config, br_config = default_config\<rparr>"

lemma sample_broker_inv: "broker_inv default_config sample_broker [] [] []"
  by (rule broker_inv_new) (simp add: with_config_def default_config_valid sample_broker_def)

definition waiting_broker :: Broker where
  "waiting_broker = \<lparr>br_state = parked_registry, br_sources = sample_tracker, br_config = default_config\<rparr>"

definition waiting_held :: Held where
  "waiting_held = \<lparr>hd_source = Some sample_key, hd_slot = Some (room_a, 0)\<rparr>"

lemma waiting_broker_inv: "broker_inv default_config waiting_broker [sample_key] [(room_a, 0)] []"
proof -
  have "source_inv default_config (sample_tracker, [sample_key])"
    by (rule source_inv_reachable [OF sample_tracker_reachable]) (simp add: default_config_def)
  then show ?thesis
    using room_inv_reachable [OF parked_reachable default_config_valid]
    by (simp add: broker_inv_def waiting_broker_def)
qed

section \<open>Connections\<close>

text \<open>
  C26: from admission to reply, serving a connection keeps the invariants of sources and rooms,
  whatever the other tasks do while it waits for its join (as long as they keep the invariants
  themselves). When the call is finished (rejected at admission, timed out, malformed, refused by
  the room, handed back by a creator that left) the connection has given back everything: the
  guards alive are those of the others. While it is parked it holds its source and one slot, and a
  joiner handed over adds one match.
\<close>

theorem serve_from_keeps_accounts:
  assumes "config_validate config = Inr ()" and "broker_inv config b sources slots hist"
    and "\<And>pre b1. broker_inv config b1 (pre @ sources) slots hist
           \<Longrightarrow> broker_inv config (others b1) (pre @ sources') slots' hist'"
  shows "case serve_from source admitted_at others read now alive b of
      (Finished reply result, b') \<Rightarrow> broker_inv config b' sources' slots' hist'
    | (Waiting held w e, b') \<Rightarrow> broker_inv config b' (held_sources held sources') (held_slots held slots') hist'
    | (HandedOff held w, b') \<Rightarrow>
        \<exists>join guard. read = Read_Join join \<and> hd_slot held = Some guard
          \<and> broker_inv config b' (held_sources held sources') (guard # slots') ((snd guard, wt_join w, join) # hist')"
proof -
  have "served_inv config sources' slots' hist' read (serve_from source admitted_at others read now alive b)"
    by (rule served_inv_from [OF assms(1,2)]) (rule assms(3))
  then show ?thesis
    by (auto simp: served_inv_def held_slots_def split: prod.splits Served.splits JoinRead.splits option.splits)
qed

theorem serve_from_keeps_accounts_witness:
  "case serve_from sample_source 0 (\<lambda>b. b) Read_Timeout 5 True sample_broker of
      (Finished reply result, b') \<Rightarrow> broker_inv default_config b' [] [] []
    | _ \<Rightarrow> False"
proof -
  have "serve_from sample_source 0 (\<lambda>b. b) Read_Timeout 5 True sample_broker =
      reject_conn \<lparr>hd_source = Some sample_key, hd_slot = None\<rparr> (room_rejection default_config MalformedJoin None)
        (on_metrics (\<lambda>mx. mx\<lparr>mx_timeouts := mx_timeouts mx + 1\<rparr>) (sample_broker\<lparr>br_sources := sample_tracker\<rparr>))"
    by (simp add: serve_from_def serve_read_def sample_broker_def sample_admit)
  then show ?thesis
    using serve_from_keeps_accounts [OF default_config_valid sample_broker_inv, where others = "\<lambda>b. b"
        and sources' = "[]" and slots' = "[]" and hist' = "[]" and source = sample_source and admitted_at = 0
        and read = Read_Timeout and now = 5 and alive = True]
    by (simp add: reject_conn_def)
qed

text \<open>
  Whatever wakes a parked creator (a partner and the end of their relay, its sender dropped, a
  frame or failure on its own connection, the deadline), the call ends with the slots and sources of
  the creator and of its partner given back; and after a frame of its own or the deadline no room
  still lists the waiter.
\<close>

theorem wait_for_joiner_releases:
  assumes "config_validate config = Inr ()"
    and "broker_inv config b (event_sources event (held_sources held sources)) (event_slots event (held_slots held slots)) hist"
    and "wait_for_joiner held join w event now b = (res, replies, b')"
  shows "broker_inv config b' sources slots hist
    \<and> (\<forall>p. event = Deadline \<or> event = Probe p \<longrightarrow> waiter_gone (jn_room_id join) w (br_state b'))"
proof -
  have "room_inv (br_config b) (br_state b, event_slots event (held_slots held slots), hist)"
    using assms(2) by (simp add: broker_inv_def)
  from wait_waiter_gone [OF this, of event _ join w held now] broker_inv_wait [OF assms(1,2), of join w now]
  show ?thesis unfolding assms(3) by auto
qed

theorem wait_for_joiner_releases_witness:
  "broker_inv default_config (snd (snd (wait_for_joiner waiting_held (sample_creator room_a) 1 Deadline (from_secs 300) waiting_broker))) [] [] []"
proof -
  obtain res replies b' where run:
    "wait_for_joiner waiting_held (sample_creator room_a) 1 Deadline (from_secs 300) waiting_broker = (res, replies, b')"
    by (cases "wait_for_joiner waiting_held (sample_creator room_a) 1 Deadline (from_secs 300) waiting_broker")
  have "broker_inv default_config waiting_broker (event_sources Deadline (held_sources waiting_held []))
      (event_slots Deadline (held_slots waiting_held [])) []"
    using waiting_broker_inv
    by (simp add: event_sources_def event_slots_def held_sources_def held_slots_def waiting_held_def)
  from wait_for_joiner_releases [OF default_config_valid this run] show ?thesis
    unfolding run by simp
qed

section \<open>Relay and frames\<close>

lemma be_bytes_4:
  "be_bytes 4 v = [word_of_nat (v div 256 div 256 div 256 mod 256), word_of_nat (v div 256 div 256 mod 256),
     word_of_nat (v div 256 mod 256), word_of_nat (v mod 256)]"
proof -
  have four: "4 = Suc (Suc (Suc (Suc 0)))" by simp
  show ?thesis unfolding four be_bytes.simps by simp
qed

lemma sample_relay: "relay_frames default_config (\<lambda>_. Inr ()) End_Eof 0 [0, 0, 0, 1, 7, 9] = (Inr (), [0, 0, 0, 1, 7])"
proof -
  have "relay_frames default_config (\<lambda>_. Inr ()) End_Eof 0 (concat (map wire_frame [[7]]) @ [9])
      = (header_end End_Eof, concat (map wire_frame [[7]]))"
    by (rule relay_frames_all) (simp_all add: default_config_def)
  then show ?thesis
    by (simp add: wire_frame_def u32_to_be_def be_bytes_4 header_end_def)
qed

lemma sample_cut: "relay_frames default_config (\<lambda>k. if k = 0 then Inr () else Inl (RE_Timeout, 2)) End_Eof 0
    [0, 0, 0, 1, 7, 0, 0, 0, 1, 8] = (Inl RE_Timeout, [0, 0, 0, 1, 7, 0, 0])"
proof -
  have "unat (u32_from_be [0, 0, 0, 1]) = 1"
    using from_be_to_be(2) [of "1 :: u32"] by (simp add: u32_to_be_def be_bytes_4)
  then show ?thesis
    by (subst relay_frames.simps, subst relay_frames.simps) (simp add: default_config_def)
qed

text \<open>
  C27: the relay never alters what it forwards. What it writes is a prefix of what it read: whole
  length-prefixed frames with bodies of at most \<open>max_frame_body\<close> bytes, each written with success, and after
  them, only when the write of the next frame fails, a first part of that frame; the relay then ends with the
  error of the write. It reports success only when no write failed and the reader ended with fewer than four bytes unsent. A
  stream of frames within the limit, to a writer that accepts them, is relayed in full; up to three bytes
  after the last frame are dropped, and the end of the stream decides the result.
\<close>

theorem relay_frames_exact:
  assumes "config_validate config = Inr ()" and "relay_frames config wr fin k bs = (res, out)"
  shows "(\<exists>bodies begun rest. out = concat (map wire_frame bodies) @ begun \<and> bs = out @ rest
            \<and> (\<forall>body \<in> set bodies. length body \<le> bc_max_frame_body config)
            \<and> (\<forall>i < length bodies. wr (k + i) = Inr ())
            \<and> (begun \<noteq> [] \<longrightarrow> (\<exists>body e written more. wr (k + length bodies) = Inl (e, written) \<and> res = Inl e
                 \<and> begun = take written (wire_frame body) \<and> begun @ rest = wire_frame body @ more
                 \<and> length body \<le> bc_max_frame_body config))
            \<and> (res = Inr () \<longrightarrow> begun = [] \<and> length rest < 4 \<and> fin = End_Eof))
         \<and> (\<forall>bodies tail. bs = concat (map wire_frame bodies) @ tail \<longrightarrow> length tail < 4
              \<longrightarrow> (\<forall>body \<in> set bodies. length body \<le> bc_max_frame_body config) \<longrightarrow> (\<forall>k. wr k = Inr ())
              \<longrightarrow> res = header_end fin \<and> out = concat (map wire_frame bodies))"
proof -
  have max: "bc_max_frame_body config < 2 ^ 32"
    using assms(1) by (auto simp: config_validate_def)
  have "res = header_end fin \<and> out = concat (map wire_frame bodies)"
    if "bs = concat (map wire_frame bodies) @ tail" "length tail < 4"
      "\<forall>body \<in> set bodies. length body \<le> bc_max_frame_body config" "\<forall>k. wr k = Inr ()" for bodies tail
    using relay_frames_all [OF max _ that(2,3), of wr fin k] that(4) assms(2) unfolding that(1) by simp
  with relay_frames_facts [OF assms(2)] show ?thesis unfolding relay_end_def by blast
qed

text \<open>A frame in full and two bytes of the next one, whose write times out.\<close>

theorem relay_frames_exact_witness:
  "(\<exists>bodies. [0, 0, 0, 1, 7] = concat (map wire_frame bodies))
   \<and> (\<exists>bodies begun. [0, 0, 0, 1, 7, 0, 0] = concat (map wire_frame bodies) @ begun \<and> length bodies \<le> 1)"
proof
  show "\<exists>bodies. [0, 0, 0, 1, 7] = concat (map wire_frame bodies)"
    using relay_frames_exact [OF default_config_valid sample_relay, THEN conjunct1] by auto
  obtain bodies begun where "[0, 0, 0, 1, 7, 0, 0] = concat (map wire_frame bodies) @ begun"
    and written: "\<forall>i < length bodies. (if 0 + i = 0 then Inr () else Inl (RE_Timeout, 2 :: nat)) = Inr ()"
    using relay_frames_exact [OF default_config_valid sample_cut, THEN conjunct1] by blast
  moreover have "length bodies \<le> 1"
    using written [rule_format, of 1] by force
  ultimately show "\<exists>bodies begun. [0, 0, 0, 1, 7, 0, 0] = concat (map wire_frame bodies) @ begun \<and> length bodies \<le> 1"
    by blast
qed

text \<open>
  A control message written by \<open>write_framed\<close> is read back by a reader with at least the default
  limit, and the bytes after it are left in the stream: the broker can read one join and relay the
  rest. \<open>to_vec\<close> and \<open>from_slice\<close> are the JSON library, of which only the round trip is used.
\<close>

theorem framed_roundtrip:
  assumes "write_framed to_vec v = Inr bs" and "\<forall>v body. to_vec v = Some body \<longrightarrow> from_slice body = Some v"
    and "DEFAULT_MAX_FRAME_BODY \<le> limit"
  shows "read_framed_with_limit from_slice limit (bs @ rest) = Inr (v, rest)
         \<and> read_framed from_slice (bs @ rest) = Inr (v, rest)
         \<and> length bs \<le> 4 + DEFAULT_MAX_FRAME_BODY"
proof -
  have "length bs \<le> 4 + DEFAULT_MAX_FRAME_BODY"
    using assms(1) by (auto simp: write_framed_def)
  moreover have "read_framed_with_limit from_slice l (bs @ rest) = Inr (v, rest)" if "DEFAULT_MAX_FRAME_BODY \<le> l" for l
    using assms(2) that by (intro read_written [OF assms(1)]) auto
  ultimately show ?thesis
    using assms(3) by (simp add: read_framed_def)
qed

theorem framed_roundtrip_witness:
  "read_framed_with_limit (\<lambda>bs. Some bs) 70000 ([0, 0, 0, 2, 5, 6] @ [8]) = Inr ([5, 6], [8])"
proof -
  have "write_framed (\<lambda>v. Some v) [5, 6] = Inr [0, 0, 0, 2, 5, 6]"
    by (simp add: write_framed_def DEFAULT_MAX_FRAME_BODY_def u32_to_be_def be_bytes_4)
  from framed_roundtrip [OF this, of "\<lambda>bs. Some bs" 70000 "[8]"] show ?thesis
    by (simp add: DEFAULT_MAX_FRAME_BODY_def)
qed

section \<open>Metrics\<close>

lemma source_guards_endpoint:
  "source_reachable config s \<Longrightarrow> list_all is_endpoint_key (snd s)"
proof (induction rule: source_reachable.induct)
  case start
  show ?case by simp
next
  case (step s s')
  from step.hyps(2) step.IH show ?case
  proof cases
    case (admitted t source now key t' guards)
    have "is_endpoint_key key"
      using admitted(3) by (auto simp: admit_def Let_def is_endpoint_key_def split: prod.splits sum.splits if_splits)
    with step.IH show ?thesis by (simp add: admitted)
  next
    case (dropped key guards t)
    with step.IH show ?thesis
      using set_remove1_subset [of key guards] by (auto simp: list_all_iff)
  qed simp_all
qed

lemma sum_list_distinct_keys:
  assumes "distinct (map fst al)"
  shows "sum_list (map (\<lambda>(k, v). f k) al) = sum f (set (map fst al))"
  using assms by (induction al) auto

lemma sum_active:
  assumes "source_reachable config (t, guards)" and "config_validate config = Inr ()"
  shows "sum_list (map (\<lambda>(_, s). ss_active_connections s) (filter (\<lambda>(key, _). is_endpoint_key key) (tr_entries t)))
    = length guards"
proof -
  let ?entries = "filter (\<lambda>(key, _). is_endpoint_key key) (tr_entries t)"
  have dist: "distinct (map fst (tr_entries t))" and count: "\<And>key. active_of t key = count_list guards key"
    using source_inv_reachable [OF assms(1)] room_limits(3) [OF assms(2)] by (auto simp: source_inv_def tracker_ok_def)
  have keys: "set guards \<subseteq> set (map fst ?entries)"
  proof
    fix key assume key: "key \<in> set guards"
    then have "active_of t key \<noteq> 0"
      by (simp add: count count_list_0_iff)
    then obtain s where "map_of (tr_entries t) key = Some s"
      by (auto simp: active_of_def split: option.splits)
    moreover have "is_endpoint_key key"
      using source_guards_endpoint [OF assms(1)] key by (simp add: list_all_iff)
    ultimately show "key \<in> set (map fst ?entries)"
      by (force dest: map_of_SomeD)
  qed
  have "sum_list (map (\<lambda>(_, s). ss_active_connections s) ?entries)
      = sum_list (map (\<lambda>(key, s). count_list guards key) ?entries)"
  proof (intro arg_cong [where f = sum_list] map_cong refl)
    fix x assume "x \<in> set ?entries"
    then have "map_of (tr_entries t) (fst x) = Some (snd x)"
      using dist by (auto simp: map_of_eq_Some_iff)
    then show "(case x of (_, s) \<Rightarrow> ss_active_connections s) = (case x of (key, s) \<Rightarrow> count_list guards key)"
      using count [of "fst x"] by (auto simp: active_of_def split: prod.splits)
  qed
  also have "\<dots> = length guards"
    unfolding sum_list_distinct_keys [OF distinct_filter_keys [OF dist]] by (rule sum_count_set [OF keys]) simp
  finally show ?thesis .
qed

lemma waiting_le_live:
  "\<forall>(rid, r) \<in> set rooms. rm_waiter r \<noteq> None \<longrightarrow> rm_status r = Live
   \<Longrightarrow> waiting_creators rooms \<le> length (filter (\<lambda>room. rm_status room = Live) (map snd rooms))"
  by (induction rooms) (auto simp: waiting_creators_def)

text \<open>
  The metrics snapshot is honest: the number of active connections it reports is the number of
  admitted connections not yet dropped, and it reports at most \<open>max_room_states\<close> active rooms and at
  most as many waiting creators as active rooms.
\<close>

theorem snapshot_counts:
  assumes "source_reachable config (br_sources b, sources)" and "room_reachable config (br_state b, slots, hist)"
    and "config_validate config = Inr ()" and "br_config b = config"
  shows "let snapshot = fst (metrics_snapshot now b) in
      sn_active_connections snapshot = length sources
    \<and> sn_active_rooms snapshot \<le> bc_max_room_states config
    \<and> sn_waiting_creators snapshot \<le> sn_active_rooms snapshot"
proof -
  let ?reg = "sweep_rooms config now (br_state b)"
  have inv: "room_inv config (?reg, slots, hist)"
    by (rule room_inv_sweep [OF room_inv_reachable [OF assms(2,3)]])
  have "rm_waiter r \<noteq> None \<longrightarrow> rm_status r = Live" if "(rid, r) \<in> set (rg_rooms ?reg)" for rid r
  proof -
    have "map_of (rg_rooms ?reg) rid = Some r"
      using inv that by (simp add: room_inv_def map_of_eq_Some_iff)
    from room_inv_room(1) [OF inv this] show ?thesis by (auto simp: room_ok_def)
  qed
  then have "waiting_creators (rg_rooms ?reg) \<le> length (filter (\<lambda>room. rm_status room = Live) (map snd (rg_rooms ?reg)))"
    by (intro waiting_le_live) auto
  moreover have "length (filter (\<lambda>room. rm_status room = Live) (map snd (rg_rooms ?reg))) \<le> bc_max_room_states config"
  proof (rule order_trans [OF length_filter_le])
    show "length (map snd (rg_rooms ?reg)) \<le> bc_max_room_states config"
      using inv by (simp add: room_inv_def)
  qed
  ultimately show ?thesis
    using sum_active [OF assms(1,3)] by (simp add: metrics_snapshot_def Let_def assms(4))
qed

theorem snapshot_counts_witness:
  "sn_active_connections (fst (metrics_snapshot 0 waiting_broker)) = 1"
  using snapshot_counts [of default_config waiting_broker "[sample_key]" "[(room_a, 0)]" "[]" 0]
    sample_tracker_reachable parked_reachable default_config_valid
  by (simp add: waiting_broker_def Let_def)

end
