(* ===== verification/Transfer_Events.thy ===== *)
theory Transfer_Events
  imports Prelude
begin

text \<open>
  \<open>crates/envoix-transfer/src/lib.rs\<close>: the cancellation token and the stage timeline of a
  transfer. Both are shared between threads; their step relations interleave the atomic actions
  (one load, swap or lock region each).
\<close>

unbundle bit_operations_syntax

section \<open>Cancellation\<close>

text \<open>
  \<open>tokio::sync::Notify\<close> is the parameters \<open>notified\<close> (a new future, by number, and the state after),
  \<open>notify_waiters\<close> and \<open>ready\<close> (the future would complete when polled). \<open>notify_spec\<close> is its
  documented behaviour: a new future is not ready and leaves the others alone, and
  \<open>notify_waiters\<close> stores no permit, so what is created later is not ready either.
\<close>

definition notify_spec :: "('n \<Rightarrow> nat \<times> 'n) \<Rightarrow> ('n \<Rightarrow> 'n) \<Rightarrow> ('n \<Rightarrow> nat \<Rightarrow> bool) \<Rightarrow> bool" where
  "notify_spec notified notify_waiters ready \<longleftrightarrow>
     (\<forall>n k n'. notified n = (k, n') \<longrightarrow> \<not> ready n' k \<and> (\<forall>j. ready n' j = ready n j))"

record 'n CancelInner =
  ci_cancelled :: bool
  ci_paused :: bool
  ci_notify :: 'n

definition token_new :: "'n \<Rightarrow> 'n CancelInner" where
  "token_new n = \<lparr>ci_cancelled = False, ci_paused = False, ci_notify = n\<rparr>"

text \<open>\<open>cancel\<close>: the swap, and the notification by the caller whose swap saw \<open>false\<close>.\<close>

definition cancel_swap :: "'n CancelInner \<Rightarrow> bool \<times> 'n CancelInner" where
  "cancel_swap t = (\<not> ci_cancelled t, t\<lparr>ci_cancelled := True\<rparr>)"

definition cancel_notify :: "('n \<Rightarrow> 'n) \<Rightarrow> 'n CancelInner \<Rightarrow> 'n CancelInner" where
  "cancel_notify notify_waiters t = t\<lparr>ci_notify := notify_waiters (ci_notify t)\<rparr>"

definition pause_store :: "'n CancelInner \<Rightarrow> 'n CancelInner" where
  "pause_store t = t\<lparr>ci_paused := True\<rparr>"

definition is_cancelled :: "'n CancelInner \<Rightarrow> bool" where
  "is_cancelled t = ci_cancelled t"

definition is_pause :: "'n CancelInner \<Rightarrow> bool" where
  "is_pause t = ci_paused t"

text \<open>A call of \<open>cancelled\<close>: before its check, after it, awaiting a future, returned.\<close>

datatype CancelWait = Wait_Start | Wait_Checked | Wait_Notified nat | Wait_Returned

definition cancelled_check :: "'n CancelInner \<Rightarrow> CancelWait" where
  "cancelled_check t = (if is_cancelled t then Wait_Returned else Wait_Checked)"

definition cancelled_register :: "('n \<Rightarrow> nat \<times> 'n) \<Rightarrow> 'n CancelInner \<Rightarrow> CancelWait \<times> 'n CancelInner" where
  "cancelled_register notified t =
     (let (k, n) = notified (ci_notify t) in (Wait_Notified k, t\<lparr>ci_notify := n\<rparr>))"

text \<open>The token, the cancelling calls between swap and notification, the waiting calls.\<close>

type_synonym 'n cancel_system = "'n CancelInner \<times> nat \<times> CancelWait list"

inductive cancel_step ::
  "('n \<Rightarrow> nat \<times> 'n) \<Rightarrow> ('n \<Rightarrow> 'n) \<Rightarrow> ('n \<Rightarrow> nat \<Rightarrow> bool) \<Rightarrow> 'n cancel_system \<Rightarrow> 'n cancel_system \<Rightarrow> bool"
  for notified notify_waiters ready where
  swaps: "cancel_swap t = (first, t')
    \<Longrightarrow> cancel_step notified notify_waiters ready (t, c, ws) (t', if first then Suc c else c, ws)"
| notifies: "cancel_step notified notify_waiters ready (t, Suc c, ws) (cancel_notify notify_waiters t, c, ws)"
| pauses: "cancel_step notified notify_waiters ready (t, c, ws) (pause_store t, c, ws)"
| calls: "cancel_step notified notify_waiters ready (t, c, ws) (t, c, ws @ [Wait_Start])"
| checks: "i < length ws \<Longrightarrow> ws ! i = Wait_Start
    \<Longrightarrow> cancel_step notified notify_waiters ready (t, c, ws) (t, c, ws[i := cancelled_check t])"
| registers: "i < length ws \<Longrightarrow> ws ! i = Wait_Checked \<Longrightarrow> cancelled_register notified t = (w, t')
    \<Longrightarrow> cancel_step notified notify_waiters ready (t, c, ws) (t', c, ws[i := w])"
| wakes: "i < length ws \<Longrightarrow> ws ! i = Wait_Notified k \<Longrightarrow> ready (ci_notify t) k
    \<Longrightarrow> cancel_step notified notify_waiters ready (t, c, ws) (t, c, ws[i := Wait_Returned])"

section \<open>Stages\<close>

datatype TransferStage =
    SessionStarted | ConnectionReady | AuthenticationStarted | AuthenticationComplete | ManifestOffer
  | ManifestAccepted | FirstPayload | PayloadComplete | DeliveryComplete | Canceled | Failed

definition stage_order :: "TransferStage \<Rightarrow> nat" where
  "stage_order s =
     (case s of SessionStarted \<Rightarrow> 0 | ConnectionReady \<Rightarrow> 1 | AuthenticationStarted \<Rightarrow> 2
      | AuthenticationComplete \<Rightarrow> 3 | ManifestOffer \<Rightarrow> 4 | ManifestAccepted \<Rightarrow> 5 | FirstPayload \<Rightarrow> 6
      | PayloadComplete \<Rightarrow> 7 | DeliveryComplete \<Rightarrow> 8 | Canceled \<Rightarrow> 9 | Failed \<Rightarrow> 9)"

definition stage_bit :: "TransferStage \<Rightarrow> u16" where
  "stage_bit s = push_bit (stage_order s) 1"

definition stage_is_terminal :: "TransferStage \<Rightarrow> bool" where
  "stage_is_terminal s = (case s of DeliveryComplete \<Rightarrow> True | Canceled \<Rightarrow> True | Failed \<Rightarrow> True | _ \<Rightarrow> False)"

datatype TransferDirection = Send | Receive

record TransferStageTimelineState =
  tl_transfer_id :: "str option"
  tl_seen :: u16
  tl_last_order :: "nat option"
  tl_last_elapsed_us :: u64
  tl_terminal :: bool

definition timeline_state :: "str option \<Rightarrow> TransferStageTimelineState" where
  "timeline_state transfer_id =
     \<lparr>tl_transfer_id = transfer_id, tl_seen = 0, tl_last_order = None, tl_last_elapsed_us = 0, tl_terminal = False\<rparr>"

text \<open>The event \<open>StageTiming\<close> of \<open>TransferEvent\<close>.\<close>

record StageTiming =
  st_transfer_id :: "str option"
  st_direction :: TransferDirection
  st_attempt_id :: u64
  st_stage :: TransferStage
  st_elapsed_us :: u64
  st_delta_us :: u64

definition timeline_bind :: "str \<Rightarrow> TransferStageTimelineState \<Rightarrow> TransferStageTimelineState" where
  "timeline_bind transfer_id t =
     (if tl_transfer_id t = None then t\<lparr>tl_transfer_id := Some transfer_id\<rparr> else t)"

definition record_at ::
  "TransferDirection \<Rightarrow> u64 \<Rightarrow> TransferStage \<Rightarrow> u64 \<Rightarrow> TransferStageTimelineState
     \<Rightarrow> StageTiming option \<times> TransferStageTimelineState" where
  "record_at direction attempt_id stage elapsed_us t =
     (let order = stage_order stage in
      if tl_terminal t \<or> tl_seen t AND stage_bit stage \<noteq> 0
         \<or> (case tl_last_order t of None \<Rightarrow> False | Some k \<Rightarrow> order < k)
      then (None, t)
      else let elapsed = max elapsed_us (tl_last_elapsed_us t); delta = elapsed - tl_last_elapsed_us t in
        (Some \<lparr>st_transfer_id = tl_transfer_id t, st_direction = direction, st_attempt_id = attempt_id,
               st_stage = stage, st_elapsed_us = elapsed, st_delta_us = delta\<rparr>,
         t\<lparr>tl_seen := tl_seen t OR stage_bit stage, tl_last_order := Some order,
           tl_last_elapsed_us := elapsed, tl_terminal := stage_is_terminal stage\<rparr>))"

section \<open>Dispatch\<close>

record TransferStageTimelineInner =
  ti_state :: TransferStageTimelineState
  ti_pending_events :: "StageTiming list"
  ti_dispatching :: bool

definition timeline_new :: "str option \<Rightarrow> TransferStageTimelineInner" where
  "timeline_new transfer_id =
     \<lparr>ti_state = timeline_state transfer_id, ti_pending_events = [], ti_dispatching = False\<rparr>"

text \<open>The first lock region of \<open>record\<close>: the event, if any, is queued; the caller learns whether to dispatch.\<close>

definition timeline_record ::
  "TransferDirection \<Rightarrow> u64 \<Rightarrow> TransferStage \<Rightarrow> u64 \<Rightarrow> TransferStageTimelineInner
     \<Rightarrow> StageTiming option \<times> bool \<times> TransferStageTimelineInner" where
  "timeline_record direction attempt_id stage elapsed_us inner =
     (case record_at direction attempt_id stage elapsed_us (ti_state inner) of
        (None, state) \<Rightarrow> (None, False, inner\<lparr>ti_state := state\<rparr>)
      | (Some event, state) \<Rightarrow>
          (Some event, \<not> ti_dispatching inner,
           inner\<lparr>ti_state := state, ti_pending_events := ti_pending_events inner @ [event],
                 ti_dispatching := True\<rparr>))"

text \<open>The lock region of the dispatch loop: the next event, or the end of the loop.\<close>

definition timeline_pop :: "TransferStageTimelineInner \<Rightarrow> StageTiming option \<times> TransferStageTimelineInner" where
  "timeline_pop inner =
     (case ti_pending_events inner of
        event # rest \<Rightarrow> (Some event, inner\<lparr>ti_pending_events := rest\<rparr>)
      | [] \<Rightarrow> (None, inner\<lparr>ti_dispatching := False\<rparr>))"

text \<open>
  A thread in the dispatch loop is about to pop (\<open>None\<close>) or to hand an event to the sink. The state
  keeps the events recorded so far and those the sink has received.
\<close>

type_synonym timeline_system =
  "TransferStageTimelineInner \<times> StageTiming option list \<times> StageTiming list \<times> StageTiming list"

inductive timeline_step ::
  "TransferDirection \<Rightarrow> u64 \<Rightarrow> timeline_system \<Rightarrow> timeline_system \<Rightarrow> bool" for direction attempt_id where
  binds: "timeline_step direction attempt_id (inner, ths, recorded, sent)
    (inner\<lparr>ti_state := timeline_bind transfer_id (ti_state inner)\<rparr>, ths, recorded, sent)"
| ignores: "timeline_record direction attempt_id stage elapsed_us inner = (None, d, inner')
    \<Longrightarrow> timeline_step direction attempt_id (inner, ths, recorded, sent) (inner', ths, recorded, sent)"
| queues: "timeline_record direction attempt_id stage elapsed_us inner = (Some event, d, inner')
    \<Longrightarrow> timeline_step direction attempt_id (inner, ths, recorded, sent)
          (inner', if d then ths @ [None] else ths, recorded @ [event], sent)"
| pops: "i < length ths \<Longrightarrow> ths ! i = None \<Longrightarrow> timeline_pop inner = (Some event, inner')
    \<Longrightarrow> timeline_step direction attempt_id (inner, ths, recorded, sent) (inner', ths[i := Some event], recorded, sent)"
| stops: "i < length ths \<Longrightarrow> ths ! i = None \<Longrightarrow> timeline_pop inner = (None, inner')
    \<Longrightarrow> timeline_step direction attempt_id (inner, ths, recorded, sent)
          (inner', take i ths @ drop (Suc i) ths, recorded, sent)"
| sends: "i < length ths \<Longrightarrow> ths ! i = Some event
    \<Longrightarrow> timeline_step direction attempt_id (inner, ths, recorded, sent) (inner, ths[i := None], recorded, sent @ [event])"

inductive timeline_reachable ::
  "TransferDirection \<Rightarrow> u64 \<Rightarrow> timeline_system \<Rightarrow> bool" for direction attempt_id where
  start: "timeline_reachable direction attempt_id (timeline_new transfer_id, [], [], [])"
| step: "timeline_reachable direction attempt_id s \<Longrightarrow> timeline_step direction attempt_id s s'
    \<Longrightarrow> timeline_reachable direction attempt_id s'"

section \<open>The timeline is ordered\<close>

lemma bit_stage_bit: "bit (stage_bit s) k \<longleftrightarrow> k = stage_order s"
proof -
  have "stage_order s < 16" by (cases s) (simp_all add: stage_order_def)
  then show ?thesis by (auto simp: stage_bit_def bit_simps)
qed

lemma stage_bit_seen: "(seen :: u16) AND stage_bit s \<noteq> 0 \<longleftrightarrow> bit seen (stage_order s)"
proof
  assume "bit seen (stage_order s)"
  then have "bit (seen AND stage_bit s) (stage_order s)" by (simp add: bit_and_iff bit_stage_bit)
  then show "seen AND stage_bit s \<noteq> 0" by (metis bit_0_eq bot_apply bot_bool_def)
next
  assume "seen AND stage_bit s \<noteq> 0"
  then obtain k where "bit (seen AND stage_bit s) k" by (auto simp: bit_eq_iff)
  then show "bit seen (stage_order s)" by (auto simp: bit_and_iff bit_stage_bit)
qed

text \<open>
  A sequence of events that continues a timeline at a given order and time: stages in strictly
  increasing order, times that never go back, deltas between neighbours, nothing after a terminal
  stage.
\<close>

fun timings_from :: "nat option \<Rightarrow> u64 \<Rightarrow> StageTiming list \<Rightarrow> bool" where
  "timings_from k0 prev [] = True"
| "timings_from k0 prev (e # es) =
     ((case k0 of None \<Rightarrow> True | Some k \<Rightarrow> k < stage_order (st_stage e))
      \<and> prev \<le> st_elapsed_us e \<and> st_delta_us e = st_elapsed_us e - prev
      \<and> (es \<noteq> [] \<longrightarrow> \<not> stage_is_terminal (st_stage e))
      \<and> timings_from (Some (stage_order (st_stage e))) (st_elapsed_us e) es)"

definition end_order :: "nat option \<Rightarrow> StageTiming list \<Rightarrow> nat option" where
  "end_order k es = (if es = [] then k else Some (stage_order (st_stage (last es))))"

definition end_elapsed :: "u64 \<Rightarrow> StageTiming list \<Rightarrow> u64" where
  "end_elapsed prev es = (if es = [] then prev else st_elapsed_us (last es))"

lemma timings_from_snoc:
  "timings_from k prev (es @ [e]) \<longleftrightarrow> timings_from k prev es
     \<and> (es \<noteq> [] \<longrightarrow> \<not> stage_is_terminal (st_stage (last es)))
     \<and> timings_from (end_order k es) (end_elapsed prev es) [e]"
  by (induction es arbitrary: k prev) (auto simp: end_order_def end_elapsed_def)

lemma timings_from_prefix: "timings_from k prev (es @ fs) \<Longrightarrow> timings_from k prev es"
  by (induction es arbitrary: k prev) auto

definition timeline_ok :: "TransferStageTimelineState \<Rightarrow> StageTiming list \<Rightarrow> bool" where
  "timeline_ok t recorded \<longleftrightarrow>
     timings_from None 0 recorded \<and> tl_last_order t = end_order None recorded
     \<and> tl_last_elapsed_us t = end_elapsed 0 recorded
     \<and> tl_terminal t = (recorded \<noteq> [] \<and> stage_is_terminal (st_stage (last recorded)))
     \<and> (\<forall>k. tl_last_order t = Some k \<longrightarrow> bit (tl_seen t) k)"

lemma timeline_ok_record:
  assumes "timeline_ok t recorded" and "record_at direction attempt_id stage elapsed_us t = (res, t')"
  shows "timeline_ok t' (recorded @ (case res of None \<Rightarrow> [] | Some e \<Rightarrow> [e]))"
proof (cases res)
  case None
  with assms show ?thesis
    by (auto simp: record_at_def Let_def split: if_splits)
next
  case (Some e)
  from assms(2) Some have guard: "\<not> tl_terminal t" "\<not> bit (tl_seen t) (stage_order stage)"
      "\<And>k. tl_last_order t = Some k \<Longrightarrow> k \<le> stage_order stage"
    and e: "st_stage e = stage" "st_elapsed_us e = max elapsed_us (tl_last_elapsed_us t)"
      "st_delta_us e = st_elapsed_us e - tl_last_elapsed_us t"
    and t': "tl_last_order t' = Some (stage_order stage)" "tl_last_elapsed_us t' = st_elapsed_us e"
      "tl_terminal t' = stage_is_terminal stage" "tl_seen t' = tl_seen t OR stage_bit stage"
    by (auto simp: record_at_def Let_def stage_bit_seen split: if_splits option.splits)
  have "k < stage_order stage" if "tl_last_order t = Some k" for k
    using guard(2) guard(3) [OF that] assms(1) that by (cases "k = stage_order stage") (auto simp: timeline_ok_def)
  then have "timings_from (end_order None recorded) (end_elapsed 0 recorded) [e]"
    using assms(1) e by (auto simp: timeline_ok_def split: option.splits)
  then show ?thesis
    using assms(1) guard(1) t' e(1)
    by (auto simp: Some timeline_ok_def timings_from_snoc end_order_def end_elapsed_def bit_or_iff bit_stage_bit)
qed

lemma timeline_ok_bind: "timeline_ok (timeline_bind x t) recorded = timeline_ok t recorded"
  by (simp add: timeline_ok_def timeline_bind_def)

text \<open>One thread at most dispatches; what was recorded is what the sink has, then what it holds, then the queue.\<close>

definition timeline_inv :: "timeline_system \<Rightarrow> bool" where
  "timeline_inv = (\<lambda>(inner, ths, recorded, sent).
     timeline_ok (ti_state inner) recorded
     \<and> (if ti_dispatching inner then \<exists>h. ths = [h] \<and> recorded = sent @ (case h of None \<Rightarrow> [] | Some e \<Rightarrow> [e]) @ ti_pending_events inner
        else ths = [] \<and> recorded = sent \<and> ti_pending_events inner = []))"

lemma timeline_inv_step:
  assumes "timeline_step direction attempt_id s s'" and "timeline_inv s"
  shows "timeline_inv s'"
  using assms(1)
proof cases
  case (binds inner ths recorded sent transfer_id)
  with assms(2) show ?thesis by (simp add: timeline_inv_def timeline_ok_bind)
next
  case (ignores stage elapsed_us inner d inner' ths recorded sent)
  then have "inner' = inner"
    by (auto simp: timeline_record_def record_at_def Let_def split: if_splits prod.splits option.splits)
  with ignores assms(2) show ?thesis by simp
next
  case (queues stage elapsed_us inner event d inner' ths recorded sent)
  then obtain t' where "record_at direction attempt_id stage elapsed_us (ti_state inner) = (Some event, t')"
    and d: "d = (\<not> ti_dispatching inner)"
    and inner': "inner' = inner\<lparr>ti_state := t', ti_pending_events := ti_pending_events inner @ [event], ti_dispatching := True\<rparr>"
    by (auto simp: timeline_record_def split: prod.splits option.splits)
  from timeline_ok_record [OF _ this(1), of recorded] assms(2) show ?thesis
    by (auto simp: timeline_inv_def queues d inner' split: if_splits)
next
  case (pops i ths inner event inner' recorded sent)
  with assms(2) show ?thesis
    by (auto simp: timeline_inv_def timeline_pop_def split: list.splits if_splits)
next
  case (stops i ths inner inner' recorded sent)
  with assms(2) show ?thesis
    by (auto simp: timeline_inv_def timeline_pop_def split: list.splits if_splits)
next
  case (sends i ths event inner recorded sent)
  with assms(2) show ?thesis
    by (auto simp: timeline_inv_def split: if_splits)
qed

lemma timeline_inv_reachable: "timeline_reachable direction attempt_id s \<Longrightarrow> timeline_inv s"
proof (induction rule: timeline_reachable.induct)
  case (start transfer_id)
  show ?case
    by (simp add: timeline_inv_def timeline_new_def timeline_state_def timeline_ok_def end_order_def end_elapsed_def)
next
  case (step s s')
  then show ?case using timeline_inv_step by blast
qed

text \<open>
  Whatever the interleaving of the threads that record stages, the sink receives the events in
  the order in which they were recorded, through at most one dispatching thread, and has them all
  as soon as no thread dispatches. The events of an attempt name stages in strictly increasing
  order, their times never go back, each delta is the time since the event before, and nothing
  follows a completed, canceled or failed stage.
\<close>

theorem stage_timeline_ordered:
  assumes "timeline_reachable direction attempt_id (inner, ths, recorded, sent)"
  shows "timings_from None 0 recorded \<and> timings_from None 0 sent \<and> (\<exists>rest. recorded = sent @ rest)
         \<and> length ths \<le> 1 \<and> (ths = [] \<longrightarrow> sent = recorded)"
proof -
  have inv: "timeline_inv (inner, ths, recorded, sent)"
    by (rule timeline_inv_reachable [OF assms])
  then obtain rest where "recorded = sent @ rest" "length ths \<le> 1" "ths = [] \<longrightarrow> sent = recorded"
    by (fastforce simp: timeline_inv_def split: if_splits)
  moreover have "timings_from None 0 recorded"
    using inv by (simp add: timeline_inv_def timeline_ok_def)
  ultimately show ?thesis
    using timings_from_prefix by blast
qed

definition sample_timing :: StageTiming where
  "sample_timing = \<lparr>st_transfer_id = None, st_direction = Send, st_attempt_id = 7, st_stage = SessionStarted,
     st_elapsed_us = 10, st_delta_us = 10\<rparr>"

lemma sample_timeline: "\<exists>inner. timeline_reachable Send 7 (inner, [None], [sample_timing], [])"
proof -
  have "\<exists>inner'. timeline_record Send 7 SessionStarted 10 (timeline_new None) = (Some sample_timing, True, inner')"
    by (simp add: timeline_record_def timeline_new_def timeline_state_def record_at_def sample_timing_def)
  then obtain inner' where "timeline_record Send 7 SessionStarted 10 (timeline_new None) = (Some sample_timing, True, inner')"
    by blast
  from timeline_reachable.step [OF timeline_reachable.start timeline_step.queues [OF this]] show ?thesis by auto
qed

theorem stage_timeline_ordered_witness: "timings_from None 0 [sample_timing]"
proof -
  obtain inner where "timeline_reachable Send 7 (inner, [None], [sample_timing], [])"
    using sample_timeline by blast
  from stage_timeline_ordered [OF this] show ?thesis by blast
qed

section \<open>A wakeup can be lost\<close>

text \<open>A waiting call that registered after the notification: the token is cancelled, nobody is left to notify.\<close>

definition wait_stuck :: "('n \<Rightarrow> nat \<Rightarrow> bool) \<Rightarrow> 'n cancel_system \<Rightarrow> bool" where
  "wait_stuck ready = (\<lambda>(t, c, ws). ci_cancelled t \<and> c = 0 \<and> ws \<noteq> []
     \<and> (\<exists>k. ws ! 0 = Wait_Notified k \<and> \<not> ready (ci_notify t) k))"

lemma wait_stuck_step:
  assumes "cancel_step notified notify_waiters ready s s'" and "wait_stuck ready s"
    and "notify_spec notified notify_waiters ready"
  shows "wait_stuck ready s'"
  using assms(1)
proof cases
  case (registers i ws t w t' c)
  obtain k n where "notified (ci_notify t) = (k, n)" by (cases "notified (ci_notify t)")
  with registers assms(2,3) show ?thesis
    by (auto simp: wait_stuck_def cancelled_register_def notify_spec_def nth_list_update)
next
  case (wakes i ws k t c)
  then have "i \<noteq> 0"
    using assms(2) by (cases "i = 0") (auto simp: wait_stuck_def)
  with wakes assms(2) show ?thesis
    by (auto simp: wait_stuck_def nth_list_update)
qed (use assms(2) in \<open>auto simp: wait_stuck_def cancel_swap_def cancel_notify_def pause_store_def nth_append nth_list_update\<close>)

lemma wait_stuck_forever:
  assumes "(cancel_step notified notify_waiters ready)\<^sup>*\<^sup>* s s'" and "wait_stuck ready s"
    and "notify_spec notified notify_waiters ready"
  shows "wait_stuck ready s'"
  using assms(1,2) by (induction rule: rtranclp_induct) (auto intro: wait_stuck_step assms(3))

text \<open>
  C39: \<open>TransferCancelToken::cancelled\<close> can miss a cancellation. When \<open>cancel\<close> runs between the check of
  the flag and the creation of the future, the token is cancelled, every \<open>cancel\<close> call has
  returned, and the waiting call never returns: whatever happens later, further \<open>cancel\<close> and
  \<open>pause\<close> calls included, it still awaits a future that nobody will wake.
\<close>

theorem cancel_wakeup_lost:
  assumes "notify_spec notified notify_waiters ready"
  shows "\<exists>t ws. (cancel_step notified notify_waiters ready)\<^sup>*\<^sup>* (token_new n, 0, []) (t, 0, ws) \<and> is_cancelled t
     \<and> (\<forall>t' c' ws'. (cancel_step notified notify_waiters ready)\<^sup>*\<^sup>* (t, 0, ws) (t', c', ws')
          \<longrightarrow> ws' \<noteq> [] \<and> ws' ! 0 \<noteq> Wait_Returned)"
proof -
  let ?step = "cancel_step notified notify_waiters ready"
  let ?t0 = "token_new n"
  define t1 where "t1 = ?t0\<lparr>ci_cancelled := True\<rparr>"
  define t2 where "t2 = cancel_notify notify_waiters t1"
  obtain k m where km: "notified (ci_notify t2) = (k, m)" by (cases "notified (ci_notify t2)")
  define t3 where "t3 = t2\<lparr>ci_notify := m\<rparr>"
  have "?step (?t0, 0, []) (?t0, 0, [Wait_Start])"
    using cancel_step.calls [where ws = "[]"] by simp
  moreover have "?step (?t0, 0, [Wait_Start]) (?t0, 0, [Wait_Checked])"
    using cancel_step.checks [where i = 0 and ws = "[Wait_Start]" and t = ?t0]
    by (simp add: cancelled_check_def is_cancelled_def token_new_def)
  moreover have "?step (?t0, 0, [Wait_Checked]) (t1, 1, [Wait_Checked])"
    using cancel_step.swaps [where t = ?t0 and first = True and t' = t1 and c = 0]
    by (simp add: cancel_swap_def t1_def token_new_def)
  moreover have "?step (t1, 1, [Wait_Checked]) (t2, 0, [Wait_Checked])"
    using cancel_step.notifies [where t = t1 and c = 0] by (simp add: t2_def)
  moreover have "?step (t2, 0, [Wait_Checked]) (t3, 0, [Wait_Notified k])"
    using cancel_step.registers [where i = 0 and ws = "[Wait_Checked]" and t = t2 and w = "Wait_Notified k" and t' = t3]
    by (simp add: cancelled_register_def km t3_def)
  ultimately have run: "?step\<^sup>*\<^sup>* (?t0, 0, []) (t3, 0, [Wait_Notified k])"
    by (meson converse_rtranclp_into_rtranclp rtranclp.rtrancl_refl)
  have "\<not> ready m k"
    using assms km by (auto simp: notify_spec_def)
  then have "wait_stuck ready (t3, 0, [Wait_Notified k])"
    by (simp add: wait_stuck_def t3_def t2_def t1_def cancel_notify_def)
  then have "ws' \<noteq> [] \<and> ws' ! 0 \<noteq> Wait_Returned"
    if "?step\<^sup>*\<^sup>* (t3, 0, [Wait_Notified k]) (t', c', ws')" for t' c' ws'
    using wait_stuck_forever [OF that _ assms] by (auto simp: wait_stuck_def)
  moreover have "is_cancelled t3"
    by (simp add: is_cancelled_def t3_def t2_def t1_def cancel_notify_def)
  ultimately show ?thesis
    using run by blast
qed

text \<open>A notifier that numbers its futures and keeps the bound below which they were notified.\<close>

definition count_notified :: "nat \<times> nat \<Rightarrow> nat \<times> nat \<times> nat" where
  "count_notified = (\<lambda>(a, b). (max a b, Suc (max a b), b))"

definition count_notify_waiters :: "nat \<times> nat \<Rightarrow> nat \<times> nat" where
  "count_notify_waiters = (\<lambda>(a, b). (a, max a b))"

definition count_ready :: "nat \<times> nat \<Rightarrow> nat \<Rightarrow> bool" where
  "count_ready = (\<lambda>(a, b) k. k < b)"

theorem cancel_wakeup_lost_witness:
  "\<exists>t ws. (cancel_step count_notified count_notify_waiters count_ready)\<^sup>*\<^sup>* (token_new (0, 0), 0, []) (t, 0, ws)
     \<and> is_cancelled t"
proof -
  have "notify_spec count_notified count_notify_waiters count_ready"
    by (auto simp: notify_spec_def count_notified_def count_ready_def)
  from cancel_wakeup_lost [OF this, of "(0, 0)"] show ?thesis by blast
qed

end
