(* ===== verification/Delivery.thy ===== *)
theory Delivery
  imports Frames_Codec Rust_Text
begin

text \<open>
  \<open>crates/envoix-transfer/src/delivery_v2.rs\<close>: the sender's and the receiver's delivery records,
  their stores, the delivery proof and the resume challenge.

  The BLAKE3 functions and the Unicode check are the fields of \<open>Crypto\<close>: \<open>cy_hash\<close> and \<open>cy_nfc\<close> as
  in the frame codec, \<open>cy_derive context\<close> the derive-key mode, \<open>cy_keyed key\<close> the keyed mode. JSON is
  the parameters \<open>to_vec\<close> and \<open>from_slice\<close>. An operation that mutates a record returns it with its
  result, so that what a failed operation leaves behind is visible.
\<close>

section \<open>Data\<close>

record Crypto =
  cy_hash :: "bytes \<Rightarrow> bytes"
  cy_nfc :: "str \<Rightarrow> bool"
  cy_derive :: "string \<Rightarrow> bytes \<Rightarrow> bytes"
  cy_keyed :: "bytes \<Rightarrow> bytes \<Rightarrow> bytes"

definition SENDER_DELIVERY_SCHEMA_VERSION :: u16 where
  "SENDER_DELIVERY_SCHEMA_VERSION = 3"

definition LEGACY_SENDER_DELIVERY_SCHEMA_VERSION :: u16 where
  "LEGACY_SENDER_DELIVERY_SCHEMA_VERSION = 2"

definition RECEIVER_DELIVERY_SCHEMA_VERSION :: u16 where
  "RECEIVER_DELIVERY_SCHEMA_VERSION = 1"

definition SMART_COMPRESSIBLE_EXTENSIONS :: "str list" where
  "SMART_COMPRESSIBLE_EXTENSIONS = map ascii
     [''c'', ''cc'', ''cfg'', ''conf'', ''cpp'', ''css'', ''csv'', ''cxx'', ''fish'', ''go'', ''graphql'',
      ''h'', ''hh'', ''hpp'', ''htm'', ''html'', ''ini'', ''java'', ''js'', ''json'', ''jsonl'', ''jsx'',
      ''kt'', ''kts'', ''log'', ''md'', ''markdown'', ''ndjson'', ''php'', ''plist'', ''py'', ''rb'', ''rs'',
      ''rtf'', ''sh'', ''sql'', ''srt'', ''svg'', ''swift'', ''text'', ''toml'', ''ts'', ''tsx'', ''tsv'',
      ''txt'', ''vtt'', ''xml'', ''yaml'', ''yml'', ''zsh'']"

definition CHALLENGE_KEY_CONTEXT :: string where
  "CHALLENGE_KEY_CONTEXT = ''envoix/manifest/v2/accept-challenge-key''"

definition DELIVERY_KEY_CONTEXT :: string where
  "DELIVERY_KEY_CONTEXT = ''envoix/manifest/v2/delivery-proof-key''"

definition CHALLENGE_TRANSCRIPT_CONTEXT :: bytes where
  "CHALLENGE_TRANSCRIPT_CONTEXT = ascii ''envoix/manifest/v2/accept-challenge''"

definition DELIVERY_TRANSCRIPT_CONTEXT :: bytes where
  "DELIVERY_TRANSCRIPT_CONTEXT = ascii ''envoix/manifest/v2/delivery-proof''"

datatype SenderTransferPhaseV2 =
  Offering | Transferring | WaitingForReceiverSave | Delivered | SendFailed | SendCanceled

record SenderDeliveryRecordV2 =
  sd_schema_version :: u16
  sd_identity :: JobGenerationV2
  sd_manifest_digest :: ContentDigestV2
  sd_phase :: SenderTransferPhaseV2
  sd_accept :: "ManifestAcceptV2 option"
  sd_accept_body_digest :: "ContentDigestV2 option"
  sd_sender_completion_set_digest :: "ContentDigestV2 option"
  sd_entry_results :: "EntryResultV2 list"
  sd_delivery_proof :: "DeliveryProofV2 option"
  sd_entry_encodings :: "EntryEncodingV2 list"

record ReceiverDeliveryRecordV2 =
  rc_schema_version :: u16
  rc_identity :: JobGenerationV2
  rc_manifest_digest :: ContentDigestV2
  rc_result_set_digest :: ContentDigestV2
  rc_entry_results :: "EntryResultV2 list"
  rc_proof_capability :: bytes
  rc_delivery_proof :: "DeliveryProofV2 option"

record SenderDataPlaneSummaryV2 =
  ss_identity :: JobGenerationV2
  ss_accept_body_digest :: ContentDigestV2
  ss_sender_completion_set_digest :: ContentDigestV2
  ss_entry_results :: "EntryResultV2 list"

record ReceiverDataPlaneSummaryV2 =
  rv_identity :: JobGenerationV2
  rv_sender_completion_set_digest :: ContentDigestV2
  rv_entry_results :: "EntryResultV2 list"

datatype DeliveryAuthorityErrorV2 =
    IdentityMismatch | CapabilityMismatch | ResultMismatch | InvalidProof | InvalidRecord | Entropy
  | DeliveryIo | DeliveryJson
  | DeliveryCodec ManifestV2FrameCodecError
  | DeliveryTransport

section \<open>Digests and MACs\<close>

text \<open>The bytes fed to the hasher of \<open>result_set_digest\<close>, from the \<open>i\<close>-th result on.\<close>

fun result_transcript_from :: "Crypto \<Rightarrow> nat \<Rightarrow> EntryResultV2 list \<Rightarrow> DeliveryAuthorityErrorV2 + bytes" where
  "result_transcript_from cy i [] = Inr []"
| "result_transcript_from cy i (r # rs) =
     bindR (rejectR (er_entry_id r \<noteq> word_of_nat i) ResultMismatch) (\<lambda>_.
     bindR (map_err DeliveryCodec (encode_manifest_v2_frame (cy_hash cy) (cy_nfc cy) (F_EntryResult r))) (\<lambda>encoded.
     bindR (result_transcript_from cy (Suc i) rs) (\<lambda>rest.
     Inr (u32_to_be (word_of_nat (length encoded)) @ encoded @ rest))))"

definition result_set_digest :: "Crypto \<Rightarrow> EntryResultV2 list \<Rightarrow> DeliveryAuthorityErrorV2 + ContentDigestV2" where
  "result_set_digest cy results =
     bindR (result_transcript_from cy 0 results) (\<lambda>transcript.
     Inr (cy_derive cy ''envoix/manifest/v2/result-set'' transcript))"

definition delivery_transcript ::
  "JobGenerationV2 \<Rightarrow> ContentDigestV2 \<Rightarrow> ContentDigestV2 \<Rightarrow> bytes \<Rightarrow> bytes" where
  "delivery_transcript identity manifest_digest result_digest proof_nonce =
     DELIVERY_TRANSCRIPT_CONTEXT @ jg_job_id identity @ u32_to_be (jg_generation identity)
     @ manifest_digest @ result_digest @ proof_nonce"

definition delivery_mac ::
  "Crypto \<Rightarrow> bytes \<Rightarrow> JobGenerationV2 \<Rightarrow> ContentDigestV2 \<Rightarrow> ContentDigestV2 \<Rightarrow> bytes \<Rightarrow> bytes" where
  "delivery_mac cy capability identity manifest_digest result_digest proof_nonce =
     cy_keyed cy (cy_derive cy DELIVERY_KEY_CONTEXT capability)
       (delivery_transcript identity manifest_digest result_digest proof_nonce)"

definition challenge_mac :: "Crypto \<Rightarrow> bytes \<Rightarrow> JobGenerationV2 \<Rightarrow> bytes \<Rightarrow> bytes" where
  "challenge_mac cy capability identity challenge_nonce =
     cy_keyed cy (cy_derive cy CHALLENGE_KEY_CONTEXT capability)
       (CHALLENGE_TRANSCRIPT_CONTEXT @ jg_job_id identity @ u32_to_be (jg_generation identity) @ challenge_nonce)"

definition build_delivery_proof ::
  "Crypto \<Rightarrow> JobGenerationV2 \<Rightarrow> ContentDigestV2 \<Rightarrow> ContentDigestV2 \<Rightarrow> bytes \<Rightarrow> bytes \<Rightarrow> DeliveryProofV2" where
  "build_delivery_proof cy identity manifest_digest result_digest proof_nonce capability =
     \<lparr>dp_identity = identity, dp_manifest_digest = manifest_digest, dp_result_set_digest = result_digest,
      dp_proof_nonce = proof_nonce,
      dp_proof_mac = delivery_mac cy capability identity manifest_digest result_digest proof_nonce\<rparr>"

definition answer_resume_challenge :: "Crypto \<Rightarrow> JobGenerationV2 \<Rightarrow> bytes \<Rightarrow> bytes \<Rightarrow> bytes" where
  "answer_resume_challenge cy identity challenge_nonce capability = challenge_mac cy capability identity challenge_nonce"

definition verify_resume_challenge ::
  "Crypto \<Rightarrow> JobGenerationV2 \<Rightarrow> bytes \<Rightarrow> bytes \<Rightarrow> bytes \<Rightarrow> DeliveryAuthorityErrorV2 + unit" where
  "verify_resume_challenge cy identity challenge_nonce response_mac capability =
     rejectR (response_mac \<noteq> challenge_mac cy capability identity challenge_nonce) InvalidProof"

text \<open>\<open>new_challenge_nonce\<close> draws until a nonce is not zero; the draws are a list, \<open>None\<close> a failed one.\<close>

fun new_challenge_nonce :: "bytes option list \<Rightarrow> (DeliveryAuthorityErrorV2 + bytes) option" where
  "new_challenge_nonce [] = None"
| "new_challenge_nonce (None # draws) = Some (Inl Entropy)"
| "new_challenge_nonce (Some nonce # draws) =
     (if nonce \<noteq> replicate 32 0 then Some (Inr nonce) else new_challenge_nonce draws)"

section \<open>Entry encodings\<close>

text \<open>\<open>rsplit_once('.')\<close>: what precedes and what follows the last dot.\<close>

definition rsplit_dot :: "str \<Rightarrow> (str \<times> str) option" where
  "rsplit_dot s =
     (if 0x2E \<in> set s
      then Some (rev (tl (dropWhile (\<lambda>b. b \<noteq> 0x2E) (rev s))), rev (takeWhile (\<lambda>b. b \<noteq> 0x2E) (rev s)))
      else None)"

definition is_smart_compression_candidate :: "str \<Rightarrow> bool" where
  "is_smart_compression_candidate component =
     (case rsplit_dot component of
        None \<Rightarrow> False
      | Some (stem, extension) \<Rightarrow>
          stem \<noteq> [] \<and> extension \<noteq> []
          \<and> list_ex (\<lambda>candidate. eq_ignore_ascii_case extension candidate) SMART_COMPRESSIBLE_EXTENSIONS)"

definition initial_entry_encoding :: "ManifestEntryV2 \<Rightarrow> CompressionPolicyV2 \<Rightarrow> EntryEncodingV2" where
  "initial_entry_encoding entry policy =
     (if me_kind entry = Directory then Enc_Identity
      else case policy of
        Never \<Rightarrow> Enc_Identity
      | Always \<Rightarrow> Enc_Zstd
      | Smart \<Rightarrow> if is_smart_compression_candidate (me_component entry) then Enc_Zstd else Enc_Identity)"

definition validate_entry_encodings ::
  "ManifestOfferV2 \<Rightarrow> EntryEncodingV2 list \<Rightarrow> DeliveryAuthorityErrorV2 + unit" where
  "validate_entry_encodings offer entry_encodings =
     rejectR (length entry_encodings \<noteq> length (mf_entries (of_manifest offer))
       \<or> list_ex (\<lambda>(entry, encoding). me_kind entry = Directory \<and> encoding \<noteq> Enc_Identity)
           (zip (mf_entries (of_manifest offer)) entry_encodings)) InvalidRecord"

section \<open>The sender's record\<close>

definition offer_identity :: "ManifestOfferV2 \<Rightarrow> JobGenerationV2" where
  "offer_identity offer = \<lparr>jg_job_id = mf_job_id (of_manifest offer), jg_generation = mf_generation (of_manifest offer)\<rparr>"

definition sender_new :: "ManifestOfferV2 \<Rightarrow> SenderDeliveryRecordV2" where
  "sender_new offer =
     \<lparr>sd_schema_version = SENDER_DELIVERY_SCHEMA_VERSION, sd_identity = offer_identity offer,
      sd_manifest_digest = of_structural_digest offer, sd_phase = Offering, sd_accept = None,
      sd_accept_body_digest = None, sd_sender_completion_set_digest = None, sd_entry_results = [],
      sd_delivery_proof = None,
      sd_entry_encodings = map (\<lambda>entry. initial_entry_encoding entry (mf_compression_policy (of_manifest offer)))
        (mf_entries (of_manifest offer))\<rparr>"

definition frozen_entry_encoding :: "SenderDeliveryRecordV2 \<Rightarrow> u32 \<Rightarrow> DeliveryAuthorityErrorV2 + EntryEncodingV2" where
  "frozen_entry_encoding r entry_id = ok_or (vec_get (sd_entry_encodings r) (unat entry_id)) InvalidRecord"

definition requires_entry_encoding_migration :: "SenderDeliveryRecordV2 \<Rightarrow> bool" where
  "requires_entry_encoding_migration r \<longleftrightarrow>
     sd_schema_version r = LEGACY_SENDER_DELIVERY_SCHEMA_VERSION \<and> sd_entry_encodings r = []"

definition sender_proof_capability :: "SenderDeliveryRecordV2 \<Rightarrow> bytes option" where
  "sender_proof_capability r = map_option ac_proof_capability (sd_accept r)"

definition completed_data_summary :: "SenderDeliveryRecordV2 \<Rightarrow> SenderDataPlaneSummaryV2 option" where
  "completed_data_summary r =
     Option.bind (sd_accept_body_digest r) (\<lambda>body_digest.
     Option.bind (sd_sender_completion_set_digest r) (\<lambda>completion.
     if sd_entry_results r = [] then None
     else Some \<lparr>ss_identity = sd_identity r, ss_accept_body_digest = body_digest,
                ss_sender_completion_set_digest = completion, ss_entry_results = sd_entry_results r\<rparr>))"

text \<open>Results are numbered by position and belong to the record's job.\<close>

definition results_positional :: "JobGenerationV2 \<Rightarrow> EntryResultV2 list \<Rightarrow> bool" where
  "results_positional identity results \<longleftrightarrow>
     list_all (\<lambda>(index, r). er_identity r = identity \<and> er_entry_id r = word_of_nat index) (enumerate 0 results)"

definition phase_shape :: "SenderDeliveryRecordV2 \<Rightarrow> bool" where
  "phase_shape r =
     (let accepted = sd_accept_body_digest r \<noteq> None \<and> sd_accept r \<noteq> None in
      case sd_phase r of
        Offering \<Rightarrow> \<not> accepted \<and> sd_entry_results r = [] \<and> sd_delivery_proof r = None
      | Transferring \<Rightarrow> accepted \<and> sd_entry_results r = [] \<and> sd_delivery_proof r = None
      | WaitingForReceiverSave \<Rightarrow> accepted \<and> sd_entry_results r \<noteq> [] \<and> sd_delivery_proof r = None
      | Delivered \<Rightarrow> accepted \<and> sd_entry_results r \<noteq> [] \<and> sd_delivery_proof r \<noteq> None
      | SendFailed \<Rightarrow> sd_delivery_proof r = None
      | SendCanceled \<Rightarrow> sd_delivery_proof r = None)"

definition encoding_shape :: "SenderDeliveryRecordV2 \<Rightarrow> bool" where
  "encoding_shape r =
     (if sd_schema_version r = SENDER_DELIVERY_SCHEMA_VERSION then sd_entry_encodings r \<noteq> []
      else if sd_schema_version r = LEGACY_SENDER_DELIVERY_SCHEMA_VERSION then sd_entry_encodings r = []
      else False)"

text \<open>The check of a proof against a capability, a manifest and a result set, failing with \<open>e\<close>.\<close>

definition check_proof ::
  "Crypto \<Rightarrow> DeliveryAuthorityErrorV2 \<Rightarrow> bytes \<Rightarrow> ContentDigestV2 \<Rightarrow> ContentDigestV2 \<Rightarrow> DeliveryProofV2
     \<Rightarrow> DeliveryAuthorityErrorV2 + unit" where
  "check_proof cy e capability manifest_digest result_digest proof =
     rejectR (dp_manifest_digest proof \<noteq> manifest_digest \<or> dp_result_set_digest proof \<noteq> result_digest
       \<or> dp_proof_mac proof \<noteq> delivery_mac cy capability (dp_identity proof) (dp_manifest_digest proof)
            (dp_result_set_digest proof) (dp_proof_nonce proof)) e"

definition sender_validate :: "Crypto \<Rightarrow> SenderDeliveryRecordV2 \<Rightarrow> DeliveryAuthorityErrorV2 + unit" where
  "sender_validate cy r =
     bindR (rejectR (\<not> encoding_shape r
         \<or> (sd_accept_body_digest r \<noteq> None) \<noteq> (sd_accept r \<noteq> None)
         \<or> (sd_entry_results r = []) \<noteq> (sd_sender_completion_set_digest r = None)
         \<or> \<not> results_positional (sd_identity r) (sd_entry_results r)
         \<or> (case sd_delivery_proof r of None \<Rightarrow> False | Some proof \<Rightarrow> dp_identity proof \<noteq> sd_identity r))
       InvalidRecord) (\<lambda>_.
     bindR (case sd_delivery_proof r of
              None \<Rightarrow> Inr ()
            | Some proof \<Rightarrow>
                bindR (ok_or (sender_proof_capability r) InvalidRecord) (\<lambda>capability.
                bindR (rejectR (dp_manifest_digest proof \<noteq> sd_manifest_digest r) InvalidRecord) (\<lambda>_.
                bindR (result_set_digest cy (sd_entry_results r)) (\<lambda>digest.
                check_proof cy InvalidRecord capability (sd_manifest_digest r) digest proof)))) (\<lambda>_.
     rejectR (\<not> phase_shape r) InvalidRecord))"

definition validate_offer :: "Crypto \<Rightarrow> SenderDeliveryRecordV2 \<Rightarrow> ManifestOfferV2 \<Rightarrow> DeliveryAuthorityErrorV2 + unit" where
  "validate_offer cy r offer =
     bindR (rejectR (sd_identity r \<noteq> offer_identity offer \<or> sd_manifest_digest r \<noteq> of_structural_digest offer)
       InvalidRecord) (\<lambda>_.
     bindR (if sd_schema_version r = SENDER_DELIVERY_SCHEMA_VERSION
            then validate_entry_encodings offer (sd_entry_encodings r)
            else rejectR (\<not> (sd_schema_version r = LEGACY_SENDER_DELIVERY_SCHEMA_VERSION \<and> sd_entry_encodings r = []))
              InvalidRecord) (\<lambda>_.
     sender_validate cy r))"

definition freeze_entry_encodings ::
  "Crypto \<Rightarrow> ManifestOfferV2 \<Rightarrow> EntryEncodingV2 list \<Rightarrow> SenderDeliveryRecordV2
     \<Rightarrow> (DeliveryAuthorityErrorV2 + unit) \<times> SenderDeliveryRecordV2" where
  "freeze_entry_encodings cy offer entry_encodings r =
     (case bindR (rejectR (\<not> requires_entry_encoding_migration r) InvalidRecord) (\<lambda>_.
           bindR (validate_offer cy r offer) (\<lambda>_. validate_entry_encodings offer entry_encodings)) of
        Inl e \<Rightarrow> (Inl e, r)
      | Inr _ \<Rightarrow>
          let r' = r\<lparr>sd_entry_encodings := entry_encodings, sd_schema_version := SENDER_DELIVERY_SCHEMA_VERSION\<rparr> in
          (validate_offer cy r' offer, r'))"

definition commit_accept ::
  "ManifestAcceptV2 \<Rightarrow> ContentDigestV2 \<Rightarrow> SenderDeliveryRecordV2
     \<Rightarrow> (DeliveryAuthorityErrorV2 + unit) \<times> SenderDeliveryRecordV2" where
  "commit_accept accept body_digest r =
     (if sd_phase r = SendFailed \<or> sd_phase r = SendCanceled then (Inl InvalidRecord, r)
      else if ac_identity accept \<noteq> sd_identity r \<or> ac_manifest_digest accept \<noteq> sd_manifest_digest r
        then (Inl IdentityMismatch, r)
      else let advance = (\<lambda>r. if sd_phase r = Offering then r\<lparr>sd_phase := Transferring\<rparr> else r) in
        case (sd_accept_body_digest r, sd_accept r) of
          (Some existing_digest, Some existing_accept) \<Rightarrow>
            if existing_digest = body_digest \<and> existing_accept = accept then (Inr (), advance r)
            else (Inl CapabilityMismatch, r)
        | (None, None) \<Rightarrow>
            (Inr (), advance (r\<lparr>sd_accept := Some accept, sd_accept_body_digest := Some body_digest\<rparr>))
        | _ \<Rightarrow> (Inl CapabilityMismatch, r))"

definition commit_results ::
  "SenderDataPlaneSummaryV2 \<Rightarrow> SenderDeliveryRecordV2
     \<Rightarrow> (DeliveryAuthorityErrorV2 + unit) \<times> SenderDeliveryRecordV2" where
  "commit_results summary r =
     (if ss_identity summary \<noteq> sd_identity r \<or> sd_accept_body_digest r \<noteq> Some (ss_accept_body_digest summary)
        then (Inl IdentityMismatch, r)
      else if \<not> (sd_phase r = Transferring \<or> sd_phase r = WaitingForReceiverSave \<or> sd_phase r = Delivered)
        then (Inl InvalidRecord, r)
      else if sd_entry_results r \<noteq> [] \<and> sd_entry_results r \<noteq> ss_entry_results summary
        then (Inl ResultMismatch, r)
      else let r1 = (if sd_entry_results r = [] then r\<lparr>sd_entry_results := ss_entry_results summary\<rparr> else r);
               advance = (\<lambda>r. if sd_phase r = Transferring then r\<lparr>sd_phase := WaitingForReceiverSave\<rparr> else r) in
        case sd_sender_completion_set_digest r1 of
          Some existing \<Rightarrow>
            if existing \<noteq> ss_sender_completion_set_digest summary then (Inl ResultMismatch, r1)
            else (Inr (), advance r1)
        | None \<Rightarrow>
            (Inr (), advance (r1\<lparr>sd_sender_completion_set_digest := Some (ss_sender_completion_set_digest summary)\<rparr>)))"

section \<open>The receiver's record\<close>

definition receiver_validate :: "Crypto \<Rightarrow> ReceiverDeliveryRecordV2 \<Rightarrow> DeliveryAuthorityErrorV2 + unit" where
  "receiver_validate cy r =
     bindR (rejectR (rc_schema_version r \<noteq> RECEIVER_DELIVERY_SCHEMA_VERSION
         \<or> \<not> results_positional (rc_identity r) (rc_entry_results r)) InvalidRecord) (\<lambda>_.
     bindR (result_set_digest cy (rc_entry_results r)) (\<lambda>digest.
     bindR (rejectR (digest \<noteq> rc_result_set_digest r) InvalidRecord) (\<lambda>_.
     case rc_delivery_proof r of
       None \<Rightarrow> Inr ()
     | Some proof \<Rightarrow>
         bindR (rejectR (dp_identity proof \<noteq> rc_identity r) InvalidRecord) (\<lambda>_.
         check_proof cy InvalidRecord (rc_proof_capability r) (rc_manifest_digest r) (rc_result_set_digest r) proof))))"

definition receiver_new ::
  "Crypto \<Rightarrow> ManifestOfferV2 \<Rightarrow> ManifestAcceptV2 \<Rightarrow> ReceiverDataPlaneSummaryV2
     \<Rightarrow> DeliveryAuthorityErrorV2 + ReceiverDeliveryRecordV2" where
  "receiver_new cy offer accept summary =
     bindR (rejectR (ac_identity accept \<noteq> rv_identity summary
         \<or> jg_job_id (ac_identity accept) \<noteq> mf_job_id (of_manifest offer)
         \<or> jg_generation (ac_identity accept) \<noteq> mf_generation (of_manifest offer)
         \<or> ac_manifest_digest accept \<noteq> of_structural_digest offer
         \<or> length (rv_entry_results summary) \<noteq> length (mf_entries (of_manifest offer))) IdentityMismatch) (\<lambda>_.
     bindR (result_set_digest cy (rv_entry_results summary)) (\<lambda>digest.
     let r = \<lparr>rc_schema_version = RECEIVER_DELIVERY_SCHEMA_VERSION, rc_identity = ac_identity accept,
              rc_manifest_digest = of_structural_digest offer, rc_result_set_digest = digest,
              rc_entry_results = rv_entry_results summary, rc_proof_capability = ac_proof_capability accept,
              rc_delivery_proof = None\<rparr> in
     bindR (receiver_validate cy r) (\<lambda>_. Inr r)))"

section \<open>Stores\<close>

definition encode_job_id :: "JobIdV2 \<Rightarrow> str" where
  "encode_job_id job_id = concat (map (\<lambda>b. [hex_digit (unat b div 16), hex_digit (unat b mod 16)]) job_id)"

definition store_path :: "str \<Rightarrow> JobGenerationV2 \<Rightarrow> str" where
  "store_path prefix identity =
     prefix @ ascii ''-'' @ encode_job_id (jg_job_id identity) @ ascii ''-''
     @ decimal (unat (jg_generation identity)) @ ascii ''.json''"

text \<open>
  The files of a store's directory by name. A save writes a temporary file and renames it: when it
  fails before the rename the old file stays, when only the directory's sync fails the new one is
  in place.
\<close>

type_synonym disk = "str \<rightharpoonup> bytes"

datatype SaveIo = Save_Done | Save_Failed | Save_Unsynced

definition store_save ::
  "('r \<Rightarrow> DeliveryAuthorityErrorV2 + unit) \<Rightarrow> ('r \<Rightarrow> JobGenerationV2) \<Rightarrow> str \<Rightarrow> ('r \<Rightarrow> bytes option)
     \<Rightarrow> SaveIo \<Rightarrow> 'r \<Rightarrow> disk \<Rightarrow> (DeliveryAuthorityErrorV2 + unit) \<times> disk" where
  "store_save check identity prefix to_vec io r disk =
     (case bindR (check r) (\<lambda>_. ok_or (to_vec r) DeliveryJson) of
        Inl e \<Rightarrow> (Inl e, disk)
      | Inr bs \<Rightarrow>
          (case io of
             Save_Done \<Rightarrow> (Inr (), disk(store_path prefix (identity r) \<mapsto> bs))
           | Save_Failed \<Rightarrow> (Inl DeliveryIo, disk)
           | Save_Unsynced \<Rightarrow> (Inl DeliveryIo, disk(store_path prefix (identity r) \<mapsto> bs))))"

definition store_load ::
  "('r \<Rightarrow> DeliveryAuthorityErrorV2 + unit) \<Rightarrow> ('r \<Rightarrow> JobGenerationV2) \<Rightarrow> str \<Rightarrow> (bytes \<Rightarrow> 'r option)
     \<Rightarrow> bool \<Rightarrow> JobGenerationV2 \<Rightarrow> disk \<Rightarrow> DeliveryAuthorityErrorV2 + 'r option" where
  "store_load check ident prefix from_slice readable identity disk =
     (case disk (store_path prefix identity) of
        None \<Rightarrow> Inr None
      | Some bs \<Rightarrow>
          bindR (rejectR (\<not> readable) DeliveryIo) (\<lambda>_.
          bindR (ok_or (from_slice bs) DeliveryJson) (\<lambda>r.
          bindR (rejectR (ident r \<noteq> identity \<or> check r \<noteq> Inr ()) InvalidRecord) (\<lambda>_.
          Inr (Some r)))))"

definition SENDER_PREFIX :: str where
  "SENDER_PREFIX = ascii ''sender-delivery''"

definition RECEIVER_PREFIX :: str where
  "RECEIVER_PREFIX = ascii ''receiver-delivery''"

definition sender_save ::
  "Crypto \<Rightarrow> (SenderDeliveryRecordV2 \<Rightarrow> bytes option) \<Rightarrow> SaveIo \<Rightarrow> SenderDeliveryRecordV2 \<Rightarrow> disk
     \<Rightarrow> (DeliveryAuthorityErrorV2 + unit) \<times> disk" where
  "sender_save cy = store_save (sender_validate cy) sd_identity SENDER_PREFIX"

definition sender_load ::
  "Crypto \<Rightarrow> (bytes \<Rightarrow> SenderDeliveryRecordV2 option) \<Rightarrow> bool \<Rightarrow> JobGenerationV2 \<Rightarrow> disk
     \<Rightarrow> DeliveryAuthorityErrorV2 + SenderDeliveryRecordV2 option" where
  "sender_load cy = store_load (sender_validate cy) sd_identity SENDER_PREFIX"

definition receiver_save ::
  "Crypto \<Rightarrow> (ReceiverDeliveryRecordV2 \<Rightarrow> bytes option) \<Rightarrow> SaveIo \<Rightarrow> ReceiverDeliveryRecordV2 \<Rightarrow> disk
     \<Rightarrow> (DeliveryAuthorityErrorV2 + unit) \<times> disk" where
  "receiver_save cy = store_save (receiver_validate cy) rc_identity RECEIVER_PREFIX"

definition receiver_load ::
  "Crypto \<Rightarrow> (bytes \<Rightarrow> ReceiverDeliveryRecordV2 option) \<Rightarrow> bool \<Rightarrow> JobGenerationV2 \<Rightarrow> disk
     \<Rightarrow> DeliveryAuthorityErrorV2 + ReceiverDeliveryRecordV2 option" where
  "receiver_load cy = store_load (receiver_validate cy) rc_identity RECEIVER_PREFIX"

section \<open>The delivery authority\<close>

text \<open>
  \<open>nonce\<close> is the draw of randomness, \<open>io\<close> the outcome of the save, \<open>sent\<close> whether the transport took
  the frame. The frames sent are returned.
\<close>

definition receiver_send_proof ::
  "Crypto \<Rightarrow> (ReceiverDeliveryRecordV2 \<Rightarrow> bytes option) \<Rightarrow> bytes option \<Rightarrow> SaveIo \<Rightarrow> bool \<Rightarrow> ReceiverDeliveryRecordV2
     \<Rightarrow> disk \<Rightarrow> (DeliveryAuthorityErrorV2 + DeliveryProofV2) \<times> ReceiverDeliveryRecordV2 \<times> disk \<times> ManifestV2Frame list" where
  "receiver_send_proof cy to_vec nonce io sent r disk =
     (let send = (\<lambda>proof r disk.
            if sent then (Inr proof, r, disk, [F_DeliveryProof proof]) else (Inl DeliveryTransport, r, disk, [])) in
      case rc_delivery_proof r of
        Some proof \<Rightarrow> send proof r disk
      | None \<Rightarrow>
          (case nonce of
             None \<Rightarrow> (Inl Entropy, r, disk, [])
           | Some proof_nonce \<Rightarrow>
               let proof = build_delivery_proof cy (rc_identity r) (rc_manifest_digest r) (rc_result_set_digest r)
                             proof_nonce (rc_proof_capability r);
                   r' = r\<lparr>rc_delivery_proof := Some proof\<rparr> in
               (case receiver_save cy to_vec io r' disk of
                  (Inl e, disk') \<Rightarrow> (Inl e, r', disk', [])
                | (Inr _, disk') \<Rightarrow> send proof r' disk')))"

definition sender_confirm_delivery ::
  "Crypto \<Rightarrow> (SenderDeliveryRecordV2 \<Rightarrow> bytes option) \<Rightarrow> SaveIo \<Rightarrow> ManifestV2Frame option \<Rightarrow> SenderDeliveryRecordV2
     \<Rightarrow> disk \<Rightarrow> (DeliveryAuthorityErrorV2 + DeliveryProofV2) \<times> SenderDeliveryRecordV2 \<times> disk" where
  "sender_confirm_delivery cy to_vec io received r disk =
     (if \<not> (sd_phase r = WaitingForReceiverSave \<or> sd_phase r = Delivered) then (Inl InvalidRecord, r, disk)
      else case received of
        None \<Rightarrow> (Inl DeliveryTransport, r, disk)
      | Some (F_DeliveryProof proof) \<Rightarrow>
          if sd_phase r = Delivered
          then (if sd_delivery_proof r \<noteq> Some proof then Inl InvalidProof else Inr proof, r, disk)
          else
            (case bindR (ok_or (sender_proof_capability r) InvalidRecord) (\<lambda>capability.
                  bindR (result_set_digest cy (sd_entry_results r)) (\<lambda>digest.
                  bindR (rejectR (dp_identity proof \<noteq> sd_identity r) InvalidProof) (\<lambda>_.
                  check_proof cy InvalidProof capability (sd_manifest_digest r) digest proof))) of
               Inl e \<Rightarrow> (Inl e, r, disk)
             | Inr _ \<Rightarrow>
                 let r' = r\<lparr>sd_delivery_proof := Some proof, sd_phase := Delivered\<rparr> in
                 (case sender_save cy to_vec io r' disk of
                    (Inl e, disk') \<Rightarrow> (Inl e, r', disk')
                  | (Inr _, disk') \<Rightarrow> (Inr proof, r', disk')))
      | Some _ \<Rightarrow> (Inl InvalidProof, r, disk))"

end
