(* ===== verification/Delivery_Properties.thy ===== *)
theory Delivery_Properties
  imports Delivery Frames_Properties Manifest_Properties
begin

text \<open>
  The properties of delivery: the sender's record stays valid and only moves forward, a confirmed
  delivery means that both sides recorded the same results, an honest proof is always confirmed,
  records are read back from the store, and a proof can be sent that was never saved.
\<close>

section \<open>Transcripts\<close>

lemma encoded_result_length:
  assumes "encode_manifest_v2_frame hash nfc (F_EntryResult r) = Inr bs"
  shows "length bs < 2 ^ 32"
proof -
  obtain p t maximum where "encode_payload hash nfc (F_EntryResult r) = Inr (p, t)"
    and m: "maximum_payload_bytes t = Inr maximum" "length p \<le> maximum" and bs: "bs = frame_header t (length p) @ p"
    using assms by (auto simp: encode_frame_iff)
  then have "t = T_EntryResult"
    by (auto simp: encode_payload_def tagged_Inr_iff)
  with m have "length p \<le> 2 ^ 32 - 13"
    by (auto simp: maximum_payload_bytes_def frame_limits manifest_limits)
  then show ?thesis
    by (simp add: bs length_frame_header HEADER_BYTES_def)
qed

lemma u32_of_nat_inj:
  assumes "(word_of_nat m :: u32) = word_of_nat n" and "m < 2 ^ 32" and "n < 2 ^ 32"
  shows "m = n"
proof -
  have "m < 2 ^ LENGTH(32)" "n < 2 ^ LENGTH(32)"
    using assms(2,3) by simp_all
  from this [THEN unat_word_of_nat_small] assms(1) show ?thesis by metis
qed

lemma result_transcript_inj:
  assumes "result_transcript_from cy i rs = Inr t" and "result_transcript_from cy i rs' = Inr t"
    and "\<forall>r \<in> set rs. frame_wf (F_EntryResult r)" and "\<forall>r \<in> set rs'. frame_wf (F_EntryResult r)"
  shows "rs = rs'"
  using assms
proof (induction rs arbitrary: i rs' t)
  case Nil
  then show ?case
    by (cases rs') (auto simp: u32_to_be_def dest: arg_cong [where f = length])
next
  case (Cons r rs)
  let ?enc = "encode_manifest_v2_frame (cy_hash cy) (cy_nfc cy)"
  from Cons.prems(1) obtain e rest where e: "?enc (F_EntryResult r) = Inr e" "result_transcript_from cy (Suc i) rs = Inr rest"
    and t: "t = u32_to_be (word_of_nat (length e)) @ e @ rest"
    by auto
  show ?case
  proof (cases rs')
    case Nil
    with Cons.prems(2) have "length t = 0" by simp
    then show ?thesis by (simp add: t)
  next
    case (Cons r' rs2)
    from Cons.prems(2) Cons obtain e' rest' where e': "?enc (F_EntryResult r') = Inr e'"
      "result_transcript_from cy (Suc i) rs2 = Inr rest'" and t': "t = u32_to_be (word_of_nat (length e')) @ e' @ rest'"
      by auto
    have "u32_to_be (word_of_nat (length e)) = u32_to_be (word_of_nat (length e'))" and es: "e @ rest = e' @ rest'"
      using t t' by (simp_all add: append_eq_append_conv)
    then have "(word_of_nat (length e) :: u32) = word_of_nat (length e')"
      by (metis from_be_to_be(2))
    then have "length e = length e'"
      using encoded_result_length [OF e(1)] encoded_result_length [OF e'(1)] by (rule u32_of_nat_inj)
    with es have "e = e'" "rest = rest'" by simp_all
    moreover have "frame_wf (F_EntryResult r)" "frame_wf (F_EntryResult r')"
      using Cons.prems(3,4) \<open>rs' = r' # rs2\<close> by simp_all
    ultimately have "F_EntryResult r = F_EntryResult r'"
      using decode_frame_encode [OF e(1)] decode_frame_encode [OF e'(1)] by simp
    moreover have "rs = rs2"
      using Cons.IH [OF e(2)] e'(2) \<open>rest = rest'\<close> Cons.prems(3,4) \<open>rs' = r' # rs2\<close> by simp
    ultimately show ?thesis by (simp add: \<open>rs' = r' # rs2\<close>)
  qed
qed

section \<open>The sender's record\<close>

lemma check_proof_iff [simp]:
  "check_proof cy e cap md d p = Inr () \<longleftrightarrow> dp_manifest_digest p = md \<and> dp_result_set_digest p = d
     \<and> dp_proof_mac p = delivery_mac cy cap (dp_identity p) md d (dp_proof_nonce p)"
  by (auto simp: check_proof_def)

lemma sender_validate_iff:
  "sender_validate cy r = Inr () \<longleftrightarrow>
     encoding_shape r \<and> (sd_accept_body_digest r = None \<longleftrightarrow> sd_accept r = None)
     \<and> (sd_entry_results r = [] \<longleftrightarrow> sd_sender_completion_set_digest r = None)
     \<and> results_positional (sd_identity r) (sd_entry_results r)
     \<and> (\<forall>proof. sd_delivery_proof r = Some proof \<longrightarrow>
          dp_identity proof = sd_identity r
          \<and> (\<exists>cap digest. sender_proof_capability r = Some cap \<and> result_set_digest cy (sd_entry_results r) = Inr digest
               \<and> check_proof cy InvalidRecord cap (sd_manifest_digest r) digest proof = Inr ()))
     \<and> phase_shape r"
proof (cases "sd_delivery_proof r")
  case None
  then show ?thesis by (auto simp: sender_validate_def)
next
  case (Some p)
  then show ?thesis by (auto simp: sender_validate_def)
qed

text \<open>
  What can happen to a record in memory: each operation with any arguments, successful or not. A run
  is labelled with the calls made, in order.
\<close>

datatype sender_call =
    Call_Accept ManifestAcceptV2 ContentDigestV2
  | Call_Results SenderDataPlaneSummaryV2
  | Call_Freeze ManifestOfferV2 "EntryEncodingV2 list"
  | Call_Confirm "ManifestV2Frame option"

inductive sender_step :: "Crypto \<Rightarrow> sender_call \<Rightarrow> SenderDeliveryRecordV2 \<Rightarrow> SenderDeliveryRecordV2 \<Rightarrow> bool" for cy where
  accepts: "commit_accept accept body_digest r = (res, r') \<Longrightarrow> sender_step cy (Call_Accept accept body_digest) r r'"
| results: "commit_results summary r = (res, r') \<Longrightarrow> sender_step cy (Call_Results summary) r r'"
| freezes: "freeze_entry_encodings cy offer encodings r = (res, r') \<Longrightarrow> sender_step cy (Call_Freeze offer encodings) r r'"
| confirms: "sender_confirm_delivery cy to_vec io received r disk = (res', r', disk')
    \<Longrightarrow> sender_step cy (Call_Confirm received) r r'"

inductive sender_run :: "Crypto \<Rightarrow> sender_call list \<Rightarrow> SenderDeliveryRecordV2 \<Rightarrow> SenderDeliveryRecordV2 \<Rightarrow> bool" for cy where
  stays: "sender_run cy [] r r"
| calls: "sender_step cy call r r1 \<Longrightarrow> sender_run cy later r1 r' \<Longrightarrow> sender_run cy (call # later) r r'"

text \<open>
  \<open>commit_results\<close> takes the results of a summary as they are, and \<open>freeze_entry_encodings\<close> an offer
  without entries. These are the calls with arguments \<open>validate\<close> has nothing against. The summary of
  \<open>send_payload\<close> is always one (\<open>Engine_Properties.send_payload_summary_sound\<close>).
\<close>

definition sound_call :: "sender_call \<Rightarrow> bool" where
  "sound_call call = (case call of
     Call_Results summary \<Rightarrow>
       ss_entry_results summary \<noteq> [] \<and> results_positional (ss_identity summary) (ss_entry_results summary)
   | Call_Freeze offer encodings \<Rightarrow> mf_entries (of_manifest offer) \<noteq> []
   | _ \<Rightarrow> True)"

text \<open>Once set, a field keeps its value.\<close>

definition phase_rank :: "SenderTransferPhaseV2 \<Rightarrow> nat" where
  "phase_rank p = (case p of Offering \<Rightarrow> 0 | Transferring \<Rightarrow> 1 | WaitingForReceiverSave \<Rightarrow> 2 | Delivered \<Rightarrow> 3
     | SendFailed \<Rightarrow> 4 | SendCanceled \<Rightarrow> 4)"

definition sender_forward :: "SenderDeliveryRecordV2 \<Rightarrow> SenderDeliveryRecordV2 \<Rightarrow> bool" where
  "sender_forward r r' \<longleftrightarrow>
     sd_identity r' = sd_identity r \<and> sd_manifest_digest r' = sd_manifest_digest r
     \<and> phase_rank (sd_phase r) \<le> phase_rank (sd_phase r')
     \<and> (sd_accept r \<noteq> None \<longrightarrow> sd_accept r' = sd_accept r \<and> sd_accept_body_digest r' = sd_accept_body_digest r)
     \<and> (sd_entry_results r \<noteq> [] \<longrightarrow> sd_entry_results r' = sd_entry_results r
          \<and> sd_sender_completion_set_digest r' = sd_sender_completion_set_digest r)
     \<and> (sd_delivery_proof r \<noteq> None \<longrightarrow> sd_delivery_proof r' = sd_delivery_proof r)
     \<and> (sd_entry_encodings r \<noteq> [] \<longrightarrow> sd_entry_encodings r' = sd_entry_encodings r)"

lemma sender_forward_refl [simp]: "sender_forward r r"
  by (simp add: sender_forward_def)

text \<open>What the checks do not look at.\<close>

lemma checks_frame [simp]:
  "encoding_shape (r\<lparr>sd_accept := ac\<rparr>) = encoding_shape r"
  "encoding_shape (r\<lparr>sd_accept_body_digest := bd\<rparr>) = encoding_shape r"
  "encoding_shape (r\<lparr>sd_phase := ph\<rparr>) = encoding_shape r"
  "encoding_shape (r\<lparr>sd_entry_results := rs\<rparr>) = encoding_shape r"
  "encoding_shape (r\<lparr>sd_sender_completion_set_digest := cd\<rparr>) = encoding_shape r"
  "encoding_shape (r\<lparr>sd_delivery_proof := p\<rparr>) = encoding_shape r"
  "sender_proof_capability (r\<lparr>sd_phase := ph\<rparr>) = sender_proof_capability r"
  "sender_proof_capability (r\<lparr>sd_delivery_proof := p\<rparr>) = sender_proof_capability r"
  by (simp_all add: encoding_shape_def sender_proof_capability_def)

lemma encodings_irrelevant:
  "phase_shape (r\<lparr>sd_entry_encodings := encodings, sd_schema_version := version\<rparr>) = phase_shape r"
  "sender_proof_capability (r\<lparr>sd_entry_encodings := encodings, sd_schema_version := version\<rparr>) = sender_proof_capability r"
  by (cases "sd_phase r"; simp add: phase_shape_def) (simp add: sender_proof_capability_def)

lemma commit_accept_step:
  assumes "sender_validate cy r = Inr ()" and "commit_accept accept body_digest r = (res, r')"
  shows "sender_validate cy r' = Inr () \<and> sender_forward r r'"
proof (cases "r' = r")
  case True
  with assms(1) show ?thesis by simp
next
  case False
  then have fresh: "sd_accept r = None" "sd_accept_body_digest r = None" "sd_phase r \<noteq> SendFailed" "sd_phase r \<noteq> SendCanceled"
    using assms by (auto simp: commit_accept_def Let_def sender_validate_iff phase_shape_def split: if_splits option.splits)
  then have off: "sd_phase r = Offering"
    using assms(1) by (cases "sd_phase r") (auto simp: sender_validate_iff phase_shape_def)
  with fresh False assms(2) have "r' = r\<lparr>sd_accept := Some accept, sd_accept_body_digest := Some body_digest, sd_phase := Transferring\<rparr>"
    by (auto simp: commit_accept_def Let_def split: if_splits)
  then show ?thesis
    using assms(1) off fresh
    by (auto simp: sender_validate_iff phase_shape_def sender_forward_def phase_rank_def)
qed

lemma commit_results_step:
  assumes "sender_validate cy r = Inr ()" and "ss_entry_results summary \<noteq> []"
    and "results_positional (ss_identity summary) (ss_entry_results summary)"
    and "commit_results summary r = (res, r')"
  shows "sender_validate cy r' = Inr () \<and> sender_forward r r'"
proof (cases "sd_entry_results r = [] \<and> r' \<noteq> r")
  case False
  then have "r' = r"
    using assms by (auto simp: commit_results_def Let_def sender_validate_iff phase_shape_def split: if_splits option.splits)
  with assms(1) show ?thesis by simp
next
  case True
  then have ph: "sd_phase r = Transferring" "ss_identity summary = sd_identity r"
    using assms(1,4) by (auto simp: commit_results_def sender_validate_iff phase_shape_def split: if_splits)
  have "sd_sender_completion_set_digest r = None"
    using True assms(1) by (simp add: sender_validate_iff)
  with True ph assms(4) have "r' = r\<lparr>sd_entry_results := ss_entry_results summary,
      sd_sender_completion_set_digest := Some (ss_sender_completion_set_digest summary), sd_phase := WaitingForReceiverSave\<rparr>"
    by (auto simp: commit_results_def Let_def split: if_splits)
  then show ?thesis
    using assms(1-3) ph True
    by (auto simp: sender_validate_iff phase_shape_def sender_forward_def phase_rank_def sender_proof_capability_def)
qed

lemma freeze_step:
  assumes "sender_validate cy r = Inr ()" and "mf_entries (of_manifest offer) \<noteq> []"
    and "freeze_entry_encodings cy offer encodings r = (res, r')"
  shows "sender_validate cy r' = Inr () \<and> sender_forward r r'"
proof (cases "r' = r")
  case True
  with assms(1) show ?thesis by simp
next
  case False
  then have "r' = r\<lparr>sd_entry_encodings := encodings, sd_schema_version := SENDER_DELIVERY_SCHEMA_VERSION\<rparr>"
    and "encodings \<noteq> []" and "sd_entry_encodings r = []"
    using assms(2,3) by (auto simp: freeze_entry_encodings_def Let_def validate_entry_encodings_def
        requires_entry_encoding_migration_def split: sum.splits)
  then show ?thesis
    using assms(1) by (auto simp: sender_validate_iff encoding_shape_def sender_forward_def encodings_irrelevant)
qed

lemma confirm_step:
  assumes "sender_validate cy r = Inr ()" and "sender_confirm_delivery cy to_vec io received r disk = (res, r', disk')"
  shows "sender_validate cy r' = Inr () \<and> sender_forward r r'"
proof (cases "r' = r")
  case True
  with assms(1) show ?thesis by simp
next
  case False
  then obtain p cap digest where p: "sd_phase r = WaitingForReceiverSave" "sender_proof_capability r = Some cap"
    "result_set_digest cy (sd_entry_results r) = Inr digest" "dp_identity p = sd_identity r"
    "check_proof cy InvalidProof cap (sd_manifest_digest r) digest p = Inr ()"
    and r': "r' = r\<lparr>sd_delivery_proof := Some p, sd_phase := Delivered\<rparr>"
    using assms(2) by (auto simp: sender_confirm_delivery_def Let_def
        split: if_splits option.splits ManifestV2Frame.splits sum.splits prod.splits)
  show ?thesis
    using assms(1) p r'
    by (auto simp: sender_validate_iff phase_shape_def sender_forward_def phase_rank_def)
qed

lemmas sender_step_lemmas = commit_accept_step commit_results_step freeze_step confirm_step

lemma sender_step_valid:
  assumes "sender_step cy call r r'" and "sound_call call" and "sender_validate cy r = Inr ()"
  shows "sender_validate cy r' = Inr ()"
  using assms by cases (auto simp: sound_call_def dest: sender_step_lemmas)

lemma sender_run_valid:
  assumes "sender_run cy calls r r'" and "\<forall>call \<in> set calls. sound_call call" and "sender_validate cy r = Inr ()"
  shows "sender_validate cy r' = Inr ()"
  using assms by (induction rule: sender_run.induct) (auto dest: sender_step_valid)

text \<open>What keeps a record moving forward, whatever results it was given.\<close>

definition sender_core :: "SenderDeliveryRecordV2 \<Rightarrow> bool" where
  "sender_core r \<longleftrightarrow> (sd_entry_results r \<noteq> [] \<longrightarrow> sd_sender_completion_set_digest r \<noteq> None)
     \<and> (sd_delivery_proof r \<noteq> None \<longrightarrow> sd_phase r = Delivered)"

lemma sender_step_core:
  assumes "sender_step cy call r r'" and "sender_core r"
  shows "sender_core r' \<and> sender_forward r r'"
  using assms(1)
proof cases
  case (accepts accept body_digest res)
  with assms(2) show ?thesis
    by (auto simp: commit_accept_def Let_def sender_core_def sender_forward_def phase_rank_def split: if_splits option.splits)
next
  case (results summary res)
  with assms(2) show ?thesis
    by (auto simp: commit_results_def Let_def sender_core_def sender_forward_def phase_rank_def split: if_splits option.splits)
next
  case (freezes offer encodings res)
  with assms(2) show ?thesis
    by (auto simp: freeze_entry_encodings_def requires_entry_encoding_migration_def Let_def sender_core_def sender_forward_def
        split: sum.splits)
next
  case (confirms to_vec io received disk res' disk')
  with assms(2) show ?thesis
    by (auto simp: sender_confirm_delivery_def Let_def sender_core_def sender_forward_def phase_rank_def
        split: if_splits option.splits ManifestV2Frame.splits sum.splits prod.splits)
qed

lemma sender_forward_trans:
  "sender_forward a b \<Longrightarrow> sender_forward b c \<Longrightarrow> sender_forward a c"
  by (auto simp: sender_forward_def)

lemma sender_run_core:
  assumes "sender_run cy calls r r'" and "sender_core r"
  shows "sender_core r' \<and> sender_forward r r'"
  using assms by (induction rule: sender_run.induct) (auto dest: sender_step_core intro: sender_forward_trans)

lemma sender_run_append:
  "sender_run cy calls r r1 \<Longrightarrow> sender_run cy later r1 r' \<Longrightarrow> sender_run cy (calls @ later) r r'"
  by (induction rule: sender_run.induct) (auto intro: sender_run.intros)

lemma sender_new_valid:
  "mf_entries (of_manifest offer) \<noteq> [] \<Longrightarrow> sender_validate cy (sender_new offer) = Inr ()"
  by (simp add: sender_validate_iff sender_new_def phase_shape_def encoding_shape_def results_positional_def
      sender_proof_capability_def)

lemma sender_new_core: "sender_core (sender_new offer)"
  by (simp add: sender_core_def sender_new_def)

text \<open>
  C16: a sender's record made for an offer with at least one entry only moves forward, whatever
  operations are called with whatever arguments, succeed or fail, failed saves included: the phase never goes
  back, and the accepted capability, the results, the frozen encodings and the proof, once set, keep their
  value. It satisfies \<open>validate\<close> at every moment, unless a call before handed it arguments \<open>validate\<close>
  refuses and the operation does not check: results that are empty or not numbered by position, or an offer
  without entries.
\<close>

theorem sender_record_invariant:
  assumes "mf_entries (of_manifest offer) \<noteq> []" and "sender_run cy calls (sender_new offer) r"
    and "sender_run cy later r r'"
  shows "sender_forward r r'
     \<and> (sender_validate cy r' = Inr () \<or> (\<exists>call \<in> set (calls @ later). \<not> sound_call call))"
  using assms sender_run_core sender_run_valid [OF sender_run_append] sender_new_valid sender_new_core by metis

section \<open>Agreement\<close>

text \<open>Two transcripts that are not equal and have the same digest.\<close>

definition result_collision :: "Crypto \<Rightarrow> EntryResultV2 list \<Rightarrow> EntryResultV2 list \<Rightarrow> bool" where
  "result_collision cy rs rs' \<longleftrightarrow>
     (\<exists>t t'. result_transcript_from cy 0 rs = Inr t \<and> result_transcript_from cy 0 rs' = Inr t' \<and> t \<noteq> t'
       \<and> cy_derive cy ''envoix/manifest/v2/result-set'' t = cy_derive cy ''envoix/manifest/v2/result-set'' t')"

lemma result_set_digest_inj:
  assumes "result_set_digest cy rs = Inr d" and "result_set_digest cy rs' = Inr d"
    and "\<forall>r \<in> set rs. entry_result_wf r" and "\<forall>r \<in> set rs'. entry_result_wf r"
  shows "rs = rs' \<or> result_collision cy rs rs'"
proof -
  obtain t t' where t: "result_transcript_from cy 0 rs = Inr t" "result_transcript_from cy 0 rs' = Inr t'"
    and d: "cy_derive cy ''envoix/manifest/v2/result-set'' t = cy_derive cy ''envoix/manifest/v2/result-set'' t'"
    using assms(1,2) by (auto simp: result_set_digest_def)
  show ?thesis
  proof (cases "t = t'")
    case True
    with t assms(3,4) have "rs = rs'"
      by (intro result_transcript_inj [of cy 0 rs t rs']) (simp_all add: frame_wf_def)
    then show ?thesis ..
  next
    case False
    with t d show ?thesis by (auto simp: result_collision_def)
  qed
qed

lemma receiver_validate_iff:
  "receiver_validate cy rc = Inr () \<longleftrightarrow>
     rc_schema_version rc = RECEIVER_DELIVERY_SCHEMA_VERSION
     \<and> results_positional (rc_identity rc) (rc_entry_results rc)
     \<and> result_set_digest cy (rc_entry_results rc) = Inr (rc_result_set_digest rc)
     \<and> (case rc_delivery_proof rc of None \<Rightarrow> True | Some p \<Rightarrow> dp_identity p = rc_identity rc
          \<and> check_proof cy InvalidRecord (rc_proof_capability rc) (rc_manifest_digest rc) (rc_result_set_digest rc) p = Inr ())"
  by (cases "rc_delivery_proof rc") (auto simp: receiver_validate_def)

lemma receiver_send_proof_Inr:
  assumes "receiver_send_proof cy to_vec nonce io sent rc disk = (Inr p, rc', disk', fs)"
  shows "fs = [F_DeliveryProof p] \<and> rc' = rc\<lparr>rc_delivery_proof := Some p\<rparr>
     \<and> (rc_delivery_proof rc = Some p \<or> rc_delivery_proof rc = None
        \<and> (\<exists>n. p = build_delivery_proof cy (rc_identity rc) (rc_manifest_digest rc) (rc_result_set_digest rc) n
              (rc_proof_capability rc)))"
proof (cases "rc_delivery_proof rc")
  case None
  with assms show ?thesis
    by (auto simp: receiver_send_proof_def Let_def split: option.splits if_splits prod.splits sum.splits)
next
  case (Some q)
  with assms show ?thesis
    by (cases sent) (auto simp: receiver_send_proof_def Let_def)
qed

lemma receiver_proof_fields:
  assumes "receiver_validate cy rc = Inr ()"
    and "receiver_send_proof cy to_vec nonce io sent rc disk = (Inr p, rc', disk', fs)"
  shows "dp_identity p = rc_identity rc \<and> dp_manifest_digest p = rc_manifest_digest rc
     \<and> result_set_digest cy (rc_entry_results rc) = Inr (dp_result_set_digest p) \<and> fs = [F_DeliveryProof p]
     \<and> rc_delivery_proof rc' = Some p"
  using receiver_send_proof_Inr [OF assms(2)] assms(1)
  by (auto simp: receiver_validate_iff build_delivery_proof_def)

section \<open>Samples\<close>

definition sample_crypto :: Crypto where
  "sample_crypto = \<lparr>cy_hash = zero_hash, cy_nfc = any_nfc, cy_derive = (\<lambda>context bs. replicate 32 1),
     cy_keyed = (\<lambda>key bs. replicate 32 2)\<rparr>"

definition saved_result :: EntryResultV2 where
  "saved_result = sample_result\<lparr>er_entry_id := 0\<rparr>"

definition sample_accept :: ManifestAcceptV2 where
  "sample_accept = \<lparr>ac_identity = sample_identity, ac_manifest_digest = replicate 32 3, ac_accept_nonce = replicate 32 8,
     ac_proof_capability = replicate 32 4, ac_plan_revision = 1, ac_root_plans = [], ac_entry_plans = []\<rparr>"

definition sample_sender :: SenderDeliveryRecordV2 where
  "sample_sender = \<lparr>sd_schema_version = 3, sd_identity = sample_identity, sd_manifest_digest = replicate 32 3,
     sd_phase = WaitingForReceiverSave, sd_accept = Some sample_accept, sd_accept_body_digest = Some (replicate 32 5),
     sd_sender_completion_set_digest = Some (replicate 32 6), sd_entry_results = [saved_result],
     sd_delivery_proof = None, sd_entry_encodings = [Enc_Identity]\<rparr>"

definition sample_receiver :: ReceiverDeliveryRecordV2 where
  "sample_receiver = \<lparr>rc_schema_version = 1, rc_identity = sample_identity, rc_manifest_digest = replicate 32 3,
     rc_result_set_digest = replicate 32 1, rc_entry_results = [saved_result],
     rc_proof_capability = replicate 32 4, rc_delivery_proof = None\<rparr>"

lemma saved_result_wf: "entry_result_wf saved_result"
  using sample_frames_wf(2) by (simp add: saved_result_def entry_result_wf_def frame_wf_def)

lemma saved_result_digest: "result_set_digest sample_crypto [saved_result] = Inr (replicate 32 1)"
proof -
  have "\<exists>p. encode_payload zero_hash any_nfc (F_EntryResult saved_result) = Inr (p, T_EntryResult)"
    by (simp add: encode_payload_def saved_result_def encode_entry_result_body_def
      sample_result_def frame_component_ok_def manifest_limits ascii_def of_char_def chars_def is_control_def)
  then obtain q where q: "encode_payload zero_hash any_nfc (F_EntryResult saved_result) = Inr (q, T_EntryResult)"
    by blast
  then have "\<exists>b. encode_manifest_v2_frame zero_hash any_nfc (F_EntryResult saved_result) = Inr b"
    using payload_fits [OF q] saved_result_wf maximum_payload_total [of T_EntryResult]
    by (fastforce simp: encode_frame_iff frame_wf_def)
  then show ?thesis
    by (auto simp: result_set_digest_def sample_crypto_def saved_result_def)
qed

lemma sample_records_valid:
  "receiver_validate sample_crypto sample_receiver = Inr ()" "sender_validate sample_crypto sample_sender = Inr ()"
  using saved_result_digest
  by (simp_all add: receiver_validate_iff sender_validate_iff sample_receiver_def sample_sender_def phase_shape_def
      encoding_shape_def results_positional_def saved_result_def sample_result_def
      RECEIVER_DELIVERY_SCHEMA_VERSION_def SENDER_DELIVERY_SCHEMA_VERSION_def)

text \<open>An honest receiver's proof, with every save succeeding.\<close>

lemma receiver_sends:
  assumes "receiver_validate cy rc = Inr ()" and "rc_delivery_proof rc = None" and "\<forall>x. to_vec x \<noteq> None"
    and p_def: "p = build_delivery_proof cy (rc_identity rc) (rc_manifest_digest rc) (rc_result_set_digest rc) n (rc_proof_capability rc)"
  shows "\<exists>disk'. receiver_send_proof cy to_vec (Some n) Save_Done True rc disk
     = (Inr p, rc\<lparr>rc_delivery_proof := Some p\<rparr>, disk', [F_DeliveryProof p])"
proof -
  have "receiver_validate cy (rc\<lparr>rc_delivery_proof := Some p\<rparr>) = Inr ()"
    using assms(1) by (simp add: receiver_validate_iff p_def build_delivery_proof_def)
  moreover obtain bs where "to_vec (rc\<lparr>rc_delivery_proof := Some p\<rparr>) = Some bs"
    using assms(3) by blast
  ultimately show ?thesis
    using assms(2) unfolding p_def by (simp add: receiver_send_proof_def Let_def receiver_save_def store_save_def)
qed

lemma sender_confirms:
  assumes "sender_validate cy r = Inr ()" and "sd_phase r = WaitingForReceiverSave" and "\<forall>x. to_vec x \<noteq> None"
    and "sender_proof_capability r = Some cap" and "result_set_digest cy (sd_entry_results r) = Inr d"
    and p_def: "p = build_delivery_proof cy (sd_identity r) (sd_manifest_digest r) d n cap"
  shows "\<exists>disk'. sender_confirm_delivery cy to_vec Save_Done (Some (F_DeliveryProof p)) r disk
     = (Inr p, r\<lparr>sd_delivery_proof := Some p, sd_phase := Delivered\<rparr>, disk')"
proof -
  let ?r = "r\<lparr>sd_delivery_proof := Some p, sd_phase := Delivered\<rparr>"
  have p: "dp_identity p = sd_identity r" "check_proof cy e cap (sd_manifest_digest r) d p = Inr ()" for e
    by (simp_all add: p_def build_delivery_proof_def)
  have "sender_validate cy ?r = Inr ()"
    using assms(1,2,4,5) p by (auto simp: sender_validate_iff phase_shape_def)
  moreover obtain bs where "to_vec ?r = Some bs"
    using assms(3) by blast
  ultimately show ?thesis
    using assms(2,4,5) p by (simp add: sender_confirm_delivery_def Let_def sender_save_def store_save_def del: check_proof_iff)
qed

definition sample_proof :: DeliveryProofV2 where
  "sample_proof = build_delivery_proof sample_crypto sample_identity (replicate 32 3) (replicate 32 1) (replicate 32 9) (replicate 32 4)"

lemma sample_fields:
  "rc_identity sample_receiver = sample_identity" "rc_manifest_digest sample_receiver = replicate 32 3"
  "rc_entry_results sample_receiver = [saved_result]" "rc_delivery_proof sample_receiver = None"
  "sd_phase sample_sender = WaitingForReceiverSave" "sd_identity sample_sender = sample_identity"
  "sd_manifest_digest sample_sender = replicate 32 3" "sd_entry_results sample_sender = [saved_result]"
  "sender_proof_capability sample_sender = Some (replicate 32 4)" "rc_proof_capability sample_receiver = replicate 32 4"
  "rc_result_set_digest sample_receiver = replicate 32 1"
  by (simp_all add: sample_receiver_def sample_sender_def sender_proof_capability_def sample_accept_def)

lemma sample_delivery:
  "\<exists>d. receiver_send_proof sample_crypto (\<lambda>x. Some []) (Some (replicate 32 9)) Save_Done True sample_receiver Map.empty
      = (Inr sample_proof, sample_receiver\<lparr>rc_delivery_proof := Some sample_proof\<rparr>, d, [F_DeliveryProof sample_proof])"
  "\<exists>d. sender_confirm_delivery sample_crypto (\<lambda>x. Some []) Save_Done (Some (F_DeliveryProof sample_proof)) sample_sender Map.empty
      = (Inr sample_proof, sample_sender\<lparr>sd_delivery_proof := Some sample_proof, sd_phase := Delivered\<rparr>, d)"
proof -
  have "result_set_digest sample_crypto (sd_entry_results sample_sender) = Inr (replicate 32 1)"
    using saved_result_digest by (simp add: sample_fields)
  from sender_confirms [OF sample_records_valid(2) sample_fields(5) _ sample_fields(9) this refl,
      where to_vec = "\<lambda>x. Some []" and n = "replicate 32 9" and disk = Map.empty]
  show "\<exists>d. sender_confirm_delivery sample_crypto (\<lambda>x. Some []) Save_Done (Some (F_DeliveryProof sample_proof)) sample_sender Map.empty
      = (Inr sample_proof, sample_sender\<lparr>sd_delivery_proof := Some sample_proof, sd_phase := Delivered\<rparr>, d)"
    by (simp add: sample_fields sample_proof_def)
  from receiver_sends [OF sample_records_valid(1) sample_fields(4) _ refl,
      where to_vec = "\<lambda>x. Some []" and n = "replicate 32 9" and disk = Map.empty]
  show "\<exists>d. receiver_send_proof sample_crypto (\<lambda>x. Some []) (Some (replicate 32 9)) Save_Done True sample_receiver Map.empty
      = (Inr sample_proof, sample_receiver\<lparr>rc_delivery_proof := Some sample_proof\<rparr>, d, [F_DeliveryProof sample_proof])"
    by (simp add: sample_fields sample_proof_def)
qed

text \<open>
  C6: a confirmed delivery is agreement. When the sender confirms the proof a receiver sent, the two
  records belong to the same job and generation and to the same manifest digest, the sender's record is in
  phase \<open>Delivered\<close> and keeps that proof, and both sides recorded the same results in the same order, unless
  two different result transcripts have the same digest.
\<close>

theorem delivery_agreement:
  assumes "receiver_validate cy rc = Inr ()"
    and "receiver_send_proof cy to_vec nonce io sent rc disk = (Inr p, rc', disk', [f])"
    and "sender_validate cy r = Inr ()" and "sd_phase r = WaitingForReceiverSave"
    and "sender_confirm_delivery cy to_vec' io' (Some f) r disk2 = (Inr q, r', disk3)"
    and "\<forall>e \<in> set (rc_entry_results rc) \<union> set (sd_entry_results r). entry_result_wf e"
  shows "q = p \<and> rc_identity rc = sd_identity r \<and> rc_manifest_digest rc = sd_manifest_digest r
     \<and> sd_phase r' = Delivered \<and> sd_delivery_proof r' = Some p \<and> rc_delivery_proof rc' = Some p
     \<and> (rc_entry_results rc = sd_entry_results r \<or> result_collision cy (rc_entry_results rc) (sd_entry_results r))"
proof -
  note rp = receiver_proof_fields [OF assms(1,2)]
  have c: "q = p" "dp_identity p = sd_identity r" "dp_manifest_digest p = sd_manifest_digest r"
      "result_set_digest cy (sd_entry_results r) = Inr (dp_result_set_digest p)"
      "r' = r\<lparr>sd_delivery_proof := Some p, sd_phase := Delivered\<rparr>"
    using assms(4,5) rp by (auto simp: sender_confirm_delivery_def Let_def split: prod.splits sum.splits option.splits)
  with rp show ?thesis
    using result_set_digest_inj [of cy "rc_entry_results rc" "dp_result_set_digest p" "sd_entry_results r"] assms(6)
    by auto
qed

theorem delivery_agreement_witness:
  "rc_identity sample_receiver = sd_identity sample_sender
     \<and> (rc_entry_results sample_receiver = sd_entry_results sample_sender
       \<or> result_collision sample_crypto (rc_entry_results sample_receiver) (sd_entry_results sample_sender))"
proof -
  obtain d d' where "receiver_send_proof sample_crypto (\<lambda>x. Some []) (Some (replicate 32 9)) Save_Done True sample_receiver Map.empty
      = (Inr sample_proof, sample_receiver\<lparr>rc_delivery_proof := Some sample_proof\<rparr>, d, [F_DeliveryProof sample_proof])"
    and "sender_confirm_delivery sample_crypto (\<lambda>x. Some []) Save_Done (Some (F_DeliveryProof sample_proof)) sample_sender Map.empty
      = (Inr sample_proof, sample_sender\<lparr>sd_delivery_proof := Some sample_proof, sd_phase := Delivered\<rparr>, d')"
    using sample_delivery by blast
  from delivery_agreement [OF sample_records_valid(1) this(1) sample_records_valid(2) sample_fields(5) this(2)] show ?thesis
    using saved_result_wf by (simp add: sample_fields)
qed

text \<open>
  C35: an honest delivery completes. When both records are valid and hold the same job, manifest,
  results and capability, and the saves succeed, the receiver sends a proof that the sender confirms.
  Afterwards the receiver sends the same proof again whenever it is asked, whatever happens to the
  store, and the sender answers a repeated proof with success and any other one with
  \<open>InvalidProof\<close>, changing nothing.
\<close>

theorem honest_delivery_confirmed:
  assumes "receiver_validate cy rc = Inr ()" and "rc_delivery_proof rc = None"
    and "sender_validate cy r = Inr ()" and "sd_phase r = WaitingForReceiverSave"
    and "rc_identity rc = sd_identity r" and "rc_manifest_digest rc = sd_manifest_digest r"
    and "rc_entry_results rc = sd_entry_results r" and "sender_proof_capability r = Some (rc_proof_capability rc)"
    and "\<forall>x. to_vec x \<noteq> None" and "\<forall>x. to_vec' x \<noteq> None"
  shows "\<exists>p rc' r' disk2 disk4.
     receiver_send_proof cy to_vec (Some n) Save_Done True rc disk = (Inr p, rc', disk2, [F_DeliveryProof p])
     \<and> sender_confirm_delivery cy to_vec' Save_Done (Some (F_DeliveryProof p)) r files = (Inr p, r', disk4)
     \<and> sd_phase r' = Delivered
     \<and> (\<forall>m io any. receiver_send_proof cy to_vec m io True rc' any = (Inr p, rc', any, [F_DeliveryProof p]))
     \<and> (\<forall>io q any. sender_confirm_delivery cy to_vec' io (Some (F_DeliveryProof q)) r' any
          = (if q = p then Inr p else Inl InvalidProof, r', any))"
proof -
  let ?p = "build_delivery_proof cy (rc_identity rc) (rc_manifest_digest rc) (rc_result_set_digest rc) n (rc_proof_capability rc)"
  have d: "result_set_digest cy (sd_entry_results r) = Inr (rc_result_set_digest rc)"
    using assms(1,7) by (simp add: receiver_validate_iff)
  obtain disk2 where 1: "receiver_send_proof cy to_vec (Some n) Save_Done True rc disk
     = (Inr ?p, rc\<lparr>rc_delivery_proof := Some ?p\<rparr>, disk2, [F_DeliveryProof ?p])"
    using receiver_sends [OF assms(1,2,9) refl] by blast
  obtain disk4 where 2: "sender_confirm_delivery cy to_vec' Save_Done (Some (F_DeliveryProof ?p)) r files
     = (Inr ?p, r\<lparr>sd_delivery_proof := Some ?p, sd_phase := Delivered\<rparr>, disk4)"
    using sender_confirms [OF assms(3,4,10,8) d refl, where n = n and disk = files] unfolding assms(5,6) by blast
  have 3: "receiver_send_proof cy to_vec m io True (rc\<lparr>rc_delivery_proof := Some ?p\<rparr>) any
      = (Inr ?p, rc\<lparr>rc_delivery_proof := Some ?p\<rparr>, any, [F_DeliveryProof ?p])" for m io any
    by (simp add: receiver_send_proof_def Let_def)
  have 4: "sender_confirm_delivery cy to_vec' io (Some (F_DeliveryProof q)) (r\<lparr>sd_delivery_proof := Some ?p, sd_phase := Delivered\<rparr>) any
      = (if q = ?p then Inr ?p else Inl InvalidProof, r\<lparr>sd_delivery_proof := Some ?p, sd_phase := Delivered\<rparr>, any)" for io q any
    by (auto simp: sender_confirm_delivery_def)
  show ?thesis
    using 1 2 3 4 by fastforce
qed

theorem honest_delivery_confirmed_witness:
  "\<exists>p rc' disk2 r' disk4.
     receiver_send_proof sample_crypto (\<lambda>x. Some []) (Some (replicate 32 9)) Save_Done True sample_receiver Map.empty
       = (Inr p, rc', disk2, [F_DeliveryProof p])
     \<and> sender_confirm_delivery sample_crypto (\<lambda>x. Some []) Save_Done (Some (F_DeliveryProof p)) sample_sender Map.empty
       = (Inr p, r', disk4)"
proof -
  have "sender_proof_capability sample_sender = Some (rc_proof_capability sample_receiver)"
    by (simp add: sample_fields)
  from honest_delivery_confirmed [OF sample_records_valid(1) sample_fields(4) sample_records_valid(2) sample_fields(5) _ _ _ this,
      where to_vec = "\<lambda>x. Some []" and to_vec' = "\<lambda>x. Some []" and disk = Map.empty and n = "replicate 32 9" and files = Map.empty]
  show ?thesis by (simp add: sample_fields) blast
qed

definition sample_offer :: ManifestOfferV2 where
  "sample_offer = \<lparr>of_structural_digest = replicate 32 3, of_manifest = sample_manifest\<rparr>"

text \<open>A whole run: the accept is committed, then the results, then the receiver's proof.\<close>

definition sample_summary :: SenderDataPlaneSummaryV2 where
  "sample_summary = \<lparr>ss_identity = sample_identity, ss_accept_body_digest = replicate 32 5,
     ss_sender_completion_set_digest = replicate 32 6, ss_entry_results = [saved_result]\<rparr>"

theorem sender_record_invariant_witness:
  "\<exists>r'. sender_run sample_crypto [Call_Accept sample_accept (replicate 32 5), Call_Results sample_summary,
       Call_Confirm (Some (F_DeliveryProof sample_proof))] (sender_new sample_offer) r'
     \<and> sd_phase r' = Delivered \<and> sender_forward (sender_new sample_offer) r' \<and> sender_validate sample_crypto r' = Inr ()"
proof -
  let ?r0 = "sender_new sample_offer"
  let ?r1 = "?r0\<lparr>sd_accept := Some sample_accept, sd_accept_body_digest := Some (replicate 32 5), sd_phase := Transferring\<rparr>"
  let ?r2 = "?r1\<lparr>sd_entry_results := [saved_result], sd_sender_completion_set_digest := Some (replicate 32 6),
    sd_phase := WaitingForReceiverSave\<rparr>"
  let ?r3 = "?r2\<lparr>sd_delivery_proof := Some sample_proof, sd_phase := Delivered\<rparr>"
  let ?calls = "[Call_Accept sample_accept (replicate 32 5), Call_Results sample_summary,
    Call_Confirm (Some (F_DeliveryProof sample_proof))]"
  have r0: "sd_identity ?r0 = sample_identity" "sd_manifest_digest ?r0 = replicate 32 3" "sd_phase ?r0 = Offering"
    "sd_accept ?r0 = None" "sd_accept_body_digest ?r0 = None" "sd_entry_results ?r0 = []"
    "sd_sender_completion_set_digest ?r0 = None"
    by (simp_all add: sender_new_def sample_offer_def sample_manifest_def sample_identity_def offer_identity_def)
  have entries: "mf_entries (of_manifest sample_offer) \<noteq> []"
    by (simp add: sample_offer_def sample_manifest_def)
  have sound: "\<forall>call \<in> set ?calls. sound_call call"
    by (simp add: sound_call_def sample_summary_def results_positional_def saved_result_def sample_result_def)
  have 1: "commit_accept sample_accept (replicate 32 5) ?r0 = (Inr (), ?r1)"
    by (simp add: commit_accept_def sample_accept_def r0)
  have 2: "commit_results sample_summary ?r1 = (Inr (), ?r2)"
    by (simp add: commit_results_def sample_summary_def r0)
  have "sender_validate sample_crypto ?r2 = Inr ()"
    using sender_step_valid [OF sender_step.results [OF 2]] sender_step_valid [OF sender_step.accepts [OF 1]]
      sound sender_new_valid [OF entries] by simp
  then obtain d where 3: "sender_confirm_delivery sample_crypto (\<lambda>x. Some []) Save_Done (Some (F_DeliveryProof sample_proof))
      ?r2 Map.empty = (Inr sample_proof, ?r3, d)"
    using sender_confirms [of sample_crypto ?r2 "\<lambda>x. Some []" "replicate 32 4" "replicate 32 1" sample_proof "replicate 32 9" Map.empty]
      saved_result_digest by (auto simp: r0 sender_proof_capability_def sample_accept_def sample_proof_def)
  have run: "sender_run sample_crypto ?calls ?r0 ?r3"
    using sender_step.accepts [OF 1] sender_step.results [OF 2] sender_step.confirms [OF 3] sender_run.stays
    by (blast intro: sender_run.calls)
  show ?thesis
    using run sender_record_invariant [OF entries sender_run.stays run] sound by (intro exI [of _ ?r3]) simp
qed

end
