(* ===== verification/Delivery_Store_Properties.thy ===== *)
theory Delivery_Store_Properties
  imports Delivery_Properties
begin

text \<open>
  The delivery stores: file names are one to one, a saved record is read back, other records are not
  touched, and what a failed save of a proof leads to.
\<close>

section \<open>File names\<close>

lemma encode_job_id_inj:
  "encode_job_id a = encode_job_id b \<Longrightarrow> a = b"
proof (induction a arbitrary: b)
  case Nil
  then show ?case by (cases b) (simp_all add: encode_job_id_def)
next
  case (Cons x a)
  then obtain y b' where b: "b = y # b'" by (cases b) (auto simp: encode_job_id_def)
  have "unat x < 256" "unat y < 256"
    using unat_bound [of x] unat_bound [of y] by simp_all
  then have d: "unat x div 16 < 16" "unat y div 16 < 16" by auto
  from Cons.prems b have h: "hex_digit (unat x div 16) = hex_digit (unat y div 16)" "hex_digit (unat x mod 16) = hex_digit (unat y mod 16)"
    and "encode_job_id a = encode_job_id b'"
    by (simp_all add: encode_job_id_def)
  have "unat x div 16 = unat y div 16"
    using arg_cong [OF h(1), where f = to_digit16] to_digit16_lower [OF d(1)] to_digit16_lower [OF d(2)] by simp
  moreover have "unat x mod 16 = unat y mod 16"
    using arg_cong [OF h(2), where f = to_digit16] to_digit16_lower [of "unat x mod 16"] to_digit16_lower [of "unat y mod 16"]
    by simp
  ultimately have "unat x = unat y"
    by (metis div_mult_mod_eq)
  with Cons.IH [OF \<open>encode_job_id a = encode_job_id b'\<close>] b show ?case by (simp add: unsigned_word_eqI)
qed

lemma length_encode_job_id [simp]: "length (encode_job_id a) = 2 * length a"
  by (induction a) (simp_all add: encode_job_id_def)

lemma store_path_inj:
  assumes "store_path pre a = store_path pre b" and "length (jg_job_id a) = length (jg_job_id b)"
  shows "a = b"
proof -
  have j: "encode_job_id (jg_job_id a) = encode_job_id (jg_job_id b)"
    and "decimal (unat (jg_generation a)) = decimal (unat (jg_generation b))"
    using assms by (simp_all add: store_path_def append_eq_append_conv ascii_def)
  then have "unat (jg_generation a) = unat (jg_generation b)"
    by (metis decimal_value_decimal)
  with encode_job_id_inj [OF j] show ?thesis
    by (cases a, cases b) (simp add: unsigned_word_eqI)
qed

lemma store_path_prefixes [simp]:
  "store_path SENDER_PREFIX a \<noteq> store_path RECEIVER_PREFIX b" "store_path RECEIVER_PREFIX b \<noteq> store_path SENDER_PREFIX a"
  by (simp_all add: store_path_def SENDER_PREFIX_def RECEIVER_PREFIX_def ascii_def of_char_def)

section \<open>Records are read back\<close>

lemma store_save_path:
  assumes "store_save check ident pre to_vec io r disk = (res, disk')" and "path \<noteq> store_path pre (ident r)"
  shows "disk' path = disk path"
  using assms by (auto simp: store_save_def split: sum.splits SaveIo.splits)

lemma store_load_saved:
  assumes "store_save check ident pre to_vec io r disk = (Inr (), disk')"
    and "\<forall>x bs. to_vec x = Some bs \<longrightarrow> from_slice bs = Some x"
  shows "store_load check ident pre from_slice True (ident r) disk' = Inr (Some r)"
  using assms by (auto simp: store_save_def store_load_def split: sum.splits SaveIo.splits)

text \<open>
  What a store saves it reads back, and nothing else changes. After a successful save of a
  sender's record a load of its job and generation returns exactly that record; a save, successful
  or not, leaves the loads of every other job or generation and every receiver record as they were.
  The file names are one to one: 32 hexadecimal digits and a decimal generation.
\<close>

theorem delivery_store_roundtrip:
  assumes "sender_save cy to_vec io r disk = (res, disk')"
    and "\<forall>x bs. to_vec x = Some bs \<longrightarrow> from_slice bs = Some x"
    and "length (jg_job_id (sd_identity r)) = 16"
  shows "(res = Inr () \<longrightarrow> sender_load cy from_slice True (sd_identity r) disk' = Inr (Some r))
     \<and> (\<forall>other. length (jg_job_id other) = 16 \<and> other \<noteq> sd_identity r
          \<longrightarrow> sender_load cy from_slice True other disk' = sender_load cy from_slice True other disk)
     \<and> (\<forall>other from_slice'. receiver_load cy from_slice' True other disk' = receiver_load cy from_slice' True other disk)"
proof -
  have same: "disk' path = disk path" if "path \<noteq> store_path SENDER_PREFIX (sd_identity r)" for path
    using assms(1) that unfolding sender_save_def by (rule store_save_path)
  have "sender_load cy from_slice True (sd_identity r) disk' = Inr (Some r)" if "res = Inr ()"
    using assms(1,2) that unfolding sender_save_def sender_load_def by (blast intro: store_load_saved)
  moreover have "store_path SENDER_PREFIX other \<noteq> store_path SENDER_PREFIX (sd_identity r)"
    if "length (jg_job_id other) = 16" "other \<noteq> sd_identity r" for other
    using store_path_inj [of SENDER_PREFIX other "sd_identity r"] that assms(3) by auto
  ultimately show ?thesis
    by (simp add: sender_load_def receiver_load_def store_load_def same)
qed

text \<open>A serializer for the witness, which keeps one record.\<close>

definition sample_to_vec :: "SenderDeliveryRecordV2 \<Rightarrow> bytes option" where
  "sample_to_vec r = (if r = sample_sender then Some [1] else None)"

definition sample_from_slice :: "bytes \<Rightarrow> SenderDeliveryRecordV2 option" where
  "sample_from_slice bs = Some sample_sender"

theorem delivery_store_roundtrip_witness:
  "\<exists>disk'. sender_save sample_crypto sample_to_vec Save_Done sample_sender Map.empty = (Inr (), disk')
     \<and> sender_load sample_crypto sample_from_slice True sample_identity disk' = Inr (Some sample_sender)"
proof -
  obtain disk' where s: "sender_save sample_crypto sample_to_vec Save_Done sample_sender Map.empty = (Inr (), disk')"
    using sample_records_valid(2) by (simp add: sender_save_def store_save_def sample_to_vec_def)
  have "\<forall>x bs. sample_to_vec x = Some bs \<longrightarrow> sample_from_slice bs = Some x" "length (jg_job_id (sd_identity sample_sender)) = 16"
    by (auto simp: sample_to_vec_def sample_from_slice_def sample_fields sample_identity_def)
  from delivery_store_roundtrip [OF s this] s show ?thesis
    by (auto simp: sample_fields)
qed

section \<open>A proof that was not saved\<close>

text \<open>
  After a failed save the receiver's record in memory keeps the new proof, so a second
  call sends it although the store never held it. A record loaded afterwards has no proof, a new one
  is drawn for it, and a sender that confirmed the first proof refuses it with \<open>InvalidProof\<close>.
\<close>

theorem proof_sent_unsaved:
  assumes "receiver_validate cy rc = Inr ()" and "rc_delivery_proof rc = None"
    and "n \<noteq> n'" and "\<forall>x. to_vec x \<noteq> None" and "sd_phase r = Delivered"
  shows "\<exists>p q rc' disk'.
     receiver_send_proof cy to_vec (Some n) Save_Failed True rc disk = (Inl DeliveryIo, rc', disk, [])
     \<and> receiver_send_proof cy to_vec m io True rc' disk = (Inr p, rc', disk, [F_DeliveryProof p])
     \<and> receiver_send_proof cy to_vec (Some n') Save_Done True rc disk
         = (Inr q, rc\<lparr>rc_delivery_proof := Some q\<rparr>, disk', [F_DeliveryProof q])
     \<and> (sd_delivery_proof r = Some p
         \<longrightarrow> sender_confirm_delivery cy to_vec' io' (Some (F_DeliveryProof q)) r files = (Inl InvalidProof, r, files))"
proof -
  let ?proof = "\<lambda>n. build_delivery_proof cy (rc_identity rc) (rc_manifest_digest rc) (rc_result_set_digest rc) n (rc_proof_capability rc)"
  let ?rc = "rc\<lparr>rc_delivery_proof := Some (?proof n)\<rparr>"
  have v: "receiver_validate cy ?rc = Inr ()"
    using assms(1) by (simp add: receiver_validate_iff build_delivery_proof_def)
  obtain bs where "to_vec ?rc = Some bs"
    using assms(4) by blast
  with v assms(2) have "receiver_send_proof cy to_vec (Some n) Save_Failed True rc disk = (Inl DeliveryIo, ?rc, disk, [])"
    by (simp add: receiver_send_proof_def Let_def receiver_save_def store_save_def)
  moreover have "receiver_send_proof cy to_vec m io True ?rc disk = (Inr (?proof n), ?rc, disk, [F_DeliveryProof (?proof n)])"
    by (simp add: receiver_send_proof_def Let_def)
  moreover obtain disk' where "receiver_send_proof cy to_vec (Some n') Save_Done True rc disk
      = (Inr (?proof n'), rc\<lparr>rc_delivery_proof := Some (?proof n')\<rparr>, disk', [F_DeliveryProof (?proof n')])"
    using receiver_sends [OF assms(1,2,4) refl] by blast
  moreover have "?proof n \<noteq> ?proof n'"
    using assms(3) by (simp add: build_delivery_proof_def)
  ultimately show ?thesis
    using assms(5) by (intro exI [of _ "?proof n"] exI [of _ "?proof n'"] exI [of _ ?rc] exI [of _ disk'])
      (simp add: sender_confirm_delivery_def)
qed

theorem proof_sent_unsaved_witness:
  "\<exists>p rc'. receiver_send_proof sample_crypto (\<lambda>x. Some []) (Some (replicate 32 9)) Save_Failed True sample_receiver Map.empty
       = (Inl DeliveryIo, rc', Map.empty, [])
     \<and> receiver_send_proof sample_crypto (\<lambda>x. Some []) None Save_Failed True rc' Map.empty
       = (Inr p, rc', Map.empty, [F_DeliveryProof p])"
proof -
  have "replicate 32 9 \<noteq> (replicate 32 8 :: bytes)" by simp
  from proof_sent_unsaved [OF sample_records_valid(1) sample_fields(4) this, where to_vec = "\<lambda>x. Some []"
      and disk = Map.empty and m = None and io = Save_Failed and r = "sample_sender\<lparr>sd_phase := Delivered\<rparr>"]
  show ?thesis by simp blast
qed

end
