(* ===== verification/Room_Invite.thy ===== *)
theory Room_Invite
  imports Rust_Text
begin

text \<open>
  Room codes (\<open>RoomCode\<close> of \<open>crates/envoix-invite/src/lib.rs\<close>) and room control invitations
  (\<open>RoomControlInvite\<close> of \<open>crates/envoix-session/src/room_control.rs\<close>): generation, parsing, the link
  form and its percent encoding. The texts of errors are constructors. A draw of randomness is an
  element of a list, \<open>None\<close> a failed one; the clock is an argument, \<open>None\<close> before the Unix epoch.
\<close>

section \<open>Room codes\<close>

datatype InvitationError = Malformed_not_ascii | Malformed_form | Malformed_characters | Random_failed

definition INVITE_ROOM_ID_LEN :: nat where
  "INVITE_ROOM_ID_LEN = 6"

definition ROOM_SECRET_LEN :: nat where
  "ROOM_SECRET_LEN = 8"

definition sample_accepted :: "u8 \<Rightarrow> u8" where
  "sample_accepted upper = 255 - 255 mod upper"

text \<open>Go on with a result that needed randomness; \<open>None\<close> when the draws ran out.\<close>

definition bindD :: "('e + 'a) option \<Rightarrow> ('a \<Rightarrow> ('e + 'b) option) \<Rightarrow> ('e + 'b) option" where
  "bindD r f = (case r of None \<Rightarrow> None | Some (Inl e) \<Rightarrow> Some (Inl e) | Some (Inr x) \<Rightarrow> f x)"

lemma bindD_Inr_iff [simp]: "bindD r f = Some (Inr y) \<longleftrightarrow> (\<exists>x. r = Some (Inr x) \<and> f x = Some (Inr y))"
  by (auto simp: bindD_def split: option.splits sum.splits)

text \<open>Draws until one is accepted.\<close>

fun sample_below :: "u8 \<Rightarrow> u8 option list \<Rightarrow> (InvitationError + u8 \<times> u8 option list) option" where
  "sample_below upper [] = None"
| "sample_below upper (None # draws) = Some (Inl Random_failed)"
| "sample_below upper (Some byte # draws) =
     (if byte < sample_accepted upper then Some (Inr (byte mod upper, draws)) else sample_below upper draws)"

fun sample_many :: "nat \<Rightarrow> u8 \<Rightarrow> u8 option list \<Rightarrow> (InvitationError + u8 list \<times> u8 option list) option" where
  "sample_many 0 upper draws = Some (Inr ([], draws))"
| "sample_many (Suc n) upper draws =
     bindD (sample_below upper draws) (\<lambda>(v, draws').
     bindD (sample_many n upper draws') (\<lambda>(vs, draws'').
     Some (Inr (v # vs, draws''))))"

definition base36_char :: "u8 \<Rightarrow> u8" where
  "base36_char value = (if value \<le> 9 then 0x30 + value else 0x61 + value - 10)"

definition room_code_format :: "str \<Rightarrow> str" where
  "room_code_format compact = take 6 compact @ ascii ''-'' @ take 4 (drop 6 compact) @ ascii ''-'' @ take 4 (drop 10 compact)"

definition room_code_generate :: "u8 option list \<Rightarrow> (InvitationError + str \<times> u8 option list) option" where
  "room_code_generate draws =
     bindD (sample_many (INVITE_ROOM_ID_LEN div 2) 100 draws) (\<lambda>(pairs, draws').
     bindD (sample_many ROOM_SECRET_LEN 36 draws') (\<lambda>(values, draws'').
     let room_id = concat (map (\<lambda>value. [0x30 + value div 10, 0x30 + value mod 10]) pairs);
         secret = map base36_char values in
     Some (Inr (room_id @ ascii ''-'' @ take 4 secret @ ascii ''-'' @ drop 4 secret, draws''))))"

definition room_code_compact :: "str \<Rightarrow> InvitationError + str" where
  "room_code_compact input =
     (if length input = 14 \<and> 0x2D \<notin> set input then Inr (map to_ascii_lowercase input)
      else if length input = 16 \<and> input ! 6 = 0x2D \<and> input ! 11 = 0x2D
        then Inr (map to_ascii_lowercase (take 6 input @ take 4 (drop 7 input) @ take 4 (drop 12 input)))
      else Inl Malformed_form)"

definition room_code_parse :: "str \<Rightarrow> InvitationError + str" where
  "room_code_parse input =
     bindR (rejectR (\<not> list_all (\<lambda>b. b < 0x80) input) Malformed_not_ascii) (\<lambda>_.
     bindR (room_code_compact input) (\<lambda>compact.
     bindR (rejectR (length compact \<noteq> INVITE_ROOM_ID_LEN + ROOM_SECRET_LEN
         \<or> \<not> list_all is_ascii_digit (take INVITE_ROOM_ID_LEN compact)
         \<or> \<not> list_all (\<lambda>b. is_ascii_digit b \<or> is_ascii_lowercase b) (drop INVITE_ROOM_ID_LEN compact))
       Malformed_characters) (\<lambda>_.
     Inr (room_code_format compact))))"

definition room_code_room_id :: "str \<Rightarrow> str" where
  "room_code_room_id code = take INVITE_ROOM_ID_LEN code"

section \<open>Percent encoding\<close>

datatype RoomInputError =
    Legacy_room_code | Bad_room_code InvitationError | Invitation_needs_broker | Invalid_expiry
  | Truncated_escape | Invalid_escape | Invitation_not_utf8 | Invitation_expired | Clock_before_epoch

definition unreserved :: "u8 \<Rightarrow> bool" where
  "unreserved byte \<longleftrightarrow> is_ascii_alphanumeric byte \<or> byte = 0x2D \<or> byte = 0x2E \<or> byte = 0x5F \<or> byte = 0x7E"

definition percent_encode :: "str \<Rightarrow> str" where
  "percent_encode value =
     concat (map (\<lambda>byte. if unreserved byte then [byte]
       else [0x25, hex_digit_upper (unat byte div 16), hex_digit_upper (unat byte mod 16)]) value)"

fun percent_decode_bytes :: "bytes \<Rightarrow> RoomInputError + bytes" where
  "percent_decode_bytes [] = Inr []"
| "percent_decode_bytes (b # bs) =
     (if b = 0x25
      then (case bs of
              x # y # rest \<Rightarrow>
                bindR (ok_or (from_utf8 [x, y]) Invalid_escape) (\<lambda>_.
                bindR (ok_or (from_hex2 x y) Invalid_escape) (\<lambda>v.
                bindR (percent_decode_bytes rest) (\<lambda>output. Inr (v # output))))
            | _ \<Rightarrow> Inl Truncated_escape)
      else bindR (percent_decode_bytes bs) (\<lambda>output. Inr (b # output)))"

definition percent_decode :: "str \<Rightarrow> RoomInputError + str" where
  "percent_decode value =
     bindR (percent_decode_bytes value) (\<lambda>output. ok_or (from_utf8 output) Invitation_not_utf8)"

section \<open>Room control invitations\<close>

definition ROOM_URI_PREFIX :: str where
  "ROOM_URI_PREFIX = ascii ''envoix://room/''"

definition ROOM_INVITE_TTL :: u64 where
  "ROOM_INVITE_TTL = 300"

record RoomControlInvite =
  ri_code :: str
  ri_broker :: str
  ri_relay :: "str option"
  ri_expires_at_unix_secs :: u64

definition saturating_add :: "u64 \<Rightarrow> u64 \<Rightarrow> u64" where
  "saturating_add a b = (case checked_add a b of Some c \<Rightarrow> c | None \<Rightarrow> - 1)"

definition normalize_room_code :: "str \<Rightarrow> RoomInputError + str" where
  "normalize_room_code code =
     (let code = trim code in
      if code \<noteq> [] \<and> (hd code = 0x52 \<or> hd code = 0x72) then Inl Legacy_room_code
      else map_err Bad_room_code (room_code_parse code))"

text \<open>\<open>relay.map(trim).filter(|value| !value.is_empty())\<close>\<close>

definition trim_relay :: "str option \<Rightarrow> str option" where
  "trim_relay relay = (case relay of None \<Rightarrow> None | Some value \<Rightarrow> if trim value = [] then None else Some (trim value))"

definition invite_from_parts :: "str \<Rightarrow> str \<Rightarrow> str option \<Rightarrow> u64 \<Rightarrow> RoomInputError + RoomControlInvite" where
  "invite_from_parts code broker relay expires =
     bindR (normalize_room_code code) (\<lambda>code.
     bindR (rejectR (trim broker = []) Invitation_needs_broker) (\<lambda>_.
     Inr \<lparr>ri_code = code, ri_broker = trim broker, ri_relay = trim_relay relay, ri_expires_at_unix_secs = expires\<rparr>))"

definition invite_generate ::
  "u64 option \<Rightarrow> u8 option list \<Rightarrow> str \<Rightarrow> str option \<Rightarrow> (RoomInputError + RoomControlInvite) option" where
  "invite_generate now draws broker relay =
     bindD (map_option (map_err Bad_room_code) (room_code_generate draws)) (\<lambda>(code, _).
     Some (bindR (ok_or now Clock_before_epoch) (\<lambda>secs.
       invite_from_parts code broker relay (saturating_add secs ROOM_INVITE_TTL))))"

record QueryFields =
  qf_broker :: "str option"
  qf_relay :: "str option"
  qf_expires :: "u64 option"

definition invite_field :: "str \<Rightarrow> QueryFields \<Rightarrow> RoomInputError + QueryFields" where
  "invite_field field q =
     (let (key, value) = (case split_once 0x3D field of Some kv \<Rightarrow> kv | None \<Rightarrow> (field, [])) in
      if key = ascii ''broker'' then bindR (percent_decode value) (\<lambda>v. Inr (q\<lparr>qf_broker := Some v\<rparr>))
      else if key = ascii ''relay'' then bindR (percent_decode value) (\<lambda>v. Inr (q\<lparr>qf_relay := Some v\<rparr>))
      else if key = ascii ''expires'' then
        bindR (percent_decode value) (\<lambda>v.
        bindR (ok_or (parse_u64 v) Invalid_expiry) (\<lambda>secs. Inr (q\<lparr>qf_expires := Some secs\<rparr>)))
      else Inr q)"

fun invite_fields :: "str list \<Rightarrow> QueryFields \<Rightarrow> RoomInputError + QueryFields" where
  "invite_fields [] q = Inr q"
| "invite_fields (f # fs) q = bindR (invite_field f q) (invite_fields fs)"

definition invite_parse :: "u64 option \<Rightarrow> str \<Rightarrow> str \<Rightarrow> str option \<Rightarrow> RoomInputError + RoomControlInvite" where
  "invite_parse now input fallback_broker fallback_relay =
     (let input = trim input in
      case strip_prefix ROOM_URI_PREFIX input of
        Some rest \<Rightarrow>
          let (encoded_code, query) = (case split_once 0x3F rest of Some cq \<Rightarrow> cq | None \<Rightarrow> (rest, [])) in
          bindR (percent_decode encoded_code) (\<lambda>code.
          bindR (invite_fields (filter (\<lambda>field. field \<noteq> []) (split_at 0x26 query))
            \<lparr>qf_broker = None, qf_relay = None, qf_expires = None\<rparr>) (\<lambda>q.
          invite_from_parts code
            (case qf_broker q of Some broker \<Rightarrow> broker | None \<Rightarrow> fallback_broker)
            (case qf_relay q of Some relay \<Rightarrow> Some relay | None \<Rightarrow> fallback_relay)
            (case qf_expires q of
               Some secs \<Rightarrow> secs
             | None \<Rightarrow> saturating_add (case now of Some secs \<Rightarrow> secs | None \<Rightarrow> 0) ROOM_INVITE_TTL)))
      | None \<Rightarrow>
          bindR (ok_or now Clock_before_epoch) (\<lambda>secs.
          invite_from_parts input fallback_broker fallback_relay (saturating_add secs ROOM_INVITE_TTL)))"

definition invite_payload :: "RoomControlInvite \<Rightarrow> str" where
  "invite_payload invite =
     ROOM_URI_PREFIX @ percent_encode (ri_code invite) @ ascii ''?broker='' @ percent_encode (ri_broker invite)
     @ (case ri_relay invite of None \<Rightarrow> [] | Some relay \<Rightarrow> ascii ''&relay='' @ percent_encode relay)
     @ ascii ''&expires='' @ decimal (unat (ri_expires_at_unix_secs invite))"

definition invite_room_id :: "str \<Rightarrow> RoomControlInvite \<Rightarrow> str" where
  "invite_room_id locator_prefix invite = locator_prefix @ room_code_room_id (ri_code invite)"

definition ensure_fresh :: "u64 option \<Rightarrow> RoomControlInvite \<Rightarrow> RoomInputError + unit" where
  "ensure_fresh now invite =
     bindR (ok_or now Clock_before_epoch) (\<lambda>secs.
     rejectR (ri_expires_at_unix_secs invite \<le> secs) Invitation_expired)"

end
