(* ===== verification/Room_Invite_Properties.thy ===== *)
theory Room_Invite_Properties
  imports Room_Invite
begin

text \<open>
  Room codes are canonical and drawn uniformly; an invitation's link is read back.
\<close>

section \<open>Room codes\<close>

lemma lowercase_idem [simp]: "to_ascii_lowercase (to_ascii_lowercase b) = to_ascii_lowercase b"
  by (auto simp: to_ascii_lowercase_def word_le_nat_alt unat_word_ariths)

text \<open>The compact forms a room code is made of.\<close>

definition compact_ok :: "str \<Rightarrow> bool" where
  "compact_ok c \<longleftrightarrow> length c = 14 \<and> list_all is_ascii_digit (take 6 c)
     \<and> list_all (\<lambda>b. is_ascii_digit b \<or> is_ascii_lowercase b) (drop 6 c)"

lemma compact_ok_bytes:
  assumes "compact_ok c" and "b \<in> set c"
  shows "is_ascii_digit b \<or> is_ascii_lowercase b"
  using assms append_take_drop_id [of 6 c] by (metis (mono_tags, lifting) Un_iff compact_ok_def list_all_iff set_append)

lemma code_byte:
  "is_ascii_digit b \<or> is_ascii_lowercase b \<Longrightarrow>
     to_ascii_lowercase b = b \<and> b < 0x80 \<and> b \<noteq> 0x2D \<and> unreserved b \<and> printable b \<and> b \<noteq> 0x52"
  by (auto simp: is_ascii_digit_def is_ascii_lowercase_def to_ascii_lowercase_def unreserved_def
      is_ascii_alphanumeric_def printable_def word_le_nat_alt word_less_nat_alt)

lemma room_code_parse_iff:
  "room_code_parse s = Inr code \<longleftrightarrow>
     (\<exists>c. list_all (\<lambda>b. b < 0x80) s \<and> room_code_compact s = Inr c \<and> compact_ok c \<and> code = room_code_format c)"
  by (auto simp: room_code_parse_def compact_ok_def INVITE_ROOM_ID_LEN_def ROOM_SECRET_LEN_def)

lemma format_parts:
  assumes "compact_ok c"
  shows "length (room_code_format c) = 16" "room_code_format c ! 6 = 0x2D" "room_code_format c ! 11 = 0x2D"
    "take 6 (room_code_format c) @ take 4 (drop 7 (room_code_format c)) @ take 4 (drop 12 (room_code_format c)) = c"
proof -
  obtain x y z where c: "c = x @ y @ z" "length x = 6" "length y = 4" "length z = 4"
  proof
    show "c = take 6 c @ take 4 (drop 6 c) @ drop 10 c"
    proof -
      have "drop 10 c = drop 4 (drop 6 c)" by simp
      then show ?thesis by (simp only: append_take_drop_id)
    qed
  qed (use assms in \<open>auto simp: compact_ok_def\<close>)
  then have "room_code_format c = x @ 0x2D # y @ 0x2D # z"
    by (simp add: room_code_format_def ascii_def of_char_def)
  with c show "length (room_code_format c) = 16" "room_code_format c ! 6 = 0x2D" "room_code_format c ! 11 = 0x2D"
    "take 6 (room_code_format c) @ take 4 (drop 7 (room_code_format c)) @ take 4 (drop 12 (room_code_format c)) = c"
    by (simp_all add: nth_append nth_Cons')
qed

lemma set_format: "set (room_code_format c) \<subseteq> insert 0x2D (set c)"
  by (auto simp: room_code_format_def ascii_def of_char_def dest: in_set_takeD in_set_dropD)

lemma parse_format:
  assumes "compact_ok c"
  shows "room_code_parse (room_code_format c) = Inr (room_code_format c)"
proof -
  have "map to_ascii_lowercase c = c"
    using assms compact_ok_bytes code_byte by (intro map_idI) blast
  then have "room_code_compact (room_code_format c) = Inr c"
    using format_parts [OF assms] by (simp add: room_code_compact_def)
  moreover have "list_all (\<lambda>b. b < 0x80) (room_code_format c)"
    using set_format [of c] compact_ok_bytes [OF assms] code_byte by (auto simp: list_all_iff)
  ultimately show ?thesis
    using assms by (auto simp: room_code_parse_iff)
qed

lemma parse_idem: "room_code_parse s = Inr code \<Longrightarrow> room_code_parse code = Inr code"
  using parse_format by (auto simp: room_code_parse_iff)

section \<open>Sampling\<close>

lemma sample_below_range:
  "sample_below upper draws = Some (Inr (v, rest)) \<Longrightarrow> 0 < upper \<Longrightarrow> v < upper"
  by (induction upper draws rule: sample_below.induct) (auto split: if_splits simp: word_mod_less_divisor)

lemma sample_many_range:
  "sample_many n upper draws = Some (Inr (vs, rest)) \<Longrightarrow> 0 < upper \<Longrightarrow> length vs = n \<and> (\<forall>v \<in> set vs. v < upper)"
proof (induction n arbitrary: draws vs)
  case (Suc n)
  then show ?case
    by (auto dest: sample_below_range)
qed simp

lemma digit_pair:
  "(v :: u8) < 100 \<Longrightarrow> is_ascii_digit (0x30 + v div 10) \<and> is_ascii_digit (0x30 + v mod 10)"
  by (auto simp: is_ascii_digit_def word_le_nat_alt word_less_nat_alt unat_word_ariths unat_div_distrib unat_mod_distrib)

lemma base36_char_ok: "v < 36 \<Longrightarrow> is_ascii_digit (base36_char v) \<or> is_ascii_lowercase (base36_char v)"
  by (auto simp: base36_char_def is_ascii_digit_def is_ascii_lowercase_def word_le_nat_alt word_less_nat_alt unat_word_ariths)

lemma generated_code:
  assumes "room_code_generate draws = Some (Inr (code, rest))"
  shows "\<exists>c. compact_ok c \<and> code = room_code_format c"
proof -
  obtain pairs draws' vals where p: "sample_many 3 100 draws = Some (Inr (pairs, draws'))"
    and v: "sample_many 8 36 draws' = Some (Inr (vals, rest))"
    and code: "code = concat (map (\<lambda>v. [0x30 + v div 10, 0x30 + v mod 10]) pairs) @ ascii ''-'' @ take 4 (map base36_char vals)
      @ ascii ''-'' @ drop 4 (map base36_char vals)"
    using assms by (auto simp: room_code_generate_def Let_def INVITE_ROOM_ID_LEN_def ROOM_SECRET_LEN_def)
  let ?room = "concat (map (\<lambda>v. [0x30 + v div 10, 0x30 + v mod 10]) pairs)" and ?secret = "map base36_char vals"
  have l: "length pairs = 3" "\<forall>v \<in> set pairs. v < 100" "length vals = 8" "\<forall>v \<in> set vals. v < 36"
    using sample_many_range [OF p] sample_many_range [OF v] by simp_all
  then have "length ?room = 6"
    by (auto simp: length_Suc_conv numeral_eq_Suc)
  moreover have "list_all is_ascii_digit ?room"
    using l(2) digit_pair by (auto simp: list_all_iff)
  moreover have "list_all (\<lambda>b. is_ascii_digit b \<or> is_ascii_lowercase b) ?secret"
    using l(4) base36_char_ok by (auto simp: list_all_iff)
  ultimately have "compact_ok (?room @ ?secret)" "room_code_format (?room @ ?secret) = code"
    using l(3) by (simp_all add: compact_ok_def room_code_format_def code)
  then show ?thesis by blast
qed

text \<open>The bytes that are accepted and give a value.\<close>

definition accepted_for :: "u8 \<Rightarrow> u8 \<Rightarrow> u8 set" where
  "accepted_for upper v = {byte. byte < sample_accepted upper \<and> byte mod upper = v}"

lemma multiples_count:
  assumes "0 < (u :: nat)" and "v < u"
  shows "card {n. n < k * u \<and> n mod u = v} = k"
proof -
  have "{n. n < k * u \<and> n mod u = v} = (\<lambda>q. q * u + v) ` {..<k}"
  proof (intro set_eqI iffI)
    fix n assume "n \<in> {n. n < k * u \<and> n mod u = v}"
    then have "n = n div u * u + v" "n div u < k"
      by (auto simp: less_mult_imp_div_less)
    then show "n \<in> (\<lambda>q. q * u + v) ` {..<k}" by blast
  next
    fix n assume "n \<in> (\<lambda>q. q * u + v) ` {..<k}"
    then obtain q where "n = q * u + v" "q < k" by blast
    moreover from this have "Suc q * u \<le> k * u"
      by (intro mult_le_mono1) simp
    ultimately show "n \<in> {n. n < k * u \<and> n mod u = v}"
      using assms by simp
  qed
  moreover have "inj_on (\<lambda>q. q * u + v) {..<k}"
    using assms by (auto simp: inj_on_def)
  ultimately show ?thesis by (simp add: card_image)
qed

lemma accepted_for_card:
  assumes "0 < upper" and "v < upper"
  shows "card (accepted_for upper v) = 255 div unat upper"
proof -
  let ?u = "unat upper" and ?k = "255 div unat upper"
  have "unat (255 mod upper) = 255 mod ?u"
    by (simp add: unat_mod_distrib)
  moreover have "255 mod ?u \<le> 255"
    using mod_less_eq_dividend [of 255 ?u] by simp
  ultimately have "unat (255 - 255 mod upper) = 255 - 255 mod ?u"
    by (subst unat_sub) (simp_all add: word_le_nat_alt)
  then have acc: "unat (sample_accepted upper) = ?k * ?u"
    by (simp only: sample_accepted_def minus_mod_eq_div_mult)
  have "unat ` accepted_for upper v = {n. n < ?k * ?u \<and> n mod ?u = unat v}"
  proof (intro set_eqI iffI)
    fix n assume "n \<in> unat ` accepted_for upper v"
    then show "n \<in> {n. n < ?k * ?u \<and> n mod ?u = unat v}"
      by (auto simp: accepted_for_def word_less_nat_alt acc unat_mod_distrib)
  next
    fix n assume n: "n \<in> {n. n < ?k * ?u \<and> n mod ?u = unat v}"
    then have "n < ?k * ?u" by simp
    also have "\<dots> \<le> 255" by (rule div_times_less_eq_dividend)
    finally have "n < 256" by simp
    then have w: "unat (word_of_nat n :: u8) = n"
      by (rule unat_byte)
    with n have "unat ((word_of_nat n :: u8) mod upper) = unat v"
      by (simp add: unat_mod_distrib)
    then have "(word_of_nat n :: u8) mod upper = v"
      by (rule unsigned_word_eqI)
    with n w have "word_of_nat n \<in> accepted_for upper v"
      by (simp add: accepted_for_def word_less_nat_alt acc)
    with w show "n \<in> unat ` accepted_for upper v" by force
  qed
  moreover have "inj_on unat (accepted_for upper v)"
    by (auto simp: inj_on_def intro: unsigned_word_eqI)
  ultimately show ?thesis
    using multiples_count [of ?u "unat v" ?k] assms by (metis card_image unat_gt_0 word_less_nat_alt less_numeral_extra(3) unat_eq_zero word_gt_0)
qed

text \<open>
  A generated room code is canonical (the parser accepts it and returns it unchanged, as it
  does for every code it returns), and its symbols are drawn without bias: in each of the two alphabets every
  value comes from the same number of accepted bytes, and some byte is accepted.
\<close>

theorem room_code_canonical_uniform:
  "(room_code_generate draws = Some (Inr (code, rest)) \<or> room_code_parse input = Inr code
      \<longrightarrow> room_code_parse code = Inr code)
   \<and> (\<forall>v < 100. card (accepted_for 100 v) = 2) \<and> (\<forall>v < 36. card (accepted_for 36 v) = 7)"
  using generated_code parse_format parse_idem accepted_for_card [of 100] accepted_for_card [of 36] by auto

theorem room_code_canonical_uniform_witness:
  "room_code_parse (ascii ''012345-abcd-ef01'') = Inr (ascii ''012345-abcd-ef01'')"
proof -
  have "room_code_parse (ascii ''012345ABCDEF01'') = Inr (ascii ''012345-abcd-ef01'')"
    by (simp add: room_code_parse_def room_code_compact_def room_code_format_def ascii_def of_char_def is_ascii_digit_def
        is_ascii_lowercase_def to_ascii_lowercase_def INVITE_ROOM_ID_LEN_def ROOM_SECRET_LEN_def)
  then show ?thesis
    using room_code_canonical_uniform by blast
qed

section \<open>Percent encoding\<close>

lemma hex_digit_upper_alnum: "n < 16 \<Longrightarrow> is_ascii_alphanumeric (hex_digit_upper n)"
proof (cases "n < 10")
  case True
  with unat_byte [of "48 + n"] show ?thesis
    by (simp add: is_ascii_alphanumeric_def is_ascii_digit_def hex_digit_upper_def word_le_nat_alt)
next
  case False
  moreover assume "n < 16"
  ultimately show ?thesis
    using unat_byte [of "55 + n"]
    by (simp add: is_ascii_alphanumeric_def is_ascii_digit_def hex_digit_upper_def word_le_nat_alt)
qed

lemma unreserved_ascii: "unreserved b \<Longrightarrow> b < 0x80 \<and> b \<noteq> 0x25 \<and> b \<noteq> 0x26 \<and> b \<noteq> 0x3D \<and> b \<noteq> 0x3F"
  by (auto simp: unreserved_def is_ascii_alphanumeric_def is_ascii_digit_def word_le_nat_alt word_less_nat_alt)

lemma nibbles: "unat (b :: u8) div 16 < 16" "unat b mod 16 < 16"
  using unat_bound [of b] by (auto simp: less_mult_imp_div_less)

lemma percent_encode_bytes: "b \<in> set (percent_encode s) \<Longrightarrow> unreserved b \<or> b = 0x25"
  using hex_digit_upper_alnum nibbles by (auto simp: percent_encode_def unreserved_def split: if_splits)

lemma percent_encode_free [simp]: "0x26 \<notin> set (percent_encode s)" "0x3D \<notin> set (percent_encode s)" "0x3F \<notin> set (percent_encode s)"
  using percent_encode_bytes [of _ s] unreserved_ascii by fastforce+

lemma utf8_valid_ascii: "list_all (\<lambda>b. b < 0x80) s \<Longrightarrow> utf8_valid s"
  by (induction s) (auto simp: utf8_valid_def)

lemma percent_decode_encode_bytes: "percent_decode_bytes (percent_encode s) = Inr s"
proof (induction s)
  case Nil
  then show ?case by (simp add: percent_encode_def)
next
  case (Cons b s)
  show ?case
  proof (cases "unreserved b")
    case True
    then show ?thesis
      using Cons unreserved_ascii [OF True] by (simp add: percent_encode_def)
  next
    case False
    let ?x = "hex_digit_upper (unat b div 16)" and ?y = "hex_digit_upper (unat b mod 16)"
    have "unreserved ?x" "unreserved ?y"
      using hex_digit_upper_alnum nibbles by (auto simp: unreserved_def)
    then have "from_utf8 [?x, ?y] = Some [?x, ?y]"
      using unreserved_ascii utf8_valid_ascii [of "[?x, ?y]"] by simp
    moreover have "percent_encode (b # s) = 0x25 # ?x # ?y # percent_encode s"
      using False by (simp add: percent_encode_def)
    ultimately show ?thesis
      using Cons by (simp add: ok_or_def from_utf8_def)
  qed
qed

lemma percent_decode_encode [simp]: "utf8_valid s \<Longrightarrow> percent_decode (percent_encode s) = Inr s"
  by (simp add: percent_decode_def percent_decode_encode_bytes ok_or_def from_utf8_def)

section \<open>Trimming twice\<close>

lemma length_drop_pieces: "length (drop_pieces pieces s) \<le> length s"
proof (induction pieces s rule: drop_pieces.induct)
  case (1 pieces s)
  then show ?case
    by (subst drop_pieces.simps) (fastforce split: option.splits)
qed

lemma drop_pieces_fixed_iff:
  "drop_pieces pieces s = s \<longleftrightarrow> (\<forall>p \<in> set pieces. p \<noteq> [] \<longrightarrow> take (length p) s \<noteq> p)"
proof (cases "find (\<lambda>p. p \<noteq> [] \<and> take (length p) s = p) pieces")
  case None
  then have "drop_pieces pieces s = s"
    by (simp add: drop_pieces.simps [of pieces s])
  with None show ?thesis by (auto simp: find_None_iff)
next
  case (Some p)
  then have p: "p \<in> set pieces" "p \<noteq> []" "take (length p) s = p"
    by (auto simp: find_Some_iff)
  then have "0 < length s" "0 < length p" by auto
  moreover have "drop_pieces pieces s = drop_pieces pieces (drop (length p) s)"
    using Some by (simp add: drop_pieces.simps [of pieces s])
  ultimately have "length (drop_pieces pieces s) < length s"
    using length_drop_pieces [of pieces "drop (length p) s"] by (simp add: less_le_trans le_less_trans)
  with p show ?thesis by auto
qed

lemma drop_pieces_suffix: "\<exists>k. drop_pieces pieces s = drop k s"
proof (induction pieces s rule: drop_pieces.induct)
  case (1 pieces s)
  show ?case
  proof (cases "find (\<lambda>p. p \<noteq> [] \<and> take (length p) s = p) pieces")
    case None
    then show ?thesis by (subst drop_pieces.simps) (auto intro: exI [of _ 0])
  next
    case (Some p)
    with 1 obtain k where "drop_pieces pieces (drop (length p) s) = drop k (drop (length p) s)" by blast
    with Some show ?thesis by (subst drop_pieces.simps) (auto simp del: drop_drop simp: drop_drop)
  qed
qed

lemma trim_idem [simp]: "trim (trim s) = trim s"
proof -
  let ?t = "drop_pieces white_space s"
  obtain k where k: "drop_pieces (map rev white_space) (rev ?t) = drop k (rev ?t)"
    using drop_pieces_suffix by blast
  then have t: "trim s = take (length ?t - k) ?t"
    by (simp add: trim_def rev_drop)
  have "drop_pieces white_space ?t = ?t" by simp
  then have "drop_pieces white_space (trim s) = trim s"
    unfolding drop_pieces_fixed_iff t by (auto simp: take_take min_def split: if_splits)
  moreover have "drop_pieces (map rev white_space) (rev (trim s)) = rev (trim s)"
    by (simp add: trim_def)
  ultimately show ?thesis
    by (simp add: trim_def [of "trim s"])
qed

section \<open>The link\<close>

lemma normalized_code:
  assumes "normalize_room_code input = Inr code"
  shows "normalize_room_code code = Inr code \<and> utf8_valid code"
proof -
  from assms obtain c where c: "compact_ok c" "code = room_code_format c"
    by (auto simp: normalize_room_code_def Let_def map_err_def room_code_parse_iff split: if_splits sum.splits)
  have b: "x \<in> set code \<Longrightarrow> x = 0x2D \<or> is_ascii_digit x \<or> is_ascii_lowercase x" for x
    using set_format [of c] compact_ok_bytes [OF c(1)] c(2) by blast
  have "x < 0x80" if "x \<in> set code" for x
    using b [OF that] code_byte [of x] by auto
  then have valid: "utf8_valid code"
    by (intro utf8_valid_ascii) (simp add: list_all_iff)
  have ne: "code \<noteq> []" "c \<noteq> []"
    using format_parts(1) [OF c(1)] c by (auto simp: compact_ok_def)
  then have d: "is_ascii_digit (hd code)"
    using c by (cases c) (auto simp: room_code_format_def compact_ok_def)
  have "printable (hd code)" "printable (last code)"
    using b [of "hd code"] b [of "last code"] ne code_byte by (auto simp: printable_def)
  then have "trim code = code"
    using ne(1) trim_printable by blast
  then show ?thesis
    using d valid parse_format [OF c(1)] c(2) by (auto simp: normalize_room_code_def Let_def map_err_def is_ascii_digit_def)
qed

lemma query_keys:
  "0x26 \<notin> set (ascii ''broker'')" "0x26 \<notin> set (ascii ''relay='')" "0x26 \<notin> set (ascii ''expires='')"
  "0x26 \<notin> set (ascii ''broker='')"
  "0x3D \<notin> set (ascii ''broker'')" "0x3D \<notin> set (ascii ''relay'')" "0x3D \<notin> set (ascii ''expires'')"
  by (simp_all add: ascii_def of_char_def)

lemma digits_free:
  "c \<in> set (decimal n) \<Longrightarrow> is_ascii_digit c"
  using decimal_digits [of n] by (auto simp: list_all_iff)

lemma decimal_plain: "percent_encode (decimal n) = decimal n"
proof -
  have "(\<And>b. b \<in> set s \<Longrightarrow> is_ascii_digit b) \<Longrightarrow> percent_encode s = s" for s
    by (induction s) (auto simp: percent_encode_def unreserved_def is_ascii_alphanumeric_def)
  then show ?thesis
    using digits_free by blast
qed

lemma field_values:
  "utf8_valid v \<Longrightarrow> invite_field (ascii ''broker='' @ percent_encode v) q = Inr (q\<lparr>qf_broker := Some v\<rparr>)"
  "utf8_valid v \<Longrightarrow> invite_field (ascii ''relay='' @ percent_encode v) q = Inr (q\<lparr>qf_relay := Some v\<rparr>)"
  "invite_field (ascii ''expires='' @ decimal (unat w)) q = Inr (q\<lparr>qf_expires := Some w\<rparr>)"
proof -
  have app: "ascii ''broker='' @ x = ascii ''broker'' @ 0x3D # x" "ascii ''relay='' @ x = ascii ''relay'' @ 0x3D # x"
    "ascii ''expires='' @ x = ascii ''expires'' @ 0x3D # x" for x
    by (simp_all add: ascii_def of_char_def)
  have k: "ascii ''relay'' \<noteq> ascii ''broker''" "ascii ''expires'' \<noteq> ascii ''broker''" "ascii ''expires'' \<noteq> ascii ''relay''"
    by (simp_all add: ascii_def of_char_def)
  show "utf8_valid v \<Longrightarrow> invite_field (ascii ''broker='' @ percent_encode v) q = Inr (q\<lparr>qf_broker := Some v\<rparr>)"
    "utf8_valid v \<Longrightarrow> invite_field (ascii ''relay='' @ percent_encode v) q = Inr (q\<lparr>qf_relay := Some v\<rparr>)"
    unfolding app by (simp_all add: invite_field_def split_once_append query_keys k)
  have "utf8_valid (decimal (unat w))"
    using digits_free code_byte by (intro utf8_valid_ascii) (auto simp: list_all_iff)
  then have "percent_decode (decimal (unat w)) = Inr (decimal (unat w))"
    using percent_decode_encode decimal_plain by metis
  then show "invite_field (ascii ''expires='' @ decimal (unat w)) q = Inr (q\<lparr>qf_expires := Some w\<rparr>)"
    unfolding app by (simp add: invite_field_def split_once_append query_keys k ok_or_def)
qed

lemma ascii_Nil [simp]: "ascii s = [] \<longleftrightarrow> s = []"
  by (simp add: ascii_def)

lemma split_query:
  "split_at 0x26 (ascii ''broker='' @ percent_encode a @ ascii ''&expires='' @ decimal n)
     = [ascii ''broker='' @ percent_encode a, ascii ''expires='' @ decimal n]"
  "split_at 0x26 (ascii ''broker='' @ percent_encode a @ ascii ''&relay='' @ percent_encode b @ ascii ''&expires='' @ decimal n)
     = [ascii ''broker='' @ percent_encode a, ascii ''relay='' @ percent_encode b, ascii ''expires='' @ decimal n]"
proof -
  have amp: "ascii ''&expires='' = 0x26 # ascii ''expires=''" "ascii ''&relay='' = 0x26 # ascii ''relay=''"
    by (simp_all add: ascii_def of_char_def)
  have d: "0x26 \<notin> set (decimal n)"
    using digits_free [of "0x26" n] by (auto simp: is_ascii_digit_def)
  have one: "split_at 0x26 ((ascii ''broker='' @ percent_encode a) @ 0x26 # s) = (ascii ''broker='' @ percent_encode a) # split_at 0x26 s"
    and two: "split_at 0x26 ((ascii ''relay='' @ percent_encode b) @ 0x26 # s) = (ascii ''relay='' @ percent_encode b) # split_at 0x26 s"
    and three: "split_at 0x26 (ascii ''expires='' @ decimal n) = [ascii ''expires='' @ decimal n]" for s
    by (rule split_at_append, simp add: query_keys, rule split_at_append, simp add: query_keys,
        rule split_at_none, simp add: query_keys d)
  show "split_at 0x26 (ascii ''broker='' @ percent_encode a @ ascii ''&expires='' @ decimal n)
     = [ascii ''broker='' @ percent_encode a, ascii ''expires='' @ decimal n]"
    using one [of "ascii ''expires='' @ decimal n"] by (simp add: amp three)
  show "split_at 0x26 (ascii ''broker='' @ percent_encode a @ ascii ''&relay='' @ percent_encode b @ ascii ''&expires='' @ decimal n)
     = [ascii ''broker='' @ percent_encode a, ascii ''relay='' @ percent_encode b, ascii ''expires='' @ decimal n]"
    using one [of "ascii ''relay='' @ percent_encode b @ ascii ''&expires='' @ decimal n"]
      two [of "ascii ''expires='' @ decimal n"] by (simp add: amp three)
qed

lemma trim_payload: "trim (invite_payload invite) = invite_payload invite"
proof (rule trim_printable)
  show "invite_payload invite \<noteq> []" "printable (hd (invite_payload invite))"
    by (simp_all add: invite_payload_def ROOM_URI_PREFIX_def ascii_def of_char_def printable_def)
  have "last (invite_payload invite) = last (decimal (unat (ri_expires_at_unix_secs invite)))"
    by (simp add: invite_payload_def)
  moreover have "last (decimal n) \<in> set (decimal n)" for n by simp
  ultimately show "printable (last (invite_payload invite))"
    using digits_free code_byte by metis
qed

text \<open>
  C37: the link of an invitation is read back. Whatever the clock and the fallback broker are, parsing the link
  gives the same code, broker and expiry, and the same relay; an invitation without a relay takes the fallback relay.
\<close>

theorem room_invite_roundtrip:
  assumes "invite_from_parts code broker relay expires = Inr invite"
    and "utf8_valid (ri_broker invite)" and "\<forall>r. ri_relay invite = Some r \<longrightarrow> utf8_valid r"
  shows "invite_parse now (invite_payload invite) fallback_broker fallback_relay
     = Inr (invite\<lparr>ri_relay := (case ri_relay invite of Some r \<Rightarrow> Some r | None \<Rightarrow> trim_relay fallback_relay)\<rparr>)"
proof -
  from assms(1) have "normalize_room_code code = Inr (ri_code invite)" "ri_broker invite = trim broker" "ri_broker invite \<noteq> []"
    and r: "ri_relay invite = trim_relay relay"
    by (auto simp: invite_from_parts_def)
  then have c: "normalize_room_code (ri_code invite) = Inr (ri_code invite)" "utf8_valid (ri_code invite)"
    and b: "trim (ri_broker invite) = ri_broker invite" "ri_broker invite \<noteq> []"
    using normalized_code by auto
  have q: "split_once 0x3F (percent_encode s @ ascii ''?broker='' @ t) = Some (percent_encode s, ascii ''broker='' @ t)" for s t
    using split_once_append [of "0x3F" "percent_encode s" "ascii ''broker='' @ t"] by (simp add: ascii_def of_char_def)
  have rec: "\<lparr>ri_code = ri_code invite, ri_broker = ri_broker invite, ri_relay = x,
      ri_expires_at_unix_secs = ri_expires_at_unix_secs invite\<rparr> = invite\<lparr>ri_relay := x\<rparr>" for x
    by (cases invite) simp
  have strip: "strip_prefix ROOM_URI_PREFIX (invite_payload invite)
      = Some (percent_encode (ri_code invite) @ ascii ''?broker='' @ percent_encode (ri_broker invite)
         @ (case ri_relay invite of None \<Rightarrow> [] | Some r \<Rightarrow> ascii ''&relay='' @ percent_encode r)
         @ ascii ''&expires='' @ decimal (unat (ri_expires_at_unix_secs invite)))"
    by (simp add: invite_payload_def)
  note parse = invite_parse_def trim_payload Let_def rec strip q split_query field_values assms(2) c b
    invite_from_parts_def
  show ?thesis
  proof (cases "ri_relay invite")
    case None
    then show ?thesis
      by (simp add: parse)
  next
    case (Some rel)
    with r have "trim_relay (Some rel) = Some rel"
      by (auto simp: trim_relay_def split: option.splits if_splits)
    with Some assms(3) show ?thesis
      by (simp add: parse)
  qed
qed

definition sample_invite :: RoomControlInvite where
  "sample_invite = \<lparr>ri_code = ascii ''012345-abcd-ef01'', ri_broker = ascii ''b&r'', ri_relay = None, ri_expires_at_unix_secs = 99\<rparr>"

theorem room_invite_roundtrip_witness:
  "invite_parse None (invite_payload sample_invite) [] None = Inr sample_invite"
proof -
  have "trim (ascii ''012345-abcd-ef01'') = ascii ''012345-abcd-ef01''" "trim (ascii ''b&r'') = ascii ''b&r''"
    by (rule trim_printable; simp add: ascii_def of_char_def printable_def)+
  then have "invite_from_parts (ascii ''012345-abcd-ef01'') (ascii ''b&r'') None 99 = Inr sample_invite"
    by (simp add: invite_from_parts_def normalize_room_code_def sample_invite_def trim_relay_def map_err_def
        room_code_parse_def room_code_compact_def room_code_format_def ascii_def of_char_def is_ascii_digit_def
        is_ascii_lowercase_def to_ascii_lowercase_def INVITE_ROOM_ID_LEN_def ROOM_SECRET_LEN_def)
  from room_invite_roundtrip [OF this, of None "[]" None] show ?thesis
    by (simp add: sample_invite_def trim_relay_def utf8_valid_def ascii_def of_char_def)
qed

end
