(* ===== verification/Room_Control.thy ===== *)
theory Room_Control
  imports Room_Invite
begin

text \<open>
  \<open>crates/envoix-session/src/room_control.rs\<close> after the connection is made: the hello, the lifetime
  machine, offers and their decisions, the operations of a session, the frames.

  Every lifetime update holds the lock \<open>lifetime_updates\<close> from its transition to its send, so that the
  two are one step here. What the network does with a send is the argument \<open>io\<close>; an operation returns its
  result, the session, the messages it sent and whether it closed the connection. \<open>parse_for_role\<close> stands
  for \<open>InviteV2::parse_for_role\<close> with role \<open>Receiver\<close>: the broker and the relays of an invitation that is
  valid at the given time. The texts of errors are constructors.
\<close>

section \<open>Data\<close>

definition ROOM_CONTROL_VERSION :: u16 where
  "ROOM_CONTROL_VERSION = 5"

definition ROOM_IDLE_TIMEOUT_MS :: u64 where
  "ROOM_IDLE_TIMEOUT_MS = 15 * 60 * 1000"

definition ROOM_MAX_CONTROL_FRAME_BYTES :: nat where
  "ROOM_MAX_CONTROL_FRAME_BYTES = 64 * 1024"

definition MAX_TRANSFER_INVITE_BYTES :: nat where
  "MAX_TRANSFER_INVITE_BYTES = 8 * 1024"

definition MAX_OFFER_ID_BYTES :: nat where
  "MAX_OFFER_ID_BYTES = 128"

definition MAX_ROOT_NAME_BYTES :: nat where
  "MAX_ROOT_NAME_BYTES = 255"

definition MAX_ROOT_PREVIEWS :: nat where
  "MAX_ROOT_PREVIEWS = 3"

definition MAX_SEEN_OFFER_IDS :: nat where
  "MAX_SEEN_OFFER_IDS = 256"

datatype ControlProtocolError =
    Revision_zero | Foreground_deadline | Revision_not_advanced | Revision_exhausted | Unknown_offer
  | Duplicate_hello | Remembered_lifetime | Joiner_lifetime | Remembered_activity | Creator_activity
  | Remembered_transfer_active | Creator_transfer_active | Remembered_expired | Joiner_expired
  | Unsupported_version u16 | No_hello | Other_mode | Remembered_ownership | Creator_lifetime_only
  | Bad_initial_lifetime | Bad_control_magic | Unsupported_frame_version u16 | Control_frame_too_long | Bad_json

datatype ControlInputError =
    Bad_offer_id | Offer_invite_too_long | Bad_offer_invite | Other_route | Too_many_directories | Too_many_roots
  | Bad_root_preview | Offer_pending | Offer_id_used | Offer_not_waiting | Lifetime_fixed | Not_the_creator
  | No_idle_deadline | Only_creator_expires | Not_expired | Bad_display_name | Control_message_too_long | Clock_error

datatype SessionError =
  Protocol ControlProtocolError | InvalidInput ControlInputError | Channel_not_bound | Io_failed

datatype RoomLifetimePolicy = Idle15Minutes | UntilForegroundEnds

record RoomLifetimeState =
  rl_revision :: u64
  rl_policy :: RoomLifetimePolicy
  rl_idle_deadline_unix_ms :: "u64 option"

datatype RoomCloseReason =
  UserEnded | IdleExpired | InvitationExpired | PeerEnded | Backgrounded | NetworkLost | ProtocolFailure

datatype RoomOfferRejection = Declined | Busy | Expired | Invalid

record RoomTransferOffer =
  ro_offer_id :: str
  ro_transfer_invite :: str
  ro_root_names :: "str list"
  ro_item_count :: u32
  ro_directory_count :: u32
  ro_total_bytes :: u64

datatype RoomControlEvent =
    IncomingOffer RoomTransferOffer
  | Ev_OfferAccepted str
  | Ev_OfferRejected str RoomOfferRejection
  | Ev_LifetimeChanged RoomLifetimeState
  | PeerClosed RoomCloseReason
  | Ev_Pong u64

datatype ControlSessionKind = InvitationSession | RememberedSession

record ControlHello =
  ch_protocol_version :: u16
  ch_session_kind :: ControlSessionKind
  ch_display_name :: str
  ch_creator :: bool
  ch_pairing_binding :: bytes
  ch_lifetime :: "RoomLifetimeState option"

datatype ControlMessage =
    Hello ControlHello
  | TransferOffer RoomTransferOffer
  | OfferAccepted str
  | OfferRejected str RoomOfferRejection
  | LifetimeChanged RoomLifetimeState
  | Activity
  | TransferActive bool
  | Close RoomCloseReason
  | Ping u64
  | Pong u64

datatype RoomControlSessionMode = Invitation bool | Remembered u64

definition mode_session_kind :: "RoomControlSessionMode \<Rightarrow> ControlSessionKind" where
  "mode_session_kind mode = (case mode of Invitation _ \<Rightarrow> InvitationSession | Remembered _ \<Rightarrow> RememberedSession)"

definition mode_is_creator :: "RoomControlSessionMode \<Rightarrow> bool" where
  "mode_is_creator mode = (case mode of Invitation creator \<Rightarrow> creator | Remembered _ \<Rightarrow> False)"

definition mode_is_remembered :: "RoomControlSessionMode \<Rightarrow> bool" where
  "mode_is_remembered mode = (case mode of Invitation _ \<Rightarrow> False | Remembered _ \<Rightarrow> True)"

section \<open>The lifetime machine\<close>

definition lifetime_initial :: "u64 \<Rightarrow> RoomLifetimeState" where
  "lifetime_initial now = \<lparr>rl_revision = 1, rl_policy = Idle15Minutes,
     rl_idle_deadline_unix_ms = Some (saturating_add now ROOM_IDLE_TIMEOUT_MS)\<rparr>"

definition lifetime_remembered :: RoomLifetimeState where
  "lifetime_remembered = \<lparr>rl_revision = 1, rl_policy = UntilForegroundEnds, rl_idle_deadline_unix_ms = None\<rparr>"

definition lifetime_validate :: "RoomLifetimeState \<Rightarrow> SessionError + unit" where
  "lifetime_validate state =
     bindR (rejectR (rl_revision state = 0) (Protocol Revision_zero)) (\<lambda>_.
     rejectR (rl_policy state = UntilForegroundEnds \<and> rl_idle_deadline_unix_ms state \<noteq> None) (Protocol Foreground_deadline))"

definition validate_initial_lifetime :: "RoomLifetimeState \<Rightarrow> SessionError + unit" where
  "validate_initial_lifetime state =
     bindR (lifetime_validate state) (\<lambda>_.
     rejectR (rl_revision state \<noteq> 1 \<or> rl_policy state \<noteq> Idle15Minutes \<or> rl_idle_deadline_unix_ms state = None)
       (Protocol Bad_initial_lifetime))"

record RoomLifetimeMachine =
  lm_state :: RoomLifetimeState
  lm_local_transfer_active :: bool
  lm_peer_transfer_active :: bool

definition machine_new :: "RoomLifetimeState \<Rightarrow> RoomLifetimeMachine" where
  "machine_new state = \<lparr>lm_state = state, lm_local_transfer_active = False, lm_peer_transfer_active = False\<rparr>"

type_synonym transition = "RoomLifetimeMachine \<Rightarrow> (SessionError + RoomLifetimeState option) \<times> RoomLifetimeMachine"

definition any_transfer_active :: "RoomLifetimeMachine \<Rightarrow> bool" where
  "any_transfer_active m \<longleftrightarrow> lm_local_transfer_active m \<or> lm_peer_transfer_active m"

text \<open>\<open>advance(..).map(Some)\<close>\<close>

definition advance :: "u64 option \<Rightarrow> transition" where
  "advance deadline m =
     (case checked_add (rl_revision (lm_state m)) 1 of
        None \<Rightarrow> (Inl (Protocol Revision_exhausted), m)
      | Some revision \<Rightarrow>
          let state = (lm_state m)\<lparr>rl_revision := revision, rl_idle_deadline_unix_ms := deadline\<rparr> in
          (Inr (Some state), m\<lparr>lm_state := state\<rparr>))"

definition machine_note_activity :: "u64 \<Rightarrow> transition" where
  "machine_note_activity now m =
     (if rl_policy (lm_state m) \<noteq> Idle15Minutes \<or> any_transfer_active m then (Inr None, m)
      else advance (Some (saturating_add now ROOM_IDLE_TIMEOUT_MS)) m)"

definition apply_transfer_edge :: "bool \<Rightarrow> u64 \<Rightarrow> transition" where
  "apply_transfer_edge was_active now m =
     (let is_active = any_transfer_active m in
      if was_active = is_active \<or> rl_policy (lm_state m) \<noteq> Idle15Minutes then (Inr None, m)
      else advance (if \<not> is_active then Some (saturating_add now ROOM_IDLE_TIMEOUT_MS) else None) m)"

definition machine_set_local :: "bool \<Rightarrow> u64 \<Rightarrow> transition" where
  "machine_set_local active now m =
     (if lm_local_transfer_active m = active then (Inr None, m)
      else apply_transfer_edge (any_transfer_active m) now (m\<lparr>lm_local_transfer_active := active\<rparr>))"

definition machine_set_peer :: "bool \<Rightarrow> u64 \<Rightarrow> transition" where
  "machine_set_peer active now m =
     (if lm_peer_transfer_active m = active then (Inr None, m)
      else apply_transfer_edge (any_transfer_active m) now (m\<lparr>lm_peer_transfer_active := active\<rparr>))"

definition machine_set_policy :: "RoomLifetimePolicy \<Rightarrow> u64 \<Rightarrow> transition" where
  "machine_set_policy policy now m =
     (if rl_policy (lm_state m) = policy then (Inr None, m)
      else let m' = m\<lparr>lm_state := (lm_state m)\<lparr>rl_policy := policy\<rparr>\<rparr> in
        advance (if policy = Idle15Minutes \<and> \<not> any_transfer_active m'
          then Some (saturating_add now ROOM_IDLE_TIMEOUT_MS) else None) m')"

definition apply_authoritative ::
  "RoomLifetimeState \<Rightarrow> RoomLifetimeMachine \<Rightarrow> SessionError + RoomLifetimeMachine" where
  "apply_authoritative state m =
     bindR (lifetime_validate state) (\<lambda>_.
     bindR (rejectR (rl_revision state \<le> rl_revision (lm_state m)) (Protocol Revision_not_advanced)) (\<lambda>_.
     Inr (m\<lparr>lm_state := state\<rparr>)))"

section \<open>Offers\<close>

record OfferState =
  os_pending_local :: "str option"
  os_pending_remote :: "str option"
  os_seen :: "str set"
  os_seen_order :: "str list"

definition offer_state_default :: OfferState where
  "offer_state_default = \<lparr>os_pending_local = None, os_pending_remote = None, os_seen = {}, os_seen_order = []\<rparr>"

fun expire_seen :: "str list \<Rightarrow> str set \<Rightarrow> str list \<times> str set" where
  "expire_seen [] seen = ([], seen)"
| "expire_seen (expired # order) seen =
     (if length (expired # order) > MAX_SEEN_OFFER_IDS then expire_seen order (seen - {expired}) else (expired # order, seen))"

definition remember :: "str \<Rightarrow> OfferState \<Rightarrow> OfferState" where
  "remember offer_id s =
     (let order = (if offer_id \<in> os_seen s then os_seen_order s else os_seen_order s @ [offer_id]);
          (order', seen') = expire_seen order (insert offer_id (os_seen s)) in
      s\<lparr>os_seen := seen', os_seen_order := order'\<rparr>)"

definition root_preview_ok :: "str \<Rightarrow> bool" where
  "root_preview_ok name \<longleftrightarrow>
     \<not> (name = [] \<or> length name > MAX_ROOT_NAME_BYTES \<or> name = ascii ''.'' \<or> name = ascii ''..''
       \<or> list_ex (\<lambda>c. is_control c \<or> c = 0x2F \<or> c = 0x5C) (chars name))"

type_synonym invite_parser = "str \<Rightarrow> u64 \<Rightarrow> (str \<times> str list) option"

definition offer_validate ::
  "invite_parser \<Rightarrow> u64 option \<Rightarrow> str \<Rightarrow> str option \<Rightarrow> RoomTransferOffer \<Rightarrow> SessionError + unit" where
  "offer_validate parse_for_role now expected_broker expected_relay offer =
     bindR (rejectR (ro_offer_id offer = [] \<or> length (ro_offer_id offer) > MAX_OFFER_ID_BYTES
         \<or> \<not> list_all (\<lambda>b. is_ascii_alphanumeric b \<or> b = 0x2D \<or> b = 0x5F) (ro_offer_id offer))
       (InvalidInput Bad_offer_id)) (\<lambda>_.
     bindR (rejectR (length (ro_transfer_invite offer) > MAX_TRANSFER_INVITE_BYTES) (InvalidInput Offer_invite_too_long)) (\<lambda>_.
     bindR (ok_or now (InvalidInput Clock_error)) (\<lambda>secs.
     bindR (ok_or (parse_for_role (ro_transfer_invite offer) secs) (InvalidInput Bad_offer_invite)) (\<lambda>(broker, relay_urls).
     bindR (rejectR (broker \<noteq> expected_broker \<or> relay_urls \<noteq> (case expected_relay of Some r \<Rightarrow> [r] | None \<Rightarrow> []))
       (InvalidInput Other_route)) (\<lambda>_.
     bindR (rejectR (ro_directory_count offer > ro_item_count offer) (InvalidInput Too_many_directories)) (\<lambda>_.
     bindR (rejectR (length (ro_root_names offer) > MAX_ROOT_PREVIEWS) (InvalidInput Too_many_roots)) (\<lambda>_.
     rejectR (\<not> list_all root_preview_ok (ro_root_names offer)) (InvalidInput Bad_root_preview))))))))"

section \<open>Sessions\<close>

record RoomControlSession =
  se_offers :: OfferState
  se_lifetime :: RoomLifetimeMachine
  se_broker :: str
  se_relay :: "str option"
  se_peer_name :: str
  se_mode :: RoomControlSessionMode

text \<open>A send succeeds, fails, or times out; a timeout closes the connection.\<close>

datatype SendIo = Sent | Write_failed | Write_timed_out

type_synonym 'a session_result = "(SessionError + 'a) \<times> RoomControlSession \<times> ControlMessage list \<times> bool"

definition send_message :: "SendIo \<Rightarrow> ControlMessage \<Rightarrow> 'a \<Rightarrow> RoomControlSession \<Rightarrow> 'a session_result" where
  "send_message io message result s =
     (case io of Sent \<Rightarrow> (Inr result, s, [message], False)
      | Write_failed \<Rightarrow> (Inl Io_failed, s, [], False)
      | Write_timed_out \<Rightarrow> (Inl Io_failed, s, [], True))"

text \<open>\<open>CloseOnIncompleteMutation\<close>: an error closes the connection.\<close>

definition close_on_error :: "'a session_result \<Rightarrow> 'a session_result" where
  "close_on_error = (\<lambda>(res, s, sent, closed). (res, s, sent, closed \<or> isl res))"

definition update_creator_lifetime ::
  "(u64 \<Rightarrow> transition) \<Rightarrow> u64 option \<Rightarrow> SendIo \<Rightarrow> RoomControlSession \<Rightarrow> RoomLifetimeState option session_result" where
  "update_creator_lifetime transition now io s =
     (case now of
        None \<Rightarrow> (Inl (InvalidInput Clock_error), s, [], False)
      | Some millis \<Rightarrow>
          let (res, m) = transition millis (se_lifetime s); s' = s\<lparr>se_lifetime := m\<rparr> in
          case res of
            Inl e \<Rightarrow> (Inl e, s', [], False)
          | Inr None \<Rightarrow> (Inr None, s', [], False)
          | Inr (Some state) \<Rightarrow> close_on_error (send_message io (LifetimeChanged state) (Some state) s'))"

definition note_activity ::
  "u64 option \<Rightarrow> SendIo \<Rightarrow> RoomControlSession \<Rightarrow> RoomLifetimeState option session_result" where
  "note_activity now io s =
     (if mode_is_remembered (se_mode s) then (Inr None, s, [], False)
      else if mode_is_creator (se_mode s) then update_creator_lifetime machine_note_activity now io s
      else send_message io Activity None s)"

definition offer_begin ::
  "invite_parser \<Rightarrow> u64 option \<Rightarrow> RoomTransferOffer \<Rightarrow> RoomControlSession \<Rightarrow> SessionError + RoomControlSession" where
  "offer_begin parse_for_role now offer s =
     bindR (offer_validate parse_for_role now (se_broker s) (se_relay s) offer) (\<lambda>_.
     let offers = se_offers s in
     bindR (rejectR (os_pending_local offers \<noteq> None \<or> os_pending_remote offers \<noteq> None) (InvalidInput Offer_pending)) (\<lambda>_.
     bindR (rejectR (ro_offer_id offer \<in> os_seen offers) (InvalidInput Offer_id_used)) (\<lambda>_.
     Inr (s\<lparr>se_offers := remember (ro_offer_id offer) (offers\<lparr>os_pending_local := Some (ro_offer_id offer)\<rparr>)\<rparr>))))"

definition offer_abort :: "RoomControlSession \<Rightarrow> RoomControlSession" where
  "offer_abort s = s\<lparr>se_offers := (se_offers s)\<lparr>os_pending_local := None\<rparr>\<rparr>"

definition offer_transfer ::
  "invite_parser \<Rightarrow> u64 option \<Rightarrow> u64 option \<Rightarrow> SendIo \<Rightarrow> SendIo \<Rightarrow> RoomTransferOffer \<Rightarrow> RoomControlSession
     \<Rightarrow> RoomLifetimeState option session_result" where
  "offer_transfer parse_for_role secs millis io1 io2 offer s =
     (case offer_begin parse_for_role secs offer s of
        Inl e \<Rightarrow> (Inl e, s, [], False)
      | Inr s1 \<Rightarrow>
          (case note_activity millis io1 s1 of
             (Inl e, s2, sent, closed) \<Rightarrow> (Inl e, offer_abort s2, sent, True)
           | (Inr lifetime, s2, sent, closed) \<Rightarrow>
               (case send_message io2 (TransferOffer offer) lifetime s2 of
                  (Inl e, s3, sent', closed') \<Rightarrow> (Inl e, offer_abort s3, sent @ sent', True)
                | (Inr r, s3, sent', closed') \<Rightarrow> (Inr r, s3, sent @ sent', False))))"

definition resolve_remote_offer :: "str \<Rightarrow> RoomControlSession \<Rightarrow> SessionError + RoomControlSession" where
  "resolve_remote_offer offer_id s =
     bindR (rejectR (os_pending_remote (se_offers s) \<noteq> Some offer_id) (InvalidInput Offer_not_waiting)) (\<lambda>_.
     Inr (s\<lparr>se_offers := (se_offers s)\<lparr>os_pending_remote := None\<rparr>\<rparr>))"

definition resolve_local_offer :: "str \<Rightarrow> RoomControlSession \<Rightarrow> SessionError + RoomControlSession" where
  "resolve_local_offer offer_id s =
     bindR (rejectR (os_pending_local (se_offers s) \<noteq> Some offer_id) (Protocol Unknown_offer)) (\<lambda>_.
     Inr (s\<lparr>se_offers := (se_offers s)\<lparr>os_pending_local := None\<rparr>\<rparr>))"

text \<open>\<open>accept_offer\<close> and \<open>reject_offer\<close> differ in the response.\<close>

definition respond_offer ::
  "str \<Rightarrow> ControlMessage \<Rightarrow> u64 option \<Rightarrow> SendIo \<Rightarrow> SendIo \<Rightarrow> RoomControlSession \<Rightarrow> RoomLifetimeState option session_result" where
  "respond_offer offer_id response millis io1 io2 s =
     (case resolve_remote_offer offer_id s of
        Inl e \<Rightarrow> (Inl e, s, [], False)
      | Inr s1 \<Rightarrow>
          (case note_activity millis io1 s1 of
             (Inl e, s2, sent, closed) \<Rightarrow> (Inl e, s2, sent, True)
           | (Inr lifetime, s2, sent, closed) \<Rightarrow>
               (case send_message io2 response lifetime s2 of
                  (res, s3, sent', closed') \<Rightarrow> (res, s3, sent @ sent', isl res))))"

definition accept_offer ::
  "u64 option \<Rightarrow> SendIo \<Rightarrow> SendIo \<Rightarrow> str \<Rightarrow> RoomControlSession \<Rightarrow> RoomLifetimeState option session_result" where
  "accept_offer millis io1 io2 offer_id = respond_offer offer_id (OfferAccepted offer_id) millis io1 io2"

definition reject_offer ::
  "u64 option \<Rightarrow> SendIo \<Rightarrow> SendIo \<Rightarrow> str \<Rightarrow> RoomOfferRejection \<Rightarrow> RoomControlSession
     \<Rightarrow> RoomLifetimeState option session_result" where
  "reject_offer millis io1 io2 offer_id reason = respond_offer offer_id (OfferRejected offer_id reason) millis io1 io2"

definition set_policy ::
  "u64 option \<Rightarrow> SendIo \<Rightarrow> RoomLifetimePolicy \<Rightarrow> RoomControlSession \<Rightarrow> RoomLifetimeState option session_result" where
  "set_policy millis io policy s =
     (if mode_is_remembered (se_mode s) then (Inl (InvalidInput Lifetime_fixed), s, [], False)
      else if \<not> mode_is_creator (se_mode s) then (Inl (InvalidInput Not_the_creator), s, [], False)
      else update_creator_lifetime (machine_set_policy policy) millis io s)"

definition set_local_transfer_active ::
  "u64 option \<Rightarrow> SendIo \<Rightarrow> bool \<Rightarrow> RoomControlSession \<Rightarrow> RoomLifetimeState option session_result" where
  "set_local_transfer_active millis io active s =
     (if mode_is_remembered (se_mode s) then (Inr None, s, [], False)
      else if mode_is_creator (se_mode s) then update_creator_lifetime (machine_set_local active) millis io s
      else if lm_local_transfer_active (se_lifetime s) = active then (Inr None, s, [], False)
      else close_on_error (send_message io (TransferActive active) None
        (s\<lparr>se_lifetime := (se_lifetime s)\<lparr>lm_local_transfer_active := active\<rparr>\<rparr>)))"

definition ping :: "SendIo \<Rightarrow> u64 \<Rightarrow> RoomControlSession \<Rightarrow> unit session_result" where
  "ping io nonce s = send_message io (Ping nonce) () s"

definition idle_expired :: "u64 \<Rightarrow> RoomLifetimeMachine \<Rightarrow> bool" where
  "idle_expired now m \<longleftrightarrow> rl_policy (lm_state m) = Idle15Minutes \<and> \<not> any_transfer_active m
     \<and> (case rl_idle_deadline_unix_ms (lm_state m) of None \<Rightarrow> False | Some deadline \<Rightarrow> deadline \<le> now)"

definition close_session :: "u64 option \<Rightarrow> SendIo \<Rightarrow> RoomCloseReason \<Rightarrow> RoomControlSession \<Rightarrow> unit session_result" where
  "close_session millis io reason s =
     (case (if reason = IdleExpired
            then bindR (rejectR (mode_is_remembered (se_mode s)) (InvalidInput No_idle_deadline)) (\<lambda>_.
                 bindR (rejectR (\<not> mode_is_creator (se_mode s)) (InvalidInput Only_creator_expires)) (\<lambda>_.
                 bindR (ok_or millis (InvalidInput Clock_error)) (\<lambda>now.
                 rejectR (\<not> idle_expired now (se_lifetime s)) (InvalidInput Not_expired))))
            else Inr ()) of
        Inl e \<Rightarrow> (Inl e, s, [], False)
      | Inr _ \<Rightarrow> (case send_message io (Close reason) () s of (res, s', sent, _) \<Rightarrow> (res, s', sent, True)))"

section \<open>Incoming messages\<close>

text \<open>One turn of the loop of \<open>next_event\<close>; \<open>None\<close> goes on with the next message.\<close>

definition handle_offer ::
  "invite_parser \<Rightarrow> u64 option \<Rightarrow> SendIo \<Rightarrow> RoomTransferOffer \<Rightarrow> RoomControlSession
     \<Rightarrow> RoomControlEvent option session_result" where
  "handle_offer parse_for_role secs io offer s =
     (case offer_validate parse_for_role secs (se_broker s) (se_relay s) offer of
        Inl e \<Rightarrow>
          (case send_message io (OfferRejected (ro_offer_id offer) Invalid) () s of
             (_, s', sent, closed) \<Rightarrow> (Inl e, s', sent, closed))
      | Inr _ \<Rightarrow>
          let offers = se_offers s in
          if os_pending_local offers \<noteq> None \<or> os_pending_remote offers \<noteq> None \<or> ro_offer_id offer \<in> os_seen offers
          then send_message io (OfferRejected (ro_offer_id offer) Busy) None s
          else (Inr (Some (IncomingOffer offer)),
            s\<lparr>se_offers := remember (ro_offer_id offer) (offers\<lparr>os_pending_remote := Some (ro_offer_id offer)\<rparr>)\<rparr>, [], False))"

definition lifetime_event :: "RoomLifetimeState option session_result \<Rightarrow> RoomControlEvent option session_result" where
  "lifetime_event = (\<lambda>(res, s, sent, closed).
     (bindR res (\<lambda>state. Inr (map_option Ev_LifetimeChanged state)), s, sent, closed))"

definition of_session :: "RoomControlSession \<Rightarrow> SessionError + RoomControlSession \<Rightarrow> 'a \<Rightarrow> 'a session_result" where
  "of_session s r event = (case r of Inl e \<Rightarrow> (Inl e, s, [], False) | Inr s' \<Rightarrow> (Inr event, s', [], False))"

definition handle_message ::
  "invite_parser \<Rightarrow> u64 option \<Rightarrow> u64 option \<Rightarrow> SendIo \<Rightarrow> ControlMessage \<Rightarrow> RoomControlSession
     \<Rightarrow> RoomControlEvent option session_result" where
  "handle_message parse_for_role secs millis io message s =
     (let fail = (\<lambda>e. (Inl (Protocol e), s, [], False));
          remembered = mode_is_remembered (se_mode s); creator = mode_is_creator (se_mode s) in
      case message of
        Hello _ \<Rightarrow> fail Duplicate_hello
      | TransferOffer offer \<Rightarrow> handle_offer parse_for_role secs io offer s
      | OfferAccepted offer_id \<Rightarrow> of_session s (resolve_local_offer offer_id s) (Some (Ev_OfferAccepted offer_id))
      | OfferRejected offer_id reason \<Rightarrow>
          of_session s (resolve_local_offer offer_id s) (Some (Ev_OfferRejected offer_id reason))
      | LifetimeChanged state \<Rightarrow>
          if remembered then fail Remembered_lifetime
          else if creator then fail Joiner_lifetime
          else of_session s (bindR (apply_authoritative state (se_lifetime s)) (\<lambda>m. Inr (s\<lparr>se_lifetime := m\<rparr>)))
            (Some (Ev_LifetimeChanged state))
      | Activity \<Rightarrow>
          if remembered then fail Remembered_activity
          else if \<not> creator then fail Creator_activity
          else lifetime_event (update_creator_lifetime machine_note_activity millis io s)
      | TransferActive active \<Rightarrow>
          if remembered then fail Remembered_transfer_active
          else if \<not> creator then fail Creator_transfer_active
          else lifetime_event (update_creator_lifetime (machine_set_peer active) millis io s)
      | Close reason \<Rightarrow>
          if remembered \<and> reason = IdleExpired then fail Remembered_expired
          else if creator \<and> reason = IdleExpired then fail Joiner_expired
          else (Inr (Some (PeerClosed reason)), s, [], True)
      | Ping nonce \<Rightarrow> send_message io (Pong nonce) None s
      | Pong nonce \<Rightarrow> (Inr (Some (Ev_Pong nonce)), s, [], False))"

text \<open>
  \<open>next_event\<close> on the messages that arrive, each with the clocks and the outcome of a send at that
  time; \<open>None\<close> when it still waits. It returns what it left unread.
\<close>

fun next_event ::
  "invite_parser \<Rightarrow> (ControlMessage \<times> u64 option \<times> u64 option \<times> SendIo) list \<Rightarrow> RoomControlSession
     \<Rightarrow> (RoomControlEvent session_result \<times> (ControlMessage \<times> u64 option \<times> u64 option \<times> SendIo) list) option" where
  "next_event parse_for_role [] s = None"
| "next_event parse_for_role ((message, secs, millis, io) # arriving) s =
     (case handle_message parse_for_role secs millis io message s of
        (Inl e, s', sent, closed) \<Rightarrow> Some ((Inl e, s', sent, closed), arriving)
      | (Inr (Some event), s', sent, closed) \<Rightarrow> Some ((Inr event, s', sent, closed), arriving)
      | (Inr None, s', sent, closed) \<Rightarrow>
          map_option (\<lambda>((res, s'', sent', closed'), rest). ((res, s'', sent @ sent', closed \<or> closed'), rest))
            (next_event parse_for_role arriving s'))"

section \<open>The hello\<close>

definition validate_display_name :: "str \<Rightarrow> SessionError + unit" where
  "validate_display_name name =
     rejectR (trim name = [] \<or> length (chars (trim name)) > 48 \<or> list_ex is_control (chars (trim name)))
       (InvalidInput Bad_display_name)"

definition validate_control_hello ::
  "ControlMessage \<Rightarrow> RoomControlSessionMode \<Rightarrow> bytes \<Rightarrow> RoomLifetimeState option \<Rightarrow> SessionError + str \<times> RoomLifetimeState" where
  "validate_control_hello peer_hello mode expected_binding local_lifetime =
     (case peer_hello of
        Hello hello \<Rightarrow>
          bindR (rejectR (ch_protocol_version hello \<noteq> ROOM_CONTROL_VERSION)
            (Protocol (Unsupported_version (ch_protocol_version hello)))) (\<lambda>_.
          bindR (validate_display_name (ch_display_name hello)) (\<lambda>_.
          bindR (rejectR (ch_session_kind hello \<noteq> mode_session_kind mode) (Protocol Other_mode)) (\<lambda>_.
          bindR (rejectR (ch_pairing_binding hello \<noteq> expected_binding) Channel_not_bound) (\<lambda>_.
          bindR (case mode of
              Invitation creator \<Rightarrow>
                (case (creator, local_lifetime, ch_creator hello, ch_lifetime hello) of
                   (True, Some state, False, None) \<Rightarrow> Inr state
                 | (False, None, True, Some state) \<Rightarrow> bindR (validate_initial_lifetime state) (\<lambda>_. Inr state)
                 | _ \<Rightarrow> Inl (Protocol Creator_lifetime_only))
            | Remembered _ \<Rightarrow>
                (if local_lifetime = None \<and> \<not> ch_creator hello \<and> ch_lifetime hello = None
                 then Inr lifetime_remembered else Inl (Protocol Remembered_ownership))) (\<lambda>lifetime.
          Inr (ch_display_name hello, lifetime))))))
      | _ \<Rightarrow> Inl (Protocol No_hello))"

text \<open>The local lifetime, the hello and the session of \<open>connect_room_control_inner\<close>.\<close>

definition local_lifetime :: "RoomControlSessionMode \<Rightarrow> u64 \<Rightarrow> RoomLifetimeState option" where
  "local_lifetime mode now = (if mode_is_creator mode then Some (lifetime_initial now) else None)"

definition local_hello :: "RoomControlSessionMode \<Rightarrow> u64 \<Rightarrow> str \<Rightarrow> bytes \<Rightarrow> ControlMessage" where
  "local_hello mode now display_name binding =
     Hello \<lparr>ch_protocol_version = ROOM_CONTROL_VERSION, ch_session_kind = mode_session_kind mode,
       ch_display_name = display_name, ch_creator = mode_is_creator mode, ch_pairing_binding = binding,
       ch_lifetime = local_lifetime mode now\<rparr>"

definition session_new ::
  "RoomControlSessionMode \<Rightarrow> u64 \<Rightarrow> bytes \<Rightarrow> str \<Rightarrow> str option \<Rightarrow> ControlMessage \<Rightarrow> SessionError + RoomControlSession" where
  "session_new mode now binding broker relay peer_hello =
     bindR (validate_control_hello peer_hello mode binding (local_lifetime mode now)) (\<lambda>(peer_name, lifetime).
     Inr \<lparr>se_offers = offer_state_default, se_lifetime = machine_new lifetime, se_broker = broker, se_relay = relay,
          se_peer_name = peer_name, se_mode = mode\<rparr>)"

section \<open>Frames\<close>

definition write_control_message :: "(ControlMessage \<Rightarrow> bytes option) \<Rightarrow> ControlMessage \<Rightarrow> SessionError + bytes" where
  "write_control_message to_vec message =
     bindR (ok_or (to_vec message) (Protocol Bad_json)) (\<lambda>payload.
     bindR (rejectR (length payload > ROOM_MAX_CONTROL_FRAME_BYTES) (InvalidInput Control_message_too_long)) (\<lambda>_.
     Inr (ascii ''ENRC'' @ u16_to_be ROOM_CONTROL_VERSION @ u32_to_be (word_of_nat (length payload)) @ payload)))"

definition read_control_message ::
  "(bytes \<Rightarrow> ControlMessage option) \<Rightarrow> bytes \<Rightarrow> SessionError + ControlMessage \<times> bytes" where
  "read_control_message from_slice stream =
     bindR (rejectR (length stream < 10) Io_failed) (\<lambda>_.
     bindR (rejectR (take 4 stream \<noteq> ascii ''ENRC'') (Protocol Bad_control_magic)) (\<lambda>_.
     let version = u16_from_be (take 2 (drop 4 stream)); len = unat (u32_from_be (take 4 (drop 6 stream))) in
     bindR (rejectR (version \<noteq> ROOM_CONTROL_VERSION) (Protocol (Unsupported_frame_version version))) (\<lambda>_.
     bindR (rejectR (len > ROOM_MAX_CONTROL_FRAME_BYTES) (Protocol Control_frame_too_long)) (\<lambda>_.
     bindR (rejectR (length (drop 10 stream) < len) Io_failed) (\<lambda>_.
     bindR (ok_or (from_slice (take len (drop 10 stream))) (Protocol Bad_json)) (\<lambda>message.
     Inr (message, drop len (drop 10 stream))))))))"

end
