(* ===== verification/Room_System.thy ===== *)
theory Room_System
  imports Room_Control "HOL-Library.Multiset"
begin

text \<open>
  Two room control sessions and the stream between them as a step relation. A side's operations may
  run concurrently: \<open>offer_transfer\<close>, \<open>accept_offer\<close> and \<open>reject_offer\<close> are cut at their awaits, what is left of a
  call is a task. Messages are received in the order in which they were sent. A step is a part of an
  operation that succeeds; what a failing one does is \<open>failed_operation_safe\<close>.
\<close>

section \<open>The system\<close>

datatype RoomTask =
    Offer_activity RoomTransferOffer
  | Offer_send RoomTransferOffer
  | Reply_activity ControlMessage
  | Reply_send ControlMessage

text \<open>The two sides are the two truth values; \<open>sy_sent i\<close> was sent by side \<open>i\<close> and not received yet.\<close>

record RoomSystem =
  sy_session :: "bool \<Rightarrow> RoomControlSession"
  sy_sent :: "bool \<Rightarrow> ControlMessage list"
  sy_tasks :: "bool \<Rightarrow> RoomTask list"
  sy_closed :: "bool \<Rightarrow> bool"

definition side_step ::
  "bool \<Rightarrow> RoomControlSession \<Rightarrow> ControlMessage list \<Rightarrow> RoomTask list \<Rightarrow> bool \<Rightarrow> RoomSystem \<Rightarrow> RoomSystem" where
  "side_step i s sent tasks closed x =
     x\<lparr>sy_session := (sy_session x)(i := s), sy_sent := (sy_sent x)(i := sy_sent x i @ sent),
       sy_tasks := (sy_tasks x)(i := tasks), sy_closed := (sy_closed x)(i := sy_closed x i \<or> closed)\<rparr>"

definition consume :: "bool \<Rightarrow> RoomSystem \<Rightarrow> RoomSystem" where
  "consume i x = x\<lparr>sy_sent := (sy_sent x)(i := tl (sy_sent x i))\<rparr>"

inductive pair_step :: "invite_parser \<Rightarrow> RoomSystem \<Rightarrow> RoomSystem \<Rightarrow> bool" for parse_for_role where
  begins: "\<not> sy_closed x i \<Longrightarrow> offer_begin parse_for_role secs offer (sy_session x i) = Inr s'
    \<Longrightarrow> pair_step parse_for_role x (side_step i s' [] (sy_tasks x i @ [Offer_activity offer]) False x)"
| offer_notes: "\<not> sy_closed x i \<Longrightarrow> sy_tasks x i = before @ Offer_activity offer # after
    \<Longrightarrow> note_activity millis Sent (sy_session x i) = (Inr r, s', sent, c)
    \<Longrightarrow> pair_step parse_for_role x (side_step i s' sent (before @ Offer_send offer # after) c x)"
| offer_sends: "\<not> sy_closed x i \<Longrightarrow> sy_tasks x i = before @ Offer_send offer # after
    \<Longrightarrow> pair_step parse_for_role x (side_step i (sy_session x i) [TransferOffer offer] (before @ after) False x)"
| resolves: "\<not> sy_closed x i \<Longrightarrow> resolve_remote_offer offer_id (sy_session x i) = Inr s'
    \<Longrightarrow> response = OfferAccepted offer_id \<or> response = OfferRejected offer_id reason
    \<Longrightarrow> pair_step parse_for_role x (side_step i s' [] (sy_tasks x i @ [Reply_activity response]) False x)"
| reply_notes: "\<not> sy_closed x i \<Longrightarrow> sy_tasks x i = before @ Reply_activity response # after
    \<Longrightarrow> note_activity millis Sent (sy_session x i) = (Inr r, s', sent, c)
    \<Longrightarrow> pair_step parse_for_role x (side_step i s' sent (before @ Reply_send response # after) c x)"
| reply_sends: "\<not> sy_closed x i \<Longrightarrow> sy_tasks x i = before @ Reply_send response # after
    \<Longrightarrow> pair_step parse_for_role x (side_step i (sy_session x i) [response] (before @ after) False x)"
| hints: "\<not> sy_closed x i \<Longrightarrow> note_activity millis Sent (sy_session x i) = (Inr r, s', sent, c)
    \<Longrightarrow> pair_step parse_for_role x (side_step i s' sent (sy_tasks x i) c x)"
| sets_policy: "\<not> sy_closed x i \<Longrightarrow> set_policy millis Sent policy (sy_session x i) = (Inr r, s', sent, c)
    \<Longrightarrow> pair_step parse_for_role x (side_step i s' sent (sy_tasks x i) c x)"
| sets_active: "\<not> sy_closed x i
    \<Longrightarrow> set_local_transfer_active millis Sent active (sy_session x i) = (Inr r, s', sent, c)
    \<Longrightarrow> pair_step parse_for_role x (side_step i s' sent (sy_tasks x i) c x)"
| pings: "\<not> sy_closed x i \<Longrightarrow> ping Sent nonce (sy_session x i) = (Inr (), s', sent, c)
    \<Longrightarrow> pair_step parse_for_role x (side_step i s' sent (sy_tasks x i) c x)"
| closes: "\<not> sy_closed x i \<Longrightarrow> close_session millis Sent reason (sy_session x i) = (Inr (), s', sent, c)
    \<Longrightarrow> pair_step parse_for_role x (side_step i s' sent (sy_tasks x i) c x)"
| receives: "\<not> sy_closed x i \<Longrightarrow> sy_sent x (\<not> i) = message # arriving
    \<Longrightarrow> handle_message parse_for_role secs millis Sent message (sy_session x i) = (Inr event, s', sent, c)
    \<Longrightarrow> pair_step parse_for_role x (side_step i s' sent (sy_tasks x i) c (consume (\<not> i) x))"

text \<open>Two sides whose hellos were accepted, and whatever follows.\<close>

inductive pair_reachable :: "invite_parser \<Rightarrow> RoomSystem \<Rightarrow> bool" for parse_for_role where
  start: "(\<And>i. session_new (mode i) (now i) (binding i) (broker i) (relay i)
      (local_hello (mode (\<not> i)) (now (\<not> i)) (name (\<not> i)) (binding (\<not> i))) = Inr (ses i))
    \<Longrightarrow> pair_reachable parse_for_role \<lparr>sy_session = ses, sy_sent = (\<lambda>i. []), sy_tasks = (\<lambda>i. []), sy_closed = (\<lambda>i. False)\<rparr>"
| step: "pair_reachable parse_for_role x \<Longrightarrow> pair_step parse_for_role x y \<Longrightarrow> pair_reachable parse_for_role y"

section \<open>What is in flight\<close>

definition lifetimes :: "ControlMessage list \<Rightarrow> RoomLifetimeState list" where
  "lifetimes ms = concat (map (\<lambda>m. case m of LifetimeChanged state \<Rightarrow> [state] | _ \<Rightarrow> []) ms)"

definition actives :: "ControlMessage list \<Rightarrow> bool list" where
  "actives ms = concat (map (\<lambda>m. case m of TransferActive active \<Rightarrow> [active] | _ \<Rightarrow> []) ms)"

definition offers_sent :: "ControlMessage list \<Rightarrow> str list" where
  "offers_sent ms = concat (map (\<lambda>m. case m of TransferOffer offer \<Rightarrow> [ro_offer_id offer] | _ \<Rightarrow> []) ms)"

definition replies :: "ControlMessage list \<Rightarrow> str list" where
  "replies ms = concat (map (\<lambda>m. case m of OfferAccepted offer_id \<Rightarrow> [offer_id] | OfferRejected offer_id _ \<Rightarrow> [offer_id] | _ \<Rightarrow> []) ms)"

definition task_offers :: "RoomTask list \<Rightarrow> str list" where
  "task_offers ts = concat (map (\<lambda>t. case t of Offer_activity offer \<Rightarrow> [ro_offer_id offer] | Offer_send offer \<Rightarrow> [ro_offer_id offer]
     | _ \<Rightarrow> []) ts)"

definition task_replies :: "RoomTask list \<Rightarrow> str list" where
  "task_replies ts = concat (map (\<lambda>t. case t of Reply_activity m \<Rightarrow> replies [m] | Reply_send m \<Rightarrow> replies [m] | _ \<Rightarrow> []) ts)"

definition option_list :: "'a option \<Rightarrow> 'a list" where
  "option_list v = (case v of None \<Rightarrow> [] | Some a \<Rightarrow> [a])"

text \<open>Where the offers of side \<open>i\<close> are: not sent yet, on the way, waiting for a decision, decided, answered.\<close>

definition offers_in_play :: "bool \<Rightarrow> RoomSystem \<Rightarrow> str multiset" where
  "offers_in_play i x =
     mset (task_offers (sy_tasks x i)) + mset (offers_sent (sy_sent x i))
     + mset (option_list (os_pending_remote (se_offers (sy_session x (\<not> i)))))
     + mset (task_replies (sy_tasks x (\<not> i))) + mset (replies (sy_sent x (\<not> i)))"

abbreviation mode_of :: "RoomSystem \<Rightarrow> bool \<Rightarrow> RoomControlSessionMode" where
  "mode_of x i \<equiv> se_mode (sy_session x i)"

abbreviation machine_of :: "RoomSystem \<Rightarrow> bool \<Rightarrow> RoomLifetimeMachine" where
  "machine_of x i \<equiv> se_lifetime (sy_session x i)"

section \<open>The invariant\<close>

text \<open>What a side may send in its mode.\<close>

definition sendable :: "RoomControlSessionMode \<Rightarrow> ControlMessage \<Rightarrow> bool" where
  "sendable mode m \<longleftrightarrow>
     (case m of
        Hello _ \<Rightarrow> False
      | LifetimeChanged _ \<Rightarrow> mode_is_creator mode
      | Close reason \<Rightarrow> reason = IdleExpired \<longrightarrow> mode_is_creator mode
      | Activity \<Rightarrow> \<not> mode_is_creator mode \<and> \<not> mode_is_remembered mode
      | TransferActive _ \<Rightarrow> \<not> mode_is_creator mode \<and> \<not> mode_is_remembered mode
      | _ \<Rightarrow> True)"

definition is_reply :: "ControlMessage \<Rightarrow> bool" where
  "is_reply m \<longleftrightarrow> (case m of OfferAccepted _ \<Rightarrow> True | OfferRejected _ _ \<Rightarrow> True | _ \<Rightarrow> False)"

definition task_ok :: "RoomTask \<Rightarrow> bool" where
  "task_ok t \<longleftrightarrow> (case t of Reply_activity m \<Rightarrow> is_reply m | Reply_send m \<Rightarrow> is_reply m | _ \<Rightarrow> True)"

definition modes_match :: "RoomControlSessionMode \<Rightarrow> RoomControlSessionMode \<Rightarrow> bool" where
  "modes_match a b \<longleftrightarrow> (case (a, b) of
     (Invitation p, Invitation q) \<Rightarrow> p \<noteq> q | (Remembered _, Remembered _) \<Rightarrow> True | _ \<Rightarrow> False)"

text \<open>A published state follows another: the revision grows by one and the state is valid.\<close>

definition follows :: "RoomLifetimeState \<Rightarrow> RoomLifetimeState \<Rightarrow> bool" where
  "follows a b \<longleftrightarrow> checked_add (rl_revision a) 1 = Some (rl_revision b) \<and> lifetime_validate b = Inr ()"

text \<open>The creator's deadline is set exactly while the policy is idle and no transfer is active.\<close>

definition deadline_ok :: "RoomLifetimeMachine \<Rightarrow> bool" where
  "deadline_ok m \<longleftrightarrow> (rl_idle_deadline_unix_ms (lm_state m) \<noteq> None)
     = (rl_policy (lm_state m) = Idle15Minutes \<and> \<not> any_transfer_active m)"

definition lifetime_synced :: "bool \<Rightarrow> RoomSystem \<Rightarrow> bool" where
  "lifetime_synced c x \<longleftrightarrow>
     successively follows (lm_state (machine_of x (\<not> c)) # lifetimes (sy_sent x c))
     \<and> last (lm_state (machine_of x (\<not> c)) # lifetimes (sy_sent x c)) = lm_state (machine_of x c)
     \<and> last (lm_peer_transfer_active (machine_of x c) # actives (sy_sent x (\<not> c)))
         = lm_local_transfer_active (machine_of x (\<not> c))
     \<and> deadline_ok (machine_of x c)"

definition pair_inv :: "RoomSystem \<Rightarrow> bool" where
  "pair_inv x \<longleftrightarrow>
     modes_match (mode_of x True) (mode_of x False)
     \<and> (\<forall>i. list_all (sendable (mode_of x i)) (sy_sent x i))
     \<and> (\<forall>i. list_all task_ok (sy_tasks x i))
     \<and> (\<forall>i. offers_in_play i x = mset (option_list (os_pending_local (se_offers (sy_session x i)))))
     \<and> (\<forall>c. mode_of x c = Invitation True \<longrightarrow> lifetime_synced c x)
     \<and> (\<forall>i. mode_is_remembered (mode_of x i) \<longrightarrow> machine_of x i = machine_new lifetime_remembered)"

end
