(* ===== verification/Room_System_Inv.thy ===== *)
theory Room_System_Inv
  imports Room_System
begin

text \<open>Every step keeps \<open>pair_inv\<close>: first what the operations do to one session, then the steps.\<close>

section \<open>Lists in flight\<close>

lemmas flight_defs = lifetimes_def actives_def offers_sent_def replies_def task_offers_def task_replies_def

lemma flight_append [simp]:
  "lifetimes (a @ b) = lifetimes a @ lifetimes b" "actives (a @ b) = actives a @ actives b"
  "offers_sent (a @ b) = offers_sent a @ offers_sent b" "replies (a @ b) = replies a @ replies b"
  "task_offers (p @ q) = task_offers p @ task_offers q" "task_replies (p @ q) = task_replies p @ task_replies q"
  by (simp_all add: flight_defs)

lemma flight_Nil [simp]:
  "lifetimes [] = []" "actives [] = []" "offers_sent [] = []" "replies [] = []" "task_offers [] = []" "task_replies [] = []"
  by (simp_all add: flight_defs)

lemma lifetimes_Cons [simp]:
  "lifetimes (m # ms) = (case m of LifetimeChanged state \<Rightarrow> [state] | _ \<Rightarrow> []) @ lifetimes ms"
  by (simp add: lifetimes_def)

lemma actives_Cons [simp]:
  "actives (m # ms) = (case m of TransferActive active \<Rightarrow> [active] | _ \<Rightarrow> []) @ actives ms"
  by (simp add: actives_def)

lemma offers_sent_Cons [simp]:
  "offers_sent (m # ms) = (case m of TransferOffer offer \<Rightarrow> [ro_offer_id offer] | _ \<Rightarrow> []) @ offers_sent ms"
  by (simp add: offers_sent_def)

lemma replies_Cons [simp]:
  "replies (m # ms) = (case m of OfferAccepted i \<Rightarrow> [i] | OfferRejected i _ \<Rightarrow> [i] | _ \<Rightarrow> []) @ replies ms"
  by (simp add: replies_def)

lemma task_offers_Cons [simp]:
  "task_offers (t # ts) = (case t of Offer_activity offer \<Rightarrow> [ro_offer_id offer] | Offer_send offer \<Rightarrow> [ro_offer_id offer] | _ \<Rightarrow> [])
     @ task_offers ts"
  by (simp add: task_offers_def)

lemma task_replies_Cons [simp]:
  "task_replies (t # ts) = (case t of Reply_activity m \<Rightarrow> replies [m] | Reply_send m \<Rightarrow> replies [m] | _ \<Rightarrow> []) @ task_replies ts"
  by (simp add: task_replies_def)

lemma option_list_simps [simp]: "option_list None = []" "option_list (Some a) = [a]"
  by (simp_all add: option_list_def)

lemma mset_option_list_member: "add_mset a M = mset (option_list v) \<Longrightarrow> v = Some a \<and> M = {#}"
  by (cases v) (auto simp: add_eq_conv_ex)

section \<open>The lifetime machine\<close>

lemma advance_Inr:
  assumes "advance deadline m = (Inr r, m')"
  shows "\<exists>revision. checked_add (rl_revision (lm_state m)) 1 = Some revision
     \<and> r = Some ((lm_state m)\<lparr>rl_revision := revision, rl_idle_deadline_unix_ms := deadline\<rparr>)
     \<and> m' = m\<lparr>lm_state := (lm_state m)\<lparr>rl_revision := revision, rl_idle_deadline_unix_ms := deadline\<rparr>\<rparr>"
  using assms by (auto simp: advance_def Let_def split: option.splits)

lemma advance_Inl:
  assumes "advance deadline m = (Inl e, m')"
  shows "e = Protocol Revision_exhausted \<and> m' = m \<and> unat (rl_revision (lm_state m)) = 2 ^ 64 - 1"
proof -
  have "e = Protocol Revision_exhausted \<and> m' = m \<and> checked_add (rl_revision (lm_state m)) 1 = None"
    using assms by (auto simp: advance_def Let_def split: option.splits)
  moreover from this have "\<not> unat (rl_revision (lm_state m)) + 1 < 2 ^ 64"
    by (simp add: checked_add_def split: if_splits)
  ultimately show ?thesis
    using unat_bound [of "rl_revision (lm_state m)"] by simp
qed

text \<open>What a transition of the creator's machine does when it succeeds.\<close>

definition transition_ok :: "RoomLifetimeMachine \<Rightarrow> RoomLifetimeState option \<Rightarrow> RoomLifetimeMachine \<Rightarrow> bool" where
  "transition_ok m r m' \<longleftrightarrow>
     (deadline_ok m \<longrightarrow> deadline_ok m')
     \<and> (case r of None \<Rightarrow> lm_state m' = lm_state m | Some state \<Rightarrow> lm_state m' = state \<and> (deadline_ok m \<longrightarrow> follows (lm_state m) state))"

lemma checked_add_pos: "checked_add (a :: u64) 1 = Some b \<Longrightarrow> b \<noteq> 0"
  by (auto simp: checked_add_Some_iff)

lemma advance_ok:
  assumes "advance (if P then Some d else None) m = (Inr r, m')"
    and "P = (rl_policy (lm_state m) = Idle15Minutes \<and> \<not> any_transfer_active m)"
  shows "deadline_ok m' \<and> lm_local_transfer_active m' = lm_local_transfer_active m
     \<and> lm_peer_transfer_active m' = lm_peer_transfer_active m \<and> r = Some (lm_state m')
     \<and> checked_add (rl_revision (lm_state m)) 1 = Some (rl_revision (lm_state m')) \<and> lifetime_validate (lm_state m') = Inr ()"
proof -
  let ?state = "\<lambda>revision. (lm_state m)\<lparr>rl_revision := revision, rl_idle_deadline_unix_ms := if P then Some d else None\<rparr>"
  obtain revision where "checked_add (rl_revision (lm_state m)) 1 = Some revision"
    and "r = Some (?state revision)" "m' = m\<lparr>lm_state := ?state revision\<rparr>"
    using advance_Inr [OF assms(1)] by blast
  with assms(2) checked_add_pos show ?thesis
    by (auto simp: deadline_ok_def any_transfer_active_def lifetime_validate_def)
qed

lemma note_activity_ok:
  "machine_note_activity now m = (Inr r, m') \<Longrightarrow>
     transition_ok m r m' \<and> lm_local_transfer_active m' = lm_local_transfer_active m
     \<and> lm_peer_transfer_active m' = lm_peer_transfer_active m"
  using advance_ok [of True "saturating_add now ROOM_IDLE_TIMEOUT_MS" m r m']
  by (auto simp: machine_note_activity_def transition_ok_def follows_def split: if_splits)

lemma set_policy_ok:
  assumes "machine_set_policy policy now m = (Inr r, m')"
  shows "transition_ok m r m' \<and> lm_local_transfer_active m' = lm_local_transfer_active m
     \<and> lm_peer_transfer_active m' = lm_peer_transfer_active m"
proof (cases "rl_policy (lm_state m) = policy")
  case True
  with assms show ?thesis by (simp add: machine_set_policy_def transition_ok_def)
next
  case False
  let ?m = "m\<lparr>lm_state := (lm_state m)\<lparr>rl_policy := policy\<rparr>\<rparr>"
  from False assms have "advance (if policy = Idle15Minutes \<and> \<not> any_transfer_active ?m
      then Some (saturating_add now ROOM_IDLE_TIMEOUT_MS) else None) ?m = (Inr r, m')"
    by (simp add: machine_set_policy_def Let_def)
  from advance_ok [OF this] show ?thesis
    by (simp add: transition_ok_def follows_def)
qed

lemma transfer_edge_ok:
  assumes "apply_transfer_edge (any_transfer_active m) now m1 = (Inr r, m')" and "lm_state m1 = lm_state m"
  shows "transition_ok m r m' \<and> lm_local_transfer_active m' = lm_local_transfer_active m1
     \<and> lm_peer_transfer_active m' = lm_peer_transfer_active m1"
proof (cases "any_transfer_active m = any_transfer_active m1 \<or> rl_policy (lm_state m1) \<noteq> Idle15Minutes")
  case True
  with assms show ?thesis
    by (auto simp: apply_transfer_edge_def transition_ok_def deadline_ok_def)
next
  case False
  with assms have "advance (if \<not> any_transfer_active m1 then Some (saturating_add now ROOM_IDLE_TIMEOUT_MS) else None) m1 = (Inr r, m')"
    by (simp add: apply_transfer_edge_def)
  from advance_ok [OF this] False assms(2) show ?thesis
    by (auto simp: transition_ok_def follows_def)
qed

lemma set_local_ok:
  assumes "machine_set_local active now m = (Inr r, m')"
  shows "transition_ok m r m' \<and> lm_local_transfer_active m' = active \<and> lm_peer_transfer_active m' = lm_peer_transfer_active m"
  using assms transfer_edge_ok [of m now "m\<lparr>lm_local_transfer_active := active\<rparr>" r m']
  by (auto simp: machine_set_local_def transition_ok_def split: if_splits)

lemma set_peer_ok:
  assumes "machine_set_peer active now m = (Inr r, m')"
  shows "transition_ok m r m' \<and> lm_local_transfer_active m' = lm_local_transfer_active m \<and> lm_peer_transfer_active m' = active"
  using assms transfer_edge_ok [of m now "m\<lparr>lm_peer_transfer_active := active\<rparr>" r m']
  by (auto simp: machine_set_peer_def transition_ok_def split: if_splits)

lemmas transition_oks = note_activity_ok set_policy_ok set_local_ok set_peer_ok

section \<open>Operations on one session\<close>

text \<open>
  What an operation does to the lifetime that received \<open>got\<close> and sends \<open>sent\<close>: the messages are those of the
  mode, the creator's new state is published and its view of the joiner's flag is the one
  received, the joiner's state is the one received and its flag is announced.
\<close>

definition effect :: "RoomControlSession \<Rightarrow> ControlMessage list \<Rightarrow> ControlMessage list \<Rightarrow> RoomControlSession \<Rightarrow> bool" where
  "effect s got sent s' \<longleftrightarrow>
     se_mode s' = se_mode s \<and> list_all (sendable (se_mode s)) sent
     \<and> (mode_is_remembered (se_mode s) \<longrightarrow> se_lifetime s' = se_lifetime s)
     \<and> (se_mode s = Invitation True \<longrightarrow>
          (\<exists>r. transition_ok (se_lifetime s) r (se_lifetime s') \<and> lifetimes sent = option_list r)
          \<and> lm_peer_transfer_active (se_lifetime s') = last (lm_peer_transfer_active (se_lifetime s) # actives got))
     \<and> (se_mode s = Invitation False \<longrightarrow>
          lm_state (se_lifetime s') = last (lm_state (se_lifetime s) # lifetimes got)
          \<and> last (lm_local_transfer_active (se_lifetime s) # actives sent) = lm_local_transfer_active (se_lifetime s'))"

text \<open>A local operation that leaves the offers alone.\<close>

definition local_effect :: "RoomControlSession \<Rightarrow> ControlMessage list \<Rightarrow> RoomControlSession \<Rightarrow> bool" where
  "local_effect s sent s' \<longleftrightarrow>
     effect s [] sent s' \<and> se_offers s' = se_offers s \<and> offers_sent sent = [] \<and> replies sent = []"

lemma mode_cases:
  "mode_is_creator mode \<longleftrightarrow> mode = Invitation True" "mode_is_remembered mode \<longleftrightarrow> (\<exists>g. mode = Remembered g)"
  by (cases mode; simp add: mode_is_creator_def mode_is_remembered_def)+

lemma update_creator_Inr:
  assumes "update_creator_lifetime transition now Sent s = (Inr r, s', sent, c)"
  shows "\<exists>millis m. transition millis (se_lifetime s) = (Inr r, m) \<and> s' = s\<lparr>se_lifetime := m\<rparr>
     \<and> sent = map LifetimeChanged (option_list r) \<and> \<not> c"
  using assms by (auto simp: update_creator_lifetime_def Let_def send_message_def close_on_error_def
      split: option.splits sum.splits prod.splits) blast+

lemma creator_effect:
  assumes "update_creator_lifetime transition now Sent s = (Inr r, s', sent, c)" and "se_mode s = Invitation True"
    and "\<And>millis m. transition millis (se_lifetime s) = (Inr r, m)
      \<Longrightarrow> transition_ok (se_lifetime s) r m \<and> lm_peer_transfer_active m = lm_peer_transfer_active (se_lifetime s)"
  shows "local_effect s sent s'"
proof -
  obtain millis m where m: "transition millis (se_lifetime s) = (Inr r, m)" "s' = s\<lparr>se_lifetime := m\<rparr>"
    "sent = map LifetimeChanged (option_list r)"
    using update_creator_Inr [OF assms(1)] by blast
  then have "lifetimes sent = option_list r" "offers_sent sent = []" "replies sent = []" "list_all (sendable (se_mode s)) sent"
    using assms(2) by (cases r; simp add: sendable_def mode_is_creator_def)+
  with m assms(2) assms(3) [OF m(1)] show ?thesis
    by (auto simp: local_effect_def effect_def mode_is_remembered_def)
qed

lemma note_activity_effect:
  assumes "note_activity millis Sent s = (Inr r, s', sent, c)"
  shows "local_effect s sent s' \<and> \<not> c"
proof (cases "se_mode s = Invitation True")
  case True
  with assms have u: "update_creator_lifetime machine_note_activity millis Sent s = (Inr r, s', sent, c)"
    by (simp add: note_activity_def mode_cases)
  from creator_effect [OF u True] show ?thesis
    using note_activity_ok update_creator_Inr [OF u] by blast
next
  case False
  with assms show ?thesis
    by (cases "se_mode s") (auto simp: note_activity_def mode_cases send_message_def local_effect_def effect_def sendable_def
        mode_is_creator_def mode_is_remembered_def)
qed

lemma set_policy_effect:
  assumes "set_policy millis Sent policy s = (Inr r, s', sent, c)"
  shows "local_effect s sent s'"
proof -
  from assms have "se_mode s = Invitation True" "update_creator_lifetime (machine_set_policy policy) millis Sent s = (Inr r, s', sent, c)"
    by (auto simp: set_policy_def mode_cases split: if_splits)
  then show ?thesis
    using creator_effect set_policy_ok by blast
qed

lemma set_active_effect:
  assumes "set_local_transfer_active millis Sent active s = (Inr r, s', sent, c)"
  shows "local_effect s sent s'"
proof (cases "se_mode s = Invitation True")
  case True
  with assms have "update_creator_lifetime (machine_set_local active) millis Sent s = (Inr r, s', sent, c)"
    by (simp add: set_local_transfer_active_def mode_cases)
  with True show ?thesis
    using creator_effect set_local_ok by blast
next
  case False
  with assms show ?thesis
    by (cases "se_mode s") (auto simp: set_local_transfer_active_def mode_cases send_message_def local_effect_def effect_def sendable_def
        close_on_error_def mode_is_creator_def mode_is_remembered_def split: if_splits)
qed

lemma idle_local_effect [simp]:
  "list_all (sendable (se_mode s)) sent \<Longrightarrow> offers_sent sent = [] \<Longrightarrow> replies sent = [] \<Longrightarrow> lifetimes sent = []
     \<Longrightarrow> actives sent = [] \<Longrightarrow> local_effect s sent s"
  by (auto simp: local_effect_def effect_def transition_ok_def intro!: exI [of _ None])

lemma ping_effect: "ping Sent nonce s = (Inr u, s', sent, c) \<Longrightarrow> local_effect s sent s'"
  by (auto simp: ping_def send_message_def sendable_def)

lemma close_effect: "close_session millis Sent reason s = (Inr u, s', sent, c) \<Longrightarrow> local_effect s sent s'"
  by (auto simp: close_session_def send_message_def sendable_def split: sum.splits if_splits)

lemmas local_effects = set_policy_effect set_active_effect ping_effect close_effect

section \<open>The invariant over a step of one side\<close>

lemma pair_invD:
  assumes "pair_inv x"
  shows "modes_match (mode_of x True) (mode_of x False)" "list_all (sendable (mode_of x i)) (sy_sent x i)"
    "list_all task_ok (sy_tasks x i)" "offers_in_play i x = mset (option_list (os_pending_local (se_offers (sy_session x i))))"
    "mode_of x i = Invitation True \<Longrightarrow> lifetime_synced i x"
    "mode_is_remembered (mode_of x i) \<Longrightarrow> machine_of x i = machine_new lifetime_remembered"
  using assms unfolding pair_inv_def by blast+

text \<open>Side \<open>i\<close> takes \<open>got\<close> from the stream, and everything else is as in \<open>side_step\<close>.\<close>

lemma both_sides: "P i \<Longrightarrow> P (\<not> i) \<Longrightarrow> P j" for i j :: bool
  by (cases i; cases j) simp_all

lemma last_append_Cons: "last (a # xs @ ys) = last (last (a # xs) # ys)"
  by (cases ys rule: rev_cases) auto

lemma successively_tail:
  "successively P (a # xs @ ys) \<Longrightarrow> successively P (last (a # xs) # ys)"
  by (induction xs arbitrary: a) (auto simp: successively_Cons)

lemma successively_extend:
  "successively P (a # xs) \<Longrightarrow> P (last (a # xs)) b \<Longrightarrow> successively P (a # xs @ [b])"
  by (induction xs arbitrary: a) (auto simp: successively_Cons)

lemma synced_creator:
  assumes "lifetime_synced i x" and "sy_sent x (\<not> i) = got @ arriving"
    and "effect (sy_session x i) got sent s'" and "mode_of x i = Invitation True"
  shows "lifetime_synced i (side_step i s' sent tasks' c (x\<lparr>sy_sent := (sy_sent x)(\<not> i := arriving)\<rparr>))"
proof -
  let ?base = "lm_state (machine_of x (\<not> i))" and ?old = "lifetimes (sy_sent x i)"
  from assms(3,4) obtain r where r: "transition_ok (machine_of x i) r (se_lifetime s')" "lifetimes sent = option_list r"
    and peer: "lm_peer_transfer_active (se_lifetime s') = last (lm_peer_transfer_active (machine_of x i) # actives got)"
    by (auto simp: effect_def)
  have old: "successively follows (?base # ?old)" "last (?base # ?old) = lm_state (machine_of x i)" "deadline_ok (machine_of x i)"
    and flag: "last (lm_peer_transfer_active (machine_of x i) # actives got @ actives arriving)
      = lm_local_transfer_active (machine_of x (\<not> i))"
    using assms(1,2) by (simp_all add: lifetime_synced_def)
  have "successively follows (?base # ?old @ lifetimes sent) \<and> last (?base # ?old @ lifetimes sent) = lm_state (se_lifetime s')"
    using r old successively_extend [OF old(1)] by (cases r) (auto simp: transition_ok_def)
  moreover have "last (lm_peer_transfer_active (se_lifetime s') # actives arriving) = lm_local_transfer_active (machine_of x (\<not> i))"
    using flag by (simp only: peer last_append_Cons)
  ultimately show ?thesis
    using r(1) old(3) by (simp add: lifetime_synced_def side_step_def transition_ok_def)
qed

lemma synced_joiner:
  assumes "lifetime_synced (\<not> i) x" and "sy_sent x (\<not> i) = got @ arriving"
    and "effect (sy_session x i) got sent s'" and "mode_of x i = Invitation False"
  shows "lifetime_synced (\<not> i) (side_step i s' sent tasks' c (x\<lparr>sy_sent := (sy_sent x)(\<not> i := arriving)\<rparr>))"
proof -
  let ?c = "machine_of x (\<not> i)"
  have st: "lm_state (se_lifetime s') = last (lm_state (machine_of x i) # lifetimes got)"
    and flag: "last (lm_local_transfer_active (machine_of x i) # actives sent) = lm_local_transfer_active (se_lifetime s')"
    using assms(3,4) by (simp_all add: effect_def)
  have old: "successively follows (lm_state (machine_of x i) # lifetimes got @ lifetimes arriving)"
    "last (lm_state (machine_of x i) # lifetimes got @ lifetimes arriving) = lm_state ?c"
    "last (lm_peer_transfer_active ?c # actives (sy_sent x i)) = lm_local_transfer_active (machine_of x i)" "deadline_ok ?c"
    using assms(1,2) by (simp_all add: lifetime_synced_def)
  have "successively follows (lm_state (se_lifetime s') # lifetimes arriving)"
    "last (lm_state (se_lifetime s') # lifetimes arriving) = lm_state ?c"
    using successively_tail [OF old(1)] old(2) by (simp_all only: st last_append_Cons)
  moreover have "last (lm_peer_transfer_active ?c # actives (sy_sent x i) @ actives sent) = lm_local_transfer_active (se_lifetime s')"
    using old(3) flag by (simp only: last_append_Cons)
  ultimately show ?thesis
    using old(4) by (simp add: lifetime_synced_def side_step_def)
qed

lemma side_step_inv:
  assumes inv: "pair_inv x" and got: "sy_sent x (\<not> i) = got @ arriving"
    and eff: "effect (sy_session x i) got sent s'" and tasks: "list_all task_ok tasks'"
    and own: "mset (option_list (os_pending_local (se_offers (sy_session x i)))) + mset (task_offers tasks') + mset (offers_sent sent)
      = mset (option_list (os_pending_local (se_offers s'))) + mset (replies got) + mset (task_offers (sy_tasks x i))"
    and peer: "mset (option_list (os_pending_remote (se_offers s'))) + mset (task_replies tasks') + mset (replies sent)
      = mset (option_list (os_pending_remote (se_offers (sy_session x i)))) + mset (offers_sent got) + mset (task_replies (sy_tasks x i))"
  shows "pair_inv (side_step i s' sent tasks' c (x\<lparr>sy_sent := (sy_sent x)(\<not> i := arriving)\<rparr>))" (is "pair_inv ?y")
proof -
  have m: "mode_of ?y j = mode_of x j" for j
    using eff by (auto simp: side_step_def effect_def)
  have sent: "sy_sent ?y i = sy_sent x i @ sent" "sy_sent ?y (\<not> i) = arriving"
    and ses: "sy_session ?y i = s'" "sy_session ?y (\<not> i) = sy_session x (\<not> i)"
    and tsk: "sy_tasks ?y i = tasks'" "sy_tasks ?y (\<not> i) = sy_tasks x (\<not> i)"
    by (simp_all add: side_step_def)
  have "offers_in_play i ?y + (mset (task_offers (sy_tasks x i)) + mset (replies got))
      = offers_in_play i x + (mset (task_offers tasks') + mset (offers_sent sent))"
    by (simp add: offers_in_play_def sent ses tsk got ac_simps)
  also have "\<dots> = mset (option_list (os_pending_local (se_offers s'))) + (mset (task_offers (sy_tasks x i)) + mset (replies got))"
    using own pair_invD(4) [OF inv, of i] by (simp add: ac_simps)
  finally have "offers_in_play i ?y = mset (option_list (os_pending_local (se_offers (sy_session ?y i))))"
    by (simp add: ses)
  moreover
  have "offers_in_play (\<not> i) ?y + (mset (option_list (os_pending_remote (se_offers (sy_session x i)))) + mset (offers_sent got)
        + mset (task_replies (sy_tasks x i)))
      = offers_in_play (\<not> i) x + (mset (option_list (os_pending_remote (se_offers s'))) + mset (task_replies tasks') + mset (replies sent))"
    by (simp add: offers_in_play_def sent ses tsk got ac_simps)
  then have "offers_in_play (\<not> i) ?y = offers_in_play (\<not> i) x"
    unfolding peer by simp
  then have "offers_in_play (\<not> i) ?y = mset (option_list (os_pending_local (se_offers (sy_session ?y (\<not> i)))))"
    using pair_invD(4) [OF inv, of "\<not> i"] by (simp add: ses)
  ultimately have tokens: "offers_in_play j ?y = mset (option_list (os_pending_local (se_offers (sy_session ?y j))))" for j
    by (rule both_sides)
  have "list_all (sendable (mode_of x i)) (sy_sent x i @ sent)" "list_all (sendable (mode_of x (\<not> i))) arriving"
    using pair_invD(2) [OF inv, of i] pair_invD(2) [OF inv, of "\<not> i"] eff got by (simp_all add: effect_def)
  then have "list_all (sendable (mode_of ?y i)) (sy_sent ?y i)" "list_all (sendable (mode_of ?y (\<not> i))) (sy_sent ?y (\<not> i))"
    by (simp_all add: m sent)
  then have sends: "list_all (sendable (mode_of ?y j)) (sy_sent ?y j)" for j
    by (rule both_sides)
  have "list_all task_ok (sy_tasks ?y i)" "list_all task_ok (sy_tasks ?y (\<not> i))"
    using pair_invD(3) [OF inv] by (simp_all add: tsk tasks)
  then have tasks: "list_all task_ok (sy_tasks ?y j)" for j
    by (rule both_sides)
  have mm: "modes_match (mode_of x True) (mode_of x False)"
    using pair_invD(1) [OF inv] .
  have syncs: "lifetime_synced j ?y" if "mode_of ?y j = Invitation True" for j
  proof (cases "j = i")
    case True
    with that m show ?thesis
      using synced_creator [OF pair_invD(5) [OF inv] got eff] by simp
  next
    case False
    then have "j = (\<not> i)" by simp
    with that m mm have "mode_of x (\<not> i) = Invitation True" "mode_of x i = Invitation False"
      by (cases i; auto simp: modes_match_def split: RoomControlSessionMode.splits)+
    with \<open>j = (\<not> i)\<close> show ?thesis
      using synced_joiner [OF pair_invD(5) [OF inv] got eff] by simp
  qed
  have "machine_of ?y j = machine_new lifetime_remembered" if "mode_is_remembered (mode_of ?y j)" for j
    using that pair_invD(6) [OF inv, of j] eff m [of j] by (cases "j = i") (auto simp: side_step_def effect_def)
  with mm tokens sends tasks syncs show ?thesis
    by (simp add: pair_inv_def m)
qed

section \<open>Incoming messages and offers\<close>

lemma remember_pending [simp]:
  "os_pending_local (remember i o') = os_pending_local o'" "os_pending_remote (remember i o') = os_pending_remote o'"
  by (simp_all add: remember_def Let_def split: prod.splits)

text \<open>The offers of a session before and after it received \<open>got\<close> and sent \<open>sent\<close>.\<close>

definition offers_moved :: "RoomControlSession \<Rightarrow> ControlMessage list \<Rightarrow> ControlMessage list \<Rightarrow> RoomControlSession \<Rightarrow> bool" where
  "offers_moved s got sent s' \<longleftrightarrow>
     mset (option_list (os_pending_local (se_offers s))) + mset (offers_sent sent)
       = mset (option_list (os_pending_local (se_offers s'))) + mset (replies got)
     \<and> mset (option_list (os_pending_remote (se_offers s'))) + mset (replies sent)
       = mset (option_list (os_pending_remote (se_offers s))) + mset (offers_sent got)"

lemma still_effect:
  assumes "lifetimes got = []" "actives got = []" "lifetimes sent = []" "actives sent = []"
    and "list_all (sendable (se_mode s)) sent" and "se_mode s' = se_mode s" and "se_lifetime s' = se_lifetime s"
  shows "effect s got sent s'"
  using assms by (auto simp: effect_def transition_ok_def intro!: exI [of _ None])

lemma handle_offer_effect:
  assumes "handle_offer parse_for_role secs Sent offer s = (Inr event, s', sent, c)"
  shows "effect s [TransferOffer offer] sent s' \<and> offers_moved s [TransferOffer offer] sent s'"
  using assms
  by (auto simp: handle_offer_def send_message_def Let_def offers_moved_def sendable_def intro!: still_effect
      split: sum.splits if_splits)

lemma resolve_local_effect:
  assumes "resolve_local_offer offer_id s = Inr s'" and "replies [m] = [offer_id]" and "is_reply m"
  shows "effect s [m] [] s' \<and> offers_moved s [m] [] s'"
  using assms
  by (auto simp: resolve_local_offer_def offers_moved_def is_reply_def intro!: still_effect split: ControlMessage.splits)

lemma creator_receives:
  assumes "update_creator_lifetime transition now Sent s = (Inr r, s', sent, c)" and "se_mode s = Invitation True"
    and "\<And>millis m'. transition millis (se_lifetime s) = (Inr r, m')
      \<Longrightarrow> transition_ok (se_lifetime s) r m'
        \<and> lm_peer_transfer_active m' = last (lm_peer_transfer_active (se_lifetime s) # actives [m])"
    and "replies [m] = []" and "offers_sent [m] = []"
  shows "effect s [m] sent s' \<and> offers_moved s [m] sent s'"
proof -
  obtain millis m' where m: "transition millis (se_lifetime s) = (Inr r, m')" "s' = s\<lparr>se_lifetime := m'\<rparr>"
    "sent = map LifetimeChanged (option_list r)"
    using update_creator_Inr [OF assms(1)] by blast
  then have "lifetimes sent = option_list r" "offers_sent sent = []" "replies sent = []" "list_all (sendable (se_mode s)) sent"
    using assms(2) by (cases r; simp add: sendable_def mode_is_creator_def)+
  with m assms(2,4,5) assms(3) [OF m(1)] show ?thesis
    by (auto simp: effect_def mode_is_remembered_def offers_moved_def)
qed

lemma lifetime_event_Inr:
  "lifetime_event res = (Inr event, s', sent, c) \<Longrightarrow> \<exists>r. res = (Inr r, s', sent, c)"
  by (cases res) (auto simp: lifetime_event_def)

lemma of_session_Inr [simp]:
  "of_session s r event = (Inr event', s', sent, c) \<longleftrightarrow> r = Inr s' \<and> event' = event \<and> sent = [] \<and> \<not> c"
  by (auto simp: of_session_def split: sum.splits)

lemma apply_authoritative_Inr:
  "apply_authoritative state m = Inr m' \<Longrightarrow> m' = m\<lparr>lm_state := state\<rparr>"
  by (auto simp: apply_authoritative_def)

lemma handle_effect:
  assumes "handle_message parse_for_role secs millis Sent m s = (Inr event, s', sent, c)"
  shows "effect s [m] sent s' \<and> offers_moved s [m] sent s'"
proof (cases m)
  case (TransferOffer offer)
  with assms show ?thesis by (simp add: handle_message_def handle_offer_effect)
next
  case (OfferAccepted i)
  with assms show ?thesis by (auto simp: handle_message_def is_reply_def intro!: resolve_local_effect [THEN conjunct1] resolve_local_effect [THEN conjunct2])
next
  case (OfferRejected i reason)
  with assms show ?thesis by (auto simp: handle_message_def is_reply_def intro!: resolve_local_effect [THEN conjunct1] resolve_local_effect [THEN conjunct2])
next
  case (LifetimeChanged state)
  with assms have "se_mode s = Invitation False" "s' = s\<lparr>se_lifetime := (se_lifetime s)\<lparr>lm_state := state\<rparr>\<rparr>" "sent = []"
    by (cases "se_mode s"; auto simp: handle_message_def mode_is_creator_def mode_is_remembered_def
        dest: apply_authoritative_Inr split: if_splits)+
  with LifetimeChanged show ?thesis
    by (auto simp: effect_def offers_moved_def mode_is_remembered_def)
next
  case Activity
  with assms obtain r where cr: "se_mode s = Invitation True"
    and u: "update_creator_lifetime machine_note_activity millis Sent s = (Inr r, s', sent, c)"
    by (auto simp: handle_message_def mode_cases dest!: lifetime_event_Inr split: if_splits)
  show ?thesis
    by (rule creator_receives [OF u cr]) (use Activity note_activity_ok in auto)
next
  case (TransferActive active)
  with assms obtain r where cr: "se_mode s = Invitation True"
    and u: "update_creator_lifetime (machine_set_peer active) millis Sent s = (Inr r, s', sent, c)"
    by (auto simp: handle_message_def mode_cases dest!: lifetime_event_Inr split: if_splits)
  show ?thesis
    by (rule creator_receives [OF u cr]) (use TransferActive set_peer_ok in auto)
qed (use assms in \<open>auto simp: handle_message_def send_message_def offers_moved_def sendable_def intro!: still_effect split: if_splits\<close>)

section \<open>Every step keeps the invariant\<close>

lemma keep_stream: "side_step i s sent ts c (x\<lparr>sy_sent := (sy_sent x)(\<not> i := sy_sent x (\<not> i))\<rparr>) = side_step i s sent ts c x"
  by simp

lemma own_step_inv:
  assumes "pair_inv x" and "effect (sy_session x i) [] sent s'" and "list_all task_ok tasks'"
    and "mset (option_list (os_pending_local (se_offers (sy_session x i)))) + mset (task_offers tasks') + mset (offers_sent sent)
      = mset (option_list (os_pending_local (se_offers s'))) + mset (task_offers (sy_tasks x i))"
    and "mset (option_list (os_pending_remote (se_offers s'))) + mset (task_replies tasks') + mset (replies sent)
      = mset (option_list (os_pending_remote (se_offers (sy_session x i)))) + mset (task_replies (sy_tasks x i))"
  shows "pair_inv (side_step i s' sent tasks' c x)"
  using side_step_inv [OF assms(1) _ assms(2,3), of "sy_sent x (\<not> i)" c] assms(4,5) by (simp only: keep_stream append_Nil flight_Nil mset.simps add_0_right)

lemma local_step_inv:
  assumes "pair_inv x" and "local_effect (sy_session x i) sent s'" and "list_all task_ok tasks'"
    and "task_offers tasks' = task_offers (sy_tasks x i)" and "task_replies tasks' = task_replies (sy_tasks x i)"
  shows "pair_inv (side_step i s' sent tasks' c x)"
  using assms by (intro own_step_inv) (auto simp: local_effect_def)

lemma offer_begin_Inr:
  assumes "offer_begin parse_for_role secs offer s = Inr s'"
  shows "os_pending_local (se_offers s) = None \<and> os_pending_local (se_offers s') = Some (ro_offer_id offer)
     \<and> os_pending_remote (se_offers s') = os_pending_remote (se_offers s) \<and> effect s [] [] s'"
  using assms by (auto simp: offer_begin_def Let_def intro!: still_effect)

lemma resolve_remote_Inr:
  assumes "resolve_remote_offer offer_id s = Inr s'"
  shows "os_pending_remote (se_offers s) = Some offer_id \<and> os_pending_remote (se_offers s') = None
     \<and> os_pending_local (se_offers s') = os_pending_local (se_offers s) \<and> effect s [] [] s'"
  using assms by (auto simp: resolve_remote_offer_def intro!: still_effect)

lemma pair_step_inv:
  assumes "pair_step parse_for_role x y" and inv: "pair_inv x"
  shows "pair_inv y"
  using assms(1)
proof cases
  case (begins i secs offer s')
  with pair_invD(3) [OF inv, of i] show ?thesis
    using offer_begin_Inr [of parse_for_role secs offer "sy_session x i" s'] by (auto intro!: own_step_inv [OF inv] simp: task_ok_def)
next
  case (offer_notes i before offer after millis r s' sent c)
  with pair_invD(3) [OF inv, of i] show ?thesis
    using note_activity_effect [of millis "sy_session x i" r s' sent c] by (auto intro!: local_step_inv [OF inv] simp: task_ok_def)
next
  case (offer_sends i before offer after)
  with pair_invD(3) [OF inv, of i] show ?thesis
    by (auto intro!: own_step_inv [OF inv] still_effect simp: sendable_def)
next
  case (resolves i offer_id s' response reason)
  with pair_invD(3) [OF inv, of i] show ?thesis
    using resolve_remote_Inr [of offer_id "sy_session x i" s'] by (auto intro!: own_step_inv [OF inv] simp: task_ok_def is_reply_def)
next
  case (reply_notes i before response after millis r s' sent c)
  with pair_invD(3) [OF inv, of i] show ?thesis
    using note_activity_effect [of millis "sy_session x i" r s' sent c] by (auto intro!: local_step_inv [OF inv] simp: task_ok_def)
next
  case (reply_sends i before response after)
  with pair_invD(3) [OF inv, of i] show ?thesis
    by (auto intro!: own_step_inv [OF inv] still_effect simp: sendable_def task_ok_def is_reply_def split: ControlMessage.splits)
next
  case (receives i message arriving secs millis event s' sent c)
  then have "effect (sy_session x i) [message] sent s'" "offers_moved (sy_session x i) [message] sent s'"
    using handle_effect by blast+
  with receives pair_invD(3) [OF inv, of i] show ?thesis
    using side_step_inv [OF inv, of i "[message]" arriving sent s' "sy_tasks x i" c]
    by (simp add: consume_def offers_moved_def ac_simps)
next
  case (hints i millis r s' sent c)
  with note_activity_effect [OF hints(3)] pair_invD(3) [OF inv] show ?thesis
    by (auto intro!: local_step_inv [OF inv])
next
  case (sets_policy i millis policy r s' sent c)
  with set_policy_effect [OF sets_policy(3)] pair_invD(3) [OF inv] show ?thesis
    by (auto intro!: local_step_inv [OF inv])
next
  case (sets_active i millis active r s' sent c)
  with set_active_effect [OF sets_active(3)] pair_invD(3) [OF inv] show ?thesis
    by (auto intro!: local_step_inv [OF inv])
next
  case (pings i nonce s' sent c)
  with ping_effect [OF pings(3)] pair_invD(3) [OF inv] show ?thesis
    by (auto intro!: local_step_inv [OF inv])
next
  case (closes i millis reason s' sent c)
  with close_effect [OF closes(3)] pair_invD(3) [OF inv] show ?thesis
    by (auto intro!: local_step_inv [OF inv])
qed

end
