(* ===== verification/Room_Control_Properties.thy ===== *)
theory Room_Control_Properties
  imports Room_System_Inv
begin

text \<open>
  Results on room control: when a hello is accepted, that two sessions of this code never break the
  protocol and agree when nothing is in flight, and that a failing operation leaves its session alone
  or closes the connection.
\<close>

section \<open>The hello\<close>

definition agreed_lifetime :: "RoomControlSessionMode \<Rightarrow> u64 \<Rightarrow> RoomControlSessionMode \<Rightarrow> u64 \<Rightarrow> RoomLifetimeState" where
  "agreed_lifetime mode now mode' now' =
     (if mode_is_creator mode then lifetime_initial now
      else if mode_is_creator mode' then lifetime_initial now' else lifetime_remembered)"

lemma initial_valid [simp]: "validate_initial_lifetime (lifetime_initial now) = Inr ()"
  by (simp add: validate_initial_lifetime_def lifetime_validate_def lifetime_initial_def)

lemma session_new_eq:
  "session_new mode now binding broker relay (local_hello mode' now' name binding') = Inr s \<longleftrightarrow>
     modes_match mode mode' \<and> binding' = binding \<and> validate_display_name name = Inr ()
     \<and> s = \<lparr>se_offers = offer_state_default, se_lifetime = machine_new (agreed_lifetime mode now mode' now'),
         se_broker = broker, se_relay = relay, se_peer_name = name, se_mode = mode\<rparr>"
  by (cases mode; cases mode')
    (auto simp: session_new_def local_hello_def validate_control_hello_def local_lifetime_def agreed_lifetime_def
      mode_session_kind_def mode_is_creator_def modes_match_def split: bool.splits)

text \<open>
  The hello of a peer that runs this code is accepted exactly when one side created the room and the other joins
  it, or both reopen a remembered one, when both streams are bound to the same pairing, and when the
  peer's name is acceptable; both sides then start from the same lifetime.
\<close>

theorem control_hello_accepted_iff:
  "(\<exists>s. session_new mode now binding broker relay (local_hello mode' now' name binding') = Inr s
        \<and> lm_state (se_lifetime s) = agreed_lifetime mode now mode' now')
     \<longleftrightarrow> modes_match mode mode' \<and> binding' = binding \<and> validate_display_name name = Inr ()"
  by (auto simp: session_new_eq machine_new_def)

section \<open>Two sessions\<close>

lemma modes_match_sym: "modes_match a b = modes_match b a"
  by (auto simp: modes_match_def split: RoomControlSessionMode.splits)

lemma modes_match_cases:
  assumes "modes_match a b"
  shows "a = Invitation True \<and> b = Invitation False \<or> a = Invitation False \<and> b = Invitation True
     \<or> mode_is_remembered a \<and> mode_is_remembered b"
  using assms by (auto simp: modes_match_def mode_is_remembered_def split: RoomControlSessionMode.splits)

lemma reachable_inv: "pair_reachable parse_for_role x \<Longrightarrow> pair_inv x"
proof (induction rule: pair_reachable.induct)
  case (start mode now binding broker relay name ses)
  let ?x = "\<lparr>sy_session = ses, sy_sent = \<lambda>i. [], sy_tasks = \<lambda>i. [], sy_closed = \<lambda>i. False\<rparr>"
  have s: "modes_match (mode i) (mode (\<not> i))" "se_mode (ses i) = mode i" "se_offers (ses i) = offer_state_default"
      "se_lifetime (ses i) = machine_new (agreed_lifetime (mode i) (now i) (mode (\<not> i)) (now (\<not> i)))" for i
    using start [of i] by (auto simp: session_new_eq)
  have "lifetime_synced c ?x" if c: "mode c = Invitation True" for c
  proof -
    have "mode (\<not> c) = Invitation False"
      using s(1) [of c] c by (auto dest: modes_match_cases simp: mode_is_remembered_def)
    with c show ?thesis
      by (simp add: lifetime_synced_def s machine_new_def agreed_lifetime_def mode_is_creator_def deadline_ok_def
          any_transfer_active_def lifetime_initial_def)
  qed
  moreover have "se_lifetime (ses i) = machine_new lifetime_remembered" if "mode_is_remembered (mode i)" for i
    using that s(1) [of i] by (auto simp: s agreed_lifetime_def mode_is_creator_def mode_is_remembered_def modes_match_def
        split: RoomControlSessionMode.splits)
  moreover have "modes_match (mode True) (mode False)"
    using s(1) [of True] by simp
  ultimately show ?case
    by (simp add: pair_inv_def s offers_in_play_def offer_state_default_def)
next
  case (step x y)
  then show ?case using pair_step_inv by blast
qed

lemma offer_validate_no_protocol: "offer_validate parse_for_role secs b r offer \<noteq> Inl (Protocol e)"
  by (auto simp: offer_validate_def bindR_def rejectR_def ok_or_def split: sum.splits option.splits if_splits)

lemma creator_update_protocol:
  assumes "update_creator_lifetime transition now io s = (Inl (Protocol e), s', sent, c)"
    and "\<And>millis m e'. transition millis (se_lifetime s) = (Inl e', m) \<Longrightarrow> e' = Protocol Revision_exhausted
      \<and> unat (rl_revision (lm_state (se_lifetime s))) = 2 ^ 64 - 1"
  shows "e = Revision_exhausted \<and> unat (rl_revision (lm_state (se_lifetime s))) = 2 ^ 64 - 1"
  using assms(1) by (auto simp: update_creator_lifetime_def Let_def send_message_def close_on_error_def
      split: option.splits sum.splits prod.splits SendIo.splits dest: assms(2))

lemma transition_errors:
  "machine_note_activity now m = (Inl e, m') \<Longrightarrow> e = Protocol Revision_exhausted \<and> unat (rl_revision (lm_state m)) = 2 ^ 64 - 1"
  "machine_set_peer active now m = (Inl e, m') \<Longrightarrow> e = Protocol Revision_exhausted \<and> unat (rl_revision (lm_state m)) = 2 ^ 64 - 1"
  using advance_Inl [of _ _ e m']
  by (auto simp: machine_note_activity_def machine_set_peer_def apply_transfer_edge_def Let_def split: if_splits dest!: advance_Inl)

lemma lifetime_event_Inl:
  "lifetime_event res = (Inl e, s', sent, c) \<Longrightarrow> res = (Inl e, s', sent, c)"
  by (cases res) (auto simp: lifetime_event_def bindR_def split: sum.splits)

lemma of_session_Inl [simp]:
  "of_session s r event = (Inl e, s', sent, c) \<longleftrightarrow> r = Inl e \<and> s' = s \<and> sent = [] \<and> \<not> c"
  by (auto simp: of_session_def split: sum.splits)

text \<open>A response that arrives is to the offer that is pending.\<close>

lemma reply_pending:
  assumes "pair_inv x" and "sy_sent x (\<not> i) = m # arriving" and "replies [m] = [offer_id]"
  shows "os_pending_local (se_offers (sy_session x i)) = Some offer_id"
proof -
  have "replies (sy_sent x (\<not> i)) = offer_id # replies arriving"
    using assms(2,3) flight_append(4) [of "[m]" arriving] by simp
  then have "offer_id \<in># offers_in_play i x"
    by (simp add: offers_in_play_def)
  then show ?thesis
    using pair_invD(4) [OF assms(1), of i] by (cases "os_pending_local (se_offers (sy_session x i))") auto
qed

text \<open>A lifetime that arrives follows the one in place.\<close>

lemma lifetime_follows:
  assumes "pair_inv x" and "sy_sent x (\<not> i) = LifetimeChanged state # arriving"
  shows "mode_of x i = Invitation False \<and> follows (lm_state (machine_of x i)) state"
proof -
  have "sendable (mode_of x (\<not> i)) (LifetimeChanged state)"
    using pair_invD(2) [OF assms(1), of "\<not> i"] assms(2) by simp
  then have c: "mode_of x (\<not> i) = Invitation True"
    by (simp add: sendable_def mode_cases)
  moreover from this have "lifetime_synced (\<not> i) x"
    using pair_invD(5) [OF assms(1)] by blast
  then have "follows (lm_state (machine_of x i)) state"
    using assms(2) by (simp add: lifetime_synced_def)
  moreover have "modes_match (mode_of x i) (mode_of x (\<not> i))"
    using pair_invD(1) [OF assms(1)] by (cases i) (simp_all add: modes_match_sym)
  ultimately show ?thesis
    by (auto dest!: modes_match_cases simp: mode_is_remembered_def)
qed

lemma follows_accepted: "follows (lm_state m) state \<Longrightarrow> \<exists>m'. apply_authoritative state m = Inr m'"
  by (auto simp: follows_def apply_authoritative_def checked_add_Some_iff word_le_nat_alt)

lemma sendable_handled:
  assumes "sendable mode' m" and "modes_match (se_mode s) mode'"
    and "handle_message parse_for_role secs millis io m s = (Inl (Protocol e), s', sent, c)"
    and "\<And>offer_id. replies [m] = [offer_id] \<Longrightarrow> os_pending_local (se_offers s) = Some offer_id"
    and "\<And>state. m = LifetimeChanged state \<Longrightarrow> se_mode s = Invitation False \<and> follows (lm_state (se_lifetime s)) state"
  shows "e = Revision_exhausted \<and> unat (rl_revision (lm_state (se_lifetime s))) = 2 ^ 64 - 1"
proof (cases m)
  case (TransferOffer offer)
  with assms(3) show ?thesis
    by (auto simp: handle_message_def handle_offer_def send_message_def Let_def offer_validate_no_protocol
        split: sum.splits if_splits SendIo.splits prod.splits)
next
  case (OfferAccepted offer_id)
  with assms(3,4) show ?thesis by (auto simp: handle_message_def resolve_local_offer_def)
next
  case (OfferRejected offer_id reason)
  with assms(3,4) show ?thesis by (auto simp: handle_message_def resolve_local_offer_def)
next
  case (LifetimeChanged state)
  with assms(5) obtain m' where "apply_authoritative state (se_lifetime s) = Inr m'" "se_mode s = Invitation False"
    using follows_accepted by blast
  with LifetimeChanged assms(3) show ?thesis
    by (auto simp: handle_message_def mode_is_creator_def mode_is_remembered_def)
next
  case Activity
  with assms(1,2) have "se_mode s = Invitation True"
    by (auto dest!: modes_match_cases simp: sendable_def mode_is_creator_def)
  with Activity assms(3) show ?thesis
    using creator_update_protocol transition_errors(1)
    by (auto simp: handle_message_def mode_is_creator_def mode_is_remembered_def dest!: lifetime_event_Inl)
next
  case (TransferActive active)
  with assms(1,2) have "se_mode s = Invitation True"
    by (auto dest!: modes_match_cases simp: sendable_def mode_is_creator_def)
  with TransferActive assms(3) show ?thesis
    using creator_update_protocol transition_errors(2)
    by (auto simp: handle_message_def mode_is_creator_def mode_is_remembered_def dest!: lifetime_event_Inl)
next
  case (Close reason)
  with assms(1-3) show ?thesis
    by (auto simp: handle_message_def sendable_def mode_cases split: if_splits dest!: modes_match_cases)
qed (use assms in \<open>auto simp: handle_message_def send_message_def sendable_def split: SendIo.splits\<close>)

text \<open>
  C13: two sessions of this code never break the protocol, however their operations interleave. Whatever message
  is next on the stream, the receiver does not answer it with a protocol error (a response to an unknown offer,
  a lifetime that does not advance or from the wrong side, an activity hint or an expiry from the
  wrong side, a second hello), except when the 64-bit revision of the room's lifetime is used up.
\<close>

theorem room_sessions_keep_protocol:
  assumes "pair_reachable parse_for_role x" and "sy_sent x (\<not> i) = message # arriving"
    and "unat (rl_revision (lm_state (machine_of x i))) < 2 ^ 64 - 1"
  shows "fst (handle_message parse_for_role secs millis io message (sy_session x i)) \<noteq> Inl (Protocol e)"
proof
  assume err: "fst (handle_message parse_for_role secs millis io message (sy_session x i)) = Inl (Protocol e)"
  obtain res s' sent c where h: "handle_message parse_for_role secs millis io message (sy_session x i) = (res, s', sent, c)"
    by (cases "handle_message parse_for_role secs millis io message (sy_session x i)")
  have inv: "pair_inv x"
    using assms(1) by (rule reachable_inv)
  have "sendable (mode_of x (\<not> i)) message"
    using pair_invD(2) [OF inv, of "\<not> i"] assms(2) by simp
  moreover have "modes_match (mode_of x i) (mode_of x (\<not> i))"
    using pair_invD(1) [OF inv] by (cases i) (simp_all add: modes_match_sym)
  ultimately have "unat (rl_revision (lm_state (machine_of x i))) = 2 ^ 64 - 1"
    using sendable_handled [of "mode_of x (\<not> i)" message "sy_session x i" parse_for_role secs millis io e s' sent c]
      h err reply_pending [OF inv assms(2)] lifetime_follows [OF inv, of i] assms(2) by simp
  with assms(3) show False by simp
qed

text \<open>A room whose creator is on the side \<open>True\<close>, and the same room after a ping.\<close>

definition sample_session :: "bool \<Rightarrow> RoomControlSession" where
  "sample_session i = \<lparr>se_offers = offer_state_default, se_lifetime = machine_new (lifetime_initial 0), se_broker = [],
     se_relay = None, se_peer_name = ascii ''a'', se_mode = Invitation i\<rparr>"

definition sample_room :: RoomSystem where
  "sample_room = \<lparr>sy_session = sample_session, sy_sent = (\<lambda>i. []), sy_tasks = (\<lambda>i. []), sy_closed = (\<lambda>i. False)\<rparr>"

definition pinged_room :: RoomSystem where
  "pinged_room = side_step True (sample_session True) [Ping 7] [] False sample_room"

lemma sample_room_reachable: "pair_reachable (\<lambda>i t. None) sample_room"
proof -
  have "trim (ascii ''a'') = ascii ''a''"
    by (rule trim_printable) (simp_all add: ascii_def of_char_def printable_def)
  then have "validate_display_name (ascii ''a'') = Inr ()"
    by (simp add: validate_display_name_def chars_def ascii_def of_char_def is_control_def)
  then have "session_new (Invitation i) 0 [] [] None (local_hello (Invitation (\<not> i)) 0 (ascii ''a'') []) = Inr (sample_session i)" for i
    by (simp add: session_new_eq sample_session_def modes_match_def agreed_lifetime_def mode_is_creator_def)
  from pair_reachable.start [where mode = Invitation and now = "\<lambda>i. 0" and binding = "\<lambda>i. []" and broker = "\<lambda>i. []"
      and relay = "\<lambda>i. None" and name = "\<lambda>i. ascii ''a''", OF this]
  show ?thesis by (simp add: sample_room_def)
qed

lemma pinged_room_reachable: "pair_reachable (\<lambda>i t. None) pinged_room"
proof (rule pair_reachable.step [OF sample_room_reachable])
  have "ping Sent 7 (sy_session sample_room True) = (Inr (), sample_session True, [Ping 7], False)"
    by (simp add: ping_def send_message_def sample_room_def)
  from pair_step.pings [OF _ this] show "pair_step (\<lambda>i t. None) sample_room pinged_room"
    by (simp add: pinged_room_def sample_room_def)
qed

theorem room_sessions_keep_protocol_witness:
  "fst (handle_message (\<lambda>i t. None) None None Sent (Ping 7) (sample_session False)) \<noteq> Inl (Protocol Duplicate_hello)"
proof -
  have "sy_sent pinged_room (\<not> False) = [Ping 7]" "sy_session pinged_room False = sample_session False"
    by (simp_all add: pinged_room_def side_step_def sample_room_def)
  moreover have "unat (rl_revision (lm_state (se_lifetime (sample_session False)))) < 2 ^ 64 - 1"
    by (simp add: sample_session_def machine_new_def lifetime_initial_def)
  ultimately show ?thesis
    using room_sessions_keep_protocol [OF pinged_room_reachable, of False "Ping 7" "[]"] by simp
qed

text \<open>
  C14: when nothing is in flight and no call is under way, both sides agree: the same lifetime, an offer that one side
  waits for is the one the other side has to decide, and the creator knows whether the joiner is transferring. The idle
  deadline is set exactly while the policy asks for it and nobody is transferring.
\<close>

theorem room_sessions_agree:
  assumes "pair_reachable parse_for_role x" and "\<And>i. sy_sent x i = []" and "\<And>i. sy_tasks x i = []"
  shows "lm_state (machine_of x True) = lm_state (machine_of x False)
     \<and> (\<forall>i. os_pending_local (se_offers (sy_session x i)) = os_pending_remote (se_offers (sy_session x (\<not> i))))
     \<and> (\<forall>c. mode_of x c = Invitation True \<longrightarrow>
          lm_peer_transfer_active (machine_of x c) = lm_local_transfer_active (machine_of x (\<not> c))
          \<and> (rl_idle_deadline_unix_ms (lm_state (machine_of x c)) \<noteq> None
              \<longleftrightarrow> rl_policy (lm_state (machine_of x c)) = Idle15Minutes
                \<and> \<not> lm_local_transfer_active (machine_of x c) \<and> \<not> lm_local_transfer_active (machine_of x (\<not> c))))"
proof -
  have inv: "pair_inv x"
    using assms(1) by (rule reachable_inv)
  have sync: "lm_state (machine_of x (\<not> c)) = lm_state (machine_of x c)
      \<and> lm_peer_transfer_active (machine_of x c) = lm_local_transfer_active (machine_of x (\<not> c)) \<and> deadline_ok (machine_of x c)"
    if "mode_of x c = Invitation True" for c
    using pair_invD(5) [OF inv that] assms(2) by (simp add: lifetime_synced_def)
  have "lm_state (machine_of x True) = lm_state (machine_of x False)"
    using modes_match_cases [OF pair_invD(1) [OF inv]] sync [of True] sync [of False] pair_invD(6) [OF inv] by auto
  moreover have "os_pending_local (se_offers (sy_session x i)) = os_pending_remote (se_offers (sy_session x (\<not> i)))" for i
    using pair_invD(4) [OF inv, of i] assms(2,3)
    by (auto simp: offers_in_play_def option_list_def split: option.splits)
  ultimately show ?thesis
    using sync by (auto simp: deadline_ok_def any_transfer_active_def)
qed

theorem room_sessions_agree_witness:
  "lm_state (machine_of sample_room True) = lm_state (machine_of sample_room False)
   \<and> rl_idle_deadline_unix_ms (lm_state (machine_of sample_room True)) \<noteq> None"
  using room_sessions_agree [OF sample_room_reachable]
  by (simp add: sample_room_def sample_session_def machine_new_def lifetime_initial_def)

section \<open>Failing operations\<close>

text \<open>A failed operation left the session as it was, or closed the connection, or found the revision used up.\<close>

definition failed_safely :: "RoomControlSession \<Rightarrow> SessionError \<Rightarrow> RoomControlSession \<Rightarrow> bool \<Rightarrow> bool" where
  "failed_safely s e s' c \<longleftrightarrow> s' = s \<or> c \<or> e = Protocol Revision_exhausted"

lemma failed_safely_same [simp]: "failed_safely s e s c"
  by (simp add: failed_safely_def)

lemma transitions_fail:
  "machine_note_activity now m = (Inl e, m') \<Longrightarrow> e = Protocol Revision_exhausted"
  "machine_set_local active now m = (Inl e, m') \<Longrightarrow> e = Protocol Revision_exhausted"
  "machine_set_peer active now m = (Inl e, m') \<Longrightarrow> e = Protocol Revision_exhausted"
  "machine_set_policy policy now m = (Inl e, m') \<Longrightarrow> e = Protocol Revision_exhausted"
  by (auto simp: machine_note_activity_def machine_set_local_def machine_set_peer_def machine_set_policy_def
      apply_transfer_edge_def Let_def split: if_splits dest!: advance_Inl)

lemma update_creator_fails:
  assumes "update_creator_lifetime transition now io s = (Inl e, s', sent, c)"
    and "\<And>millis m e'. transition millis (se_lifetime s) = (Inl e', m) \<Longrightarrow> e' = Protocol Revision_exhausted"
  shows "failed_safely s e s' c"
  using assms(1) by (auto simp: failed_safely_def update_creator_lifetime_def Let_def send_message_def close_on_error_def
      split: option.splits sum.splits prod.splits SendIo.splits dest: assms(2))

lemma send_fails: "send_message io m r s = (Inl e, s', sent, c) \<Longrightarrow> failed_safely s e s' c"
  by (auto simp: failed_safely_def send_message_def split: SendIo.splits)

lemma handle_offer_fails: "handle_offer parse_for_role secs io offer s = (Inl e, s', sent, c) \<Longrightarrow> s' = s"
  by (auto simp: handle_offer_def send_message_def Let_def split: sum.splits SendIo.splits if_splits)

lemma offer_transfer_fails:
  "offer_transfer parse_for_role secs millis io1 io2 offer s = (Inl e, s', sent, c) \<Longrightarrow> failed_safely s e s' c"
  by (auto simp: offer_transfer_def failed_safely_def split: sum.splits prod.splits)

lemma respond_offer_fails:
  "respond_offer offer_id m millis io1 io2 s = (Inl e, s', sent, c) \<Longrightarrow> failed_safely s e s' c"
  by (auto simp: respond_offer_def failed_safely_def split: sum.splits prod.splits)

lemma note_activity_fails: "note_activity millis io s = (Inl e, s', sent, c) \<Longrightarrow> failed_safely s e s' c"
  using transitions_fail(1) by (auto simp: note_activity_def split: if_splits intro: send_fails update_creator_fails)

lemma set_policy_fails: "set_policy millis io policy s = (Inl e, s', sent, c) \<Longrightarrow> failed_safely s e s' c"
  using transitions_fail(4) by (auto simp: set_policy_def split: if_splits intro: update_creator_fails)

lemma set_active_fails: "set_local_transfer_active millis io active s = (Inl e, s', sent, c) \<Longrightarrow> failed_safely s e s' c"
proof (cases "se_mode s = Invitation True")
  case True
  assume "set_local_transfer_active millis io active s = (Inl e, s', sent, c)"
  with True have "update_creator_lifetime (machine_set_local active) millis io s = (Inl e, s', sent, c)"
    by (simp add: set_local_transfer_active_def mode_cases)
  then show ?thesis
    using transitions_fail(2) by (rule update_creator_fails)
next
  case False
  assume "set_local_transfer_active millis io active s = (Inl e, s', sent, c)"
  with False show ?thesis
    by (auto simp: set_local_transfer_active_def mode_cases send_message_def close_on_error_def failed_safely_def
        split: if_splits SendIo.splits)
qed

lemma close_fails: "close_session millis io reason s = (Inl e, s', sent, c) \<Longrightarrow> failed_safely s e s' c"
  by (auto simp: close_session_def failed_safely_def split: sum.splits prod.splits)

lemma handle_fails:
  assumes "handle_message parse_for_role secs millis io m s = (Inl e, s', sent, c)"
  shows "failed_safely s e s' c"
proof (cases m)
  case (TransferOffer offer)
  with assms handle_offer_fails show ?thesis
    by (auto simp: handle_message_def failed_safely_def)
next
  case Activity
  with assms show ?thesis
    using transitions_fail(1) by (auto simp: handle_message_def split: if_splits
        dest!: lifetime_event_Inl intro: update_creator_fails)
next
  case (TransferActive active)
  with assms show ?thesis
    using transitions_fail(3) by (auto simp: handle_message_def split: if_splits
        dest!: lifetime_event_Inl intro: update_creator_fails)
next
  case (Ping nonce)
  with assms show ?thesis by (auto simp: handle_message_def intro: send_fails)
qed (use assms in \<open>auto simp: handle_message_def failed_safely_def split: if_splits\<close>)

text \<open>
  C36: a session is never left half changed. When an operation fails, the session is as it was before the
  call, or the connection is closed (an offer, a decision, a policy or a transfer flag that was recorded but
  not sent cannot survive), or the 64-bit revision is used up.
\<close>

theorem failed_operation_safe:
  "(offer_transfer parse_for_role secs millis io1 io2 offer s = (Inl e, s', sent, c) \<longrightarrow> failed_safely s e s' c)
   \<and> (accept_offer millis io1 io2 offer_id s = (Inl e, s', sent, c) \<longrightarrow> failed_safely s e s' c)
   \<and> (reject_offer millis io1 io2 offer_id reason s = (Inl e, s', sent, c) \<longrightarrow> failed_safely s e s' c)
   \<and> (set_policy millis io policy s = (Inl e, s', sent, c) \<longrightarrow> failed_safely s e s' c)
   \<and> (set_local_transfer_active millis io active s = (Inl e, s', sent, c) \<longrightarrow> failed_safely s e s' c)
   \<and> (note_activity millis io s = (Inl e, s', sent, c) \<longrightarrow> failed_safely s e s' c)
   \<and> (close_session millis io close_reason s = (Inl e, s', sent, c) \<longrightarrow> failed_safely s e s' c)
   \<and> (handle_message parse_for_role secs millis io message s = (Inl e, s', sent, c) \<longrightarrow> failed_safely s e s' c)"
  using offer_transfer_fails respond_offer_fails [of offer_id "OfferAccepted offer_id"]
    respond_offer_fails [of offer_id "OfferRejected offer_id reason"] set_policy_fails set_active_fails note_activity_fails
    close_fails handle_fails
  by (simp add: accept_offer_def reject_offer_def)

theorem failed_operation_safe_witness:
  "failed_safely (sample_session False) (InvalidInput Not_the_creator) (sample_session False) False"
proof -
  have "set_policy None Sent UntilForegroundEnds (sample_session False)
      = (Inl (InvalidInput Not_the_creator), sample_session False, [], False)"
    by (simp add: set_policy_def sample_session_def mode_is_remembered_def mode_is_creator_def)
  then show ?thesis
    using failed_operation_safe by blast
qed

end
