(* ===== verification/Job.thy ===== *)
theory Job
  imports Manifest_Offer Rust_Text "HOL-Library.AList"
begin

text \<open>
  \<open>crates/envoix-transfer/src/job.rs\<close>, the canonical transfer job: its data, its small operations
  and its queries. Preparation is in \<open>Job_Prepare\<close>, sealing and the durable check in \<open>Job_Seal\<close>.

  \<open>JobLibs\<close> holds the packages the code calls: BLAKE3, the NFC check and the NFC form. \<open>JobOs\<close> is
  what the operating system answers while one operation runs: the clock, and for each path the
  outcome of each call. An operation asks at most once about a path, so a function of the path is
  no restriction; operations that run one after another take one \<open>JobOs\<close> each. A path is its
  text; Rust compares paths by their components (\<open>path_eq\<close>, \<open>starts_with\<close>). \<open>BTreeMap\<close> is an
  association list with distinct keys: only \<open>get\<close>, \<open>insert\<close>, \<open>retain\<close>, \<open>len\<close> and \<open>keys\<close> are used.

  An operation that changes the job is a function from the job to its result and the job it leaves
  behind (\<open>job_op\<close>), so that what a failed operation has already changed is visible.
\<close>

section \<open>Paths\<close>

type_synonym path = bytes

text \<open>\<open>Path::components\<close>: the root, a leading dot, and the names between separators.\<close>

definition path_components :: "path \<Rightarrow> bytes list" where
  "path_components p =
     (let parts = filter (\<lambda>c. c \<noteq> []) (split_at 0x2F p); names = filter (\<lambda>c. c \<noteq> ascii ''.'') parts in
      if p \<noteq> [] \<and> hd p = 0x2F then ascii ''/'' # names
      else if parts \<noteq> [] \<and> hd parts = ascii ''.'' then ascii ''.'' # names
      else names)"

definition path_eq :: "path \<Rightarrow> path \<Rightarrow> bool" where
  "path_eq p q \<longleftrightarrow> path_components p = path_components q"

definition starts_with :: "path \<Rightarrow> path \<Rightarrow> bool" where
  "starts_with p base \<longleftrightarrow> take (length (path_components base)) (path_components p) = path_components base"

definition path_join :: "path \<Rightarrow> bytes \<Rightarrow> path" where
  "path_join p name =
     (if name \<noteq> [] \<and> hd name = 0x2F then name
      else if p = [] \<or> last p = 0x2F then p @ name
      else p @ ascii ''/'' @ name)"

text \<open>\<open>Path::file_name\<close>: the last component when it is a name.\<close>

definition file_name :: "path \<Rightarrow> bytes option" where
  "file_name p =
     (let cs = path_components p in
      if cs = [] \<or> last cs \<in> {ascii ''/'', ascii ''.'', ascii ''..''} then None else Some (last cs))"

section \<open>The operating system\<close>

datatype IoErrorKind = Io_PermissionDenied | Io_NotFound | Io_Other

datatype FileKind = FK_File | FK_Dir | FK_Symlink | FK_Other

text \<open>\<open>md_modified\<close>: nanoseconds from the epoch, \<open>None\<close> where the platform has none.\<close>

record Metadata =
  md_kind :: FileKind
  md_len :: u64
  md_modified :: "int option"

record JobLibs =
  jl_hash :: "bytes \<Rightarrow> bytes"
  jl_nfc :: "str \<Rightarrow> bool"
  jl_to_nfc :: "str \<Rightarrow> str"

text \<open>
  \<open>os_read_dir\<close> is the opened directory as the sequence of answers of \<open>next_entry\<close>;
  \<open>os_set_order\<close> the order in which a \<open>HashSet\<close> of component lists is iterated.
\<close>

record JobOs =
  os_now :: u64
  os_symlink_metadata :: "path \<Rightarrow> IoErrorKind + Metadata"
  os_metadata :: "path \<Rightarrow> IoErrorKind + Metadata"
  os_canonicalize :: "path \<Rightarrow> IoErrorKind + path"
  os_read_dir :: "path \<Rightarrow> IoErrorKind + (IoErrorKind + bytes) list"
  os_read :: "path \<Rightarrow> IoErrorKind + bytes"
  os_set_order :: "str list list \<Rightarrow> str list list"

section \<open>Data\<close>

type_synonym SourceItemId = u64

definition TRANSFER_JOB_SCHEMA_VERSION :: u16 where
  "TRANSFER_JOB_SCHEMA_VERSION = 1"

definition FIRST_SELECTION_REVISION :: u64 where
  "FIRST_SELECTION_REVISION = 1"

definition FIRST_GENERATION :: u32 where
  "FIRST_GENERATION = 1"

definition FIRST_SOURCE_ITEM_ID :: u64 where
  "FIRST_SOURCE_ITEM_ID = 1"

definition MAX_INVENTORY_PAGE_SIZE :: nat where
  "MAX_INVENTORY_PAGE_SIZE = 512"

datatype LocalSourceOrigin =
  Filesystem | PhotosStaging | ShareStaging | ContentUriStaging | FileProviderStaging

datatype JobLifecycle = Preparing | NeedsSourceDecision | ReadyToSend | Sealed | Canceled

datatype SourceSelectionState = Pending | Enumerating | NeedsDecision | Ready

datatype SourceIssueKind =
  PermissionDenied | Unavailable | InvalidName | SymbolicLink | SpecialFile | SourceChanged
  | DepthLimit | EntryLimit

record SourceIssue =
  si_issue_id :: u64
  si_root_item_id :: SourceItemId
  si_relative_components :: "str list"
  si_kind :: SourceIssueKind

record ProviderSourceIssue =
  ps_relative_components :: "str list"
  ps_kind :: SourceIssueKind

datatype SourceDecision = Reauthorize path | ApprovePartial | RemoveSelection | CancelJob

record AddSourceResult =
  ar_root_item_id :: SourceItemId
  ar_folded_into_existing_selection :: bool
  ar_removed_covered_roots :: "SourceItemId list"

record InventoryCursor =
  cu_revision :: u64
  cu_offset :: u32

record InventoryItem =
  it_item_id :: SourceItemId
  it_root_item_id :: SourceItemId
  it_parent_item_id :: "SourceItemId option"
  it_name :: str
  it_kind :: ManifestEntryKindV2
  it_plaintext_size :: u64
  it_digest_known :: bool
  it_has_warning :: bool

record InventoryPage =
  pg_revision :: u64
  pg_items :: "InventoryItem list"
  pg_next_cursor :: "InventoryCursor option"

record InventorySummary =
  iv_root_count :: u32
  iv_file_count :: u32
  iv_directory_count :: u32
  iv_total_plaintext_bytes :: u64
  iv_warning_count :: u32

text \<open>The texts of \<open>InvalidRecord\<close> as constructors.\<close>

datatype JobRecordFault =
    ProviderOriginLost | FilesystemReauthorization | StagedOriginLost | StagedImportOriginLost
  | ParentAfterChild | SealedFactsMissing | InvalidIdentity | DuplicateItemIds | InvalidSelectionIds
  | InvalidSelectionName | ForeignIssue | InvalidRootReference | EntryBounds | ComponentPathMismatch
  | ParentMissing | InvalidParent | BindingsMismatch | CleanupActive | LifecycleMismatch
  | UnexpectedSeal | SealedIdentity | SealedBytesChanged | IssueIdOverflow | SourceItemIdOverflow
  | RevisionOverflow | StagingEscaped | StagingShape

datatype TransferJobError =
    TJ_Entropy | TJ_SealedMutation | TJ_Canceled
  | TJ_UnknownSelection SourceItemId
  | TJ_UnknownItem SourceItemId
  | TJ_DecisionNotRequired | TJ_EmptyPartialRoot | TJ_PartialNotAllowed | TJ_OverlappingSelection
  | TJ_UnresolvedSourceDecision | TJ_PreparationIncomplete
  | TJ_StaleInventoryCursor u64 u64
  | TJ_InvalidPageLimit | TJ_InvalidComponent | TJ_RootLimit | TJ_EntryLimit | TJ_SourceChanged
  | TJ_NotRegularFile | TJ_SampleLimit
  | TJ_UnsupportedSchema u16
  | TJ_InvalidRecord JobRecordFault
  | TJ_Protocol ManifestV2CodecError
  | TJ_Io IoErrorKind
  | TJ_Json

record SourceFingerprint =
  fp_plaintext_size :: u64
  fp_modified_unix_nanos :: "u64 option"
  fp_canonical_path_digest :: bytes

record LocalSourceBinding =
  lb_path :: path
  lb_origin :: LocalSourceOrigin
  lb_job_owned_staging :: bool
  lb_fingerprint :: SourceFingerprint

record PreparedFileSource =
  pf_path :: path
  pf_fingerprint :: SourceFingerprint

record SourceSelection =
  sl_root_item_id :: SourceItemId
  sl_selection_order :: u32
  sl_requested_name :: str
  sl_path :: path
  sl_canonical_path :: "path option"
  sl_is_directory_hint :: "bool option"
  sl_origin :: LocalSourceOrigin
  sl_job_owned_staging :: bool
  sl_state :: SourceSelectionState
  sl_root_inventory_item_id :: "SourceItemId option"
  sl_completeness :: SourceCompletenessV2
  sl_issues :: "SourceIssue list"

record PreparedInventoryEntry =
  pe_item_id :: SourceItemId
  pe_root_item_id :: SourceItemId
  pe_parent_item_id :: "SourceItemId option"
  pe_relative_components :: "str list"
  pe_name :: str
  pe_kind :: ManifestEntryKindV2
  pe_plaintext_size :: u64
  pe_modified_unix_nanos :: "u64 option"
  pe_digest :: "ContentDigestV2 option"

record SealedTransferJob =
  sj_manifest :: ManifestV2
  sj_structural_digest :: ContentDigestV2
  sj_offer_bytes :: bytes

record CanonicalTransferJob =
  tj_schema_version :: u16
  tj_job_id :: JobIdV2
  tj_created_unix_ms :: u64
  tj_updated_unix_ms :: u64
  tj_selection_revision :: u64
  tj_generation :: u32
  tj_lifecycle :: JobLifecycle
  tj_compression_policy :: CompressionPolicyV2
  tj_next_source_item_id :: u64
  tj_next_issue_id :: u64
  tj_selections :: "SourceSelection list"
  tj_inventory :: "PreparedInventoryEntry list"
  tj_source_bindings :: "(SourceItemId \<times> LocalSourceBinding) list"
  tj_cleanup_pending :: "path list"
  tj_sealed :: "SealedTransferJob option"

section \<open>Operations on a job\<close>

type_synonym 'a job_op = "CanonicalTransferJob \<Rightarrow> (TransferJobError + 'a) \<times> CanonicalTransferJob"

definition returnO :: "'a \<Rightarrow> 'a job_op" where
  "returnO a j = (Inr a, j)"

definition bindO :: "'a job_op \<Rightarrow> ('a \<Rightarrow> 'b job_op) \<Rightarrow> 'b job_op" where
  "bindO m f j = (case m j of (Inl e, j') \<Rightarrow> (Inl e, j') | (Inr a, j') \<Rightarrow> f a j')"

definition modifyO :: "(CanonicalTransferJob \<Rightarrow> CanonicalTransferJob) \<Rightarrow> unit job_op" where
  "modifyO f j = (Inr (), f j)"

definition checkO :: "(CanonicalTransferJob \<Rightarrow> TransferJobError + 'a) \<Rightarrow> 'a job_op" where
  "checkO f j = (f j, j)"

text \<open>\<open>Iterator::position\<close>.\<close>

definition position :: "('a \<Rightarrow> bool) \<Rightarrow> 'a list \<Rightarrow> nat option" where
  "position P xs =
     (let i = length (takeWhile (\<lambda>x. \<not> P x) xs) in if i < length xs then Some i else None)"

section \<open>Components and fingerprints\<close>

definition job_validate_component :: "JobLibs \<Rightarrow> str \<Rightarrow> TransferJobError + unit" where
  "job_validate_component lb c =
     rejectR (c = [] \<or> c = ascii ''.'' \<or> c = ascii ''..''
       \<or> length c > MAX_MANIFEST_V2_COMPONENT_BYTES
       \<or> (\<exists>ch \<in> set (chars c). is_control ch \<or> ch = 0x2F \<or> ch = 0x5C)
       \<or> \<not> jl_nfc lb c) TJ_InvalidComponent"

definition canonical_component :: "JobLibs \<Rightarrow> str \<Rightarrow> str" where
  "canonical_component lb c = jl_to_nfc lb c"

definition source_name :: "JobLibs \<Rightarrow> path \<Rightarrow> TransferJobError + str" where
  "source_name lb p =
     bindR (ok_or (Option.bind (file_name p) from_utf8) TJ_InvalidComponent) (\<lambda>raw.
     let name = jl_to_nfc lb raw in
     bindR (job_validate_component lb name) (\<lambda>_. Inr name))"

definition logical_path_bytes :: "str list \<Rightarrow> nat" where
  "logical_path_bytes components = (\<Sum>c \<leftarrow> components. length c) + (length components - 1)"

definition modified_unix_nanos :: "Metadata \<Rightarrow> u64 option" where
  "modified_unix_nanos md =
     Option.bind (md_modified md) (\<lambda>t. if 0 \<le> t \<and> t < 2 ^ 64 then Some (word_of_int t) else None)"

definition fingerprint :: "JobLibs \<Rightarrow> path \<Rightarrow> Metadata \<Rightarrow> SourceFingerprint" where
  "fingerprint lb p md =
     \<lparr>fp_plaintext_size = (if md_kind md = FK_File then md_len md else 0),
      fp_modified_unix_nanos = modified_unix_nanos md,
      fp_canonical_path_digest = jl_hash lb p\<rparr>"

definition verify_source_fingerprint ::
  "JobLibs \<Rightarrow> JobOs \<Rightarrow> path \<Rightarrow> SourceFingerprint \<Rightarrow> TransferJobError + unit" where
  "verify_source_fingerprint lb os p expected =
     bindR (map_err TJ_Io (os_symlink_metadata os p)) (\<lambda>md.
     rejectR (md_kind md = FK_Symlink \<or> fingerprint lb p md \<noteq> expected) TJ_SourceChanged)"

definition verify_fingerprint :: "JobLibs \<Rightarrow> JobOs \<Rightarrow> LocalSourceBinding \<Rightarrow> TransferJobError + unit" where
  "verify_fingerprint lb os binding = verify_source_fingerprint lb os (lb_path binding) (lb_fingerprint binding)"

definition issue_kind :: "IoErrorKind \<Rightarrow> SourceIssueKind" where
  "issue_kind e =
     (case e of Io_PermissionDenied \<Rightarrow> PermissionDenied | Io_NotFound \<Rightarrow> Unavailable | Io_Other \<Rightarrow> Unavailable)"

section \<open>Shared steps\<close>

definition job_new :: "bytes option \<Rightarrow> u64 \<Rightarrow> CompressionPolicyV2 \<Rightarrow> TransferJobError + CanonicalTransferJob" where
  "job_new draw now policy =
     bindR (ok_or draw TJ_Entropy) (\<lambda>job_id.
     bindR (rejectR (job_id = replicate 16 0) TJ_Entropy) (\<lambda>_.
     Inr \<lparr>tj_schema_version = TRANSFER_JOB_SCHEMA_VERSION, tj_job_id = job_id, tj_created_unix_ms = now,
          tj_updated_unix_ms = now, tj_selection_revision = FIRST_SELECTION_REVISION,
          tj_generation = FIRST_GENERATION, tj_lifecycle = Preparing, tj_compression_policy = policy,
          tj_next_source_item_id = FIRST_SOURCE_ITEM_ID, tj_next_issue_id = 1, tj_selections = [],
          tj_inventory = [], tj_source_bindings = [], tj_cleanup_pending = [], tj_sealed = None\<rparr>))"

definition ensure_mutable :: "CanonicalTransferJob \<Rightarrow> TransferJobError + unit" where
  "ensure_mutable j =
     (case tj_lifecycle j of Sealed \<Rightarrow> Inl TJ_SealedMutation | Canceled \<Rightarrow> Inl TJ_Canceled | _ \<Rightarrow> Inr ())"

definition expected_lifecycle :: "SourceSelection list \<Rightarrow> JobLifecycle" where
  "expected_lifecycle selections =
     (if list_ex (\<lambda>s. sl_state s = NeedsDecision) selections then NeedsSourceDecision
      else if selections \<noteq> [] \<and> list_all (\<lambda>s. sl_state s = Ready) selections then ReadyToSend
      else Preparing)"

definition refresh_lifecycle :: "CanonicalTransferJob \<Rightarrow> CanonicalTransferJob" where
  "refresh_lifecycle j =
     (if tj_lifecycle j = Sealed \<or> tj_lifecycle j = Canceled then j
      else j\<lparr>tj_lifecycle := expected_lifecycle (tj_selections j)\<rparr>)"

definition bump_revision :: "JobOs \<Rightarrow> unit job_op" where
  "bump_revision os j =
     (case checked_add (tj_selection_revision j) 1 of
        None \<Rightarrow> (Inl (TJ_InvalidRecord RevisionOverflow), j)
      | Some revision \<Rightarrow>
          (Inr (), j\<lparr>tj_selection_revision := revision,
                      tj_updated_unix_ms := max (os_now os) (tj_updated_unix_ms j)\<rparr>))"

definition issue :: "SourceItemId \<Rightarrow> str list \<Rightarrow> SourceIssueKind \<Rightarrow> SourceIssue job_op" where
  "issue root_item_id components kind j =
     (case checked_add (tj_next_issue_id j) 1 of
        None \<Rightarrow> (Inl (TJ_InvalidRecord IssueIdOverflow), j)
      | Some next_id \<Rightarrow>
          (Inr \<lparr>si_issue_id = tj_next_issue_id j, si_root_item_id = root_item_id,
                si_relative_components = components, si_kind = kind\<rparr>,
           j\<lparr>tj_next_issue_id := next_id\<rparr>))"

definition allocate_source_item_id :: "SourceItemId job_op" where
  "allocate_source_item_id j =
     (case checked_add (tj_next_source_item_id j) 1 of
        None \<Rightarrow> (Inl (TJ_InvalidRecord SourceItemIdOverflow), j)
      | Some next_id \<Rightarrow> (Inr (tj_next_source_item_id j), j\<lparr>tj_next_source_item_id := next_id\<rparr>))"

definition reindex_selections :: "CanonicalTransferJob \<Rightarrow> CanonicalTransferJob" where
  "reindex_selections j =
     j\<lparr>tj_selections := map (\<lambda>(i, s). s\<lparr>sl_selection_order := word_of_nat i\<rparr>) (enumerate 0 (tj_selections j))\<rparr>"

definition retain_current_bindings :: "CanonicalTransferJob \<Rightarrow> CanonicalTransferJob" where
  "retain_current_bindings j =
     j\<lparr>tj_source_bindings :=
        filter (\<lambda>b. fst b \<in> set (map pe_item_id (tj_inventory j))) (tj_source_bindings j)\<rparr>"

text \<open>\<open>inventory.retain\<close> on the roots that stay, then \<open>retain_current_bindings\<close>.\<close>

definition retain_roots :: "(SourceItemId \<Rightarrow> bool) \<Rightarrow> CanonicalTransferJob \<Rightarrow> CanonicalTransferJob" where
  "retain_roots keep j =
     retain_current_bindings (j\<lparr>tj_inventory := filter (\<lambda>e. keep (pe_root_item_id e)) (tj_inventory j)\<rparr>)"

definition selection_index :: "CanonicalTransferJob \<Rightarrow> SourceItemId \<Rightarrow> TransferJobError + nat" where
  "selection_index j root_item_id =
     ok_or (position (\<lambda>s. sl_root_item_id s = root_item_id) (tj_selections j)) (TJ_UnknownSelection root_item_id)"

definition update_selection :: "nat \<Rightarrow> (SourceSelection \<Rightarrow> SourceSelection) \<Rightarrow> CanonicalTransferJob \<Rightarrow> CanonicalTransferJob" where
  "update_selection i f j = j\<lparr>tj_selections := (tj_selections j)[i := f (tj_selections j ! i)]\<rparr>"

definition set_compression_policy :: "JobOs \<Rightarrow> CompressionPolicyV2 \<Rightarrow> unit job_op" where
  "set_compression_policy os policy =
     bindO (checkO ensure_mutable) (\<lambda>_ j.
     if tj_compression_policy j \<noteq> policy
     then bump_revision os (j\<lparr>tj_compression_policy := policy\<rparr>)
     else (Inr (), j))"

definition job_cancel :: "JobOs \<Rightarrow> unit job_op" where
  "job_cancel os j =
     (if tj_lifecycle j = Canceled then (Inr (), j) else bump_revision os (j\<lparr>tj_lifecycle := Canceled\<rparr>))"

section \<open>Queries\<close>

definition saturating_add :: "'a::len word \<Rightarrow> 'a word \<Rightarrow> 'a word" where
  "saturating_add a b = (case checked_add a b of Some c \<Rightarrow> c | None \<Rightarrow> - 1)"

fun summarize :: "PreparedInventoryEntry list \<Rightarrow> InventorySummary \<Rightarrow> InventorySummary" where
  "summarize [] summary = summary"
| "summarize (e # es) summary =
     summarize es
       (case pe_kind e of
          RegularFile \<Rightarrow>
            summary\<lparr>iv_file_count := saturating_add (iv_file_count summary) 1,
                    iv_total_plaintext_bytes := saturating_add (iv_total_plaintext_bytes summary) (pe_plaintext_size e)\<rparr>
        | Directory \<Rightarrow> summary\<lparr>iv_directory_count := saturating_add (iv_directory_count summary) 1\<rparr>)"

definition inventory_summary :: "CanonicalTransferJob \<Rightarrow> InventorySummary" where
  "inventory_summary j =
     summarize (tj_inventory j)
       \<lparr>iv_root_count = word_of_nat (length (tj_selections j)), iv_file_count = 0, iv_directory_count = 0,
        iv_total_plaintext_bytes = 0,
        iv_warning_count = (\<Sum>s \<leftarrow> tj_selections j. word_of_nat (length (sl_issues s)))\<rparr>"

definition project_inventory_item :: "CanonicalTransferJob \<Rightarrow> PreparedInventoryEntry \<Rightarrow> InventoryItem" where
  "project_inventory_item j e =
     \<lparr>it_item_id = pe_item_id e, it_root_item_id = pe_root_item_id e,
      it_parent_item_id = pe_parent_item_id e, it_name = pe_name e, it_kind = pe_kind e,
      it_plaintext_size = pe_plaintext_size e, it_digest_known = (pe_digest e \<noteq> None),
      it_has_warning =
        (case find (\<lambda>s. sl_root_item_id s = pe_root_item_id e) (tj_selections j) of
           None \<Rightarrow> False
         | Some s \<Rightarrow> sl_issues s \<noteq> [])\<rparr>"

definition inventory_item :: "CanonicalTransferJob \<Rightarrow> SourceItemId \<Rightarrow> InventoryItem option" where
  "inventory_item j item_id =
     map_option (project_inventory_item j) (find (\<lambda>e. pe_item_id e = item_id) (tj_inventory j))"

definition list_roots :: "CanonicalTransferJob \<Rightarrow> InventoryItem list" where
  "list_roots j =
     List.map_filter (\<lambda>s. Option.bind (sl_root_inventory_item_id s) (inventory_item j)) (tj_selections j)"

definition page_inventory ::
  "CanonicalTransferJob \<Rightarrow> PreparedInventoryEntry list \<Rightarrow> InventoryCursor option \<Rightarrow> nat
     \<Rightarrow> TransferJobError + InventoryPage" where
  "page_inventory j entries cursor limit =
     bindR (rejectR (limit = 0 \<or> limit > MAX_INVENTORY_PAGE_SIZE) TJ_InvalidPageLimit) (\<lambda>_.
     bindR (case cursor of
              None \<Rightarrow> Inr 0
            | Some c \<Rightarrow>
                bindR (rejectR (cu_revision c \<noteq> tj_selection_revision j)
                  (TJ_StaleInventoryCursor (tj_selection_revision j) (cu_revision c))) (\<lambda>_.
                Inr (unat (cu_offset c)))) (\<lambda>offset.
     let items = map (project_inventory_item j) (take limit (drop offset entries));
         next_offset = offset + length items in
     Inr \<lparr>pg_revision = tj_selection_revision j, pg_items = items,
          pg_next_cursor =
            (if next_offset < length entries
             then Some \<lparr>cu_revision = tj_selection_revision j, cu_offset = word_of_nat next_offset\<rparr>
             else None)\<rparr>))"

definition list_children ::
  "CanonicalTransferJob \<Rightarrow> SourceItemId \<Rightarrow> InventoryCursor option \<Rightarrow> nat \<Rightarrow> TransferJobError + InventoryPage" where
  "list_children j parent_item_id cursor limit =
     page_inventory j (filter (\<lambda>e. pe_parent_item_id e = Some parent_item_id) (tj_inventory j)) cursor limit"

definition local_path_for_item :: "CanonicalTransferJob \<Rightarrow> SourceItemId \<Rightarrow> path option" where
  "local_path_for_item j item_id =
     (case map_of (tj_source_bindings j) item_id of
        Some binding \<Rightarrow> Some (lb_path binding)
      | None \<Rightarrow> map_option sl_path (find (\<lambda>s. sl_root_item_id s = item_id) (tj_selections j)))"

definition content_digest_for_item :: "CanonicalTransferJob \<Rightarrow> SourceItemId \<Rightarrow> ContentDigestV2 option" where
  "content_digest_for_item j item_id =
     Option.bind (find (\<lambda>e. pe_item_id e = item_id) (tj_inventory j)) pe_digest"

text \<open>The inventory in the order of the roots: \<open>flat_map\<close> over the selections.\<close>

definition sealed_order :: "CanonicalTransferJob \<Rightarrow> PreparedInventoryEntry list" where
  "sealed_order j =
     concat (map (\<lambda>s. filter (\<lambda>e. pe_root_item_id e = sl_root_item_id s) (tj_inventory j)) (tj_selections j))"

definition source_for_sealed_entry :: "CanonicalTransferJob \<Rightarrow> u32 \<Rightarrow> TransferJobError + PreparedFileSource" where
  "source_for_sealed_entry j entry_id =
     bindR (rejectR (tj_lifecycle j \<noteq> Sealed) TJ_PreparationIncomplete) (\<lambda>_.
     bindR (ok_or (vec_get (sealed_order j) (unat entry_id)) (TJ_UnknownItem (ucast entry_id))) (\<lambda>entry.
     bindR (rejectR (pe_kind entry \<noteq> RegularFile) TJ_NotRegularFile) (\<lambda>_.
     bindR (ok_or (map_of (tj_source_bindings j) (pe_item_id entry)) (TJ_UnknownItem (pe_item_id entry))) (\<lambda>binding.
     Inr \<lparr>pf_path = lb_path binding, pf_fingerprint = lb_fingerprint binding\<rparr>))))"

section \<open>Reading a source\<close>

text \<open>
  The file is opened and read after a first check of its fingerprint and checked again at the end;
  \<open>before\<close> and \<open>after\<close> are the system at these two moments.
\<close>

definition read_verified ::
  "JobLibs \<Rightarrow> JobOs \<Rightarrow> JobOs \<Rightarrow> path \<Rightarrow> SourceFingerprint \<Rightarrow> TransferJobError + ContentDigestV2" where
  "read_verified lb before after p expected =
     bindR (verify_source_fingerprint lb before p expected) (\<lambda>_.
     bindR (map_err TJ_Io (os_read before p)) (\<lambda>content.
     bindR (verify_source_fingerprint lb after p expected) (\<lambda>_.
     Inr (jl_hash lb content))))"

definition prepared_hash :: "JobLibs \<Rightarrow> JobOs \<Rightarrow> JobOs \<Rightarrow> PreparedFileSource \<Rightarrow> TransferJobError + ContentDigestV2" where
  "prepared_hash lb before after src = read_verified lb before after (pf_path src) (pf_fingerprint src)"

definition hash_entry :: "JobLibs \<Rightarrow> JobOs \<Rightarrow> JobOs \<Rightarrow> SourceItemId \<Rightarrow> ContentDigestV2 job_op" where
  "hash_entry lb before after item_id =
     bindO (checkO (\<lambda>j. rejectR (tj_lifecycle j = Canceled) TJ_Canceled)) (\<lambda>_.
     bindO (checkO (\<lambda>j. ok_or (map_of (tj_source_bindings j) item_id) (TJ_UnknownItem item_id))) (\<lambda>binding.
     bindO (checkO (\<lambda>j. ok_or (position (\<lambda>e. pe_item_id e = item_id) (tj_inventory j)) (TJ_UnknownItem item_id))) (\<lambda>i.
     bindO (checkO (\<lambda>j. rejectR (pe_kind (tj_inventory j ! i) \<noteq> RegularFile) TJ_NotRegularFile)) (\<lambda>_.
     bindO (checkO (\<lambda>_. read_verified lb before after (lb_path binding) (lb_fingerprint binding))) (\<lambda>digest.
     bindO (modifyO (\<lambda>j. j\<lparr>tj_inventory := (tj_inventory j)[i := (tj_inventory j ! i)\<lparr>pe_digest := Some digest\<rparr>]\<rparr>)) (\<lambda>_.
     bindO (\<lambda>j. if tj_lifecycle j \<noteq> Sealed then bump_revision after j
                else (Inr (), j\<lparr>tj_updated_unix_ms := max (os_now after) (tj_updated_unix_ms j)\<rparr>)) (\<lambda>_.
     returnO digest)))))))"

end
