(* ===== verification/Job_Prepare.thy ===== *)
theory Job_Prepare
  imports Job "HOL-Library.While_Combinator"
begin

text \<open>
  \<open>crates/envoix-transfer/src/job.rs\<close>, preparation: adding a source, enumerating a local selection,
  resolving a source decision, and the provider variants.

  The enumeration's stack is a list whose head is the top. Deriving an item id tries salts until an
  id is free, a loop that need not end for every hash function: it is a \<open>while_option\<close>, and an
  operation that enumerates has the value \<open>None\<close> when the loop does not end.
\<close>

section \<open>Item ids\<close>

definition DERIVED_ITEM_ID_MASK :: u64 where
  "DERIVED_ITEM_ID_MASK = push_bit 63 1"

definition derived_item_id :: "JobLibs \<Rightarrow> JobIdV2 \<Rightarrow> SourceItemId \<Rightarrow> str list \<Rightarrow> u64 \<Rightarrow> SourceItemId" where
  "derived_item_id lb job_id root_item_id components salt =
     or (u64_from_be (take 8 (jl_hash lb
           (job_id @ u64_to_be root_item_id @ u64_to_be salt
            @ concat (map (\<lambda>c. u32_to_be (word_of_nat (length c)) @ c) components)))))
        DERIVED_ITEM_ID_MASK"

definition stable_inventory_item_id ::
  "JobLibs \<Rightarrow> JobIdV2 \<Rightarrow> SourceItemId \<Rightarrow> str list \<Rightarrow> SourceItemId set \<Rightarrow> SourceItemId option" where
  "stable_inventory_item_id lb job_id root_item_id components occupied =
     map_option (derived_item_id lb job_id root_item_id components)
       (while_option (\<lambda>salt. derived_item_id lb job_id root_item_id components salt \<in> occupied)
          (\<lambda>salt. salt + 1) 0)"

section \<open>Enumeration\<close>

record PendingIssue =
  pi_relative_components :: "str list"
  pi_kind :: SourceIssueKind

type_synonym pending_item = "path \<times> str list \<times> SourceItemId option"

record EnumerationOutcome =
  eo_root_inventory_item_id :: "SourceItemId option"
  eo_entries :: "PreparedInventoryEntry list"
  eo_bindings :: "(SourceItemId \<times> LocalSourceBinding) list"
  eo_issues :: "PendingIssue list"

text \<open>The outcome under construction, the stack and the ids in use.\<close>

record EnumState = EnumerationOutcome +
  es_pending :: "pending_item list"
  es_occupied :: "SourceItemId set"

definition add_issue :: "str list \<Rightarrow> SourceIssueKind \<Rightarrow> EnumState \<Rightarrow> EnumState" where
  "add_issue components kind st =
     st\<lparr>eo_issues := eo_issues st @ [\<lparr>pi_relative_components = components, pi_kind = kind\<rparr>]\<rparr>"

text \<open>The loop over \<open>next_entry\<close>.\<close>

fun read_children ::
  "JobLibs \<Rightarrow> path \<Rightarrow> str list \<Rightarrow> SourceItemId \<Rightarrow> (IoErrorKind + bytes) list \<Rightarrow> pending_item list \<Rightarrow> EnumState
     \<Rightarrow> pending_item list \<times> EnumState" where
  "read_children lb p components item_id [] children st = (children, st)"
| "read_children lb p components item_id (Inl e # _) children st =
     (children, add_issue components (issue_kind e) st)"
| "read_children lb p components item_id (Inr raw # rest) children st =
     (case from_utf8 raw of
        None \<Rightarrow> read_children lb p components item_id rest children (add_issue components InvalidName st)
      | Some text \<Rightarrow>
          let child_components = components @ [canonical_component lb text] in
          case job_validate_component lb (canonical_component lb text) of
            Inl _ \<Rightarrow> read_children lb p components item_id rest children (add_issue child_components InvalidName st)
          | Inr _ \<Rightarrow> read_children lb p components item_id rest
                       (children @ [(path_join p raw, child_components, Some item_id)]) st)"

text \<open>The component lists that occur more than once, each once.\<close>

fun collided :: "str list list \<Rightarrow> str list list \<Rightarrow> str list list \<Rightarrow> str list list" where
  "collided seen found [] = found"
| "collided seen found (c # cs) =
     (if c \<in> set seen then collided seen (List.insert c found) cs else collided (c # seen) found cs)"

definition remove_component_collisions ::
  "JobOs \<Rightarrow> pending_item list \<Rightarrow> EnumState \<Rightarrow> pending_item list \<times> EnumState" where
  "remove_component_collisions os children st =
     (let collisions = collided [] [] (map (fst \<circ> snd) children) in
      if collisions = [] then (children, st)
      else (filter (\<lambda>c. fst (snd c) \<notin> set collisions) children,
            fold (\<lambda>components. add_issue components InvalidName) (os_set_order os collisions) st))"

text \<open>The part of the loop body for a directory: its children go on the stack, the smallest on top.\<close>

definition push_children ::
  "JobLibs \<Rightarrow> JobOs \<Rightarrow> path \<Rightarrow> str list \<Rightarrow> SourceItemId \<Rightarrow> EnumState \<Rightarrow> EnumState" where
  "push_children lb os p components item_id st =
     (case os_read_dir os p of
        Inl e \<Rightarrow> add_issue components (issue_kind e) st
      | Inr items \<Rightarrow>
          let (children, st1) = read_children lb p components item_id items [] st;
              (kept, st2) = remove_component_collisions os children st1 in
          st2\<lparr>es_pending := sort_key (fst \<circ> snd) kept @ es_pending st2\<rparr>)"

definition push_entry ::
  "JobLibs \<Rightarrow> JobOs \<Rightarrow> SourceSelection \<Rightarrow> pending_item \<Rightarrow> str \<Rightarrow> Metadata \<Rightarrow> SourceItemId \<Rightarrow> EnumState \<Rightarrow> EnumState" where
  "push_entry lb os selection item name md item_id st =
     (let (p, components, parent_item_id) = item;
          canonical_path = (case os_canonicalize os p of Inr c \<Rightarrow> c | Inl _ \<Rightarrow> p) in
      st\<lparr>es_occupied := insert item_id (es_occupied st),
         eo_root_inventory_item_id :=
           (if eo_root_inventory_item_id st = None then Some item_id else eo_root_inventory_item_id st),
         eo_entries := eo_entries st @
           [\<lparr>pe_item_id = item_id, pe_root_item_id = sl_root_item_id selection, pe_parent_item_id = parent_item_id,
             pe_relative_components = components, pe_name = name,
             pe_kind = (if md_kind md = FK_Dir then Directory else RegularFile),
             pe_plaintext_size = (if md_kind md = FK_File then md_len md else 0),
             pe_modified_unix_nanos = modified_unix_nanos md, pe_digest = None\<rparr>],
         eo_bindings := AList.update item_id
           \<lparr>lb_path = canonical_path, lb_origin = sl_origin selection,
            lb_job_owned_staging = sl_job_owned_staging selection,
            lb_fingerprint = fingerprint lb canonical_path md\<rparr> (eo_bindings st)\<rparr>)"

definition list_item ::
  "JobLibs \<Rightarrow> JobOs \<Rightarrow> SourceSelection \<Rightarrow> pending_item \<Rightarrow> str \<Rightarrow> Metadata \<Rightarrow> EnumState \<Rightarrow> SourceItemId \<Rightarrow> EnumState" where
  "list_item lb os selection item name md st item_id =
     (let st1 = push_entry lb os selection item name md item_id st in
      if md_kind md = FK_Dir then push_children lb os (fst item) (fst (snd item)) item_id st1 else st1)"

text \<open>The loop body after the check of the budget; \<open>continue\<close> is the state it leaves.\<close>

definition visit ::
  "JobLibs \<Rightarrow> JobOs \<Rightarrow> SourceSelection \<Rightarrow> JobIdV2 \<Rightarrow> pending_item \<Rightarrow> EnumState \<Rightarrow> EnumState option" where
  "visit lb os selection job_id item st =
     (let (p, components, parent_item_id) = item in
      if length components > MAX_MANIFEST_V2_PATH_DEPTH \<or> logical_path_bytes components > MAX_MANIFEST_V2_PATH_BYTES
      then Some (add_issue components DepthLimit st)
      else case os_symlink_metadata os p of
        Inl e \<Rightarrow> Some (add_issue components (issue_kind e) st)
      | Inr md \<Rightarrow>
          if md_kind md = FK_Symlink then Some (add_issue components SymbolicLink st)
          else if md_kind md \<noteq> FK_File \<and> md_kind md \<noteq> FK_Dir then Some (add_issue components SpecialFile st)
          else
            let name = (if components = [] then sl_requested_name selection else last components) in
            case job_validate_component lb name of
              Inl _ \<Rightarrow> Some (add_issue components InvalidName st)
            | Inr _ \<Rightarrow>
                map_option (list_item lb os selection item name md st)
                  (stable_inventory_item_id lb job_id (sl_root_item_id selection) components (es_occupied st)))"

lemma add_issue_sels [simp]:
  "eo_entries (add_issue c k st) = eo_entries st"
  "eo_bindings (add_issue c k st) = eo_bindings st"
  "eo_root_inventory_item_id (add_issue c k st) = eo_root_inventory_item_id st"
  "es_pending (add_issue c k st) = es_pending st"
  "es_occupied (add_issue c k st) = es_occupied st"
  "eo_issues (add_issue c k st) = eo_issues st @ [\<lparr>pi_relative_components = c, pi_kind = k\<rparr>]"
  by (simp_all add: add_issue_def)

text \<open>Reading a directory changes the issues and the stack only.\<close>

definition same_progress :: "EnumState \<Rightarrow> EnumState \<Rightarrow> bool" where
  "same_progress st st' \<longleftrightarrow> eo_entries st' = eo_entries st \<and> eo_bindings st' = eo_bindings st
     \<and> eo_root_inventory_item_id st' = eo_root_inventory_item_id st \<and> es_occupied st' = es_occupied st
     \<and> es_pending st' = es_pending st \<and> (\<exists>more. eo_issues st' = eo_issues st @ more)"

lemma same_progress_refl [simp]: "same_progress st st"
  by (simp add: same_progress_def)

lemma same_progress_add_issue: "same_progress st st' \<Longrightarrow> same_progress st (add_issue c k st')"
  by (auto simp: same_progress_def)

lemma read_children_progress:
  "same_progress st0 st
     \<Longrightarrow> same_progress st0 (snd (read_children lb p components item_id items children st))"
  by (induction lb p components item_id items children st rule: read_children.induct)
    (auto simp: Let_def same_progress_add_issue split: option.split sum.split)

lemma fold_add_issue_progress:
  "same_progress st0 st \<Longrightarrow> same_progress st0 (fold (\<lambda>c. add_issue c k) cs st)"
  by (induction cs arbitrary: st) (simp_all add: same_progress_add_issue)

lemma remove_collisions_progress:
  "same_progress st0 st \<Longrightarrow> same_progress st0 (snd (remove_component_collisions os children st))"
  by (simp add: remove_component_collisions_def Let_def fold_add_issue_progress)

lemma push_children_entries [simp]:
  "eo_entries (push_children lb os p components item_id st) = eo_entries st"
  "eo_bindings (push_children lb os p components item_id st) = eo_bindings st"
  "eo_root_inventory_item_id (push_children lb os p components item_id st) = eo_root_inventory_item_id st"
  "es_occupied (push_children lb os p components item_id st) = es_occupied st"
  using remove_collisions_progress [of st] read_children_progress [OF same_progress_refl]
  by (auto simp: push_children_def Let_def same_progress_def split: sum.split prod.split)
    (metis snd_conv)+

lemma visit_progress:
  assumes "visit lb os selection job_id item st = Some st'"
  shows "length (eo_entries st') = Suc (length (eo_entries st))
    \<or> length (eo_entries st') = length (eo_entries st) \<and> es_pending st' = es_pending st"
  using assms
  by (auto simp: visit_def Let_def list_item_def push_entry_def split: prod.splits if_splits sum.splits)

function enumerate_loop ::
  "JobLibs \<Rightarrow> JobOs \<Rightarrow> SourceSelection \<Rightarrow> JobIdV2 \<Rightarrow> nat \<Rightarrow> EnumState \<Rightarrow> EnumState option" where
  "enumerate_loop lb os selection job_id entry_budget st =
     (case es_pending st of
        [] \<Rightarrow> Some st
      | item # rest \<Rightarrow>
          if length (eo_entries st) \<ge> entry_budget
          then Some (add_issue (fst (snd item)) EntryLimit (st\<lparr>es_pending := rest\<rparr>))
          else case visit lb os selection job_id item (st\<lparr>es_pending := rest\<rparr>) of
            None \<Rightarrow> None
          | Some st' \<Rightarrow> enumerate_loop lb os selection job_id entry_budget st')"
  by pat_completeness auto

termination
proof (relation "measures [\<lambda>(_, _, _, _, b, st). b - length (eo_entries st), \<lambda>(_, _, _, _, _, st). length (es_pending st)]",
    goal_cases)
  case (2 lb os selection job_id b st item rest st')
  from visit_progress [OF 2(3)] 2(1,2) show ?case by auto
qed simp

declare enumerate_loop.simps [simp del]

definition enumerate_local_selection ::
  "JobLibs \<Rightarrow> JobOs \<Rightarrow> SourceSelection \<Rightarrow> JobIdV2 \<Rightarrow> SourceItemId set \<Rightarrow> nat
     \<Rightarrow> (SourceIssueKind + EnumerationOutcome) option" where
  "enumerate_local_selection lb os selection job_id occupied_ids entry_budget =
     map_option (\<lambda>st. Inr (EnumerationOutcome.truncate st))
       (enumerate_loop lb os selection job_id entry_budget
          \<lparr>eo_root_inventory_item_id = None, eo_entries = [], eo_bindings = [], eo_issues = [],
           es_pending = [(sl_path selection, [], None)], es_occupied = occupied_ids\<rparr>)"

end
