(* ===== verification/Job_Ops.thy ===== *)
theory Job_Ops
  imports Job_Prepare
begin

text \<open>
  \<open>crates/envoix-transfer/src/job.rs\<close>, the operations that change the sources of a job: adding a
  source, preparing a selection, resolving a decision, and the provider variants of these.
\<close>

section \<open>Adding a source\<close>

definition probe_source :: "JobOs \<Rightarrow> path \<Rightarrow> path option \<times> bool option \<times> SourceIssueKind option" where
  "probe_source os p =
     (case os_symlink_metadata os p of
        Inl e \<Rightarrow> (None, None, Some (issue_kind e))
      | Inr md \<Rightarrow>
          (case md_kind md of
             FK_Symlink \<Rightarrow> (None, None, Some SymbolicLink)
           | FK_Other \<Rightarrow> (None, None, Some SpecialFile)
           | _ \<Rightarrow> ((case os_canonicalize os p of Inr c \<Rightarrow> Some c | Inl _ \<Rightarrow> None), Some (md_kind md = FK_Dir), None)))"

text \<open>The selection is the candidate's path itself or a directory above it.\<close>

definition selection_covers :: "path \<Rightarrow> SourceSelection \<Rightarrow> bool" where
  "selection_covers candidate s =
     (case sl_canonical_path s of
        None \<Rightarrow> False
      | Some root \<Rightarrow> path_eq root candidate \<or> sl_is_directory_hint s = Some True \<and> starts_with candidate root)"

text \<open>The selection lies below the directory.\<close>

definition selection_below :: "path \<Rightarrow> SourceSelection \<Rightarrow> bool" where
  "selection_below root s =
     (case sl_canonical_path s of None \<Rightarrow> False | Some existing \<Rightarrow> starts_with existing root)"

definition remove_covered :: "bool option \<Rightarrow> path option \<Rightarrow> SourceItemId list job_op" where
  "remove_covered hint canonical j =
     (case (hint, canonical) of
        (Some True, Some root) \<Rightarrow>
          let removed = map sl_root_item_id (filter (selection_below root) (tj_selections j)) in
          (Inr removed,
           retain_roots (\<lambda>r. r \<notin> set removed)
             (j\<lparr>tj_selections := filter (\<lambda>s. \<not> selection_below root s) (tj_selections j)\<rparr>))
      | _ \<Rightarrow> (Inr [], j))"

definition initial_issues :: "SourceItemId \<Rightarrow> SourceIssueKind option \<Rightarrow> SourceIssue list job_op" where
  "initial_issues root_item_id initial =
     (case initial of
        None \<Rightarrow> returnO []
      | Some kind \<Rightarrow> bindO (issue root_item_id [] kind) (\<lambda>i. returnO [i]))"

definition push_selection :: "SourceSelection \<Rightarrow> CanonicalTransferJob \<Rightarrow> CanonicalTransferJob" where
  "push_selection s j = reindex_selections (j\<lparr>tj_selections := tj_selections j @ [s]\<rparr>)"

text \<open>Both steps that end every mutation.\<close>

definition commit_change :: "JobOs \<Rightarrow> unit job_op" where
  "commit_change os = bindO (bump_revision os) (\<lambda>_. modifyO refresh_lifecycle)"

definition new_selection ::
  "SourceItemId \<Rightarrow> path \<Rightarrow> str \<Rightarrow> LocalSourceOrigin \<Rightarrow> bool \<Rightarrow> path option \<Rightarrow> bool option \<Rightarrow> SourceIssue list
     \<Rightarrow> SourceSelection" where
  "new_selection root_item_id p name origin staging canonical hint issues =
     \<lparr>sl_root_item_id = root_item_id, sl_selection_order = 0, sl_requested_name = name, sl_path = p,
      sl_canonical_path = canonical, sl_is_directory_hint = hint, sl_origin = origin,
      sl_job_owned_staging = staging,
      sl_state = (if issues = [] then Pending else NeedsDecision),
      sl_root_inventory_item_id = None, sl_completeness = Complete, sl_issues = issues\<rparr>"

definition insert_source ::
  "JobOs \<Rightarrow> path \<Rightarrow> str \<Rightarrow> LocalSourceOrigin \<Rightarrow> bool \<Rightarrow> path option \<times> bool option \<times> SourceIssueKind option
     \<Rightarrow> AddSourceResult job_op" where
  "insert_source os p name origin staging probe =
     (let (canonical, hint, initial) = probe in
      bindO allocate_source_item_id (\<lambda>root_item_id.
      bindO (remove_covered hint canonical) (\<lambda>removed.
      bindO (initial_issues root_item_id initial) (\<lambda>issues.
      bindO (modifyO (push_selection (new_selection root_item_id p name origin staging canonical hint issues))) (\<lambda>_.
      bindO (commit_change os) (\<lambda>_.
      returnO \<lparr>ar_root_item_id = root_item_id, ar_folded_into_existing_selection = False,
               ar_removed_covered_roots = removed\<rparr>))))))"

text \<open>Fold into a selection that covers the path, or insert a new one if there is room.\<close>

definition place_source ::
  "JobOs \<Rightarrow> path \<Rightarrow> str \<Rightarrow> LocalSourceOrigin \<Rightarrow> bool \<Rightarrow> path option \<times> bool option \<times> SourceIssueKind option
     \<Rightarrow> AddSourceResult job_op" where
  "place_source os p name origin staging probe j =
     (let (canonical, hint, initial) = probe in
      case Option.bind canonical (\<lambda>c. find (selection_covers c) (tj_selections j)) of
        Some existing \<Rightarrow>
          (Inr \<lparr>ar_root_item_id = sl_root_item_id existing, ar_folded_into_existing_selection = True,
                ar_removed_covered_roots = []\<rparr>, j)
      | None \<Rightarrow>
          let covers_existing_root =
            hint = Some True \<and> (case canonical of None \<Rightarrow> False | Some root \<Rightarrow> list_ex (selection_below root) (tj_selections j)) in
          if length (tj_selections j) \<ge> MAX_MANIFEST_V2_ROOTS \<and> \<not> covers_existing_root
          then (Inl TJ_RootLimit, j)
          else insert_source os p name origin staging (canonical, hint, initial) j)"

definition add_local_source ::
  "JobLibs \<Rightarrow> JobOs \<Rightarrow> path \<Rightarrow> str \<Rightarrow> LocalSourceOrigin \<Rightarrow> bool \<Rightarrow> AddSourceResult job_op" where
  "add_local_source lb os p name origin staging =
     bindO (checkO ensure_mutable) (\<lambda>_.
     bindO (checkO (\<lambda>_. job_validate_component lb (canonical_component lb name))) (\<lambda>_.
     place_source os p (canonical_component lb name) origin staging (probe_source os p)))"

definition add_local_path :: "JobLibs \<Rightarrow> JobOs \<Rightarrow> path \<Rightarrow> AddSourceResult job_op" where
  "add_local_path lb os p =
     bindO (checkO (\<lambda>_. source_name lb p)) (\<lambda>name. add_local_source lb os p name Filesystem False)"

definition add_staged_source :: "JobLibs \<Rightarrow> JobOs \<Rightarrow> path \<Rightarrow> str \<Rightarrow> LocalSourceOrigin \<Rightarrow> AddSourceResult job_op" where
  "add_staged_source lb os p name origin =
     bindO (checkO (\<lambda>_. rejectR (origin = Filesystem) (TJ_InvalidRecord StagedOriginLost))) (\<lambda>_.
     bindO (checkO (\<lambda>_. job_validate_component lb (canonical_component lb name))) (\<lambda>_.
     add_local_source lb os p (canonical_component lb name) origin True))"

section \<open>Preparing a selection\<close>

fun resolve_issues :: "SourceItemId \<Rightarrow> (str list \<times> SourceIssueKind) list \<Rightarrow> SourceIssue list job_op" where
  "resolve_issues root_item_id [] = returnO []"
| "resolve_issues root_item_id ((components, kind) # rest) =
     bindO (issue root_item_id components kind) (\<lambda>i.
     bindO (resolve_issues root_item_id rest) (\<lambda>is. returnO (i # is)))"

definition extend_bindings :: "(SourceItemId \<times> LocalSourceBinding) list \<Rightarrow> CanonicalTransferJob \<Rightarrow> CanonicalTransferJob" where
  "extend_bindings bs j = j\<lparr>tj_source_bindings := fold (\<lambda>(k, b). AList.update k b) bs (tj_source_bindings j)\<rparr>"

definition install_outcome ::
  "nat \<Rightarrow> EnumerationOutcome \<Rightarrow> SourceIssue list \<Rightarrow> CanonicalTransferJob \<Rightarrow> CanonicalTransferJob" where
  "install_outcome i out issues j =
     update_selection i
       (\<lambda>s. s\<lparr>sl_root_inventory_item_id := eo_root_inventory_item_id out, sl_issues := issues,
              sl_completeness := Complete, sl_state := (if issues = [] then Ready else NeedsDecision)\<rparr>)
       (extend_bindings (eo_bindings out) (j\<lparr>tj_inventory := tj_inventory j @ eo_entries out\<rparr>))"

definition record_outcome :: "SourceItemId \<Rightarrow> nat \<Rightarrow> SourceIssueKind + EnumerationOutcome \<Rightarrow> unit job_op" where
  "record_outcome root_item_id i outcome =
     (case outcome of
        Inr out \<Rightarrow>
          bindO (resolve_issues root_item_id (map (\<lambda>p. (pi_relative_components p, pi_kind p)) (eo_issues out))) (\<lambda>issues.
          modifyO (install_outcome i out issues))
      | Inl kind \<Rightarrow>
          bindO (issue root_item_id [] kind) (\<lambda>i'.
          modifyO (update_selection i
            (\<lambda>s. s\<lparr>sl_issues := [i'], sl_root_inventory_item_id := None, sl_state := NeedsDecision\<rparr>))))"

definition prepare_guard :: "SourceItemId \<Rightarrow> CanonicalTransferJob \<Rightarrow> TransferJobError + nat" where
  "prepare_guard root_item_id j =
     bindR (ensure_mutable j) (\<lambda>_.
     bindR (selection_index j root_item_id) (\<lambda>i.
     bindR (rejectR (sl_state (tj_selections j ! i) = NeedsDecision) TJ_UnresolvedSourceDecision) (\<lambda>_. Inr i)))"

definition begin_preparation :: "SourceItemId \<Rightarrow> nat \<Rightarrow> CanonicalTransferJob \<Rightarrow> CanonicalTransferJob" where
  "begin_preparation root_item_id i j =
     retain_roots (\<lambda>r. r \<noteq> root_item_id)
       (refresh_lifecycle (update_selection i (\<lambda>s. s\<lparr>sl_state := Enumerating\<rparr>) j))"

definition enumerate_for ::
  "JobLibs \<Rightarrow> JobOs \<Rightarrow> nat \<Rightarrow> CanonicalTransferJob \<Rightarrow> (SourceIssueKind + EnumerationOutcome) option" where
  "enumerate_for lb os i j =
     enumerate_local_selection lb os (tj_selections j ! i) (tj_job_id j)
       (set (map pe_item_id (tj_inventory j)) \<union> set (map sl_root_item_id (tj_selections j)))
       (MAX_MANIFEST_V2_ENTRIES - length (tj_inventory j))"

definition prepare_selection ::
  "JobLibs \<Rightarrow> JobOs \<Rightarrow> SourceItemId \<Rightarrow> CanonicalTransferJob \<Rightarrow> ((TransferJobError + unit) \<times> CanonicalTransferJob) option" where
  "prepare_selection lb os root_item_id j =
     (case prepare_guard root_item_id j of
        Inl e \<Rightarrow> Some (Inl e, j)
      | Inr i \<Rightarrow>
          let j1 = begin_preparation root_item_id i j in
          map_option (\<lambda>outcome. bindO (record_outcome root_item_id i outcome) (\<lambda>_. commit_change os) j1)
            (enumerate_for lb os i j1))"

text \<open>\<open>prepare_all\<close>: the pending roots one after another, \<open>os root\<close> the system while \<open>root\<close> is prepared.\<close>

fun prepare_roots ::
  "JobLibs \<Rightarrow> (SourceItemId \<Rightarrow> JobOs) \<Rightarrow> SourceItemId list \<Rightarrow> CanonicalTransferJob
     \<Rightarrow> ((TransferJobError + unit) \<times> CanonicalTransferJob) option" where
  "prepare_roots lb os [] j = Some (Inr (), refresh_lifecycle j)"
| "prepare_roots lb os (root # roots) j =
     (case prepare_selection lb (os root) root j of
        None \<Rightarrow> None
      | Some (Inl e, j') \<Rightarrow> Some (Inl e, j')
      | Some (Inr _, j') \<Rightarrow> prepare_roots lb os roots j')"

definition prepare_all ::
  "JobLibs \<Rightarrow> (SourceItemId \<Rightarrow> JobOs) \<Rightarrow> CanonicalTransferJob
     \<Rightarrow> ((TransferJobError + unit) \<times> CanonicalTransferJob) option" where
  "prepare_all lb os j =
     (case ensure_mutable j of
        Inl e \<Rightarrow> Some (Inl e, j)
      | Inr _ \<Rightarrow> prepare_roots lb os
          (map sl_root_item_id (filter (\<lambda>s. sl_state s = Pending) (tj_selections j))) j)"

section \<open>Source decisions\<close>

definition selections_overlap :: "SourceItemId \<Rightarrow> path \<Rightarrow> SourceSelection \<Rightarrow> bool" where
  "selections_overlap root_item_id candidate s \<longleftrightarrow>
     sl_root_item_id s \<noteq> root_item_id
     \<and> (case sl_canonical_path s of
          None \<Rightarrow> False
        | Some existing \<Rightarrow> path_eq candidate existing \<or> starts_with candidate existing \<or> starts_with existing candidate)"

definition reauthorize :: "JobOs \<Rightarrow> SourceItemId \<Rightarrow> nat \<Rightarrow> path \<Rightarrow> unit job_op" where
  "reauthorize os root_item_id i p j =
     (let canonical = (case os_canonicalize os p of Inr c \<Rightarrow> Some c | Inl _ \<Rightarrow> None) in
      if (case canonical of None \<Rightarrow> False | Some c \<Rightarrow> list_ex (selections_overlap root_item_id c) (tj_selections j))
      then (Inl TJ_OverlappingSelection, j)
      else (Inr (), retain_roots (\<lambda>r. r \<noteq> root_item_id)
             (update_selection i
                (\<lambda>s. s\<lparr>sl_path := p, sl_job_owned_staging := False, sl_canonical_path := canonical,
                       sl_is_directory_hint :=
                         Option.bind canonical (\<lambda>c. case os_metadata os c of Inr md \<Rightarrow> Some (md_kind md = FK_Dir) | Inl _ \<Rightarrow> None),
                       sl_root_inventory_item_id := None, sl_completeness := Complete, sl_issues := [],
                       sl_state := Pending\<rparr>) j)))"

definition approve_partial :: "nat \<Rightarrow> unit job_op" where
  "approve_partial i =
     bindO (checkO (\<lambda>j. rejectR
       (sl_root_inventory_item_id (tj_selections j ! i) = None
        \<or> list_ex (\<lambda>x. si_relative_components x = []) (sl_issues (tj_selections j ! i))) TJ_EmptyPartialRoot)) (\<lambda>_.
     bindO (checkO (\<lambda>j. rejectR
       (list_ex (\<lambda>x. si_kind x = EntryLimit) (sl_issues (tj_selections j ! i))) TJ_PartialNotAllowed)) (\<lambda>_.
     modifyO (update_selection i
       (\<lambda>s. s\<lparr>sl_completeness := UserApprovedPartial (word_of_nat (length (sl_issues s))) None, sl_state := Ready\<rparr>))))"

definition remove_selection :: "JobOs \<Rightarrow> SourceItemId \<Rightarrow> nat \<Rightarrow> path option job_op" where
  "remove_selection os root_item_id i j =
     (let removed = tj_selections j ! i;
          owned_artifact = (if sl_job_owned_staging removed then Some (sl_path removed) else None);
          j1 = reindex_selections (retain_roots (\<lambda>r. r \<noteq> root_item_id)
                 (j\<lparr>tj_selections := take i (tj_selections j) @ drop (Suc i) (tj_selections j)\<rparr>)) in
      bindO (commit_change os) (\<lambda>_. returnO owned_artifact)
        (case owned_artifact of
           None \<Rightarrow> j1
         | Some p \<Rightarrow> j1\<lparr>tj_cleanup_pending := tj_cleanup_pending j1 @ [p]\<rparr>))"

definition apply_decision :: "JobOs \<Rightarrow> SourceItemId \<Rightarrow> nat \<Rightarrow> SourceDecision \<Rightarrow> path option job_op" where
  "apply_decision os root_item_id i decision =
     (case decision of
        Reauthorize p \<Rightarrow>
          bindO (reauthorize os root_item_id i p) (\<lambda>_. bindO (commit_change os) (\<lambda>_. returnO None))
      | ApprovePartial \<Rightarrow>
          bindO (approve_partial i) (\<lambda>_. bindO (commit_change os) (\<lambda>_. returnO None))
      | RemoveSelection \<Rightarrow> remove_selection os root_item_id i
      | CancelJob \<Rightarrow>
          bindO (modifyO (\<lambda>j. j\<lparr>tj_lifecycle := Canceled\<rparr>)) (\<lambda>_.
          bindO (bump_revision os) (\<lambda>_. returnO None)))"

definition decision_guard :: "SourceDecision \<Rightarrow> nat \<Rightarrow> CanonicalTransferJob \<Rightarrow> TransferJobError + unit" where
  "decision_guard decision i j =
     rejectR (sl_state (tj_selections j ! i) \<noteq> NeedsDecision \<and> decision \<noteq> RemoveSelection \<and> decision \<noteq> CancelJob)
       TJ_DecisionNotRequired"

definition resolve_source_decision :: "JobOs \<Rightarrow> SourceItemId \<Rightarrow> SourceDecision \<Rightarrow> path option job_op" where
  "resolve_source_decision os root_item_id decision =
     bindO (checkO ensure_mutable) (\<lambda>_.
     bindO (checkO (\<lambda>j. selection_index j root_item_id)) (\<lambda>i.
     bindO (checkO (decision_guard decision i)) (\<lambda>_.
     apply_decision os root_item_id i decision)))"

section \<open>Provider sources\<close>

fun canonical_components :: "JobLibs \<Rightarrow> str list \<Rightarrow> TransferJobError + str list" where
  "canonical_components lb [] = Inr []"
| "canonical_components lb (c # cs) =
     bindR (job_validate_component lb (canonical_component lb c)) (\<lambda>_.
     bindR (canonical_components lb cs) (\<lambda>rest. Inr (canonical_component lb c # rest)))"

fun canonical_provider_issues :: "JobLibs \<Rightarrow> ProviderSourceIssue list \<Rightarrow> TransferJobError + ProviderSourceIssue list" where
  "canonical_provider_issues lb [] = Inr []"
| "canonical_provider_issues lb (p # ps) =
     bindR (canonical_components lb (ps_relative_components p)) (\<lambda>components.
     bindR (canonical_provider_issues lb ps) (\<lambda>rest. Inr (p\<lparr>ps_relative_components := components\<rparr> # rest)))"

fun validate_components :: "JobLibs \<Rightarrow> str list \<Rightarrow> TransferJobError + unit" where
  "validate_components lb [] = Inr ()"
| "validate_components lb (c # cs) = bindR (job_validate_component lb c) (\<lambda>_. validate_components lb cs)"

definition validate_provider_issues :: "JobLibs \<Rightarrow> ProviderSourceIssue list \<Rightarrow> TransferJobError + unit" where
  "validate_provider_issues lb ps = validate_components lb (concat (map ps_relative_components ps))"

definition attach_provider_issues :: "JobLibs \<Rightarrow> JobOs \<Rightarrow> SourceItemId \<Rightarrow> ProviderSourceIssue list \<Rightarrow> unit job_op" where
  "attach_provider_issues lb os root_item_id ps =
     (if ps = [] then returnO ()
      else
        bindO (checkO (\<lambda>_. validate_provider_issues lb ps)) (\<lambda>_.
        bindO (resolve_issues root_item_id (map (\<lambda>p. (ps_relative_components p, ps_kind p)) ps)) (\<lambda>resolved.
        bindO (checkO (\<lambda>j. selection_index j root_item_id)) (\<lambda>i.
        bindO (modifyO (update_selection i
          (\<lambda>s. s\<lparr>sl_issues := sl_issues s @ resolved, sl_state := NeedsDecision\<rparr>))) (\<lambda>_.
        commit_change os)))))"

text \<open>\<open>prepare_selection\<close>, then \<open>attach_provider_issues\<close> when it succeeds.\<close>

definition prepare_and_attach ::
  "JobLibs \<Rightarrow> JobOs \<Rightarrow> JobOs \<Rightarrow> SourceItemId \<Rightarrow> ProviderSourceIssue list \<Rightarrow> CanonicalTransferJob
     \<Rightarrow> ((TransferJobError + unit) \<times> CanonicalTransferJob) option" where
  "prepare_and_attach lb os os' root_item_id issues j =
     map_option (\<lambda>r. case r of
         (Inl e, j') \<Rightarrow> (Inl e, j')
       | (Inr _, j') \<Rightarrow> attach_provider_issues lb os' root_item_id issues j')
       (prepare_selection lb os root_item_id j)"

definition add_provider_path ::
  "JobLibs \<Rightarrow> JobOs \<Rightarrow> JobOs \<Rightarrow> JobOs \<Rightarrow> path \<Rightarrow> str \<Rightarrow> LocalSourceOrigin \<Rightarrow> ProviderSourceIssue list
     \<Rightarrow> CanonicalTransferJob \<Rightarrow> ((TransferJobError + AddSourceResult) \<times> CanonicalTransferJob) option" where
  "add_provider_path lb os1 os2 os3 p name origin issues j =
     (case bindR (rejectR (origin = Filesystem) (TJ_InvalidRecord ProviderOriginLost)) (\<lambda>_.
           bindR (canonical_provider_issues lb issues) (\<lambda>ps.
           bindR (job_validate_component lb (canonical_component lb name)) (\<lambda>_.
           bindR (validate_provider_issues lb ps) (\<lambda>_. Inr ps)))) of
        Inl e \<Rightarrow> Some (Inl e, j)
      | Inr ps \<Rightarrow>
          (case add_local_source lb os1 p (canonical_component lb name) origin False j of
             (Inl e, j1) \<Rightarrow> Some (Inl e, j1)
           | (Inr added, j1) \<Rightarrow>
               if ar_folded_into_existing_selection added then Some (Inr added, j1)
               else map_option (\<lambda>(r, j2). (bindR r (\<lambda>_. Inr added), j2))
                      (prepare_and_attach lb os2 os3 (ar_root_item_id added) ps j1)))"

definition reauthorize_provider_source ::
  "JobLibs \<Rightarrow> JobOs \<Rightarrow> JobOs \<Rightarrow> JobOs \<Rightarrow> SourceItemId \<Rightarrow> path \<Rightarrow> ProviderSourceIssue list
     \<Rightarrow> CanonicalTransferJob \<Rightarrow> ((TransferJobError + unit) \<times> CanonicalTransferJob) option" where
  "reauthorize_provider_source lb os1 os2 os3 root_item_id p issues j =
     (case bindR (selection_index j root_item_id) (\<lambda>i.
           bindR (rejectR (sl_origin (tj_selections j ! i) = Filesystem) (TJ_InvalidRecord FilesystemReauthorization)) (\<lambda>_.
           bindR (canonical_provider_issues lb issues) (\<lambda>ps.
           bindR (validate_provider_issues lb ps) (\<lambda>_. Inr ps)))) of
        Inl e \<Rightarrow> Some (Inl e, j)
      | Inr ps \<Rightarrow>
          (case resolve_source_decision os1 root_item_id (Reauthorize p) j of
             (Inl e, j1) \<Rightarrow> Some (Inl e, j1)
           | (Inr _, j1) \<Rightarrow> prepare_and_attach lb os2 os3 root_item_id ps j1))"

end
