(* ===== verification/Job_Seal.thy ===== *)
theory Job_Seal
  imports Job_Ops
begin

text \<open>
  \<open>crates/envoix-transfer/src/job.rs\<close>, \<open>seal_for_send\<close> and \<open>validate_durable\<close>. The loops are
  recursive functions over the selections and the inventory with the accumulators of the source.
\<close>

section \<open>Sealing\<close>

type_synonym entry_index = "SourceItemId \<rightharpoonup> u32"

definition seal_entry :: "u32 \<Rightarrow> PreparedInventoryEntry \<Rightarrow> ManifestEntryV2 list \<Rightarrow> entry_index
     \<Rightarrow> TransferJobError + ManifestEntryV2" where
  "seal_entry root_id e entries index =
     bindR (case pe_parent_item_id e of
              None \<Rightarrow> Inr None
            | Some parent \<Rightarrow> map_sum id Some (ok_or (index parent) (TJ_InvalidRecord ParentAfterChild))) (\<lambda>parent_entry_id.
     Inr \<lparr>me_entry_id = word_of_nat (length entries), me_root_id = root_id, me_parent_entry_id = parent_entry_id,
          me_component = pe_name e, me_kind = pe_kind e, me_plaintext_size = pe_plaintext_size e,
          me_content_digest = (case pe_digest e of Some d \<Rightarrow> Known d | None \<Rightarrow> Deferred)\<rparr>)"

fun seal_entries ::
  "u32 \<Rightarrow> PreparedInventoryEntry list \<Rightarrow> ManifestEntryV2 list \<Rightarrow> entry_index
     \<Rightarrow> TransferJobError + ManifestEntryV2 list \<times> entry_index" where
  "seal_entries root_id [] entries index = Inr (entries, index)"
| "seal_entries root_id (e # es) entries index =
     bindR (seal_entry root_id e entries index) (\<lambda>entry.
     seal_entries root_id es (entries @ [entry]) (index(pe_item_id e \<mapsto> word_of_nat (length entries))))"

fun seal_roots ::
  "PreparedInventoryEntry list \<Rightarrow> nat \<Rightarrow> SourceSelection list \<Rightarrow> ManifestRootV2 list \<Rightarrow> ManifestEntryV2 list
     \<Rightarrow> entry_index \<Rightarrow> TransferJobError + ManifestRootV2 list \<times> ManifestEntryV2 list" where
  "seal_roots inventory root_index [] roots entries index = Inr (roots, entries)"
| "seal_roots inventory root_index (s # ss) roots entries index =
     bindR (seal_entries (word_of_nat root_index)
              (filter (\<lambda>e. pe_root_item_id e = sl_root_item_id s) inventory) entries index) (\<lambda>(entries', index').
     seal_roots inventory (Suc root_index) ss
       (roots @ [\<lparr>mr_root_id = word_of_nat root_index, mr_root_entry_id = word_of_nat (length entries),
                  mr_requested_name = sl_requested_name s, mr_completeness = sl_completeness s\<rparr>])
       entries' index')"

definition job_manifest :: "CanonicalTransferJob \<Rightarrow> TransferJobError + ManifestV2" where
  "job_manifest j =
     bindR (seal_roots (tj_inventory j) 0 (tj_selections j) [] [] Map.empty) (\<lambda>(roots, entries).
     let summary = inventory_summary j in
     Inr \<lparr>mf_job_id = tj_job_id j, mf_generation = tj_generation j,
          mf_selection_revision = tj_selection_revision j, mf_compression_policy = tj_compression_policy j,
          mf_roots = roots, mf_entries = entries,
          mf_totals = \<lparr>mt_file_count = iv_file_count summary, mt_directory_count = iv_directory_count summary,
                       mt_total_plaintext_bytes = iv_total_plaintext_bytes summary\<rparr>\<rparr>)"

text \<open>\<open>build_manifest_offer_v2\<close>, then \<open>encode_manifest_offer_v2\<close> of what it built.\<close>

definition seal_manifest :: "JobLibs \<Rightarrow> ManifestV2 \<Rightarrow> TransferJobError + SealedTransferJob" where
  "seal_manifest lb m =
     bindR (map_err TJ_Protocol (build_manifest_offer_v2 (jl_hash lb) (jl_nfc lb) m)) (\<lambda>offer.
     bindR (map_err TJ_Protocol (encode_manifest_offer_v2 (jl_hash lb) (jl_nfc lb) (of_manifest offer))) (\<lambda>bs.
     Inr \<lparr>sj_manifest = of_manifest offer, sj_structural_digest = of_structural_digest offer, sj_offer_bytes = bs\<rparr>))"

definition seal_for_send :: "JobLibs \<Rightarrow> JobOs \<Rightarrow> ManifestV2 job_op" where
  "seal_for_send lb os =
     bindO (checkO ensure_mutable) (\<lambda>_.
     bindO (modifyO refresh_lifecycle) (\<lambda>_.
     bindO (checkO (\<lambda>j. case tj_lifecycle j of
         NeedsSourceDecision \<Rightarrow> Inl TJ_UnresolvedSourceDecision
       | ReadyToSend \<Rightarrow> Inr ()
       | _ \<Rightarrow> Inl TJ_PreparationIncomplete)) (\<lambda>_.
     bindO (checkO job_manifest) (\<lambda>m.
     bindO (checkO (\<lambda>_. seal_manifest lb m)) (\<lambda>sealed.
     bindO (modifyO (\<lambda>j. j\<lparr>tj_sealed := Some sealed, tj_lifecycle := Sealed,
                           tj_updated_unix_ms := max (os_now os) (tj_updated_unix_ms j)\<rparr>)) (\<lambda>_.
     returnO (sj_manifest sealed)))))))"

section \<open>The durable check\<close>

definition durable_identity :: "CanonicalTransferJob \<Rightarrow> TransferJobError + unit" where
  "durable_identity j =
     bindR (rejectR (tj_schema_version j \<noteq> TRANSFER_JOB_SCHEMA_VERSION) (TJ_UnsupportedSchema (tj_schema_version j))) (\<lambda>_.
     rejectR (tj_job_id j = replicate 16 0 \<or> tj_created_unix_ms j = 0
         \<or> tj_updated_unix_ms j < tj_created_unix_ms j \<or> tj_selection_revision j = 0 \<or> tj_generation j = 0
         \<or> length (tj_selections j) > MAX_MANIFEST_V2_ROOTS \<or> length (tj_inventory j) > MAX_MANIFEST_V2_ENTRIES)
       (TJ_InvalidRecord InvalidIdentity))"

definition durable_ids :: "CanonicalTransferJob \<Rightarrow> TransferJobError + unit" where
  "durable_ids j =
     bindR (rejectR (card (set (map pe_item_id (tj_inventory j))) \<noteq> length (tj_inventory j))
       (TJ_InvalidRecord DuplicateItemIds)) (\<lambda>_.
     rejectR (card (set (map sl_root_item_id (tj_selections j))) \<noteq> length (tj_selections j)
         \<or> list_ex (\<lambda>(i, s). sl_selection_order s \<noteq> word_of_nat i) (enumerate 0 (tj_selections j)))
       (TJ_InvalidRecord InvalidSelectionIds))"

definition durable_selection ::
  "JobLibs \<Rightarrow> PreparedInventoryEntry list \<Rightarrow> SourceSelection \<Rightarrow> TransferJobError + unit" where
  "durable_selection lb inventory s =
     bindR (map_err (\<lambda>_. TJ_InvalidRecord InvalidSelectionName) (job_validate_component lb (sl_requested_name s))) (\<lambda>_.
     bindR (rejectR (list_ex (\<lambda>i. si_root_item_id i \<noteq> sl_root_item_id s) (sl_issues s))
       (TJ_InvalidRecord ForeignIssue)) (\<lambda>_.
     let root_entry = Option.bind (sl_root_inventory_item_id s) (\<lambda>item_id. find (\<lambda>e. pe_item_id e = item_id) inventory) in
     rejectR ((case root_entry of
                 None \<Rightarrow> False
               | Some e \<Rightarrow> pe_root_item_id e \<noteq> sl_root_item_id s \<or> pe_parent_item_id e \<noteq> None
                   \<or> pe_relative_components e \<noteq> [])
              \<or> sl_root_inventory_item_id s \<noteq> None \<and> root_entry = None)
       (TJ_InvalidRecord InvalidRootReference)))"

fun durable_selections ::
  "JobLibs \<Rightarrow> PreparedInventoryEntry list \<Rightarrow> SourceSelection list \<Rightarrow> TransferJobError + unit" where
  "durable_selections lb inventory [] = Inr ()"
| "durable_selections lb inventory (s # ss) =
     bindR (durable_selection lb inventory s) (\<lambda>_. durable_selections lb inventory ss)"

definition durable_entry ::
  "JobLibs \<Rightarrow> SourceItemId set \<Rightarrow> PreparedInventoryEntry list \<Rightarrow> SourceItemId set \<Rightarrow> PreparedInventoryEntry
     \<Rightarrow> TransferJobError + unit" where
  "durable_entry lb root_ids inventory seen e =
     bindR (rejectR (pe_root_item_id e \<notin> root_ids \<or> job_validate_component lb (pe_name e) \<noteq> Inr ()
         \<or> length (pe_relative_components e) > MAX_MANIFEST_V2_PATH_DEPTH
         \<or> logical_path_bytes (pe_relative_components e) > MAX_MANIFEST_V2_PATH_BYTES
         \<or> pe_kind e = Directory \<and> pe_plaintext_size e \<noteq> 0)
       (TJ_InvalidRecord EntryBounds)) (\<lambda>_.
     bindR (rejectR (pe_relative_components e \<noteq> [] \<and> last (pe_relative_components e) \<noteq> pe_name e)
       (TJ_InvalidRecord ComponentPathMismatch)) (\<lambda>_.
     case pe_parent_item_id e of
       None \<Rightarrow> Inr ()
     | Some parent_item_id \<Rightarrow>
         bindR (ok_or (find (\<lambda>c. pe_item_id c = parent_item_id) inventory) (TJ_InvalidRecord ParentMissing)) (\<lambda>parent.
         rejectR (parent_item_id \<notin> seen \<or> pe_root_item_id parent \<noteq> pe_root_item_id e \<or> pe_kind parent \<noteq> Directory)
           (TJ_InvalidRecord InvalidParent))))"

fun durable_entries ::
  "JobLibs \<Rightarrow> SourceItemId set \<Rightarrow> PreparedInventoryEntry list \<Rightarrow> SourceItemId set \<Rightarrow> PreparedInventoryEntry list
     \<Rightarrow> TransferJobError + unit" where
  "durable_entries lb root_ids inventory seen [] = Inr ()"
| "durable_entries lb root_ids inventory seen (e # es) =
     bindR (durable_entry lb root_ids inventory seen e) (\<lambda>_.
     durable_entries lb root_ids inventory (insert (pe_item_id e) seen) es)"

definition durable_references :: "CanonicalTransferJob \<Rightarrow> TransferJobError + unit" where
  "durable_references j =
     bindR (rejectR (length (tj_source_bindings j) \<noteq> length (tj_inventory j)
         \<or> list_ex (\<lambda>b. fst b \<notin> set (map pe_item_id (tj_inventory j))) (tj_source_bindings j))
       (TJ_InvalidRecord BindingsMismatch)) (\<lambda>_.
     rejectR (list_ex (\<lambda>pending. list_ex (\<lambda>s. path_eq (sl_path s) pending) (tj_selections j)) (tj_cleanup_pending j))
       (TJ_InvalidRecord CleanupActive))"

definition durable_lifecycle :: "CanonicalTransferJob \<Rightarrow> TransferJobError + unit" where
  "durable_lifecycle j =
     rejectR (tj_lifecycle j \<noteq> Canceled
         \<and> tj_lifecycle j \<noteq> (if tj_sealed j \<noteq> None then Sealed else expected_lifecycle (tj_selections j)))
       (TJ_InvalidRecord LifecycleMismatch)"

definition durable_seal :: "JobLibs \<Rightarrow> CanonicalTransferJob \<Rightarrow> TransferJobError + unit" where
  "durable_seal lb j =
     (case tj_sealed j of
        None \<Rightarrow> Inr ()
      | Some sealed \<Rightarrow>
          bindR (rejectR (tj_lifecycle j \<noteq> Sealed \<and> tj_lifecycle j \<noteq> Canceled) (TJ_InvalidRecord UnexpectedSeal)) (\<lambda>_.
          bindR (rejectR (mf_job_id (sj_manifest sealed) \<noteq> tj_job_id j
              \<or> mf_generation (sj_manifest sealed) \<noteq> tj_generation j
              \<or> mf_selection_revision (sj_manifest sealed) \<noteq> tj_selection_revision j
              \<or> mf_compression_policy (sj_manifest sealed) \<noteq> tj_compression_policy j)
            (TJ_InvalidRecord SealedIdentity)) (\<lambda>_.
          bindR (seal_manifest lb (sj_manifest sealed)) (\<lambda>rebuilt.
          rejectR (sj_structural_digest rebuilt \<noteq> sj_structural_digest sealed \<or> sj_offer_bytes rebuilt \<noteq> sj_offer_bytes sealed)
            (TJ_InvalidRecord SealedBytesChanged)))))"

definition validate_durable :: "JobLibs \<Rightarrow> CanonicalTransferJob \<Rightarrow> TransferJobError + unit" where
  "validate_durable lb j =
     bindR (durable_identity j) (\<lambda>_.
     bindR (durable_ids j) (\<lambda>_.
     bindR (durable_selections lb (tj_inventory j) (tj_selections j)) (\<lambda>_.
     bindR (durable_entries lb (set (map sl_root_item_id (tj_selections j))) (tj_inventory j) {} (tj_inventory j)) (\<lambda>_.
     bindR (durable_references j) (\<lambda>_.
     bindR (durable_lifecycle j) (\<lambda>_.
     durable_seal lb j))))))"

end
