(* ===== verification/Job_Listing.thy ===== *)
theory Job_Listing
  imports Job_Seal "HOL-Library.Sublist"
begin

text \<open>
  What enumeration produces. \<open>listing_ok\<close> describes the entries of one root: every entry after the
  first has its parent directory earlier in the list, and the paths are strictly increasing in the
  lexicographic order, which makes the list the preorder of a tree with sorted, distinct siblings.
  \<open>enum_inv\<close> is the invariant of the enumeration loop; \<open>enumerate_loop_inv\<close> shows it.
\<close>

section \<open>Listings\<close>

definition entry_fine :: "JobLibs \<Rightarrow> PreparedInventoryEntry \<Rightarrow> bool" where
  "entry_fine lb e \<longleftrightarrow> job_validate_component lb (pe_name e) = Inr ()
     \<and> length (pe_relative_components e) \<le> MAX_MANIFEST_V2_PATH_DEPTH
     \<and> logical_path_bytes (pe_relative_components e) \<le> MAX_MANIFEST_V2_PATH_BYTES
     \<and> (pe_kind e = Directory \<longrightarrow> pe_plaintext_size e = 0 \<and> pe_digest e = None)"

definition is_parent :: "PreparedInventoryEntry \<Rightarrow> SourceItemId option \<Rightarrow> str list \<Rightarrow> bool" where
  "is_parent d parent components \<longleftrightarrow> parent = Some (pe_item_id d) \<and> pe_kind d = Directory
     \<and> pe_relative_components d = butlast components"

definition place_ok :: "str \<Rightarrow> PreparedInventoryEntry list \<Rightarrow> PreparedInventoryEntry \<Rightarrow> bool" where
  "place_ok name earlier e \<longleftrightarrow>
     (if pe_relative_components e = [] then pe_parent_item_id e = None \<and> pe_name e = name
      else pe_name e = last (pe_relative_components e)
        \<and> (\<exists>d \<in> set earlier. is_parent d (pe_parent_item_id e) (pe_relative_components e)))"

definition listing_ok :: "JobLibs \<Rightarrow> SourceItemId \<Rightarrow> str \<Rightarrow> PreparedInventoryEntry list \<Rightarrow> bool" where
  "listing_ok lb root name es \<longleftrightarrow>
     (\<forall>e \<in> set es. pe_root_item_id e = root \<and> entry_fine lb e)
     \<and> sorted_wrt (<) (map pe_relative_components es)
     \<and> (\<forall>k < length es. place_ok name (take k es) (es ! k))"

lemma listing_ok_Nil [simp]: "listing_ok lb root name []"
  by (simp add: listing_ok_def)

lemma listing_ok_snoc:
  "listing_ok lb root name (es @ [e]) \<longleftrightarrow> listing_ok lb root name es
     \<and> pe_root_item_id e = root \<and> entry_fine lb e
     \<and> (\<forall>d \<in> set es. pe_relative_components d < pe_relative_components e) \<and> place_ok name es e"
  by (auto simp: listing_ok_def sorted_wrt_append nth_append less_Suc_eq)

section \<open>The order of paths\<close>

lemma less_snoc: "(xs :: 'a::linorder list) < xs @ [x]"
  by (induction xs) simp_all

lemma snoc_less_snoc: "(x :: 'a::linorder) < y \<Longrightarrow> xs @ [x] < xs @ [y]"
  by (induction xs) simp_all

lemma extend_less:
  "(xs :: 'a::linorder list) < ys \<Longrightarrow> \<not> prefix xs ys \<Longrightarrow> xs @ zs < ys"
proof (induction xs arbitrary: ys)
  case (Cons x xs)
  then show ?case by (cases ys) auto
qed simp

definition before :: "'a::linorder list \<Rightarrow> 'a list \<Rightarrow> bool" where
  "before xs ys \<longleftrightarrow> xs < ys \<and> \<not> prefix xs ys"

lemma before_extend: "before xs ys \<Longrightarrow> before (xs @ zs) ys"
  by (auto simp: before_def extend_less dest: append_prefixD)

lemma before_siblings: "(x :: 'a::linorder) < y \<Longrightarrow> before (xs @ [x]) (xs @ [y])"
  by (auto simp: before_def snoc_less_snoc)

section \<open>Collisions\<close>

lemma found_collided: "set found \<subseteq> set (collided seen found cs)"
  by (induction seen found cs rule: collided.induct) (auto simp: in_set_insert)

lemma seen_collided: "c \<in> set cs \<Longrightarrow> c \<in> set seen \<Longrightarrow> c \<in> set (collided seen found cs)"
proof (induction seen found cs rule: collided.induct)
  case (2 seen found d cs)
  then show ?case
    using found_collided [of "List.insert d found" seen cs] by (auto split: if_splits)
qed simp

lemma distinct_uncollided: "distinct (filter (\<lambda>c. c \<notin> set (collided seen found cs)) cs)"
proof (induction seen found cs rule: collided.induct)
  case (2 seen found c cs)
  then show ?case
    using found_collided [of "List.insert c found" seen cs] seen_collided [of c cs "c # seen" found]
    by auto
qed simp

lemma collided_Nil_distinct: "collided seen found cs = [] \<Longrightarrow> distinct cs"
  using distinct_uncollided [of seen found cs] by simp

lemma remove_collisions_distinct:
  "distinct (map (fst \<circ> snd) (fst (remove_component_collisions os children st)))"
  using distinct_uncollided [of "[]" "[]" "map (fst \<circ> snd) children"]
    collided_Nil_distinct [of "[]" "[]" "map (fst \<circ> snd) children"]
  by (auto simp: remove_component_collisions_def Let_def distinct_map filter_map comp_def inj_on_def)

lemma remove_collisions_subset:
  "set (fst (remove_component_collisions os children st)) \<subseteq> set children"
  by (auto simp: remove_component_collisions_def Let_def)

lemma read_children_shape:
  assumes "\<forall>c \<in> set children. \<exists>n. snd c = (components @ [n], Some item_id)"
  shows "\<forall>c \<in> set (fst (read_children lb p components item_id items children st)).
    \<exists>n. snd c = (components @ [n], Some item_id)"
  using assms
  by (induction lb p components item_id items children st rule: read_children.induct)
    (auto simp: Let_def split: option.split sum.split)

text \<open>What a directory adds: its children, sorted, above the rest of the stack.\<close>

lemma push_children_pending:
  "\<exists>cs. es_pending (push_children lb os p components item_id st) = cs @ es_pending st
     \<and> (\<forall>c \<in> set cs. \<exists>n. snd c = (components @ [n], Some item_id))
     \<and> sorted_wrt (<) (map (fst \<circ> snd) cs)
     \<and> (\<exists>more. eo_issues (push_children lb os p components item_id st) = eo_issues st @ more)"
proof (cases "os_read_dir os p")
  case (Inl e)
  then show ?thesis by (simp add: push_children_def)
next
  case (Inr items)
  obtain children st1 where read: "read_children lb p components item_id items [] st = (children, st1)"
    by fastforce
  obtain kept st2 where remove: "remove_component_collisions os children st1 = (kept, st2)"
    by fastforce
  have "same_progress st st1"
    using read_children_progress [of st st lb p components item_id items "[]"] read by simp
  then have "same_progress st st2"
    using remove_collisions_progress [of st st1 os children] remove by simp
  moreover have "\<forall>c \<in> set kept. \<exists>n. snd c = (components @ [n], Some item_id)"
    using read_children_shape [of "[]" components item_id lb p items st] read
      remove_collisions_subset [of os children st1] remove by auto
  moreover have "sorted_wrt (<) (map (fst \<circ> snd) (sort_key (fst \<circ> snd) kept))"
    using remove_collisions_distinct [of os children st1] remove
    by (simp add: strict_sorted_iff distinct_map)
  ultimately show ?thesis
    using Inr read remove by (auto simp: push_children_def same_progress_def)
qed

end
