(* ===== verification/Job_Enum.thy ===== *)
theory Job_Enum
  imports Job_Listing
begin

text \<open>
  The invariant of the enumeration loop and what a finished enumeration guarantees: a listing of the
  root with fresh, distinct ids, one binding per entry, and an issue whenever something is missing.
\<close>

section \<open>The invariant\<close>

definition pending_ok :: "PreparedInventoryEntry list \<Rightarrow> pending_item \<Rightarrow> bool" where
  "pending_ok es p \<longleftrightarrow>
     (if fst (snd p) = [] then snd (snd p) = None
      else \<exists>d \<in> set es. is_parent d (snd (snd p)) (fst (snd p)))
     \<and> (\<forall>e \<in> set es. pe_relative_components e < fst (snd p))"

definition ids_ok :: "SourceItemId set \<Rightarrow> EnumState \<Rightarrow> bool" where
  "ids_ok occupied st \<longleftrightarrow>
     distinct (map pe_item_id (eo_entries st))
     \<and> pe_item_id ` set (eo_entries st) \<inter> occupied = {}
     \<and> es_occupied st = occupied \<union> pe_item_id ` set (eo_entries st)
     \<and> map fst (eo_bindings st) = map pe_item_id (eo_entries st)
     \<and> eo_root_inventory_item_id st =
         (if eo_entries st = [] then None else Some (pe_item_id (hd (eo_entries st))))"

definition enum_inv :: "JobLibs \<Rightarrow> SourceSelection \<Rightarrow> SourceItemId set \<Rightarrow> nat \<Rightarrow> EnumState \<Rightarrow> bool" where
  "enum_inv lb selection occupied budget st \<longleftrightarrow>
     listing_ok lb (sl_root_item_id selection) (sl_requested_name selection) (eo_entries st)
     \<and> sorted_wrt before (map (fst \<circ> snd) (es_pending st))
     \<and> (\<forall>p \<in> set (es_pending st). pending_ok (eo_entries st) p)
     \<and> ids_ok occupied st
     \<and> (eo_entries st = [] \<longrightarrow> eo_issues st \<noteq> [] \<or> es_pending st \<noteq> [])
     \<and> length (eo_entries st) \<le> budget"

lemma enum_inv_skip:
  assumes "enum_inv lb selection occupied budget st" and "es_pending st = item # rest"
  shows "enum_inv lb selection occupied budget (add_issue c k (st\<lparr>es_pending := rest\<rparr>))"
  using assms by (simp add: enum_inv_def ids_ok_def)

lemma push_entry_sels:
  assumes "st1 = push_entry lb os selection (p, components, parent) name md item_id st"
    and "md_kind md = FK_File \<or> md_kind md = FK_Dir"
  shows "\<exists>e. eo_entries st1 = eo_entries st @ [e] \<and> pe_item_id e = item_id
      \<and> pe_root_item_id e = sl_root_item_id selection \<and> pe_parent_item_id e = parent
      \<and> pe_relative_components e = components \<and> pe_name e = name
      \<and> pe_kind e = (if md_kind md = FK_Dir then Directory else RegularFile)
      \<and> (pe_kind e = Directory \<longrightarrow> pe_plaintext_size e = 0) \<and> pe_digest e = None"
    and "es_pending st1 = es_pending st" and "eo_issues st1 = eo_issues st"
    and "es_occupied st1 = insert item_id (es_occupied st)"
    and "\<exists>b. eo_bindings st1 = AList.update item_id b (eo_bindings st)"
    and "eo_root_inventory_item_id st1 = (case eo_root_inventory_item_id st of None \<Rightarrow> Some item_id | Some r \<Rightarrow> Some r)"
  using assms(2) unfolding assms(1)
  by (simp_all add: push_entry_def Let_def split: option.split) (rule exI, rule refl)

lemma ids_ok_push:
  assumes "ids_ok occupied st" and "item_id \<notin> es_occupied st"
    and "eo_entries st1 = eo_entries st @ [e]" "pe_item_id e = item_id"
    and "es_occupied st1 = insert item_id (es_occupied st)"
    and "eo_bindings st1 = AList.update item_id b (eo_bindings st)"
    and "eo_root_inventory_item_id st1 = (case eo_root_inventory_item_id st of None \<Rightarrow> Some item_id | Some r \<Rightarrow> Some r)"
  shows "ids_ok occupied st1"
proof -
  have "set (map fst (eo_bindings st)) = set (map pe_item_id (eo_entries st))"
    using assms(1) by (simp only: ids_ok_def)
  then have "item_id \<notin> fst ` set (eo_bindings st)"
    using assms(1,2) by (simp add: ids_ok_def)
  then have "map fst (AList.update item_id b (eo_bindings st)) = map fst (eo_bindings st) @ [item_id]"
    by (simp add: update_keys)
  then show ?thesis
    using assms by (auto simp: ids_ok_def hd_append)
qed

text \<open>An entry goes to the end of the listing, under an id not in use.\<close>

lemma enum_inv_push:
  assumes inv: "enum_inv lb selection occupied budget st" and pending: "es_pending st = item # rest"
    and size: "length (eo_entries st) < budget"
    and item: "item = (p, components, parent)"
    and name: "name = (if components = [] then sl_requested_name selection else last components)"
    and valid: "job_validate_component lb name = Inr ()"
    and bounds: "length components \<le> MAX_MANIFEST_V2_PATH_DEPTH"
      "logical_path_bytes components \<le> MAX_MANIFEST_V2_PATH_BYTES"
    and kind: "md_kind md = FK_File \<or> md_kind md = FK_Dir"
    and fresh: "item_id \<notin> es_occupied st"
    and st1: "st1 = push_entry lb os selection item name md item_id (st\<lparr>es_pending := rest\<rparr>)"
  shows "enum_inv lb selection occupied budget st1"
proof -
  note push = push_entry_sels [OF st1 [unfolded item] kind]
  then obtain e b where e: "eo_entries st1 = eo_entries st @ [e]" "pe_item_id e = item_id"
      "pe_root_item_id e = sl_root_item_id selection" "pe_parent_item_id e = parent"
      "pe_relative_components e = components" "pe_name e = name"
      "pe_kind e = Directory \<longrightarrow> pe_plaintext_size e = 0" "pe_digest e = None"
      and b: "eo_bindings st1 = AList.update item_id b (eo_bindings st)"
    by auto
  have head: "pending_ok (eo_entries st) item" and tails: "\<forall>q \<in> set rest. pending_ok (eo_entries st) q"
      and sorted: "sorted_wrt before (components # map (fst \<circ> snd) rest)"
    using inv pending by (auto simp: enum_inv_def item)
  have "listing_ok lb (sl_root_item_id selection) (sl_requested_name selection) (eo_entries st @ [e])"
    using inv head valid bounds e name
    by (auto simp: enum_inv_def listing_ok_snoc entry_fine_def place_ok_def pending_ok_def item)
  moreover have "\<forall>q \<in> set rest. pending_ok (eo_entries st @ [e]) q"
    using tails sorted e by (auto simp: pending_ok_def before_def)
  moreover have "ids_ok occupied st1"
  proof (rule ids_ok_push [OF _ fresh e(1,2) _ b])
    show "ids_ok occupied st"
      using inv by (simp add: enum_inv_def)
  qed (use push(4,6) in simp_all)
  ultimately show ?thesis
    using size sorted push(2) by (simp add: enum_inv_def e)
qed

text \<open>The children of the entry just listed come before whatever was on the stack.\<close>

lemma enum_inv_children:
  assumes inv: "enum_inv lb selection occupied budget st"
    and e: "e \<in> set (eo_entries st)" "pe_item_id e = item_id" "pe_relative_components e = components"
      "pe_kind e = Directory"
    and greatest: "\<forall>d \<in> set (eo_entries st). pe_relative_components d \<le> components"
    and above: "\<forall>q \<in> set (es_pending st). before components (fst (snd q))"
  shows "enum_inv lb selection occupied budget (push_children lb os p components item_id st)"
proof -
  let ?st = "push_children lb os p components item_id st"
  obtain cs where cs: "es_pending ?st = cs @ es_pending st"
      "\<forall>c \<in> set cs. \<exists>n. snd c = (components @ [n], Some item_id)"
      "sorted_wrt (<) (map (fst \<circ> snd) cs)"
    and issues: "\<exists>more. eo_issues ?st = eo_issues st @ more"
    using push_children_pending [of lb os p components item_id st] by blast
  have ok: "pending_ok (eo_entries st) c" if c: "c \<in> set cs" for c
  proof -
    obtain n where "snd c = (components @ [n], Some item_id)"
      using cs(2) c by blast
    moreover have "pe_relative_components d < components @ [n]" if "d \<in> set (eo_entries st)" for d
      using greatest that less_snoc [of components n] by (meson le_less_trans)
    ultimately show ?thesis
      using e by (auto simp: pending_ok_def is_parent_def)
  qed
  have sorted: "sorted_wrt before (map (fst \<circ> snd) cs)"
  proof (rule sorted_wrt_mono_rel [OF _ cs(3)])
    fix x y assume "x \<in> set (map (fst \<circ> snd) cs)" "y \<in> set (map (fst \<circ> snd) cs)" "x < y"
    moreover from this cs(2) obtain m n where "x = components @ [m]" "y = components @ [n]"
      by fastforce
    ultimately show "before x y"
      using before_siblings [of m n components] snoc_less_snoc [of n m components]
      by (cases m n rule: linorder_cases) (auto dest: less_asym)
  qed
  have "before (fst (snd c)) (fst (snd q))" if c: "c \<in> set cs" and q: "q \<in> set (es_pending st)" for c q
  proof -
    obtain n where "snd c = (components @ [n], Some item_id)"
      using cs(2) c by blast
    then show ?thesis
      using above q before_extend by auto
  qed
  then show ?thesis
    using inv issues ok sorted
    by (auto simp: enum_inv_def cs(1) sorted_wrt_append ids_ok_def)
qed

section \<open>The loop\<close>

lemma stable_id_fresh:
  "stable_inventory_item_id lb job_id root components occupied = Some item_id \<Longrightarrow> item_id \<notin> occupied"
  by (auto simp: stable_inventory_item_id_def dest: while_option_stop)

lemma visit_inv:
  assumes inv: "enum_inv lb selection occupied budget st" and pending: "es_pending st = item # rest"
    and size: "length (eo_entries st) < budget"
    and visit: "visit lb os selection job_id item (st\<lparr>es_pending := rest\<rparr>) = Some st'"
  shows "enum_inv lb selection occupied budget st'"
proof -
  obtain p components parent where item: "item = (p, components, parent)"
    by (cases item) auto
  define name where "name = (if components = [] then sl_requested_name selection else last components)"
  consider (skip) c k where "st' = add_issue c k (st\<lparr>es_pending := rest\<rparr>)"
    | (list) md item_id where "length components \<le> MAX_MANIFEST_V2_PATH_DEPTH"
        "logical_path_bytes components \<le> MAX_MANIFEST_V2_PATH_BYTES"
        "md_kind md = FK_File \<or> md_kind md = FK_Dir"
        "job_validate_component lb name = Inr ()" "item_id \<notin> es_occupied st"
        "st' = list_item lb os selection item name md (st\<lparr>es_pending := rest\<rparr>) item_id"
    using visit unfolding visit_def item Let_def prod.case name_def [symmetric]
    by (auto split: if_splits sum.splits dest!: stable_id_fresh)
  then show ?thesis
  proof cases
    case skip
    then show ?thesis
      using enum_inv_skip [OF inv pending] by simp
  next
    case list
    define st1 where "st1 = push_entry lb os selection item name md item_id (st\<lparr>es_pending := rest\<rparr>)"
    have inv1: "enum_inv lb selection occupied budget st1"
      by (rule enum_inv_push [OF inv pending size item name_def list(4,1,2,3,5) st1_def])
    note push = push_entry_sels [OF st1_def [unfolded item] list(3)]
    have "enum_inv lb selection occupied budget (push_children lb os p components item_id st1)"
      if dir: "md_kind md = FK_Dir"
    proof -
      from push(1) dir obtain e where e: "eo_entries st1 = eo_entries st @ [e]" "pe_item_id e = item_id"
          "pe_relative_components e = components" "pe_kind e = Directory"
        by auto
      have "\<forall>d \<in> set (eo_entries st1). pe_relative_components d \<le> components"
        using inv pending by (auto simp: enum_inv_def e pending_ok_def item intro: less_imp_le)
      moreover have "\<forall>q \<in> set (es_pending st1). before components (fst (snd q))"
        using inv pending by (auto simp: enum_inv_def push(2) item)
      ultimately show ?thesis
        using inv1 e by (intro enum_inv_children [OF inv1 _ e(2-4)]) simp_all
    qed
    then show ?thesis
      using list(6) inv1 unfolding list_item_def Let_def st1_def [symmetric] by (cases "md_kind md = FK_Dir") (simp_all add: item)
  qed
qed

lemma enumerate_loop_inv:
  assumes "enumerate_loop lb os selection job_id budget st = Some st'"
    and "enum_inv lb selection occupied budget st"
  shows "enum_inv lb selection occupied budget st' \<and> (es_pending st' = [] \<or> eo_issues st' \<noteq> [])"
  using assms
proof (induction lb os selection job_id budget st rule: enumerate_loop.induct)
  case (1 lb os selection job_id budget st)
  show ?case
  proof (cases "es_pending st")
    case Nil
    then show ?thesis
      using 1(2,3) by (simp add: enumerate_loop.simps [of lb os selection job_id budget st])
  next
    case (Cons item rest)
    show ?thesis
    proof (cases "length (eo_entries st) \<ge> budget")
      case True
      then have "st' = add_issue (fst (snd item)) EntryLimit (st\<lparr>es_pending := rest\<rparr>)"
        using 1(2) by (simp add: enumerate_loop.simps [of lb os selection job_id budget st] Cons)
      then show ?thesis
        using enum_inv_skip [OF 1(3) Cons] by simp
    next
      case False
      then obtain st1 where st1: "visit lb os selection job_id item (st\<lparr>es_pending := rest\<rparr>) = Some st1"
          "enumerate_loop lb os selection job_id budget st1 = Some st'"
        using 1(2) by (auto simp: enumerate_loop.simps [of lb os selection job_id budget st] Cons split: option.splits)
      then show ?thesis
        using 1(1) [OF Cons False st1(1) st1(2)] visit_inv [OF 1(3) Cons _ st1(1)] False by simp
    qed
  qed
qed

text \<open>What a finished enumeration guarantees.\<close>

lemma enumerate_outcome:
  assumes "enumerate_local_selection lb os selection job_id occupied budget = Some r"
  obtains out where "r = Inr out"
    and "listing_ok lb (sl_root_item_id selection) (sl_requested_name selection) (eo_entries out)"
    and "distinct (map pe_item_id (eo_entries out))" and "pe_item_id ` set (eo_entries out) \<inter> occupied = {}"
    and "map fst (eo_bindings out) = map pe_item_id (eo_entries out)"
    and "eo_root_inventory_item_id out = (if eo_entries out = [] then None else Some (pe_item_id (hd (eo_entries out))))"
    and "eo_issues out = [] \<longrightarrow> eo_entries out \<noteq> []" and "length (eo_entries out) \<le> budget"
proof -
  let ?st = "\<lparr>eo_root_inventory_item_id = None, eo_entries = [], eo_bindings = [], eo_issues = [],
      es_pending = [(sl_path selection, [], None)], es_occupied = occupied\<rparr>"
  from assms obtain st where st: "enumerate_loop lb os selection job_id budget ?st = Some st"
      and r: "r = Inr (EnumerationOutcome.truncate st)"
    by (auto simp: enumerate_local_selection_def)
  have "enum_inv lb selection occupied budget ?st"
    by (simp add: enum_inv_def ids_ok_def pending_ok_def)
  from enumerate_loop_inv [OF st this] show ?thesis
    by (intro that [OF r]) (auto simp: enum_inv_def ids_ok_def EnumerationOutcome.defs)
qed

end
