(* ===== verification/Job_Inv.thy ===== *)
theory Job_Inv
  imports Job_Enum
begin

text \<open>
  The invariant of a transfer job and the rules to prove that an operation keeps it. \<open>triple\<close> is a
  Hoare triple with a condition for failures: an operation may fail with the invariant intact, or
  because a 64-bit counter overflows. \<open>core_on X\<close> is what holds of the sources between the steps of
  an operation, \<open>X\<close> the roots being rewritten; \<open>job_inv\<close> adds the order and the lifecycle. With
  \<open>careful\<close> the paths given to the job were fresh, and the invariant also keeps its staging files and
  those it is about to delete apart from the other sources.
\<close>

section \<open>Triples\<close>

definition overflow :: "TransferJobError \<Rightarrow> bool" where
  "overflow e \<longleftrightarrow> e \<in> TJ_InvalidRecord ` {RevisionOverflow, IssueIdOverflow, SourceItemIdOverflow}"

definition outcome_ok ::
  "('a \<Rightarrow> CanonicalTransferJob \<Rightarrow> bool) \<Rightarrow> (CanonicalTransferJob \<Rightarrow> bool)
     \<Rightarrow> (TransferJobError + 'a) \<times> CanonicalTransferJob \<Rightarrow> bool" where
  "outcome_ok Q E r = (case r of (Inr a, j) \<Rightarrow> Q a j | (Inl e, j) \<Rightarrow> overflow e \<or> E j)"

definition triple ::
  "(CanonicalTransferJob \<Rightarrow> bool) \<Rightarrow> 'a job_op \<Rightarrow> ('a \<Rightarrow> CanonicalTransferJob \<Rightarrow> bool)
     \<Rightarrow> (CanonicalTransferJob \<Rightarrow> bool) \<Rightarrow> bool" where
  "triple P m Q E \<longleftrightarrow> (\<forall>j. P j \<longrightarrow> outcome_ok Q E (m j))"

lemma outcome_ok_simps [simp]:
  "outcome_ok Q E (Inr a, j) \<longleftrightarrow> Q a j"
  "outcome_ok Q E (Inl e, j) \<longleftrightarrow> overflow e \<or> E j"
  by (simp_all add: outcome_ok_def)

lemma overflow_simps [simp]:
  "overflow (TJ_InvalidRecord RevisionOverflow)" "overflow (TJ_InvalidRecord IssueIdOverflow)"
  "overflow (TJ_InvalidRecord SourceItemIdOverflow)"
  by (simp_all add: overflow_def)

lemma triple_bind:
  assumes "triple P m R E" and "\<And>a. triple (R a) (f a) Q E"
  shows "triple P (bindO m f) Q E"
  unfolding triple_def
proof (intro allI impI)
  fix j assume "P j"
  with assms(1) have "outcome_ok R E (m j)" by (simp add: triple_def)
  then show "outcome_ok Q E (bindO m f j)"
    using assms(2) by (cases "m j" rule: prod.exhaust; cases "fst (m j)") (auto simp: bindO_def triple_def)
qed

lemma triple_check:
  "(\<And>j a. P j \<Longrightarrow> f j = Inr a \<Longrightarrow> Q a j) \<Longrightarrow> (\<And>j. P j \<Longrightarrow> E j) \<Longrightarrow> triple P (checkO f) Q E"
  by (auto simp: triple_def checkO_def outcome_ok_def split: sum.split)

lemma triple_modify: "(\<And>j. P j \<Longrightarrow> Q () (f j)) \<Longrightarrow> triple P (modifyO f) Q E"
  by (simp add: triple_def modifyO_def)

lemma triple_return: "(\<And>j. P j \<Longrightarrow> Q a j) \<Longrightarrow> triple P (returnO a) Q E"
  by (simp add: triple_def returnO_def)

lemma triple_pre: "triple P' m Q E \<Longrightarrow> (\<And>j. P j \<Longrightarrow> P' j) \<Longrightarrow> triple P m Q E"
  by (simp add: triple_def)

lemma triple_post: "triple P m Q' E \<Longrightarrow> (\<And>a j. Q' a j \<Longrightarrow> Q a j) \<Longrightarrow> triple P m Q E"
  by (fastforce simp: triple_def outcome_ok_def split: prod.splits sum.splits)

lemma triple_if:
  "(c \<Longrightarrow> triple P m Q E) \<Longrightarrow> (\<not> c \<Longrightarrow> triple P n Q E) \<Longrightarrow> triple P (if c then m else n) Q E"
  by simp

section \<open>The invariant\<close>

abbreviation root_listing :: "PreparedInventoryEntry list \<Rightarrow> SourceItemId \<Rightarrow> PreparedInventoryEntry list" where
  "root_listing inventory root \<equiv> filter (\<lambda>e. pe_root_item_id e = root) inventory"

definition selection_ok :: "JobLibs \<Rightarrow> PreparedInventoryEntry list \<Rightarrow> u64 \<Rightarrow> SourceSelection \<Rightarrow> bool" where
  "selection_ok lb inventory next_issue s \<longleftrightarrow>
     (\<forall>i \<in> set (sl_issues s). si_root_item_id i = sl_root_item_id s)
     \<and> length (sl_issues s) < unat next_issue
     \<and> (sl_state s = NeedsDecision \<longrightarrow> sl_issues s \<noteq> [])
     \<and> listing_ok lb (sl_root_item_id s) (sl_requested_name s) (root_listing inventory (sl_root_item_id s))
     \<and> sl_root_inventory_item_id s =
         (if root_listing inventory (sl_root_item_id s) = [] then None
          else Some (pe_item_id (hd (root_listing inventory (sl_root_item_id s)))))
     \<and> (sl_state s = Ready \<longrightarrow> root_listing inventory (sl_root_item_id s) \<noteq> [])
     \<and> (\<forall>omitted. sl_completeness s \<noteq> UserApprovedPartial 0 omitted)"

text \<open>
  Two selections: with fresh paths, staging the job owns is used by one of them only; their canonical paths differ, and
  the second does not lie below the first when that is a directory.
\<close>

definition pair_ok :: "bool \<Rightarrow> SourceSelection \<Rightarrow> SourceSelection \<Rightarrow> bool" where
  "pair_ok careful s t \<longleftrightarrow>
     (careful \<longrightarrow> sl_job_owned_staging s \<longrightarrow> \<not> path_eq (sl_path s) (sl_path t))
     \<and> (\<forall>c d. sl_canonical_path s = Some c \<longrightarrow> sl_canonical_path t = Some d \<longrightarrow>
          \<not> path_eq c d \<and> (sl_is_directory_hint s = Some True \<longrightarrow> \<not> starts_with d c))"

definition selections_ok :: "bool \<Rightarrow> JobLibs \<Rightarrow> SourceItemId set \<Rightarrow> CanonicalTransferJob \<Rightarrow> bool" where
  "selections_ok careful lb X j \<longleftrightarrow>
     length (tj_selections j) \<le> MAX_MANIFEST_V2_ROOTS
     \<and> distinct (map sl_root_item_id (tj_selections j))
     \<and> (\<forall>s \<in> set (tj_selections j).
          unat (sl_root_item_id s) < unat (tj_next_source_item_id j)
          \<and> job_validate_component lb (sl_requested_name s) = Inr ()
          \<and> (sl_root_item_id s \<notin> X \<longrightarrow> selection_ok lb (tj_inventory j) (tj_next_issue_id j) s)
          \<and> (careful \<longrightarrow> (\<forall>p \<in> set (tj_cleanup_pending j). \<not> path_eq (sl_path s) p))
          \<and> (\<forall>t \<in> set (tj_selections j). sl_root_item_id s \<noteq> sl_root_item_id t \<longrightarrow> pair_ok careful s t))"

definition inventory_ok :: "CanonicalTransferJob \<Rightarrow> bool" where
  "inventory_ok j \<longleftrightarrow>
     length (tj_inventory j) \<le> MAX_MANIFEST_V2_ENTRIES
     \<and> distinct (map pe_item_id (tj_inventory j))
     \<and> pe_root_item_id ` set (tj_inventory j) \<subseteq> sl_root_item_id ` set (tj_selections j)
     \<and> distinct (map fst (tj_source_bindings j))
     \<and> fst ` set (tj_source_bindings j) = pe_item_id ` set (tj_inventory j)"

definition identity_ok :: "CanonicalTransferJob \<Rightarrow> bool" where
  "identity_ok j \<longleftrightarrow> tj_schema_version j = TRANSFER_JOB_SCHEMA_VERSION \<and> tj_job_id j \<noteq> replicate 16 0
     \<and> tj_created_unix_ms j \<le> tj_updated_unix_ms j
     \<and> tj_selection_revision j \<noteq> 0 \<and> tj_generation j \<noteq> 0 \<and> 0 < unat (tj_next_issue_id j)"

definition core_on :: "bool \<Rightarrow> JobLibs \<Rightarrow> SourceItemId set \<Rightarrow> CanonicalTransferJob \<Rightarrow> bool" where
  "core_on careful lb X j \<longleftrightarrow> identity_ok j \<and> selections_ok careful lb X j \<and> inventory_ok j"

definition is_open :: "CanonicalTransferJob \<Rightarrow> bool" where
  "is_open j \<longleftrightarrow> tj_sealed j = None \<and> tj_lifecycle j \<noteq> Sealed \<and> tj_lifecycle j \<noteq> Canceled"

definition orders_ok :: "CanonicalTransferJob \<Rightarrow> bool" where
  "orders_ok j \<longleftrightarrow> (\<forall>i < length (tj_selections j). sl_selection_order (tj_selections j ! i) = word_of_nat i)"

text \<open>A sealed manifest has the entries of the inventory in the order of the roots.\<close>

definition seal_matches :: "ManifestV2 \<Rightarrow> CanonicalTransferJob \<Rightarrow> bool" where
  "seal_matches m j \<longleftrightarrow>
     map (\<lambda>e. (me_component e, me_kind e, me_plaintext_size e)) (mf_entries m)
       = map (\<lambda>e. (pe_name e, pe_kind e, pe_plaintext_size e)) (sealed_order j)"

definition phase_ok :: "JobLibs \<Rightarrow> CanonicalTransferJob \<Rightarrow> bool" where
  "phase_ok lb j =
     (case tj_lifecycle j of
        Canceled \<Rightarrow>
          (case tj_sealed j of
             None \<Rightarrow> True
           | Some sealed \<Rightarrow> mf_selection_revision (sj_manifest sealed) \<noteq> tj_selection_revision j)
      | Sealed \<Rightarrow> durable_seal lb j = Inr ()
          \<and> (\<exists>sealed. tj_sealed j = Some sealed \<and> seal_matches (sj_manifest sealed) j)
      | lifecycle \<Rightarrow> tj_sealed j = None \<and> lifecycle = expected_lifecycle (tj_selections j))"

definition job_inv :: "bool \<Rightarrow> JobLibs \<Rightarrow> CanonicalTransferJob \<Rightarrow> bool" where
  "job_inv careful lb j \<longleftrightarrow> core_on careful lb {} j \<and> orders_ok j \<and> phase_ok lb j"

text \<open>What an operation that may change the sources starts from.\<close>

definition job_open :: "bool \<Rightarrow> JobLibs \<Rightarrow> SourceItemId set \<Rightarrow> CanonicalTransferJob \<Rightarrow> bool" where
  "job_open careful lb X j \<longleftrightarrow> core_on careful lb X j \<and> is_open j"

lemma expected_lifecycle_open [simp]:
  "expected_lifecycle ss \<noteq> Sealed" "expected_lifecycle ss \<noteq> Canceled"
  by (simp_all add: expected_lifecycle_def)

lemma ensure_mutable_iff [simp]: "ensure_mutable j = Inr u \<longleftrightarrow> tj_lifecycle j \<noteq> Sealed \<and> tj_lifecycle j \<noteq> Canceled"
  by (cases "tj_lifecycle j") (simp_all add: ensure_mutable_def)

lemma job_inv_mutable:
  "job_inv careful lb j \<Longrightarrow> tj_lifecycle j \<noteq> Sealed \<Longrightarrow> tj_lifecycle j \<noteq> Canceled \<Longrightarrow> job_open careful lb {} j \<and> orders_ok j"
  by (cases "tj_lifecycle j") (auto simp: job_inv_def job_open_def is_open_def phase_ok_def)

lemma triple_mutable:
  "triple (job_inv careful lb) (checkO ensure_mutable) (\<lambda>_ j. job_inv careful lb j \<and> job_open careful lb {} j \<and> orders_ok j) (job_inv careful lb)"
  by (rule triple_check) (use job_inv_mutable in auto)

section \<open>Committing\<close>

lemma checked_add_nonzero: "checked_add a 1 = Some b \<Longrightarrow> b \<noteq> (0 :: u64) \<and> unat b = Suc (unat a)"
  by (auto simp: checked_add_Some_iff)

lemma refresh_commits:
  "core_on careful lb {} j \<Longrightarrow> orders_ok j \<Longrightarrow> is_open j \<Longrightarrow> job_inv careful lb (refresh_lifecycle j)"
  by (simp add: job_inv_def refresh_lifecycle_def is_open_def core_on_def identity_ok_def selections_ok_def
      inventory_ok_def orders_ok_def phase_ok_def expected_lifecycle_def)

lemma bump_revision_triple:
  "triple (\<lambda>j. job_open careful lb {} j \<and> orders_ok j) (bump_revision os) (\<lambda>_ j. job_open careful lb {} j \<and> orders_ok j) E"
  by (auto simp: triple_def bump_revision_def job_open_def core_on_def is_open_def identity_ok_def
      selections_ok_def inventory_ok_def orders_ok_def dest: checked_add_nonzero split: option.split
      intro: max.coboundedI2)

lemma refresh_open: "is_open j \<Longrightarrow> is_open (refresh_lifecycle j)"
  by (simp add: is_open_def refresh_lifecycle_def)

lemma commit_change_live:
  "triple (\<lambda>j. job_open careful lb {} j \<and> orders_ok j) (commit_change os) (\<lambda>_ j. job_inv careful lb j \<and> is_open j) E"
  unfolding commit_change_def
  by (rule triple_bind [OF bump_revision_triple], rule triple_modify) (simp add: refresh_commits refresh_open job_open_def)

lemma commit_change_triple:
  "triple (\<lambda>j. job_open careful lb {} j \<and> orders_ok j) (commit_change os) (\<lambda>_. job_inv careful lb) E"
  by (rule triple_post [OF commit_change_live]) simp

end
