(* ===== verification/Job_Inv_Sources.thy ===== *)
theory Job_Inv_Sources
  imports Job_Inv
begin

text \<open>
  The operations on the sources of a job keep its invariant: adding, removing, reauthorizing and
  preparing a selection, approving a partial one, attaching a provider's issues.
\<close>

section \<open>Restricting a job to some roots\<close>

lemma bindings_filter:
  assumes "fst ` set bs = pe_item_id ` set xs" and "set ys \<subseteq> set xs"
  shows "fst ` set (filter (\<lambda>b. fst b \<in> pe_item_id ` set ys) bs) = pe_item_id ` set ys"
proof -
  have "fst ` set (filter (\<lambda>b. fst b \<in> pe_item_id ` set ys) bs) = fst ` set bs \<inter> pe_item_id ` set ys"
    by auto
  then show ?thesis
    using assms by auto
qed

lemma updates_keep [simp]:
  "identity_ok (j\<lparr>tj_selections := ss\<rparr>) \<longleftrightarrow> identity_ok j" "is_open (j\<lparr>tj_selections := ss\<rparr>) \<longleftrightarrow> is_open j"
  "identity_ok (j\<lparr>tj_inventory := es\<rparr>) \<longleftrightarrow> identity_ok j" "is_open (j\<lparr>tj_inventory := es\<rparr>) \<longleftrightarrow> is_open j"
  "identity_ok (j\<lparr>tj_source_bindings := bs\<rparr>) \<longleftrightarrow> identity_ok j" "is_open (j\<lparr>tj_source_bindings := bs\<rparr>) \<longleftrightarrow> is_open j"
  "identity_ok (j\<lparr>tj_cleanup_pending := ps\<rparr>) \<longleftrightarrow> identity_ok j" "is_open (j\<lparr>tj_cleanup_pending := ps\<rparr>) \<longleftrightarrow> is_open j"
  by (simp_all add: identity_ok_def is_open_def)

lemma inventory_retain:
  assumes "inventory_ok j"
    and "\<And>e. e \<in> set (tj_inventory j) \<Longrightarrow> keep (pe_root_item_id e) \<Longrightarrow> pe_root_item_id e \<in> sl_root_item_id ` set ss"
  shows "inventory_ok (retain_roots keep (j\<lparr>tj_selections := ss\<rparr>))"
  using assms bindings_filter [of "tj_source_bindings j" "tj_inventory j" "filter (\<lambda>e. keep (pe_root_item_id e)) (tj_inventory j)"]
  by (auto simp: inventory_ok_def retain_roots_def retain_current_bindings_def distinct_map inj_on_def
      intro!: order_trans [OF length_filter_le])

lemma selection_ok_retain [simp]:
  assumes "keep (sl_root_item_id s)"
  shows "selection_ok lb (filter (\<lambda>e. keep (pe_root_item_id e)) inventory) n s \<longleftrightarrow> selection_ok lb inventory n s"
proof -
  have "root_listing (filter (\<lambda>e. keep (pe_root_item_id e)) inventory) (sl_root_item_id s)
      = root_listing inventory (sl_root_item_id s)"
    using assms by (induction inventory) auto
  then show ?thesis
    by (simp only: selection_ok_def)
qed

lemma retain_roots_sels [simp]:
  "tj_selections (retain_roots keep j) = tj_selections j"
  "tj_inventory (retain_roots keep j) = filter (\<lambda>e. keep (pe_root_item_id e)) (tj_inventory j)"
  "tj_next_issue_id (retain_roots keep j) = tj_next_issue_id j"
  "tj_next_source_item_id (retain_roots keep j) = tj_next_source_item_id j"
  "tj_cleanup_pending (retain_roots keep j) = tj_cleanup_pending j"
  "tj_sealed (retain_roots keep j) = tj_sealed j"
  "tj_lifecycle (retain_roots keep j) = tj_lifecycle j"
  "identity_ok (retain_roots keep j) \<longleftrightarrow> identity_ok j"
  "is_open (retain_roots keep j) \<longleftrightarrow> is_open j"
  by (simp_all add: retain_roots_def retain_current_bindings_def identity_ok_def is_open_def)

text \<open>Dropping the selections of some roots together with their entries.\<close>

lemma core_drop_roots:
  assumes "job_open careful lb X j"
  shows "job_open careful lb X (retain_roots keep (j\<lparr>tj_selections := filter (\<lambda>s. keep (sl_root_item_id s)) (tj_selections j)\<rparr>))"
proof -
  let ?ss = "filter (\<lambda>s. keep (sl_root_item_id s)) (tj_selections j)"
  have core: "identity_ok j" "selections_ok careful lb X j" "inventory_ok j" "is_open j"
    using assms by (simp_all add: job_open_def core_on_def)
  have "inventory_ok (retain_roots keep (j\<lparr>tj_selections := ?ss\<rparr>))"
    using core(3) by (intro inventory_retain) (auto simp: inventory_ok_def)
  moreover have "selections_ok careful lb X (retain_roots keep (j\<lparr>tj_selections := ?ss\<rparr>))"
    using core(2) by (auto simp: selections_ok_def distinct_map inj_on_def
        intro: order_trans [OF length_filter_le])
  ultimately show ?thesis
    using core(1,4) by (simp add: job_open_def core_on_def)
qed

text \<open>Dropping the entries of one root while its selection stays, exempt.\<close>

lemma core_drop_entries:
  assumes "job_open careful lb X j"
  shows "job_open careful lb (insert root X) (retain_roots (\<lambda>r. r \<noteq> root) j)"
proof -
  have "inventory_ok (retain_roots (\<lambda>r. r \<noteq> root) (j\<lparr>tj_selections := tj_selections j\<rparr>))"
    using assms by (intro inventory_retain) (auto simp: job_open_def core_on_def inventory_ok_def)
  then show ?thesis
    using assms
    by (auto simp: job_open_def core_on_def selections_ok_def selection_ok_retain [where keep = "\<lambda>r. r \<noteq> root"])
qed

section \<open>Rewriting one selection\<close>

lemma position_Some:
  "position P xs = Some i \<Longrightarrow> i < length xs \<and> P (xs ! i)"
  by (auto simp: position_def Let_def split: if_splits dest: nth_length_takeWhile)

lemma selection_index_Inr:
  "selection_index j root = Inr i \<Longrightarrow> i < length (tj_selections j) \<and> sl_root_item_id (tj_selections j ! i) = root"
  by (auto simp: selection_index_def dest: position_Some)

lemma update_selection_sels [simp]:
  "tj_inventory (update_selection i f j) = tj_inventory j"
  "tj_source_bindings (update_selection i f j) = tj_source_bindings j"
  "tj_next_issue_id (update_selection i f j) = tj_next_issue_id j"
  "tj_next_source_item_id (update_selection i f j) = tj_next_source_item_id j"
  "tj_cleanup_pending (update_selection i f j) = tj_cleanup_pending j"
  "tj_selections (update_selection i f j) = (tj_selections j)[i := f (tj_selections j ! i)]"
  "identity_ok (update_selection i f j) \<longleftrightarrow> identity_ok j"
  "is_open (update_selection i f j) \<longleftrightarrow> is_open j"
  by (simp_all add: update_selection_def identity_ok_def is_open_def)

text \<open>
  A rewritten selection keeps its root and name; its path and place fit those of the others; it is
  in order unless its root stays exempt.
\<close>

definition fits_others :: "bool \<Rightarrow> SourceSelection \<Rightarrow> CanonicalTransferJob \<Rightarrow> bool" where
  "fits_others careful s j \<longleftrightarrow>
     (careful \<longrightarrow> (\<forall>p \<in> set (tj_cleanup_pending j). \<not> path_eq (sl_path s) p))
     \<and> (\<forall>t \<in> set (tj_selections j). sl_root_item_id t \<noteq> sl_root_item_id s \<longrightarrow> pair_ok careful s t \<and> pair_ok careful t s)"

lemma core_update_selection:
  assumes j: "job_open careful lb X j" and i: "i < length (tj_selections j)"
    and s: "s = tj_selections j ! i" "sl_root_item_id (f s) = sl_root_item_id s" "sl_requested_name (f s) = sl_requested_name s"
    and fits: "fits_others careful (f s) j"
    and ok: "sl_root_item_id s \<notin> Y \<Longrightarrow> selection_ok lb (tj_inventory j) (tj_next_issue_id j) (f s)"
    and XY: "X \<subseteq> insert (sl_root_item_id s) Y"
  shows "job_open careful lb Y (update_selection i f j)"
proof -
  let ?ss = "(tj_selections j)[i := f s]"
  have core: "selections_ok careful lb X j" "inventory_ok j" and mem: "s \<in> set (tj_selections j)"
    using j i s(1) by (simp_all add: job_open_def core_on_def)
  have roots: "map sl_root_item_id ?ss = map sl_root_item_id (tj_selections j)"
    using i s by (simp add: map_update list_update_same_conv)
  have elems: "t = f s \<or> t \<in> set (tj_selections j) \<and> sl_root_item_id t \<noteq> sl_root_item_id s" if "t \<in> set ?ss" for t
  proof -
    from that obtain k where k: "k < length ?ss" "t = ?ss ! k"
      by (auto simp: in_set_conv_nth)
    show ?thesis
    proof (cases "k = i")
      case False
      then have "sl_root_item_id (tj_selections j ! k) \<noteq> sl_root_item_id (tj_selections j ! i)"
        using core(1) k(1) i nth_eq_iff_index_eq [of "map sl_root_item_id (tj_selections j)" k i]
        by (simp add: selections_ok_def)
      then show ?thesis
        using k False s(1) by simp
    qed (use k i in simp)
  qed
  have "selections_ok careful lb Y (update_selection i f j)"
    unfolding selections_ok_def
  proof (intro conjI ballI impI)
    show "distinct (map sl_root_item_id (tj_selections (update_selection i f j)))"
      using core(1) roots s(1) by (simp add: selections_ok_def)
    fix t assume "t \<in> set (tj_selections (update_selection i f j))"
    then have t: "t = f s \<or> t \<in> set (tj_selections j) \<and> sl_root_item_id t \<noteq> sl_root_item_id s"
      using elems s(1) by simp
    show "unat (sl_root_item_id t) < unat (tj_next_source_item_id (update_selection i f j))"
        "job_validate_component lb (sl_requested_name t) = Inr ()"
      using t core(1) mem s by (auto simp: selections_ok_def)
    show "selection_ok lb (tj_inventory (update_selection i f j)) (tj_next_issue_id (update_selection i f j)) t"
      if "sl_root_item_id t \<notin> Y"
      using t that ok core(1) XY s(2) by (auto simp: selections_ok_def)
    show "\<not> path_eq (sl_path t) p" if careful and "p \<in> set (tj_cleanup_pending (update_selection i f j))" for p
      using t that fits core(1) by (auto simp: selections_ok_def fits_others_def)
    show "pair_ok careful t u" if "u \<in> set (tj_selections (update_selection i f j))" "sl_root_item_id t \<noteq> sl_root_item_id u" for u
      using t elems [of u] that fits core(1) s by (auto simp: selections_ok_def fits_others_def)
  qed (use core(1) in \<open>simp add: selections_ok_def\<close>)
  moreover have "inventory_ok (update_selection i f j)"
    using core(2) arg_cong [OF roots, of set] s(1) by (simp add: inventory_ok_def)
  ultimately show ?thesis
    using j by (simp add: job_open_def core_on_def)
qed

text \<open>A selection that keeps its path and place fits as before.\<close>

lemma fits_others_same:
  assumes "job_open careful lb X j" and "s \<in> set (tj_selections j)"
    and "sl_root_item_id t = sl_root_item_id s" "sl_path t = sl_path s"
      "sl_job_owned_staging t = sl_job_owned_staging s" "sl_canonical_path t = sl_canonical_path s"
      "sl_is_directory_hint t = sl_is_directory_hint s"
  shows "fits_others careful t j"
  using assms by (auto simp: fits_others_def job_open_def core_on_def selections_ok_def pair_ok_def)

lemma orders_update [simp]:
  "sl_selection_order (f (tj_selections j ! i)) = sl_selection_order (tj_selections j ! i)
     \<Longrightarrow> orders_ok j \<Longrightarrow> orders_ok (update_selection i f j)"
  by (cases "i < length (tj_selections j)") (auto simp: orders_ok_def nth_list_update)

lemma orders_retain [simp]: "orders_ok (retain_roots keep j) \<longleftrightarrow> orders_ok j"
  by (simp add: orders_ok_def)

end
