(* ===== verification/Job_Inv_Ops.thy ===== *)
theory Job_Inv_Ops
  imports Job_Inv_Sources
begin

text \<open>
  One triple per operation of a job. The rules for counters and issues are weakest preconditions; the
  operations follow by composing them with the lemmas on selections and entries.
\<close>

section \<open>Counters\<close>

lemma allocate_triple:
  "triple (\<lambda>j. \<forall>n. unat n = Suc (unat (tj_next_source_item_id j))
       \<longrightarrow> Q (tj_next_source_item_id j) (j\<lparr>tj_next_source_item_id := n\<rparr>)) allocate_source_item_id Q E"
  by (auto simp: triple_def allocate_source_item_id_def dest: checked_add_nonzero split: option.split)

lemma issue_triple:
  "triple (\<lambda>j. \<forall>n i. unat n = Suc (unat (tj_next_issue_id j)) \<longrightarrow> si_root_item_id i = root
       \<longrightarrow> Q i (j\<lparr>tj_next_issue_id := n\<rparr>)) (issue root components kind) Q E"
  by (auto simp: triple_def issue_def dest: checked_add_nonzero split: option.split)

lemma same_issue_id:
  "unat n = unat (tj_next_issue_id j) \<Longrightarrow> j\<lparr>tj_next_issue_id := n\<rparr> = (j :: CanonicalTransferJob)"
  by (cases j) (simp add: word_unat_eq_iff)

lemma resolve_issues_triple:
  "triple (\<lambda>j. \<forall>n is. unat n = unat (tj_next_issue_id j) + length xs \<longrightarrow> length is = length xs
       \<longrightarrow> (\<forall>i \<in> set is. si_root_item_id i = root) \<longrightarrow> Q is (j\<lparr>tj_next_issue_id := n\<rparr>)) (resolve_issues root xs) Q E"
proof (induction xs arbitrary: Q)
  case Nil
  have "Q [] j" if "\<forall>n is. unat n = unat (tj_next_issue_id j) + length [] \<longrightarrow> length is = length []
      \<longrightarrow> (\<forall>i \<in> set is. si_root_item_id i = root) \<longrightarrow> Q is (j\<lparr>tj_next_issue_id := n\<rparr>)" for j
    using spec [OF that, of "tj_next_issue_id j"] by (simp add: same_issue_id)
  then show ?case
    by (simp add: triple_def returnO_def)
next
  case (Cons x xs)
  obtain components kind where x: "x = (components, kind)" by fastforce
  show ?case
    unfolding x resolve_issues.simps
    apply (rule triple_pre)
     apply (rule triple_bind [OF issue_triple])
     apply (rule triple_bind [OF Cons.IH])
     apply (rule triple_return)
     apply assumption
    apply auto
    done
qed

lemma initial_issues_triple:
  "triple (\<lambda>j. \<forall>n is. unat n = unat (tj_next_issue_id j) + length is
       \<longrightarrow> (\<forall>i \<in> set is. si_root_item_id i = root) \<longrightarrow> Q is (j\<lparr>tj_next_issue_id := n\<rparr>)) (initial_issues root initial) Q E"
proof (cases initial)
  case None
  have "Q [] j" if "\<forall>n is. unat n = unat (tj_next_issue_id j) + length is \<longrightarrow> (\<forall>i \<in> set is. si_root_item_id i = root)
      \<longrightarrow> Q is (j\<lparr>tj_next_issue_id := n\<rparr>)" for j
    using spec [OF that, of "tj_next_issue_id j"] by (simp add: same_issue_id)
  then show ?thesis
    by (simp add: None initial_issues_def triple_def returnO_def)
next
  case (Some kind)
  show ?thesis
    unfolding Some initial_issues_def option.case
    apply (rule triple_pre)
     apply (rule triple_bind [OF issue_triple])
     apply (rule triple_return)
     apply assumption
    apply auto
    done
qed

lemma open_more_issues:
  assumes "job_open careful lb X j" and "unat (tj_next_issue_id j) \<le> unat n"
  shows "job_open careful lb X (j\<lparr>tj_next_issue_id := n\<rparr>)"
  using assms
  by (fastforce simp: job_open_def core_on_def is_open_def identity_ok_def selections_ok_def selection_ok_def
      inventory_ok_def)

lemma open_more_roots:
  assumes "job_open careful lb X j" and "unat (tj_next_source_item_id j) \<le> unat n"
  shows "job_open careful lb X (j\<lparr>tj_next_source_item_id := n\<rparr>)"
  using assms
  by (fastforce simp: job_open_def core_on_def is_open_def identity_ok_def selections_ok_def inventory_ok_def)

lemma orders_counters [simp]:
  "orders_ok (j\<lparr>tj_next_issue_id := n\<rparr>) \<longleftrightarrow> orders_ok j"
  "orders_ok (j\<lparr>tj_next_source_item_id := n\<rparr>) \<longleftrightarrow> orders_ok j"
  "orders_ok (j\<lparr>tj_cleanup_pending := ps\<rparr>) \<longleftrightarrow> orders_ok j"
  by (simp_all add: orders_ok_def)

section \<open>Order\<close>

lemma order_irrelevant [simp]:
  "selection_ok lb es n (s\<lparr>sl_selection_order := k\<rparr>) \<longleftrightarrow> selection_ok lb es n s"
  "pair_ok careful (s\<lparr>sl_selection_order := k\<rparr>) t \<longleftrightarrow> pair_ok careful s t"
  "pair_ok careful s (t\<lparr>sl_selection_order := k\<rparr>) \<longleftrightarrow> pair_ok careful s t"
  by (simp_all add: selection_ok_def pair_ok_def)

lemma reindex_selections_nth:
  "length (tj_selections (reindex_selections j)) = length (tj_selections j)"
  "i < length (tj_selections j) \<Longrightarrow>
     tj_selections (reindex_selections j) ! i = (tj_selections j ! i)\<lparr>sl_selection_order := word_of_nat i\<rparr>"
  by (simp_all add: reindex_selections_def nth_enumerate_eq)

lemma reindex_elem:
  "t \<in> set (tj_selections (reindex_selections j))
     \<Longrightarrow> \<exists>s \<in> set (tj_selections j). \<exists>k. t = s\<lparr>sl_selection_order := k\<rparr>"
  by (clarsimp simp: in_set_conv_nth reindex_selections_nth) (metis nth_mem)

lemma reindex_roots [simp]:
  "map sl_root_item_id (tj_selections (reindex_selections j)) = map sl_root_item_id (tj_selections j)"
  by (rule nth_equalityI) (simp_all add: reindex_selections_nth)

lemma reindex_sels [simp]:
  "tj_inventory (reindex_selections j) = tj_inventory j"
  "tj_source_bindings (reindex_selections j) = tj_source_bindings j"
  "tj_next_issue_id (reindex_selections j) = tj_next_issue_id j"
  "tj_next_source_item_id (reindex_selections j) = tj_next_source_item_id j"
  "tj_cleanup_pending (reindex_selections j) = tj_cleanup_pending j"
  "identity_ok (reindex_selections j) \<longleftrightarrow> identity_ok j" "is_open (reindex_selections j) \<longleftrightarrow> is_open j"
  by (simp_all add: reindex_selections_def)

lemma orders_reindex [simp]: "orders_ok (reindex_selections j)"
  by (simp add: orders_ok_def reindex_selections_nth)

lemma open_reindex:
  assumes "job_open careful lb X j"
  shows "job_open careful lb X (reindex_selections j)"
proof -
  have "selections_ok careful lb X j" "inventory_ok j"
    using assms by (simp_all add: job_open_def core_on_def)
  moreover have "sl_root_item_id ` set (tj_selections (reindex_selections j)) = sl_root_item_id ` set (tj_selections j)"
    using arg_cong [OF reindex_roots, of set j] unfolding list.set_map .
  ultimately have "selections_ok careful lb X (reindex_selections j)" "inventory_ok (reindex_selections j)"
    by (auto simp: selections_ok_def inventory_ok_def reindex_selections_nth(1) dest!: reindex_elem)
  then show ?thesis
    using assms by (simp add: job_open_def core_on_def)
qed

section \<open>Adding a source\<close>

text \<open>
  The path of a new source: not a file about to be cleaned up, and shared with no other selection
  when the job owns the staging of one of them. Nothing is asked of a caller that is not \<open>careful\<close>.
\<close>

definition path_fresh :: "bool \<Rightarrow> bool \<Rightarrow> path \<Rightarrow> CanonicalTransferJob \<Rightarrow> bool" where
  "path_fresh careful staging p j \<longleftrightarrow> careful \<longrightarrow>
     (\<forall>q \<in> set (tj_cleanup_pending j). \<not> path_eq p q)
     \<and> (\<forall>s \<in> set (tj_selections j). staging \<or> sl_job_owned_staging s \<longrightarrow> \<not> path_eq p (sl_path s))"

lemma path_eq_sym: "path_eq p q \<longleftrightarrow> path_eq q p"
  by (auto simp: path_eq_def)

lemma open_push_selection:
  assumes j: "job_open careful lb {} j" and room: "length (tj_selections j) < MAX_MANIFEST_V2_ROOTS"
    and root: "\<forall>t \<in> set (tj_selections j). sl_root_item_id t \<noteq> sl_root_item_id s"
      "unat (sl_root_item_id s) < unat (tj_next_source_item_id j)"
    and name: "job_validate_component lb (sl_requested_name s) = Inr ()"
    and fits: "fits_others careful s j" and ok: "selection_ok lb (tj_inventory j) (tj_next_issue_id j) s"
  shows "job_open careful lb {} (push_selection s j) \<and> orders_ok (push_selection s j)"
proof -
  have core: "identity_ok j" "selections_ok careful lb {} j" "inventory_ok j" "is_open j"
    using j by (simp_all add: job_open_def core_on_def)
  have "selections_ok careful lb {} (j\<lparr>tj_selections := tj_selections j @ [s]\<rparr>)"
    using core(2) room root name fits ok by (auto simp: selections_ok_def fits_others_def)
  then have "job_open careful lb {} (j\<lparr>tj_selections := tj_selections j @ [s]\<rparr>)"
    using core by (auto simp: job_open_def core_on_def inventory_ok_def)
  from open_reindex [OF this] show ?thesis
    by (simp add: push_selection_def)
qed

lemma new_selection_ok:
  assumes "job_open careful lb {} j" and "\<forall>t \<in> set (tj_selections j). sl_root_item_id t \<noteq> root"
    and "\<forall>i \<in> set is. si_root_item_id i = root" and "length is < unat (tj_next_issue_id j)"
  shows "selection_ok lb (tj_inventory j) (tj_next_issue_id j) (new_selection root p name origin staging canonical hint is)"
proof -
  have "root_listing (tj_inventory j) root = []"
    using assms(1,2) by (fastforce simp: job_open_def core_on_def inventory_ok_def filter_empty_conv)
  then show ?thesis
    using assms(3,4) by (simp add: selection_ok_def new_selection_def)
qed

text \<open>The probe leaves no selection that covers the new one, and those below it are removed.\<close>

definition uncovered :: "path option \<Rightarrow> bool option \<Rightarrow> CanonicalTransferJob \<Rightarrow> bool" where
  "uncovered canonical hint j \<longleftrightarrow>
     (\<forall>s \<in> set (tj_selections j). \<forall>c. canonical = Some c \<longrightarrow>
        \<not> selection_covers c s \<and> (hint = Some True \<longrightarrow> \<not> selection_below c s))"

lemma new_selection_fits:
  assumes "path_fresh careful staging p j" and "uncovered canonical hint j"
  shows "fits_others careful (new_selection root p name origin staging canonical hint is) j"
  using assms
  by (auto simp: fits_others_def new_selection_def path_fresh_def uncovered_def pair_ok_def selection_covers_def
      selection_below_def path_eq_sym split: option.splits)

lemma remove_covered_filter:
  assumes "distinct (map sl_root_item_id ss)"
    and "removed = map sl_root_item_id (filter P ss)"
  shows "filter (\<lambda>s. \<not> P s) ss = filter (\<lambda>s. sl_root_item_id s \<notin> set removed) ss"
proof (rule filter_cong)
  fix s assume "s \<in> set ss"
  then show "(\<not> P s) = (sl_root_item_id s \<notin> set removed)"
    using assms by (auto simp: distinct_map inj_on_def)
qed simp

definition room_after :: "path option \<Rightarrow> bool option \<Rightarrow> CanonicalTransferJob \<Rightarrow> bool" where
  "room_after canonical hint j \<longleftrightarrow>
     length (tj_selections j) < MAX_MANIFEST_V2_ROOTS
     \<or> hint = Some True \<and> (\<exists>root. canonical = Some root \<and> list_ex (selection_below root) (tj_selections j))"

lemma remove_covered_triple:
  "triple (\<lambda>j. job_open careful lb {} j \<and> room_after canonical hint j \<and> path_fresh careful staging p j
        \<and> (\<forall>s \<in> set (tj_selections j). \<forall>c. canonical = Some c \<longrightarrow> \<not> selection_covers c s)
        \<and> unat root < unat (tj_next_source_item_id j) \<and> (\<forall>t \<in> set (tj_selections j). sl_root_item_id t \<noteq> root))
     (remove_covered hint canonical)
     (\<lambda>_ j. job_open careful lb {} j \<and> length (tj_selections j) < MAX_MANIFEST_V2_ROOTS \<and> path_fresh careful staging p j
        \<and> uncovered canonical hint j
        \<and> unat root < unat (tj_next_source_item_id j) \<and> (\<forall>t \<in> set (tj_selections j). sl_root_item_id t \<noteq> root)) E"
proof (cases "hint = Some True \<and> canonical \<noteq> None")
  case False
  then have "remove_covered hint canonical j = (Inr [], j)" for j
    by (auto simp: remove_covered_def split: option.split bool.split)
  with False show ?thesis
    by (auto simp: triple_def room_after_def uncovered_def)
next
  case True
  then obtain c where c: "canonical = Some c" and hint: "hint = Some True" by auto
  have drop: "job_open careful lb {} (retain_roots (\<lambda>r. r \<notin> set removed) (j\<lparr>tj_selections := filter (\<lambda>s. \<not> selection_below c s) (tj_selections j)\<rparr>))"
    if "job_open careful lb {} j" and "removed = map sl_root_item_id (filter (selection_below c) (tj_selections j))" for j removed
    using core_drop_roots [OF that(1), of "\<lambda>r. r \<notin> set removed"] remove_covered_filter [OF _ that(2)] that(1)
    by (simp add: job_open_def core_on_def selections_ok_def)
  have room: "length (filter (\<lambda>s. \<not> selection_below c s) (tj_selections j)) < MAX_MANIFEST_V2_ROOTS"
    if "job_open careful lb {} j" "room_after canonical hint j" for j
  proof -
    have le: "length (tj_selections j) \<le> MAX_MANIFEST_V2_ROOTS"
      using that(1) by (simp add: job_open_def core_on_def selections_ok_def)
    have "list_ex (selection_below c) (tj_selections j) \<Longrightarrow>
        length (filter (\<lambda>s. \<not> selection_below c s) (tj_selections j)) < length (tj_selections j)"
      by (auto simp: list_ex_iff intro: length_filter_less)
    then show ?thesis
      using that(2) le by (auto simp: room_after_def c intro: le_less_trans [OF length_filter_le])
  qed
  show ?thesis
    unfolding triple_def c hint remove_covered_def prod.case option.case bool.case Let_def outcome_ok_simps
    using drop room by (auto simp: c hint path_fresh_def uncovered_def)
qed

lemma commit_then_return:
  "triple (\<lambda>j. job_open careful lb {} j \<and> orders_ok j) (bindO (commit_change os) (\<lambda>_. returnO r)) (\<lambda>_. job_inv careful lb) E"
  by (rule triple_bind [OF commit_change_triple], rule triple_return)

lemma add_new_selection_triple:
  assumes name: "job_validate_component lb name = Inr ()"
  shows "triple (\<lambda>j. job_open careful lb {} j \<and> length (tj_selections j) < MAX_MANIFEST_V2_ROOTS \<and> path_fresh careful staging p j
        \<and> uncovered canonical hint j
        \<and> unat root < unat (tj_next_source_item_id j) \<and> (\<forall>t \<in> set (tj_selections j). sl_root_item_id t \<noteq> root))
     (bindO (initial_issues root initial) (\<lambda>issues.
      bindO (modifyO (push_selection (new_selection root p name origin staging canonical hint issues))) (\<lambda>_.
      bindO (commit_change os) (\<lambda>_. returnO r)))) (\<lambda>_. job_inv careful lb) (job_inv careful lb)"
    (is "triple ?P _ _ _")
proof (rule triple_bind)
  let ?R = "\<lambda>is j. ?P j \<and> (\<forall>i \<in> set is. si_root_item_id i = root) \<and> length is < unat (tj_next_issue_id j)"
  show "triple ?P (initial_issues root initial) ?R (job_inv careful lb)"
  proof (rule triple_pre [OF initial_issues_triple], intro allI impI)
    fix j and n :: u64 and "is" assume P: "?P j" and n: "unat n = unat (tj_next_issue_id j) + length is"
      and "\<forall>i \<in> set is. si_root_item_id i = root"
    moreover have "0 < unat (tj_next_issue_id j)"
      using P by (simp add: job_open_def core_on_def identity_ok_def)
    ultimately show "?R is (j\<lparr>tj_next_issue_id := n\<rparr>)"
      by (simp add: open_more_issues path_fresh_def uncovered_def)
  qed
  show "triple (?R is) (bindO (modifyO (push_selection (new_selection root p name origin staging canonical hint is))) (\<lambda>_.
      bindO (commit_change os) (\<lambda>_. returnO r))) (\<lambda>_. job_inv careful lb) (job_inv careful lb)" for "is"
  proof (rule triple_bind [OF _ commit_then_return], rule triple_modify)
    fix j assume R: "?R is j"
    let ?s = "new_selection root p name origin staging canonical hint is"
    have ok: "selection_ok lb (tj_inventory j) (tj_next_issue_id j) ?s" and fits: "fits_others careful ?s j"
      using R by (auto intro: new_selection_ok new_selection_fits)
    have s: "sl_root_item_id ?s = root" "sl_requested_name ?s = name"
      by (simp_all add: new_selection_def)
    show "job_open careful lb {} (push_selection ?s j) \<and> orders_ok (push_selection ?s j)"
      by (rule open_push_selection) (use R ok fits name in \<open>simp_all add: s\<close>)
  qed
qed

lemma insert_source_triple:
  assumes name: "job_validate_component lb name = Inr ()"
  shows "triple (\<lambda>j. job_open careful lb {} j \<and> room_after canonical hint j \<and> path_fresh careful staging p j
        \<and> (\<forall>s \<in> set (tj_selections j). \<forall>c. canonical = Some c \<longrightarrow> \<not> selection_covers c s))
     (insert_source os p name origin staging (canonical, hint, initial)) (\<lambda>_. job_inv careful lb) (job_inv careful lb)"
    (is "triple ?P _ _ _")
  unfolding insert_source_def Let_def prod.case
proof (rule triple_bind)
  let ?R = "\<lambda>root j. ?P j \<and> unat root < unat (tj_next_source_item_id j) \<and> (\<forall>t \<in> set (tj_selections j). sl_root_item_id t \<noteq> root)"
  show "triple ?P allocate_source_item_id ?R (job_inv careful lb)"
  proof (rule triple_pre [OF allocate_triple], intro allI impI)
    fix j and n :: u64 assume P: "?P j" and n: "unat n = Suc (unat (tj_next_source_item_id j))"
    moreover have "\<forall>t \<in> set (tj_selections j). sl_root_item_id t \<noteq> tj_next_source_item_id j"
      using P by (auto simp: job_open_def core_on_def selections_ok_def)
    ultimately show "?R (tj_next_source_item_id j) (j\<lparr>tj_next_source_item_id := n\<rparr>)"
      by (simp add: open_more_roots path_fresh_def room_after_def)
  qed
  show "triple (?R root) (bindO (remove_covered hint canonical) (\<lambda>removed.
      bindO (initial_issues root initial) (\<lambda>issues.
      bindO (modifyO (push_selection (new_selection root p name origin staging canonical hint issues))) (\<lambda>_.
      bindO (commit_change os) (\<lambda>_. returnO \<lparr>ar_root_item_id = root,
        ar_folded_into_existing_selection = False, ar_removed_covered_roots = removed\<rparr>)))))
      (\<lambda>_. job_inv careful lb) (job_inv careful lb)" for root
    by (rule triple_bind [OF triple_pre [OF remove_covered_triple [where lb = lb and staging = staging and p = p]]
          add_new_selection_triple [OF name]]) simp
qed

lemma place_source_triple:
  assumes name: "job_validate_component lb name = Inr ()"
  shows "triple (\<lambda>j. job_inv careful lb j \<and> job_open careful lb {} j \<and> path_fresh careful staging p j)
     (place_source os p name origin staging (canonical, hint, initial)) (\<lambda>_. job_inv careful lb) (job_inv careful lb)"
  unfolding triple_def
proof (intro allI impI)
  fix j assume j: "job_inv careful lb j \<and> job_open careful lb {} j \<and> path_fresh careful staging p j"
  show "outcome_ok (\<lambda>_. job_inv careful lb) (job_inv careful lb) (place_source os p name origin staging (canonical, hint, initial) j)"
  proof (cases "Option.bind canonical (\<lambda>c. find (selection_covers c) (tj_selections j))")
    case None
    then have "\<forall>s \<in> set (tj_selections j). \<forall>c. canonical = Some c \<longrightarrow> \<not> selection_covers c s"
      by (auto simp: find_None_iff)
    then have "room_after canonical hint j \<Longrightarrow> outcome_ok (\<lambda>_. job_inv careful lb) (job_inv careful lb)
        (insert_source os p name origin staging (canonical, hint, initial) j)"
      using j insert_source_triple [OF name, unfolded triple_def] by blast
    then show ?thesis
      using j None by (auto simp: place_source_def Let_def room_after_def split: option.split)
  qed (use j in \<open>simp add: place_source_def\<close>)
qed

lemma add_local_source_triple:
  "triple (\<lambda>j. job_inv careful lb j \<and> path_fresh careful staging p j) (add_local_source lb os p name origin staging) (\<lambda>_. job_inv careful lb) (job_inv careful lb)"
  unfolding add_local_source_def
proof (rule triple_bind)
  let ?P = "\<lambda>j. job_inv careful lb j \<and> job_open careful lb {} j \<and> path_fresh careful staging p j"
  show "triple (\<lambda>j. job_inv careful lb j \<and> path_fresh careful staging p j) (checkO ensure_mutable) (\<lambda>_. ?P) (job_inv careful lb)"
    by (rule triple_check) (use job_inv_mutable in auto)
  obtain canonical hint initial where probe: "probe_source os p = (canonical, hint, initial)"
    by (cases "probe_source os p") auto
  let ?name = "canonical_component lb name"
  show "triple ?P (bindO (checkO (\<lambda>_. job_validate_component lb ?name)) (\<lambda>_.
      place_source os p ?name origin staging (probe_source os p))) (\<lambda>_. job_inv careful lb) (job_inv careful lb)" for a :: unit
  proof (cases "job_validate_component lb ?name")
    case (Inl e)
    then show ?thesis
      by (auto simp: triple_def bindO_def checkO_def)
  next
    case (Inr u)
    then have "job_validate_component lb ?name = Inr ()" by simp
    from place_source_triple [OF this] show ?thesis
      by (simp add: triple_def bindO_def checkO_def Inr probe)
  qed
qed

section \<open>Preparing a selection\<close>

lemma refresh_sels [simp]:
  "tj_selections (refresh_lifecycle j) = tj_selections j" "tj_inventory (refresh_lifecycle j) = tj_inventory j"
  by (simp_all add: refresh_lifecycle_def)

lemma open_refresh: "job_open careful lb X j \<Longrightarrow> job_open careful lb X (refresh_lifecycle j)"
  by (simp add: refresh_lifecycle_def job_open_def core_on_def is_open_def identity_ok_def selections_ok_def
      inventory_ok_def)

lemma orders_refresh [simp]: "orders_ok (refresh_lifecycle j) \<longleftrightarrow> orders_ok j"
  by (simp add: orders_ok_def)

lemma open_begin_preparation:
  assumes j: "job_open careful lb {} j" "orders_ok j"
    and i: "i < length (tj_selections j)" "sl_root_item_id (tj_selections j ! i) = root"
  shows "job_open careful lb {root} (begin_preparation root i j) \<and> orders_ok (begin_preparation root i j)
    \<and> root_listing (tj_inventory (begin_preparation root i j)) root = []
    \<and> i < length (tj_selections (begin_preparation root i j))
    \<and> sl_root_item_id (tj_selections (begin_preparation root i j) ! i) = root"
proof -
  let ?f = "\<lambda>s. s\<lparr>sl_state := Enumerating\<rparr>"
  have "fits_others careful (?f (tj_selections j ! i)) j"
    by (rule fits_others_same [OF j(1) nth_mem [OF i(1)]]) simp_all
  then have "job_open careful lb {root} (update_selection i ?f j)"
    by (intro core_update_selection [OF j(1) i(1) refl]) (simp_all add: i)
  then show ?thesis
    using i j(2) core_drop_entries [OF open_refresh, of careful lb "{root}" "update_selection i ?f j" root]
    by (simp add: begin_preparation_def)
qed

lemma fold_update_keys:
  "distinct (map fst al) \<Longrightarrow>
     distinct (map fst (fold (\<lambda>(k, b). AList.update k b) bs al))
     \<and> fst ` set (fold (\<lambda>(k, b). AList.update k b) bs al) = fst ` set al \<union> fst ` set bs"
proof (induction bs arbitrary: al)
  case (Cons b bs)
  obtain k v where b: "b = (k, v)" by fastforce
  have "fst ` set (AList.update k v al) = insert k (fst ` set al)"
    using update_keys [of k v al] by (metis (no_types) List.insert_def insert_absorb image_set list.simps(15) list.set_map set_append Un_insert_right append.right_neutral empty_set)
  then show ?case
    using Cons.IH [of "AList.update k v al"] Cons.prems distinct_update [of al k v] by (auto simp: b)
qed simp

text \<open>The entries of a finished enumeration join the inventory.\<close>

lemma root_listing_append_other:
  "\<forall>e \<in> set new. pe_root_item_id e = root \<Longrightarrow> root' \<noteq> root
     \<Longrightarrow> root_listing (es @ new) root' = root_listing es root'"
  by (auto simp: filter_empty_conv)

lemma open_extend:
  assumes j: "job_open careful lb {root} j" and root: "root \<in> sl_root_item_id ` set (tj_selections j)"
    and new: "\<forall>e \<in> set (eo_entries out). pe_root_item_id e = root"
    and ids: "distinct (map pe_item_id (eo_entries out))"
      "pe_item_id ` set (eo_entries out) \<inter> pe_item_id ` set (tj_inventory j) = {}"
    and size: "length (eo_entries out) \<le> MAX_MANIFEST_V2_ENTRIES - length (tj_inventory j)"
    and keys: "map fst (eo_bindings out) = map pe_item_id (eo_entries out)"
  shows "job_open careful lb {root} (extend_bindings (eo_bindings out) (j\<lparr>tj_inventory := tj_inventory j @ eo_entries out\<rparr>))"
    (is "job_open _ _ _ ?j")
proof -
  have core: "identity_ok j" "selections_ok careful lb {root} j" "inventory_ok j" "is_open j"
    using j by (simp_all add: job_open_def core_on_def)
  have other: "selection_ok lb (tj_inventory j @ eo_entries out) n s \<longleftrightarrow> selection_ok lb (tj_inventory j) n s"
    if "sl_root_item_id s \<noteq> root" for n s
    using root_listing_append_other [OF new that, of "tj_inventory j"] by (simp only: selection_ok_def)
  have "set (map fst (eo_bindings out)) = set (map pe_item_id (eo_entries out))"
    by (simp only: keys)
  then have "fst ` set (eo_bindings out) = pe_item_id ` set (eo_entries out)"
    by simp
  then have "inventory_ok ?j"
    using core(3) root new ids size fold_update_keys [of "tj_source_bindings j" "eo_bindings out"]
    by (auto simp: inventory_ok_def extend_bindings_def)
  moreover have "selections_ok careful lb {root} ?j"
    using core(2) other by (auto simp: selections_ok_def extend_bindings_def)
  ultimately show ?thesis
    using core(1,4) by (simp add: job_open_def core_on_def extend_bindings_def)
qed

lemma extend_bindings_sels [simp]:
  "tj_selections (extend_bindings bs j) = tj_selections j"
  "tj_inventory (extend_bindings bs j) = tj_inventory j"
  "tj_next_issue_id (extend_bindings bs j) = tj_next_issue_id j"
  "orders_ok (extend_bindings bs j) \<longleftrightarrow> orders_ok j"
  "orders_ok (j\<lparr>tj_inventory := es\<rparr>) \<longleftrightarrow> orders_ok j"
  by (simp_all add: extend_bindings_def orders_ok_def)

definition prepared :: "bool \<Rightarrow> JobLibs \<Rightarrow> SourceItemId \<Rightarrow> nat \<Rightarrow> CanonicalTransferJob \<Rightarrow> bool" where
  "prepared careful lb root i j \<longleftrightarrow> job_open careful lb {root} j \<and> orders_ok j \<and> root_listing (tj_inventory j) root = []
     \<and> i < length (tj_selections j) \<and> sl_root_item_id (tj_selections j ! i) = root"

lemma prepared_more_issues:
  "prepared careful lb root i j \<Longrightarrow> unat (tj_next_issue_id j) \<le> unat n \<Longrightarrow> prepared careful lb root i (j\<lparr>tj_next_issue_id := n\<rparr>)"
  by (simp add: prepared_def open_more_issues)

lemma store_outcome:
  assumes j: "prepared careful lb root i j"
    and listing: "listing_ok lb root (sl_requested_name (tj_selections j ! i)) (eo_entries out)"
    and ids: "distinct (map pe_item_id (eo_entries out))"
      "pe_item_id ` set (eo_entries out) \<inter> pe_item_id ` set (tj_inventory j) = {}"
    and keys: "map fst (eo_bindings out) = map pe_item_id (eo_entries out)"
    and root_id: "eo_root_inventory_item_id out =
      (if eo_entries out = [] then None else Some (pe_item_id (hd (eo_entries out))))"
    and size: "length (eo_entries out) \<le> MAX_MANIFEST_V2_ENTRIES - length (tj_inventory j)"
    and complete: "is = [] \<Longrightarrow> eo_entries out \<noteq> []"
    and issues: "\<forall>x \<in> set is. si_root_item_id x = root" "length is < unat (tj_next_issue_id j)"
  shows "job_open careful lb {} (install_outcome i out is j) \<and> orders_ok (install_outcome i out is j)"
proof -
  let ?j = "extend_bindings (eo_bindings out) (j\<lparr>tj_inventory := tj_inventory j @ eo_entries out\<rparr>)"
  let ?s = "tj_selections ?j ! i"
  let ?f = "\<lambda>s. s\<lparr>sl_root_inventory_item_id := eo_root_inventory_item_id out, sl_issues := is,
               sl_completeness := Complete, sl_state := (if is = [] then Ready else NeedsDecision)\<rparr>"
  have i: "i < length (tj_selections ?j)" "sl_root_item_id ?s = root" and open_j: "job_open careful lb {root} j"
    using j by (simp_all add: prepared_def)
  have new: "\<forall>e \<in> set (eo_entries out). pe_root_item_id e = root"
    using listing by (simp add: listing_ok_def)
  have listing': "root_listing (tj_inventory ?j) root = eo_entries out"
    using j new by (simp add: prepared_def)
  have open': "job_open careful lb {root} ?j"
    using i by (intro open_extend [OF open_j _ new ids size keys]) auto
  have "fits_others careful (?f ?s) ?j"
    by (rule fits_others_same [OF open' nth_mem [OF i(1)]]) simp_all
  moreover have "selection_ok lb (tj_inventory ?j) (tj_next_issue_id ?j) (?f ?s)"
    using listing issues root_id complete i(2) listing' by (simp add: selection_ok_def del: extend_bindings_sels(2)) 
  ultimately have "job_open careful lb {} (update_selection i ?f ?j)"
    by (intro core_update_selection [OF open' i(1) refl]) (simp_all add: i(2) [simplified])
  moreover have "orders_ok (update_selection i ?f ?j)"
    using j by (intro orders_update) (simp_all add: prepared_def)
  ultimately show ?thesis
    by (simp only: install_outcome_def)
qed

lemma enumerate_stores:
  assumes j: "prepared careful lb root i j"
    and enum: "enumerate_for lb os i j = Some outcome"
  shows "outcome_ok (\<lambda>_ j. job_open careful lb {} j \<and> orders_ok j) (job_inv careful lb) (record_outcome root i outcome j)"
proof -
  let ?s = "tj_selections j ! i"
  from enum obtain out where out: "outcome = Inr out"
    and listing: "listing_ok lb (sl_root_item_id ?s) (sl_requested_name ?s) (eo_entries out)"
    and ids: "distinct (map pe_item_id (eo_entries out))"
      "pe_item_id ` set (eo_entries out)
         \<inter> (set (map pe_item_id (tj_inventory j)) \<union> set (map sl_root_item_id (tj_selections j))) = {}"
    and keys: "map fst (eo_bindings out) = map pe_item_id (eo_entries out)"
    and root_id: "eo_root_inventory_item_id out =
      (if eo_entries out = [] then None else Some (pe_item_id (hd (eo_entries out))))"
    and complete: "eo_issues out = [] \<longrightarrow> eo_entries out \<noteq> []"
    and size: "length (eo_entries out) \<le> MAX_MANIFEST_V2_ENTRIES - length (tj_inventory j)"
    unfolding enumerate_for_def by (rule enumerate_outcome) blast
  let ?xs = "map (\<lambda>p. (pi_relative_components p, pi_kind p)) (eo_issues out)"
  have pos: "0 < unat (tj_next_issue_id j)" and root: "sl_root_item_id ?s = root"
    using j by (simp_all add: prepared_def job_open_def core_on_def identity_ok_def)
  let ?Q = "\<lambda>is j'. \<exists>n. unat n = unat (tj_next_issue_id j) + length ?xs \<and> length is = length ?xs
      \<and> (\<forall>x \<in> set is. si_root_item_id x = root) \<and> j' = j\<lparr>tj_next_issue_id := n\<rparr>"
  have store: "job_open careful lb {} (install_outcome i out is j') \<and> orders_ok (install_outcome i out is j')"
    if Q: "?Q is j'" for "is" j'
    by (rule store_outcome [OF _ _ ids(1) _ keys root_id])
      (use Q prepared_more_issues [OF j] listing ids(2) size complete pos root in auto)
  have "triple (\<lambda>x. x = j) (record_outcome root i outcome) (\<lambda>_ j. job_open careful lb {} j \<and> orders_ok j) (job_inv careful lb)"
    unfolding out record_outcome_def sum.case
  proof (rule triple_bind)
    show "triple (\<lambda>x. x = j) (resolve_issues root ?xs) ?Q (job_inv careful lb)"
      by (rule triple_pre [OF resolve_issues_triple]) auto
  qed (rule triple_modify, rule store)
  then show ?thesis
    by (simp add: triple_def)
qed

end
