(* ===== verification/Job_Inv_Steps.thy ===== *)
theory Job_Inv_Steps
  imports Job_Inv_Ops
begin

text \<open>
  The remaining operations of a job keep its invariant: preparation, source decisions, the provider
  variants, hashing, the compression policy, sealing and cancelling.
\<close>

section \<open>Preparation\<close>

abbreviation keeps :: "bool \<Rightarrow> JobLibs \<Rightarrow> (TransferJobError + 'a) \<times> CanonicalTransferJob \<Rightarrow> bool" where
  "keeps careful lb \<equiv> outcome_ok (\<lambda>_. job_inv careful lb) (job_inv careful lb)"

lemma prepare_guard_Inr:
  "prepare_guard root j = Inr i \<Longrightarrow> tj_lifecycle j \<noteq> Sealed \<and> tj_lifecycle j \<noteq> Canceled
     \<and> i < length (tj_selections j) \<and> sl_root_item_id (tj_selections j ! i) = root"
  using selection_index_Inr by (auto simp: prepare_guard_def)

lemma prepare_selection_live:
  assumes inv: "job_inv careful lb j" and r: "prepare_selection lb os root j = Some r"
  shows "outcome_ok (\<lambda>_ j. job_inv careful lb j \<and> is_open j) (job_inv careful lb) r"
proof (cases "prepare_guard root j")
  case (Inl e)
  then show ?thesis
    using inv r by (auto simp: prepare_selection_def)
next
  case (Inr i)
  let ?j = "begin_preparation root i j"
  from Inr r obtain outcome where enum: "enumerate_for lb os i ?j = Some outcome"
      and r: "r = bindO (record_outcome root i outcome) (\<lambda>_. commit_change os) ?j"
    by (auto simp: prepare_selection_def Let_def)
  have "prepared careful lb root i ?j"
    using open_begin_preparation prepare_guard_Inr [OF Inr] job_inv_mutable [OF inv] by (auto simp: prepared_def)
  then have "triple (\<lambda>x. x = ?j) (record_outcome root i outcome) (\<lambda>_ j. job_open careful lb {} j \<and> orders_ok j) (job_inv careful lb)"
    using enumerate_stores [OF _ enum] by (simp add: triple_def)
  then have "triple (\<lambda>x. x = ?j) (bindO (record_outcome root i outcome) (\<lambda>_. commit_change os))
      (\<lambda>_ j. job_inv careful lb j \<and> is_open j) (job_inv careful lb)"
    by (rule triple_bind) (rule commit_change_live)
  then show ?thesis
    by (simp add: triple_def r)
qed

lemma prepare_selection_keeps:
  "job_inv careful lb j \<Longrightarrow> prepare_selection lb os root j = Some r \<Longrightarrow> keeps careful lb r"
  using prepare_selection_live by (fastforce simp: outcome_ok_def split: prod.splits sum.splits)

lemma prepare_roots_keeps:
  "job_inv careful lb j \<Longrightarrow> prepare_roots lb os roots j = Some r \<Longrightarrow> keeps careful lb r"
proof (induction lb os roots j rule: prepare_roots.induct)
  case (1 lb os j)
  then have "phase_ok lb (refresh_lifecycle j)"
    by (cases "tj_lifecycle j") (auto simp: job_inv_def phase_ok_def refresh_lifecycle_def)
  moreover have "core_on careful lb {} (refresh_lifecycle j)" "orders_ok (refresh_lifecycle j)"
    using 1 by (simp_all add: job_inv_def refresh_lifecycle_def core_on_def identity_ok_def selections_ok_def
        inventory_ok_def orders_ok_def)
  ultimately show ?case
    using 1 by (auto simp: job_inv_def)
next
  case (2 lb os root roots j)
  obtain x where x: "prepare_selection lb (os root) root j = Some x"
    using 2(3) by (auto split: option.splits)
  have "keeps careful lb x"
    using prepare_selection_keeps [OF 2(2) x] .
  then show ?case
    using 2 x by (cases x; cases "fst x") (auto simp: x overflow_def)
qed

lemma prepare_all_keeps: "job_inv careful lb j \<Longrightarrow> prepare_all lb os j = Some r \<Longrightarrow> keeps careful lb r"
  using prepare_roots_keeps by (auto simp: prepare_all_def split: sum.splits)

section \<open>Source decisions\<close>

lemma open_finish:
  assumes "job_open careful lb X j"
    and "\<And>s. s \<in> set (tj_selections j) \<Longrightarrow> sl_root_item_id s \<in> X
      \<Longrightarrow> selection_ok lb (tj_inventory j) (tj_next_issue_id j) s"
  shows "job_open careful lb {} j"
  using assms by (auto simp: job_open_def core_on_def selections_ok_def)

lemma open_next_issue: "job_open careful lb X j \<Longrightarrow> 0 < unat (tj_next_issue_id j)"
  by (simp add: job_open_def core_on_def identity_ok_def)

lemma open_root_unique:
  assumes "job_open careful lb X j" and "s \<in> set (tj_selections j)" and "i < length (tj_selections j)"
    and "sl_root_item_id s = sl_root_item_id (tj_selections j ! i)"
  shows "s = tj_selections j ! i"
  using assms by (auto simp: job_open_def core_on_def selections_ok_def distinct_map inj_on_def)

definition decidable :: "bool \<Rightarrow> JobLibs \<Rightarrow> SourceItemId \<Rightarrow> nat \<Rightarrow> CanonicalTransferJob \<Rightarrow> bool" where
  "decidable careful lb root i j \<longleftrightarrow> job_inv careful lb j \<and> job_open careful lb {} j \<and> orders_ok j
     \<and> i < length (tj_selections j) \<and> sl_root_item_id (tj_selections j ! i) = root"

abbreviation open_ordered :: "bool \<Rightarrow> JobLibs \<Rightarrow> CanonicalTransferJob \<Rightarrow> bool" where
  "open_ordered careful lb j \<equiv> job_open careful lb {} j \<and> orders_ok j"

lemma reauthorize_triple:
  "triple (\<lambda>j. decidable careful lb root i j \<and> path_fresh careful False p j) (reauthorize os root i p)
     (\<lambda>_. open_ordered careful lb) (job_inv careful lb)"
  unfolding triple_def
proof (intro allI impI)
  fix j assume j: "decidable careful lb root i j \<and> path_fresh careful False p j"
  define canonical where "canonical = (case os_canonicalize os p of Inr c \<Rightarrow> Some c | Inl _ \<Rightarrow> None)"
  define hint where "hint = Option.bind canonical
    (\<lambda>c. case os_metadata os c of Inr md \<Rightarrow> Some (md_kind md = FK_Dir) | Inl _ \<Rightarrow> None)"
  let ?f = "\<lambda>s. s\<lparr>sl_path := p, sl_job_owned_staging := False, sl_canonical_path := canonical,
      sl_is_directory_hint := hint, sl_root_inventory_item_id := None, sl_completeness := Complete,
      sl_issues := [], sl_state := Pending\<rparr>"
  let ?s = "tj_selections j ! i" and ?j = "retain_roots (\<lambda>r. r \<noteq> root) (update_selection i ?f j)"
  have i: "i < length (tj_selections j)" "sl_root_item_id ?s = root" and open_j: "job_open careful lb {} j" "orders_ok j"
    using j by (simp_all add: decidable_def)
  have "open_ordered careful lb ?j"
    if apart: "\<forall>c. canonical = Some c \<longrightarrow> \<not> list_ex (selections_overlap root c) (tj_selections j)"
  proof
    have "fits_others careful (?f ?s) j"
      using j apart i(2)
      by (fastforce simp: fits_others_def path_fresh_def pair_ok_def list_ex_iff selections_overlap_def path_eq_sym)
    then have "job_open careful lb {root} (update_selection i ?f j)"
      by (intro core_update_selection [OF open_j(1) i(1) refl]) (simp_all add: i)
    from core_drop_entries [OF this, of root] have upd: "job_open careful lb {root} ?j"
      by simp
    have "s = ?f ?s" if "s \<in> set (tj_selections ?j)" "sl_root_item_id s = root" for s
      using open_root_unique [OF upd that(1), of i] that(2) i by simp
    then show "job_open careful lb {} ?j"
      using open_next_issue [OF open_j(1)] i
      by (intro open_finish [OF upd]) (force simp: selection_ok_def)
    show "orders_ok ?j"
      using open_j(2) by simp
  qed
  then show "outcome_ok (\<lambda>_. open_ordered careful lb) (job_inv careful lb) (reauthorize os root i p j)"
    using j unfolding reauthorize_def canonical_def [symmetric] hint_def [symmetric] Let_def
    by (auto simp: decidable_def split: option.splits)
qed

lemma open_issues_small: "job_open careful lb {} j \<Longrightarrow> s \<in> set (tj_selections j) \<Longrightarrow> length (sl_issues s) < 2 ^ 64"
  using unat_bound [of "tj_next_issue_id j"]
  by (fastforce simp: job_open_def core_on_def selections_ok_def selection_ok_def)

lemma approve_partial_triple:
  "triple (\<lambda>j. decidable careful lb root i j \<and> sl_state (tj_selections j ! i) = NeedsDecision) (approve_partial i)
     (\<lambda>_. open_ordered careful lb) (job_inv careful lb)"
  unfolding triple_def
proof (intro allI impI)
  fix j assume j: "decidable careful lb root i j \<and> sl_state (tj_selections j ! i) = NeedsDecision"
  let ?f = "\<lambda>s. s\<lparr>sl_completeness := UserApprovedPartial (word_of_nat (length (sl_issues s))) None, sl_state := Ready\<rparr>"
  let ?s = "tj_selections j ! i"
  have i: "i < length (tj_selections j)" and open_j: "job_open careful lb {} j" "orders_ok j"
    using j by (simp_all add: decidable_def)
  then have s: "selection_ok lb (tj_inventory j) (tj_next_issue_id j) ?s"
    by (simp add: job_open_def core_on_def selections_ok_def)
  have "unat (word_of_nat (length (sl_issues ?s)) :: u64) = length (sl_issues ?s)"
    using open_issues_small [OF open_j(1) nth_mem [OF i]] by (intro unat_word_of_nat_small) simp
  then have "(word_of_nat (length (sl_issues ?s)) :: u64) \<noteq> 0"
    using s j by (auto simp: selection_ok_def)
  then have "selection_ok lb (tj_inventory j) (tj_next_issue_id j) (?f ?s)" if "sl_root_inventory_item_id ?s \<noteq> None"
    using s that by (auto simp: selection_ok_def split: if_splits)
  moreover have "fits_others careful (?f ?s) j"
    by (rule fits_others_same [OF open_j(1) nth_mem [OF i]]) simp_all
  ultimately have "job_open careful lb {} (update_selection i ?f j)" if "sl_root_inventory_item_id ?s \<noteq> None"
    using that by (intro core_update_selection [OF open_j(1) i refl]) simp_all
  moreover have "orders_ok (update_selection i ?f j)"
    using open_j(2) by simp
  ultimately show "outcome_ok (\<lambda>_. open_ordered careful lb) (job_inv careful lb) (approve_partial i j)"
    using j by (simp add: approve_partial_def bindO_def checkO_def modifyO_def rejectR_def decidable_def)
qed

lemma keeps_commit: "open_ordered careful lb j \<Longrightarrow> keeps careful lb (bindO (commit_change os) (\<lambda>_. returnO r) j)"
  using commit_then_return [of careful lb os r "job_inv careful lb"] by (simp add: triple_def)

lemma drop_nth_filter:
  assumes "distinct (map f xs)" and "i < length xs"
  shows "take i xs @ drop (Suc i) xs = filter (\<lambda>x. f x \<noteq> f (xs ! i)) xs"
proof -
  have xs: "xs = take i xs @ xs ! i # drop (Suc i) xs"
    using assms(2) by (rule id_take_nth_drop)
  have "distinct (map f (take i xs @ xs ! i # drop (Suc i) xs))"
    using assms(1) xs by simp
  then have "f (xs ! i) \<notin> f ` (set (take i xs) \<union> set (drop (Suc i) xs))"
    by (auto simp: image_Un)
  then have "\<forall>x \<in> set (take i xs) \<union> set (drop (Suc i) xs). f x \<noteq> f (xs ! i)"
    by (metis imageI)
  then have "filter (\<lambda>x. f x \<noteq> f (xs ! i)) (take i xs @ xs ! i # drop (Suc i) xs) = take i xs @ drop (Suc i) xs"
    by (simp add: filter_True)
  with xs show ?thesis by simp
qed

lemma open_cleanup:
  assumes "job_open careful lb X j" and "careful \<Longrightarrow> \<forall>s \<in> set (tj_selections j). \<not> path_eq (sl_path s) p"
  shows "job_open careful lb X (j\<lparr>tj_cleanup_pending := tj_cleanup_pending j @ [p]\<rparr>)"
  using assms by (auto simp: job_open_def core_on_def selections_ok_def inventory_ok_def)

lemma remove_selection_triple:
  "triple (decidable careful lb root i) (remove_selection os root i) (\<lambda>_. job_inv careful lb) (job_inv careful lb)"
  unfolding triple_def
proof (intro allI impI)
  fix j assume j: "decidable careful lb root i j"
  let ?s = "tj_selections j ! i"
  let ?j = "retain_roots (\<lambda>r. r \<noteq> root) (j\<lparr>tj_selections := take i (tj_selections j) @ drop (Suc i) (tj_selections j)\<rparr>)"
  let ?j1 = "reindex_selections ?j"
  have i: "i < length (tj_selections j)" "sl_root_item_id ?s = root" and open_j: "job_open careful lb {} j"
    using j by (simp_all add: decidable_def)
  have ss: "take i (tj_selections j) @ drop (Suc i) (tj_selections j)
      = filter (\<lambda>s. sl_root_item_id s \<noteq> root) (tj_selections j)"
    using drop_nth_filter [of sl_root_item_id "tj_selections j" i] open_j i
    by (simp add: job_open_def core_on_def selections_ok_def)
  have "job_open careful lb {} ?j"
    unfolding ss by (rule core_drop_roots [OF open_j, of "\<lambda>r. r \<noteq> root"])
  then have open1: "job_open careful lb {} ?j1"
    by (rule open_reindex)
  have "\<not> path_eq (sl_path t) (sl_path ?s)"
    if careful and owned: "sl_job_owned_staging ?s" and t: "t \<in> set (tj_selections ?j1)" for t
  proof -
    from reindex_elem [OF t] obtain u k where u: "u \<in> set (tj_selections j)" "sl_root_item_id u \<noteq> root"
        "t = u\<lparr>sl_selection_order := k\<rparr>"
      by (auto simp: ss)
    then have "pair_ok careful ?s u"
      using open_j i by (auto simp: job_open_def core_on_def selections_ok_def)
    then show ?thesis
      using \<open>careful\<close> owned u(3) by (auto simp: pair_ok_def path_eq_sym)
  qed
  from open_cleanup [OF open1] this
  have "sl_job_owned_staging ?s \<Longrightarrow> job_open careful lb {} (?j1\<lparr>tj_cleanup_pending := tj_cleanup_pending ?j1 @ [sl_path ?s]\<rparr>)"
    by blast
  then show "outcome_ok (\<lambda>_. job_inv careful lb) (job_inv careful lb) (remove_selection os root i j)"
    using open1 by (auto simp: remove_selection_def Let_def intro!: keeps_commit)
qed

text \<open>Cancelling moves the revision away from the one that was sealed.\<close>

lemma cancel_bump:
  assumes "job_inv careful lb j" and "tj_lifecycle j \<noteq> Canceled"
  shows "outcome_ok (\<lambda>_. job_inv careful lb) E (bump_revision os (j\<lparr>tj_lifecycle := Canceled\<rparr>))"
proof -
  have "mf_selection_revision (sj_manifest sealed) = tj_selection_revision j" if "tj_sealed j = Some sealed" for sealed
    using assms that by (cases "tj_lifecycle j") (auto simp: job_inv_def phase_ok_def durable_seal_def)
  moreover have "core_on careful lb {} j" "orders_ok j"
    using assms(1) by (simp_all add: job_inv_def)
  ultimately show ?thesis
    by (auto simp: bump_revision_def job_inv_def phase_ok_def core_on_def identity_ok_def selections_ok_def
        inventory_ok_def orders_ok_def dest: checked_add_nonzero split: option.splits intro: max.coboundedI2)
qed

lemma job_cancel_triple: "triple (job_inv careful lb) (job_cancel os) (\<lambda>_. job_inv careful lb) (job_inv careful lb)"
  using cancel_bump by (auto simp: triple_def job_cancel_def)

lemma apply_decision_triple:
  "triple (\<lambda>j. decidable careful lb root i j \<and> (\<forall>p. decision = Reauthorize p \<longrightarrow> path_fresh careful False p j)
       \<and> (sl_state (tj_selections j ! i) = NeedsDecision \<or> decision = RemoveSelection \<or> decision = CancelJob))
     (apply_decision os root i decision) (\<lambda>_. job_inv careful lb) (job_inv careful lb)"
proof (cases decision)
  case (Reauthorize p)
  then show ?thesis
    by (auto simp: apply_decision_def intro!: triple_bind [OF triple_pre [OF reauthorize_triple] commit_then_return])
next
  case ApprovePartial
  then show ?thesis
    by (auto simp: apply_decision_def intro!: triple_bind [OF triple_pre [OF approve_partial_triple] commit_then_return])
next
  case RemoveSelection
  then show ?thesis
    using remove_selection_triple by (auto simp: apply_decision_def elim: triple_pre)
next
  case CancelJob
  have "outcome_ok (\<lambda>_. job_inv careful lb) (job_inv careful lb)
      (bindO (bump_revision os) (\<lambda>_. returnO (None :: path option)) (j\<lparr>tj_lifecycle := Canceled\<rparr>))"
    if "decidable careful lb root i j" for j
    using cancel_bump [of careful lb j "job_inv careful lb" os] that
    by (auto simp: bindO_def returnO_def decidable_def job_open_def is_open_def outcome_ok_def
        split: prod.splits sum.splits)
  then show ?thesis
    by (simp add: CancelJob apply_decision_def triple_def bindO_def [of "modifyO _"] modifyO_def)
qed

lemma resolve_source_decision_triple:
  "triple (\<lambda>j. job_inv careful lb j \<and> (\<forall>p. decision = Reauthorize p \<longrightarrow> path_fresh careful False p j))
     (resolve_source_decision os root decision) (\<lambda>_. job_inv careful lb) (job_inv careful lb)"
  unfolding resolve_source_decision_def
proof (rule triple_bind)
  let ?fresh = "\<lambda>j. \<forall>p. decision = Reauthorize p \<longrightarrow> path_fresh careful False p j"
  let ?P = "\<lambda>j. job_inv careful lb j \<and> open_ordered careful lb j \<and> ?fresh j"
  show "triple (\<lambda>j. job_inv careful lb j \<and> ?fresh j) (checkO ensure_mutable) (\<lambda>_. ?P) (job_inv careful lb)"
    by (rule triple_check) (use job_inv_mutable in auto)
  have index: "triple ?P (checkO (\<lambda>j. selection_index j root)) (\<lambda>i j. decidable careful lb root i j \<and> ?fresh j) (job_inv careful lb)"
    by (rule triple_check) (auto simp: decidable_def dest: selection_index_Inr)
  have guard: "triple (\<lambda>j. decidable careful lb root i j \<and> ?fresh j) (checkO (decision_guard decision i))
      (\<lambda>_ j. decidable careful lb root i j \<and> ?fresh j
        \<and> (sl_state (tj_selections j ! i) = NeedsDecision \<or> decision = RemoveSelection \<or> decision = CancelJob))
      (job_inv careful lb)" for i
    by (rule triple_check) (auto simp: decidable_def decision_guard_def)
  show "triple ?P (bindO (checkO (\<lambda>j. selection_index j root)) (\<lambda>i.
      bindO (checkO (decision_guard decision i)) (\<lambda>_. apply_decision os root i decision)))
      (\<lambda>_. job_inv careful lb) (job_inv careful lb)" for a :: unit
    by (rule triple_bind [OF index], rule triple_bind [OF guard], rule apply_decision_triple)
qed

section \<open>Provider sources\<close>

lemma open_sel: "job_open careful lb {} j \<Longrightarrow> i < length (tj_selections j)
    \<Longrightarrow> selection_ok lb (tj_inventory j) (tj_next_issue_id j) (tj_selections j ! i)"
  by (simp add: job_open_def core_on_def selections_ok_def)

lemma inv_more_issues:
  assumes "job_inv careful lb j" and "unat (tj_next_issue_id j) \<le> unat n"
  shows "job_inv careful lb (j\<lparr>tj_next_issue_id := n\<rparr>)"
proof -
  have "core_on careful lb {} (j\<lparr>tj_next_issue_id := n\<rparr>)"
    using assms by (fastforce simp: job_inv_def core_on_def identity_ok_def selections_ok_def selection_ok_def inventory_ok_def)
  moreover have "phase_ok lb (j\<lparr>tj_next_issue_id := n\<rparr>) \<longleftrightarrow> phase_ok lb j"
    by (simp add: phase_ok_def durable_seal_def seal_matches_def sealed_order_def cong: option.case_cong JobLifecycle.case_cong)
  ultimately show ?thesis
    using assms(1) by (simp add: job_inv_def)
qed

lemma attach_provider_issues_keeps:
  assumes inv: "job_inv careful lb j" and mut: "tj_lifecycle j \<noteq> Sealed" "tj_lifecycle j \<noteq> Canceled"
  shows "keeps careful lb (attach_provider_issues lb os root ps j)"
proof (cases "ps = []")
  case True
  then show ?thesis
    using inv by (simp add: attach_provider_issues_def returnO_def)
next
  case False
  let ?xs = "map (\<lambda>p. (ps_relative_components p, ps_kind p)) ps"
  let ?more = "\<lambda>is s. s\<lparr>sl_issues := sl_issues s @ is, sl_state := NeedsDecision\<rparr>"
  have open_j: "open_ordered careful lb j"
    using job_inv_mutable [OF inv mut] by simp
  let ?Q = "\<lambda>is j'. \<exists>n. unat n = unat (tj_next_issue_id j) + length ?xs \<and> length is = length ?xs
      \<and> (\<forall>x \<in> set is. si_root_item_id x = root) \<and> j' = j\<lparr>tj_next_issue_id := n\<rparr>"
  have upd: "open_ordered careful lb (update_selection i (?more is) j')"
    if Q: "?Q is j'" and i: "i < length (tj_selections j')" "sl_root_item_id (tj_selections j' ! i) = root" for i "is" j'
  proof -
    from Q obtain n where n: "unat n = unat (tj_next_issue_id j) + length ?xs" and len: "length is = length ?xs"
        and "is": "\<forall>x \<in> set is. si_root_item_id x = root" and j': "j' = j\<lparr>tj_next_issue_id := n\<rparr>"
      by blast
    have open': "job_open careful lb {} j'"
      using open_j n by (simp add: j' open_more_issues)
    have "fits_others careful (?more is (tj_selections j' ! i)) j'"
      by (rule fits_others_same [OF open' nth_mem [OF i(1)]]) simp_all
    moreover have "selection_ok lb (tj_inventory j') (tj_next_issue_id j') (?more is (tj_selections j' ! i))"
      using open_sel [of careful lb j i] open_j i n "is" len False by (auto simp: selection_ok_def j')
    ultimately have "job_open careful lb {} (update_selection i (?more is) j')"
      by (intro core_update_selection [OF open' i(1) refl]) simp_all
    then show ?thesis
      using open_j by (simp add: j')
  qed
  have step: "triple (?Q is) (bindO (checkO (\<lambda>j. selection_index j root)) (\<lambda>i.
      bindO (modifyO (update_selection i (?more is))) (\<lambda>_. commit_change os))) (\<lambda>_. job_inv careful lb) (job_inv careful lb)" for "is"
  proof (rule triple_bind)
    show "triple (?Q is) (checkO (\<lambda>j. selection_index j root))
        (\<lambda>i j'. ?Q is j' \<and> i < length (tj_selections j') \<and> sl_root_item_id (tj_selections j' ! i) = root) (job_inv careful lb)"
      by (rule triple_check) (use inv_more_issues [OF inv] in \<open>auto dest: selection_index_Inr\<close>)
    show "triple (\<lambda>j'. ?Q is j' \<and> i < length (tj_selections j') \<and> sl_root_item_id (tj_selections j' ! i) = root)
        (bindO (modifyO (update_selection i (?more is))) (\<lambda>_. commit_change os)) (\<lambda>_. job_inv careful lb) (job_inv careful lb)" for i
      by (rule triple_bind [OF _ commit_change_triple], rule triple_modify) (use upd in blast)
  qed
  have resolve: "triple (\<lambda>x. x = j) (resolve_issues root ?xs) ?Q (job_inv careful lb)"
    by (rule triple_pre [OF resolve_issues_triple]) auto
  have valid: "triple (\<lambda>x. x = j) (checkO (\<lambda>_. validate_provider_issues lb ps)) (\<lambda>_ x. x = j) (job_inv careful lb)"
    by (rule triple_check) (use inv in auto)
  have "triple (\<lambda>x. x = j) (attach_provider_issues lb os root ps) (\<lambda>_. job_inv careful lb) (job_inv careful lb)"
    unfolding attach_provider_issues_def if_not_P [OF False]
    by (rule triple_bind [OF valid], rule triple_bind [OF resolve], rule step)
  then show ?thesis
    by (simp add: triple_def)
qed

lemma prepare_and_attach_keeps:
  assumes "job_inv careful lb j" and "prepare_and_attach lb os os' root ps j = Some r"
  shows "keeps careful lb r"
proof -
  from assms(2) obtain x where x: "prepare_selection lb os root j = Some x"
      and r: "r = (case x of (Inl e, j') \<Rightarrow> (Inl e, j') | (Inr _, j') \<Rightarrow> attach_provider_issues lb os' root ps j')"
    by (auto simp: prepare_and_attach_def)
  from prepare_selection_live [OF assms(1) x] show ?thesis
    using attach_provider_issues_keeps
    by (auto simp: r is_open_def outcome_ok_def [of _ _ x] split: prod.splits sum.splits)
qed

lemma add_provider_path_keeps:
  assumes "job_inv careful lb j" and "path_fresh careful False p j"
    and "add_provider_path lb os1 os2 os3 p name origin issues j = Some r"
  shows "keeps careful lb r"
proof -
  have add: "keeps careful lb (add_local_source lb os1 p (canonical_component lb name) origin False j)"
    using add_local_source_triple assms(1,2) by (simp add: triple_def)
  have map: "keeps careful lb (bindR q (\<lambda>_. Inr added), j2)" if "keeps careful lb (q, j2)" for q :: "TransferJobError + unit" and added :: AddSourceResult and j2
    using that by (cases q) auto
  obtain q j1 where eq: "add_local_source lb os1 p (canonical_component lb name) origin False j = (q, j1)"
    by fastforce
  show ?thesis
    using map assms(1) assms(3) [unfolded add_provider_path_def eq] add [unfolded eq] prepare_and_attach_keeps
    by (cases q) (auto split: sum.splits if_splits)
qed

lemma reauthorize_provider_source_keeps:
  assumes "job_inv careful lb j" and "path_fresh careful False p j"
    and "reauthorize_provider_source lb os1 os2 os3 root p issues j = Some r"
  shows "keeps careful lb r"
proof -
  have keep: "keeps careful lb (resolve_source_decision os1 root (Reauthorize p) j)"
    using resolve_source_decision_triple [of careful lb "Reauthorize p"] assms(1,2) by (simp add: triple_def)
  obtain q j1 where eq: "resolve_source_decision os1 root (Reauthorize p) j = (q, j1)"
    by fastforce
  show ?thesis
    using assms(1) assms(3) [unfolded reauthorize_provider_source_def eq] keep [unfolded eq] prepare_and_attach_keeps
    by (cases q) (auto split: sum.splits)
qed

lemma check_then_keeps:
  assumes "triple (\<lambda>j. job_inv careful lb j \<and> P j) m (\<lambda>_. job_inv careful lb) (job_inv careful lb)"
  shows "triple (\<lambda>j. job_inv careful lb j \<and> P j) (bindO (checkO f) (\<lambda>_. m)) (\<lambda>_. job_inv careful lb) (job_inv careful lb)"
  by (rule triple_bind [OF triple_check assms]) auto

lemma add_local_path_triple:
  "triple (\<lambda>j. job_inv careful lb j \<and> path_fresh careful False p j) (add_local_path lb os p) (\<lambda>_. job_inv careful lb) (job_inv careful lb)"
  unfolding add_local_path_def
  by (rule triple_bind [OF triple_check add_local_source_triple]) auto

lemma add_staged_source_triple:
  "triple (\<lambda>j. job_inv careful lb j \<and> path_fresh careful True p j) (add_staged_source lb os p name origin) (\<lambda>_. job_inv careful lb) (job_inv careful lb)"
  unfolding add_staged_source_def
  by (intro check_then_keeps add_local_source_triple)

end
