(* ===== verification/Job_Inv_Seal.thy ===== *)
theory Job_Inv_Seal
  imports Job_Inv_Steps
begin

text \<open>
  Hashing an entry, changing the policy and sealing keep the invariant. A sealed manifest lists the
  inventory in the order of the roots.
\<close>

section \<open>Changes that leave the sources alone\<close>

lemma bump_keeps:
  assumes "job_inv careful lb j" and "tj_lifecycle j \<noteq> Sealed" and "tj_lifecycle j \<noteq> Canceled"
  shows "outcome_ok (\<lambda>_. job_inv careful lb) E (bump_revision os (j\<lparr>tj_compression_policy := policy\<rparr>))"
proof -
  have "tj_sealed j = None" "tj_lifecycle j = expected_lifecycle (tj_selections j)" "core_on careful lb {} j" "orders_ok j"
    using assms by (auto simp: job_inv_def phase_ok_def split: JobLifecycle.splits)
  then show ?thesis
    using assms(2,3)
    by (auto simp: bump_revision_def job_inv_def phase_ok_def core_on_def identity_ok_def selections_ok_def
        inventory_ok_def orders_ok_def dest: checked_add_nonzero
        split: option.splits JobLifecycle.splits intro: max.coboundedI2)
qed

lemma set_compression_policy_triple:
  "triple (job_inv careful lb) (set_compression_policy os policy) (\<lambda>_. job_inv careful lb) (job_inv careful lb)"
  unfolding set_compression_policy_def
proof (rule triple_bind)
  show "triple (job_inv careful lb) (checkO ensure_mutable)
      (\<lambda>_ j. job_inv careful lb j \<and> tj_lifecycle j \<noteq> Sealed \<and> tj_lifecycle j \<noteq> Canceled) (job_inv careful lb)"
    by (rule triple_check) auto
qed (auto simp: triple_def bump_keeps)

section \<open>Digests\<close>

definition with_digest :: "SourceItemId \<Rightarrow> ContentDigestV2 \<Rightarrow> PreparedInventoryEntry \<Rightarrow> PreparedInventoryEntry" where
  "with_digest item_id d e = (if pe_item_id e = item_id then e\<lparr>pe_digest := Some d\<rparr> else e)"

lemma with_digest_sels [simp]:
  "pe_item_id (with_digest item_id d e) = pe_item_id e"
  "pe_root_item_id (with_digest item_id d e) = pe_root_item_id e"
  "pe_parent_item_id (with_digest item_id d e) = pe_parent_item_id e"
  "pe_relative_components (with_digest item_id d e) = pe_relative_components e"
  "pe_name (with_digest item_id d e) = pe_name e"
  "pe_kind (with_digest item_id d e) = pe_kind e"
  "pe_plaintext_size (with_digest item_id d e) = pe_plaintext_size e"
  by (simp_all add: with_digest_def)

lemma update_with_digest:
  assumes "distinct (map pe_item_id es)" and "i < length es" and "pe_item_id (es ! i) = item_id"
  shows "es[i := (es ! i)\<lparr>pe_digest := Some d\<rparr>] = map (with_digest item_id d) es"
proof (rule nth_equalityI)
  fix k assume "k < length (es[i := (es ! i)\<lparr>pe_digest := Some d\<rparr>])"
  then have k: "k < length es" by simp
  then have "pe_item_id (es ! k) = item_id \<longleftrightarrow> k = i"
    using assms nth_eq_iff_index_eq [of "map pe_item_id es" k i] by auto
  then show "es[i := (es ! i)\<lparr>pe_digest := Some d\<rparr>] ! k = map (with_digest item_id d) es ! k"
    using k by (simp add: nth_list_update with_digest_def)
qed simp

lemma root_listing_map:
  "root_listing (map (with_digest item_id d) es) root = map (with_digest item_id d) (root_listing es root)"
  by (simp add: filter_map comp_def)

lemma place_ok_map:
  "place_ok name earlier e \<Longrightarrow> place_ok name (map (with_digest item_id d) earlier) (with_digest item_id d e)"
  by (auto simp: place_ok_def is_parent_def split: if_splits)

lemma listing_ok_map:
  assumes "listing_ok lb root name es"
    and "\<forall>e \<in> set es. pe_item_id e = item_id \<longrightarrow> pe_kind e = RegularFile"
  shows "listing_ok lb root name (map (with_digest item_id d) es)"
  using assms place_ok_map
  by (auto simp: listing_ok_def entry_fine_def comp_def take_map with_digest_def [of item_id d, THEN arg_cong, of pe_digest])

lemma selection_ok_map:
  assumes "selection_ok lb es n s"
    and "\<forall>e \<in> set es. pe_item_id e = item_id \<longrightarrow> pe_kind e = RegularFile"
  shows "selection_ok lb (map (with_digest item_id d) es) n s"
  using assms listing_ok_map [of lb "sl_root_item_id s" "sl_requested_name s" "root_listing es (sl_root_item_id s)" item_id d]
  by (simp add: selection_ok_def root_listing_map hd_map)

lemma inv_with_digest:
  assumes inv: "job_inv careful lb j"
    and regular: "\<forall>e \<in> set (tj_inventory j). pe_item_id e = item_id \<longrightarrow> pe_kind e = RegularFile"
  shows "job_inv careful lb (j\<lparr>tj_inventory := map (with_digest item_id d) (tj_inventory j)\<rparr>)"
proof -
  let ?j = "j\<lparr>tj_inventory := map (with_digest item_id d) (tj_inventory j)\<rparr>"
  have "core_on careful lb {} ?j"
    using inv selection_ok_map [OF _ regular]
    by (auto simp: job_inv_def core_on_def selections_ok_def inventory_ok_def comp_def image_image)
  moreover have "sealed_order ?j = map (with_digest item_id d) (sealed_order j)"
    by (simp add: sealed_order_def root_listing_map map_concat comp_def)
  then have "seal_matches m ?j \<longleftrightarrow> seal_matches m j" for m
    by (simp add: seal_matches_def comp_def)
  then have "phase_ok lb ?j \<longleftrightarrow> phase_ok lb j"
    by (simp add: phase_ok_def durable_seal_def cong: option.case_cong JobLifecycle.case_cong)
  ultimately show ?thesis
    using inv by (simp add: job_inv_def)
qed

lemma inv_later:
  assumes "job_inv careful lb j" and "tj_updated_unix_ms j \<le> t"
  shows "job_inv careful lb (j\<lparr>tj_updated_unix_ms := t\<rparr>)"
proof -
  have "phase_ok lb (j\<lparr>tj_updated_unix_ms := t\<rparr>) \<longleftrightarrow> phase_ok lb j"
    by (simp add: phase_ok_def durable_seal_def seal_matches_def sealed_order_def
        cong: option.case_cong JobLifecycle.case_cong)
  then show ?thesis
    using assms by (auto simp: job_inv_def core_on_def identity_ok_def selections_ok_def inventory_ok_def orders_ok_def)
qed

lemma hash_entry_triple:
  "triple (job_inv careful lb) (hash_entry lb os after item_id) (\<lambda>_. job_inv careful lb) (job_inv careful lb)"
proof -
  let ?P = "\<lambda>j. job_inv careful lb j \<and> tj_lifecycle j \<noteq> Canceled"
  let ?at = "\<lambda>i j. ?P j \<and> i < length (tj_inventory j) \<and> pe_item_id (tj_inventory j ! i) = item_id"
  have stored: "?P (j\<lparr>tj_inventory := (tj_inventory j)[i := (tj_inventory j ! i)\<lparr>pe_digest := Some d\<rparr>]\<rparr>)"
    if j: "?at i j" "pe_kind (tj_inventory j ! i) = RegularFile" for i j d
  proof -
    have ids: "distinct (map pe_item_id (tj_inventory j))"
      using j by (simp add: job_inv_def core_on_def inventory_ok_def)
    have "\<forall>e \<in> set (tj_inventory j). pe_item_id e = item_id \<longrightarrow> pe_kind e = RegularFile"
    proof (intro ballI impI)
      fix e assume "e \<in> set (tj_inventory j)" "pe_item_id e = item_id"
      then have "e = tj_inventory j ! i"
        using ids j(1) unfolding distinct_map inj_on_def by (metis nth_mem)
      with j(2) show "pe_kind e = RegularFile" by simp
    qed
    then have "job_inv careful lb (j\<lparr>tj_inventory := map (with_digest item_id d) (tj_inventory j)\<rparr>)"
      using j(1) by (intro inv_with_digest) simp_all
    moreover have "(tj_inventory j)[i := (tj_inventory j ! i)\<lparr>pe_digest := Some d\<rparr>] = map (with_digest item_id d) (tj_inventory j)"
      using j(1) by (intro update_with_digest [OF ids]) simp_all
    ultimately show ?thesis
      using j(1) by simp
  qed
  have finish: "triple ?P (\<lambda>j. if tj_lifecycle j \<noteq> Sealed then bump_revision after j
      else (Inr (), j\<lparr>tj_updated_unix_ms := max (os_now after) (tj_updated_unix_ms j)\<rparr>)) (\<lambda>_. job_inv careful lb) (job_inv careful lb)"
    unfolding triple_def
  proof (intro allI impI)
    fix j assume "?P j"
    then show "keeps careful lb (if tj_lifecycle j \<noteq> Sealed then bump_revision after j
        else (Inr (), j\<lparr>tj_updated_unix_ms := max (os_now after) (tj_updated_unix_ms j)\<rparr>))"
      using bump_keeps [of careful lb j "job_inv careful lb" after "tj_compression_policy j"]
      by (simp add: inv_later)
  qed
  show ?thesis
    unfolding hash_entry_def
  proof (rule triple_bind [where R = "\<lambda>_. ?P"], goal_cases)
    case 1
    show ?case by (rule triple_check) auto
  next
    case 2
    show ?case
    proof (rule triple_bind [where R = "\<lambda>_. ?P"], goal_cases)
      case 1
      show ?case by (rule triple_check) auto
    next
      case (2 binding)
      show ?case
      proof (rule triple_bind [where R = ?at], goal_cases)
        case 1
        show ?case by (rule triple_check) (auto dest: position_Some)
      next
        case (2 i)
        show ?case
        proof (rule triple_bind [where R = "\<lambda>_ j. ?at i j \<and> pe_kind (tj_inventory j ! i) = RegularFile"], goal_cases)
          case 1
          show ?case by (rule triple_check) auto
        next
          case 2
          show ?case
            by (rule triple_bind [OF triple_check triple_bind [OF triple_modify triple_bind [OF finish triple_return]]])
              (use stored in auto)
        qed
      qed
    qed
  qed
qed

section \<open>Sealing\<close>

abbreviation entry_facts :: "ManifestEntryV2 \<Rightarrow> str \<times> ManifestEntryKindV2 \<times> u64" where
  "entry_facts e \<equiv> (me_component e, me_kind e, me_plaintext_size e)"

abbreviation item_facts :: "PreparedInventoryEntry \<Rightarrow> str \<times> ManifestEntryKindV2 \<times> u64" where
  "item_facts e \<equiv> (pe_name e, pe_kind e, pe_plaintext_size e)"

lemma seal_entry_facts: "seal_entry root_id e entries index = Inr entry \<Longrightarrow> entry_facts entry = item_facts e"
  by (auto simp: seal_entry_def)

lemma seal_entries_facts:
  "seal_entries root_id es entries index = Inr (entries', index')
     \<Longrightarrow> map entry_facts entries' = map entry_facts entries @ map item_facts es"
proof (induction root_id es entries index rule: seal_entries.induct)
  case (2 root_id e es entries index)
  then show ?case
    using seal_entry_facts by fastforce
qed simp

lemma seal_roots_facts:
  "seal_roots inventory k ss roots entries index = Inr (roots', entries')
     \<Longrightarrow> map entry_facts entries'
       = map entry_facts entries @ map item_facts (concat (map (\<lambda>s. root_listing inventory (sl_root_item_id s)) ss))"
proof (induction inventory k ss roots entries index rule: seal_roots.induct)
  case (2 inventory k s ss roots entries index)
  then obtain entries1 index1 where e: "seal_entries (word_of_nat k) (root_listing inventory (sl_root_item_id s)) entries index
      = Inr (entries1, index1)" and rest: "seal_roots inventory (Suc k) ss
       (roots @ [\<lparr>mr_root_id = word_of_nat k, mr_root_entry_id = word_of_nat (length entries),
                  mr_requested_name = sl_requested_name s, mr_completeness = sl_completeness s\<rparr>])
       entries1 index1 = Inr (roots', entries')"
    by auto
  show ?case
    using 2(1) [OF rest] seal_entries_facts [OF e] by simp
qed simp

lemma job_manifest_facts:
  assumes "job_manifest j = Inr m"
  shows "seal_matches m j" and "mf_job_id m = tj_job_id j" and "mf_generation m = tj_generation j"
    and "mf_selection_revision m = tj_selection_revision j" and "mf_compression_policy m = tj_compression_policy j"
  using assms seal_roots_facts [of "tj_inventory j" 0 "tj_selections j" "[]" "[]" Map.empty]
  by (auto simp: job_manifest_def Let_def seal_matches_def sealed_order_def)

lemma seal_manifest_Inr:
  "seal_manifest lb m = Inr sealed \<Longrightarrow> sj_manifest sealed = m \<and> seal_manifest lb (sj_manifest sealed) = Inr sealed"
  by (auto simp: seal_manifest_def build_manifest_offer_v2_def)

lemma sealed_inv:
  assumes j: "job_open careful lb {} j" "orders_ok j" and m: "job_manifest j = Inr m" and sealed: "seal_manifest lb m = Inr sealed"
    and t: "tj_updated_unix_ms j \<le> t"
  shows "job_inv careful lb (j\<lparr>tj_sealed := Some sealed, tj_lifecycle := Sealed, tj_updated_unix_ms := t\<rparr>)"
proof -
  let ?j = "j\<lparr>tj_sealed := Some sealed, tj_lifecycle := Sealed, tj_updated_unix_ms := t\<rparr>"
  note facts = job_manifest_facts [OF m]
  have "sealed_order ?j = sealed_order j"
    by (simp add: sealed_order_def)
  then have "phase_ok lb ?j"
    using seal_manifest_Inr [OF sealed] facts sealed
    by (simp add: phase_ok_def durable_seal_def seal_matches_def)
  then show ?thesis
    using j t by (auto simp: job_inv_def job_open_def core_on_def identity_ok_def selections_ok_def inventory_ok_def orders_ok_def)
qed

lemma seal_for_send_triple:
  "triple (job_inv careful lb) (seal_for_send lb os) (\<lambda>_. job_inv careful lb) (job_inv careful lb)"
  unfolding seal_for_send_def
proof (rule triple_bind [where R = "\<lambda>_ j. open_ordered careful lb j"], goal_cases)
  case 1
  show ?case by (rule triple_check) (use job_inv_mutable in auto)
next
  case 2
  let ?P = "\<lambda>j. job_inv careful lb j \<and> open_ordered careful lb j"
  have refresh: "triple (open_ordered careful lb) (modifyO refresh_lifecycle) (\<lambda>_. ?P) (job_inv careful lb)"
    by (rule triple_modify) (use refresh_commits open_refresh in \<open>auto simp: job_open_def\<close>)
  have ready: "triple ?P (checkO (\<lambda>j. case tj_lifecycle j of
         NeedsSourceDecision \<Rightarrow> Inl TJ_UnresolvedSourceDecision
       | ReadyToSend \<Rightarrow> Inr ()
       | _ \<Rightarrow> Inl TJ_PreparationIncomplete)) (\<lambda>_. ?P) (job_inv careful lb)"
    by (rule triple_check) auto
  have manifest: "triple ?P (checkO job_manifest) (\<lambda>m j. ?P j \<and> job_manifest j = Inr m) (job_inv careful lb)"
    by (rule triple_check) auto
  have seal: "triple (\<lambda>j. ?P j \<and> job_manifest j = Inr m) (checkO (\<lambda>_. seal_manifest lb m))
      (\<lambda>sealed j. open_ordered careful lb j \<and> job_manifest j = Inr m \<and> seal_manifest lb m = Inr sealed) (job_inv careful lb)" for m
    by (rule triple_check) auto
  show ?case
    by (rule triple_bind [OF refresh], rule triple_bind [OF ready], rule triple_bind [OF manifest],
        rule triple_bind [OF seal], rule triple_bind [OF triple_modify triple_return])
      (auto intro!: sealed_inv)
qed

end
