(* ===== verification/Job_Durable.thy ===== *)
theory Job_Durable
  imports Job_Inv_Seal
begin

text \<open>
  \<open>validate_durable\<close> accepts exactly the jobs with the invariant that were created with a clock, have no
  source that is about to be deleted, and were not cancelled after they were sealed; those it
  rejects, because cancelling advances the revision the seal recorded.
\<close>

text \<open>A selected path is also one to delete.\<close>

definition cleanup_active :: "CanonicalTransferJob \<Rightarrow> bool" where
  "cleanup_active j \<longleftrightarrow> (\<exists>pending \<in> set (tj_cleanup_pending j). \<exists>s \<in> set (tj_selections j). path_eq (sl_path s) pending)"

lemma careful_cleanup: "job_inv True lb j \<Longrightarrow> \<not> cleanup_active j"
  by (auto simp: cleanup_active_def job_inv_def core_on_def selections_ok_def)

lemma job_component_iff [simp]: "job_validate_component lb c = Inr u \<longleftrightarrow> component_ok (jl_nfc lb) c"
  by (auto simp: job_validate_component_def component_ok_def)

lemma card_distinct: "distinct xs \<Longrightarrow> card (set xs) = length xs"
  by (rule distinct_card)

lemma durable_identity_eq:
  "core_on careful lb {} j \<Longrightarrow> durable_identity j = rejectR (tj_created_unix_ms j = 0) (TJ_InvalidRecord InvalidIdentity)"
  by (auto simp: core_on_def identity_ok_def selections_ok_def inventory_ok_def durable_identity_def rejectR_def)

lemma durable_ids_ok:
  assumes "core_on careful lb {} j" and "orders_ok j"
  shows "durable_ids j = Inr ()"
proof -
  have "distinct (map pe_item_id (tj_inventory j))" "distinct (map sl_root_item_id (tj_selections j))"
    using assms(1) by (simp_all add: core_on_def selections_ok_def inventory_ok_def)
  note sizes = card_distinct [OF this(1)] card_distinct [OF this(2)]
  have "\<not> list_ex (\<lambda>(i, s). sl_selection_order s \<noteq> word_of_nat i) (enumerate 0 (tj_selections j))"
    using assms(2) by (auto simp: list_ex_iff orders_ok_def in_set_enumerate_eq)
  with sizes show ?thesis
    by (simp add: durable_ids_def)
qed

lemma listing_hd:
  assumes "listing_ok lb root name es" and "es \<noteq> []"
  shows "pe_relative_components (hd es) = [] \<and> pe_parent_item_id (hd es) = None"
  using assms by (cases es) (auto simp: listing_ok_def place_ok_def split: if_splits)

lemma find_item:
  assumes "distinct (map pe_item_id es)" and "e \<in> set es"
  shows "find (\<lambda>x. pe_item_id x = pe_item_id e) es = Some e"
proof (cases "find (\<lambda>x. pe_item_id x = pe_item_id e) es")
  case None
  then show ?thesis using assms(2) by (auto simp: find_None_iff)
next
  case (Some x)
  then have "x \<in> set es" "pe_item_id x = pe_item_id e"
    by (auto simp: find_Some_iff)
  then show ?thesis using Some assms by (auto simp: distinct_map inj_on_def)
qed

lemma durable_selection_ok:
  assumes core: "core_on careful lb {} j" and s: "s \<in> set (tj_selections j)"
  shows "durable_selection lb (tj_inventory j) s = Inr ()"
proof -
  have ok: "selection_ok lb (tj_inventory j) (tj_next_issue_id j) s" and name: "component_ok (jl_nfc lb) (sl_requested_name s)"
      and ids: "distinct (map pe_item_id (tj_inventory j))"
    using core s by (auto simp: core_on_def selections_ok_def inventory_ok_def)
  let ?es = "root_listing (tj_inventory j) (sl_root_item_id s)"
  have root: "find (\<lambda>e. pe_item_id e = pe_item_id (hd ?es)) (tj_inventory j) = Some (hd ?es)
      \<and> pe_root_item_id (hd ?es) = sl_root_item_id s" if "?es \<noteq> []"
    using find_item [OF ids, of "hd ?es"] hd_in_set [OF that] by auto
  show ?thesis
    using ok name root listing_hd [of lb "sl_root_item_id s" "sl_requested_name s" ?es]
    by (auto simp: durable_selection_def selection_ok_def Let_def list_ex_iff)
qed

lemma durable_selections_ok:
  "(\<And>s. s \<in> set ss \<Longrightarrow> durable_selection lb es s = Inr ()) \<Longrightarrow> durable_selections lb es ss = Inr ()"
  by (induction ss) auto

text \<open>In the inventory every entry finds its place among the earlier entries of its root.\<close>

lemma listing_place:
  assumes "listing_ok lb root name (root_listing es root)" and "k < length es" and "pe_root_item_id (es ! k) = root"
  shows "place_ok name (root_listing (take k es) root) (es ! k)"
proof -
  let ?m = "length (root_listing (take k es) root)"
  have "es = take k es @ es ! k # drop (Suc k) es"
    using assms(2) by (rule id_take_nth_drop)
  then have split: "root_listing es root = root_listing (take k es) root @ es ! k # root_listing (drop (Suc k) es) root"
    using assms(3) by (metis (mono_tags, lifting) filter.simps(2) filter_append)
  then have m: "?m < length (root_listing es root)" "root_listing es root ! ?m = es ! k"
      "take ?m (root_listing es root) = root_listing (take k es) root"
    by simp_all
  have "\<forall>i < length (root_listing es root). place_ok name (take i (root_listing es root)) (root_listing es root ! i)"
    using assms(1) unfolding listing_ok_def by blast
  from this [rule_format, OF m(1)] show ?thesis
    by (simp only: m(2,3))
qed

lemma durable_entry_ok:
  assumes core: "core_on careful lb {} j" and k: "k < length (tj_inventory j)"
  shows "durable_entry lb (set (map sl_root_item_id (tj_selections j))) (tj_inventory j)
    (pe_item_id ` set (take k (tj_inventory j))) (tj_inventory j ! k) = Inr ()"
proof -
  let ?es = "tj_inventory j" and ?e = "tj_inventory j ! k"
  have ids: "distinct (map pe_item_id ?es)" and member: "pe_root_item_id ?e \<in> sl_root_item_id ` set (tj_selections j)"
    using core k by (auto simp: core_on_def inventory_ok_def)
  then obtain s where s: "s \<in> set (tj_selections j)" "sl_root_item_id s = pe_root_item_id ?e"
    by auto
  then have listing: "listing_ok lb (pe_root_item_id ?e) (sl_requested_name s) (root_listing ?es (pe_root_item_id ?e))"
    using core by (auto simp: core_on_def selections_ok_def selection_ok_def)
  have fine: "entry_fine lb ?e"
    using listing k by (auto simp: listing_ok_def)
  have place: "place_ok (sl_requested_name s) (root_listing (take k ?es) (pe_root_item_id ?e)) ?e"
    using listing_place [OF listing k] by simp
  have parent: "find (\<lambda>c. pe_item_id c = p) ?es = Some d \<and> p \<in> pe_item_id ` set (take k ?es)
      \<and> pe_root_item_id d = pe_root_item_id ?e \<and> pe_kind d = Directory"
    if "pe_parent_item_id ?e = Some p" "d \<in> set (root_listing (take k ?es) (pe_root_item_id ?e))"
      "is_parent d (pe_parent_item_id ?e) (pe_relative_components ?e)" for p d
  proof -
    have "d \<in> set ?es" "d \<in> set (take k ?es)"
      using that(2) by (auto dest: in_set_takeD)
    then show ?thesis
      using that find_item [OF ids, of d] by (auto simp: is_parent_def)
  qed
  show ?thesis
    using fine member place parent
    by (auto simp: durable_entry_def entry_fine_def place_ok_def split: if_splits option.splits)
qed

lemma durable_entries_ok:
  assumes "\<And>k. k < length es \<Longrightarrow> durable_entry lb roots es (pe_item_id ` set (take k es)) (es ! k) = Inr ()"
  shows "durable_entries lb roots es {} es = Inr ()"
proof -
  have "durable_entries lb roots es (pe_item_id ` set (take k es)) (drop k es) = Inr ()" if "k \<le> length es" for k
    using that
  proof (induction "length es - k" arbitrary: k)
    case (Suc n)
    then have k: "k < length es" by simp
    moreover have "insert (pe_item_id (es ! k)) (pe_item_id ` set (take k es)) = pe_item_id ` set (take (Suc k) es)"
      using k by (simp add: take_Suc_conv_app_nth)
    ultimately show ?case
      using Suc assms [OF k] by (simp add: Cons_nth_drop_Suc [symmetric])
  qed simp
  from this [of 0] show ?thesis by simp
qed

lemma durable_references_eq:
  assumes "core_on careful lb {} j"
  shows "durable_references j = rejectR (cleanup_active j) (TJ_InvalidRecord CleanupActive)"
proof -
  have d: "distinct (map fst (tj_source_bindings j))" "distinct (map pe_item_id (tj_inventory j))"
      "fst ` set (tj_source_bindings j) = pe_item_id ` set (tj_inventory j)"
    using assms by (simp_all add: core_on_def inventory_ok_def)
  then have "length (tj_source_bindings j) = length (tj_inventory j)"
    using card_distinct [OF d(1)] card_distinct [OF d(2)] by simp
  moreover have "\<not> list_ex (\<lambda>b. fst b \<notin> set (map pe_item_id (tj_inventory j))) (tj_source_bindings j)"
    using d(3) by (auto simp: list_ex_iff)
  ultimately show ?thesis
    by (simp add: durable_references_def list_ex_iff cleanup_active_def)
qed

lemma validate_durable_eq:
  assumes "job_inv careful lb j"
  shows "validate_durable lb j =
    (if tj_created_unix_ms j = 0 then Inl (TJ_InvalidRecord InvalidIdentity)
     else if cleanup_active j then Inl (TJ_InvalidRecord CleanupActive)
     else if tj_lifecycle j = Canceled \<and> tj_sealed j \<noteq> None then Inl (TJ_InvalidRecord SealedIdentity)
     else Inr ())"
proof -
  have core: "core_on careful lb {} j" "orders_ok j" and phase: "phase_ok lb j"
    using assms by (simp_all add: job_inv_def)
  have life: "durable_lifecycle j = Inr ()"
    using phase by (cases "tj_lifecycle j") (auto simp: durable_lifecycle_def phase_ok_def)
  have "durable_seal lb j =
      (if tj_lifecycle j = Canceled \<and> tj_sealed j \<noteq> None then Inl (TJ_InvalidRecord SealedIdentity) else Inr ())"
    using phase by (cases "tj_lifecycle j") (auto simp: durable_seal_def phase_ok_def split: option.splits)
  moreover have "durable_entries lb (set (map sl_root_item_id (tj_selections j))) (tj_inventory j) {} (tj_inventory j) = Inr ()"
    by (rule durable_entries_ok) (rule durable_entry_ok [OF core(1)])
  moreover have "durable_selections lb (tj_inventory j) (tj_selections j) = Inr ()"
    by (rule durable_selections_ok) (rule durable_selection_ok [OF core(1)])
  ultimately show ?thesis
    by (simp add: validate_durable_def durable_identity_eq [OF core(1)] durable_ids_ok [OF core]
        durable_references_eq [OF core(1)] life rejectR_def)
qed

end
