(* ===== verification/Systems.thy ===== *)
theory Systems
  imports Main
begin

text \<open>
  The interface of a component as a system of steps: where it starts, what a step does, and an
  invariant. A client gets the invariant in every reachable state, and with it what each step
  preserves or only increases.
\<close>

locale state_system =
  fixes start :: "'s \<Rightarrow> bool" and step :: "'s \<Rightarrow> 's \<Rightarrow> bool" and invariant :: "'s \<Rightarrow> bool"
  assumes start_invariant: "start s \<Longrightarrow> invariant s"
    and step_invariant: "step s t \<Longrightarrow> invariant s \<Longrightarrow> invariant t"
begin

lemma run_invariant: "step\<^sup>*\<^sup>* s t \<Longrightarrow> invariant s \<Longrightarrow> invariant t"
  by (induction rule: rtranclp_induct) (auto dest: step_invariant)

lemma reachable_invariant: "start s \<Longrightarrow> step\<^sup>*\<^sup>* s t \<Longrightarrow> invariant t"
  using run_invariant start_invariant by blast

lemma run_preserves:
  assumes "\<And>s t. invariant s \<Longrightarrow> step s t \<Longrightarrow> P s \<Longrightarrow> P t" and "step\<^sup>*\<^sup>* s t" and "invariant s" and "P s"
  shows "P t"
proof -
  have "invariant t \<and> P t"
    using assms(2-4) by (induction rule: rtranclp_induct) (auto dest: assms(1) step_invariant)
  then show ?thesis ..
qed

end

text \<open>A system that implements a more abstract one: every step is a step of the abstraction.\<close>

locale refined_system = state_system start step invariant
  for start :: "'s \<Rightarrow> bool" and step :: "'s \<Rightarrow> 's \<Rightarrow> bool" and invariant :: "'s \<Rightarrow> bool" +
  fixes abstraction :: "'s \<Rightarrow> 'a" and abstract_step :: "'a \<Rightarrow> 'a \<Rightarrow> bool"
  assumes simulates: "invariant s \<Longrightarrow> step s t \<Longrightarrow> abstract_step (abstraction s) (abstraction t)"
begin

lemma run_simulates: "step\<^sup>*\<^sup>* s t \<Longrightarrow> invariant s \<Longrightarrow> abstract_step\<^sup>*\<^sup>* (abstraction s) (abstraction t)"
proof (induction rule: rtranclp_induct)
  case (step t u)
  then show ?case
    using run_invariant [OF step.hyps(1)] simulates by (meson rtranclp.rtrancl_into_rtrancl)
qed simp

end

end
