(* ===== verification/Job_System.thy ===== *)
theory Job_System
  imports Job_Durable Systems
begin

text \<open>
  The life of a job as a step relation: from a new job, any operation of
  \<open>CanonicalTransferJob\<close> in any order, with any answers of the operating system, successful or not, and
  the removal of a deleted file from the list of those to delete, which the store makes. A step
  excludes the overflow of a 64-bit counter. \<open>careful\<close> runs are those in which the paths given to the job are fresh: not a
  staging file the job owns or is about to delete (those have random names in the store's own directory).
  \<open>job_step\<close> is the relation without this restriction, in which any path can be given.
\<close>

definition settled :: "TransferJobError + 'a \<Rightarrow> bool" where
  "settled r = (case r of Inl e \<Rightarrow> \<not> overflow e | Inr _ \<Rightarrow> True)"

definition job_start :: "CanonicalTransferJob \<Rightarrow> bool" where
  "job_start j \<longleftrightarrow> (\<exists>draw now policy. job_new draw now policy = Inr j)"

text \<open>What the store does to a job when it has deleted a staging file.\<close>

definition retain_cleanup :: "path \<Rightarrow> CanonicalTransferJob \<Rightarrow> CanonicalTransferJob" where
  "retain_cleanup p j = j\<lparr>tj_cleanup_pending := filter (\<lambda>pending. \<not> path_eq pending p) (tj_cleanup_pending j)\<rparr>"

inductive job_step_on :: "bool \<Rightarrow> JobLibs \<Rightarrow> CanonicalTransferJob \<Rightarrow> CanonicalTransferJob \<Rightarrow> bool" for careful lb where
  add_path: "add_local_path lb os p j = (r, j') \<Longrightarrow> path_fresh careful False p j \<Longrightarrow> settled r \<Longrightarrow> job_step_on careful lb j j'"
| add_staged: "add_staged_source lb os p name origin j = (r, j') \<Longrightarrow> path_fresh careful True p j \<Longrightarrow> settled r
    \<Longrightarrow> job_step_on careful lb j j'"
| add_provider: "add_provider_path lb os1 os2 os3 p name origin issues j = Some (r, j') \<Longrightarrow> path_fresh careful False p j
    \<Longrightarrow> settled r \<Longrightarrow> job_step_on careful lb j j'"
| prepare: "prepare_selection lb os root j = Some (r, j') \<Longrightarrow> settled r \<Longrightarrow> job_step_on careful lb j j'"
| prepare_each: "prepare_all lb oss j = Some (r, j') \<Longrightarrow> settled r \<Longrightarrow> job_step_on careful lb j j'"
| decide: "resolve_source_decision os root decision j = (r, j')
    \<Longrightarrow> (\<And>p. decision = Reauthorize p \<Longrightarrow> path_fresh careful False p j) \<Longrightarrow> settled r \<Longrightarrow> job_step_on careful lb j j'"
| reauthorize_provider: "reauthorize_provider_source lb os1 os2 os3 root p issues j = Some (r, j')
    \<Longrightarrow> path_fresh careful False p j \<Longrightarrow> settled r \<Longrightarrow> job_step_on careful lb j j'"
| hash: "hash_entry lb os after item_id j = (r, j') \<Longrightarrow> settled r \<Longrightarrow> job_step_on careful lb j j'"
| policy: "set_compression_policy os new_policy j = (r, j') \<Longrightarrow> settled r \<Longrightarrow> job_step_on careful lb j j'"
| seal: "seal_for_send lb os j = (r, j') \<Longrightarrow> settled r \<Longrightarrow> job_step_on careful lb j j'"
| cancel: "job_cancel os j = (r, j') \<Longrightarrow> settled r \<Longrightarrow> job_step_on careful lb j j'"
| cleaned: "job_step_on careful lb j (retain_cleanup p j)"

abbreviation job_step :: "JobLibs \<Rightarrow> CanonicalTransferJob \<Rightarrow> CanonicalTransferJob \<Rightarrow> bool" where
  "job_step \<equiv> job_step_on False"

lemma retain_cleanup_inv: "job_inv careful lb j \<Longrightarrow> job_inv careful lb (retain_cleanup p j)"
  by (cases "tj_lifecycle j"; cases "tj_sealed j") (auto simp: retain_cleanup_def job_inv_def core_on_def selections_ok_def inventory_ok_def
      phase_ok_def seal_matches_def durable_seal_def sealed_order_def)

lemma keeps_settled: "keeps careful lb (r, j) \<Longrightarrow> settled r \<Longrightarrow> job_inv careful lb j"
  by (cases r) (auto simp: settled_def)

lemma triple_settled:
  "triple P m (\<lambda>_. job_inv careful lb) (job_inv careful lb) \<Longrightarrow> m j = (r, j') \<Longrightarrow> P j \<Longrightarrow> settled r \<Longrightarrow> job_inv careful lb j'"
  using keeps_settled by (fastforce simp: triple_def)

lemma job_start_inv: "job_start j \<Longrightarrow> job_inv careful lb j"
  by (auto simp: job_start_def job_new_def job_inv_def core_on_def identity_ok_def selections_ok_def inventory_ok_def
      orders_ok_def phase_ok_def expected_lifecycle_def FIRST_SELECTION_REVISION_def FIRST_GENERATION_def)

lemma job_step_inv:
  assumes "job_step_on careful lb j j'" and "job_inv careful lb j"
  shows "job_inv careful lb j'"
  using assms(1)
proof cases
  case (add_path os p r)
  with assms(2) show ?thesis by (auto intro: triple_settled [OF add_local_path_triple])
next
  case (add_staged os p name origin r)
  with assms(2) show ?thesis by (auto intro: triple_settled [OF add_staged_source_triple])
next
  case (add_provider os1 os2 os3 p name origin issues r)
  with assms(2) show ?thesis by (auto intro: keeps_settled add_provider_path_keeps)
next
  case (prepare os root r)
  with assms(2) show ?thesis by (auto intro: keeps_settled prepare_selection_keeps)
next
  case (prepare_each oss r)
  with assms(2) show ?thesis by (auto intro: keeps_settled prepare_all_keeps)
next
  case (decide os root decision r)
  with assms(2) show ?thesis by (auto intro: triple_settled [OF resolve_source_decision_triple])
next
  case (reauthorize_provider os1 os2 os3 root p issues r)
  with assms(2) show ?thesis by (auto intro: keeps_settled reauthorize_provider_source_keeps)
next
  case (hash os after item_id r)
  with assms(2) show ?thesis by (auto intro: triple_settled [OF hash_entry_triple])
next
  case (policy os new_policy r)
  with assms(2) show ?thesis by (auto intro: triple_settled [OF set_compression_policy_triple])
next
  case (seal os r)
  with assms(2) show ?thesis by (auto intro: triple_settled [OF seal_for_send_triple])
next
  case (cancel os r)
  with assms(2) show ?thesis by (auto intro: triple_settled [OF job_cancel_triple])
next
  case (cleaned p)
  with assms(2) show ?thesis by (simp add: retain_cleanup_inv)
qed

interpretation job: state_system job_start "job_step_on careful lb" "job_inv careful lb" for careful lb
  by unfold_locales (auto intro: job_start_inv job_step_inv)

end
