(* ===== verification/Forest_Order.thy ===== *)
theory Forest_Order
  imports Manifest_Valid Job_Listing
begin

text \<open>
  A sufficient condition for the canonical order of a manifest: entries grouped by root, and inside a
  root with strictly increasing paths. The preorder of an entry is then the list of its descendants
  in index order, so the forest is listed as \<open>0, 1, 2, \<dots>\<close>.
\<close>

definition laid_out :: "ManifestEntryV2 list \<Rightarrow> bool" where
  "laid_out es \<longleftrightarrow>
     (\<forall>i < length es. \<forall>p. me_parent_entry_id (es ! i) = Some p \<longrightarrow>
        unat p < i \<and> me_root_id (es ! unat p) = me_root_id (es ! i))
     \<and> (\<forall>j < length es. \<forall>i < j. me_root_id (es ! i) = me_root_id (es ! j)
        \<longrightarrow> entry_path es i < entry_path es j)"

definition descends :: "ManifestEntryV2 list \<Rightarrow> nat \<Rightarrow> nat \<Rightarrow> bool" where
  "descends es i k \<longleftrightarrow> me_root_id (es ! k) = me_root_id (es ! i) \<and> prefix (entry_path es i) (entry_path es k)"

lemma laid_out_less_iff:
  assumes "laid_out es" "i < length es" "j < length es" "me_root_id (es ! i) = me_root_id (es ! j)"
  shows "entry_path es i < entry_path es j \<longleftrightarrow> i < j"
  using assms unfolding laid_out_def by (metis less_asym linorder_neqE_nat)

lemma laid_out_inj:
  assumes "laid_out es" "i < length es" "j < length es" "me_root_id (es ! i) = me_root_id (es ! j)"
    and "entry_path es i = entry_path es j"
  shows "i = j"
  using assms laid_out_less_iff [of es i j] laid_out_less_iff [of es j i] by auto

lemma prefix_le: "prefix xs ys \<Longrightarrow> (xs :: 'a::linorder list) \<le> ys"
proof (induction xs arbitrary: ys)
  case (Cons x xs)
  then show ?case by (cases ys) auto
qed simp

lemma descends_ge:
  assumes "laid_out es" "i < length es" "k < length es" "descends es i k"
  shows "i \<le> k"
proof -
  have "entry_path es i \<le> entry_path es k"
    using assms(4) by (simp add: descends_def prefix_le)
  then show ?thesis
    using laid_out_less_iff [OF assms(1,3,2)] assms(4) by (auto simp: descends_def not_less [symmetric])
qed

lemma laid_out_parent:
  assumes "laid_out es" "j < length es" "me_parent_entry_id (es ! j) = Some p"
  shows "unat p < j" "me_root_id (es ! unat p) = me_root_id (es ! j)"
    "entry_path es j = entry_path es (unat p) @ [me_component (es ! j)]"
  using assms by (auto simp: laid_out_def)

lemma child_of_iff:
  assumes "laid_out es" "i < length es" "j < length es"
  shows "child_of es i j \<longleftrightarrow> me_root_id (es ! j) = me_root_id (es ! i)
    \<and> entry_path es j = entry_path es i @ [me_component (es ! j)]"
proof
  assume "child_of es i j"
  then show "me_root_id (es ! j) = me_root_id (es ! i) \<and> entry_path es j = entry_path es i @ [me_component (es ! j)]"
    using laid_out_parent [OF assms(1,3)] by (auto simp: child_of_def)
next
  assume j: "me_root_id (es ! j) = me_root_id (es ! i) \<and> entry_path es j = entry_path es i @ [me_component (es ! j)]"
  then obtain p where p: "me_parent_entry_id (es ! j) = Some p"
    by (cases "me_parent_entry_id (es ! j)") auto
  note parent = laid_out_parent [OF assms(1,3) p]
  have "unat p = i"
    using parent j assms by (intro laid_out_inj [OF assms(1)]) auto
  with p show "child_of es i j" by (simp add: child_of_def)
qed

lemma sort_key_sorted: "sorted (map f xs) \<Longrightarrow> sort_key f xs = xs"
proof (induction xs)
  case (Cons x xs)
  then show ?case by (cases xs) simp_all
qed simp

lemma children_sorted:
  assumes "laid_out es" "i < length es"
  shows "sort_children es (children_of es i) = children_of es i"
  unfolding sort_children_def
proof (rule sort_key_sorted, unfold sorted_map)
  have child: "j < length es \<and> me_root_id (es ! j) = me_root_id (es ! i)
      \<and> entry_path es j = entry_path es i @ [me_component (es ! j)]" if "j \<in> set (children_of es i)" for j
    using that assms child_of_iff [OF assms(1,2), of j] by (auto simp: children_of_def)
  have "sorted_wrt (<) (children_of es i)"
    by (simp add: children_of_def sorted_wrt_filter)
  then show "sorted_wrt (\<lambda>x y. me_component (es ! x) \<le> me_component (es ! y)) (children_of es i)"
  proof (rule sorted_wrt_mono_rel [rotated])
    fix x y assume xy: "x \<in> set (children_of es i)" "y \<in> set (children_of es i)" "x < y"
    then have "entry_path es i @ [me_component (es ! x)] < entry_path es i @ [me_component (es ! y)]"
      using child [OF xy(1)] child [OF xy(2)] laid_out_less_iff [OF assms(1), of x y] by simp
    then show "me_component (es ! x) \<le> me_component (es ! y)"
      using snoc_less_snoc [of "me_component (es ! y)" "me_component (es ! x)" "entry_path es i"]
      by (metis less_asym not_le)
  qed
qed

text \<open>Below an entry: itself, and the descendants of its children.\<close>

lemma descends_cases:
  assumes laid: "laid_out es" and i: "i < length es" and k: "k < length es"
  shows "descends es i k \<longleftrightarrow> k = i \<or> (\<exists>j \<in> set (children_of es i). descends es j k)"
proof
  assume "descends es i k"
  then show "k = i \<or> (\<exists>j \<in> set (children_of es i). descends es j k)"
    using k
  proof (induction k rule: less_induct)
    case (less k)
    show ?case
    proof (cases "entry_path es k = entry_path es i")
      case True
      then show ?thesis
        using less.prems laid_out_inj [OF laid less.prems(2) i] by (simp add: descends_def)
    next
      case False
      then obtain p where p: "me_parent_entry_id (es ! k) = Some p"
        using less.prems(1) by (cases "me_parent_entry_id (es ! k)") (auto simp: descends_def)
      note parent = laid_out_parent [OF laid less.prems(2) p]
      have below: "descends es i (unat p)"
        using less.prems(1) False parent by (auto simp: descends_def prefix_snoc)
      from less.IH [OF parent(1) this] parent(1) less.prems(2)
      consider "unat p = i" | j where "j \<in> set (children_of es i)" "descends es j (unat p)"
        by auto
      then show ?thesis
      proof cases
        case 1
        then have "k \<in> set (children_of es i)"
          using parent(1) p less.prems(2) by (simp add: children_of_def child_of_def)
        then show ?thesis by (auto simp: descends_def)
      next
        case 2
        then have "descends es j k"
          using parent by (auto simp: descends_def intro: prefix_prefix [THEN prefix_order.trans, rotated])
        with 2 show ?thesis by blast
      qed
    qed
  qed
next
  assume "k = i \<or> (\<exists>j \<in> set (children_of es i). descends es j k)"
  then show "descends es i k"
    using child_of_iff [OF laid i] by (auto simp: descends_def children_of_def intro: append_prefixD)
qed

section \<open>The preorder\<close>

lemma sorted_concat:
  assumes "sorted_wrt (\<lambda>j j'. \<forall>x \<in> set (f j). \<forall>y \<in> set (f j'). x < (y :: nat)) js"
    and "\<forall>j \<in> set js. sorted_wrt (<) (f j)"
  shows "sorted_wrt (<) (concat (map f js))"
  using assms by (induction js) (auto simp: sorted_wrt_append)

lemma sorted_upt_filter: "sorted_wrt (<) (filter P [0..<n])"
  by (simp add: sorted_wrt_filter)

lemma strict_sorted_unique:
  "sorted_wrt (<) xs \<Longrightarrow> sorted_wrt (<) ys \<Longrightarrow> set xs = set ys \<Longrightarrow> xs = (ys :: nat list)"
  by (rule strict_sorted_equal)

lemma siblings_apart:
  assumes laid: "laid_out es" and i: "i < length es"
    and j: "j \<in> set (children_of es i)" "j' \<in> set (children_of es i)" "j < j'"
    and k: "k < length es" "descends es j k" and k': "k' < length es" "descends es j' k'"
  shows "k < k'"
proof -
  have jj: "j < length es" "j' < length es"
    using j by (auto simp: children_of_def)
  have child: "me_root_id (es ! j) = me_root_id (es ! i) \<and> entry_path es j = entry_path es i @ [me_component (es ! j)]"
      "me_root_id (es ! j') = me_root_id (es ! i) \<and> entry_path es j' = entry_path es i @ [me_component (es ! j')]"
    using j child_of_iff [OF laid i] by (auto simp: children_of_def)
  have less: "entry_path es j < entry_path es j'"
    using child j(3) laid_out_less_iff [OF laid jj] by simp
  moreover have "\<not> prefix (entry_path es j) (entry_path es j')"
    using less child by auto
  moreover obtain x where "entry_path es k = entry_path es j @ x"
    using k(2) by (auto simp: descends_def prefix_def)
  ultimately have "entry_path es k < entry_path es j'"
    by (simp add: extend_less)
  also have "entry_path es j' \<le> entry_path es k'"
    using k'(2) by (simp add: descends_def prefix_le)
  finally show ?thesis
    using laid_out_less_iff [OF laid k(1) k'(1)] k(2) k'(2) child by (simp add: descends_def)
qed

lemma preorder_laid_out:
  assumes "laid_out es" and "i < length es"
  shows "preorder es i = filter (descends es i) [0..<length es]"
  using assms
proof (induction es i rule: preorder.induct)
  case (1 es i)
  let ?below = "\<lambda>j. filter (descends es j) [0..<length es]"
  let ?js = "children_of es i"
  have js: "j < length es \<and> i < j" if "j \<in> set ?js" for j
    using that by (auto simp: children_of_def)
  have IH: "preorder es j = ?below j" if "j \<in> set ?js" for j
    using 1(1) [of j] that js [OF that] 1(2) children_sorted [OF 1(2,3)] by simp
  have "preorder es i = i # concat (map (preorder es) ?js)"
    by (subst preorder.simps) (simp add: children_sorted [OF 1(2,3)])
  also have "\<dots> = i # concat (map ?below ?js)"
    using IH by (simp cong: map_cong)
  also have "\<dots> = ?below i"
  proof (rule strict_sorted_unique)
    have "sorted_wrt (<) ?js"
      by (simp add: children_of_def sorted_wrt_filter)
    then have "sorted_wrt (\<lambda>j j'. \<forall>x \<in> set (?below j). \<forall>y \<in> set (?below j'). x < y) ?js"
    proof (rule sorted_wrt_mono_rel [rotated], intro ballI)
      fix j j' x y assume "j \<in> set ?js" "j' \<in> set ?js" "j < j'" "x \<in> set (?below j)" "y \<in> set (?below j')"
      then show "x < y"
        by - (rule siblings_apart [OF 1(2,3), of j j'], simp_all)
    qed
    then have "sorted_wrt (<) (concat (map ?below ?js))"
      by (rule sorted_concat) (simp add: sorted_upt_filter)
    moreover have "i < k" if k: "k \<in> set (concat (map ?below ?js))" for k
    proof -
      from k obtain j where "j \<in> set ?js" "k < length es" "descends es j k"
        by auto
      then show ?thesis
        using js [of j] descends_ge [OF 1(2), of j k] by simp
    qed
    ultimately show "sorted_wrt (<) (i # concat (map ?below ?js))"
      by simp
    show "set (i # concat (map ?below ?js)) = set (?below i)"
      using descends_cases [OF 1(2,3)] 1(3) js by auto
  qed (rule sorted_upt_filter)
  finally show ?case .
qed

lemma forest_order_laid_out:
  assumes laid: "laid_out (mf_entries m)"
    and grouped: "\<And>i j. i < j \<Longrightarrow> j < length (mf_entries m)
      \<Longrightarrow> unat (me_root_id (mf_entries m ! i)) \<le> unat (me_root_id (mf_entries m ! j))"
    and in_range: "\<And>i. i < length (mf_entries m) \<Longrightarrow> unat (me_root_id (mf_entries m ! i)) < length (mf_roots m)"
    and roots: "\<And>k. k < length (mf_roots m) \<Longrightarrow> unat (mr_root_entry_id (mf_roots m ! k)) < length (mf_entries m)
      \<and> unat (me_root_id (mf_entries m ! unat (mr_root_entry_id (mf_roots m ! k)))) = k
      \<and> entry_path (mf_entries m) (unat (mr_root_entry_id (mf_roots m ! k))) = []"
  shows "forest_order m = [0..<length (mf_entries m)]"
proof -
  let ?es = "mf_entries m"
  let ?of = "\<lambda>k. filter (\<lambda>i. unat (me_root_id (?es ! i)) = k) [0..<length ?es]"
  have "preorder ?es (unat (mr_root_entry_id (mf_roots m ! k))) = ?of k" if "k < length (mf_roots m)" for k
  proof -
    have "descends ?es (unat (mr_root_entry_id (mf_roots m ! k))) = (\<lambda>i. unat (me_root_id (?es ! i)) = k)"
      using roots [OF that] by (auto simp: descends_def word_unat_eq_iff)
    then show ?thesis
      using roots [OF that] by (simp add: preorder_laid_out [OF laid])
  qed
  then have "map (\<lambda>r. preorder ?es (unat (mr_root_entry_id r))) (mf_roots m) = map ?of [0..<length (mf_roots m)]"
    by (intro nth_equalityI) simp_all
  then have "forest_order m = concat (map ?of [0..<length (mf_roots m)])"
    by (simp add: forest_order_def)
  also have "\<dots> = [0..<length ?es]"
  proof (rule strict_sorted_unique)
    have "sorted_wrt (\<lambda>k k'. \<forall>x \<in> set (?of k). \<forall>y \<in> set (?of k'). x < y) [0..<length (mf_roots m)]"
    proof (rule sorted_wrt_mono_rel [OF _ sorted_wrt_upt], intro ballI)
      fix k k' x y :: nat assume "k < k'" "x \<in> set (?of k)" "y \<in> set (?of k')"
      then show "x < y"
        using grouped [of y x] by (cases x y rule: linorder_cases) auto
    qed
    then show "sorted_wrt (<) (concat (map ?of [0..<length (mf_roots m)]))"
      by (rule sorted_concat) (simp add: sorted_upt_filter)
    show "set (concat (map ?of [0..<length (mf_roots m)])) = set [0..<length ?es]"
      using in_range by auto
  qed simp
  finally show ?thesis .
qed

end
