(* ===== verification/Job_Manifest.thy ===== *)
theory Job_Manifest
  imports Job_System Forest_Order "HOL-Library.Multiset"
begin

text \<open>
  What \<open>seal_for_send\<close> writes. The manifest mirrors the inventory in the order of the roots; its paths
  are the relative components, so a listing becomes a canonical forest, and a job ready to send has an
  acceptable manifest whenever its sizes fit.
\<close>

section \<open>The entries mirror the inventory\<close>

definition mirrors :: "(SourceItemId \<Rightarrow> u32) \<Rightarrow> PreparedInventoryEntry list \<Rightarrow> nat \<Rightarrow> ManifestEntryV2 \<Rightarrow> bool" where
  "mirrors rid es i m \<longleftrightarrow>
     me_entry_id m = word_of_nat i \<and> me_root_id m = rid (pe_root_item_id (es ! i))
     \<and> me_component m = pe_name (es ! i) \<and> me_kind m = pe_kind (es ! i)
     \<and> me_plaintext_size m = pe_plaintext_size (es ! i)
     \<and> me_content_digest m = (case pe_digest (es ! i) of Some d \<Rightarrow> Known d | None \<Rightarrow> Deferred)
     \<and> (case pe_parent_item_id (es ! i) of
          None \<Rightarrow> me_parent_entry_id m = None
        | Some p \<Rightarrow> \<exists>q < i. pe_item_id (es ! q) = p \<and> me_parent_entry_id m = Some (word_of_nat q))"

definition mirror :: "(SourceItemId \<Rightarrow> u32) \<Rightarrow> PreparedInventoryEntry list \<Rightarrow> ManifestEntryV2 list \<Rightarrow> entry_index \<Rightarrow> bool" where
  "mirror rid es entries index \<longleftrightarrow>
     length entries = length es \<and> (\<forall>i < length es. mirrors rid es i (entries ! i))
     \<and> (\<forall>item w. index item = Some w \<longleftrightarrow> (\<exists>i < length es. pe_item_id (es ! i) = item \<and> w = word_of_nat i))"

definition parents_earlier :: "PreparedInventoryEntry list \<Rightarrow> bool" where
  "parents_earlier es \<longleftrightarrow>
     (\<forall>i < length es. \<forall>p. pe_parent_item_id (es ! i) = Some p \<longrightarrow> p \<in> pe_item_id ` set (take i es))"

lemma mirrors_append: "i < length es \<Longrightarrow> mirrors rid (es @ fs) i m \<longleftrightarrow> mirrors rid es i m"
proof -
  assume i: "i < length es"
  then have nth: "(es @ fs) ! i = es ! i" and earlier: "\<And>q. q < i \<Longrightarrow> (es @ fs) ! q = es ! q"
    by (simp_all add: nth_append)
  show ?thesis
  proof (cases "pe_parent_item_id (es ! i)")
    case None
    then show ?thesis by (simp add: mirrors_def nth)
  next
    case (Some p)
    have "(\<exists>q < i. pe_item_id ((es @ fs) ! q) = p \<and> me_parent_entry_id m = Some (word_of_nat q))
        \<longleftrightarrow> (\<exists>q < i. pe_item_id (es ! q) = p \<and> me_parent_entry_id m = Some (word_of_nat q))"
      using earlier by metis
    with Some show ?thesis by (simp only: mirrors_def nth option.case)
  qed
qed

lemma parents_earlier_append: "parents_earlier (es @ fs) \<Longrightarrow> parents_earlier es"
  unfolding parents_earlier_def
proof (intro allI impI)
  fix i p
  assume all: "\<forall>i < length (es @ fs). \<forall>p. pe_parent_item_id ((es @ fs) ! i) = Some p \<longrightarrow> p \<in> pe_item_id ` set (take i (es @ fs))"
    and i: "i < length es" and p: "pe_parent_item_id (es ! i) = Some p"
  from all [rule_format, of i p] i p show "p \<in> pe_item_id ` set (take i es)"
    by (simp add: nth_append)
qed

lemma seal_entry_mirror:
  assumes m: "mirror rid es entries index" and root: "rid (pe_root_item_id e) = root_id"
    and parent: "\<And>p. pe_parent_item_id e = Some p \<Longrightarrow> p \<in> pe_item_id ` set es"
  obtains entry where "seal_entry root_id e entries index = Inr entry"
    and "mirrors rid (es @ [e]) (length es) entry"
proof -
  have len: "length entries = length es"
    using m by (simp add: mirror_def)
  let ?entry = "\<lambda>parent. \<lparr>me_entry_id = word_of_nat (length es), me_root_id = root_id, me_parent_entry_id = parent,
    me_component = pe_name e, me_kind = pe_kind e, me_plaintext_size = pe_plaintext_size e,
    me_content_digest = (case pe_digest e of Some d \<Rightarrow> Known d | None \<Rightarrow> Deferred)\<rparr>"
  show thesis
  proof (cases "pe_parent_item_id e")
    case None
    then have "seal_entry root_id e entries index = Inr (?entry None)"
      by (simp add: seal_entry_def len)
    moreover have "mirrors rid (es @ [e]) (length es) (?entry None)"
      using None by (simp add: mirrors_def root)
    ultimately show thesis by (rule that)
  next
    case (Some p)
    then obtain q where q: "q < length es" "pe_item_id (es ! q) = p"
      using parent by (auto simp: in_set_conv_nth)
    then have "index p = Some (word_of_nat q)"
      using m by (auto simp: mirror_def)
    with Some have "seal_entry root_id e entries index = Inr (?entry (Some (word_of_nat q)))"
      by (simp add: seal_entry_def len ok_or_def)
    moreover have "\<exists>q' < length es. pe_item_id ((es @ [e]) ! q') = p \<and> Some (word_of_nat q :: u32) = Some (word_of_nat q')"
      using q by (intro exI [of _ q]) (simp add: nth_append)
    with Some have "mirrors rid (es @ [e]) (length es) (?entry (Some (word_of_nat q)))"
      by (simp add: mirrors_def root)
    ultimately show thesis by (rule that)
  qed
qed

lemma mirror_snoc:
  assumes m: "mirror rid es entries index" and entry: "mirrors rid (es @ [e]) (length es) entry"
    and fresh: "pe_item_id e \<notin> pe_item_id ` set es"
  shows "mirror rid (es @ [e]) (entries @ [entry]) (index(pe_item_id e \<mapsto> word_of_nat (length entries)))"
proof -
  have len: "length entries = length es"
    using m by (simp add: mirror_def)
  have new: "pe_item_id (es ! i) \<noteq> pe_item_id e" if "i < length es" for i
    using fresh that by (metis imageI nth_mem)
  have old: "index item = Some w \<longleftrightarrow> (\<exists>i < length es. pe_item_id (es ! i) = item \<and> w = word_of_nat i)" for item w
    using m by (simp add: mirror_def)
  have "(index(pe_item_id e \<mapsto> word_of_nat (length entries))) item = Some w
      \<longleftrightarrow> (\<exists>i < Suc (length es). pe_item_id ((es @ [e]) ! i) = item \<and> w = word_of_nat i)" for item w
  proof (cases "item = pe_item_id e")
    case True
    then show ?thesis
      using new by (auto simp: len less_Suc_eq nth_append)
  next
    case False
    then show ?thesis
      by (auto simp: old less_Suc_eq nth_append)
  qed
  moreover have "mirrors rid (es @ [e]) i ((entries @ [entry]) ! i)" if "i < Suc (length es)" for i
    using that m entry by (auto simp: mirror_def less_Suc_eq nth_append mirrors_append len)
  ultimately show ?thesis
    by (simp add: mirror_def len)
qed

lemma seal_entries_mirror:
  assumes "mirror rid es entries index" and "\<forall>f \<in> set fs. rid (pe_root_item_id f) = root_id"
    and "parents_earlier (es @ fs)" and "distinct (map pe_item_id (es @ fs))"
  obtains entries' index' where "seal_entries root_id fs entries index = Inr (entries', index')"
    and "mirror rid (es @ fs) entries' index'"
  using assms
proof (induction fs arbitrary: es entries index thesis)
  case Nil
  then show ?case by simp
next
  case (Cons f fs)
  have parents: "parents_earlier (es @ [f])"
    using Cons.prems(4) parents_earlier_append [of "es @ [f]" fs] by simp
  obtain entry where entry: "seal_entry root_id f entries index = Inr entry" "mirrors rid (es @ [f]) (length es) entry"
  proof (rule seal_entry_mirror [OF Cons.prems(2)])
    show "p \<in> pe_item_id ` set es" if "pe_parent_item_id f = Some p" for p
      using parents that by (auto simp: parents_earlier_def dest: spec [of _ "length es"])
  qed (use Cons.prems(3) in auto)
  have "mirror rid (es @ [f]) (entries @ [entry]) (index(pe_item_id f \<mapsto> word_of_nat (length entries)))"
    using Cons.prems(5) by (intro mirror_snoc [OF Cons.prems(2) entry(2)]) auto
  then show ?case
  proof (rule Cons.IH [rotated])
    fix entries' index'
    assume "seal_entries root_id fs (entries @ [entry]) (index(pe_item_id f \<mapsto> word_of_nat (length entries))) = Inr (entries', index')"
      "mirror rid ((es @ [f]) @ fs) entries' index'"
    then show thesis
      using entry(1) by (intro Cons.prems(1)) simp_all
  qed (use Cons.prems in simp_all)
qed

abbreviation listings :: "PreparedInventoryEntry list \<Rightarrow> SourceSelection list \<Rightarrow> PreparedInventoryEntry list list" where
  "listings inventory ss \<equiv> map (\<lambda>s. root_listing inventory (sl_root_item_id s)) ss"

definition sealed_root :: "nat \<Rightarrow> nat \<Rightarrow> SourceSelection \<Rightarrow> ManifestRootV2" where
  "sealed_root k start s =
     \<lparr>mr_root_id = word_of_nat k, mr_root_entry_id = word_of_nat start,
      mr_requested_name = sl_requested_name s, mr_completeness = sl_completeness s\<rparr>"

lemma seal_roots_mirror:
  assumes "mirror rid es entries index"
    and "\<forall>i < length ss. rid (sl_root_item_id (ss ! i)) = word_of_nat (k + i)"
    and "parents_earlier (es @ concat (listings inventory ss))"
    and "distinct (map pe_item_id (es @ concat (listings inventory ss)))"
  obtains roots' entries' index' where "seal_roots inventory k ss roots entries index = Inr (roots @ roots', entries')"
    and "mirror rid (es @ concat (listings inventory ss)) entries' index'"
    and "length roots' = length ss"
    and "\<forall>i < length ss. roots' ! i =
      sealed_root (k + i) (length es + length (concat (listings inventory (take i ss)))) (ss ! i)"
  using assms
proof (induction ss arbitrary: k es roots entries index thesis)
  case Nil
  then show ?case by simp
next
  case (Cons s ss)
  let ?fs = "root_listing inventory (sl_root_item_id s)"
  have len: "length entries = length es"
    using Cons.prems(2) by (simp add: mirror_def)
  obtain entries1 index1 where seal: "seal_entries (word_of_nat k) ?fs entries index = Inr (entries1, index1)"
      "mirror rid (es @ ?fs) entries1 index1"
  proof (rule seal_entries_mirror [OF Cons.prems(2)])
    show "\<forall>f \<in> set ?fs. rid (pe_root_item_id f) = word_of_nat k"
      using Cons.prems(3) by auto
    show "parents_earlier (es @ ?fs)"
      using Cons.prems(4) parents_earlier_append [of "es @ ?fs" "concat (listings inventory ss)"] by simp
    show "distinct (map pe_item_id (es @ ?fs))"
      using Cons.prems(5) by auto
  qed blast
  have suffix: "\<forall>i < length ss. rid (sl_root_item_id (ss ! i)) = word_of_nat (Suc k + i)"
    using Cons.prems(3) by fastforce
  have "parents_earlier ((es @ ?fs) @ concat (listings inventory ss))"
      "distinct (map pe_item_id ((es @ ?fs) @ concat (listings inventory ss)))"
    using Cons.prems(4,5) by simp_all
  from Cons.IH [OF _ seal(2) suffix this, of "roots @ [sealed_root k (length es) s]"]
  obtain roots1 entries2 index2 where rest:
      "seal_roots inventory (Suc k) ss (roots @ [sealed_root k (length es) s]) entries1 index1
         = Inr ((roots @ [sealed_root k (length es) s]) @ roots1, entries2)"
      "mirror rid ((es @ ?fs) @ concat (listings inventory ss)) entries2 index2" "length roots1 = length ss"
      "\<forall>i < length ss. roots1 ! i = sealed_root (Suc k + i) (length (es @ ?fs) + length (concat (listings inventory (take i ss)))) (ss ! i)"
    by blast
  show ?case
  proof (rule Cons.prems(1) [of "sealed_root k (length es) s # roots1" entries2 index2])
    show "seal_roots inventory k (s # ss) roots entries index = Inr (roots @ sealed_root k (length es) s # roots1, entries2)"
      using seal(1) rest(1) by (simp add: sealed_root_def len)
    show "\<forall>i < length (s # ss). (sealed_root k (length es) s # roots1) ! i
        = sealed_root (k + i) (length es + length (concat (listings inventory (take i (s # ss))))) ((s # ss) ! i)"
    proof (intro allI impI)
      fix i assume "i < length (s # ss)"
      then show "(sealed_root k (length es) s # roots1) ! i
          = sealed_root (k + i) (length es + length (concat (listings inventory (take i (s # ss))))) ((s # ss) ! i)"
        using rest(4) by (cases i) (simp_all add: add.assoc)
    qed
  qed (use rest in simp_all)
qed

end
