(* ===== verification/Job_Forest.thy ===== *)
theory Job_Forest
  imports Job_Manifest
begin

text \<open>
  A job ready to send, listed root by root: \<open>forest\<close> collects what the sealed listing satisfies, read
  by position.
\<close>

section \<open>Positions of a concatenation\<close>

abbreviation offset :: "'a list list \<Rightarrow> nat \<Rightarrow> nat" where
  "offset xss k \<equiv> length (concat (take k xss))"

lemma offset_Suc: "k < length xss \<Longrightarrow> offset xss (Suc k) = offset xss k + length (xss ! k)"
  by (simp add: take_Suc_conv_app_nth)

lemma offset_mono: "k \<le> k' \<Longrightarrow> offset xss k \<le> offset xss k'"
proof (induction k' rule: dec_induct)
  case (step n)
  then show ?case by (cases "n < length xss") (simp_all add: offset_Suc)
qed simp

lemma nth_concat_offset:
  assumes "k < length xss" and "i < length (xss ! k)"
  shows "concat xss ! (offset xss k + i) = xss ! k ! i" "offset xss k + i < length (concat xss)"
proof -
  have "concat xss = concat (take k xss) @ xss ! k @ concat (drop (Suc k) xss)"
    using assms(1) by (metis concat.simps(2) concat_append id_take_nth_drop)
  then show "concat xss ! (offset xss k + i) = xss ! k ! i" "offset xss k + i < length (concat xss)"
    using assms(2) by (simp_all add: nth_append)
qed

lemma concat_position:
  assumes "n < length (concat xss)"
  obtains k i where "k < length xss" "i < length (xss ! k)" "n = offset xss k + i"
  using assms
proof (induction xss arbitrary: n thesis)
  case (Cons xs xss)
  show ?case
  proof (cases "n < length xs")
    case True
    then show ?thesis by (intro Cons.prems(1) [of 0 n]) simp_all
  next
    case False
    with Cons.prems(2) have "n - length xs < length (concat xss)" by simp
    then obtain k i where "k < length xss" "i < length (xss ! k)" "n - length xs = offset xss k + i"
      using Cons.IH by blast
    with False show ?thesis by (intro Cons.prems(1) [of "Suc k" i]) simp_all
  qed
qed simp

lemma position_le:
  assumes "offset xss k + i < offset xss k' + i'" and "k' < length xss" "i' < length (xss ! k')"
  shows "k < k' \<or> k = k' \<and> i < i'"
proof (rule ccontr)
  assume less: "\<not> ?thesis"
  with assms(1) have "k' < k" by (cases "k = k'") auto
  then have "offset xss (Suc k') \<le> offset xss k" by (intro offset_mono) simp
  with assms show False by (simp add: offset_Suc)
qed

lemma position_unique:
  assumes "k < length xss" "i < length (xss ! k)" "k' < length xss" "i' < length (xss ! k')"
    and "offset xss k + i = offset xss k' + i'"
  shows "k = k'"
proof (rule ccontr)
  assume "k \<noteq> k'"
  then consider "offset xss (Suc k) \<le> offset xss k'" | "offset xss (Suc k') \<le> offset xss k"
    using offset_mono [of "Suc k" k' xss] offset_mono [of "Suc k'" k xss] by linarith
  then show False
    using assms by cases (simp_all add: offset_Suc)
qed

section \<open>The listing of a ready job\<close>

definition forest ::
  "JobLibs \<Rightarrow> SourceSelection list \<Rightarrow> PreparedInventoryEntry list \<Rightarrow> (nat \<Rightarrow> nat) \<Rightarrow> (nat \<Rightarrow> nat) \<Rightarrow> bool" where
  "forest lb ss es root_at start \<longleftrightarrow>
     (\<forall>k < length ss. start k < length es \<and> root_at (start k) = k \<and> pe_relative_components (es ! start k) = [])
     \<and> (\<forall>n < length es. root_at n < length ss \<and> pe_root_item_id (es ! n) = sl_root_item_id (ss ! root_at n)
         \<and> entry_fine lb (es ! n)
         \<and> (pe_relative_components (es ! n) = [] \<longrightarrow> n = start (root_at n) \<and> pe_parent_item_id (es ! n) = None
              \<and> pe_name (es ! n) = sl_requested_name (ss ! root_at n))
         \<and> (pe_relative_components (es ! n) \<noteq> [] \<longrightarrow> pe_name (es ! n) = last (pe_relative_components (es ! n))
              \<and> (\<exists>q < n. root_at q = root_at n \<and> is_parent (es ! q) (pe_parent_item_id (es ! n)) (pe_relative_components (es ! n))))
         \<and> (\<forall>q < n. root_at q \<le> root_at n
              \<and> (root_at q = root_at n \<longrightarrow> pe_relative_components (es ! q) < pe_relative_components (es ! n))))"

text \<open>One selection: the listing of its root, not empty.\<close>

lemma listing_first:
  assumes "listing_ok lb root name es" and "es \<noteq> []"
  shows "pe_relative_components (es ! 0) = []"
  using assms by (auto simp: listing_ok_def place_ok_def split: if_splits dest!: spec [of _ 0])

lemma listing_less:
  "listing_ok lb root name es \<Longrightarrow> i < k \<Longrightarrow> k < length es
     \<Longrightarrow> pe_relative_components (es ! i) < pe_relative_components (es ! k)"
  by (auto simp: listing_ok_def sorted_wrt_iff_nth_less)

lemma listing_nth:
  assumes ok: "listing_ok lb root name es" and i: "i < length es"
  shows "pe_root_item_id (es ! i) = root" and "entry_fine lb (es ! i)"
    and "pe_relative_components (es ! i) = [] \<Longrightarrow>
      i = 0 \<and> pe_parent_item_id (es ! i) = None \<and> pe_name (es ! i) = name"
    and "pe_relative_components (es ! i) \<noteq> [] \<Longrightarrow> pe_name (es ! i) = last (pe_relative_components (es ! i))
      \<and> (\<exists>q < i. is_parent (es ! q) (pe_parent_item_id (es ! i)) (pe_relative_components (es ! i)))"
proof -
  show "pe_root_item_id (es ! i) = root" "entry_fine lb (es ! i)"
    using assms by (simp_all add: listing_ok_def)
  have place: "place_ok name (take i es) (es ! i)"
    using assms by (simp add: listing_ok_def)
  show "i = 0 \<and> pe_parent_item_id (es ! i) = None \<and> pe_name (es ! i) = name"
    if none: "pe_relative_components (es ! i) = []"
  proof -
    have "\<not> 0 < i"
      using listing_less [OF ok _ i, of 0] none by auto
    then show ?thesis using place none by (simp add: place_ok_def)
  qed
  show "pe_name (es ! i) = last (pe_relative_components (es ! i))
      \<and> (\<exists>q < i. is_parent (es ! q) (pe_parent_item_id (es ! i)) (pe_relative_components (es ! i)))"
    if rel: "pe_relative_components (es ! i) \<noteq> []"
  proof -
    obtain d where d: "d \<in> set (take i es)" "is_parent d (pe_parent_item_id (es ! i)) (pe_relative_components (es ! i))"
      and name: "pe_name (es ! i) = last (pe_relative_components (es ! i))"
      using place rel by (auto simp: place_ok_def)
    from d(1) obtain q where "q < i" "d = es ! q"
      using i by (auto simp: in_set_conv_nth)
    with d(2) name show ?thesis by blast
  qed
qed

lemma listings_forest:
  assumes ok: "\<And>k. k < length ss \<Longrightarrow>
      listing_ok lb (sl_root_item_id (ss ! k)) (sl_requested_name (ss ! k)) (listings inventory ss ! k)
      \<and> listings inventory ss ! k \<noteq> []"
  obtains root_at where "forest lb ss (concat (listings inventory ss)) root_at (offset (listings inventory ss))"
proof -
  let ?xss = "listings inventory ss"
  let ?es = "concat ?xss"
  define root_at where "root_at n = (THE k. \<exists>i. k < length ?xss \<and> i < length (?xss ! k) \<and> n = offset ?xss k + i)" for n
  have len: "length ?xss = length ss" by simp
  have root_at: "root_at (offset ?xss k + i) = k" if "k < length ss" "i < length (?xss ! k)" for k i
    unfolding root_at_def
  proof (rule the_equality)
    show "\<exists>i'. k < length ?xss \<and> i' < length (?xss ! k) \<and> offset ?xss k + i = offset ?xss k + i'"
      using that len by auto
    show "k' = k" if "\<exists>i'. k' < length ?xss \<and> i' < length (?xss ! k') \<and> offset ?xss k + i = offset ?xss k' + i'" for k'
      using that position_unique [of k ?xss i k'] \<open>k < length ss\<close> \<open>i < length (?xss ! k)\<close> len by auto
  qed
  have "forest lb ss ?es root_at (offset ?xss)"
    unfolding forest_def
  proof (intro conjI allI impI)
    fix k assume k: "k < length ss"
    with ok [OF k] have pos: "0 < length (?xss ! k)" by simp
    show "offset ?xss k < length ?es" "root_at (offset ?xss k) = k"
      using nth_concat_offset(2) [of k ?xss 0] root_at [OF k pos] k pos by (simp_all add: len)
    show "pe_relative_components (?es ! offset ?xss k) = []"
      using nth_concat_offset(1) [of k ?xss 0] listing_first ok [OF k] k pos by (metis add_0_right len)
  next
    fix n assume "n < length ?es"
    then obtain k i where pos: "k < length ss" "i < length (?xss ! k)" and n: "n = offset ?xss k + i"
      by (rule concat_position) simp
    have nth: "?es ! n = ?xss ! k ! i"
      using nth_concat_offset(1) [of k ?xss i] pos by (simp only: n len)
    have g: "root_at n = k"
      using root_at [OF pos] n by simp
    note listing = conjunct1 [OF ok [OF pos(1)]]
    note at = listing_nth [OF listing pos(2)]
    show "root_at n < length ss" "pe_root_item_id (?es ! n) = sl_root_item_id (ss ! root_at n)" "entry_fine lb (?es ! n)"
      using pos(1) at(1,2) by (simp_all only: nth g)
    show "n = offset ?xss (root_at n)" "pe_parent_item_id (?es ! n) = None" "pe_name (?es ! n) = sl_requested_name (ss ! root_at n)"
      if "pe_relative_components (?es ! n) = []"
      using at(3) that unfolding nth g by (auto simp: n)
    show "pe_name (?es ! n) = last (pe_relative_components (?es ! n))" if "pe_relative_components (?es ! n) \<noteq> []"
      using at(4) that unfolding nth by blast
    show "\<exists>q < n. root_at q = root_at n \<and> is_parent (?es ! q) (pe_parent_item_id (?es ! n)) (pe_relative_components (?es ! n))"
      if "pe_relative_components (?es ! n) \<noteq> []"
    proof -
      obtain q where q: "q < i" "is_parent (?xss ! k ! q) (pe_parent_item_id (?xss ! k ! i)) (pe_relative_components (?xss ! k ! i))"
        using at(4) \<open>pe_relative_components (?es ! n) \<noteq> []\<close> unfolding nth by blast
      have q': "q < length (?xss ! k)" using q(1) pos(2) by simp
      have "?es ! (offset ?xss k + q) = ?xss ! k ! q"
        using nth_concat_offset(1) [of k ?xss q] pos q' by (simp only: len)
      moreover have "offset ?xss k + q < n" using q(1) n by simp
      ultimately show ?thesis
        using q(2) root_at [OF pos(1) q'] by (intro exI [of _ "offset ?xss k + q"]) (simp only: nth g simp_thms)
    qed
    fix q assume "q < n"
    with \<open>n < length ?es\<close> have "q < length ?es" by simp
    then obtain k' i' where pos': "k' < length ss" "i' < length (?xss ! k')" and q: "q = offset ?xss k' + i'"
      by (rule concat_position) simp
    have g': "root_at q = k'" and nth': "?es ! q = ?xss ! k' ! i'"
      using root_at [OF pos'] nth_concat_offset(1) [of k' ?xss i'] pos' by (simp_all only: q len)
    have before: "k' < k \<or> k' = k \<and> i' < i"
      using position_le [of k' ?xss i' k i] \<open>q < n\<close> pos by (simp only: n q len)
    then show "root_at q \<le> root_at n" by (auto simp: g g')
    show "pe_relative_components (?es ! q) < pe_relative_components (?es ! n)" if "root_at q = root_at n"
      using before that listing_less [OF listing _ pos(2)] unfolding g g' nth nth' by auto
  qed
  then show thesis by (rule that)
qed

lemma forest_parent_unique:
  assumes "forest lb ss es root_at start" and "distinct (map pe_item_id es)"
    and "n < length es" and "q < length es" and "pe_parent_item_id (es ! n) = Some (pe_item_id (es ! q))"
  shows "q < n" "root_at q = root_at n" "pe_kind (es ! q) = Directory"
    "pe_relative_components (es ! n) = pe_relative_components (es ! q) @ [pe_name (es ! n)]"
proof -
  have rel: "pe_relative_components (es ! n) \<noteq> []"
    using assms(1,3,5) by (auto simp: forest_def)
  with assms(1,3) obtain q' where q': "q' < n" "root_at q' = root_at n"
      "is_parent (es ! q') (pe_parent_item_id (es ! n)) (pe_relative_components (es ! n))"
    and name: "pe_name (es ! n) = last (pe_relative_components (es ! n))"
    unfolding forest_def by blast
  have "q' = q"
    using q' assms(2-5) nth_eq_iff_index_eq [of "map pe_item_id es" q' q] by (simp add: is_parent_def)
  then show "q < n" "root_at q = root_at n" "pe_kind (es ! q) = Directory"
      "pe_relative_components (es ! n) = pe_relative_components (es ! q) @ [pe_name (es ! n)]"
    using q' name rel by (simp_all add: is_parent_def)
qed

end
