(* ===== verification/Job_Ready.thy ===== *)
theory Job_Ready
  imports Job_Forest Manifest_Offer
begin

text \<open>
  Sealing succeeds: the manifest of a job that is ready to send is acceptable when its paths and its
  total size fit the wire format, and \<open>seal_for_send\<close> then stores it.
\<close>

section \<open>The forest of the entries\<close>

text \<open>What \<open>seal_roots\<close> leaves: entries and roots that mirror a forest of the inventory.\<close>

definition sealed_forest ::
  "JobLibs \<Rightarrow> SourceSelection list \<Rightarrow> PreparedInventoryEntry list \<Rightarrow> (nat \<Rightarrow> nat) \<Rightarrow> (nat \<Rightarrow> nat)
     \<Rightarrow> ManifestRootV2 list \<Rightarrow> ManifestEntryV2 list \<Rightarrow> bool" where
  "sealed_forest lb ss es root_at start roots entries \<longleftrightarrow>
     forest lb ss es root_at start \<and> distinct (map pe_item_id es)
     \<and> length es < 2 ^ 32 \<and> length ss < 2 ^ 32
     \<and> length entries = length es \<and> length roots = length ss
     \<and> (\<forall>k < length ss. roots ! k = sealed_root k (start k) (ss ! k))
     \<and> (\<exists>rid. (\<forall>k < length ss. rid (sl_root_item_id (ss ! k)) = word_of_nat k)
          \<and> (\<forall>n < length es. mirrors rid es n (entries ! n)))"

lemma sealed_entry:
  assumes "sealed_forest lb ss es root_at start roots entries" and "n < length es"
  shows "me_entry_id (entries ! n) = word_of_nat n" "unat (me_root_id (entries ! n)) = root_at n"
    "me_component (entries ! n) = pe_name (es ! n)" "me_kind (entries ! n) = pe_kind (es ! n)"
    "me_plaintext_size (entries ! n) = pe_plaintext_size (es ! n)"
    "me_content_digest (entries ! n) = (case pe_digest (es ! n) of Some d \<Rightarrow> Known d | None \<Rightarrow> Deferred)"
    "pe_relative_components (es ! n) = [] \<Longrightarrow> me_parent_entry_id (entries ! n) = None"
    "pe_relative_components (es ! n) \<noteq> [] \<Longrightarrow> \<exists>p. me_parent_entry_id (entries ! n) = Some p \<and> unat p < n
       \<and> root_at (unat p) = root_at n \<and> pe_kind (es ! unat p) = Directory
       \<and> pe_relative_components (es ! n) = pe_relative_components (es ! unat p) @ [pe_name (es ! n)]"
proof -
  obtain rid where rid: "\<forall>k < length ss. rid (sl_root_item_id (ss ! k)) = word_of_nat k"
      and m: "mirrors rid es n (entries ! n)"
    using assms unfolding sealed_forest_def by blast
  have f: "forest lb ss es root_at start" "distinct (map pe_item_id es)" "length es < 2 ^ 32" "length ss < 2 ^ 32"
    using assms(1) by (simp_all add: sealed_forest_def)
  have at: "root_at n < length ss" "pe_root_item_id (es ! n) = sl_root_item_id (ss ! root_at n)"
    using f(1) assms(2) by (simp_all add: forest_def)
  show "me_entry_id (entries ! n) = word_of_nat n" "me_component (entries ! n) = pe_name (es ! n)"
      "me_kind (entries ! n) = pe_kind (es ! n)" "me_plaintext_size (entries ! n) = pe_plaintext_size (es ! n)"
      "me_content_digest (entries ! n) = (case pe_digest (es ! n) of Some d \<Rightarrow> Known d | None \<Rightarrow> Deferred)"
    using m by (simp_all only: mirrors_def)
  have "me_root_id (entries ! n) = word_of_nat (root_at n)"
    using m rid at by (simp add: mirrors_def)
  then show "unat (me_root_id (entries ! n)) = root_at n"
    using at(1) f(4) by (simp add: unat_word_of_nat_small)
  show "me_parent_entry_id (entries ! n) = None" if "pe_relative_components (es ! n) = []"
    using that m f(1) assms(2) by (simp add: mirrors_def forest_def)
  show "\<exists>p. me_parent_entry_id (entries ! n) = Some p \<and> unat p < n
       \<and> root_at (unat p) = root_at n \<and> pe_kind (es ! unat p) = Directory
       \<and> pe_relative_components (es ! n) = pe_relative_components (es ! unat p) @ [pe_name (es ! n)]"
    if rel: "pe_relative_components (es ! n) \<noteq> []"
  proof -
    obtain item where item: "pe_parent_item_id (es ! n) = Some item"
      using f(1) assms(2) rel unfolding forest_def is_parent_def by blast
    with m obtain q where q: "q < n" "pe_item_id (es ! q) = item" "me_parent_entry_id (entries ! n) = Some (word_of_nat q)"
      by (auto simp: mirrors_def)
    have "unat (word_of_nat q :: u32) = q"
      using q(1) assms(2) f(3) by (simp add: unat_word_of_nat_small)
    then show ?thesis
      using q forest_parent_unique [OF f(1,2) assms(2), of q] item assms(2)
      by (intro exI [of _ "word_of_nat q"]) simp
  qed
qed

lemma sealed_path:
  assumes s: "sealed_forest lb ss es root_at start roots entries"
  shows "n < length es \<Longrightarrow> entry_path entries n = pe_relative_components (es ! n)"
proof (induction n rule: less_induct)
  case (less n)
  note e = sealed_entry [OF s less.prems]
  show ?case
  proof (cases "pe_relative_components (es ! n) = []")
    case True
    then show ?thesis using e(7) by simp
  next
    case False
    then obtain p where p: "me_parent_entry_id (entries ! n) = Some p" "unat p < n"
        "pe_relative_components (es ! n) = pe_relative_components (es ! unat p) @ [pe_name (es ! n)]"
      using e(8) by blast
    then show ?thesis
      using less.IH [of "unat p"] less.prems e(3) by simp
  qed
qed

lemma sealed_laid_out:
  assumes s: "sealed_forest lb ss es root_at start roots entries"
  shows "laid_out entries"
  unfolding laid_out_def
proof (intro conjI allI impI)
  have len: "length entries = length es" and f: "forest lb ss es root_at start"
    using s by (simp_all add: sealed_forest_def)
  {
    fix i p
    assume "i < length entries" and p: "me_parent_entry_id (entries ! i) = Some p"
    then have i: "i < length es" using len by simp
    have "pe_relative_components (es ! i) \<noteq> []"
      using sealed_entry(7) [OF s i] p by auto
    with sealed_entry(8) [OF s i] p have at: "unat p < i" "root_at (unat p) = root_at i" by auto
    then have "unat p < length es" using i by simp
    with at show "unat p < i" "me_root_id (entries ! unat p) = me_root_id (entries ! i)"
      using sealed_entry(2) [OF s] i by (metis word_unat_eq_iff)+
  }
  fix j i
  assume j: "j < length entries" and i: "i < j" and same: "me_root_id (entries ! i) = me_root_id (entries ! j)"
  then have bounds: "j < length es" "i < length es" using len by simp_all
  then have "root_at i = root_at j"
    using same sealed_entry(2) [OF s] by metis
  then show "entry_path entries i < entry_path entries j"
    using f bounds i sealed_path [OF s] by (simp add: forest_def)
qed

lemma sealed_order_canonical:
  assumes s: "sealed_forest lb ss es root_at start (mf_roots m) (mf_entries m)"
  shows "forest_order m = [0..<length (mf_entries m)]"
proof (rule forest_order_laid_out [OF sealed_laid_out [OF s]])
  have f: "forest lb ss es root_at start" and len: "length (mf_entries m) = length es" "length (mf_roots m) = length ss"
    and roots: "\<And>k. k < length ss \<Longrightarrow> mf_roots m ! k = sealed_root k (start k) (ss ! k)" and small: "length es < 2 ^ 32"
    using s by (simp_all add: sealed_forest_def)
  show "unat (me_root_id (mf_entries m ! i)) \<le> unat (me_root_id (mf_entries m ! j))"
    if "i < j" "j < length (mf_entries m)" for i j
    using that f len sealed_entry(2) [OF s, of i] sealed_entry(2) [OF s, of j] by (simp add: forest_def)
  show "unat (me_root_id (mf_entries m ! i)) < length (mf_roots m)" if "i < length (mf_entries m)" for i
    using that f len sealed_entry(2) [OF s, of i] by (simp add: forest_def)
  fix k assume "k < length (mf_roots m)"
  then have k: "k < length ss" using len by simp
  then have at: "start k < length es" "root_at (start k) = k" "pe_relative_components (es ! start k) = []"
    using f by (simp_all add: forest_def)
  moreover have "unat (mr_root_entry_id (mf_roots m ! k)) = start k"
    using at(1) small by (simp add: roots [OF k] sealed_root_def unat_word_of_nat_small)
  ultimately show "unat (mr_root_entry_id (mf_roots m ! k)) < length (mf_entries m)
      \<and> unat (me_root_id (mf_entries m ! unat (mr_root_entry_id (mf_roots m ! k)))) = k
      \<and> entry_path (mf_entries m) (unat (mr_root_entry_id (mf_roots m ! k))) = []"
    using sealed_entry(2) [OF s at(1)] sealed_path [OF s at(1)] len by simp
qed

text \<open>Siblings have different names: their paths differ.\<close>

lemma sealed_siblings:
  assumes s: "sealed_forest lb ss es root_at start roots entries"
  shows "distinct (map sibling_key entries)"
  unfolding distinct_conv_nth
proof (intro allI impI)
  fix i j
  assume bounds: "i < length (map sibling_key entries)" "j < length (map sibling_key entries)" "i \<noteq> j"
  have path: "entry_path entries n =
      (case me_parent_entry_id (entries ! n) of None \<Rightarrow> [] | Some p \<Rightarrow> entry_path entries (unat p) @ [me_component (entries ! n)])"
    if "n < length entries" for n
    using laid_out_parent(3) [OF sealed_laid_out [OF s] that] by (auto split: option.split)
  show "map sibling_key entries ! i \<noteq> map sibling_key entries ! j"
  proof
    assume "map sibling_key entries ! i = map sibling_key entries ! j"
    with bounds have same: "me_root_id (entries ! i) = me_root_id (entries ! j)"
        "me_parent_entry_id (entries ! i) = me_parent_entry_id (entries ! j)" "me_component (entries ! i) = me_component (entries ! j)"
      by (simp_all add: sibling_key_def)
    then have "entry_path entries i = entry_path entries j"
      using path [of i] path [of j] bounds by (cases "me_parent_entry_id (entries ! j)") simp_all
    then show False
      using laid_out_inj [OF sealed_laid_out [OF s] _ _ same(1)] bounds by simp
  qed
qed

section \<open>An acceptable manifest\<close>

lemma sealed_root_ok:
  assumes s: "sealed_forest lb ss es root_at start (mf_roots m) (mf_entries m)" and k: "k < length (mf_roots m)"
    and sel: "job_validate_component lb (sl_requested_name (ss ! k)) = Inr ()"
      "\<forall>omitted. sl_completeness (ss ! k) \<noteq> UserApprovedPartial 0 omitted"
  shows "root_ok (jl_nfc lb) (length (mf_entries m)) k (mf_roots m ! k)"
proof -
  have "k < length ss" "start k < length es" "length es < 2 ^ 32" "length (mf_entries m) = length es"
      "mf_roots m ! k = sealed_root k (start k) (ss ! k)"
    using s k by (simp_all add: sealed_forest_def forest_def)
  then show ?thesis
    using sel by (simp add: root_ok_def sealed_root_def unat_word_of_nat_small)
qed

lemma sealed_entry_ok:
  assumes s: "sealed_forest lb ss es root_at start (mf_roots m) (mf_entries m)" and n: "n < length (mf_entries m)"
    and cost: "path_cost (pe_relative_components (es ! n)) \<le> MAX_MANIFEST_V2_PATH_BYTES"
  shows "entry_ok (jl_nfc lb) m n"
proof -
  have n': "n < length es" and f: "forest lb ss es root_at start" and len: "length (mf_roots m) = length ss"
    and roots: "\<And>k. k < length ss \<Longrightarrow> mf_roots m ! k = sealed_root k (start k) (ss ! k)"
    using s n by (simp_all add: sealed_forest_def)
  note e = sealed_entry [OF s n']
  have at: "root_at n < length ss" "entry_fine lb (es ! n)"
    using f n' by (simp_all add: forest_def)
  have parent: "case me_parent_entry_id (mf_entries m ! n) of
        None \<Rightarrow> mr_root_entry_id (mf_roots m ! root_at n) = me_entry_id (mf_entries m ! n)
          \<and> mr_requested_name (mf_roots m ! root_at n) = me_component (mf_entries m ! n)
      | Some p \<Rightarrow> unat p < n \<and> me_root_id (mf_entries m ! unat p) = me_root_id (mf_entries m ! n)
          \<and> me_kind (mf_entries m ! unat p) = Directory"
  proof (cases "pe_relative_components (es ! n) = []")
    case True
    then have "n = start (root_at n)" "pe_name (es ! n) = sl_requested_name (ss ! root_at n)"
      using f n' unfolding forest_def by blast+
    then show ?thesis
      using e(1,3) e(7) [OF True] roots [OF at(1)] by (simp add: sealed_root_def)
  next
    case False
    then obtain p where p: "me_parent_entry_id (mf_entries m ! n) = Some p" "unat p < n" "root_at (unat p) = root_at n"
        "pe_kind (es ! unat p) = Directory"
      using e(8) by blast
    then have "unat p < length es" using n' by simp
    with p sealed_entry(2,4) [OF s this] e(2) show ?thesis
      by (simp add: word_unat_eq_iff)
  qed
  have "pe_kind (es ! n) = Directory \<Longrightarrow> pe_plaintext_size (es ! n) = 0 \<and> pe_digest (es ! n) = None"
    using at(2) by (simp add: entry_fine_def)
  then show ?thesis
    using at cost parent [folded e(2)] e(1-6) sealed_path [OF s n'] len
    by (simp add: entry_ok_def Let_def entry_fine_def)
qed

section \<open>The totals\<close>

lemma saturating_add_fits: "unat a + unat b < 2 ^ LENGTH('a) \<Longrightarrow> unat (saturating_add a (b :: 'a::len word)) = unat a + unat b"
proof -
  assume fits: "unat a + unat b < 2 ^ LENGTH('a)"
  then obtain c where "checked_add a b = Some c"
    by (simp add: checked_add_def)
  moreover from this have "unat c = unat a + unat b"
    by (simp add: checked_add_Some_iff)
  ultimately show ?thesis
    by (simp add: saturating_add_def)
qed

definition inventory_files :: "PreparedInventoryEntry list \<Rightarrow> nat" where
  "inventory_files es = length (filter (\<lambda>e. pe_kind e = RegularFile) es)"

definition inventory_dirs :: "PreparedInventoryEntry list \<Rightarrow> nat" where
  "inventory_dirs es = length (filter (\<lambda>e. pe_kind e = Directory) es)"

definition inventory_bytes :: "PreparedInventoryEntry list \<Rightarrow> nat" where
  "inventory_bytes es = (\<Sum>e \<leftarrow> filter (\<lambda>e. pe_kind e = RegularFile) es. unat (pe_plaintext_size e))"

lemmas inventory_tally = inventory_files_def inventory_dirs_def inventory_bytes_def

lemma summarize_counts:
  assumes "unat (iv_file_count s) + inventory_files es < 2 ^ 32"
    and "unat (iv_directory_count s) + inventory_dirs es < 2 ^ 32"
    and "unat (iv_total_plaintext_bytes s) + inventory_bytes es < 2 ^ 64"
  shows "unat (iv_file_count (summarize es s)) = unat (iv_file_count s) + inventory_files es
    \<and> unat (iv_directory_count (summarize es s)) = unat (iv_directory_count s) + inventory_dirs es
    \<and> unat (iv_total_plaintext_bytes (summarize es s)) = unat (iv_total_plaintext_bytes s) + inventory_bytes es"
  using assms
proof (induction es arbitrary: s)
  case (Cons e es)
  show ?case
  proof (cases "pe_kind e")
    case RegularFile
    have "unat (saturating_add (iv_file_count s) 1) = unat (iv_file_count s) + 1"
        "unat (saturating_add (iv_total_plaintext_bytes s) (pe_plaintext_size e))
          = unat (iv_total_plaintext_bytes s) + unat (pe_plaintext_size e)"
      using Cons.prems RegularFile by (simp_all add: saturating_add_fits inventory_tally)
    with Cons RegularFile show ?thesis by (simp add: inventory_tally)
  next
    case Directory
    have "unat (saturating_add (iv_directory_count s) 1) = unat (iv_directory_count s) + 1"
      using Cons.prems Directory by (simp add: saturating_add_fits inventory_tally)
    with Cons Directory show ?thesis by (simp add: inventory_tally)
  qed
qed (simp add: inventory_tally)

text \<open>The listings of all roots hold every entry once.\<close>

lemma mset_listings:
  assumes "distinct (map sl_root_item_id ss)"
  shows "mset (concat (listings inventory ss)) = filter_mset (\<lambda>e. pe_root_item_id e \<in> sl_root_item_id ` set ss) (mset inventory)"
  using assms
proof (induction ss)
  case (Cons s ss)
  have "filter_mset (\<lambda>e. pe_root_item_id e = sl_root_item_id s \<or> pe_root_item_id e \<in> sl_root_item_id ` set ss) M
      = filter_mset (\<lambda>e. pe_root_item_id e = sl_root_item_id s) M
        + filter_mset (\<lambda>e. pe_root_item_id e \<in> sl_root_item_id ` set ss) M"
    for M :: "PreparedInventoryEntry multiset"
    using Cons.prems by (intro multiset_eqI) (auto simp: image_iff)
  with Cons show ?case by (simp add: mset_filter)
qed simp

lemma inventory_tally_mset:
  assumes "mset es = mset es'"
  shows "inventory_files es = inventory_files es'" "inventory_dirs es = inventory_dirs es'"
    "inventory_bytes es = inventory_bytes es'"
proof -
  have same: "mset (filter P es) = mset (filter P es')" for P
    using assms by (simp add: mset_filter)
  show "inventory_files es = inventory_files es'" "inventory_dirs es = inventory_dirs es'"
    unfolding inventory_tally by (rule mset_eq_length [OF same])+
  have "mset (map f (filter P es)) = mset (map f (filter P es'))" for f :: "PreparedInventoryEntry \<Rightarrow> nat" and P
    using same by simp
  then show "inventory_bytes es = inventory_bytes es'"
    unfolding inventory_bytes_def by (metis sum_mset_sum_list)
qed

lemma entries_tally:
  assumes "seal_matches m j"
  shows "length (files_in (mf_entries m)) = inventory_files (sealed_order j)"
    "length (dirs_in (mf_entries m)) = inventory_dirs (sealed_order j)"
    "plain_sum (mf_entries m) = inventory_bytes (sealed_order j)"
proof -
  let ?f = "\<lambda>e. (me_component e, me_kind e, me_plaintext_size e)"
  let ?g = "\<lambda>e. (pe_name e, pe_kind e, pe_plaintext_size e)"
  have eq: "map ?f (mf_entries m) = map ?g (sealed_order j)"
    using assms by (simp only: seal_matches_def)
  have filtered: "map ?f (filter (\<lambda>e. me_kind e = k) (mf_entries m)) = map ?g (filter (\<lambda>e. pe_kind e = k) (sealed_order j))" for k
    using arg_cong [OF eq, of "filter (\<lambda>t. fst (snd t) = k)"] by (simp add: filter_map comp_def)
  show "length (files_in (mf_entries m)) = inventory_files (sealed_order j)"
      "length (dirs_in (mf_entries m)) = inventory_dirs (sealed_order j)"
    using arg_cong [OF filtered [of RegularFile], of length] arg_cong [OF filtered [of Directory], of length]
    by (simp_all add: files_in_def dirs_in_def inventory_tally)
  show "plain_sum (mf_entries m) = inventory_bytes (sealed_order j)"
    using arg_cong [OF filtered [of RegularFile], of "\<lambda>ts. sum_list (map (\<lambda>t. unat (snd (snd t))) ts)"]
    by (simp add: plain_sum_def files_in_def inventory_tally comp_def)
qed

section \<open>Sealing a ready job\<close>

lemma ready_sources:
  assumes inv: "job_inv careful lb j" and ready: "tj_lifecycle j = ReadyToSend"
  shows "tj_selections j \<noteq> []" and "length (tj_selections j) \<le> MAX_MANIFEST_V2_ROOTS"
    and "distinct (map sl_root_item_id (tj_selections j))"
    and "length (tj_inventory j) \<le> MAX_MANIFEST_V2_ENTRIES" and "distinct (map pe_item_id (tj_inventory j))"
    and "pe_root_item_id ` set (tj_inventory j) \<subseteq> sl_root_item_id ` set (tj_selections j)"
    and "s \<in> set (tj_selections j) \<Longrightarrow> sl_state s = Ready \<and> component_ok (jl_nfc lb) (sl_requested_name s)
      \<and> selection_ok lb (tj_inventory j) (tj_next_issue_id j) s"
proof -
  have life: "expected_lifecycle (tj_selections j) = ReadyToSend"
    using inv ready by (simp add: job_inv_def phase_ok_def)
  then show "tj_selections j \<noteq> []"
    by (auto simp: expected_lifecycle_def split: if_splits)
  have core: "selections_ok careful lb {} j" "inventory_ok j"
    using inv by (simp_all add: job_inv_def core_on_def)
  then show "length (tj_selections j) \<le> MAX_MANIFEST_V2_ROOTS" "distinct (map sl_root_item_id (tj_selections j))"
      "length (tj_inventory j) \<le> MAX_MANIFEST_V2_ENTRIES" "distinct (map pe_item_id (tj_inventory j))"
      "pe_root_item_id ` set (tj_inventory j) \<subseteq> sl_root_item_id ` set (tj_selections j)"
    by (simp_all add: selections_ok_def inventory_ok_def)
  show "sl_state s = Ready \<and> component_ok (jl_nfc lb) (sl_requested_name s)
      \<and> selection_ok lb (tj_inventory j) (tj_next_issue_id j) s" if "s \<in> set (tj_selections j)"
    using core(1) that life by (auto simp: selections_ok_def expected_lifecycle_def list_all_iff split: if_splits)
qed

lemma mset_sealed_order:
  assumes "job_inv careful lb j" and "tj_lifecycle j = ReadyToSend"
  shows "mset (sealed_order j) = mset (tj_inventory j)"
proof -
  note r = ready_sources [OF assms]
  have "filter_mset (\<lambda>e. pe_root_item_id e \<in> sl_root_item_id ` set (tj_selections j)) (mset (tj_inventory j)) = mset (tj_inventory j)"
    using r(6) by (auto simp: filter_mset_eq_conv)
  then show ?thesis
    using mset_listings [OF r(3), of "tj_inventory j"] by (simp only: sealed_order_def)
qed

lemma ready_forest:
  assumes "job_inv careful lb j" and "tj_lifecycle j = ReadyToSend"
  obtains root_at start where "forest lb (tj_selections j) (sealed_order j) root_at start"
    and "\<And>k. k < length (tj_selections j) \<Longrightarrow> start k = length (concat (listings (tj_inventory j) (take k (tj_selections j))))"
proof -
  note r = ready_sources [OF assms]
  let ?ss = "tj_selections j" and ?inv = "tj_inventory j"
  obtain root_at where "forest lb ?ss (concat (listings ?inv ?ss)) root_at (offset (listings ?inv ?ss))"
  proof (rule listings_forest)
    fix k assume k: "k < length ?ss"
    then show "listing_ok lb (sl_root_item_id (?ss ! k)) (sl_requested_name (?ss ! k)) (listings ?inv ?ss ! k)
        \<and> listings ?inv ?ss ! k \<noteq> []"
      using r(7) [OF nth_mem [OF k]] by (simp add: selection_ok_def)
  qed
  then show thesis
    by (rule that [unfolded sealed_order_def]) (simp add: take_map)
qed

lemma parents_earlier_forest: "forest lb ss es root_at start \<Longrightarrow> parents_earlier es"
  unfolding parents_earlier_def
proof (intro allI impI)
  fix i p
  assume f: "forest lb ss es root_at start" and i: "i < length es" and p: "pe_parent_item_id (es ! i) = Some p"
  then have "pe_relative_components (es ! i) \<noteq> []"
    by (auto simp: forest_def)
  with f i p obtain q where q: "q < i" "pe_item_id (es ! q) = p"
    unfolding forest_def is_parent_def by (metis option.inject)
  then show "p \<in> pe_item_id ` set (take i es)"
    using i by (auto simp: in_set_conv_nth intro!: rev_image_eqI [of "es ! q"] exI [of _ q])
qed

lemma ready_sealed_forest:
  assumes "job_inv careful lb j" and "tj_lifecycle j = ReadyToSend"
  obtains roots entries root_at start where
    "seal_roots (tj_inventory j) 0 (tj_selections j) [] [] Map.empty = Inr (roots, entries)"
    and "sealed_forest lb (tj_selections j) (sealed_order j) root_at start roots entries"
proof -
  note r = ready_sources [OF assms]
  let ?ss = "tj_selections j" and ?inv = "tj_inventory j"
  let ?key = "\<lambda>k. sl_root_item_id (?ss ! k)"
  obtain root_at start where f: "forest lb ?ss (sealed_order j) root_at start"
      and start: "\<And>k. k < length ?ss \<Longrightarrow> start k = length (concat (listings ?inv (take k ?ss)))"
    using ready_forest [OF assms] by blast
  have order: "sealed_order j = [] @ concat (listings ?inv ?ss)"
    by (simp add: sealed_order_def)
  have ids: "distinct (map pe_item_id (sealed_order j))"
    using r(5) mset_eq_imp_distinct_iff [of "map pe_item_id (sealed_order j)" "map pe_item_id ?inv"]
      mset_sealed_order [OF assms] by simp
  have len: "length (sealed_order j) = length ?inv"
    using mset_eq_length [OF mset_sealed_order [OF assms]] .
  have inj: "inj_on ?key {..<length ?ss}"
    using r(3) by (auto simp: inj_on_def distinct_conv_nth)
  define rid :: "SourceItemId \<Rightarrow> u32" where "rid x = word_of_nat (the_inv_into {..<length ?ss} ?key x)" for x
  have rid: "\<forall>k < length ?ss. rid (?key k) = word_of_nat (0 + k)"
    using the_inv_into_f_f [OF inj] by (simp add: rid_def)
  have m: "mirror rid [] [] Map.empty" by (simp add: mirror_def)
  obtain roots entries index where seal: "seal_roots ?inv 0 ?ss [] [] Map.empty = Inr ([] @ roots, entries)"
      "mirror rid ([] @ concat (listings ?inv ?ss)) entries index" "length roots = length ?ss"
      "\<forall>i < length ?ss. roots ! i = sealed_root (0 + i) (length ([] :: PreparedInventoryEntry list) + length (concat (listings ?inv (take i ?ss)))) (?ss ! i)"
    using seal_roots_mirror [OF m rid, of ?inv "[]"] parents_earlier_forest [OF f] ids unfolding order by blast
  have "sealed_forest lb ?ss (sealed_order j) root_at start roots entries"
    unfolding sealed_forest_def
  proof (intro conjI exI [of _ rid])
    show "length (sealed_order j) < 2 ^ 32" "length ?ss < 2 ^ 32"
      using r(2,4) len by (simp_all add: manifest_limits)
    show "length entries = length (sealed_order j)" "\<forall>n < length (sealed_order j). mirrors rid (sealed_order j) n (entries ! n)"
      using seal(2) unfolding order mirror_def by blast+
  qed (use f ids seal(3,4) rid start in auto)
  with seal(1) show thesis by (intro that) simp_all
qed

text \<open>What must fit: the paths with a separator after every component, the bytes in 64 bits.\<close>

definition inventory_fits :: "CanonicalTransferJob \<Rightarrow> bool" where
  "inventory_fits j \<longleftrightarrow>
     (\<forall>e \<in> set (tj_inventory j). path_cost (pe_relative_components e) \<le> MAX_MANIFEST_V2_PATH_BYTES)
     \<and> inventory_bytes (tj_inventory j) < 2 ^ 64"

lemma ready_totals:
  assumes "job_inv careful lb j" and "tj_lifecycle j = ReadyToSend" and "inventory_bytes (tj_inventory j) < 2 ^ 64"
    and "job_manifest j = Inr m"
  shows "totals_ok m"
proof -
  let ?inv = "tj_inventory j"
  have "inventory_files ?inv \<le> length ?inv" "inventory_dirs ?inv \<le> length ?inv"
    by (simp_all add: inventory_tally)
  then have small: "inventory_files ?inv < 2 ^ 32" "inventory_dirs ?inv < 2 ^ 32"
    using ready_sources(4) [OF assms(1,2)] by (simp_all add: manifest_limits)
  have counts: "unat (iv_file_count (inventory_summary j)) = inventory_files ?inv
      \<and> unat (iv_directory_count (inventory_summary j)) = inventory_dirs ?inv
      \<and> unat (iv_total_plaintext_bytes (inventory_summary j)) = inventory_bytes ?inv"
    unfolding inventory_summary_def
    using small assms(3) by (simp add: summarize_counts)
  note same = inventory_tally_mset [OF mset_sealed_order [OF assms(1,2)]]
  show ?thesis
    using counts entries_tally [OF job_manifest_facts(1) [OF assms(4)]] same assms(4)
    by (auto simp: totals_ok_def job_manifest_def Let_def)
qed

lemma ready_manifest_ok:
  assumes inv: "job_inv careful lb j" and ready: "tj_lifecycle j = ReadyToSend" and fits: "inventory_fits j"
  obtains m where "job_manifest j = Inr m" and "manifest_ok (jl_nfc lb) m"
proof -
  note r = ready_sources [OF inv ready]
  let ?ss = "tj_selections j"
  obtain roots entries root_at start where seal: "seal_roots (tj_inventory j) 0 ?ss [] [] Map.empty = Inr (roots, entries)"
      and forest: "sealed_forest lb ?ss (sealed_order j) root_at start roots entries"
    using ready_sealed_forest [OF inv ready] by blast
  then obtain m where m: "job_manifest j = Inr m" and parts: "mf_roots m = roots" "mf_entries m = entries"
    by (auto simp: job_manifest_def Let_def)
  note s = forest [folded parts]
  have len: "length (mf_entries m) = length (sealed_order j)" "length (mf_roots m) = length ?ss"
      "length (sealed_order j) = length (tj_inventory j)"
    using s mset_eq_length [OF mset_sealed_order [OF inv ready]] by (simp_all add: sealed_forest_def)
  have start: "start k < length (sealed_order j)" "root_at (start k) = k" "mf_roots m ! k = sealed_root k (start k) (?ss ! k)"
    if "k < length ?ss" for k
    using s that by (simp_all add: sealed_forest_def forest_def)
  have header: "header_ok m"
    using job_manifest_facts [OF m] r(1,2,4) len start(1) [of 0] inv
    by (auto simp: header_ok_def job_inv_def core_on_def identity_ok_def)
  have roots: "root_ok (jl_nfc lb) (length (mf_entries m)) k (mf_roots m ! k)" if k: "k < length (mf_roots m)" for k
  proof (rule sealed_root_ok [OF s k])
    have "?ss ! k \<in> set ?ss" using k len by simp
    from r(7) [OF this] show "job_validate_component lb (sl_requested_name (?ss ! k)) = Inr ()"
        "\<forall>omitted. sl_completeness (?ss ! k) \<noteq> UserApprovedPartial 0 omitted"
      by (simp_all add: selection_ok_def)
  qed
  have entries: "entry_ok (jl_nfc lb) m n" if n: "n < length (mf_entries m)" for n
  proof (rule sealed_entry_ok [OF s n])
    have "sealed_order j ! n \<in> set (tj_inventory j)"
      using n len mset_eq_setD [OF mset_sealed_order [OF inv ready]] nth_mem by metis
    then show "path_cost (pe_relative_components (sealed_order j ! n)) \<le> MAX_MANIFEST_V2_PATH_BYTES"
      using fits by (simp add: inventory_fits_def)
  qed
  have "distinct (map mr_root_entry_id (mf_roots m))"
    unfolding distinct_conv_nth
  proof (intro allI impI)
    fix a b
    assume ab: "a < length (map mr_root_entry_id (mf_roots m))" "b < length (map mr_root_entry_id (mf_roots m))" "a \<noteq> b"
    then have bounds: "a < length ?ss" "b < length ?ss" using len by simp_all
    have "unat (mr_root_entry_id (mf_roots m ! k)) = start k" if "k < length ?ss" for k
      using start(1,3) [OF that] len r(4) by (simp add: sealed_root_def unat_word_of_nat_small manifest_limits)
    then have "mr_root_entry_id (mf_roots m ! a) \<noteq> mr_root_entry_id (mf_roots m ! b)"
      using start(2) bounds ab(3) by metis
    then show "map mr_root_entry_id (mf_roots m) ! a \<noteq> map mr_root_entry_id (mf_roots m) ! b"
      using ab by simp
  qed
  then have "manifest_ok (jl_nfc lb) m"
    using header roots entries sealed_siblings [OF s] sealed_order_canonical [OF s]
      ready_totals [OF inv ready _ m] fits by (simp add: manifest_ok_def inventory_fits_def)
  with m show thesis by (rule that)
qed

lemma seal_manifest_stores:
  assumes "manifest_ok (jl_nfc lb) m"
    and "OFFER_HEADER_BYTES + (DIGEST_BYTES + length (encode_manifest_body m)) \<le> MAX_MANIFEST_V2_ENCODED_BYTES"
  shows "seal_manifest lb m = Inr \<lparr>sj_manifest = m, sj_structural_digest = jl_hash lb (encode_manifest_body m),
    sj_offer_bytes = offer_bytes (jl_hash lb) m\<rparr>"
proof -
  have "encode_manifest_offer_v2 (jl_hash lb) (jl_nfc lb) m = Inr (offer_bytes (jl_hash lb) m)"
    using assms by (simp add: encode_offer_Inr_iff)
  then show ?thesis
    using assms by (simp add: seal_manifest_def build_manifest_offer_v2_def validate_Inr_iff Let_def)
qed

lemma seal_for_send_ready:
  assumes inv: "job_inv careful lb j" and ready: "tj_lifecycle j = ReadyToSend" and m: "job_manifest j = Inr m"
    and sealed: "seal_manifest lb m = Inr sealed"
  shows "seal_for_send lb os j = (Inr (sj_manifest sealed),
    j\<lparr>tj_sealed := Some sealed, tj_lifecycle := Sealed, tj_updated_unix_ms := max (os_now os) (tj_updated_unix_ms j)\<rparr>)"
proof -
  have life: "expected_lifecycle (tj_selections j) = ReadyToSend"
    using inv ready by (simp add: job_inv_def phase_ok_def)
  then have "refresh_lifecycle j = j"
    using ready by (simp add: refresh_lifecycle_def)
  then show ?thesis
    using ready m sealed
    by (simp add: seal_for_send_def bindO_def checkO_def modifyO_def returnO_def ensure_mutable_def)
qed

end
