(* ===== verification/Job_Sample.thy ===== *)
theory Job_Sample
  imports Job_Ready
begin

text \<open>
  A concrete run for the witnesses: a job for the directory \<open>/d\<close> with one file \<open>f\<close> of five bytes,
  through adding, preparing and sealing.
\<close>

definition sample_libs :: JobLibs where
  "sample_libs = \<lparr>jl_hash = (\<lambda>bs. u64_to_be (word_of_nat (length bs)) @ replicate 24 0),
     jl_nfc = (\<lambda>_. True), jl_to_nfc = (\<lambda>c. c)\<rparr>"

definition sample_os :: JobOs where
  "sample_os =
     \<lparr>os_now = 7,
      os_symlink_metadata = (\<lambda>p. Inr (if p = ascii ''/d'' then \<lparr>md_kind = FK_Dir, md_len = 0, md_modified = None\<rparr>
                                       else \<lparr>md_kind = FK_File, md_len = 5, md_modified = None\<rparr>)),
      os_metadata = (\<lambda>_. Inl Io_NotFound), os_canonicalize = Inr,
      os_read_dir = (\<lambda>_. Inr [Inr (ascii ''f'')]), os_read = (\<lambda>_. Inr [1, 2, 3, 4, 5]), os_set_order = (\<lambda>cs. cs)\<rparr>"

lemma sample_libs_sels [simp]:
  "jl_hash sample_libs bs = u64_to_be (word_of_nat (length bs)) @ replicate 24 0"
  "jl_nfc sample_libs c" "jl_to_nfc sample_libs c = c"
  by (simp_all add: sample_libs_def)

lemma sample_os_sels [simp]:
  "os_now sample_os = 7"
  "os_symlink_metadata sample_os p = Inr (if p = ascii ''/d'' then \<lparr>md_kind = FK_Dir, md_len = 0, md_modified = None\<rparr>
                                       else \<lparr>md_kind = FK_File, md_len = 5, md_modified = None\<rparr>)"
  "os_canonicalize sample_os p = Inr p" "os_read_dir sample_os p = Inr [Inr (ascii ''f'')]"
  "os_read sample_os p = Inr [1, 2, 3, 4, 5]"
  by (simp_all add: sample_os_def)

definition sample_new :: CanonicalTransferJob where
  "sample_new =
     \<lparr>tj_schema_version = 1, tj_job_id = replicate 16 1, tj_created_unix_ms = 7, tj_updated_unix_ms = 7,
      tj_selection_revision = 1, tj_generation = 1, tj_lifecycle = Preparing, tj_compression_policy = Smart,
      tj_next_source_item_id = 1, tj_next_issue_id = 1, tj_selections = [], tj_inventory = [],
      tj_source_bindings = [], tj_cleanup_pending = [], tj_sealed = None\<rparr>"

definition sample_selection :: SourceSelection where
  "sample_selection =
     \<lparr>sl_root_item_id = 1, sl_selection_order = 0, sl_requested_name = ascii ''d'', sl_path = ascii ''/d'',
      sl_canonical_path = Some (ascii ''/d''), sl_is_directory_hint = Some True, sl_origin = Filesystem,
      sl_job_owned_staging = False, sl_state = Pending, sl_root_inventory_item_id = None,
      sl_completeness = Complete, sl_issues = []\<rparr>"

definition sample_added :: CanonicalTransferJob where
  "sample_added = sample_new\<lparr>tj_selection_revision := 2, tj_next_source_item_id := 2, tj_selections := [sample_selection]\<rparr>"

lemma sample_start: "job_start sample_new"
proof -
  have "job_new (Some (replicate 16 1)) 7 Smart = Inr sample_new"
    by (simp add: job_new_def sample_new_def TRANSFER_JOB_SCHEMA_VERSION_def FIRST_SELECTION_REVISION_def
        FIRST_GENERATION_def FIRST_SOURCE_ITEM_ID_def)
  then show ?thesis unfolding job_start_def by blast
qed

lemmas sample_ops = bindO_def checkO_def modifyO_def returnO_def ensure_mutable_def

lemmas sample_text = ascii_def of_char_def utf8_valid_def component_ok_def manifest_limits chars_def is_control_def

lemma sample_names:
  "length (ascii ''/d'') = 2" "length (ascii ''/d/f'') = 4" "length (ascii ''d'') = 1" "length (ascii ''f'') = 1"
  "ascii ''/d/f'' \<noteq> ascii ''/d''"
  by (simp_all add: ascii_def)

lemma sample_component: "c \<in> {ascii ''d'', ascii ''f''} \<Longrightarrow> job_validate_component sample_libs c = Inr ()"
  by (auto simp: sample_text)

lemma sample_source_name: "source_name sample_libs (ascii ''/d'') = Inr (ascii ''d'')"
  by (simp add: source_name_def file_name_def path_components_def sample_text Let_def)

lemma sample_add:
  "add_local_path sample_libs sample_os (ascii ''/d'') sample_new
     = (Inr \<lparr>ar_root_item_id = 1, ar_folded_into_existing_selection = False, ar_removed_covered_roots = []\<rparr>, sample_added)"
  by (simp add: add_local_path_def sample_source_name sample_ops add_local_source_def place_source_def probe_source_def
      sample_component canonical_component_def insert_source_def allocate_source_item_id_def remove_covered_def
      initial_issues_def push_selection_def new_selection_def commit_change_def bump_revision_def refresh_lifecycle_def
      reindex_selections_def retain_roots_def retain_current_bindings_def expected_lifecycle_def
      sample_new_def sample_added_def sample_selection_def checked_add_def manifest_limits)

text \<open>A second source, the file \<open>/e\<close>.\<close>

definition sample_two :: CanonicalTransferJob where
  "sample_two = sample_added\<lparr>tj_selection_revision := 3, tj_next_source_item_id := 3,
     tj_selections := [sample_selection, sample_selection\<lparr>sl_root_item_id := 2, sl_selection_order := 1,
       sl_requested_name := ascii ''e'', sl_path := ascii ''/e'', sl_canonical_path := Some (ascii ''/e''),
       sl_is_directory_hint := Some False\<rparr>]\<rparr>"

lemma sample_apart: "\<not> path_eq (ascii ''/d'') (ascii ''/e'')" "\<not> starts_with (ascii ''/e'') (ascii ''/d'')" "ascii ''/e'' \<noteq> ascii ''/d''"
  by (simp_all add: path_eq_def starts_with_def path_components_def ascii_def of_char_def Let_def)

lemma sample_add_second:
  "add_local_path sample_libs sample_os (ascii ''/e'') sample_added
     = (Inr \<lparr>ar_root_item_id = 2, ar_folded_into_existing_selection = False, ar_removed_covered_roots = []\<rparr>, sample_two)"
proof -
  have name: "source_name sample_libs (ascii ''/e'') = Inr (ascii ''e'')"
    by (simp add: source_name_def file_name_def path_components_def sample_text Let_def)
  have component: "job_validate_component sample_libs (ascii ''e'') = Inr ()"
    by (simp add: sample_text)
  show ?thesis
    by (simp add: add_local_path_def name component sample_ops add_local_source_def place_source_def probe_source_def
        canonical_component_def insert_source_def allocate_source_item_id_def remove_covered_def
        initial_issues_def push_selection_def new_selection_def commit_change_def bump_revision_def refresh_lifecycle_def
        reindex_selections_def expected_lifecycle_def selection_covers_def sample_apart
        sample_new_def sample_added_def sample_two_def sample_selection_def checked_add_def manifest_limits)
qed

definition sample_inventory :: "PreparedInventoryEntry list" where
  "sample_inventory =
     [\<lparr>pe_item_id = 0x8000000000000020, pe_root_item_id = 1, pe_parent_item_id = None, pe_relative_components = [],
       pe_name = ascii ''d'', pe_kind = Directory, pe_plaintext_size = 0, pe_modified_unix_nanos = None, pe_digest = None\<rparr>,
      \<lparr>pe_item_id = 0x8000000000000025, pe_root_item_id = 1, pe_parent_item_id = Some 0x8000000000000020,
       pe_relative_components = [ascii ''f''], pe_name = ascii ''f'', pe_kind = RegularFile, pe_plaintext_size = 5,
       pe_modified_unix_nanos = None, pe_digest = None\<rparr>]"

definition sample_bindings :: "(SourceItemId \<times> LocalSourceBinding) list" where
  "sample_bindings =
     [(0x8000000000000020, \<lparr>lb_path = ascii ''/d'', lb_origin = Filesystem, lb_job_owned_staging = False,
        lb_fingerprint = \<lparr>fp_plaintext_size = 0, fp_modified_unix_nanos = None,
                           fp_canonical_path_digest = u64_to_be 2 @ replicate 24 0\<rparr>\<rparr>),
      (0x8000000000000025, \<lparr>lb_path = ascii ''/d/f'', lb_origin = Filesystem, lb_job_owned_staging = False,
        lb_fingerprint = \<lparr>fp_plaintext_size = 5, fp_modified_unix_nanos = None,
                           fp_canonical_path_digest = u64_to_be 4 @ replicate 24 0\<rparr>\<rparr>)]"

definition sample_ready :: CanonicalTransferJob where
  "sample_ready = sample_added\<lparr>tj_selection_revision := 3, tj_lifecycle := ReadyToSend,
     tj_selections := [sample_selection\<lparr>sl_state := Ready, sl_root_inventory_item_id := Some 0x8000000000000020\<rparr>],
     tj_inventory := sample_inventory, tj_source_bindings := sample_bindings\<rparr>"

lemma sample_item_id:
  assumes "of_nat (32 + length (concat (map (\<lambda>c. u32_to_be (word_of_nat (length c)) @ c) components))) = (n :: u64)"
    and "or n DERIVED_ITEM_ID_MASK \<notin> occupied"
  shows "stable_inventory_item_id sample_libs (replicate 16 1) root components occupied = Some (or n DERIVED_ITEM_ID_MASK)"
proof -
  have "derived_item_id sample_libs (replicate 16 1) root components 0 = or n DERIVED_ITEM_ID_MASK"
    using assms(1) by (simp add: derived_item_id_def add.assoc)
  then show ?thesis
    using assms(2) by (simp add: stable_inventory_item_id_def while_option_unfold)
qed

lemma sample_ids: "or 32 DERIVED_ITEM_ID_MASK = 0x8000000000000020" "or 37 DERIVED_ITEM_ID_MASK = 0x8000000000000025"
  by (simp_all add: DERIVED_ITEM_ID_MASK_def)

lemma sample_root_id:
  "stable_inventory_item_id sample_libs (replicate 16 1) 1 [] {1} = Some 0x8000000000000020"
  using sample_item_id [of "[]" 32 "{1}" 1] by (simp add: sample_ids)

lemma sample_child_id:
  "stable_inventory_item_id sample_libs (replicate 16 1) 1 [ascii ''f''] {0x8000000000000020, 1} = Some 0x8000000000000025"
  using sample_item_id [of "[ascii ''f'']" 37 "{0x8000000000000020, 1}" 1] by (simp add: sample_ids ascii_def)

lemmas sample_fingerprint = fingerprint_def modified_unix_nanos_def logical_path_bytes_def

definition sample_visited :: EnumState where
  "sample_visited =
     \<lparr>eo_root_inventory_item_id = Some 0x8000000000000020, eo_entries = [hd sample_inventory],
      eo_bindings = [hd sample_bindings], eo_issues = [],
      es_pending = [(ascii ''/d/f'', [ascii ''f''], Some 0x8000000000000020)], es_occupied = {0x8000000000000020, 1}\<rparr>"

abbreviation sample_enumerating :: SourceSelection where
  "sample_enumerating \<equiv> sample_selection\<lparr>sl_state := Enumerating\<rparr>"

lemma sample_visit_root:
  "visit sample_libs sample_os sample_enumerating (replicate 16 1) (ascii ''/d'', [], None)
     \<lparr>eo_root_inventory_item_id = None, eo_entries = [], eo_bindings = [], eo_issues = [], es_pending = [], es_occupied = {1}\<rparr>
   = Some sample_visited"
proof -
  have join: "path_join (ascii ''/d'') (ascii ''f'') = ascii ''/d/f''"
    by (simp add: path_join_def ascii_def of_char_def)
  have utf8: "from_utf8 (ascii ''f'') = Some (ascii ''f'')"
    by (simp add: sample_text)
  have kids: "push_children sample_libs sample_os (ascii ''/d'') [] 0x8000000000000020 st
      = st\<lparr>es_pending := (ascii ''/d/f'', [ascii ''f''], Some 0x8000000000000020) # es_pending st\<rparr>" for st
    by (simp add: push_children_def utf8 sample_component canonical_component_def join Let_def remove_component_collisions_def)
  show ?thesis
    by (simp add: visit_def sample_selection_def sample_component sample_root_id list_item_def push_entry_def kids
        sample_visited_def sample_inventory_def sample_bindings_def sample_fingerprint sample_names Let_def)
qed

definition sample_done :: EnumState where
  "sample_done =
     \<lparr>eo_root_inventory_item_id = Some 0x8000000000000020, eo_entries = sample_inventory, eo_bindings = sample_bindings,
      eo_issues = [], es_pending = [], es_occupied = {0x8000000000000025, 0x8000000000000020, 1}\<rparr>"

lemma sample_visit_child:
  "visit sample_libs sample_os sample_enumerating (replicate 16 1) (ascii ''/d/f'', [ascii ''f''], Some 0x8000000000000020)
     (sample_visited\<lparr>es_pending := []\<rparr>) = Some sample_done"
  by (simp add: visit_def sample_selection_def sample_component sample_child_id list_item_def push_entry_def
      sample_visited_def sample_done_def sample_inventory_def sample_bindings_def sample_fingerprint sample_names
      manifest_limits Let_def)

lemma sample_enumerate:
  "enumerate_local_selection sample_libs sample_os sample_enumerating (replicate 16 1) {1} MAX_MANIFEST_V2_ENTRIES
     = Some (Inr \<lparr>eo_root_inventory_item_id = Some 0x8000000000000020, eo_entries = sample_inventory,
                 eo_bindings = sample_bindings, eo_issues = []\<rparr>)"
proof -
  have "enumerate_loop sample_libs sample_os sample_enumerating (replicate 16 1) MAX_MANIFEST_V2_ENTRIES sample_done = Some sample_done"
    by (subst enumerate_loop.simps) (simp add: sample_done_def)
  then have "enumerate_loop sample_libs sample_os sample_enumerating (replicate 16 1) MAX_MANIFEST_V2_ENTRIES sample_visited = Some sample_done"
    using sample_visit_child
    by (subst enumerate_loop.simps) (simp add: sample_visited_def manifest_limits)
  then show ?thesis
    using sample_visit_root
    by (simp add: enumerate_local_selection_def enumerate_loop.simps [of _ _ _ _ _ "\<lparr>eo_root_inventory_item_id = None, eo_entries = [],
          eo_bindings = [], eo_issues = [], es_pending = [(ascii ''/d'', [], None)], es_occupied = {1}\<rparr>"]
        sample_selection_def manifest_limits sample_done_def EnumerationOutcome.truncate_def)
qed

lemma sample_prepare:
  "prepare_selection sample_libs sample_os 1 sample_added = Some (Inr (), sample_ready)"
proof -
  have start: "prepare_guard 1 sample_added = Inr 0"
      "begin_preparation 1 0 sample_added = sample_added\<lparr>tj_selections := [sample_enumerating]\<rparr>"
    by (simp_all add: prepare_guard_def ensure_mutable_def selection_index_def position_def begin_preparation_def
        retain_roots_def retain_current_bindings_def refresh_lifecycle_def update_selection_def expected_lifecycle_def
        sample_added_def sample_new_def sample_selection_def Let_def)
  have "enumerate_for sample_libs sample_os 0 (sample_added\<lparr>tj_selections := [sample_enumerating]\<rparr>)
      = Some (Inr \<lparr>eo_root_inventory_item_id = Some 0x8000000000000020, eo_entries = sample_inventory,
                 eo_bindings = sample_bindings, eo_issues = []\<rparr>)"
    using sample_enumerate by (simp add: enumerate_for_def sample_added_def sample_new_def sample_selection_def)
  note outcome = this
  have "bindO (record_outcome 1 0 (Inr \<lparr>eo_root_inventory_item_id = Some 0x8000000000000020, eo_entries = sample_inventory,
        eo_bindings = sample_bindings, eo_issues = []\<rparr>)) (\<lambda>_. commit_change sample_os)
      (sample_added\<lparr>tj_selections := [sample_enumerating]\<rparr>) = (Inr (), sample_ready)"
    by (simp add: sample_ops record_outcome_def install_outcome_def
        extend_bindings_def update_selection_def commit_change_def bump_revision_def refresh_lifecycle_def
        expected_lifecycle_def sample_added_def sample_new_def sample_selection_def sample_ready_def checked_add_def
        sample_bindings_def)
  then show ?thesis
    by (simp add: prepare_selection_def start outcome)
qed

lemma sample_reached: "(job_step sample_libs)\<^sup>*\<^sup>* sample_new sample_ready"
proof (rule converse_rtranclp_into_rtranclp)
  show "job_step sample_libs sample_new sample_added"
    by (rule job_step_on.add_path [OF sample_add]) (simp_all add: path_fresh_def settled_def sample_new_def)
  have "job_step sample_libs sample_added sample_ready"
    by (rule job_step_on.prepare [OF sample_prepare]) (simp add: settled_def)
  then show "(job_step sample_libs)\<^sup>*\<^sup>* sample_added sample_ready" ..
qed

lemma sample_two_reached: "(job_step sample_libs)\<^sup>*\<^sup>* sample_new sample_two"
proof (rule converse_rtranclp_into_rtranclp)
  show "job_step sample_libs sample_new sample_added"
    by (rule job_step_on.add_path [OF sample_add]) (simp_all add: path_fresh_def settled_def sample_new_def)
  have "job_step sample_libs sample_added sample_two"
    by (rule job_step_on.add_path [OF sample_add_second])
      (simp_all add: path_fresh_def settled_def sample_added_def sample_new_def sample_selection_def)
  then show "(job_step sample_libs)\<^sup>*\<^sup>* sample_added sample_two" ..
qed

text \<open>
  A staged source is removed, which puts its file on the list of those to delete, and the same path is added again
  before the store has deleted it.
\<close>

definition sample_staged :: CanonicalTransferJob where
  "sample_staged = sample_added\<lparr>tj_selections := [sample_selection\<lparr>sl_origin := ShareStaging, sl_job_owned_staging := True\<rparr>]\<rparr>"

definition sample_removed :: CanonicalTransferJob where
  "sample_removed = sample_new\<lparr>tj_selection_revision := 3, tj_next_source_item_id := 2, tj_cleanup_pending := [ascii ''/d'']\<rparr>"

definition sample_readded :: CanonicalTransferJob where
  "sample_readded = sample_removed\<lparr>tj_selection_revision := 4, tj_next_source_item_id := 3,
     tj_selections := [sample_selection\<lparr>sl_root_item_id := 2\<rparr>]\<rparr>"

lemma sample_stage:
  "add_staged_source sample_libs sample_os (ascii ''/d'') (ascii ''d'') ShareStaging sample_new
     = (Inr \<lparr>ar_root_item_id = 1, ar_folded_into_existing_selection = False, ar_removed_covered_roots = []\<rparr>, sample_staged)"
  by (simp add: add_staged_source_def sample_ops add_local_source_def place_source_def probe_source_def
      sample_component canonical_component_def insert_source_def allocate_source_item_id_def remove_covered_def
      initial_issues_def push_selection_def new_selection_def commit_change_def bump_revision_def refresh_lifecycle_def
      reindex_selections_def retain_roots_def retain_current_bindings_def expected_lifecycle_def
      sample_new_def sample_staged_def sample_added_def sample_selection_def checked_add_def manifest_limits)

lemma sample_remove:
  "resolve_source_decision sample_os 1 RemoveSelection sample_staged = (Inr (Some (ascii ''/d'')), sample_removed)"
  by (simp add: resolve_source_decision_def sample_ops selection_index_def position_def decision_guard_def apply_decision_def
      remove_selection_def commit_change_def bump_revision_def refresh_lifecycle_def
      reindex_selections_def retain_roots_def retain_current_bindings_def expected_lifecycle_def
      sample_new_def sample_staged_def sample_added_def sample_removed_def sample_selection_def checked_add_def Let_def)

lemma sample_readd:
  "add_local_path sample_libs sample_os (ascii ''/d'') sample_removed
     = (Inr \<lparr>ar_root_item_id = 2, ar_folded_into_existing_selection = False, ar_removed_covered_roots = []\<rparr>, sample_readded)"
  by (simp add: add_local_path_def sample_source_name sample_ops add_local_source_def place_source_def probe_source_def
      sample_component canonical_component_def insert_source_def allocate_source_item_id_def remove_covered_def
      initial_issues_def push_selection_def new_selection_def commit_change_def bump_revision_def refresh_lifecycle_def
      reindex_selections_def retain_roots_def retain_current_bindings_def expected_lifecycle_def
      sample_new_def sample_removed_def sample_readded_def sample_selection_def checked_add_def manifest_limits)

lemma sample_readded_reached: "(job_step sample_libs)\<^sup>*\<^sup>* sample_new sample_readded"
proof -
  have "job_step sample_libs sample_new sample_staged"
    by (rule job_step_on.add_staged [OF sample_stage]) (simp_all add: path_fresh_def settled_def)
  moreover have "job_step sample_libs sample_staged sample_removed"
    by (rule job_step_on.decide [OF sample_remove]) (simp_all add: settled_def)
  moreover have "job_step sample_libs sample_removed sample_readded"
    by (rule job_step_on.add_path [OF sample_readd]) (simp_all add: path_fresh_def settled_def)
  ultimately show ?thesis by (meson converse_rtranclp_into_rtranclp rtranclp.rtrancl_refl)
qed

definition sample_job_manifest :: ManifestV2 where
  "sample_job_manifest =
     \<lparr>mf_job_id = replicate 16 1, mf_generation = 1, mf_selection_revision = 3, mf_compression_policy = Smart,
      mf_roots = [\<lparr>mr_root_id = 0, mr_root_entry_id = 0, mr_requested_name = ascii ''d'', mr_completeness = Complete\<rparr>],
      mf_entries =
        [\<lparr>me_entry_id = 0, me_root_id = 0, me_parent_entry_id = None, me_component = ascii ''d'', me_kind = Directory,
          me_plaintext_size = 0, me_content_digest = Deferred\<rparr>,
         \<lparr>me_entry_id = 1, me_root_id = 0, me_parent_entry_id = Some 0, me_component = ascii ''f'', me_kind = RegularFile,
          me_plaintext_size = 5, me_content_digest = Deferred\<rparr>],
      mf_totals = \<lparr>mt_file_count = 1, mt_directory_count = 1, mt_total_plaintext_bytes = 5\<rparr>\<rparr>"

lemma sample_job_manifest: "job_manifest sample_ready = Inr sample_job_manifest"
  by (simp add: job_manifest_def sample_ready_def sample_added_def sample_new_def sample_selection_def sample_inventory_def
      seal_entry_def inventory_summary_def saturating_add_def checked_add_def sample_job_manifest_def Let_def)

lemma sample_ready_inv: "job_inv False sample_libs sample_ready"
  using job.reachable_invariant [OF sample_start sample_reached] .

lemma sample_ready_fits: "tj_lifecycle sample_ready = ReadyToSend" "inventory_fits sample_ready"
  by (simp_all add: sample_ready_def inventory_fits_def inventory_bytes_def sample_inventory_def path_cost_def ascii_def
      manifest_limits)

lemma sample_job_size:
  "OFFER_HEADER_BYTES + (DIGEST_BYTES + length (encode_manifest_body sample_job_manifest)) \<le> MAX_MANIFEST_V2_ENCODED_BYTES"
  by (simp add: sample_job_manifest_def encode_manifest_body_def encode_root_def encode_completeness_def
      push_bytes_def encode_entry_def encode_totals_def encode_digest_def Let_def offer_consts ascii_def)

abbreviation sample_sealing :: SealedTransferJob where
  "sample_sealing \<equiv> \<lparr>sj_manifest = sample_job_manifest,
     sj_structural_digest = jl_hash sample_libs (encode_manifest_body sample_job_manifest),
     sj_offer_bytes = offer_bytes (jl_hash sample_libs) sample_job_manifest\<rparr>"

abbreviation sample_sealed :: CanonicalTransferJob where
  "sample_sealed \<equiv> sample_ready\<lparr>tj_sealed := Some sample_sealing, tj_lifecycle := Sealed, tj_updated_unix_ms := 7\<rparr>"

lemma sample_seal: "seal_for_send sample_libs sample_os sample_ready = (Inr sample_job_manifest, sample_sealed)"
proof -
  have "manifest_ok (jl_nfc sample_libs) sample_job_manifest"
    using ready_manifest_ok [OF sample_ready_inv sample_ready_fits] sample_job_manifest by auto
  then have "seal_manifest sample_libs sample_job_manifest = Inr sample_sealing"
    using sample_job_size by (rule seal_manifest_stores)
  from seal_for_send_ready [OF sample_ready_inv sample_ready_fits(1) sample_job_manifest this, of sample_os]
  show ?thesis by (simp add: sample_ready_def sample_added_def sample_new_def)
qed

lemma sample_sealed_reached: "(job_step sample_libs)\<^sup>*\<^sup>* sample_new sample_sealed"
  using sample_reached job_step_on.seal [OF sample_seal] by (auto simp: settled_def intro: rtranclp.rtrancl_into_rtrancl)

end
