(* ===== verification/Job_Revision.thy ===== *)
theory Job_Revision
  imports Job_System
begin

text \<open>
  The selection revision. Every operation either leaves the selections and the inventory
  alone, or it counts the revision up (\<open>moved\<close>); so a revision identifies what a page was read
  from. The one exception is hashing a file of a sealed job, which adds a digest under the same revision. \<open>quiet\<close> steps of an operation fail by an overflow only and leave the revision, \<open>bumps\<close>
  steps count it up, and the rules compose them along \<open>bindO\<close>. A sealed or cancelled job is left
  as it is by all operations but hashing and cancelling (\<open>guarded\<close>).
\<close>

section \<open>Listing and revision\<close>

definition item_place :: "PreparedInventoryEntry \<Rightarrow> SourceItemId \<times> SourceItemId \<times> SourceItemId option \<times> str list
     \<times> str \<times> ManifestEntryKindV2 \<times> u64" where
  "item_place e = (pe_item_id e, pe_root_item_id e, pe_parent_item_id e, pe_relative_components e, pe_name e, pe_kind e,
     pe_plaintext_size e)"

definition same_listing :: "CanonicalTransferJob \<Rightarrow> CanonicalTransferJob \<Rightarrow> bool" where
  "same_listing j j' \<longleftrightarrow> tj_selections j' = tj_selections j \<and> tj_source_bindings j' = tj_source_bindings j
     \<and> map item_place (tj_inventory j') = map item_place (tj_inventory j)"

definition moved :: "CanonicalTransferJob \<Rightarrow> CanonicalTransferJob \<Rightarrow> bool" where
  "moved j j' \<longleftrightarrow> same_listing j j' \<and> tj_selection_revision j' = tj_selection_revision j
         \<and> (tj_inventory j' = tj_inventory j \<or> tj_lifecycle j' = Sealed)
         \<and> (tj_lifecycle j = Sealed \<longrightarrow> tj_lifecycle j' = Sealed)
     \<or> unat (tj_selection_revision j) < unat (tj_selection_revision j')"

lemma same_listing_refl [simp]: "same_listing j j"
  by (simp add: same_listing_def)

lemma moved_refl [simp]: "moved j j"
  by (simp add: moved_def)

lemma moved_trans: "moved i j \<Longrightarrow> moved j k \<Longrightarrow> moved i k"
  by (auto simp: moved_def same_listing_def)

lemma moved_same: "moved j j' \<Longrightarrow> tj_selection_revision j' = tj_selection_revision j \<Longrightarrow> same_listing j j'"
  by (simp add: moved_def)

lemma moved_same_inventory:
  "moved j j' \<Longrightarrow> tj_selection_revision j' = tj_selection_revision j \<Longrightarrow> tj_lifecycle j' \<noteq> Sealed
     \<Longrightarrow> tj_inventory j' = tj_inventory j"
  by (simp add: moved_def)

lemma moved_mono: "moved j j' \<Longrightarrow> unat (tj_selection_revision j) \<le> unat (tj_selection_revision j')"
  by (auto simp: moved_def)

definition tracked :: "'a job_op \<Rightarrow> bool" where
  "tracked m \<longleftrightarrow> (\<forall>j. settled (fst (m j)) \<longrightarrow> moved j (snd (m j)))"

definition quiet :: "'a job_op \<Rightarrow> bool" where
  "quiet m \<longleftrightarrow> (\<forall>j. settled (fst (m j)) \<longrightarrow>
     (\<exists>a. fst (m j) = Inr a) \<and> tj_selection_revision (snd (m j)) = tj_selection_revision j)"

definition bumps :: "'a job_op \<Rightarrow> bool" where
  "bumps m \<longleftrightarrow> (\<forall>j. settled (fst (m j)) \<longrightarrow>
     (\<exists>a. fst (m j) = Inr a) \<and> unat (tj_selection_revision j) < unat (tj_selection_revision (snd (m j))))"

lemma settled_simps [simp]: "settled (Inr a)" "settled (Inl e) \<longleftrightarrow> \<not> overflow e"
  by (simp_all add: settled_def)

lemma bindO_cases:
  obtains (failed) e j1 where "m j = (Inl e, j1)" "bindO m f j = (Inl e, j1)"
  | (continued) a j1 where "m j = (Inr a, j1)" "bindO m f j = f a j1"
  by (cases "m j"; cases "fst (m j)") (auto simp: bindO_def)

text \<open>The three composition rules are one: the relations of the parts compose.\<close>

definition always :: "(u64 \<Rightarrow> u64 \<Rightarrow> bool) \<Rightarrow> 'a job_op \<Rightarrow> bool" where
  "always R m \<longleftrightarrow> (\<forall>j. settled (fst (m j)) \<longrightarrow>
     (\<exists>a. fst (m j) = Inr a) \<and> R (tj_selection_revision j) (tj_selection_revision (snd (m j))))"

lemma alwaysD:
  "always R m \<Longrightarrow> m j = (r, j') \<Longrightarrow> settled r
     \<Longrightarrow> (\<exists>a. r = Inr a) \<and> R (tj_selection_revision j) (tj_selection_revision j')"
  unfolding always_def by (metis fst_conv snd_conv)

lemma trackedD: "tracked m \<Longrightarrow> m j = (r, j') \<Longrightarrow> settled r \<Longrightarrow> moved j j'"
  unfolding tracked_def by (metis fst_conv snd_conv)

lemma always_bind:
  assumes m: "always R m" and f: "\<And>a. always S (f a)" and RS: "\<And>x y z. R x y \<Longrightarrow> S y z \<Longrightarrow> T x z"
  shows "always T (bindO m f)"
  unfolding always_def
proof (intro allI impI)
  fix j assume s: "settled (fst (bindO m f j))"
  show "(\<exists>a. fst (bindO m f j) = Inr a) \<and> T (tj_selection_revision j) (tj_selection_revision (snd (bindO m f j)))"
  proof (cases rule: bindO_cases [of m j f])
    case (failed e j1)
    then have "settled (Inl e)" using s by simp
    then show ?thesis using alwaysD [OF m failed(1)] by auto
  next
    case (continued a j1)
    have "R (tj_selection_revision j) (tj_selection_revision j1)"
      using alwaysD [OF m continued(1)] by simp
    moreover have "(\<exists>b. fst (f a j1) = Inr b) \<and> S (tj_selection_revision j1) (tj_selection_revision (snd (f a j1)))"
      using f [of a] s continued(2) unfolding always_def by simp
    ultimately show ?thesis using RS continued(2) by simp
  qed
qed

lemma quiet_always: "quiet m \<longleftrightarrow> always (\<lambda>x y. y = x) m"
  by (simp add: quiet_def always_def)

lemma bumps_always: "bumps m \<longleftrightarrow> always (\<lambda>x y. unat x < unat y) m"
  by (simp add: bumps_def always_def)

lemma quiet_bind: "quiet m \<Longrightarrow> (\<And>a. quiet (f a)) \<Longrightarrow> quiet (bindO m f)"
  unfolding quiet_always by (rule always_bind [where R = "\<lambda>x y. y = x" and S = "\<lambda>x y. y = x"]) simp_all

lemma quiet_then: "quiet m \<Longrightarrow> (\<And>a. bumps (f a)) \<Longrightarrow> bumps (bindO m f)"
  unfolding quiet_always bumps_always
  by (rule always_bind [where R = "\<lambda>x y. y = x" and S = "\<lambda>x y. unat x < unat y"]) simp_all

lemma bumps_then: "bumps m \<Longrightarrow> (\<And>a. quiet (f a)) \<Longrightarrow> bumps (bindO m f)"
  unfolding quiet_always bumps_always
  by (rule always_bind [where R = "\<lambda>x y. unat x < unat y" and S = "\<lambda>x y. y = x"]) simp_all

lemma tracked_bind:
  assumes m: "tracked m" and f: "\<And>a. tracked (f a)"
  shows "tracked (bindO m f)"
  unfolding tracked_def
proof (intro allI impI)
  fix j assume s: "settled (fst (bindO m f j))"
  show "moved j (snd (bindO m f j))"
  proof (cases rule: bindO_cases [of m j f])
    case (failed e j1)
    then have "settled (Inl e)" using s by simp
    then show ?thesis using trackedD [OF m failed(1)] failed(2) by simp
  next
    case (continued a j1)
    have "moved j j1"
      using trackedD [OF m continued(1)] by simp
    moreover have "moved j1 (snd (f a j1))"
      using f [of a] s continued(2) unfolding tracked_def by simp
    ultimately show ?thesis using moved_trans continued(2) by simp
  qed
qed

lemma bumps_tracked: "bumps m \<Longrightarrow> tracked m"
  by (auto simp: bumps_def tracked_def moved_def)

lemma tracked_check [simp]: "tracked (checkO f)"
  by (simp add: tracked_def checkO_def)

lemma tracked_return [simp]: "tracked (returnO a)"
  by (simp add: tracked_def returnO_def)

lemma quiet_return [simp]: "quiet (returnO a)"
  by (simp add: quiet_def returnO_def)

lemma quiet_modify: "(\<And>j. tj_selection_revision (f j) = tj_selection_revision j) \<Longrightarrow> quiet (modifyO f)"
  by (simp add: quiet_def modifyO_def)

section \<open>The parts of the operations\<close>

lemma bumps_bump_revision: "bumps (bump_revision os)"
  by (auto simp: bumps_def bump_revision_def dest: checked_add_nonzero split: option.split)

lemma revision_kept [simp]:
  "tj_selection_revision (refresh_lifecycle j) = tj_selection_revision j"
  "tj_selection_revision (reindex_selections j) = tj_selection_revision j"
  "tj_selection_revision (retain_roots keep j) = tj_selection_revision j"
  "tj_selection_revision (update_selection i f j) = tj_selection_revision j"
  "tj_selection_revision (push_selection s j) = tj_selection_revision j"
  "tj_selection_revision (extend_bindings bs j) = tj_selection_revision j"
  "tj_selection_revision (install_outcome i out issues j) = tj_selection_revision j"
  "tj_selection_revision (begin_preparation root i j) = tj_selection_revision j"
  by (simp_all add: refresh_lifecycle_def reindex_selections_def retain_roots_def retain_current_bindings_def
      update_selection_def push_selection_def extend_bindings_def install_outcome_def begin_preparation_def)

lemma bumps_commit [simp]: "bumps (commit_change os)"
  unfolding commit_change_def by (rule bumps_then [OF bumps_bump_revision]) (simp add: quiet_modify)

lemma quiet_issue [simp]: "quiet (issue root components kind)"
  by (auto simp: quiet_def issue_def split: option.split)

lemma quiet_allocate [simp]: "quiet allocate_source_item_id"
  by (auto simp: quiet_def allocate_source_item_id_def split: option.split)

lemma quiet_remove_covered [simp]: "quiet (remove_covered hint canonical)"
  by (auto simp: quiet_def remove_covered_def Let_def split: option.split bool.split)

lemma quiet_initial_issues [simp]: "quiet (initial_issues root initial)"
  by (cases initial) (auto simp: initial_issues_def intro!: quiet_bind)

lemma quiet_resolve_issues [simp]: "quiet (resolve_issues root ps)"
  by (induction root ps rule: resolve_issues.induct) (auto intro!: quiet_bind)

lemma quiet_record_outcome [simp]: "quiet (record_outcome root i outcome)"
  by (cases outcome) (auto simp: record_outcome_def intro!: quiet_bind quiet_modify)

section \<open>The operations\<close>

lemma bumps_insert_source: "bumps (insert_source os p name origin staging probe)"
  by (cases probe) (auto simp: insert_source_def intro!: quiet_then [OF quiet_allocate] quiet_then [OF quiet_remove_covered]
      quiet_then [OF quiet_initial_issues] quiet_then [OF quiet_modify] bumps_then [OF bumps_commit])

lemma tracked_place_source: "tracked (place_source os p name origin staging probe)"
  using bumps_tracked [OF bumps_insert_source]
  by (auto simp: tracked_def place_source_def Let_def split: prod.split option.split)

lemma tracked_add_local_source [simp]: "tracked (add_local_source lb os p name origin staging)"
  by (simp add: add_local_source_def tracked_bind tracked_place_source)

lemma tracked_add_local_path: "tracked (add_local_path lb os p)"
  by (simp add: add_local_path_def tracked_bind)

lemma tracked_add_staged_source: "tracked (add_staged_source lb os p name origin)"
  by (simp add: add_staged_source_def tracked_bind)

lemma moved_prepare_selection:
  assumes "prepare_selection lb os root j = Some r" and "settled (fst r)"
  shows "moved j (snd r)"
proof (cases "prepare_guard root j")
  case (Inl e)
  then show ?thesis using assms by (auto simp: prepare_selection_def)
next
  case (Inr i)
  let ?j = "begin_preparation root i j"
  from Inr assms(1) obtain outcome where r: "r = bindO (record_outcome root i outcome) (\<lambda>_. commit_change os) ?j"
    by (auto simp: prepare_selection_def Let_def)
  have "bumps (bindO (record_outcome root i outcome) (\<lambda>_. commit_change os))"
    by (simp add: quiet_then)
  then have "unat (tj_selection_revision ?j) < unat (tj_selection_revision (snd r))"
    using assms(2) unfolding r bumps_def by blast
  then show ?thesis by (simp add: moved_def)
qed

lemma moved_refresh: "moved j j' \<Longrightarrow> moved j (refresh_lifecycle j')"
  by (erule moved_trans) (simp add: moved_def same_listing_def refresh_lifecycle_def)

lemma moved_prepare_roots: "prepare_roots lb os roots j = Some r \<Longrightarrow> settled (fst r) \<Longrightarrow> moved j (snd r)"
proof (induction lb os roots j rule: prepare_roots.induct)
  case (2 lb os root roots j)
  obtain x where x: "prepare_selection lb (os root) root j = Some x"
    using 2(2) by (auto split: option.splits)
  note step = moved_prepare_selection [OF x]
  show ?case
  proof (cases "fst x")
    case (Inl e)
    then have "r = x" using 2(2) x by (cases x) (auto split: sum.splits)
    with step 2(3) show ?thesis by simp
  next
    case (Inr u)
    then have "prepare_roots lb os roots (snd x) = Some r" using 2(2) x by (cases x) auto
    then have "moved (snd x) (snd r)"
      using 2(1) [OF x] 2(3) Inr by (cases x) auto
    with step Inr show ?thesis by (simp add: moved_trans)
  qed
qed (auto intro: moved_refresh [OF moved_refl])

lemma moved_prepare_all: "prepare_all lb os j = Some r \<Longrightarrow> settled (fst r) \<Longrightarrow> moved j (snd r)"
  using moved_prepare_roots by (auto simp: prepare_all_def split: sum.splits)

lemma tracked_reauthorize: "tracked (bindO (reauthorize os root i p) (\<lambda>_. bindO (commit_change os) (\<lambda>_. returnO a)))"
proof -
  have b: "bumps (bindO (commit_change os) (\<lambda>_. returnO a))"
    by (simp add: bumps_then)
  show ?thesis
    unfolding tracked_def
  proof (intro allI impI)
    fix j assume s: "settled (fst (bindO (reauthorize os root i p) (\<lambda>_. bindO (commit_change os) (\<lambda>_. returnO a)) j))"
    obtain r j1 where m: "reauthorize os root i p j = (r, j1)" by fastforce
    then have r: "r = Inl TJ_OverlappingSelection \<and> j1 = j \<or> r = Inr () \<and> tj_selection_revision j1 = tj_selection_revision j"
      by (auto simp: reauthorize_def Let_def split: if_splits)
    then show "moved j (snd (bindO (reauthorize os root i p) (\<lambda>_. bindO (commit_change os) (\<lambda>_. returnO a)) j))"
      using s b m by (auto simp: bindO_def [of "reauthorize os root i p"] bumps_def moved_def dest: spec [of _ j1])
  qed
qed

lemma bumps_approve: "bumps (bindO (modifyO (update_selection i f)) (\<lambda>_. bindO (commit_change os) (\<lambda>_. returnO a)))"
  by (intro quiet_then quiet_modify bumps_then) simp_all

lemma bindO_assoc: "bindO (bindO m f) g = bindO m (\<lambda>a. bindO (f a) g)"
  by (rule ext) (simp add: bindO_def split: prod.split sum.split)

lemma bumps_remove_selection: "bumps (remove_selection os root i)"
proof -
  have b: "bumps (bindO (commit_change os) (\<lambda>_. returnO a))" for a :: "path option"
    by (simp add: bumps_then)
  show ?thesis
    unfolding bumps_def
  proof (intro allI impI)
    fix j assume s: "settled (fst (remove_selection os root i j))"
    obtain j1 a where j1: "remove_selection os root i j = bindO (commit_change os) (\<lambda>_. returnO a) j1"
      and same: "tj_selection_revision j1 = tj_selection_revision j"
      by (auto simp: remove_selection_def Let_def)
    show "(\<exists>a. fst (remove_selection os root i j) = Inr a)
        \<and> unat (tj_selection_revision j) < unat (tj_selection_revision (snd (remove_selection os root i j)))"
      using b [of a] s unfolding j1 bumps_def same [symmetric] by blast
  qed
qed

lemma tracked_apply_decision: "tracked (apply_decision os root i decision)"
proof (cases decision)
  case (Reauthorize p)
  then show ?thesis by (simp add: apply_decision_def tracked_reauthorize)
next
  case ApprovePartial
  then show ?thesis
    by (simp add: apply_decision_def approve_partial_def bindO_assoc)
      (intro tracked_bind tracked_check bumps_tracked [OF bumps_approve])
next
  case RemoveSelection
  then show ?thesis by (simp add: apply_decision_def bumps_tracked [OF bumps_remove_selection])
next
  case CancelJob
  have "bumps (bindO (modifyO (\<lambda>j. j\<lparr>tj_lifecycle := Canceled\<rparr>)) (\<lambda>_. bindO (bump_revision os) (\<lambda>_. returnO (None :: path option))))"
    by (intro quiet_then quiet_modify bumps_then [OF bumps_bump_revision]) simp_all
  then show ?thesis using CancelJob by (simp add: apply_decision_def bumps_tracked)
qed

lemma tracked_resolve_source_decision: "tracked (resolve_source_decision os root decision)"
  by (simp add: resolve_source_decision_def tracked_bind tracked_apply_decision)

lemma tracked_issue: "tracked (issue root components kind)"
  by (auto simp: tracked_def issue_def moved_def same_listing_def split: option.split)

lemma tracked_resolve_issues: "tracked (resolve_issues root ps)"
  by (induction root ps rule: resolve_issues.induct) (auto intro!: tracked_bind tracked_issue)

lemma tracked_attach: "tracked (attach_provider_issues lb os root ps)"
proof -
  have finish: "tracked (bindO (modifyO (update_selection i f)) (\<lambda>_. commit_change os))" for i f
    by (intro bumps_tracked quiet_then quiet_modify) simp_all
  have "tracked (bindO (checkO (\<lambda>_. validate_provider_issues lb ps)) (\<lambda>_.
      bindO (resolve_issues root (map (\<lambda>p. (ps_relative_components p, ps_kind p)) ps)) (\<lambda>resolved.
      bindO (checkO (\<lambda>j. selection_index j root)) (\<lambda>i.
      bindO (modifyO (update_selection i (g resolved))) (\<lambda>_. commit_change os)))))" for g
    by (rule tracked_bind [OF tracked_check tracked_bind [OF tracked_resolve_issues tracked_bind [OF tracked_check finish]]])
  then show ?thesis
    unfolding attach_provider_issues_def by simp
qed

lemma moved_prepare_and_attach:
  assumes "prepare_and_attach lb os os' root ps j = Some (r, j')" and "settled r"
  shows "moved j j'"
proof -
  from assms(1) obtain r1 j1 where p: "prepare_selection lb os root j = Some (r1, j1)"
      and r: "(r, j') = (case r1 of Inl e \<Rightarrow> (Inl e, j1) | Inr _ \<Rightarrow> attach_provider_issues lb os' root ps j1)"
    by (auto simp: prepare_and_attach_def)
  show ?thesis
  proof (cases r1)
    case (Inl e)
    then show ?thesis using moved_prepare_selection [OF p] r assms(2) by simp
  next
    case (Inr u)
    then have "moved j j1" "moved j1 j'"
      using moved_prepare_selection [OF p] trackedD [OF tracked_attach, of lb os' root ps j1 r j'] r assms(2) by simp_all
    then show ?thesis by (rule moved_trans)
  qed
qed

lemma settled_bindR: "settled (bindR a (\<lambda>_. Inr b)) \<longleftrightarrow> settled a"
  by (cases a) simp_all

lemma moved_add_provider_path:
  assumes "add_provider_path lb os1 os2 os3 p name origin issues j = Some (r, j')" and "settled r"
  shows "moved j j'"
proof -
  obtain r1 j1 where add: "add_local_source lb os1 p (canonical_component lb name) origin False j = (r1, j1)"
    by fastforce
  note first = trackedD [OF tracked_add_local_source add]
  show ?thesis
  proof (cases r1)
    case (Inl e)
    then show ?thesis
      using assms add first by (auto simp: add_provider_path_def split: sum.splits)
  next
    case (Inr added)
    with first have "moved j j1" by simp
    then show ?thesis
      using assms add Inr
      by (auto simp: add_provider_path_def settled_bindR split: sum.splits if_splits
          intro: moved_trans dest!: moved_prepare_and_attach)
  qed
qed

lemma moved_reauthorize_provider:
  assumes "reauthorize_provider_source lb os1 os2 os3 root p issues j = Some (r, j')" and "settled r"
  shows "moved j j'"
proof -
  obtain r1 j1 where resolve: "resolve_source_decision os1 root (Reauthorize p) j = (r1, j1)"
    by fastforce
  note first = trackedD [OF tracked_resolve_source_decision resolve]
  show ?thesis
    using assms resolve first
    by (cases r1) (auto simp: reauthorize_provider_source_def split: sum.splits intro: moved_trans dest!: moved_prepare_and_attach)
qed

lemma same_listing_digest: "same_listing j (j\<lparr>tj_inventory := (tj_inventory j)[i := (tj_inventory j ! i)\<lparr>pe_digest := d\<rparr>]\<rparr>)"
proof -
  have "map item_place (es[i := (es ! i)\<lparr>pe_digest := d\<rparr>]) = map item_place es" for es
    by (cases "i < length es") (simp_all add: map_update item_place_def list_update_same_conv not_less list_update_beyond)
  then show ?thesis by (simp add: same_listing_def)
qed

text \<open>A digest is stored and the revision counted up, unless the job is sealed.\<close>

lemma tracked_digest:
  "tracked (bindO (modifyO (\<lambda>j. j\<lparr>tj_inventory := (tj_inventory j)[i := (tj_inventory j ! i)\<lparr>pe_digest := d\<rparr>]\<rparr>)) (\<lambda>_.
     bindO (\<lambda>j. if tj_lifecycle j \<noteq> Sealed then bump_revision os j
                else (Inr (), j\<lparr>tj_updated_unix_ms := max (os_now os) (tj_updated_unix_ms j)\<rparr>)) (\<lambda>_. returnO a)))"
  unfolding tracked_def
proof (intro allI impI)
  fix j :: CanonicalTransferJob
  let ?j = "j\<lparr>tj_inventory := (tj_inventory j)[i := (tj_inventory j ! i)\<lparr>pe_digest := d\<rparr>]\<rparr>"
  let ?m = "bindO (modifyO (\<lambda>j. j\<lparr>tj_inventory := (tj_inventory j)[i := (tj_inventory j ! i)\<lparr>pe_digest := d\<rparr>]\<rparr>)) (\<lambda>_.
     bindO (\<lambda>j. if tj_lifecycle j \<noteq> Sealed then bump_revision os j
                else (Inr (), j\<lparr>tj_updated_unix_ms := max (os_now os) (tj_updated_unix_ms j)\<rparr>)) (\<lambda>_. returnO a)) j"
  assume s: "settled (fst ?m)"
  show "moved j (snd ?m)"
  proof (cases "tj_lifecycle j = Sealed")
    case True
    then show ?thesis
      using same_listing_digest [of j i d] by (simp add: bindO_def modifyO_def returnO_def moved_def same_listing_def)
  next
    case False
    obtain r j' where b: "bump_revision os ?j = (r, j')" by fastforce
    have "settled r \<Longrightarrow> unat (tj_selection_revision j) < unat (tj_selection_revision j')"
      using alwaysD [OF bumps_bump_revision [unfolded bumps_always] b] by simp
    then show ?thesis
      using False s b by (cases r) (simp_all add: bindO_def modifyO_def returnO_def moved_def)
  qed
qed

lemma moved_hash_entry:
  assumes "hash_entry lb os after item_id j = (r, j')" and "settled r"
  shows "moved j j'"
proof -
  have "tracked (hash_entry lb os after item_id)"
    unfolding hash_entry_def by (intro tracked_bind [OF tracked_check] tracked_digest)
  then show ?thesis using assms by (rule trackedD)
qed

lemma moved_bump_revision:
  assumes "settled (fst (bump_revision os j1))" and "tj_selection_revision j1 = tj_selection_revision j"
  shows "moved j (snd (bump_revision os j1))"
  using assms bumps_bump_revision [of os] unfolding bumps_def moved_def by metis

lemma tracked_policy: "tracked (set_compression_policy os policy)"
proof -
  have "moved j (snd (bump_revision os (j\<lparr>tj_compression_policy := policy\<rparr>)))"
    if "settled (fst (bump_revision os (j\<lparr>tj_compression_policy := policy\<rparr>)))" for j
    using that by (rule moved_bump_revision) simp
  then show ?thesis
    unfolding set_compression_policy_def by (intro tracked_bind tracked_check) (auto simp: tracked_def)
qed

lemma tracked_seal: "tracked (seal_for_send lb os)"
  unfolding seal_for_send_def
  by (intro tracked_bind tracked_check tracked_return)
    (auto simp: tracked_def modifyO_def moved_def same_listing_def refresh_lifecycle_def)

lemma tracked_cancel: "tracked (job_cancel os)"
  unfolding tracked_def
proof (intro allI impI)
  fix j assume "settled (fst (job_cancel os j))"
  then show "moved j (snd (job_cancel os j))"
    using moved_bump_revision [of os "j\<lparr>tj_lifecycle := Canceled\<rparr>" j] by (auto simp: job_cancel_def)
qed

lemma job_step_moved:
  assumes "job_step lb j j'"
  shows "moved j j'"
  using assms
proof cases
  case (prepare os root r)
  then show ?thesis using moved_prepare_selection [OF prepare(1)] by simp
next
  case (prepare_each oss r)
  then show ?thesis using moved_prepare_all [OF prepare_each(1)] by simp
next
  case (cleaned p)
  then show ?thesis by (simp add: moved_def same_listing_def retain_cleanup_def)
qed (blast intro: trackedD tracked_add_local_path tracked_add_staged_source tracked_resolve_source_decision tracked_policy
    tracked_seal tracked_cancel moved_add_provider_path moved_reauthorize_provider moved_hash_entry)+

lemma job_run_moved: "(job_step lb)\<^sup>*\<^sup>* j j' \<Longrightarrow> moved j j'"
  by (induction rule: rtranclp_induct) (auto dest: job_step_moved intro: moved_trans)

section \<open>The life of a job\<close>

text \<open>A job that is sealed or cancelled refuses every operation that starts with \<open>ensure_mutable\<close>.\<close>

definition guarded :: "'a job_op \<Rightarrow> bool" where
  "guarded m \<longleftrightarrow> (\<forall>j. tj_lifecycle j \<in> {Sealed, Canceled} \<longrightarrow> snd (m j) = j \<and> (\<exists>e. fst (m j) = Inl e))"

lemma guardedD:
  "guarded m \<Longrightarrow> m j = (r, j') \<Longrightarrow> tj_lifecycle j \<in> {Sealed, Canceled} \<Longrightarrow> j' = j \<and> (\<exists>e. r = Inl e)"
  unfolding guarded_def by (metis fst_conv snd_conv)

lemma guarded_mutable: "guarded (bindO (checkO ensure_mutable) f)"
  by (auto simp: guarded_def bindO_def checkO_def ensure_mutable_def)

lemma guarded_check: "(\<And>a. guarded (f a)) \<Longrightarrow> guarded (bindO (checkO g) f)"
  unfolding guarded_def bindO_def checkO_def by (auto split: sum.split)

lemma guarded_add_local_source: "guarded (add_local_source lb os p name origin staging)"
  unfolding add_local_source_def by (rule guarded_mutable)

lemma guarded_ops:
  "guarded (add_local_path lb os p)" "guarded (add_staged_source lb os p name origin)"
  "guarded (resolve_source_decision os root decision)" "guarded (set_compression_policy os policy)" "guarded (seal_for_send lb os)"
  unfolding add_local_path_def add_staged_source_def resolve_source_decision_def set_compression_policy_def seal_for_send_def
  by (rule guarded_mutable guarded_check guarded_add_local_source)+

text \<open>What a sealed job keeps: everything but the digests it learns and its update time.\<close>

definition frozen :: "CanonicalTransferJob \<Rightarrow> CanonicalTransferJob \<Rightarrow> bool" where
  "frozen j j' \<longleftrightarrow> same_listing j j' \<and> tj_sealed j' = tj_sealed j
     \<and> (tj_lifecycle j' = tj_lifecycle j \<or> tj_lifecycle j' = Canceled)"

lemma frozen_refl [simp]: "frozen j j"
  by (simp add: frozen_def)

lemma frozen_trans: "frozen i j \<Longrightarrow> frozen j k \<Longrightarrow> frozen i k"
  by (auto simp: frozen_def same_listing_def)

lemma frozen_hash_entry:
  assumes "hash_entry lb os after item_id j = (r, j')" and "tj_lifecycle j \<in> {Sealed, Canceled}"
  shows "frozen j j'"
proof (cases "settled r \<and> tj_lifecycle j = Sealed")
  case True
  have "tj_selection_revision j' = tj_selection_revision j \<and> tj_sealed j' = tj_sealed j \<and> tj_lifecycle j' = tj_lifecycle j"
    using assms(1) True
    by (auto simp: hash_entry_def bindO_def checkO_def modifyO_def returnO_def split: sum.splits)
  then show ?thesis
    using moved_same [OF moved_hash_entry [OF assms(1)]] True by (simp add: frozen_def)
next
  case False
  then have "j' = j"
    using assms by (auto simp: hash_entry_def bindO_def checkO_def modifyO_def returnO_def settled_def split: sum.splits)
  then show ?thesis by simp
qed

lemma frozen_cancel: "job_cancel os j = (r, j') \<Longrightarrow> frozen j j'"
  by (auto simp: job_cancel_def bump_revision_def frozen_def same_listing_def split: if_splits option.splits)

lemma frozen_prepare:
  assumes "tj_lifecycle j \<in> {Sealed, Canceled}"
  shows "prepare_selection lb os root j = Some (r, j') \<Longrightarrow> j' = j"
    and "prepare_all lb oss j = Some (r, j') \<Longrightarrow> j' = j"
  using assms by (auto simp: prepare_selection_def prepare_guard_def prepare_all_def ensure_mutable_def)

lemma frozen_provider:
  assumes "tj_lifecycle j \<in> {Sealed, Canceled}"
  shows "add_provider_path lb os1 os2 os3 p name origin issues j = Some (r, j') \<Longrightarrow> j' = j"
    and "reauthorize_provider_source lb os1 os2 os3 root p issues j = Some (r', j') \<Longrightarrow> j' = j"
proof -
  obtain e where "add_local_source lb os1 p (canonical_component lb name) origin False j = (Inl e, j)"
    using guardedD [OF guarded_add_local_source _ assms] by (metis prod.exhaust)
  then show "add_provider_path lb os1 os2 os3 p name origin issues j = Some (r, j') \<Longrightarrow> j' = j"
    by (auto simp: add_provider_path_def split: sum.splits)
  obtain e' where "resolve_source_decision os1 root (Reauthorize p) j = (Inl e', j)"
    using guardedD [OF guarded_ops(3) _ assms] by (metis prod.exhaust)
  then show "reauthorize_provider_source lb os1 os2 os3 root p issues j = Some (r', j') \<Longrightarrow> j' = j"
    by (auto simp: reauthorize_provider_source_def split: sum.splits)
qed

lemma job_step_frozen:
  assumes "job_step lb j j'" and over: "tj_lifecycle j \<in> {Sealed, Canceled}"
  shows "frozen j j'"
  using assms(1)
proof cases
  case (hash os after item_id r)
  then show ?thesis using frozen_hash_entry over by blast
next
  case (cancel os r)
  then show ?thesis using frozen_cancel by blast
next
  case (cleaned p)
  then show ?thesis by (simp add: frozen_def same_listing_def retain_cleanup_def)
qed (use guardedD [OF guarded_ops(1)] guardedD [OF guarded_ops(2)] guardedD [OF guarded_ops(3)] guardedD [OF guarded_ops(4)]
    guardedD [OF guarded_ops(5)] frozen_prepare [OF over] frozen_provider [OF over] over in \<open>(metis frozen_refl)+\<close>)

text \<open>The abstract machine: sources are collected, then offered as one manifest, then withdrawn.\<close>

datatype job_life = Collecting u64 | Offered SealedTransferJob | Withdrawn

definition life_of :: "CanonicalTransferJob \<Rightarrow> job_life" where
  "life_of j =
     (case (tj_lifecycle j, tj_sealed j) of
        (Canceled, _) \<Rightarrow> Withdrawn
      | (Sealed, Some sealed) \<Rightarrow> Offered sealed
      | _ \<Rightarrow> Collecting (tj_selection_revision j))"

inductive life_step :: "job_life \<Rightarrow> job_life \<Rightarrow> bool" where
  collect: "unat a \<le> unat b \<Longrightarrow> life_step (Collecting a) (Collecting b)"
| offer: "unat a \<le> unat (mf_selection_revision (sj_manifest sealed)) \<Longrightarrow> life_step (Collecting a) (Offered sealed)"
| withdraw: "life_step life Withdrawn"
| keep: "life_step (Offered sealed) (Offered sealed)"

inductive_cases life_step_OfferedE: "life_step (Offered sealed) life"
inductive_cases life_step_WithdrawnE: "life_step Withdrawn life"

lemma job_inv_sealed:
  assumes "job_inv careful lb j" and "tj_lifecycle j = Sealed"
  obtains sealed where "tj_sealed j = Some sealed" "durable_seal lb j = Inr ()" "seal_matches (sj_manifest sealed) j"
    "mf_selection_revision (sj_manifest sealed) = tj_selection_revision j"
  using assms by (auto simp: job_inv_def phase_ok_def durable_seal_def)

lemma job_step_life:
  assumes inv: "job_inv False lb j" and step: "job_step lb j j'"
  shows "life_step (life_of j) (life_of j')"
proof (cases "tj_lifecycle j \<in> {Sealed, Canceled}")
  case True
  then have frozen: "frozen j j'" using job_step_frozen [OF step] by blast
  show ?thesis
  proof (cases "tj_lifecycle j' = Canceled")
    case True
    then show ?thesis by (simp add: life_of_def withdraw)
  next
    case False
    then have sealed: "tj_lifecycle j' = Sealed" "tj_lifecycle j = Sealed"
      using frozen True by (auto simp: frozen_def)
    then obtain s where "tj_sealed j = Some s" using job_inv_sealed [OF inv] by blast
    then show ?thesis using sealed frozen by (simp add: life_of_def frozen_def keep)
  qed
next
  case False
  then have before: "life_of j = Collecting (tj_selection_revision j)"
    by (cases "tj_lifecycle j") (auto simp: life_of_def)
  have inv': "job_inv False lb j'" using job_step_inv [OF step inv] .
  have le: "unat (tj_selection_revision j) \<le> unat (tj_selection_revision j')"
    using moved_mono [OF job_step_moved [OF step]] .
  show ?thesis
  proof (cases "tj_lifecycle j' = Sealed")
    case True
    then obtain sealed where "tj_sealed j' = Some sealed" "mf_selection_revision (sj_manifest sealed) = tj_selection_revision j'"
      using job_inv_sealed [OF inv'] by blast
    then show ?thesis using le before True by (simp add: life_of_def life_step.offer)
  next
    case False
    then have "life_of j' = Withdrawn \<or> life_of j' = Collecting (tj_selection_revision j')"
      by (cases "tj_lifecycle j'") (auto simp: life_of_def)
    then show ?thesis using le before by (auto intro: withdraw collect)
  qed
qed

interpretation job_life: refined_system job_start "job_step lb" "job_inv False lb" life_of life_step for lb
  by unfold_locales (rule job_step_life)

lemma life_run_offered: "life_step\<^sup>*\<^sup>* life life' \<Longrightarrow> life = Offered sealed \<Longrightarrow> life' = Offered sealed \<or> life' = Withdrawn"
  by (induction rule: rtranclp_induct) (auto elim: life_step_OfferedE life_step_WithdrawnE)

lemma job_run_frozen:
  assumes "job_inv careful lb j" and "tj_lifecycle j = Sealed" and "(job_step lb)\<^sup>*\<^sup>* j j'"
  shows "frozen j j'"
  using assms(3)
proof (induction rule: rtranclp_induct)
  case (step k l)
  then have "tj_lifecycle k \<in> {Sealed, Canceled}" using assms(2) by (auto simp: frozen_def)
  then show ?case using step job_step_frozen frozen_trans by blast
qed simp

end
