(* ===== verification/Job_Total.thy ===== *)
theory Job_Total
  imports Job_System
begin

text \<open>
  Preparation returns. The search for an item id stops when the hash gives more ids over its salts
  than the job can hold; the enumeration itself is bounded by its budget of entries.
\<close>

definition salts_suffice :: "JobLibs \<Rightarrow> JobIdV2 \<Rightarrow> bool" where
  "salts_suffice lb job_id \<longleftrightarrow>
     (\<forall>root components. MAX_MANIFEST_V2_ENTRIES + MAX_MANIFEST_V2_ROOTS < card (range (derived_item_id lb job_id root components)))"

lemma stable_id_returns:
  assumes "finite occupied" and "card occupied < card (range (derived_item_id lb job_id root components))"
  obtains item_id where "stable_inventory_item_id lb job_id root components occupied = Some item_id"
proof -
  let ?f = "derived_item_id lb job_id root components"
  have "\<not> range ?f \<subseteq> occupied"
    using assms card_mono leD by blast
  then obtain target where target: "?f target \<notin> occupied" by blast
  have "\<exists>salt. while_option (\<lambda>salt. ?f salt \<in> occupied) (\<lambda>salt. salt + 1) 0 = Some salt"
  proof (rule measure_while_option_Some [where P = "\<lambda>salt. unat salt \<le> unat target" and f = "\<lambda>salt. unat target - unat salt"])
    fix salt :: u64
    assume le: "unat salt \<le> unat target" and hit: "?f salt \<in> occupied"
    then have "salt \<noteq> target" using target by blast
    then have less: "unat salt < unat target" using le by (simp add: word_unat_eq_iff)
    then have "unat (salt + 1) = Suc (unat salt)"
      using unat_bound [of target] by (simp add: unat_word_ariths(1))
    then show "unat (salt + 1) \<le> unat target \<and> unat target - unat (salt + 1) < unat target - unat salt"
      using less by simp
  qed simp
  then show thesis
    by (auto simp: stable_inventory_item_id_def intro: that)
qed

lemma visit_returns:
  assumes "finite (es_occupied st)" and "card (es_occupied st) \<le> MAX_MANIFEST_V2_ENTRIES + MAX_MANIFEST_V2_ROOTS"
    and "salts_suffice lb job_id"
  shows "\<exists>st'. visit lb os selection job_id item st = Some st'"
proof -
  obtain p components parent where item: "item = (p, components, parent)" by (cases item)
  have "card (es_occupied st) < card (range (derived_item_id lb job_id (sl_root_item_id selection) components))"
    using assms(2,3) by (auto simp: salts_suffice_def intro: le_less_trans)
  then obtain item_id where "stable_inventory_item_id lb job_id (sl_root_item_id selection) components (es_occupied st) = Some item_id"
    using stable_id_returns [OF assms(1)] by blast
  then show ?thesis
    by (auto simp: visit_def item Let_def split: sum.split)
qed

lemma visit_occupied:
  assumes "visit lb os selection job_id item st = Some st'"
  shows "es_occupied st' = es_occupied st \<and> eo_entries st' = eo_entries st
    \<or> (\<exists>item_id. es_occupied st' = insert item_id (es_occupied st)) \<and> length (eo_entries st') = Suc (length (eo_entries st))"
  using assms
  by (auto simp: visit_def Let_def list_item_def push_entry_def split: prod.splits if_splits sum.splits)

lemma enumerate_returns:
  assumes "finite (es_occupied st)"
    and "card (es_occupied st) + (budget - length (eo_entries st)) \<le> MAX_MANIFEST_V2_ENTRIES + MAX_MANIFEST_V2_ROOTS"
    and "salts_suffice lb job_id"
  shows "\<exists>st'. enumerate_loop lb os selection job_id budget st = Some st'"
  using assms
proof (induction lb os selection job_id budget st rule: enumerate_loop.induct)
  case (1 lb os selection job_id budget st)
  show ?case
  proof (cases "es_pending st")
    case Nil
    then show ?thesis by (simp add: enumerate_loop.simps)
  next
    case (Cons item rest)
    show ?thesis
    proof (cases "budget \<le> length (eo_entries st)")
      case True
      then show ?thesis using Cons by (simp add: enumerate_loop.simps)
    next
      case False
      obtain st' where visit: "visit lb os selection job_id item (st\<lparr>es_pending := rest\<rparr>) = Some st'"
        using visit_returns [of "st\<lparr>es_pending := rest\<rparr>" lb job_id] 1(2-4) by fastforce
      have "finite (es_occupied st')"
          "card (es_occupied st') + (budget - length (eo_entries st')) \<le> MAX_MANIFEST_V2_ENTRIES + MAX_MANIFEST_V2_ROOTS"
        using visit_occupied [OF visit] 1(2,3) False by (auto simp: card_insert_if)
      from 1(1) [OF Cons False visit this 1(4)] show ?thesis
        using Cons False visit by (simp add: enumerate_loop.simps [of _ _ _ _ _ st])
    qed
  qed
qed

lemma prepare_selection_returns:
  assumes inv: "job_inv careful lb j" and salts: "salts_suffice lb (tj_job_id j)"
  shows "\<exists>r. prepare_selection lb os root j = Some r"
proof (cases "prepare_guard root j")
  case (Inl e)
  then show ?thesis by (simp add: prepare_selection_def)
next
  case (Inr i)
  let ?j = "begin_preparation root i j"
  let ?occupied = "set (map pe_item_id (tj_inventory ?j)) \<union> set (map sl_root_item_id (tj_selections ?j))"
  have j: "length (tj_inventory ?j) \<le> length (tj_inventory j)" "length (tj_selections ?j) = length (tj_selections j)"
      "tj_job_id ?j = tj_job_id j"
    by (simp_all add: begin_preparation_def retain_roots_def retain_current_bindings_def refresh_lifecycle_def update_selection_def)
  have bounds: "length (tj_inventory j) \<le> MAX_MANIFEST_V2_ENTRIES" "length (tj_selections j) \<le> MAX_MANIFEST_V2_ROOTS"
    using inv by (simp_all add: job_inv_def core_on_def inventory_ok_def selections_ok_def)
  have "card ?occupied \<le> length (tj_inventory ?j) + length (tj_selections ?j)"
    by (rule order_trans [OF card_Un_le]) (simp add: add_mono card_length [of "map _ _", simplified])
  then have "card ?occupied + (MAX_MANIFEST_V2_ENTRIES - length (tj_inventory ?j)) \<le> MAX_MANIFEST_V2_ENTRIES + MAX_MANIFEST_V2_ROOTS"
    using j bounds by linarith
  then have "\<exists>out. enumerate_for lb os i ?j = Some out"
    using enumerate_returns [of "\<lparr>eo_root_inventory_item_id = None, eo_entries = [], eo_bindings = [], eo_issues = [],
        es_pending = [(sl_path (tj_selections ?j ! i), [], None)], es_occupied = ?occupied\<rparr>"
        "MAX_MANIFEST_V2_ENTRIES - length (tj_inventory ?j)" lb "tj_job_id ?j" os "tj_selections ?j ! i"] salts j(3)
    by (auto simp: enumerate_for_def enumerate_local_selection_def)
  then show ?thesis
    using Inr by (auto simp: prepare_selection_def Let_def)
qed

end
