(* ===== verification/Job_Properties.thy ===== *)
theory Job_Properties
  imports Job_Sample Job_Revision Job_Total
begin

text \<open>The properties of the transfer job over all its runs, and their witnesses on the sample run.\<close>

section \<open>The durable record\<close>

text \<open>
  C19: after any sequence of operations, successful or failed, with any answers of the operating
  system and any paths, the record passes \<open>validate_durable\<close>, the check that \<open>save\<close> and \<open>load\<close> apply to it,
  except in exactly three cases: the clock gave 0 when the job was created; a selected path is also one the job is about to delete
  (\<open>CleanupActive\<close>); or the job was sealed and then cancelled, because cancelling counts
  the revision past the one in its sealed manifest. The second case never comes up in a run in which no path
  given to the job is a staging file that it owns or is about to delete. Runs in which a 64-bit counter overflows
  are not considered.
\<close>

theorem job_record_durable:
  assumes "job_start j0" and "(job_step lb)\<^sup>*\<^sup>* j0 j"
  shows "validate_durable lb j
      = (if tj_created_unix_ms j = 0 then Inl (TJ_InvalidRecord InvalidIdentity)
         else if cleanup_active j then Inl (TJ_InvalidRecord CleanupActive)
         else if tj_lifecycle j = Canceled \<and> tj_sealed j \<noteq> None then Inl (TJ_InvalidRecord SealedIdentity)
         else Inr ())
    \<and> ((job_step_on True lb)\<^sup>*\<^sup>* j0 j \<longrightarrow> \<not> cleanup_active j)"
  using validate_durable_eq [OF job.reachable_invariant [OF assms]]
    careful_cleanup job.reachable_invariant [OF assms(1), of True lb j] by blast

lemma sample_kept:
  "tj_created_unix_ms sample_sealed \<noteq> 0" "\<not> cleanup_active sample_sealed"
  "tj_created_unix_ms sample_readded \<noteq> 0" "cleanup_active sample_readded"
  by (simp_all add: cleanup_active_def sample_ready_def sample_added_def sample_new_def sample_readded_def sample_removed_def
      sample_selection_def path_eq_def)

text \<open>The sealed sample, the same cancelled, and a staged path added again before it was deleted.\<close>

theorem job_record_durable_witness:
  "validate_durable sample_libs sample_sealed = Inr ()
    \<and> validate_durable sample_libs (snd (job_cancel sample_os sample_sealed)) = Inl (TJ_InvalidRecord SealedIdentity)
    \<and> validate_durable sample_libs sample_readded = Inl (TJ_InvalidRecord CleanupActive)"
proof (intro conjI)
  have "tj_lifecycle sample_sealed \<noteq> Canceled" by simp
  then show "validate_durable sample_libs sample_sealed = Inr ()"
    using job_record_durable [OF sample_start sample_sealed_reached, THEN conjunct1] sample_kept(1,2)
    by (simp only: if_False simp_thms)
  show "validate_durable sample_libs sample_readded = Inl (TJ_InvalidRecord CleanupActive)"
    using job_record_durable [OF sample_start sample_readded_reached] sample_kept(3,4) by simp
  obtain j where cancel: "job_cancel sample_os sample_sealed = (Inr (), j)" and j: "tj_lifecycle j = Canceled" "tj_sealed j \<noteq> None"
      "tj_created_unix_ms j = tj_created_unix_ms sample_sealed" "cleanup_active j = cleanup_active sample_sealed"
    by (simp add: job_cancel_def bump_revision_def checked_add_def sample_ready_def cleanup_active_def)
  have "(job_step sample_libs)\<^sup>*\<^sup>* sample_new j"
    using sample_sealed_reached job_step_on.cancel [OF cancel] by (auto intro: rtranclp.rtrancl_into_rtrancl)
  from job_record_durable [OF sample_start this] j sample_kept(1,2)
  show "validate_durable sample_libs (snd (job_cancel sample_os sample_sealed)) = Inl (TJ_InvalidRecord SealedIdentity)"
    unfolding cancel snd_conv by simp
qed

section \<open>Sealing\<close>

lemma inventory_fits_if_ok:
  assumes inv: "job_inv careful lb j" and ready: "tj_lifecycle j = ReadyToSend" and m: "job_manifest j = Inr m"
    and ok: "manifest_ok (jl_nfc lb) m"
  shows "inventory_fits j"
proof -
  obtain roots entries root_at start where seal: "seal_roots (tj_inventory j) 0 (tj_selections j) [] [] Map.empty = Inr (roots, entries)"
      and s: "sealed_forest lb (tj_selections j) (sealed_order j) root_at start roots entries"
    using ready_sealed_forest [OF inv ready] by blast
  have parts: "mf_entries m = entries"
    using m seal by (auto simp: job_manifest_def Let_def)
  have len: "length entries = length (sealed_order j)"
    using s by (simp add: sealed_forest_def)
  have "path_cost (pe_relative_components e) \<le> MAX_MANIFEST_V2_PATH_BYTES" if "e \<in> set (tj_inventory j)" for e
  proof -
    have "e \<in> set (sealed_order j)"
      using that mset_eq_setD [OF mset_sealed_order [OF inv ready]] by simp
    then obtain n where n: "n < length (sealed_order j)" "sealed_order j ! n = e"
      by (auto simp: in_set_conv_nth)
    then have "entry_ok (jl_nfc lb) m n"
      using ok len parts by (simp add: manifest_ok_def)
    then show ?thesis
      using sealed_path [OF s n(1)] n(2) parts by (simp add: entry_ok_def Let_def)
  qed
  moreover have "inventory_bytes (tj_inventory j) < 2 ^ 64"
  proof -
    have "inventory_bytes (tj_inventory j) = unat (mt_total_plaintext_bytes (mf_totals m))"
      using ok inventory_tally_mset(3) [OF mset_sealed_order [OF inv ready]] entries_tally(3) [OF job_manifest_facts(1) [OF m]]
      by (simp add: manifest_ok_def totals_ok_def)
    then show ?thesis using unat_bound [of "mt_total_plaintext_bytes (mf_totals m)"] by simp
  qed
  ultimately show ?thesis by (simp add: inventory_fits_def)
qed

abbreviation offer_fits :: "ManifestV2 \<Rightarrow> bool" where
  "offer_fits m \<equiv> OFFER_HEADER_BYTES + (DIGEST_BYTES + length (encode_manifest_body m)) \<le> MAX_MANIFEST_V2_ENCODED_BYTES"

lemma seal_manifest_Inr_iff:
  "seal_manifest lb m = Inr sealed \<longleftrightarrow> manifest_ok (jl_nfc lb) m \<and> offer_fits m
     \<and> sealed = \<lparr>sj_manifest = m, sj_structural_digest = jl_hash lb (encode_manifest_body m),
                 sj_offer_bytes = offer_bytes (jl_hash lb) m\<rparr>"
proof
  assume sealed: "seal_manifest lb m = Inr sealed"
  then obtain offer bs where "build_manifest_offer_v2 (jl_hash lb) (jl_nfc lb) m = Inr offer"
      and "encode_manifest_offer_v2 (jl_hash lb) (jl_nfc lb) (of_manifest offer) = Inr bs"
    by (auto simp: seal_manifest_def)
  then have ok: "manifest_ok (jl_nfc lb) m" "offer_fits m"
    by (auto simp: build_manifest_offer_v2_def encode_offer_Inr_iff Let_def)
  with sealed seal_manifest_stores [OF this] show "manifest_ok (jl_nfc lb) m \<and> offer_fits m
     \<and> sealed = \<lparr>sj_manifest = m, sj_structural_digest = jl_hash lb (encode_manifest_body m),
                 sj_offer_bytes = offer_bytes (jl_hash lb) m\<rparr>"
    by simp
qed (use seal_manifest_stores in blast)

lemma seal_for_send_ready_iff:
  assumes inv: "job_inv careful lb j" and ready: "tj_lifecycle j = ReadyToSend"
  shows "seal_for_send lb os j = (Inr m, j') \<longleftrightarrow> job_manifest j = Inr m \<and> manifest_ok (jl_nfc lb) m \<and> offer_fits m
    \<and> j' = j\<lparr>tj_sealed := Some \<lparr>sj_manifest = m, sj_structural_digest = jl_hash lb (encode_manifest_body m),
                                sj_offer_bytes = offer_bytes (jl_hash lb) m\<rparr>,
             tj_lifecycle := Sealed, tj_updated_unix_ms := max (os_now os) (tj_updated_unix_ms j)\<rparr>"
proof -
  have "expected_lifecycle (tj_selections j) = ReadyToSend"
    using inv ready by (simp add: job_inv_def phase_ok_def)
  then have "refresh_lifecycle j = j"
    using ready by (simp add: refresh_lifecycle_def)
  then have "seal_for_send lb os j = (Inr m, j') \<Longrightarrow> \<exists>sealed. job_manifest j = Inr m \<and> seal_manifest lb m = Inr sealed
      \<and> j' = j\<lparr>tj_sealed := Some sealed, tj_lifecycle := Sealed, tj_updated_unix_ms := max (os_now os) (tj_updated_unix_ms j)\<rparr>"
    using ready
    by (auto simp: seal_for_send_def bindO_def checkO_def modifyO_def returnO_def ensure_mutable_def split: sum.splits)
      (auto simp: seal_manifest_Inr_iff)
  then show ?thesis
    using seal_for_send_ready [OF inv ready, of m _ os] seal_manifest_stores [of lb m] by (auto simp: seal_manifest_Inr_iff)
qed

text \<open>
  C20: a job that reports \<open>ReadyToSend\<close> is sealed by \<open>seal_for_send\<close> exactly when its paths
  cost at most 4096 bytes with a separator after every component, its sizes add up below 2^64 and the
  offer fits 4 MiB; nothing else can go wrong, whatever led to that state.
\<close>

theorem ready_job_seals:
  assumes "job_start j0" and "(job_step lb)\<^sup>*\<^sup>* j0 j" and "tj_lifecycle j = ReadyToSend"
  shows "(\<exists>m j'. seal_for_send lb os j = (Inr m, j'))
      \<longleftrightarrow> inventory_fits j \<and> (\<forall>m. job_manifest j = Inr m \<longrightarrow> offer_fits m)"
proof -
  have inv: "job_inv False lb j" by (rule job.reachable_invariant [OF assms(1,2)])
  note iff = seal_for_send_ready_iff [OF inv assms(3), of os]
  show ?thesis
  proof
    assume "\<exists>m j'. seal_for_send lb os j = (Inr m, j')"
    then obtain m where "job_manifest j = Inr m" "manifest_ok (jl_nfc lb) m" "offer_fits m"
      using iff by blast
    then show "inventory_fits j \<and> (\<forall>m. job_manifest j = Inr m \<longrightarrow> offer_fits m)"
      using inventory_fits_if_ok [OF inv assms(3)] by auto
  next
    assume fits: "inventory_fits j \<and> (\<forall>m. job_manifest j = Inr m \<longrightarrow> offer_fits m)"
    then obtain m where "job_manifest j = Inr m" "manifest_ok (jl_nfc lb) m"
      using ready_manifest_ok [OF inv assms(3)] by blast
    then show "\<exists>m j'. seal_for_send lb os j = (Inr m, j')"
      using iff fits by blast
  qed
qed

theorem ready_job_seals_witness: "\<exists>m j'. seal_for_send sample_libs sample_os sample_ready = (Inr m, j')"
  using ready_job_seals [OF sample_start sample_reached sample_ready_fits(1), of sample_os]
    sample_ready_fits(2) sample_job_manifest sample_job_size by simp

text \<open>
  C29: what a sealed job stores is what a receiver will read: the offer bytes decode to the job's own
  manifest and digest. The manifest lists the inventory root by root, with the names, kinds and sizes of the
  prepared entries. (\<open>manifest_wf\<close> is what the Rust types guarantee, the second condition that a
  BLAKE3 digest has 32 bytes.)
\<close>

theorem sealed_offer_decodes:
  assumes "job_start j0" and "(job_step lb)\<^sup>*\<^sup>* j0 j" and "tj_lifecycle j = Sealed" and "tj_sealed j = Some sealed"
    and "manifest_wf (sj_manifest sealed)" and "\<And>xs. length (jl_hash lb xs) = 32"
  shows "decode_manifest_offer_v2 (jl_hash lb) (jl_nfc lb) (sj_offer_bytes sealed)
      = Inr \<lparr>of_structural_digest = sj_structural_digest sealed, of_manifest = sj_manifest sealed\<rparr>
    \<and> mf_selection_revision (sj_manifest sealed) = tj_selection_revision j
    \<and> map (\<lambda>e. (me_component e, me_kind e, me_plaintext_size e)) (mf_entries (sj_manifest sealed))
      = map (\<lambda>e. (pe_name e, pe_kind e, pe_plaintext_size e)) (sealed_order j)"
proof -
  have inv: "job_inv False lb j" by (rule job.reachable_invariant [OF assms(1,2)])
  let ?m = "sj_manifest sealed"
  have seal: "durable_seal lb j = Inr ()" and same: "seal_matches ?m j" "mf_selection_revision ?m = tj_selection_revision j"
    using job_inv_sealed [OF inv assms(3)] assms(4) by auto
  from seal obtain rebuilt where r: "seal_manifest lb ?m = Inr rebuilt" "sj_structural_digest rebuilt = sj_structural_digest sealed"
      "sj_offer_bytes rebuilt = sj_offer_bytes sealed"
    using assms(4) by (auto simp: durable_seal_def)
  then have ok: "manifest_ok (jl_nfc lb) ?m" "offer_fits ?m"
    and stored: "sj_structural_digest sealed = jl_hash lb (encode_manifest_body ?m)" "sj_offer_bytes sealed = offer_bytes (jl_hash lb) ?m"
    by (simp_all add: seal_manifest_Inr_iff)
  show ?thesis
    using decode_offer_bytes [OF ok(1) assms(5) ok(2)] assms(6) same
    by (simp add: stored seal_matches_def DIGEST_BYTES_def)
qed

theorem sealed_offer_decodes_witness:
  "decode_manifest_offer_v2 (jl_hash sample_libs) (jl_nfc sample_libs) (offer_bytes (jl_hash sample_libs) sample_job_manifest)
    = Inr \<lparr>of_structural_digest = jl_hash sample_libs (encode_manifest_body sample_job_manifest),
          of_manifest = sample_job_manifest\<rparr>"
proof -
  have "manifest_wf sample_job_manifest"
    by (simp add: manifest_wf_def sample_job_manifest_def ascii_def of_char_def JOB_ID_BYTES_def utf8_valid_def digest_wf_def)
  then show ?thesis
    using sealed_offer_decodes [OF sample_start sample_sealed_reached, of sample_sealing] by simp
qed

section \<open>The life of a job\<close>

text \<open>
  C21: a job implements the abstract machine \<open>life_step\<close>: sources are collected under a revision that never
  falls, then one manifest is offered, of a revision not before, then the job is withdrawn. No
  sequence of operations turns an offered manifest into another or takes a job back to collecting.
\<close>

theorem job_refines_life:
  assumes "job_start j0" and "(job_step lb)\<^sup>*\<^sup>* j0 j" and "(job_step lb)\<^sup>*\<^sup>* j j'"
  shows "life_step\<^sup>*\<^sup>* (life_of j) (life_of j')
    \<and> (\<forall>sealed. life_of j = Offered sealed \<longrightarrow> life_of j' \<in> {Offered sealed, Withdrawn})"
  using job_life.run_simulates [OF assms(3) job.reachable_invariant [OF assms(1,2)]] life_run_offered by blast

theorem job_refines_life_witness:
  "life_step\<^sup>*\<^sup>* (life_of sample_new) (life_of sample_sealed) \<and> life_of sample_sealed = Offered sample_sealing"
  using job_refines_life [OF sample_start rtranclp.rtrancl_refl sample_sealed_reached] by (simp add: life_of_def)

text \<open>
  C33: once sealed, a job keeps its selections, its bindings to local files and its inventory, up to the
  digests that hashing adds, whatever is called on it; so the sources that are streamed are those
  that were offered.
\<close>

theorem sealed_job_frozen:
  assumes "job_start j0" and "(job_step lb)\<^sup>*\<^sup>* j0 j" and "tj_lifecycle j = Sealed" and "(job_step lb)\<^sup>*\<^sup>* j j'"
  shows "tj_sealed j' = tj_sealed j \<and> tj_selections j' = tj_selections j \<and> tj_source_bindings j' = tj_source_bindings j
    \<and> map item_place (tj_inventory j') = map item_place (tj_inventory j) \<and> tj_lifecycle j' \<in> {Sealed, Canceled}"
  using job_run_frozen [OF job.reachable_invariant [OF assms(1,2)] assms(3,4)] assms(3)
  by (auto simp: frozen_def same_listing_def)

theorem sealed_job_frozen_witness:
  "tj_source_bindings (snd (hash_entry sample_libs sample_os sample_os 0x8000000000000025 sample_sealed)) = sample_bindings"
proof -
  obtain r j' where hash: "hash_entry sample_libs sample_os sample_os 0x8000000000000025 sample_sealed = (r, j')" and "settled r"
    by (simp add: hash_entry_def bindO_def checkO_def modifyO_def returnO_def sample_ready_def sample_bindings_def
        sample_inventory_def position_def read_verified_def verify_source_fingerprint_def sample_fingerprint sample_names)
  then have "(job_step sample_libs)\<^sup>*\<^sup>* sample_sealed j'"
    using job_step_on.hash [OF hash] by blast
  from sealed_job_frozen [OF sample_start sample_sealed_reached _ this] show ?thesis
    unfolding hash by (simp add: sample_ready_def)
qed

text \<open>
  C31: the roots of a job are disjoint: no two selections have the same canonical path, and no selection
  lies inside another one that is a directory, however sources were added, re-authorised and removed.
\<close>

theorem roots_disjoint:
  assumes "job_start j0" and "(job_step lb)\<^sup>*\<^sup>* j0 j"
    and "a < length (tj_selections j)" and "b < length (tj_selections j)" and "a \<noteq> b"
    and "sl_canonical_path (tj_selections j ! a) = Some c" and "sl_canonical_path (tj_selections j ! b) = Some d"
  shows "\<not> path_eq c d \<and> (sl_is_directory_hint (tj_selections j ! a) = Some True \<longrightarrow> \<not> starts_with d c)"
proof -
  have ok: "selections_ok False lb {} j"
    using job.reachable_invariant [OF assms(1,2)] by (simp add: job_inv_def core_on_def)
  then have "sl_root_item_id (tj_selections j ! a) \<noteq> sl_root_item_id (tj_selections j ! b)"
    using assms(3-5) by (auto simp: selections_ok_def distinct_conv_nth)
  then have "pair_ok False (tj_selections j ! a) (tj_selections j ! b)"
    using ok assms(3,4) by (simp add: selections_ok_def)
  then show ?thesis
    using assms(6,7) by (simp add: pair_ok_def)
qed

theorem roots_disjoint_witness:
  "\<not> path_eq (ascii ''/d'') (ascii ''/e'') \<and> \<not> starts_with (ascii ''/e'') (ascii ''/d'')"
  using roots_disjoint [OF sample_start sample_two_reached, of 0 1] by (simp add: sample_two_def sample_selection_def)

section \<open>Reading a sealed entry\<close>

text \<open>
  In a sealed job, \<open>source_for_sealed_entry\<close> follows the manifest: an id past its entries is unknown,
  a directory is not a regular file, and every regular file has a source, the binding of the
  inventory item at that place, which has the name and the size the manifest gives it.
\<close>

theorem sealed_entry_source:
  assumes "job_start j0" and "(job_step lb)\<^sup>*\<^sup>* j0 j" and "tj_lifecycle j = Sealed" and "tj_sealed j = Some sealed"
  shows "(case vec_get (mf_entries (sj_manifest sealed)) (unat entry_id) of
       None \<Rightarrow> source_for_sealed_entry j entry_id = Inl (TJ_UnknownItem (ucast entry_id))
     | Some entry \<Rightarrow>
         if me_kind entry = Directory then source_for_sealed_entry j entry_id = Inl TJ_NotRegularFile
         else \<exists>item \<in> set (tj_inventory j). \<exists>binding.
           map_of (tj_source_bindings j) (pe_item_id item) = Some binding
           \<and> pe_name item = me_component entry \<and> pe_plaintext_size item = me_plaintext_size entry
           \<and> source_for_sealed_entry j entry_id
             = Inr \<lparr>pf_path = lb_path binding, pf_fingerprint = lb_fingerprint binding\<rparr>)"
proof -
  have inv: "job_inv False lb j" by (rule job.reachable_invariant [OF assms(1,2)])
  let ?es = "mf_entries (sj_manifest sealed)" and ?n = "unat entry_id"
  have "seal_matches (sj_manifest sealed) j"
    using job_inv_sealed [OF inv assms(3)] assms(4) by auto
  then have facts: "map (\<lambda>e. (me_component e, me_kind e, me_plaintext_size e)) ?es
      = map (\<lambda>e. (pe_name e, pe_kind e, pe_plaintext_size e)) (sealed_order j)"
    by (simp only: seal_matches_def)
  then have len: "length ?es = length (sealed_order j)"
    by (rule map_eq_imp_length_eq)
  show ?thesis
  proof (cases "?n < length ?es")
    case False
    then show ?thesis
      using assms(3) len by (simp add: vec_get_def source_for_sealed_entry_def)
  next
    case True
    let ?item = "sealed_order j ! ?n"
    have at: "me_component (?es ! ?n) = pe_name ?item" "me_kind (?es ! ?n) = pe_kind ?item"
        "me_plaintext_size (?es ! ?n) = pe_plaintext_size ?item"
    proof -
      have "map (\<lambda>e. (me_component e, me_kind e, me_plaintext_size e)) ?es ! ?n
          = map (\<lambda>e. (pe_name e, pe_kind e, pe_plaintext_size e)) (sealed_order j) ! ?n"
        by (simp only: facts)
      then show "me_component (?es ! ?n) = pe_name ?item" "me_kind (?es ! ?n) = pe_kind ?item"
          "me_plaintext_size (?es ! ?n) = pe_plaintext_size ?item"
        unfolding nth_map [OF True] nth_map [OF True [unfolded len]] by simp_all
    qed
    have item: "?item \<in> set (tj_inventory j)"
      using True len nth_mem [of ?n "sealed_order j"] by (auto simp: sealed_order_def)
    then have "pe_item_id ?item \<in> fst ` set (tj_source_bindings j)"
      using inv by (auto simp: job_inv_def core_on_def inventory_ok_def)
    then obtain binding where binding: "map_of (tj_source_bindings j) (pe_item_id ?item) = Some binding"
      by (metis map_of_eq_None_iff option.exhaust)
    have get: "vec_get ?es ?n = Some (?es ! ?n)" "vec_get (sealed_order j) ?n = Some ?item"
      using True len by simp_all
    show ?thesis
    proof (cases "pe_kind ?item")
      case Directory
      then have "source_for_sealed_entry j entry_id = Inl TJ_NotRegularFile"
        by (simp add: source_for_sealed_entry_def get assms(3))
      then show ?thesis by (simp only: get option.case at(2) Directory if_True simp_thms)
    next
      case RegularFile
      then have "source_for_sealed_entry j entry_id
          = Inr \<lparr>pf_path = lb_path binding, pf_fingerprint = lb_fingerprint binding\<rparr>"
        by (simp add: source_for_sealed_entry_def get binding assms(3))
      moreover have "me_kind (?es ! ?n) \<noteq> Directory" by (simp add: at(2) RegularFile)
      ultimately show ?thesis
        unfolding get(1) option.case using item binding at(1,3) by (metis (no_types))
    qed
  qed
qed

theorem sealed_entry_source_witness:
  "\<exists>src. source_for_sealed_entry sample_sealed 1 = Inr src"
  using sealed_entry_source [OF sample_start sample_sealed_reached, of sample_sealing 1]
  by (auto simp: sample_job_manifest_def vec_get_def)

section \<open>Paging\<close>

text \<open>Reading all pages of a directory, from a cursor on; \<open>None\<close> when the fuel is used up.\<close>

fun collect_pages ::
  "nat \<Rightarrow> CanonicalTransferJob \<Rightarrow> SourceItemId \<Rightarrow> InventoryCursor option \<Rightarrow> nat
     \<Rightarrow> (TransferJobError + InventoryItem list) option" where
  "collect_pages 0 j parent cursor limit = None"
| "collect_pages (Suc fuel) j parent cursor limit =
     (case list_children j parent cursor limit of
        Inl e \<Rightarrow> Some (Inl e)
      | Inr page \<Rightarrow>
          (case pg_next_cursor page of
             None \<Rightarrow> Some (Inr (pg_items page))
           | Some c \<Rightarrow> map_option (\<lambda>r. bindR r (\<lambda>items. Inr (pg_items page @ items)))
                         (collect_pages fuel j parent (Some c) limit)))"

abbreviation children_in :: "CanonicalTransferJob \<Rightarrow> SourceItemId \<Rightarrow> PreparedInventoryEntry list" where
  "children_in j parent \<equiv> filter (\<lambda>e. pe_parent_item_id e = Some parent) (tj_inventory j)"

lemma list_children_Inr_iff:
  "list_children j parent cursor limit = Inr page \<longleftrightarrow>
     0 < limit \<and> limit \<le> MAX_INVENTORY_PAGE_SIZE \<and> (\<forall>c. cursor = Some c \<longrightarrow> cu_revision c = tj_selection_revision j)
     \<and> (let start = (case cursor of None \<Rightarrow> 0 | Some c \<Rightarrow> unat (cu_offset c));
            found = take limit (drop start (children_in j parent)) in
        page = \<lparr>pg_revision = tj_selection_revision j, pg_items = map (project_inventory_item j) found,
                pg_next_cursor = (if start + length found < length (children_in j parent)
                  then Some \<lparr>cu_revision = tj_selection_revision j, cu_offset = word_of_nat (start + length found)\<rparr>
                  else None)\<rparr>)"
  by (cases cursor) (auto simp: list_children_def page_inventory_def Let_def)

lemma collect_pages_from:
  assumes limit: "0 < limit" "limit \<le> MAX_INVENTORY_PAGE_SIZE" and small: "length (children_in j parent) < 2 ^ 32"
  shows "length (children_in j parent) - start < fuel \<Longrightarrow> start \<le> length (children_in j parent)
    \<Longrightarrow> (case cursor of None \<Rightarrow> start = 0 | Some c \<Rightarrow> cu_revision c = tj_selection_revision j \<and> unat (cu_offset c) = start)
    \<Longrightarrow> collect_pages fuel j parent cursor limit = Some (Inr (map (project_inventory_item j) (drop start (children_in j parent))))"
proof (induction fuel arbitrary: start cursor)
  case (Suc fuel)
  let ?cs = "children_in j parent"
  let ?found = "take limit (drop start ?cs)"
  let ?next = "start + length ?found"
  have start: "(case cursor of None \<Rightarrow> 0 | Some c \<Rightarrow> unat (cu_offset c)) = start"
      "\<forall>c. cursor = Some c \<longrightarrow> cu_revision c = tj_selection_revision j"
    using Suc.prems(3) by (auto split: option.splits)
  have page: "list_children j parent cursor limit = Inr \<lparr>pg_revision = tj_selection_revision j,
      pg_items = map (project_inventory_item j) ?found,
      pg_next_cursor = (if ?next < length ?cs
        then Some \<lparr>cu_revision = tj_selection_revision j, cu_offset = word_of_nat ?next\<rparr> else None)\<rparr>"
    unfolding list_children_Inr_iff using limit start by (simp add: Let_def)
  show ?case
  proof (cases "?next < length ?cs")
    case False
    then have "?found = drop start ?cs" using Suc.prems(2) by (simp add: min_def split: if_splits)
    then show ?thesis using False page by simp
  next
    case True
    then have len: "length ?found = limit" by (simp add: min_def split: if_splits)
    then have more: "start < ?next" and split: "drop start ?cs = ?found @ drop ?next ?cs"
      using limit append_take_drop_id [of limit "drop start ?cs"] by (simp_all add: add.commute)
    define following where "following = ?next"
    have bounds: "following < length ?cs" "start < following" "length ?cs < 2 ^ LENGTH(32)"
      using True more small by (simp_all only: following_def LENGTH32)
    then have "collect_pages fuel j parent (Some \<lparr>cu_revision = tj_selection_revision j, cu_offset = word_of_nat following\<rparr>) limit
        = Some (Inr (map (project_inventory_item j) (drop following ?cs)))"
      using Suc.prems(1) by (intro Suc.IH) (simp_all add: unat_word_of_nat_small)
    note this [unfolded following_def]
    then show ?thesis
      using True page arg_cong [OF split, of "map (project_inventory_item j)"] by simp
  qed
qed simp

text \<open>
  Following the cursors of \<open>list_children\<close> with any page size from 1 to 512 ends after at most one
  request more than there are children, and the pages together are all children of the directory, each once
  and in inventory order.
\<close>

theorem pages_cover_children:
  assumes "job_start j0" and "(job_step lb)\<^sup>*\<^sup>* j0 j" and "0 < limit" and "limit \<le> MAX_INVENTORY_PAGE_SIZE"
  shows "collect_pages (Suc (length (children_in j parent))) j parent None limit
    = Some (Inr (map (project_inventory_item j) (children_in j parent)))"
proof -
  have "length (tj_inventory j) \<le> MAX_MANIFEST_V2_ENTRIES"
    using job.reachable_invariant [OF assms(1,2)] by (simp add: job_inv_def core_on_def inventory_ok_def)
  then have "length (tj_inventory j) < 2 ^ 32"
    by (simp add: manifest_limits)
  with length_filter_le have "length (children_in j parent) < 2 ^ 32"
    by (rule le_less_trans)
  from collect_pages_from [OF assms(3,4) this, of 0 _ None] show ?thesis
    by (simp del: collect_pages.simps)
qed

theorem pages_cover_children_witness:
  "collect_pages 2 sample_ready 0x8000000000000020 None 1
    = Some (Inr [project_inventory_item sample_ready (sample_inventory ! 1)])"
  using pages_cover_children [OF sample_start sample_reached, of 1 "0x8000000000000020"]
  by (simp add: sample_ready_def sample_inventory_def MAX_INVENTORY_PAGE_SIZE_def numeral_2_eq_2)

text \<open>
  C30: a cursor is only honoured while it means something. When a page is read with the cursor of an earlier
  page, after any operations in between, the selections are the same, and the items are those that followed in the earlier
  inventory, in every field but \<open>digest_known\<close>. As long as the job is not sealed that field is the same, too, and the whole
  inventory is: every change of it, a digest included, makes the cursors before it stale. A file of a sealed job can be hashed without
  that: its digest is added under the same revision.
\<close>

definition without_digest :: "InventoryItem \<Rightarrow> InventoryItem" where
  "without_digest item = item\<lparr>it_digest_known := False\<rparr>"

lemma without_digest_place:
  assumes "map item_place es' = map item_place es" and "tj_selections j' = tj_selections j"
  shows "map (\<lambda>e. without_digest (project_inventory_item j' e)) es' = map (\<lambda>e. without_digest (project_inventory_item j e)) es"
proof -
  obtain g where g: "\<And>e. without_digest (project_inventory_item j e) = g (item_place e)"
    by (rule that [of "\<lambda>(item, root, parent, components, name, kind, size).
          \<lparr>it_item_id = item, it_root_item_id = root, it_parent_item_id = parent, it_name = name, it_kind = kind,
           it_plaintext_size = size, it_digest_known = False,
           it_has_warning = (case find (\<lambda>s. sl_root_item_id s = root) (tj_selections j) of
              None \<Rightarrow> False | Some s \<Rightarrow> sl_issues s \<noteq> [])\<rparr>"])
      (simp add: without_digest_def project_inventory_item_def item_place_def)
  have "project_inventory_item j' = project_inventory_item j"
    by (rule ext) (simp add: project_inventory_item_def assms(2))
  then show ?thesis
    using arg_cong [OF assms(1), of "map g"] by (simp add: g comp_def)
qed

theorem cursor_reads_same_inventory:
  assumes "(job_step lb)\<^sup>*\<^sup>* j j'" and "list_children j parent cursor limit = Inr page" and "pg_next_cursor page = Some c"
    and "list_children j' parent (Some c) limit' = Inr page'"
  shows "tj_selections j' = tj_selections j
    \<and> map without_digest (pg_items page') = map (\<lambda>e. without_digest (project_inventory_item j e))
        (take limit' (drop (unat (cu_offset c)) (children_in j parent)))
    \<and> (tj_lifecycle j' \<noteq> Sealed \<longrightarrow> tj_inventory j' = tj_inventory j
         \<and> pg_items page' = map (project_inventory_item j) (take limit' (drop (unat (cu_offset c)) (children_in j parent))))"
proof -
  have "cu_revision c = tj_selection_revision j"
    using assms(2,3) by (auto simp: list_children_Inr_iff Let_def split: if_splits)
  moreover have "cu_revision c = tj_selection_revision j'"
    using assms(4) by (simp add: list_children_Inr_iff)
  ultimately have rev: "tj_selection_revision j' = tj_selection_revision j"
    by simp
  have same: "same_listing j j'"
    by (rule moved_same [OF job_run_moved [OF assms(1)] rev])
  then have selections: "tj_selections j' = tj_selections j"
    by (simp add: same_listing_def)
  have items: "pg_items page' = map (project_inventory_item j') (take limit' (drop (unat (cu_offset c)) (children_in j' parent)))"
    using assms(4) by (simp add: list_children_Inr_iff Let_def)
  have project: "project_inventory_item j' = project_inventory_item j"
    by (rule ext) (simp add: project_inventory_item_def selections)
  let ?place = "\<lambda>t. fst (snd (snd t)) = Some parent"
  have "map item_place (children_in i parent) = filter ?place (map item_place (tj_inventory i))" for i
    by (simp add: filter_map comp_def item_place_def)
  then have "map item_place (children_in j' parent) = map item_place (children_in j parent)"
    using same by (simp add: same_listing_def)
  then have "map item_place (take limit' (drop (unat (cu_offset c)) (children_in j' parent)))
      = map item_place (take limit' (drop (unat (cu_offset c)) (children_in j parent)))"
    by (simp only: take_map [symmetric] drop_map [symmetric])
  from without_digest_place [OF this selections]
  have "map without_digest (pg_items page') = map (\<lambda>e. without_digest (project_inventory_item j e))
        (take limit' (drop (unat (cu_offset c)) (children_in j parent)))"
    by (simp add: items comp_def)
  moreover have "tj_inventory j' = tj_inventory j" if "tj_lifecycle j' \<noteq> Sealed"
    by (rule moved_same_inventory [OF job_run_moved [OF assms(1)] rev that])
  ultimately show ?thesis
    using selections items project by simp
qed

text \<open>A page of a sealed job, its first file is hashed, and the next page is read with the cursor.\<close>

theorem cursor_reads_same_inventory_witness:
  "\<exists>j j' page c page' digest. hash_entry sample_libs sample_os sample_os 0x8000000000000025 j = (Inr digest, j')
    \<and> list_children j 0x8000000000000020 None 1 = Inr page \<and> pg_next_cursor page = Some c
    \<and> list_children j' 0x8000000000000020 (Some c) 1 = Inr page' \<and> map it_item_id (pg_items page') = [9]"
proof -
  define f where "f = sample_inventory ! 1"
  let ?j = "sample_sealed\<lparr>tj_inventory := [f, f\<lparr>pe_item_id := 9\<rparr>]\<rparr>"
  have f: "pe_parent_item_id f = Some 0x8000000000000020" "pe_item_id f = 0x8000000000000025" "pe_kind f = RegularFile"
    by (simp_all add: f_def sample_inventory_def)
  obtain digest j' where hash: "hash_entry sample_libs sample_os sample_os 0x8000000000000025 ?j = (Inr digest, j')"
      and j': "tj_selection_revision j' = tj_selection_revision ?j" "map pe_parent_item_id (tj_inventory j') = map pe_parent_item_id (tj_inventory ?j)"
    by (simp add: hash_entry_def bindO_def checkO_def modifyO_def returnO_def sample_ready_def sample_bindings_def
        position_def read_verified_def verify_source_fingerprint_def sample_fingerprint sample_names f)
  then have step: "(job_step sample_libs)\<^sup>*\<^sup>* ?j j'"
    using job_step_on.hash [OF hash] by auto
  let ?c = "\<lparr>cu_revision = tj_selection_revision ?j, cu_offset = 1\<rparr>"
  obtain page where page: "list_children ?j 0x8000000000000020 None 1 = Inr page" "pg_next_cursor page = Some ?c"
    by (simp add: list_children_def page_inventory_def f Let_def MAX_INVENTORY_PAGE_SIZE_def)
  obtain page' where page': "list_children j' 0x8000000000000020 (Some ?c) 1 = Inr page'"
    using j' by (simp add: list_children_def page_inventory_def Let_def MAX_INVENTORY_PAGE_SIZE_def)
  have "map without_digest (pg_items page') = [without_digest (project_inventory_item ?j (f\<lparr>pe_item_id := 9\<rparr>))]"
    using cursor_reads_same_inventory [OF step page page'] by (simp add: f)
  then have "map it_item_id (map without_digest (pg_items page')) = [9]"
    by (simp add: without_digest_def project_inventory_item_def)
  then have "map it_item_id (pg_items page') = [9]"
    by (simp add: without_digest_def comp_def)
  then show ?thesis
    using hash page page' by (intro exI conjI)
qed

section \<open>Preparation returns\<close>

text \<open>
  C32: preparing a selection returns in every state a job can reach, for every answer of the file system:
  the walk is bounded by its budget, and the search for a free item id ends whenever the hash yields more
  ids over the salts than a job can hold entries and roots.
\<close>

theorem preparation_returns:
  assumes "job_start j0" and "(job_step lb)\<^sup>*\<^sup>* j0 j" and "salts_suffice lb (tj_job_id j)"
  shows "\<exists>r. prepare_selection lb os root j = Some r"
  using prepare_selection_returns [OF job.reachable_invariant [OF assms(1,2)] assms(3)] .

definition salted_libs :: JobLibs where
  "salted_libs = \<lparr>jl_hash = (\<lambda>bs. take 8 (drop 24 bs) @ replicate 24 0), jl_nfc = (\<lambda>_. True), jl_to_nfc = (\<lambda>c. c)\<rparr>"

lemma salted_item_id: "length job_id = 16 \<Longrightarrow> derived_item_id salted_libs job_id root components salt = or salt DERIVED_ITEM_ID_MASK"
  by (simp add: derived_item_id_def salted_libs_def)

lemma salted_suffice:
  assumes "length job_id = 16"
  shows "salts_suffice salted_libs job_id"
  unfolding salts_suffice_def
proof (intro allI)
  fix root :: SourceItemId and components
  let ?f = "derived_item_id salted_libs job_id root components"
  have inj: "inj_on (\<lambda>n. ?f (word_of_nat n)) {..<2 ^ 16}"
  proof (rule inj_onI)
    fix a b :: nat
    assume ab: "a \<in> {..<2 ^ 16}" "b \<in> {..<2 ^ 16}" and eq: "?f (word_of_nat a) = ?f (word_of_nat b)"
    have low: "take_bit 16 (?f (word_of_nat n)) = (word_of_nat n :: u64)" if "n < 2 ^ 16" for n
    proof -
      have "take_bit 16 DERIVED_ITEM_ID_MASK = 0" by (simp add: DERIVED_ITEM_ID_MASK_def)
      then have "take_bit 16 (?f (word_of_nat n)) = take_bit 16 (word_of_nat n :: u64)"
        by (simp add: salted_item_id [OF assms])
      also have "\<dots> = word_of_nat (take_bit 16 n)" by (simp add: take_bit_of_nat)
      finally show ?thesis using that by (simp add: take_bit_nat_eq_self)
    qed
    then have "(word_of_nat a :: u64) = word_of_nat b"
      using ab eq by (metis lessThan_iff)
    then have "unat (word_of_nat a :: u64) = unat (word_of_nat b :: u64)" by simp
    then show "a = b" using ab by (simp add: unat_word_of_nat_small)
  qed
  have "card ((\<lambda>n. ?f (word_of_nat n)) ` {..<2 ^ 16}) = 2 ^ 16"
    using card_image [OF inj] by simp
  moreover have "card ((\<lambda>n. ?f (word_of_nat n)) ` {..<2 ^ 16}) \<le> card (range ?f)"
    by (rule card_mono) auto
  ultimately show "MAX_MANIFEST_V2_ENTRIES + MAX_MANIFEST_V2_ROOTS < card (range ?f)"
    by (simp add: manifest_limits)
qed

theorem preparation_returns_witness: "\<exists>r. prepare_selection salted_libs sample_os 1 sample_new = Some r"
proof -
  have "salts_suffice salted_libs (tj_job_id sample_new)"
    by (rule salted_suffice) (simp add: sample_new_def)
  then show ?thesis
    using preparation_returns [OF sample_start rtranclp.rtrancl_refl] by blast
qed

end
