(* ===== verification/Effect.thy ===== *)
theory Effect
  imports Prelude
begin

text \<open>
  Operations on a state that can fail: a function from the state to a result and the state it
  leaves, also when it fails. \<open>wp m Q E s\<close> says that from the state \<open>s\<close> the operation ends in \<open>Q\<close> with
  its value, or in \<open>E\<close> with its error.
\<close>

type_synonym ('s, 'e, 'a) op = "'s \<Rightarrow> ('e + 'a) \<times> 's"

definition returnM :: "'a \<Rightarrow> ('s, 'e, 'a) op" where
  "returnM a s = (Inr a, s)"

definition bindM :: "('s, 'e, 'a) op \<Rightarrow> ('a \<Rightarrow> ('s, 'e, 'b) op) \<Rightarrow> ('s, 'e, 'b) op" where
  "bindM m f s = (case m s of (Inl e, t) \<Rightarrow> (Inl e, t) | (Inr a, t) \<Rightarrow> f a t)"

definition getM :: "('s \<Rightarrow> 'a) \<Rightarrow> ('s, 'e, 'a) op" where
  "getM f s = (Inr (f s), s)"

definition modifyM :: "('s \<Rightarrow> 's) \<Rightarrow> ('s, 'e, unit) op" where
  "modifyM f s = (Inr (), f s)"

text \<open>A check of the state, and a result that is already known.\<close>

definition checkM :: "('s \<Rightarrow> 'e + 'a) \<Rightarrow> ('s, 'e, 'a) op" where
  "checkM f s = (f s, s)"

definition liftM :: "'e + 'a \<Rightarrow> ('s, 'e, 'a) op" where
  "liftM r s = (r, s)"

definition failM :: "'e \<Rightarrow> ('s, 'e, 'a) op" where
  "failM e s = (Inl e, s)"

definition whenM :: "bool \<Rightarrow> ('s, 'e, unit) op \<Rightarrow> ('s, 'e, unit) op" where
  "whenM c m = (if c then m else returnM ())"

fun forM :: "'a list \<Rightarrow> ('a \<Rightarrow> ('s, 'e, unit) op) \<Rightarrow> ('s, 'e, unit) op" where
  "forM [] f = returnM ()"
| "forM (x # xs) f = bindM (f x) (\<lambda>_. forM xs f)"

section \<open>Evaluation\<close>

lemma op_simps [simp]:
  "returnM a s = (Inr a, s)" "getM g s = (Inr (g s), s)" "modifyM h s = (Inr (), h s)"
  "checkM c s = (c s, s)" "liftM r s = (r, s)" "failM e s = (Inl e, s)"
  by (simp_all add: returnM_def getM_def modifyM_def checkM_def liftM_def failM_def)

lemma bindM_eval:
  "m s = (Inr a, t) \<Longrightarrow> bindM m f s = f a t" "m s = (Inl e, t) \<Longrightarrow> bindM m f s = (Inl e, t)"
  by (simp_all add: bindM_def)

lemma bindM_Inr_iff:
  "bindM m f s = (Inr b, u) \<longleftrightarrow> (\<exists>a t. m s = (Inr a, t) \<and> f a t = (Inr b, u))"
  by (auto simp: bindM_def split: prod.splits sum.splits)

lemma bindM_Inl_iff:
  "bindM m f s = (Inl e, u) \<longleftrightarrow> m s = (Inl e, u) \<or> (\<exists>a t. m s = (Inr a, t) \<and> f a t = (Inl e, u))"
  by (auto simp: bindM_def split: prod.splits sum.splits)

lemma bindM_simps [simp]:
  "bindM (returnM a) f = f a" "bindM (getM g) f s = f (g s) s" "bindM (modifyM h) k s = k () (h s)"
  "bindM (liftM (Inr a)) f = f a" "bindM (liftM (Inl e)) f = failM e" "bindM (failM e) f = failM e"
  by (auto simp: bindM_def fun_eq_iff)

lemma bindM_snd: "snd (bindM m f s) = (case fst (m s) of Inl _ \<Rightarrow> snd (m s) | Inr a \<Rightarrow> snd (f a (snd (m s))))"
  by (simp add: bindM_def split: prod.split sum.split)

lemma bindM_assoc: "bindM (bindM m f) g = bindM m (\<lambda>a. bindM (f a) g)"
  by (auto simp: bindM_def fun_eq_iff split: prod.splits sum.splits)

lemma bindM_check [simp]:
  "bindM (checkM c) f s = (case c s of Inl e \<Rightarrow> (Inl e, s) | Inr a \<Rightarrow> f a s)"
  by (simp add: bindM_def split: sum.split)

lemma whenM_simps [simp]: "whenM True m = m" "whenM False m = returnM ()"
  by (simp_all add: whenM_def)

section \<open>Weakest preconditions\<close>

definition wp :: "('s, 'e, 'a) op \<Rightarrow> ('a \<Rightarrow> 's \<Rightarrow> bool) \<Rightarrow> ('e \<Rightarrow> 's \<Rightarrow> bool) \<Rightarrow> 's \<Rightarrow> bool" where
  "wp m Q E s = (case m s of (Inr a, t) \<Rightarrow> Q a t | (Inl e, t) \<Rightarrow> E e t)"

lemma wp_simps [simp]:
  "wp (returnM a) Q E s = Q a s" "wp (getM g) Q E s = Q (g s) s" "wp (modifyM h) U E s = U () (h s)"
  "wp (checkM c) Q E s = (case c s of Inr a \<Rightarrow> Q a s | Inl e \<Rightarrow> E e s)"
  "wp (liftM r) Q E s = (case r of Inr a \<Rightarrow> Q a s | Inl e \<Rightarrow> E e s)" "wp (failM e) Q E s = E e s"
  by (simp_all add: wp_def split: sum.split)

lemma wp_bind: "wp (bindM m f) Q E s = wp m (\<lambda>a. wp (f a) Q E) E s"
  by (simp add: wp_def bindM_def split: prod.split sum.split)

lemma wp_mono:
  "wp m Q E s \<Longrightarrow> (\<And>a t. Q a t \<Longrightarrow> Q' a t) \<Longrightarrow> (\<And>e t. E e t \<Longrightarrow> E' e t) \<Longrightarrow> wp m Q' E' s"
  by (auto simp: wp_def split: prod.splits sum.splits)

lemma wpI:
  "(\<And>a t. m s = (Inr a, t) \<Longrightarrow> Q a t) \<Longrightarrow> (\<And>e t. m s = (Inl e, t) \<Longrightarrow> E e t) \<Longrightarrow> wp m Q E s"
  by (auto simp: wp_def split: prod.split sum.split)

lemma wpD:
  "wp m Q E s \<Longrightarrow> m s = (Inr a, t) \<Longrightarrow> Q a t" "wp m Q E s \<Longrightarrow> m s = (Inl e, t) \<Longrightarrow> E e t"
  by (simp_all add: wp_def)

end
