(* ===== verification/Engine_Data.thy ===== *)
theory Engine_Data
  imports Delivery Effect Transfer_Events Job_Seal
begin

text \<open>
  \<open>crates/envoix-transfer/src/manifest_v2_engine.rs\<close>, the data plane of a transfer: the receiver's
  ledger of checkpoints, its store, and the checks that both ends make on accepts, resume
  statuses, blocks, completions and results.

  The texts of \<open>UnexpectedFrame\<close>, \<open>InvalidLedger\<close> and \<open>DestinationContract\<close> are kept. \<open>zstd\<close> and
  \<open>serde_json\<close> are fields of \<open>EngineLibs\<close>.
\<close>

section \<open>Data\<close>

definition DEFAULT_MANIFEST_V2_BLOCK_PLAINTEXT_BYTES :: u32 where
  "DEFAULT_MANIFEST_V2_BLOCK_PLAINTEXT_BYTES = 4 * 1024 * 1024"

definition RECEIVER_DATA_PLANE_SCHEMA_VERSION :: u16 where
  "RECEIVER_DATA_PLANE_SCHEMA_VERSION = 1"

definition LEGACY_SMART_COMPRESSION_SAMPLE_BYTES :: nat where
  "LEGACY_SMART_COMPRESSION_SAMPLE_BYTES = 64 * 1024"

datatype DestinationPlanErrorV2 =
    DP_CopyDecisionRequired | DP_MissingCopyStaging | DP_UnsupportedProvider | DP_UnknownCapacity
  | DP_ExceptionalTransferApprovalRequired
  | DP_InsufficientSpace u64 u64
  | DP_SpaceOverflow | DP_NameExhausted | DP_ReservationLost | DP_LateCollision | DP_DestinationContended
  | DP_ReusedObjectLost | DP_InvalidEntryState
  | DP_Io IoErrorKind

datatype ManifestV2DataError =
    ME_JobNotSealed
  | ME_UnexpectedFrame string
  | ME_IdentityMismatch | ME_AcceptMismatch | ME_EntryOrder | ME_BlockOrder | ME_DigestConflict
  | ME_FinalMismatch | ME_UnsupportedEncoding | ME_InvalidCompressedBlock | ME_ReuseUnavailable
  | ME_InvalidLedger string
  | ME_ArithmeticOverflow
  | ME_Job TransferJobError
  | ME_Codec ManifestV2FrameCodecError
  | ME_Io IoErrorKind
  | ME_Core
  | ME_Destination DestinationPlanErrorV2
  | ME_DestinationContract string
  | ME_Delivery DeliveryAuthorityErrorV2
  | ME_Internal
  | ME_Json

record SavedEntryV2 =
  sv_entry_id :: u32
  sv_result :: EntryResultKindV2
  sv_final_component_override :: "str option"

record VerifiedEntryV2 =
  vf_entry_id :: u32
  vf_final_digest :: "ContentDigestV2 option"
  vf_completion_choice :: EntryCompletionChoiceV2

record ReceiverEntryCheckpointV2 =
  cp_entry_id :: u32
  cp_start :: "EntryStartV2 option"
  cp_arbiter :: EntryArbiterV2
  cp_next_plaintext_block :: u64
  cp_plaintext_bytes :: u64
  cp_content_digest :: "ContentDigestV2 option"
  cp_completion :: "EntryCompleteV2 option"
  cp_result :: "EntryResultV2 option"
  cp_payload_retired :: bool

record ReceiverDataPlaneLedgerV2 =
  lg_schema_version :: u16
  lg_identity :: JobGenerationV2
  lg_manifest_digest :: ContentDigestV2
  lg_accept :: ManifestAcceptV2
  lg_accept_body_digest :: ContentDigestV2
  lg_entries :: "ReceiverEntryCheckpointV2 list"
  lg_sender_completion_set_digest :: "ContentDigestV2 option"

datatype SenderResumeIntentV2 = ContinueData | AwaitDelivery

datatype ManifestV2ProgressPhase =
  PP_Transferring | PP_Verifying | PP_Saving | PP_WaitingForReceiverSave | PP_FinalizingDelivery

text \<open>\<open>el_compress\<close> is \<open>zstd::bulk::compress\<close> at level 3, \<open>el_decompress\<close> its inverse with a capacity.\<close>

record EngineLibs =
  el_crypto :: Crypto
  el_compress :: "bytes \<Rightarrow> bytes option"
  el_decompress :: "bytes \<Rightarrow> nat \<Rightarrow> bytes option"
  el_ledger_to_vec :: "ReceiverDataPlaneLedgerV2 \<Rightarrow> bytes option"
  el_ledger_from_slice :: "bytes \<Rightarrow> ReceiverDataPlaneLedgerV2 option"
  el_record_to_vec :: "SenderDeliveryRecordV2 \<Rightarrow> bytes option"

section \<open>Machine integers\<close>

definition checked_mul :: "'a::len word \<Rightarrow> 'a word \<Rightarrow> 'a word option" where
  "checked_mul a b = (if unat a * unat b < 2 ^ LENGTH('a) then Some (a * b) else None)"

definition saturating_mul :: "'a::len word \<Rightarrow> 'a word \<Rightarrow> 'a word" where
  "saturating_mul a b = (case checked_mul a b of Some c \<Rightarrow> c | None \<Rightarrow> - 1)"

definition saturating_sub :: "'a::len word \<Rightarrow> 'a word \<Rightarrow> 'a word" where
  "saturating_sub a b = (if b \<le> a then a - b else 0)"

definition block_size :: u64 where
  "block_size = ucast DEFAULT_MANIFEST_V2_BLOCK_PLAINTEXT_BYTES"

text \<open>The number of blocks of an entry, with the checked addition of its rounding up.\<close>

definition total_blocks :: "ManifestEntryV2 \<Rightarrow> ManifestV2DataError + u64" where
  "total_blocks entry =
     bindR (ok_or (checked_add (me_plaintext_size entry) (block_size - 1)) ME_ArithmeticOverflow) (\<lambda>n.
     Inr (n div block_size))"

definition known_digest :: "ManifestEntryV2 \<Rightarrow> ContentDigestV2 option" where
  "known_digest entry = (case me_content_digest entry of Known d \<Rightarrow> Some d | Deferred \<Rightarrow> None)"

definition empty_digest :: "EngineLibs \<Rightarrow> ContentDigestV2" where
  "empty_digest el = cy_hash (el_crypto el) []"

definition frame_body_digest :: "EngineLibs \<Rightarrow> ManifestV2Frame \<Rightarrow> ManifestV2DataError + ContentDigestV2" where
  "frame_body_digest el frame =
     map_err ME_Codec (canonical_manifest_v2_frame_body_digest (cy_hash (el_crypto el)) (cy_nfc (el_crypto el)) frame)"

definition rebuild_offer :: "EngineLibs \<Rightarrow> ManifestV2 \<Rightarrow> ManifestV2DataError + ManifestOfferV2" where
  "rebuild_offer el manifest =
     map_err (\<lambda>e. ME_Codec (OfferRejected e))
       (build_manifest_offer_v2 (cy_hash (el_crypto el)) (cy_nfc (el_crypto el)) manifest)"

section \<open>The accept\<close>

definition accept_entry_ok :: "ManifestEntryV2 \<Rightarrow> EntryPlanV2 \<Rightarrow> ManifestV2DataError + unit" where
  "accept_entry_ok entry plan =
     bindR (rejectR (ep_entry_id plan \<noteq> me_entry_id entry
         \<or> me_kind entry = Directory \<and> (ep_disposition plan \<noteq> Disp_ReceivePayload \<or> ep_next_plaintext_block plan \<noteq> 0)
         \<or> ep_disposition plan = Disp_ReuseExisting
             \<and> (known_digest entry = None \<or> ep_next_plaintext_block plan \<noteq> 0)) ME_AcceptMismatch) (\<lambda>_.
     bindR (total_blocks entry) (\<lambda>total.
     rejectR (ep_next_plaintext_block plan > total) ME_AcceptMismatch))"

fun accept_entries_ok :: "(ManifestEntryV2 \<times> EntryPlanV2) list \<Rightarrow> ManifestV2DataError + unit" where
  "accept_entries_ok [] = Inr ()"
| "accept_entries_ok ((entry, plan) # rest) =
     bindR (accept_entry_ok entry plan) (\<lambda>_. accept_entries_ok rest)"

definition validate_accept :: "ManifestOfferV2 \<Rightarrow> ManifestAcceptV2 \<Rightarrow> ManifestV2DataError + unit" where
  "validate_accept offer accept =
     (let m = of_manifest offer in
      bindR (rejectR (jg_job_id (ac_identity accept) \<noteq> mf_job_id m
          \<or> jg_generation (ac_identity accept) \<noteq> mf_generation m
          \<or> ac_manifest_digest accept \<noteq> of_structural_digest offer
          \<or> length (ac_root_plans accept) \<noteq> length (mf_roots m)
          \<or> length (ac_entry_plans accept) \<noteq> length (mf_entries m)) ME_AcceptMismatch) (\<lambda>_.
      bindR (rejectR (list_ex (\<lambda>(index, root, plan).
            mr_root_id root \<noteq> word_of_nat index \<or> rp_root_id plan \<noteq> mr_root_id root)
          (enumerate 0 (zip (mf_roots m) (ac_root_plans accept)))) ME_AcceptMismatch) (\<lambda>_.
      accept_entries_ok (zip (mf_entries m) (ac_entry_plans accept)))))"

section \<open>The ledger\<close>

definition checkpoint_new :: "ManifestEntryV2 \<Rightarrow> EntryPlanV2 \<Rightarrow> ReceiverEntryCheckpointV2" where
  "checkpoint_new entry plan =
     \<lparr>cp_entry_id = me_entry_id entry, cp_start = None, cp_arbiter = Arb_PayloadOpen,
      cp_next_plaintext_block = ep_next_plaintext_block plan,
      cp_plaintext_bytes = min (saturating_mul (ep_next_plaintext_block plan) block_size) (me_plaintext_size entry),
      cp_content_digest = known_digest entry, cp_completion = None, cp_result = None,
      cp_payload_retired = False\<rparr>"

definition ledger_new ::
  "EngineLibs \<Rightarrow> ManifestOfferV2 \<Rightarrow> ManifestAcceptV2 \<Rightarrow> ManifestV2DataError + ReceiverDataPlaneLedgerV2" where
  "ledger_new el offer accept =
     bindR (validate_accept offer accept) (\<lambda>_.
     bindR (frame_body_digest el (F_Accept accept)) (\<lambda>body_digest.
     Inr \<lparr>lg_schema_version = RECEIVER_DATA_PLANE_SCHEMA_VERSION, lg_identity = ac_identity accept,
          lg_manifest_digest = of_structural_digest offer, lg_accept = accept, lg_accept_body_digest = body_digest,
          lg_entries = map (\<lambda>entry. checkpoint_new entry (ac_entry_plans accept ! unat (me_entry_id entry)))
            (mf_entries (of_manifest offer)),
          lg_sender_completion_set_digest = None\<rparr>))"

definition requires_authenticated_resume :: "ReceiverDataPlaneLedgerV2 \<Rightarrow> bool" where
  "requires_authenticated_resume l \<longleftrightarrow>
     lg_sender_completion_set_digest l \<noteq> None
     \<or> list_ex (\<lambda>c. cp_start c \<noteq> None \<or> cp_completion c \<noteq> None \<or> cp_result c \<noteq> None
         \<or> cp_next_plaintext_block c > 0 \<or> cp_plaintext_bytes c > 0) (lg_entries l)"

definition checkpoint_identity_ok :: "JobGenerationV2 \<Rightarrow> nat \<Rightarrow> ReceiverEntryCheckpointV2 \<Rightarrow> bool" where
  "checkpoint_identity_ok identity index c \<longleftrightarrow>
     cp_entry_id c = word_of_nat index
     \<and> (case cp_result c of None \<Rightarrow> True | Some r \<Rightarrow> er_identity r = identity \<and> er_entry_id r = cp_entry_id c)
     \<and> (case cp_start c of None \<Rightarrow> True | Some s \<Rightarrow> es_identity s = identity \<and> es_entry_id s = cp_entry_id c)
     \<and> (case cp_completion c of None \<Rightarrow> True | Some k \<Rightarrow> co_identity k = identity \<and> co_entry_id k = cp_entry_id c)"

definition ledger_validate ::
  "EngineLibs \<Rightarrow> ReceiverDataPlaneLedgerV2 \<Rightarrow> ManifestV2 \<Rightarrow> ManifestV2DataError + unit" where
  "ledger_validate el l manifest =
     bindR (rebuild_offer el manifest) (\<lambda>offer.
     bindR (rejectR (lg_schema_version l \<noteq> RECEIVER_DATA_PLANE_SCHEMA_VERSION
         \<or> jg_job_id (lg_identity l) \<noteq> mf_job_id manifest \<or> jg_generation (lg_identity l) \<noteq> mf_generation manifest
         \<or> lg_manifest_digest l \<noteq> of_structural_digest offer
         \<or> length (lg_entries l) \<noteq> length (mf_entries manifest)
         \<or> ac_identity (lg_accept l) \<noteq> lg_identity l
         \<or> ac_manifest_digest (lg_accept l) \<noteq> lg_manifest_digest l)
       (ME_InvalidLedger ''identity, schema, or entry count changed'')) (\<lambda>_.
     bindR (validate_accept offer (lg_accept l)) (\<lambda>_.
     bindR (rejectR (\<not> list_all (\<lambda>(index, c). checkpoint_identity_ok (lg_identity l) index c)
         (enumerate 0 (lg_entries l))) (ME_InvalidLedger ''entry checkpoint identity changed'')) (\<lambda>_.
     bindR (frame_body_digest el (F_Accept (lg_accept l))) (\<lambda>digest.
     rejectR (digest \<noteq> lg_accept_body_digest l) (ME_InvalidLedger ''Accept bytes changed after commit''))))))"

definition resume_entry :: "ReceiverEntryCheckpointV2 \<Rightarrow> ResumeEntryV2" where
  "resume_entry c =
     \<lparr>re_entry_id = cp_entry_id c, re_arbiter = cp_arbiter c, re_next_plaintext_block = cp_next_plaintext_block c,
      re_content_digest = cp_content_digest c, re_entry_result = cp_result c\<rparr>"

definition resume_status :: "ReceiverDataPlaneLedgerV2 \<Rightarrow> ResumeStatusV2" where
  "resume_status l =
     \<lparr>rs_identity = lg_identity l, rs_accept_body_digest = lg_accept_body_digest l,
      rs_plan_revision = ac_plan_revision (lg_accept l), rs_entries = map resume_entry (lg_entries l),
      rs_challenge_nonce = replicate 32 0, rs_challenge_mac = replicate 32 0\<rparr>"

definition validate_resume_request ::
  "ReceiverDataPlaneLedgerV2 \<Rightarrow> ResumeRequestV2 \<Rightarrow> ManifestV2DataError + unit" where
  "validate_resume_request l request =
     rejectR (rr_identity request \<noteq> lg_identity l
       \<or> of_structural_digest (rr_offer request) \<noteq> lg_manifest_digest l
       \<or> rr_accept_body_digest request \<noteq> lg_accept_body_digest l) ME_AcceptMismatch"

text \<open>\<open>collect::<Option<Vec<_>>>\<close>.\<close>

fun all_some :: "'a option list \<Rightarrow> 'a list option" where
  "all_some [] = Some []"
| "all_some (x # xs) = Option.bind x (\<lambda>a. map_option ((#) a) (all_some xs))"

definition completed_summary :: "ReceiverDataPlaneLedgerV2 \<Rightarrow> ReceiverDataPlaneSummaryV2 option" where
  "completed_summary l =
     Option.bind (lg_sender_completion_set_digest l) (\<lambda>digest.
     Option.bind (all_some (map cp_result (lg_entries l))) (\<lambda>results.
     Some \<lparr>rv_identity = lg_identity l, rv_sender_completion_set_digest = digest, rv_entry_results = results\<rparr>))"

definition pending_payload_boundaries :: "ReceiverDataPlaneLedgerV2 \<Rightarrow> (u32 \<times> u64 \<times> u64 \<times> bool) list" where
  "pending_payload_boundaries l =
     map (\<lambda>c. (cp_entry_id c, cp_next_plaintext_block c, cp_plaintext_bytes c, cp_completion c \<noteq> None))
       (filter (\<lambda>c. cp_result c = None
            \<and> ep_disposition (ac_entry_plans (lg_accept l) ! unat (cp_entry_id c)) = Disp_ReceivePayload)
         (lg_entries l))"

definition pending_reuse_entries :: "ReceiverDataPlaneLedgerV2 \<Rightarrow> (u32 \<times> ContentDigestV2) list" where
  "pending_reuse_entries l =
     List.map_filter (\<lambda>c. map_option (\<lambda>d. (cp_entry_id c, d)) (cp_content_digest c))
       (filter (\<lambda>c. cp_result c = None \<and> cp_arbiter c = Arb_ReuseChosen) (lg_entries l))"

definition update_checkpoint ::
  "nat \<Rightarrow> (ReceiverEntryCheckpointV2 \<Rightarrow> ReceiverEntryCheckpointV2) \<Rightarrow> ReceiverDataPlaneLedgerV2 \<Rightarrow> ReceiverDataPlaneLedgerV2" where
  "update_checkpoint i f l = l\<lparr>lg_entries := (lg_entries l)[i := f (lg_entries l ! i)]\<rparr>"

section \<open>The store of the ledger\<close>

definition ledger_path :: "JobGenerationV2 \<Rightarrow> str" where
  "ledger_path identity = store_path (ascii ''receiver'') identity"

definition ledger_save ::
  "EngineLibs \<Rightarrow> SaveIo \<Rightarrow> ReceiverDataPlaneLedgerV2 \<Rightarrow> disk \<Rightarrow> (ManifestV2DataError + unit) \<times> disk" where
  "ledger_save el io l disk =
     (case el_ledger_to_vec el l of
        None \<Rightarrow> (Inl ME_Json, disk)
      | Some bs \<Rightarrow>
          (case io of
             Save_Done \<Rightarrow> (Inr (), disk(ledger_path (lg_identity l) \<mapsto> bs))
           | Save_Failed \<Rightarrow> (Inl (ME_Io Io_Other), disk)
           | Save_Unsynced \<Rightarrow> (Inl (ME_Io Io_Other), disk(ledger_path (lg_identity l) \<mapsto> bs))))"

definition ledger_load ::
  "EngineLibs \<Rightarrow> bool \<Rightarrow> JobGenerationV2 \<Rightarrow> disk \<Rightarrow> ManifestV2DataError + ReceiverDataPlaneLedgerV2 option" where
  "ledger_load el readable identity disk =
     (case disk (ledger_path identity) of
        None \<Rightarrow> Inr None
      | Some bs \<Rightarrow>
          bindR (rejectR (\<not> readable) (ME_Io Io_Other)) (\<lambda>_.
          bindR (ok_or (el_ledger_from_slice el bs) ME_Json) (\<lambda>l. Inr (Some l))))"

definition checkpoint_reset :: "ManifestEntryV2 \<Rightarrow> ReceiverEntryCheckpointV2 \<Rightarrow> ReceiverEntryCheckpointV2" where
  "checkpoint_reset entry c =
     c\<lparr>cp_start := None, cp_arbiter := Arb_PayloadOpen, cp_next_plaintext_block := 0, cp_plaintext_bytes := 0,
       cp_content_digest := known_digest entry, cp_completion := None, cp_payload_retired := True\<rparr>"

definition reset_payload_checkpoint ::
  "EngineLibs \<Rightarrow> ManifestV2 \<Rightarrow> u32 \<Rightarrow> SaveIo \<Rightarrow> ReceiverDataPlaneLedgerV2 \<times> disk
     \<Rightarrow> (ManifestV2DataError + unit) \<times> ReceiverDataPlaneLedgerV2 \<times> disk" where
  "reset_payload_checkpoint el manifest entry_id io = (\<lambda>(l, disk).
     (let i = unat entry_id in
      case bindR (ok_or (vec_get (mf_entries manifest) i) ME_EntryOrder) (\<lambda>entry.
           bindR (rejectR (me_entry_id entry \<noteq> entry_id) ME_EntryOrder) (\<lambda>_.
           bindR (ok_or (vec_get (ac_entry_plans (lg_accept l)) i) ME_EntryOrder) (\<lambda>plan.
           bindR (rejectR (ep_entry_id plan \<noteq> entry_id) ME_EntryOrder) (\<lambda>_.
           bindR (ok_or (vec_get (lg_entries l) i) ME_EntryOrder) (\<lambda>c.
           bindR (rejectR (cp_entry_id c \<noteq> entry_id) ME_EntryOrder) (\<lambda>_.
           bindR (rejectR (cp_result c \<noteq> None \<or> ep_disposition plan \<noteq> Disp_ReceivePayload)
             (ME_InvalidLedger ''cannot reset a terminal or reuse payload checkpoint'')) (\<lambda>_.
           Inr entry))))))) of
        Inl e \<Rightarrow> (Inl e, l, disk)
      | Inr entry \<Rightarrow>
          let l' = (update_checkpoint i (checkpoint_reset entry) l)\<lparr>lg_sender_completion_set_digest := None\<rparr> in
          (case ledger_save el io l' disk of (r, disk') \<Rightarrow> (r, l', disk'))))"

section \<open>Completions and results\<close>

definition result_completion_choice :: "EntryResultKindV2 \<Rightarrow> EntryCompletionChoiceV2" where
  "result_completion_choice r = (case r of Res_Saved \<Rightarrow> Comp_PayloadComplete | Res_ReusedExisting \<Rightarrow> Comp_ReuseChosen)"

definition completion_from_result ::
  "EngineLibs \<Rightarrow> ManifestEntryV2 \<Rightarrow> EntryResultV2 \<Rightarrow> ManifestV2DataError + EntryCompleteV2" where
  "completion_from_result el entry result =
     bindR (rejectR (er_entry_id result \<noteq> me_entry_id entry \<or> er_final_size result \<noteq> me_plaintext_size entry)
       ME_FinalMismatch) (\<lambda>_.
     bindR (case me_kind entry of
              RegularFile \<Rightarrow> ok_or (er_final_digest result) ME_FinalMismatch
            | Directory \<Rightarrow> if er_final_digest result = None then Inr (empty_digest el) else Inl ME_FinalMismatch)
       (\<lambda>final_digest.
     Inr \<lparr>co_identity = er_identity result, co_entry_id = er_entry_id result, co_final_size = er_final_size result,
          co_final_digest = final_digest, co_completion_choice = result_completion_choice (er_result result)\<rparr>))"

definition completion_from_resume_checkpoint ::
  "EngineLibs \<Rightarrow> JobGenerationV2 \<Rightarrow> ManifestEntryV2 \<Rightarrow> ResumeEntryV2 \<Rightarrow> ManifestV2DataError + EntryCompleteV2" where
  "completion_from_resume_checkpoint el identity entry c =
     bindR (case re_arbiter c of
              Arb_PayloadOpen \<Rightarrow> Inl (ME_InvalidLedger ''open payload cannot be treated as complete'')
            | Arb_ReuseChosen \<Rightarrow>
                bindR (ok_or (re_content_digest c) (ME_InvalidLedger ''reused entry is missing its content digest''))
                  (\<lambda>d. Inr (d, Comp_ReuseChosen))
            | Arb_PayloadCompleteChosen \<Rightarrow>
                if me_kind entry = Directory then Inr (empty_digest el, Comp_PayloadComplete)
                else bindR (ok_or (re_content_digest c)
                       (ME_InvalidLedger ''completed file is missing its content digest''))
                  (\<lambda>d. Inr (d, Comp_PayloadComplete))) (\<lambda>(final_digest, choice).
     Inr \<lparr>co_identity = identity, co_entry_id = me_entry_id entry, co_final_size = me_plaintext_size entry,
          co_final_digest = final_digest, co_completion_choice = choice\<rparr>)"

definition expected_result :: "EntryCompletionChoiceV2 \<Rightarrow> EntryResultKindV2" where
  "expected_result choice = (case choice of Comp_PayloadComplete \<Rightarrow> Res_Saved | Comp_ReuseChosen \<Rightarrow> Res_ReusedExisting)"

definition validate_entry_result ::
  "ManifestEntryV2 \<Rightarrow> JobGenerationV2 \<Rightarrow> EntryCompleteV2 \<Rightarrow> EntryResultV2 \<Rightarrow> ManifestV2DataError + unit" where
  "validate_entry_result entry identity completion result =
     rejectR (er_identity result \<noteq> identity \<or> er_entry_id result \<noteq> me_entry_id entry
       \<or> er_result result \<noteq> expected_result (co_completion_choice completion)
       \<or> er_final_size result \<noteq> me_plaintext_size entry
       \<or> me_kind entry = Directory \<and> er_final_digest result \<noteq> None
       \<or> me_kind entry = RegularFile \<and> er_final_digest result = None
       \<or> me_kind entry = RegularFile \<and> er_final_digest result \<noteq> Some (co_final_digest completion)) ME_FinalMismatch"

text \<open>\<open>update_completion_set\<close> on the bytes the hasher has taken so far.\<close>

definition update_completion_set :: "EngineLibs \<Rightarrow> bytes \<Rightarrow> EntryCompleteV2 \<Rightarrow> ManifestV2DataError + bytes" where
  "update_completion_set el hasher completion =
     bindR (map_err ME_Codec (encode_manifest_v2_frame (cy_hash (el_crypto el)) (cy_nfc (el_crypto el))
       (F_EntryComplete completion))) (\<lambda>bs.
     Inr (hasher @ u32_to_be (word_of_nat (length bs)) @ bs))"

section \<open>Resuming\<close>

definition resume_entry_plaintext_bytes :: "ManifestEntryV2 \<Rightarrow> ResumeEntryV2 \<Rightarrow> ManifestV2DataError + u64" where
  "resume_entry_plaintext_bytes entry c =
     bindR (rejectR (re_entry_id c \<noteq> me_entry_id entry) ME_EntryOrder) (\<lambda>_.
     if re_entry_result c \<noteq> None \<or> re_arbiter c = Arb_ReuseChosen \<or> re_arbiter c = Arb_PayloadCompleteChosen
     then Inr (me_plaintext_size entry)
     else ok_or (map_option (\<lambda>n. min n (me_plaintext_size entry)) (checked_mul (re_next_plaintext_block c) block_size))
       ME_ArithmeticOverflow)"

fun resume_bytes_from :: "u64 \<Rightarrow> (ManifestEntryV2 \<times> ResumeEntryV2) list \<Rightarrow> ManifestV2DataError + u64" where
  "resume_bytes_from acc [] = Inr acc"
| "resume_bytes_from acc ((entry, c) # rest) =
     bindR (resume_entry_plaintext_bytes entry c) (\<lambda>n.
     bindR (ok_or (checked_add acc n) ME_ArithmeticOverflow) (\<lambda>acc'. resume_bytes_from acc' rest))"

definition resume_plaintext_bytes :: "ManifestV2 \<Rightarrow> ResumeStatusV2 \<Rightarrow> ManifestV2DataError + u64" where
  "resume_plaintext_bytes manifest status = resume_bytes_from 0 (zip (mf_entries manifest) (rs_entries status))"

definition arbiter_shape_valid :: "ManifestEntryV2 \<Rightarrow> ResumeEntryV2 \<Rightarrow> bool" where
  "arbiter_shape_valid entry c =
     (case re_arbiter c of
        Arb_PayloadOpen \<Rightarrow> re_entry_result c = None
      | Arb_ReuseChosen \<Rightarrow> me_kind entry = RegularFile \<and> re_next_plaintext_block c = 0 \<and> re_content_digest c \<noteq> None
      | Arb_PayloadCompleteChosen \<Rightarrow> True)"

definition result_matches_arbiter :: "ResumeEntryV2 \<Rightarrow> bool" where
  "result_matches_arbiter c =
     (case re_entry_result c of
        None \<Rightarrow> True
      | Some r \<Rightarrow> (re_arbiter c, er_result r)
          \<in> {(Arb_ReuseChosen, Res_ReusedExisting), (Arb_PayloadCompleteChosen, Res_Saved)})"

definition resume_entry_ok ::
  "EngineLibs \<Rightarrow> JobGenerationV2 \<Rightarrow> ManifestEntryV2 \<Rightarrow> ResumeEntryV2 \<Rightarrow> ManifestV2DataError + unit" where
  "resume_entry_ok el identity entry c =
     bindR (total_blocks entry) (\<lambda>total.
     rejectR (re_entry_id c \<noteq> me_entry_id entry \<or> re_next_plaintext_block c > total
       \<or> \<not> arbiter_shape_valid entry c \<or> \<not> result_matches_arbiter c
       \<or> (case re_entry_result c of None \<Rightarrow> False | Some r \<Rightarrow>
            er_identity r \<noteq> identity \<or> er_entry_id r \<noteq> me_entry_id entry
            \<or> (case completion_from_result el entry r of Inl _ \<Rightarrow> True | Inr _ \<Rightarrow> False)))
       (ME_InvalidLedger ''receiver resume boundary is inconsistent''))"

fun resume_entries_ok ::
  "EngineLibs \<Rightarrow> JobGenerationV2 \<Rightarrow> (ManifestEntryV2 \<times> ResumeEntryV2) list \<Rightarrow> ManifestV2DataError + unit" where
  "resume_entries_ok el identity [] = Inr ()"
| "resume_entries_ok el identity ((entry, c) # rest) =
     bindR (resume_entry_ok el identity entry c) (\<lambda>_. resume_entries_ok el identity rest)"

definition validate_resume_status ::
  "EngineLibs \<Rightarrow> ManifestV2 \<Rightarrow> SenderDeliveryRecordV2 \<Rightarrow> ResumeStatusV2 \<Rightarrow> ManifestV2DataError + unit" where
  "validate_resume_status el manifest r status =
     bindR (ok_or (sd_accept r) (ME_InvalidLedger ''sender Accept is missing during resume'')) (\<lambda>accept.
     bindR (rejectR (rs_identity status \<noteq> sd_identity r
         \<or> Some (rs_accept_body_digest status) \<noteq> sd_accept_body_digest r
         \<or> rs_plan_revision status \<noteq> ac_plan_revision accept
         \<or> length (rs_entries status) \<noteq> length (mf_entries manifest)) ME_AcceptMismatch) (\<lambda>_.
     bindR (resume_entries_ok el (rs_identity status) (zip (mf_entries manifest) (rs_entries status))) (\<lambda>_.
     if sd_phase r = WaitingForReceiverSave \<or> sd_phase r = Delivered
     then bindR (ok_or (completed_data_summary r)
            (ME_InvalidLedger ''sender waiting-for-save record has no completed result set'')) (\<lambda>completed.
          rejectR (all_some (map re_entry_result (rs_entries status)) \<noteq> Some (ss_entry_results completed))
            (ME_InvalidLedger ''receiver resume result set differs from the sender checkpoint''))
     else Inr ())))"

definition sender_checkpoint_digest ::
  "Crypto \<Rightarrow> ContentDigestV2 \<Rightarrow> ContentDigestV2 \<Rightarrow> SenderResumeIntentV2 \<Rightarrow> ContentDigestV2" where
  "sender_checkpoint_digest cy manifest_digest accept_body_digest intent =
     cy_derive cy ''envoix/manifest/v2/sender-checkpoint''
       (manifest_digest @ accept_body_digest @ [case intent of ContinueData \<Rightarrow> 1 | AwaitDelivery \<Rightarrow> 2])"

definition sender_resume_intent ::
  "Crypto \<Rightarrow> ContentDigestV2 \<Rightarrow> ContentDigestV2 \<Rightarrow> ResumeRequestV2 \<Rightarrow> ManifestV2DataError + SenderResumeIntentV2" where
  "sender_resume_intent cy manifest_digest accept_body_digest request =
     ok_or (find (\<lambda>intent. rr_sender_checkpoint_digest request
              = sender_checkpoint_digest cy manifest_digest accept_body_digest intent) [ContinueData, AwaitDelivery])
       (ME_InvalidLedger ''sender reconnect intent is invalid'')"

section \<open>Blocks\<close>

definition encode_block :: "EngineLibs \<Rightarrow> EntryEncodingV2 \<Rightarrow> bytes \<Rightarrow> ManifestV2DataError + bytes" where
  "encode_block el encoding plaintext =
     bindR (case encoding of
              Enc_Identity \<Rightarrow> Inr plaintext
            | Enc_Zstd \<Rightarrow> ok_or (el_compress el plaintext) ME_InvalidCompressedBlock) (\<lambda>encoded.
     bindR (rejectR (encoded = [] \<or> length encoded > MAX_MANIFEST_V2_BLOCK_ENCODED_BYTES) ME_InvalidCompressedBlock) (\<lambda>_.
     Inr encoded))"

definition decode_block :: "EngineLibs \<Rightarrow> EntryEncodingV2 \<Rightarrow> EntryBlockV2 \<Rightarrow> ManifestV2DataError + EntryBlockV2" where
  "decode_block el encoding block =
     (let expected = unat (bl_plaintext_length block) in
      bindR (case encoding of
               Enc_Identity \<Rightarrow> Inr (bl_encoded_bytes block)
             | Enc_Zstd \<Rightarrow> ok_or (el_decompress el (bl_encoded_bytes block) expected) ME_InvalidCompressedBlock) (\<lambda>plaintext.
      bindR (rejectR (length plaintext \<noteq> expected) ME_InvalidCompressedBlock) (\<lambda>_.
      Inr (block\<lparr>bl_encoded_bytes := plaintext\<rparr>))))"

definition validate_block ::
  "ManifestEntryV2 \<Rightarrow> ReceiverEntryCheckpointV2 \<Rightarrow> EntryBlockV2 \<Rightarrow> ManifestV2DataError + unit" where
  "validate_block entry c block =
     bindR (ok_or (cp_start c) (ME_InvalidLedger ''entry start is missing'')) (\<lambda>start.
     bindR (ok_or (checked_mul (bl_block_index block) (ucast (es_plaintext_block_bytes start))) ME_ArithmeticOverflow)
       (\<lambda>expected_offset.
     bindR (ok_or (checked_add (bl_plaintext_offset block) (ucast (bl_plaintext_length block))) ME_ArithmeticOverflow)
       (\<lambda>end_offset.
     rejectR (bl_identity block \<noteq> es_identity start \<or> bl_entry_id block \<noteq> me_entry_id entry
       \<or> bl_block_index block \<noteq> cp_next_plaintext_block c \<or> bl_plaintext_offset block \<noteq> expected_offset
       \<or> end_offset > me_plaintext_size entry \<or> bl_plaintext_length block = 0
       \<or> bl_plaintext_length block > es_plaintext_block_bytes start
       \<or> bl_encoded_bytes block = [] \<or> length (bl_encoded_bytes block) > MAX_MANIFEST_V2_BLOCK_ENCODED_BYTES
       \<or> es_encoding start = Enc_Identity \<and> unat (bl_plaintext_length block) \<noteq> length (bl_encoded_bytes block)
       \<or> end_offset < me_plaintext_size entry \<and> bl_plaintext_length block \<noteq> es_plaintext_block_bytes start)
       ME_BlockOrder)))"

definition set_or_equal_digest ::
  "ReceiverEntryCheckpointV2 \<Rightarrow> ContentDigestV2 \<Rightarrow> ManifestV2DataError + ReceiverEntryCheckpointV2" where
  "set_or_equal_digest c digest =
     (case cp_content_digest c of
        Some existing \<Rightarrow> if existing \<noteq> digest then Inl ME_DigestConflict else Inr c
      | None \<Rightarrow> Inr (c\<lparr>cp_content_digest := Some digest\<rparr>))"

end
