(* ===== verification/Engine_Receive.thy ===== *)
theory Engine_Receive
  imports Engine_Data
begin

text \<open>
  The connection, the stores and the progress sink of a data-plane run, and the receiver of
  \<open>manifest_v2_engine.rs\<close> on them. A run is given what arrives (\<open>None\<close> a failed receive, the end of the
  list a closed connection), the outcome of its sends and saves in order (success once the list
  is over), and keeps what it sent, stored and reported. The trait \<open>ManifestV2PayloadSink\<close> is the
  record \<open>PayloadSink\<close> of functions on the state of a sink.
\<close>

section \<open>A run\<close>

datatype ProgressEvent =
    On_progress u64 u64
  | On_phase ManifestV2ProgressPhase
  | On_stage TransferStage

record Plane =
  pl_inbox :: "ManifestV2Frame option list"
  pl_sent :: "ManifestV2Frame list"
  pl_sends :: "bool list"
  pl_saves :: "SaveIo list"
  pl_disk :: disk
  pl_events :: "ProgressEvent list"
  pl_completed :: u64

definition recv_frame :: "('z Plane_scheme, ManifestV2DataError, ManifestV2Frame) op" where
  "recv_frame p =
     (case pl_inbox p of
        [] \<Rightarrow> (Inl ME_Core, p)
      | arrival # rest \<Rightarrow>
          (case arrival of None \<Rightarrow> Inl ME_Core | Some frame \<Rightarrow> Inr frame, p\<lparr>pl_inbox := rest\<rparr>))"

definition send_frame :: "ManifestV2Frame \<Rightarrow> ('z Plane_scheme, ManifestV2DataError, unit) op" where
  "send_frame frame p =
     (let p' = p\<lparr>pl_sends := tl (pl_sends p)\<rparr> in
      if pl_sends p = [] \<or> hd (pl_sends p) then (Inr (), p'\<lparr>pl_sent := pl_sent p' @ [frame]\<rparr>)
      else (Inl ME_Core, p'))"

definition next_save :: "SaveIo list \<Rightarrow> SaveIo" where
  "next_save saves = (case saves of [] \<Rightarrow> Save_Done | io # _ \<Rightarrow> io)"

definition emit :: "ProgressEvent \<Rightarrow> ('z Plane_scheme, 'e, unit) op" where
  "emit event = modifyM (\<lambda>p. p\<lparr>pl_events := pl_events p @ [event]\<rparr>)"

text \<open>\<open>*completed = completed.checked_add(n)?; progress.on_progress(*completed, total)\<close>.\<close>

definition add_completed :: "u64 \<Rightarrow> u64 \<Rightarrow> ('z Plane_scheme, ManifestV2DataError, unit) op" where
  "add_completed n overall =
     bindM (checkM (\<lambda>p. ok_or (checked_add (pl_completed p) n) ME_ArithmeticOverflow)) (\<lambda>completed.
     bindM (modifyM (\<lambda>p. p\<lparr>pl_completed := completed\<rparr>)) (\<lambda>_.
     emit (On_progress completed overall)))"

section \<open>The receiver\<close>

record 's PayloadSink =
  sk_begin_entry :: "ManifestEntryV2 \<Rightarrow> EntryStartV2 \<Rightarrow> u64 \<Rightarrow> ('s, ManifestV2DataError, unit) op"
  sk_write_block :: "ManifestEntryV2 \<Rightarrow> EntryBlockV2 \<Rightarrow> ('s, ManifestV2DataError, unit) op"
  sk_try_choose_reuse :: "ManifestEntryV2 \<Rightarrow> ContentDigestV2 \<Rightarrow> ('s, ManifestV2DataError, bool) op"
  sk_verify_payload :: "ManifestEntryV2 \<Rightarrow> ContentDigestV2 \<Rightarrow> ('s, ManifestV2DataError, unit) op"
  sk_stage_directory :: "ManifestEntryV2 \<Rightarrow> ('s, ManifestV2DataError, unit) op"
  sk_commit_job :: "ManifestV2 \<Rightarrow> VerifiedEntryV2 list \<Rightarrow> ('s, ManifestV2DataError, SavedEntryV2 list) op"
  sk_retire_payload :: "ManifestEntryV2 \<Rightarrow> ('s, ManifestV2DataError, unit) op"

text \<open>\<open>ManifestV2ResultGate::commit_results\<close>, and the gate that changes nothing.\<close>

type_synonym result_gate = "ManifestV2 \<Rightarrow> SavedEntryV2 list \<Rightarrow> ManifestV2DataError + SavedEntryV2 list"

definition noop_result_gate :: result_gate where
  "noop_result_gate manifest saved = Inr saved"

record 's ReceiverPlane = Plane +
  rx_ledger :: ReceiverDataPlaneLedgerV2
  rx_sink :: 's

type_synonym ('s, 'a) rx_op = "('s ReceiverPlane, ManifestV2DataError, 'a) op"

abbreviation rx_checkpoint :: "nat \<Rightarrow> 's ReceiverPlane \<Rightarrow> ReceiverEntryCheckpointV2" where
  "rx_checkpoint i p \<equiv> lg_entries (rx_ledger p) ! i"

definition set_checkpoint :: "nat \<Rightarrow> (ReceiverEntryCheckpointV2 \<Rightarrow> ReceiverEntryCheckpointV2) \<Rightarrow> ('s, unit) rx_op" where
  "set_checkpoint i f = modifyM (\<lambda>p. p\<lparr>rx_ledger := update_checkpoint i f (rx_ledger p)\<rparr>)"

definition save_ledger :: "EngineLibs \<Rightarrow> ('s, unit) rx_op" where
  "save_ledger el p =
     (case ledger_save el (next_save (pl_saves p)) (rx_ledger p) (pl_disk p) of
        (r, disk) \<Rightarrow> (r, p\<lparr>pl_saves := tl (pl_saves p), pl_disk := disk\<rparr>))"

definition on_sink :: "('s, ManifestV2DataError, 'a) op \<Rightarrow> ('s, 'a) rx_op" where
  "on_sink f p = (case f (rx_sink p) of (r, s) \<Rightarrow> (r, p\<lparr>rx_sink := s\<rparr>))"

definition recv_entry_start :: "JobGenerationV2 \<Rightarrow> u32 \<Rightarrow> ('z Plane_scheme, ManifestV2DataError, EntryStartV2) op" where
  "recv_entry_start identity entry_id =
     bindM recv_frame (\<lambda>frame.
     liftM (case frame of
              F_EntryStart start \<Rightarrow>
                if es_identity start = identity \<and> es_entry_id start = entry_id then Inr start
                else Inl (ME_UnexpectedFrame ''waiting for EntryStart'')
            | _ \<Rightarrow> Inl (ME_UnexpectedFrame ''waiting for EntryStart'')))"

text \<open>\<open>retire_mismatch\<close>; \<open>checkpoint_retired\<close> is what it makes of the checkpoint.\<close>

definition checkpoint_retired :: "ManifestEntryV2 \<Rightarrow> ReceiverEntryCheckpointV2 \<Rightarrow> ReceiverEntryCheckpointV2" where
  "checkpoint_retired entry c =
     c\<lparr>cp_payload_retired := True, cp_arbiter := Arb_PayloadOpen, cp_next_plaintext_block := 0,
       cp_plaintext_bytes := 0, cp_content_digest := known_digest entry, cp_completion := None\<rparr>"

definition retire_mismatch :: "EngineLibs \<Rightarrow> 's PayloadSink \<Rightarrow> ManifestEntryV2 \<Rightarrow> nat \<Rightarrow> ('s, unit) rx_op" where
  "retire_mismatch el sk entry i =
     bindM (set_checkpoint i (checkpoint_retired entry)) (\<lambda>_.
     bindM (save_ledger el) (\<lambda>_.
     on_sink (sk_retire_payload sk entry)))"

definition retire_and_fail ::
  "EngineLibs \<Rightarrow> 's PayloadSink \<Rightarrow> ManifestEntryV2 \<Rightarrow> nat \<Rightarrow> ManifestV2DataError \<Rightarrow> ('s, 'a) rx_op" where
  "retire_and_fail el sk entry i e = bindM (retire_mismatch el sk entry i) (\<lambda>_. failM e)"

definition receive_directory ::
  "EngineLibs \<Rightarrow> 's PayloadSink \<Rightarrow> ManifestEntryV2 \<Rightarrow> JobGenerationV2 \<Rightarrow> nat \<Rightarrow> ('s, unit) rx_op" where
  "receive_directory el sk entry identity i =
     bindM recv_frame (\<lambda>frame.
     case frame of
       F_EntryComplete completion \<Rightarrow>
         bindM (liftM (rejectR (co_identity completion \<noteq> identity \<or> co_entry_id completion \<noteq> me_entry_id entry
             \<or> co_final_size completion \<noteq> 0 \<or> co_final_digest completion \<noteq> empty_digest el
             \<or> co_completion_choice completion \<noteq> Comp_PayloadComplete) ME_FinalMismatch)) (\<lambda>_.
         bindM (on_sink (sk_stage_directory sk entry)) (\<lambda>_.
         bindM (set_checkpoint i (\<lambda>c. c\<lparr>cp_arbiter := Arb_PayloadCompleteChosen, cp_completion := Some completion\<rparr>)) (\<lambda>_.
         save_ledger el)))
     | _ \<Rightarrow> failM (ME_UnexpectedFrame ''waiting for directory completion''))"

definition receive_file_completion ::
  "EngineLibs \<Rightarrow> 's PayloadSink \<Rightarrow> ManifestEntryV2 \<Rightarrow> nat \<Rightarrow> ContentDigestV2 \<Rightarrow> ('s, unit) rx_op" where
  "receive_file_completion el sk entry i final_digest =
     bindM (checkM (\<lambda>p. ok_or (cp_completion (rx_checkpoint i p)) (ME_InvalidLedger ''completion was not committed'')))
       (\<lambda>completion.
     bindM (getM (rx_checkpoint i)) (\<lambda>c.
     bindM (case co_completion_choice completion of
              Comp_ReuseChosen \<Rightarrow> liftM (rejectR (cp_arbiter c \<noteq> Arb_ReuseChosen) ME_ReuseUnavailable)
            | Comp_PayloadComplete \<Rightarrow>
                if cp_arbiter c \<noteq> Arb_PayloadOpen \<or> cp_plaintext_bytes c \<noteq> me_plaintext_size entry
                then retire_and_fail el sk entry i ME_FinalMismatch
                else
                  (\<lambda>p. case on_sink (sk_verify_payload sk entry final_digest) p of
                     (Inl e, p') \<Rightarrow> retire_and_fail el sk entry i e p'
                   | (Inr _, p') \<Rightarrow>
                       bindM (set_checkpoint i (\<lambda>c. c\<lparr>cp_arbiter := Arb_PayloadCompleteChosen\<rparr>)) (\<lambda>_.
                       save_ledger el) p')) (\<lambda>_.
     bindM (set_checkpoint i (\<lambda>c. c\<lparr>cp_completion := Some completion\<rparr>)) (\<lambda>_.
     save_ledger el))))"

text \<open>
  \<open>receive_file\<close>: what comes before its loop, the arms of the loop, and the loop over the
  frames that arrive. An arm returns whether the loop is over.
\<close>

definition receive_digest ::
  "EngineLibs \<Rightarrow> 's PayloadSink \<Rightarrow> ManifestEntryV2 \<Rightarrow> nat \<Rightarrow> u64 \<Rightarrow> EntryContentDigestFrameV2 \<Rightarrow> ('s, unit) rx_op" where
  "receive_digest el sk entry i overall frame =
     bindM (getM (\<lambda>p. lg_identity (rx_ledger p))) (\<lambda>identity.
     bindM (liftM (rejectR (cd_identity frame \<noteq> identity \<or> cd_entry_id frame \<noteq> me_entry_id entry) ME_IdentityMismatch)) (\<lambda>_.
     bindM (liftM (rejectR (cd_decision frame \<noteq> Dec_Proposed)
       (ME_UnexpectedFrame ''receiver expected a proposed content digest''))) (\<lambda>_.
     bindM (getM (\<lambda>p. set_or_equal_digest (rx_checkpoint i p) (cd_digest frame))) (\<lambda>digest_set.
     case digest_set of
       Inl _ \<Rightarrow> retire_and_fail el sk entry i ME_DigestConflict
     | Inr c \<Rightarrow>
         bindM (set_checkpoint i (\<lambda>_. c)) (\<lambda>_.
         bindM (if cp_arbiter c = Arb_PayloadOpen then on_sink (sk_try_choose_reuse sk entry (cd_digest frame))
                else returnM False) (\<lambda>reuse.
         bindM (whenM reuse
           (bindM (set_checkpoint i (\<lambda>c. c\<lparr>cp_arbiter := Arb_ReuseChosen, cp_next_plaintext_block := 0, cp_plaintext_bytes := 0\<rparr>)) (\<lambda>_.
            add_completed (saturating_sub (me_plaintext_size entry) (cp_plaintext_bytes c)) overall))) (\<lambda>_.
         bindM (save_ledger el) (\<lambda>_.
         bindM (getM (\<lambda>p. if cp_arbiter (rx_checkpoint i p) = Arb_ReuseChosen then Dec_ReuseExisting
                           else Dec_ContinuePayload)) (\<lambda>decision.
         send_frame (F_EntryContentDigest \<lparr>cd_identity = identity, cd_entry_id = me_entry_id entry,
           cd_digest = cd_digest frame, cd_decision = decision\<rparr>)))))))))) "

definition receive_block ::
  "EngineLibs \<Rightarrow> 's PayloadSink \<Rightarrow> ManifestEntryV2 \<Rightarrow> nat \<Rightarrow> u64 \<Rightarrow> EntryBlockV2 \<Rightarrow> ('s, unit) rx_op" where
  "receive_block el sk entry i overall block =
     bindM (checkM (\<lambda>p. validate_block entry (rx_checkpoint i p) block)) (\<lambda>_.
     bindM (checkM (\<lambda>p. rejectR (cp_arbiter (rx_checkpoint i p) \<noteq> Arb_PayloadOpen) ME_BlockOrder)) (\<lambda>_.
     bindM (checkM (\<lambda>p. ok_or (cp_start (rx_checkpoint i p)) (ME_InvalidLedger ''entry start is missing''))) (\<lambda>start.
     bindM (liftM (decode_block el (es_encoding start) block)) (\<lambda>plaintext_block.
     bindM (on_sink (sk_write_block sk entry plaintext_block)) (\<lambda>_.
     bindM (checkM (\<lambda>p. ok_or (checked_add (cp_next_plaintext_block (rx_checkpoint i p)) 1) ME_ArithmeticOverflow)) (\<lambda>next.
     bindM (set_checkpoint i (\<lambda>c. c\<lparr>cp_next_plaintext_block := next\<rparr>)) (\<lambda>_.
     bindM (liftM (ok_or (checked_add (bl_plaintext_offset block) (ucast (bl_plaintext_length block))) ME_ArithmeticOverflow))
       (\<lambda>received.
     bindM (set_checkpoint i (\<lambda>c. c\<lparr>cp_plaintext_bytes := received\<rparr>)) (\<lambda>_.
     bindM (save_ledger el) (\<lambda>_.
     bindM (emit (On_stage FirstPayload)) (\<lambda>_.
     add_completed (ucast (bl_plaintext_length block)) overall)))))))))))"

definition receive_complete ::
  "EngineLibs \<Rightarrow> 's PayloadSink \<Rightarrow> ManifestEntryV2 \<Rightarrow> nat \<Rightarrow> EntryCompleteV2 \<Rightarrow> ('s, unit) rx_op" where
  "receive_complete el sk entry i completion =
     bindM (checkM (\<lambda>p. rejectR (co_identity completion \<noteq> lg_identity (rx_ledger p)
       \<or> co_entry_id completion \<noteq> me_entry_id entry) ME_IdentityMismatch)) (\<lambda>_.
     bindM (getM (\<lambda>p. set_or_equal_digest (rx_checkpoint i p) (co_final_digest completion))) (\<lambda>digest_set.
     case digest_set of
       Inl _ \<Rightarrow> retire_and_fail el sk entry i ME_DigestConflict
     | Inr c \<Rightarrow>
         bindM (set_checkpoint i (\<lambda>_. c)) (\<lambda>_.
         if co_final_size completion \<noteq> me_plaintext_size entry
         then retire_and_fail el sk entry i ME_FinalMismatch
         else
           bindM (set_checkpoint i (\<lambda>c. c\<lparr>cp_completion := Some completion\<rparr>)) (\<lambda>_.
           bindM (emit (On_phase PP_Verifying)) (\<lambda>_.
           (\<lambda>p. case receive_file_completion el sk entry i (co_final_digest completion) p of
              (r, p') \<Rightarrow> (r, snd (emit (On_phase PP_Transferring) p' :: (unit + unit) \<times> 's ReceiverPlane))))))))"

definition receive_file_frame ::
  "EngineLibs \<Rightarrow> 's PayloadSink \<Rightarrow> ManifestEntryV2 \<Rightarrow> nat \<Rightarrow> u64 \<Rightarrow> ManifestV2Frame \<Rightarrow> ('s, bool) rx_op" where
  "receive_file_frame el sk entry i overall frame =
     (case frame of
        F_EntryContentDigest d \<Rightarrow> bindM (receive_digest el sk entry i overall d) (\<lambda>_. returnM False)
      | F_EntryBlock b \<Rightarrow> bindM (receive_block el sk entry i overall b) (\<lambda>_. returnM False)
      | F_EntryComplete c \<Rightarrow> bindM (receive_complete el sk entry i c) (\<lambda>_. returnM True)
      | F_Cancel c \<Rightarrow> checkM (\<lambda>p. Inl (ME_UnexpectedFrame
          (if ca_identity c = lg_identity (rx_ledger p) then ''peer canceled entry'' else ''receiving entry payload'')))
      | F_Error e \<Rightarrow> checkM (\<lambda>p. Inl (ME_UnexpectedFrame
          (if fe_identity e = lg_identity (rx_ledger p) then ''peer reported failure'' else ''receiving entry payload'')))
      | _ \<Rightarrow> failM (ME_UnexpectedFrame ''receiving entry payload''))"

text \<open>The loop, on the frames still to arrive: no arm of it reads the connection.\<close>

fun receive_file_loop ::
  "EngineLibs \<Rightarrow> 's PayloadSink \<Rightarrow> ManifestEntryV2 \<Rightarrow> nat \<Rightarrow> u64 \<Rightarrow> ManifestV2Frame option list \<Rightarrow> ('s, unit) rx_op" where
  "receive_file_loop el sk entry i overall [] p = (Inl ME_Core, p)"
| "receive_file_loop el sk entry i overall (None # rest) p = (Inl ME_Core, p\<lparr>pl_inbox := rest\<rparr>)"
| "receive_file_loop el sk entry i overall (Some frame # rest) p =
     (case receive_file_frame el sk entry i overall frame (p\<lparr>pl_inbox := rest\<rparr>) of
        (Inl e, p') \<Rightarrow> (Inl e, p')
      | (Inr True, p') \<Rightarrow> (Inr (), p')
      | (Inr False, p') \<Rightarrow> receive_file_loop el sk entry i overall rest p')"

definition receive_reuse :: "EngineLibs \<Rightarrow> 's PayloadSink \<Rightarrow> ManifestEntryV2 \<Rightarrow> nat \<Rightarrow> u64 \<Rightarrow> ('s, unit) rx_op" where
  "receive_reuse el sk entry i overall =
     bindM (getM (\<lambda>p. cp_arbiter (rx_checkpoint i p) = Arb_ReuseChosen)) (\<lambda>resumed_as_reuse.
     bindM (checkM (\<lambda>p. ok_or (cp_content_digest (rx_checkpoint i p)) ME_ReuseUnavailable)) (\<lambda>digest.
     bindM (on_sink (sk_try_choose_reuse sk entry digest)) (\<lambda>reuse.
     bindM (liftM (rejectR (\<not> reuse) ME_ReuseUnavailable)) (\<lambda>_.
     bindM (set_checkpoint i (\<lambda>c. c\<lparr>cp_arbiter := Arb_ReuseChosen\<rparr>)) (\<lambda>_.
     bindM (save_ledger el) (\<lambda>_.
     whenM (\<not> resumed_as_reuse) (add_completed (me_plaintext_size entry) overall)))))))"

definition receive_file ::
  "EngineLibs \<Rightarrow> 's PayloadSink \<Rightarrow> ManifestEntryV2 \<Rightarrow> EntryPlanV2 \<Rightarrow> nat \<Rightarrow> u64 \<Rightarrow> ('s, unit) rx_op" where
  "receive_file el sk entry plan i overall =
     bindM (whenM (ep_disposition plan = Disp_ReuseExisting) (receive_reuse el sk entry i overall)) (\<lambda>_.
     (\<lambda>p. receive_file_loop el sk entry i overall (pl_inbox p) p))"

section \<open>The entries of a job\<close>

definition reuse_completion :: "JobGenerationV2 \<Rightarrow> ManifestEntryV2 \<Rightarrow> ContentDigestV2 \<Rightarrow> EntryCompleteV2" where
  "reuse_completion identity entry digest =
     \<lparr>co_identity = identity, co_entry_id = me_entry_id entry, co_final_size = me_plaintext_size entry,
      co_final_digest = digest, co_completion_choice = Comp_ReuseChosen\<rparr>"

text \<open>The completion of an entry whose arbiter had decided before this run.\<close>

definition decided_completion ::
  "JobGenerationV2 \<Rightarrow> ManifestEntryV2 \<Rightarrow> ReceiverEntryCheckpointV2 \<Rightarrow> ManifestV2DataError + EntryCompleteV2" where
  "decided_completion identity entry c =
     (case cp_completion c of
        Some completion \<Rightarrow> Inr completion
      | None \<Rightarrow>
          if cp_arbiter c = Arb_ReuseChosen
          then bindR (ok_or (cp_content_digest c) (ME_InvalidLedger ''reused entry is missing its content digest''))
            (\<lambda>digest. Inr (reuse_completion identity entry digest))
          else Inl (ME_InvalidLedger ''completed payload is missing its completion fact''))"

definition receive_open_entry ::
  "EngineLibs \<Rightarrow> 's PayloadSink \<Rightarrow> JobGenerationV2 \<Rightarrow> u64 \<Rightarrow> ManifestEntryV2 \<Rightarrow> ('s, EntryCompleteV2) rx_op" where
  "receive_open_entry el sk identity overall entry =
     (let i = unat (me_entry_id entry) in
      bindM (getM (\<lambda>p. ac_entry_plans (lg_accept (rx_ledger p)) ! i)) (\<lambda>plan.
      bindM (recv_entry_start identity (me_entry_id entry)) (\<lambda>start.
      bindM (checkM (\<lambda>p. rejectR (case cp_start (rx_checkpoint i p) of None \<Rightarrow> False | Some existing \<Rightarrow> existing \<noteq> start)
        ME_DigestConflict)) (\<lambda>_.
      bindM (set_checkpoint i (\<lambda>c. c\<lparr>cp_start := Some start, cp_payload_retired := False\<rparr>)) (\<lambda>_.
      bindM (save_ledger el) (\<lambda>_.
      bindM (if me_kind entry = Directory then receive_directory el sk entry identity i
             else bindM (whenM (ep_disposition plan = Disp_ReceivePayload)
                    (bindM (getM (\<lambda>p. cp_next_plaintext_block (rx_checkpoint i p))) (\<lambda>next.
                     on_sink (sk_begin_entry sk entry start next)))) (\<lambda>_.
                  receive_file el sk entry plan i overall)) (\<lambda>_.
      checkM (\<lambda>p. ok_or (cp_completion (rx_checkpoint i p)) (ME_InvalidLedger ''entry completion missing'')))))))))"

definition receive_entry ::
  "EngineLibs \<Rightarrow> 's PayloadSink \<Rightarrow> JobGenerationV2 \<Rightarrow> u64 \<Rightarrow> ManifestEntryV2 \<Rightarrow> ('s, EntryCompleteV2) rx_op" where
  "receive_entry el sk identity overall entry =
     (let i = unat (me_entry_id entry) in
      bindM (getM (rx_checkpoint i)) (\<lambda>c.
      if cp_result c \<noteq> None
      then liftM (ok_or (cp_completion c) (ME_InvalidLedger ''completed entry is missing its completion fact''))
      else if cp_arbiter c \<noteq> Arb_PayloadOpen
      then bindM (liftM (decided_completion identity entry c)) (\<lambda>completion.
           bindM (set_checkpoint i (\<lambda>c. c\<lparr>cp_completion := Some completion\<rparr>)) (\<lambda>_.
           bindM (save_ledger el) (\<lambda>_. returnM completion)))
      else receive_open_entry el sk identity overall entry))"

fun receive_entries ::
  "EngineLibs \<Rightarrow> 's PayloadSink \<Rightarrow> JobGenerationV2 \<Rightarrow> u64 \<Rightarrow> bytes \<Rightarrow> ManifestEntryV2 list \<Rightarrow> ('s, bytes) rx_op" where
  "receive_entries el sk identity overall hasher [] = returnM hasher"
| "receive_entries el sk identity overall hasher (entry # rest) =
     bindM (receive_entry el sk identity overall entry) (\<lambda>completion.
     bindM (liftM (update_completion_set el hasher completion)) (\<lambda>hasher'.
     receive_entries el sk identity overall hasher' rest))"

section \<open>The end of a job\<close>

definition recv_job_complete :: "JobGenerationV2 \<Rightarrow> ('z Plane_scheme, ManifestV2DataError, ContentDigestV2) op" where
  "recv_job_complete identity =
     bindM recv_frame (\<lambda>frame.
     liftM (case frame of
              F_JobComplete complete \<Rightarrow>
                if jc_identity complete = identity then Inr (jc_sender_completion_set_digest complete)
                else Inl (ME_UnexpectedFrame ''waiting for JobComplete'')
            | _ \<Rightarrow> Inl (ME_UnexpectedFrame ''waiting for JobComplete'')))"

definition send_results :: "EntryResultV2 list \<Rightarrow> ('z Plane_scheme, ManifestV2DataError, unit) op" where
  "send_results results = forM results (\<lambda>result. send_frame (F_EntryResult result))"

definition verified_entry :: "ManifestV2 \<Rightarrow> ReceiverEntryCheckpointV2 \<Rightarrow> EntryCompleteV2 \<Rightarrow> VerifiedEntryV2" where
  "verified_entry manifest c completion =
     \<lparr>vf_entry_id = cp_entry_id c,
      vf_final_digest = (if me_kind (mf_entries manifest ! unat (cp_entry_id c)) = RegularFile
                         then Some (co_final_digest completion) else None),
      vf_completion_choice = co_completion_choice completion\<rparr>"

definition verified_entries :: "ManifestV2 \<Rightarrow> ReceiverDataPlaneLedgerV2 \<Rightarrow> ManifestV2DataError + VerifiedEntryV2 list" where
  "verified_entries manifest l =
     ok_or (all_some (map (\<lambda>c. map_option (verified_entry manifest c) (cp_completion c)) (lg_entries l)))
       (ME_InvalidLedger ''entry completion missing'')"

definition result_of_saved ::
  "JobGenerationV2 \<Rightarrow> ManifestEntryV2 \<Rightarrow> VerifiedEntryV2 \<Rightarrow> SavedEntryV2 \<Rightarrow> ManifestV2DataError + EntryResultV2" where
  "result_of_saved identity entry verified saved =
     bindR (rejectR (sv_entry_id saved \<noteq> me_entry_id entry
         \<or> sv_result saved \<noteq> expected_result (vf_completion_choice verified))
       (ME_DestinationContract ''destination result set is noncanonical'')) (\<lambda>_.
     Inr \<lparr>er_identity = identity, er_entry_id = me_entry_id entry, er_result = sv_result saved,
          er_final_size = me_plaintext_size entry, er_final_digest = vf_final_digest verified,
          er_final_component_override = sv_final_component_override saved\<rparr>)"

fun record_results ::
  "JobGenerationV2 \<Rightarrow> (ManifestEntryV2 \<times> VerifiedEntryV2 \<times> SavedEntryV2) list \<Rightarrow> ('s, EntryResultV2 list) rx_op" where
  "record_results identity [] = returnM []"
| "record_results identity ((entry, verified, saved) # rest) =
     bindM (liftM (result_of_saved identity entry verified saved)) (\<lambda>result.
     bindM (set_checkpoint (unat (me_entry_id entry)) (\<lambda>c. c\<lparr>cp_result := Some result\<rparr>)) (\<lambda>_.
     bindM (record_results identity rest) (\<lambda>results. returnM (result # results))))"

definition save_results ::
  "EngineLibs \<Rightarrow> 's PayloadSink \<Rightarrow> result_gate \<Rightarrow> JobGenerationV2 \<Rightarrow> ManifestV2 \<Rightarrow> ('s, EntryResultV2 list) rx_op" where
  "save_results el sk gate identity manifest =
     bindM (checkM (\<lambda>p. verified_entries manifest (rx_ledger p))) (\<lambda>verified.
     bindM (emit (On_phase PP_Saving)) (\<lambda>_.
     bindM (on_sink (sk_commit_job sk manifest verified)) (\<lambda>saved0.
     bindM (liftM (gate manifest saved0)) (\<lambda>saved.
     bindM (liftM (rejectR (length saved \<noteq> length (mf_entries manifest))
       (ME_DestinationContract ''destination returned an incomplete result set''))) (\<lambda>_.
     bindM (record_results identity (zip (mf_entries manifest) (zip verified saved))) (\<lambda>results.
     bindM (save_ledger el) (\<lambda>_. returnM results)))))))"

definition receive_end ::
  "EngineLibs \<Rightarrow> 's PayloadSink \<Rightarrow> result_gate \<Rightarrow> JobGenerationV2 \<Rightarrow> ManifestV2 \<Rightarrow> bytes
     \<Rightarrow> ('s, ReceiverDataPlaneSummaryV2) rx_op" where
  "receive_end el sk gate identity manifest hasher =
     bindM (recv_job_complete identity) (\<lambda>sender_digest.
     bindM (liftM (rejectR (sender_digest \<noteq> cy_hash (el_crypto el) hasher) ME_DigestConflict)) (\<lambda>_.
     bindM (checkM (\<lambda>p. rejectR (case lg_sender_completion_set_digest (rx_ledger p) of
         None \<Rightarrow> False | Some existing \<Rightarrow> existing \<noteq> sender_digest) ME_DigestConflict)) (\<lambda>_.
     bindM (modifyM (\<lambda>p. p\<lparr>rx_ledger := (rx_ledger p)\<lparr>lg_sender_completion_set_digest := Some sender_digest\<rparr>\<rparr>)) (\<lambda>_.
     bindM (save_ledger el) (\<lambda>_.
     bindM (emit (On_stage PayloadComplete)) (\<lambda>_.
     bindM (getM (\<lambda>p. list_all (\<lambda>c. cp_result c \<noteq> None) (lg_entries (rx_ledger p)))) (\<lambda>all_done.
     bindM (if all_done
            then checkM (\<lambda>p. ok_or (all_some (map cp_result (lg_entries (rx_ledger p))))
                   (ME_InvalidLedger ''completed result set is sparse''))
            else save_results el sk gate identity manifest) (\<lambda>results.
     bindM (send_results results) (\<lambda>_.
     bindM (emit (On_phase PP_FinalizingDelivery)) (\<lambda>_.
     returnM \<lparr>rv_identity = identity, rv_sender_completion_set_digest = sender_digest, rv_entry_results = results\<rparr>))))))))))"

definition receive ::
  "EngineLibs \<Rightarrow> 's PayloadSink \<Rightarrow> result_gate \<Rightarrow> ManifestOfferV2 \<Rightarrow> ('s, ReceiverDataPlaneSummaryV2) rx_op" where
  "receive el sk gate offer =
     (let manifest = of_manifest offer; overall = mt_total_plaintext_bytes (mf_totals manifest) in
      bindM (checkM (\<lambda>p. ledger_validate el (rx_ledger p) manifest)) (\<lambda>_.
      bindM (getM (\<lambda>p. lg_identity (rx_ledger p))) (\<lambda>identity.
      bindM (checkM (\<lambda>p. resume_plaintext_bytes manifest (resume_status (rx_ledger p)))) (\<lambda>completed.
      bindM (modifyM (\<lambda>p. p\<lparr>pl_completed := completed\<rparr>)) (\<lambda>_.
      bindM (emit (On_phase PP_Transferring)) (\<lambda>_.
      bindM (emit (On_progress completed overall)) (\<lambda>_.
      bindM (receive_entries el sk identity overall [] (mf_entries manifest)) (\<lambda>hasher.
      receive_end el sk gate identity manifest hasher))))))))"

end
