(* ===== verification/Engine_Ledger.thy ===== *)
theory Engine_Ledger
  imports Engine_Receive Manifest_Valid
begin

text \<open>
  The invariant of the receiver's ledger: what a checkpoint says is consistent with the
  manifest, the accepted plan and itself, so that a ledger that is read back always passes
  \<open>validate\<close> and the boundary it announces is the one it reached.
\<close>

section \<open>The invariant\<close>

definition boundary_ok :: "ManifestEntryV2 \<Rightarrow> EntryPlanV2 \<Rightarrow> ReceiverEntryCheckpointV2 \<Rightarrow> bool" where
  "boundary_ok entry plan c \<longleftrightarrow>
     (case cp_start c of
        None \<Rightarrow> cp_next_plaintext_block c = 0 \<and> cp_plaintext_bytes c = 0
      | Some s \<Rightarrow>
          let block_bytes = unat (es_plaintext_block_bytes s); n = unat (cp_next_plaintext_block c) in
          unat (cp_plaintext_bytes c) = min (n * block_bytes) (unat (me_plaintext_size entry))
          \<and> (n = 0 \<or> (n - 1) * block_bytes < unat (me_plaintext_size entry)))
     \<and> (me_kind entry = Directory \<or> ep_disposition plan = Disp_ReuseExisting
          \<longrightarrow> cp_next_plaintext_block c = 0 \<and> cp_plaintext_bytes c = 0)"

definition arbiter_ok :: "EngineLibs \<Rightarrow> ManifestEntryV2 \<Rightarrow> ReceiverEntryCheckpointV2 \<Rightarrow> bool" where
  "arbiter_ok el entry c \<longleftrightarrow>
     (cp_arbiter c = Arb_PayloadOpen \<longrightarrow> cp_result c = None)
     \<and> (cp_arbiter c = Arb_ReuseChosen \<longrightarrow>
          me_kind entry = RegularFile \<and> cp_next_plaintext_block c = 0 \<and> cp_plaintext_bytes c = 0
          \<and> cp_content_digest c \<noteq> None)
     \<and> (cp_arbiter c \<noteq> Arb_PayloadCompleteChosen \<longrightarrow> (\<forall>k. cp_completion c = Some k \<longrightarrow>
          co_completion_choice k = Comp_ReuseChosen \<and> cp_content_digest c = Some (co_final_digest k)))
     \<and> (cp_arbiter c = Arb_PayloadCompleteChosen \<longrightarrow>
          (\<exists>k. cp_completion c = Some k \<and> co_completion_choice k = Comp_PayloadComplete
             \<and> (if me_kind entry = Directory then co_final_digest k = empty_digest el
                else cp_content_digest c = Some (co_final_digest k)
                  \<and> cp_plaintext_bytes c = me_plaintext_size entry)))"

text \<open>The result that the receiver reports for a completed entry, up to the name it was saved under.\<close>

definition result_of_completion :: "JobGenerationV2 \<Rightarrow> ManifestEntryV2 \<Rightarrow> EntryCompleteV2 \<Rightarrow> EntryResultV2 \<Rightarrow> bool" where
  "result_of_completion identity entry k r \<longleftrightarrow>
     er_identity r = identity \<and> er_entry_id r = me_entry_id entry \<and> er_final_size r = me_plaintext_size entry
     \<and> er_result r = expected_result (co_completion_choice k)
     \<and> er_final_digest r = (if me_kind entry = RegularFile then Some (co_final_digest k) else None)"

definition checkpoint_ok ::
  "EngineLibs \<Rightarrow> JobGenerationV2 \<Rightarrow> ManifestEntryV2 \<Rightarrow> EntryPlanV2 \<Rightarrow> ReceiverEntryCheckpointV2 \<Rightarrow> bool" where
  "checkpoint_ok el identity entry plan c \<longleftrightarrow>
     cp_entry_id c = me_entry_id entry
     \<and> (\<forall>s. cp_start c = Some s \<longrightarrow> es_identity s = identity \<and> es_entry_id s = me_entry_id entry)
     \<and> (\<forall>k. cp_completion c = Some k \<longrightarrow> co_identity k = identity \<and> co_entry_id k = me_entry_id entry
          \<and> co_final_size k = me_plaintext_size entry)
     \<and> (\<forall>d. known_digest entry = Some d \<longrightarrow> cp_content_digest c = Some d)
     \<and> boundary_ok entry plan c \<and> arbiter_ok el entry c
     \<and> (\<forall>r. cp_result c = Some r \<longrightarrow> (\<exists>k. cp_completion c = Some k \<and> result_of_completion identity entry k r))"

text \<open>The bytes that the completion-set hasher takes for a list of completions.\<close>

fun completion_transcript :: "EngineLibs \<Rightarrow> bytes \<Rightarrow> EntryCompleteV2 list \<Rightarrow> ManifestV2DataError + bytes" where
  "completion_transcript el hasher [] = Inr hasher"
| "completion_transcript el hasher (k # ks) =
     bindR (update_completion_set el hasher k) (\<lambda>hasher'. completion_transcript el hasher' ks)"

definition offer_valid :: "EngineLibs \<Rightarrow> ManifestOfferV2 \<Rightarrow> bool" where
  "offer_valid el offer \<longleftrightarrow> rebuild_offer el (of_manifest offer) = Inr offer"

abbreviation offer_entries :: "ManifestOfferV2 \<Rightarrow> ManifestEntryV2 list" where
  "offer_entries offer \<equiv> mf_entries (of_manifest offer)"

definition all_decided :: "EngineLibs \<Rightarrow> ReceiverDataPlaneLedgerV2 \<Rightarrow> ContentDigestV2 \<Rightarrow> bool" where
  "all_decided el l d \<longleftrightarrow>
     (\<forall>c \<in> set (lg_entries l). cp_arbiter c \<noteq> Arb_PayloadOpen)
     \<and> (\<exists>ks h. all_some (map cp_completion (lg_entries l)) = Some ks
          \<and> completion_transcript el [] ks = Inr h \<and> d = cy_hash (el_crypto el) h)"

definition ledger_ok :: "EngineLibs \<Rightarrow> ManifestOfferV2 \<Rightarrow> ReceiverDataPlaneLedgerV2 \<Rightarrow> bool" where
  "ledger_ok el offer l \<longleftrightarrow>
     lg_schema_version l = RECEIVER_DATA_PLANE_SCHEMA_VERSION
     \<and> lg_identity l = offer_identity offer \<and> lg_manifest_digest l = of_structural_digest offer
     \<and> ac_identity (lg_accept l) = lg_identity l \<and> validate_accept offer (lg_accept l) = Inr ()
     \<and> frame_body_digest el (F_Accept (lg_accept l)) = Inr (lg_accept_body_digest l)
     \<and> length (lg_entries l) = length (offer_entries offer)
     \<and> (\<forall>i < length (offer_entries offer). checkpoint_ok el (lg_identity l) (offer_entries offer ! i)
          (ac_entry_plans (lg_accept l) ! i) (lg_entries l ! i))
     \<and> (\<forall>d. lg_sender_completion_set_digest l = Some d \<longrightarrow> all_decided el l d)"

lemma unat_ucast_u64 [simp]: "unat (ucast (w :: u32) :: u64) = unat w"
  using unat_bound [of w] by (simp add: unsigned_ucast_eq take_bit_nat_eq_self)

lemma checked_mulD: "checked_mul a b = Some (c :: 'a::len word) \<Longrightarrow> unat c = unat a * unat b"
  by (auto simp: checked_mul_def unat_word_ariths split: if_splits)

lemma checked_addD: "checked_add a b = Some (c :: 'a::len word) \<Longrightarrow> c = a + b \<and> unat c = unat a + unat b"
  by (auto simp: checked_add_def unat_word_ariths split: if_splits)

lemma boundary_ok_update [simp]:
  "boundary_ok entry plan (c\<lparr>cp_content_digest := d\<rparr>) = boundary_ok entry plan c"
  "boundary_ok entry plan (c\<lparr>cp_arbiter := a\<rparr>) = boundary_ok entry plan c"
  "boundary_ok entry plan (c\<lparr>cp_completion := k\<rparr>) = boundary_ok entry plan c"
  "boundary_ok entry plan (c\<lparr>cp_result := r\<rparr>) = boundary_ok entry plan c"
  by (simp_all add: boundary_ok_def split: option.split)

lemma arbiter_ok_update [simp]:
  "arbiter_ok el entry (c\<lparr>cp_start := s\<rparr>) = arbiter_ok el entry c"
  "arbiter_ok el entry (c\<lparr>cp_payload_retired := b\<rparr>) = arbiter_ok el entry c"
  by (simp_all add: arbiter_ok_def)

section \<open>What a valid offer and an accept give\<close>

lemma offer_valid_iff:
  "offer_valid el offer \<longleftrightarrow>
     manifest_ok (cy_nfc (el_crypto el)) (of_manifest offer)
     \<and> of_structural_digest offer = cy_hash (el_crypto el) (encode_manifest_body (of_manifest offer))"
  by (cases offer) (auto simp: offer_valid_def rebuild_offer_def build_manifest_offer_v2_def validate_Inr_iff)

lemma offer_entry:
  assumes "offer_valid el offer" and "i < length (offer_entries offer)"
  shows "me_entry_id (offer_entries offer ! i) = word_of_nat i"
    and "unat (me_entry_id (offer_entries offer ! i)) = i"
    and "me_kind (offer_entries offer ! i) = Directory \<Longrightarrow> me_plaintext_size (offer_entries offer ! i) = 0"
    and "me_kind (offer_entries offer ! i) = Directory \<Longrightarrow> known_digest (offer_entries offer ! i) = None"
    and "i < 10000"
proof -
  have ok: "entry_ok (cy_nfc (el_crypto el)) (of_manifest offer) i"
    and small: "length (offer_entries offer) \<le> MAX_MANIFEST_V2_ENTRIES"
    using assms by (auto simp: offer_valid_iff manifest_ok_def header_ok_def)
  show "me_entry_id (offer_entries offer ! i) = word_of_nat i"
    using ok by (simp add: entry_ok_def Let_def)
  then show "unat (me_entry_id (offer_entries offer ! i)) = i" and "i < 10000"
    using small assms(2) by (simp_all add: unat_word_of_nat_small manifest_limits)
  show "me_kind (offer_entries offer ! i) = Directory \<Longrightarrow> me_plaintext_size (offer_entries offer ! i) = 0"
    and "me_kind (offer_entries offer ! i) = Directory \<Longrightarrow> known_digest (offer_entries offer ! i) = None"
    using ok by (auto simp: entry_ok_def Let_def known_digest_def)
qed

lemma accept_entries_ok_iff:
  "accept_entries_ok ps = Inr u \<longleftrightarrow> (\<forall>(entry, plan) \<in> set ps. accept_entry_ok entry plan = Inr ())"
  by (induction ps rule: accept_entries_ok.induct) auto

lemma accept_valid:
  assumes "validate_accept offer accept = Inr ()"
  shows "ac_identity accept = offer_identity offer" "ac_manifest_digest accept = of_structural_digest offer"
    and "length (ac_entry_plans accept) = length (offer_entries offer)"
    and "i < length (offer_entries offer) \<Longrightarrow> accept_entry_ok (offer_entries offer ! i) (ac_entry_plans accept ! i) = Inr ()"
proof -
  show "accept_entry_ok (offer_entries offer ! i) (ac_entry_plans accept ! i) = Inr ()" if "i < length (offer_entries offer)"
    using assms that unfolding validate_accept_def Let_def
    by (fastforce simp: accept_entries_ok_iff set_zip)
qed (use assms in \<open>auto simp: validate_accept_def Let_def offer_identity_def\<close>)

lemma accept_entry_okD:
  assumes "accept_entry_ok entry plan = Inr ()"
  shows "ep_entry_id plan = me_entry_id entry" "me_kind entry = Directory \<Longrightarrow> ep_disposition plan = Disp_ReceivePayload"
    and "ep_disposition plan = Disp_ReuseExisting \<Longrightarrow> known_digest entry \<noteq> None"
    and "ep_disposition plan = Disp_ReuseExisting \<Longrightarrow> me_kind entry = RegularFile"
    and "unat (me_plaintext_size entry) + unat block_size - 1 < 2 ^ 64"
proof -
  obtain n where n: "checked_add (me_plaintext_size entry) (block_size - 1) = Some n"
    using assms by (auto simp: accept_entry_ok_def total_blocks_def)
  then have "unat (me_plaintext_size entry) + unat (block_size - 1) < 2 ^ 64"
    by (simp add: checked_add_Some_iff)
  moreover have "unat (block_size - 1) = unat block_size - 1"
    by (simp add: block_size_def DEFAULT_MANIFEST_V2_BLOCK_PLAINTEXT_BYTES_def)
  moreover have "0 < unat block_size"
    by (simp add: block_size_def DEFAULT_MANIFEST_V2_BLOCK_PLAINTEXT_BYTES_def)
  ultimately show "unat (me_plaintext_size entry) + unat block_size - 1 < 2 ^ 64"
    by simp
qed (use assms in \<open>auto simp: accept_entry_ok_def intro: ManifestEntryKindV2.exhaust\<close>)

section \<open>The ledger of a new job\<close>

lemma checkpoint_new_ok:
  assumes "accept_entry_ok entry plan = Inr ()" and "ep_next_plaintext_block plan = 0"
  shows "checkpoint_ok el identity entry plan (checkpoint_new entry plan)"
  using assms by (simp add: checkpoint_ok_def checkpoint_new_def boundary_ok_def arbiter_ok_def
      saturating_mul_def checked_mul_def)

lemma ledger_new_ok:
  assumes valid: "offer_valid el offer" and new: "ledger_new el offer accept = Inr l"
    and initial: "\<And>plan. plan \<in> set (ac_entry_plans accept) \<Longrightarrow> ep_next_plaintext_block plan = 0"
  shows "ledger_ok el offer l"
proof -
  obtain body_digest where accepted: "validate_accept offer accept = Inr ()"
      and digest: "frame_body_digest el (F_Accept accept) = Inr body_digest"
      and l: "l = \<lparr>lg_schema_version = RECEIVER_DATA_PLANE_SCHEMA_VERSION, lg_identity = ac_identity accept,
          lg_manifest_digest = of_structural_digest offer, lg_accept = accept, lg_accept_body_digest = body_digest,
          lg_entries = map (\<lambda>entry. checkpoint_new entry (ac_entry_plans accept ! unat (me_entry_id entry)))
            (offer_entries offer), lg_sender_completion_set_digest = None\<rparr>"
    using new by (auto simp: ledger_new_def)
  have "checkpoint_ok el (lg_identity l) (offer_entries offer ! i) (ac_entry_plans accept ! i) (lg_entries l ! i)"
    if "i < length (offer_entries offer)" for i
    using that accept_valid [OF accepted] offer_entry [OF valid that] initial
    by (simp add: l checkpoint_new_ok)
  then show ?thesis
    using accept_valid [OF accepted] digest accepted by (simp add: ledger_ok_def l)
qed

lemma ledger_okD:
  assumes "ledger_ok el offer l"
  shows "lg_identity l = offer_identity offer" "length (lg_entries l) = length (offer_entries offer)"
    "validate_accept offer (lg_accept l) = Inr ()"
    and "i < length (offer_entries offer) \<Longrightarrow> checkpoint_ok el (offer_identity offer) (offer_entries offer ! i)
          (ac_entry_plans (lg_accept l) ! i) (lg_entries l ! i)"
    and "lg_sender_completion_set_digest l = Some d \<Longrightarrow> all_decided el l d"
  using assms by (auto simp: ledger_ok_def)

lemma ledger_ok_validates:
  assumes valid: "offer_valid el offer" and ok: "ledger_ok el offer l"
  shows "ledger_validate el l (of_manifest offer) = Inr ()"
proof -
  have "checkpoint_identity_ok (lg_identity l) i (lg_entries l ! i)" if "i < length (lg_entries l)" for i
    using ledger_okD [OF ok] offer_entry [OF valid] that
    by (fastforce simp: checkpoint_identity_ok_def checkpoint_ok_def result_of_completion_def split: option.split)
  then have "list_all (\<lambda>(i, c). checkpoint_identity_ok (lg_identity l) i c) (enumerate 0 (lg_entries l))"
    by (auto simp: list_all_iff in_set_enumerate_eq)
  then show ?thesis
    using valid ok accept_valid(2) [of offer "lg_accept l"]
    by (auto simp: ledger_validate_def offer_valid_def ledger_ok_def offer_identity_def)
qed

section \<open>Changing a checkpoint\<close>

lemma update_checkpoint_simps [simp]:
  "lg_identity (update_checkpoint i f l) = lg_identity l" "lg_accept (update_checkpoint i f l) = lg_accept l"
  "lg_manifest_digest (update_checkpoint i f l) = lg_manifest_digest l"
  "lg_schema_version (update_checkpoint i f l) = lg_schema_version l"
  "lg_accept_body_digest (update_checkpoint i f l) = lg_accept_body_digest l"
  "lg_sender_completion_set_digest (update_checkpoint i f l) = lg_sender_completion_set_digest l"
  "lg_entries (update_checkpoint i f l) = (lg_entries l)[i := f (lg_entries l ! i)]"
  by (simp_all add: update_checkpoint_def)

lemma update_checkpoint_ok:
  assumes "ledger_ok el offer l" and "lg_sender_completion_set_digest l = None"
    and "i < length (offer_entries offer) \<Longrightarrow> checkpoint_ok el (offer_identity offer) (offer_entries offer ! i)
      (ac_entry_plans (lg_accept l) ! i) (f (lg_entries l ! i))"
  shows "ledger_ok el offer (update_checkpoint i f l)"
proof -
  have "checkpoint_ok el (offer_identity offer) (offer_entries offer ! j) (ac_entry_plans (lg_accept l) ! j)
      ((lg_entries l)[i := f (lg_entries l ! i)] ! j)" if "j < length (offer_entries offer)" for j
    using assms(3) ledger_okD(2,4) [OF assms(1)] that by (cases "i = j") simp_all
  then show ?thesis
    using assms(1,2) by (simp add: ledger_ok_def)
qed

lemma update_checkpoint_same:
  "f (lg_entries l ! i) = lg_entries l ! i \<Longrightarrow> update_checkpoint i f l = l"
  by (simp add: update_checkpoint_def)

end
