(* ===== verification/Engine_Receive_Inv.thy ===== *)
theory Engine_Receive_Inv
  imports Engine_Ledger
begin

text \<open>
  The receiver keeps the invariant of its ledger, in memory and in the store, whatever arrives,
  whatever the sink answers and whichever send or save fails; entries that were decided before a
  run stay as they were.
\<close>

section \<open>What a run may change\<close>

definition same_decision :: "ReceiverEntryCheckpointV2 \<Rightarrow> ReceiverEntryCheckpointV2 \<Rightarrow> bool" where
  "same_decision c0 c \<longleftrightarrow>
     cp_arbiter c = cp_arbiter c0 \<and> cp_content_digest c = cp_content_digest c0 \<and> cp_start c = cp_start c0
     \<and> cp_next_plaintext_block c = cp_next_plaintext_block c0 \<and> cp_plaintext_bytes c = cp_plaintext_bytes c0
     \<and> (cp_completion c0 \<noteq> None \<longrightarrow> cp_completion c = cp_completion c0)"

definition all_results :: "ReceiverDataPlaneLedgerV2 \<Rightarrow> bool" where
  "all_results l \<longleftrightarrow> list_all (\<lambda>c. cp_result c \<noteq> None) (lg_entries l)"

definition keeps_decisions :: "ReceiverDataPlaneLedgerV2 \<Rightarrow> ReceiverDataPlaneLedgerV2 \<Rightarrow> bool" where
  "keeps_decisions l0 l \<longleftrightarrow>
     lg_accept l = lg_accept l0 \<and> length (lg_entries l) = length (lg_entries l0)
     \<and> (\<forall>i < length (lg_entries l0). cp_arbiter (lg_entries l0 ! i) \<noteq> Arb_PayloadOpen
          \<longrightarrow> same_decision (lg_entries l0 ! i) (lg_entries l ! i))
     \<and> (all_results l0 \<longrightarrow> lg_entries l = lg_entries l0)"

definition rx_good :: "EngineLibs \<Rightarrow> ManifestOfferV2 \<Rightarrow> ReceiverDataPlaneLedgerV2 \<Rightarrow> ReceiverDataPlaneLedgerV2 \<Rightarrow> bool" where
  "rx_good el offer l0 l \<longleftrightarrow> ledger_ok el offer l0 \<and> ledger_ok el offer l \<and> keeps_decisions l0 l"

text \<open>The store holds a ledger that such a run wrote, or the one it started from.\<close>

definition ledger_disk_ok :: "EngineLibs \<Rightarrow> ManifestOfferV2 \<Rightarrow> ReceiverDataPlaneLedgerV2 \<Rightarrow> disk \<Rightarrow> bool" where
  "ledger_disk_ok el offer l0 disk \<longleftrightarrow>
     (\<exists>bs l. disk (ledger_path (offer_identity offer)) = Some bs \<and> el_ledger_to_vec el l = Some bs \<and> rx_good el offer l0 l)"

lemma keeps_decisions_refl: "keeps_decisions l l"
  by (simp add: keeps_decisions_def same_decision_def)

lemma rx_goodD:
  assumes "rx_good el offer l0 l"
  shows "ledger_ok el offer l" "keeps_decisions l0 l" "lg_identity l = offer_identity offer"
    and "length (lg_entries l) = length (offer_entries offer)"
    and "length (lg_entries l0) = length (offer_entries offer)"
  using assms by (auto simp: rx_good_def ledger_ok_def keeps_decisions_def)

lemma rx_good_update:
  assumes good: "rx_good el offer l0 l" and none: "lg_sender_completion_set_digest l = None"
    and i: "i < length (offer_entries offer)"
    and same: "cp_arbiter (lg_entries l0 ! i) = Arb_PayloadOpen
      \<or> \<not> all_results l0 \<and> same_decision (lg_entries l0 ! i) (f (lg_entries l ! i))"
    and ok: "checkpoint_ok el (offer_identity offer) (offer_entries offer ! i)
      (ac_entry_plans (lg_accept l) ! i) (f (lg_entries l ! i))"
  shows "rx_good el offer l0 (update_checkpoint i f l)"
proof -
  have "cp_result (lg_entries l0 ! i) = None" if "cp_arbiter (lg_entries l0 ! i) = Arb_PayloadOpen"
    using ledger_okD(4) [of el offer l0 i] good i that by (simp add: rx_good_def checkpoint_ok_def arbiter_ok_def)
  then have unfinished: "\<not> all_results l0"
    using same i rx_goodD(5) [OF good] by (auto simp: all_results_def list_all_length)
  have "same_decision (lg_entries l0 ! j) ((lg_entries l)[i := f (lg_entries l ! i)] ! j)"
    if "j < length (lg_entries l0)" "cp_arbiter (lg_entries l0 ! j) \<noteq> Arb_PayloadOpen" for j
    using that good same by (cases "i = j") (auto simp: rx_good_def keeps_decisions_def)
  then have "keeps_decisions l0 (update_checkpoint i f l)"
    using rx_goodD(2) [OF good] unfinished by (simp add: keeps_decisions_def)
  then show ?thesis
    using update_checkpoint_ok [of el offer l i f] none ok good by (simp add: rx_good_def)
qed

section \<open>Operations by what they do to the ledger\<close>

definition rx_wp ::
  "EngineLibs \<Rightarrow> ManifestOfferV2 \<Rightarrow> ReceiverDataPlaneLedgerV2 \<Rightarrow> ReceiverDataPlaneLedgerV2 \<Rightarrow> ('s, 'a) rx_op
     \<Rightarrow> ('a \<Rightarrow> ReceiverDataPlaneLedgerV2 \<Rightarrow> bool) \<Rightarrow> bool" where
  "rx_wp el offer l0 l m Q \<longleftrightarrow>
     (\<forall>p. rx_ledger p = l \<longrightarrow> ledger_disk_ok el offer l0 (pl_disk p) \<longrightarrow>
        wp m (\<lambda>a t. ledger_disk_ok el offer l0 (pl_disk t) \<and> Q a (rx_ledger t))
             (\<lambda>e t. ledger_disk_ok el offer l0 (pl_disk t) \<and> rx_good el offer l0 (rx_ledger t)) p)"

definition quiet :: "('s, 'a) rx_op \<Rightarrow> bool" where
  "quiet m \<longleftrightarrow> (\<forall>p. rx_ledger (snd (m p)) = rx_ledger p \<and> pl_disk (snd (m p)) = pl_disk p)"

lemma rx_bind:
  assumes "rx_wp el offer l0 l m (\<lambda>a l'. rx_wp el offer l0 l' (f a) Q)"
  shows "rx_wp el offer l0 l (bindM m f) Q"
  unfolding rx_wp_def wp_bind
proof (intro allI impI)
  fix p :: "'a ReceiverPlane"
  assume "rx_ledger p = l" and "ledger_disk_ok el offer l0 (pl_disk p)"
  with assms have "wp m (\<lambda>a t. ledger_disk_ok el offer l0 (pl_disk t) \<and> rx_wp el offer l0 (rx_ledger t) (f a) Q)
      (\<lambda>e t. ledger_disk_ok el offer l0 (pl_disk t) \<and> rx_good el offer l0 (rx_ledger t)) p"
    by (simp add: rx_wp_def)
  then show "wp m (\<lambda>a. wp (f a) (\<lambda>a t. ledger_disk_ok el offer l0 (pl_disk t) \<and> Q a (rx_ledger t))
      (\<lambda>e t. ledger_disk_ok el offer l0 (pl_disk t) \<and> rx_good el offer l0 (rx_ledger t)))
      (\<lambda>e t. ledger_disk_ok el offer l0 (pl_disk t) \<and> rx_good el offer l0 (rx_ledger t)) p"
    by (rule wp_mono) (simp_all add: rx_wp_def)
qed

lemma rx_mono:
  assumes "rx_wp el offer l0 l m Q" and "\<And>a l'. Q a l' \<Longrightarrow> Q' a l'"
  shows "rx_wp el offer l0 l m Q'"
  unfolding rx_wp_def
proof (intro allI impI)
  fix p :: "'a ReceiverPlane"
  assume "rx_ledger p = l" and "ledger_disk_ok el offer l0 (pl_disk p)"
  with assms(1) have "wp m (\<lambda>a t. ledger_disk_ok el offer l0 (pl_disk t) \<and> Q a (rx_ledger t))
      (\<lambda>e t. ledger_disk_ok el offer l0 (pl_disk t) \<and> rx_good el offer l0 (rx_ledger t)) p"
    by (simp add: rx_wp_def)
  then show "wp m (\<lambda>a t. ledger_disk_ok el offer l0 (pl_disk t) \<and> Q' a (rx_ledger t))
      (\<lambda>e t. ledger_disk_ok el offer l0 (pl_disk t) \<and> rx_good el offer l0 (rx_ledger t)) p"
    by (rule wp_mono) (simp_all add: assms(2))
qed

lemma rx_quiet:
  assumes "quiet m" and "rx_good el offer l0 l" and "\<And>a. Q a l"
  shows "rx_wp el offer l0 l m Q"
  unfolding rx_wp_def
proof (intro allI impI wpI)
  fix p :: "'a ReceiverPlane" and a t
  assume p: "rx_ledger p = l" "ledger_disk_ok el offer l0 (pl_disk p)"
  have same: "rx_ledger (snd (m p)) = l" "pl_disk (snd (m p)) = pl_disk p"
    using assms(1) p(1) by (simp_all add: quiet_def)
  show "ledger_disk_ok el offer l0 (pl_disk t) \<and> Q a (rx_ledger t)" if "m p = (Inr a, t)"
    using that same p assms(3) by simp
  show "ledger_disk_ok el offer l0 (pl_disk t) \<and> rx_good el offer l0 (rx_ledger t)" if "m p = (Inl e, t)" for e
    using that same p assms(2) by simp
qed

lemma rx_return: "Q a l \<Longrightarrow> rx_wp el offer l0 l (returnM a) Q"
  by (simp add: rx_wp_def)

lemma rx_fail: "rx_good el offer l0 l \<Longrightarrow> rx_wp el offer l0 l (failM e) Q"
  by (simp add: rx_wp_def)

lemma rx_get: "(\<And>p. rx_ledger p = l \<Longrightarrow> Q (g p) l) \<Longrightarrow> rx_wp el offer l0 l (getM g) Q"
  by (simp add: rx_wp_def)

lemma rx_check:
  "(\<And>p e. rx_ledger p = l \<Longrightarrow> c p = Inl e \<Longrightarrow> rx_good el offer l0 l)
     \<Longrightarrow> (\<And>p a. rx_ledger p = l \<Longrightarrow> c p = Inr a \<Longrightarrow> Q a l) \<Longrightarrow> rx_wp el offer l0 l (checkM c) Q"
  by (simp add: rx_wp_def split: sum.split)

lemma rx_check_known: "(\<And>p. rx_ledger p = l \<Longrightarrow> c p = Inr a) \<Longrightarrow> Q a l \<Longrightarrow> rx_wp el offer l0 l (checkM c) Q"
  by (simp add: rx_wp_def)

lemma rx_lift:
  "(\<And>e. r = Inl e \<Longrightarrow> rx_good el offer l0 l) \<Longrightarrow> (\<And>a. r = Inr a \<Longrightarrow> Q a l) \<Longrightarrow> rx_wp el offer l0 l (liftM r) Q"
  by (simp add: rx_wp_def split: sum.split)

lemma rx_set: "Q () (update_checkpoint i f l) \<Longrightarrow> rx_wp el offer l0 l (set_checkpoint i f) Q"
  by (simp add: rx_wp_def set_checkpoint_def)

lemma rx_save:
  assumes "rx_good el offer l0 l" and "Q () l"
  shows "rx_wp el offer l0 l (save_ledger el) Q"
proof -
  have "ledger_disk_ok el offer l0 (snd (ledger_save el io l disk))" if "ledger_disk_ok el offer l0 disk" for io disk
    using that assms(1) rx_goodD(3) [OF assms(1)]
    by (auto simp: ledger_disk_ok_def ledger_save_def split: option.split SaveIo.split)
  then show ?thesis
    using assms unfolding rx_wp_def save_ledger_def wp_def
    by (auto split: prod.split sum.split) (metis snd_conv)+
qed

lemma rx_if:
  "(c \<Longrightarrow> rx_wp el offer l0 l m Q) \<Longrightarrow> (\<not> c \<Longrightarrow> rx_wp el offer l0 l n Q) \<Longrightarrow> rx_wp el offer l0 l (if c then m else n) Q"
  by simp

lemma rx_when:
  "(c \<Longrightarrow> rx_wp el offer l0 l m Q) \<Longrightarrow> (\<not> c \<Longrightarrow> Q () l) \<Longrightarrow> rx_wp el offer l0 l (whenM c m) Q"
  by (cases c) (simp_all add: rx_return)

lemma rx_get_known: "(\<And>p. rx_ledger p = l \<Longrightarrow> g p = a) \<Longrightarrow> Q a l \<Longrightarrow> rx_wp el offer l0 l (getM g) Q"
  by (simp add: rx_wp_def)

lemma rx_emit: "Q () l \<Longrightarrow> rx_wp el offer l0 l (emit ev) Q"
  by (simp add: rx_wp_def emit_def)

lemmas rx_rules = rx_return rx_fail rx_get rx_check rx_lift rx_set rx_save rx_if rx_when

lemma quiet_ops [simp]:
  "quiet recv_frame" "quiet (send_frame frame)" "quiet (emit event)" "quiet (on_sink f)" "quiet (checkM c)"
  "quiet (getM g)" "quiet (liftM r)" "quiet (failM e)" "quiet (returnM a)"
  by (auto simp: quiet_def recv_frame_def send_frame_def emit_def on_sink_def Let_def split: list.split prod.split)

lemma rx_quiet_bind [simp]: "quiet m \<Longrightarrow> (\<And>a. quiet (f a)) \<Longrightarrow> quiet (bindM m f)"
  by (simp add: quiet_def bindM_snd split: sum.split)

lemmas rx_quiet_ops =
  rx_quiet [OF quiet_ops(1)] rx_quiet [OF quiet_ops(2)] rx_quiet [OF quiet_ops(3)] rx_quiet [OF quiet_ops(4)]

lemma rx_quiet_modify [simp]:
  "quiet (modifyM (\<lambda>p. p\<lparr>pl_completed := w\<rparr>))"
  by (simp add: quiet_def)

lemma quiet_derived [simp]:
  "quiet (add_completed n overall)" "quiet (recv_entry_start identity entry_id)" "quiet (recv_job_complete identity)"
  by (simp_all add: add_completed_def recv_entry_start_def recv_job_complete_def)

lemmas rx_quiet_derived = rx_quiet [OF quiet_derived(1)] rx_quiet [OF quiet_derived(2)] rx_quiet [OF quiet_derived(3)]

lemma quiet_for [simp]: "(\<And>x. quiet (f x)) \<Longrightarrow> quiet (forM xs f)"
  by (induction xs) simp_all

section \<open>Checkpoints\<close>

lemma checkpoint_start_ok:
  assumes "checkpoint_ok el identity entry plan c" and "cp_start c = None \<or> cp_start c = Some start"
    and "es_identity start = identity" "es_entry_id start = me_entry_id entry"
  shows "checkpoint_ok el identity entry plan (c\<lparr>cp_start := Some start, cp_payload_retired := False\<rparr>)"
proof -
  have "boundary_ok entry plan (c\<lparr>cp_start := Some start, cp_payload_retired := False\<rparr>)"
    using assms(1,2) unfolding checkpoint_ok_def boundary_ok_def
    by (cases "cp_start c") (simp_all add: Let_def)
  then show ?thesis
    using assms by (simp add: checkpoint_ok_def)
qed

lemma checkpoint_retired_ok:
  assumes "checkpoint_ok el identity entry plan c" and "cp_entry_id c' = cp_entry_id c" "cp_start c' = cp_start c"
    "cp_result c' = None"
  shows "checkpoint_ok el identity entry plan (checkpoint_retired entry c')"
  using assms by (simp add: checkpoint_ok_def boundary_ok_def arbiter_ok_def checkpoint_retired_def split: option.split)

lemma set_or_equal_digestD:
  assumes "set_or_equal_digest c d = Inr c'"
  shows "c' = c\<lparr>cp_content_digest := Some d\<rparr>" and "cp_content_digest c = None \<or> cp_content_digest c = Some d"
  using assms by (auto simp: set_or_equal_digest_def split: option.splits if_splits)

lemma checkpoint_digest_ok:
  assumes "checkpoint_ok el identity entry plan c" and "cp_content_digest c = None \<or> cp_content_digest c = Some d"
  shows "checkpoint_ok el identity entry plan (c\<lparr>cp_content_digest := Some d\<rparr>)"
proof -
  have "arbiter_ok el entry (c\<lparr>cp_content_digest := Some d\<rparr>)"
    using assms by (cases "cp_arbiter c") (auto simp: checkpoint_ok_def arbiter_ok_def)
  then show ?thesis
    using assms by (auto simp: checkpoint_ok_def)
qed

lemma checkpoint_reuse_ok:
  assumes "checkpoint_ok el identity entry plan c" and "cp_arbiter c \<noteq> Arb_PayloadCompleteChosen"
    and "cp_content_digest c \<noteq> None" and "me_kind entry = RegularFile"
  shows "checkpoint_ok el identity entry plan
      (c\<lparr>cp_arbiter := Arb_ReuseChosen, cp_next_plaintext_block := 0, cp_plaintext_bytes := 0\<rparr>)"
  using assms by (simp add: checkpoint_ok_def boundary_ok_def arbiter_ok_def Let_def split: option.split)

lemma checkpoint_completion_ok:
  assumes "checkpoint_ok el identity entry plan c" and "cp_arbiter c \<noteq> Arb_PayloadCompleteChosen" and "cp_result c = None"
    and "co_identity k = identity" "co_entry_id k = me_entry_id entry" "co_final_size k = me_plaintext_size entry"
    and "co_completion_choice k = Comp_ReuseChosen" "cp_content_digest c = Some (co_final_digest k)"
  shows "checkpoint_ok el identity entry plan (c\<lparr>cp_completion := Some k\<rparr>)"
  using assms by (simp add: checkpoint_ok_def arbiter_ok_def)

lemma checkpoint_payload_ok:
  assumes "checkpoint_ok el identity entry plan c" and "cp_result c = None"
    and "co_identity k = identity" "co_entry_id k = me_entry_id entry" "co_final_size k = me_plaintext_size entry"
    and "co_completion_choice k = Comp_PayloadComplete"
    and "if me_kind entry = Directory then co_final_digest k = empty_digest el
      else cp_content_digest c = Some (co_final_digest k) \<and> cp_plaintext_bytes c = me_plaintext_size entry"
  shows "checkpoint_ok el identity entry plan (c\<lparr>cp_arbiter := Arb_PayloadCompleteChosen, cp_completion := Some k\<rparr>)"
  using assms by (simp add: checkpoint_ok_def arbiter_ok_def split: if_splits)

text \<open>A block that is accepted moves the boundary to its end.\<close>

lemma validate_blockD:
  assumes "validate_block entry c block = Inr ()"
  obtains start where "cp_start c = Some start"
    and "bl_block_index block = cp_next_plaintext_block c"
    and "unat (bl_plaintext_offset block) = unat (cp_next_plaintext_block c) * unat (es_plaintext_block_bytes start)"
    and "checked_add (bl_plaintext_offset block) (ucast (bl_plaintext_length block))
       = Some (bl_plaintext_offset block + ucast (bl_plaintext_length block))"
    and "unat (bl_plaintext_offset block + ucast (bl_plaintext_length block))
       = unat (bl_plaintext_offset block) + unat (bl_plaintext_length block)"
    and "unat (bl_plaintext_offset block) + unat (bl_plaintext_length block) \<le> unat (me_plaintext_size entry)"
    and "0 < unat (bl_plaintext_length block)"
    and "unat (bl_plaintext_length block) \<le> unat (es_plaintext_block_bytes start)"
    and "unat (bl_plaintext_offset block) + unat (bl_plaintext_length block) < unat (me_plaintext_size entry)
      \<Longrightarrow> bl_plaintext_length block = es_plaintext_block_bytes start"
proof -
  obtain start off e where f: "cp_start c = Some start"
      "checked_mul (bl_block_index block) (ucast (es_plaintext_block_bytes start)) = Some off"
      "checked_add (bl_plaintext_offset block) (ucast (bl_plaintext_length block)) = Some e"
      "bl_block_index block = cp_next_plaintext_block c" "bl_plaintext_offset block = off" "\<not> e > me_plaintext_size entry"
      "bl_plaintext_length block \<noteq> 0" "\<not> bl_plaintext_length block > es_plaintext_block_bytes start"
      "e < me_plaintext_size entry \<Longrightarrow> bl_plaintext_length block = es_plaintext_block_bytes start"
    using assms unfolding validate_block_def by auto
  have off: "unat (bl_plaintext_offset block) = unat (cp_next_plaintext_block c) * unat (es_plaintext_block_bytes start)"
    using checked_mulD [OF f(2)] f(4,5) by simp
  have e: "e = bl_plaintext_offset block + ucast (bl_plaintext_length block)"
    "unat e = unat (bl_plaintext_offset block) + unat (bl_plaintext_length block)"
    using checked_addD [OF f(3)] by auto
  show ?thesis
  proof (rule that [of start])
    show "checked_add (bl_plaintext_offset block) (ucast (bl_plaintext_length block))
       = Some (bl_plaintext_offset block + ucast (bl_plaintext_length block))"
      using f(3) e(1) by simp
    show "unat (bl_plaintext_offset block + ucast (bl_plaintext_length block))
       = unat (bl_plaintext_offset block) + unat (bl_plaintext_length block)"
      using e by simp
    show "unat (bl_plaintext_offset block) + unat (bl_plaintext_length block) \<le> unat (me_plaintext_size entry)"
      using f(6) e(2) by (simp add: word_less_nat_alt)
    show "0 < unat (bl_plaintext_length block)"
      using f(7) by (simp add: unat_gt_0)
    show "unat (bl_plaintext_length block) \<le> unat (es_plaintext_block_bytes start)"
      using f(8) by (simp add: word_less_nat_alt)
    show "bl_plaintext_length block = es_plaintext_block_bytes start"
      if "unat (bl_plaintext_offset block) + unat (bl_plaintext_length block) < unat (me_plaintext_size entry)"
      using f(9) that e(2) by (simp add: word_less_nat_alt)
  qed (fact f off)+
qed

lemma checkpoint_block_ok:
  assumes ok: "checkpoint_ok el identity entry plan c" and block: "validate_block entry c block = Inr ()"
    and c: "cp_arbiter c = Arb_PayloadOpen" "ep_disposition plan = Disp_ReceivePayload" "me_kind entry = RegularFile"
    and incr: "checked_add (cp_next_plaintext_block c) 1 = Some n"
  shows "checkpoint_ok el identity entry plan (c\<lparr>cp_next_plaintext_block := n,
      cp_plaintext_bytes := bl_plaintext_offset block + ucast (bl_plaintext_length block)\<rparr>)"
proof -
  obtain start where start: "cp_start c = Some start"
      "unat (bl_plaintext_offset block) = unat (cp_next_plaintext_block c) * unat (es_plaintext_block_bytes start)"
      "unat (bl_plaintext_offset block + ucast (bl_plaintext_length block))
         = unat (bl_plaintext_offset block) + unat (bl_plaintext_length block)"
      "unat (bl_plaintext_offset block) + unat (bl_plaintext_length block) \<le> unat (me_plaintext_size entry)"
      "0 < unat (bl_plaintext_length block)" "unat (bl_plaintext_length block) \<le> unat (es_plaintext_block_bytes start)"
      "unat (bl_plaintext_offset block) + unat (bl_plaintext_length block) < unat (me_plaintext_size entry)
        \<Longrightarrow> bl_plaintext_length block = es_plaintext_block_bytes start"
    using validate_blockD [OF block] by blast
  have n: "unat n = Suc (unat (cp_next_plaintext_block c))"
    using incr by (auto simp: checked_add_Some_iff unat_word_ariths)
  have "boundary_ok entry plan (c\<lparr>cp_next_plaintext_block := n,
      cp_plaintext_bytes := bl_plaintext_offset block + ucast (bl_plaintext_length block)\<rparr>)"
    using start n c by (cases "unat (bl_plaintext_offset block) + unat (bl_plaintext_length block) < unat (me_plaintext_size entry)")
      (auto simp: boundary_ok_def)
  then show ?thesis
    using ok c by (simp add: checkpoint_ok_def arbiter_ok_def)
qed

lemmas rx_intros = rx_bind rx_rules rx_quiet_ops rx_quiet_derived

end
