(* ===== verification/Engine_Receive_Steps.thy ===== *)
theory Engine_Receive_Steps
  imports Engine_Receive_Inv
begin

text \<open>Each operation of the receiver on the entry it is receiving.\<close>

definition entry_live ::
  "EngineLibs \<Rightarrow> ManifestOfferV2 \<Rightarrow> ReceiverDataPlaneLedgerV2 \<Rightarrow> nat \<Rightarrow> ReceiverDataPlaneLedgerV2
     \<Rightarrow> ReceiverDataPlaneLedgerV2 \<Rightarrow> bool" where
  "entry_live el offer l0 i l1 l \<longleftrightarrow>
     offer_valid el offer \<and> i < length (offer_entries offer) \<and> cp_arbiter (lg_entries l0 ! i) = Arb_PayloadOpen
     \<and> rx_good el offer l0 l \<and> lg_sender_completion_set_digest l = None \<and> cp_result (lg_entries l ! i) = None
     \<and> (\<forall>j. j \<noteq> i \<longrightarrow> lg_entries l ! j = lg_entries l1 ! j)"

definition file_live ::
  "EngineLibs \<Rightarrow> ManifestOfferV2 \<Rightarrow> ReceiverDataPlaneLedgerV2 \<Rightarrow> nat \<Rightarrow> ReceiverDataPlaneLedgerV2
     \<Rightarrow> ReceiverDataPlaneLedgerV2 \<Rightarrow> bool" where
  "file_live el offer l0 i l1 l \<longleftrightarrow>
     entry_live el offer l0 i l1 l \<and> me_kind (offer_entries offer ! i) = RegularFile
     \<and> cp_arbiter (lg_entries l ! i) \<noteq> Arb_PayloadCompleteChosen
     \<and> (ep_disposition (ac_entry_plans (lg_accept l) ! i) = Disp_ReuseExisting
          \<longrightarrow> cp_arbiter (lg_entries l ! i) = Arb_ReuseChosen)"

definition entry_done ::
  "EngineLibs \<Rightarrow> ManifestOfferV2 \<Rightarrow> ReceiverDataPlaneLedgerV2 \<Rightarrow> nat \<Rightarrow> ReceiverDataPlaneLedgerV2
     \<Rightarrow> ReceiverDataPlaneLedgerV2 \<Rightarrow> bool" where
  "entry_done el offer l0 i l1 l \<longleftrightarrow>
     rx_good el offer l0 l \<and> cp_arbiter (lg_entries l ! i) \<noteq> Arb_PayloadOpen
     \<and> lg_sender_completion_set_digest l = lg_sender_completion_set_digest l1
     \<and> (\<forall>j. j \<noteq> i \<longrightarrow> lg_entries l ! j = lg_entries l1 ! j)"

lemma entry_liveD:
  assumes "entry_live el offer l0 i l1 l"
  shows "rx_good el offer l0 l" "i < length (lg_entries l)" "lg_sender_completion_set_digest l = None"
    and "checkpoint_ok el (offer_identity offer) (offer_entries offer ! i) (ac_entry_plans (lg_accept l) ! i) (lg_entries l ! i)"
    and "lg_identity l = offer_identity offer" "cp_result (lg_entries l ! i) = None" "offer_valid el offer"
  using assms rx_goodD ledger_okD(4) by (auto simp: entry_live_def)

lemma entry_live_update:
  assumes "entry_live el offer l0 i l1 l"
    and "checkpoint_ok el (offer_identity offer) (offer_entries offer ! i) (ac_entry_plans (lg_accept l) ! i) (f (lg_entries l ! i))"
    and "cp_result (f (lg_entries l ! i)) = None"
  shows "entry_live el offer l0 i l1 (update_checkpoint i f l)"
  using assms rx_good_update [of el offer l0 l i f] entry_liveD(2) [OF assms(1)] by (simp add: entry_live_def)

lemma entry_live_at [simp]:
  "entry_live el offer l0 i l1 l \<Longrightarrow> lg_entries (update_checkpoint i f l) ! i = f (lg_entries l ! i)"
  by (simp add: entry_liveD(2))

lemma update_checkpoint_twice [simp]:
  "entry_live el offer l0 i l1 l \<Longrightarrow>
     update_checkpoint i f (update_checkpoint i g l) = update_checkpoint i (\<lambda>c. f (g c)) l"
  using entry_liveD(2) by (fastforce simp: update_checkpoint_def)

section \<open>Retiring a payload\<close>

lemma retire_wp:
  assumes live: "entry_live el offer l0 i l1 l"
    and g: "cp_entry_id (g (lg_entries l ! i)) = cp_entry_id (lg_entries l ! i)"
      "cp_start (g (lg_entries l ! i)) = cp_start (lg_entries l ! i)" "cp_result (g (lg_entries l ! i)) = None"
  shows "rx_wp el offer l0 (update_checkpoint i g l) (retire_and_fail el sk (offer_entries offer ! i) i e) Q"
proof -
  have "entry_live el offer l0 i l1 (update_checkpoint i (\<lambda>c. checkpoint_retired (offer_entries offer ! i) (g c)) l)"
    using g by (intro entry_live_update [OF live] checkpoint_retired_ok [OF entry_liveD(4) [OF live]])
      (simp_all add: checkpoint_retired_def)
  then show ?thesis
    unfolding retire_and_fail_def retire_mismatch_def
    by (intro rx_intros) (simp_all add: update_checkpoint_twice [OF live] entry_liveD(1))
qed

lemma retire_here_wp:
  "entry_live el offer l0 i l1 l \<Longrightarrow> rx_wp el offer l0 l (retire_and_fail el sk (offer_entries offer ! i) i e) Q"
  using retire_wp [of el offer l0 i l1 l "\<lambda>c. c"] by (simp add: update_checkpoint_same entry_liveD(6))

section \<open>Blocks\<close>

lemma file_liveD:
  assumes "file_live el offer l0 i l1 l"
  shows "entry_live el offer l0 i l1 l" "me_kind (offer_entries offer ! i) = RegularFile"
    "cp_arbiter (lg_entries l ! i) \<noteq> Arb_PayloadCompleteChosen" "rx_good el offer l0 l"
    "lg_identity l = offer_identity offer"
  using assms entry_liveD by (auto simp: file_live_def)

lemma file_live_update:
  assumes "file_live el offer l0 i l1 l"
    and "checkpoint_ok el (offer_identity offer) (offer_entries offer ! i) (ac_entry_plans (lg_accept l) ! i) (f (lg_entries l ! i))"
    and "cp_result (f (lg_entries l ! i)) = None" "cp_arbiter (f (lg_entries l ! i)) \<noteq> Arb_PayloadCompleteChosen"
    and "cp_arbiter (f (lg_entries l ! i)) = cp_arbiter (lg_entries l ! i) \<or> cp_arbiter (f (lg_entries l ! i)) = Arb_ReuseChosen"
  shows "file_live el offer l0 i l1 (update_checkpoint i f l)"
proof -
  have entry: "entry_live el offer l0 i l1 l"
    using assms(1) by (rule file_liveD)
  show ?thesis
    using entry_live_update [where f = f, OF entry assms(2,3)] assms(1,4,5) entry_live_at [OF entry, of f]
    by (auto simp: file_live_def simp del: update_checkpoint_simps(7))
qed

lemma disposition_cases: "d \<noteq> Disp_ReuseExisting \<longleftrightarrow> d = Disp_ReceivePayload"
  by (cases d) simp_all

lemma receive_block_wp:
  assumes live: "file_live el offer l0 i l1 l"
  shows "rx_wp el offer l0 l (receive_block el sk (offer_entries offer ! i) i overall block) (\<lambda>_. file_live el offer l0 i l1)"
proof -
  note entry = file_liveD(1) [OF live]
  have open_plan: "ep_disposition (ac_entry_plans (lg_accept l) ! i) = Disp_ReceivePayload"
    if "cp_arbiter (lg_entries l ! i) = Arb_PayloadOpen"
    using live that by (auto simp: file_live_def simp flip: disposition_cases)
  have step: "file_live el offer l0 i l1 (update_checkpoint i (\<lambda>c. c\<lparr>cp_next_plaintext_block := n,
        cp_plaintext_bytes := received\<rparr>) l)"
    if "bl_plaintext_offset block + ucast (bl_plaintext_length block) = received"
      and "validate_block (offer_entries offer ! i) (lg_entries l ! i) block = Inr ()"
      and "cp_arbiter (lg_entries l ! i) = Arb_PayloadOpen" and "checked_add (cp_next_plaintext_block (lg_entries l ! i)) 1 = Some n" for n received
    using checkpoint_block_ok [OF entry_liveD(4) [OF entry] that(2,3) open_plan [OF that(3)] file_liveD(2) [OF live] that(4)]
    by (intro file_live_update [OF live]) (simp_all add: that(1,3) entry_liveD(6) [OF entry])
  have fits: "checked_add (bl_plaintext_offset block) (ucast (bl_plaintext_length block))
       = Some (bl_plaintext_offset block + ucast (bl_plaintext_length block))"
    if "validate_block (offer_entries offer ! i) (lg_entries l ! i) block = Inr ()"
    using that by (rule validate_blockD)
  show ?thesis
    unfolding receive_block_def
    by (intro rx_intros)
      (simp_all add: file_liveD(4) [OF live] update_checkpoint_twice [OF entry] fits step file_liveD(4) [OF step])
qed

section \<open>Digests and completions\<close>

lemma digest_live:
  assumes live: "file_live el offer l0 i l1 l" and "set_or_equal_digest (lg_entries l ! i) d = Inr c"
  shows "file_live el offer l0 i l1 (update_checkpoint i (\<lambda>_. c) l)"
    and "c = (lg_entries l ! i)\<lparr>cp_content_digest := Some d\<rparr>"
proof -
  note entry = file_liveD(1) [OF live]
  note c = set_or_equal_digestD [OF assms(2)]
  show "file_live el offer l0 i l1 (update_checkpoint i (\<lambda>_. c) l)"
    using checkpoint_digest_ok [OF entry_liveD(4) [OF entry] c(2)] file_liveD(3) [OF live]
    by (intro file_live_update [OF live]) (simp_all add: c(1) entry_liveD(6) [OF entry])
qed (rule set_or_equal_digestD [OF assms(2)])

lemma receive_digest_wp:
  assumes live: "file_live el offer l0 i l1 l"
  shows "rx_wp el offer l0 l (receive_digest el sk (offer_entries offer ! i) i overall frame) (\<lambda>_. file_live el offer l0 i l1)"
proof -
  note entry = file_liveD(1) [OF live]
  have conflict: "rx_wp el offer l0 l (retire_and_fail el sk (offer_entries offer ! i) i e) Q" for e Q
    by (rule retire_here_wp [OF entry])
  have reuse: "file_live el offer l0 i l1 (update_checkpoint i (\<lambda>_. c\<lparr>cp_arbiter := Arb_ReuseChosen,
      cp_next_plaintext_block := 0, cp_plaintext_bytes := 0\<rparr>) l)"
    if "set_or_equal_digest (lg_entries l ! i) (cd_digest frame) = Inr c" for c
  proof -
    note c = set_or_equal_digestD [OF that]
    have "checkpoint_ok el (offer_identity offer) (offer_entries offer ! i) (ac_entry_plans (lg_accept l) ! i) c"
      using checkpoint_digest_ok [OF entry_liveD(4) [OF entry] c(2)] c(1) by simp
    from checkpoint_reuse_ok [OF this] show ?thesis
      by (intro file_live_update [OF live]) (simp_all add: c(1) entry_liveD(6) [OF entry] file_liveD(2,3) [OF live])
  qed
  show ?thesis
    unfolding receive_digest_def
    apply (intro rx_bind rx_get rx_lift)
      apply (simp_all add: file_liveD(4) [OF live] file_liveD(5) [OF live])
    apply (split sum.split)
    apply (intro conjI allI impI conflict)
    apply (intro rx_intros)
                 apply (simp_all add: update_checkpoint_twice [OF entry] reuse digest_live(1) [OF live]
        file_liveD(4) [OF reuse] file_liveD(4) [OF digest_live(1) [OF live]])
    done
qed

lemma rx_catch:
  assumes "\<And>e. rx_wp el offer l0 l (handler e) Q" and "rx_wp el offer l0 l next_op Q"
  shows "rx_wp el offer l0 l
    (\<lambda>p. case on_sink f p of (Inl e, p') \<Rightarrow> handler e p' | (Inr _, p') \<Rightarrow> next_op p') Q"
  unfolding rx_wp_def
proof (intro allI impI)
  fix p :: "'a ReceiverPlane"
  assume p: "rx_ledger p = l" "ledger_disk_ok el offer l0 (pl_disk p)"
  obtain r sink where sink: "f (rx_sink p) = (r, sink)"
    by fastforce
  have "rx_ledger (p\<lparr>rx_sink := sink\<rparr>) = l" "ledger_disk_ok el offer l0 (pl_disk (p\<lparr>rx_sink := sink\<rparr>))"
    using p by simp_all
  then show "wp (\<lambda>p. case on_sink f p of (Inl e, p') \<Rightarrow> handler e p' | (Inr _, p') \<Rightarrow> next_op p')
      (\<lambda>a t. ledger_disk_ok el offer l0 (pl_disk t) \<and> Q a (rx_ledger t))
      (\<lambda>e t. ledger_disk_ok el offer l0 (pl_disk t) \<and> rx_good el offer l0 (rx_ledger t)) p"
    using assms sink unfolding rx_wp_def
    by (cases r) (simp_all add: wp_def on_sink_def)
qed

lemma entry_doneI:
  assumes "entry_live el offer l0 i l1 l" and "cp_arbiter (lg_entries l ! i) \<noteq> Arb_PayloadOpen"
    and "lg_sender_completion_set_digest l1 = None"
  shows "entry_done el offer l0 i l1 l"
  using assms by (simp add: entry_live_def entry_done_def)

definition completes :: "ManifestOfferV2 \<Rightarrow> nat \<Rightarrow> EntryCompleteV2 \<Rightarrow> bool" where
  "completes offer i k \<longleftrightarrow> co_identity k = offer_identity offer \<and> co_entry_id k = me_entry_id (offer_entries offer ! i)
     \<and> co_final_size k = me_plaintext_size (offer_entries offer ! i)"

lemma receive_file_completion_wp:
  assumes live: "file_live el offer l0 i l1 l" and none: "lg_sender_completion_set_digest l1 = None"
    and k: "completes offer i k" "cp_content_digest (lg_entries l ! i) = Some (co_final_digest k)"
  shows "rx_wp el offer l0 (update_checkpoint i (\<lambda>c. c\<lparr>cp_completion := Some k\<rparr>) l)
    (receive_file_completion el sk (offer_entries offer ! i) i d) (\<lambda>_. entry_done el offer l0 i l1)"
proof -
  note entry = file_liveD(1) [OF live]
  let ?l = "update_checkpoint i (\<lambda>c. c\<lparr>cp_completion := Some k\<rparr>) l"
  let ?done = "update_checkpoint i (\<lambda>c. c\<lparr>cp_arbiter := Arb_PayloadCompleteChosen, cp_completion := Some k\<rparr>) l"
  note at = entry_live_at [OF entry]
  have swap: "(\<lambda>c. c\<lparr>cp_completion := Some k, cp_arbiter := Arb_PayloadCompleteChosen\<rparr>)
      = (\<lambda>c. c\<lparr>cp_arbiter := Arb_PayloadCompleteChosen, cp_completion := Some k\<rparr>)"
    by (rule ext) simp
  have retired: "rx_wp el offer l0 ?l (retire_and_fail el sk (offer_entries offer ! i) i e) Q" for e Q
    by (rule retire_wp [OF entry]) (simp_all add: entry_liveD(6) [OF entry])
  have reused: "entry_live el offer l0 i l1 ?l" if "co_completion_choice k = Comp_ReuseChosen"
    using checkpoint_completion_ok [OF entry_liveD(4) [OF entry] file_liveD(3) [OF live] entry_liveD(6) [OF entry], of k] that k
    by (intro entry_live_update [OF entry]) (simp_all add: completes_def entry_liveD(6) [OF entry])
  have paid: "entry_live el offer l0 i l1 ?done"
    if "co_completion_choice k = Comp_PayloadComplete"
      "cp_plaintext_bytes (lg_entries l ! i) = me_plaintext_size (offer_entries offer ! i)"
    using checkpoint_payload_ok [OF entry_liveD(4,6) [OF entry], of k] that k file_liveD(2) [OF live]
    by (intro entry_live_update [OF entry]) (simp_all add: completes_def entry_liveD(6) [OF entry])
  have reuse_done: "entry_done el offer l0 i l1 ?l"
    if "co_completion_choice k = Comp_ReuseChosen" "cp_arbiter (lg_entries l ! i) = Arb_ReuseChosen"
    using that by (intro entry_doneI [OF reused _ none]) (simp_all add: at del: update_checkpoint_simps(7))
  have paid_done: "entry_done el offer l0 i l1 ?done"
    if "co_completion_choice k = Comp_PayloadComplete"
      "cp_plaintext_bytes (lg_entries l ! i) = me_plaintext_size (offer_entries offer ! i)"
    using that by (intro entry_doneI [OF paid _ none]) (simp_all add: at del: update_checkpoint_simps(7))
  show ?thesis
  proof (cases "co_completion_choice k")
    case Comp_PayloadComplete
    then show ?thesis
      unfolding receive_file_completion_def
      apply (intro rx_bind rx_check_known [where a = k] rx_get)
       apply (simp_all add: at del: update_checkpoint_simps(7))
      apply (intro conjI impI retired rx_catch rx_intros)
        apply (simp_all add: update_checkpoint_twice [OF entry] swap entry_liveD(1) [OF paid] paid_done)
      done
  next
    case Comp_ReuseChosen
    then show ?thesis
      unfolding receive_file_completion_def
      apply (intro rx_bind rx_check_known [where a = k] rx_get)
       apply (simp_all add: at entry_liveD(1) [OF reused] del: update_checkpoint_simps(7))
      apply (intro rx_intros)
      apply (simp_all add: update_checkpoint_twice [OF entry] entry_liveD(1) [OF reused] reuse_done)
      done
  qed
qed

lemma rx_then_emit:
  assumes "rx_wp el offer l0 l m Q"
  shows "rx_wp el offer l0 l (\<lambda>p. case m p of (r, p') \<Rightarrow> (r, snd (emit ev p' :: (unit + unit) \<times> 's ReceiverPlane))) Q"
  unfolding rx_wp_def
proof (intro allI impI)
  fix p :: "'s ReceiverPlane"
  assume "rx_ledger p = l" "ledger_disk_ok el offer l0 (pl_disk p)"
  with assms have "wp m (\<lambda>a t. ledger_disk_ok el offer l0 (pl_disk t) \<and> Q a (rx_ledger t))
      (\<lambda>e t. ledger_disk_ok el offer l0 (pl_disk t) \<and> rx_good el offer l0 (rx_ledger t)) p"
    by (simp add: rx_wp_def)
  then show "wp (\<lambda>p. case m p of (r, p') \<Rightarrow> (r, snd (emit ev p' :: (unit + unit) \<times> 's ReceiverPlane)))
      (\<lambda>a t. ledger_disk_ok el offer l0 (pl_disk t) \<and> Q a (rx_ledger t))
      (\<lambda>e t. ledger_disk_ok el offer l0 (pl_disk t) \<and> rx_good el offer l0 (rx_ledger t)) p"
    by (auto simp: wp_def emit_def split: prod.splits sum.splits)
qed

lemma receive_complete_wp:
  assumes live: "file_live el offer l0 i l1 l" and none: "lg_sender_completion_set_digest l1 = None"
  shows "rx_wp el offer l0 l (receive_complete el sk (offer_entries offer ! i) i k) (\<lambda>_. entry_done el offer l0 i l1)"
proof -
  note entry = file_liveD(1) [OF live]
  have finish: "rx_wp el offer l0 (update_checkpoint i (\<lambda>_. c\<lparr>cp_completion := Some k\<rparr>) l)
      (receive_file_completion el sk (offer_entries offer ! i) i d) (\<lambda>_. entry_done el offer l0 i l1)"
    if "completes offer i k" and set: "set_or_equal_digest (lg_entries l ! i) (co_final_digest k) = Inr c" for c d
  proof -
    have "cp_content_digest (lg_entries (update_checkpoint i (\<lambda>_. c) l) ! i) = Some (co_final_digest k)"
      using digest_live(2) [OF live set] entry_live_at [OF entry, of "\<lambda>_. c"] by (simp del: update_checkpoint_simps(7))
    from receive_file_completion_wp [OF digest_live(1) [OF live set] none that(1) this] show ?thesis
      by (simp add: update_checkpoint_twice [OF entry])
  qed
  have mismatch: "rx_wp el offer l0 (update_checkpoint i (\<lambda>_. c) l) (retire_and_fail el sk (offer_entries offer ! i) i e) Q"
    if "set_or_equal_digest (lg_entries l ! i) (co_final_digest k) = Inr c" for c e Q
    using retire_here_wp [OF file_liveD(1) [OF digest_live(1) [OF live that]]] .
  have goes_on: "rx_wp el offer l0 l (bindM (set_checkpoint i (\<lambda>_. c)) (\<lambda>_.
         if co_final_size k \<noteq> me_plaintext_size (offer_entries offer ! i)
         then retire_and_fail el sk (offer_entries offer ! i) i ME_FinalMismatch
         else
           bindM (set_checkpoint i (\<lambda>c. c\<lparr>cp_completion := Some k\<rparr>)) (\<lambda>_.
           bindM (emit (On_phase PP_Verifying)) (\<lambda>_.
           (\<lambda>p. case receive_file_completion el sk (offer_entries offer ! i) i (co_final_digest k) p of
              (r, p') \<Rightarrow> (r, snd (emit (On_phase PP_Transferring) p' :: (unit + unit) \<times> 'a ReceiverPlane)))))))
      (\<lambda>_. entry_done el offer l0 i l1)"
    if "co_identity k = offer_identity offer" "co_entry_id k = me_entry_id (offer_entries offer ! i)"
      and set: "set_or_equal_digest (lg_entries l ! i) (co_final_digest k) = Inr c" for c
    using that by (intro rx_bind rx_set rx_if mismatch rx_then_emit rx_emit)
      (simp_all add: update_checkpoint_twice [OF entry] finish completes_def)
  have conflict: "rx_wp el offer l0 l (retire_and_fail el sk (offer_entries offer ! i) i e) Q" for e Q
    by (rule retire_here_wp [OF entry])
  show ?thesis
    unfolding receive_complete_def
  proof (intro rx_bind rx_check rx_get)
    fix p pa :: "'a ReceiverPlane" and u
    assume "rx_ledger p = l" and "rejectR (co_identity k \<noteq> lg_identity (rx_ledger p)
       \<or> co_entry_id k \<noteq> me_entry_id (offer_entries offer ! i)) ME_IdentityMismatch = Inr u" and "rx_ledger pa = l"
    then show "rx_wp el offer l0 l (case set_or_equal_digest (rx_checkpoint i pa) (co_final_digest k) of
        Inl _ \<Rightarrow> retire_and_fail el sk (offer_entries offer ! i) i ME_DigestConflict
      | Inr c \<Rightarrow> bindM (set_checkpoint i (\<lambda>_. c)) (\<lambda>_.
         if co_final_size k \<noteq> me_plaintext_size (offer_entries offer ! i)
         then retire_and_fail el sk (offer_entries offer ! i) i ME_FinalMismatch
         else
           bindM (set_checkpoint i (\<lambda>c. c\<lparr>cp_completion := Some k\<rparr>)) (\<lambda>_.
           bindM (emit (On_phase PP_Verifying)) (\<lambda>_.
           (\<lambda>p. case receive_file_completion el sk (offer_entries offer ! i) i (co_final_digest k) p of
              (r, p') \<Rightarrow> (r, snd (emit (On_phase PP_Transferring) p' :: (unit + unit) \<times> 'a ReceiverPlane)))))))
      (\<lambda>_. entry_done el offer l0 i l1)"
      using conflict goes_on by (auto simp: file_liveD(5) [OF live] split: sum.split)
  qed (simp_all add: file_liveD(4) [OF live])
qed

section \<open>A file and a directory\<close>

definition after_frame ::
  "EngineLibs \<Rightarrow> ManifestOfferV2 \<Rightarrow> ReceiverDataPlaneLedgerV2 \<Rightarrow> nat \<Rightarrow> ReceiverDataPlaneLedgerV2 \<Rightarrow> bool
     \<Rightarrow> ReceiverDataPlaneLedgerV2 \<Rightarrow> bool" where
  "after_frame el offer l0 i l1 over = (if over then entry_done el offer l0 i l1 else file_live el offer l0 i l1)"

lemma receive_file_frame_wp:
  assumes live: "file_live el offer l0 i l1 l" and none: "lg_sender_completion_set_digest l1 = None"
  shows "rx_wp el offer l0 l (receive_file_frame el sk (offer_entries offer ! i) i overall frame)
    (after_frame el offer l0 i l1)"
proof -
  have returns: "rx_wp el offer l0 l (bindM m (\<lambda>_. returnM b)) (after_frame el offer l0 i l1)"
    if "rx_wp el offer l0 l m (\<lambda>_ :: unit. after_frame el offer l0 i l1 b)" for m b
    by (rule rx_bind, rule rx_mono [OF that]) (rule rx_return)
  note good = file_liveD(4) [OF live]
  have blocks: "rx_wp el offer l0 l (receive_block el sk (offer_entries offer ! i) i overall block)
      (\<lambda>_ :: unit. after_frame el offer l0 i l1 False)" for block
    using receive_block_wp [OF live] by (simp add: after_frame_def)
  have digests: "rx_wp el offer l0 l (receive_digest el sk (offer_entries offer ! i) i overall d)
      (\<lambda>_ :: unit. after_frame el offer l0 i l1 False)" for d
    using receive_digest_wp [OF live] by (simp add: after_frame_def)
  have finishes: "rx_wp el offer l0 l (receive_complete el sk (offer_entries offer ! i) i k)
      (\<lambda>_ :: unit. after_frame el offer l0 i l1 True)" for k
    using receive_complete_wp [OF live none] by (simp add: after_frame_def)
  have refused: "rx_wp el offer l0 l (checkM (\<lambda>p. Inl (f p))) (after_frame el offer l0 i l1)" for f
    using good by (simp add: rx_wp_def)
  show ?thesis
    unfolding receive_file_frame_def
    by (cases frame) (simp_all add: returns blocks digests finishes good refused rx_fail)
qed

lemma wp_receive_file_loop:
  "wp (receive_file_loop el sk entry i overall (Some frame # rest)) Q E p
     = wp (receive_file_frame el sk entry i overall frame)
         (\<lambda>over t. if over then Q () t else wp (receive_file_loop el sk entry i overall rest) Q E t) E
         (p\<lparr>pl_inbox := rest\<rparr>)"
  by (simp add: wp_def split: prod.split sum.split bool.split)

lemma receive_file_loop_wp:
  assumes "file_live el offer l0 i l1 l" and none: "lg_sender_completion_set_digest l1 = None"
  shows "rx_wp el offer l0 l (receive_file_loop el sk (offer_entries offer ! i) i overall inbox)
    (\<lambda>_. entry_done el offer l0 i l1)"
  using assms(1)
proof (induction inbox arbitrary: l)
  case Nil
  then show ?case
    by (simp add: rx_wp_def wp_def file_liveD(4))
next
  case (Cons arrival rest)
  note live = Cons.prems
  have good: "rx_good el offer l0 l"
    using live by (rule file_liveD)
  show ?case
  proof (cases arrival)
    case None
    then show ?thesis
      using good by (simp add: rx_wp_def wp_def)
  next
    case (Some frame)
    let ?Q = "\<lambda>a t. ledger_disk_ok el offer l0 (pl_disk t) \<and> after_frame el offer l0 i l1 a (rx_ledger t)"
    let ?R = "\<lambda>a t. ledger_disk_ok el offer l0 (pl_disk t) \<and> entry_done el offer l0 i l1 (rx_ledger t)"
    let ?E = "\<lambda>e t. ledger_disk_ok el offer l0 (pl_disk t) \<and> rx_good el offer l0 (rx_ledger t)"
    show ?thesis
      unfolding rx_wp_def
    proof (intro allI impI)
      fix p :: "'a ReceiverPlane"
      assume p: "rx_ledger p = l" "ledger_disk_ok el offer l0 (pl_disk p)"
      have "wp (receive_file_frame el sk (offer_entries offer ! i) i overall frame) ?Q ?E (p\<lparr>pl_inbox := rest\<rparr>)"
        using receive_file_frame_wp [OF live none, of sk overall frame] p by (simp add: rx_wp_def)
      then show "wp (receive_file_loop el sk (offer_entries offer ! i) i overall (arrival # rest)) ?R ?E p"
        unfolding Some wp_receive_file_loop
      proof (rule wp_mono)
        show "if over then ?R () t else wp (receive_file_loop el sk (offer_entries offer ! i) i overall rest) ?R ?E t"
          if "?Q over t" for over t
          using that Cons.IH [of "rx_ledger t"] by (simp add: after_frame_def rx_wp_def split: if_splits)
      qed
    qed
  qed
qed

lemma receive_reuse_wp:
  assumes entry: "entry_live el offer l0 i l1 l" and kind: "me_kind (offer_entries offer ! i) = RegularFile"
    and arbiter: "cp_arbiter (lg_entries l ! i) \<noteq> Arb_PayloadCompleteChosen"
    and reuse: "ep_disposition (ac_entry_plans (lg_accept l) ! i) = Disp_ReuseExisting"
  shows "rx_wp el offer l0 l (receive_reuse el sk (offer_entries offer ! i) i overall) (\<lambda>_. file_live el offer l0 i l1)"
proof -
  let ?c = "lg_entries l ! i"
  have "cp_next_plaintext_block ?c = 0" "cp_plaintext_bytes ?c = 0"
    using entry_liveD(4) [OF entry] reuse by (simp_all add: checkpoint_ok_def boundary_ok_def)
  then have same: "?c\<lparr>cp_arbiter := Arb_ReuseChosen, cp_next_plaintext_block := 0, cp_plaintext_bytes := 0\<rparr>
      = ?c\<lparr>cp_arbiter := Arb_ReuseChosen\<rparr>"
    by simp
  have live: "file_live el offer l0 i l1 (update_checkpoint i (\<lambda>c. c\<lparr>cp_arbiter := Arb_ReuseChosen\<rparr>) l)"
    if "cp_content_digest ?c = Some d" for d
  proof -
    have "checkpoint_ok el (offer_identity offer) (offer_entries offer ! i) (ac_entry_plans (lg_accept l) ! i)
        (?c\<lparr>cp_arbiter := Arb_ReuseChosen\<rparr>)"
      using checkpoint_reuse_ok [OF entry_liveD(4) [OF entry] arbiter _ kind] that same by simp
    then have "entry_live el offer l0 i l1 (update_checkpoint i (\<lambda>c. c\<lparr>cp_arbiter := Arb_ReuseChosen\<rparr>) l)"
      by (intro entry_live_update [OF entry]) (simp_all add: entry_liveD(6) [OF entry])
    then show ?thesis
      using kind entry_live_at [OF entry] by (simp add: file_live_def del: update_checkpoint_simps(7))
  qed
  show ?thesis
    unfolding receive_reuse_def
    by (intro rx_intros) (simp_all add: entry_liveD(1) [OF entry] live file_liveD(4) [OF live])
qed

lemma receive_file_wp:
  assumes entry: "entry_live el offer l0 i l1 l" and kind: "me_kind (offer_entries offer ! i) = RegularFile"
    and arbiter: "cp_arbiter (lg_entries l ! i) \<noteq> Arb_PayloadCompleteChosen" and none: "lg_sender_completion_set_digest l1 = None"
  shows "rx_wp el offer l0 l (receive_file el sk (offer_entries offer ! i) (ac_entry_plans (lg_accept l) ! i) i overall)
    (\<lambda>_. entry_done el offer l0 i l1)"
proof -
  have loop: "rx_wp el offer l0 l' (\<lambda>p. receive_file_loop el sk (offer_entries offer ! i) i overall (pl_inbox p) p)
      (\<lambda>_. entry_done el offer l0 i l1)" if "file_live el offer l0 i l1 l'" for l'
    using receive_file_loop_wp [OF that none, of sk overall] by (simp add: rx_wp_def wp_def)
  show ?thesis
  proof (cases "ep_disposition (ac_entry_plans (lg_accept l) ! i) = Disp_ReuseExisting")
    case True
    then show ?thesis
      unfolding receive_file_def using loop
      by (simp add: rx_bind rx_mono [OF receive_reuse_wp [OF entry kind arbiter]])
  next
    case False
    then show ?thesis
      unfolding receive_file_def using loop entry kind arbiter by (simp add: file_live_def)
  qed
qed

lemma receive_directory_wp:
  assumes entry: "entry_live el offer l0 i l1 l" and kind: "me_kind (offer_entries offer ! i) = Directory"
    and none: "lg_sender_completion_set_digest l1 = None"
  shows "rx_wp el offer l0 l (receive_directory el sk (offer_entries offer ! i) (offer_identity offer) i)
    (\<lambda>_. entry_done el offer l0 i l1)"
proof -
  have i: "i < length (offer_entries offer)" and size: "me_plaintext_size (offer_entries offer ! i) = 0"
    using offer_entry(3) [OF entry_liveD(7) [OF entry] _ kind] entry by (simp_all add: entry_live_def)
  let ?l = "\<lambda>k. update_checkpoint i (\<lambda>c. c\<lparr>cp_arbiter := Arb_PayloadCompleteChosen, cp_completion := Some k\<rparr>) l"
  have live: "entry_live el offer l0 i l1 (?l k)"
    if "co_identity k = offer_identity offer" "co_entry_id k = me_entry_id (offer_entries offer ! i)" "co_final_size k = 0"
      "co_final_digest k = empty_digest el" "co_completion_choice k = Comp_PayloadComplete" for k
    using checkpoint_payload_ok [OF entry_liveD(4,6) [OF entry], of k] that kind size
    by (intro entry_live_update [OF entry]) (simp_all add: entry_liveD(6) [OF entry])
  have finished: "entry_done el offer l0 i l1 (?l k)" if "entry_live el offer l0 i l1 (?l k)" for k
    using entry_live_at [OF entry] by (intro entry_doneI [OF that _ none]) (simp del: update_checkpoint_simps(7))
  note good = entry_liveD(1) [OF entry]
  have completes: "rx_wp el offer l0 l
     (bindM (liftM (rejectR (co_identity k \<noteq> offer_identity offer \<or> co_entry_id k \<noteq> me_entry_id (offer_entries offer ! i)
             \<or> co_final_size k \<noteq> 0 \<or> co_final_digest k \<noteq> empty_digest el
             \<or> co_completion_choice k \<noteq> Comp_PayloadComplete) ME_FinalMismatch)) (\<lambda>_.
         bindM (on_sink (sk_stage_directory sk (offer_entries offer ! i))) (\<lambda>_.
         bindM (set_checkpoint i (\<lambda>c. c\<lparr>cp_arbiter := Arb_PayloadCompleteChosen, cp_completion := Some k\<rparr>)) (\<lambda>_.
         save_ledger el)))) (\<lambda>_. entry_done el offer l0 i l1)" for k
    by (intro rx_intros) (simp_all add: good live finished entry_liveD(1) [OF live])
  have frames: "rx_wp el offer l0 l (case frame of F_EntryComplete completion \<Rightarrow> f completion
      | _ \<Rightarrow> failM (ME_UnexpectedFrame e)) Q"
    if "\<And>k. rx_wp el offer l0 l (f k) Q" for frame f Q e
    using that good by (cases frame) (simp_all add: rx_fail)
  show ?thesis
    unfolding receive_directory_def
    by (intro rx_bind [OF rx_quiet_ops(1)] good frames completes)
qed

section \<open>An entry\<close>

text \<open>What holds after an entry was received with the completion \<open>k\<close>.\<close>

definition entry_received ::
  "EngineLibs \<Rightarrow> ManifestOfferV2 \<Rightarrow> ReceiverDataPlaneLedgerV2 \<Rightarrow> nat \<Rightarrow> ReceiverDataPlaneLedgerV2 \<Rightarrow> EntryCompleteV2
     \<Rightarrow> ReceiverDataPlaneLedgerV2 \<Rightarrow> bool" where
  "entry_received el offer l0 i l1 k l \<longleftrightarrow> entry_done el offer l0 i l1 l \<and> cp_completion (lg_entries l ! i) = Some k"

lemma open_entry_live:
  assumes valid: "offer_valid el offer" and i: "i < length (offer_entries offer)" and good: "rx_good el offer l0 l"
    and open_now: "cp_arbiter (lg_entries l ! i) = Arb_PayloadOpen"
  shows "entry_live el offer l0 i l l" "lg_sender_completion_set_digest l = None"
proof -
  have ok: "checkpoint_ok el (offer_identity offer) (offer_entries offer ! i) (ac_entry_plans (lg_accept l) ! i) (lg_entries l ! i)"
    using ledger_okD(4) [OF rx_goodD(1) [OF good] i] .
  have "cp_arbiter (lg_entries l0 ! i) = Arb_PayloadOpen"
    using rx_goodD(2,5) [OF good] i open_now by (auto simp: keeps_decisions_def same_decision_def)
  moreover show none: "lg_sender_completion_set_digest l = None"
    using ledger_okD(5) [OF rx_goodD(1) [OF good]] rx_goodD(4) [OF good] i open_now
    by (cases "lg_sender_completion_set_digest l") (auto simp: all_decided_def)
  ultimately show "entry_live el offer l0 i l l"
    using assms ok by (simp add: entry_live_def checkpoint_ok_def arbiter_ok_def)
qed

lemma receive_open_entry_wp:
  assumes valid: "offer_valid el offer" and i: "i < length (offer_entries offer)" and good: "rx_good el offer l0 l"
    and open_now: "cp_arbiter (lg_entries l ! i) = Arb_PayloadOpen"
  shows "rx_wp el offer l0 l (receive_open_entry el sk (offer_identity offer) overall (offer_entries offer ! i))
    (entry_received el offer l0 i l)"
proof -
  note entry = open_entry_live(1) [OF assms] and none = open_entry_live(2) [OF assms]
  let ?start = "\<lambda>start. update_checkpoint i (\<lambda>c. c\<lparr>cp_start := Some start, cp_payload_retired := False\<rparr>) l"
  have started: "entry_live el offer l0 i l (?start start)"
    if "es_identity start = offer_identity offer" "es_entry_id start = me_entry_id (offer_entries offer ! i)"
      "\<not> (case cp_start (lg_entries l ! i) of None \<Rightarrow> False | Some existing \<Rightarrow> existing \<noteq> start)" for start
    using checkpoint_start_ok [OF entry_liveD(4) [OF entry], of start] that
    by (intro entry_live_update [OF entry]) (simp_all add: entry_liveD(6) [OF entry] split: option.splits)
  have received: "rx_wp el offer l0 (?start start)
      (if me_kind (offer_entries offer ! i) = Directory
       then receive_directory el sk (offer_entries offer ! i) (offer_identity offer) i
       else bindM (whenM (ep_disposition (ac_entry_plans (lg_accept l) ! i) = Disp_ReceivePayload)
                    (bindM (getM (\<lambda>p. cp_next_plaintext_block (rx_checkpoint i p))) (\<lambda>next.
                     on_sink (sk_begin_entry sk (offer_entries offer ! i) start next)))) (\<lambda>_.
                  receive_file el sk (offer_entries offer ! i) (ac_entry_plans (lg_accept l) ! i) i overall))
      (\<lambda>_. entry_done el offer l0 i l)"
    if live: "entry_live el offer l0 i l (?start start)" for start
  proof (cases "me_kind (offer_entries offer ! i)")
    case RegularFile
    have "cp_arbiter (lg_entries (?start start) ! i) \<noteq> Arb_PayloadCompleteChosen"
      using entry_live_at [OF entry] open_now by (simp del: update_checkpoint_simps(7))
    from receive_file_wp [OF live RegularFile this none] RegularFile entry_liveD(1) [OF live] show ?thesis
      by (auto intro!: rx_bind rx_when rx_get rx_quiet_ops)
  next
    case Directory
    from receive_directory_wp [OF live Directory none] Directory show ?thesis
      by simp
  qed
  have start_frame: "rx_wp el offer l0 l (recv_entry_start (offer_identity offer) (me_entry_id (offer_entries offer ! i)))
     (\<lambda>start l'. l' = l \<and> es_identity start = offer_identity offer \<and> es_entry_id start = me_entry_id (offer_entries offer ! i))"
    unfolding recv_entry_start_def using good
    by (intro rx_bind rx_quiet_ops rx_lift) (auto split: ManifestV2Frame.splits if_splits)
  have finished: "rx_wp el offer l0 l'
      (checkM (\<lambda>p. ok_or (cp_completion (rx_checkpoint i p)) (ME_InvalidLedger ''entry completion missing'')))
      (entry_received el offer l0 i l)" if "entry_done el offer l0 i l l'" for l'
    using that by (intro rx_check) (simp_all add: entry_received_def entry_done_def)
  have saved: "rx_wp el offer l0 (?start start) (save_ledger el) (\<lambda>_ l'. l' = ?start start)"
    if "entry_live el offer l0 i l (?start start)" for start
    using that by (intro rx_save) (simp_all add: entry_liveD(1))
  show ?thesis
    unfolding receive_open_entry_def Let_def offer_entry(2) [OF valid i]
    apply (intro rx_bind rx_get_known [where a = "ac_entry_plans (lg_accept l) ! i"])
     apply simp
    apply (rule rx_mono [OF start_frame], elim conjE, simp only:)
    apply (intro rx_bind rx_check rx_set)
     apply (simp add: good)
    apply (rule rx_mono [OF saved])
     apply (simp add: started)
    apply (simp only:)
    apply (rule rx_bind, rule rx_mono [OF received])
     apply (simp_all add: started finished)
    done
qed

end
