(* ===== verification/Engine_Receive_Run.thy ===== *)
theory Engine_Receive_Run
  imports Engine_Receive_Steps
begin

text \<open>The entries of a job, its end and the whole of \<open>receive\<close> keep the invariant of the ledger.\<close>

section \<open>The entries\<close>

lemma checkpoint_decided_completion:
  assumes ok: "checkpoint_ok el identity entry plan c" and "decided_completion identity entry c = Inr k"
    and "cp_arbiter c \<noteq> Arb_PayloadOpen"
  shows "checkpoint_ok el identity entry plan (c\<lparr>cp_completion := Some k\<rparr>)"
    and "cp_completion c \<noteq> None \<Longrightarrow> cp_completion c = Some k"
proof -
  show known: "cp_completion c \<noteq> None \<Longrightarrow> cp_completion c = Some k"
    using assms(2) by (auto simp: decided_completion_def)
  show "checkpoint_ok el identity entry plan (c\<lparr>cp_completion := Some k\<rparr>)"
  proof (cases "cp_completion c")
    case None
    then have reuse: "cp_arbiter c = Arb_ReuseChosen"
        "\<exists>d. cp_content_digest c = Some d \<and> k = reuse_completion identity entry d"
      using assms(2) by (auto simp: decided_completion_def split: if_splits)
    have "cp_result c = None"
      using ok None by (cases "cp_result c") (auto simp: checkpoint_ok_def)
    then show ?thesis
      using reuse by (intro checkpoint_completion_ok [OF ok]) (auto simp: reuse_completion_def)
  next
    case (Some k')
    then have "c\<lparr>cp_completion := Some k\<rparr> = c"
      using known by simp
    then show ?thesis
      using ok by simp
  qed
qed

lemma all_some_nth:
  "all_some (map f xs) = Some ys \<Longrightarrow> length ys = length xs \<and> (\<forall>i < length xs. f (xs ! i) = Some (ys ! i))"
  by (induction xs arbitrary: ys) (fastforce simp: bind_eq_Some_conv nth_Cons split: nat.split)+

lemma all_decided_completion:
  assumes "all_decided el l d" and "i < length (lg_entries l)"
  shows "cp_completion (lg_entries l ! i) \<noteq> None" "cp_arbiter (lg_entries l ! i) \<noteq> Arb_PayloadOpen"
  using assms by (auto simp: all_decided_def dest: all_some_nth)

lemma decided_update_good:
  assumes good: "rx_good el offer l0 l" and i: "i < length (offer_entries offer)"
    and decided: "cp_arbiter (lg_entries l ! i) \<noteq> Arb_PayloadOpen"
    and k: "decided_completion (offer_identity offer) (offer_entries offer ! i) (lg_entries l ! i) = Inr k"
  shows "entry_received el offer l0 i l k (update_checkpoint i (\<lambda>c. c\<lparr>cp_completion := Some k\<rparr>) l)"
proof -
  let ?l = "update_checkpoint i (\<lambda>c. c\<lparr>cp_completion := Some k\<rparr>) l"
  have len: "i < length (lg_entries l)" "i < length (lg_entries l0)"
    using i rx_goodD(4,5) [OF good] by simp_all
  note ok = ledger_okD(4) [OF rx_goodD(1) [OF good] i]
  note c = checkpoint_decided_completion [OF ok k decided]
  have "rx_good el offer l0 ?l"
  proof (cases "cp_completion (lg_entries l ! i) = None")
    case True
    have none: "lg_sender_completion_set_digest l = None"
      using ledger_okD(5) [OF rx_goodD(1) [OF good]] all_decided_completion(1) [OF _ len(1)] True
      by (cases "lg_sender_completion_set_digest l") auto
    have "cp_result (lg_entries l ! i) = None"
      using ok True by (cases "cp_result (lg_entries l ! i)") (auto simp: checkpoint_ok_def)
    then have "\<not> all_results l0"
      using rx_goodD(2) [OF good] len by (auto simp: keeps_decisions_def all_results_def list_all_length)
    moreover have "cp_arbiter (lg_entries l0 ! i) = Arb_PayloadOpen
        \<or> same_decision (lg_entries l0 ! i) ((lg_entries l ! i)\<lparr>cp_completion := Some k\<rparr>)"
      using rx_goodD(2) [OF good] len(2) True by (auto simp: keeps_decisions_def same_decision_def)
    ultimately show ?thesis
      using c(1) by (intro rx_good_update [OF good none i]) auto
  next
    case False
    then have "(lg_entries l ! i)\<lparr>cp_completion := Some k\<rparr> = lg_entries l ! i"
      using c(2) by simp
    then have "?l = l"
      by (simp add: update_checkpoint_same)
    then show ?thesis
      using good by simp
  qed
  then show ?thesis
    using decided len(1) by (simp add: entry_received_def entry_done_def)
qed

lemma receive_entry_wp:
  assumes valid: "offer_valid el offer" and i: "i < length (offer_entries offer)" and good: "rx_good el offer l0 l"
  shows "rx_wp el offer l0 l (receive_entry el sk (offer_identity offer) overall (offer_entries offer ! i))
    (entry_received el offer l0 i l)"
proof -
  note ok = ledger_okD(4) [OF rx_goodD(1) [OF good] i]
  let ?c = "lg_entries l ! i"
  consider (result) "cp_result ?c \<noteq> None" | (decided) "cp_result ?c = None" "cp_arbiter ?c \<noteq> Arb_PayloadOpen"
    | (opened) "cp_result ?c = None" "cp_arbiter ?c = Arb_PayloadOpen"
    by blast
  then show ?thesis
  proof cases
    case result
    then have "cp_arbiter ?c \<noteq> Arb_PayloadOpen"
      using ok by (auto simp: checkpoint_ok_def arbiter_ok_def)
    then have "entry_received el offer l0 i l k l" if "cp_completion ?c = Some k" for k
      using that good by (simp add: entry_received_def entry_done_def)
    then have "rx_wp el offer l0 l (liftM (ok_or (cp_completion ?c) e)) (entry_received el offer l0 i l)" for e
      using good by (intro rx_lift) simp_all
    then show ?thesis
      unfolding receive_entry_def Let_def offer_entry(2) [OF valid i]
      using result by (intro rx_bind rx_get_known [where a = ?c]) simp_all
  next
    case decided
    have "rx_wp el offer l0 l
       (bindM (liftM (decided_completion (offer_identity offer) (offer_entries offer ! i) ?c)) (\<lambda>completion.
           bindM (set_checkpoint i (\<lambda>c. c\<lparr>cp_completion := Some completion\<rparr>)) (\<lambda>_.
           bindM (save_ledger el) (\<lambda>_. returnM completion)))) (entry_received el offer l0 i l)"
      using decided_update_good [OF good i decided(2)]
      by (intro rx_intros) (auto simp: good entry_received_def entry_done_def)
    then show ?thesis
      unfolding receive_entry_def Let_def offer_entry(2) [OF valid i]
      using decided by (intro rx_bind rx_get_known [where a = ?c]) simp_all
  next
    case opened
    then show ?thesis
      unfolding receive_entry_def Let_def offer_entry(2) [OF valid i]
      using receive_open_entry_wp [OF valid i good opened(2)]
      by (intro rx_bind rx_get_known [where a = ?c]) simp_all
  qed
qed

text \<open>What holds once the entries from the \<open>n\<close>-th on are received.\<close>

definition received_from ::
  "EngineLibs \<Rightarrow> ManifestOfferV2 \<Rightarrow> ReceiverDataPlaneLedgerV2 \<Rightarrow> nat \<Rightarrow> ReceiverDataPlaneLedgerV2 \<Rightarrow> bytes \<Rightarrow> bytes
     \<Rightarrow> ReceiverDataPlaneLedgerV2 \<Rightarrow> bool" where
  "received_from el offer l0 n l1 hasher h l \<longleftrightarrow>
     rx_good el offer l0 l \<and> lg_sender_completion_set_digest l = lg_sender_completion_set_digest l1
     \<and> (\<forall>j < n. lg_entries l ! j = lg_entries l1 ! j)
     \<and> (\<forall>c \<in> set (drop n (lg_entries l)). cp_arbiter c \<noteq> Arb_PayloadOpen)
     \<and> (\<exists>ks. all_some (map cp_completion (drop n (lg_entries l))) = Some ks
          \<and> completion_transcript el hasher ks = Inr h)"

lemma received_from_step:
  assumes first: "entry_received el offer l0 n l1 k l2" and rest: "received_from el offer l0 (Suc n) l2 hasher' h l"
    and hasher': "update_completion_set el hasher k = Inr hasher'" and n: "n < length (offer_entries offer)"
  shows "received_from el offer l0 n l1 hasher h l"
proof -
  have len: "n < length (lg_entries l)"
    using rest n rx_goodD(4) by (auto simp: received_from_def)
  have at: "lg_entries l ! n = lg_entries l2 ! n"
    using rest by (simp add: received_from_def)
  have here: "cp_completion (lg_entries l ! n) = Some k" "cp_arbiter (lg_entries l ! n) \<noteq> Arb_PayloadOpen"
    using first unfolding at by (simp_all add: entry_received_def entry_done_def)
  have before_n: "lg_entries l ! j = lg_entries l1 ! j" if "j < n" for j
    using that first rest by (simp add: received_from_def entry_received_def entry_done_def)
  show ?thesis
    using rest first hasher' here before_n unfolding received_from_def Cons_nth_drop_Suc [OF len, symmetric]
    by (auto simp: entry_received_def entry_done_def)
qed

lemma receive_entries_wp:
  assumes valid: "offer_valid el offer" and "n \<le> length (offer_entries offer)" and "rx_good el offer l0 l"
  shows "rx_wp el offer l0 l (receive_entries el sk (offer_identity offer) overall hasher (drop n (offer_entries offer)))
    (received_from el offer l0 n l hasher)"
  using assms(2,3)
proof (induction "length (offer_entries offer) - n" arbitrary: n l hasher)
  case 0
  then have "drop n (offer_entries offer) = []" "drop n (lg_entries l) = []"
    using rx_goodD(4) [OF 0(3)] by simp_all
  then show ?case
    using 0(3) unfolding receive_entries.simps by (simp only: receive_entries.simps, intro rx_return) (simp add: received_from_def)
next
  case (Suc d)
  then have n: "n < length (offer_entries offer)" and later: "d = length (offer_entries offer) - Suc n"
    by simp_all
  have rest: "rx_wp el offer l0 l2 (liftM (update_completion_set el hasher k))
      (\<lambda>hasher' l'. rx_wp el offer l0 l' (receive_entries el sk (offer_identity offer) overall hasher' (drop (Suc n) (offer_entries offer)))
        (received_from el offer l0 n l hasher))"
    if received: "entry_received el offer l0 n l k l2" for k l2
  proof -
    have good: "rx_good el offer l0 l2"
      using received by (simp add: entry_received_def entry_done_def)
    have later_wp: "rx_wp el offer l0 l2 (receive_entries el sk (offer_identity offer) overall hasher' (drop (Suc n) (offer_entries offer)))
        (received_from el offer l0 n l hasher)" if "update_completion_set el hasher k = Inr hasher'" for hasher'
      using n by (intro rx_mono [OF Suc.hyps(1) [OF later _ good]] received_from_step [OF received _ that n]) simp_all
    show ?thesis
      by (intro rx_lift good later_wp)
  qed
  show ?case
    unfolding Cons_nth_drop_Suc [OF n, symmetric] receive_entries.simps
    by (intro rx_bind rx_mono [OF receive_entry_wp [OF valid n Suc.prems(2)]] rest)
qed

section \<open>The end of a job\<close>

lemma seal_good:
  assumes "received_from el offer l0 0 l1 [] h l" and "d = cy_hash (el_crypto el) h"
  shows "rx_good el offer l0 (l\<lparr>lg_sender_completion_set_digest := Some d\<rparr>)"
  using assms by (auto simp: received_from_def rx_good_def ledger_ok_def keeps_decisions_def all_decided_def all_results_def)

lemma update_result_ok:
  assumes ok: "ledger_ok el offer l" and i: "i < length (offer_entries offer)"
    and k: "cp_completion (lg_entries l ! i) = Some k" "cp_arbiter (lg_entries l ! i) \<noteq> Arb_PayloadOpen"
    and r: "result_of_completion (offer_identity offer) (offer_entries offer ! i) k r"
  shows "ledger_ok el offer (update_checkpoint i (\<lambda>c. c\<lparr>cp_result := Some r\<rparr>) l)"
proof -
  let ?l = "update_checkpoint i (\<lambda>c. c\<lparr>cp_result := Some r\<rparr>) l"
  have here: "checkpoint_ok el (offer_identity offer) (offer_entries offer ! i) (ac_entry_plans (lg_accept l) ! i)
      ((lg_entries l ! i)\<lparr>cp_result := Some r\<rparr>)"
    using ledger_okD(4) [OF ok i] k r by (simp add: checkpoint_ok_def arbiter_ok_def)
  have same: "map cp_completion (lg_entries ?l) = map cp_completion (lg_entries l)"
    using i ledger_okD(2) [OF ok] by (simp add: map_update list_update_same_conv)
  have "\<forall>c \<in> set (lg_entries ?l). cp_arbiter c \<noteq> Arb_PayloadOpen" if "\<forall>c \<in> set (lg_entries l). cp_arbiter c \<noteq> Arb_PayloadOpen"
    using that k(2) by (auto dest!: set_update_subset_insert [THEN subsetD])
  then have "all_decided el ?l d" if "all_decided el l d" for d
    using that same by (simp add: all_decided_def del: update_checkpoint_simps(7))
  moreover have "checkpoint_ok el (offer_identity offer) (offer_entries offer ! j) (ac_entry_plans (lg_accept l) ! j)
      ((lg_entries l)[i := (lg_entries l ! i)\<lparr>cp_result := Some r\<rparr>] ! j)" if "j < length (offer_entries offer)" for j
    using here ledger_okD(2,4) [OF ok] that by (cases "i = j") simp_all
  ultimately show ?thesis
    using ok by (simp add: ledger_ok_def)
qed

text \<open>Results recorded for the entries before the \<open>n\<close>-th.\<close>

definition results_good ::
  "EngineLibs \<Rightarrow> ManifestOfferV2 \<Rightarrow> ReceiverDataPlaneLedgerV2 \<Rightarrow> EntryCompleteV2 list \<Rightarrow> ReceiverDataPlaneLedgerV2 \<Rightarrow> bool" where
  "results_good el offer l0 ks l \<longleftrightarrow>
     rx_good el offer l0 l \<and> \<not> all_results l0 \<and> length ks = length (offer_entries offer)
     \<and> (\<forall>i < length ks. cp_completion (lg_entries l ! i) = Some (ks ! i) \<and> cp_arbiter (lg_entries l ! i) \<noteq> Arb_PayloadOpen)"

lemma results_good_update:
  assumes good: "results_good el offer l0 ks l" and i: "i < length (offer_entries offer)"
    and r: "result_of_completion (offer_identity offer) (offer_entries offer ! i) (ks ! i) r"
  shows "results_good el offer l0 ks (update_checkpoint i (\<lambda>c. c\<lparr>cp_result := Some r\<rparr>) l)"
proof -
  let ?l = "update_checkpoint i (\<lambda>c. c\<lparr>cp_result := Some r\<rparr>) l"
  have rx: "rx_good el offer l0 l" and here: "cp_completion (lg_entries l ! i) = Some (ks ! i)"
      "cp_arbiter (lg_entries l ! i) \<noteq> Arb_PayloadOpen"
    using good i by (simp_all add: results_good_def)
  have len: "length (lg_entries l) = length (offer_entries offer)"
    using rx_goodD(4) [OF rx] .
  have at: "lg_entries ?l ! j = (if j = i then (lg_entries l ! i)\<lparr>cp_result := Some r\<rparr> else lg_entries l ! j)"
    if "j < length (offer_entries offer)" for j
    using that len by (simp add: nth_list_update)
  have "same_decision (lg_entries l0 ! j) (lg_entries ?l ! j)"
    if "j < length (lg_entries l0)" "cp_arbiter (lg_entries l0 ! j) \<noteq> Arb_PayloadOpen" for j
    using that rx_goodD(2,5) [OF rx] at [of j]
    by (auto simp: keeps_decisions_def same_decision_def simp del: update_checkpoint_simps(7))
  then have "keeps_decisions l0 ?l"
    using rx_goodD(2) [OF rx] good by (simp add: keeps_decisions_def results_good_def)
  then have "rx_good el offer l0 ?l"
    using rx update_result_ok [OF rx_goodD(1) [OF rx] i here r] by (simp add: rx_good_def)
  then show ?thesis
    using good at by (simp add: results_good_def del: update_checkpoint_simps(7))
qed

lemma result_of_saved_completion:
  assumes "result_of_saved identity entry verified saved = Inr r"
    and "vf_completion_choice verified = co_completion_choice k"
    and "vf_final_digest verified = (if me_kind entry = RegularFile then Some (co_final_digest k) else None)"
  shows "result_of_completion identity entry k r"
  using assms by (auto simp: result_of_saved_def result_of_completion_def)

text \<open>The verified entry belongs to the manifest's entry and its completion.\<close>

definition verifies :: "ManifestEntryV2 \<Rightarrow> EntryCompleteV2 \<Rightarrow> VerifiedEntryV2 \<Rightarrow> bool" where
  "verifies entry k verified \<longleftrightarrow>
     vf_completion_choice verified = co_completion_choice k
     \<and> vf_final_digest verified = (if me_kind entry = RegularFile then Some (co_final_digest k) else None)"

definition recorded_from ::
  "EngineLibs \<Rightarrow> ManifestOfferV2 \<Rightarrow> ReceiverDataPlaneLedgerV2 \<Rightarrow> EntryCompleteV2 list \<Rightarrow> nat \<Rightarrow> ReceiverDataPlaneLedgerV2
     \<Rightarrow> EntryResultV2 list \<Rightarrow> ReceiverDataPlaneLedgerV2 \<Rightarrow> bool" where
  "recorded_from el offer l0 ks n l1 results l \<longleftrightarrow>
     results_good el offer l0 ks l \<and> lg_sender_completion_set_digest l = lg_sender_completion_set_digest l1
     \<and> (\<forall>j < n. lg_entries l ! j = lg_entries l1 ! j)
     \<and> all_some (map cp_result (drop n (lg_entries l))) = Some results"

lemma results_goodD:
  assumes "results_good el offer l0 ks l"
  shows "rx_good el offer l0 l" "length (lg_entries l) = length (offer_entries offer)" "length ks = length (offer_entries offer)"
  using assms rx_goodD(4) by (auto simp: results_good_def)

lemma recorded_from_step:
  assumes good: "results_good el offer l0 ks l" and n: "n < length (offer_entries offer)"
    and rest: "recorded_from el offer l0 ks (Suc n) (update_checkpoint n (\<lambda>c. c\<lparr>cp_result := Some r\<rparr>) l) results l'"
  shows "recorded_from el offer l0 ks n l (r # results) l'"
proof -
  have "n < length (lg_entries l)" "n < length (lg_entries l')"
    using n results_goodD(2) [OF good] results_goodD(2) [of el offer l0 ks l'] rest by (simp_all add: recorded_from_def)
  then show ?thesis
    using rest unfolding recorded_from_def
    by (simp add: Cons_nth_drop_Suc [symmetric])
qed

lemma record_results_wp:
  assumes "results_good el offer l0 ks l" and valid: "offer_valid el offer"
    and "map fst rows = drop n (offer_entries offer)"
    and "\<And>j. j < length rows \<Longrightarrow> verifies (fst (rows ! j)) (ks ! (n + j)) (fst (snd (rows ! j)))"
  shows "rx_wp el offer l0 l (record_results (offer_identity offer) rows :: ('s, EntryResultV2 list) rx_op) (recorded_from el offer l0 ks n l)"
  using assms(1,3,4)
proof (induction rows arbitrary: l n)
  case Nil
  then have "drop n (lg_entries l) = []"
    using results_goodD(2) [OF Nil(1)] by simp
  then show ?case
    using Nil(1) unfolding record_results.simps by (intro rx_return) (simp add: recorded_from_def)
next
  case (Cons row rows)
  note good = Cons.prems(1)
  obtain entry verified saved where row: "row = (entry, verified, saved)"
    by (cases row) auto
  have n: "n < length (offer_entries offer)"
    using Cons.prems(2) by (metis drop_eq_Nil list.distinct(1) list.simps(9) not_le)
  have split_rows: "entry = offer_entries offer ! n" "map fst rows = drop (Suc n) (offer_entries offer)"
    using Cons.prems(2) row unfolding Cons_nth_drop_Suc [OF n, symmetric] by simp_all
  have id: "unat (me_entry_id entry) = n"
    using offer_entry(2) [OF valid n] split_rows(1) by simp
  have this_row: "verifies entry (ks ! n) verified"
    using Cons.prems(3) [of 0] row by simp
  have step: "results_good el offer l0 ks (update_checkpoint n (\<lambda>c. c\<lparr>cp_result := Some r\<rparr>) l)"
    if "result_of_saved (offer_identity offer) entry verified saved = Inr r" for r
    using results_good_update [OF good n] result_of_saved_completion [OF that] this_row split_rows(1) by (simp add: verifies_def)
  have rest: "rx_wp el offer l0 (update_checkpoint n (\<lambda>c. c\<lparr>cp_result := Some r\<rparr>) l)
      (bindM (record_results (offer_identity offer) rows) (\<lambda>results. returnM (r # results)) :: ('s, EntryResultV2 list) rx_op)
      (recorded_from el offer l0 ks n l)"
    if saved: "result_of_saved (offer_identity offer) entry verified saved = Inr r" for r
  proof -
    have verified_rest: "verifies (fst (rows ! j)) (ks ! (Suc n + j)) (fst (snd (rows ! j)))" if "j < length rows" for j
      using Cons.prems(3) [of "Suc j"] that by simp
    have "rx_wp el offer l0 (update_checkpoint n (\<lambda>c. c\<lparr>cp_result := Some r\<rparr>) l)
        (record_results (offer_identity offer) rows :: ('s, EntryResultV2 list) rx_op)
        (recorded_from el offer l0 ks (Suc n) (update_checkpoint n (\<lambda>c. c\<lparr>cp_result := Some r\<rparr>) l))"
      by (rule Cons.IH [OF step [OF saved] split_rows(2) verified_rest])
    then show ?thesis
      by (intro rx_bind) (auto intro!: rx_return recorded_from_step [OF good n] elim!: rx_mono)
  qed
  show ?case
    unfolding row record_results.simps id
    by (intro rx_bind rx_lift rx_set results_goodD(1) [OF good] rest)
qed

lemma verified_entries_verify:
  assumes good: "results_good el offer l0 ks l" and valid: "offer_valid el offer"
    and verified: "verified_entries (of_manifest offer) l = Inr verified" and i: "i < length (offer_entries offer)"
  shows "verifies (offer_entries offer ! i) (ks ! i) (verified ! i)" "length verified = length (offer_entries offer)"
proof -
  have some: "all_some (map (\<lambda>c. map_option (verified_entry (of_manifest offer) c) (cp_completion c)) (lg_entries l)) = Some verified"
    using verified by (simp add: verified_entries_def)
  have len: "i < length (lg_entries l)"
    using i results_goodD(2) [OF good] by simp
  have "map_option (verified_entry (of_manifest offer) (lg_entries l ! i)) (cp_completion (lg_entries l ! i)) = Some (verified ! i)"
    using all_some_nth [OF some] len by blast
  moreover have "cp_completion (lg_entries l ! i) = Some (ks ! i)"
    using good i by (simp add: results_good_def)
  moreover have "unat (cp_entry_id (lg_entries l ! i)) = i"
    using ledger_okD(4) [OF rx_goodD(1) [OF results_goodD(1) [OF good]] i] offer_entry(2) [OF valid i] by (simp add: checkpoint_ok_def)
  ultimately have "verified ! i = verified_entry (of_manifest offer) (lg_entries l ! i) (ks ! i)"
      "unat (cp_entry_id (lg_entries l ! i)) = i"
    by simp_all
  then show "verifies (offer_entries offer ! i) (ks ! i) (verified ! i)"
    by (simp add: verified_entry_def verifies_def Let_def)
  show "length verified = length (offer_entries offer)"
    using all_some_nth [OF some] results_goodD(2) [OF good] by simp
qed

text \<open>The ledger holds exactly the results that are reported.\<close>

definition reports :: "EntryResultV2 list \<Rightarrow> ReceiverDataPlaneLedgerV2 \<Rightarrow> bool" where
  "reports results l \<longleftrightarrow> all_some (map cp_result (lg_entries l)) = Some results"

lemma save_results_wp:
  assumes good: "results_good el offer l0 ks l" and valid: "offer_valid el offer"
  shows "rx_wp el offer l0 l (save_results el sk gate (offer_identity offer) (of_manifest offer))
    (\<lambda>results l'. rx_good el offer l0 l' \<and> reports results l'
       \<and> lg_sender_completion_set_digest l' = lg_sender_completion_set_digest l)"
proof -
  have recorded: "rx_wp el offer l0 l (record_results (offer_identity offer) (zip (offer_entries offer) (zip verified saves)))
      (recorded_from el offer l0 ks 0 l)"
    if "verified_entries (of_manifest offer) l = Inr verified" and "length saves = length (offer_entries offer)" for verified saves
  proof (rule record_results_wp [OF good valid])
    have len: "length verified = length (offer_entries offer)"
      using verified_entries_verify(2) [OF good valid that(1)] results_goodD [OF good] valid
      by (cases "offer_entries offer") (auto simp: offer_valid_iff manifest_ok_def header_ok_def)
    then show "map fst (zip (offer_entries offer) (zip verified saves)) = drop 0 (offer_entries offer)"
      using that(2) by (simp add: map_fst_zip)
    show "verifies (fst (zip (offer_entries offer) (zip verified saves) ! j)) (ks ! (0 + j))
        (fst (snd (zip (offer_entries offer) (zip verified saves) ! j)))"
      if "j < length (zip (offer_entries offer) (zip verified saves))" for j
      using that verified_entries_verify(1) [OF good valid \<open>verified_entries _ l = Inr verified\<close>] by simp
  qed
  have tail: "rx_wp el offer l0 l' (bindM (save_ledger el) (\<lambda>_. returnM r))
      (\<lambda>results l'. rx_good el offer l0 l' \<and> reports results l'
         \<and> lg_sender_completion_set_digest l' = lg_sender_completion_set_digest l)"
    if "recorded_from el offer l0 ks 0 l r l'" for l' r
    using that results_goodD(1) by (intro rx_intros) (auto simp: recorded_from_def reports_def)
  show ?thesis
    unfolding save_results_def
    by (intro rx_bind rx_check rx_emit rx_quiet_ops(4) rx_lift rx_mono [OF recorded] tail)
      (simp_all add: results_goodD(1) [OF good])
qed

lemma sealed_results_good:
  assumes received: "received_from el offer l0 0 l1 [] h l" and d: "d = cy_hash (el_crypto el) h"
    and unfinished: "\<not> all_results l"
  obtains ks where "results_good el offer l0 ks (l\<lparr>lg_sender_completion_set_digest := Some d\<rparr>)"
proof -
  obtain ks where ks: "all_some (map cp_completion (lg_entries l)) = Some ks"
      and decided: "\<forall>c \<in> set (lg_entries l). cp_arbiter c \<noteq> Arb_PayloadOpen"
    using received by (auto simp: received_from_def)
  have good: "rx_good el offer l0 (l\<lparr>lg_sender_completion_set_digest := Some d\<rparr>)"
    using seal_good [OF received d] .
  have "\<not> all_results l0"
    using rx_goodD(2) [OF good] unfinished by (auto simp: keeps_decisions_def all_results_def)
  moreover have "length ks = length (offer_entries offer)"
    using all_some_nth [OF ks] rx_goodD(4) [OF good] by simp
  ultimately show ?thesis
    using all_some_nth [OF ks] decided rx_goodD(4) [OF good] good by (intro that [of ks]) (simp add: results_good_def)
qed

text \<open>After a run that succeeded, the ledger answers a repeated query for the summary with the same summary.\<close>

definition summarised :: "EngineLibs \<Rightarrow> ManifestOfferV2 \<Rightarrow> ReceiverDataPlaneLedgerV2 \<Rightarrow> ReceiverDataPlaneSummaryV2
     \<Rightarrow> ReceiverDataPlaneLedgerV2 \<Rightarrow> bool" where
  "summarised el offer l0 summary l \<longleftrightarrow> rx_good el offer l0 l \<and> completed_summary l = Some summary"

lemma reports_summarised:
  assumes "rx_good el offer l0 l" and "reports results l" and "lg_sender_completion_set_digest l = Some d"
  shows "summarised el offer l0
    \<lparr>rv_identity = offer_identity offer, rv_sender_completion_set_digest = d, rv_entry_results = results\<rparr> l"
  using assms rx_goodD(3) [OF assms(1)] by (simp add: summarised_def reports_def completed_summary_def)

lemma quiet_send_results [simp]: "quiet (send_results results)"
  by (simp add: send_results_def)

lemma receive_end_wp:
  assumes received: "received_from el offer l0 0 l1 [] h l" and valid: "offer_valid el offer"
  shows "rx_wp el offer l0 l (receive_end el sk gate (offer_identity offer) (of_manifest offer) h) (summarised el offer l0)"
proof -
  let ?l = "\<lambda>d. l\<lparr>lg_sender_completion_set_digest := Some d\<rparr>"
  let ?done = "\<lambda>d results l'. rx_good el offer l0 l' \<and> reports results l' \<and> lg_sender_completion_set_digest l' = Some d"
  have good: "rx_good el offer l0 l"
    using received by (simp add: received_from_def)
  have sealed: "rx_good el offer l0 (?l d)" if "d = cy_hash (el_crypto el) h" for d
    by (rule seal_good [OF received that])
  have seal: "rx_wp el offer l0 l (modifyM (\<lambda>p. p\<lparr>rx_ledger := (rx_ledger p)\<lparr>lg_sender_completion_set_digest := Some d\<rparr>\<rparr>)) Q"
    if "Q () (?l d)" for d Q
    using that by (simp add: rx_wp_def)
  have known: "rx_wp el offer l0 (?l d) (checkM (\<lambda>p. ok_or (all_some (map cp_result (lg_entries (rx_ledger p)))) e)) (?done d)"
    if "d = cy_hash (el_crypto el) h" for d e
    using sealed [OF that] by (intro rx_check) (auto simp: reports_def)
  have saves: "rx_wp el offer l0 (?l d) (save_results el sk gate (offer_identity offer) (of_manifest offer)) (?done d)"
    if "d = cy_hash (el_crypto el) h" "\<not> all_results l" for d
  proof -
    from sealed_results_good [OF received that] obtain ks where "results_good el offer l0 ks (?l d)"
      by blast
    from save_results_wp [OF this valid, of sk gate] show ?thesis
      by simp
  qed
  have tail: "rx_wp el offer l0 l' (bindM (send_results results) (\<lambda>_.
     bindM (emit (On_phase PP_FinalizingDelivery)) (\<lambda>_.
     returnM \<lparr>rv_identity = offer_identity offer, rv_sender_completion_set_digest = d, rv_entry_results = results\<rparr>)))
     (summarised el offer l0)" if "?done d results l'" for d results l'
    using that reports_summarised [of el offer l0 l' results d]
    by (intro rx_bind rx_quiet [OF quiet_send_results] rx_emit rx_return) simp_all
  have finish: "rx_wp el offer l0 (?l d)
     (bindM (getM (\<lambda>p. list_all (\<lambda>c. cp_result c \<noteq> None) (lg_entries (rx_ledger p)))) (\<lambda>all_done.
     bindM (if all_done
            then checkM (\<lambda>p. ok_or (all_some (map cp_result (lg_entries (rx_ledger p)))) e)
            else save_results el sk gate (offer_identity offer) (of_manifest offer)) (\<lambda>results.
     bindM (send_results results) (\<lambda>_.
     bindM (emit (On_phase PP_FinalizingDelivery)) (\<lambda>_.
     returnM \<lparr>rv_identity = offer_identity offer, rv_sender_completion_set_digest = d, rv_entry_results = results\<rparr>)))))
     (summarised el offer l0)" if d: "d = cy_hash (el_crypto el) h" for d e
  proof (rule rx_bind, rule rx_get_known [where a = "all_results l"])
    show "rx_wp el offer l0 (?l d)
     (bindM (if all_results l
            then checkM (\<lambda>p. ok_or (all_some (map cp_result (lg_entries (rx_ledger p)))) e)
            else save_results el sk gate (offer_identity offer) (of_manifest offer)) (\<lambda>results.
     bindM (send_results results) (\<lambda>_.
     bindM (emit (On_phase PP_FinalizingDelivery)) (\<lambda>_.
     returnM \<lparr>rv_identity = offer_identity offer, rv_sender_completion_set_digest = d, rv_entry_results = results\<rparr>))))
     (summarised el offer l0)"
      by (rule rx_bind, rule rx_mono [of _ _ _ _ _ "?done d"], intro rx_if known saves d, assumption, rule tail, assumption)
  qed (simp add: all_results_def)
  show ?thesis
    unfolding receive_end_def
    apply (intro rx_bind rx_quiet_derived(3) good)
    apply (intro rx_lift good)
    apply (intro rx_bind rx_check good)
    apply (rule seal, rule rx_bind, rule rx_save)
     apply (simp add: sealed)
    apply (rule rx_bind, rule rx_emit, rule finish)
    apply simp
    done
qed

lemma receive_wp:
  assumes valid: "offer_valid el offer" and ok: "ledger_ok el offer l"
  shows "rx_wp el offer l l (receive el sk gate offer) (summarised el offer l)"
proof -
  have good: "rx_good el offer l l"
    using ok by (simp add: rx_good_def keeps_decisions_refl)
  have entries: "rx_wp el offer l l
      (receive_entries el sk (offer_identity offer) overall [] (offer_entries offer)) (received_from el offer l 0 l [])" for overall
    using receive_entries_wp [OF valid _ good, of 0 sk overall] by simp
  have counted: "rx_wp el offer l l (modifyM (\<lambda>p. p\<lparr>pl_completed := n\<rparr>)) Q" if "Q () l" for n Q
    using that by (simp add: rx_wp_def)
  show ?thesis
    unfolding receive_def Let_def
    apply (intro rx_bind rx_check good)
    apply (intro rx_bind rx_get_known [where a = "offer_identity offer"])
     apply (simp add: rx_goodD(3) [OF good])
    apply (intro rx_bind rx_check good counted rx_emit)
    apply (rule rx_mono [OF entries])
    apply (erule receive_end_wp [OF _ valid])
    done
qed

end
