(* ===== verification/Engine_Send.thy ===== *)
theory Engine_Send
  imports Engine_Receive
begin

text \<open>
  The sender of \<open>manifest_v2_engine.rs\<close>. A source can change while it is sent: \<open>SourceMoments\<close> is
  what the system answers at each access to it, \<open>sm_read offset n\<close> the answer of \<open>read_exact\<close> and
  \<open>sm_hash_finished k\<close> whether the hash task is over when the loop looks before block \<open>k\<close>.
\<close>

record SourceMoments =
  sm_open :: JobOs
  sm_read :: "u64 \<Rightarrow> nat \<Rightarrow> bytes option"
  sm_end :: JobOs
  sm_hash_open :: JobOs
  sm_hash_end :: JobOs
  sm_hash_finished :: "u64 \<Rightarrow> bool"
  sm_sample_open :: JobOs
  sm_sample :: "bytes option"

record SenderPlane = Plane +
  tx_record :: SenderDeliveryRecordV2

type_synonym 'a tx_op = "(SenderPlane, ManifestV2DataError, 'a) op"

section \<open>The source\<close>

definition prepared_open :: "JobLibs \<Rightarrow> JobOs \<Rightarrow> PreparedFileSource \<Rightarrow> ManifestV2DataError + unit" where
  "prepared_open lb os src =
     map_err ME_Job (bindR (verify_source_fingerprint lb os (pf_path src) (pf_fingerprint src)) (\<lambda>_.
       bindR (map_err TJ_Io (os_read os (pf_path src))) (\<lambda>_. Inr ())))"

definition verify_unchanged :: "JobLibs \<Rightarrow> JobOs \<Rightarrow> PreparedFileSource \<Rightarrow> ManifestV2DataError + unit" where
  "verify_unchanged lb os src = map_err ME_Job (verify_source_fingerprint lb os (pf_path src) (pf_fingerprint src))"

definition read_exact :: "SourceMoments \<Rightarrow> u64 \<Rightarrow> nat \<Rightarrow> ManifestV2DataError + bytes" where
  "read_exact mo offset n =
     (case sm_read mo offset n of
        Some bs \<Rightarrow> if length bs = n then Inr bs else Inl (ME_Io Io_Other)
      | None \<Rightarrow> Inl (ME_Io Io_Other))"

text \<open>The task that hashes a source whose digest the manifest defers; \<open>None\<close> when there is none.\<close>

definition hash_task ::
  "JobLibs \<Rightarrow> SourceMoments \<Rightarrow> ManifestEntryV2 \<Rightarrow> PreparedFileSource \<Rightarrow> (TransferJobError + ContentDigestV2) option" where
  "hash_task lb mo entry src =
     (if known_digest entry = None then Some (prepared_hash lb (sm_hash_open mo) (sm_hash_end mo) src) else None)"

definition await_hash_task ::
  "(TransferJobError + ContentDigestV2) option \<Rightarrow> ManifestV2DataError + ContentDigestV2" where
  "await_hash_task task = bindR (ok_or task ME_DigestConflict) (map_err ME_Job)"

section \<open>Frames\<close>

definition handle_sender_control :: "ManifestV2Frame \<Rightarrow> JobGenerationV2 \<Rightarrow> ManifestV2DataError + unit" where
  "handle_sender_control frame identity = Inl (ME_UnexpectedFrame
     (case frame of
        F_Cancel c \<Rightarrow> if ca_identity c = identity then ''peer canceled job'' else ''sending entry payload''
      | F_Error e \<Rightarrow> if fe_identity e = identity then ''peer reported failure'' else ''sending entry payload''
      | _ \<Rightarrow> ''sending entry payload''))"

text \<open>The default method of \<open>ManifestV2FrameConnection\<close>, which no connection overrides.\<close>

definition send_entry_block_or_recv_frame :: "EntryBlockV2 \<Rightarrow> ('z Plane_scheme, ManifestV2DataError, ManifestV2Frame option) op" where
  "send_entry_block_or_recv_frame block = bindM (send_frame (F_EntryBlock block)) (\<lambda>_. returnM None)"

definition recv_entry_result :: "JobGenerationV2 \<Rightarrow> u32 \<Rightarrow> ('z Plane_scheme, ManifestV2DataError, EntryResultV2) op" where
  "recv_entry_result identity entry_id =
     bindM recv_frame (\<lambda>frame.
     liftM (case frame of
              F_EntryResult result \<Rightarrow>
                if er_identity result = identity \<and> er_entry_id result = entry_id then Inr result
                else Inl (ME_UnexpectedFrame ''waiting for EntryResult'')
            | _ \<Rightarrow> Inl (ME_UnexpectedFrame ''waiting for EntryResult'')))"

definition entry_start :: "JobGenerationV2 \<Rightarrow> ManifestEntryV2 \<Rightarrow> EntryEncodingV2 \<Rightarrow> EntryStartV2" where
  "entry_start identity entry encoding =
     \<lparr>es_identity = identity, es_entry_id = me_entry_id entry, es_encoding = encoding,
      es_plaintext_block_bytes = DEFAULT_MANIFEST_V2_BLOCK_PLAINTEXT_BYTES\<rparr>"

definition directory_completion :: "EngineLibs \<Rightarrow> JobGenerationV2 \<Rightarrow> ManifestEntryV2 \<Rightarrow> EntryCompleteV2" where
  "directory_completion el identity entry =
     \<lparr>co_identity = identity, co_entry_id = me_entry_id entry, co_final_size = 0,
      co_final_digest = empty_digest el, co_completion_choice = Comp_PayloadComplete\<rparr>"

definition send_directory ::
  "EngineLibs \<Rightarrow> JobGenerationV2 \<Rightarrow> ManifestEntryV2 \<Rightarrow> ('z Plane_scheme, ManifestV2DataError, EntryCompleteV2) op" where
  "send_directory el identity entry =
     bindM (send_frame (F_EntryStart (entry_start identity entry Enc_Identity))) (\<lambda>_.
     bindM (send_frame (F_EntryComplete (directory_completion el identity entry))) (\<lambda>_.
     returnM (directory_completion el identity entry)))"

definition send_late_digest_and_receive_status ::
  "JobGenerationV2 \<Rightarrow> u32 \<Rightarrow> ContentDigestV2 \<Rightarrow> ('z Plane_scheme, ManifestV2DataError, bool) op" where
  "send_late_digest_and_receive_status identity entry_id digest =
     bindM (send_frame (F_EntryContentDigest \<lparr>cd_identity = identity, cd_entry_id = entry_id,
       cd_digest = digest, cd_decision = Dec_Proposed\<rparr>)) (\<lambda>_.
     bindM recv_frame (\<lambda>frame.
     case frame of
       F_EntryContentDigest response \<Rightarrow>
         bindM (liftM (rejectR (cd_identity response \<noteq> identity \<or> cd_entry_id response \<noteq> entry_id
           \<or> cd_digest response \<noteq> digest \<or> cd_decision response = Dec_Proposed) ME_IdentityMismatch)) (\<lambda>_.
         returnM (cd_decision response = Dec_ReuseExisting))
     | _ \<Rightarrow>
         bindM (liftM (handle_sender_control frame identity)) (\<lambda>_.
         failM (ME_UnexpectedFrame ''waiting for late-digest decision''))))"

section \<open>A file\<close>

definition send_block ::
  "EngineLibs \<Rightarrow> JobGenerationV2 \<Rightarrow> ManifestEntryV2 \<Rightarrow> EntryEncodingV2 \<Rightarrow> u64 \<Rightarrow> u64 \<Rightarrow> u64 \<Rightarrow> bytes
     \<Rightarrow> ('z Plane_scheme, ManifestV2DataError, unit) op" where
  "send_block el identity entry encoding overall block_index plaintext_offset plaintext =
     bindM (liftM (encode_block el encoding plaintext)) (\<lambda>encoded.
     bindM (send_entry_block_or_recv_frame
       \<lparr>bl_identity = identity, bl_entry_id = me_entry_id entry, bl_block_index = block_index,
        bl_plaintext_offset = plaintext_offset, bl_plaintext_length = word_of_nat (length plaintext),
        bl_encoded_bytes = encoded\<rparr>) (\<lambda>response.
     bindM (liftM (case response of None \<Rightarrow> Inr () | Some frame \<Rightarrow> handle_sender_control frame identity)) (\<lambda>_.
     bindM (emit (On_stage FirstPayload)) (\<lambda>_.
     add_completed (word_of_nat (length plaintext)) overall))))"

text \<open>
  The \<open>while\<close> loop of \<open>send_file\<close>: the digest of the hash task once it was sent, whether the
  receiver chose to reuse, the offset reached and the bytes read so far.
\<close>

function send_blocks ::
  "EngineLibs \<Rightarrow> SourceMoments \<Rightarrow> JobGenerationV2 \<Rightarrow> ManifestEntryV2 \<Rightarrow> u64 \<Rightarrow> EntryEncodingV2 \<Rightarrow> u64
     \<Rightarrow> (TransferJobError + ContentDigestV2) option \<Rightarrow> u64 \<Rightarrow> u64 \<Rightarrow> ContentDigestV2 option \<Rightarrow> bytes
     \<Rightarrow> ('z Plane_scheme, ManifestV2DataError, ContentDigestV2 option \<times> bool \<times> u64 \<times> bytes) op" where
  "send_blocks el mo identity entry skip encoding overall task block_index offset late hasher =
     (if offset < me_plaintext_size entry then
        (let n = min (me_plaintext_size entry - offset) block_size in
         bindM (if late = None \<and> task \<noteq> None \<and> sm_hash_finished mo block_index
                then bindM (liftM (await_hash_task task)) (\<lambda>digest.
                     bindM (send_late_digest_and_receive_status identity (me_entry_id entry) digest) (\<lambda>reuse.
                     returnM (Some digest, reuse)))
                else returnM (late, False)) (\<lambda>(late', reuse).
         if reuse then returnM (late', True, offset, hasher)
         else
           bindM (liftM (read_exact mo offset (unat n))) (\<lambda>plaintext.
           bindM (whenM (block_index \<ge> skip)
             (send_block el identity entry encoding overall block_index offset plaintext)) (\<lambda>_.
           bindM (liftM (ok_or (checked_add block_index 1) ME_ArithmeticOverflow)) (\<lambda>_.
           bindM (liftM (ok_or (checked_add offset n) ME_ArithmeticOverflow)) (\<lambda>_.
           send_blocks el mo identity entry skip encoding overall task (block_index + 1) (offset + n) late'
             (hasher @ plaintext)))))))
      else returnM (late, False, offset, hasher))"
  by auto

lemma block_size_pos [simp]: "0 < unat block_size" "block_size \<noteq> 0"
  by (simp_all add: block_size_def DEFAULT_MANIFEST_V2_BLOCK_PLAINTEXT_BYTES_def)

lemma unat_min: "unat (min a b) = min (unat a) (unat (b :: 'a::len word))"
  by (auto simp: min_def word_le_nat_alt)

lemma next_offset:
  assumes "offset < (w :: u64)"
  shows "unat (offset + min (w - offset) block_size) = unat offset + min (unat w - unat offset) (unat block_size)"
proof -
  have "unat (min (w - offset) block_size) = min (unat w - unat offset) (unat block_size)"
    using assms by (simp add: unat_min unat_sub order_less_imp_le)
  moreover have "unat offset + min (unat w - unat offset) (unat block_size) < 2 ^ LENGTH(64)"
    using assms unat_bound [of w] by (simp add: word_less_nat_alt)
  ultimately show ?thesis
    by (simp add: unat_word_ariths)
qed

termination send_blocks
proof (relation "measure (\<lambda>(el, mo, identity, entry, skip, encoding, overall, task, block_index, offset, late, hasher).
    unat (me_plaintext_size entry) - unat offset)", goal_cases)
  case (2 el mo identity entry skip encoding overall task block_index offset late hasher n)
  then show ?case
    using block_size_pos(1) by (auto simp: next_offset word_less_nat_alt simp del: block_size_pos)
qed simp

declare send_blocks.simps [simp del]

definition payload_completion ::
  "JobGenerationV2 \<Rightarrow> ManifestEntryV2 \<Rightarrow> ContentDigestV2 \<Rightarrow> bool \<Rightarrow> EntryCompleteV2" where
  "payload_completion identity entry digest reuse =
     \<lparr>co_identity = identity, co_entry_id = me_entry_id entry, co_final_size = me_plaintext_size entry,
      co_final_digest = digest, co_completion_choice = (if reuse then Comp_ReuseChosen else Comp_PayloadComplete)\<rparr>"

definition send_reused ::
  "JobLibs \<Rightarrow> SourceMoments \<Rightarrow> JobGenerationV2 \<Rightarrow> ManifestEntryV2 \<Rightarrow> PreparedFileSource \<Rightarrow> u64 \<Rightarrow> u64
     \<Rightarrow> ('z Plane_scheme, ManifestV2DataError, EntryCompleteV2) op" where
  "send_reused lb mo identity entry src resumed overall =
     bindM (liftM (ok_or (known_digest entry) ME_ReuseUnavailable)) (\<lambda>digest.
     bindM (liftM (verify_unchanged lb (sm_end mo) src)) (\<lambda>_.
     bindM (send_frame (F_EntryComplete (reuse_completion identity entry digest))) (\<lambda>_.
     bindM (add_completed (saturating_sub (me_plaintext_size entry) resumed) overall) (\<lambda>_.
     returnM (reuse_completion identity entry digest)))))"

text \<open>The digest with which a file completes and whether the receiver reuses its own object.\<close>

definition final_digest_of ::
  "EngineLibs \<Rightarrow> JobLibs \<Rightarrow> SourceMoments \<Rightarrow> JobGenerationV2 \<Rightarrow> ManifestEntryV2 \<Rightarrow> u64 \<Rightarrow> PreparedFileSource
     \<Rightarrow> u64 \<Rightarrow> u64 \<Rightarrow> ContentDigestV2 option \<times> bool \<times> u64 \<times> bytes
     \<Rightarrow> ('z Plane_scheme, ManifestV2DataError, ContentDigestV2 \<times> bool) op" where
  "final_digest_of el lb mo identity entry skip src resumed overall = (\<lambda>(late, reuse, offset, hasher).
     if reuse then
       bindM (liftM (verify_unchanged lb (sm_end mo) src)) (\<lambda>_.
       bindM (add_completed (saturating_sub (me_plaintext_size entry)
           (max (max resumed offset) (min (saturating_mul skip block_size) (me_plaintext_size entry)))) overall) (\<lambda>_.
       bindM (liftM (ok_or late ME_DigestConflict)) (\<lambda>digest. returnM (digest, True))))
     else
       (let payload_digest = cy_hash (el_crypto el) hasher in
        bindM (liftM (verify_unchanged lb (sm_end mo) src)) (\<lambda>_.
        case known_digest entry of
          Some expected \<Rightarrow> bindM (liftM (rejectR (expected \<noteq> payload_digest) ME_FinalMismatch)) (\<lambda>_. returnM (expected, False))
        | None \<Rightarrow>
            bindM (liftM (case late of Some digest \<Rightarrow> Inr digest | None \<Rightarrow> await_hash_task (hash_task lb mo entry src))) (\<lambda>digest.
            bindM (liftM (rejectR (digest \<noteq> payload_digest) ME_FinalMismatch)) (\<lambda>_.
            bindM (if late = None then send_late_digest_and_receive_status identity (me_entry_id entry) digest
                   else returnM False) (\<lambda>reuse'.
            returnM (digest, reuse')))))))"

definition send_file ::
  "EngineLibs \<Rightarrow> JobLibs \<Rightarrow> SourceMoments \<Rightarrow> JobGenerationV2 \<Rightarrow> ManifestEntryV2 \<Rightarrow> EntryPlanV2 \<Rightarrow> PreparedFileSource
     \<Rightarrow> EntryEncodingV2 \<Rightarrow> u64 \<Rightarrow> u64 \<Rightarrow> ('z Plane_scheme, ManifestV2DataError, EntryCompleteV2) op" where
  "send_file el lb mo identity entry plan src encoding resumed overall =
     bindM (send_frame (F_EntryStart (entry_start identity entry encoding))) (\<lambda>_.
     if ep_disposition plan = Disp_ReuseExisting then send_reused lb mo identity entry src resumed overall
     else
       bindM (liftM (prepared_open lb (sm_open mo) src)) (\<lambda>_.
       bindM (send_blocks el mo identity entry (ep_next_plaintext_block plan) encoding overall
         (hash_task lb mo entry src) 0 0 None []) (\<lambda>sent.
       bindM (final_digest_of el lb mo identity entry (ep_next_plaintext_block plan) src resumed overall sent)
         (\<lambda>(digest, reuse).
       bindM (send_frame (F_EntryComplete (payload_completion identity entry digest reuse))) (\<lambda>_.
       returnM (payload_completion identity entry digest reuse))))))"

section \<open>The entries of a job\<close>

definition send_entry ::
  "EngineLibs \<Rightarrow> JobLibs \<Rightarrow> (u32 \<Rightarrow> SourceMoments) \<Rightarrow> CanonicalTransferJob \<Rightarrow> JobGenerationV2 \<Rightarrow> ManifestAcceptV2
     \<Rightarrow> ResumeStatusV2 option \<Rightarrow> u64 \<Rightarrow> ManifestEntryV2 \<Rightarrow> EntryCompleteV2 tx_op" where
  "send_entry el lb mo job identity accept status overall entry =
     (let i = unat (me_entry_id entry); checkpoint = map_option (\<lambda>s. rs_entries s ! i) status in
      case Option.bind checkpoint re_entry_result of
        Some result \<Rightarrow> liftM (completion_from_result el entry result)
      | None \<Rightarrow>
          if (case checkpoint of None \<Rightarrow> False | Some c \<Rightarrow> re_arbiter c \<noteq> Arb_PayloadOpen)
          then liftM (completion_from_resume_checkpoint el identity entry (the checkpoint))
          else if me_kind entry = Directory then send_directory el identity entry
          else
            bindM (checkM (\<lambda>p. map_err ME_Delivery (frozen_entry_encoding (tx_record p) (me_entry_id entry)))) (\<lambda>encoding.
            bindM (liftM (map_err ME_Job (source_for_sealed_entry job (me_entry_id entry)))) (\<lambda>src.
            bindM (liftM (case checkpoint of None \<Rightarrow> Inr 0 | Some c \<Rightarrow> resume_entry_plaintext_bytes entry c)) (\<lambda>resumed.
            send_file el lb (mo (me_entry_id entry)) identity entry (ac_entry_plans accept ! i) src encoding
              resumed overall))))"

fun send_entries ::
  "EngineLibs \<Rightarrow> JobLibs \<Rightarrow> (u32 \<Rightarrow> SourceMoments) \<Rightarrow> CanonicalTransferJob \<Rightarrow> JobGenerationV2 \<Rightarrow> ManifestAcceptV2
     \<Rightarrow> ResumeStatusV2 option \<Rightarrow> u64 \<Rightarrow> bytes \<Rightarrow> ManifestEntryV2 list \<Rightarrow> (bytes \<times> EntryCompleteV2 list) tx_op" where
  "send_entries el lb mo job identity accept status overall hasher [] = returnM (hasher, [])"
| "send_entries el lb mo job identity accept status overall hasher (entry # rest) =
     bindM (send_entry el lb mo job identity accept status overall entry) (\<lambda>completion.
     bindM (liftM (update_completion_set el hasher completion)) (\<lambda>hasher'.
     bindM (send_entries el lb mo job identity accept status overall hasher' rest) (\<lambda>(hasher'', completions).
     returnM (hasher'', completion # completions))))"

fun recv_results ::
  "JobGenerationV2 \<Rightarrow> (ManifestEntryV2 \<times> EntryCompleteV2) list \<Rightarrow> ('z Plane_scheme, ManifestV2DataError, EntryResultV2 list) op" where
  "recv_results identity [] = returnM []"
| "recv_results identity ((entry, completion) # rest) =
     bindM (recv_entry_result identity (me_entry_id entry)) (\<lambda>result.
     bindM (liftM (validate_entry_result entry identity completion result)) (\<lambda>_.
     bindM (recv_results identity rest) (\<lambda>results. returnM (result # results))))"

section \<open>A job\<close>

definition save_record :: "EngineLibs \<Rightarrow> unit tx_op" where
  "save_record el p =
     (case sender_save (el_crypto el) (el_record_to_vec el) (next_save (pl_saves p)) (tx_record p) (pl_disk p) of
        (r, disk) \<Rightarrow> (map_err ME_Delivery r, p\<lparr>pl_saves := tl (pl_saves p), pl_disk := disk\<rparr>))"

definition on_record ::
  "(SenderDeliveryRecordV2 \<Rightarrow> (DeliveryAuthorityErrorV2 + unit) \<times> SenderDeliveryRecordV2) \<Rightarrow> unit tx_op" where
  "on_record f p = (case f (tx_record p) of (r, record') \<Rightarrow> (map_err ME_Delivery r, p\<lparr>tx_record := record'\<rparr>))"

definition sealed_offer :: "EngineLibs \<Rightarrow> CanonicalTransferJob \<Rightarrow> ManifestV2DataError + ManifestOfferV2" where
  "sealed_offer el job =
     bindR (ok_or (map_option sj_manifest (tj_sealed job)) ME_JobNotSealed) (rebuild_offer el)"

definition reconnect_intent :: "SenderTransferPhaseV2 \<Rightarrow> ManifestV2DataError + SenderResumeIntentV2" where
  "reconnect_intent phase =
     (case phase of
        Transferring \<Rightarrow> Inr ContinueData
      | WaitingForReceiverSave \<Rightarrow> Inr AwaitDelivery
      | Delivered \<Rightarrow> Inr AwaitDelivery
      | _ \<Rightarrow> Inl (ME_InvalidLedger ''sender phase cannot establish a reconnect''))"

text \<open>\<open>nonce\<close> is the result of \<open>new_challenge_nonce\<close>.\<close>

definition establish_sender_reconnect ::
  "EngineLibs \<Rightarrow> CanonicalTransferJob \<Rightarrow> DeliveryAuthorityErrorV2 + bytes \<Rightarrow> ResumeStatusV2 tx_op" where
  "establish_sender_reconnect el job nonce =
     bindM (liftM (sealed_offer el job)) (\<lambda>offer.
     bindM (getM tx_record) (\<lambda>r.
     bindM (liftM (map_err ME_Delivery (validate_offer (el_crypto el) r offer))) (\<lambda>_.
     bindM (liftM (ok_or (sd_accept_body_digest r) (ME_InvalidLedger ''sender Accept is not committed''))) (\<lambda>accept_digest.
     bindM (liftM (ok_or (sender_proof_capability r) (ME_InvalidLedger ''sender proof capability is missing''))) (\<lambda>capability.
     bindM (liftM (map_err ME_Delivery nonce)) (\<lambda>challenge_nonce.
     bindM (liftM (reconnect_intent (sd_phase r))) (\<lambda>intent.
     bindM (send_frame (F_ResumeRequest \<lparr>rr_identity = sd_identity r, rr_offer = offer,
       rr_accept_body_digest = accept_digest,
       rr_sender_checkpoint_digest = sender_checkpoint_digest (el_crypto el) (of_structural_digest offer) accept_digest intent,
       rr_challenge_nonce = challenge_nonce\<rparr>)) (\<lambda>_.
     bindM recv_frame (\<lambda>frame.
     bindM (liftM (case frame of F_ResumeStatus status \<Rightarrow> Inr status
                   | _ \<Rightarrow> Inl (ME_UnexpectedFrame ''waiting for receiver resume status''))) (\<lambda>status.
     bindM (liftM (rejectR (rs_challenge_nonce status \<noteq> challenge_nonce) ME_AcceptMismatch)) (\<lambda>_.
     bindM (liftM (map_err ME_Delivery (verify_resume_challenge (el_crypto el) (sd_identity r) challenge_nonce
       (rs_challenge_mac status) capability))) (\<lambda>_.
     bindM (liftM (validate_resume_status el (of_manifest offer) r status)) (\<lambda>_.
     returnM status)))))))))))))"

definition legacy_entry_encoding ::
  "EngineLibs \<Rightarrow> JobLibs \<Rightarrow> (u32 \<Rightarrow> SourceMoments) \<Rightarrow> CanonicalTransferJob \<Rightarrow> CompressionPolicyV2 \<Rightarrow> ManifestEntryV2
     \<Rightarrow> ManifestV2DataError + EntryEncodingV2" where
  "legacy_entry_encoding el lb mo job policy entry =
     (if me_kind entry = Directory then Inr Enc_Identity
      else case policy of
        Never \<Rightarrow> Inr Enc_Identity
      | Always \<Rightarrow> Inr Enc_Zstd
      | Smart \<Rightarrow>
          bindR (map_err ME_Job (source_for_sealed_entry job (me_entry_id entry))) (\<lambda>src.
          bindR (prepared_open lb (sm_sample_open (mo (me_entry_id entry))) src) (\<lambda>_.
          bindR (ok_or (sm_sample (mo (me_entry_id entry))) (ME_Io Io_Other)) (\<lambda>content.
          let sample = take LEGACY_SMART_COMPRESSION_SAMPLE_BYTES content in
          if sample = [] then Inr Enc_Identity
          else bindR (ok_or (el_compress el sample) ME_InvalidCompressedBlock) (\<lambda>compressed.
            Inr (if length compressed < length sample then Enc_Zstd else Enc_Identity))))))"

fun collectR :: "('e + 'a) list \<Rightarrow> 'e + 'a list" where
  "collectR [] = Inr []"
| "collectR (x # xs) = bindR x (\<lambda>a. bindR (collectR xs) (\<lambda>as. Inr (a # as)))"

definition prepare_sender_entry_encodings ::
  "EngineLibs \<Rightarrow> JobLibs \<Rightarrow> (u32 \<Rightarrow> SourceMoments) \<Rightarrow> CanonicalTransferJob \<Rightarrow> ManifestOfferV2 \<Rightarrow> unit tx_op" where
  "prepare_sender_entry_encodings el lb mo job offer =
     (let entries = mf_entries (of_manifest offer); policy = mf_compression_policy (of_manifest offer) in
      bindM (getM tx_record) (\<lambda>r.
      if \<not> requires_entry_encoding_migration r then returnM ()
      else case sd_phase r of
        Offering \<Rightarrow>
          on_record (freeze_entry_encodings (el_crypto el) offer (map (\<lambda>entry. initial_entry_encoding entry policy) entries))
      | Transferring \<Rightarrow>
          bindM (liftM (collectR (map (legacy_entry_encoding el lb mo job policy) entries))) (\<lambda>encodings.
          on_record (freeze_entry_encodings (el_crypto el) offer encodings))
      | _ \<Rightarrow> returnM ()))"

text \<open>The plan of a resumed sender: the committed one at the boundaries of the receiver.\<close>

definition resumed_accept :: "ManifestAcceptV2 \<Rightarrow> ResumeStatusV2 \<Rightarrow> ManifestAcceptV2" where
  "resumed_accept accept status =
     (let n = length (rs_entries status) in
      accept\<lparr>ac_entry_plans :=
        map (\<lambda>(plan, c). plan\<lparr>ep_next_plaintext_block := re_next_plaintext_block c,
               ep_disposition := (if re_arbiter c = Arb_ReuseChosen then Disp_ReuseExisting else ep_disposition plan)\<rparr>)
          (zip (ac_entry_plans accept) (rs_entries status)) @ drop n (ac_entry_plans accept)\<rparr>)"

definition negotiate ::
  "EngineLibs \<Rightarrow> CanonicalTransferJob \<Rightarrow> DeliveryAuthorityErrorV2 + bytes \<Rightarrow> ManifestOfferV2
     \<Rightarrow> (ManifestAcceptV2 \<times> ResumeStatusV2 option) tx_op" where
  "negotiate el job nonce offer =
     bindM (getM (\<lambda>p. sd_phase (tx_record p))) (\<lambda>phase.
     bindM (emit (On_stage ManifestOffer)) (\<lambda>_.
     if phase = Transferring then
       bindM (establish_sender_reconnect el job nonce) (\<lambda>status.
       bindM (checkM (\<lambda>p. ok_or (sd_accept (tx_record p)) (ME_InvalidLedger ''sender Accept is missing''))) (\<lambda>accept.
       returnM (resumed_accept accept status, Some status)))
     else
       bindM (send_frame (F_Offer offer)) (\<lambda>_.
       bindM recv_frame (\<lambda>frame.
       bindM (liftM (case frame of F_Accept accept \<Rightarrow> Inr accept
                     | _ \<Rightarrow> Inl (ME_UnexpectedFrame ''waiting for Accept''))) (\<lambda>accept.
       bindM (liftM (validate_accept offer accept)) (\<lambda>_.
       returnM (accept, None)))))))"

definition send_payload ::
  "EngineLibs \<Rightarrow> JobLibs \<Rightarrow> (u32 \<Rightarrow> SourceMoments) \<Rightarrow> CanonicalTransferJob \<Rightarrow> ManifestV2 \<Rightarrow> ManifestAcceptV2
     \<Rightarrow> ResumeStatusV2 option \<Rightarrow> ContentDigestV2 \<Rightarrow> SenderDataPlaneSummaryV2 tx_op" where
  "send_payload el lb mo job manifest accept status accept_body_digest =
     (let identity = ac_identity accept; overall = mt_total_plaintext_bytes (mf_totals manifest) in
      bindM (emit (On_phase PP_Transferring)) (\<lambda>_.
      bindM (liftM (case status of None \<Rightarrow> Inr 0 | Some s \<Rightarrow> resume_plaintext_bytes manifest s)) (\<lambda>completed.
      bindM (modifyM (\<lambda>p. p\<lparr>pl_completed := completed\<rparr>)) (\<lambda>_.
      bindM (emit (On_progress completed overall)) (\<lambda>_.
      bindM (send_entries el lb mo job identity accept status overall [] (mf_entries manifest)) (\<lambda>(hasher, completions).
      bindM (emit (On_stage PayloadComplete)) (\<lambda>_.
      bindM (send_frame (F_JobComplete \<lparr>jc_identity = identity,
        jc_sender_completion_set_digest = cy_hash (el_crypto el) hasher\<rparr>)) (\<lambda>_.
      bindM (recv_results identity (zip (mf_entries manifest) completions)) (\<lambda>results.
      returnM \<lparr>ss_identity = identity, ss_accept_body_digest = accept_body_digest,
        ss_sender_completion_set_digest = cy_hash (el_crypto el) hasher, ss_entry_results = results\<rparr>)))))))))"

definition data_plane_send ::
  "EngineLibs \<Rightarrow> JobLibs \<Rightarrow> (u32 \<Rightarrow> SourceMoments) \<Rightarrow> CanonicalTransferJob \<Rightarrow> DeliveryAuthorityErrorV2 + bytes
     \<Rightarrow> SenderDataPlaneSummaryV2 tx_op" where
  "data_plane_send el lb mo job nonce =
     bindM (liftM (sealed_offer el job)) (\<lambda>offer.
     bindM (prepare_sender_entry_encodings el lb mo job offer) (\<lambda>_.
     bindM (checkM (\<lambda>p. map_err ME_Delivery (validate_offer (el_crypto el) (tx_record p) offer))) (\<lambda>_.
     bindM (save_record el) (\<lambda>_.
     bindM (negotiate el job nonce offer) (\<lambda>(accept, status).
     bindM (case status of
              Some _ \<Rightarrow> checkM (\<lambda>p. ok_or (sd_accept_body_digest (tx_record p))
                (ME_InvalidLedger ''sender Accept digest is missing''))
            | None \<Rightarrow> liftM (frame_body_digest el (F_Accept accept))) (\<lambda>body_digest.
     bindM (whenM (status = None)
       (bindM (on_record (commit_accept accept body_digest)) (\<lambda>_. save_record el))) (\<lambda>_.
     bindM (emit (On_stage ManifestAccepted)) (\<lambda>_.
     bindM (send_payload el lb mo job (of_manifest offer) accept status body_digest) (\<lambda>summary.
     bindM (on_record (commit_results summary)) (\<lambda>_.
     bindM (save_record el) (\<lambda>_.
     bindM (emit (On_phase PP_WaitingForReceiverSave)) (\<lambda>_.
     returnM summary))))))))))))"

end
