(* ===== verification/Engine_Resume.thy ===== *)
theory Engine_Resume
  imports Engine_Receive_Run Engine_Send
begin

text \<open>
  Resuming: what the receiver reports of its ledger is accepted by the sender, counts at most the
  bytes of the job, and both ends take the same completion for every entry that was decided.
\<close>

text \<open>The sender of this code starts every entry with the default block size.\<close>

definition default_blocks :: "ReceiverDataPlaneLedgerV2 \<Rightarrow> bool" where
  "default_blocks l \<longleftrightarrow> list_all (\<lambda>c. case cp_start c of None \<Rightarrow> True
     | Some start \<Rightarrow> es_plaintext_block_bytes start = DEFAULT_MANIFEST_V2_BLOCK_PLAINTEXT_BYTES) (lg_entries l)"

lemma default_boundary:
  assumes ok: "checkpoint_ok el identity entry plan c"
    and blocks: "\<forall>start. cp_start c = Some start \<longrightarrow> es_plaintext_block_bytes start = DEFAULT_MANIFEST_V2_BLOCK_PLAINTEXT_BYTES"
  shows "unat (cp_next_plaintext_block c) * unat block_size \<le> unat (me_plaintext_size entry) + unat block_size - 1"
    and "unat (cp_plaintext_bytes c) = min (unat (cp_next_plaintext_block c) * unat block_size) (unat (me_plaintext_size entry))"
proof -
  let ?n = "unat (cp_next_plaintext_block c)" and ?b = "unat block_size"
  have size: "unat DEFAULT_MANIFEST_V2_BLOCK_PLAINTEXT_BYTES = ?b"
    by (simp add: block_size_def)
  have "unat (cp_plaintext_bytes c) = min (?n * ?b) (unat (me_plaintext_size entry))
      \<and> (?n = 0 \<or> (?n - 1) * ?b < unat (me_plaintext_size entry))"
    using ok blocks size by (cases "cp_start c") (auto simp: checkpoint_ok_def boundary_ok_def Let_def)
  moreover from this have "?n * ?b \<le> unat (me_plaintext_size entry) + ?b - 1"
    using block_size_pos(1) by (cases ?n) (auto simp del: block_size_pos)
  ultimately show "?n * ?b \<le> unat (me_plaintext_size entry) + ?b - 1"
      "unat (cp_plaintext_bytes c) = min (?n * ?b) (unat (me_plaintext_size entry))"
    by simp_all
qed

lemma total_blocks_value:
  assumes "unat (me_plaintext_size entry) + unat block_size - 1 < 2 ^ 64"
  shows "\<exists>n. total_blocks entry = Inr n \<and> unat n = (unat (me_plaintext_size entry) + unat block_size - 1) div unat block_size"
proof -
  have b: "unat (block_size - 1) = unat block_size - 1"
    by (simp add: block_size_def DEFAULT_MANIFEST_V2_BLOCK_PLAINTEXT_BYTES_def)
  have sum: "unat (me_plaintext_size entry) + unat (block_size - 1) = unat (me_plaintext_size entry) + unat block_size - 1"
    using block_size_pos(1) unfolding b by linarith
  have "checked_add (me_plaintext_size entry) (block_size - 1) = Some (me_plaintext_size entry + (block_size - 1))"
    using assms sum by (simp add: checked_add_def)
  moreover from checked_addD [OF this] sum
  have "unat (me_plaintext_size entry + (block_size - 1)) = unat (me_plaintext_size entry) + unat block_size - 1"
    by simp
  ultimately show ?thesis
    by (simp add: total_blocks_def unat_div)
qed

section \<open>One entry\<close>

lemma completion_from_result_of:
  assumes "result_of_completion identity entry k r" and "co_identity k = identity" "co_entry_id k = me_entry_id entry"
    and "co_final_size k = me_plaintext_size entry" and "me_kind entry = Directory \<Longrightarrow> co_final_digest k = empty_digest el"
  shows "completion_from_result el entry r = Inr k"
  using assms
  by (cases k; cases "me_kind entry"; cases "co_completion_choice k")
    (auto simp: completion_from_result_def result_of_completion_def expected_result_def result_completion_choice_def)

lemma checkpoint_result:
  assumes ok: "checkpoint_ok el identity entry plan c" and r: "cp_result c = Some r"
  shows "\<exists>k. cp_completion c = Some k \<and> result_of_completion identity entry k r \<and> completion_from_result el entry r = Inr k"
proof -
  obtain k where k: "cp_completion c = Some k" "result_of_completion identity entry k r"
    using ok r by (auto simp: checkpoint_ok_def)
  have "co_final_digest k = empty_digest el" if "me_kind entry = Directory"
    using ok k r that by (cases "cp_arbiter c") (auto simp: checkpoint_ok_def arbiter_ok_def)
  then have "completion_from_result el entry r = Inr k"
    using ok k by (intro completion_from_result_of [OF k(2)]) (simp_all add: checkpoint_ok_def)
  with k show ?thesis
    by blast
qed

lemma resume_entry_accepted:
  assumes ok: "checkpoint_ok el identity entry plan c" and accepted: "accept_entry_ok entry plan = Inr ()"
    and blocks: "\<forall>start. cp_start c = Some start \<longrightarrow> es_plaintext_block_bytes start = DEFAULT_MANIFEST_V2_BLOCK_PLAINTEXT_BYTES"
  shows "resume_entry_ok el identity entry (resume_entry c) = Inr ()"
proof -
  obtain n where n: "total_blocks entry = Inr n" "unat n = (unat (me_plaintext_size entry) + unat block_size - 1) div unat block_size"
    using total_blocks_value [OF accept_entry_okD(5) [OF accepted]] by blast
  have "unat (cp_next_plaintext_block c) \<le> unat n"
    using default_boundary(1) [OF ok blocks] unfolding n(2) by (simp add: less_eq_div_iff_mult_less_eq)
  then have bound: "\<not> cp_next_plaintext_block c > n"
    by (simp add: word_less_nat_alt)
  note result = checkpoint_result [OF ok]
  have "arbiter_shape_valid entry (resume_entry c)"
    using ok by (cases "cp_arbiter c") (auto simp: checkpoint_ok_def arbiter_ok_def arbiter_shape_valid_def resume_entry_def)
  moreover have "result_matches_arbiter (resume_entry c)"
  proof (cases "cp_result c")
    case (Some r)
    obtain k where k: "cp_completion c = Some k" "er_result r = expected_result (co_completion_choice k)"
      using result [OF Some] by (auto simp: result_of_completion_def)
    have arbiter: "arbiter_ok el entry c"
      using ok by (simp add: checkpoint_ok_def)
    show ?thesis
      using Some k arbiter by (cases "cp_arbiter c")
        (simp_all add: arbiter_ok_def result_matches_arbiter_def resume_entry_def expected_result_def)
  qed (simp add: result_matches_arbiter_def resume_entry_def)
  moreover have "\<not> (case cp_result c of None \<Rightarrow> False | Some r \<Rightarrow> er_identity r \<noteq> identity \<or> er_entry_id r \<noteq> me_entry_id entry
      \<or> (case completion_from_result el entry r of Inl _ \<Rightarrow> True | Inr _ \<Rightarrow> False))"
  proof (cases "cp_result c")
    case (Some r)
    then show ?thesis
      using result [OF Some] by (auto simp: result_of_completion_def)
  qed simp
  moreover have "cp_entry_id c = me_entry_id entry"
    using ok by (simp add: checkpoint_ok_def)
  ultimately show ?thesis
    using n(1) bound by (simp add: resume_entry_ok_def resume_entry_def)
qed

text \<open>What the sender takes for an entry that the receiver reports as decided.\<close>

definition resumed_completion ::
  "EngineLibs \<Rightarrow> JobGenerationV2 \<Rightarrow> ManifestEntryV2 \<Rightarrow> ResumeEntryV2 \<Rightarrow> ManifestV2DataError + EntryCompleteV2" where
  "resumed_completion el identity entry c =
     (case re_entry_result c of Some r \<Rightarrow> completion_from_result el entry r
      | None \<Rightarrow> completion_from_resume_checkpoint el identity entry c)"

lemma resumed_completion_agrees:
  assumes ok: "checkpoint_ok el identity entry plan c" and decided: "cp_arbiter c \<noteq> Arb_PayloadOpen"
  shows "\<exists>k. resumed_completion el identity entry (resume_entry c) = Inr k \<and> decided_completion identity entry c = Inr k"
proof (cases "cp_result c")
  case None
  then show ?thesis
    using ok decided
    by (cases "cp_arbiter c"; cases "cp_completion c"; cases "me_kind entry")
      (auto simp: resumed_completion_def resume_entry_def completion_from_resume_checkpoint_def decided_completion_def
        checkpoint_ok_def arbiter_ok_def reuse_completion_def intro!: EntryCompleteV2.equality)
next
  case (Some r)
  with checkpoint_result [OF ok] show ?thesis
    by (auto simp: resumed_completion_def resume_entry_def decided_completion_def)
qed

section \<open>The bytes that a resumed run starts with\<close>

lemma resume_entry_bytes:
  assumes ok: "checkpoint_ok el identity entry plan c" and accepted: "accept_entry_ok entry plan = Inr ()"
    and blocks: "\<forall>start. cp_start c = Some start \<longrightarrow> es_plaintext_block_bytes start = DEFAULT_MANIFEST_V2_BLOCK_PLAINTEXT_BYTES"
  shows "\<exists>n. resume_entry_plaintext_bytes entry (resume_entry c) = Inr n \<and> n \<le> me_plaintext_size entry
    \<and> (cp_arbiter c = Arb_PayloadOpen \<longrightarrow> n = cp_plaintext_bytes c)"
proof (cases "cp_arbiter c = Arb_PayloadOpen")
  case True
  then have "cp_result c = None"
    using ok by (simp add: checkpoint_ok_def arbiter_ok_def)
  moreover have "unat (cp_next_plaintext_block c) * unat block_size < 2 ^ 64"
    using default_boundary(1) [OF ok blocks] accept_entry_okD(5) [OF accepted] by linarith
  then have "checked_mul (cp_next_plaintext_block c) block_size = Some (cp_next_plaintext_block c * block_size)"
      "unat (cp_next_plaintext_block c * block_size) = unat (cp_next_plaintext_block c) * unat block_size"
    by (simp_all add: checked_mul_def unat_word_ariths)
  moreover have "cp_plaintext_bytes c = min (cp_next_plaintext_block c * block_size) (me_plaintext_size entry)"
    using default_boundary(2) [OF ok blocks] calculation(3) by (simp add: word_unat_eq_iff unat_min)
  ultimately show ?thesis
    using ok True by (simp add: resume_entry_plaintext_bytes_def resume_entry_def checkpoint_ok_def)
next
  case False
  then show ?thesis
    using ok by (cases "cp_arbiter c") (simp_all add: resume_entry_plaintext_bytes_def resume_entry_def checkpoint_ok_def)
qed

lemma resume_bytes_bounded:
  assumes "list_all2 (\<lambda>entry c. \<exists>n. resume_entry_plaintext_bytes entry c = Inr n \<and> n \<le> me_plaintext_size entry) entries cs"
    and "unat acc + (\<Sum>e \<leftarrow> entries. unat (me_plaintext_size e)) < 2 ^ 64"
  shows "\<exists>n. resume_bytes_from acc (zip entries cs) = Inr n
    \<and> unat n \<le> unat acc + (\<Sum>e \<leftarrow> entries. unat (me_plaintext_size e))"
  using assms
proof (induction entries cs arbitrary: acc rule: list_all2_induct)
  case Nil
  then show ?case by simp
next
  case (Cons entry entries c cs)
  from Cons.hyps obtain n where n: "resume_entry_plaintext_bytes entry c = Inr n" "n \<le> me_plaintext_size entry"
    by blast
  have le: "unat n \<le> unat (me_plaintext_size entry)"
    using n(2) by (simp add: word_le_nat_alt)
  with Cons.prems have added: "checked_add acc n = Some (acc + n)" "unat (acc + n) = unat acc + unat n"
    by (simp_all add: checked_add_Some_iff unat_word_ariths)
  have "unat (acc + n) + (\<Sum>e \<leftarrow> entries. unat (me_plaintext_size e)) < 2 ^ 64"
    using Cons.prems le added(2) by simp
  from Cons.IH [OF this] show ?case
    using n(1) le added by auto
qed

section \<open>A resumed job\<close>

lemma resume_entries_ok_iff:
  "resume_entries_ok el identity ps = Inr u \<longleftrightarrow> (\<forall>(entry, c) \<in> set ps. resume_entry_ok el identity entry c = Inr ())"
  by (induction ps rule: resume_entries_ok.induct) auto

lemma default_blocks_at:
  "default_blocks l \<Longrightarrow> i < length (lg_entries l) \<Longrightarrow> cp_start (lg_entries l ! i) = Some start
     \<Longrightarrow> es_plaintext_block_bytes start = DEFAULT_MANIFEST_V2_BLOCK_PLAINTEXT_BYTES"
  by (auto simp: default_blocks_def list_all_length)

lemma resume_status_valid:
  assumes ok: "ledger_ok el offer l" and blocks: "default_blocks l"
    and r: "sd_identity r = lg_identity l" "sd_accept r = Some (lg_accept l)"
      "sd_accept_body_digest r = Some (lg_accept_body_digest l)" "sd_phase r = Transferring"
  shows "validate_resume_status el (of_manifest offer) r (resume_status l) = Inr ()"
proof -
  note len = ledger_okD(2) [OF ok] and accepted = accept_valid(4) [OF ledger_okD(3) [OF ok]]
  have "resume_entry_ok el (offer_identity offer) (offer_entries offer ! i) (resume_entry (lg_entries l ! i)) = Inr ()"
    if "i < length (offer_entries offer)" for i
    using resume_entry_accepted [OF ledger_okD(4) [OF ok that] accepted [OF that]] default_blocks_at [OF blocks] that len
    by simp
  then have "resume_entries_ok el (lg_identity l) (zip (offer_entries offer) (map resume_entry (lg_entries l))) = Inr ()"
    using len ledger_okD(1) [OF ok] by (auto simp: resume_entries_ok_iff set_zip)
  then show ?thesis
    using r len by (simp add: validate_resume_status_def resume_status_def)
qed

lemma plain_sum_all:
  assumes "\<forall>e \<in> set es. me_kind e = Directory \<longrightarrow> me_plaintext_size e = 0"
  shows "plain_sum es = (\<Sum>e \<leftarrow> es. unat (me_plaintext_size e))"
  using assms by (induction es) (auto simp: plain_sum_def files_in_def intro: ManifestEntryKindV2.exhaust)

lemma resume_bytes_total:
  assumes valid: "offer_valid el offer" and ok: "ledger_ok el offer l" and blocks: "default_blocks l"
  shows "\<exists>n. resume_plaintext_bytes (of_manifest offer) (resume_status l) = Inr n
    \<and> n \<le> mt_total_plaintext_bytes (mf_totals (of_manifest offer))"
proof -
  note len = ledger_okD(2) [OF ok] and accepted = accept_valid(4) [OF ledger_okD(3) [OF ok]]
  have each: "\<exists>n. resume_entry_plaintext_bytes (offer_entries offer ! i) (resume_entry (lg_entries l ! i)) = Inr n
      \<and> n \<le> me_plaintext_size (offer_entries offer ! i)" if "i < length (offer_entries offer)" for i
    using resume_entry_bytes [OF ledger_okD(4) [OF ok that] accepted [OF that]] default_blocks_at [OF blocks] that len
    by auto
  have totals: "unat (mt_total_plaintext_bytes (mf_totals (of_manifest offer))) = plain_sum (offer_entries offer)"
    using valid by (simp add: offer_valid_iff manifest_ok_def totals_ok_def)
  have sum: "plain_sum (offer_entries offer) = (\<Sum>e \<leftarrow> offer_entries offer. unat (me_plaintext_size e))"
    using offer_entry(3) [OF valid] by (intro plain_sum_all) (auto simp: in_set_conv_nth)
  have small: "unat (0 :: u64) + (\<Sum>e \<leftarrow> offer_entries offer. unat (me_plaintext_size e)) < 2 ^ 64"
    using totals sum unat_bound [of "mt_total_plaintext_bytes (mf_totals (of_manifest offer))"] by simp
  have pairs: "list_all2 (\<lambda>entry c. \<exists>n. resume_entry_plaintext_bytes entry c = Inr n \<and> n \<le> me_plaintext_size entry)
      (offer_entries offer) (map resume_entry (lg_entries l))"
    using each len by (simp add: list_all2_conv_all_nth)
  obtain n where "resume_bytes_from 0 (zip (offer_entries offer) (map resume_entry (lg_entries l))) = Inr n"
      "unat n \<le> unat (mt_total_plaintext_bytes (mf_totals (of_manifest offer)))"
    using resume_bytes_bounded [OF pairs small] totals sum by auto
  then show ?thesis
    by (auto simp: resume_plaintext_bytes_def resume_status_def word_le_nat_alt)
qed

end
