(* ===== verification/Engine_Stream.thy ===== *)
theory Engine_Stream
  imports Engine_Resume
begin

text \<open>
  A file on its way: the blocks that \<open>send_file\<close> writes are the consecutive pieces of the content,
  and the receiver at the same boundary accepts each of them and hands the pieces to its sink.
\<close>

section \<open>The pieces of a content\<close>

definition nblocks :: "nat \<Rightarrow> nat" where
  "nblocks n = (n + unat block_size - 1) div unat block_size"

definition piece :: "bytes \<Rightarrow> nat \<Rightarrow> bytes" where
  "piece content k = take (unat block_size) (drop (k * unat block_size) content)"

lemma block_size_nat [simp]: "unat block_size = 4194304"
  by (simp add: block_size_def DEFAULT_MANIFEST_V2_BLOCK_PLAINTEXT_BYTES_def)

lemma nblocks_less: "k < nblocks n \<longleftrightarrow> k * unat block_size < n"
proof -
  have "k < nblocks n \<longleftrightarrow> Suc k * 4194304 \<le> n + 4194304 - 1"
    unfolding nblocks_def block_size_nat Suc_le_eq [symmetric] by (simp add: less_eq_div_iff_mult_less_eq)
  then show ?thesis
    by auto
qed

lemma piece_length: "length (piece content k) = min (unat block_size) (length content - k * unat block_size)"
  by (simp add: piece_def)

lemma piece_rest: "piece content k @ drop (Suc k * unat block_size) content = drop (k * unat block_size) content"
proof -
  have "drop (Suc k * unat block_size) content = drop (unat block_size) (drop (k * unat block_size) content)"
    by (simp only: drop_drop mult_Suc)
  then show ?thesis
    by (simp only: piece_def append_take_drop_id)
qed

lemma pieces_concat:
  "k \<le> nblocks (length content) \<Longrightarrow> concat (map (piece content) [k..<nblocks (length content)]) = drop (k * unat block_size) content"
proof (induction "nblocks (length content) - k" arbitrary: k)
  case 0
  then have "\<not> k < nblocks (length content)" by simp
  then show ?case
    using nblocks_less [of k "length content"] by simp
next
  case (Suc d)
  then have "k < nblocks (length content)" and "d = nblocks (length content) - Suc k"
    by simp_all
  with Suc.hyps(1) [of "Suc k"] show ?case
    using piece_rest [of content k] by (simp add: upt_conv_Cons)
qed

definition sent_block :: "JobGenerationV2 \<Rightarrow> ManifestEntryV2 \<Rightarrow> (bytes \<Rightarrow> bytes) \<Rightarrow> bytes \<Rightarrow> nat \<Rightarrow> EntryBlockV2" where
  "sent_block identity entry encoded content k =
     \<lparr>bl_identity = identity, bl_entry_id = me_entry_id entry, bl_block_index = word_of_nat k,
      bl_plaintext_offset = word_of_nat (k * unat block_size),
      bl_plaintext_length = word_of_nat (length (piece content k)), bl_encoded_bytes = encoded (piece content k)\<rparr>"

text \<open>The content is the one of the entry and of the source, and its pieces encode to \<open>encoded\<close>.\<close>

definition content_of :: "ManifestEntryV2 \<Rightarrow> bytes \<Rightarrow> bool" where
  "content_of entry content \<longleftrightarrow> unat (me_plaintext_size entry) = length content \<and> length content + unat block_size < 2 ^ 64"

definition reads :: "SourceMoments \<Rightarrow> bytes \<Rightarrow> bool" where
  "reads mo content \<longleftrightarrow> (\<forall>offset n. unat offset + n \<le> length content \<longrightarrow> sm_read mo offset n = Some (take n (drop (unat offset) content)))"

definition encodes :: "EngineLibs \<Rightarrow> EntryEncodingV2 \<Rightarrow> (bytes \<Rightarrow> bytes) \<Rightarrow> bytes \<Rightarrow> bool" where
  "encodes el encoding encoded content \<longleftrightarrow>
     (\<forall>k < nblocks (length content). encode_block el encoding (piece content k) = Inr (encoded (piece content k)))"

text \<open>What is used of \<open>zstd\<close>: decompression undoes compression.\<close>

definition zstd_law :: "EngineLibs \<Rightarrow> bool" where
  "zstd_law el \<longleftrightarrow> (\<forall>x z. el_compress el x = Some z \<longrightarrow> el_decompress el z (length x) = Some x)"

lemma decode_encode_block:
  assumes "zstd_law el" and "encode_block el encoding x = Inr z"
    and "unat (bl_plaintext_length block) = length x" "bl_encoded_bytes block = z"
  shows "decode_block el encoding block = Inr (block\<lparr>bl_encoded_bytes := x\<rparr>)"
  using assms by (cases encoding) (auto simp: zstd_law_def encode_block_def decode_block_def Let_def)

section \<open>The sender\<close>

lemma send_frame_ok: "pl_sends p = [] \<Longrightarrow> send_frame frame p = (Inr (), p\<lparr>pl_sent := pl_sent p @ [frame]\<rparr>)"
  by (simp add: send_frame_def Let_def)

lemma add_completed_ok:
  "unat (pl_completed p) + unat n < 2 ^ 64 \<Longrightarrow>
     add_completed n overall p = (Inr (), p\<lparr>pl_completed := pl_completed p + n,
       pl_events := pl_events p @ [On_progress (pl_completed p + n) overall]\<rparr>)"
  by (simp add: add_completed_def emit_def checked_add_def)

lemma unat_of_nat_u64: "n < 2 ^ 64 \<Longrightarrow> unat (word_of_nat n :: u64) = n"
  by (simp add: unat_word_of_nat_small)

lemma send_block_wp:
  assumes "encode_block el encoding x = Inr (encoded x)" and "pl_sends p = []"
    and "unat (pl_completed p) + length x < 2 ^ 64"
  shows "wp (send_block el identity entry encoding overall k offset x)
    (\<lambda>_ t. pl_sends t = [] \<and> unat (pl_completed t) = unat (pl_completed p) + length x
       \<and> pl_sent t = pl_sent p @ [F_EntryBlock \<lparr>bl_identity = identity, bl_entry_id = me_entry_id entry, bl_block_index = k,
            bl_plaintext_offset = offset, bl_plaintext_length = word_of_nat (length x), bl_encoded_bytes = encoded x\<rparr>])
    (\<lambda>_ _. False) p"
proof -
  have "unat (word_of_nat (length x) :: u64) = length x"
    using assms(3) by (simp add: unat_word_of_nat_small)
  then show ?thesis
    using assms by (simp add: send_block_def wp_def bindM_def send_entry_block_or_recv_frame_def send_frame_ok emit_def
        add_completed_ok unat_word_ariths)
qed

definition offset_at :: "bytes \<Rightarrow> nat \<Rightarrow> u64" where
  "offset_at content k = word_of_nat (min (k * unat block_size) (length content))"

lemma offset_at_steps:
  assumes content: "content_of entry content" and k: "k < nblocks (length content)"
  shows "offset_at content k < me_plaintext_size entry" and "offset_at content k = word_of_nat (k * unat block_size)"
    and "unat (offset_at content k) = k * unat block_size"
    and "unat (min (me_plaintext_size entry - offset_at content k) block_size) = length (piece content k)"
    and "offset_at content k + min (me_plaintext_size entry - offset_at content k) block_size = offset_at content (Suc k)"
    and "checked_add (offset_at content k) (min (me_plaintext_size entry - offset_at content k) block_size)
      = Some (offset_at content (Suc k))"
    and "checked_add (word_of_nat k :: u64) 1 = Some (word_of_nat (Suc k))"
proof -
  let ?n = "min (me_plaintext_size entry - offset_at content k) block_size"
  have size: "unat (me_plaintext_size entry) = length content" "length content + 4194304 < 2 ^ 64"
    using content by (simp_all add: content_of_def)
  have inside: "k * 4194304 < length content"
    using k unfolding nblocks_less by simp
  then show word: "offset_at content k = word_of_nat (k * unat block_size)"
    by (simp add: offset_at_def)
  show at: "unat (offset_at content k) = k * unat block_size"
    using inside size(2) unfolding word by (subst unat_of_nat_u64) simp_all
  show less: "offset_at content k < me_plaintext_size entry"
    using inside at size(1) by (simp add: word_less_nat_alt)
  show n: "unat ?n = length (piece content k)"
    using less at size(1) by (simp add: unat_min unat_sub order_less_imp_le piece_length min.commute)
  have sum: "unat (offset_at content k) + unat ?n = min (Suc k * 4194304) (length content)"
    using inside unfolding at n by (simp add: piece_length)
  have "unat (offset_at content (Suc k)) = min (Suc k * 4194304) (length content)"
    using size(2) unfolding offset_at_def by (subst unat_of_nat_u64) simp_all
  then show "checked_add (offset_at content k) ?n = Some (offset_at content (Suc k))"
    unfolding checked_add_Some_iff using sum size(2) by simp
  then show "offset_at content k + ?n = offset_at content (Suc k)"
    by (auto dest: checked_addD)
  have "k < 2 ^ 64 - 1"
    using inside size(2) by simp
  then show "checked_add (word_of_nat k :: u64) 1 = Some (word_of_nat (Suc k))"
    using unat_of_nat_u64 [of k] unat_of_nat_u64 [of "Suc k"] unfolding checked_add_Some_iff by (simp del: of_nat_Suc)
qed

lemma take_length_take: "take (length (take b xs)) xs = take b xs"
  by (cases "b \<le> length xs") (simp_all add: min_def)

lemma read_piece:
  assumes "content_of entry content" "reads mo content" "k < nblocks (length content)"
  shows "read_exact mo (offset_at content k) (length (piece content k)) = Inr (piece content k)"
proof -
  note at = offset_at_steps(3) [OF assms(1,3)]
  have "unat (offset_at content k) + length (piece content k) \<le> length content"
    using assms(3) unfolding at nblocks_less by (simp add: piece_length)
  moreover have "take (length (piece content k)) (drop (unat (offset_at content k)) content) = piece content k"
    unfolding at piece_def by (rule take_length_take)
  ultimately have "sm_read mo (offset_at content k) (length (piece content k)) = Some (piece content k)"
    using assms(2) unfolding reads_def by simp
  then show ?thesis
    by (simp add: read_exact_def)
qed

text \<open>From block \<open>k\<close> on, the blocks that the receiver does not have are sent and the rest of the content was read.\<close>

definition blocks_sent ::
  "JobGenerationV2 \<Rightarrow> ManifestEntryV2 \<Rightarrow> (bytes \<Rightarrow> bytes) \<Rightarrow> bytes \<Rightarrow> nat \<Rightarrow> nat \<Rightarrow> bytes \<Rightarrow> 'z Plane_scheme
     \<Rightarrow> ContentDigestV2 option \<times> bool \<times> u64 \<times> bytes \<Rightarrow> 'z Plane_scheme \<Rightarrow> bool" where
  "blocks_sent identity entry encoded content skip k hasher p r t \<longleftrightarrow>
     r = (None, False, me_plaintext_size entry, hasher @ drop (k * unat block_size) content) \<and> pl_sends t = []
     \<and> pl_sent t = pl_sent p @ map (\<lambda>j. F_EntryBlock (sent_block identity entry encoded content j))
         (filter (\<lambda>j. skip \<le> j) [k..<nblocks (length content)])"

lemma send_blocks_wp:
  fixes p :: "'z Plane_scheme"
  assumes content: "content_of entry content" and source: "reads mo content" and coded: "encodes el encoding encoded content"
    and skip: "skip < 2 ^ 64"
  shows "k \<le> nblocks (length content) \<Longrightarrow> pl_sends p = []
    \<Longrightarrow> unat (pl_completed p) + length (drop (k * unat block_size) content) < 2 ^ 64 \<Longrightarrow>
    wp (send_blocks el mo identity entry (word_of_nat skip) encoding overall None (word_of_nat k) (offset_at content k) None hasher)
      (blocks_sent identity entry encoded content skip k hasher p) (\<lambda>_ _. False) p"
proof (induction "nblocks (length content) - k" arbitrary: k hasher p)
  case 0
  then have "length content \<le> k * 4194304"
    using nblocks_less [of k "length content"] by simp
  moreover from this have "offset_at content k = me_plaintext_size entry"
    using content by (simp add: offset_at_def content_of_def word_unat_eq_iff unat_of_nat_u64)
  ultimately show ?case
    using 0 by (subst send_blocks.simps) (simp add: blocks_sent_def)
next
  case (Suc d)
  then have k: "k < nblocks (length content)" and later: "d = nblocks (length content) - Suc k" "Suc k \<le> nblocks (length content)"
    by simp_all
  note step = offset_at_steps [OF content k]
  let ?block = "\<lambda>j. F_EntryBlock (sent_block identity entry encoded content j)"
  let ?send = "send_block el identity entry encoding overall (word_of_nat k) (offset_at content k) (piece content k)"
  have "k < 2 ^ 64"
    using k content unfolding nblocks_less content_of_def by simp
  then have skipped: "word_of_nat skip \<le> (word_of_nat k :: u64) \<longleftrightarrow> skip \<le> k"
    using skip by (simp add: word_le_nat_alt unat_of_nat_u64)
  have rest: "length (drop (k * unat block_size) content)
      = length (piece content k) + length (drop (Suc k * unat block_size) content)"
    unfolding piece_rest [of content k, symmetric] by simp
  have this_block: "wp (whenM (word_of_nat skip \<le> (word_of_nat k :: u64)) ?send)
      (\<lambda>_ t. pl_sends t = [] \<and> unat (pl_completed t) + length (drop (Suc k * unat block_size) content) < 2 ^ 64
        \<and> pl_sent t = pl_sent p @ map ?block (filter (\<lambda>j. skip \<le> j) [k])) (\<lambda>_ _. False) p"
  proof (cases "skip \<le> k")
    case True
    have "encode_block el encoding (piece content k) = Inr (encoded (piece content k))"
      using coded k by (simp add: encodes_def)
    note sent = send_block_wp [of el encoding "piece content k" encoded p, OF this Suc.prems(2)]
    have "unat (pl_completed p) + length (piece content k) < 2 ^ 64"
      using Suc.prems(3) rest by linarith
    from sent [OF this, of identity entry overall "word_of_nat k" "offset_at content k"] show ?thesis
      using True Suc.prems(3) unfolding skipped rest whenM_def
      by (auto simp: sent_block_def step(2) simp del: block_size_nat elim!: wp_mono)
  next
    case False
    then show ?thesis
      using Suc.prems rest unfolding skipped by simp
  qed
  have ih: "wp (send_blocks el mo identity entry (word_of_nat skip) encoding overall None (word_of_nat (Suc k))
      (offset_at content (Suc k)) None (hasher @ piece content k))
      (blocks_sent identity entry encoded content skip k hasher p) (\<lambda>_ _. False) q"
    if "pl_sends q = []" "unat (pl_completed q) + length (drop (Suc k * unat block_size) content) < 2 ^ 64"
      "pl_sent q = pl_sent p @ map ?block (filter (\<lambda>j. skip \<le> j) [k])" for q :: "'z Plane_scheme"
    using Suc.hyps(1) [OF later that(1,2), of "hasher @ piece content k"] piece_rest [of content k] that(3) k
    by (auto simp: blocks_sent_def upt_conv_Cons simp del: block_size_nat elim!: wp_mono)
  have next_block: "word_of_nat k + 1 = (word_of_nat (Suc k) :: u64)"
    by simp
  have "wp (whenM (word_of_nat skip \<le> (word_of_nat k :: u64)) ?send)
      (\<lambda>_. wp (send_blocks el mo identity entry (word_of_nat skip) encoding overall None (word_of_nat (Suc k))
        (offset_at content (Suc k)) None (hasher @ piece content k))
       (blocks_sent identity entry encoded content skip k hasher p) (\<lambda>_ _. False)) (\<lambda>_ _. False) p"
    using this_block by (rule wp_mono) (elim conjE, rule ih)
  then show ?case
    by (subst send_blocks.simps)
      (use step(1) in \<open>simp add: Let_def wp_bind step(4,5,6,7) read_piece [OF content source k] next_block
        del: block_size_nat of_nat_Suc\<close>)
qed

text \<open>A file whose digest the manifest holds, and which was not changed: what goes on the wire.\<close>

definition file_frames ::
  "JobGenerationV2 \<Rightarrow> ManifestEntryV2 \<Rightarrow> EntryEncodingV2 \<Rightarrow> (bytes \<Rightarrow> bytes) \<Rightarrow> bytes \<Rightarrow> ContentDigestV2 \<Rightarrow> nat \<Rightarrow> ManifestV2Frame list" where
  "file_frames identity entry encoding encoded content digest skip =
     F_EntryStart (entry_start identity entry encoding)
     # map (\<lambda>j. F_EntryBlock (sent_block identity entry encoded content j)) [skip..<nblocks (length content)]
     @ [F_EntryComplete (payload_completion identity entry digest False)]"

lemma filter_upt: "filter (\<lambda>j. skip \<le> j) [0..<n] = [skip..<n]"
  by (induction n) auto

lemma send_file_wp:
  fixes p :: "'z Plane_scheme"
  assumes content: "content_of entry content" and source: "reads mo content" and coded: "encodes el encoding encoded content"
    and plan: "ep_disposition plan = Disp_ReceivePayload" "ep_next_plaintext_block plan = word_of_nat skip" "skip < 2 ^ 64"
    and digest: "known_digest entry = Some (cy_hash (el_crypto el) content)"
    and unchanged: "prepared_open lb (sm_open mo) src = Inr ()" "verify_unchanged lb (sm_end mo) src = Inr ()"
    and p: "pl_sends p = []" "unat (pl_completed p) + length content < 2 ^ 64"
  shows "wp (send_file el lb mo identity entry plan src encoding resumed overall)
    (\<lambda>k t. k = payload_completion identity entry (cy_hash (el_crypto el) content) False
       \<and> pl_sent t = pl_sent p @ file_frames identity entry encoding encoded content (cy_hash (el_crypto el) content) skip)
    (\<lambda>_ _. False) p"
proof -
  let ?q = "p\<lparr>pl_sent := pl_sent p @ [F_EntryStart (entry_start identity entry encoding)]\<rparr>"
  have task: "hash_task lb mo entry src = None"
    using digest by (simp add: hash_task_def)
  have start: "offset_at content 0 = 0"
    by (simp add: offset_at_def)
  have blocks: "wp (send_blocks el mo identity entry (word_of_nat skip) encoding overall None 0 0 None [])
      (blocks_sent identity entry encoded content skip 0 [] ?q) (\<lambda>_ _. False) ?q"
    using send_blocks_wp [OF content source coded plan(3), of 0 ?q identity overall "[]"] p start by simp
  have finish: "wp (bindM (final_digest_of el lb mo identity entry (word_of_nat skip) src resumed overall sent)
         (\<lambda>(digest, reuse).
       bindM (send_frame (F_EntryComplete (payload_completion identity entry digest reuse))) (\<lambda>_.
       returnM (payload_completion identity entry digest reuse))))
      (\<lambda>k t. k = payload_completion identity entry (cy_hash (el_crypto el) content) False
       \<and> pl_sent t = pl_sent p @ file_frames identity entry encoding encoded content (cy_hash (el_crypto el) content) skip)
      (\<lambda>_ _. False) t" if "blocks_sent identity entry encoded content skip 0 [] ?q sent t" for sent and t :: "'z Plane_scheme"
    using that unchanged(2) digest
    by (simp add: blocks_sent_def final_digest_of_def Let_def wp_def bindM_def send_frame_ok file_frames_def filter_upt)
  have "wp (bindM (liftM (prepared_open lb (sm_open mo) src)) (\<lambda>_.
       bindM (send_blocks el mo identity entry (word_of_nat skip) encoding overall None 0 0 None []) (\<lambda>sent.
       bindM (final_digest_of el lb mo identity entry (word_of_nat skip) src resumed overall sent)
         (\<lambda>(digest, reuse).
       bindM (send_frame (F_EntryComplete (payload_completion identity entry digest reuse))) (\<lambda>_.
       returnM (payload_completion identity entry digest reuse))))))
      (\<lambda>k t. k = payload_completion identity entry (cy_hash (el_crypto el) content) False
       \<and> pl_sent t = pl_sent p @ file_frames identity entry encoding encoded content (cy_hash (el_crypto el) content) skip)
      (\<lambda>_ _. False) ?q"
    unfolding wp_bind wp_simps unchanged(1) sum.case
    by (rule wp_mono [OF blocks], drule finish) (simp_all add: wp_bind)
  then show ?thesis
    unfolding send_file_def using p plan(1,2) task
    by (simp add: wp_bind [of "send_frame _"]) (simp add: wp_def send_frame_ok)
qed

end
