(* ===== verification/Engine_Transfer.thy ===== *)
theory Engine_Transfer
  imports Engine_Stream
begin

text \<open>The receiver of such a stream: it takes every block, and its sink gets the pieces in order.\<close>

definition receiving ::
  "nat \<Rightarrow> JobGenerationV2 \<Rightarrow> ManifestEntryV2 \<Rightarrow> EntryEncodingV2 \<Rightarrow> ContentDigestV2 \<Rightarrow> bytes \<Rightarrow> nat \<Rightarrow> 's ReceiverPlane \<Rightarrow> bool" where
  "receiving i identity entry encoding digest content k p \<longleftrightarrow>
     i < length (lg_entries (rx_ledger p)) \<and> lg_identity (rx_ledger p) = identity \<and> pl_saves p = []
     \<and> cp_start (rx_checkpoint i p) = Some (entry_start identity entry encoding)
     \<and> cp_arbiter (rx_checkpoint i p) = Arb_PayloadOpen
     \<and> cp_next_plaintext_block (rx_checkpoint i p) = word_of_nat k
     \<and> cp_plaintext_bytes (rx_checkpoint i p) = offset_at content k
     \<and> cp_content_digest (rx_checkpoint i p) = Some digest
     \<and> unat (pl_completed p) + length (drop (k * unat block_size) content) < 2 ^ 64"

text \<open>The destination takes what is written and verifies the digest; the ledger can be serialised.\<close>

definition sink_takes :: "'s PayloadSink \<Rightarrow> ManifestEntryV2 \<Rightarrow> ContentDigestV2 \<Rightarrow> (EntryBlockV2 \<Rightarrow> 's \<Rightarrow> 's) \<Rightarrow> ('s \<Rightarrow> 's) \<Rightarrow> bool" where
  "sink_takes sk entry digest w v \<longleftrightarrow>
     (\<forall>b s. sk_write_block sk entry b s = (Inr (), w b s)) \<and> (\<forall>s. sk_verify_payload sk entry digest s = (Inr (), v s))"

definition serialises :: "EngineLibs \<Rightarrow> bool" where
  "serialises el \<longleftrightarrow> (\<forall>l. el_ledger_to_vec el l \<noteq> None)"

lemma save_ledger_ok:
  "serialises el \<Longrightarrow> pl_saves p = [] \<Longrightarrow> \<exists>disk. save_ledger el p = (Inr (), p\<lparr>pl_saves := [], pl_disk := disk\<rparr>)"
proof -
  assume "serialises el" and "pl_saves p = []"
  then obtain bs where "el_ledger_to_vec el (rx_ledger p) = Some bs"
    unfolding serialises_def by blast
  then show ?thesis
    using \<open>pl_saves p = []\<close> by (auto simp: save_ledger_def ledger_save_def next_save_def)
qed

lemma wp_save_ok:
  "serialises el \<Longrightarrow> pl_saves p = [] \<Longrightarrow> (\<And>disk. Q () (p\<lparr>pl_saves := [], pl_disk := disk\<rparr>)) \<Longrightarrow> wp (save_ledger el) Q E p"
  using save_ledger_ok [of el p] by (auto simp: wp_def)

definition plain_block :: "JobGenerationV2 \<Rightarrow> ManifestEntryV2 \<Rightarrow> (bytes \<Rightarrow> bytes) \<Rightarrow> bytes \<Rightarrow> nat \<Rightarrow> EntryBlockV2" where
  "plain_block identity entry encoded content k =
     (sent_block identity entry encoded content k)\<lparr>bl_encoded_bytes := piece content k\<rparr>"

lemma piece_u32: "unat (word_of_nat (length (piece content k)) :: u32) = length (piece content k)"
  by (simp add: unat_word_of_nat_small piece_length)

lemma sent_block_valid:
  assumes content: "content_of entry content" and k: "k < nblocks (length content)" and coded: "encodes el encoding encoded content"
    and p: "receiving i identity entry encoding digest content k p"
  shows "validate_block entry (rx_checkpoint i p) (sent_block identity entry encoded content k) = Inr ()"
    and "checked_add (bl_plaintext_offset (sent_block identity entry encoded content k))
      (ucast (bl_plaintext_length (sent_block identity entry encoded content k))) = Some (offset_at content (Suc k))"
proof -
  let ?b = "sent_block identity entry encoded content k"
  note step = offset_at_steps [OF content k]
  have size: "unat (me_plaintext_size entry) = length content" "length content + 4194304 < 2 ^ 64"
    using content by (simp_all add: content_of_def)
  have inside: "k * 4194304 < length content"
    using k unfolding nblocks_less by simp
  have len: "(ucast (bl_plaintext_length ?b) :: u64) = min (me_plaintext_size entry - offset_at content k) block_size"
    by (simp add: word_unat_eq_iff step(4) sent_block_def piece_u32)
  have offset: "bl_plaintext_offset ?b = offset_at content k"
    using step(2) by (simp add: sent_block_def)
  show end_offset: "checked_add (bl_plaintext_offset ?b) (ucast (bl_plaintext_length ?b)) = Some (offset_at content (Suc k))"
    unfolding len offset by (rule step(6))
  have "k < 2 ^ 64"
    using inside size(2) by simp
  then have mul: "checked_mul (bl_block_index ?b) (ucast DEFAULT_MANIFEST_V2_BLOCK_PLAINTEXT_BYTES :: u64) = Some (offset_at content k)"
    using inside size(2) step(2)
    by (simp add: sent_block_def checked_mul_def unat_of_nat_u64 block_size_def [symmetric])
      (simp add: block_size_def DEFAULT_MANIFEST_V2_BLOCK_PLAINTEXT_BYTES_def)
  have enc: "encode_block el encoding (piece content k) = Inr (encoded (piece content k))"
    using coded k by (simp add: encodes_def)
  have "unat (offset_at content (Suc k)) = min (Suc k * 4194304) (length content)"
    using size(2) unfolding offset_at_def by (subst unat_of_nat_u64) simp_all
  then have last_block: "\<not> offset_at content (Suc k) > me_plaintext_size entry"
      "\<not> (offset_at content (Suc k) < me_plaintext_size entry
         \<and> bl_plaintext_length ?b \<noteq> DEFAULT_MANIFEST_V2_BLOCK_PLAINTEXT_BYTES)"
    using size by (auto simp: word_less_nat_alt sent_block_def piece_length word_unat_eq_iff
        DEFAULT_MANIFEST_V2_BLOCK_PLAINTEXT_BYTES_def)
  have "bl_plaintext_length ?b \<noteq> 0" "\<not> bl_plaintext_length ?b > DEFAULT_MANIFEST_V2_BLOCK_PLAINTEXT_BYTES"
    using inside piece_u32 [of content k] by (auto simp: sent_block_def piece_length word_unat_eq_iff word_less_nat_alt
        DEFAULT_MANIFEST_V2_BLOCK_PLAINTEXT_BYTES_def)
  moreover have "encoded (piece content k) \<noteq> []" "\<not> length (encoded (piece content k)) > MAX_MANIFEST_V2_BLOCK_ENCODED_BYTES"
      "encoding = Enc_Identity \<Longrightarrow> encoded (piece content k) = piece content k"
    using enc by (auto simp: encode_block_def split: EntryEncodingV2.splits)
  ultimately show "validate_block entry (rx_checkpoint i p) ?b = Inr ()"
    using p end_offset mul last_block offset piece_u32 [of content k]
    unfolding validate_block_def by (simp add: receiving_def entry_start_def) (simp add: sent_block_def)
qed

lemma wp_on_sink: "f (rx_sink p) = (Inr a, s) \<Longrightarrow> Q a (p\<lparr>rx_sink := s\<rparr>) \<Longrightarrow> wp (on_sink f) Q E p"
  by (simp add: wp_def on_sink_def)

lemma wp_set [simp]: "wp (set_checkpoint i f) Q E p = Q () (p\<lparr>rx_ledger := update_checkpoint i f (rx_ledger p)\<rparr>)"
  by (simp add: wp_def set_checkpoint_def)

lemma wp_emit [simp]: "wp (emit event) Q E p = Q () (p\<lparr>pl_events := pl_events p @ [event]\<rparr>)"
  by (simp add: wp_def emit_def)

lemma wp_add_completed:
  assumes "unat (pl_completed p) + unat n < 2 ^ 64"
    and "Q () (p\<lparr>pl_completed := pl_completed p + n, pl_events := pl_events p @ [On_progress (pl_completed p + n) overall]\<rparr>)"
  shows "wp (add_completed n overall) Q E p"
  using assms by (simp add: wp_def add_completed_ok)

lemma receive_block_runs:
  assumes content: "content_of entry content" and k: "k < nblocks (length content)" and coded: "encodes el encoding encoded content"
    and laws: "zstd_law el" "serialises el" "sink_takes sk entry digest w v"
    and p: "receiving i identity entry encoding digest content k p"
  shows "wp (receive_block el sk entry i overall (sent_block identity entry encoded content k))
    (\<lambda>_ t. receiving i identity entry encoding digest content (Suc k) t
       \<and> rx_sink t = w (plain_block identity entry encoded content k) (rx_sink p) \<and> pl_inbox t = pl_inbox p) (\<lambda>_ _. False) p"
proof -
  let ?b = "sent_block identity entry encoded content k" and ?c = "rx_checkpoint i p"
  have start: "cp_start ?c = Some (entry_start identity entry encoding)" "cp_arbiter ?c = Arb_PayloadOpen"
      "cp_next_plaintext_block ?c = word_of_nat k" "i < length (lg_entries (rx_ledger p))" "pl_saves p = []"
    using p by (simp_all add: receiving_def)
  have "encode_block el encoding (piece content k) = Inr (encoded (piece content k))"
    using coded k by (simp add: encodes_def)
  then have decoded: "decode_block el encoding ?b = Inr (plain_block identity entry encoded content k)"
    unfolding plain_block_def
    by (intro decode_encode_block [OF laws(1)]) (simp_all add: sent_block_def piece_u32)
  have len: "unat (ucast (bl_plaintext_length ?b) :: u64) = length (piece content k)"
    by (simp add: sent_block_def piece_u32)
  have rest: "length (drop (k * unat block_size) content)
      = length (piece content k) + length (drop (Suc k * unat block_size) content)"
    unfolding piece_rest [of content k, symmetric] by simp
  have written: "sk_write_block sk entry b st = (Inr (), w b st)" for b st
    using laws(3) by (simp add: sink_takes_def)
  have small: "unat (pl_completed p) + unat (ucast (bl_plaintext_length ?b) :: u64) < 2 ^ 64"
    using p rest len by (simp add: receiving_def)
  have "unat (pl_completed p + ucast (bl_plaintext_length ?b)) = unat (pl_completed p) + length (piece content k)"
    using small len by (simp add: unat_word_ariths)
  then have sum: "unat (pl_completed p + ucast (bl_plaintext_length ?b)) + length (drop (Suc k * unat block_size) content) < 2 ^ 64"
    using p rest by (simp add: receiving_def del: block_size_nat)
  show ?thesis
    unfolding receive_block_def
    apply (simp add: wp_bind sent_block_valid [OF content k coded p] start entry_start_def decoded del: block_size_nat)
    apply (rule wp_on_sink [OF written])
    apply (simp add: wp_bind start offset_at_steps(7) [OF content k] sent_block_valid(2) [OF content k coded p] del: block_size_nat of_nat_Suc)
    apply (rule wp_save_ok [OF laws(2)])
     apply (simp add: start)
    apply (simp add: wp_bind)
    apply (rule wp_add_completed)
     apply (simp add: small [simplified])
    using p sum by (simp add: receiving_def)
qed

lemma wp_return_fun [simp]: "wp (returnM a) Q E = Q a"
  by (simp add: fun_eq_iff)

lemma wp_verified:
  "on_sink f q = (Inr a, q') \<Longrightarrow> wp m Q E q'
     \<Longrightarrow> wp (\<lambda>p. case on_sink f p of (Inl e, p') \<Rightarrow> failed e p' | (Inr _, p') \<Rightarrow> m p') Q E q"
  by (simp add: wp_def)

lemma wp_then_emit:
  assumes "wp m (\<lambda>a t. Q a (t\<lparr>pl_events := pl_events t @ [event]\<rparr>)) (\<lambda>_ _. False) p"
  shows "wp (\<lambda>p. case m p of (r, p') \<Rightarrow> (r, snd (emit event p' :: (unit + unit) \<times> 's ReceiverPlane))) Q (\<lambda>_ _. False) p"
  using assms by (auto simp: wp_def emit_def split: prod.splits sum.splits)

text \<open>The entry is complete and its payload was chosen.\<close>

definition payload_received :: "nat \<Rightarrow> EntryCompleteV2 \<Rightarrow> 's \<Rightarrow> 's ReceiverPlane \<Rightarrow> bool" where
  "payload_received i k s t \<longleftrightarrow> rx_sink t = s \<and> cp_completion (rx_checkpoint i t) = Some k
     \<and> cp_arbiter (rx_checkpoint i t) = Arb_PayloadCompleteChosen"

lemma completion_runs:
  assumes laws: "serialises el" "sink_takes sk entry digest w v"
    and q: "cp_arbiter (rx_checkpoint i q) = Arb_PayloadOpen" "i < length (lg_entries (rx_ledger q))" "pl_saves q = []"
      "cp_completion (rx_checkpoint i q) = Some k" "cp_plaintext_bytes (rx_checkpoint i q) = me_plaintext_size entry"
    and k: "co_completion_choice k = Comp_PayloadComplete"
  shows "wp (receive_file_completion el sk entry i digest) (\<lambda>_. payload_received i k (v (rx_sink q))) (\<lambda>_ _. False) q"
proof -
  have verified: "on_sink (sk_verify_payload sk entry digest) q = (Inr (), q\<lparr>rx_sink := v (rx_sink q)\<rparr>)"
    using laws(2) by (simp add: sink_takes_def on_sink_def)
  show ?thesis
    unfolding receive_file_completion_def
    apply (simp add: wp_bind q k)
    apply (rule wp_verified [OF verified])
    apply (simp add: wp_bind)
    apply (rule wp_save_ok [OF laws(1)])
     apply (simp add: q)
    apply (simp add: wp_bind)
    apply (rule wp_save_ok [OF laws(1)])
     apply simp
    apply (simp add: payload_received_def q)
    done
qed

lemma receive_complete_runs:
  assumes content: "content_of entry content"
    and laws: "serialises el" "sink_takes sk entry digest w v"
    and p: "receiving i identity entry encoding digest content (nblocks (length content)) p"
  shows "wp (receive_complete el sk entry i (payload_completion identity entry digest False))
    (\<lambda>_. payload_received i (payload_completion identity entry digest False) (v (rx_sink p))) (\<lambda>_ _. False) p"
proof -
  let ?c = "rx_checkpoint i p" and ?k = "payload_completion identity entry digest False"
  have "\<not> nblocks (length content) < nblocks (length content)" by simp
  then have "length content \<le> nblocks (length content) * 4194304"
    unfolding nblocks_less by simp
  then have bytes: "cp_plaintext_bytes ?c = me_plaintext_size entry"
    using p content by (simp add: receiving_def offset_at_def content_of_def word_unat_eq_iff unat_of_nat_u64)
  have state: "cp_arbiter ?c = Arb_PayloadOpen" "i < length (lg_entries (rx_ledger p))" "pl_saves p = []"
      "cp_content_digest ?c = Some digest" "lg_identity (rx_ledger p) = identity"
    using p by (simp_all add: receiving_def)
  have k: "co_identity ?k = identity" "co_entry_id ?k = me_entry_id entry" "co_final_size ?k = me_plaintext_size entry"
      "co_final_digest ?k = digest" "co_completion_choice ?k = Comp_PayloadComplete"
    by (simp_all add: payload_completion_def)
  show ?thesis
    unfolding receive_complete_def
    apply (simp add: wp_bind state k set_or_equal_digest_def)
    apply (rule wp_then_emit)
    apply (rule wp_mono [OF completion_runs [OF laws]])
    apply (simp_all add: state bytes k)
    apply (simp_all add: payload_received_def k)
    done
qed

text \<open>The loop of \<open>receive_file\<close> on the rest of the stream.\<close>

lemma receive_stream_runs:
  fixes p :: "'s ReceiverPlane"
  assumes content: "content_of entry content" and coded: "encodes el encoding encoded content"
    and laws: "zstd_law el" "serialises el" "sink_takes sk entry digest w v"
  shows "k \<le> nblocks (length content) \<Longrightarrow> receiving i identity entry encoding digest content k p \<Longrightarrow>
    wp (receive_file_loop el sk entry i overall
        (map Some (map (\<lambda>j. F_EntryBlock (sent_block identity entry encoded content j)) [k..<nblocks (length content)]
          @ [F_EntryComplete (payload_completion identity entry digest False)])))
      (\<lambda>_. payload_received i (payload_completion identity entry digest False)
         (v (foldl (\<lambda>s j. w (plain_block identity entry encoded content j) s) (rx_sink p) [k..<nblocks (length content)])))
      (\<lambda>_ _. False) p"
proof (induction "nblocks (length content) - k" arbitrary: k p)
  case 0
  then have "k = nblocks (length content)" by simp
  moreover have "receiving i identity entry encoding digest content k (p\<lparr>pl_inbox := []\<rparr>)"
    using 0 by (simp add: receiving_def)
  ultimately show ?case
    using receive_complete_runs [OF content laws(2,3), of i identity encoding "p\<lparr>pl_inbox := []\<rparr>"]
    by (simp add: wp_receive_file_loop receive_file_frame_def wp_bind del: receive_file_loop.simps)
next
  case (Suc d)
  then have k: "k < nblocks (length content)" and later: "d = nblocks (length content) - Suc k" "Suc k \<le> nblocks (length content)"
    by simp_all
  let ?rest = "map Some (map (\<lambda>j. F_EntryBlock (sent_block identity entry encoded content j)) [Suc k..<nblocks (length content)]
          @ [F_EntryComplete (payload_completion identity entry digest False)])"
  have "receiving i identity entry encoding digest content k (p\<lparr>pl_inbox := ?rest\<rparr>)"
    using Suc.prems by (simp add: receiving_def)
  from receive_block_runs [OF content k coded laws this, of overall]
  have "wp (receive_block el sk entry i overall (sent_block identity entry encoded content k))
      (\<lambda>_. wp (receive_file_loop el sk entry i overall ?rest)
        (\<lambda>_. payload_received i (payload_completion identity entry digest False)
         (v (foldl (\<lambda>s j. w (plain_block identity entry encoded content j) s) (rx_sink p) [k..<nblocks (length content)])))
        (\<lambda>_ _. False)) (\<lambda>_ _. False) (p\<lparr>pl_inbox := ?rest\<rparr>)"
  proof (rule wp_mono)
    fix t :: "'s ReceiverPlane"
    assume "receiving i identity entry encoding digest content (Suc k) t
       \<and> rx_sink t = w (plain_block identity entry encoded content k) (rx_sink (p\<lparr>pl_inbox := ?rest\<rparr>))
       \<and> pl_inbox t = pl_inbox (p\<lparr>pl_inbox := ?rest\<rparr>)"
    then show "wp (receive_file_loop el sk entry i overall ?rest)
        (\<lambda>_. payload_received i (payload_completion identity entry digest False)
         (v (foldl (\<lambda>s j. w (plain_block identity entry encoded content j) s) (rx_sink p) [k..<nblocks (length content)])))
        (\<lambda>_ _. False) t"
      using Suc.hyps(1) [OF later, of t] k by (simp add: upt_conv_Cons)
  qed simp
  then show ?case
    using k by (simp add: upt_conv_Cons wp_receive_file_loop receive_file_frame_def wp_bind del: receive_file_loop.simps)
qed

end
