(* ===== verification/Engine_Properties.thy ===== *)
theory Engine_Properties
  imports Engine_Transfer Delivery_Properties
begin

text \<open>The properties of the data plane, with a job of two entries as the sample.\<close>

section \<open>Samples\<close>

definition engine_manifest :: ManifestV2 where
  "engine_manifest =
     \<lparr>mf_job_id = replicate 16 7, mf_generation = 1, mf_selection_revision = 1, mf_compression_policy = Never,
      mf_roots = [\<lparr>mr_root_id = 0, mr_root_entry_id = 0, mr_requested_name = ascii ''d'', mr_completeness = Complete\<rparr>],
      mf_entries =
        [\<lparr>me_entry_id = 0, me_root_id = 0, me_parent_entry_id = None, me_component = ascii ''d'',
          me_kind = Directory, me_plaintext_size = 0, me_content_digest = Deferred\<rparr>,
         \<lparr>me_entry_id = 1, me_root_id = 0, me_parent_entry_id = Some 0, me_component = ascii ''a'',
          me_kind = RegularFile, me_plaintext_size = 3, me_content_digest = Known (replicate 32 0)\<rparr>],
      mf_totals = \<lparr>mt_file_count = 1, mt_directory_count = 1, mt_total_plaintext_bytes = 3\<rparr>\<rparr>"

definition engine_offer :: ManifestOfferV2 where
  "engine_offer = \<lparr>of_structural_digest = replicate 32 0, of_manifest = engine_manifest\<rparr>"

definition engine_accept :: ManifestAcceptV2 where
  "engine_accept = \<lparr>ac_identity = sample_identity, ac_manifest_digest = replicate 32 0, ac_accept_nonce = replicate 32 8,
     ac_proof_capability = replicate 32 4, ac_plan_revision = 1,
     ac_root_plans = [\<lparr>rp_root_id = 0, rp_planned_name = ascii ''d''\<rparr>],
     ac_entry_plans = [\<lparr>ep_entry_id = 0, ep_disposition = Disp_ReceivePayload, ep_next_plaintext_block = 0\<rparr>,
       \<lparr>ep_entry_id = 1, ep_disposition = Disp_ReceivePayload, ep_next_plaintext_block = 0\<rparr>]\<rparr>"

definition engine_ledger :: ReceiverDataPlaneLedgerV2 where
  "engine_ledger = \<lparr>lg_schema_version = 1, lg_identity = sample_identity, lg_manifest_digest = replicate 32 0,
     lg_accept = engine_accept, lg_accept_body_digest = replicate 32 0,
     lg_entries = [\<lparr>cp_entry_id = 0, cp_start = None, cp_arbiter = Arb_PayloadOpen, cp_next_plaintext_block = 0,
         cp_plaintext_bytes = 0, cp_content_digest = None, cp_completion = None, cp_result = None, cp_payload_retired = False\<rparr>,
       \<lparr>cp_entry_id = 1, cp_start = None, cp_arbiter = Arb_PayloadOpen, cp_next_plaintext_block = 0,
         cp_plaintext_bytes = 0, cp_content_digest = Some (replicate 32 0), cp_completion = None, cp_result = None,
         cp_payload_retired = False\<rparr>],
     lg_sender_completion_set_digest = None\<rparr>"

definition engine_libs :: EngineLibs where
  "engine_libs = \<lparr>el_crypto = sample_crypto, el_compress = (\<lambda>_. None), el_decompress = (\<lambda>_ _. None),
     el_ledger_to_vec = (\<lambda>l. if l = engine_ledger then Some [1] else None),
     el_ledger_from_slice = (\<lambda>_. Some engine_ledger), el_record_to_vec = (\<lambda>_. Some [])\<rparr>"

lemma all_less_two: "(\<forall>i < (2::nat). P i) \<longleftrightarrow> P 0 \<and> P 1" "(\<forall>i < (Suc 0). P i) \<longleftrightarrow> P 0"
  by (auto simp: less_Suc_eq numeral_eq_Suc)

lemma engine_manifest_ok: "manifest_ok any_nfc engine_manifest"
proof -
  have "header_ok engine_manifest"
    by (simp add: header_ok_def manifest_limits engine_manifest_def)
  moreover have "root_ok any_nfc 2 0 (mf_roots engine_manifest ! 0)"
    by (simp add: root_ok_def component_ok_def engine_manifest_def ascii_def chars_def
        manifest_limits is_control_def of_char_def any_nfc_def)
  moreover have "\<forall>i < 2. entry_ok any_nfc engine_manifest i"
    by (simp add: all_less_two entry_ok_def component_ok_def engine_manifest_def ascii_def chars_def any_nfc_def
        manifest_limits is_control_def of_char_def entry_path.simps path_cost_def)
  moreover have "forest_order engine_manifest = [0, 1]"
    by (simp add: forest_order_def engine_manifest_def preorder.simps sort_children_def
        children_of_def child_of_def upt_rec ascii_def of_char_def)
  moreover have "distinct (map sibling_key (mf_entries engine_manifest))" "distinct (map mr_root_entry_id (mf_roots engine_manifest))"
    by (simp_all add: engine_manifest_def sibling_key_def ascii_def)
  moreover have "totals_ok engine_manifest"
    by (simp add: engine_manifest_def totals_ok_def files_in_def dirs_in_def plain_sum_def)
  moreover have "length (mf_entries engine_manifest) = 2" "length (mf_roots engine_manifest) = 1"
    by (simp_all add: engine_manifest_def)
  ultimately show ?thesis
    by (simp add: manifest_ok_def all_less_two upt_rec)
qed

lemma engine_offer_valid: "offer_valid engine_libs engine_offer"
  unfolding offer_valid_iff using engine_manifest_ok
  by (simp add: engine_libs_def sample_crypto_def engine_offer_def zero_hash_def)

lemma engine_accept_digest: "frame_body_digest engine_libs (F_Accept engine_accept) = Inr (replicate 32 0)"
proof -
  have wf: "frame_wf (F_Accept engine_accept)"
    by (simp add: frame_wf_def accept_wf_def engine_accept_def DIGEST_BYTES_def NONCE_BYTES_def utf8_valid_def
        ascii_def of_char_def)
  have "\<exists>p. encode_payload zero_hash any_nfc (F_Accept engine_accept) = Inr (p, T_Accept)"
    by (simp add: encode_payload_def encode_accept_def engine_accept_def encode_root_plan_def encode_entry_plan_def
        frame_component_ok_def manifest_limits ascii_def of_char_def chars_def is_control_def DIGEST_BYTES_def push_count_def)
  then obtain p where p: "encode_payload zero_hash any_nfc (F_Accept engine_accept) = Inr (p, T_Accept)"
    by blast
  then have "encode_manifest_v2_frame zero_hash any_nfc (F_Accept engine_accept) = Inr (frame_header T_Accept (length p) @ p)"
    using payload_fits [OF p wf] maximum_payload_total [of T_Accept] by (fastforce simp: encode_frame_iff)
  then show ?thesis
    by (simp add: frame_body_digest_def canonical_manifest_v2_frame_body_digest_def engine_libs_def sample_crypto_def zero_hash_def)
qed

lemma engine_ledger_new: "ledger_new engine_libs engine_offer engine_accept = Inr engine_ledger"
  using engine_accept_digest
  by (simp add: ledger_new_def validate_accept_def engine_offer_def engine_manifest_def engine_accept_def
      enumerate_eq_zip accept_entry_ok_def total_blocks_def checked_add_def known_digest_def sample_identity_def
      engine_ledger_def checkpoint_new_def saturating_mul_def checked_mul_def RECEIVER_DATA_PLANE_SCHEMA_VERSION_def
      block_size_def DEFAULT_MANIFEST_V2_BLOCK_PLAINTEXT_BYTES_def)

lemma engine_ledger_ok: "ledger_ok engine_libs engine_offer engine_ledger"
  by (rule ledger_new_ok [OF engine_offer_valid engine_ledger_new]) (auto simp: engine_accept_def)

lemma engine_identity: "offer_identity engine_offer = sample_identity"
  by (simp add: offer_identity_def engine_offer_def engine_manifest_def sample_identity_def)

section \<open>The receiver\<close>

text \<open>
  C7: whatever arrives at the receiver, whatever its sink and its gate answer, and whichever send
  or save fails, \<open>receive\<close> keeps the ledger valid in memory and in the store: the store holds a
  ledger that loads, passes \<open>validate\<close> and satisfies the invariant, so a run that broke off
  anywhere can be resumed. Entries that were decided before stay decided in the same way, and
  results once complete never change. When it returns a summary, \<open>completed_summary\<close> of the ledger
  gives the same summary again. Of \<open>serde_json\<close> it uses that a written ledger reads back.
\<close>

theorem receive_keeps_ledger:
  assumes valid: "offer_valid el offer" and ok: "ledger_ok el offer (rx_ledger p)"
    and json: "\<And>l bs. el_ledger_to_vec el l = Some bs \<Longrightarrow> el_ledger_from_slice el bs = Some l"
    and stored: "el_ledger_to_vec el (rx_ledger p) = Some bs" "pl_disk p (ledger_path (offer_identity offer)) = Some bs"
    and run: "receive el sk gate offer p = (r, p')"
  shows "ledger_ok el offer (rx_ledger p') \<and> keeps_decisions (rx_ledger p) (rx_ledger p')
    \<and> (\<exists>l. ledger_load el True (offer_identity offer) (pl_disk p') = Inr (Some l)
         \<and> ledger_validate el l (of_manifest offer) = Inr () \<and> ledger_ok el offer l \<and> keeps_decisions (rx_ledger p) l)
    \<and> (\<forall>summary. r = Inr summary \<longrightarrow> completed_summary (rx_ledger p') = Some summary)"
proof -
  have "ledger_disk_ok el offer (rx_ledger p) (pl_disk p)"
    using stored ok by (auto simp: ledger_disk_ok_def rx_good_def keeps_decisions_refl)
  then have "wp (receive el sk gate offer)
      (\<lambda>a t. ledger_disk_ok el offer (rx_ledger p) (pl_disk t) \<and> summarised el offer (rx_ledger p) a (rx_ledger t))
      (\<lambda>e t. ledger_disk_ok el offer (rx_ledger p) (pl_disk t) \<and> rx_good el offer (rx_ledger p) (rx_ledger t)) p"
    using receive_wp [OF valid ok, of sk gate] by (simp add: rx_wp_def)
  then have good: "rx_good el offer (rx_ledger p) (rx_ledger p')" and disk: "ledger_disk_ok el offer (rx_ledger p) (pl_disk p')"
      and summary: "\<forall>summary. r = Inr summary \<longrightarrow> completed_summary (rx_ledger p') = Some summary"
    using run by (cases r; simp add: wp_def summarised_def)+
  obtain l where "ledger_load el True (offer_identity offer) (pl_disk p') = Inr (Some l)" "rx_good el offer (rx_ledger p) l"
    using disk json by (auto simp: ledger_disk_ok_def ledger_load_def)
  then show ?thesis
    using good summary ledger_ok_validates [OF valid] by (auto simp: rx_good_def)
qed

definition engine_sink :: "bytes PayloadSink" where
  "engine_sink = \<lparr>sk_begin_entry = (\<lambda>_ _ _. returnM ()), sk_write_block = (\<lambda>_ b s. (Inr (), s @ bl_encoded_bytes b)),
     sk_try_choose_reuse = (\<lambda>_ _. returnM False), sk_verify_payload = (\<lambda>_ _. returnM ()),
     sk_stage_directory = (\<lambda>_. returnM ()), sk_commit_job = (\<lambda>_ _. returnM []), sk_retire_payload = (\<lambda>_. returnM ())\<rparr>"

definition engine_plane :: "bytes ReceiverPlane" where
  "engine_plane = \<lparr>pl_inbox = [Some (F_EntryStart (entry_start sample_identity (mf_entries engine_manifest ! 0) Enc_Identity))],
     pl_sent = [], pl_sends = [], pl_saves = [], pl_disk = [ledger_path sample_identity \<mapsto> [1]], pl_events = [],
     pl_completed = 0, rx_ledger = engine_ledger, rx_sink = []\<rparr>"

theorem receive_keeps_ledger_witness:
  "\<exists>l. ledger_load engine_libs True (offer_identity engine_offer)
      (pl_disk (snd (receive engine_libs engine_sink noop_result_gate engine_offer engine_plane))) = Inr (Some l)
    \<and> ledger_validate engine_libs l engine_manifest = Inr ()"
proof -
  obtain r p' where run: "receive engine_libs engine_sink noop_result_gate engine_offer engine_plane = (r, p')"
    by (cases "receive engine_libs engine_sink noop_result_gate engine_offer engine_plane")
  have "of_manifest engine_offer = engine_manifest" "rx_ledger engine_plane = engine_ledger"
    by (simp_all add: engine_offer_def engine_plane_def)
  moreover have "el_ledger_to_vec engine_libs engine_ledger = Some [1]"
      "pl_disk engine_plane (ledger_path (offer_identity engine_offer)) = Some [1]"
      "\<And>l bs. el_ledger_to_vec engine_libs l = Some bs \<Longrightarrow> el_ledger_from_slice engine_libs bs = Some l"
    by (auto simp: engine_libs_def engine_plane_def engine_identity split: if_splits)
  ultimately show ?thesis
    using receive_keeps_ledger [OF engine_offer_valid _ _ _ _ run, of "[1]"] engine_ledger_ok run by auto
qed

section \<open>Resuming\<close>

text \<open>
  C17: a sender in the phase \<open>Transferring\<close> that committed the accept of the ledger accepts the resume
  status the receiver derives from it, whatever the run before had reached: boundaries, arbiters,
  digests and results pass \<open>validate_resume_status\<close>, and the bytes already transferred are counted
  without overflow and are at most the total of the manifest. The entries were started with the
  default block size, as this sender does.
\<close>

theorem resume_status_accepted:
  assumes "offer_valid el offer" and "ledger_ok el offer l" and "default_blocks l"
    and "sd_identity r = lg_identity l" "sd_accept r = Some (lg_accept l)"
      "sd_accept_body_digest r = Some (lg_accept_body_digest l)" "sd_phase r = Transferring"
  shows "validate_resume_status el (of_manifest offer) r (resume_status l) = Inr ()
    \<and> (\<exists>n. resume_plaintext_bytes (of_manifest offer) (resume_status l) = Inr n
         \<and> n \<le> mt_total_plaintext_bytes (mf_totals (of_manifest offer)))"
  using resume_status_valid [OF assms(2-7)] resume_bytes_total [OF assms(1-3)] by simp

definition engine_record :: SenderDeliveryRecordV2 where
  "engine_record = sample_sender\<lparr>sd_phase := Transferring, sd_accept := Some engine_accept,
     sd_accept_body_digest := Some (replicate 32 0)\<rparr>"

lemma engine_ledger_sels:
  "lg_identity engine_ledger = sample_identity" "lg_accept engine_ledger = engine_accept"
  "lg_accept_body_digest engine_ledger = replicate 32 0" "default_blocks engine_ledger"
  by (simp_all add: engine_ledger_def default_blocks_def)

theorem resume_status_accepted_witness:
  "validate_resume_status engine_libs engine_manifest engine_record (resume_status engine_ledger) = Inr ()"
proof -
  have "of_manifest engine_offer = engine_manifest"
    by (simp add: engine_offer_def)
  then show ?thesis
    using resume_status_accepted [OF engine_offer_valid engine_ledger_ok, of engine_record] engine_ledger_sels
    by (simp add: engine_record_def sample_sender_def)
qed

lemma resume_entry_result: "re_entry_result (resume_entry c) = cp_result c"
  by (simp add: resume_entry_def)

text \<open>
  C18: for an entry that the receiver had decided, the completion that a resumed sender takes from
  the resume status, from the entry's result or from its checkpoint, is the one the receiver
  itself puts into the set of completions, so both ends hash the same set.
\<close>

theorem resumed_completions_agree:
  assumes "ledger_ok el offer l" and "i < length (mf_entries (of_manifest offer))"
    and "cp_arbiter (lg_entries l ! i) \<noteq> Arb_PayloadOpen"
  shows "\<exists>k. (case cp_result (lg_entries l ! i) of
       Some r \<Rightarrow> completion_from_result el (mf_entries (of_manifest offer) ! i) r
     | None \<Rightarrow> completion_from_resume_checkpoint el (lg_identity l) (mf_entries (of_manifest offer) ! i) (resume_entry (lg_entries l ! i)))
       = Inr k
     \<and> decided_completion (lg_identity l) (mf_entries (of_manifest offer) ! i) (lg_entries l ! i) = Inr k"
  unfolding ledger_okD(1) [OF assms(1)]
  using resumed_completion_agrees [OF ledger_okD(4) [OF assms(1,2)] assms(3)]
  by (simp add: resumed_completion_def resume_entry_result)

definition engine_completed :: ReceiverDataPlaneLedgerV2 where
  "engine_completed = update_checkpoint 0 (\<lambda>c. c\<lparr>cp_arbiter := Arb_PayloadCompleteChosen,
     cp_completion := Some (directory_completion engine_libs sample_identity (mf_entries engine_manifest ! 0))\<rparr>) engine_ledger"

lemma engine_completed_ok: "ledger_ok engine_libs engine_offer engine_completed"
  unfolding engine_completed_def
proof (rule update_checkpoint_ok [OF engine_ledger_ok])
  have "me_kind (mf_entries (of_manifest engine_offer) ! 0) = Directory"
    by (simp add: engine_offer_def engine_manifest_def)
  with checkpoint_payload_ok [OF ledger_okD(4) [OF engine_ledger_ok], of 0
      "directory_completion engine_libs sample_identity (mf_entries engine_manifest ! 0)"]
  show "checkpoint_ok engine_libs (offer_identity engine_offer) (mf_entries (of_manifest engine_offer) ! 0)
      (ac_entry_plans (lg_accept engine_ledger) ! 0)
      ((lg_entries engine_ledger ! 0)\<lparr>cp_arbiter := Arb_PayloadCompleteChosen,
         cp_completion := Some (directory_completion engine_libs sample_identity (mf_entries engine_manifest ! 0))\<rparr>)"
    by (simp add: directory_completion_def engine_offer_def engine_manifest_def engine_ledger_def offer_identity_def
        sample_identity_def)
qed (simp add: engine_ledger_def)

theorem resumed_completions_agree_witness:
  "\<exists>k. completion_from_resume_checkpoint engine_libs sample_identity (mf_entries engine_manifest ! 0)
      (resume_entry (lg_entries engine_completed ! 0)) = Inr k
    \<and> decided_completion sample_identity (mf_entries engine_manifest ! 0) (lg_entries engine_completed ! 0) = Inr k"
  using resumed_completions_agree [OF engine_completed_ok, of 0]
  by (simp add: engine_offer_def engine_completed_def engine_ledger_def engine_manifest_def)

section \<open>The sender's results\<close>

text \<open>
  The summary a sender commits holds one result per entry, numbered by position: \<open>recv_results\<close> takes
  only the result of the entry it waits for.
\<close>

lemma send_entries_length:
  "send_entries el lb mo job identity accept status overall hasher entries p = (Inr (hasher', completions), p')
     \<Longrightarrow> length completions = length entries"
  by (induction entries arbitrary: hasher p completions) (auto simp: bindM_Inr_iff split: prod.splits)

lemma recv_results_numbered:
  "recv_results identity pairs p = (Inr results, p') \<Longrightarrow> length results = length pairs
     \<and> (\<forall>i < length results. er_identity (results ! i) = identity \<and> er_entry_id (results ! i) = me_entry_id (fst (pairs ! i)))"
proof (induction pairs arbitrary: p results)
  case Nil
  then show ?case by simp
next
  case (Cons pair rest)
  obtain entry completion where pair: "pair = (entry, completion)" by force
  have waited: "er_identity result = identity \<and> er_entry_id result = me_entry_id entry"
    if "recv_entry_result identity (me_entry_id entry) q = (Inr result, q')" for result q q'
    using that unfolding recv_entry_result_def bindM_Inr_iff
    by (elim exE conjE) (simp split: ManifestV2Frame.split_asm if_splits)
  from Cons.prems obtain result more q where "er_identity result = identity" "er_entry_id result = me_entry_id entry"
    and "recv_results identity rest q = (Inr more, p')" and "results = result # more"
    by (auto simp: pair bindM_Inr_iff dest!: waited)
  with Cons.IH show ?case by (auto simp: pair nth_Cons less_Suc_eq_0_disj split: nat.split)
qed

lemma send_payload_summary_sound:
  assumes "manifest_ok nfc manifest"
    and "send_payload el lb mo job manifest accept status body_digest p = (Inr summary, p')"
  shows "sound_call (Call_Results summary)"
proof -
  let ?entries = "mf_entries manifest"
  obtain completions q where "length completions = length ?entries"
    and results: "recv_results (ac_identity accept) (zip ?entries completions) q = (Inr (ss_entry_results summary), p')"
    and "ss_identity summary = ac_identity accept"
    using assms(2) by (auto simp: send_payload_def Let_def bindM_Inr_iff dest!: send_entries_length)
  then show ?thesis
    using recv_results_numbered [OF results] assms(1)
    by (auto simp: sound_call_def results_positional_def list_all_length nth_enumerate_eq manifest_ok_def
        header_ok_def entry_ok_def Let_def)
qed

section \<open>A file from end to end\<close>

text \<open>
  C8: a file whose digest the manifest holds and that does not change while it is read is sent
  from the block the receiver has reached, and the receiver at that boundary takes the frames
  that were sent: it returns with the completion the sender counted, having handed its sink, in
  order, blocks whose bytes together are the content from the boundary on, whichever encoding was
  negotiated. The sink takes what it is given, sends and saves succeed, and of \<open>zstd\<close> it uses that
  decompression undoes compression.
\<close>

theorem file_transfer_exact:
  assumes "content_of entry content" and "reads mo content" and "encodes el encoding encoded content"
    and "zstd_law el" and "serialises el" and "sink_takes sk entry (cy_hash (el_crypto el) content) w v"
    and "ep_disposition plan = Disp_ReceivePayload" "ep_next_plaintext_block plan = word_of_nat k"
    and "k \<le> nblocks (length content)" and "known_digest entry = Some (cy_hash (el_crypto el) content)"
    and "prepared_open lb (sm_open mo) src = Inr ()" "verify_unchanged lb (sm_end mo) src = Inr ()"
    and "pl_sends ps = []" "pl_sent ps = []" "unat (pl_completed ps) + length content < 2 ^ 64"
    and "receiving i identity entry encoding (cy_hash (el_crypto el) content) content k pr"
  shows "\<exists>completion ps' frames pr' blocks.
    send_file el lb mo identity entry plan src encoding resumed overall ps = (Inr completion, ps')
    \<and> pl_sent ps' = F_EntryStart (entry_start identity entry encoding) # frames
    \<and> receive_file el sk entry plan i overall (pr\<lparr>pl_inbox := map Some frames\<rparr>) = (Inr (), pr')
    \<and> cp_completion (lg_entries (rx_ledger pr') ! i) = Some completion
    \<and> rx_sink pr' = v (foldl (\<lambda>s b. w b s) (rx_sink pr) blocks)
    \<and> concat (map bl_encoded_bytes blocks) = drop (k * unat block_size) content"
proof -
  let ?digest = "cy_hash (el_crypto el) content"
  let ?n = "nblocks (length content)" and ?k = "payload_completion identity entry ?digest False"
  let ?frames = "map (\<lambda>j. F_EntryBlock (sent_block identity entry encoded content j)) [k..<?n] @ [F_EntryComplete ?k]"
  have "\<not> ?n < nblocks (length content)" and "k - 1 < ?n \<or> k = 0"
    using assms(9) by auto
  then have "k < 2 ^ 64"
    using assms(1) unfolding nblocks_less content_of_def by auto
  note sent = send_file_wp [OF assms(1-3,7,8) this assms(10-13,15), of identity resumed overall]
  obtain ps' where sends: "send_file el lb mo identity entry plan src encoding resumed overall ps = (Inr ?k, ps')"
      "pl_sent ps' = F_EntryStart (entry_start identity entry encoding) # ?frames"
    using sent assms(14) by (auto simp: wp_def file_frames_def split: prod.splits sum.splits)
  have "receiving i identity entry encoding ?digest content k (pr\<lparr>pl_inbox := map Some ?frames\<rparr>)"
    using assms(16) by (simp add: receiving_def)
  note got = receive_stream_runs [OF assms(1,3-6,9) this, of overall]
  obtain pr' where receives: "receive_file el sk entry plan i overall (pr\<lparr>pl_inbox := map Some ?frames\<rparr>) = (Inr (), pr')"
      "payload_received i ?k (v (foldl (\<lambda>s j. w (plain_block identity entry encoded content j) s) (rx_sink pr) [k..<?n])) pr'"
    using got assms(7) by (auto simp: wp_def receive_file_def split: prod.splits sum.splits)
  let ?blocks = "map (plain_block identity entry encoded content) [k..<?n]"
  have "concat (map bl_encoded_bytes ?blocks) = drop (k * unat block_size) content"
    using pieces_concat [OF assms(9)] by (simp add: plain_block_def comp_def)
  moreover have "rx_sink pr' = v (foldl (\<lambda>s b. w b s) (rx_sink pr) ?blocks)" "cp_completion (lg_entries (rx_ledger pr') ! i) = Some ?k"
    using receives(2) by (simp_all add: payload_received_def foldl_map)
  ultimately show ?thesis
    using sends receives(1) by blast
qed

definition engine_job_libs :: JobLibs where
  "engine_job_libs = \<lparr>jl_hash = zero_hash, jl_nfc = any_nfc, jl_to_nfc = (\<lambda>c. c)\<rparr>"

definition engine_os :: JobOs where
  "engine_os = \<lparr>os_now = 7, os_symlink_metadata = (\<lambda>_. Inr \<lparr>md_kind = FK_File, md_len = 3, md_modified = None\<rparr>),
     os_metadata = (\<lambda>_. Inl Io_NotFound), os_canonicalize = Inr, os_read_dir = (\<lambda>_. Inr []),
     os_read = (\<lambda>_. Inr [1, 2, 3]), os_set_order = (\<lambda>cs. cs)\<rparr>"

definition engine_source :: PreparedFileSource where
  "engine_source = \<lparr>pf_path = ascii ''/d/a'', pf_fingerprint = \<lparr>fp_plaintext_size = 3, fp_modified_unix_nanos = None,
     fp_canonical_path_digest = replicate 32 0\<rparr>\<rparr>"

definition engine_moments :: SourceMoments where
  "engine_moments = \<lparr>sm_open = engine_os, sm_read = (\<lambda>offset n. Some (take n (drop (unat offset) [1, 2, 3]))), sm_end = engine_os,
     sm_hash_open = engine_os, sm_hash_end = engine_os, sm_hash_finished = (\<lambda>_. False), sm_sample_open = engine_os,
     sm_sample = None\<rparr>"

definition engine_stream_libs :: EngineLibs where
  "engine_stream_libs = engine_libs\<lparr>el_ledger_to_vec := (\<lambda>_. Some [1])\<rparr>"

definition engine_file :: ManifestEntryV2 where
  "engine_file = mf_entries engine_manifest ! 1"

definition engine_started :: "bytes ReceiverPlane" where
  "engine_started = engine_plane\<lparr>pl_inbox := [], rx_ledger := update_checkpoint 1
     (\<lambda>c. c\<lparr>cp_start := Some (entry_start sample_identity engine_file Enc_Identity)\<rparr>) engine_ledger\<rparr>"

definition engine_sender_plane :: SenderPlane where
  "engine_sender_plane = \<lparr>pl_inbox = [], pl_sent = [], pl_sends = [], pl_saves = [], pl_disk = Map.empty, pl_events = [],
     pl_completed = 0, tx_record = engine_record\<rparr>"

lemma engine_digest: "cy_hash (el_crypto engine_stream_libs) bs = replicate 32 0"
  by (simp add: engine_stream_libs_def engine_libs_def sample_crypto_def zero_hash_def)

lemma engine_file_sels:
  "me_plaintext_size engine_file = 3" "known_digest engine_file = Some (replicate 32 0)" "me_entry_id engine_file = 1"
  by (simp_all add: engine_file_def engine_manifest_def known_digest_def)

lemma engine_pieces: "nblocks (Suc (Suc (Suc 0))) = 1" "piece [1, 2, 3] 0 = [1, 2, 3]"
  by (simp_all add: nblocks_def piece_def)

lemma engine_stream_ok:
  "content_of engine_file [1, 2, 3]" "reads engine_moments [1, 2, 3]"
  "encodes engine_stream_libs Enc_Identity (\<lambda>x. x) [1, 2, 3]" "zstd_law engine_stream_libs" "serialises engine_stream_libs"
  "sink_takes engine_sink engine_file digest (\<lambda>b s. s @ bl_encoded_bytes b) (\<lambda>s. s)"
  "prepared_open engine_job_libs (sm_open engine_moments) engine_source = Inr ()"
  "verify_unchanged engine_job_libs (sm_end engine_moments) engine_source = Inr ()"
  "receiving 1 sample_identity engine_file Enc_Identity (replicate 32 0) [1, 2, 3] 0 engine_started"
         apply (simp add: content_of_def engine_file_sels)
        apply (simp add: reads_def engine_moments_def)
       apply (simp add: encodes_def engine_pieces encode_block_def frame_limits manifest_limits)
      apply (simp add: zstd_law_def engine_stream_libs_def engine_libs_def)
     apply (simp add: serialises_def engine_stream_libs_def)
    apply (simp add: sink_takes_def engine_sink_def)
   apply (simp_all add: prepared_open_def verify_unchanged_def verify_source_fingerprint_def engine_moments_def engine_os_def
      engine_source_def fingerprint_def modified_unix_nanos_def engine_job_libs_def zero_hash_def)
  apply (simp add: receiving_def engine_started_def engine_plane_def engine_ledger_def offset_at_def)
  done

theorem file_transfer_exact_witness:
  "\<exists>completion ps' frames pr'.
    send_file engine_stream_libs engine_job_libs engine_moments sample_identity engine_file
      \<lparr>ep_entry_id = 1, ep_disposition = Disp_ReceivePayload, ep_next_plaintext_block = 0\<rparr> engine_source Enc_Identity 0 3
      engine_sender_plane = (Inr completion, ps')
    \<and> pl_sent ps' = F_EntryStart (entry_start sample_identity engine_file Enc_Identity) # frames
    \<and> receive_file engine_stream_libs engine_sink engine_file
      \<lparr>ep_entry_id = 1, ep_disposition = Disp_ReceivePayload, ep_next_plaintext_block = 0\<rparr> 1 3
      (engine_started\<lparr>pl_inbox := map Some frames\<rparr>) = (Inr (), pr')
    \<and> rx_sink pr' = [1, 2, 3]"
proof -
  have appended: "foldl (\<lambda>s b. s @ bl_encoded_bytes b) s blocks = s @ concat (map bl_encoded_bytes blocks)" for s blocks
    by (induction blocks arbitrary: s) simp_all
  show ?thesis
    using file_transfer_exact [OF engine_stream_ok(1-5), of engine_sink "\<lambda>b s. s @ bl_encoded_bytes b" "\<lambda>s. s"
        "\<lparr>ep_entry_id = 1, ep_disposition = Disp_ReceivePayload, ep_next_plaintext_block = 0\<rparr>" 0
        engine_job_libs engine_source engine_sender_plane 1 sample_identity engine_started 0 3]
      engine_stream_ok(6-9)
    by (auto simp: engine_digest engine_file_sels engine_sender_plane_def engine_started_def engine_plane_def appended)
qed

end
