(* ===== verification/Dest_Fs.thy ===== *)
theory Dest_Fs
  imports Engine_Data Rust_Text
begin

text \<open>
  The file system below a destination, as Unix has it. A canonical absolute path is the list of its
  components; names lead to inodes, so a file that is open stays readable after its name is gone. A
  symbolic link is followed as the last component, one level. Calls take the next outcome of
  \<open>df_faults\<close>: \<open>Some (e, n)\<close> fails with \<open>e\<close>, a write after \<open>n\<close> of its bytes; once the list is over
  they succeed. \<open>df_volume\<close> is the device of a path. Syncing has no effect here but can fail. A name joined to a
  path is one component of it, also when it contains a separator or is \<open>..\<close>: such a name can only come from
  a caller that fixes the names of a plan, and \<open>Path::join\<close> would resolve it.
\<close>

type_synonym dpath = "str list"

datatype FsErrorKind = Fs_NotFound | Fs_AlreadyExists | Fs_Other

datatype FsNode = N_File nat | N_Dir nat | N_Link dpath

record DestFs =
  df_names :: "(dpath \<times> FsNode) list"
  df_content :: "nat \<Rightarrow> bytes"
  df_next :: nat
  df_volume :: "dpath \<Rightarrow> nat"
  df_faults :: "(FsErrorKind \<times> nat) option list"

type_synonym ('z, 'a) fs_op = "('z DestFs_scheme, FsErrorKind, 'a) op"

abbreviation lookup_name :: "'z DestFs_scheme \<Rightarrow> dpath \<Rightarrow> FsNode option" where
  "lookup_name p path \<equiv> map_of (df_names p) path"

definition parent_of :: "dpath \<Rightarrow> dpath option" where
  "parent_of path = (if path = [] then None else Some (butlast path))"

definition starts_with_path :: "dpath \<Rightarrow> dpath \<Rightarrow> bool" where
  "starts_with_path path base \<longleftrightarrow> take (length base) path = base"

text \<open>A call that can fail before it does anything.\<close>

definition fs_call :: "('z, 'a) fs_op \<Rightarrow> ('z, 'a) fs_op" where
  "fs_call m p =
     (case df_faults p of
        [] \<Rightarrow> m p
      | None # rest \<Rightarrow> m (p\<lparr>df_faults := rest\<rparr>)
      | Some (e, _) # rest \<Rightarrow> (Inl e, p\<lparr>df_faults := rest\<rparr>))"

section \<open>Looking\<close>

definition resolve :: "'z DestFs_scheme \<Rightarrow> dpath \<Rightarrow> FsNode option" where
  "resolve p path =
     (case lookup_name p path of
        Some (N_Link target) \<Rightarrow>
          (case lookup_name p target of Some (N_Link _) \<Rightarrow> None | node \<Rightarrow> node)
      | node \<Rightarrow> node)"

definition fs_metadata :: "dpath \<Rightarrow> ('z, FsNode) fs_op" where
  "fs_metadata path = fs_call (checkM (\<lambda>p. ok_or (resolve p path) Fs_NotFound))"

definition fs_symlink_metadata :: "dpath \<Rightarrow> ('z, FsNode) fs_op" where
  "fs_symlink_metadata path = fs_call (checkM (\<lambda>p. ok_or (lookup_name p path) Fs_NotFound))"

definition fs_try_exists :: "dpath \<Rightarrow> ('z, bool) fs_op" where
  "fs_try_exists path = fs_call (getM (\<lambda>p. resolve p path \<noteq> None))"

definition node_len :: "'z DestFs_scheme \<Rightarrow> FsNode \<Rightarrow> nat" where
  "node_len p node = (case node of N_File i \<Rightarrow> length (df_content p i) | _ \<Rightarrow> 0)"

definition fs_canonicalize :: "dpath \<Rightarrow> ('z, dpath) fs_op" where
  "fs_canonicalize path = fs_call (checkM (\<lambda>p.
     case lookup_name p path of
       None \<Rightarrow> Inl Fs_NotFound
     | Some (N_Link target) \<Rightarrow> if resolve p path = None then Inl Fs_NotFound else Inr target
     | Some _ \<Rightarrow> Inr path))"

definition child_names :: "'z DestFs_scheme \<Rightarrow> dpath \<Rightarrow> str list" where
  "child_names p path = map last (filter (\<lambda>q. parent_of q = Some path) (map fst (df_names p)))"

definition fs_read_dir :: "dpath \<Rightarrow> ('z, str list) fs_op" where
  "fs_read_dir path = fs_call (checkM (\<lambda>p.
     case resolve p path of
       None \<Rightarrow> Inl Fs_NotFound
     | Some (N_Dir _) \<Rightarrow> Inr (child_names p path)
     | Some _ \<Rightarrow> Inl Fs_Other))"

text \<open>Opening a file for reading gives its inode; reading it to the end its content.\<close>

definition fs_open :: "dpath \<Rightarrow> ('z, nat) fs_op" where
  "fs_open path = fs_call (checkM (\<lambda>p.
     case resolve p path of
       Some (N_File i) \<Rightarrow> Inr i
     | Some _ \<Rightarrow> Inl Fs_Other
     | None \<Rightarrow> Inl Fs_NotFound))"

definition fs_read_all :: "nat \<Rightarrow> ('z, bytes) fs_op" where
  "fs_read_all i = fs_call (getM (\<lambda>p. df_content p i))"

definition fs_read :: "dpath \<Rightarrow> ('z, bytes) fs_op" where
  "fs_read path = bindM (fs_open path) fs_read_all"

definition fs_sync :: "('z, unit) fs_op" where
  "fs_sync = fs_call (returnM ())"

section \<open>Changing\<close>

definition bind_name :: "dpath \<Rightarrow> FsNode \<Rightarrow> 'z DestFs_scheme \<Rightarrow> 'z DestFs_scheme" where
  "bind_name path node p = p\<lparr>df_names := AList.update path node (df_names p)\<rparr>"

definition add_dir :: "dpath \<Rightarrow> 'z DestFs_scheme \<Rightarrow> 'z DestFs_scheme" where
  "add_dir path p = (bind_name path (N_Dir (df_next p)) p)\<lparr>df_next := df_next p + 1\<rparr>"

definition add_file :: "dpath \<Rightarrow> 'z DestFs_scheme \<Rightarrow> 'z DestFs_scheme" where
  "add_file path p =
     (bind_name path (N_File (df_next p)) p)\<lparr>df_next := df_next p + 1, df_content := (df_content p)(df_next p := [])\<rparr>"

definition has_dir :: "'z DestFs_scheme \<Rightarrow> dpath \<Rightarrow> bool" where
  "has_dir p path \<longleftrightarrow> (\<exists>i. resolve p path = Some (N_Dir i))"

lemma has_dir_code [code]: "has_dir p path = (case resolve p path of Some (N_Dir _) \<Rightarrow> True | _ \<Rightarrow> False)"
  by (auto simp: has_dir_def split: option.split FsNode.split)

definition parent_ok :: "'z DestFs_scheme \<Rightarrow> dpath \<Rightarrow> bool" where
  "parent_ok p path \<longleftrightarrow> (case parent_of path of None \<Rightarrow> False | Some q \<Rightarrow> has_dir p q)"

fun make_dirs :: "dpath list \<Rightarrow> 'z DestFs_scheme \<Rightarrow> (FsErrorKind + unit) \<times> 'z DestFs_scheme" where
  "make_dirs [] p = (Inr (), p)"
| "make_dirs (path # rest) p =
     (case resolve p path of
        None \<Rightarrow> if lookup_name p path = None then make_dirs rest (add_dir path p) else (Inl Fs_Other, p)
      | Some (N_Dir _) \<Rightarrow> make_dirs rest p
      | Some _ \<Rightarrow> (Inl Fs_Other, p))"

definition prefixes_of :: "dpath \<Rightarrow> dpath list" where
  "prefixes_of path = map (\<lambda>n. take n path) [1..<Suc (length path)]"

definition fs_create_dir_all :: "dpath \<Rightarrow> ('z, unit) fs_op" where
  "fs_create_dir_all path = fs_call (make_dirs (prefixes_of path))"

definition fs_create_dir :: "dpath \<Rightarrow> ('z, unit) fs_op" where
  "fs_create_dir path = fs_call (\<lambda>p.
     if lookup_name p path \<noteq> None then (Inl Fs_AlreadyExists, p)
     else if \<not> parent_ok p path then (Inl Fs_NotFound, p)
     else (Inr (), add_dir path p))"

text \<open>\<open>OpenOptions\<close> with \<open>create(true)\<close> (\<open>truncate\<close> or not) and with \<open>create_new(true)\<close>.\<close>

definition fs_open_create :: "bool \<Rightarrow> dpath \<Rightarrow> ('z, nat) fs_op" where
  "fs_open_create trunc path = fs_call (\<lambda>p.
     case resolve p path of
       Some (N_File i) \<Rightarrow>
         (Inr i, if trunc then p\<lparr>df_content := (df_content p)(i := [])\<rparr> else p)
     | Some _ \<Rightarrow> (Inl Fs_Other, p)
     | None \<Rightarrow>
         if lookup_name p path \<noteq> None then (Inl Fs_NotFound, p)
         else if \<not> parent_ok p path then (Inl Fs_NotFound, p)
         else (Inr (df_next p), add_file path p))"

definition fs_create_new :: "dpath \<Rightarrow> ('z, nat) fs_op" where
  "fs_create_new path = fs_call (\<lambda>p.
     if lookup_name p path \<noteq> None then (Inl Fs_AlreadyExists, p)
     else if \<not> parent_ok p path then (Inl Fs_NotFound, p)
     else (Inr (df_next p), add_file path p))"

text \<open>\<open>write_all\<close> at a position of an open file.\<close>

definition write_at :: "nat \<Rightarrow> nat \<Rightarrow> bytes \<Rightarrow> 'z DestFs_scheme \<Rightarrow> 'z DestFs_scheme" where
  "write_at i pos bs p =
     p\<lparr>df_content := (df_content p)(i :=
        take pos (df_content p i) @ bs @ drop (pos + length bs) (df_content p i))\<rparr>"

definition fs_write_at :: "nat \<Rightarrow> nat \<Rightarrow> bytes \<Rightarrow> ('z, unit) fs_op" where
  "fs_write_at i pos bs p =
     (case df_faults p of
        [] \<Rightarrow> (Inr (), write_at i pos bs p)
      | None # rest \<Rightarrow> (Inr (), write_at i pos bs (p\<lparr>df_faults := rest\<rparr>))
      | Some (e, n) # rest \<Rightarrow> (Inl e, write_at i pos (take n bs) (p\<lparr>df_faults := rest\<rparr>)))"

definition fs_remove_file :: "dpath \<Rightarrow> ('z, unit) fs_op" where
  "fs_remove_file path = fs_call (\<lambda>p.
     case lookup_name p path of
       None \<Rightarrow> (Inl Fs_NotFound, p)
     | Some (N_Dir _) \<Rightarrow> (Inl Fs_Other, p)
     | Some _ \<Rightarrow> (Inr (), p\<lparr>df_names := filter (\<lambda>(q, _). q \<noteq> path) (df_names p)\<rparr>))"

text \<open>The subtree below a path.\<close>

definition below :: "dpath \<Rightarrow> dpath \<Rightarrow> bool" where
  "below base path \<longleftrightarrow> starts_with_path path base"

definition fs_remove_dir_all :: "dpath \<Rightarrow> ('z, unit) fs_op" where
  "fs_remove_dir_all path = fs_call (\<lambda>p.
     (Inr (), p\<lparr>df_names := filter (\<lambda>(q, _). \<not> below path q) (df_names p)\<rparr>))"

definition move_tree :: "dpath \<Rightarrow> dpath \<Rightarrow> 'z DestFs_scheme \<Rightarrow> 'z DestFs_scheme" where
  "move_tree source target p =
     p\<lparr>df_names := map (\<lambda>(q, node). (if below source q then target @ drop (length source) q else q, node)) (df_names p)\<rparr>"

text \<open>
  A rename that refuses an existing target (\<open>renameat2\<close> with \<open>RENAME_NOREPLACE\<close>), which is a name at the
  target or below it, and one that replaces a file.
\<close>

definition exclusive_rename :: "dpath \<Rightarrow> dpath \<Rightarrow> ('z, unit) fs_op" where
  "exclusive_rename source target = fs_call (\<lambda>p.
     if lookup_name p source = None then (Inl Fs_NotFound, p)
     else if list_ex (below target) (map fst (df_names p)) then (Inl Fs_AlreadyExists, p)
     else if \<not> parent_ok p target then (Inl Fs_NotFound, p)
     else if below source target then (Inl Fs_Other, p)
     else (Inr (), move_tree source target p))"

definition fs_rename_file :: "dpath \<Rightarrow> dpath \<Rightarrow> ('z, unit) fs_op" where
  "fs_rename_file source target = fs_call (\<lambda>p.
     case (lookup_name p source, lookup_name p target) of
       (Some (N_File i), Some (N_Dir _)) \<Rightarrow> (Inl Fs_Other, p)
     | (Some (N_File i), _) \<Rightarrow>
         if \<not> parent_ok p target then (Inl Fs_NotFound, p)
         else (Inr (), bind_name target (N_File i) (p\<lparr>df_names := filter (\<lambda>(q, _). q \<noteq> source) (df_names p)\<rparr>))
     | (Some _, _) \<Rightarrow> (Inl Fs_Other, p)
     | (None, _) \<Rightarrow> (Inl Fs_NotFound, p))"

text \<open>\<open>fs::write\<close>.\<close>

definition fs_write :: "dpath \<Rightarrow> bytes \<Rightarrow> ('z, unit) fs_op" where
  "fs_write path bs = bindM (fs_open_create True path) (\<lambda>i. fs_write_at i 0 bs)"

text \<open>A missing file is not an error.\<close>

definition remove_if_present :: "dpath \<Rightarrow> ('z, unit) fs_op" where
  "remove_if_present path p =
     (case fs_remove_file path p of (Inl Fs_NotFound, q) \<Rightarrow> (Inr (), q) | r \<Rightarrow> r)"

text \<open>Errors of the file system as errors of the caller, and a call whose error is dropped.\<close>

definition from_io :: "FsErrorKind \<Rightarrow> IoErrorKind" where
  "from_io e = (case e of Fs_NotFound \<Rightarrow> Io_NotFound | Fs_AlreadyExists \<Rightarrow> Io_Other | Fs_Other \<Rightarrow> Io_Other)"

definition mapE :: "('e \<Rightarrow> 'f) \<Rightarrow> ('s, 'e, 'a) op \<Rightarrow> ('s, 'f, 'a) op" where
  "mapE f m s = (case m s of (r, t) \<Rightarrow> (map_err f r, t))"

definition ignoreM :: "('s, 'e, 'a) op \<Rightarrow> ('s, 'f, unit) op" where
  "ignoreM m s = (Inr (), snd (m s))"

definition tryM :: "('s, 'e, 'a) op \<Rightarrow> ('s, 'f, 'e + 'a) op" where
  "tryM m s = (case m s of (r, t) \<Rightarrow> (Inr r, t))"

end
