(* ===== verification/Dest_Plan.thy ===== *)
theory Dest_Plan
  imports Dest_Fs
begin

text \<open>
  \<open>crates/envoix-transfer/src/destination_v2.rs\<close>, the plan of a destination: where the roots of an
  offer will be saved, under which names, and what the receiver accepts. \<open>Target\<close> is the platform the
  crate is built for, with the \<open>to_lowercase\<close> of the standard library.
\<close>

section \<open>Data\<close>

definition POST_SAVE_RESERVE_BYTES :: u64 where
  "POST_SAVE_RESERVE_BYTES = 64 * 1024 * 1024"

definition AUTO_RECEIVE_PLAINTEXT_LIMIT_BYTES :: u64 where
  "AUTO_RECEIVE_PLAINTEXT_LIMIT_BYTES = 64 * 1024 * 1024 * 1024"

definition NAME_SUFFIXES :: nat where
  "NAME_SUFFIXES = 10000"

datatype DestinationModeV2 = DirectSave | CopyAfterVerify

datatype DestinationDecisionV2 = UseDirectSave | ContinueWithCopyAfterVerify

datatype TargetOs = Os_Windows | Os_Macos | Os_Unix

record Target =
  tg_os :: TargetOs
  tg_to_lowercase :: "str \<Rightarrow> str"

record StorageDomainIdentityV2 =
  so_provider :: str
  so_opaque_volume_id :: str
  so_stable_object_identity :: bool

record DestinationRequestV2 =
  rq_target_directory :: dpath
  rq_copy_staging_directory :: "dpath option"
  rq_decision :: DestinationDecisionV2
  rq_target_allocatable_bytes :: "u64 option"
  rq_staging_allocatable_bytes :: "u64 option"
  rq_stable_object_identity :: bool
  rq_exceptional_transfer_approved :: bool
  rq_preplanned_root_names :: "RootPlanV2 list option"

record DestinationWritePlanV2 =
  wp_job_id :: JobIdV2
  wp_generation :: u32
  wp_mode :: DestinationModeV2
  wp_storage_domain :: StorageDomainIdentityV2
  wp_plan_revision :: u32
  wp_root_plans :: "RootPlanV2 list"
  wp_exceptional_transfer_approved :: bool
  wp_target_directory :: dpath
  wp_staging_directory :: dpath
  wp_reservations :: "dpath list"
  wp_reuse_entry_ids :: "u32 list"

type_synonym ('z, 'a) dest_op = "('z DestFs_scheme, DestinationPlanErrorV2, 'a) op"

abbreviation io :: "('z, 'a) fs_op \<Rightarrow> ('z, 'a) dest_op" where
  "io m \<equiv> mapE (\<lambda>e. DP_Io (from_io e)) m"

section \<open>Names\<close>

definition reserved_byte :: "u8 \<Rightarrow> bool" where
  "reserved_byte b \<longleftrightarrow> b \<in> set (ascii ''<>:'') \<union> {0x22} \<union> set (ascii ''/|?*'') \<union> {0x5C}"

definition drop_trailing :: "str \<Rightarrow> str" where
  "drop_trailing s = rev (dropWhile (\<lambda>b. b = 0x20 \<or> b = 0x2E) (rev s))"

definition to_ascii_uppercase :: "str \<Rightarrow> str" where
  "to_ascii_uppercase s = map (\<lambda>b. if is_ascii_lowercase b then b - 0x20 else b) s"

definition reserved_stem :: "str \<Rightarrow> bool" where
  "reserved_stem stem \<longleftrightarrow>
     stem \<in> {ascii ''CON'', ascii ''PRN'', ascii ''AUX'', ascii ''NUL''}
     \<or> (length stem = 4 \<and> take 3 stem \<in> {ascii ''COM'', ascii ''LPT''}
         \<and> 0x31 \<le> stem ! 3 \<and> stem ! 3 \<le> 0x39)"

definition provider_safe_component :: "Target \<Rightarrow> str \<Rightarrow> str" where
  "provider_safe_component tg component =
     (case tg_os tg of
        Os_Windows \<Rightarrow>
          (let value1 = drop_trailing (map (\<lambda>b. if reserved_byte b then 0x5F else b) component);
               stem = to_ascii_uppercase (takeWhile (\<lambda>b. b \<noteq> 0x2E) value1);
               value2 = (if reserved_stem stem then 0x5F # value1 else value1) in
           if value2 = [] then [0x5F] else value2)
      | _ \<Rightarrow> component)"

definition name_equivalence_key :: "Target \<Rightarrow> str \<Rightarrow> str" where
  "name_equivalence_key tg component =
     (case tg_os tg of Os_Unix \<Rightarrow> component | _ \<Rightarrow> tg_to_lowercase tg component)"

definition is_char_boundary :: "str \<Rightarrow> nat \<Rightarrow> bool" where
  "is_char_boundary s n \<longleftrightarrow> n = 0 \<or> n = length s \<or> (n < length s \<and> \<not> utf8_cont (s ! n))"

fun floor_boundary :: "str \<Rightarrow> nat \<Rightarrow> nat" where
  "floor_boundary s 0 = 0"
| "floor_boundary s (Suc n) = (if is_char_boundary s (Suc n) then Suc n else floor_boundary s n)"

definition rfind_dot :: "str \<Rightarrow> nat option" where
  "rfind_dot s = (if 0x2E \<in> set s then Some (length s - 1 - length (takeWhile (\<lambda>b. b \<noteq> 0x2E) (rev s))) else None)"

definition suffix_text :: "nat \<Rightarrow> str" where
  "suffix_text n = ascii '' ('' @ decimal n @ ascii '')''"

definition split_extension :: "str \<Rightarrow> nat \<Rightarrow> bool \<Rightarrow> str \<times> str" where
  "split_extension base suffix_len preserve_extension =
     (case (if preserve_extension then rfind_dot base else None) of
        Some offset \<Rightarrow>
          if offset > 0 \<and> length (drop offset base) + suffix_len \<le> 255 then (take offset base, drop offset base)
          else (base, [])
      | None \<Rightarrow> (base, []))"

definition component_with_suffix :: "str \<Rightarrow> nat \<Rightarrow> bool \<Rightarrow> str" where
  "component_with_suffix base suffix preserve_extension =
     (let text = suffix_text suffix;
          (stem, extension) = split_extension base (length text) preserve_extension;
          end_offset = floor_boundary stem (min (length stem) (255 - (length text + length extension))) in
      take end_offset stem @ text @ extension)"

definition candidate_name :: "str \<Rightarrow> bool \<Rightarrow> nat \<Rightarrow> str" where
  "candidate_name base preserve_extension suffix =
     (if suffix = 0 then base else component_with_suffix base suffix preserve_extension)"

fun allocate_from ::
  "Target \<Rightarrow> str \<Rightarrow> bool \<Rightarrow> str list \<Rightarrow> nat \<Rightarrow> nat \<Rightarrow> DestinationPlanErrorV2 + str \<times> str list" where
  "allocate_from tg base preserve_extension occupied suffix 0 = Inl DP_NameExhausted"
| "allocate_from tg base preserve_extension occupied suffix (Suc n) =
     (let candidate = candidate_name base preserve_extension suffix; key = name_equivalence_key tg candidate in
      if key \<in> set occupied then allocate_from tg base preserve_extension occupied (suffix + 1) n
      else Inr (candidate, key # occupied))"

definition allocate_in_memory_name ::
  "Target \<Rightarrow> str \<Rightarrow> bool \<Rightarrow> str list \<Rightarrow> DestinationPlanErrorV2 + str \<times> str list" where
  "allocate_in_memory_name tg base preserve_extension occupied =
     allocate_from tg base preserve_extension occupied 0 NAME_SUFFIXES"

text \<open>\<open>build_entry_paths\<close>: the paths and overrides so far, and the names taken per parent.\<close>

record PathScan =
  ps_paths :: "dpath list"
  ps_overrides :: "str option list"
  ps_occupied :: "u32 \<Rightarrow> str list"

definition override_of :: "str \<Rightarrow> str \<Rightarrow> str option" where
  "override_of final_name requested = (if final_name \<noteq> requested then Some final_name else None)"

definition place_path ::
  "Target \<Rightarrow> DestinationWritePlanV2 \<Rightarrow> ManifestV2 \<Rightarrow> ManifestEntryV2 \<Rightarrow> PathScan \<Rightarrow> DestinationPlanErrorV2 + PathScan" where
  "place_path tg plan manifest entry s =
     (let root = mf_roots manifest ! unat (me_root_id entry) in
      if me_entry_id entry = mr_root_entry_id root then
        Inr (s\<lparr>ps_paths := ps_paths s @ [wp_staging_directory plan @ [ascii ''root-'' @ decimal (unat (mr_root_id root))]],
               ps_overrides := ps_overrides s
                 @ [override_of (rp_planned_name (wp_root_plans plan ! unat (mr_root_id root))) (mr_requested_name root)]\<rparr>)
      else
        bindR (ok_or (me_parent_entry_id entry) DP_InvalidEntryState) (\<lambda>parent_id.
        bindR (ok_or (vec_get (ps_paths s) (unat parent_id)) DP_InvalidEntryState) (\<lambda>parent.
        bindR (allocate_in_memory_name tg (provider_safe_component tg (me_component entry)) (me_kind entry = RegularFile)
          (ps_occupied s parent_id)) (\<lambda>(final_name, siblings).
        Inr \<lparr>ps_paths = ps_paths s @ [parent @ [final_name]],
             ps_overrides = ps_overrides s @ [override_of final_name (me_component entry)],
             ps_occupied = (ps_occupied s)(parent_id := siblings)\<rparr>))))"

fun place_paths ::
  "Target \<Rightarrow> DestinationWritePlanV2 \<Rightarrow> ManifestV2 \<Rightarrow> ManifestEntryV2 list \<Rightarrow> PathScan \<Rightarrow> DestinationPlanErrorV2 + PathScan" where
  "place_paths tg plan manifest [] s = Inr s"
| "place_paths tg plan manifest (entry # rest) s =
     bindR (place_path tg plan manifest entry s) (place_paths tg plan manifest rest)"

definition build_entry_paths ::
  "Target \<Rightarrow> DestinationWritePlanV2 \<Rightarrow> ManifestV2 \<Rightarrow> DestinationPlanErrorV2 + dpath list \<times> str option list" where
  "build_entry_paths tg plan manifest =
     bindR (place_paths tg plan manifest (mf_entries manifest)
       \<lparr>ps_paths = [], ps_overrides = [], ps_occupied = (\<lambda>_. [])\<rparr>) (\<lambda>s.
     Inr (ps_paths s, ps_overrides s))"

section \<open>Space\<close>

definition target_required :: "ManifestV2 \<Rightarrow> DestinationModeV2 \<Rightarrow> bool \<Rightarrow> DestinationPlanErrorV2 + u64" where
  "target_required manifest mode same_domain =
     (let plaintext = mt_total_plaintext_bytes (mf_totals manifest) in
      bindR (if mode = CopyAfterVerify \<and> same_domain then ok_or (checked_mul plaintext 2) DP_SpaceOverflow
             else Inr plaintext) (\<lambda>target_payload.
      ok_or (checked_add target_payload POST_SAVE_RESERVE_BYTES) DP_SpaceOverflow))"

definition validate_space ::
  "ManifestV2 \<Rightarrow> DestinationRequestV2 \<Rightarrow> DestinationModeV2 \<Rightarrow> bool \<Rightarrow> DestinationPlanErrorV2 + unit" where
  "validate_space manifest request mode same_domain =
     bindR (target_required manifest mode same_domain) (\<lambda>required.
     bindR (ok_or (rq_target_allocatable_bytes request) DP_UnknownCapacity) (\<lambda>available.
     bindR (rejectR (available < required) (DP_InsufficientSpace required available)) (\<lambda>_.
     if mode = CopyAfterVerify \<and> \<not> same_domain then
       bindR (ok_or (rq_staging_allocatable_bytes request) DP_UnknownCapacity) (\<lambda>staging.
       rejectR (staging < required) (DP_InsufficientSpace required staging))
     else Inr ())))"

section \<open>The plan\<close>

definition reservations_directory :: "dpath \<Rightarrow> dpath" where
  "reservations_directory target = target @ [ascii ''.envoix-reservations-v2'']"

definition staging_root :: "dpath \<Rightarrow> dpath" where
  "staging_root target = target @ [ascii ''.envoix-staging-v2'']"

definition ledgers_directory :: "dpath \<Rightarrow> dpath" where
  "ledgers_directory target = target @ [ascii ''.envoix-ledgers-v2'']"

text \<open>\<open>Path::extension\<close> of a file name.\<close>

definition extension_of :: "str \<Rightarrow> str option" where
  "extension_of name =
     (case rfind_dot name of
        Some offset \<Rightarrow> if offset > 0 \<and> name \<noteq> ascii ''..'' then Some (drop (offset + 1) name) else None
      | None \<Rightarrow> None)"

definition has_reservation_extension :: "dpath \<Rightarrow> bool" where
  "has_reservation_extension path \<longleftrightarrow> path \<noteq> [] \<and> extension_of (last path) = Some (ascii ''reservation'')"

definition root_plan_ok :: "Target \<Rightarrow> nat \<Rightarrow> RootPlanV2 \<Rightarrow> bool" where
  "root_plan_ok tg index root \<longleftrightarrow>
     rp_root_id root = word_of_nat index \<and> rp_planned_name root \<noteq> []
     \<and> provider_safe_component tg (rp_planned_name root) = rp_planned_name root"

definition validate_shape :: "Target \<Rightarrow> DestinationWritePlanV2 \<Rightarrow> DestinationPlanErrorV2 + unit" where
  "validate_shape tg plan =
     bindR (rejectR (wp_job_id plan = replicate 16 0 \<or> wp_generation plan = 0 \<or> wp_plan_revision plan = 0
         \<or> wp_root_plans plan = [] \<or> length (wp_root_plans plan) \<noteq> length (wp_reservations plan)
         \<or> \<not> distinct (map (\<lambda>root. name_equivalence_key tg (rp_planned_name root)) (wp_root_plans plan))
         \<or> \<not> distinct (wp_reservations plan)
         \<or> \<not> sorted_wrt (<) (wp_reuse_entry_ids plan)
         \<or> \<not> list_all (\<lambda>(index, root). root_plan_ok tg index root) (enumerate 0 (wp_root_plans plan)))
       DP_InvalidEntryState) (\<lambda>_.
     bindR (rejectR (\<not> list_all (\<lambda>reservation.
           parent_of reservation = Some (reservations_directory (wp_target_directory plan))
           \<and> has_reservation_extension reservation) (wp_reservations plan)) DP_InvalidEntryState) (\<lambda>_.
     rejectR (wp_mode plan = DirectSave
       \<and> \<not> starts_with_path (wp_staging_directory plan) (staging_root (wp_target_directory plan))) DP_InvalidEntryState))"

definition validate_preplanned_roots ::
  "Target \<Rightarrow> ManifestV2 \<Rightarrow> RootPlanV2 list \<Rightarrow> DestinationPlanErrorV2 + unit" where
  "validate_preplanned_roots tg manifest roots =
     rejectR (length roots \<noteq> length (mf_roots manifest)
       \<or> \<not> list_all (\<lambda>(index, root). root_plan_ok tg index root) (enumerate 0 roots)
       \<or> \<not> distinct (map (\<lambda>root. name_equivalence_key tg (rp_planned_name root)) roots)) DP_InvalidEntryState"

definition target_path_for_root :: "DestinationWritePlanV2 \<Rightarrow> u32 \<Rightarrow> dpath option" where
  "target_path_for_root plan root_id =
     Option.bind (vec_get (wp_root_plans plan) (unat root_id)) (\<lambda>root.
     if rp_root_id root = root_id then Some (wp_target_directory plan @ [rp_planned_name root]) else None)"

text \<open>An entry that a plan may reuse: the file that is a whole root, with a known digest.\<close>

definition reuse_entry_valid :: "ManifestV2 \<Rightarrow> u32 \<Rightarrow> bool" where
  "reuse_entry_valid manifest entry_id =
     (case vec_get (mf_entries manifest) (unat entry_id) of
        None \<Rightarrow> False
      | Some entry \<Rightarrow>
          me_entry_id entry = entry_id
          \<and> me_entry_id entry = mr_root_entry_id (mf_roots manifest ! unat (me_root_id entry))
          \<and> me_kind entry = RegularFile \<and> known_digest entry \<noteq> None)"

definition plan_fits :: "DestinationWritePlanV2 \<Rightarrow> ManifestV2 \<Rightarrow> DestinationPlanErrorV2 + unit" where
  "plan_fits plan manifest =
     rejectR (wp_job_id plan \<noteq> mf_job_id manifest \<or> wp_generation plan \<noteq> mf_generation manifest
       \<or> length (wp_root_plans plan) \<noteq> length (mf_roots manifest)
       \<or> \<not> list_all (reuse_entry_valid manifest) (wp_reuse_entry_ids plan)) DP_InvalidEntryState"

text \<open>\<open>nonce\<close> and \<open>capability\<close> are the bytes \<open>getrandom\<close> fills, \<open>None\<close> a failure.\<close>

definition create_initial_accept ::
  "DestinationWritePlanV2 \<Rightarrow> ManifestOfferV2 \<Rightarrow> bytes option \<Rightarrow> bytes option
     \<Rightarrow> DestinationPlanErrorV2 + ManifestAcceptV2" where
  "create_initial_accept plan offer nonce capability =
     bindR (plan_fits plan (of_manifest offer)) (\<lambda>_.
     bindR (ok_or nonce (DP_Io Io_Other)) (\<lambda>accept_nonce.
     bindR (ok_or capability (DP_Io Io_Other)) (\<lambda>proof_capability.
     bindR (rejectR (proof_capability = replicate 32 0) (DP_Io Io_Other)) (\<lambda>_.
     Inr \<lparr>ac_identity = \<lparr>jg_job_id = wp_job_id plan, jg_generation = wp_generation plan\<rparr>,
          ac_manifest_digest = of_structural_digest offer, ac_accept_nonce = accept_nonce,
          ac_proof_capability = proof_capability, ac_plan_revision = wp_plan_revision plan,
          ac_root_plans = wp_root_plans plan,
          ac_entry_plans = map (\<lambda>entry. \<lparr>ep_entry_id = me_entry_id entry,
             ep_disposition = (if me_entry_id entry \<in> set (wp_reuse_entry_ids plan) then Disp_ReuseExisting
                               else Disp_ReceivePayload),
             ep_next_plaintext_block = 0\<rparr>) (mf_entries (of_manifest offer))\<rparr>))))"

end
