(* ===== verification/Dest_Create.thy ===== *)
theory Dest_Create
  imports Dest_Plan
begin

text \<open>Making, checking and storing a plan: the parts of \<open>destination_v2.rs\<close> that use the file system.\<close>

section \<open>Data\<close>

datatype SavedRootResultV2 = Root_Saved | Root_ReusedExisting

datatype ObjectIdentityV2 = Stable_Object nat nat | ExactContent ContentDigestV2

record FinalizeIntentV2 =
  fi_expected_object :: ObjectIdentityV2
  fi_plan_revision :: u32
  fi_planned_name :: str
  fi_reservation :: dpath
  fi_idempotency_key :: bytes

datatype RootSaveStateV2 =
    Root_Pending
  | FinalizeIntent FinalizeIntentV2
  | Root_Final SavedRootResultV2 str

record LocalSaveLedgerV2 =
  sl_schema_version :: u16
  sl_job_id :: JobIdV2
  sl_generation :: u32
  sl_manifest_digest :: ContentDigestV2
  sl_roots :: "RootSaveStateV2 list"

definition LOCAL_SAVE_LEDGER_SCHEMA_VERSION :: u16 where
  "LOCAL_SAVE_LEDGER_SCHEMA_VERSION = 1"

text \<open>BLAKE3 and \<open>serde_json\<close>, and the platform.\<close>

record DestLibs =
  dl_target :: Target
  dl_crypto :: Crypto
  dl_plan_to_vec :: "DestinationWritePlanV2 \<Rightarrow> bytes option"
  dl_plan_from_slice :: "bytes \<Rightarrow> DestinationWritePlanV2 option"
  dl_save_to_vec :: "LocalSaveLedgerV2 \<Rightarrow> bytes option"
  dl_save_from_slice :: "bytes \<Rightarrow> LocalSaveLedgerV2 option"

section \<open>Directories and domains\<close>

definition hash_open_file :: "DestLibs \<Rightarrow> nat \<Rightarrow> ('z, ContentDigestV2) fs_op" where
  "hash_open_file dl i = bindM (fs_read_all i) (\<lambda>content. returnM (cy_hash (dl_crypto dl) content))"

definition restrict_private_directory :: "dpath \<Rightarrow> ('z, unit) fs_op" where
  "restrict_private_directory path = bindM (fs_metadata path) (\<lambda>_. returnM ())"

definition local_storage_domain :: "dpath \<Rightarrow> bool \<Rightarrow> ('z, StorageDomainIdentityV2) fs_op" where
  "local_storage_domain target_directory stable_object_identity =
     bindM (fs_canonicalize target_directory) (\<lambda>canonical.
     bindM (fs_metadata canonical) (\<lambda>_.
     bindM (getM (\<lambda>p. decimal (df_volume p canonical))) (\<lambda>volume.
     returnM \<lparr>so_provider = ascii ''local_path'', so_opaque_volume_id = volume,
              so_stable_object_identity = stable_object_identity\<rparr>)))"

definition same_storage_domain :: "dpath \<Rightarrow> dpath \<Rightarrow> ('z, bool) fs_op" where
  "same_storage_domain left right =
     bindM (local_storage_domain left False) (\<lambda>l.
     bindM (local_storage_domain right False) (\<lambda>r.
     returnM (so_opaque_volume_id l = so_opaque_volume_id r)))"

text \<open>\<open>token\<close> is the process id and the counter of probes.\<close>

definition exclusive_rename_probe :: "str \<Rightarrow> dpath \<Rightarrow> ('z, bool) fs_op" where
  "exclusive_rename_probe token directory =
     (let source = directory @ [ascii ''.envoix-rename-probe-'' @ token @ ascii ''.source''];
          target = directory @ [ascii ''.envoix-rename-probe-'' @ token @ ascii ''.target''] in
      bindM (ignoreM (fs_remove_file source)) (\<lambda>_.
      bindM (ignoreM (fs_remove_file target)) (\<lambda>_.
      bindM (fs_write source (ascii ''source'')) (\<lambda>_.
      bindM (fs_write target (ascii ''target'')) (\<lambda>_.
      bindM (tryM (exclusive_rename source target)) (\<lambda>first.
      bindM (fs_try_exists source) (\<lambda>source_retained.
      bindM (fs_read target) (\<lambda>content.
      bindM (fs_remove_file target) (\<lambda>_.
      bindM (tryM (exclusive_rename source target)) (\<lambda>second.
      bindM (ignoreM (fs_remove_file source)) (\<lambda>_.
      bindM (ignoreM (fs_remove_file target)) (\<lambda>_.
      returnM (first = Inl Fs_AlreadyExists \<and> source_retained \<and> content = ascii ''target'' \<and> second = Inr ())))))))))))))"

definition destination_names :: "Target \<Rightarrow> dpath \<Rightarrow> ('z, str list) fs_op" where
  "destination_names tg directory =
     bindM (fs_read_dir directory) (\<lambda>names.
     returnM (map (name_equivalence_key tg) (filter (\<lambda>name. from_utf8 name \<noteq> None) names)))"

section \<open>Reuse\<close>

fun discover_roots ::
  "DestLibs \<Rightarrow> ManifestV2 \<Rightarrow> dpath \<Rightarrow> ManifestRootV2 list \<Rightarrow> ('z, u32 list) dest_op" where
  "discover_roots dl manifest target [] = returnM []"
| "discover_roots dl manifest target (root # rest) =
     (let entry = mf_entries manifest ! unat (mr_root_entry_id root);
          path = target @ [provider_safe_component (dl_target dl) (mr_requested_name root)] in
      bindM
        (case known_digest entry of
           None \<Rightarrow> returnM []
         | Some expected \<Rightarrow>
             if me_kind entry \<noteq> RegularFile then returnM []
             else
               bindM (tryM (fs_symlink_metadata path)) (\<lambda>looked.
               case looked of
                 Inl Fs_NotFound \<Rightarrow> returnM []
               | Inl e \<Rightarrow> failM (DP_Io (from_io e))
               | Inr node \<Rightarrow>
                   bindM (getM (\<lambda>p. case node of N_File i \<Rightarrow> node_len p node = unat (me_plaintext_size entry) | _ \<Rightarrow> False))
                     (\<lambda>fits.
                   if \<not> fits then returnM []
                   else
                     bindM (io (fs_open path)) (\<lambda>i.
                     bindM (getM (\<lambda>p. length (df_content p i) = unat (me_plaintext_size entry))) (\<lambda>same_size.
                     if \<not> same_size then returnM []
                     else
                       bindM (io (hash_open_file dl i)) (\<lambda>digest.
                       returnM (if digest = expected then [me_entry_id entry] else []))))))) (\<lambda>found.
      bindM (discover_roots dl manifest target rest) (\<lambda>later.
      returnM (found @ later))))"

definition discover_known_reuse_entries :: "DestLibs \<Rightarrow> ManifestOfferV2 \<Rightarrow> dpath \<Rightarrow> bool \<Rightarrow> ('z, u32 list) dest_op" where
  "discover_known_reuse_entries dl offer target stable_object_identity =
     (if \<not> stable_object_identity then returnM []
      else discover_roots dl (of_manifest offer) target (mf_roots (of_manifest offer)))"

section \<open>Reservations\<close>

definition reservation_path :: "DestLibs \<Rightarrow> dpath \<Rightarrow> str \<Rightarrow> dpath" where
  "reservation_path dl directory key = directory @ [encode_job_id (cy_hash (dl_crypto dl) key) @ ascii ''.reservation'']"

text \<open>The content of a reservation.\<close>

definition reservation_owner :: "JobIdV2 \<Rightarrow> u32 \<Rightarrow> str" where
  "reservation_owner job_id root_id = encode_job_id job_id @ ascii '':'' @ decimal (unat root_id)"

definition take_reservation :: "dpath \<Rightarrow> JobIdV2 \<Rightarrow> u32 \<Rightarrow> nat \<Rightarrow> ('z, unit) dest_op" where
  "take_reservation reservation job_id root_id i =
     bindM (io (fs_write_at i 0 (reservation_owner job_id root_id))) (\<lambda>_. io fs_sync)"

fun reserve_from ::
  "DestLibs \<Rightarrow> dpath \<Rightarrow> str \<Rightarrow> bool \<Rightarrow> str list \<Rightarrow> JobIdV2 \<Rightarrow> u32 \<Rightarrow> nat \<Rightarrow> nat
     \<Rightarrow> ('z, str \<times> dpath \<times> str list) dest_op" where
  "reserve_from dl directory base preserve_extension occupied job_id root_id suffix 0 = failM DP_NameExhausted"
| "reserve_from dl directory base preserve_extension occupied job_id root_id suffix (Suc n) =
     (let candidate = candidate_name base preserve_extension suffix;
          key = name_equivalence_key (dl_target dl) candidate;
          reservation = reservation_path dl directory key in
      if key \<in> set occupied
      then reserve_from dl directory base preserve_extension occupied job_id root_id (suffix + 1) n
      else
        bindM (tryM (fs_create_new reservation)) (\<lambda>created.
        case created of
          Inr i \<Rightarrow>
            bindM (take_reservation reservation job_id root_id i) (\<lambda>_. returnM (candidate, reservation, key # occupied))
        | Inl Fs_AlreadyExists \<Rightarrow>
            reserve_from dl directory base preserve_extension occupied job_id root_id (suffix + 1) n
        | Inl e \<Rightarrow> failM (DP_Io (from_io e))))"

definition reserve_keep_both_name ::
  "DestLibs \<Rightarrow> dpath \<Rightarrow> str \<Rightarrow> bool \<Rightarrow> str list \<Rightarrow> JobIdV2 \<Rightarrow> u32 \<Rightarrow> ('z, str \<times> dpath \<times> str list) dest_op" where
  "reserve_keep_both_name dl directory base preserve_extension occupied job_id root_id =
     reserve_from dl directory base preserve_extension occupied job_id root_id 0 NAME_SUFFIXES"

definition reserve_exact_name ::
  "DestLibs \<Rightarrow> dpath \<Rightarrow> str \<Rightarrow> str list \<Rightarrow> JobIdV2 \<Rightarrow> u32 \<Rightarrow> ('z, dpath \<times> str list) dest_op" where
  "reserve_exact_name dl directory planned_name occupied job_id root_id =
     (let key = name_equivalence_key (dl_target dl) planned_name; reservation = reservation_path dl directory key in
      if key \<in> set occupied then failM DP_DestinationContended
      else
        bindM (mapE (\<lambda>e. if e = Fs_AlreadyExists then DP_DestinationContended else DP_Io (from_io e))
          (fs_create_new reservation)) (\<lambda>i.
        bindM (take_reservation reservation job_id root_id i) (\<lambda>_.
        returnM (reservation, key # occupied))))"

fun reserve_preplanned ::
  "DestLibs \<Rightarrow> dpath \<Rightarrow> JobIdV2 \<Rightarrow> str list \<Rightarrow> RootPlanV2 list \<Rightarrow> ('z, dpath list) dest_op" where
  "reserve_preplanned dl directory job_id occupied [] = returnM []"
| "reserve_preplanned dl directory job_id occupied (root # rest) =
     bindM (reserve_exact_name dl directory (rp_planned_name root) occupied job_id (rp_root_id root)) (\<lambda>(reservation, occupied').
     bindM (reserve_preplanned dl directory job_id occupied' rest) (\<lambda>reservations.
     returnM (reservation # reservations)))"

fun reserve_roots ::
  "DestLibs \<Rightarrow> dpath \<Rightarrow> ManifestV2 \<Rightarrow> str list \<Rightarrow> ManifestRootV2 list \<Rightarrow> ('z, (RootPlanV2 \<times> dpath) list) dest_op" where
  "reserve_roots dl directory manifest occupied [] = returnM []"
| "reserve_roots dl directory manifest occupied (root # rest) =
     bindM (reserve_keep_both_name dl directory (provider_safe_component (dl_target dl) (mr_requested_name root))
       (me_kind (mf_entries manifest ! unat (mr_root_entry_id root)) = RegularFile) occupied (mf_job_id manifest)
       (mr_root_id root)) (\<lambda>(planned_name, reservation, occupied').
     bindM (reserve_roots dl directory manifest occupied' rest) (\<lambda>later.
     returnM ((\<lparr>rp_root_id = mr_root_id root, rp_planned_name = planned_name\<rparr>, reservation) # later)))"

definition reserve_all ::
  "DestLibs \<Rightarrow> dpath \<Rightarrow> ManifestV2 \<Rightarrow> str list \<Rightarrow> RootPlanV2 list option \<Rightarrow> ('z, (RootPlanV2 \<times> dpath) list) dest_op" where
  "reserve_all dl directory manifest occupied preplanned =
     (case preplanned of
        Some roots \<Rightarrow>
          bindM (liftM (validate_preplanned_roots (dl_target dl) manifest roots)) (\<lambda>_.
          bindM (reserve_preplanned dl directory (mf_job_id manifest) occupied roots) (\<lambda>reservations.
          returnM (zip roots reservations)))
      | None \<Rightarrow> reserve_roots dl directory manifest occupied (mf_roots manifest))"

section \<open>Creating a plan\<close>

definition optional_staging :: "dpath option \<Rightarrow> ('z, dpath option) dest_op" where
  "optional_staging staging =
     (case staging of
        None \<Rightarrow> returnM None
      | Some directory \<Rightarrow>
          bindM (io (fs_create_dir_all directory)) (\<lambda>_.
          bindM (io (fs_canonicalize directory)) (\<lambda>canonical. returnM (Some canonical))))"

definition exceptional :: "ManifestV2 \<Rightarrow> u64 \<Rightarrow> bool" where
  "exceptional manifest available \<longleftrightarrow>
     mt_total_plaintext_bytes (mf_totals manifest) > AUTO_RECEIVE_PLAINTEXT_LIMIT_BYTES
     \<or> mt_total_plaintext_bytes (mf_totals manifest) > available div 2"

definition choose_mode :: "DestinationDecisionV2 \<Rightarrow> bool \<Rightarrow> DestinationPlanErrorV2 + DestinationModeV2" where
  "choose_mode decision direct_supported =
     (case decision of
        UseDirectSave \<Rightarrow> if direct_supported then Inr DirectSave else Inl DP_CopyDecisionRequired
      | ContinueWithCopyAfterVerify \<Rightarrow> if direct_supported then Inr CopyAfterVerify else Inl DP_UnsupportedProvider)"

definition copy_same_domain :: "DestinationModeV2 \<Rightarrow> dpath \<Rightarrow> dpath option \<Rightarrow> ('z, bool) dest_op" where
  "copy_same_domain mode target staging =
     (if mode = CopyAfterVerify then
        bindM (liftM (ok_or staging DP_MissingCopyStaging)) (\<lambda>directory.
        bindM (io (fs_create_dir_all directory)) (\<lambda>_.
        io (same_storage_domain target directory)))
      else returnM False)"

definition staging_directory_for ::
  "DestinationModeV2 \<Rightarrow> dpath \<Rightarrow> dpath option \<Rightarrow> JobIdV2 \<Rightarrow> DestinationPlanErrorV2 + dpath" where
  "staging_directory_for mode target staging job_id =
     (case mode of
        DirectSave \<Rightarrow> Inr (staging_root target @ [encode_job_id job_id])
      | CopyAfterVerify \<Rightarrow>
          bindR (ok_or staging DP_MissingCopyStaging) (\<lambda>directory.
          Inr (directory @ [ascii ''envoix-staging-v2'', encode_job_id job_id])))"

definition make_private :: "dpath \<Rightarrow> ('z, unit) dest_op" where
  "make_private directory =
     bindM (io (fs_create_dir_all directory)) (\<lambda>_. io (restrict_private_directory directory))"

definition destination_create ::
  "DestLibs \<Rightarrow> str \<Rightarrow> ManifestOfferV2 \<Rightarrow> DestinationRequestV2 \<Rightarrow> ('z, DestinationWritePlanV2) dest_op" where
  "destination_create dl token offer request =
     (let manifest = of_manifest offer in
      bindM (io (fs_create_dir_all (rq_target_directory request))) (\<lambda>_.
      bindM (io (fs_canonicalize (rq_target_directory request))) (\<lambda>target.
      bindM (optional_staging (rq_copy_staging_directory request)) (\<lambda>staging.
      bindM (liftM (ok_or (rq_target_allocatable_bytes request) DP_UnknownCapacity)) (\<lambda>available.
      bindM (liftM (rejectR (exceptional manifest available \<and> \<not> rq_exceptional_transfer_approved request)
        DP_ExceptionalTransferApprovalRequired)) (\<lambda>_.
      bindM (io (exclusive_rename_probe token target)) (\<lambda>direct_supported.
      bindM (liftM (choose_mode (rq_decision request) direct_supported)) (\<lambda>mode.
      bindM (copy_same_domain mode target staging) (\<lambda>same_domain.
      bindM (liftM (validate_space manifest request mode same_domain)) (\<lambda>_.
      bindM (liftM (staging_directory_for mode target staging (mf_job_id manifest))) (\<lambda>staging_directory.
      bindM (make_private staging_directory) (\<lambda>_.
      bindM (make_private (reservations_directory target)) (\<lambda>_.
      bindM (io (destination_names (dl_target dl) target)) (\<lambda>occupied.
      bindM (reserve_all dl (reservations_directory target) manifest occupied (rq_preplanned_root_names request)) (\<lambda>roots.
      bindM (discover_known_reuse_entries dl offer target (rq_stable_object_identity request)) (\<lambda>reuse_entry_ids.
      bindM (io (local_storage_domain target (rq_stable_object_identity request))) (\<lambda>domain.
      returnM \<lparr>wp_job_id = mf_job_id manifest, wp_generation = mf_generation manifest, wp_mode = mode,
        wp_storage_domain = domain, wp_plan_revision = 1, wp_root_plans = map fst roots,
        wp_exceptional_transfer_approved = exceptional manifest available, wp_target_directory = target,
        wp_staging_directory = staging_directory, wp_reservations = map snd roots,
        wp_reuse_entry_ids = reuse_entry_ids\<rparr>)))))))))))))))))"

section \<open>A stored plan\<close>

definition mode_matches :: "DestinationModeV2 \<Rightarrow> DestinationDecisionV2 \<Rightarrow> bool" where
  "mode_matches mode decision \<longleftrightarrow>
     (mode, decision) \<in> {(DirectSave, UseDirectSave), (CopyAfterVerify, ContinueWithCopyAfterVerify)}"

definition validate_resume_destination ::
  "DestLibs \<Rightarrow> DestinationWritePlanV2 \<Rightarrow> ManifestOfferV2 \<Rightarrow> DestinationRequestV2 \<Rightarrow> ('z, unit) dest_op" where
  "validate_resume_destination dl plan offer request =
     (let manifest = of_manifest offer in
      bindM (liftM (validate_shape (dl_target dl) plan)) (\<lambda>_.
      bindM (io (fs_canonicalize (rq_target_directory request))) (\<lambda>target.
      bindM (liftM (rejectR (wp_job_id plan \<noteq> mf_job_id manifest \<or> wp_generation plan \<noteq> mf_generation manifest
          \<or> length (wp_root_plans plan) \<noteq> length (mf_roots manifest) \<or> wp_target_directory plan \<noteq> target
          \<or> so_stable_object_identity (wp_storage_domain plan) \<noteq> rq_stable_object_identity request
          \<or> \<not> mode_matches (wp_mode plan) (rq_decision request)
          \<or> wp_exceptional_transfer_approved plan \<and> \<not> rq_exceptional_transfer_approved request
          \<or> (case rq_preplanned_root_names request of None \<Rightarrow> False | Some roots \<Rightarrow> roots \<noteq> wp_root_plans plan))
        DP_InvalidEntryState)) (\<lambda>_.
      bindM (whenM (wp_mode plan = CopyAfterVerify)
        (bindM (liftM (ok_or (rq_copy_staging_directory request) DP_MissingCopyStaging)) (\<lambda>directory.
         bindM (io (fs_canonicalize directory)) (\<lambda>staging.
         liftM (rejectR (\<not> starts_with_path (wp_staging_directory plan) (staging @ [ascii ''envoix-staging-v2'']))
           DP_InvalidEntryState))))) (\<lambda>_.
      bindM (io (local_storage_domain (wp_target_directory plan) (so_stable_object_identity (wp_storage_domain plan))))
        (\<lambda>domain.
      bindM (liftM (rejectR (domain \<noteq> wp_storage_domain plan) DP_InvalidEntryState)) (\<lambda>_.
      bindM (if wp_mode plan = CopyAfterVerify then
               bindM (liftM (ok_or (rq_copy_staging_directory request) DP_MissingCopyStaging)) (\<lambda>directory.
               io (same_storage_domain (wp_target_directory plan) directory))
             else returnM False) (\<lambda>same_domain.
      liftM (validate_space manifest request (wp_mode plan) same_domain)))))))))"

text \<open>\<open>with_extension\<close>, and the durable replacement of a private file.\<close>

definition with_extension :: "dpath \<Rightarrow> str \<Rightarrow> dpath" where
  "with_extension path ext =
     (let name = last path;
          stem = (case rfind_dot name of Some offset \<Rightarrow> if offset > 0 then take offset name else name | None \<Rightarrow> name) in
      butlast path @ [stem @ ascii ''.'' @ ext])"

definition replace_file :: "dpath \<Rightarrow> dpath \<Rightarrow> ('z, unit) fs_op" where
  "replace_file source target =
     bindM (fs_rename_file source target) (\<lambda>_.
     bindM (checkM (\<lambda>p. if parent_ok p target then Inr () else Inl Fs_NotFound)) (\<lambda>_. fs_sync))"

definition write_private :: "dpath \<Rightarrow> bytes \<Rightarrow> ('z, unit) dest_op" where
  "write_private path bs =
     (let temporary = with_extension path (ascii ''tmp'') in
      bindM (io (fs_open_create True temporary)) (\<lambda>i.
      bindM (io (fs_write_at i 0 bs)) (\<lambda>_.
      bindM (io fs_sync) (\<lambda>_.
      io (replace_file temporary path)))))"

definition plan_path :: "dpath \<Rightarrow> JobIdV2 \<Rightarrow> u32 \<Rightarrow> dpath" where
  "plan_path directory job_id generation =
     directory @ [ascii ''destination-'' @ encode_job_id job_id @ ascii ''-'' @ decimal (unat generation) @ ascii ''.json'']"

definition plan_save :: "DestLibs \<Rightarrow> dpath \<Rightarrow> DestinationWritePlanV2 \<Rightarrow> ('z, unit) dest_op" where
  "plan_save dl directory plan =
     bindM (liftM (validate_shape (dl_target dl) plan)) (\<lambda>_.
     bindM (make_private directory) (\<lambda>_.
     bindM (liftM (ok_or (dl_plan_to_vec dl plan) (DP_Io Io_Other))) (\<lambda>bs.
     write_private (plan_path directory (wp_job_id plan) (wp_generation plan)) bs)))"

definition plan_load :: "DestLibs \<Rightarrow> dpath \<Rightarrow> JobIdV2 \<Rightarrow> u32 \<Rightarrow> ('z, DestinationWritePlanV2 option) dest_op" where
  "plan_load dl directory job_id generation =
     bindM (tryM (fs_read (plan_path directory job_id generation))) (\<lambda>bytes_read.
     case bytes_read of
       Inl Fs_NotFound \<Rightarrow> returnM None
     | Inl e \<Rightarrow> failM (DP_Io (from_io e))
     | Inr bs \<Rightarrow>
         bindM (liftM (ok_or (dl_plan_from_slice dl bs) (DP_Io Io_Other))) (\<lambda>plan.
         bindM (liftM (validate_shape (dl_target dl) plan)) (\<lambda>_.
         returnM (Some plan))))"

end
