(* ===== verification/Dest_Provider.thy ===== *)
theory Dest_Provider
  imports Dest_Create Engine_Receive
begin

text \<open>
  \<open>LocalDestinationProviderV2\<close>: the payload sink that stages files, verifies them and publishes the
  roots of a job. Calls that only look at a whole tree, or copy one, are one call each here: they
  fail as a whole, a copy after some of its nodes. \<open>pv_entropy\<close> are the answers of \<open>getrandom\<close>.
\<close>

record OpenPayload =
  op_file :: nat
  op_hashed :: bytes
  op_bytes :: u64

record ReuseObject =
  ro_file :: nat
  ro_size :: nat
  ro_digest :: ContentDigestV2
  ro_final_name :: str

record Provider = DestFs +
  pv_plan :: DestinationWritePlanV2
  pv_manifest :: ManifestV2
  pv_entry_paths :: "dpath list"
  pv_entry_overrides :: "str option list"
  pv_payloads :: "u32 \<rightharpoonup> OpenPayload"
  pv_reuse_objects :: "u32 \<rightharpoonup> ReuseObject"
  pv_save_ledger :: LocalSaveLedgerV2
  pv_entropy :: "bytes option list"

type_synonym ('z, 'a) pv_op = "('z Provider_scheme, DestinationPlanErrorV2, 'a) op"

type_synonym ('z, 'a) sink_op = "('z Provider_scheme, ManifestV2DataError, 'a) op"

abbreviation dest :: "('z, 'a) pv_op \<Rightarrow> ('z, 'a) sink_op" where
  "dest m \<equiv> mapE ME_Destination m"

abbreviation sink_io :: "('s, FsErrorKind, 'a) op \<Rightarrow> ('s, ManifestV2DataError, 'a) op" where
  "sink_io m \<equiv> mapE (\<lambda>e. ME_Io (from_io e)) m"

section \<open>Opening a provider\<close>

definition save_ledger_path :: "DestinationWritePlanV2 \<Rightarrow> dpath" where
  "save_ledger_path plan =
     ledgers_directory (wp_target_directory plan)
     @ [ascii ''save-'' @ encode_job_id (wp_job_id plan) @ ascii ''-'' @ decimal (unat (wp_generation plan)) @ ascii ''.json'']"

definition save_state_ok :: "Target \<Rightarrow> RootSaveStateV2 \<Rightarrow> bool" where
  "save_state_ok tg state =
     (case state of
        Root_Pending \<Rightarrow> True
      | FinalizeIntent intent \<Rightarrow>
          fi_plan_revision intent \<noteq> 0 \<and> fi_planned_name intent \<noteq> []
          \<and> has_reservation_extension (fi_reservation intent) \<and> fi_idempotency_key intent \<noteq> replicate 16 0
      | Root_Final result final_name \<Rightarrow>
          final_name \<noteq> [] \<and> provider_safe_component tg final_name = final_name)"

definition save_ledger_valid ::
  "Target \<Rightarrow> DestinationWritePlanV2 \<Rightarrow> ManifestV2 \<Rightarrow> ContentDigestV2 \<Rightarrow> LocalSaveLedgerV2 \<Rightarrow> bool" where
  "save_ledger_valid tg plan manifest manifest_digest ledger \<longleftrightarrow>
     sl_schema_version ledger = LOCAL_SAVE_LEDGER_SCHEMA_VERSION \<and> sl_job_id ledger = wp_job_id plan
     \<and> sl_generation ledger = wp_generation plan \<and> sl_manifest_digest ledger = manifest_digest
     \<and> length (sl_roots ledger) = length (mf_roots manifest) \<and> list_all (save_state_ok tg) (sl_roots ledger)"

definition adopt_plan :: "DestLibs \<Rightarrow> DestinationWritePlanV2 \<Rightarrow> ('z, DestinationWritePlanV2) dest_op" where
  "adopt_plan dl plan =
     (let directory = ledgers_directory (wp_target_directory plan) in
      bindM (plan_load dl directory (wp_job_id plan) (wp_generation plan)) (\<lambda>stored.
      case stored of
        None \<Rightarrow> bindM (plan_save dl directory plan) (\<lambda>_. returnM plan)
      | Some durable \<Rightarrow>
          bindM (liftM (rejectR (wp_plan_revision durable < wp_plan_revision plan
            \<or> wp_storage_domain durable \<noteq> wp_storage_domain plan
            \<or> wp_plan_revision durable = wp_plan_revision plan \<and> durable \<noteq> plan) DP_InvalidEntryState)) (\<lambda>_.
          returnM durable)))"

definition load_save_ledger ::
  "DestLibs \<Rightarrow> DestinationWritePlanV2 \<Rightarrow> ManifestV2 \<Rightarrow> ContentDigestV2 \<Rightarrow> ('z, LocalSaveLedgerV2) dest_op" where
  "load_save_ledger dl plan manifest manifest_digest =
     bindM (tryM (fs_read (save_ledger_path plan))) (\<lambda>bytes_read.
     case bytes_read of
       Inr bs \<Rightarrow> liftM (ok_or (dl_save_from_slice dl bs) (DP_Io Io_Other))
     | Inl Fs_NotFound \<Rightarrow>
         returnM \<lparr>sl_schema_version = LOCAL_SAVE_LEDGER_SCHEMA_VERSION, sl_job_id = wp_job_id plan,
                  sl_generation = wp_generation plan, sl_manifest_digest = manifest_digest,
                  sl_roots = replicate (length (mf_roots manifest)) Root_Pending\<rparr>
     | Inl e \<Rightarrow> failM (DP_Io (from_io e)))"

text \<open>What a new provider starts with, beside the file system and the manifest.\<close>

definition provider_new ::
  "DestLibs \<Rightarrow> DestinationWritePlanV2 \<Rightarrow> ManifestV2
     \<Rightarrow> ('z, DestinationWritePlanV2 \<times> dpath list \<times> str option list \<times> LocalSaveLedgerV2) dest_op" where
  "provider_new dl plan manifest =
     bindM (liftM (validate_shape (dl_target dl) plan)) (\<lambda>_.
     bindM (liftM (plan_fits plan manifest)) (\<lambda>_.
     bindM (io (local_storage_domain (wp_target_directory plan) (so_stable_object_identity (wp_storage_domain plan)))) (\<lambda>domain.
     bindM (liftM (rejectR (domain \<noteq> wp_storage_domain plan) DP_InvalidEntryState)) (\<lambda>_.
     bindM (io (fs_canonicalize (wp_target_directory plan))) (\<lambda>target.
     bindM (liftM (rejectR (target \<noteq> wp_target_directory plan) DP_InvalidEntryState)) (\<lambda>_.
     bindM (adopt_plan dl plan) (\<lambda>plan.
     bindM (io (fs_create_dir_all (wp_staging_directory plan))) (\<lambda>_.
     bindM (io (fs_canonicalize (wp_staging_directory plan))) (\<lambda>staging.
     bindM (liftM (rejectR (staging \<noteq> wp_staging_directory plan) DP_InvalidEntryState)) (\<lambda>_.
     bindM (io (restrict_private_directory (wp_staging_directory plan))) (\<lambda>_.
     bindM (liftM (build_entry_paths (dl_target dl) plan manifest)) (\<lambda>(paths, overrides).
     bindM (liftM (case build_manifest_offer_v2 (cy_hash (dl_crypto dl)) (cy_nfc (dl_crypto dl)) manifest of
                     Inl _ \<Rightarrow> Inl DP_InvalidEntryState | Inr offer \<Rightarrow> Inr (of_structural_digest offer))) (\<lambda>manifest_digest.
     bindM (load_save_ledger dl plan manifest manifest_digest) (\<lambda>ledger.
     bindM (liftM (rejectR (\<not> save_ledger_valid (dl_target dl) plan manifest manifest_digest ledger) DP_InvalidEntryState)) (\<lambda>_.
     returnM (plan, paths, overrides, ledger))))))))))))))))"

section \<open>Staging\<close>

definition entry_path_of :: "ManifestEntryV2 \<Rightarrow> 'z Provider_scheme \<Rightarrow> dpath" where
  "entry_path_of entry p = pv_entry_paths p ! unat (me_entry_id entry)"

definition begin_entry :: "ManifestEntryV2 \<Rightarrow> EntryStartV2 \<Rightarrow> u64 \<Rightarrow> ('z, unit) sink_op" where
  "begin_entry entry start next_plaintext_block =
     bindM (liftM (rejectR (me_kind entry \<noteq> RegularFile) (ME_Destination DP_InvalidEntryState))) (\<lambda>_.
     bindM (getM (entry_path_of entry)) (\<lambda>path.
     bindM (case parent_of path of None \<Rightarrow> returnM () | Some parent \<Rightarrow> sink_io (fs_create_dir_all parent)) (\<lambda>_.
     bindM (liftM (ok_or (checked_mul next_plaintext_block (ucast (es_plaintext_block_bytes start))) ME_ArithmeticOverflow))
       (\<lambda>product.
     let expected = min product (me_plaintext_size entry) in
     bindM (sink_io (fs_open_create False path)) (\<lambda>i.
     bindM (getM (\<lambda>p. length (df_content p i) \<noteq> unat expected)) (\<lambda>wrong.
     bindM (liftM (rejectR wrong (ME_Destination DP_InvalidEntryState))) (\<lambda>_.
     bindM (sink_io (fs_read_all i)) (\<lambda>content.
     modifyM (\<lambda>p. p\<lparr>pv_payloads := (pv_payloads p)(me_entry_id entry \<mapsto>
       \<lparr>op_file = i, op_hashed = take (unat expected) content, op_bytes = expected\<rparr>)\<rparr>)))))))))"

definition write_block :: "ManifestEntryV2 \<Rightarrow> EntryBlockV2 \<Rightarrow> ('z, unit) sink_op" where
  "write_block entry block =
     bindM (checkM (\<lambda>p. ok_or (pv_payloads p (me_entry_id entry)) (ME_Destination DP_InvalidEntryState))) (\<lambda>payload.
     bindM (liftM (rejectR (op_bytes payload \<noteq> bl_plaintext_offset block
         \<or> unat (bl_plaintext_length block) \<noteq> length (bl_encoded_bytes block)) (ME_Destination DP_InvalidEntryState))) (\<lambda>_.
     bindM (sink_io (fs_write_at (op_file payload) (unat (op_bytes payload)) (bl_encoded_bytes block))) (\<lambda>_.
     bindM (sink_io fs_sync) (\<lambda>_.
     bindM (modifyM (\<lambda>p. p\<lparr>pv_payloads := (pv_payloads p)(me_entry_id entry \<mapsto>
       payload\<lparr>op_hashed := op_hashed payload @ bl_encoded_bytes block\<rparr>)\<rparr>)) (\<lambda>_.
     bindM (liftM (ok_or (checked_add (op_bytes payload) (ucast (bl_plaintext_length block))) ME_ArithmeticOverflow)) (\<lambda>n.
     modifyM (\<lambda>p. p\<lparr>pv_payloads := (pv_payloads p)(me_entry_id entry \<mapsto>
       payload\<lparr>op_hashed := op_hashed payload @ bl_encoded_bytes block, op_bytes := n\<rparr>)\<rparr>)))))))"

definition try_open_reuse :: "DestLibs \<Rightarrow> ManifestEntryV2 \<Rightarrow> ContentDigestV2 \<Rightarrow> ('z, ReuseObject option) pv_op" where
  "try_open_reuse dl entry digest =
     bindM (getM (\<lambda>p. so_stable_object_identity (wp_storage_domain (pv_plan p)))) (\<lambda>stable.
     bindM (getM (\<lambda>p. mf_roots (pv_manifest p) ! unat (me_root_id entry))) (\<lambda>root.
     bindM (getM (\<lambda>p. wp_target_directory (pv_plan p))) (\<lambda>target.
     if \<not> stable \<or> me_entry_id entry \<noteq> mr_root_entry_id root \<or> me_kind entry \<noteq> RegularFile then returnM None
     else
       (let name = provider_safe_component (dl_target dl) (mr_requested_name root); candidate = target @ [name] in
        bindM (tryM (fs_metadata candidate)) (\<lambda>looked.
        case looked of
          Inl Fs_NotFound \<Rightarrow> returnM None
        | Inl e \<Rightarrow> failM (DP_Io (from_io e))
        | Inr node \<Rightarrow>
            bindM (getM (\<lambda>p. case node of N_File i \<Rightarrow> node_len p node = unat (me_plaintext_size entry) | _ \<Rightarrow> False))
              (\<lambda>fits.
            if \<not> fits then returnM None
            else
              bindM (io (fs_open candidate)) (\<lambda>i.
              bindM (io (hash_open_file dl i)) (\<lambda>candidate_digest.
              returnM (if candidate_digest \<noteq> digest then None
                       else Some \<lparr>ro_file = i, ro_size = unat (me_plaintext_size entry), ro_digest = digest,
                                  ro_final_name = name\<rparr>)))))))))"

definition drop_payload :: "ManifestEntryV2 \<Rightarrow> ('z, unit) sink_op" where
  "drop_payload entry = modifyM (\<lambda>p. p\<lparr>pv_payloads := (pv_payloads p)(me_entry_id entry := None)\<rparr>)"

definition try_choose_reuse :: "DestLibs \<Rightarrow> ManifestEntryV2 \<Rightarrow> ContentDigestV2 \<Rightarrow> ('z, bool) sink_op" where
  "try_choose_reuse dl entry digest =
     bindM (dest (try_open_reuse dl entry digest)) (\<lambda>found.
     case found of
       None \<Rightarrow> returnM False
     | Some reuse \<Rightarrow>
         bindM (drop_payload entry) (\<lambda>_.
         bindM (getM (entry_path_of entry)) (\<lambda>path.
         bindM (sink_io (remove_if_present path)) (\<lambda>_.
         bindM (modifyM (\<lambda>p. p\<lparr>pv_reuse_objects := (pv_reuse_objects p)(me_entry_id entry \<mapsto> reuse)\<rparr>)) (\<lambda>_.
         returnM True)))))"

definition verify_payload :: "DestLibs \<Rightarrow> ManifestEntryV2 \<Rightarrow> ContentDigestV2 \<Rightarrow> ('z, unit) sink_op" where
  "verify_payload dl entry final_digest =
     bindM (checkM (\<lambda>p. ok_or (pv_payloads p (me_entry_id entry)) (ME_Destination DP_InvalidEntryState))) (\<lambda>payload.
     bindM (sink_io fs_sync) (\<lambda>_.
     liftM (rejectR (op_bytes payload \<noteq> me_plaintext_size entry
       \<or> cy_hash (dl_crypto dl) (op_hashed payload) \<noteq> final_digest) ME_FinalMismatch)))"

definition stage_directory :: "ManifestEntryV2 \<Rightarrow> ('z, unit) sink_op" where
  "stage_directory entry = bindM (getM (entry_path_of entry)) (\<lambda>path. sink_io (fs_create_dir_all path))"

definition retire_payload :: "ManifestEntryV2 \<Rightarrow> ('z, unit) sink_op" where
  "retire_payload entry =
     bindM (drop_payload entry) (\<lambda>_.
     bindM (getM (entry_path_of entry)) (\<lambda>path.
     sink_io (remove_if_present path)))"

section \<open>Reconciling a resumed job\<close>

record ReconcilePlane = Provider +
  rn_ledger :: ReceiverDataPlaneLedgerV2
  rn_disk :: disk
  rn_saves :: "SaveIo list"

type_synonym 'a rn_op = "(ReconcilePlane, ManifestV2DataError, 'a) op"

definition reopen_reuse :: "DestLibs \<Rightarrow> u32 \<times> ContentDigestV2 \<Rightarrow> unit rn_op" where
  "reopen_reuse dl = (\<lambda>(entry_id, digest).
     bindM (getM (\<lambda>p. mf_entries (pv_manifest p) ! unat entry_id)) (\<lambda>entry.
     bindM (dest (try_open_reuse dl entry digest)) (\<lambda>found.
     bindM (liftM (ok_or found (ME_Destination DP_ReusedObjectLost))) (\<lambda>reuse.
     modifyM (\<lambda>p. p\<lparr>pv_reuse_objects := (pv_reuse_objects p)(entry_id \<mapsto> reuse)\<rparr>)))))"

definition reset_boundary :: "EngineLibs \<Rightarrow> u32 \<Rightarrow> unit rn_op" where
  "reset_boundary el entry_id p =
     (case reset_payload_checkpoint el (pv_manifest p) entry_id (next_save (rn_saves p)) (rn_ledger p, rn_disk p) of
        (r, l, disk) \<Rightarrow> (r, p\<lparr>rn_ledger := l, rn_disk := disk, rn_saves := tl (rn_saves p)\<rparr>))"

text \<open>Whether the root of an entry was published already, or is about to be, and is there.\<close>

definition root_published :: "ManifestEntryV2 \<Rightarrow> bool rn_op" where
  "root_published entry =
     bindM (getM (\<lambda>p. sl_roots (pv_save_ledger p) ! unat (me_root_id entry))) (\<lambda>state.
     case state of
       Root_Pending \<Rightarrow> returnM False
     | _ \<Rightarrow>
         bindM (checkM (\<lambda>p. ok_or (target_path_for_root (pv_plan p) (me_root_id entry)) (ME_Destination DP_InvalidEntryState)))
           (\<lambda>path. sink_io (fs_try_exists path)))"

definition boundary_owned :: "dpath \<Rightarrow> u64 \<Rightarrow> bool rn_op" where
  "boundary_owned path plaintext_bytes =
     bindM (tryM (fs_metadata path)) (\<lambda>looked.
     case looked of
       Inr node \<Rightarrow> getM (\<lambda>p. case node of N_File i \<Rightarrow> node_len p node = unat plaintext_bytes | _ \<Rightarrow> False)
     | Inl Fs_NotFound \<Rightarrow> returnM False
     | Inl e \<Rightarrow> failM (ME_Io (from_io e)))"

definition reconcile_boundary :: "EngineLibs \<Rightarrow> u32 \<times> u64 \<times> u64 \<times> bool \<Rightarrow> unit rn_op" where
  "reconcile_boundary el = (\<lambda>(entry_id, next_plaintext_block, plaintext_bytes, payload_complete).
     if next_plaintext_block = 0 \<and> \<not> payload_complete then returnM ()
     else
       bindM (getM (\<lambda>p. mf_entries (pv_manifest p) ! unat entry_id)) (\<lambda>entry.
       bindM (root_published entry) (\<lambda>published.
       if published then returnM ()
       else
         bindM (getM (\<lambda>p. pv_entry_paths p ! unat entry_id)) (\<lambda>path.
         bindM (boundary_owned path plaintext_bytes) (\<lambda>owned.
         if owned then returnM ()
         else
           bindM (sink_io (remove_if_present path)) (\<lambda>_.
           reset_boundary el entry_id))))))"

definition reconcile_resume :: "DestLibs \<Rightarrow> EngineLibs \<Rightarrow> unit rn_op" where
  "reconcile_resume dl el =
     bindM (getM (\<lambda>p. pending_reuse_entries (rn_ledger p))) (\<lambda>reuses.
     bindM (forM reuses (reopen_reuse dl)) (\<lambda>_.
     bindM (getM (\<lambda>p. pending_payload_boundaries (rn_ledger p))) (\<lambda>boundaries.
     forM boundaries (reconcile_boundary el))))"

end
