(* ===== verification/Dest_Commit.thy ===== *)
theory Dest_Commit
  imports Dest_Provider
begin

text \<open>
  \<open>LocalDestinationProviderV2::commit_job\<close>: publishing the verified roots of a job. A walk of a tree
  takes the names below its root in the order they were made, which puts a directory before its
  content.
\<close>

section \<open>Trees\<close>

text \<open>The names strictly below a directory, relative to it.\<close>

definition tree_names :: "'z DestFs_scheme \<Rightarrow> dpath \<Rightarrow> dpath list" where
  "tree_names p base = map (drop (length base)) (filter (\<lambda>q. below base q \<and> q \<noteq> base) (map fst (df_names p)))"

definition fs_walk :: "dpath \<Rightarrow> ('z, dpath list) fs_op" where
  "fs_walk base = fs_call (checkM (\<lambda>p.
     case resolve p base of
       None \<Rightarrow> Inl Fs_NotFound
     | Some (N_Dir _) \<Rightarrow> Inr (tree_names p base)
     | Some _ \<Rightarrow> Inl Fs_Other))"

definition copy_file :: "dpath \<Rightarrow> dpath \<Rightarrow> ('z, unit) fs_op" where
  "copy_file source target =
     bindM (fs_read source) (\<lambda>content.
     bindM (fs_write target content) (\<lambda>_.
     bindM (fs_open target) (\<lambda>_. fs_sync)))"

definition copy_tree :: "dpath \<Rightarrow> dpath \<Rightarrow> ('z, unit) fs_op" where
  "copy_tree source target =
     bindM (fs_metadata source) (\<lambda>node.
     case node of
       N_File _ \<Rightarrow>
         bindM (case parent_of target of None \<Rightarrow> returnM () | Some parent \<Rightarrow> fs_create_dir_all parent) (\<lambda>_.
         copy_file source target)
     | _ \<Rightarrow>
         bindM (fs_create_dir_all target) (\<lambda>_.
         bindM (fs_walk source) (\<lambda>names.
         forM names (\<lambda>name.
           bindM (fs_symlink_metadata (source @ name)) (\<lambda>child.
           case child of
             N_Dir _ \<Rightarrow> fs_create_dir (target @ name)
           | N_File _ \<Rightarrow> copy_file (source @ name) (target @ name)
           | N_Link _ \<Rightarrow> failM Fs_Other)))))"

definition remove_private_staging_path :: "dpath \<Rightarrow> ('z, unit) fs_op" where
  "remove_private_staging_path path =
     bindM (tryM (fs_symlink_metadata path)) (\<lambda>looked.
     case looked of
       Inr (N_Dir _) \<Rightarrow> fs_remove_dir_all path
     | Inr _ \<Rightarrow> fs_remove_file path
     | Inl Fs_NotFound \<Rightarrow> returnM ()
     | Inl e \<Rightarrow> failM e)"

definition sync_tree_directories :: "DestLibs \<Rightarrow> dpath \<Rightarrow> ('z, unit) fs_op" where
  "sync_tree_directories dl path =
     (if tg_os (dl_target dl) = Os_Windows then returnM ()
      else
        bindM (fs_symlink_metadata path) (\<lambda>node.
        case node of
          N_Link _ \<Rightarrow> failM Fs_Other
        | N_File _ \<Rightarrow> returnM ()
        | N_Dir _ \<Rightarrow>
            bindM (fs_walk path) (\<lambda>names.
            bindM (forM names (\<lambda>name.
              bindM (fs_symlink_metadata (path @ name)) (\<lambda>child.
              case child of N_Link _ \<Rightarrow> failM Fs_Other | _ \<Rightarrow> returnM ()))) (\<lambda>_.
            fs_sync))))"

definition sync_rename_directories :: "DestLibs \<Rightarrow> dpath \<Rightarrow> dpath \<Rightarrow> ('z, unit) fs_op" where
  "sync_rename_directories dl source target =
     (if tg_os (dl_target dl) = Os_Windows then returnM ()
      else
        bindM (liftM (ok_or (parent_of source) Fs_Other)) (\<lambda>source_parent.
        bindM (liftM (ok_or (parent_of target) Fs_Other)) (\<lambda>target_parent.
        bindM (fs_metadata source_parent) (\<lambda>_.
        bindM fs_sync (\<lambda>_.
        whenM (source_parent \<noteq> target_parent) (bindM (fs_metadata target_parent) (\<lambda>_. fs_sync)))))))"

section \<open>The content of a root\<close>

definition root_entries :: "ManifestV2 \<Rightarrow> u32 \<Rightarrow> ManifestEntryV2 list" where
  "root_entries manifest root_id = filter (\<lambda>entry. me_root_id entry = root_id) (mf_entries manifest)"

fun root_content_bytes :: "VerifiedEntryV2 list \<Rightarrow> ManifestEntryV2 list \<Rightarrow> DestinationPlanErrorV2 + bytes" where
  "root_content_bytes verified [] = Inr []"
| "root_content_bytes verified (entry # rest) =
     (case vec_get verified (unat (me_entry_id entry)) of
        None \<Rightarrow> Inl DP_InvalidEntryState
      | Some v \<Rightarrow>
          if vf_entry_id v \<noteq> me_entry_id entry then Inl DP_InvalidEntryState
          else
            bindR (root_content_bytes verified rest) (\<lambda>later.
            Inr (u32_to_be (me_entry_id entry) @ [kind_tag (me_kind entry)] @ u64_to_be (me_plaintext_size entry)
              @ (case vf_final_digest v of Some digest \<Rightarrow> 1 # digest | None \<Rightarrow> [0]) @ later)))"

definition root_content_digest ::
  "DestLibs \<Rightarrow> ManifestV2 \<Rightarrow> VerifiedEntryV2 list \<Rightarrow> u32 \<Rightarrow> DestinationPlanErrorV2 + ContentDigestV2" where
  "root_content_digest dl manifest verified root_id =
     bindR (root_content_bytes verified (root_entries manifest root_id)) (\<lambda>bs.
     Inr (cy_derive (dl_crypto dl) ''envoix/manifest/v2/root-content'' bs))"

definition node_inode :: "FsNode \<Rightarrow> nat" where
  "node_inode node = (case node of N_File i \<Rightarrow> i | N_Dir i \<Rightarrow> i | N_Link _ \<Rightarrow> 0)"

definition is_link :: "FsNode \<Rightarrow> bool" where
  "is_link node = (case node of N_Link _ \<Rightarrow> True | _ \<Rightarrow> False)"

definition object_identity :: "DestLibs \<Rightarrow> dpath \<Rightarrow> ContentDigestV2 \<Rightarrow> bool \<Rightarrow> ('z, ObjectIdentityV2) dest_op" where
  "object_identity dl path exact_content stable_object_identity =
     bindM (io (fs_symlink_metadata path)) (\<lambda>node.
     bindM (liftM (rejectR (is_link node) DP_InvalidEntryState)) (\<lambda>_.
     if \<not> stable_object_identity \<or> tg_os (dl_target dl) = Os_Windows then returnM (ExactContent exact_content)
     else getM (\<lambda>p. Stable_Object (df_volume p path) (node_inode node))))"

text \<open>One entry of a root on the disk: its kind, its size and its digest.\<close>

definition node_fits :: "'z DestFs_scheme \<Rightarrow> ManifestEntryV2 \<Rightarrow> FsNode \<Rightarrow> bool" where
  "node_fits p entry node =
     (case (me_kind entry, node) of
        (Directory, N_Dir _) \<Rightarrow> True
      | (RegularFile, N_File _) \<Rightarrow> node_len p node = unat (me_plaintext_size entry)
      | _ \<Rightarrow> False)"

definition verify_entry :: "DestLibs \<Rightarrow> VerifiedEntryV2 list \<Rightarrow> ManifestEntryV2 \<Rightarrow> dpath \<Rightarrow> ('z, unit) dest_op" where
  "verify_entry dl verified entry path =
     bindM (io (fs_symlink_metadata path)) (\<lambda>node.
     bindM (getM (\<lambda>p. node_fits p entry node)) (\<lambda>fits.
     bindM (liftM (rejectR (\<not> fits) DP_LateCollision)) (\<lambda>_.
     if me_kind entry \<noteq> RegularFile then returnM ()
     else
       bindM (liftM (ok_or (vf_final_digest (verified ! unat (me_entry_id entry))) DP_InvalidEntryState)) (\<lambda>expected.
       bindM (io (fs_open path)) (\<lambda>i.
       bindM (io (hash_open_file dl i)) (\<lambda>digest.
       liftM (rejectR (digest \<noteq> expected) DP_LateCollision)))))))"

definition physical_path ::
  "str option list \<Rightarrow> ManifestRootV2 \<Rightarrow> dpath \<Rightarrow> dpath list \<Rightarrow> ManifestEntryV2 \<Rightarrow> DestinationPlanErrorV2 + dpath" where
  "physical_path overrides root final_root physical entry =
     (if me_entry_id entry = mr_root_entry_id root then Inr final_root
      else
        bindR (ok_or (Option.bind (me_parent_entry_id entry) (\<lambda>parent. vec_get physical (unat parent)))
          DP_InvalidEntryState) (\<lambda>parent.
        Inr (parent @ [case overrides ! unat (me_entry_id entry) of Some name \<Rightarrow> name | None \<Rightarrow> me_component entry])))"

text \<open>The paths of the entries checked so far, by entry id.\<close>

fun verify_entries ::
  "DestLibs \<Rightarrow> VerifiedEntryV2 list \<Rightarrow> str option list \<Rightarrow> ManifestRootV2 \<Rightarrow> dpath \<Rightarrow> dpath list \<Rightarrow> dpath list
     \<Rightarrow> ManifestEntryV2 list \<Rightarrow> ('z, dpath list) dest_op" where
  "verify_entries dl verified overrides root final_root physical expected [] = returnM expected"
| "verify_entries dl verified overrides root final_root physical expected (entry # rest) =
     bindM (liftM (physical_path overrides root final_root physical entry)) (\<lambda>path.
     bindM (verify_entry dl verified entry path) (\<lambda>_.
     verify_entries dl verified overrides root final_root (physical[unat (me_entry_id entry) := path])
       (path # expected) rest))"

definition nothing_else :: "dpath \<Rightarrow> dpath list \<Rightarrow> ('z, unit) dest_op" where
  "nothing_else final_root expected =
     bindM (io (fs_walk final_root)) (\<lambda>names.
     forM names (\<lambda>name.
       bindM (io (fs_symlink_metadata (final_root @ name))) (\<lambda>node.
       liftM (rejectR (is_link node \<or> final_root @ name \<notin> set expected) DP_LateCollision))))"

definition verify_exact_root ::
  "DestLibs \<Rightarrow> dpath \<Rightarrow> ManifestV2 \<Rightarrow> VerifiedEntryV2 list \<Rightarrow> u32 \<Rightarrow> str option list \<Rightarrow> ('z, unit) dest_op" where
  "verify_exact_root dl final_root manifest verified root_id overrides =
     bindM (liftM (case vec_get (mf_roots manifest) (unat root_id) of
                     Some root \<Rightarrow> if mr_root_id root = root_id then Inr root else Inl DP_InvalidEntryState
                   | None \<Rightarrow> Inl DP_InvalidEntryState)) (\<lambda>root.
     bindM (verify_entries dl verified overrides root final_root
       ((replicate (length (mf_entries manifest)) [])[unat (mr_root_entry_id root) := final_root]) []
       (root_entries manifest root_id)) (\<lambda>expected.
     whenM (me_kind (mf_entries manifest ! unat (mr_root_entry_id root)) = Directory)
       (nothing_else final_root expected)))"

definition verify_adopted_root ::
  "DestLibs \<Rightarrow> dpath \<Rightarrow> ObjectIdentityV2 \<Rightarrow> ManifestV2 \<Rightarrow> VerifiedEntryV2 list \<Rightarrow> u32 \<Rightarrow> str option list \<Rightarrow> bool
     \<Rightarrow> ('z, unit) dest_op" where
  "verify_adopted_root dl final_path expected_object manifest verified root_id overrides stable_id =
     (case expected_object of
        Stable_Object volume object \<Rightarrow>
          bindM (liftM (root_content_digest dl manifest verified root_id)) (\<lambda>digest.
          bindM (object_identity dl final_path digest stable_id) (\<lambda>found.
          liftM (rejectR (found \<noteq> expected_object) DP_LateCollision)))
      | ExactContent root_digest \<Rightarrow>
          bindM (verify_exact_root dl final_path manifest verified root_id overrides) (\<lambda>_.
          bindM (liftM (root_content_digest dl manifest verified root_id)) (\<lambda>digest.
          liftM (rejectR (digest \<noteq> root_digest) DP_LateCollision))))"

section \<open>The finalization source\<close>

definition root_staging_path :: "DestinationWritePlanV2 \<Rightarrow> u32 \<Rightarrow> dpath" where
  "root_staging_path plan root_id = wp_staging_directory plan @ [ascii ''root-'' @ decimal (unat root_id)]"

definition copy_root_path :: "DestinationWritePlanV2 \<Rightarrow> u32 \<Rightarrow> dpath" where
  "copy_root_path plan root_id =
     staging_root (wp_target_directory plan) @ [encode_job_id (wp_job_id plan), ascii ''copy-root-'' @ decimal (unat root_id)]"

definition finalization_source_path :: "DestinationWritePlanV2 \<Rightarrow> u32 \<Rightarrow> dpath" where
  "finalization_source_path plan root_id =
     (if wp_mode plan = CopyAfterVerify then copy_root_path plan root_id else root_staging_path plan root_id)"

definition verify_copy :: "DestLibs \<Rightarrow> dpath \<Rightarrow> VerifiedEntryV2 list \<Rightarrow> u32 \<Rightarrow> ('z, unit) pv_op" where
  "verify_copy dl path verified root_id =
     bindM (getM (\<lambda>p. (pv_manifest p, pv_entry_overrides p))) (\<lambda>(manifest, overrides).
     verify_exact_root dl path manifest verified root_id overrides)"

definition make_copy :: "DestLibs \<Rightarrow> dpath \<Rightarrow> dpath \<Rightarrow> VerifiedEntryV2 list \<Rightarrow> u32 \<Rightarrow> ('z, dpath) pv_op" where
  "make_copy dl source destination_local verified root_id =
     (let partial = with_extension destination_local (ascii ''partial'') in
      bindM (io (remove_private_staging_path partial)) (\<lambda>_.
      bindM (io (copy_tree source partial)) (\<lambda>_.
      bindM (io (sync_tree_directories dl partial)) (\<lambda>_.
      bindM (verify_copy dl partial verified root_id) (\<lambda>_.
      bindM (io (exclusive_rename partial destination_local)) (\<lambda>_.
      bindM (io (sync_rename_directories dl partial destination_local)) (\<lambda>_.
      returnM destination_local)))))))"

definition prepare_finalization_source :: "DestLibs \<Rightarrow> u32 \<Rightarrow> VerifiedEntryV2 list \<Rightarrow> ('z, dpath) pv_op" where
  "prepare_finalization_source dl root_id verified =
     bindM (getM pv_plan) (\<lambda>plan.
     let source = root_staging_path plan root_id; destination_local = copy_root_path plan root_id in
     if wp_mode plan \<noteq> CopyAfterVerify then returnM source
     else
       bindM (io (fs_try_exists destination_local)) (\<lambda>copied.
       if \<not> copied then make_copy dl source destination_local verified root_id
       else
         bindM (tryM (verify_copy dl destination_local verified root_id)) (\<lambda>checked.
         case checked of
           Inr () \<Rightarrow> returnM destination_local
         | Inl e \<Rightarrow>
             (case e of
                DP_LateCollision \<Rightarrow>
                  bindM (io (remove_private_staging_path destination_local)) (\<lambda>_.
                  make_copy dl source destination_local verified root_id)
              | DP_Io _ \<Rightarrow>
                  bindM (io (remove_private_staging_path destination_local)) (\<lambda>_.
                  make_copy dl source destination_local verified root_id)
              | _ \<Rightarrow> failM e))))"

definition finalize_root_source :: "DestLibs \<Rightarrow> u32 \<Rightarrow> dpath \<Rightarrow> ('z, unit) pv_op" where
  "finalize_root_source dl root_id source =
     bindM (getM pv_plan) (\<lambda>plan.
     bindM (liftM (ok_or (target_path_for_root plan root_id) DP_InvalidEntryState)) (\<lambda>final_path.
     bindM (io (fs_try_exists (wp_reservations plan ! unat root_id))) (\<lambda>reserved.
     bindM (liftM (rejectR (\<not> reserved) DP_ReservationLost)) (\<lambda>_.
     bindM (mapE (\<lambda>e. if e = Fs_AlreadyExists then DP_LateCollision else DP_Io (from_io e))
       (exclusive_rename source final_path)) (\<lambda>_.
     io (sync_rename_directories dl source final_path))))))"

section \<open>The ledger of saves\<close>

definition save_effect_ledger :: "DestLibs \<Rightarrow> ('z, unit) pv_op" where
  "save_effect_ledger dl =
     bindM (getM (\<lambda>p. save_ledger_path (pv_plan p))) (\<lambda>path.
     bindM (make_private (butlast path)) (\<lambda>_.
     bindM (checkM (\<lambda>p. ok_or (dl_save_to_vec dl (pv_save_ledger p)) (DP_Io Io_Other))) (\<lambda>bs.
     write_private path bs)))"

definition set_root_state :: "u32 \<Rightarrow> RootSaveStateV2 \<Rightarrow> ('z Provider_scheme, 'e, unit) op" where
  "set_root_state root_id state = modifyM (\<lambda>p. p\<lparr>pv_save_ledger := (pv_save_ledger p)\<lparr>sl_roots :=
     (sl_roots (pv_save_ledger p))[unat root_id := state]\<rparr>\<rparr>)"

definition root_state :: "u32 \<Rightarrow> 'z Provider_scheme \<Rightarrow> RootSaveStateV2" where
  "root_state root_id p = sl_roots (pv_save_ledger p) ! unat root_id"

text \<open>\<open>getrandom::fill\<close>: the next of \<open>pv_entropy\<close>, a failure once the list is over.\<close>

definition entropy_fill :: "('z, bytes) pv_op" where
  "entropy_fill p =
     (case pv_entropy p of
        Some bs # rest \<Rightarrow> (Inr bs, p\<lparr>pv_entropy := rest\<rparr>)
      | _ \<Rightarrow> (Inl (DP_Io Io_Other), p\<lparr>pv_entropy := tl (pv_entropy p)\<rparr>))"

definition persist_new_save_intent :: "DestLibs \<Rightarrow> u32 \<Rightarrow> ObjectIdentityV2 \<Rightarrow> ('z, unit) pv_op" where
  "persist_new_save_intent dl root_id expected_object =
     bindM (getM pv_plan) (\<lambda>plan.
     bindM (liftM (case vec_get (wp_root_plans plan) (unat root_id) of
                     Some root \<Rightarrow> if rp_root_id root = root_id then Inr root else Inl DP_InvalidEntryState
                   | None \<Rightarrow> Inl DP_InvalidEntryState)) (\<lambda>root_plan.
     bindM (liftM (ok_or (vec_get (wp_reservations plan) (unat root_id)) DP_InvalidEntryState)) (\<lambda>reservation.
     bindM entropy_fill (\<lambda>idempotency_key.
     bindM (set_root_state root_id (FinalizeIntent \<lparr>fi_expected_object = expected_object,
       fi_plan_revision = wp_plan_revision plan, fi_planned_name = rp_planned_name root_plan,
       fi_reservation = reservation, fi_idempotency_key = idempotency_key\<rparr>)) (\<lambda>_.
     save_effect_ledger dl)))))"

definition intent_current :: "DestinationWritePlanV2 \<Rightarrow> nat \<Rightarrow> FinalizeIntentV2 \<Rightarrow> bool" where
  "intent_current plan index intent \<longleftrightarrow>
     fi_plan_revision intent = wp_plan_revision plan
     \<and> fi_planned_name intent = rp_planned_name (wp_root_plans plan ! index)
     \<and> fi_reservation intent = wp_reservations plan ! index \<and> fi_idempotency_key intent \<noteq> replicate 16 0"

definition current_intent_object :: "u32 \<Rightarrow> ('z, ObjectIdentityV2) pv_op" where
  "current_intent_object root_id = checkM (\<lambda>p.
     case vec_get (sl_roots (pv_save_ledger p)) (unat root_id) of
       Some (FinalizeIntent intent) \<Rightarrow>
         if intent_current (pv_plan p) (unat root_id) intent then Inr (fi_expected_object intent)
         else Inl DP_InvalidEntryState
     | _ \<Rightarrow> Inl DP_InvalidEntryState)"

section \<open>Commit\<close>

definition stable_objects :: "'z Provider_scheme \<Rightarrow> bool" where
  "stable_objects p = so_stable_object_identity (wp_storage_domain (pv_plan p))"

definition check_reused :: "DestLibs \<Rightarrow> VerifiedEntryV2 \<Rightarrow> ('z, unit) sink_op" where
  "check_reused dl verified =
     whenM (vf_completion_choice verified = Comp_ReuseChosen)
       (bindM (checkM (\<lambda>p. ok_or (pv_reuse_objects p (vf_entry_id verified)) (ME_Destination DP_ReusedObjectLost))) (\<lambda>reuse.
        bindM (getM (\<lambda>p. length (df_content p (ro_file reuse)))) (\<lambda>size_now.
        bindM (liftM (rejectR (size_now \<noteq> ro_size reuse) (ME_Destination DP_ReusedObjectLost))) (\<lambda>_.
        bindM (sink_io (hash_open_file dl (ro_file reuse))) (\<lambda>digest.
        liftM (rejectR (digest \<noteq> ro_digest reuse) (ME_Destination DP_ReusedObjectLost)))))))"

definition record_final :: "DestLibs \<Rightarrow> u32 \<Rightarrow> SavedRootResultV2 \<Rightarrow> str \<Rightarrow> ('z, unit) sink_op" where
  "record_final dl root_id result final_name =
     bindM (set_root_state root_id (Root_Final result final_name)) (\<lambda>_. dest (save_effect_ledger dl))"

definition commit_reused_root :: "DestLibs \<Rightarrow> ManifestRootV2 \<Rightarrow> ('z, unit) sink_op" where
  "commit_reused_root dl root =
     bindM (checkM (\<lambda>p. ok_or (pv_reuse_objects p (mr_root_entry_id root)) (ME_Destination DP_ReusedObjectLost))) (\<lambda>reuse.
     bindM (getM (root_state (mr_root_id root))) (\<lambda>state.
     case state of
       Root_Final Root_ReusedExisting _ \<Rightarrow> returnM ()
     | _ \<Rightarrow> record_final dl (mr_root_id root) Root_ReusedExisting (ro_final_name reuse)))"

text \<open>The source of a root, with its tree synced and its identity stored as the intent.\<close>

definition stage_intent ::
  "DestLibs \<Rightarrow> VerifiedEntryV2 list \<Rightarrow> u32 \<Rightarrow> ContentDigestV2 \<Rightarrow> ('z, dpath) sink_op" where
  "stage_intent dl verified root_id expected_root_digest =
     bindM (dest (prepare_finalization_source dl root_id verified)) (\<lambda>source.
     bindM (sink_io (sync_tree_directories dl source)) (\<lambda>_.
     bindM (getM stable_objects) (\<lambda>stable_id.
     bindM (dest (object_identity dl source expected_root_digest stable_id)) (\<lambda>expected_object.
     bindM (dest (persist_new_save_intent dl root_id expected_object)) (\<lambda>_.
     returnM source)))))"

definition ensure_intent ::
  "DestLibs \<Rightarrow> VerifiedEntryV2 list \<Rightarrow> u32 \<Rightarrow> ContentDigestV2 \<Rightarrow> ('z, unit) sink_op" where
  "ensure_intent dl verified root_id expected_root_digest =
     bindM (getM (root_state root_id)) (\<lambda>state.
     bindM (getM pv_plan) (\<lambda>plan.
     case state of
       Root_Pending \<Rightarrow> bindM (stage_intent dl verified root_id expected_root_digest) (\<lambda>_. returnM ())
     | FinalizeIntent intent \<Rightarrow>
         if fi_plan_revision intent < wp_plan_revision plan
         then dest (persist_new_save_intent dl root_id (fi_expected_object intent))
         else bindM (dest (current_intent_object root_id)) (\<lambda>_. returnM ())
     | Root_Final _ _ \<Rightarrow> failM (ME_Destination DP_InvalidEntryState)))"

definition contended :: "DestinationPlanErrorV2 \<Rightarrow> ManifestV2DataError" where
  "contended e = ME_Destination (if e = DP_LateCollision then DP_DestinationContended else e)"

definition publish_root ::
  "DestLibs \<Rightarrow> ManifestV2 \<Rightarrow> VerifiedEntryV2 list \<Rightarrow> u32 \<Rightarrow> ContentDigestV2 \<Rightarrow> ('z, unit) sink_op" where
  "publish_root dl manifest verified root_id expected_root_digest =
     bindM (dest (current_intent_object root_id)) (\<lambda>expected_object.
     bindM (getM (\<lambda>p. finalization_source_path (pv_plan p) root_id)) (\<lambda>source.
     bindM (checkM (\<lambda>p. ok_or (target_path_for_root (pv_plan p) root_id) (ME_Destination DP_InvalidEntryState)))
       (\<lambda>final_path.
     bindM (getM stable_objects) (\<lambda>stable_id.
     bindM (sink_io (fs_try_exists source)) (\<lambda>source_there.
     if source_there then
       bindM (dest (object_identity dl source expected_root_digest stable_id)) (\<lambda>found.
       bindM (liftM (rejectR (found \<noteq> expected_object) (ME_Destination DP_InvalidEntryState))) (\<lambda>_.
       mapE contended (finalize_root_source dl root_id source)))
     else
       bindM (sink_io (fs_try_exists final_path)) (\<lambda>final_there.
       if final_there then
         bindM (getM pv_entry_overrides) (\<lambda>overrides.
         mapE contended (verify_adopted_root dl final_path expected_object manifest verified root_id overrides stable_id))
       else
         bindM (getM (\<lambda>p. wp_mode (pv_plan p))) (\<lambda>mode.
         if mode = CopyAfterVerify then
           bindM (stage_intent dl verified root_id expected_root_digest) (\<lambda>copied.
           mapE contended (finalize_root_source dl root_id copied))
         else failM (ME_Destination DP_InvalidEntryState))))))))"

definition commit_root :: "DestLibs \<Rightarrow> ManifestV2 \<Rightarrow> VerifiedEntryV2 list \<Rightarrow> ManifestRootV2 \<Rightarrow> ('z, unit) sink_op" where
  "commit_root dl manifest verified root =
     (if vf_completion_choice (verified ! unat (mr_root_entry_id root)) = Comp_ReuseChosen
      then commit_reused_root dl root
      else
        bindM (getM (root_state (mr_root_id root))) (\<lambda>state.
        case state of
          Root_Final Root_Saved _ \<Rightarrow> returnM ()
        | _ \<Rightarrow>
            bindM (liftM (map_err ME_Destination (root_content_digest dl manifest verified (mr_root_id root)))) (\<lambda>digest.
            bindM (ensure_intent dl verified (mr_root_id root) digest) (\<lambda>_.
            bindM (publish_root dl manifest verified (mr_root_id root) digest) (\<lambda>_.
            bindM (getM (\<lambda>p. rp_planned_name (wp_root_plans (pv_plan p) ! unat (mr_root_id root)))) (\<lambda>final_name.
            record_final dl (mr_root_id root) Root_Saved final_name))))))"

definition saved_override ::
  "'z Provider_scheme \<Rightarrow> ManifestV2 \<Rightarrow> ManifestEntryV2 \<Rightarrow> ManifestV2DataError + str option" where
  "saved_override p manifest entry =
     (let root = mf_roots manifest ! unat (me_root_id entry) in
      if me_entry_id entry = mr_root_entry_id root then
        (case root_state (mr_root_id root) p of
           Root_Final _ final_name \<Rightarrow> Inr (override_of final_name (me_component entry))
         | _ \<Rightarrow> Inl (ME_Destination DP_InvalidEntryState))
      else Inr (pv_entry_overrides p ! unat (me_entry_id entry)))"

fun saved_entries ::
  "'z Provider_scheme \<Rightarrow> ManifestV2 \<Rightarrow> (ManifestEntryV2 \<times> VerifiedEntryV2) list \<Rightarrow> ManifestV2DataError + SavedEntryV2 list" where
  "saved_entries p manifest [] = Inr []"
| "saved_entries p manifest ((entry, verified) # rest) =
     bindR (saved_override p manifest entry) (\<lambda>override_name.
     bindR (saved_entries p manifest rest) (\<lambda>later.
     Inr (\<lparr>sv_entry_id = me_entry_id entry, sv_result = expected_result (vf_completion_choice verified),
           sv_final_component_override = override_name\<rparr> # later)))"

definition commit_job :: "DestLibs \<Rightarrow> ManifestV2 \<Rightarrow> VerifiedEntryV2 list \<Rightarrow> ('z, SavedEntryV2 list) sink_op" where
  "commit_job dl manifest verified =
     bindM (checkM (\<lambda>p. rejectR (mf_job_id manifest \<noteq> mf_job_id (pv_manifest p)
         \<or> length verified \<noteq> length (mf_entries manifest)) (ME_Destination DP_InvalidEntryState))) (\<lambda>_.
     bindM (forM verified (check_reused dl)) (\<lambda>_.
     bindM (modifyM (\<lambda>p. p\<lparr>pv_payloads := Map.empty\<rparr>)) (\<lambda>_.
     bindM (forM (mf_roots manifest) (commit_root dl manifest verified)) (\<lambda>_.
     bindM (checkM (\<lambda>p. saved_entries p manifest (zip (mf_entries manifest) verified))) (\<lambda>results.
     bindM (getM (\<lambda>p. wp_reservations (pv_plan p))) (\<lambda>reservations.
     bindM (forM reservations (\<lambda>reservation. sink_io (remove_if_present reservation))) (\<lambda>_.
     returnM results)))))))"

text \<open>The provider as the payload sink of the receiver.\<close>

definition local_destination_provider :: "DestLibs \<Rightarrow> 'z Provider_scheme PayloadSink" where
  "local_destination_provider dl =
     \<lparr>sk_begin_entry = begin_entry, sk_write_block = write_block, sk_try_choose_reuse = try_choose_reuse dl,
      sk_verify_payload = verify_payload dl, sk_stage_directory = stage_directory, sk_commit_job = commit_job dl,
      sk_retire_payload = retire_payload\<rparr>"

end
