(* ===== verification/Dest_Spare.thy ===== *)
theory Dest_Spare
  imports Dest_Commit
begin

text \<open>
  What the destination leaves alone. \<open>yields I V m\<close> says that the operation keeps the invariant \<open>I\<close>,
  also when it fails, and that its value satisfies \<open>V\<close>. \<open>spares\<close> is the invariant of a file system
  whose files outside the private directories are those of the user.
\<close>

section \<open>Operations that keep an invariant\<close>

definition yields :: "('s \<Rightarrow> bool) \<Rightarrow> ('a \<Rightarrow> bool) \<Rightarrow> ('s, 'e, 'a) op \<Rightarrow> bool" where
  "yields I V m \<longleftrightarrow> (\<forall>p. I p \<longrightarrow> wp m (\<lambda>a t. I t \<and> V a) (\<lambda>_ t. I t) p)"

abbreviation keeps :: "('s \<Rightarrow> bool) \<Rightarrow> ('s, 'e, 'a) op \<Rightarrow> bool" where
  "keeps I m \<equiv> yields I (\<lambda>_. True) m"

named_theorems keep_rules

lemma yieldsI: "(\<And>p a t. I p \<Longrightarrow> m p = (Inr a, t) \<Longrightarrow> I t \<and> V a) \<Longrightarrow> (\<And>p e t. I p \<Longrightarrow> m p = (Inl e, t) \<Longrightarrow> I t) \<Longrightarrow> yields I V m"
  unfolding yields_def by (intro allI impI wpI) blast+

lemma yieldsD: "yields I V m \<Longrightarrow> I p \<Longrightarrow> m p = (Inr a, t) \<Longrightarrow> I t \<and> V a" "yields I V m \<Longrightarrow> I p \<Longrightarrow> m p = (Inl e, t) \<Longrightarrow> I t"
  unfolding yields_def by (auto dest: wpD)

lemma keepsI: "(\<And>p. I p \<Longrightarrow> I (snd (m p))) \<Longrightarrow> keeps I m"
  by (rule yieldsI) (metis snd_conv)+

lemma keepsD: "keeps I m \<Longrightarrow> I p \<Longrightarrow> I (snd (m p))"
  by (cases "m p"; cases "fst (m p)") (auto simp: yields_def wp_def)

lemma yields_bind: "yields I V m \<Longrightarrow> (\<And>a. V a \<Longrightarrow> yields I W (f a)) \<Longrightarrow> yields I W (bindM m f)"
  unfolding yields_def wp_bind by (blast intro: wp_mono)

lemma yields_weaken: "yields I V m \<Longrightarrow> keeps I m"
  unfolding yields_def by (blast intro: wp_mono)

lemma keeps_bind [keep_rules]: "keeps I m \<Longrightarrow> (\<And>a. yields I W (f a)) \<Longrightarrow> yields I W (bindM m f)"
  by (rule yields_bind)

lemma keeps_basic [keep_rules]:
  "keeps I (getM g)" "keeps I (checkM c)" "keeps I (liftM r)" "yields I V (failM e)"
  by (auto simp: yields_def split: sum.split)

lemma yields_return [keep_rules]: "V a \<Longrightarrow> yields I V (returnM a)"
  by (simp add: yields_def)

lemma yields_get: "(\<And>p. I p \<Longrightarrow> V (g p)) \<Longrightarrow> yields I V (getM g)"
  by (simp add: yields_def)

lemma yields_check: "(\<And>p a. I p \<Longrightarrow> c p = Inr a \<Longrightarrow> V a) \<Longrightarrow> yields I V (checkM c)"
  by (auto simp: yields_def split: sum.split)

lemma yields_lift: "(\<And>a. r = Inr a \<Longrightarrow> V a) \<Longrightarrow> yields I V (liftM r)"
  by (auto simp: yields_def split: sum.split)

lemma keeps_modify: "(\<And>p. I p \<Longrightarrow> I (h p)) \<Longrightarrow> keeps I (modifyM h)"
  by (simp add: yields_def)

lemma yields_if [keep_rules]: "(c \<Longrightarrow> yields I V m) \<Longrightarrow> (\<not> c \<Longrightarrow> yields I V n) \<Longrightarrow> yields I V (if c then m else n)"
  by simp

lemma keeps_when [keep_rules]: "(c \<Longrightarrow> keeps I m) \<Longrightarrow> keeps I (whenM c m)"
  by (simp add: whenM_def yields_return)

lemma keeps_for [keep_rules]: "(\<And>x. x \<in> set xs \<Longrightarrow> keeps I (f x)) \<Longrightarrow> keeps I (forM xs f)"
  by (induction xs) (auto intro!: keep_rules)

lemma yields_mapE [keep_rules]: "yields I V m \<Longrightarrow> yields I V (mapE g m)"
  by (fastforce simp: yields_def wp_def mapE_def map_err_def split: prod.splits sum.splits)

lemma keeps_tryM [keep_rules]: "keeps I m \<Longrightarrow> keeps I (tryM m)"
  by (rule keepsI) (auto simp: tryM_def dest: keepsD split: prod.split)

lemma keeps_ignore [keep_rules]: "keeps I m \<Longrightarrow> keeps I (ignoreM m)"
  by (rule keepsI) (auto simp: ignoreM_def dest: keepsD)

section \<open>The user's files\<close>

text \<open>A name of ours leads to a directory or to a file of ours, never through a link.\<close>

definition own_node :: "(nat \<rightharpoonup> bytes) \<Rightarrow> FsNode \<Rightarrow> bool" where
  "own_node contents node = (case node of N_File i \<Rightarrow> contents i = None | N_Dir _ \<Rightarrow> True | N_Link _ \<Rightarrow> False)"

definition spares :: "(dpath \<Rightarrow> bool) \<Rightarrow> (dpath \<rightharpoonup> FsNode) \<Rightarrow> (nat \<rightharpoonup> bytes) \<Rightarrow> 'z DestFs_scheme \<Rightarrow> bool" where
  "spares priv names contents p \<longleftrightarrow>
     (\<forall>q node. names q = Some node \<longrightarrow> \<not> priv q \<and> lookup_name p q = Some node)
     \<and> (\<forall>i bs. contents i = Some bs \<longrightarrow> df_content p i = bs \<and> i < df_next p)
     \<and> (\<forall>(q, node) \<in> set (df_names p). priv q \<longrightarrow> own_node contents node)"

lemma below_append: "below base q \<longleftrightarrow> (\<exists>r. q = base @ r)"
proof
  assume "below base q"
  then have "q = base @ drop (length base) q"
    by (metis append_take_drop_id below_def starts_with_path_def)
  then show "\<exists>r. q = base @ r" ..
qed (auto simp: below_def starts_with_path_def)

lemma set_alist_update: "set (AList.update k v xs) \<subseteq> insert (k, v) (set xs)"
  by (induction xs) auto

lemma map_of_filter_key: "P q \<Longrightarrow> map_of (filter (\<lambda>(k, _). P k) xs) q = map_of xs q"
  by (induction xs) auto

lemma map_of_moved:
  "\<not> below source q \<Longrightarrow> \<not> below target q \<Longrightarrow>
     map_of (map (\<lambda>(k, v). (if below source k then target @ drop (length source) k else k, v)) xs) q = map_of xs q"
  by (induction xs) (auto simp: below_append)

locale spared =
  fixes priv :: "dpath \<Rightarrow> bool" and names :: "dpath \<rightharpoonup> FsNode" and contents :: "nat \<rightharpoonup> bytes"
    and rest :: "'z DestFs_scheme \<Rightarrow> bool"
  assumes deeper: "priv q \<Longrightarrow> priv (q @ r)"
    and blind: "DestFs.more s = DestFs.more t \<Longrightarrow> rest s = rest t"
begin

definition kept :: "'z DestFs_scheme \<Rightarrow> bool" where
  "kept p \<longleftrightarrow> spares priv names contents p \<and> rest p"

lemma keptI: "spares priv names contents q \<Longrightarrow> DestFs.more q = DestFs.more p \<Longrightarrow> kept p \<Longrightarrow> kept q"
  using blind [of q p] by (simp add: kept_def)

lemma kept_faults [simp]: "kept (p\<lparr>df_faults := fs\<rparr>) = kept p"
  using blind [of "p\<lparr>df_faults := fs\<rparr>" p] by (simp add: kept_def spares_def)

lemma user_name: "kept p \<Longrightarrow> names q = Some node \<Longrightarrow> \<not> priv q \<and> lookup_name p q = Some node"
  by (simp add: kept_def spares_def)

lemma own_name: "kept p \<Longrightarrow> priv q \<Longrightarrow> lookup_name p q = Some node \<Longrightarrow> own_node contents node"
  by (auto simp: kept_def spares_def dest: map_of_SomeD)

lemma call_yields:
  assumes "yields kept V m"
  shows "yields kept V (fs_call m)"
proof (rule yieldsI)
  show "kept t \<and> V a" if p: "kept p" and r: "fs_call m p = (Inr a, t)" for p a t
    using r yieldsD(1) [OF assms, of "p\<lparr>df_faults := tl (df_faults p)\<rparr>" a t] yieldsD(1) [OF assms p, of a t] p
    by (cases "df_faults p") (auto simp: fs_call_def split: option.splits)
  show "kept t" if p: "kept p" and r: "fs_call m p = (Inl e, t)" for p e t
    using r yieldsD(2) [OF assms, of "p\<lparr>df_faults := tl (df_faults p)\<rparr>" e t] yieldsD(2) [OF assms p, of e t] p
    by (cases "df_faults p") (auto simp: fs_call_def split: option.splits)
qed

lemma look_keeps [keep_rules]:
  "keeps kept (fs_metadata path)" "keeps kept (fs_symlink_metadata path)" "keeps kept (fs_try_exists path)"
  "keeps kept (fs_canonicalize path)" "keeps kept (fs_read_dir path)" "keeps kept (fs_open path)"
  "keeps kept (fs_read_all i)" "keeps kept fs_sync" "keeps kept (fs_walk path)"
  by (auto simp: fs_metadata_def fs_symlink_metadata_def fs_try_exists_def fs_canonicalize_def fs_read_dir_def
      fs_open_def fs_read_all_def fs_sync_def fs_walk_def intro!: call_yields keep_rules)

lemma read_keeps [keep_rules]: "keeps kept (fs_read path)"
  by (auto simp: fs_read_def intro!: keep_rules)

section \<open>Changes\<close>

lemma bind_new:
  assumes "kept p" "lookup_name p path = None" "own_node contents node"
  shows "kept (bind_name path node p)"
proof (rule keptI [OF _ _ assms(1)])
  have "q \<noteq> path" if "names q = Some n" for q n
    using user_name [OF assms(1) that] assms(2) by auto
  then show "spares priv names contents (bind_name path node p)"
    using assms set_alist_update [of path node "df_names p"]
    by (fastforce simp: kept_def spares_def bind_name_def update_conv)
qed (simp add: bind_name_def)

lemma bind_private:
  assumes "kept p" "priv path" "own_node contents node"
  shows "kept (bind_name path node p)"
proof (rule keptI [OF _ _ assms(1)])
  have "q \<noteq> path" if "names q = Some n" for q n
    using user_name [OF assms(1) that] assms(2) by auto
  then show "spares priv names contents (bind_name path node p)"
    using assms set_alist_update [of path node "df_names p"]
    by (fastforce simp: kept_def spares_def bind_name_def update_conv)
qed (simp add: bind_name_def)

lemma fresh_inode: "kept p \<Longrightarrow> contents (df_next p) = None"
  by (cases "contents (df_next p)") (auto simp: kept_def spares_def)

lemma advance: "kept p \<Longrightarrow> kept (p\<lparr>df_next := df_next p + 1\<rparr>)"
  by (rule keptI [of _ p]) (auto simp: kept_def spares_def intro: less_SucI)

lemma set_content: "kept p \<Longrightarrow> contents i = None \<Longrightarrow> kept (p\<lparr>df_content := (df_content p)(i := bs)\<rparr>)"
  by (rule keptI [of _ p]) (auto simp: kept_def spares_def)

lemma add_dir_kept: "kept p \<Longrightarrow> lookup_name p path = None \<Longrightarrow> kept (add_dir path p)"
  using advance [OF bind_new [of p path "N_Dir (df_next p)"]] by (simp add: add_dir_def bind_name_def own_node_def)

lemma add_file_kept:
  assumes "kept p" "lookup_name p path = None"
  shows "kept (add_file path p)"
proof -
  note own = fresh_inode [OF assms(1)]
  have "kept (bind_name path (N_File (df_next p)) p)"
    by (rule bind_new) (simp_all add: assms own_node_def own)
  from set_content [OF advance [OF this], of "df_next p" "[]"] show ?thesis
    using own by (simp add: add_file_def bind_name_def)
qed

lemma drop_names_kept:
  assumes "kept p" "\<And>q. \<not> P q \<Longrightarrow> priv q"
  shows "kept (p\<lparr>df_names := filter (\<lambda>(q, _). P q) (df_names p)\<rparr>)"
proof (rule keptI [OF _ _ assms(1)])
  have "P q" if "names q = Some n" for q n
    using user_name [OF assms(1) that] assms(2) by blast
  then show "spares priv names contents (p\<lparr>df_names := filter (\<lambda>(q, _). P q) (df_names p)\<rparr>)"
    using assms(1) by (fastforce simp: kept_def spares_def map_of_filter_key)
qed simp

lemma make_dirs_kept: "kept p \<Longrightarrow> kept (snd (make_dirs paths p))"
  by (induction paths p rule: make_dirs.induct) (auto intro: add_dir_kept split: option.split FsNode.split)

lemma create_dir_all_keeps [keep_rules]: "keeps kept (fs_create_dir_all path)"
  unfolding fs_create_dir_all_def by (intro call_yields keepsI make_dirs_kept)

lemma create_dir_keeps [keep_rules]: "keeps kept (fs_create_dir path)"
  unfolding fs_create_dir_def by (intro call_yields keepsI) (auto intro: add_dir_kept)

lemma create_new_yields: "yields kept (\<lambda>i. contents i = None) (fs_create_new path)"
  unfolding fs_create_new_def
  by (intro call_yields yieldsI) (auto intro: add_file_kept fresh_inode split: if_splits)

lemma open_create_yields:
  assumes "priv path"
  shows "yields kept (\<lambda>i. contents i = None) (fs_open_create trunc path)"
  unfolding fs_open_create_def
proof (intro call_yields yieldsI)
  show "kept t \<and> contents i = None"
    if p: "kept p" and r: "(case resolve p path of
       Some (N_File i) \<Rightarrow>
         (Inr i, if trunc then p\<lparr>df_content := (df_content p)(i := [])\<rparr> else p)
     | Some _ \<Rightarrow> (Inl Fs_Other, p)
     | None \<Rightarrow>
         if lookup_name p path \<noteq> None then (Inl Fs_NotFound, p)
         else if \<not> parent_ok p path then (Inl Fs_NotFound, p)
         else (Inr (df_next p), add_file path p)) = (Inr i, t)" for p i t
    using r own_name [OF p assms] p
    by (auto simp: resolve_def own_node_def set_content fresh_inode add_file_kept
        split: option.splits FsNode.splits if_splits)
qed (auto intro: set_content split: option.splits FsNode.splits if_splits)

lemma write_keeps [keep_rules]: "contents i = None \<Longrightarrow> keeps kept (fs_write_at i pos bs)"
  using set_content [of "p\<lparr>df_faults := fs\<rparr>" i for p fs]
  by (intro keepsI) (simp add: fs_write_at_def write_at_def set_content split: list.split option.split)

lemma remove_file_keeps [keep_rules]: "priv path \<Longrightarrow> keeps kept (fs_remove_file path)"
  unfolding fs_remove_file_def
  by (intro call_yields keepsI) (auto intro!: drop_names_kept split: option.split FsNode.split)

lemma remove_if_present_keeps [keep_rules]:
  assumes "priv path"
  shows "keeps kept (remove_if_present path)"
proof (rule keepsI)
  show "kept (snd (remove_if_present path p))" if "kept p" for p
    using keepsD [OF remove_file_keeps [OF assms] that]
    by (auto simp: remove_if_present_def split: prod.split sum.split FsErrorKind.split)
qed

lemma remove_dir_all_keeps [keep_rules]: "priv path \<Longrightarrow> keeps kept (fs_remove_dir_all path)"
  unfolding fs_remove_dir_all_def
  by (intro call_yields keepsI) (auto intro!: drop_names_kept deeper simp: below_append)

lemma rename_file_keeps [keep_rules]:
  assumes "priv source" "priv target"
  shows "keeps kept (fs_rename_file source target)"
proof -
  have "kept (bind_name target (N_File i) (p\<lparr>df_names := filter (\<lambda>(q, _). q \<noteq> source) (df_names p)\<rparr>))"
    if "kept p" "lookup_name p source = Some (N_File i)" for p i
    using own_name [OF that(1) assms(1) that(2)] assms that(1)
    by (intro bind_private drop_names_kept) auto
  then show ?thesis
    unfolding fs_rename_file_def
    by (intro call_yields keepsI) (auto split: option.split FsNode.split)
qed

lemma move_tree_kept:
  assumes p: "kept p" and source: "priv source" and free: "\<not> list_ex (below target) (map fst (df_names p))"
  shows "kept (move_tree source target p)"
proof (rule keptI [OF _ _ p])
  have "lookup_name (move_tree source target p) q = Some node" if "names q = Some node" for q node
  proof -
    note user = user_name [OF p that]
    have "(q, node) \<in> set (df_names p)"
      using user by (simp add: map_of_SomeD)
    then have "\<not> below target q"
      using free by (fastforce simp: list_ex_iff)
    moreover have "\<not> below source q"
      using user deeper [OF source] by (auto simp: below_append)
    ultimately show ?thesis
      using user by (simp add: move_tree_def map_of_moved)
  qed
  moreover have "own_node contents node" if q: "(q, node) \<in> set (df_names (move_tree source target p))" "priv q" for q node
  proof -
    obtain k where "(k, node) \<in> set (df_names p)" "below source k \<or> k = q"
      using q(1) by (auto simp: move_tree_def split: if_splits)
    then show ?thesis
      using p q(2) deeper [OF source] by (auto simp: kept_def spares_def below_append)
  qed
  ultimately show "spares priv names contents (move_tree source target p)"
    using p user_name [OF p] unfolding spares_def kept_def by (auto simp del: set_map) (simp_all add: move_tree_def)
qed (simp add: move_tree_def)

lemma exclusive_rename_keeps [keep_rules]: "priv source \<Longrightarrow> keeps kept (exclusive_rename source target)"
  unfolding exclusive_rename_def by (intro call_yields keepsI) (auto intro: move_tree_kept)

section \<open>Whole operations\<close>

lemma private_name: "priv directory \<Longrightarrow> priv (directory @ [name])"
  by (rule deeper)

lemma with_extension_private: "priv (butlast path) \<Longrightarrow> priv (with_extension path ext)"
  unfolding with_extension_def Let_def by (rule deeper)

lemma whole_private: "priv (butlast path) \<Longrightarrow> path \<noteq> [] \<Longrightarrow> priv path"
  using deeper [of "butlast path" "[last path]"] by simp

lemma write_file_keeps [keep_rules]: "priv path \<Longrightarrow> keeps kept (fs_write path bs)"
  unfolding fs_write_def by (rule yields_bind [OF open_create_yields]) (auto intro: keep_rules)

lemma hash_keeps [keep_rules]: "keeps kept (hash_open_file dl i)"
  unfolding hash_open_file_def by (intro keep_rules TrueI)

lemma make_private_keeps [keep_rules]: "keeps kept (make_private path)"
  unfolding make_private_def restrict_private_directory_def by (intro keep_rules TrueI)

lemma replace_keeps [keep_rules]: "priv source \<Longrightarrow> priv target \<Longrightarrow> keeps kept (replace_file source target)"
  unfolding replace_file_def by (intro keep_rules)

lemma write_private_keeps [keep_rules]:
  "priv (butlast path) \<Longrightarrow> path \<noteq> [] \<Longrightarrow> keeps kept (write_private path bs)"
  unfolding write_private_def Let_def
  by (rule yields_bind [OF yields_mapE [OF open_create_yields]])
    (auto intro!: keep_rules with_extension_private whole_private)

lemma copy_file_keeps [keep_rules]: "priv target \<Longrightarrow> keeps kept (copy_file source target)"
  unfolding copy_file_def by (intro keep_rules)

lemma copy_tree_keeps [keep_rules]: "priv target \<Longrightarrow> keeps kept (copy_tree source target)"
  unfolding copy_tree_def
  by (intro keep_rules) (auto intro!: keep_rules deeper split: FsNode.split option.split)

lemma remove_staging_keeps [keep_rules]: "priv path \<Longrightarrow> keeps kept (remove_private_staging_path path)"
  unfolding remove_private_staging_path_def
  by (intro keep_rules) (auto intro!: keep_rules split: sum.split FsNode.split FsErrorKind.split)

lemma sync_tree_keeps [keep_rules]: "keeps kept (sync_tree_directories dl path)"
  unfolding sync_tree_directories_def
  by (auto intro!: keep_rules split: FsNode.split)

lemma sync_rename_keeps [keep_rules]: "keeps kept (sync_rename_directories dl source target)"
  unfolding sync_rename_directories_def by (auto intro!: keep_rules)

lemma object_identity_keeps [keep_rules]: "keeps kept (object_identity dl path digest stable_id)"
  unfolding object_identity_def by (auto intro!: keep_rules)

lemma verify_entry_keeps [keep_rules]: "keeps kept (verify_entry dl verified entry path)"
  unfolding verify_entry_def by (auto intro!: keep_rules)

lemma verify_entries_keeps [keep_rules]:
  "keeps kept (verify_entries dl verified overrides root final_root physical expected entries)"
  by (induction entries arbitrary: physical expected) (auto intro!: keep_rules)

lemma verify_root_keeps [keep_rules]: "keeps kept (verify_exact_root dl final_root manifest verified root_id overrides)"
  unfolding verify_exact_root_def nothing_else_def by (auto intro!: keep_rules)

lemma verify_adopted_keeps [keep_rules]:
  "keeps kept (verify_adopted_root dl path expected manifest verified root_id overrides stable_id)"
  unfolding verify_adopted_root_def by (auto intro!: keep_rules split: ObjectIdentityV2.split)

end

end
