(* ===== verification/Dest_Provider_Spare.thy ===== *)
theory Dest_Provider_Spare
  imports Dest_Spare
begin

text \<open>
  The provider changes nothing outside its private directories: the invariant \<open>guarded\<close> of its
  state is kept by every operation of the sink, whatever fails.
\<close>

definition private_path :: "DestinationWritePlanV2 \<Rightarrow> dpath \<Rightarrow> bool" where
  "private_path plan q \<longleftrightarrow>
     below (wp_staging_directory plan) q \<or> below (staging_root (wp_target_directory plan)) q
     \<or> below (ledgers_directory (wp_target_directory plan)) q \<or> below (reservations_directory (wp_target_directory plan)) q"

definition provider_rest :: "DestinationWritePlanV2 \<Rightarrow> dpath list \<Rightarrow> (nat \<rightharpoonup> bytes) \<Rightarrow> 'z Provider_scheme \<Rightarrow> bool" where
  "provider_rest plan paths contents s \<longleftrightarrow>
     pv_plan s = plan \<and> pv_entry_paths s = paths \<and> (\<forall>q \<in> set paths. private_path plan q)
     \<and> (\<forall>r \<in> set (wp_reservations plan). private_path plan r)
     \<and> (\<forall>e payload. pv_payloads s e = Some payload \<longrightarrow> contents (op_file payload) = None)"

lemma private_deeper: "private_path plan q \<Longrightarrow> private_path plan (q @ r)"
  by (auto simp: private_path_def below_append)

lemma provider_rest_blind:
  fixes s t :: "'z Provider_scheme"
  shows "DestFs.more s = DestFs.more t \<Longrightarrow> provider_rest plan paths contents s = provider_rest plan paths contents t"
  by (cases s; cases t) (simp add: provider_rest_def)

interpretation own: spared "private_path plan" names contents "provider_rest plan paths contents"
  for plan names contents paths
  by unfold_locales (auto intro: private_deeper dest: provider_rest_blind)

abbreviation guarded ::
  "DestinationWritePlanV2 \<Rightarrow> dpath list \<Rightarrow> (dpath \<rightharpoonup> FsNode) \<Rightarrow> (nat \<rightharpoonup> bytes) \<Rightarrow> 'z Provider_scheme \<Rightarrow> bool" where
  "guarded plan paths names contents \<equiv>
     spared.kept (private_path plan) names contents (provider_rest plan paths contents)"

lemma guarded_iff:
  "guarded plan paths names contents s \<longleftrightarrow>
     spares (private_path plan) names contents s \<and> provider_rest plan paths contents s"
  by (rule own.kept_def)

lemma guarded_updates [simp]:
  "guarded plan paths names contents (s\<lparr>pv_save_ledger := l\<rparr>) = guarded plan paths names contents s"
  "guarded plan paths names contents (s\<lparr>pv_entropy := x\<rparr>) = guarded plan paths names contents s"
  "guarded plan paths names contents (s\<lparr>pv_reuse_objects := r\<rparr>) = guarded plan paths names contents s"
  by (simp_all add: guarded_iff spares_def provider_rest_def)

lemma guarded_payloads:
  "guarded plan paths names contents s \<Longrightarrow> (\<And>e payload. m e = Some payload \<Longrightarrow> contents (op_file payload) = None)
     \<Longrightarrow> guarded plan paths names contents (s\<lparr>pv_payloads := m\<rparr>)"
  by (simp add: guarded_iff spares_def provider_rest_def)

lemma guarded_payload:
  "guarded plan paths names contents s \<Longrightarrow> pv_payloads s e = Some payload \<Longrightarrow> contents (op_file payload) = None"
  by (simp add: guarded_iff provider_rest_def)

lemma guarded_insert:
  "guarded plan paths names contents s \<Longrightarrow> contents (op_file x) = None \<Longrightarrow>
     guarded plan paths names contents (s\<lparr>pv_payloads := (pv_payloads s)(e \<mapsto> x)\<rparr>)"
  using guarded_payload [of plan names contents paths s] by (intro guarded_payloads) (auto split: if_splits)

lemma guarded_remove:
  "guarded plan paths names contents s \<Longrightarrow> guarded plan paths names contents (s\<lparr>pv_payloads := (pv_payloads s)(e := None)\<rparr>)"
  using guarded_payload [of plan names contents paths s] by (intro guarded_payloads) (auto split: if_splits)

lemma plan_yields:
  "yields (guarded plan paths names contents) (\<lambda>a. a = f plan) (getM (\<lambda>p. f (pv_plan p)))"
  "yields (guarded plan paths names contents) (\<lambda>a. a = plan) (getM pv_plan)"
  by (auto intro!: yields_get simp: guarded_iff provider_rest_def)

lemma private_places:
  "private_path plan (root_staging_path plan root_id)" "private_path plan (copy_root_path plan root_id)"
  "private_path plan (butlast (copy_root_path plan root_id))" "private_path plan (finalization_source_path plan root_id)"
  "private_path plan (butlast (save_ledger_path plan))" "save_ledger_path plan \<noteq> []"
  by (auto simp: private_path_def below_append root_staging_path_def copy_root_path_def finalization_source_path_def
      save_ledger_path_def butlast_append)

section \<open>Commit\<close>

lemma verify_copy_keeps [keep_rules]: "keeps (guarded plan paths names contents) (verify_copy dl path verified root_id)"
  unfolding verify_copy_def by (auto intro!: keep_rules)

lemma make_copy_yields:
  "private_path plan (butlast destination_local) \<Longrightarrow> private_path plan destination_local \<Longrightarrow>
     yields (guarded plan paths names contents) (private_path plan) (make_copy dl source destination_local verified root_id)"
  unfolding make_copy_def Let_def
  by (intro keep_rules own.with_extension_private)

lemma prepare_yields:
  "yields (guarded plan paths names contents) (private_path plan) (prepare_finalization_source dl root_id verified)"
  unfolding prepare_finalization_source_def Let_def
proof (rule yields_bind [OF plan_yields(2)], clarsimp simp: private_places, intro conjI impI)
  note copy = make_copy_yields [OF private_places(3,2)]
  show "yields (guarded plan paths names contents) (private_path plan)
     (bindM (io (fs_try_exists (copy_root_path plan root_id))) (\<lambda>copied.
       if \<not> copied then make_copy dl (root_staging_path plan root_id) (copy_root_path plan root_id) verified root_id
       else
         bindM (tryM (verify_copy dl (copy_root_path plan root_id) verified root_id)) (\<lambda>checked.
         case checked of
           Inr () \<Rightarrow> returnM (copy_root_path plan root_id)
         | Inl e \<Rightarrow>
             (case e of
                DP_LateCollision \<Rightarrow>
                  bindM (io (remove_private_staging_path (copy_root_path plan root_id))) (\<lambda>_.
                  make_copy dl (root_staging_path plan root_id) (copy_root_path plan root_id) verified root_id)
              | DP_Io _ \<Rightarrow>
                  bindM (io (remove_private_staging_path (copy_root_path plan root_id))) (\<lambda>_.
                  make_copy dl (root_staging_path plan root_id) (copy_root_path plan root_id) verified root_id)
              | _ \<Rightarrow> failM e))))"
    by (auto intro!: keep_rules copy private_places split: sum.split unit.split DestinationPlanErrorV2.split)
qed (auto intro!: keep_rules private_places)

lemma finalize_keeps [keep_rules]:
  "private_path plan source \<Longrightarrow> keeps (guarded plan paths names contents) (finalize_root_source dl root_id source)"
  unfolding finalize_root_source_def by (auto intro!: keep_rules)

lemma save_effect_keeps [keep_rules]: "keeps (guarded plan paths names contents) (save_effect_ledger dl)"
  unfolding save_effect_ledger_def
  by (rule yields_bind [OF plan_yields(1)], simp only:) (intro keep_rules private_places)

lemma set_root_state_keeps [keep_rules]: "keeps (guarded plan paths names contents) (set_root_state root_id state)"
  unfolding set_root_state_def by (rule keeps_modify) simp

lemma entropy_keeps [keep_rules]: "keeps (guarded plan paths names contents) entropy_fill"
  by (rule keepsI) (auto simp: entropy_fill_def split: list.split option.split)

lemma persist_keeps [keep_rules]: "keeps (guarded plan paths names contents) (persist_new_save_intent dl root_id object)"
  unfolding persist_new_save_intent_def by (intro keep_rules)

lemma current_intent_keeps [keep_rules]: "keeps (guarded plan paths names contents) (current_intent_object root_id)"
  unfolding current_intent_object_def by (intro keep_rules)

lemma stage_intent_yields:
  "yields (guarded plan paths names contents) (private_path plan) (stage_intent dl verified root_id digest)"
  unfolding stage_intent_def
  by (rule yields_bind [OF yields_mapE [OF prepare_yields]]) (intro keep_rules)

lemma ensure_intent_keeps [keep_rules]:
  "keeps (guarded plan paths names contents) (ensure_intent dl verified root_id digest)"
  unfolding ensure_intent_def
  by (intro keep_rules) (auto intro!: keep_rules yields_weaken [OF stage_intent_yields] split: RootSaveStateV2.split)

lemma publish_keeps [keep_rules]:
  "keeps (guarded plan paths names contents) (publish_root dl manifest verified root_id digest)"
  unfolding publish_root_def
  by (rule keeps_bind, intro keep_rules, rule yields_bind [OF plan_yields(1)], simp only:)
    (assumption | rule yields_bind [OF stage_intent_yields] keep_rules private_places)+

lemma commit_root_keeps [keep_rules]:
  "keeps (guarded plan paths names contents) (commit_root dl manifest verified root)"
  unfolding commit_root_def commit_reused_root_def record_final_def
  by (auto intro!: keep_rules split: RootSaveStateV2.split SavedRootResultV2.split)

lemma check_reused_keeps [keep_rules]: "keeps (guarded plan paths names contents) (check_reused dl verified)"
  unfolding check_reused_def by (intro keep_rules)

lemma commit_job_keeps: "keeps (guarded plan paths names contents) (commit_job dl manifest verified)"
proof -
  have reservations: "yields (guarded plan paths names contents) (\<lambda>rs. \<forall>r \<in> set rs. private_path plan r)
      (getM (\<lambda>p. wp_reservations (pv_plan p)))"
    by (rule yields_get) (auto simp: guarded_iff provider_rest_def)
  show ?thesis
    unfolding commit_job_def
    by (intro keep_rules keeps_modify yields_bind [OF reservations]) (auto intro: guarded_payloads)
qed

section \<open>Staging\<close>

lemma entry_path_yields:
  "unat (me_entry_id entry) < length paths \<Longrightarrow>
     yields (guarded plan paths names contents) (private_path plan) (getM (entry_path_of entry))"
  by (rule yields_get) (auto simp: guarded_iff provider_rest_def entry_path_of_def)

lemma drop_payload_keeps [keep_rules]: "keeps (guarded plan paths names contents) (drop_payload entry)"
  unfolding drop_payload_def
  by (rule keeps_modify) (rule guarded_remove)

lemma insert_keeps:
  "contents (op_file x) = None \<Longrightarrow>
     keeps (guarded plan paths names contents) (modifyM (\<lambda>p. p\<lparr>pv_payloads := (pv_payloads p)(e \<mapsto> x)\<rparr>))"
  by (rule keeps_modify) (rule guarded_insert)

lemma begin_entry_keeps:
  assumes "unat (me_entry_id entry) < length paths"
  shows "keeps (guarded plan paths names contents) (begin_entry entry start n)"
proof -
  show ?thesis
    unfolding begin_entry_def Let_def
    by (intro keep_rules yields_bind [OF entry_path_yields [OF assms]]
        yields_bind [OF yields_mapE [OF own.open_create_yields]])
      (auto intro!: keep_rules insert_keeps split: option.split)
qed

lemma write_block_keeps: "keeps (guarded plan paths names contents) (write_block entry block)"
proof -
  have payload: "yields (guarded plan paths names contents) (\<lambda>payload. contents (op_file payload) = None)
      (checkM (\<lambda>p. ok_or (pv_payloads p (me_entry_id entry)) (ME_Destination DP_InvalidEntryState)))"
    by (rule yields_check) (auto simp: ok_or_def dest: guarded_payload split: option.splits)
  show ?thesis
    unfolding write_block_def
    by (rule yields_bind [OF payload]) (auto intro!: keep_rules insert_keeps)
qed

lemma try_open_reuse_keeps [keep_rules]:
  "keeps (guarded plan paths names contents) (try_open_reuse dl entry digest)"
  unfolding try_open_reuse_def Let_def
  by (auto intro!: keep_rules split: sum.split FsErrorKind.split)

lemma try_choose_reuse_keeps:
  assumes "unat (me_entry_id entry) < length paths"
  shows "keeps (guarded plan paths names contents) (try_choose_reuse dl entry digest)"
proof -
  have "keeps (guarded plan paths names contents)
      (modifyM (\<lambda>p. p\<lparr>pv_reuse_objects := (pv_reuse_objects p)(e \<mapsto> reuse)\<rparr>))" for e reuse
    by (rule keeps_modify) simp
  then show ?thesis
    unfolding try_choose_reuse_def
    by (auto intro!: keep_rules yields_bind [OF entry_path_yields [OF assms]] split: option.split)
qed

lemma verify_payload_keeps: "keeps (guarded plan paths names contents) (verify_payload dl entry digest)"
  unfolding verify_payload_def by (intro keep_rules)

lemma stage_directory_keeps: "keeps (guarded plan paths names contents) (stage_directory entry)"
  unfolding stage_directory_def by (intro keep_rules)

lemma retire_payload_keeps:
  assumes "unat (me_entry_id entry) < length paths"
  shows "keeps (guarded plan paths names contents) (retire_payload entry)"
  unfolding retire_payload_def
  by (auto intro!: keep_rules yields_bind [OF entry_path_yields [OF assms]])

end
