(* ===== verification/Dest_Run.thy ===== *)
theory Dest_Run
  imports Dest_Provider_Spare
begin

text \<open>
  A receiver on a sink: an invariant of the sink that its operations keep on the entries of the
  manifest is kept by a whole run of \<open>receive\<close>. The local destination is such a sink.
\<close>

section \<open>A run on a sink\<close>

locale kept_sink =
  fixes sk :: "'s PayloadSink" and entries :: "ManifestEntryV2 set" and keep :: "'s \<Rightarrow> bool"
  assumes begin_kept: "entry \<in> entries \<Longrightarrow> keeps keep (sk_begin_entry sk entry start n)"
    and write_kept: "entry \<in> entries \<Longrightarrow> keeps keep (sk_write_block sk entry block)"
    and reuse_kept: "entry \<in> entries \<Longrightarrow> keeps keep (sk_try_choose_reuse sk entry digest)"
    and verify_kept: "entry \<in> entries \<Longrightarrow> keeps keep (sk_verify_payload sk entry digest)"
    and stage_kept: "entry \<in> entries \<Longrightarrow> keeps keep (sk_stage_directory sk entry)"
    and commit_kept: "keeps keep (sk_commit_job sk manifest verified)"
    and retire_kept: "entry \<in> entries \<Longrightarrow> keeps keep (sk_retire_payload sk entry)"
begin

abbreviation sound :: "'s ReceiverPlane \<Rightarrow> bool" where
  "sound p \<equiv> keep (rx_sink p)"

lemma on_sink_keeps [keep_rules]: "keeps keep m \<Longrightarrow> keeps sound (on_sink m)"
  by (rule keepsI) (auto simp: on_sink_def dest: keepsD split: prod.split)

lemma plane_keeps [keep_rules]:
  "keeps sound recv_frame" "keeps sound (send_frame frame)" "keeps sound (emit event)" "keeps sound (save_ledger el)"
  "keeps sound (set_checkpoint i f)"
  by (auto intro!: keepsI simp: recv_frame_def send_frame_def emit_def save_ledger_def set_checkpoint_def Let_def
      split: list.split prod.split)

lemma add_completed_keeps [keep_rules]: "keeps sound (add_completed n overall)"
  unfolding add_completed_def by (intro keep_rules keeps_modify) simp

lemma retire_keeps [keep_rules]: "entry \<in> entries \<Longrightarrow> keeps sound (retire_and_fail el sk entry i e)"
  unfolding retire_and_fail_def retire_mismatch_def by (intro keep_rules retire_kept)

lemma directory_keeps [keep_rules]: "entry \<in> entries \<Longrightarrow> keeps sound (receive_directory el sk entry identity i)"
  unfolding receive_directory_def
  by (rule keeps_bind) (auto intro!: keep_rules stage_kept split: ManifestV2Frame.split)

lemma verify_step_keeps:
  assumes "entry \<in> entries"
  shows "keeps sound (\<lambda>p. case on_sink (sk_verify_payload sk entry final_digest) p of
     (Inl e, p') \<Rightarrow> retire_and_fail el sk entry i e p'
   | (Inr _, p') \<Rightarrow> bindM (set_checkpoint i f) (\<lambda>_. save_ledger el) p')"
proof (rule keepsI)
  fix p assume "sound p"
  then have *: "sound (snd (on_sink (sk_verify_payload sk entry final_digest) p))"
    by (intro keepsD [of sound] on_sink_keeps verify_kept assms)
  have "sound (snd (retire_and_fail el sk entry i e q :: (ManifestV2DataError + unit) \<times> 's ReceiverPlane))"
    if "sound q" for e q
    by (rule keepsD [OF retire_keeps [OF assms] that])
  moreover have "sound (snd (bindM (set_checkpoint i f) (\<lambda>_. save_ledger el) q))" if "sound q" for q
    using that by (intro keepsD [where I = sound] keep_rules)
  ultimately show "sound (snd (case on_sink (sk_verify_payload sk entry final_digest) p of
     (Inl e, p') \<Rightarrow> retire_and_fail el sk entry i e p'
   | (Inr _, p') \<Rightarrow> bindM (set_checkpoint i f) (\<lambda>_. save_ledger el) p'))"
    using * by (auto split: prod.split sum.split)
qed

lemma file_completion_keeps [keep_rules]:
  "entry \<in> entries \<Longrightarrow> keeps sound (receive_file_completion el sk entry i final_digest)"
  unfolding receive_file_completion_def
  by (intro keep_rules) (auto intro!: keep_rules verify_step_keeps split: EntryCompletionChoiceV2.split)

lemma digest_keeps [keep_rules]: "entry \<in> entries \<Longrightarrow> keeps sound (receive_digest el sk entry i overall frame)"
  unfolding receive_digest_def
  by (intro keep_rules) (auto intro!: keep_rules reuse_kept split: sum.split)

lemma block_keeps [keep_rules]: "entry \<in> entries \<Longrightarrow> keeps sound (receive_block el sk entry i overall block)"
  unfolding receive_block_def by (intro keep_rules write_kept)

lemma then_emit_keeps:
  "keeps sound m \<Longrightarrow> keeps sound (\<lambda>p. case m p of (r, p') \<Rightarrow> (r, snd (emit event p' :: (unit + unit) \<times> 's ReceiverPlane)))"
  by (rule keepsI) (auto simp: emit_def dest: keepsD split: prod.split)

lemma complete_keeps [keep_rules]: "entry \<in> entries \<Longrightarrow> keeps sound (receive_complete el sk entry i completion)"
  unfolding receive_complete_def
  by (intro keep_rules) (auto intro!: keep_rules then_emit_keeps split: sum.split)

lemma file_frame_keeps [keep_rules]: "entry \<in> entries \<Longrightarrow> keeps sound (receive_file_frame el sk entry i overall frame)"
  unfolding receive_file_frame_def by (auto intro!: keep_rules split: ManifestV2Frame.split)

lemma file_loop_kept:
  "entry \<in> entries \<Longrightarrow> sound p \<Longrightarrow> sound (snd (receive_file_loop el sk entry i overall frames p))"
proof (induction frames arbitrary: p)
  case (Cons frame rest)
  show ?case
  proof (cases frame)
    case (Some f)
    have *: "sound (snd (receive_file_frame el sk entry i overall f (p\<lparr>pl_inbox := rest\<rparr>)))"
      by (rule keepsD [OF file_frame_keeps]) (simp_all add: Cons.prems)
    show ?thesis
      using * Cons.IH [OF Cons.prems(1)] Some by (auto split: prod.split sum.split bool.split)
  qed (simp add: Cons.prems)
qed simp

lemma reuse_keeps [keep_rules]: "entry \<in> entries \<Longrightarrow> keeps sound (receive_reuse el sk entry i overall)"
  unfolding receive_reuse_def by (intro keep_rules reuse_kept)

lemma file_keeps [keep_rules]: "entry \<in> entries \<Longrightarrow> keeps sound (receive_file el sk entry plan i overall)"
  unfolding receive_file_def by (intro keep_rules, assumption, rule keepsI, rule file_loop_kept)

lemma recv_start_keeps [keep_rules]: "keeps sound (recv_entry_start identity entry_id)"
  unfolding recv_entry_start_def by (intro keep_rules)

lemma entry_keeps [keep_rules]: "entry \<in> entries \<Longrightarrow> keeps sound (receive_entry el sk identity overall entry)"
  unfolding receive_entry_def receive_open_entry_def Let_def by (intro keep_rules begin_kept TrueI) auto

lemma entries_keeps [keep_rules]:
  "set es \<subseteq> entries \<Longrightarrow> keeps sound (receive_entries el sk identity overall hasher es)"
  by (induction es arbitrary: hasher) (auto intro!: keep_rules)

lemma record_results_keeps [keep_rules]: "keeps sound (record_results identity xs)"
  by (induction identity xs rule: record_results.induct, simp_all only: record_results.simps)
    (assumption | rule keep_rules TrueI)+

lemma save_results_keeps [keep_rules]: "keeps sound (save_results el sk gate identity manifest)"
  unfolding save_results_def by (intro keep_rules commit_kept TrueI)

lemma end_keeps [keep_rules]: "keeps sound (receive_end el sk gate identity manifest hasher)"
  unfolding receive_end_def recv_job_complete_def send_results_def by (intro keep_rules keeps_modify TrueI) simp_all

lemma receive_keeps:
  "set (mf_entries (of_manifest offer)) \<subseteq> entries \<Longrightarrow> keeps sound (receive el sk gate offer)"
  unfolding receive_def Let_def by (intro keep_rules keeps_modify) simp_all

end

section \<open>The local destination\<close>

interpretation destination_sink: kept_sink "local_destination_provider dl"
    "{entry. unat (me_entry_id entry) < length paths}" "guarded plan paths names contents"
  for dl plan names contents paths
  by unfold_locales
    (auto simp: local_destination_provider_def intro: begin_entry_keeps write_block_keeps try_choose_reuse_keeps
      verify_payload_keeps stage_directory_keeps commit_job_keeps retire_payload_keeps)

text \<open>The staging path of every entry is below the staging directory.\<close>

lemma below_deeper: "below base q \<Longrightarrow> below base (q @ r)" "below base (base @ r)"
  by (auto simp: below_append)

lemma place_paths_below:
  "place_paths tg plan manifest es s = Inr t \<Longrightarrow> \<forall>q \<in> set (ps_paths s). below (wp_staging_directory plan) q \<Longrightarrow>
     (\<forall>q \<in> set (ps_paths t). below (wp_staging_directory plan) q) \<and> length (ps_paths t) = length (ps_paths s) + length es"
proof (induction es arbitrary: s)
  case (Cons entry es)
  obtain u where u: "place_path tg plan manifest entry s = Inr u" "place_paths tg plan manifest es u = Inr t"
    using Cons.prems(1) by (auto simp: bindR_def split: sum.splits)
  have "(\<forall>q \<in> set (ps_paths u). below (wp_staging_directory plan) q) \<and> length (ps_paths u) = Suc (length (ps_paths s))"
    using u(1) Cons.prems(2)
    by (auto simp: place_path_def Let_def below_deeper bindR_def ok_or_def vec_get_def
        split: if_splits sum.splits option.splits dest!: nth_mem)
  then show ?case
    using Cons.IH [OF u(2)] by simp
qed simp

lemma build_entry_paths_private:
  "build_entry_paths tg plan manifest = Inr (paths, overrides) \<Longrightarrow>
     (\<forall>q \<in> set paths. private_path plan q) \<and> length paths = length (mf_entries manifest)"
  using place_paths_below [of tg plan manifest "mf_entries manifest"]
  by (fastforce simp: build_entry_paths_def private_path_def bindR_def split: sum.splits)

lemma shape_reservations_private:
  "validate_shape tg plan = Inr () \<Longrightarrow> r \<in> set (wp_reservations plan) \<Longrightarrow> private_path plan r"
proof -
  assume "validate_shape tg plan = Inr ()" "r \<in> set (wp_reservations plan)"
  then have "parent_of r = Some (reservations_directory (wp_target_directory plan))"
    by (auto simp: validate_shape_def bindR_def rejectR_def list_all_iff split: if_splits)
  then have "r = reservations_directory (wp_target_directory plan) @ [last r]"
    by (auto simp: parent_of_def split: if_splits) (metis append_butlast_last_id)
  then show ?thesis
    by (auto simp: private_path_def below_append)
qed

end
