(* ===== verification/Dest_Names.thy ===== *)
theory Dest_Names
  imports Dest_Spare
begin

text \<open>The names a new plan gives to the roots of an offer: free, distinct and short enough.\<close>

section \<open>Candidates\<close>

lemma decimal_length: "n < 10 ^ Suc k \<Longrightarrow> length (decimal n) \<le> Suc k"
proof (induction k arbitrary: n)
  case 0
  then show ?case by (subst decimal.simps) simp
next
  case (Suc k)
  then have "n div 10 < 10 ^ Suc k"
    by (simp add: less_mult_imp_div_less mult.commute)
  from Suc.IH [OF this] show ?case
    by (subst decimal.simps) simp
qed

lemma floor_boundary_le: "floor_boundary s n \<le> n"
  by (induction s n rule: floor_boundary.induct) auto

lemma component_with_suffix_length:
  assumes "suffix < NAME_SUFFIXES"
  shows "length (component_with_suffix base suffix preserve_extension) \<le> 255"
proof -
  let ?text = "suffix_text suffix"
  obtain stem extension where split: "split_extension base (length ?text) preserve_extension = (stem, extension)"
    by (cases "split_extension base (length ?text) preserve_extension")
  have "suffix < 10 ^ Suc 3"
    using assms by (simp add: NAME_SUFFIXES_def)
  then have "length (decimal suffix) \<le> 4"
    using decimal_length by fastforce
  then have "length ?text \<le> 255"
    by (simp add: suffix_text_def ascii_def)
  then have "length extension + length ?text \<le> 255"
    using split by (auto simp: split_extension_def split: option.splits if_splits)
  moreover have "floor_boundary stem (min (length stem) (255 - (length ?text + length extension))) \<le> 255 - (length ?text + length extension)"
    using floor_boundary_le [of stem "min (length stem) (255 - (length ?text + length extension))"] by simp
  ultimately show ?thesis
    by (simp add: component_with_suffix_def Let_def split)
qed

lemma candidate_length:
  "length base \<le> 255 \<Longrightarrow> suffix < NAME_SUFFIXES \<Longrightarrow> length (candidate_name base preserve_extension suffix) \<le> 255"
  by (simp add: candidate_name_def component_with_suffix_length)

section \<open>The listing of the target\<close>

definition listing :: "dpath \<Rightarrow> str list \<Rightarrow> 'z DestFs_scheme \<Rightarrow> bool" where
  "listing target names q \<longleftrightarrow> child_names q target = names"

lemma fs_call_keeps: "keeps I m \<Longrightarrow> (\<And>p fs. I p \<Longrightarrow> I (p\<lparr>df_faults := fs\<rparr>)) \<Longrightarrow> keeps I (fs_call m)"
  by (rule keepsI) (auto simp: fs_call_def dest: keepsD split: list.split option.split)

lemma listing_faults [simp]: "listing target names (p\<lparr>df_faults := fs\<rparr>) = listing target names p"
  by (simp add: listing_def child_names_def)

lemma look_keeps_listing [keep_rules]:
  "keeps (listing target names) (fs_metadata path)" "keeps (listing target names) (fs_symlink_metadata path)"
  "keeps (listing target names) (fs_canonicalize path)" "keeps (listing target names) (fs_open path)"
  "keeps (listing target names) (hash_open_file dl i)" "keeps (listing target names) fs_sync"
  by (auto simp: fs_metadata_def fs_symlink_metadata_def fs_canonicalize_def fs_open_def hash_open_file_def fs_read_all_def
      fs_sync_def intro!: fs_call_keeps keep_rules)

lemma create_keeps_listing [keep_rules]:
  "directory \<noteq> target \<Longrightarrow> keeps (listing target names) (fs_create_new (directory @ [name]))"
  unfolding fs_create_new_def
  by (intro fs_call_keeps keepsI)
    (auto simp: listing_def child_names_def add_file_def bind_name_def update_keys parent_of_def)

lemma write_keeps_listing [keep_rules]: "keeps (listing target names) (fs_write_at i pos bs)"
  by (rule keepsI) (auto simp: fs_write_at_def write_at_def listing_def child_names_def split: list.split option.split)

lemma discover_keeps_listing [keep_rules]: "keeps (listing target names) (discover_roots dl manifest directory roots)"
proof (induction roots)
  case (Cons root roots)
  then show ?case
    by (simp only: discover_roots.simps Let_def)
      (rule keeps_bind, auto intro!: keep_rules split: option.split sum.split FsErrorKind.split)
qed (simp only: discover_roots.simps, intro keep_rules TrueI)

lemma domain_keeps_listing [keep_rules]: "keeps (listing target names) (local_storage_domain directory stable_id)"
  unfolding local_storage_domain_def by (intro keep_rules TrueI)

lemma destination_names_listed:
  "destination_names tg directory p = (Inr occupied, q) \<Longrightarrow>
     occupied = map (name_equivalence_key tg) (filter (\<lambda>name. from_utf8 name \<noteq> None) (child_names q directory))"
  by (auto simp: destination_names_def fs_read_dir_def fs_call_def bindM_def child_names_def
      split: list.splits option.splits FsNode.splits prod.splits)

section \<open>Reservations\<close>

lemma reserve_from_keeps [keep_rules]:
  "directory \<noteq> target \<Longrightarrow> keeps (listing target names)
     (reserve_from dl directory base preserve_extension occupied job_id root_id suffix n)"
proof (induction n arbitrary: suffix)
  case (Suc n)
  then show ?case
    by (simp only: reserve_from.simps Let_def reservation_path_def take_reservation_def)
      (auto intro!: keep_rules split: sum.split FsErrorKind.split)
qed (simp only: reserve_from.simps, intro keep_rules)

lemma reserve_from_result:
  "reserve_from dl directory base preserve_extension occupied job_id root_id suffix n p = (Inr (name, reservation, occupied'), q)
     \<Longrightarrow> name_equivalence_key (dl_target dl) name \<notin> set occupied
       \<and> occupied' = name_equivalence_key (dl_target dl) name # occupied
       \<and> (\<exists>k < suffix + n. name = candidate_name base preserve_extension k)"
proof (induction n arbitrary: suffix p)
  case (Suc n)
  let ?again = "\<lambda>p. reserve_from dl directory base preserve_extension occupied job_id root_id (suffix + 1) n p"
  have later: "?case" if "?again t = (Inr (name, reservation, occupied'), q)" for t
    using Suc.IH [OF that] by simp
  let ?key = "name_equivalence_key (dl_target dl) (candidate_name base preserve_extension suffix)"
  show ?case
  proof (cases "?key \<in> set occupied")
    case True
    then have "?again p = (Inr (name, reservation, occupied'), q)"
      using Suc.prems by (simp add: Let_def)
    then show ?thesis by (rule later)
  next
    case False
    obtain created t where new: "fs_create_new (reservation_path dl directory ?key) p = (created, t)"
      by (cases "fs_create_new (reservation_path dl directory ?key) p")
    consider i where "created = Inr i" | "created = Inl Fs_AlreadyExists" | e where "created = Inl e" "e \<noteq> Fs_AlreadyExists"
      by (metis sum.exhaust)
    then show ?thesis
    proof cases
      case 1
      with Suc.prems False new show ?thesis
        by (auto simp: Let_def bindM_Inr_iff tryM_def intro: exI [of _ suffix])
    next
      case 2
      with Suc.prems False new have "?again t = (Inr (name, reservation, occupied'), q)"
        by (simp add: Let_def bindM_def tryM_def)
      then show ?thesis by (rule later)
    next
      case 3
      with Suc.prems False new show ?thesis
        by (cases e) (simp_all add: Let_def bindM_def tryM_def)
    qed
  qed
qed simp

lemma reserve_roots_keeps [keep_rules]:
  "directory \<noteq> target \<Longrightarrow> keeps (listing target names) (reserve_roots dl directory manifest occupied roots)"
proof (induction roots arbitrary: occupied)
  case (Cons root roots)
  then show ?case
    by (simp only: reserve_roots.simps reserve_keep_both_name_def) (rule keeps_bind, auto intro!: keep_rules)
qed (simp only: reserve_roots.simps, intro keep_rules TrueI)

lemma reserve_preplanned_keeps [keep_rules]:
  "directory \<noteq> target \<Longrightarrow> keeps (listing target names) (reserve_preplanned dl directory job_id occupied roots)"
proof (induction roots arbitrary: occupied)
  case (Cons root roots)
  then show ?case
    by (simp only: reserve_preplanned.simps reserve_exact_name_def Let_def reservation_path_def take_reservation_def)
      (rule keeps_bind, auto intro!: keep_rules)
qed (simp only: reserve_preplanned.simps, intro keep_rules TrueI)

lemma reserve_all_keeps [keep_rules]:
  "directory \<noteq> target \<Longrightarrow> keeps (listing target names) (reserve_all dl directory manifest occupied preplanned)"
  unfolding reserve_all_def by (auto intro!: keep_rules split: option.split)

text \<open>The names of a plan: distinct, none of them taken, one for every root.\<close>

abbreviation plan_keys :: "DestLibs \<Rightarrow> RootPlanV2 list \<Rightarrow> str list" where
  "plan_keys dl plans \<equiv> map (\<lambda>r. name_equivalence_key (dl_target dl) (rp_planned_name r)) plans"

definition fresh_names :: "DestLibs \<Rightarrow> str list \<Rightarrow> RootPlanV2 list \<Rightarrow> bool" where
  "fresh_names dl occupied plans \<longleftrightarrow> distinct (plan_keys dl plans) \<and> set (plan_keys dl plans) \<inter> set occupied = {}"

lemma reserve_roots_result:
  "reserve_roots dl directory manifest occupied roots p = (Inr planned, q) \<Longrightarrow>
     fresh_names dl occupied (map fst planned) \<and> map (\<lambda>x. rp_root_id (fst x)) planned = map mr_root_id roots
     \<and> ((\<forall>root \<in> set roots. length (provider_safe_component (dl_target dl) (mr_requested_name root)) \<le> 255) \<longrightarrow>
         (\<forall>plan \<in> set (map fst planned). length (rp_planned_name plan) \<le> 255))"
proof (induction roots arbitrary: occupied p planned)
  case (Cons root roots)
  let ?base = "provider_safe_component (dl_target dl) (mr_requested_name root)"
  obtain name reservation occupied' t later where
    first: "reserve_keep_both_name dl directory ?base
       (me_kind (mf_entries manifest ! unat (mr_root_entry_id root)) = RegularFile) occupied (mf_job_id manifest)
       (mr_root_id root) p = (Inr (name, reservation, occupied'), t)"
    and rest: "reserve_roots dl directory manifest occupied' roots t = (Inr later, q)"
    and planned: "planned = (\<lparr>rp_root_id = mr_root_id root, rp_planned_name = name\<rparr>, reservation) # later"
    using Cons.prems by (auto simp: bindM_Inr_iff)
  note reserve_from_result [OF first [unfolded reserve_keep_both_name_def]]
  then have name: "name_equivalence_key (dl_target dl) name \<notin> set occupied"
      "occupied' = name_equivalence_key (dl_target dl) name # occupied" "length ?base \<le> 255 \<longrightarrow> length name \<le> 255"
    by (auto simp: candidate_length)
  show ?case
    using Cons.IH [OF rest] name by (auto simp: planned fresh_names_def)
qed (simp add: fresh_names_def)

lemma reserve_exact_result:
  "reserve_exact_name dl directory name occupied job_id root_id p = (Inr (reservation, occupied'), q) \<Longrightarrow>
     name_equivalence_key (dl_target dl) name \<notin> set occupied \<and> occupied' = name_equivalence_key (dl_target dl) name # occupied"
  by (auto simp: reserve_exact_name_def Let_def bindM_Inr_iff split: if_splits)

lemma reserve_preplanned_result:
  "reserve_preplanned dl directory job_id occupied roots p = (Inr reservations, q) \<Longrightarrow>
     fresh_names dl occupied roots \<and> length reservations = length roots"
proof (induction roots arbitrary: occupied p reservations)
  case (Cons root roots)
  then obtain reservation occupied' t later where
    first: "reserve_exact_name dl directory (rp_planned_name root) occupied job_id (rp_root_id root) p
      = (Inr (reservation, occupied'), t)"
    and rest: "reserve_preplanned dl directory job_id occupied' roots t = (Inr later, q)" and r: "reservations = reservation # later"
    by (auto simp: bindM_Inr_iff)
  show ?case
    using reserve_exact_result [OF first] Cons.IH [OF rest] r by (auto simp: fresh_names_def)
qed (simp add: fresh_names_def)

lemma reserve_all_result:
  assumes "reserve_all dl directory manifest occupied preplanned p = (Inr planned, q)"
  shows "fresh_names dl occupied (map fst planned) \<and> length planned = length (mf_roots manifest)"
proof (cases preplanned)
  case None
  then show ?thesis
    using assms reserve_roots_result [of dl directory manifest occupied "mf_roots manifest" p planned q]
    by (auto simp: reserve_all_def dest: arg_cong [of _ _ length])
next
  case (Some roots)
  then obtain reservations t where "reserve_preplanned dl directory (mf_job_id manifest) occupied roots t = (Inr reservations, q)"
      "planned = zip roots reservations" "length roots = length (mf_roots manifest)"
    using assms by (auto simp: reserve_all_def bindM_Inr_iff validate_preplanned_roots_def rejectR_def split: if_splits)
  then show ?thesis
    using reserve_preplanned_result by fastforce
qed

section \<open>A new plan\<close>

lemma mapE_Inr_iff: "mapE f m p = (Inr a, q) \<longleftrightarrow> m p = (Inr a, q)"
  by (auto simp: mapE_def map_err_def split: prod.splits sum.splits)

lemma liftM_Inr_iff: "liftM r p = (Inr a, q) \<longleftrightarrow> r = Inr a \<and> q = p"
  by auto

lemma create_steps:
  assumes "destination_create dl token offer request p = (Inr plan, p')"
  obtains occupied planned q1 q2 q3 where
    "destination_names (dl_target dl) (wp_target_directory plan) q1 = (Inr occupied, q2)"
    "reserve_all dl (reservations_directory (wp_target_directory plan)) (of_manifest offer) occupied
       (rq_preplanned_root_names request) q2 = (Inr planned, q3)"
    "bindM (discover_known_reuse_entries dl offer (wp_target_directory plan) (rq_stable_object_identity request))
       (\<lambda>_. io (local_storage_domain (wp_target_directory plan) (rq_stable_object_identity request))) q3
       = (Inr (wp_storage_domain plan), p')"
    "wp_root_plans plan = map fst planned"
  using assms unfolding destination_create_def Let_def bindM_Inr_iff mapE_Inr_iff liftM_Inr_iff
  by (elim exE conjE) (auto simp: bindM_Inr_iff mapE_Inr_iff)

end
