(* ===== verification/Dest_Publish.thy ===== *)
theory Dest_Publish
  imports Dest_Provider_Spare
begin

text \<open>
  Publishing a root: the staged tree comes to its final path unchanged. Between staging and the
  rename, and after it, the provider writes only in its directory of ledgers.
\<close>

definition plan_and :: "DestinationWritePlanV2 \<Rightarrow> (LocalSaveLedgerV2 \<Rightarrow> bool) \<Rightarrow> 'z Provider_scheme \<Rightarrow> bool" where
  "plan_and plan L s \<longleftrightarrow> pv_plan s = plan \<and> L (pv_save_ledger s)"

abbreviation in_ledgers :: "DestinationWritePlanV2 \<Rightarrow> dpath \<Rightarrow> bool" where
  "in_ledgers plan \<equiv> below (ledgers_directory (wp_target_directory plan))"

lemma plan_and_blind:
  fixes s t :: "'z Provider_scheme"
  shows "DestFs.more s = DestFs.more t \<Longrightarrow> plan_and plan L s = plan_and plan L t"
  by (cases s; cases t) (simp add: plan_and_def)

interpretation tree: spared "in_ledgers plan" names contents "plan_and plan L"
  for plan names contents L
  by unfold_locales (auto simp: below_append dest: plan_and_blind)

abbreviation holding ::
  "DestinationWritePlanV2 \<Rightarrow> (LocalSaveLedgerV2 \<Rightarrow> bool) \<Rightarrow> (dpath \<rightharpoonup> FsNode) \<Rightarrow> (nat \<rightharpoonup> bytes) \<Rightarrow> 'z Provider_scheme \<Rightarrow> bool" where
  "holding plan L names contents \<equiv> spared.kept (in_ledgers plan) names contents (plan_and plan L)"

lemma holding_iff:
  "holding plan L names contents s \<longleftrightarrow> spares (in_ledgers plan) names contents s \<and> pv_plan s = plan \<and> L (pv_save_ledger s)"
  unfolding tree.kept_def plan_and_def by simp

lemma holding_plan: "yields (holding plan L names contents) (\<lambda>a. a = f plan) (getM (\<lambda>p. f (pv_plan p)))"
  "yields (holding plan L names contents) (\<lambda>a. a = plan) (getM pv_plan)"
  by (auto intro!: yields_get simp: holding_iff)

section \<open>The ledger of saves\<close>

definition ranged :: "u32 \<Rightarrow> LocalSaveLedgerV2 \<Rightarrow> bool" where
  "ranged root_id l \<longleftrightarrow> unat root_id < length (sl_roots l)"

lemma save_effect_holds [keep_rules]: "keeps (holding plan L names contents) (save_effect_ledger dl)"
proof -
  have "in_ledgers plan (butlast (save_ledger_path plan))" "save_ledger_path plan \<noteq> []"
    by (simp_all add: save_ledger_path_def butlast_append below_append)
  then show ?thesis
    unfolding save_effect_ledger_def
    by (intro yields_bind [OF holding_plan(1)]) (simp only:, intro keep_rules)
qed

lemma entropy_holds [keep_rules]: "keeps (holding plan L names contents) entropy_fill"
  by (rule keepsI) (auto simp: entropy_fill_def holding_iff spares_def split: list.split option.split)

lemma persist_holds [keep_rules]: "keeps (holding plan (ranged root_id) names contents) (persist_new_save_intent dl root_id object)"
  unfolding persist_new_save_intent_def set_root_state_def
  by (intro keep_rules keeps_modify) (simp add: holding_iff spares_def ranged_def)

lemma stage_intent_holds:
  assumes "wp_mode plan = DirectSave"
  shows "keeps (holding plan (ranged root_id) names contents) (stage_intent dl verified root_id digest)"
proof -
  have "keeps (holding plan (ranged root_id) names contents) (prepare_finalization_source dl root_id verified)"
    unfolding prepare_finalization_source_def Let_def
    by (rule yields_bind [OF holding_plan(2)]) (simp add: assms yields_return)
  then show ?thesis
    unfolding stage_intent_def by (intro keep_rules TrueI)
qed

lemma ensure_intent_holds:
  assumes "wp_mode plan = DirectSave"
  shows "keeps (holding plan (ranged root_id) names contents) (ensure_intent dl verified root_id digest)"
  unfolding ensure_intent_def current_intent_object_def
  by (intro keep_rules) (auto intro!: keep_rules stage_intent_holds assms split: RootSaveStateV2.split)

section \<open>The rename\<close>

lemma map_of_moved_in:
  assumes "\<not> list_ex (below target) (map fst xs)"
  shows "map_of (map (\<lambda>(k, v). (if below source k then target @ drop (length source) k else k, v)) xs) (target @ r)
    = map_of xs (source @ r)"
  using assms
proof (induction xs)
  case (Cons x xs)
  obtain k v where x: "x = (k, v)" by (cases x)
  have "k \<noteq> target @ r"
    using Cons.prems by (auto simp: x below_append)
  then show ?case
    using Cons by (auto simp: x below_append)
qed simp

definition moved :: "dpath \<Rightarrow> dpath \<Rightarrow> (dpath \<rightharpoonup> FsNode) \<Rightarrow> dpath \<rightharpoonup> FsNode" where
  "moved source target names q = (if below target q then names (source @ drop (length target) q) else None)"

lemma move_tree_holds:
  assumes s: "holding plan L names contents s" and free: "\<not> list_ex (below target) (map fst (df_names s))"
    and target: "\<And>r. \<not> in_ledgers plan (target @ r)"
  shows "holding plan L (moved source target names) contents (move_tree source target s)"
proof -
  have "\<not> in_ledgers plan q \<and> lookup_name (move_tree source target s) q = Some node"
    if "moved source target names q = Some node" for q node
  proof -
    have "below target q" and at: "names (source @ drop (length target) q) = Some node"
      using that by (simp_all add: moved_def split: if_splits)
    then obtain r where q: "q = target @ r"
      by (auto simp: below_append)
    with at have "lookup_name s (source @ r) = Some node"
      using s by (simp add: holding_iff spares_def)
    then show ?thesis
      using map_of_moved_in [OF free, of source r] target by (simp add: q move_tree_def)
  qed
  moreover have "own_node contents node"
    if q: "(q, node) \<in> set (df_names (move_tree source target s))" "in_ledgers plan q" for q node
  proof -
    obtain k where k: "(k, node) \<in> set (df_names s)" "q = (if below source k then target @ drop (length source) k else k)"
      using q(1) by (auto simp: move_tree_def)
    then have "q = k"
      using q(2) target by (auto split: if_splits)
    then show ?thesis
      using k(1) q(2) s by (auto simp: holding_iff spares_def)
  qed
  moreover have "df_content (move_tree source target s) = df_content s" "df_next (move_tree source target s) = df_next s"
      "pv_plan (move_tree source target s) = pv_plan s" "pv_save_ledger (move_tree source target s) = pv_save_ledger s"
    by (simp_all add: move_tree_def)
  ultimately show ?thesis
    using s unfolding holding_iff spares_def by auto
qed

lemma rename_success:
  assumes "exclusive_rename source target s = (Inr (), t)"
  shows "\<not> list_ex (below target) (map fst (df_names s)) \<and> (\<exists>fs. t = move_tree source target (s\<lparr>df_faults := fs\<rparr>))"
proof (cases "df_faults s")
  case Nil
  then have "\<not> list_ex (below target) (map fst (df_names s))" "t = move_tree source target s"
    using assms by (auto simp: exclusive_rename_def fs_call_def split: if_splits)
  then show ?thesis
    by (intro conjI exI [of _ "df_faults s"]) simp_all
next
  case (Cons fault fs)
  with assms show ?thesis
    by (auto simp: exclusive_rename_def fs_call_def split: if_splits option.splits)
qed

lemma finalize_holds:
  assumes s: "holding plan L names contents s" and run: "finalize_root_source dl root_id source s = (Inr (), t)"
    and final: "target_path_for_root plan root_id = Some target" and target: "\<And>r. \<not> in_ledgers plan (target @ r)"
  shows "holding plan L (moved source target names) contents t"
proof -
  have plan: "pv_plan s = plan"
    using s by (simp add: holding_iff)
  obtain q u where q: "fs_try_exists (wp_reservations plan ! unat root_id) s = (Inr True, q)"
    and u: "exclusive_rename source target q = (Inr (), u)" and t: "sync_rename_directories dl source target u = (Inr (), t)"
    using run final
    by (auto simp: finalize_root_source_def bindM_Inr_iff mapE_def map_err_def plan ok_or_def rejectR_def
        split: prod.splits sum.splits if_splits)
  have "holding plan L names contents q"
    using keepsD [OF tree.look_keeps(3) s] q by (metis snd_conv)
  then have "holding plan L (moved source target names) contents u"
    using rename_success [OF u] target by (auto intro!: move_tree_holds)
  from keepsD [OF tree.sync_rename_keeps this] t show ?thesis
    by (metis snd_conv)
qed

section \<open>Publishing\<close>


lemma staged_exists:
  "holding plan L names contents s \<Longrightarrow> names path = Some node \<Longrightarrow> \<not> is_link node \<Longrightarrow> fs_try_exists path s = (Inr b, q) \<Longrightarrow> b"
  by (auto simp: holding_iff spares_def fs_try_exists_def fs_call_def resolve_def is_link_def
      split: list.splits option.splits FsNode.splits)

lemma publish_holds:
  assumes s: "holding plan (ranged root_id) names contents s" and run: "publish_root dl manifest verified root_id digest s = (Inr (), t)"
    and direct: "wp_mode plan = DirectSave" and final: "target_path_for_root plan root_id = Some target"
    and target: "\<And>r. \<not> in_ledgers plan (target @ r)"
    and staged: "names (root_staging_path plan root_id) = Some node" "\<not> is_link node"
  shows "holding plan (ranged root_id) (moved (root_staging_path plan root_id) target names) contents t"
proof -
  let ?source = "root_staging_path plan root_id"
  have plan: "pv_plan s = plan"
    using s by (simp add: holding_iff)
  have path: "finalization_source_path plan root_id = ?source"
    by (simp add: finalization_source_path_def direct)
  obtain b q where q: "fs_try_exists ?source s = (Inr b, q)"
    using run by (auto simp: publish_root_def current_intent_object_def bindM_Inr_iff mapE_def map_err_def plan path split: prod.splits sum.splits)
  then have b
    using staged_exists [OF s staged] by blast
  have hold: "holding plan (ranged root_id) names contents q"
    using keepsD [OF tree.look_keeps(3) s] q by (metis snd_conv)
  obtain stable_id found u where u: "object_identity dl ?source digest stable_id q = (Inr found, u)"
    and last_step: "finalize_root_source dl root_id ?source u = (Inr (), t)"
    using run q \<open>b\<close> by (auto simp: publish_root_def current_intent_object_def bindM_Inr_iff mapE_def map_err_def plan path rejectR_def
        split: prod.splits sum.splits if_splits)
  have "holding plan (ranged root_id) names contents u"
    using keepsD [OF tree.object_identity_keeps hold] u by (metis snd_conv)
  then show ?thesis
    by (rule finalize_holds [OF _ last_step final target])
qed

lemma record_final_holds:
  assumes s: "holding plan (ranged root_id) names contents s" and run: "record_final dl root_id result name s = (Inr (), t)"
  shows "holding plan (\<lambda>l. sl_roots l ! unat root_id = Root_Final result name) names contents t"
proof -
  let ?L = "\<lambda>l. sl_roots l ! unat root_id = Root_Final result name"
  let ?u = "snd (set_root_state root_id (Root_Final result name) s :: (ManifestV2DataError + unit) \<times> 'a Provider_scheme)"
  have "holding plan ?L names contents ?u"
    using s by (simp add: set_root_state_def holding_iff spares_def ranged_def)
  from keepsD [OF yields_mapE [OF save_effect_holds] this, of ME_Destination dl]
  have "holding plan ?L names contents (snd (dest (save_effect_ledger dl) ?u))" .
  moreover have "dest (save_effect_ledger dl) ?u = (Inr (), t)"
    using run by (simp add: record_final_def set_root_state_def)
  ultimately show ?thesis
    by simp
qed

lemma commit_root_holds:
  assumes s: "holding plan (ranged (mr_root_id root)) names contents s"
    and run: "commit_root dl manifest verified root s = (Inr (), t)"
    and payload: "vf_completion_choice (verified ! unat (mr_root_entry_id root)) \<noteq> Comp_ReuseChosen"
    and open_root: "root_state (mr_root_id root) s = Root_Pending \<or> (\<exists>intent. root_state (mr_root_id root) s = FinalizeIntent intent)"
    and direct: "wp_mode plan = DirectSave" and final: "target_path_for_root plan (mr_root_id root) = Some target"
    and target: "\<And>r. \<not> in_ledgers plan (target @ r)"
    and staged: "names (root_staging_path plan (mr_root_id root)) = Some node" "\<not> is_link node"
  shows "holding plan (\<lambda>l. sl_roots l ! unat (mr_root_id root)
      = Root_Final Root_Saved (rp_planned_name (wp_root_plans plan ! unat (mr_root_id root))))
    (moved (root_staging_path plan (mr_root_id root)) target names) contents t"
proof -
  let ?id = "mr_root_id root"
  obtain digest u v where u: "ensure_intent dl verified ?id digest s = (Inr (), u)"
    and v: "publish_root dl manifest verified ?id digest u = (Inr (), v)"
    and t: "record_final dl ?id Root_Saved (rp_planned_name (wp_root_plans (pv_plan v) ! unat ?id)) v = (Inr (), t)"
    using run payload open_root
    by (auto simp: commit_root_def bindM_Inr_iff map_err_def split: sum.splits)
  have "holding plan (ranged ?id) names contents u"
    using keepsD [OF ensure_intent_holds [OF direct] s] u by (metis snd_conv)
  note published = publish_holds [OF this v direct final target staged]
  then have "pv_plan v = plan"
    by (simp add: holding_iff)
  with record_final_holds [OF published t] show ?thesis
    by simp
qed

section \<open>Before the commit\<close>

text \<open>The staged tree of a root and the ledgers share no file, and inodes are taken in order.\<close>

definition staged_apart :: "DestinationWritePlanV2 \<Rightarrow> u32 \<Rightarrow> 'z DestFs_scheme \<Rightarrow> bool" where
  "staged_apart plan root_id s \<longleftrightarrow>
     (\<forall>(q, node) \<in> set (df_names s).
        (case node of N_File i \<Rightarrow> i < df_next s | _ \<Rightarrow> True)
        \<and> (in_ledgers plan q \<longrightarrow>
            (case node of
               N_File i \<Rightarrow> (\<forall>(u, other) \<in> set (df_names s). other = N_File i \<longrightarrow> \<not> below (root_staging_path plan root_id) u)
             | N_Dir _ \<Rightarrow> True
             | N_Link _ \<Rightarrow> False)))"

definition staged_names :: "dpath \<Rightarrow> 'z DestFs_scheme \<Rightarrow> dpath \<Rightarrow> FsNode option" where
  "staged_names source s q = (if below source q then lookup_name s q else None)"

definition staged_contents :: "dpath \<Rightarrow> 'z DestFs_scheme \<Rightarrow> nat \<Rightarrow> bytes option" where
  "staged_contents source s i = (if \<exists>q. staged_names source s q = Some (N_File i) then Some (df_content s i) else None)"

lemma shape_staging:
  assumes "validate_shape tg plan = Inr ()" "wp_mode plan = DirectSave"
  shows "\<not> in_ledgers plan (root_staging_path plan root_id @ r)"
proof -
  have "starts_with_path (wp_staging_directory plan) (staging_root (wp_target_directory plan))"
    using assms by (auto simp: validate_shape_def bindR_def rejectR_def split: if_splits)
  then obtain x where "wp_staging_directory plan = staging_root (wp_target_directory plan) @ x"
    by (metis below_append below_def)
  then show ?thesis
    by (auto simp: root_staging_path_def below_append staging_root_def ledgers_directory_def ascii_def of_char_def)
qed

lemma holding_start:
  assumes apart: "staged_apart (pv_plan s) root_id s" and shape: "validate_shape tg (pv_plan s) = Inr ()"
    and direct: "wp_mode (pv_plan s) = DirectSave" and range: "ranged root_id (pv_save_ledger s)"
  shows "holding (pv_plan s) (ranged root_id) (staged_names (root_staging_path (pv_plan s) root_id) s)
    (staged_contents (root_staging_path (pv_plan s) root_id) s) s"
proof -
  let ?source = "root_staging_path (pv_plan s) root_id"
  have "i < df_next s" if "staged_contents ?source s i = Some bs" for i bs
    using that apart unfolding staged_contents_def staged_names_def staged_apart_def
    by (fastforce split: if_splits dest: map_of_SomeD)
  moreover have "own_node (staged_contents ?source s) node" if q: "(q, node) \<in> set (df_names s)" "in_ledgers (pv_plan s) q" for q node
  proof (cases node)
    case (N_File i)
    have "\<not> below ?source u" if "(u, N_File i) \<in> set (df_names s)" for u
      using apart q that N_File unfolding staged_apart_def by fastforce
    then show ?thesis
      by (auto simp: N_File own_node_def staged_contents_def staged_names_def dest: map_of_SomeD)
  next
    case (N_Link target)
    then show ?thesis
      using apart q unfolding staged_apart_def by fastforce
  qed (simp add: own_node_def)
  moreover have "\<not> in_ledgers (pv_plan s) q" if "below ?source q" for q
    using shape_staging [OF shape direct] that by (auto simp: below_append)
  ultimately show ?thesis
    using range by (auto simp: holding_iff spares_def staged_names_def staged_contents_def split: if_splits)
qed

end
