(* ===== verification/Dest_Accept.thy ===== *)
theory Dest_Accept
  imports Dest_Plan Engine_Resume
begin

text \<open>The accept that a plan gives is one the engine takes: the destination and the data plane agree.\<close>

lemma fits_facts:
  assumes "plan_fits plan manifest = Inr ()"
  shows "wp_job_id plan = mf_job_id manifest" "wp_generation plan = mf_generation manifest"
    and "length (wp_root_plans plan) = length (mf_roots manifest)"
    and "e \<in> set (wp_reuse_entry_ids plan) \<Longrightarrow> reuse_entry_valid manifest e"
  using assms by (auto simp: plan_fits_def rejectR_def list_all_iff split: if_splits)

lemma shape_root_ids:
  "validate_shape tg plan = Inr () \<Longrightarrow> i < length (wp_root_plans plan) \<Longrightarrow> rp_root_id (wp_root_plans plan ! i) = word_of_nat i"
  by (auto simp: validate_shape_def rejectR_def bindR_def list_all_length root_plan_ok_def nth_enumerate_eq split: if_splits)

section \<open>Sizes\<close>

lemma target_required_bound:
  assumes "target_required manifest mode same_domain = Inr required"
  shows "unat (mt_total_plaintext_bytes (mf_totals manifest)) + unat POST_SAVE_RESERVE_BYTES < 2 ^ 64"
proof -
  obtain payload where "checked_add payload POST_SAVE_RESERVE_BYTES = Some required"
      "unat (mt_total_plaintext_bytes (mf_totals manifest)) \<le> unat payload"
    using assms by (auto simp: target_required_def Let_def bindR_def ok_or_def dest: checked_mulD split: if_splits option.splits sum.splits)
  then show ?thesis
    by (simp add: checked_add_Some_iff)
qed

lemma entry_size_bounded:
  assumes valid: "offer_valid el offer" and entry: "entry \<in> set (offer_entries offer)"
  shows "unat (me_plaintext_size entry) \<le> unat (mt_total_plaintext_bytes (mf_totals (of_manifest offer)))"
proof -
  have "unat (mt_total_plaintext_bytes (mf_totals (of_manifest offer))) = plain_sum (offer_entries offer)"
    using valid by (simp add: offer_valid_iff manifest_ok_def totals_ok_def)
  also have "\<dots> = (\<Sum>e \<leftarrow> offer_entries offer. unat (me_plaintext_size e))"
    using offer_entry(3) [OF valid] by (intro plain_sum_all) (auto simp: in_set_conv_nth)
  finally show ?thesis
    using member_le_sum_list [of "unat (me_plaintext_size entry)"] entry by simp
qed

lemma space_bounds_entries:
  assumes valid: "offer_valid el offer" and space: "validate_space (of_manifest offer) request mode same_domain = Inr ()"
    and entry: "entry \<in> set (offer_entries offer)"
  shows "unat (me_plaintext_size entry) + unat block_size - 1 < 2 ^ 64"
proof -
  obtain required where "target_required (of_manifest offer) mode same_domain = Inr required"
    using space by (auto simp: validate_space_def bindR_def split: sum.splits)
  from target_required_bound [OF this] entry_size_bounded [OF valid entry] show ?thesis
    by (simp add: POST_SAVE_RESERVE_BYTES_def block_size_def DEFAULT_MANIFEST_V2_BLOCK_PLAINTEXT_BYTES_def)
qed

section \<open>The accept\<close>

lemma initial_accept_parts:
  assumes "create_initial_accept plan offer nonce capability = Inr accept"
  shows "plan_fits plan (of_manifest offer) = Inr ()"
    and "ac_identity accept = \<lparr>jg_job_id = wp_job_id plan, jg_generation = wp_generation plan\<rparr>"
    and "ac_manifest_digest accept = of_structural_digest offer" "ac_root_plans accept = wp_root_plans plan"
    and "ac_entry_plans accept = map (\<lambda>entry. \<lparr>ep_entry_id = me_entry_id entry,
       ep_disposition = (if me_entry_id entry \<in> set (wp_reuse_entry_ids plan) then Disp_ReuseExisting else Disp_ReceivePayload),
       ep_next_plaintext_block = 0\<rparr>) (offer_entries offer)"
    and "ac_proof_capability accept \<noteq> replicate 32 0"
  using assms by (auto simp: create_initial_accept_def bindR_def ok_or_def rejectR_def split: sum.splits option.splits if_splits)

lemma reused_entry:
  assumes valid: "offer_valid el offer" and i: "i < length (offer_entries offer)"
    and reuse: "reuse_entry_valid (of_manifest offer) (me_entry_id (offer_entries offer ! i))"
  shows "me_kind (offer_entries offer ! i) = RegularFile \<and> known_digest (offer_entries offer ! i) \<noteq> None"
  using reuse offer_entry(2) [OF valid i] i by (auto simp: reuse_entry_valid_def vec_get_def split: if_splits)

lemma initial_accept_valid:
  assumes valid: "offer_valid el offer" and shape: "validate_shape tg plan = Inr ()"
    and space: "validate_space (of_manifest offer) request mode same_domain = Inr ()"
    and accept: "create_initial_accept plan offer nonce capability = Inr accept"
  shows "validate_accept offer accept = Inr ()"
proof -
  note parts = initial_accept_parts [OF accept]
  note fits = fits_facts [OF parts(1)]
  have roots: "mr_root_id (mf_roots (of_manifest offer) ! i) = word_of_nat i" if "i < length (mf_roots (of_manifest offer))" for i
    using valid that by (auto simp: offer_valid_iff manifest_ok_def root_ok_def)
  have entries: "accept_entry_ok (offer_entries offer ! i) (ac_entry_plans accept ! i) = Inr ()" if i: "i < length (offer_entries offer)" for i
  proof -
    obtain n where "total_blocks (offer_entries offer ! i) = Inr n"
      using total_blocks_value space_bounds_entries [OF valid space, of "offer_entries offer ! i"] i by (meson nth_mem)
    then show ?thesis
      using reused_entry [OF valid i] fits(4) i by (auto simp: accept_entry_ok_def parts(5) bindR_def rejectR_def)
  qed
  have "\<not> list_ex (\<lambda>(index, root, plan). mr_root_id root \<noteq> word_of_nat index \<or> rp_root_id plan \<noteq> mr_root_id root)
      (enumerate 0 (zip (mf_roots (of_manifest offer)) (wp_root_plans plan)))"
    using roots shape_root_ids [OF shape] fits(3) by (auto simp: list_ex_iff in_set_conv_nth nth_enumerate_eq)
  moreover have "accept_entries_ok (zip (offer_entries offer) (ac_entry_plans accept)) = Inr ()"
    using entries by (auto simp: accept_entries_ok_iff set_zip)
  ultimately show ?thesis
    using fits(1-3) by (simp add: validate_accept_def Let_def parts bindR_def rejectR_def)
qed

end
