(* ===== verification/Dest_Properties.thy ===== *)
theory Dest_Properties
  imports Dest_Run Dest_Names Dest_Publish Dest_Accept Engine_Properties
begin

text \<open>The properties of the destination, with a folder of one file as the sample.\<close>

section \<open>Samples\<close>

definition dest_libs :: DestLibs where
  "dest_libs = \<lparr>dl_target = \<lparr>tg_os = Os_Unix, tg_to_lowercase = (\<lambda>s. s)\<rparr>, dl_crypto = sample_crypto,
     dl_plan_to_vec = (\<lambda>_. Some []), dl_plan_from_slice = (\<lambda>_. None), dl_save_to_vec = (\<lambda>_. Some []),
     dl_save_from_slice = (\<lambda>_. None)\<rparr>"

definition dest_plan :: DestinationWritePlanV2 where
  "dest_plan = \<lparr>wp_job_id = replicate 16 7, wp_generation = 1, wp_mode = DirectSave,
     wp_storage_domain = \<lparr>so_provider = ascii ''local_path'', so_opaque_volume_id = ascii ''0'', so_stable_object_identity = True\<rparr>,
     wp_plan_revision = 1, wp_root_plans = [\<lparr>rp_root_id = 0, rp_planned_name = ascii ''d''\<rparr>],
     wp_exceptional_transfer_approved = False, wp_target_directory = [ascii ''home''],
     wp_staging_directory = [ascii ''home'', ascii ''.envoix-staging-v2'', ascii ''job''],
     wp_reservations = [[ascii ''home'', ascii ''.envoix-reservations-v2'', ascii ''d.reservation'']],
     wp_reuse_entry_ids = []\<rparr>"

definition dest_paths :: "dpath list" where
  "dest_paths = [wp_staging_directory dest_plan @ [ascii ''root-0''], wp_staging_directory dest_plan @ [ascii ''root-0'', ascii ''a'']]"

definition dest_ledger :: LocalSaveLedgerV2 where
  "dest_ledger = \<lparr>sl_schema_version = 1, sl_job_id = replicate 16 7, sl_generation = 1,
     sl_manifest_digest = replicate 32 0, sl_roots = [Root_Pending]\<rparr>"

definition dest_provider :: Provider where
  "dest_provider = \<lparr>df_names = [([ascii ''home''], N_Dir 0), ([ascii ''home'', ascii ''x''], N_File 1)],
     df_content = (\<lambda>i. if i = 1 then [4, 2] else []), df_next = 2, df_volume = (\<lambda>_. 0),
     df_faults = [None, Some (Fs_Other, 0)], pv_plan = dest_plan, pv_manifest = engine_manifest,
     pv_entry_paths = dest_paths, pv_entry_overrides = [None, None], pv_payloads = Map.empty,
     pv_reuse_objects = Map.empty, pv_save_ledger = dest_ledger, pv_entropy = []\<rparr>"

definition dest_plane :: "Provider ReceiverPlane" where
  "dest_plane = \<lparr>pl_inbox = [Some (F_EntryStart (entry_start sample_identity (mf_entries engine_manifest ! 0) Enc_Identity))],
     pl_sent = [], pl_sends = [], pl_saves = [], pl_disk = [ledger_path sample_identity \<mapsto> [1]], pl_events = [],
     pl_completed = 0, rx_ledger = engine_ledger, rx_sink = dest_provider\<rparr>"

lemmas dest_names = reservations_directory_def staging_root_def ledgers_directory_def ascii_def of_char_def

lemma dest_shape: "validate_shape (dl_target dest_libs) dest_plan = Inr ()"
  by (simp add: validate_shape_def dest_libs_def dest_plan_def root_plan_ok_def provider_safe_component_def
      name_equivalence_key_def parent_of_def has_reservation_extension_def extension_of_def rfind_dot_def
      starts_with_path_def dest_names)

lemma allocate_free:
  "name_equivalence_key tg base \<notin> set occupied \<Longrightarrow>
     allocate_in_memory_name tg base preserve_extension occupied = Inr (base, name_equivalence_key tg base # occupied)"
proof -
  assume free: "name_equivalence_key tg base \<notin> set occupied"
  have "NAME_SUFFIXES \<noteq> 0"
    by (simp add: NAME_SUFFIXES_def)
  then obtain n where n: "NAME_SUFFIXES = Suc n"
    using not0_implies_Suc by blast
  show ?thesis
    unfolding allocate_in_memory_name_def n using free by (simp add: Let_def candidate_name_def)
qed

lemma dest_paths_built:
  "build_entry_paths (dl_target dest_libs) dest_plan engine_manifest = Inr (dest_paths, [None, None])"
  by (simp add: build_entry_paths_def engine_manifest_def place_path_def Let_def dest_plan_def dest_paths_def
      override_of_def vec_get_def provider_safe_component_def dest_libs_def allocate_free decimal.simps ascii_def of_char_def)

lemma dest_provider_sels:
  "pv_plan dest_provider = dest_plan" "pv_entry_paths dest_provider = dest_paths" "pv_payloads dest_provider = Map.empty"
  "pv_entry_overrides dest_provider = [None, None]" "rx_sink dest_plane = dest_provider"
  by (simp_all add: dest_provider_def dest_plane_def)

lemma dest_private:
  "private_path dest_plan q \<longleftrightarrow> (\<exists>r. q = [ascii ''home'', ascii ''.envoix-staging-v2''] @ r
     \<or> q = [ascii ''home'', ascii ''.envoix-ledgers-v2''] @ r \<or> q = [ascii ''home'', ascii ''.envoix-reservations-v2''] @ r)"
  by (auto simp: private_path_def below_append dest_plan_def reservations_directory_def staging_root_def ledgers_directory_def)

section \<open>The user's files\<close>

text \<open>What a provider starts from: inodes are taken in order, and private names are its own.\<close>

definition private_separate :: "DestinationWritePlanV2 \<Rightarrow> 'z DestFs_scheme \<Rightarrow> bool" where
  "private_separate plan s \<longleftrightarrow>
     (\<forall>(q, node) \<in> set (df_names s). (case node of N_File i \<Rightarrow> i < df_next s | _ \<Rightarrow> True)
       \<and> (private_path plan q \<longrightarrow>
           (case node of
              N_File i \<Rightarrow> (\<forall>(u, other) \<in> set (df_names s). other = N_File i \<longrightarrow> private_path plan u)
            | N_Dir _ \<Rightarrow> True
            | N_Link _ \<Rightarrow> False)))"

definition user_names :: "DestinationWritePlanV2 \<Rightarrow> 'z DestFs_scheme \<Rightarrow> dpath \<Rightarrow> FsNode option" where
  "user_names plan s q = (if private_path plan q then None else lookup_name s q)"

definition user_contents :: "DestinationWritePlanV2 \<Rightarrow> 'z DestFs_scheme \<Rightarrow> nat \<Rightarrow> bytes option" where
  "user_contents plan s i = (if \<exists>q. user_names plan s q = Some (N_File i) then Some (df_content s i) else None)"

lemma spares_start: "private_separate plan s \<Longrightarrow> spares (private_path plan) (user_names plan s) (user_contents plan s) s"
proof -
  assume sep: "private_separate plan s"
  have "i < df_next s" if "user_contents plan s i = Some bs" for i bs
    using that sep unfolding user_contents_def user_names_def private_separate_def
    by (fastforce split: if_splits dest: map_of_SomeD)
  moreover have "own_node (user_contents plan s) node" if q: "(q, node) \<in> set (df_names s)" "private_path plan q" for q node
  proof (cases node)
    case (N_File i)
    have "private_path plan u" if "(u, N_File i) \<in> set (df_names s)" for u
      using sep q that N_File unfolding private_separate_def by fastforce
    then show ?thesis
      by (auto simp: N_File own_node_def user_contents_def user_names_def dest: map_of_SomeD)
  next
    case (N_Link target)
    then show ?thesis
      using sep q unfolding private_separate_def by fastforce
  qed (simp add: own_node_def)
  ultimately show ?thesis
    by (auto simp: spares_def user_names_def user_contents_def split: if_splits)
qed

lemma provider_guarded:
  assumes "validate_shape tg (pv_plan s) = Inr ()"
    and "build_entry_paths tg (pv_plan s) manifest = Inr (pv_entry_paths s, pv_entry_overrides s)"
    and "pv_payloads s = Map.empty" and "private_separate (pv_plan s) s"
  shows "guarded (pv_plan s) (pv_entry_paths s) (user_names (pv_plan s) s) (user_contents (pv_plan s) s) s"
  unfolding guarded_iff provider_rest_def
  using spares_start [OF assms(4)] build_entry_paths_private [OF assms(2)] shape_reservations_private [OF assms(1)]
  by (simp add: assms(3))

text \<open>
  C9: a transfer never touches the user's files. A receiver runs on the local destination: whatever
  the peer sends, whichever call of the file system fails and whether the run succeeds or not, every
  name outside the private directories of the plan leads where it led before, and every file so
  named has the content it had. The provider is as \<open>new\<close> leaves it: its plan has the shape the
  code checks, its staging paths are those of \<open>build_entry_paths\<close>, no payload is open, and its
  private directories hold no links into the user's files.
\<close>

theorem receiver_spares_user_files:
  assumes offer: "offer_valid el offer"
    and shape: "validate_shape (dl_target dl) (pv_plan (rx_sink p)) = Inr ()"
    and paths: "build_entry_paths (dl_target dl) (pv_plan (rx_sink p)) (of_manifest offer)
      = Inr (pv_entry_paths (rx_sink p), pv_entry_overrides (rx_sink p))"
    and fresh: "pv_payloads (rx_sink p) = Map.empty"
    and separate: "private_separate (pv_plan (rx_sink p)) (rx_sink p)"
    and run: "receive el (local_destination_provider dl) gate offer p = (r, p')"
    and user: "lookup_name (rx_sink p) q = Some node" "\<not> private_path (pv_plan (rx_sink p)) q"
  shows "lookup_name (rx_sink p') q = Some node
    \<and> (\<forall>i. node = N_File i \<longrightarrow> df_content (rx_sink p') i = df_content (rx_sink p) i)"
proof -
  let ?s = "rx_sink p"
  let ?plan = "pv_plan ?s"
  have "unat (me_entry_id entry) < length (pv_entry_paths ?s)" if "entry \<in> set (offer_entries offer)" for entry
    using that offer_entry(2) [OF offer] build_entry_paths_private [OF paths] by (auto simp: in_set_conv_nth)
  then have "keeps (\<lambda>p. guarded ?plan (pv_entry_paths ?s) (user_names ?plan ?s) (user_contents ?plan ?s) (rx_sink p))
      (receive el (local_destination_provider dl) gate offer)"
    by (intro destination_sink.receive_keeps) auto
  from keepsD [OF this, of p] have "spares (private_path ?plan) (user_names ?plan ?s) (user_contents ?plan ?s) (rx_sink p')"
    using provider_guarded [OF shape paths fresh separate] run by (simp add: guarded_iff)
  moreover have name: "user_names ?plan ?s q = Some node"
    using user by (simp add: user_names_def)
  moreover from name have "user_contents ?plan ?s i = Some (df_content ?s i)" if "node = N_File i" for i
    using that by (auto simp: user_contents_def)
  ultimately show ?thesis
    unfolding spares_def by blast
qed

theorem receiver_spares_user_files_witness:
  "let s = rx_sink (snd (receive engine_libs (local_destination_provider dest_libs) noop_result_gate engine_offer dest_plane))
   in lookup_name s [ascii ''home'', ascii ''x''] = Some (N_File 1) \<and> df_content s 1 = [4, 2]"
proof -
  obtain r p' where run: "receive engine_libs (local_destination_provider dest_libs) noop_result_gate engine_offer dest_plane = (r, p')"
    by (cases "receive engine_libs (local_destination_provider dest_libs) noop_result_gate engine_offer dest_plane")
  have "private_separate dest_plan dest_provider" "\<not> private_path dest_plan [ascii ''home'', ascii ''x'']"
    by (simp_all add: private_separate_def dest_private dest_provider_def dest_names)
  moreover have "lookup_name dest_provider [ascii ''home'', ascii ''x''] = Some (N_File 1)" "df_content dest_provider 1 = [4, 2]"
    by (simp_all add: dest_provider_def)
  ultimately show ?thesis
    using receiver_spares_user_files [OF engine_offer_valid _ _ _ _ run, of "[ascii ''home'', ascii ''x'']" "N_File 1"]
      dest_shape dest_paths_built run
    by (simp add: dest_provider_sels engine_offer_def)
qed

section \<open>Resuming\<close>

text \<open>A file system without failures, in which a path is a directory, under the same provider.\<close>

definition dir_staged ::
  "(ReceiverDataPlaneLedgerV2 \<Rightarrow> bool) \<Rightarrow> dpath \<Rightarrow> nat \<Rightarrow> ReconcilePlane \<Rightarrow> ReconcilePlane \<Rightarrow> bool" where
  "dir_staged L path i p q \<longleftrightarrow> L (rn_ledger q) \<and> df_faults q = [] \<and> lookup_name q path = Some (N_Dir i)
     \<and> pv_entry_paths q = pv_entry_paths p \<and> pv_save_ledger q = pv_save_ledger p \<and> pv_manifest q = pv_manifest p"

lemma call_without_faults: "df_faults p = [] \<Longrightarrow> fs_call m p = m p"
  by (simp add: fs_call_def)

lemma remove_other: "df_faults p = [] \<Longrightarrow> lookup_name p path = Some (N_Dir i) \<Longrightarrow>
  lookup_name (snd (remove_if_present other p)) path = Some (N_Dir i)"
  using map_of_filter_key [of "\<lambda>q. q \<noteq> other" path "df_names p"]
  by (cases "other = path") (auto simp: remove_if_present_def fs_remove_file_def call_without_faults
      split: option.split FsNode.split)

lemma look_keeps_staged [keep_rules]:
  "keeps (dir_staged L path i p) (fs_metadata other)" "keeps (dir_staged L path i p) (fs_try_exists other)"
  "keeps (dir_staged L path i p) (fs_open other)" "keeps (dir_staged L path i p) (hash_open_file dl j)"
  by (auto intro!: keepsI simp: fs_metadata_def fs_try_exists_def fs_open_def hash_open_file_def fs_read_all_def bindM_def
      call_without_faults dir_staged_def)

lemma remove_keeps_staged [keep_rules]: "keeps (dir_staged L path i p) (remove_if_present other)"
proof (rule keepsI)
  fix q assume q: "dir_staged L path i p q"
  show "dir_staged L path i p (snd (remove_if_present other q))"
    using q remove_other [of q path i other]
    by (auto simp: dir_staged_def remove_if_present_def fs_remove_file_def call_without_faults split: option.split FsNode.split)
qed

lemma reset_keeps_staged [keep_rules]: "keeps (dir_staged (\<lambda>_. True) path i p) (reset_boundary el entry_id)"
  by (rule keepsI) (auto simp: reset_boundary_def dir_staged_def split: prod.split)

lemma reuse_keeps_staged [keep_rules]: "keeps (dir_staged L path i p) (try_open_reuse dl entry digest)"
  unfolding try_open_reuse_def Let_def by (auto intro!: keep_rules split: sum.split FsErrorKind.split)

lemma reopen_keeps_staged [keep_rules]: "keeps (dir_staged L path i p) (reopen_reuse dl x)"
  unfolding reopen_reuse_def
  by (cases x, simp only: prod.case) (intro keep_rules keeps_modify, simp add: dir_staged_def)

lemma boundary_keeps_staged [keep_rules]: "keeps (dir_staged (\<lambda>_. True) path i p) (reconcile_boundary el x)"
proof -
  have "keeps (dir_staged (\<lambda>_. True) path i p) (root_published entry)" for entry
    unfolding root_published_def by (rule keeps_bind) (auto intro!: keep_rules split: RootSaveStateV2.split)
  moreover have "keeps (dir_staged (\<lambda>_. True) path i p) (boundary_owned other b)" for other b
    unfolding boundary_owned_def by (rule keeps_bind) (auto intro!: keep_rules split: sum.split FsErrorKind.split)
  ultimately show ?thesis
    unfolding reconcile_boundary_def by (cases x, simp only: prod.case) (intro keep_rules)
qed


lemma boundary_blocked:
  assumes q: "dir_staged L path i p q"
    and path: "path = pv_entry_paths p ! unat entry_id"
    and pending: "sl_roots (pv_save_ledger p) ! unat (me_root_id (mf_entries (pv_manifest p) ! unat entry_id)) = Root_Pending"
  shows "\<exists>e t. reconcile_boundary el (entry_id, n, b, True) q = (Inl e, t)"
  using q pending
  by (simp add: dir_staged_def reconcile_boundary_def root_published_def boundary_owned_def tryM_def fs_metadata_def
      call_without_faults resolve_def ok_or_def mapE_def map_err_def bindM_def remove_if_present_def fs_remove_file_def path)

lemma forM_blocked:
  assumes "\<And>p. I p \<Longrightarrow> \<exists>e t. f x p = (Inl e, t)" "\<And>y. keeps I (f y)" "x \<in> set xs" "I p"
  shows "\<exists>e t. forM xs f p = (Inl e, t)"
  using assms(3,4)
proof (induction xs arbitrary: p)
  case (Cons y ys)
  obtain r t where run: "f y p = (r, t)"
    by (cases "f y p")
  have "I t"
    using keepsD [OF assms(2) Cons.prems(2), of y] run by simp
  then show ?case
    using Cons assms(1) run by (cases r) (auto simp: bindM_def, fastforce+)
qed simp

text \<open>
  C40: a receiver that staged a directory and lost its connection before the results were
  committed cannot resume. Its ledger holds the completion of the directory without a result, so
  the directory is among the payload boundaries; it is no file, so \<open>reconcile_resume\<close> takes it for
  a payload that is not owned and calls \<open>remove_file\<close> on it, which fails on a directory. This
  happens on every resume, also when no call of the file system fails otherwise.
\<close>

theorem completed_directory_blocks_resume:
  assumes checkpoint: "c \<in> set (lg_entries (rn_ledger p))" "cp_result c = None" "cp_completion c \<noteq> None"
      "ep_disposition (ac_entry_plans (lg_accept (rn_ledger p)) ! unat (cp_entry_id c)) = Disp_ReceivePayload"
    and staged: "lookup_name p (pv_entry_paths p ! unat (cp_entry_id c)) = Some (N_Dir i)"
    and pending: "sl_roots (pv_save_ledger p) ! unat (me_root_id (mf_entries (pv_manifest p) ! unat (cp_entry_id c))) = Root_Pending"
    and faultless: "df_faults p = []"
  shows "\<exists>e p'. reconcile_resume dl el p = (Inl e, p')"
proof -
  let ?path = "pv_entry_paths p ! unat (cp_entry_id c)"
  let ?l = "rn_ledger p"
  have start: "dir_staged (\<lambda>l. l = ?l) ?path i p p"
    using staged faultless by (simp add: dir_staged_def)
  obtain r t where reuse: "forM (pending_reuse_entries ?l) (reopen_reuse dl) p = (r, t)"
    by (cases "forM (pending_reuse_entries ?l) (reopen_reuse dl) p")
  have "keeps (dir_staged (\<lambda>l. l = ?l) ?path i p) (forM (pending_reuse_entries ?l) (reopen_reuse dl))"
    by (intro keep_rules)
  from keepsD [OF this start] have t: "rn_ledger t = ?l" "dir_staged (\<lambda>_. True) ?path i p t"
    by (simp_all add: reuse dir_staged_def)
  let ?x = "(cp_entry_id c, cp_next_plaintext_block c, cp_plaintext_bytes c, True)"
  have listed: "?x \<in> set (pending_payload_boundaries ?l)"
    using checkpoint by (force simp: pending_payload_boundaries_def)
  have blocked: "\<exists>e u. reconcile_boundary el ?x q = (Inl e, u)" if "dir_staged (\<lambda>_. True) ?path i p q" for q
    by (rule boundary_blocked [OF that refl pending])
  have "\<exists>e u. forM (pending_payload_boundaries ?l) (reconcile_boundary el) t = (Inl e, u)"
    by (rule forM_blocked [where I = "dir_staged (\<lambda>_. True) ?path i p" and x = ?x and f = "reconcile_boundary el", OF blocked boundary_keeps_staged listed t(2)])
  then show ?thesis
    using reuse t(1) by (cases r) (auto simp: reconcile_resume_def bindM_def)
qed

definition completed_ledger :: ReceiverDataPlaneLedgerV2 where
  "completed_ledger = update_checkpoint 0 (\<lambda>c. c\<lparr>cp_arbiter := Arb_PayloadCompleteChosen,
     cp_completion := Some (payload_completion sample_identity (mf_entries engine_manifest ! 0) (replicate 32 0) False)\<rparr>) engine_ledger"

definition resumed_plane :: ReconcilePlane where
  "resumed_plane = \<lparr>df_names = [([ascii ''home''], N_Dir 0), (dest_paths ! 0, N_Dir 1)],
     df_content = (\<lambda>_. []), df_next = 2, df_volume = (\<lambda>_. 0), df_faults = [], pv_plan = dest_plan,
     pv_manifest = engine_manifest, pv_entry_paths = dest_paths, pv_entry_overrides = [None, None], pv_payloads = Map.empty,
     pv_reuse_objects = Map.empty, pv_save_ledger = dest_ledger, pv_entropy = [], rn_ledger = completed_ledger,
     rn_disk = Map.empty, rn_saves = []\<rparr>"

theorem completed_directory_blocks_resume_witness:
  "\<exists>e p'. reconcile_resume dest_libs engine_libs resumed_plane = (Inl e, p')"
proof (rule completed_directory_blocks_resume [where c = "lg_entries completed_ledger ! 0"])
  show "lg_entries completed_ledger ! 0 \<in> set (lg_entries (rn_ledger resumed_plane))"
    by (simp add: resumed_plane_def completed_ledger_def engine_ledger_def update_checkpoint_def)
qed (simp_all add: resumed_plane_def completed_ledger_def engine_ledger_def engine_accept_def update_checkpoint_def
    dest_paths_def dest_plan_def dest_ledger_def engine_manifest_def)

section \<open>A new plan\<close>

text \<open>
  C22: a new plan never takes a name that is in use. Every root of the offer gets one name; the names
  are different from each other and from every name the target directory holds when the plan is
  returned, in the sense of the platform (\<open>name_equivalence_key\<close>, so also up to case on Windows and
  macOS). This holds for names that were fixed before, too, whichever call of the file system failed. When the
  names are chosen here and the provider-safe form of every requested name has at most 255 bytes, no planned name has more;
  nothing is said of the length of names that were fixed before, nor of a plan in which the provider-safe form
  of some requested name is longer (on Windows a reserved stem is prefixed, so 255 bytes can become 256).
\<close>

theorem planned_names_free:
  assumes created: "destination_create dl token offer request p = (Inr plan, p')"
  shows "length (wp_root_plans plan) = length (mf_roots (of_manifest offer))
    \<and> distinct (plan_keys dl (wp_root_plans plan))
    \<and> (\<forall>root \<in> set (wp_root_plans plan). \<forall>name \<in> set (child_names p' (wp_target_directory plan)).
         from_utf8 name \<noteq> None \<longrightarrow>
         name_equivalence_key (dl_target dl) name \<noteq> name_equivalence_key (dl_target dl) (rp_planned_name root))
    \<and> (rq_preplanned_root_names request = None
         \<longrightarrow> (\<forall>root \<in> set (mf_roots (of_manifest offer)).
                length (provider_safe_component (dl_target dl) (mr_requested_name root)) \<le> 255)
         \<longrightarrow> (\<forall>root \<in> set (wp_root_plans plan). length (rp_planned_name root) \<le> 255))"
proof -
  let ?target = "wp_target_directory plan"
  obtain occupied planned q1 q2 q3 where
    listed: "destination_names (dl_target dl) ?target q1 = (Inr occupied, q2)"
    and reserved: "reserve_all dl (reservations_directory ?target) (of_manifest offer) occupied
       (rq_preplanned_root_names request) q2 = (Inr planned, q3)"
    and rest: "bindM (discover_known_reuse_entries dl offer ?target (rq_stable_object_identity request))
       (\<lambda>_. io (local_storage_domain ?target (rq_stable_object_identity request))) q3 = (Inr (wp_storage_domain plan), p')"
    and plans: "wp_root_plans plan = map fst planned"
    by (rule create_steps [OF created])
  let ?names = "child_names q2 ?target"
  have "reservations_directory ?target \<noteq> ?target"
    by (simp add: reservations_directory_def)
  then have "keeps (listing ?target ?names) (reserve_all dl (reservations_directory ?target) (of_manifest offer) occupied
       (rq_preplanned_root_names request))"
    by (rule reserve_all_keeps)
  from keepsD [OF this, of q2] have "listing ?target ?names q3"
    by (simp add: reserved listing_def)
  moreover have "keeps (listing ?target ?names) (bindM (discover_known_reuse_entries dl offer ?target (rq_stable_object_identity request))
       (\<lambda>_. io (local_storage_domain ?target (rq_stable_object_identity request))))"
    unfolding discover_known_reuse_entries_def by (intro keep_rules TrueI)
  ultimately have "child_names p' ?target = ?names"
    using keepsD [of "listing ?target ?names" _ q3] rest by (fastforce simp: listing_def)
  then have "occupied = map (name_equivalence_key (dl_target dl)) (filter (\<lambda>name. from_utf8 name \<noteq> None) (child_names p' ?target))"
    using destination_names_listed [OF listed] by simp
  then have "name_equivalence_key (dl_target dl) name \<in> set occupied"
    if "name \<in> set (child_names p' ?target)" "from_utf8 name \<noteq> None" for name
    using that by simp
  moreover have "(\<forall>root \<in> set (mf_roots (of_manifest offer)).
        length (provider_safe_component (dl_target dl) (mr_requested_name root)) \<le> 255)
      \<longrightarrow> (\<forall>root \<in> set (wp_root_plans plan). length (rp_planned_name root) \<le> 255)" if "rq_preplanned_root_names request = None"
    using reserve_roots_result [of dl _ "of_manifest offer" occupied "mf_roots (of_manifest offer)" q2 planned q3] reserved that plans
    by (auto simp: reserve_all_def)
  ultimately show ?thesis
    using reserve_all_result [OF reserved] plans by (auto simp: fresh_names_def image_iff)
qed

definition create_request :: DestinationRequestV2 where
  "create_request = \<lparr>rq_target_directory = [ascii ''home''], rq_copy_staging_directory = None, rq_decision = UseDirectSave,
     rq_target_allocatable_bytes = Some (2 ^ 30), rq_staging_allocatable_bytes = None, rq_stable_object_identity = True,
     rq_exceptional_transfer_approved = False,
     rq_preplanned_root_names = Some [\<lparr>rp_root_id = 0, rp_planned_name = ascii ''e''\<rparr>]\<rparr>"

definition create_fs :: DestFs where
  "create_fs = \<lparr>df_names = [([ascii ''home''], N_Dir 0), ([ascii ''home'', ascii ''d''], N_Dir 1)], df_content = (\<lambda>_. []),
     df_next = 2, df_volume = (\<lambda>_. 0), df_faults = []\<rparr>"

lemma checked_add_code [code]: "checked_add a b = (if a \<le> a + b then Some (a + b) else None)"
  by (simp add: checked_add_def no_olen_add_nat)

lemma create_fs_plans:
  "(case fst (destination_create dest_libs [] engine_offer create_request create_fs) of
      Inr plan \<Rightarrow> map rp_planned_name (wp_root_plans plan) = [ascii ''e''] | Inl _ \<Rightarrow> False)"
  by code_simp

theorem planned_names_free_witness:
  "\<exists>plan p'. destination_create dest_libs [] engine_offer create_request create_fs = (Inr plan, p')
     \<and> map rp_planned_name (wp_root_plans plan) = [ascii ''e''] \<and> distinct (plan_keys dest_libs (wp_root_plans plan))
     \<and> (\<forall>name \<in> set (child_names p' (wp_target_directory plan)). from_utf8 name \<noteq> None \<longrightarrow> name \<noteq> ascii ''e'')"
proof -
  obtain r p' where run: "destination_create dest_libs [] engine_offer create_request create_fs = (r, p')"
    by (cases "destination_create dest_libs [] engine_offer create_request create_fs")
  obtain plan where plan: "r = Inr plan" "map rp_planned_name (wp_root_plans plan) = [ascii ''e'']"
    using create_fs_plans by (cases r) (simp_all add: run)
  note free = planned_names_free [OF run [unfolded plan(1)]]
  have "name \<noteq> ascii ''e''" if "name \<in> set (child_names p' (wp_target_directory plan))" "from_utf8 name \<noteq> None" for name
    using free that plan(2) by (auto simp: dest_libs_def name_equivalence_key_def)
  moreover have "distinct (plan_keys dest_libs (wp_root_plans plan))"
    using free by (elim conjE)
  ultimately show ?thesis
    using run plan by (intro exI [of _ plan] exI [of _ p'] conjI) simp_all
qed

section \<open>Publishing\<close>

text \<open>
  C10: what is committed is what was staged. When \<open>commit_job\<close> has published a received root in
  the mode \<open>DirectSave\<close>, also after an earlier run broke off with the intent already stored, every name of the
  staged tree is at the same place below the final path, with the same object and the same bytes,
  and the ledger of saves has the root as saved under its planned name. The staged tree shares no file with the
  directory of ledgers, and the planned name is not that of this directory.
\<close>

theorem commit_publishes_staged_root:
  fixes s t :: "'z Provider_scheme"
  assumes root_id: "root_id = mr_root_id root" and plan: "plan = pv_plan s"
    and run: "commit_root dl manifest verified root s = (Inr (), t)"
    and payload: "vf_completion_choice (verified ! unat (mr_root_entry_id root)) \<noteq> Comp_ReuseChosen"
    and open_root: "root_state root_id s = Root_Pending \<or> (\<exists>intent. root_state root_id s = FinalizeIntent intent)"
    and range: "unat root_id < length (sl_roots (pv_save_ledger s))"
    and shape: "validate_shape (dl_target dl) plan = Inr ()" and direct: "wp_mode plan = DirectSave"
    and final: "target_path_for_root plan root_id = Some target" "rp_planned_name (wp_root_plans plan ! unat root_id) \<noteq> ascii ''.envoix-ledgers-v2''"
    and apart: "staged_apart plan root_id s"
    and staged: "lookup_name s (root_staging_path plan root_id) = Some node" "\<not> is_link node"
  shows "root_state root_id t = Root_Final Root_Saved (rp_planned_name (wp_root_plans plan ! unat root_id))
    \<and> (\<forall>r n. lookup_name s (root_staging_path plan root_id @ r) = Some n \<longrightarrow>
         lookup_name t (target @ r) = Some n \<and> (\<forall>i. n = N_File i \<longrightarrow> df_content t i = df_content s i))"
proof -
  let ?source = "root_staging_path plan root_id"
  let ?names = "staged_names ?source s"
  let ?contents = "staged_contents ?source s"
  have target: "\<not> in_ledgers plan (target @ r)" for r
    using final
    by (auto simp: target_path_for_root_def vec_get_def ledgers_directory_def below_append bind_eq_Some_conv split: if_splits)
  have "holding plan (ranged root_id) ?names ?contents s"
    unfolding plan using apart shape direct range by (intro holding_start) (simp_all add: plan ranged_def)
  moreover have "?names ?source = Some node"
    using staged(1) by (simp add: staged_names_def below_append)
  ultimately have "holding plan (\<lambda>l. sl_roots l ! unat root_id = Root_Final Root_Saved (rp_planned_name (wp_root_plans plan ! unat root_id)))
      (moved ?source target ?names) ?contents t"
    by (rule commit_root_holds [OF _ run payload _ direct _ target _ staged(2), folded root_id, OF _ open_root final(1)])
  then have t: "root_state root_id t = Root_Final Root_Saved (rp_planned_name (wp_root_plans plan ! unat root_id))"
      "spares (in_ledgers plan) (moved ?source target ?names) ?contents t"
    by (simp_all add: holding_iff root_state_def)
  have "lookup_name t (target @ r) = Some n \<and> (\<forall>i. n = N_File i \<longrightarrow> df_content t i = df_content s i)"
    if "lookup_name s (?source @ r) = Some n" for r n
  proof -
    have name: "?names (?source @ r) = Some n"
      using that by (simp add: staged_names_def below_append)
    then have "moved ?source target ?names (target @ r) = Some n"
      by (simp add: moved_def below_append)
    moreover have "?contents i = Some (df_content s i)" if "n = N_File i" for i
      using name that by (auto simp: staged_contents_def)
    ultimately show ?thesis
      using t(2) unfolding spares_def by blast
  qed
  with t(1) show ?thesis by blast
qed

definition publish_provider :: Provider where
  "publish_provider = dest_provider\<lparr>df_names := df_names dest_provider
       @ [([ascii ''home'', ascii ''.envoix-staging-v2''], N_Dir 2), (wp_staging_directory dest_plan, N_Dir 3),
          (dest_paths ! 0, N_Dir 4), (dest_paths ! 1, N_File 5),
          ([ascii ''home'', ascii ''.envoix-reservations-v2''], N_Dir 6), (hd (wp_reservations dest_plan), N_File 7)],
     df_content := (\<lambda>i. if i = 5 then [1, 2, 3] else []), df_next := 8, df_faults := [],
     pv_entropy := [Some (replicate 16 9)]\<rparr>"

definition publish_verified :: "VerifiedEntryV2 list" where
  "publish_verified = [\<lparr>vf_entry_id = 0, vf_final_digest = None, vf_completion_choice = Comp_PayloadComplete\<rparr>,
     \<lparr>vf_entry_id = 1, vf_final_digest = Some (replicate 32 0), vf_completion_choice = Comp_PayloadComplete\<rparr>]"

lemma publish_commits:
  "fst (commit_root dest_libs engine_manifest publish_verified (hd (mf_roots engine_manifest)) publish_provider) = Inr ()"
  by code_simp

lemma publish_provider_sels:
  "pv_plan publish_provider = dest_plan" "pv_save_ledger publish_provider = dest_ledger"
  "root_staging_path dest_plan 0 = dest_paths ! 0"
  by (simp_all add: publish_provider_def dest_provider_def root_staging_path_def dest_paths_def decimal.simps ascii_def of_char_def)

lemma publish_apart: "staged_apart dest_plan 0 publish_provider"
  by (simp add: staged_apart_def publish_provider_sels(3))
    (simp add: publish_provider_def dest_provider_def dest_paths_def dest_plan_def below_append dest_names)

theorem commit_publishes_staged_root_witness:
  "let t = snd (commit_root dest_libs engine_manifest publish_verified (hd (mf_roots engine_manifest)) publish_provider)
   in lookup_name t [ascii ''home'', ascii ''d'', ascii ''a''] = Some (N_File 5) \<and> df_content t 5 = [1, 2, 3]"
proof -
  let ?root = "hd (mf_roots engine_manifest)"
  obtain t where t: "commit_root dest_libs engine_manifest publish_verified ?root publish_provider = (Inr (), t)"
    using publish_commits by (cases "commit_root dest_libs engine_manifest publish_verified ?root publish_provider") simp
  have root: "0 = mr_root_id ?root"
    by (simp add: engine_manifest_def)
  have names: "lookup_name publish_provider (dest_paths ! 0) = Some (N_Dir 4)"
      "lookup_name publish_provider (dest_paths ! 0 @ [ascii ''a'']) = Some (N_File 5)" "df_content publish_provider 5 = [1, 2, 3]"
    by (simp_all add: publish_provider_def dest_provider_def dest_paths_def dest_plan_def ascii_def of_char_def)
  have facts: "vf_completion_choice (publish_verified ! unat (mr_root_entry_id ?root)) \<noteq> Comp_ReuseChosen"
      "root_state 0 publish_provider = Root_Pending" "unat (0 :: u32) < length (sl_roots (pv_save_ledger publish_provider))"
      "wp_mode dest_plan = DirectSave" "rp_planned_name (wp_root_plans dest_plan ! unat (0 :: u32)) \<noteq> ascii ''.envoix-ledgers-v2''"
    by (simp_all add: publish_verified_def engine_manifest_def root_state_def publish_provider_sels dest_ledger_def dest_plan_def
        ascii_def)
  have "target_path_for_root dest_plan 0 = Some [ascii ''home'', ascii ''d'']"
    by (simp add: target_path_for_root_def dest_plan_def vec_get_def)
  from commit_publishes_staged_root [OF root publish_provider_sels(1) [symmetric] t _ _ _ dest_shape _ this _ publish_apart]
  have "\<forall>r n. lookup_name publish_provider (dest_paths ! 0 @ r) = Some n \<longrightarrow>
      lookup_name t ([ascii ''home'', ascii ''d''] @ r) = Some n \<and> (\<forall>i. n = N_File i \<longrightarrow> df_content t i = df_content publish_provider i)"
    using names(1) facts by (simp add: publish_provider_sels is_link_def)
  then show ?thesis
    using names(2,3) t by fastforce
qed

section \<open>The accept\<close>

text \<open>
  C23: the destination and the data plane agree on the accept. For a valid offer whose space was
  checked and a plan of the checked shape, \<open>create_initial_accept\<close> gives an accept that the engine's
  \<open>validate_accept\<close> takes, directories and late digests included, with a proof capability that is not zero; a ledger can be started from it,
  and this ledger satisfies the invariant on which \<open>receive\<close> relies.
\<close>

theorem plan_accept_starts_ledger:
  assumes valid: "offer_valid el offer" and shape: "validate_shape tg plan = Inr ()"
    and space: "validate_space (of_manifest offer) request mode same_domain = Inr ()"
    and accept: "create_initial_accept plan offer nonce capability = Inr accept"
    and encodes: "frame_body_digest el (F_Accept accept) = Inr digest"
  shows "validate_accept offer accept = Inr () \<and> ac_proof_capability accept \<noteq> replicate 32 0
    \<and> (\<exists>l. ledger_new el offer accept = Inr l \<and> ledger_ok el offer l \<and> lg_accept l = accept)"
proof -
  note ok = initial_accept_valid [OF valid shape space accept]
  then obtain l where l: "ledger_new el offer accept = Inr l" "lg_accept l = accept"
    using encodes by (simp add: ledger_new_def)
  have "ep_next_plaintext_block plan = 0" if "plan \<in> set (ac_entry_plans accept)" for plan
    using that by (auto simp: initial_accept_parts(5) [OF accept])
  then have "ledger_ok el offer l"
    by (intro ledger_new_ok [OF valid l(1)]) auto
  then show ?thesis
    using ok l initial_accept_parts(6) [OF accept] by blast
qed

lemma engine_accept_created:
  "create_initial_accept dest_plan engine_offer (Some (replicate 32 8)) (Some (replicate 32 4)) = Inr engine_accept"
  by (simp add: create_initial_accept_def plan_fits_def dest_plan_def engine_offer_def engine_manifest_def engine_accept_def
      sample_identity_def ok_or_def rejectR_def)

lemma engine_space: "validate_space (of_manifest engine_offer) create_request DirectSave False = Inr ()"
  by code_simp

theorem plan_accept_starts_ledger_witness:
  "\<exists>l. ledger_new engine_libs engine_offer engine_accept = Inr l \<and> ledger_ok engine_libs engine_offer l"
  using plan_accept_starts_ledger [OF engine_offer_valid dest_shape engine_space engine_accept_created engine_accept_digest]
  by blast

end
