(* ===== verification/Spec2Isabelle.thy ===== *)
theory Spec2Isabelle
  imports Manifest_Properties Frames_Properties Auth_Envelope Broker_Serve_Properties
    Transfer_Events Delivery_Store_Properties Room_Invite_Properties Room_Control_Properties
    Job_Properties Engine_Properties Dest_Properties
begin

text \<open>
  A verification of envoix, a peer-to-peer file transfer program. Two peers meet through a rendezvous
  broker that relays their pairing, authenticate each other, and transfer a selection of files
  that a manifest describes. The program's own logic is Rust under \<open>src/crates/\<close>; this development
  models its protocol crate, the broker, the transfer jobs, the data plane and the delivery records
  of the transfer crate, and the room control of its session crate.

  \<^bold>\<open>Conventions.\<close> A \<open>Result\<close> is a sum with the error on the left; an operation that can change its
  state before it fails returns the state beside its result. Machine integers are words of
  their width, bytes are 8-bit words, strings are their UTF-8 bytes. Hash maps whose order is never
  observed are association lists with distinct keys. Instants and durations are natural numbers of
  nanoseconds, and \<open>f64\<close> is rational arithmetic rounded to nearest, ties to even (theory \<open>F64\<close>).
  Hash functions, the Unicode normal form check, JSON, randomness, clocks and the outcome of
  input and output are arguments. What is assumed of them is a hypothesis of the theorem that needs it.

  \<^bold>\<open>Library.\<close> \<open>Prelude\<close> holds results, words, strings and lists; \<open>Reader\<close> the parser monad of the
  decoders and the locales \<open>codec\<close>, \<open>indexed_codec\<close> and \<open>tag_table\<close>, interpreted for every field, frame
  payload and wire enumeration; \<open>Ledger\<close> the locale of counted guards, interpreted for the broker's
  sources and for its room slots; \<open>Systems\<close> the locales of a step system with an invariant and of a
  system that refines an abstract one, interpreted for the transfer job.

  \<^bold>\<open>Manifest\<close> (\<open>crates/envoix-protocol/src/manifest_v2.rs\<close>). \<open>Manifest\<close> has the data and the validator in
  the order of the code, \<open>Manifest_Valid\<close> what an accepted manifest satisfies (a forest of entries in
  parent-first order with unique names per folder, bounded depth and path length, exact totals),
  \<open>Manifest_Codec\<close> and \<open>Manifest_Offer\<close> the offer's wire form, \<open>Manifest_Properties\<close> the results: the
  validator is equivalent to a declarative specification, paths stay below their root, the
  wire form is canonical, encoding never exceeds the frame limit, each rejection is located.

  \<^bold>\<open>Frames\<close> (\<open>manifest_v2_frames.rs\<close>). \<open>Frames\<close> and \<open>Frames_Codec\<close> have the thirteen frames with their
  encoders and decoders, \<open>Frames_Properties\<close> the round trips over a stream, the limits, what a reader
  consumes. \<open>Auth_Envelope\<close> has the authentication frames of \<open>lib.rs\<close> of the same crate.

  \<^bold>\<open>Broker\<close> (\<open>crates/envoix-rendezvous\<close>). \<open>Broker_Types\<close> is configuration, joins, replies and the token
  bucket; \<open>Broker_Sources\<close> the admission by source; \<open>Broker_Rooms\<close> the rooms, one definition per
  transition under the lock; \<open>Broker_Serve\<close> the life of a connection, the relay and the framing. A step
  relation interleaves the transitions of any number of connections. \<open>Broker_Properties\<close>,
  \<open>Broker_Rooms_Inv\<close>, \<open>Broker_Rooms_Properties\<close>, \<open>Broker_Serve_Inv\<close> and \<open>Broker_Serve_Properties\<close> show
  that the counters equal the guards alive and return to zero, that a room pairs one creator and
  joiners of the complementary role, that attempts are bounded, when each join is accepted and
  refused, that the sweep removes exactly the rooms that are over, and that the relay forwards bytes unchanged, in whole
  frames except for the start of one whose write fails. The limit of waiting creators is not among the limits that hold.

  \<^bold>\<open>Transfer events\<close> (\<open>crates/envoix-transfer/src/lib.rs\<close>). \<open>Transfer_Events\<close> has the cancellation token with
  concurrent waiting calls and the stage timeline with concurrent recorders. Stages reach the sink in
  order; a waiting call can miss a cancellation.

  \<^bold>\<open>Delivery\<close> (\<open>crates/envoix-transfer/src/delivery_v2.rs\<close>). \<open>Delivery\<close> has both records, the proof, the
  resume challenge and the stores. \<open>Delivery_Properties\<close> shows that a record moves
  forward only, and stays valid unless it is given results it does not check (the engine's are always fine), that a confirmed delivery is agreement on the results and that an honest one
  completes; \<open>Delivery_Store_Properties\<close> that records are read back and what a failed save leads to.

  \<^bold>\<open>Jobs\<close> (\<open>crates/envoix-transfer/src/job.rs\<close>). \<open>Job\<close> has the record and its queries, \<open>Job_Prepare\<close> the walk of a
  source, \<open>Job_Ops\<close> the operations on the sources, \<open>Job_Seal\<close> sealing and the durable check. An operation is a
  function of the job to its result and the job it leaves, also when it fails; the file system and the
  clock are an argument of each call. \<open>Job_Listing\<close> and \<open>Job_Enum\<close> show what a walk lists, \<open>Job_Inv\<close> has the
  invariant with a Hoare logic for it and \<open>Job_Inv_Sources\<close>, \<open>Job_Inv_Ops\<close>, \<open>Job_Inv_Steps\<close>, \<open>Job_Inv_Seal\<close> its proofs per
  operation; \<open>Job_System\<close> is the step relation of a job under all operations,
  with any paths or, for \<open>careful\<close> runs, with paths that are not the job's own staging files; steps in which a 64-bit counter
  overflows are left out. \<open>Job_Durable\<close> shows what the
  durable check says of a job with the invariant, \<open>Forest_Order\<close>, \<open>Job_Manifest\<close>, \<open>Job_Forest\<close> and \<open>Job_Ready\<close> that the sealed manifest is a
  canonical forest that mirrors the inventory, \<open>Job_Revision\<close> that the revision identifies the
  inventory (up to digests added to a sealed job) and that a sealed job is frozen, \<open>Job_Total\<close> that preparation returns. \<open>Job_Properties\<close> states the
  results over all runs: which records can be saved (all but those created without a clock, those with a source about to be deleted, and sealed
  ones that were cancelled), that a ready job
  can be sealed exactly when it fits the wire format, that what is sealed decodes to the inventory, that roots
  are disjoint, that pages are complete and that cursors never mix two inventories.

  \<^bold>\<open>Engine\<close> (\<open>crates/envoix-transfer/src/manifest_v2_engine.rs\<close>). \<open>Effect\<close> has operations that can fail, with weakest
  preconditions. \<open>Engine_Data\<close> is the receiver's ledger of checkpoints, its store and every check of accepts, resume
  statuses, blocks, completions and results; \<open>Engine_Receive\<close> the receiver and \<open>Engine_Send\<close> the sender, one definition per
  function or arm of a loop. A run is given what arrives and which sends and saves fail; the payload sink is a record of
  functions on its own state, a source answers differently at each moment it is read. \<open>Engine_Ledger\<close> is the
  invariant of the ledger; \<open>Engine_Receive_Inv\<close>, \<open>Engine_Receive_Steps\<close> and \<open>Engine_Receive_Run\<close> show with a Hoare logic on the
  ledger that the receiver keeps it in memory and in the store whatever happens and never undoes a decision;
  \<open>Engine_Resume\<close> that a sender accepts the resume status of such a ledger, when its entries were started with the default
  block size, and derives the same completions from it;
  \<open>Engine_Stream\<close> which frames a file becomes and \<open>Engine_Transfer\<close> that the receiver takes exactly these. \<open>Engine_Properties\<close>
  states the results.

  \<^bold>\<open>Destination\<close> (\<open>crates/envoix-transfer/src/destination_v2.rs\<close>, \<open>persistence_v2.rs\<close>). \<open>Dest_Fs\<close> is a file system with names, inodes,
  links and volumes, in which every call takes the next outcome of a list of faults. \<open>Dest_Plan\<close> has plans, safe names and
  space, \<open>Dest_Create\<close> the making, checking and storing of a plan, \<open>Dest_Provider\<close> the payload sink that stages and verifies
  files and reconciles a resumed job, and \<open>Dest_Commit\<close> the commit, with the ledger of saves and both modes. \<open>Dest_Spare\<close> shows
  in the locale \<open>spared\<close> that the file operations keep everything outside a set of private names; \<open>Dest_Provider_Spare\<close>
  interprets it for the provider and \<open>Dest_Run\<close> lifts it, through the locale \<open>kept_sink\<close> of sinks that keep an invariant, to whole runs
  of the receiver. \<open>Dest_Publish\<close> interprets it again to follow a staged tree to its final path, \<open>Dest_Names\<close> has the choice of
  names and \<open>Dest_Accept\<close> the accept of a plan. \<open>Dest_Properties\<close> concludes that no run touches the user's files, that a commit
  publishes what was staged, that planned names are free, that the accept of a plan starts a valid ledger, and that a
  completed directory makes every resume fail.

  \<^bold>\<open>Rooms\<close> (\<open>RoomCode\<close> of \<open>crates/envoix-invite/src/lib.rs\<close>, \<open>crates/envoix-session/src/room_control.rs\<close>). \<open>Room_Invite\<close>
  has room codes and invitation links, on the string functions of \<open>Rust_Text\<close>; \<open>Room_Control\<close> the lifetime machine, the
  offers, every operation of a session and the hello; \<open>Room_System\<close> two sessions over a stream as a step relation.
  \<open>Room_Invite_Properties\<close> shows that links are read back and codes are canonical and unbiased;
  \<open>Room_System_Inv\<close> and \<open>Room_Control_Properties\<close> that two sessions never break the protocol, agree when nothing is in
  flight, and are never left half changed by a failure.

  \<^bold>\<open>Bounds.\<close> Decoders and the relay recurse on the input, loops over entries are folds: there is no
  fuel except in \<open>read_frames\<close>, where it is the number of frames asked for. \<open>new_challenge_nonce\<close> takes the
  list of draws and is \<open>None\<close> when they run out, and so does the sampling of room codes; \<open>next_event\<close> takes
  the messages that arrive. The search of a job for a free item id is a \<open>while_option\<close>, shown to end when the
  hash has enough values; the walk of a source terminates by its budget and its stack, the loop that sends a file by
  the bytes left of it, the loop that receives one by the frames that arrive. A free name is searched among the 10000 suffixes the
  code tries.

  \<^bold>\<open>Not modelled.\<close> Cryptography (SPAKE2 in \<open>envoix-auth\<close>, BLAKE3, QUIC), sockets and endpoints
  (\<open>envoix-rendezvous-iroh\<close>, the endpoint part of \<open>envoix-session\<close>), the
  files of the job store of \<open>envoix-transfer\<close>, the query of free space and the system calls below the file system, invitations (\<open>envoix-invite\<close>) beyond the room code and
  what the broker reads of them, the clients, the FFI and the native applications. Mutex poisoning and
  tracing are left out.
\<close>

end
